(* ===== verification/Prelude.thy ===== *)
theory Prelude imports Main "HOL-Library.Word" "HOL-Library.List_Lexorder" begin

text \<open>
  What every component of the broker model shares: JavaScript strings and bytes as machine
  words, thrown errors as values of a sum type (\<open>errors.ts\<close>), operations on durable storage as
  explicit state passing with \<open>transactionSync\<close>, and SQLite tables as lists of rows whose
  constraints are checked at every write.
\<close>

named_theorems result_simps
named_theorems op_simps
named_theorems broker_only_intros

section \<open>Strings and bytes\<close>

text \<open>
  A JavaScript string is its sequence of UTF-16 code units, so \<open>length\<close>, \<open>charCodeAt\<close> and
  \<open>===\<close> are the list operations. \<open>js\<close> writes an ASCII literal of the source.
\<close>

type_synonym code_unit = "16 word"
type_synonym js_string = "code_unit list"
type_synonym byte = "8 word"
type_synonym bytes = "byte list"

definition js :: "string \<Rightarrow> js_string" where
  "js s = map of_char s"

lemma of_char16_inj: "inj (of_char :: char \<Rightarrow> 16 word)"
proof (rule injI)
  fix c d :: char
  assume eq: "(of_char c :: 16 word) = of_char d"
  have small: "(of_char x :: nat) < 65536" for x :: char
  proof -
    have "(of_char x :: nat) < 256" by simp
    then show ?thesis by linarith
  qed
  have "unat (of_char x :: 16 word) = of_char x" for x :: char
  proof -
    have "(of_char x :: 16 word) = of_nat (of_char x)" by (simp add: of_nat_of_char)
    moreover have "unat (of_nat (of_char x) :: 16 word) = of_char x"
      using small [of x] by (subst unat_of_nat) (simp add: take_bit_eq_mod)
    ultimately show ?thesis by simp
  qed
  with arg_cong [OF eq, of unat] show "c = d" by simp
qed

lemma js_eq_iff [simp]: "js a = js b \<longleftrightarrow> a = b"
  by (auto simp: js_def inj_map_eq_map [OF of_char16_inj])

lemma js_append: "js (a @ b) = js a @ js b"
  by (simp add: js_def)

lemma length_js [simp]: "length (js s) = length s"
  by (simp add: js_def)

lemma js_Nil [simp]: "js [] = []" and js_eq_Nil [simp]: "js s = [] \<longleftrightarrow> s = []"
  and Nil_eq_js [simp]: "[] = js s \<longleftrightarrow> s = []"
  by (auto simp: js_def)

section \<open>Errors and results\<close>

text \<open>
  \<open>Broker code status retryable\<close> is a \<open>BrokerError\<close>, \<open>Candidate code\<close> the \<open>CandidatePublicV2Error\<close> of
  the public codecs; \<open>Native\<close> stands for the errors the
  runtime itself throws (a failed SQLite constraint, an invalid \<open>Date\<close>, invalid JSON).
\<close>

datatype native_error = SqlConstraint | RangeError | SyntaxError | TypeError

datatype js_error =
    Broker (err_code: js_string) (err_status: int) (err_retryable: bool)
  | Candidate (candidate_code: js_string)
  | Native native_error

abbreviation broker :: "string \<Rightarrow> int \<Rightarrow> bool \<Rightarrow> js_error" where
  "broker code status retryable \<equiv> Broker (js code) status retryable"

type_synonym 'a result = "js_error + 'a"

fun bind_r :: "'a result \<Rightarrow> ('a \<Rightarrow> 'b result) \<Rightarrow> 'b result" where
  "bind_r (Inl e) f = Inl e"
| "bind_r (Inr x) f = f x"

text \<open>The \<open>assert(condition, code, status)\<close> of \<open>errors.ts\<close>; the thrown error is not retryable.\<close>

definition assert_js :: "bool \<Rightarrow> string \<Rightarrow> int \<Rightarrow> unit result" where
  "assert_js cond code status = (if cond then Inr () else Inl (broker code status False))"

definition require_r :: "bool \<Rightarrow> js_error \<Rightarrow> unit result" where
  "require_r cond e = (if cond then Inr () else Inl e)"

lemma bind_r_eq_Inr [result_simps]:
  "bind_r m f = Inr y \<longleftrightarrow> (\<exists>x. m = Inr x \<and> f x = Inr y)"
  by (cases m) auto

lemma bind_r_eq_Inl [result_simps]:
  "bind_r m f = Inl e \<longleftrightarrow> m = Inl e \<or> (\<exists>x. m = Inr x \<and> f x = Inl e)"
  by (cases m) auto

lemma assert_js_eq_Inr [result_simps]: "assert_js c code st = Inr u \<longleftrightarrow> c"
  by (simp add: assert_js_def)

lemma assert_js_eq_Inl [result_simps]:
  "assert_js c code st = Inl e \<longleftrightarrow> \<not> c \<and> e = broker code st False"
  by (auto simp: assert_js_def)

lemma require_r_eq_Inr [result_simps]: "require_r c e = Inr u \<longleftrightarrow> c"
  by (simp add: require_r_def)

lemma require_r_eq_Inl [result_simps]: "require_r c e = Inl e' \<longleftrightarrow> \<not> c \<and> e' = e"
  by (auto simp: require_r_def)

lemma assert_js_True [simp]: "assert_js True code st = Inr ()"
  and assert_js_False [simp]: "assert_js False code st = Inl (broker code st False)"
  and require_r_True [simp]: "require_r True e = Inr ()"
  and require_r_False [simp]: "require_r False e = Inl e"
  by (simp_all add: assert_js_def require_r_def)

fun map_r :: "('a \<Rightarrow> 'b result) \<Rightarrow> 'a list \<Rightarrow> 'b list result" where
  "map_r f [] = Inr []"
| "map_r f (x # xs) = bind_r (f x) (\<lambda>y. bind_r (map_r f xs) (\<lambda>ys. Inr (y # ys)))"

section \<open>Operations on durable state\<close>

text \<open>
  An operation returns its result, or the error it throws, with the state it leaves behind.
  \<open>transaction\<close> is \<open>transactionSync\<close>: a throwing body rolls the state back.
\<close>

type_synonym ('s, 'a) op = "'s \<Rightarrow> 'a result \<times> 's"

definition return_op :: "'a \<Rightarrow> ('s, 'a) op" where
  "return_op x = (\<lambda>s. (Inr x, s))"

definition fail_op :: "js_error \<Rightarrow> ('s, 'a) op" where
  "fail_op e = (\<lambda>s. (Inl e, s))"

definition lift_op :: "'a result \<Rightarrow> ('s, 'a) op" where
  "lift_op r = (\<lambda>s. (r, s))"

definition get_op :: "('s, 's) op" where
  "get_op = (\<lambda>s. (Inr s, s))"

definition bind_op :: "('s, 'a) op \<Rightarrow> ('a \<Rightarrow> ('s, 'b) op) \<Rightarrow> ('s, 'b) op" where
  "bind_op m f = (\<lambda>s. case m s of (Inl e, t) \<Rightarrow> (Inl e, t) | (Inr x, t) \<Rightarrow> f x t)"

definition transaction :: "('s \<Rightarrow> ('a \<times> 's) result) \<Rightarrow> ('s, 'a) op" where
  "transaction body = (\<lambda>s. case body s of Inl e \<Rightarrow> (Inl e, s) | Inr (x, t) \<Rightarrow> (Inr x, t))"

lemma return_op_apply [simp]: "return_op x s = (Inr x, s)"
  and fail_op_apply [simp]: "fail_op e s = (Inl e, s)"
  and lift_op_apply [simp]: "lift_op r s = (r, s)"
  and get_op_apply [simp]: "get_op s = (Inr s, s)"
  by (simp_all add: return_op_def fail_op_def lift_op_def get_op_def)

lemma bind_op_lift [simp]: "bind_op (lift_op (Inr x)) f = f x" "bind_op (lift_op (Inl e)) f = fail_op e"
  "bind_op (return_op x) f = f x" "bind_op (fail_op e) f = fail_op e"
  and bind_op_get [simp]: "bind_op get_op g s = g s s"
  by (simp_all add: bind_op_def fun_eq_iff)

text \<open>A validation in front of an operation leaves the state alone when it fails.\<close>

lemma bind_op_lift_state:
  "snd (bind_op (lift_op r) f s) = (case r of Inl e \<Rightarrow> s | Inr x \<Rightarrow> snd (f x s))"
  by (cases r) simp_all

lemma bind_op_lift_eq_Inr [op_simps]:
  "bind_op (lift_op r) f s = (Inr y, u) \<longleftrightarrow> (\<exists>x. r = Inr x \<and> f x s = (Inr y, u))"
  by (cases r) simp_all

lemma bind_op_eq_Inr [op_simps]:
  "bind_op m f s = (Inr y, u) \<longleftrightarrow> (\<exists>x t. m s = (Inr x, t) \<and> f x t = (Inr y, u))"
  by (auto simp: bind_op_def split: prod.splits sum.splits)

lemma bind_op_state:
  "snd (bind_op m f s) =
     (case m s of (Inl e, t) \<Rightarrow> t | (Inr x, t) \<Rightarrow> snd (f x t))"
  by (auto simp: bind_op_def split: prod.splits sum.splits)

lemma transaction_eq_Inr [op_simps]:
  "transaction body s = (Inr x, t) \<longleftrightarrow> body s = Inr (x, t)"
  by (auto simp: transaction_def split: sum.splits)

lemma transaction_eq_Inl [op_simps]:
  "transaction body s = (Inl e, t) \<longleftrightarrow> body s = Inl e \<and> t = s"
  by (auto simp: transaction_def split: sum.splits)

text \<open>A failed transaction leaves the state as it was.\<close>

lemma transaction_rollback: "fst (transaction body s) = Inl e \<Longrightarrow> snd (transaction body s) = s"
  by (auto simp: transaction_def split: sum.splits prod.splits)

text \<open>
  An invariant kept by every successful body is kept by the transaction, whatever it returns.
\<close>

lemma transaction_inv:
  assumes "I s" and "\<And>x t. body s = Inr (x, t) \<Longrightarrow> I t"
  shows "I (snd (transaction body s))"
  using assms by (auto simp: transaction_def split: sum.splits prod.splits)

lemma bind_op_inv:
  assumes "I (snd (m s))" and "\<And>x t. m s = (Inr x, t) \<Longrightarrow> I t \<Longrightarrow> I (snd (f x t))"
  shows "I (snd (bind_op m f s))"
  using assms by (auto simp: bind_op_state split: prod.splits sum.splits)

text \<open>
  \<open>broker_only r\<close>: whatever \<open>r\<close> throws is an error of the broker's own, never one of the runtime's
  (a violated constraint among them).
\<close>

definition broker_only :: "'a result \<Rightarrow> bool" where
  "broker_only r \<longleftrightarrow> (\<forall>e. r \<noteq> Inl (Native e))"

lemma broker_only_simps [simp, broker_only_intros]:
  "broker_only (Inr x)" "broker_only (Inl (broker code st b))"
  "broker_only (assert_js c code st)"
  by (auto simp: broker_only_def assert_js_def)

lemma broker_only_bind [broker_only_intros]:
  "broker_only m \<Longrightarrow> (\<And>x. m = Inr x \<Longrightarrow> broker_only (f x)) \<Longrightarrow> broker_only (bind_r m f)"
  by (cases m) (auto simp: broker_only_def)

lemma broker_only_bind_op [broker_only_intros]:
  "broker_only (fst (m s)) \<Longrightarrow> (\<And>x t. m s = (Inr x, t) \<Longrightarrow> broker_only (fst (f x t))) \<Longrightarrow>
     broker_only (fst (bind_op m f s))"
  by (auto simp: broker_only_def bind_op_def split: prod.splits sum.splits)

lemma broker_only_ops [broker_only_intros]:
  "broker_only r \<Longrightarrow> broker_only (fst (lift_op r s))"
  "broker_only (fst (return_op x s))" "broker_only (fst (get_op s))"
  "broker_only (fst (fail_op (broker code st b) s))"
  by (auto simp: broker_only_def)

lemma broker_only_transaction [broker_only_intros]:
  "broker_only (body s) \<Longrightarrow> broker_only (fst (transaction body s))"
  by (auto simp: broker_only_def transaction_def split: sum.splits)

lemma broker_only_if [broker_only_intros]:
  "(c \<Longrightarrow> broker_only a) \<Longrightarrow> (\<not> c \<Longrightarrow> broker_only b) \<Longrightarrow> broker_only (if c then a else b)"
  by simp

section \<open>SQLite tables\<close>

text \<open>
  A table is the list of its rows. \<open>ok\<close> is the conjunction of the constraints that the
  \<open>CREATE TABLE\<close> statement declares; a write that would violate one throws and changes nothing.
\<close>

definition write_table :: "('r list \<Rightarrow> bool) \<Rightarrow> 'r list \<Rightarrow> 'r list result" where
  "write_table ok t = (if ok t then Inr t else Inl (Native SqlConstraint))"

definition update_where :: "('r \<Rightarrow> bool) \<Rightarrow> ('r \<Rightarrow> 'r) \<Rightarrow> 'r list \<Rightarrow> 'r list" where
  "update_where p f t = map (\<lambda>r. if p r then f r else r) t"

definition first_row :: "'r list \<Rightarrow> 'r option" where
  "first_row t = (case t of [] \<Rightarrow> None | r # _ \<Rightarrow> Some r)"

lemma write_table_eq_Inr [result_simps]: "write_table ok t = Inr u \<longleftrightarrow> ok t \<and> u = t"
  by (auto simp: write_table_def)

lemma write_table_eq_Inl [result_simps]:
  "write_table ok t = Inl e \<longleftrightarrow> \<not> ok t \<and> e = Native SqlConstraint"
  by (auto simp: write_table_def)

lemma first_row_simps [simp]: "first_row [] = None" "first_row (r # t) = Some r"
  by (simp_all add: first_row_def)

lemma first_row_eq_None [simp]: "first_row t = None \<longleftrightarrow> t = []"
  by (cases t) simp_all

lemma first_row_in: "first_row t = Some r \<Longrightarrow> r \<in> set t"
  by (cases t) auto

lemma set_update_where:
  "set (update_where p f t) = f ` {r \<in> set t. p r} \<union> {r \<in> set t. \<not> p r}"
  by (auto simp: update_where_def)

lemma length_update_where [simp]: "length (update_where p f t) = length t"
  by (simp add: update_where_def)

lemma map_update_where:
  assumes "\<And>r. r \<in> set t \<Longrightarrow> p r \<Longrightarrow> g (f r) = g r"
  shows "map g (update_where p f t) = map g t"
  using assms by (auto simp: update_where_def)

lemma update_where_id: "(\<And>r. r \<in> set t \<Longrightarrow> \<not> p r) \<Longrightarrow> update_where p f t = t"
  by (auto simp: update_where_def intro: map_idI)

text \<open>
  Tables with a unique column: \<open>ok\<close> implies that \<open>key\<close> never repeats, so a lookup by key has
  at most one answer, an update by key changes that row only and an insert adds a fresh key.
\<close>

locale unique_table =
  fixes ok :: "'r list \<Rightarrow> bool" and key :: "'r \<Rightarrow> 'k"
  assumes unique: "ok t \<Longrightarrow> distinct (map key t)"
begin

lemma same_key: "ok t \<Longrightarrow> r \<in> set t \<Longrightarrow> r' \<in> set t \<Longrightarrow> key r = key r' \<Longrightarrow> r = r'"
  using unique by (auto simp: distinct_map inj_on_def)

lemma lookup_Some_iff:
  assumes "ok t"
  shows "first_row (filter (\<lambda>r. key r = k) t) = Some r \<longleftrightarrow> r \<in> set t \<and> key r = k"
proof
  assume "first_row (filter (\<lambda>r. key r = k) t) = Some r"
  from first_row_in [OF this] show "r \<in> set t \<and> key r = k" by simp
next
  assume r: "r \<in> set t \<and> key r = k"
  then have "filter (\<lambda>r. key r = k) t \<noteq> []" by (auto simp: filter_empty_conv)
  then obtain r' where r': "first_row (filter (\<lambda>r. key r = k) t) = Some r'"
    by (cases "filter (\<lambda>r. key r = k) t") auto
  from first_row_in [OF r'] r have "r' = r" using same_key [OF assms] by auto
  with r' show "first_row (filter (\<lambda>r. key r = k) t) = Some r" by simp
qed

lemma lookup_None_iff:
  "first_row (filter (\<lambda>r. key r = k) t) = None \<longleftrightarrow> (\<forall>r \<in> set t. key r \<noteq> k)"
  by (auto simp: filter_empty_conv)

lemma insert_fresh: "ok (t @ [r]) \<Longrightarrow> r' \<in> set t \<Longrightarrow> key r' \<noteq> key r"
  using unique [of "t @ [r]"] by (auto simp: image_iff)

lemma update_by_key:
  assumes "ok t" and "r \<in> set t"
  shows "set (update_where (\<lambda>x. key x = key r) f t) = insert (f r) (set t - {r})"
proof -
  have "{x \<in> set t. key x = key r} = {r}" and "{x \<in> set t. key x \<noteq> key r} = set t - {r}"
    using assms same_key [OF assms(1) _ assms(2)] by auto
  then show ?thesis by (simp add: set_update_where)
qed

lemma lookup_update:
  assumes "ok t" and "r \<in> set t" and "key (f r) = key r"
    and "ok (update_where (\<lambda>x. key x = key r) f t)"
  shows "first_row (filter (\<lambda>x. key x = key r) (update_where (\<lambda>x. key x = key r) f t)) = Some (f r)"
  using lookup_Some_iff [OF assms(4)] update_by_key [OF assms(1,2)] assms(3) by auto

end

end
