(* ===== verification/JsRegex.thy ===== *)
theory JsRegex imports Prelude begin

text \<open>
  The regular expressions of the source. Every pattern the broker tests is anchored
  (\<open>^...$\<close>) and built from ASCII classes, literals, groups, alternatives and repetitions, so a
  test is membership of the whole string. \<open>matches\<close> decides it by derivatives and
  \<open>matches_iff_lang\<close> ties it to the language of the expression. The patterns that several
  components share are defined here, next to the facts the components use of them.
\<close>

section \<open>Expressions and their languages\<close>

text \<open>
  \<open>Cls ''09af''\<close> is the class \<open>[0-9a-f]\<close> (a list of inclusive ranges), \<open>Lit\<close> a literal,
  \<open>Rep r m n\<close> is \<open>r{m,n}\<close> and \<open>RepInf r m\<close> is \<open>r{m,}\<close>.
\<close>

datatype regex =
    Zero
  | One
  | Cls string
  | Lit string
  | Seq regex regex
  | Alt regex regex
  | Rep regex nat nat
  | RepInf regex nat

fun in_cls :: "string \<Rightarrow> code_unit \<Rightarrow> bool" where
  "in_cls (lo # hi # rest) c = (of_char lo \<le> c \<and> c \<le> of_char hi \<or> in_cls rest c)"
| "in_cls _ c = False"

definition conc :: "js_string set \<Rightarrow> js_string set \<Rightarrow> js_string set" where
  "conc A B = {u @ v | u v. u \<in> A \<and> v \<in> B}"

primrec pow :: "js_string set \<Rightarrow> nat \<Rightarrow> js_string set" where
  "pow A 0 = {[]}"
| "pow A (Suc n) = conc A (pow A n)"

primrec lang :: "regex \<Rightarrow> js_string set" where
  "lang Zero = {}"
| "lang One = {[]}"
| "lang (Cls rs) = {[c] | c. in_cls rs c}"
| "lang (Lit s) = {js s}"
| "lang (Seq r s) = conc (lang r) (lang s)"
| "lang (Alt r s) = lang r \<union> lang s"
| "lang (Rep r m n) = (\<Union>k \<in> {m..n}. pow (lang r) k)"
| "lang (RepInf r m) = (\<Union>k \<in> {m..}. pow (lang r) k)"

lemma in_conc: "w \<in> conc A B \<longleftrightarrow> (\<exists>u v. w = u @ v \<and> u \<in> A \<and> v \<in> B)"
  by (auto simp: conc_def)

lemma conc_empty [simp]: "conc {} B = {}" "conc A {} = {}"
  by (auto simp: conc_def)

lemma conc_eps [simp]: "conc {[]} B = B"
  by (auto simp: conc_def)

lemma conc_Un: "conc (A \<union> B) C = conc A C \<union> conc B C"
  by (auto simp: conc_def)

lemma conc_UN: "conc A (\<Union>k \<in> K. B k) = (\<Union>k \<in> K. conc A (B k))"
  by (auto simp: conc_def)

lemma eps_in_pow: "[] \<in> pow A n \<longleftrightarrow> n = 0 \<or> [] \<in> A"
  by (induction n) (auto simp: in_conc)

section \<open>The matcher\<close>

primrec nullable :: "regex \<Rightarrow> bool" where
  "nullable Zero = False"
| "nullable One = True"
| "nullable (Cls rs) = False"
| "nullable (Lit s) = (s = [])"
| "nullable (Seq r s) = (nullable r \<and> nullable s)"
| "nullable (Alt r s) = (nullable r \<or> nullable s)"
| "nullable (Rep r m n) = (m \<le> n \<and> (m = 0 \<or> nullable r))"
| "nullable (RepInf r m) = (m = 0 \<or> nullable r)"

fun seq :: "regex \<Rightarrow> regex \<Rightarrow> regex" where
  "seq Zero s = Zero"
| "seq One s = s"
| "seq r s = Seq r s"

fun alt :: "regex \<Rightarrow> regex \<Rightarrow> regex" where
  "alt Zero s = s"
| "alt r Zero = r"
| "alt r s = Alt r s"

primrec deriv :: "code_unit \<Rightarrow> regex \<Rightarrow> regex" where
  "deriv c Zero = Zero"
| "deriv c One = Zero"
| "deriv c (Cls rs) = (if in_cls rs c then One else Zero)"
| "deriv c (Lit s) =
     (case s of [] \<Rightarrow> Zero | x # xs \<Rightarrow> if of_char x = c then Lit xs else Zero)"
| "deriv c (Seq r s) =
     (if nullable r then alt (seq (deriv c r) s) (deriv c s) else seq (deriv c r) s)"
| "deriv c (Alt r s) = alt (deriv c r) (deriv c s)"
| "deriv c (Rep r m n) = (if n = 0 then Zero else seq (deriv c r) (Rep r (m - 1) (n - 1)))"
| "deriv c (RepInf r m) = seq (deriv c r) (RepInf r (m - 1))"

fun matches :: "regex \<Rightarrow> js_string \<Rightarrow> bool" where
  "matches r [] = nullable r"
| "matches r (c # s) = matches (deriv c r) s"

lemma nullable_iff: "nullable r \<longleftrightarrow> [] \<in> lang r"
  by (induction r) (auto simp: in_conc eps_in_pow intro!: bexI [where x = "_::nat"])

lemma lang_seq [simp]: "lang (seq r s) = conc (lang r) (lang s)"
  by (induction r s rule: seq.induct) (auto simp: in_conc)

lemma lang_alt [simp]: "lang (alt r s) = lang r \<union> lang s"
  by (induction r s rule: alt.induct) auto

definition left_quot :: "code_unit \<Rightarrow> js_string set \<Rightarrow> js_string set" where
  "left_quot c A = {w. c # w \<in> A}"

lemma left_quot_conc:
  "left_quot c (conc A B) =
     (if [] \<in> A then conc (left_quot c A) B \<union> left_quot c B else conc (left_quot c A) B)"
proof -
  have "c # w \<in> conc A B \<longleftrightarrow> ([] \<in> A \<and> c # w \<in> B) \<or> (\<exists>u v. w = u @ v \<and> c # u \<in> A \<and> v \<in> B)" for w
    by (auto simp: in_conc Cons_eq_append_conv)
  then show ?thesis by (intro set_eqI) (simp add: left_quot_def in_conc disj_commute)
qed

lemma left_quot_pow: "left_quot c (pow A (Suc n)) = conc (left_quot c A) (pow A n)"
proof (induction n)
  case 0
  then show ?case by (auto simp: left_quot_def in_conc Cons_eq_append_conv)
next
  case (Suc n)
  have "conc (left_quot c A) (pow A n) \<subseteq> conc (left_quot c A) (pow A (Suc n))" if "[] \<in> A"
  proof
    fix w assume "w \<in> conc (left_quot c A) (pow A n)"
    then obtain u v where w: "w = u @ v" and u: "u \<in> left_quot c A" and v: "v \<in> pow A n"
      by (auto simp: in_conc)
    from v that have "v \<in> pow A (Suc n)" by (simp add: in_conc) (metis append_Nil)
    with w u show "w \<in> conc (left_quot c A) (pow A (Suc n))" by (auto simp: in_conc)
  qed
  moreover have "left_quot c (pow A (Suc (Suc n))) =
      (if [] \<in> A then conc (left_quot c A) (pow A (Suc n)) \<union> left_quot c (pow A (Suc n))
       else conc (left_quot c A) (pow A (Suc n)))"
    by (simp only: pow.simps(2) [of A "Suc n"] left_quot_conc)
  ultimately show ?case using Suc.IH by auto
qed

lemma left_quot_UN: "left_quot c (\<Union>k \<in> K. B k) = (\<Union>k \<in> K. left_quot c (B k))"
  by (auto simp: left_quot_def)

lemma left_quot_pow_0: "left_quot c (pow A 0) = {}"
  by (simp add: left_quot_def)

lemma UN_drop_0: "f 0 = {} \<Longrightarrow> (\<Union>k \<in> K. f k) = (\<Union>k \<in> {k. Suc k \<in> K}. f (Suc k))"
proof (intro equalityI subsetI)
  fix x assume "f 0 = {}" and "x \<in> (\<Union>k \<in> K. f k)"
  then obtain k where "k \<in> K" "x \<in> f k" by auto
  with \<open>f 0 = {}\<close> show "x \<in> (\<Union>k \<in> {k. Suc k \<in> K}. f (Suc k))"
    by (cases k) auto
qed auto

lemma lang_deriv: "lang (deriv c r) = left_quot c (lang r)"
proof (induction r)
  case (Lit s)
  then show ?case by (cases s) (auto simp: left_quot_def js_def)
next
  case (Seq r s)
  then show ?case by (simp add: left_quot_conc nullable_iff conc_Un)
next
  case (Rep r m n)
  have *: "{k. m \<le> Suc k \<and> Suc k \<le> n} = (if n = 0 then {} else {m - 1..n - 1})" by auto
  show ?case
    by (simp add: Rep left_quot_UN UN_drop_0 [where f = "\<lambda>k. left_quot c (pow (lang r) k)", OF left_quot_pow_0] left_quot_pow conc_UN *
        del: pow.simps(2))
next
  case (RepInf r m)
  have *: "{k. m \<le> Suc k} = {m - 1..}" by auto
  show ?case
    by (simp add: RepInf left_quot_UN UN_drop_0 [where f = "\<lambda>k. left_quot c (pow (lang r) k)", OF left_quot_pow_0] left_quot_pow conc_UN *
        del: pow.simps(2))
qed (auto simp: left_quot_def)

theorem matches_iff_lang: "matches r s \<longleftrightarrow> s \<in> lang r"
  by (induction r s rule: matches.induct) (simp_all add: nullable_iff lang_deriv left_quot_def)

section \<open>Consequences of a match\<close>

text \<open>The members of a fixed-length repetition of a class, and of a literal prefix.\<close>

lemma pow_Cls: "s \<in> pow (lang (Cls rs)) n \<longleftrightarrow> length s = n \<and> (\<forall>c \<in> set s. in_cls rs c)"
proof (induction n arbitrary: s)
  case (Suc n)
  have "s \<in> pow (lang (Cls rs)) (Suc n) \<longleftrightarrow>
      (\<exists>c v. s = c # v \<and> in_cls rs c \<and> v \<in> pow (lang (Cls rs)) n)"
    by (auto simp: in_conc intro: exI [where x = "[_]"])
  with Suc show ?case by (cases s) auto
qed auto

lemma lang_Rep_Cls:
  "s \<in> lang (Rep (Cls rs) m n) \<longleftrightarrow> m \<le> length s \<and> length s \<le> n \<and> (\<forall>c \<in> set s. in_cls rs c)"
  by (simp only: lang.simps(7)) (auto simp: pow_Cls [simplified])

lemma matches_Seq: "matches (Seq r s) w \<longleftrightarrow> (\<exists>u v. w = u @ v \<and> matches r u \<and> matches s v)"
  by (simp add: matches_iff_lang in_conc)

lemma matches_Alt: "matches (Alt r s) w \<longleftrightarrow> matches r w \<or> matches s w"
  by (simp add: matches_iff_lang)

lemma matches_Lit: "matches (Lit s) w \<longleftrightarrow> w = js s"
  by (simp add: matches_iff_lang)

lemma matches_Cls: "matches (Cls rs) w \<longleftrightarrow> (\<exists>c. w = [c] \<and> in_cls rs c)"
  by (auto simp: matches_iff_lang)

lemma matches_Rep_Cls:
  "matches (Rep (Cls rs) m n) w \<longleftrightarrow> m \<le> length w \<and> length w \<le> n \<and> (\<forall>c \<in> set w. in_cls rs c)"
  by (simp only: matches_iff_lang lang_Rep_Cls)

lemmas matches_unfold = matches_Seq matches_Alt matches_Lit matches_Cls matches_Rep_Cls

text \<open>\<open>len_bounds r = Some (m, n)\<close> bounds the length of every match, syntactically.\<close>

primrec len_bounds :: "regex \<Rightarrow> (nat \<times> nat) option" where
  "len_bounds Zero = None"
| "len_bounds One = Some (0, 0)"
| "len_bounds (Cls rs) = Some (1, 1)"
| "len_bounds (Lit s) = Some (length s, length s)"
| "len_bounds (Seq r s) = (case (len_bounds r, len_bounds s) of
     (Some (a, b), Some (c, d)) \<Rightarrow> Some (a + c, b + d) | _ \<Rightarrow> None)"
| "len_bounds (Alt r s) = (case (len_bounds r, len_bounds s) of
     (Some (a, b), Some (c, d)) \<Rightarrow> Some (min a c, max b d) | _ \<Rightarrow> None)"
| "len_bounds (Rep r m n) = (case len_bounds r of
     Some (a, b) \<Rightarrow> Some (m * a, n * b) | None \<Rightarrow> None)"
| "len_bounds (RepInf r m) = None"

lemma pow_length:
  assumes "\<And>w. w \<in> A \<Longrightarrow> a \<le> length w \<and> length w \<le> b" and "w \<in> pow A k"
  shows "k * a \<le> length w \<and> length w \<le> k * b"
  using assms(2)
proof (induction k arbitrary: w)
  case (Suc k)
  then obtain u v where "w = u @ v" "u \<in> A" "v \<in> pow A k" by (auto simp: in_conc)
  with Suc.IH [of v] assms(1) [of u] show ?case by auto
qed simp

lemma lang_length:
  "len_bounds r = Some (a, b) \<Longrightarrow> w \<in> lang r \<Longrightarrow> a \<le> length w \<and> length w \<le> b"
proof (induction r arbitrary: a b w)
  case (Seq r s)
  then show ?case by (fastforce simp: in_conc split: option.splits prod.splits)
next
  case (Alt r s)
  then show ?case by (fastforce split: option.splits prod.splits)
next
  case (Rep r m n)
  then obtain a' b' where ab: "len_bounds r = Some (a', b')" "a = m * a'" "b = n * b'"
    by (auto split: option.splits)
  from Rep.prems(2) obtain k where k: "m \<le> k" "k \<le> n" "w \<in> pow (lang r) k" by auto
  from pow_length [OF _ k(3), of a' b'] Rep.IH [OF ab(1)]
  have "k * a' \<le> length w" "length w \<le> k * b'" by auto
  moreover have "m * a' \<le> k * a'" "k * b' \<le> n * b'" using k by simp_all
  ultimately show ?case using ab by linarith
qed auto

lemma matches_length:
  "len_bounds r = Some (a, b) \<Longrightarrow> matches r w \<Longrightarrow> a \<le> length w \<and> length w \<le> b"
  by (simp add: matches_iff_lang lang_length)

section \<open>The shared patterns\<close>

text \<open>\<open>/^sha256:[0-9a-f]{64}$/u\<close>, the tagged SHA-256 digest.\<close>

definition DIGEST :: regex where
  "DIGEST = Seq (Lit ''sha256:'') (Rep (Cls ''09af'') 64 64)"

text \<open>\<open>/^[0-9a-f]{40}$/u\<close>, a git object id.\<close>

definition SHA1_HEX :: regex where
  "SHA1_HEX = Rep (Cls ''09af'') 40 40"

text \<open>The Worker version shape 8-4-4-4-12 of \<open>cloudflare-ids.ts\<close>.\<close>

definition CLOUDFLARE_UUID :: regex where
  "CLOUDFLARE_UUID =
     (let hex = (\<lambda>n. Rep (Cls ''09af'') n n); dash = Lit ''-'' in
      Seq (hex 8) (Seq dash (Seq (hex 4) (Seq dash (Seq (hex 4) (Seq dash
        (Seq (hex 4) (Seq dash (hex 12)))))))))"

text \<open>\<open>/^[A-Za-z0-9][A-Za-z0-9._-]{7,127}$/u\<close>, a caller-supplied request id.\<close>

definition REQUEST_ID :: regex where
  "REQUEST_ID = Seq (Cls ''AZaz09'') (Rep (Cls ''AZaz09..__--'') 7 127)"

text \<open>\<open>/^\\d{4}-\\d{2}-\\d{2}T\\d{2}:\\d{2}:\\d{2}\\.\\d{3}Z$/u\<close>, a UTC timestamp with milliseconds.\<close>

definition TIMESTAMP :: regex where
  "TIMESTAMP =
     (let d = (\<lambda>n. Rep (Cls ''09'') n n) in
      Seq (d 4) (Seq (Lit ''-'') (Seq (d 2) (Seq (Lit ''-'') (Seq (d 2) (Seq (Lit ''T'')
        (Seq (d 2) (Seq (Lit '':'') (Seq (d 2) (Seq (Lit '':'') (Seq (d 2)
          (Seq (Lit ''.'') (Seq (d 3) (Lit ''Z''))))))))))))))"

lemma DIGEST_iff:
  "matches DIGEST w \<longleftrightarrow> (\<exists>h. w = js ''sha256:'' @ h \<and> length h = 64 \<and> (\<forall>c \<in> set h. in_cls ''09af'' c))"
  by (auto simp: DIGEST_def matches_unfold)

lemma DIGEST_replicate: "in_cls ''09af'' c \<Longrightarrow> matches DIGEST (js ''sha256:'' @ replicate 64 c)"
  unfolding DIGEST_iff by (intro exI [of _ "replicate 64 c"]) (auto dest: in_set_replicate [THEN iffD1])

lemma DIGEST_length: "matches DIGEST w \<Longrightarrow> length w = 71"
  using matches_length [of DIGEST 71 71 w] by (simp add: DIGEST_def)

lemma CLOUDFLARE_UUID_length: "matches CLOUDFLARE_UUID w \<Longrightarrow> length w = 36"
  using matches_length [of CLOUDFLARE_UUID 36 36 w] by (simp add: CLOUDFLARE_UUID_def Let_def)

lemma TIMESTAMP_length: "matches TIMESTAMP w \<Longrightarrow> length w = 24"
  using matches_length [of TIMESTAMP 24 24 w] by (simp add: TIMESTAMP_def Let_def)

lemma REQUEST_ID_length: "matches REQUEST_ID w \<Longrightarrow> 8 \<le> length w \<and> length w \<le> 128"
  using matches_length [of REQUEST_ID 8 128 w] by (simp add: REQUEST_ID_def)

end
