(* ===== verification/JsTime.thy ===== *)
theory JsTime imports JsRegex begin

text \<open>
  The part of \<open>Date\<close> the broker uses: time values in milliseconds, \<open>toISOString\<close> and
  \<open>Date.parse\<close> of the format that \<open>toISOString\<close> prints, following ECMAScript's
  \<open>DayFromYear\<close>, \<open>YearFromTime\<close> and month arithmetic. \<open>date_parse\<close> is \<open>None\<close> (\<open>NaN\<close>) outside
  that format. Nearly every use in the source checks that printing the parsed value gives the
  string back, so the formats an engine may accept beyond it make no difference there.
\<close>

section \<open>Calendar\<close>

definition day_from_year :: "int \<Rightarrow> int" where
  "day_from_year y =
     365 * (y - 1970) + (y - 1969) div 4 - (y - 1901) div 100 + (y - 1601) div 400"

definition is_leap :: "int \<Rightarrow> bool" where
  "is_leap y \<longleftrightarrow> y mod 4 = 0 \<and> (y mod 100 \<noteq> 0 \<or> y mod 400 = 0)"

definition year_from_day :: "int \<Rightarrow> int" where
  "year_from_day d =
     (let y = 1970 + (400 * d) div 146097
      in if d < day_from_year y then y - 1
         else if day_from_year (y + 1) \<le> d then y + 1 else y)"

definition month_lengths :: "int \<Rightarrow> int list" where
  "month_lengths y =
     [31, if is_leap y then 29 else 28, 31, 30, 31, 30, 31, 31, 30, 31, 30, 31]"

fun split_month :: "int list \<Rightarrow> int \<Rightarrow> nat \<times> int" where
  "split_month [] d = (0, d)"
| "split_month (l # ls) d =
     (if d < l then (0, d) else (case split_month ls (d - l) of (m, r) \<Rightarrow> (Suc m, r)))"

lemma div_step:
  fixes a k :: int
  assumes "0 < k"
  shows "(a + 1) div k = a div k + (if (a + 1) mod k = 0 then 1 else 0)"
proof -
  have a: "a = k * (a div k) + a mod k" and r: "0 \<le> a mod k" "a mod k < k"
    using assms by (simp_all add: mult_div_mod_eq)
  show ?thesis
  proof (cases "a mod k + 1 = k")
    case True
    with a have "a + 1 = k * (a div k) + k" by linarith
    then have "a + 1 = k * (a div k + 1)" by (simp add: distrib_left)
    with assms show ?thesis by simp
  next
    case False
    with r have lt: "a mod k + 1 < k" "0 \<le> a mod k + 1" by simp_all
    from a have eq: "a + 1 = k * (a div k) + (a mod k + 1)" by simp
    have "(a + 1) div k = a div k" by (rule int_div_pos_eq [OF eq lt(2,1)])
    moreover have "(a + 1) mod k = a mod k + 1" by (rule int_mod_pos_eq [OF eq lt(2,1)])
    ultimately show ?thesis using r by simp
  qed
qed

lemma mod_shift: "(k :: int) dvd c \<Longrightarrow> (y - c) mod k = y mod k"
  by (metis diff_zero dvd_imp_mod_0 mod_diff_right_eq)

lemma day_from_year_Suc:
  "day_from_year (y + 1) = day_from_year y + (if is_leap y then 366 else 365)"
proof -
  have e: "y + 1 - 1969 = y - 1969 + 1" "y + 1 - 1901 = y - 1901 + 1" "y + 1 - 1601 = y - 1601 + 1"
    "y + 1 - 1970 = y - 1970 + 1"
    by simp_all
  have m: "(y - 1969 + 1) mod 4 = y mod 4" "(y - 1901 + 1) mod 100 = y mod 100"
    "(y - 1601 + 1) mod 400 = y mod 400"
    using mod_shift [of 4 1968 y] mod_shift [of 100 1900 y] mod_shift [of 400 1600 y] by simp_all
  note d = div_step [where k = 4 and a = "y - 1969", OF zero_less_numeral, unfolded m]
    div_step [where k = 100 and a = "y - 1901", OF zero_less_numeral, unfolded m]
    div_step [where k = 400 and a = "y - 1601", OF zero_less_numeral, unfolded m]
  have 3: "y mod 100 = 0" if "y mod 400 = 0"
  proof -
    have "(100 :: int) dvd 400" by simp
    with that show ?thesis by (metis dvd_trans mod_eq_0_iff_dvd)
  qed
  have 4: "y mod 4 = 0" if "y mod 100 = 0"
  proof -
    have "(4 :: int) dvd 100" by simp
    with that show ?thesis by (metis dvd_trans mod_eq_0_iff_dvd)
  qed
  have sum: "365 * (b + 1) + (p + P) - (q + Q) + (r + R) = 365 * b + p - q + r + 365 + P - Q + R"
    for b p q r P Q R :: int
    by simp
  have "day_from_year (y + 1) = day_from_year y + 365 + (if y mod 4 = 0 then 1 else 0)
      - (if y mod 100 = 0 then 1 else 0) + (if y mod 400 = 0 then 1 else 0)"
    unfolding day_from_year_def e d by (rule sum)
  then show ?thesis
    unfolding is_leap_def
    by (cases "y mod 400 = 0"; cases "y mod 100 = 0"; cases "y mod 4 = 0") (use 3 4 in auto)
qed

lemma day_from_year_step: "day_from_year y < day_from_year (y + 1)"
  by (simp add: day_from_year_Suc)

lemma day_from_year_strict: "y < y' \<Longrightarrow> day_from_year y < day_from_year y'"
proof (induction rule: int_gr_induct)
  case base
  show ?case by (rule day_from_year_step)
next
  case (step i)
  with day_from_year_step [of i] show ?case by simp
qed

lemma day_from_year_bounds:
  "146097 * (y - 1970) - 608 < 400 * day_from_year y \<and>
   400 * day_from_year y < 146097 * (y - 1970) + 592"
proof -
  have div: "c * (a div c) \<le> a \<and> a < c * (a div c) + c" if "0 < c" for a c :: int
    using that pos_mod_bound [of c a] pos_mod_sign [of c a] mult_div_mod_eq [of c a] by linarith
  show ?thesis
    using div [of 4 "y - 1969"] div [of 100 "y - 1901"] div [of 400 "y - 1601"]
    unfolding day_from_year_def by simp
qed

lemma year_from_day_bounds:
  "day_from_year (year_from_day d) \<le> d \<and> d < day_from_year (year_from_day d + 1)"
proof -
  define n where "n = (400 * d) div 146097"
  have "400 * d = 146097 * n + (400 * d) mod 146097"
    by (simp add: n_def)
  moreover have "0 \<le> (400 * d) mod 146097" "(400 * d) mod 146097 < 146097" by simp_all
  ultimately have n: "146097 * n \<le> 400 * d" "400 * d < 146097 * n + 146097" by linarith+
  have below: "x \<le> d" if "400 * x < 146097 * (1970 + n - 1 - 1970) + 592" for x
    using n(1) that by (simp add: right_diff_distrib)
  have above: "d < x" if "146097 * (1970 + n + 1 + 1 - 1970) - 608 < 400 * x" for x
    using n(2) that by (simp add: distrib_left)
  have lo: "day_from_year (1970 + n - 1) \<le> d"
    by (rule below [OF day_from_year_bounds [THEN conjunct2]])
  have hi: "d < day_from_year (1970 + n + 1 + 1)"
    by (rule above [OF day_from_year_bounds [THEN conjunct1]])
  show ?thesis
    using lo hi unfolding year_from_day_def n_def [symmetric] Let_def by simp
qed

lemma year_from_day_eq:
  assumes "day_from_year y \<le> d" "d < day_from_year (y + 1)"
  shows "year_from_day d = y"
proof (rule ccontr)
  assume "year_from_day d \<noteq> y"
  then consider "year_from_day d < y" | "y < year_from_day d" by linarith
  then show False
  proof cases
    case 1
    then have "day_from_year (year_from_day d + 1) \<le> day_from_year y"
      using day_from_year_strict [of "year_from_day d + 1" y] by (cases "year_from_day d + 1 = y") auto
    with assms year_from_day_bounds [of d] show False by linarith
  next
    case 2
    then have "day_from_year (y + 1) \<le> day_from_year (year_from_day d)"
      using day_from_year_strict [of "y + 1" "year_from_day d"] by (cases "y + 1 = year_from_day d") auto
    with assms year_from_day_bounds [of d] show False by linarith
  qed
qed

lemma split_month_sound:
  assumes "split_month ls d = (m, r)" and "0 \<le> d" and "d < sum_list ls"
  shows "m < length ls \<and> 0 \<le> r \<and> r < ls ! m \<and> d = sum_list (take m ls) + r"
  using assms
proof (induction ls arbitrary: d m)
  case (Cons l ls)
  show ?case
  proof (cases "d < l")
    case False
    with Cons.prems obtain m' where "split_month ls (d - l) = (m', r)" "m = Suc m'"
      by (auto split: prod.splits)
    with Cons.IH [of "d - l" m'] Cons.prems False show ?thesis by auto
  qed (use Cons.prems in auto)
qed simp

lemma split_month_take:
  assumes "m < length ls" and "0 \<le> r" and "r < ls ! m" and "\<forall>l \<in> set ls. 0 \<le> l"
  shows "split_month ls (sum_list (take m ls) + r) = (m, r)"
  using assms
proof (induction ls arbitrary: m)
  case (Cons l ls)
  show ?case
  proof (cases m)
    case (Suc m')
    have "0 \<le> sum_list (take m' ls)"
      using Cons.prems(4) by (intro sum_list_nonneg) (auto dest: in_set_takeD)
    with Suc Cons.IH [of m'] Cons.prems show ?thesis by simp
  qed (use Cons.prems in auto)
qed simp

lemma sum_month_lengths: "sum_list (month_lengths y) = (if is_leap y then 366 else 365)"
  by (simp add: month_lengths_def)

section \<open>Printing and parsing\<close>

definition digit :: "int \<Rightarrow> code_unit" where
  "digit d = of_int (48 + d)"

fun pad :: "nat \<Rightarrow> int \<Rightarrow> js_string" where
  "pad 0 n = []"
| "pad (Suc k) n = pad k (n div 10) @ [digit (n mod 10)]"

definition num :: "js_string \<Rightarrow> int" where
  "num s = foldl (\<lambda>a c. 10 * a + (uint c - 48)) 0 s"

record date_fields =
  f_year :: int
  f_month :: int
  f_day :: int
  f_hour :: int
  f_minute :: int
  f_second :: int
  f_ms :: int

definition fields_of_ms :: "int \<Rightarrow> date_fields" where
  "fields_of_ms t =
     (let d = t div 86400000; tod = t mod 86400000; y = year_from_day d;
          (m, r) = split_month (month_lengths y) (d - day_from_year y)
      in \<lparr>f_year = y, f_month = int m + 1, f_day = r + 1, f_hour = tod div 3600000,
          f_minute = tod div 60000 mod 60, f_second = tod div 1000 mod 60, f_ms = tod mod 1000\<rparr>)"

definition fields_text :: "js_string \<Rightarrow> date_fields \<Rightarrow> js_string" where
  "fields_text year f =
     year @ js ''-'' @ pad 2 (f_month f) @ js ''-'' @ pad 2 (f_day f) @ js ''T'' @
     pad 2 (f_hour f) @ js '':'' @ pad 2 (f_minute f) @ js '':'' @ pad 2 (f_second f) @
     js ''.'' @ pad 3 (f_ms f) @ js ''Z''"

text \<open>
  \<open>new Date(t).toISOString()\<close>: a \<open>RangeError\<close> outside the range of time values; years outside
  0..9999 print with a sign and six digits.
\<close>

definition iso_string :: "int \<Rightarrow> js_string" where
  "iso_string t =
     (let f = fields_of_ms t; y = f_year f
      in fields_text
           (if 0 \<le> y \<and> y \<le> 9999 then pad 4 y
            else if 0 \<le> y then js ''+'' @ pad 6 y else js ''-'' @ pad 6 (- y)) f)"

definition to_iso_string :: "int \<Rightarrow> js_string result" where
  "to_iso_string t =
     (if \<bar>t\<bar> \<le> 8640000000000000 then Inr (iso_string t) else Inl (Native RangeError))"

definition fields_of_text :: "js_string \<Rightarrow> date_fields" where
  "fields_of_text s =
     \<lparr>f_year = num (take 4 s), f_month = num (take 2 (drop 5 s)), f_day = num (take 2 (drop 8 s)),
      f_hour = num (take 2 (drop 11 s)), f_minute = num (take 2 (drop 14 s)),
      f_second = num (take 2 (drop 17 s)), f_ms = num (take 3 (drop 20 s))\<rparr>"

text \<open>
  The checks of V8's ISO date parser, the engine of the Workers runtime: every field in its own
  range. A day that its month does not have (30 February) counts over into the next month; such a
  text never prints back as itself.
\<close>

definition valid_fields :: "date_fields \<Rightarrow> bool" where
  "valid_fields f \<longleftrightarrow>
     1 \<le> f_month f \<and> f_month f \<le> 12 \<and>
     1 \<le> f_day f \<and> f_day f \<le> 31 \<and>
     (f_hour f \<le> 23 \<or> f_hour f = 24 \<and> f_minute f = 0 \<and> f_second f = 0 \<and> f_ms f = 0) \<and>
     f_minute f \<le> 59 \<and> f_second f \<le> 59"

definition ms_of_fields :: "date_fields \<Rightarrow> int" where
  "ms_of_fields f =
     (day_from_year (f_year f) + sum_list (take (nat (f_month f - 1)) (month_lengths (f_year f)))
        + (f_day f - 1)) * 86400000
     + f_hour f * 3600000 + f_minute f * 60000 + f_second f * 1000 + f_ms f"

definition date_parse :: "js_string \<Rightarrow> int option" where
  "date_parse s =
     (let f = fields_of_text s
      in if matches TIMESTAMP s \<and> valid_fields f then Some (ms_of_fields f) else None)"

text \<open>The test \<open>new Date(Date.parse(value)).toISOString() === value\<close> of the source.\<close>

definition is_canonical_time :: "js_string \<Rightarrow> bool" where
  "is_canonical_time s \<longleftrightarrow> (case date_parse s of None \<Rightarrow> False | Some t \<Rightarrow> to_iso_string t = Inr s)"

section \<open>Parsing inverts printing\<close>

lemma length_pad [simp]: "length (pad k n) = k"
  by (induction k n rule: pad.induct) auto

lemma uint_digit: "0 \<le> d \<Longrightarrow> d < 10 \<Longrightarrow> uint (digit d) = 48 + d"
  by (simp only: digit_def uint_word_of_int_eq take_bit_eq_mod) simp

lemma num_snoc: "num (s @ [c]) = 10 * num s + (uint c - 48)"
  by (simp add: num_def)

lemma num_pad: "0 \<le> n \<Longrightarrow> n < 10 ^ k \<Longrightarrow> num (pad k n) = n"
proof (induction k arbitrary: n)
  case 0
  then show ?case by (simp add: num_def)
next
  case (Suc k)
  have "num (pad k (n div 10)) = n div 10" using Suc by simp
  then show ?case by (simp add: num_snoc uint_digit)
qed

lemma in_cls_digit: "in_cls ''09'' c \<longleftrightarrow> 48 \<le> uint c \<and> uint c \<le> 57"
  by (simp add: word_le_def)

lemma pad_digits: "c \<in> set (pad k n) \<Longrightarrow> in_cls ''09'' c"
proof (induction k arbitrary: n)
  case (Suc k)
  have "0 \<le> n mod 10" "n mod 10 < 10" by simp_all
  then have "in_cls ''09'' (digit (n mod 10))" by (simp only: in_cls_digit uint_digit) linarith
  with Suc show ?case by auto
qed simp

lemma matches_SeqI: "matches r u \<Longrightarrow> matches s v \<Longrightarrow> matches (Seq r s) (u @ v)"
  by (auto simp: matches_Seq)

lemma matches_pad: "matches (Rep (Cls ''09'') k k) (pad k n)"
  by (simp add: matches_Rep_Cls pad_digits del: in_cls.simps)

lemma matches_Lit_js: "matches (Lit s) (js s)"
  by (simp add: matches_Lit)

lemma fields_text_matches: "matches TIMESTAMP (fields_text (pad 4 y) f)"
  unfolding TIMESTAMP_def Let_def fields_text_def
  by (intro matches_SeqI matches_pad matches_Lit_js)

definition in_range :: "date_fields \<Rightarrow> bool" where
  "in_range f \<longleftrightarrow> 0 \<le> f_year f \<and> f_year f \<le> 9999 \<and> 0 \<le> f_month f \<and> f_month f \<le> 99 \<and>
     0 \<le> f_day f \<and> f_day f \<le> 99 \<and> 0 \<le> f_hour f \<and> f_hour f \<le> 99 \<and>
     0 \<le> f_minute f \<and> f_minute f \<le> 99 \<and> 0 \<le> f_second f \<and> f_second f \<le> 99 \<and>
     0 \<le> f_ms f \<and> f_ms f \<le> 999"

lemma take_drop_len: "length u = n \<Longrightarrow> take n (u @ v) = u" "length u = n \<Longrightarrow> drop n (u @ v) = v"
  by simp_all

lemma fields_of_text_fields_text:
  assumes "in_range f"
  shows "fields_of_text (fields_text (pad 4 (f_year f)) f) = f"
proof -
  have pads: "num (pad 4 (f_year f)) = f_year f" "num (pad 2 (f_month f)) = f_month f"
    "num (pad 2 (f_day f)) = f_day f" "num (pad 2 (f_hour f)) = f_hour f"
    "num (pad 2 (f_minute f)) = f_minute f" "num (pad 2 (f_second f)) = f_second f"
    "num (pad 3 (f_ms f)) = f_ms f"
    using assms by (simp_all add: in_range_def num_pad del: pad.simps)
  have slices: "take 4 s = a" "take 2 (drop 5 s) = b" "take 2 (drop 8 s) = c"
      "take 2 (drop 11 s) = d" "take 2 (drop 14 s) = e" "take 2 (drop 17 s) = g"
      "take 3 (drop 20 s) = h"
    if "s = a @ js ''-'' @ b @ js ''-'' @ c @ js ''T'' @ d @ js '':'' @ e @ js '':'' @ g @ js ''.'' @
          h @ js ''Z''"
      and "length a = 4" "length b = 2" "length c = 2" "length d = 2" "length e = 2" "length g = 2"
        "length h = 3"
    for s a b c d e g h
    using that by simp_all
  note sl = slices [OF fields_text_def, of "pad 4 (f_year f)" f, OF length_pad length_pad
      length_pad length_pad length_pad length_pad length_pad]
  show ?thesis
    unfolding fields_of_text_def sl pads by simp
qed

lemma month_lengths_nonneg: "\<forall>l \<in> set (month_lengths y). 0 \<le> l"
  and length_month_lengths [simp]: "length (month_lengths y) = 12"
  by (auto simp: month_lengths_def)

lemma month_lengths_le: "m < 12 \<Longrightarrow> month_lengths y ! m \<le> 31"
proof -
  assume "m < 12"
  then have "month_lengths y ! m \<in> set (month_lengths y)" by simp
  then show ?thesis by (auto simp: month_lengths_def split: if_splits)
qed

lemma month_of_ms:
  assumes "split_month (month_lengths (year_from_day d)) (d - day_from_year (year_from_day d)) = (m, r)"
  shows "m < 12 \<and> 0 \<le> r \<and> r < month_lengths (year_from_day d) ! m \<and>
     d - day_from_year (year_from_day d) = sum_list (take m (month_lengths (year_from_day d))) + r"
proof -
  have "0 \<le> d - day_from_year (year_from_day d)"
    and "d - day_from_year (year_from_day d) < sum_list (month_lengths (year_from_day d))"
    using year_from_day_bounds [of d] by (simp_all add: sum_month_lengths day_from_year_Suc)
  from split_month_sound [OF assms this] show ?thesis by simp
qed

lemma mod60: "0 \<le> q mod 60" "q mod 60 \<le> 59"
  and mod1000: "0 \<le> q mod 1000" "q mod 1000 \<le> 999" for q :: int
  using pos_mod_bound [of 60 q] pos_mod_bound [of 1000 q] by simp_all

lemma tod_split:
  fixes x :: int
  assumes "0 \<le> x" and "x < 86400000"
  shows "x div 3600000 * 3600000 + x div 60000 mod 60 * 60000 + x div 1000 mod 60 * 1000 + x mod 1000 = x"
    and "0 \<le> x div 3600000" and "x div 3600000 \<le> 23"
proof -
  have "x div 60000 = x div 1000 div 60" "x div 3600000 = x div 1000 div 60 div 60"
    by (simp_all add: zdiv_zmult2_eq [symmetric])
  moreover have "q div 60 div 60 * 3600000 + q div 60 mod 60 * 60000 + q mod 60 * 1000 = q * 1000" for q :: int
    using mult_div_mod_eq [of 60 q] mult_div_mod_eq [of 60 "q div 60"] by linarith
  moreover have "x div 1000 * 1000 + x mod 1000 = x" by simp
  ultimately show "x div 3600000 * 3600000 + x div 60000 mod 60 * 60000 + x div 1000 mod 60 * 1000
      + x mod 1000 = x"
    by metis
  show "0 \<le> x div 3600000" and "x div 3600000 \<le> 23"
    using assms zdiv_mono1 [of x 86399999 3600000] by (simp_all add: pos_imp_zdiv_nonneg_iff)
qed

definition year_of_ms :: "int \<Rightarrow> int" where
  "year_of_ms t = year_from_day (t div 86400000)"

lemma fields_of_ms_sound:
  assumes "0 \<le> year_of_ms t" and "year_of_ms t \<le> 9999"
  shows "in_range (fields_of_ms t) \<and> valid_fields (fields_of_ms t) \<and> ms_of_fields (fields_of_ms t) = t
     \<and> f_year (fields_of_ms t) = year_of_ms t"
proof -
  define d where "d = t div 86400000"
  define x where "x = t mod 86400000"
  define y where "y = year_from_day d"
  obtain m r where mr: "split_month (month_lengths y) (d - day_from_year y) = (m, r)" by fastforce
  have md: "m < 12" "0 \<le> r" "r < month_lengths y ! m"
      "d - day_from_year y = sum_list (take m (month_lengths y)) + r"
    using month_of_ms [of d m r] mr by (simp_all add: y_def)
  have x: "0 \<le> x" "x < 86400000" by (simp_all add: x_def)
  have t: "t = d * 86400000 + x" by (simp add: d_def x_def)
  have r: "r \<le> 30" using md(3) month_lengths_le [OF md(1), of y] by linarith
  define h where "h = x div 3600000"
  define mi where "mi = x div 60000 mod 60"
  define se where "se = x div 1000 mod 60"
  define ms where "ms = x mod 1000"
  have f: "fields_of_ms t = \<lparr>f_year = y, f_month = int m + 1, f_day = r + 1, f_hour = h,
      f_minute = mi, f_second = se, f_ms = ms\<rparr>"
    unfolding fields_of_ms_def Let_def d_def [symmetric] x_def [symmetric] y_def [symmetric] mr
    by (simp add: h_def mi_def se_def ms_def)
  have h: "0 \<le> h" "h \<le> 23" unfolding h_def by (rule tod_split [OF x])+
  have mi: "0 \<le> mi" "mi \<le> 59" unfolding mi_def by (rule mod60)+
  have se: "0 \<le> se" "se \<le> 59" unfolding se_def by (rule mod60)+
  have ms: "0 \<le> ms" "ms \<le> 999" unfolding ms_def by (rule mod1000)+
  note b = h mi se ms
  have sum: "h * 3600000 + mi * 60000 + se * 1000 + ms = x"
    unfolding h_def mi_def se_def ms_def by (rule tod_split [OF x])
  have y: "0 \<le> y" "y \<le> 9999" using assms by (simp_all add: year_of_ms_def y_def d_def)
  have "in_range (fields_of_ms t)"
    unfolding f in_range_def using y md(1,2) r b by simp
  moreover have "valid_fields (fields_of_ms t)"
    unfolding f valid_fields_def using md(1-3) b r by simp
  moreover have "ms_of_fields (fields_of_ms t) = t"
    unfolding f ms_of_fields_def using sum t md(4) by simp
  ultimately show ?thesis using f by (simp add: y_def year_of_ms_def d_def)
qed

lemma iso_string_eq:
  assumes "0 \<le> year_of_ms t" and "year_of_ms t \<le> 9999"
  shows "iso_string t = fields_text (pad 4 (f_year (fields_of_ms t))) (fields_of_ms t)"
  using assms fields_of_ms_sound [OF assms] by (simp add: iso_string_def Let_def del: pad.simps)

lemma date_parse_iso_string:
  assumes "0 \<le> year_of_ms t" and "year_of_ms t \<le> 9999"
  shows "date_parse (iso_string t) = Some t"
proof -
  note f = fields_of_ms_sound [OF assms]
  have "fields_of_text (iso_string t) = fields_of_ms t" and "matches TIMESTAMP (iso_string t)"
    using f fields_of_text_fields_text [of "fields_of_ms t"]
    by (simp_all only: iso_string_eq [OF assms] fields_text_matches)
  with f show ?thesis by (simp add: date_parse_def)
qed

lemma canonical_timeD:
  assumes "is_canonical_time s"
  shows "\<exists>t. date_parse s = Some t \<and> s = iso_string t \<and> \<bar>t\<bar> \<le> 8640000000000000"
    and "length s = 24"
proof -
  from assms obtain t where t: "date_parse s = Some t" "to_iso_string t = Inr s"
    by (auto simp: is_canonical_time_def split: option.splits)
  then show "\<exists>t. date_parse s = Some t \<and> s = iso_string t \<and> \<bar>t\<bar> \<le> 8640000000000000"
    by (auto simp: to_iso_string_def split: if_splits)
  from t(1) have "matches TIMESTAMP s" by (simp add: date_parse_def Let_def split: if_splits)
  then show "length s = 24" by (rule TIMESTAMP_length)
qed

lemma canonical_time_iso_string:
  assumes "0 \<le> year_of_ms t" and "year_of_ms t \<le> 9999" and "\<bar>t\<bar> \<le> 8640000000000000"
  shows "is_canonical_time (iso_string t)"
  using assms by (simp add: is_canonical_time_def date_parse_iso_string to_iso_string_def)

end
