(* ===== verification/Unicode.thy ===== *)
theory Unicode imports Prelude begin

unbundle bit_operations_syntax

text \<open>
  \<open>TextEncoder\<close> and the fatal \<open>TextDecoder\<close> on UTF-16 strings, the scalar test
  \<open>hasOnlyUnicodeScalars\<close> of \<open>canonical.ts\<close> (and its copy in \<open>validation.ts\<close>) and
  \<open>timingSafeEqual\<close>. The main facts: decoding inverts encoding on strings of Unicode scalars that
  do not start with a byte order mark, so UTF-8 is injective there.
\<close>

section \<open>Surrogates and code points\<close>

definition is_high :: "code_unit \<Rightarrow> bool" where
  "is_high c \<longleftrightarrow> 0xD800 \<le> c \<and> c \<le> 0xDBFF"

definition is_low :: "code_unit \<Rightarrow> bool" where
  "is_low c \<longleftrightarrow> 0xDC00 \<le> c \<and> c \<le> 0xDFFF"

text \<open>
  \<open>hasOnlyUnicodeScalars\<close>: past the end of the string \<open>charCodeAt\<close> is \<open>NaN\<close>, which is in no range.
\<close>

fun has_only_unicode_scalars :: "js_string \<Rightarrow> bool" where
  "has_only_unicode_scalars [] = True"
| "has_only_unicode_scalars (c # cs) =
     (if is_high c
      then (case cs of [] \<Rightarrow> False | d # ds \<Rightarrow> is_low d \<and> has_only_unicode_scalars ds)
      else \<not> is_low c \<and> has_only_unicode_scalars cs)"

definition join_surrogates :: "code_unit \<Rightarrow> code_unit \<Rightarrow> nat" where
  "join_surrogates c d = 0x10000 + (unat c - 0xD800) * 0x400 + (unat d - 0xDC00)"

text \<open>The code points of a string; an unpaired surrogate is read as U+FFFD, as \<open>TextEncoder\<close> does.\<close>

fun code_points :: "js_string \<Rightarrow> nat list" where
  "code_points [] = []"
| "code_points (c # cs) =
     (if is_high c
      then (case cs of
              [] \<Rightarrow> [0xFFFD]
            | d # ds \<Rightarrow> if is_low d then join_surrogates c d # code_points ds
                        else 0xFFFD # code_points (d # ds))
      else if is_low c then 0xFFFD # code_points cs
      else unat c # code_points cs)"

definition scalar :: "nat \<Rightarrow> bool" where
  "scalar p \<longleftrightarrow> p < 0xD800 \<or> 0xE000 \<le> p \<and> p < 0x110000"

definition utf16_of :: "nat \<Rightarrow> js_string" where
  "utf16_of p =
     (if p < 0x10000 then [of_nat p]
      else [of_nat (0xD800 + (p - 0x10000) div 0x400), of_nat (0xDC00 + (p - 0x10000) mod 0x400)])"

section \<open>UTF-8\<close>

definition utf8_of :: "nat \<Rightarrow> bytes" where
  "utf8_of p =
     (if p < 0x80 then [of_nat p]
      else if p < 0x800 then [of_nat (0xC0 + p div 0x40), of_nat (0x80 + p mod 0x40)]
      else if p < 0x10000 then
        [of_nat (0xE0 + p div 0x1000), of_nat (0x80 + p div 0x40 mod 0x40),
         of_nat (0x80 + p mod 0x40)]
      else
        [of_nat (0xF0 + p div 0x40000), of_nat (0x80 + p div 0x1000 mod 0x40),
         of_nat (0x80 + p div 0x40 mod 0x40), of_nat (0x80 + p mod 0x40)])"

definition utf8_encode :: "js_string \<Rightarrow> bytes" where
  "utf8_encode s = concat (map utf8_of (code_points s))"

definition cont :: "byte \<Rightarrow> bool" where
  "cont b \<longleftrightarrow> 0x80 \<le> unat b \<and> unat b \<le> 0xBF"

text \<open>One code point from the front of the bytes; \<open>None\<close> for any malformed sequence.\<close>

definition decode1 :: "bytes \<Rightarrow> (nat \<times> bytes) option" where
  "decode1 bs =
     (case bs of
        [] \<Rightarrow> None
      | b # r \<Rightarrow>
          let n = unat b in
          if n < 0x80 then Some (n, r)
          else if n < 0xC0 then None
          else if n < 0xE0 then
            (case r of
               c # r' \<Rightarrow>
                 let p = (n - 0xC0) * 0x40 + (unat c - 0x80)
                 in if cont c \<and> 0x80 \<le> p then Some (p, r') else None
             | _ \<Rightarrow> None)
          else if n < 0xF0 then
            (case r of
               c # d # r' \<Rightarrow>
                 let p = ((n - 0xE0) * 0x40 + (unat c - 0x80)) * 0x40 + (unat d - 0x80)
                 in if cont c \<and> cont d \<and> 0x800 \<le> p \<and> scalar p then Some (p, r') else None
             | _ \<Rightarrow> None)
          else if n < 0xF8 then
            (case r of
               c # d # e # r' \<Rightarrow>
                 let p = (((n - 0xF0) * 0x40 + (unat c - 0x80)) * 0x40 + (unat d - 0x80)) * 0x40
                           + (unat e - 0x80)
                 in if cont c \<and> cont d \<and> cont e \<and> 0x10000 \<le> p \<and> scalar p then Some (p, r') else None
             | _ \<Rightarrow> None)
          else None)"

lemma decode1_shorter: "decode1 bs = Some (p, r) \<Longrightarrow> length r < length bs"
  by (auto simp: decode1_def Let_def split: list.splits if_splits)

function utf8_decode :: "bytes \<Rightarrow> js_string option" where
  "utf8_decode bs =
     (if bs = [] then Some []
      else case decode1 bs of
             None \<Rightarrow> None
           | Some (p, r) \<Rightarrow> map_option (append (utf16_of p)) (utf8_decode r))"
  by pat_completeness auto
termination
  by (relation "measure length") (auto dest: decode1_shorter)

declare utf8_decode.simps [simp del]

text \<open>
  \<open>new TextDecoder("utf-8", { fatal: true }).decode(bytes)\<close>: \<open>ignoreBOM\<close> is false by default, so
  one leading byte order mark is dropped before the bytes are decoded.
\<close>

definition BOM :: bytes where
  "BOM = [0xEF, 0xBB, 0xBF]"

definition text_decode :: "bytes \<Rightarrow> js_string option" where
  "text_decode bs = utf8_decode (if take 3 bs = BOM then drop 3 bs else bs)"

section \<open>Decoding inverts encoding\<close>

lemma unat_byte: "n < 256 \<Longrightarrow> unat (of_nat n :: byte) = n"
  by (simp add: unat_of_nat take_bit_eq_mod)

lemma unat_unit: "n < 65536 \<Longrightarrow> unat (of_nat n :: code_unit) = n"
  by (simp add: unat_of_nat take_bit_eq_mod)

lemma split64: "(p :: nat) div 64 * 64 + p mod 64 = p" and mod64: "p mod 64 < 64"
  by simp_all

lemma div_4096: "(p :: nat) div 4096 = p div 64 div 64"
  and div_262144: "p div 262144 = p div 64 div 64 div 64"
  by (simp_all add: div_mult2_eq [symmetric])

lemma decode1_utf8_of:
  assumes "scalar p"
  shows "decode1 (utf8_of p @ r) = Some (p, r)"
proof -
  define a where "a = p div 64"
  define b where "b = a div 64"
  define c where "c = b div 64"
  define x where "x = p mod 64"
  define y where "y = a mod 64"
  define z where "z = b mod 64"
  have p: "p = a * 64 + x" "a = b * 64 + y" "b = c * 64 + z"
    by (simp_all add: a_def b_def c_def x_def y_def z_def)
  have "4096 * b + y * 64 + x = p" and "a * 64 + x = p" by (simp_all add: p(1,2))
  note q = p [symmetric] this
  have xyz: "x < 64" "y < 64" "z < 64" by (simp_all add: x_def y_def z_def)
  have defs: "p div 64 = a" "p div 4096 = b" "p div 262144 = c" "p mod 64 = x" "a mod 64 = y"
    "b mod 64 = z"
    by (simp_all add: div_4096 div_262144 a_def b_def c_def x_def y_def z_def)
  have le: "p < 1114112" using assms by (auto simp: scalar_def)
  have cont: "cont (of_nat (128 + n))" "unat (of_nat (128 + n) :: byte) = 128 + n" if "n < 64" for n
    using that unat_byte [of "128 + n"] by (simp_all add: cont_def del: of_nat_add)
  consider "p < 128" | "128 \<le> p" "p < 2048" | "2048 \<le> p" "p < 65536" | "65536 \<le> p" by linarith
  then show ?thesis
  proof cases
    case 1
    then show ?thesis by (simp add: utf8_of_def decode1_def unat_byte)
  next
    case 2
    have "192 + a < 224" using 2 p xyz by linarith
    with 2 xyz q show ?thesis
      by (simp add: utf8_of_def decode1_def defs cont unat_byte Let_def del: of_nat_add)
  next
    case 3
    have "224 + b < 240" using 3 p xyz by linarith
    with 3 xyz q assms show ?thesis
      by (simp add: utf8_of_def decode1_def defs cont unat_byte Let_def del: of_nat_add)
  next
    case 4
    have "240 + c < 248" using 4 p xyz le by linarith
    with 4 xyz q assms show ?thesis
      by (simp add: utf8_of_def decode1_def defs cont unat_byte Let_def del: of_nat_add)
  qed
qed

lemma utf8_of_nonempty: "utf8_of p \<noteq> []"
  by (simp add: utf8_of_def)

lemma utf8_decode_concat:
  "\<forall>p \<in> set ps. scalar p \<Longrightarrow>
     utf8_decode (concat (map utf8_of ps)) = Some (concat (map utf16_of ps))"
proof (induction ps)
  case (Cons p ps)
  then show ?case
    by (subst utf8_decode.simps) (simp add: decode1_utf8_of utf8_of_nonempty)
qed (simp add: utf8_decode.simps)

lemma join_surrogates_bounds:
  assumes "is_high c" and "is_low d"
  shows "0x10000 \<le> join_surrogates c d" and "join_surrogates c d < 0x110000"
    and "(join_surrogates c d - 0x10000) div 0x400 = unat c - 0xD800"
    and "(join_surrogates c d - 0x10000) mod 0x400 = unat d - 0xDC00"
proof -
  have c: "0xD800 \<le> unat c" "unat c \<le> 0xDBFF" and d: "0xDC00 \<le> unat d" "unat d \<le> 0xDFFF"
    using assms by (simp_all add: is_high_def is_low_def word_le_nat_alt)
  define h where "h = unat c - 0xD800"
  define l where "l = unat d - 0xDC00"
  have hl: "h < 0x400" "l < 0x400" using c d by (simp_all add: h_def l_def)
  have j: "join_surrogates c d = 0x10000 + (h * 0x400 + l)"
    by (simp add: join_surrogates_def h_def l_def)
  show "0x10000 \<le> join_surrogates c d" and "join_surrogates c d < 0x110000"
    using hl unfolding j by linarith+
  have "(h * 0x400 + l) div 0x400 = h" and "(h * 0x400 + l) mod 0x400 = l" using hl by simp_all
  then show "(join_surrogates c d - 0x10000) div 0x400 = unat c - 0xD800"
    and "(join_surrogates c d - 0x10000) mod 0x400 = unat d - 0xDC00"
    unfolding j by (simp_all only: diff_add_inverse h_def l_def)
qed

lemma utf16_of_join: "is_high c \<Longrightarrow> is_low d \<Longrightarrow> utf16_of (join_surrogates c d) = [c, d]"
proof -
  assume h: "is_high c" and l: "is_low d"
  then have "0xD800 + (unat c - 0xD800) = unat c" and "0xDC00 + (unat d - 0xDC00) = unat d"
    by (simp_all add: is_high_def is_low_def word_le_nat_alt)
  with join_surrogates_bounds [OF h l] show ?thesis
    by (simp add: utf16_of_def del: of_nat_add)
qed

lemma unat_unit_less: "unat (c :: code_unit) < 65536"
  using unsigned_less [of c] by simp

lemma utf16_of_unit: "utf16_of (unat c) = [c]" for c :: code_unit
  using unat_unit_less [of c] by (simp add: utf16_of_def)

lemma scalar_unit: "\<not> is_high c \<Longrightarrow> \<not> is_low c \<Longrightarrow> scalar (unat c)" for c :: code_unit
  using unat_unit_less [of c] by (auto simp: scalar_def is_high_def is_low_def word_le_nat_alt)

lemma scalar_join: "is_high c \<Longrightarrow> is_low d \<Longrightarrow> scalar (join_surrogates c d)"
  using join_surrogates_bounds(1,2) [of c d] by (simp add: scalar_def)

lemma scalar_replacement: "scalar 0xFFFD"
  by (simp add: scalar_def)

lemma code_points_cases:
  "is_high c \<Longrightarrow> code_points [c] = [0xFFFD]"
  "is_high c \<Longrightarrow> is_low d \<Longrightarrow> code_points (c # d # ds) = join_surrogates c d # code_points ds"
  "is_high c \<Longrightarrow> \<not> is_low d \<Longrightarrow> code_points (c # d # ds) = 0xFFFD # code_points (d # ds)"
  "\<not> is_high c \<Longrightarrow> is_low c \<Longrightarrow> code_points (c # cs) = 0xFFFD # code_points cs"
  "\<not> is_high c \<Longrightarrow> \<not> is_low c \<Longrightarrow> code_points (c # cs) = unat c # code_points cs"
  by (subst code_points.simps, simp)+

declare code_points.simps(2) [simp del]

lemma code_points_scalar_bounded:
  "length s \<le> n \<Longrightarrow> \<forall>p \<in> set (code_points s). scalar p"
proof (induction n arbitrary: s)
  case (Suc n)
  consider "s = []" | c where "s = [c]" | c d ds where "s = c # d # ds"
    by (metis neq_Nil_conv)
  then show ?case
  proof cases
    case 2
    then show ?thesis
      by (cases "is_high c"; cases "is_low c")
        (simp_all add: code_points_cases scalar_replacement scalar_unit)
  next
    case (3 c d ds)
    have IH: "\<forall>p \<in> set (code_points (d # ds)). scalar p" "\<forall>p \<in> set (code_points ds). scalar p"
      using Suc.prems Suc.IH [of "d # ds"] Suc.IH [of ds] unfolding 3 by simp_all
    then show ?thesis unfolding 3
      by (cases "is_high c"; cases "is_low d"; cases "is_low c")
        (simp_all add: code_points_cases(2-) scalar_replacement scalar_unit scalar_join
          del: code_points_cases(1))
  qed simp
qed simp

lemma code_points_scalar: "\<forall>p \<in> set (code_points s). scalar p"
  by (rule code_points_scalar_bounded [OF order_refl])

lemma utf16_code_points: "has_only_unicode_scalars s \<Longrightarrow> concat (map utf16_of (code_points s)) = s"
proof (induction s rule: has_only_unicode_scalars.induct)
  case (2 c cs)
  then show ?case
    by (cases cs) (auto simp: code_points_cases utf16_of_join utf16_of_unit split: if_splits)
qed simp

theorem utf8_decode_encode: "has_only_unicode_scalars s \<Longrightarrow> utf8_decode (utf8_encode s) = Some s"
  by (simp add: utf8_encode_def utf8_decode_concat code_points_scalar utf16_code_points)

lemma utf8_encode_inj:
  "has_only_unicode_scalars s \<Longrightarrow> has_only_unicode_scalars t \<Longrightarrow>
     utf8_encode s = utf8_encode t \<longleftrightarrow> s = t"
  by (metis utf8_decode_encode option.inject)

lemma decode1_BOM: "decode1 (BOM @ r) = Some (0xFEFF, r)"
  by (simp add: BOM_def decode1_def cont_def scalar_def)

lemma utf8_encode_BOM:
  assumes "has_only_unicode_scalars s" and "take 3 (utf8_encode s) = BOM"
  shows "take 1 s = [0xFEFF]"
proof (cases "code_points s")
  case Nil
  with assms(2) show ?thesis by (simp add: utf8_encode_def BOM_def)
next
  case (Cons p ps)
  have bs: "utf8_encode s = utf8_of p @ concat (map utf8_of ps)"
    by (simp add: utf8_encode_def Cons)
  have "scalar p" using code_points_scalar [of s] Cons by simp
  then have "decode1 (utf8_encode s) = Some (p, concat (map utf8_of ps))"
    by (simp add: bs decode1_utf8_of)
  moreover have "utf8_encode s = BOM @ drop 3 (utf8_encode s)"
    by (metis append_take_drop_id assms(2))
  ultimately have "p = 0xFEFF" by (metis decode1_BOM option.inject prod.inject)
  moreover have "s = utf16_of p @ concat (map utf16_of ps)"
    using utf16_code_points [OF assms(1)] Cons by simp
  ultimately show ?thesis by (simp add: utf16_of_def)
qed

theorem text_decode_encode:
  "has_only_unicode_scalars s \<Longrightarrow> take 1 s \<noteq> [0xFEFF] \<Longrightarrow> text_decode (utf8_encode s) = Some s"
  using utf8_encode_BOM [of s] by (auto simp: text_decode_def utf8_decode_encode)

text \<open>The byte order mark is dropped: the same text comes from two different byte sequences.\<close>

theorem text_decode_drops_BOM:
  "has_only_unicode_scalars s \<Longrightarrow> text_decode (BOM @ utf8_encode s) = Some s"
  by (simp add: text_decode_def BOM_def utf8_decode_encode)

section \<open>ASCII strings\<close>

definition ascii :: "js_string \<Rightarrow> bool" where
  "ascii s \<longleftrightarrow> (\<forall>c \<in> set s. c \<le> 0x7F)"

lemma ascii_simps [simp]: "ascii []" "ascii (c # s) \<longleftrightarrow> c \<le> 0x7F \<and> ascii s"
  "ascii (s @ t) \<longleftrightarrow> ascii s \<and> ascii t"
  by (auto simp: ascii_def)

lemma ascii_not_surrogate: "c \<le> 0x7F \<Longrightarrow> \<not> is_high c \<and> \<not> is_low c"
  by (auto simp: is_high_def is_low_def word_le_nat_alt)

lemma ascii_scalars: "ascii s \<Longrightarrow> has_only_unicode_scalars s"
  by (induction s) (simp_all add: ascii_not_surrogate)

lemma length_utf8_ascii: "ascii s \<Longrightarrow> length (utf8_encode s) = length s"
proof (induction s)
  case (Cons c s)
  then have "unat c < 128" by (simp add: word_le_nat_alt)
  with Cons show ?case
    by (simp add: utf8_encode_def ascii_not_surrogate code_points_cases utf8_of_def)
qed (simp add: utf8_encode_def)

lemma has_only_unicode_scalars_append:
  "has_only_unicode_scalars s \<Longrightarrow> has_only_unicode_scalars t \<Longrightarrow> has_only_unicode_scalars (s @ t)"
  by (induction s rule: has_only_unicode_scalars.induct) (auto split: if_splits list.splits)

section \<open>timingSafeEqual\<close>

text \<open>
  The byte at an index, 0 past the end (\<open>leftBytes[index] ?? 0\<close>); the difference is accumulated
  with 32-bit bitwise operations, as JavaScript's \<open>|\<close> and \<open>^\<close> do.
\<close>

definition byte_or_0 :: "bytes \<Rightarrow> nat \<Rightarrow> 32 word" where
  "byte_or_0 bs i = (if i < length bs then ucast (bs ! i) else 0)"

definition timing_safe_equal :: "js_string \<Rightarrow> js_string \<Rightarrow> bool" where
  "timing_safe_equal left right =
     (let l = utf8_encode left; r = utf8_encode right;
          start = (of_nat (length l) XOR of_nat (length r) :: 32 word)
      in fold (\<lambda>i d. d OR (byte_or_0 l i XOR byte_or_0 r i)) [0..<max (length l) (length r)] start = 0)"

lemma fold_or_eq_0:
  "fold (\<lambda>i d. d OR f i) is (start :: 32 word) = 0 \<longleftrightarrow> start = 0 \<and> (\<forall>i \<in> set is. f i = 0)"
  by (induction "is" arbitrary: start) (auto simp: or_eq_0_iff)

lemma xor_eq_0: "(a :: 32 word) XOR b = 0 \<longleftrightarrow> a = b"
  by (auto simp: bit_eq_iff bit_xor_iff)

lemma of_nat_32_eq:
  assumes "a < 2 ^ 32" and "b < 2 ^ 32"
  shows "(of_nat a :: 32 word) = of_nat b \<longleftrightarrow> a = b"
proof
  assume eq: "(of_nat a :: 32 word) = of_nat b"
  from arg_cong [OF eq, of unat] have "a mod 2 ^ 32 = b mod 2 ^ 32" by (simp add: unat_of_nat)
  with assms show "a = b" by simp
qed simp

lemma ucast_byte_eq: "(ucast (x :: byte) :: 32 word) = ucast y \<longleftrightarrow> x = y"
proof
  assume eq: "(ucast x :: 32 word) = ucast y"
  have "unat (ucast z :: 32 word) = unat z" for z :: byte
  proof -
    have "unat z < 2 ^ LENGTH(8)" by (rule unsigned_less)
    then show ?thesis by (simp add: unsigned_ucast_eq take_bit_eq_mod)
  qed
  then have "unat x = unat y" using arg_cong [OF eq, of unat] by (simp only:)
  then show "x = y" by (simp only: word_unat_eq_iff)
qed simp

theorem timing_safe_equal_iff:
  assumes "length (utf8_encode l) < 2 ^ 32" and "length (utf8_encode r) < 2 ^ 32"
  shows "timing_safe_equal l r \<longleftrightarrow> utf8_encode l = utf8_encode r"
proof -
  have "timing_safe_equal l r \<longleftrightarrow>
      length (utf8_encode l) = length (utf8_encode r) \<and>
      (\<forall>i < max (length (utf8_encode l)) (length (utf8_encode r)).
         byte_or_0 (utf8_encode l) i = byte_or_0 (utf8_encode r) i)"
    by (simp add: timing_safe_equal_def Let_def fold_or_eq_0 xor_eq_0 of_nat_32_eq [OF assms]
        atLeast0LessThan Ball_def)
  also have "\<dots> \<longleftrightarrow> utf8_encode l = utf8_encode r"
    by (auto simp: byte_or_0_def list_eq_iff_nth_eq ucast_byte_eq)
  finally show ?thesis .
qed

end
