(* ===== verification/Json.thy ===== *)
theory Json imports Unicode begin

text \<open>
  JSON values as JavaScript holds them, \<open>JSON.stringify\<close> of strings and integers, and
  \<open>canonical.ts\<close>: canonical serialisation under its depth, node, entry and byte limits, and the
  SHA-256 digests taken of it. The hash itself (WebCrypto) is the parameter \<open>sha\<close>.
\<close>

section \<open>Values\<close>

text \<open>
  A number is an integer, the negative zero, or any other double (fractions, infinities, \<open>NaN\<close>),
  whose value no operation modelled here looks at. An object lists its own enumerable members in
  insertion order; \<open>well_formed\<close> says that no member name repeats. \<open>JUndef\<close> is \<open>undefined\<close>.
\<close>

datatype js_number = JInt int | JNegZero | JOther

datatype json =
    JUndef
  | JNull
  | JBool bool
  | JNum js_number
  | JStr js_string
  | JArr "json list"
  | JObj "(js_string \<times> json) list"

primrec well_formed :: "json \<Rightarrow> bool" where
  "well_formed JUndef \<longleftrightarrow> True"
| "well_formed JNull \<longleftrightarrow> True"
| "well_formed (JBool b) \<longleftrightarrow> True"
| "well_formed (JNum n) \<longleftrightarrow> True"
| "well_formed (JStr s) \<longleftrightarrow> True"
| "well_formed (JArr xs) \<longleftrightarrow> list_all (\<lambda>b. b) (map well_formed xs)"
| "well_formed (JObj kvs) \<longleftrightarrow>
     distinct (map fst kvs) \<and> list_all (\<lambda>(k, b). b) (map (map_prod id well_formed) kvs)"

definition lookup :: "(js_string \<times> json) list \<Rightarrow> js_string \<Rightarrow> json" where
  "lookup kvs k = (case map_of kvs k of None \<Rightarrow> JUndef | Some v \<Rightarrow> v)"

text \<open>\<open>object[key]\<close>.\<close>

definition json_get :: "json \<Rightarrow> js_string \<Rightarrow> json" where
  "json_get v k = (case v of JObj kvs \<Rightarrow> lookup kvs k | _ \<Rightarrow> JUndef)"

definition is_json_object :: "json \<Rightarrow> bool" where
  "is_json_object v \<longleftrightarrow> (case v of JObj _ \<Rightarrow> True | _ \<Rightarrow> False)"

definition max_safe :: int where
  "max_safe = 9007199254740991"

text \<open>\<open>Number.isSafeInteger\<close>; the negative zero is one.\<close>

definition is_safe_integer :: "js_number \<Rightarrow> bool" where
  "is_safe_integer n \<longleftrightarrow> (case n of JInt i \<Rightarrow> \<bar>i\<bar> \<le> max_safe | JNegZero \<Rightarrow> True | JOther \<Rightarrow> False)"

definition number_int :: "js_number \<Rightarrow> int" where
  "number_int n = (case n of JInt i \<Rightarrow> i | _ \<Rightarrow> 0)"

section \<open>JSON.stringify\<close>

definition hex_digit :: "nat \<Rightarrow> code_unit" where
  "hex_digit n = (if n < 10 then of_nat (48 + n) else of_nat (87 + n))"

definition escape_unit :: "code_unit \<Rightarrow> js_string" where
  "escape_unit c =
     (let n = unat c
      in [0x5C, 0x75, hex_digit (n div 4096), hex_digit (n div 256 mod 16),
          hex_digit (n div 16 mod 16), hex_digit (n mod 16)])"

definition quote_unit :: "code_unit \<Rightarrow> js_string" where
  "quote_unit c =
     (if c = 0x22 then [0x5C, 0x22] else if c = 0x5C then [0x5C, 0x5C]
      else if c = 0x08 then [0x5C, 0x62] else if c = 0x09 then [0x5C, 0x74]
      else if c = 0x0A then [0x5C, 0x6E] else if c = 0x0C then [0x5C, 0x66]
      else if c = 0x0D then [0x5C, 0x72] else if c < 0x20 then escape_unit c else [c])"

text \<open>Unpaired surrogates are escaped (well-formed \<open>JSON.stringify\<close>); pairs are kept.\<close>

fun quote_body :: "js_string \<Rightarrow> js_string" where
  "quote_body [] = []"
| "quote_body (c # cs) =
     (if is_high c
      then (case cs of
              [] \<Rightarrow> escape_unit c
            | d # ds \<Rightarrow> if is_low d then c # d # quote_body ds
                        else escape_unit c @ quote_body (d # ds))
      else if is_low c then escape_unit c @ quote_body cs
      else quote_unit c @ quote_body cs)"

definition json_quote :: "js_string \<Rightarrow> js_string" where
  "json_quote s = 0x22 # quote_body s @ [0x22]"

fun dec :: "nat \<Rightarrow> js_string" where
  "dec n = (if n < 10 then [of_nat (48 + n)] else dec (n div 10) @ [of_nat (48 + n mod 10)])"

declare dec.simps [simp del]

definition int_text :: "int \<Rightarrow> js_string" where
  "int_text i = (if i < 0 then 0x2D # dec (nat (- i)) else dec (nat i))"

fun join :: "js_string \<Rightarrow> js_string list \<Rightarrow> js_string" where
  "join sep [] = []"
| "join sep [x] = x"
| "join sep (x # y # zs) = x @ sep @ join sep (y # zs)"

section \<open>Canonical JSON\<close>

definition MAX_DEPTH :: nat where "MAX_DEPTH = 32"
definition MAX_NODES :: int where "MAX_NODES = 100000"
definition MAX_MAPPING_ENTRIES :: nat where "MAX_MAPPING_ENTRIES = 1024"
definition MAX_SEQUENCE_ITEMS :: nat where "MAX_SEQUENCE_ITEMS = 4096"
definition MAX_KEY_BYTES :: nat where "MAX_KEY_BYTES = 128"
definition MAX_STRING_BYTES :: nat where "MAX_STRING_BYTES = 1048576"
definition MAX_CANONICAL_BYTES :: nat where "MAX_CANONICAL_BYTES = 16777216"

definition is_bounded_ascii :: "js_string \<Rightarrow> nat \<Rightarrow> bool" where
  "is_bounded_ascii s m \<longleftrightarrow> \<not> (length s = 0 \<or> length s > m) \<and> ascii s"

lemma size_list_sort_key [termination_simp]:
  "size_list f (sort_key g xs) = size_list f xs"
proof -
  have ins: "size_list f (insort_key g x ys) = f x + Suc (size_list f ys)" for x ys
    by (induction ys) auto
  show ?thesis by (induction xs) (simp_all add: ins)
qed

text \<open>
  \<open>encodeCanonical\<close>; the shared \<open>budget.remaining\<close> is threaded through the values in the order the
  code visits them. \<open>Object.keys(value).sort()\<close> orders the member names by code units.
\<close>

function (sequential)
  encode_canonical :: "nat \<Rightarrow> json \<Rightarrow> int \<Rightarrow> (js_string \<times> int) result"
and encode_items :: "nat \<Rightarrow> json list \<Rightarrow> int \<Rightarrow> (js_string list \<times> int) result"
and encode_members :: "nat \<Rightarrow> (js_string \<times> json) list \<Rightarrow> int \<Rightarrow> (js_string list \<times> int) result"
where
  "encode_canonical depth v budget =
     bind_r (assert_js (depth \<le> MAX_DEPTH) ''CANONICAL_JSON_TOO_DEEP'' 400) (\<lambda>_.
     bind_r (assert_js (0 \<le> budget - 1) ''CANONICAL_JSON_TOO_COMPLEX'' 400) (\<lambda>_.
       case v of
         JNull \<Rightarrow> Inr (js ''null'', budget - 1)
       | JBool b \<Rightarrow> Inr (if b then js ''true'' else js ''false'', budget - 1)
       | JStr s \<Rightarrow>
           if length (utf8_encode s) > MAX_STRING_BYTES \<or> \<not> has_only_unicode_scalars s
           then Inl (broker ''CANONICAL_JSON_STRING_INVALID'' 400 False)
           else Inr (json_quote s, budget - 1)
       | JNum n \<Rightarrow>
           if is_safe_integer n then Inr (int_text (number_int n), budget - 1)
           else Inl (broker ''CANONICAL_JSON_NUMBER_INVALID'' 400 False)
       | JArr xs \<Rightarrow>
           if length xs > MAX_SEQUENCE_ITEMS
           then Inl (broker ''CANONICAL_JSON_ARRAY_TOO_LARGE'' 400 False)
           else bind_r (encode_items (depth + 1) xs (budget - 1)) (\<lambda>(ts, b).
             Inr (0x5B # join [0x2C] ts @ [0x5D], b))
       | JUndef \<Rightarrow> Inl (broker ''CANONICAL_JSON_TYPE_INVALID'' 400 False)
       | JObj kvs \<Rightarrow>
           let sorted = sort_key fst kvs in
           if length sorted > MAX_MAPPING_ENTRIES
           then Inl (broker ''CANONICAL_JSON_OBJECT_TOO_LARGE'' 400 False)
           else if \<not> list_all (\<lambda>(k, _). is_bounded_ascii k MAX_KEY_BYTES) sorted
           then Inl (broker ''CANONICAL_JSON_KEY_INVALID'' 400 False)
           else bind_r (encode_members (depth + 1) sorted (budget - 1)) (\<lambda>(ts, b).
             Inr (0x7B # join [0x2C] ts @ [0x7D], b))))"
| "encode_items depth [] budget = Inr ([], budget)"
| "encode_items depth (x # xs) budget =
     bind_r (encode_canonical depth x budget) (\<lambda>(t, b).
     bind_r (encode_items depth xs b) (\<lambda>(ts, b'). Inr (t # ts, b')))"
| "encode_members depth [] budget = Inr ([], budget)"
| "encode_members depth ((k, v) # kvs) budget =
     bind_r (encode_canonical depth v budget) (\<lambda>(t, b).
     bind_r (encode_members depth kvs b) (\<lambda>(ts, b'). Inr ((json_quote k @ 0x3A # t) # ts, b')))"
  by pat_completeness auto
termination
  by (relation "measure (case_sum (\<lambda>(_, v, _). 2 * size v)
       (case_sum (\<lambda>(_, xs, _). 2 * size_list size xs + 1)
         (\<lambda>(_, kvs, _). 2 * size_list (size_prod (\<lambda>_. 0) size) kvs + 1)))") (auto simp: size_list_sort_key)

declare encode_canonical.simps [simp del]

definition canonical_json :: "json \<Rightarrow> js_string result" where
  "canonical_json v =
     (if \<not> is_json_object v then Inl (broker ''CANONICAL_JSON_ROOT_INVALID'' 400 False)
      else bind_r (encode_canonical 0 v MAX_NODES) (\<lambda>(encoded, _).
        if length (utf8_encode encoded) > MAX_CANONICAL_BYTES
        then Inl (broker ''CANONICAL_JSON_TOO_LARGE'' 400 False)
        else Inr encoded))"

definition canonical_bytes :: "json \<Rightarrow> bytes result" where
  "canonical_bytes v = bind_r (canonical_json v) (\<lambda>t. Inr (utf8_encode t))"

section \<open>Digests\<close>

text \<open>\<open>byte.toString(16).padStart(2, "0")\<close> of every byte.\<close>

definition hex_bytes :: "bytes \<Rightarrow> js_string" where
  "hex_bytes bs = concat (map (\<lambda>b. [hex_digit (unat b div 16), hex_digit (unat b mod 16)]) bs)"

type_synonym hash = "bytes \<Rightarrow> bytes"

definition sha256_hex :: "hash \<Rightarrow> bytes \<Rightarrow> js_string" where
  "sha256_hex sha bs = hex_bytes (sha bs)"

definition digest_object :: "hash \<Rightarrow> json \<Rightarrow> js_string result" where
  "digest_object sha v =
     bind_r (canonical_bytes v) (\<lambda>bs. Inr (js ''sha256:'' @ sha256_hex sha bs))"

definition digest_domain :: "hash \<Rightarrow> js_string \<Rightarrow> json \<Rightarrow> js_string result" where
  "digest_domain sha domain payload =
     (if is_bounded_ascii domain 128
      then digest_object sha (JObj [(js ''domain'', JStr domain), (js ''payload'', payload)])
      else Inl (broker ''IDENTITY_DOMAIN_INVALID'' 400 False))"

end
