(* ===== verification/Validation.thy ===== *)
theory Validation imports Json JsTime begin

text \<open>
  The field validators of \<open>validation.ts\<close> that every schema of the broker is read through, the
  release binding they parse, and \<open>verifyReleaseBinding\<close>, which recomputes the four domain-separated
  digests of a binding. Each validator has a lemma in \<open>result_simps\<close> that says exactly when it
  returns, and what.
\<close>

section \<open>Objects and fields\<close>

type_synonym members = "(js_string \<times> json) list"

definition require_object :: "json \<Rightarrow> string \<Rightarrow> members result" where
  "require_object v code =
     (case v of JObj kvs \<Rightarrow> Inr kvs | _ \<Rightarrow> Inl (broker code 400 False))"

definition exact_object :: "json \<Rightarrow> string list \<Rightarrow> members result" where
  "exact_object v allowed =
     bind_r (assert_js (distinct allowed) ''SCHEMA_FIELD_DECLARATION_DUPLICATE'' 500) (\<lambda>_.
     bind_r (require_object v ''OBJECT_REQUIRED'') (\<lambda>kvs.
     bind_r (assert_js (list_all (\<lambda>(k, _). k \<in> set (map js allowed)) kvs) ''UNKNOWN_FIELD'' 400) (\<lambda>_.
     bind_r (assert_js (list_all (\<lambda>a. js a \<in> set (map fst kvs)) allowed)
               ''REQUIRED_FIELD_MISSING'' 400) (\<lambda>_.
     Inr kvs))))"

definition require_string :: "members \<Rightarrow> string \<Rightarrow> nat \<Rightarrow> regex option \<Rightarrow> js_string result" where
  "require_string kvs key m pattern =
     (case lookup kvs (js key) of
        JStr s \<Rightarrow>
          if 0 < length s \<and> length s \<le> m \<and> (case pattern of None \<Rightarrow> True | Some r \<Rightarrow> matches r s)
          then Inr s else Inl (broker ''FIELD_INVALID'' 400 False)
      | _ \<Rightarrow> Inl (broker ''FIELD_INVALID'' 400 False))"

definition require_integer :: "members \<Rightarrow> string \<Rightarrow> int \<Rightarrow> int \<Rightarrow> int result" where
  "require_integer kvs key lo hi =
     (case lookup kvs (js key) of
        JNum n \<Rightarrow>
          if is_safe_integer n \<and> lo \<le> number_int n \<and> number_int n \<le> hi
          then Inr (number_int n) else Inl (broker ''FIELD_INVALID'' 400 False)
      | _ \<Rightarrow> Inl (broker ''FIELD_INVALID'' 400 False))"

definition require_boolean :: "members \<Rightarrow> string \<Rightarrow> bool result" where
  "require_boolean kvs key =
     (case lookup kvs (js key) of
        JBool b \<Rightarrow> Inr b | _ \<Rightarrow> Inl (broker ''FIELD_INVALID'' 400 False))"

lemma require_object_eq_Inr [result_simps]: "require_object v code = Inr kvs \<longleftrightarrow> v = JObj kvs"
  by (cases v) (simp_all add: require_object_def)

lemma exact_object_eq_Inr [result_simps]:
  "exact_object v allowed = Inr kvs \<longleftrightarrow>
     v = JObj kvs \<and> distinct allowed \<and> set (map fst kvs) = js ` set allowed"
  by (auto simp: exact_object_def result_simps list_all_iff image_iff) force+

lemma require_string_eq_Inr [result_simps]:
  "require_string kvs key m pattern = Inr s \<longleftrightarrow>
     lookup kvs (js key) = JStr s \<and> 0 < length s \<and> length s \<le> m \<and>
     (\<forall>r. pattern = Some r \<longrightarrow> matches r s)"
  by (auto simp: require_string_def split: json.splits option.splits)

lemma require_integer_eq_Inr [result_simps]:
  "require_integer kvs key lo hi = Inr i \<longleftrightarrow>
     (\<exists>n. lookup kvs (js key) = JNum n \<and> is_safe_integer n \<and> number_int n = i) \<and> lo \<le> i \<and> i \<le> hi"
  by (auto simp: require_integer_def split: json.splits)

lemma require_boolean_eq_Inr [result_simps]:
  "require_boolean kvs key = Inr b \<longleftrightarrow> lookup kvs (js key) = JBool b"
  by (auto simp: require_boolean_def split: json.splits)

text \<open>A validator never fails with anything but a non-retryable 400 of its own.\<close>

lemma require_string_eq_Inl:
  "require_string kvs key m pattern = Inl e \<Longrightarrow> e = broker ''FIELD_INVALID'' 400 False"
  by (auto simp: require_string_def split: json.splits if_splits)

lemma require_integer_eq_Inl:
  "require_integer kvs key lo hi = Inl e \<Longrightarrow> e = broker ''FIELD_INVALID'' 400 False"
  by (auto simp: require_integer_def split: json.splits if_splits)

lemma validators_broker_only [broker_only_intros]:
  "broker_only (require_string kvs key m pattern)" "broker_only (require_integer kvs key lo hi)"
  "broker_only (require_boolean kvs key)" "broker_only (require_object v code)"
  "broker_only (exact_object v allowed)"
  by (auto simp: broker_only_def require_string_def require_integer_def require_boolean_def
      require_object_def exact_object_def assert_js_def split: json.splits if_splits)

lemma safe_integer_bounds:
  "is_safe_integer n \<Longrightarrow> - max_safe \<le> number_int n \<and> number_int n \<le> max_safe"
  by (auto simp: is_safe_integer_def number_int_def max_safe_def split: js_number.splits)

section \<open>Decimal text\<close>

text \<open>
  \<open>positiveSafeInteger\<close>: \<open>Number(value)\<close> of decimal digits. Every caller has matched the text against
  \<open>[1-9][0-9]*\<close> (\<open>requireString\<close> here, \<open>claimPositiveIntegerText\<close> for the token's claims); other
  texts are outside the model. The double nearest to a number above \<open>MAX_SAFE_INTEGER\<close> is not a
  safe integer, and below it the conversion is exact.
\<close>

definition DIGITS :: regex where
  "DIGITS = RepInf (Cls ''09'') 1"

definition positive_safe_integer :: "js_string \<Rightarrow> string \<Rightarrow> int result" where
  "positive_safe_integer s code =
     bind_r (assert_js (matches DIGITS s \<and> num s \<le> max_safe \<and> 0 < num s) code 400) (\<lambda>_. Inr (num s))"

lemma positive_safe_integer_eq_Inr [result_simps]:
  "positive_safe_integer s code = Inr i \<longleftrightarrow> matches DIGITS s \<and> i = num s \<and> 0 < i \<and> i \<le> max_safe"
  by (auto simp: positive_safe_integer_def result_simps)

section \<open>The release binding\<close>

definition TARGET_REPOSITORY_ID :: int where "TARGET_REPOSITORY_ID = 1255975556"
definition CONTROLLER_REPOSITORY_ID :: int where "CONTROLLER_REPOSITORY_ID = 1305993853"

definition TAG :: regex where
  "TAG = (let n = Alt (Lit ''0'') (Seq (Cls ''19'') (RepInf (Cls ''09'') 0)) in
     Seq (Lit ''v'') (Seq n (Seq (Lit ''.'') (Seq n (Seq (Lit ''.'') n)))))"

definition ID_TEXT :: regex where
  "ID_TEXT = Seq (Cls ''19'') (Rep (Cls ''09'') 0 31)"

record release_binding =
  rb_attempt_id :: js_string
  rb_candidate_artifact_digest :: js_string
  rb_candidate_artifact_id :: int
  rb_candidate_id :: js_string
  rb_candidate_inventory_sha256 :: js_string
  rb_candidate_manifest_digest :: js_string
  rb_candidate_run_attempt :: int
  rb_candidate_run_id :: int
  rb_controller_repo_id :: int
  rb_controller_workflow_id :: int
  rb_controller_workflow_sha :: js_string
  rb_peeled_commit_sha :: js_string
  rb_policy_sha256 :: js_string
  rb_release_authority_id :: js_string
  rb_release_identity_id :: js_string
  rb_run_attempt :: int
  rb_run_id :: int
  rb_tag :: js_string
  rb_tag_object_sha :: js_string
  rb_tag_ref :: js_string
  rb_target_repo_id :: int

definition require_tagged_digest :: "members \<Rightarrow> string \<Rightarrow> js_string result" where
  "require_tagged_digest kvs key =
     bind_r (require_string kvs key 71 None) (\<lambda>s.
     bind_r (assert_js (matches DIGEST s) ''DIGEST_INVALID'' 400) (\<lambda>_. Inr s))"

lemma require_tagged_digest_eq_Inr [result_simps]:
  "require_tagged_digest kvs key = Inr s \<longleftrightarrow> lookup kvs (js key) = JStr s \<and> matches DIGEST s"
  using DIGEST_length DIGEST_length [of "[]"] by (auto simp: require_tagged_digest_def result_simps)

definition BINDING_FIELDS :: "string list" where
  "BINDING_FIELDS =
     [''attempt_id'', ''candidate_artifact_digest'', ''candidate_artifact_id'', ''candidate_id'',
      ''candidate_inventory_sha256'', ''candidate_manifest_digest'', ''candidate_run_attempt'',
      ''candidate_run_id'', ''controller_repo_id'', ''controller_workflow_id'',
      ''controller_workflow_sha'', ''peeled_commit_sha'', ''policy_sha256'',
      ''release_authority_id'', ''release_identity_id'', ''run_attempt'', ''run_id'', ''tag'',
      ''tag_object_sha'', ''tag_ref'', ''target_repo_id'']"

definition parse_release_binding :: "json \<Rightarrow> release_binding result" where
  "parse_release_binding v =
     bind_r (exact_object v BINDING_FIELDS) (\<lambda>m.
     bind_r (require_string m ''tag'' 64 (Some TAG)) (\<lambda>tag.
     bind_r (require_string m ''tag_ref'' 80 None) (\<lambda>tag_ref.
     bind_r (assert_js (tag_ref = js ''refs/tags/'' @ tag) ''TAG_REF_MISMATCH'' 400) (\<lambda>_.
     bind_r (require_integer m ''target_repo_id'' 1 max_safe) (\<lambda>target.
     bind_r (require_integer m ''controller_repo_id'' 1 max_safe) (\<lambda>controller.
     bind_r (require_integer m ''controller_workflow_id'' 1 max_safe) (\<lambda>workflow.
     bind_r (assert_js (target = TARGET_REPOSITORY_ID) ''TARGET_REPOSITORY_MISMATCH'' 403) (\<lambda>_.
     bind_r (assert_js (controller = CONTROLLER_REPOSITORY_ID) ''CONTROLLER_REPOSITORY_MISMATCH'' 403) (\<lambda>_.
     bind_r (require_string m ''peeled_commit_sha'' 40 None) (\<lambda>peeled.
     bind_r (require_string m ''tag_object_sha'' 40 None) (\<lambda>tag_object.
     bind_r (assert_js (matches SHA1_HEX peeled \<and> matches SHA1_HEX tag_object) ''GIT_ID_INVALID'' 400) (\<lambda>_.
     bind_r (assert_js (peeled \<noteq> tag_object) ''TAG_OBJECT_MUST_BE_ANNOTATED'' 400) (\<lambda>_.
     bind_r (require_string m ''policy_sha256'' 71 None) (\<lambda>policy.
     bind_r (assert_js (matches DIGEST policy) ''POLICY_DIGEST_INVALID'' 400) (\<lambda>_.
     bind_r (require_tagged_digest m ''attempt_id'') (\<lambda>attempt_id.
     bind_r (require_tagged_digest m ''candidate_artifact_digest'') (\<lambda>artifact_digest.
     bind_r (require_string m ''candidate_artifact_id'' 32 (Some ID_TEXT)) (\<lambda>artifact_text.
     bind_r (positive_safe_integer artifact_text ''CANDIDATE_ARTIFACT_ID_INVALID'') (\<lambda>artifact_id.
     bind_r (require_tagged_digest m ''candidate_id'') (\<lambda>candidate_id.
     bind_r (require_tagged_digest m ''candidate_inventory_sha256'') (\<lambda>inventory.
     bind_r (require_tagged_digest m ''candidate_manifest_digest'') (\<lambda>manifest.
     bind_r (require_integer m ''candidate_run_attempt'' 1 1000) (\<lambda>candidate_run_attempt.
     bind_r (require_string m ''candidate_run_id'' 32 (Some ID_TEXT)) (\<lambda>candidate_run_text.
     bind_r (positive_safe_integer candidate_run_text ''CANDIDATE_RUN_ID_INVALID'') (\<lambda>candidate_run_id.
     bind_r (require_string m ''controller_workflow_sha'' 40 (Some SHA1_HEX)) (\<lambda>workflow_sha.
     bind_r (require_tagged_digest m ''release_authority_id'') (\<lambda>authority_id.
     bind_r (require_tagged_digest m ''release_identity_id'') (\<lambda>identity_id.
     bind_r (require_integer m ''run_attempt'' 1 1000) (\<lambda>run_attempt.
     bind_r (require_string m ''run_id'' 32 (Some ID_TEXT)) (\<lambda>run_text.
     bind_r (positive_safe_integer run_text ''RUN_ID_INVALID'') (\<lambda>run_id.
     Inr \<lparr>rb_attempt_id = attempt_id, rb_candidate_artifact_digest = artifact_digest,
          rb_candidate_artifact_id = artifact_id, rb_candidate_id = candidate_id,
          rb_candidate_inventory_sha256 = inventory, rb_candidate_manifest_digest = manifest,
          rb_candidate_run_attempt = candidate_run_attempt, rb_candidate_run_id = candidate_run_id,
          rb_controller_repo_id = controller, rb_controller_workflow_id = workflow,
          rb_controller_workflow_sha = workflow_sha, rb_peeled_commit_sha = peeled,
          rb_policy_sha256 = policy, rb_release_authority_id = authority_id,
          rb_release_identity_id = identity_id, rb_run_attempt = run_attempt, rb_run_id = run_id,
          rb_tag = tag, rb_tag_object_sha = tag_object, rb_tag_ref = tag_ref,
          rb_target_repo_id = target\<rparr>)))))))))))))))))))))))))))))))"

text \<open>The fields of the verified token that the binding is compared with.\<close>

record authenticated_workflow =
  aw_run_id :: js_string
  aw_run_attempt :: int
  aw_workflow_sha :: js_string

record trusted_workflow =
  tw_id :: int
  tw_sha :: js_string

definition JI :: "int \<Rightarrow> json" where "JI i = JNum (JInt i)"

definition identity_payload :: "release_binding \<Rightarrow> json" where
  "identity_payload b = JObj
     [(js ''projects'', JArr [JStr (js ''apache-airflow-providers-dpone''), JStr (js ''dpone''),
         JStr (js ''dpone-airflow-pack''), JStr (js ''dpone-native-accel'')]),
      (js ''release'', JStr (rb_tag b)),
      (js ''repository_id'', JI TARGET_REPOSITORY_ID)]"

definition authority_payload :: "release_binding \<Rightarrow> json" where
  "authority_payload b = JObj
     [(js ''peeled_commit_sha'', JStr (rb_peeled_commit_sha b)),
      (js ''policy_sha256'', JStr (rb_policy_sha256 b)),
      (js ''protected_base_ref'', JStr (js ''refs/heads/master'')),
      (js ''release_identity_id'', JStr (rb_release_identity_id b)),
      (js ''tag_object_sha'', JStr (rb_tag_object_sha b))]"

definition attempt_payload :: "release_binding \<Rightarrow> json" where
  "attempt_payload b = JObj
     [(js ''controller_repository_id'', JI (rb_controller_repo_id b)),
      (js ''controller_run_attempt'', JI (rb_run_attempt b)),
      (js ''controller_run_id'', JI (rb_run_id b)),
      (js ''controller_workflow_id'', JI (rb_controller_workflow_id b)),
      (js ''release_authority_id'', JStr (rb_release_authority_id b))]"

definition candidate_payload :: "release_binding \<Rightarrow> json" where
  "candidate_payload b = JObj
     [(js ''candidate_inventory_sha256'', JStr (rb_candidate_inventory_sha256 b)),
      (js ''release_authority_id'', JStr (rb_release_authority_id b))]"

definition verify_release_binding ::
    "hash \<Rightarrow> release_binding \<Rightarrow> authenticated_workflow \<Rightarrow> trusted_workflow \<Rightarrow> unit result" where
  "verify_release_binding sha b auth trusted =
     bind_r (assert_js (rb_controller_workflow_id b = tw_id trusted) ''CONTROLLER_WORKFLOW_MISMATCH'' 403) (\<lambda>_.
     bind_r (assert_js (rb_controller_workflow_sha b = tw_sha trusted) ''WORKFLOW_SHA_MISMATCH'' 403) (\<lambda>_.
     bind_r (assert_js (rb_controller_workflow_sha b = aw_workflow_sha auth) ''WORKFLOW_SHA_MISMATCH'' 403) (\<lambda>_.
     bind_r (positive_safe_integer (aw_run_id auth) ''RUN_ID_INVALID'') (\<lambda>run_id.
     bind_r (assert_js (rb_run_id b = run_id) ''RUN_ID_MISMATCH'' 403) (\<lambda>_.
     bind_r (assert_js (rb_run_attempt b = aw_run_attempt auth) ''RUN_ATTEMPT_MISMATCH'' 403) (\<lambda>_.
     bind_r (digest_domain sha (js ''dpone.release.identity.v2'') (identity_payload b)) (\<lambda>identity.
     bind_r (assert_js (rb_release_identity_id b = identity) ''RELEASE_IDENTITY_ID_MISMATCH'' 403) (\<lambda>_.
     bind_r (digest_domain sha (js ''dpone.release.authority.v2'') (authority_payload b)) (\<lambda>authority.
     bind_r (assert_js (rb_release_authority_id b = authority) ''RELEASE_AUTHORITY_ID_MISMATCH'' 403) (\<lambda>_.
     bind_r (digest_domain sha (js ''dpone.release.attempt.v2'') (attempt_payload b)) (\<lambda>attempt.
     bind_r (assert_js (rb_attempt_id b = attempt) ''ATTEMPT_ID_MISMATCH'' 403) (\<lambda>_.
     bind_r (digest_domain sha (js ''dpone.release.candidate.v2'') (candidate_payload b)) (\<lambda>candidate.
     assert_js (rb_candidate_id b = candidate) ''CANDIDATE_ID_MISMATCH'' 403)))))))))))))"

end
