(* ===== verification/ReplayLedger.thy ===== *)
theory ReplayLedger imports Validation begin

text \<open>
  The replay ledger: \<open>auth-replay-ledger.ts\<close> (one-shot and exact-replay consumption of a token's
  JTI, table \<open>oidc_jti\<close>) and \<open>auth-replay-effect-store.ts\<close> (prepare, commit, cancel and tombstones
  of the uses that are linked to an authority effect, table \<open>oidc_effect_jti\<close>). A storage is the two
  tables; a call is an operation on it, with one parameter per reading of \<open>Date.now()\<close>. The steps of
  a ledger are the calls in any order, under a clock that does not run backwards.
\<close>

section \<open>Tables\<close>

record replay_row =
  rr_jti_hash :: js_string
  rr_expires_at :: int
  rr_used_at :: int
  rr_request_id :: js_string
  rr_claims_digest :: js_string

datatype effect_replay_state = CANCELLED | CONSUMED | PREPARED

record effect_replay_row =
  er_jti_hash :: js_string
  er_expires_at :: int
  er_prepared_at :: int
  er_terminal_at :: "int option"
  er_journal_terminal_at :: "int option"
  er_request_id :: js_string
  er_reservation_id :: js_string
  er_claims_digest :: js_string
  er_state :: effect_replay_state

record replay_storage =
  oidc_jti :: "replay_row list"
  oidc_effect_jti :: "effect_replay_row list"

definition oidc_jti_ok :: "replay_row list \<Rightarrow> bool" where
  "oidc_jti_ok t \<longleftrightarrow> distinct (map rr_jti_hash t) \<and> distinct (map rr_request_id t)"

definition oidc_effect_jti_ok :: "effect_replay_row list \<Rightarrow> bool" where
  "oidc_effect_jti_ok t \<longleftrightarrow> distinct (map er_jti_hash t) \<and> distinct (map er_request_id t)"

definition empty_replay_storage :: replay_storage where
  "empty_replay_storage = \<lparr>oidc_jti = [], oidc_effect_jti = []\<rparr>"

interpretation jti: unique_table oidc_jti_ok rr_jti_hash
  by unfold_locales (simp add: oidc_jti_ok_def)

interpretation jti_request: unique_table oidc_jti_ok rr_request_id
  by unfold_locales (simp add: oidc_jti_ok_def)

interpretation effect_jti: unique_table oidc_effect_jti_ok er_jti_hash
  by unfold_locales (simp add: oidc_effect_jti_ok_def)

interpretation effect_request: unique_table oidc_effect_jti_ok er_request_id
  by unfold_locales (simp add: oidc_effect_jti_ok_def)

section \<open>Effect-linked uses\<close>

definition EFFECT_REPLAY_MAX_ROWS :: nat where "EFFECT_REPLAY_MAX_ROWS = 10000"
definition TERMINAL_TOMBSTONE_GRACE_MS :: int where "TERMINAL_TOMBSTONE_GRACE_MS = 7 * 86400000"

record effect_replay_binding =
  eb_claims_digest :: js_string
  eb_expires_at :: int
  eb_jti_hash :: js_string
  eb_request_id :: js_string
  eb_reservation_id :: js_string

datatype observed_state = ABSENT | Observed effect_replay_state

record effect_replay_observation =
  eo_request_id :: js_string
  eo_reservation_id :: js_string
  eo_state :: observed_state

definition parse_effect_replay_binding :: "json \<Rightarrow> effect_replay_binding result" where
  "parse_effect_replay_binding v =
     bind_r (exact_object v [''claims_digest'', ''expires_at'', ''jti_sha256'', ''request_id'',
               ''reservation_id'']) (\<lambda>body.
     bind_r (require_string body ''claims_digest'' 71 (Some DIGEST)) (\<lambda>claims.
     bind_r (require_integer body ''expires_at'' 1 max_safe) (\<lambda>expires.
     bind_r (require_string body ''jti_sha256'' 71 (Some DIGEST)) (\<lambda>jti.
     bind_r (require_string body ''request_id'' 128 None) (\<lambda>request.
     bind_r (require_string body ''reservation_id'' 71 (Some DIGEST)) (\<lambda>reservation.
     Inr \<lparr>eb_claims_digest = claims, eb_expires_at = expires, eb_jti_hash = drop 7 jti,
          eb_request_id = request, eb_reservation_id = reservation\<rparr>))))))"

definition effect_replay_binding_body ::
    "js_string \<Rightarrow> int \<Rightarrow> js_string \<Rightarrow> js_string \<Rightarrow> js_string \<Rightarrow> json" where
  "effect_replay_binding_body jti expires request claims reservation = JObj
     [(js ''claims_digest'', JStr claims), (js ''expires_at'', JI expires),
      (js ''jti_sha256'', JStr jti), (js ''request_id'', JStr request),
      (js ''reservation_id'', JStr reservation)]"

definition effect_matches :: "js_string \<Rightarrow> js_string \<Rightarrow> effect_replay_row \<Rightarrow> bool" where
  "effect_matches jti request r \<longleftrightarrow> er_jti_hash r = jti \<or> er_request_id r = request"

definition ordinary_matches :: "js_string \<Rightarrow> js_string \<Rightarrow> replay_row \<Rightarrow> bool" where
  "ordinary_matches jti request r \<longleftrightarrow> rr_jti_hash r = jti \<or> rr_request_id r = request"

definition has_effect_replay_collision :: "replay_storage \<Rightarrow> js_string \<Rightarrow> js_string \<Rightarrow> bool" where
  "has_effect_replay_collision s jti request \<longleftrightarrow>
     length (filter (effect_matches jti request) (oidc_effect_jti s)) \<noteq> 0"

definition has_ordinary_collision :: "replay_storage \<Rightarrow> js_string \<Rightarrow> js_string \<Rightarrow> bool" where
  "has_ordinary_collision s jti request \<longleftrightarrow>
     length (filter (ordinary_matches jti request) (oidc_jti s)) \<noteq> 0"

definition effect_rows :: "replay_storage \<Rightarrow> effect_replay_binding \<Rightarrow> effect_replay_row list" where
  "effect_rows s b = filter (effect_matches (eb_jti_hash b) (eb_request_id b)) (oidc_effect_jti s)"

definition row_binds :: "effect_replay_binding \<Rightarrow> effect_replay_row \<Rightarrow> bool" where
  "row_binds b r \<longleftrightarrow>
     er_jti_hash r = eb_jti_hash b \<and> er_claims_digest r = eb_claims_digest b \<and>
     er_expires_at r = eb_expires_at b \<and> er_request_id r = eb_request_id b \<and>
     er_reservation_id r = eb_reservation_id b"

definition exact_effect_row ::
    "effect_replay_row list \<Rightarrow> effect_replay_binding \<Rightarrow> effect_replay_row result" where
  "exact_effect_row rows b =
     (case rows of
        [r] \<Rightarrow> if row_binds b r then Inr r
               else Inl (broker ''OIDC_REPLAY_RECONCILIATION_CONFLICT'' 409 False)
      | _ \<Rightarrow> Inl (broker ''OIDC_REPLAY_RECONCILIATION_CONFLICT'' 409 False))"

definition effect_observation :: "effect_replay_row \<Rightarrow> effect_replay_observation" where
  "effect_observation r = \<lparr>eo_request_id = er_request_id r, eo_reservation_id = er_reservation_id r,
     eo_state = Observed (er_state r)\<rparr>"

definition observation_from_binding ::
    "effect_replay_binding \<Rightarrow> observed_state \<Rightarrow> effect_replay_observation" where
  "observation_from_binding b st = \<lparr>eo_request_id = eb_request_id b,
     eo_reservation_id = eb_reservation_id b, eo_state = st\<rparr>"

definition tombstone_expired :: "int \<Rightarrow> effect_replay_row \<Rightarrow> bool" where
  "tombstone_expired now r \<longleftrightarrow>
     (case er_journal_terminal_at r of
        None \<Rightarrow> False
      | Some at \<Rightarrow> at < now - TERMINAL_TOMBSTONE_GRACE_MS \<and>
                   er_expires_at r < (now - TERMINAL_TOMBSTONE_GRACE_MS) div 1000)"

definition prune_terminal_tombstones :: "int \<Rightarrow> replay_storage \<Rightarrow> replay_storage" where
  "prune_terminal_tombstones now s =
     s\<lparr>oidc_effect_jti := filter (\<lambda>r. \<not> tombstone_expired now r) (oidc_effect_jti s)\<rparr>"

definition write_effects ::
    "replay_storage \<Rightarrow> effect_replay_row list \<Rightarrow> replay_storage result" where
  "write_effects s t =
     bind_r (write_table oidc_effect_jti_ok t) (\<lambda>t'. Inr (s\<lparr>oidc_effect_jti := t'\<rparr>))"

definition prepared_row :: "effect_replay_binding \<Rightarrow> int \<Rightarrow> effect_replay_row" where
  "prepared_row b now = \<lparr>er_jti_hash = eb_jti_hash b, er_expires_at = eb_expires_at b,
     er_prepared_at = now, er_terminal_at = None, er_journal_terminal_at = None,
     er_request_id = eb_request_id b, er_reservation_id = eb_reservation_id b,
     er_claims_digest = eb_claims_digest b, er_state = PREPARED\<rparr>"

definition prepare_body ::
    "effect_replay_binding \<Rightarrow> int \<Rightarrow> int \<Rightarrow> replay_storage \<Rightarrow>
       (effect_replay_observation \<times> replay_storage) result" where
  "prepare_body b now2 now3 s0 =
     (let s = prune_terminal_tombstones now2 s0 in
      if has_ordinary_collision s (eb_jti_hash b) (eb_request_id b)
      then Inl (broker ''OIDC_REPLAY'' 409 False)
      else if effect_rows s b \<noteq> [] then
        bind_r (exact_effect_row (effect_rows s b) b) (\<lambda>row.
          if er_state row \<noteq> PREPARED then Inl (broker ''OIDC_REPLAY'' 409 False)
          else Inr (effect_observation row, s))
      else if length (oidc_effect_jti s) \<ge> EFFECT_REPLAY_MAX_ROWS
      then Inl (broker ''OIDC_REPLAY_CAPACITY_EXHAUSTED'' 503 False)
      else
        bind_r (write_effects s (oidc_effect_jti s @ [prepared_row b now3])) (\<lambda>t.
          Inr (observation_from_binding b (Observed PREPARED), t)))"

definition prepare ::
    "json \<Rightarrow> int \<Rightarrow> int \<Rightarrow> int \<Rightarrow> (replay_storage, effect_replay_observation) op" where
  "prepare v now1 now2 now3 =
     bind_op (lift_op (parse_effect_replay_binding v)) (\<lambda>b.
       if eb_expires_at b * 1000 \<le> now1 then fail_op (broker ''OIDC_EXPIRED'' 401 False)
       else transaction (prepare_body b now2 now3))"

definition transition_body ::
    "effect_replay_binding \<Rightarrow> effect_replay_state \<Rightarrow> int \<Rightarrow> replay_storage \<Rightarrow>
       (effect_replay_observation \<times> replay_storage) result" where
  "transition_body b terminal now s =
     bind_r (exact_effect_row (effect_rows s b) b) (\<lambda>row.
       if er_state row = terminal then Inr (effect_observation row, s)
       else if er_state row \<noteq> PREPARED
       then Inl (broker ''OIDC_REPLAY_RECONCILIATION_CONFLICT'' 409 False)
       else
         bind_r (write_effects s
           (update_where (\<lambda>r. er_jti_hash r = eb_jti_hash b \<and> er_state r = PREPARED)
              (\<lambda>r. r\<lparr>er_state := terminal, er_terminal_at := Some now\<rparr>) (oidc_effect_jti s))) (\<lambda>t.
         bind_r (exact_effect_row (effect_rows t b) b) (\<lambda>row'. Inr (effect_observation row', t))))"

definition transition ::
    "json \<Rightarrow> effect_replay_state \<Rightarrow> int \<Rightarrow> (replay_storage, effect_replay_observation) op" where
  "transition v terminal now =
     bind_op (lift_op (parse_effect_replay_binding v)) (\<lambda>b. transaction (transition_body b terminal now))"

definition commit :: "json \<Rightarrow> int \<Rightarrow> (replay_storage, effect_replay_observation) op" where
  "commit v now = transition v CONSUMED now"

definition cancel :: "json \<Rightarrow> int \<Rightarrow> (replay_storage, effect_replay_observation) op" where
  "cancel v now = transition v CANCELLED now"

definition observe :: "json \<Rightarrow> (replay_storage, effect_replay_observation) op" where
  "observe v =
     bind_op (lift_op (parse_effect_replay_binding v)) (\<lambda>b.
     bind_op get_op (\<lambda>s.
       lift_op (if effect_rows s b = [] then Inr (observation_from_binding b ABSENT)
                else bind_r (exact_effect_row (effect_rows s b) b) (\<lambda>row. Inr (effect_observation row)))))"

definition mark_body ::
    "effect_replay_binding \<Rightarrow> int \<Rightarrow> replay_storage \<Rightarrow>
       (effect_replay_observation \<times> replay_storage) result" where
  "mark_body b now s =
     bind_r (exact_effect_row (effect_rows s b) b) (\<lambda>row.
       if er_state row \<noteq> CANCELLED \<and> er_state row \<noteq> CONSUMED
       then Inl (broker ''OIDC_REPLAY_JOURNAL_NONTERMINAL'' 409 False)
       else
         bind_r (write_effects s
           (update_where (\<lambda>r. er_jti_hash r = eb_jti_hash b)
              (\<lambda>r. r\<lparr>er_journal_terminal_at :=
                       Some (case er_journal_terminal_at r of None \<Rightarrow> now | Some at \<Rightarrow> at)\<rparr>)
              (oidc_effect_jti s))) (\<lambda>t.
         bind_r (exact_effect_row (effect_rows t b) b) (\<lambda>row'. Inr (effect_observation row', t))))"

definition mark_journal_terminal ::
    "json \<Rightarrow> int \<Rightarrow> (replay_storage, effect_replay_observation) op" where
  "mark_journal_terminal v now =
     bind_op (lift_op (parse_effect_replay_binding v)) (\<lambda>b. transaction (mark_body b now))"

section \<open>One-shot consumption\<close>

record replay_consumption =
  rc_replayed :: bool
  rc_request_id :: js_string

record replay_observation =
  ro_consumed :: bool
  ro_request_id :: js_string

definition consume_body ::
    "js_string \<Rightarrow> js_string \<Rightarrow> int \<Rightarrow> js_string \<Rightarrow> bool \<Rightarrow> int \<Rightarrow> replay_storage \<Rightarrow>
       (bool \<times> replay_storage) result" where
  "consume_body jti_hash claims expires request exact now s =
     (if has_effect_replay_collision s jti_hash request then Inl (broker ''OIDC_REPLAY'' 409 False)
      else case filter (ordinary_matches jti_hash request) (oidc_jti s) of
        [] \<Rightarrow>
          bind_r (write_table oidc_jti_ok (oidc_jti s @
            [\<lparr>rr_jti_hash = jti_hash, rr_expires_at = expires, rr_used_at = now,
              rr_request_id = request, rr_claims_digest = claims\<rparr>])) (\<lambda>t.
          Inr (False, s\<lparr>oidc_jti := t\<rparr>))
      | row # rows \<Rightarrow>
          if exact \<and> rows = [] \<and> rr_jti_hash row = jti_hash \<and> rr_claims_digest row = claims \<and>
             rr_expires_at row = expires \<and> rr_request_id row = request
          then Inr (True, s) else Inl (broker ''OIDC_REPLAY'' 409 False))"

definition consume_replay ::
    "hash \<Rightarrow> json \<Rightarrow> bool \<Rightarrow> int \<Rightarrow> (replay_storage, replay_consumption) op" where
  "consume_replay sha v exact now =
     bind_op (lift_op (exact_object v [''claims_digest'', ''expires_at'', ''jti'', ''request_id''])) (\<lambda>body.
     bind_op (lift_op (require_string body ''jti'' 256 None)) (\<lambda>jti.
     bind_op (lift_op (require_integer body ''expires_at'' 1 max_safe)) (\<lambda>expires.
     bind_op (lift_op (require_string body ''claims_digest'' 71 (Some DIGEST))) (\<lambda>claims.
     bind_op (lift_op (require_string body ''request_id'' 128 None)) (\<lambda>request.
       if expires * 1000 \<le> now then fail_op (broker ''OIDC_EXPIRED'' 401 False)
       else
         bind_op (transaction (consume_body (sha256_hex sha (utf8_encode jti)) claims expires request
                    exact now)) (\<lambda>replayed.
         return_op \<lparr>rc_replayed = replayed, rc_request_id = request\<rparr>))))))"

definition ADMIN_REPLAY_LEDGER_NAME :: js_string where
  "ADMIN_REPLAY_LEDGER_NAME = js ''admin-access-v1''"

definition consume_once :: "hash \<Rightarrow> json \<Rightarrow> int \<Rightarrow> (replay_storage, replay_consumption) op" where
  "consume_once sha v now = consume_replay sha v False now"

definition consume_idempotent_exact ::
    "hash \<Rightarrow> js_string \<Rightarrow> json \<Rightarrow> int \<Rightarrow> (replay_storage, replay_consumption) op" where
  "consume_idempotent_exact sha name v now =
     (if name \<noteq> ADMIN_REPLAY_LEDGER_NAME
      then fail_op (broker ''AUTH_REPLAY_POLICY_FORBIDDEN'' 409 False)
      else consume_replay sha v True now)"

definition observe_consumed_exact :: "json \<Rightarrow> (replay_storage, replay_observation) op" where
  "observe_consumed_exact v =
     bind_op (lift_op (exact_object v [''claims_digest'', ''expires_at'', ''jti_sha256'', ''request_id''])) (\<lambda>body.
     bind_op (lift_op (require_string body ''jti_sha256'' 71 (Some DIGEST))) (\<lambda>jti.
     bind_op (lift_op (require_string body ''claims_digest'' 71 (Some DIGEST))) (\<lambda>claims.
     bind_op (lift_op (require_integer body ''expires_at'' 1 max_safe)) (\<lambda>expires.
     bind_op (lift_op (require_string body ''request_id'' 128 None)) (\<lambda>request.
     bind_op get_op (\<lambda>s.
     lift_op (case filter (ordinary_matches (drop 7 jti) request) (oidc_jti s) of
         [] \<Rightarrow> Inr \<lparr>ro_consumed = False, ro_request_id = request\<rparr>
       | row # rows \<Rightarrow>
           if rows = [] \<and> rr_jti_hash row = drop 7 jti \<and> rr_claims_digest row = claims \<and>
              rr_expires_at row = expires \<and> rr_request_id row = request
           then Inr \<lparr>ro_consumed = True, ro_request_id = request\<rparr>
           else Inl (broker ''OIDC_REPLAY_RECONCILIATION_CONFLICT'' 409 False))))))))"

definition replay_request_body :: "js_string \<Rightarrow> int \<Rightarrow> js_string \<Rightarrow> js_string \<Rightarrow> json" where
  "replay_request_body jti expires request claims = JObj
     [(js ''claims_digest'', JStr claims), (js ''expires_at'', JI expires),
      (js ''jti'', JStr jti), (js ''request_id'', JStr request)]"

definition replay_observation_body :: "js_string \<Rightarrow> int \<Rightarrow> js_string \<Rightarrow> js_string \<Rightarrow> json" where
  "replay_observation_body jti expires request claims = JObj
     [(js ''claims_digest'', JStr claims), (js ''expires_at'', JI expires),
      (js ''jti_sha256'', JStr jti), (js ''request_id'', JStr request)]"

text \<open>The effect operations of the ledger object are refused on any other object name.\<close>

definition EFFECT_LEDGER_NAME :: js_string where
  "EFFECT_LEDGER_NAME = js ''github-oidc-v1''"

definition on_effect_ledger :: "js_string \<Rightarrow> (replay_storage, 'a) op \<Rightarrow> (replay_storage, 'a) op" where
  "on_effect_ledger name m =
     (if name \<noteq> EFFECT_LEDGER_NAME
      then fail_op (broker ''AUTH_REPLAY_POLICY_FORBIDDEN'' 409 False) else m)"

definition prepare_effect_exact where
  "prepare_effect_exact name v now1 now2 now3 = on_effect_ledger name (prepare v now1 now2 now3)"
definition commit_prepared_effect_exact where
  "commit_prepared_effect_exact name v now = on_effect_ledger name (commit v now)"
definition cancel_prepared_effect_exact where
  "cancel_prepared_effect_exact name v now = on_effect_ledger name (cancel v now)"
definition observe_prepared_effect_exact where
  "observe_prepared_effect_exact name v = on_effect_ledger name (observe v)"
definition mark_effect_journal_terminal_exact where
  "mark_effect_journal_terminal_exact name v now =
     on_effect_ledger name (mark_journal_terminal v now)"

section \<open>What each call does\<close>

text \<open>
  Between calls the constraints of both tables hold, no JTI and no request id is in both tables, the
  rows record their own history, and the effect table is within its capacity.
\<close>

definition effect_row_ok :: "effect_replay_row \<Rightarrow> bool" where
  "effect_row_ok r \<longleftrightarrow>
     (er_terminal_at r = None \<longleftrightarrow> er_state r = PREPARED) \<and>
     (er_state r = PREPARED \<longrightarrow> er_journal_terminal_at r = None)"

definition tables_disjoint :: "replay_storage \<Rightarrow> bool" where
  "tables_disjoint s \<longleftrightarrow>
     (\<forall>r \<in> set (oidc_jti s). \<forall>e \<in> set (oidc_effect_jti s).
        rr_jti_hash r \<noteq> er_jti_hash e \<and> rr_request_id r \<noteq> er_request_id e)"

definition ledger_inv :: "replay_storage \<Rightarrow> bool" where
  "ledger_inv s \<longleftrightarrow>
     oidc_jti_ok (oidc_jti s) \<and> oidc_effect_jti_ok (oidc_effect_jti s) \<and> tables_disjoint s \<and>
     (\<forall>r \<in> set (oidc_effect_jti s). effect_row_ok r) \<and>
     length (oidc_effect_jti s) \<le> EFFECT_REPLAY_MAX_ROWS"

lemma distinct_singleton: "distinct xs \<Longrightarrow> set xs = {r} \<Longrightarrow> xs = [r]"
  by (cases xs) (auto simp: subset_singleton_iff)

lemma exact_effect_row_eq_Inr [result_simps]:
  "exact_effect_row rows b = Inr r \<longleftrightarrow> rows = [r] \<and> row_binds b r"
  by (auto simp: exact_effect_row_def split: list.splits if_splits)

lemma exact_effect_row_eq_Inl [result_simps]:
  "exact_effect_row rows b = Inl e \<longleftrightarrow>
     e = broker ''OIDC_REPLAY_RECONCILIATION_CONFLICT'' 409 False \<and> \<not> (\<exists>r. rows = [r] \<and> row_binds b r)"
  by (auto simp: exact_effect_row_def split: list.splits if_splits)

text \<open>The lookup by JTI or request id finds the bound row, and only that one.\<close>

lemma effect_rows_singleton:
  assumes ok: "oidc_effect_jti_ok (oidc_effect_jti s)"
    and r: "r \<in> set (oidc_effect_jti s)" "row_binds b r"
  shows "effect_rows s b = [r]"
proof (rule distinct_singleton)
  show "distinct (effect_rows s b)"
    using ok by (auto simp: effect_rows_def oidc_effect_jti_ok_def distinct_map)
  have "x = r" if "x \<in> set (oidc_effect_jti s)" "effect_matches (eb_jti_hash b) (eb_request_id b) x" for x
  proof -
    from that(2) r(2) have "er_jti_hash x = er_jti_hash r \<or> er_request_id x = er_request_id r"
      by (simp add: effect_matches_def row_binds_def)
    then show ?thesis
      using effect_jti.same_key [OF ok that(1) r(1)] effect_request.same_key [OF ok that(1) r(1)] by blast
  qed
  moreover have "effect_matches (eb_jti_hash b) (eb_request_id b) r"
    using r(2) by (simp add: effect_matches_def row_binds_def)
  ultimately show "set (effect_rows s b) = {r}"
    using r(1) unfolding effect_rows_def set_filter by blast
qed

lemma exact_row_iff:
  assumes "oidc_effect_jti_ok (oidc_effect_jti s)"
  shows "exact_effect_row (effect_rows s b) b = Inr r \<longleftrightarrow> r \<in> set (oidc_effect_jti s) \<and> row_binds b r"
proof
  assume "exact_effect_row (effect_rows s b) b = Inr r"
  then have "effect_rows s b = [r]" "row_binds b r" by (auto simp: result_simps)
  then have "r \<in> set (effect_rows s b)" by simp
  with \<open>row_binds b r\<close> show "r \<in> set (oidc_effect_jti s) \<and> row_binds b r" by (simp add: effect_rows_def)
next
  assume "r \<in> set (oidc_effect_jti s) \<and> row_binds b r"
  then show "exact_effect_row (effect_rows s b) b = Inr r"
    using effect_rows_singleton [OF assms, of r b] by (simp add: exact_effect_row_def)
qed

lemma exact_row_none:
  assumes "\<forall>r \<in> set (oidc_effect_jti s). \<not> row_binds b r"
  shows "exact_effect_row (effect_rows s b) b = Inl (broker ''OIDC_REPLAY_RECONCILIATION_CONFLICT'' 409 False)"
proof (cases "exact_effect_row (effect_rows s b) b")
  case (Inr r)
  then have "r \<in> set (effect_rows s b)" "row_binds b r" by (auto simp: result_simps)
  with assms show ?thesis by (auto simp: effect_rows_def)
qed (auto simp: result_simps)

lemma effect_ok_update:
  "(\<And>r. er_jti_hash (f r) = er_jti_hash r) \<Longrightarrow> (\<And>r. er_request_id (f r) = er_request_id r) \<Longrightarrow>
     oidc_effect_jti_ok (update_where p f t) = oidc_effect_jti_ok t"
  by (simp add: oidc_effect_jti_ok_def map_update_where)

abbreviation set_row where
  "set_row s r f \<equiv>
     s\<lparr>oidc_effect_jti := update_where (\<lambda>x. er_jti_hash x = er_jti_hash r) f (oidc_effect_jti s)\<rparr>"

lemma set_row_members:
  assumes "oidc_effect_jti_ok (oidc_effect_jti s)" and "r \<in> set (oidc_effect_jti s)"
  shows "set (oidc_effect_jti (set_row s r f)) = insert (f r) (set (oidc_effect_jti s) - {r})"
  using effect_jti.update_by_key [OF assms, of f] by simp

lemma write_set_row:
  assumes ok: "oidc_effect_jti_ok (oidc_effect_jti s)"
    and r: "r \<in> set (oidc_effect_jti s)" "row_binds b r"
    and f: "\<And>x. er_jti_hash (f x) = er_jti_hash x" "\<And>x. er_request_id (f x) = er_request_id x"
      "row_binds b (f r)"
  shows "write_effects s (update_where (\<lambda>x. er_jti_hash x = er_jti_hash r) f (oidc_effect_jti s)) =
           Inr (set_row s r f)"
    and "exact_effect_row (effect_rows (set_row s r f) b) b = Inr (f r)"
proof -
  have ok': "oidc_effect_jti_ok (oidc_effect_jti (set_row s r f))"
    using ok f by (simp add: effect_ok_update)
  then show "write_effects s (update_where (\<lambda>x. er_jti_hash x = er_jti_hash r) f (oidc_effect_jti s)) =
           Inr (set_row s r f)"
    by (simp add: write_effects_def write_table_def)
  show "exact_effect_row (effect_rows (set_row s r f) b) b = Inr (f r)"
    unfolding exact_row_iff [OF ok'] set_row_members [OF ok r(1)] using f(3) by simp
qed

abbreviation finish :: "effect_replay_state \<Rightarrow> int \<Rightarrow> effect_replay_row \<Rightarrow> effect_replay_row" where
  "finish terminal now r \<equiv> r\<lparr>er_state := terminal, er_terminal_at := Some now\<rparr>"

lemma transition_body_row:
  assumes ok: "oidc_effect_jti_ok (oidc_effect_jti s)"
    and r: "r \<in> set (oidc_effect_jti s)" "row_binds b r"
  shows "transition_body b terminal now s =
    (if er_state r = terminal then Inr (effect_observation r, s)
     else if er_state r \<noteq> PREPARED
     then Inl (broker ''OIDC_REPLAY_RECONCILIATION_CONFLICT'' 409 False)
     else Inr (effect_observation (finish terminal now r), set_row s r (finish terminal now)))"
proof -
  have exact: "exact_effect_row (effect_rows s b) b = Inr r" using r exact_row_iff [OF ok] by simp
  have jti: "eb_jti_hash b = er_jti_hash r" using r(2) by (simp add: row_binds_def)
  have same: "update_where (\<lambda>x. er_jti_hash x = er_jti_hash r \<and> er_state x = PREPARED) f (oidc_effect_jti s) =
      update_where (\<lambda>x. er_jti_hash x = er_jti_hash r) f (oidc_effect_jti s)"
    if "er_state r = PREPARED" for f
    using effect_jti.same_key [OF ok _ r(1)] that by (auto simp: update_where_def)
  have "row_binds b (finish terminal now r)" using r(2) by (simp add: row_binds_def)
  note w = write_set_row [OF ok r, of "finish terminal now", simplified, OF this]
  show ?thesis
    by (simp add: transition_body_def exact jti same w)
qed

lemma transition_body_none:
  assumes "\<forall>r \<in> set (oidc_effect_jti s). \<not> row_binds b r"
  shows "transition_body b terminal now s =
    Inl (broker ''OIDC_REPLAY_RECONCILIATION_CONFLICT'' 409 False)"
  by (simp add: transition_body_def exact_row_none [OF assms])

abbreviation seal :: "int \<Rightarrow> effect_replay_row \<Rightarrow> effect_replay_row" where
  "seal now r \<equiv> r\<lparr>er_journal_terminal_at :=
     Some (case er_journal_terminal_at r of None \<Rightarrow> now | Some at \<Rightarrow> at)\<rparr>"

lemma mark_body_row:
  assumes ok: "oidc_effect_jti_ok (oidc_effect_jti s)"
    and r: "r \<in> set (oidc_effect_jti s)" "row_binds b r"
  shows "mark_body b now s =
    (if er_state r = PREPARED then Inl (broker ''OIDC_REPLAY_JOURNAL_NONTERMINAL'' 409 False)
     else Inr (effect_observation (seal now r), set_row s r (seal now)))"
proof -
  have exact: "exact_effect_row (effect_rows s b) b = Inr r" using r exact_row_iff [OF ok] by simp
  have jti: "eb_jti_hash b = er_jti_hash r" using r(2) by (simp add: row_binds_def)
  have "row_binds b (seal now r)" using r(2) by (simp add: row_binds_def)
  note w = write_set_row [OF ok r, of "seal now", simplified, OF this]
  show ?thesis
    by (cases "er_state r") (simp_all add: mark_body_def exact jti w)
qed

lemma mark_body_none:
  assumes "\<forall>r \<in> set (oidc_effect_jti s). \<not> row_binds b r"
  shows "mark_body b now s = Inl (broker ''OIDC_REPLAY_RECONCILIATION_CONFLICT'' 409 False)"
  by (simp add: mark_body_def exact_row_none [OF assms])

lemma effect_rows_empty:
  "effect_rows s b = [] \<longleftrightarrow>
     (\<forall>r \<in> set (oidc_effect_jti s). er_jti_hash r \<noteq> eb_jti_hash b \<and> er_request_id r \<noteq> eb_request_id b)"
  by (auto simp: effect_rows_def effect_matches_def filter_empty_conv)

lemma effect_rows_append:
  assumes "effect_rows s b = []" and "oidc_effect_jti_ok (oidc_effect_jti s)"
  shows "oidc_effect_jti_ok (oidc_effect_jti s @ [prepared_row b now])"
  using assms unfolding effect_rows_empty
  by (auto simp: oidc_effect_jti_ok_def prepared_row_def image_iff)

text \<open>The effect table of a successful \<open>prepare\<close>: pruned, with the bound row in it.\<close>

lemma prepare_body_cases:
  assumes ok: "oidc_effect_jti_ok (oidc_effect_jti s)" and "prepare_body b now2 now3 s = Inr (x, t)"
  obtains (existing) r where "t = prune_terminal_tombstones now2 s"
      "r \<in> set (oidc_effect_jti t)" "row_binds b r" "er_state r = PREPARED" "x = effect_observation r"
    | (fresh) "t = prune_terminal_tombstones now2 s
          \<lparr>oidc_effect_jti := oidc_effect_jti (prune_terminal_tombstones now2 s) @ [prepared_row b now3]\<rparr>"
      "\<forall>r \<in> set (oidc_effect_jti (prune_terminal_tombstones now2 s)).
         er_jti_hash r \<noteq> eb_jti_hash b \<and> er_request_id r \<noteq> eb_request_id b"
      "\<not> has_ordinary_collision s (eb_jti_hash b) (eb_request_id b)"
      "length (oidc_effect_jti (prune_terminal_tombstones now2 s)) < EFFECT_REPLAY_MAX_ROWS"
      "x = observation_from_binding b (Observed PREPARED)"
proof -
  define p where "p = prune_terminal_tombstones now2 s"
  have okp: "oidc_effect_jti_ok (oidc_effect_jti p)"
    using ok by (auto simp: p_def prune_terminal_tombstones_def oidc_effect_jti_ok_def distinct_map_filter)
  have coll: "has_ordinary_collision p j q = has_ordinary_collision s j q" for j q
    by (simp add: p_def prune_terminal_tombstones_def has_ordinary_collision_def)
  show thesis
  proof (cases "effect_rows p b = []")
    case True
    note w = effect_rows_append [OF True okp]
    have res: "\<not> has_ordinary_collision s (eb_jti_hash b) (eb_request_id b)"
      "length (oidc_effect_jti p) < EFFECT_REPLAY_MAX_ROWS"
      "t = p\<lparr>oidc_effect_jti := oidc_effect_jti p @ [prepared_row b now3]\<rparr>"
      "x = observation_from_binding b (Observed PREPARED)"
      using assms(2) True
      by (simp_all add: prepare_body_def p_def [symmetric] Let_def w
          write_effects_def write_table_def coll split: if_splits)
    show thesis
      by (rule fresh [folded p_def, OF res(3) _ res(1,2,4)]) (use True in \<open>simp add: effect_rows_empty\<close>)
  next
    case False
    then obtain r where r: "exact_effect_row (effect_rows p b) b = Inr r"
      "er_state r = PREPARED" "x = effect_observation r" "t = p"
      using assms(2) unfolding prepare_body_def p_def [symmetric] Let_def
      by (cases "exact_effect_row (effect_rows p b) b") (simp_all split: if_splits)
    then show thesis
      unfolding exact_row_iff [OF okp] by (intro existing [folded p_def, of r]) simp_all
  qed
qed

end
