(* ===== verification/ReplayHistory.thy ===== *)
theory ReplayHistory imports ReplayLedger begin

text \<open>
  Histories of the replay ledger: the calls of its RPC surface as steps under a clock that does not
  run backwards, the invariant every step keeps, what the rows of a later state still record, and
  the properties of one-shot consumption and of the prepare/commit/cancel protocol.
\<close>

section \<open>Steps\<close>

datatype ledger_call =
    Consume_Once json
  | Consume_Idempotent_Exact json
  | Observe_Consumed json
  | Prepare_Effect json
  | Commit_Effect json
  | Cancel_Effect json
  | Observe_Effect json
  | Mark_Terminal json

text \<open>The state a call leaves, whatever it returns or throws; \<open>n1 \<le> n2 \<le> n3\<close> are its clock readings.
  A call is synchronous, so the readings lie together; all that matters is that they span less than
  the seven days of the tombstone grace.\<close>

fun after_call ::
    "hash \<Rightarrow> js_string \<Rightarrow> ledger_call \<Rightarrow> int \<Rightarrow> int \<Rightarrow> int \<Rightarrow> replay_storage \<Rightarrow> replay_storage" where
  "after_call sha name (Consume_Once v) n1 n2 n3 s = snd (consume_once sha v n1 s)"
| "after_call sha name (Consume_Idempotent_Exact v) n1 n2 n3 s =
     snd (consume_idempotent_exact sha name v n1 s)"
| "after_call sha name (Observe_Consumed v) n1 n2 n3 s = snd (observe_consumed_exact v s)"
| "after_call sha name (Prepare_Effect v) n1 n2 n3 s = snd (prepare_effect_exact name v n1 n2 n3 s)"
| "after_call sha name (Commit_Effect v) n1 n2 n3 s = snd (commit_prepared_effect_exact name v n1 s)"
| "after_call sha name (Cancel_Effect v) n1 n2 n3 s = snd (cancel_prepared_effect_exact name v n1 s)"
| "after_call sha name (Observe_Effect v) n1 n2 n3 s = snd (observe_prepared_effect_exact name v s)"
| "after_call sha name (Mark_Terminal v) n1 n2 n3 s =
     snd (mark_effect_journal_terminal_exact name v n1 s)"

inductive ledger_step ::
    "hash \<Rightarrow> js_string \<Rightarrow> int \<times> replay_storage \<Rightarrow> int \<times> replay_storage \<Rightarrow> bool"
  for sha :: hash and name :: js_string where
  call: "clock \<le> n1 \<Longrightarrow> n1 \<le> n2 \<Longrightarrow> n2 \<le> n3 \<Longrightarrow>
    n3 < n1 + TERMINAL_TOMBSTONE_GRACE_MS \<Longrightarrow>
    ledger_step sha name (clock, s) (n3, after_call sha name c n1 n2 n3 s)"

inductive_cases ledger_stepE: "ledger_step sha name (clock, s) st"

inductive ledger_steps ::
    "hash \<Rightarrow> js_string \<Rightarrow> int \<times> replay_storage \<Rightarrow> int \<times> replay_storage \<Rightarrow> bool"
  for sha :: hash and name :: js_string where
  refl: "ledger_steps sha name st st"
| step: "ledger_steps sha name st st' \<Longrightarrow> ledger_step sha name st' st'' \<Longrightarrow> ledger_steps sha name st st''"

text \<open>
  Every step writes in one of four ways: not at all, a new consumption, a successful \<open>prepare\<close>, or a
  change of the one row a binding names.
\<close>

inductive ledger_write :: "int \<Rightarrow> int \<Rightarrow> replay_storage \<Rightarrow> replay_storage \<Rightarrow> bool" where
  skip: "ledger_write clock now s s"
| consumed: "consume_body jti claims expires request exact n s = Inr (r, t) \<Longrightarrow> ledger_write clock now s t"
| prepared: "prepare_body b n2 n3 s = Inr (x, t) \<Longrightarrow> n1 < eb_expires_at b * 1000 \<Longrightarrow> clock \<le> n1 \<Longrightarrow>
    n2 \<le> now \<Longrightarrow> n2 < n1 + TERMINAL_TOMBSTONE_GRACE_MS \<Longrightarrow> ledger_write clock now s t"
| finished: "transition_body b terminal n s = Inr (x, t) \<Longrightarrow> terminal \<noteq> PREPARED \<Longrightarrow> ledger_write clock now s t"
| sealed: "mark_body b n s = Inr (x, t) \<Longrightarrow> ledger_write clock now s t"

lemma transaction_write:
  "(\<And>x t. body s = Inr (x, t) \<Longrightarrow> ledger_write clock now s t) \<Longrightarrow> ledger_write clock now s (snd (transaction body s))"
  by (auto simp: transaction_def intro: ledger_write.skip split: sum.splits)

lemma lift_write:
  "(\<And>x. r = Inr x \<Longrightarrow> ledger_write clock now s (snd (f x s))) \<Longrightarrow>
     ledger_write clock now s (snd (bind_op (lift_op r) f s))"
  by (cases r) (auto intro: ledger_write.skip)

lemma consume_replay_write: "ledger_write clock now s (snd (consume_replay sha v exact n s))"
  unfolding consume_replay_def
  by (intro lift_write) (auto simp: bind_op_def transaction_def return_op_def
      intro: ledger_write.skip ledger_write.consumed split: prod.splits sum.splits)

lemma after_call_write:
  assumes "clock \<le> n1" and "n2 \<le> n3" and "n3 < n1 + TERMINAL_TOMBSTONE_GRACE_MS"
  shows "ledger_write clock n3 s (after_call sha name c n1 n2 n3 s)"
proof (cases c)
  case (Observe_Consumed v)
  then show ?thesis
    by (simp add: observe_consumed_exact_def) (intro lift_write, simp add: ledger_write.skip)
next
  case (Prepare_Effect v)
  have "ledger_write clock n3 s (snd (prepare v n1 n2 n3 s))"
    unfolding prepare_def
  proof (rule lift_write)
    fix b
    show "ledger_write clock n3 s (snd ((if eb_expires_at b * 1000 \<le> n1
        then fail_op (broker ''OIDC_EXPIRED'' 401 False) else transaction (prepare_body b n2 n3)) s))"
    proof (cases "eb_expires_at b * 1000 \<le> n1")
      case False
      then show ?thesis using assms
        by (auto intro!: transaction_write ledger_write.prepared [of b n2 n3 s _ _ n1])
    qed (simp add: ledger_write.skip)
  qed
  with Prepare_Effect show ?thesis
    by (simp add: prepare_effect_exact_def on_effect_ledger_def ledger_write.skip)
next
  case (Commit_Effect v)
  then show ?thesis
    by (auto simp: commit_prepared_effect_exact_def on_effect_ledger_def commit_def transition_def
        intro!: lift_write transaction_write intro: ledger_write.skip ledger_write.finished)
next
  case (Cancel_Effect v)
  then show ?thesis
    by (auto simp: cancel_prepared_effect_exact_def on_effect_ledger_def cancel_def transition_def
        intro!: lift_write transaction_write intro: ledger_write.skip ledger_write.finished)
next
  case (Observe_Effect v)
  then show ?thesis
    by (auto simp: observe_prepared_effect_exact_def on_effect_ledger_def observe_def
        intro!: lift_write intro: ledger_write.skip)
next
  case (Mark_Terminal v)
  then show ?thesis
    by (auto simp: mark_effect_journal_terminal_exact_def on_effect_ledger_def mark_journal_terminal_def
        intro!: lift_write transaction_write intro: ledger_write.skip ledger_write.sealed)
qed (auto simp: consume_once_def consume_idempotent_exact_def consume_replay_write ledger_write.skip)

section \<open>The invariant\<close>

lemma consume_body_state:
  assumes "consume_body jti claims expires request exact now s = Inr (r, t)"
  shows "t = s \<and> r \<or> \<not> r \<and> \<not> has_effect_replay_collision s jti request \<and>
    (\<exists>row. t = s\<lparr>oidc_jti := oidc_jti s @ [row]\<rparr> \<and> rr_jti_hash row = jti \<and> rr_request_id row = request \<and>
       oidc_jti_ok (oidc_jti s @ [row]))"
  using assms by (auto simp: consume_body_def result_simps split: if_splits list.splits)

lemma prune_keeps:
  "oidc_jti (prune_terminal_tombstones now s) = oidc_jti s"
  "set (oidc_effect_jti (prune_terminal_tombstones now s)) \<subseteq> set (oidc_effect_jti s)"
  by (auto simp: prune_terminal_tombstones_def)

lemma ledger_inv_prune: "ledger_inv s \<Longrightarrow> ledger_inv (prune_terminal_tombstones now s)"
  unfolding ledger_inv_def prune_terminal_tombstones_def
  by (auto simp: tables_disjoint_def oidc_effect_jti_ok_def distinct_map_filter
      intro: le_trans [OF length_filter_le])

lemma ledger_inv_set_row:
  assumes inv: "ledger_inv s" and r: "r \<in> set (oidc_effect_jti s)"
    and f: "\<And>x. er_jti_hash (f x) = er_jti_hash x" "\<And>x. er_request_id (f x) = er_request_id x"
      "effect_row_ok (f r)"
  shows "ledger_inv (set_row s r f)"
proof -
  have ok: "oidc_effect_jti_ok (oidc_effect_jti s)" using inv by (simp add: ledger_inv_def)
  from inv r f show ?thesis
    unfolding ledger_inv_def tables_disjoint_def set_row_members [OF ok r]
    by (simp add: effect_ok_update)
qed

lemma ledger_write_inv:
  assumes "ledger_write clock now s t" and "ledger_inv s"
  shows "ledger_inv t"
  using assms(1)
proof cases
  case skip
  with assms show ?thesis by simp
next
  case (consumed jti claims expires request exact n r)
  from consume_body_state [OF consumed] assms(2) show ?thesis
    by (auto simp: ledger_inv_def tables_disjoint_def has_effect_replay_collision_def
        effect_matches_def filter_empty_conv) blast+
next
  case (prepared b n2 n3 x n1)
  have inv: "ledger_inv (prune_terminal_tombstones n2 s)" using assms(2) by (rule ledger_inv_prune)
  have ok: "oidc_effect_jti_ok (oidc_effect_jti s)" using assms(2) by (simp add: ledger_inv_def)
  from ok prepared(1) show ?thesis
  proof (cases rule: prepare_body_cases)
    case (existing r)
    with inv show ?thesis by simp
  next
    case fresh
    have "oidc_effect_jti_ok
        (oidc_effect_jti (prune_terminal_tombstones n2 s) @ [prepared_row b n3])"
      using inv fresh(2) by (intro effect_rows_append) (simp_all add: effect_rows_empty ledger_inv_def)
    with inv fresh show ?thesis
      by (auto simp: ledger_inv_def tables_disjoint_def has_ordinary_collision_def ordinary_matches_def
          filter_empty_conv prune_keeps(1) effect_row_ok_def) (auto simp: prepared_row_def)
  qed
next
  case (finished b terminal n x)
  have ok: "oidc_effect_jti_ok (oidc_effect_jti s)" using assms(2) by (simp add: ledger_inv_def)
  show ?thesis
  proof (cases "\<exists>r \<in> set (oidc_effect_jti s). row_binds b r")
    case True
    then obtain r where r: "r \<in> set (oidc_effect_jti s)" "row_binds b r" by blast
    have row: "effect_row_ok r" using assms(2) r by (simp add: ledger_inv_def)
    show ?thesis
    proof (cases "er_state r = PREPARED")
      case True
      with finished have t: "t = set_row s r (finish terminal n)"
        by (simp add: transition_body_row [OF ok r])
      show ?thesis unfolding t
        using row finished(2) True by (intro ledger_inv_set_row assms(2) r) (auto simp: effect_row_ok_def)
    qed (use finished assms(2) in \<open>simp add: transition_body_row [OF ok r] split: if_splits\<close>)
  qed (use finished in \<open>simp add: transition_body_none\<close>)
next
  case (sealed b n x)
  have ok: "oidc_effect_jti_ok (oidc_effect_jti s)" using assms(2) by (simp add: ledger_inv_def)
  show ?thesis
  proof (cases "\<exists>r \<in> set (oidc_effect_jti s). row_binds b r")
    case True
    then obtain r where r: "r \<in> set (oidc_effect_jti s)" "row_binds b r" by blast
    then have t: "t = set_row s r (seal n)" and "er_state r \<noteq> PREPARED"
      using sealed by (simp_all add: mark_body_row [OF ok r] split: if_splits)
    then show ?thesis unfolding t
      using assms(2) r by (intro ledger_inv_set_row) (auto simp: effect_row_ok_def ledger_inv_def)
  qed (use sealed in \<open>simp add: mark_body_none\<close>)
qed

lemma ledger_steps_inv:
  "ledger_steps sha name st st' \<Longrightarrow> ledger_inv (snd st) \<Longrightarrow> ledger_inv (snd st')"
proof (induction rule: ledger_steps.induct)
  case (step st st' st'')
  then show ?case
    by (cases st') (auto elim!: ledger_stepE intro: ledger_write_inv [OF after_call_write])
qed

section \<open>What later states still record\<close>

lemma ledger_steps_induct' [consumes 1, case_names refl step]:
  assumes "ledger_steps sha name (c, s) (c', s')" and "P c s"
    and "\<And>c1 s1 c2 s2. ledger_steps sha name (c, s) (c1, s1) \<Longrightarrow> ledger_write c1 c2 s1 s2 \<Longrightarrow>
           c1 \<le> c2 \<Longrightarrow> P c1 s1 \<Longrightarrow> P c2 s2"
  shows "P c' s'"
  using assms(1)
proof (induction "(c, s)" "(c', s')" arbitrary: c' s' rule: ledger_steps.induct)
  case (step st')
  obtain c1 s1 where st': "st' = (c1, s1)" by (cases st')
  from step(3) [unfolded st'] obtain n1 n2 n3 call where n: "c' = n3"
    "s' = after_call sha name call n1 n2 n3 s1" "c1 \<le> n1" "n1 \<le> n2" "n2 \<le> n3"
    "n3 < n1 + TERMINAL_TOMBSTONE_GRACE_MS"
    by (auto elim!: ledger_stepE)
  then have "ledger_write c1 c' s1 s'"
    using after_call_write [of c1 n1 n2 n3 s1 sha name call] by simp
  moreover have "c1 \<le> c'" using n by simp
  ultimately show ?case using assms(3) step(1) step(2) [OF st'] unfolding st' by blast
qed (rule assms(2))

lemma ledger_write_consumed: "ledger_write clock now s t \<Longrightarrow> set (oidc_jti s) \<subseteq> set (oidc_jti t)"
proof (induction rule: ledger_write.induct)
  case (consumed jti claims expires request exact n s r t)
  then show ?case by (auto dest: consume_body_state)
next
  case (prepared b n2 n3 s x t n1 clock now)
  then show ?case
    by (auto simp: prepare_body_def Let_def prune_keeps write_effects_def result_simps split: if_splits)
next
  case (finished b terminal n s x t)
  then show ?case
    by (auto simp: transition_body_def write_effects_def result_simps split: if_splits)
next
  case (sealed b n s x t)
  then show ?case by (auto simp: mark_body_def write_effects_def result_simps split: if_splits)
qed simp

lemma ledger_steps_consumed:
  "ledger_steps sha name (c, s) (c', s') \<Longrightarrow> r \<in> set (oidc_jti s) \<Longrightarrow> r \<in> set (oidc_jti s')"
  by (induction rule: ledger_steps_induct') (use ledger_write_consumed in blast)+

definition same_use :: "effect_replay_row \<Rightarrow> effect_replay_row \<Rightarrow> bool" where
  "same_use r x \<longleftrightarrow>
     er_jti_hash x = er_jti_hash r \<and> er_claims_digest x = er_claims_digest r \<and>
     er_expires_at x = er_expires_at r \<and> er_request_id x = er_request_id r \<and>
     er_reservation_id x = er_reservation_id r"

text \<open>A terminal row stays, in its state, until its token has expired and its tombstone is pruned.\<close>

definition settled :: "effect_replay_row \<Rightarrow> int \<Rightarrow> replay_storage \<Rightarrow> bool" where
  "settled r clock s \<longleftrightarrow>
     (\<exists>x \<in> set (oidc_effect_jti s). same_use r x \<and> er_state x = er_state r) \<or>
     er_expires_at r * 1000 < clock \<and> (\<forall>x \<in> set (oidc_effect_jti s). \<not> same_use r x)"

lemma settled_later: "settled r c s \<Longrightarrow> c \<le> c' \<Longrightarrow> settled r c' s"
  by (auto simp: settled_def)

lemma settled_set_row:
  assumes "oidc_effect_jti_ok (oidc_effect_jti s)" and y: "y \<in> set (oidc_effect_jti s)"
    and "settled r c s" and "same_use y (f y)" and "er_state y = er_state r \<Longrightarrow> er_state (f y) = er_state r"
  shows "settled r c (set_row s y f)"
  using assms unfolding settled_def set_row_members [OF assms(1) y]
  by (auto simp: same_use_def)

lemma tombstone_past:
  assumes "tombstone_expired now r"
  shows "er_expires_at r * 1000 < now - TERMINAL_TOMBSTONE_GRACE_MS"
proof -
  define a where "a = now - TERMINAL_TOMBSTONE_GRACE_MS"
  have "er_expires_at r < a div 1000"
    using assms by (auto simp: tombstone_expired_def a_def split: option.splits)
  moreover have "a div 1000 * 1000 \<le> a" using minus_mod_eq_div_mult [of a 1000, symmetric] by simp
  ultimately show ?thesis by (simp add: a_def [symmetric])
qed

lemma settled_write:
  assumes "ledger_write clock now s t" and inv: "ledger_inv s" and le: "clock \<le> now"
    and r: "settled r clock s" "er_state r \<noteq> PREPARED"
  shows "settled r now t"
  using assms(1)
proof cases
  case skip
  with settled_later [OF r(1) le] show ?thesis by simp
next
  case (consumed jti claims expires request exact n q)
  from consume_body_state [OF consumed] settled_later [OF r(1) le] show ?thesis
    by (auto simp: settled_def)
next
  case (prepared b n2 n3 x n1)
  define p where "p = prune_terminal_tombstones n2 s"
  have ok: "oidc_effect_jti_ok (oidc_effect_jti s)" using inv by (simp add: ledger_inv_def)
  have sub: "set (oidc_effect_jti p) \<subseteq> set (oidc_effect_jti s)" by (simp add: p_def prune_keeps)
  have pos: "0 < TERMINAL_TOMBSTONE_GRACE_MS" by (simp add: TERMINAL_TOMBSTONE_GRACE_MS_def)
  have keep: "\<not> tombstone_expired n2 y" if "same_use r y" "n1 < er_expires_at r * 1000" for y
    using tombstone_past [of n2 y] that prepared(5) by (auto simp: same_use_def)
  have old: "settled r now p"
  proof (cases "\<exists>y \<in> set (oidc_effect_jti s). same_use r y \<and> er_state y = er_state r")
    case True
    then obtain y where y: "y \<in> set (oidc_effect_jti s)" "same_use r y" "er_state y = er_state r" by blast
    show ?thesis
    proof (cases "tombstone_expired n2 y")
      case True
      have "z = y" if "z \<in> set (oidc_effect_jti s)" "same_use r z" for z
        using effect_jti.same_key [OF ok that(1) y(1)] that(2) y(2) by (simp add: same_use_def)
      then have "\<forall>z \<in> set (oidc_effect_jti p). \<not> same_use r z"
        using True by (auto simp: p_def prune_terminal_tombstones_def)
      moreover have "er_expires_at r * 1000 < now"
        using tombstone_past [OF True] y(2) prepared(4) pos by (simp add: same_use_def)
      ultimately show ?thesis by (simp add: settled_def)
    qed (use y in \<open>auto simp: settled_def p_def prune_terminal_tombstones_def\<close>)
  qed (use r(1) le sub in \<open>auto simp: settled_def\<close>)
  from ok prepared(1) show ?thesis
  proof (cases rule: prepare_body_cases)
    case (existing y)
    with old show ?thesis by (simp add: p_def)
  next
    case fresh
    show ?thesis
    proof (cases "same_use r (prepared_row b n3)")
      case True
      then have "n1 < er_expires_at r * 1000" using prepared(2) by (simp add: same_use_def prepared_row_def)
      moreover have "\<not> er_expires_at r * 1000 < clock" using calculation prepared(3) by simp
      ultimately obtain y where "y \<in> set (oidc_effect_jti p)" "same_use r y"
        using r(1) keep by (auto simp: settled_def p_def prune_terminal_tombstones_def)
      with fresh(2) True show ?thesis by (auto simp: p_def same_use_def prepared_row_def)
    next
      case False
      with old show ?thesis unfolding fresh(1) p_def [symmetric] settled_def by auto
    qed
  qed
next
  case (finished b terminal n x)
  have ok: "oidc_effect_jti_ok (oidc_effect_jti s)" using inv by (simp add: ledger_inv_def)
  show ?thesis
  proof (cases "\<exists>y \<in> set (oidc_effect_jti s). row_binds b y")
    case True
    then obtain y where y: "y \<in> set (oidc_effect_jti s)" "row_binds b y" by blast
    show ?thesis
    proof (cases "er_state y = PREPARED")
      case True
      with finished have t: "t = set_row s y (finish terminal n)"
        by (simp add: transition_body_row [OF ok y])
      show ?thesis unfolding t
        using True r(2) by (intro settled_set_row ok y settled_later [OF r(1) le]) (auto simp: same_use_def)
    qed (use finished settled_later [OF r(1) le] in \<open>simp add: transition_body_row [OF ok y] split: if_splits\<close>)
  qed (use finished in \<open>simp add: transition_body_none\<close>)
next
  case (sealed b n x)
  have ok: "oidc_effect_jti_ok (oidc_effect_jti s)" using inv by (simp add: ledger_inv_def)
  show ?thesis
  proof (cases "\<exists>y \<in> set (oidc_effect_jti s). row_binds b y")
    case True
    then obtain y where y: "y \<in> set (oidc_effect_jti s)" "row_binds b y" by blast
    then have t: "t = set_row s y (seal n)"
      using sealed by (simp_all add: mark_body_row [OF ok y] split: if_splits)
    show ?thesis unfolding t
      by (intro settled_set_row ok y settled_later [OF r(1) le]) (auto simp: same_use_def)
  qed (use sealed in \<open>simp add: mark_body_none\<close>)
qed

lemma settled_steps:
  assumes "ledger_steps sha name (c, s) (c', s')" and "ledger_inv s" and "settled r c s"
    and "er_state r \<noteq> PREPARED"
  shows "settled r c' s' \<and> ledger_inv s'"
  using assms(1)
proof (induction rule: ledger_steps_induct')
  case (step c1 s1 c2 s2)
  then show ?case using settled_write ledger_write_inv assms(4) by blast
qed (use assms in blast)

section \<open>Single calls\<close>

lemma transition_success:
  assumes "transition v terminal n s = (Inr x, t)" and inv: "ledger_inv s" and "terminal \<noteq> PREPARED"
  obtains b r where "parse_effect_replay_binding v = Inr b" "r \<in> set (oidc_effect_jti t)" "row_binds b r"
    "er_state r = terminal" "ledger_inv t"
proof -
  from assms(1) obtain b where b: "parse_effect_replay_binding v = Inr b"
    and body: "transition_body b terminal n s = Inr (x, t)"
    by (auto simp: transition_def op_simps)
  have ok: "oidc_effect_jti_ok (oidc_effect_jti s)" using inv by (simp add: ledger_inv_def)
  have inv': "ledger_inv t" using ledger_write.finished [OF body assms(3)] inv by (rule ledger_write_inv)
  show thesis
  proof (cases "\<exists>r \<in> set (oidc_effect_jti s). row_binds b r")
    case True
    then obtain r where r: "r \<in> set (oidc_effect_jti s)" "row_binds b r" by blast
    show thesis
    proof (cases "er_state r = terminal")
      case True
      with body r show thesis
        by (intro that [OF b _ _ _ inv', of r]) (simp_all add: transition_body_row [OF ok r])
    next
      case False
      with body have t: "t = set_row s r (finish terminal n)"
        by (simp add: transition_body_row [OF ok r] split: if_splits)
      have "finish terminal n r \<in> set (oidc_effect_jti t)"
        unfolding t set_row_members [OF ok r(1)] by simp
      moreover have "row_binds b (finish terminal n r)" using r(2) by (simp add: row_binds_def)
      ultimately show thesis by (rule that [OF b _ _ _ inv']) simp
    qed
  qed (use body in \<open>simp add: transition_body_none\<close>)
qed

lemma same_use_binds: "row_binds b r \<Longrightarrow> same_use r x \<longleftrightarrow> row_binds b x"
  by (auto simp: row_binds_def same_use_def)

lemma transition_settled:
  assumes b: "parse_effect_replay_binding v = Inr b" "row_binds b r" and inv: "ledger_inv s"
    and r: "settled r c s" "er_state r \<noteq> PREPARED" "terminal \<noteq> er_state r"
  shows "transition v terminal n s = (Inl (broker ''OIDC_REPLAY_RECONCILIATION_CONFLICT'' 409 False), s)"
proof -
  have ok: "oidc_effect_jti_ok (oidc_effect_jti s)" using inv by (simp add: ledger_inv_def)
  have "transition_body b terminal n s = Inl (broker ''OIDC_REPLAY_RECONCILIATION_CONFLICT'' 409 False)"
  proof (cases "\<exists>x \<in> set (oidc_effect_jti s). same_use r x \<and> er_state x = er_state r")
    case True
    then obtain x where x: "x \<in> set (oidc_effect_jti s)" "row_binds b x" "er_state x = er_state r"
      using same_use_binds [OF b(2)] by auto
    then show ?thesis using r(2,3) by (simp add: transition_body_row [OF ok x(1,2)])
  next
    case False
    with r(1) have "\<forall>x \<in> set (oidc_effect_jti s). \<not> row_binds b x"
      by (simp add: settled_def same_use_binds [OF b(2), symmetric])
    then show ?thesis by (rule transition_body_none)
  qed
  then show ?thesis by (simp add: transition_def b(1) transaction_def)
qed

lemma prepare_settled:
  assumes b: "parse_effect_replay_binding v = Inr b" "row_binds b r" and inv: "ledger_inv s"
    and r: "settled r c s" "er_state r \<noteq> PREPARED"
    and n: "c \<le> n1" "n2 < n1 + TERMINAL_TOMBSTONE_GRACE_MS"
  shows "prepare v n1 n2 n3 s = (Inl (broker ''OIDC_EXPIRED'' 401 False), s) \<or>
         prepare v n1 n2 n3 s = (Inl (broker ''OIDC_REPLAY'' 409 False), s)"
proof (cases "eb_expires_at b * 1000 \<le> n1")
  case True
  then show ?thesis by (simp add: prepare_def b(1))
next
  case False
  have exp: "er_expires_at r = eb_expires_at b" using b(2) by (simp add: row_binds_def)
  with r(1) False n(1) obtain x where x: "x \<in> set (oidc_effect_jti s)" "same_use r x" "er_state x = er_state r"
    by (auto simp: settled_def)
  define p where "p = prune_terminal_tombstones n2 s"
  have "\<not> tombstone_expired n2 x"
    using tombstone_past [of n2 x] x(2) False n exp by (auto simp: same_use_def)
  with x have "x \<in> set (oidc_effect_jti p)" by (simp add: p_def prune_terminal_tombstones_def)
  moreover have "oidc_effect_jti_ok (oidc_effect_jti p)"
    using ledger_inv_prune [OF inv] by (simp add: p_def ledger_inv_def)
  moreover have "row_binds b x" using x(2) same_use_binds [OF b(2)] by simp
  ultimately have "effect_rows p b = [x]" by (simp add: effect_rows_singleton)
  with \<open>row_binds b x\<close> have "prepare_body b n2 n3 s = Inl (broker ''OIDC_REPLAY'' 409 False)"
    using r(2) x(3) by (simp add: prepare_body_def p_def [symmetric] Let_def exact_effect_row_def)
  with False show ?thesis by (simp add: prepare_def b(1) transaction_def)
qed

lemma terminal_settled: "r \<in> set (oidc_effect_jti s) \<Longrightarrow> settled r c s"
  by (auto simp: settled_def same_use_def)

lemma consume_success:
  assumes "consume_replay sha v exact n s = (Inr x, t)"
  obtains jti expires claims request where
    "json_get v (js ''jti'') = JStr jti" "json_get v (js ''expires_at'') = JNum expires"
    "json_get v (js ''claims_digest'') = JStr claims" "json_get v (js ''request_id'') = JStr request"
    "consume_body (sha256_hex sha (utf8_encode jti)) claims (number_int expires) request exact n s =
       Inr (rc_replayed x, t)" "rc_request_id x = request"
  using assms
  by (auto simp: consume_replay_def op_simps result_simps json_get_def split: if_splits)

lemma consume_errors:
  assumes "\<And>jti claims expires request. json_get v (js ''jti'') = JStr jti \<Longrightarrow>
      json_get v (js ''request_id'') = JStr request \<Longrightarrow>
      consume_body (sha256_hex sha (utf8_encode jti)) claims expires request exact n s =
        Inl (broker ''OIDC_REPLAY'' 409 False)"
  shows "\<exists>e. consume_replay sha v exact n s = (Inl e, s)"
proof (cases "consume_replay sha v exact n s")
  case (Pair q t)
  have "t = s"
    using Pair unfolding consume_replay_def
    by (auto simp: bind_op_def transaction_def split: prod.splits sum.splits if_splits)
      (use assms in \<open>auto simp: result_simps json_get_def\<close>)
  moreover have "\<exists>e. q = Inl e"
  proof (cases q)
    case (Inr x)
    with Pair have "consume_replay sha v exact n s = (Inr x, t)" by simp
    then show ?thesis using assms by (elim consume_success) auto
  qed simp
  ultimately show ?thesis using Pair by auto
qed

lemma consume_body_row:
  assumes "consume_body jti claims expires request exact n s = Inr (q, t)"
  shows "\<exists>row \<in> set (oidc_jti t). rr_jti_hash row = jti \<and> rr_claims_digest row = claims \<and>
    rr_expires_at row = expires \<and> rr_request_id row = request"
proof (cases "filter (ordinary_matches jti request) (oidc_jti s)")
  case Nil
  with assms show ?thesis by (auto simp: consume_body_def result_simps split: if_splits)
next
  case (Cons row rows)
  then have "row \<in> set (filter (ordinary_matches jti request) (oidc_jti s))" by simp
  then have "row \<in> set (oidc_jti s)" by simp
  with Cons assms show ?thesis
    by (intro bexI [of _ row]) (simp_all add: consume_body_def split: if_splits)
qed

section \<open>A sample use\<close>

text \<open>Concrete bodies for the instances below: one effect-linked use and one ordinary one.\<close>

definition sample_digest :: "char \<Rightarrow> js_string" where
  "sample_digest c = js ''sha256:'' @ replicate 64 (of_char c)"

lemma sample_digest_matches: "in_cls ''09af'' (of_char c) \<Longrightarrow> matches DIGEST (sample_digest c)"
  unfolding sample_digest_def by (rule DIGEST_replicate)

lemma sample_digest_ok [simp]:
  "matches DIGEST (sample_digest CHR ''a'')" "matches DIGEST (sample_digest CHR ''b'')"
  "length (sample_digest c) = 71" "sample_digest c \<noteq> []"
  by (rule sample_digest_matches, simp)+ (simp_all add: sample_digest_def js_def)

definition sample_effect :: json where
  "sample_effect = effect_replay_binding_body (sample_digest CHR ''a'') 100 (js ''request-1'')
     (sample_digest CHR ''b'') (sample_digest CHR ''a'')"

definition sample_use :: json where
  "sample_use = replay_request_body (js ''token-1'') 100 (js ''request-1'') (sample_digest CHR ''b'')"

lemma parse_binding_body:
  assumes "matches DIGEST jti" "matches DIGEST claims" "matches DIGEST reservation"
    and "0 < expires" "expires \<le> max_safe" "request \<noteq> []" "length request \<le> 128"
  shows "parse_effect_replay_binding (effect_replay_binding_body jti expires request claims reservation) =
    Inr \<lparr>eb_claims_digest = claims, eb_expires_at = expires, eb_jti_hash = drop 7 jti,
         eb_request_id = request, eb_reservation_id = reservation\<rparr>"
  using assms DIGEST_length [OF assms(1)] DIGEST_length [OF assms(2)] DIGEST_length [OF assms(3)]
  unfolding parse_effect_replay_binding_def effect_replay_binding_body_def
  by (auto simp: bind_r_eq_Inr exact_object_eq_Inr require_string_eq_Inr require_integer_eq_Inr
      lookup_def JI_def is_safe_integer_def number_int_def)

lemma sample_binding:
  "parse_effect_replay_binding sample_effect =
     Inr \<lparr>eb_claims_digest = sample_digest CHR ''b'', eb_expires_at = 100,
          eb_jti_hash = drop 7 (sample_digest CHR ''a''), eb_request_id = js ''request-1'',
          eb_reservation_id = sample_digest CHR ''a''\<rparr>"
  unfolding sample_effect_def by (intro parse_binding_body) (simp_all add: max_safe_def)

definition sample_prepared :: replay_storage where
  "sample_prepared = \<lparr>oidc_jti = [], oidc_effect_jti =
     [prepared_row \<lparr>eb_claims_digest = sample_digest CHR ''b'', eb_expires_at = 100,
        eb_jti_hash = drop 7 (sample_digest CHR ''a''), eb_request_id = js ''request-1'',
        eb_reservation_id = sample_digest CHR ''a''\<rparr> 0]\<rparr>"

lemma sample_prepare:
  "prepare sample_effect 0 0 0 empty_replay_storage =
     (Inr \<lparr>eo_request_id = js ''request-1'', eo_reservation_id = sample_digest CHR ''a'',
           eo_state = Observed PREPARED\<rparr>, sample_prepared)"
  by (simp add: prepare_def sample_binding transaction_def prepare_body_def Let_def
      empty_replay_storage_def prune_terminal_tombstones_def has_ordinary_collision_def effect_rows_def
      write_effects_def write_table_def oidc_effect_jti_ok_def EFFECT_REPLAY_MAX_ROWS_def
      observation_from_binding_def sample_prepared_def)

lemma sample_transition:
  assumes "terminal \<noteq> PREPARED"
  shows "\<exists>t. transition sample_effect terminal 5 sample_prepared =
     (Inr \<lparr>eo_request_id = js ''request-1'', eo_reservation_id = sample_digest CHR ''a'',
           eo_state = Observed terminal\<rparr>, t)"
proof -
  define b where "b = \<lparr>eb_claims_digest = sample_digest CHR ''b'', eb_expires_at = 100,
        eb_jti_hash = drop 7 (sample_digest CHR ''a''), eb_request_id = js ''request-1'',
        eb_reservation_id = sample_digest CHR ''a''\<rparr>"
  have ok: "oidc_effect_jti_ok (oidc_effect_jti sample_prepared)"
    by (simp add: sample_prepared_def oidc_effect_jti_ok_def)
  have r: "prepared_row b 0 \<in> set (oidc_effect_jti sample_prepared)" "row_binds b (prepared_row b 0)"
    by (simp_all add: sample_prepared_def b_def row_binds_def prepared_row_def)
  have "transition_body b terminal 5 sample_prepared =
      Inr (effect_observation (finish terminal 5 (prepared_row b 0)),
           set_row sample_prepared (prepared_row b 0) (finish terminal 5))"
    unfolding transition_body_row [OF ok r] using assms by (simp add: prepared_row_def)
  then show ?thesis
    by (simp add: transition_def sample_binding b_def [symmetric] transaction_def
        effect_observation_def prepared_row_def) (simp add: b_def)
qed

lemmas sample_commit = sample_transition [of CONSUMED, folded commit_def, simplified]
  and sample_cancel = sample_transition [of CANCELLED, folded cancel_def, simplified]

lemma sample_prepared_inv: "ledger_inv sample_prepared"
  by (simp add: ledger_inv_def sample_prepared_def oidc_jti_ok_def oidc_effect_jti_ok_def
      tables_disjoint_def effect_row_ok_def prepared_row_def EFFECT_REPLAY_MAX_ROWS_def)

section \<open>Properties\<close>

text \<open>C3: In every state a replay ledger reaches from its empty tables by any sequence of RPC calls,
  both tables satisfy their constraints, no token and no request id is recorded both as an ordinary
  and as an effect-linked use, a row is terminal exactly when its terminal time is set, and the
  effect table holds at most 10,000 rows.\<close>

theorem replay_ledger_invariant:
  assumes "ledger_steps sha name (c0, empty_replay_storage) (c, s)"
  shows "ledger_inv s"
  using ledger_steps_inv [OF assms]
  by (simp add: empty_replay_storage_def ledger_inv_def oidc_jti_ok_def oidc_effect_jti_ok_def
      tables_disjoint_def)

lemma sample_steps:
  "ledger_steps sha EFFECT_LEDGER_NAME (0, empty_replay_storage) (0, sample_prepared)"
proof (rule ledger_steps.step [OF ledger_steps.refl])
  have "after_call sha EFFECT_LEDGER_NAME (Prepare_Effect sample_effect) 0 0 0 empty_replay_storage =
      sample_prepared"
    by (simp add: prepare_effect_exact_def on_effect_ledger_def sample_prepare)
  then show "ledger_step sha EFFECT_LEDGER_NAME (0, empty_replay_storage) (0, sample_prepared)"
    using ledger_step.call [of 0 0 0 0 sha EFFECT_LEDGER_NAME empty_replay_storage
        "Prepare_Effect sample_effect"]
    by (simp add: TERMINAL_TOMBSTONE_GRACE_MS_def)
qed

theorem replay_ledger_invariant_witness: "ledger_inv sample_prepared"
  by (rule replay_ledger_invariant [OF sample_steps [of id]])

text \<open>C2: A token that was consumed once is spent for ever: after any further calls, a second
  one-shot consumption that carries the same JTI or the same request id is refused and writes
  nothing, whatever its other fields say.\<close>

theorem consumed_use_is_spent:
  assumes "consume_once sha v n s = (Inr x, s1)"
    and "ledger_steps sha name (n, s1) (c, s2)"
    and "json_get v' (js ''jti'') = json_get v (js ''jti'') \<or>
         json_get v' (js ''request_id'') = json_get v (js ''request_id'')"
  shows "\<exists>e. consume_once sha v' n' s2 = (Inl e, s2)"
proof -
  from assms(1) [unfolded consume_once_def] obtain jti expires claims request where
    j: "json_get v (js ''jti'') = JStr jti" "json_get v (js ''request_id'') = JStr request"
    and body: "consume_body (sha256_hex sha (utf8_encode jti)) claims (number_int expires) request
      False n s = Inr (rc_replayed x, s1)"
    by (rule consume_success)
  obtain row where row: "row \<in> set (oidc_jti s1)" "rr_jti_hash row = sha256_hex sha (utf8_encode jti)"
      "rr_request_id row = request"
    using consume_body_row [OF body] by blast
  from ledger_steps_consumed [OF assms(2) row(1)] have "row \<in> set (oidc_jti s2)" .
  then have "filter (ordinary_matches (sha256_hex sha (utf8_encode jti')) request') (oidc_jti s2) \<noteq> []"
    if "jti' = jti \<or> request' = request" for jti' request'
    using row that by (auto simp: ordinary_matches_def filter_empty_conv)
  then have "consume_body (sha256_hex sha (utf8_encode jti')) cl ex request' False n' s2 =
      Inl (broker ''OIDC_REPLAY'' 409 False)" if "jti' = jti \<or> request' = request" for jti' request' cl ex
    using that by (fastforce simp: consume_body_def split: list.splits)
  then show ?thesis
    unfolding consume_once_def by (intro consume_errors) (use assms(3) j in auto)
qed

lemma sample_consume:
  "consume_replay sha sample_use exact 0 empty_replay_storage =
     (Inr \<lparr>rc_replayed = False, rc_request_id = js ''request-1''\<rparr>,
      \<lparr>oidc_jti = [\<lparr>rr_jti_hash = sha256_hex sha (utf8_encode (js ''token-1'')), rr_expires_at = 100,
         rr_used_at = 0, rr_request_id = js ''request-1'', rr_claims_digest = sample_digest CHR ''b''\<rparr>],
       oidc_effect_jti = []\<rparr>)"
  by (simp add: consume_replay_def sample_use_def replay_request_body_def
      exact_object_def assert_js_def require_object_def require_string_def require_integer_def
      lookup_def JI_def is_safe_integer_def number_int_def max_safe_def bind_op_def transaction_def
      consume_body_def has_effect_replay_collision_def empty_replay_storage_def write_table_def
      oidc_jti_ok_def)

theorem consumed_use_is_spent_witness:
  "\<exists>e s2. consume_once id sample_use 9
     (snd (consume_once id sample_use 0 empty_replay_storage)) = (Inl e, s2)"
  using consumed_use_is_spent [OF _ ledger_steps.refl, of id sample_use 0 empty_replay_storage,
      unfolded consume_once_def, OF sample_consume, of sample_use 9]
  unfolding consume_once_def sample_consume by auto

text \<open>On the admin ledger an exact replay is answered again: after a successful idempotent
  consumption and any further calls, the same body is accepted as long as the token has not
  expired, is marked as replayed, and writes nothing.\<close>

theorem exact_replay_is_idempotent:
  assumes "ledger_inv s" and "consume_idempotent_exact sha name v n s = (Inr x, s1)"
    and "ledger_steps sha name (n, s1) (c, s2)"
    and "n' < number_int (case json_get v (js ''expires_at'') of JNum i \<Rightarrow> i) * 1000"
  shows "consume_idempotent_exact sha name v n' s2 = (Inr (x\<lparr>rc_replayed := True\<rparr>), s2)"
proof -
  from assms(2) have name: "name = ADMIN_REPLAY_LEDGER_NAME"
    and con: "consume_replay sha v True n s = (Inr x, s1)"
    by (simp_all add: consume_idempotent_exact_def split: if_splits)
  from con obtain body jti expires claims request where
    parsed: "exact_object v [''claims_digest'', ''expires_at'', ''jti'', ''request_id''] = Inr body"
      "require_string body ''jti'' 256 None = Inr jti"
      "require_integer body ''expires_at'' 1 max_safe = Inr expires"
      "require_string body ''claims_digest'' 71 (Some DIGEST) = Inr claims"
      "require_string body ''request_id'' 128 None = Inr request"
    and c: "consume_body (sha256_hex sha (utf8_encode jti)) claims expires request True n s =
        Inr (rc_replayed x, s1)" "rc_request_id x = request"
    by (auto simp: consume_replay_def op_simps split: if_splits)
  have v: "v = JObj body" using parsed(1) by (simp add: exact_object_eq_Inr)
  then have exp: "\<not> expires * 1000 \<le> n'"
    using assms(4) parsed(3) by (auto simp: require_integer_eq_Inr json_get_def)
  have ok: "oidc_jti_ok (oidc_jti s2)" and dis: "tables_disjoint s2"
  proof -
    have "ledger_inv s1" using ledger_write.consumed [OF c(1)] assms(1) by (rule ledger_write_inv)
    with ledger_steps_inv [OF assms(3)] show "oidc_jti_ok (oidc_jti s2)" "tables_disjoint s2"
      by (auto simp: ledger_inv_def)
  qed
  obtain row where row: "row \<in> set (oidc_jti s1)" "rr_jti_hash row = sha256_hex sha (utf8_encode jti)"
      "rr_claims_digest row = claims" "rr_expires_at row = expires" "rr_request_id row = request"
    using consume_body_row [OF c(1)] by blast
  have in2: "row \<in> set (oidc_jti s2)" by (rule ledger_steps_consumed [OF assms(3) row(1)])
  have "y = row" if "y \<in> set (oidc_jti s2)" "ordinary_matches (rr_jti_hash row) (rr_request_id row) y" for y
    using that(2) jti.same_key [OF ok that(1) in2] jti_request.same_key [OF ok that(1) in2]
    unfolding ordinary_matches_def by blast
  then have "set (filter (ordinary_matches (rr_jti_hash row) (rr_request_id row)) (oidc_jti s2)) = {row}"
    using in2 by (auto simp only: set_filter mem_Collect_eq ordinary_matches_def)
  then have single: "filter (ordinary_matches (rr_jti_hash row) (rr_request_id row)) (oidc_jti s2) = [row]"
    using ok by (intro distinct_singleton) (auto simp: oidc_jti_ok_def distinct_map)
  have "\<not> has_effect_replay_collision s2 (rr_jti_hash row) (rr_request_id row)"
    using dis in2 unfolding tables_disjoint_def has_effect_replay_collision_def
    by (simp add: filter_empty_conv effect_matches_def) metis
  then have "consume_body (sha256_hex sha (utf8_encode jti)) claims expires request True n' s2 =
      Inr (True, s2)"
    using single row(2-5) by (simp add: consume_body_def)
  with parsed exp c(2) name show ?thesis
    by (simp add: consume_idempotent_exact_def consume_replay_def bind_op_def transaction_def)
qed

theorem exact_replay_is_idempotent_witness:
  "fst (consume_idempotent_exact id ADMIN_REPLAY_LEDGER_NAME sample_use 9
     (snd (consume_once id sample_use 0 empty_replay_storage))) =
   Inr \<lparr>rc_replayed = True, rc_request_id = js ''request-1''\<rparr>"
proof -
  have inv: "ledger_inv empty_replay_storage"
    by (simp add: ledger_inv_def empty_replay_storage_def oidc_jti_ok_def oidc_effect_jti_ok_def
        tables_disjoint_def)
  note first = sample_consume [of id True]
  have "consume_idempotent_exact id ADMIN_REPLAY_LEDGER_NAME sample_use 0 empty_replay_storage =
      consume_replay id sample_use True 0 empty_replay_storage"
    by (simp add: consume_idempotent_exact_def)
  from exact_replay_is_idempotent [OF inv this [unfolded first] ledger_steps.refl, of 9] show ?thesis
    unfolding consume_once_def sample_consume
    by (simp add: sample_use_def replay_request_body_def json_get_def lookup_def JI_def number_int_def)
qed

lemma opposite_transition_fails:
  assumes "ledger_inv s" and "ledger_steps sha name (n, s1) (c, s2)"
  shows "commit v n s = (Inr x, s1) \<Longrightarrow>
           cancel v n' s2 = (Inl (broker ''OIDC_REPLAY_RECONCILIATION_CONFLICT'' 409 False), s2)"
    and "cancel v n s = (Inr x, s1) \<Longrightarrow>
           commit v n' s2 = (Inl (broker ''OIDC_REPLAY_RECONCILIATION_CONFLICT'' 409 False), s2)"
proof -
  have "transition v other n' s2 = (Inl (broker ''OIDC_REPLAY_RECONCILIATION_CONFLICT'' 409 False), s2)"
    if t: "transition v terminal n s = (Inr x, s1)" "terminal \<noteq> PREPARED" "other \<noteq> terminal"
    for terminal other
  proof -
    obtain b r where b: "parse_effect_replay_binding v = Inr b" "row_binds b r" "ledger_inv s1"
      and r: "r \<in> set (oidc_effect_jti s1)" "er_state r = terminal"
      using transition_success [OF t(1) assms(1) t(2)] by blast
    have "settled r c s2 \<and> ledger_inv s2"
      by (rule settled_steps [OF assms(2) b(3) terminal_settled [OF r(1)]]) (use r t in simp)
    then show ?thesis using t r by (intro transition_settled [OF b(1,2), where c = c]) auto
  qed
  then show "commit v n s = (Inr x, s1) \<Longrightarrow>
           cancel v n' s2 = (Inl (broker ''OIDC_REPLAY_RECONCILIATION_CONFLICT'' 409 False), s2)"
    and "cancel v n s = (Inr x, s1) \<Longrightarrow>
           commit v n' s2 = (Inl (broker ''OIDC_REPLAY_RECONCILIATION_CONFLICT'' 409 False), s2)"
    by (simp_all add: commit_def cancel_def)
qed

text \<open>C4: Commit and cancel exclude each other for good: once one of them has succeeded for a prepared
  use, then after any further calls (pruning of tombstones included) the other one fails with the
  reconciliation conflict and writes nothing.\<close>

theorem commit_and_cancel_exclude_each_other:
  assumes "ledger_inv s" and "ledger_steps sha name (n, s1) (c, s2)"
  shows "(commit v n s = (Inr x, s1) \<longrightarrow>
            cancel v n' s2 = (Inl (broker ''OIDC_REPLAY_RECONCILIATION_CONFLICT'' 409 False), s2)) \<and>
         (cancel v n s = (Inr x, s1) \<longrightarrow>
            commit v n' s2 = (Inl (broker ''OIDC_REPLAY_RECONCILIATION_CONFLICT'' 409 False), s2))"
  using opposite_transition_fails [OF assms] by simp

theorem commit_and_cancel_exclude_each_other_witness:
  "\<exists>x s1. commit sample_effect 5 sample_prepared = (Inr x, s1) \<and>
     fst (cancel sample_effect 6 s1) = Inl (broker ''OIDC_REPLAY_RECONCILIATION_CONFLICT'' 409 False)"
proof -
  obtain x s1 where c: "commit sample_effect 5 sample_prepared = (Inr x, s1)" using sample_commit by blast
  from commit_and_cancel_exclude_each_other [OF sample_prepared_inv ledger_steps.refl,
      of sample_effect 5 x s1 6] c
  have "fst (cancel sample_effect 6 s1) = Inl (broker ''OIDC_REPLAY_RECONCILIATION_CONFLICT'' 409 False)"
    by simp
  with c show ?thesis by blast
qed

text \<open>C5: A terminal use is never prepared again: after a successful commit or cancel and any further
  calls, \<open>prepare\<close> with the same binding fails (the token has expired, or the use is a replay) and
  writes nothing, even where the tombstone has already been pruned.\<close>

theorem terminal_use_is_never_prepared_again:
  assumes "ledger_inv s" and "commit v n s = (Inr x, s1) \<or> cancel v n s = (Inr x, s1)"
    and "ledger_steps sha name (n, s1) (c, s2)" and "c \<le> n1" and "n2 < n1 + TERMINAL_TOMBSTONE_GRACE_MS"
  shows "prepare v n1 n2 n3 s2 = (Inl (broker ''OIDC_EXPIRED'' 401 False), s2) \<or>
         prepare v n1 n2 n3 s2 = (Inl (broker ''OIDC_REPLAY'' 409 False), s2)"
proof -
  from assms(2) obtain terminal where t: "transition v terminal n s = (Inr x, s1)" "terminal \<noteq> PREPARED"
    by (auto simp: commit_def cancel_def)
  obtain b r where b: "parse_effect_replay_binding v = Inr b" "row_binds b r" "ledger_inv s1"
    and r: "r \<in> set (oidc_effect_jti s1)" "er_state r = terminal"
    using transition_success [OF t(1) assms(1) t(2)] by blast
  have "settled r c s2 \<and> ledger_inv s2"
    by (rule settled_steps [OF assms(3) b(3) terminal_settled [OF r(1)]]) (use r t in simp)
  then show ?thesis using t r by (intro prepare_settled [OF b(1,2), where c = c] assms(4,5)) auto
qed

theorem terminal_use_is_never_prepared_again_witness:
  "\<exists>x s1. cancel sample_effect 5 sample_prepared = (Inr x, s1) \<and>
     (prepare sample_effect 6 6 6 s1 = (Inl (broker ''OIDC_EXPIRED'' 401 False), s1) \<or>
      prepare sample_effect 6 6 6 s1 = (Inl (broker ''OIDC_REPLAY'' 409 False), s1))"
proof -
  obtain x s1 where c: "cancel sample_effect 5 sample_prepared = (Inr x, s1)" using sample_cancel by blast
  from terminal_use_is_never_prepared_again [OF sample_prepared_inv disjI2 [OF c] ledger_steps.refl,
      of 6 6 6] c
  show ?thesis by (auto simp: TERMINAL_TOMBSTONE_GRACE_MS_def)
qed

lemma effect_bodies_broker_only:
  assumes inv: "ledger_inv s"
  shows "broker_only (prepare_body b n2 n3 s)" "broker_only (mark_body b n s)"
    and "terminal \<noteq> PREPARED \<Longrightarrow> broker_only (transition_body b terminal n s)"
    and "broker_only (consume_body jti claims expires request exact n s)"
proof -
  have ok: "oidc_effect_jti_ok (oidc_effect_jti s)" and ok': "oidc_jti_ok (oidc_jti s)"
    using inv by (simp_all add: ledger_inv_def)
  show "broker_only (mark_body b n s)"
    by (cases "\<exists>r \<in> set (oidc_effect_jti s). row_binds b r")
      (auto simp: mark_body_row [OF ok] mark_body_none)
  show "broker_only (transition_body b terminal n s)"
    by (cases "\<exists>r \<in> set (oidc_effect_jti s). row_binds b r")
      (auto simp: transition_body_row [OF ok] transition_body_none)
  define p where "p = prune_terminal_tombstones n2 s"
  have okp: "oidc_effect_jti_ok (oidc_effect_jti p)"
    using ledger_inv_prune [OF inv] by (simp add: p_def ledger_inv_def)
  have exact: "broker_only (exact_effect_row (effect_rows p b) b)"
    by (auto simp: broker_only_def result_simps)
  show "broker_only (prepare_body b n2 n3 s)"
    unfolding prepare_body_def p_def [symmetric] Let_def
    by (intro broker_only_intros exact)
      (simp_all add: write_effects_def write_table_def effect_rows_append [OF _ okp])
  show "broker_only (consume_body jti claims expires request exact n s)"
  proof (cases "filter (ordinary_matches jti request) (oidc_jti s)")
    case Nil
    then have "oidc_jti_ok (oidc_jti s @ [row])" if "rr_jti_hash row = jti" "rr_request_id row = request" for row
      using ok' that by (auto simp: oidc_jti_ok_def filter_empty_conv ordinary_matches_def image_iff)
    then show ?thesis using Nil by (simp add: consume_body_def write_table_def)
  qed (simp add: consume_body_def)
qed

lemma ledger_operations_broker_only:
  assumes "ledger_steps sha name (c0, empty_replay_storage) (c, s)"
  shows "broker_only (fst (prepare v n1 n2 n3 s))" and "broker_only (fst (commit v n s))"
    and "broker_only (fst (cancel v n s))" and "broker_only (fst (mark_journal_terminal v n s))"
    and "broker_only (fst (consume_once sha v n s))"
    and "broker_only (fst (consume_idempotent_exact sha name v n s))"
proof -
  have inv: "ledger_inv s"
    using ledger_steps_inv [OF assms]
    by (simp add: empty_replay_storage_def ledger_inv_def oidc_jti_ok_def oidc_effect_jti_ok_def
        tables_disjoint_def)
  have parse: "broker_only (parse_effect_replay_binding v)"
    unfolding parse_effect_replay_binding_def by (intro broker_only_intros)
  note bodies = effect_bodies_broker_only [OF inv]
  have lift: "broker_only (fst (bind_op (lift_op r) f s))"
    if "broker_only r" "\<And>x. broker_only (fst (f x s))" for r :: "'b result" and f :: "'b \<Rightarrow> (replay_storage, 'c) op"
    using that by (cases r) (auto simp: broker_only_def)
  show "broker_only (fst (prepare v n1 n2 n3 s))"
    unfolding prepare_def by (intro lift parse) (simp add: broker_only_transaction bodies)
  show "broker_only (fst (commit v n s))" "broker_only (fst (cancel v n s))"
    unfolding commit_def cancel_def transition_def
    by (intro lift parse broker_only_transaction bodies, simp)+
  show "broker_only (fst (mark_journal_terminal v n s))"
    unfolding mark_journal_terminal_def by (intro lift parse broker_only_transaction bodies)
  have con: "broker_only (fst (consume_replay sha v exact n s))" for exact
    unfolding consume_replay_def
    by (intro lift validators_broker_only)
      (auto simp: broker_only_def bind_op_def transaction_def split: prod.splits sum.splits,
        use bodies(4) in \<open>auto simp: broker_only_def\<close>)
  then show "broker_only (fst (consume_once sha v n s))"
    and "broker_only (fst (consume_idempotent_exact sha name v n s))"
    by (simp_all add: consume_once_def consume_idempotent_exact_def)
qed

text \<open>C14: No call can violate a constraint of the tables: in every reachable state each operation
  either returns or throws one of the broker's own errors, never SQLite's.\<close>

theorem ledger_never_violates_constraints:
  assumes "ledger_steps sha name (c0, empty_replay_storage) (c, s)"
  shows "broker_only (fst (prepare v n1 n2 n3 s)) \<and> broker_only (fst (commit v n s)) \<and>
    broker_only (fst (cancel v n s)) \<and> broker_only (fst (mark_journal_terminal v n s)) \<and>
    broker_only (fst (consume_once sha v n s)) \<and> broker_only (fst (consume_idempotent_exact sha name v n s))"
  using ledger_operations_broker_only [OF assms] by simp

theorem ledger_never_violates_constraints_witness:
  "broker_only (fst (prepare sample_effect 1 1 1 sample_prepared))"
  using ledger_never_violates_constraints [OF sample_steps [of id]] by blast

lemma prepared_use_outcomes:
  assumes "ledger_inv s" and "prepare v n1 n2 n3 s = (Inr x, s1)"
  shows "eo_state x = Observed PREPARED" and "observe v s1 = (Inr x, s1)"
    and "fst (commit v n s1) = Inr (x\<lparr>eo_state := Observed CONSUMED\<rparr>)"
    and "fst (cancel v n s1) = Inr (x\<lparr>eo_state := Observed CANCELLED\<rparr>)"
proof -
  from assms(2) obtain b where b: "parse_effect_replay_binding v = Inr b"
    and body: "prepare_body b n2 n3 s = Inr (x, s1)" and le: "n1 < eb_expires_at b * 1000"
    by (auto simp: prepare_def op_simps split: if_splits)
  have ok0: "oidc_effect_jti_ok (oidc_effect_jti s)" using assms(1) by (simp add: ledger_inv_def)
  obtain r where r: "r \<in> set (oidc_effect_jti s1)" "row_binds b r" "er_state r = PREPARED"
    and x: "x = effect_observation r"
  proof (rule prepare_body_cases [OF ok0 body])
    fix r
    assume "r \<in> set (oidc_effect_jti s1)" "row_binds b r" "er_state r = PREPARED" "x = effect_observation r"
    then show thesis by (rule that)
  next
    assume t: "s1 = prune_terminal_tombstones n2 s
          \<lparr>oidc_effect_jti := oidc_effect_jti (prune_terminal_tombstones n2 s) @ [prepared_row b n3]\<rparr>"
      and x: "x = observation_from_binding b (Observed PREPARED)"
    show thesis
      by (rule that [of "prepared_row b n3"])
        (simp_all add: t x row_binds_def prepared_row_def observation_from_binding_def effect_observation_def)
  qed
  have ok: "oidc_effect_jti_ok (oidc_effect_jti s1)"
  proof (rule prepare_body_cases [OF ok0 body])
    assume "s1 = prune_terminal_tombstones n2 s"
    then show ?thesis using ledger_inv_prune [OF assms(1)] by (simp add: ledger_inv_def)
  next
    assume t: "s1 = prune_terminal_tombstones n2 s
          \<lparr>oidc_effect_jti := oidc_effect_jti (prune_terminal_tombstones n2 s) @ [prepared_row b n3]\<rparr>"
      and "\<forall>r \<in> set (oidc_effect_jti (prune_terminal_tombstones n2 s)).
         er_jti_hash r \<noteq> eb_jti_hash b \<and> er_request_id r \<noteq> eb_request_id b"
    then show ?thesis using ledger_inv_prune [OF assms(1), of n2]
      by (simp add: ledger_inv_def effect_rows_empty effect_rows_append)
  qed
  show "eo_state x = Observed PREPARED" by (simp add: x effect_observation_def r(3))
  show "observe v s1 = (Inr x, s1)"
    by (simp add: observe_def b effect_rows_singleton [OF ok r(1,2)] exact_effect_row_def r(2) x)
  show "fst (commit v n s1) = Inr (x\<lparr>eo_state := Observed CONSUMED\<rparr>)"
    and "fst (cancel v n s1) = Inr (x\<lparr>eo_state := Observed CANCELLED\<rparr>)"
    by (simp_all add: commit_def cancel_def transition_def b transaction_def
        transition_body_row [OF ok r(1,2)] r(3) x effect_observation_def)
qed

text \<open>A prepared use is in the caller's hands: right after a successful \<open>prepare\<close>, \<open>observe\<close> gives
  the same PREPARED answer, and both a commit and a cancel would succeed, with the terminal state in
  an otherwise equal answer.\<close>

theorem prepared_use_can_be_finished:
  assumes "ledger_inv s" and "prepare v n1 n2 n3 s = (Inr x, s1)"
  shows "eo_state x = Observed PREPARED \<and> observe v s1 = (Inr x, s1) \<and>
    fst (commit v n s1) = Inr (x\<lparr>eo_state := Observed CONSUMED\<rparr>) \<and>
    fst (cancel v n s1) = Inr (x\<lparr>eo_state := Observed CANCELLED\<rparr>)"
  using prepared_use_outcomes [OF assms] by simp

theorem prepared_use_can_be_finished_witness:
  "fst (commit sample_effect 7 sample_prepared) =
     Inr \<lparr>eo_request_id = js ''request-1'', eo_reservation_id = sample_digest CHR ''a'',
          eo_state = Observed CONSUMED\<rparr>"
  using prepared_use_can_be_finished [OF _ sample_prepare, of 7]
  by (simp add: ledger_inv_def empty_replay_storage_def oidc_jti_ok_def oidc_effect_jti_ok_def
      tables_disjoint_def)

end
