(* ===== verification/B2Inventory.thy ===== *)
theory B2Inventory imports Validation begin

text \<open>
  What the broker believes about Backblaze B2 object versions: the closed key grammar of
  \<open>b2-key.ts\<close>, the validation of an observed version inventory (\<open>b2-inventory.ts\<close>) and the two
  observer-only questions of \<open>b2-exact-reconciliation.ts\<close>, "is the object still absent?" and "which
  single version is it?". The observer itself is a parameter; \<open>parse_date\<close> stands for \<open>Date.parse\<close>
  on the retention texts a provider may send, whose formats are the engine's.
\<close>

section \<open>Object keys\<close>

abbreviation hexes :: "nat \<Rightarrow> regex" where "hexes n \<equiv> Rep (Cls ''09af'') n n"
abbreviation digits :: regex where "digits \<equiv> RepInf (Cls ''09'') 1"

text \<open>\<open>[0-9a-f]{8}-(?:[0-9a-f]{4}-){3}[0-9a-f]{12}\<close>\<close>

definition VERSION_SHAPE :: regex where
  "VERSION_SHAPE = Seq (hexes 8) (Seq (Lit ''-'') (Seq (Rep (Seq (hexes 4) (Lit ''-'')) 3 3) (hexes 12)))"

fun seqs :: "regex list \<Rightarrow> regex" where
  "seqs [] = One"
| "seqs [r] = r"
| "seqs (r # s # rs) = Seq r (seqs (s # rs))"

definition OBSERVATION_KIND :: regex where
  "OBSERVATION_KIND = Alt (Lit ''cloudflare_network_surface'') (Lit ''cloudflare_service_deployments'')"

definition EXACT_KEYS :: "regex list" where
  "EXACT_KEYS =
     [seqs [Lit ''receipts/v1/'', digits, Lit ''/v'', digits, Lit ''.'', digits, Lit ''.'', digits,
        Lit ''/'', hexes 64, Lit ''/'', Rep (Cls ''09'') 12 12, Lit ''-'', hexes 64, Lit ''.json''],
      seqs [Lit ''receipts/v1/activation/'', VERSION_SHAPE, Lit ''/'', Cls ''01'', Lit ''-'', hexes 64,
        Lit ''.json''],
      seqs [Lit ''receipts/v1/activation-evidence/'', VERSION_SHAPE, Lit ''/'', Cls ''az'',
        Rep (Cls ''az09__'') 2 63, Lit ''/'', hexes 64, Lit ''.json''],
      seqs [Lit ''receipts/v1/activation-head/generations/'', Rep (Cls ''09'') 20 20, Lit ''-'', hexes 64,
        Lit ''.json''],
      seqs [Lit ''receipts/v1/cloudflare-observations/'', VERSION_SHAPE, Lit ''/'', OBSERVATION_KIND,
        Lit ''/'', hexes 64, Lit ''.json''],
      seqs [Lit ''receipts/v1/cloudflare-observations-v2/'', VERSION_SHAPE, Lit ''/'', hexes 64, Lit ''/'',
        OBSERVATION_KIND, Lit ''/'', hexes 64, Lit ''.json'']]"

definition is_allowed_b2_exact_key :: "js_string \<Rightarrow> bool" where
  "is_allowed_b2_exact_key key \<longleftrightarrow> length key \<le> 512 \<and> list_ex (\<lambda>r. matches r key) EXACT_KEYS"

definition assert_allowed_b2_exact_key :: "js_string \<Rightarrow> unit result" where
  "assert_allowed_b2_exact_key key =
     assert_js (is_allowed_b2_exact_key key) ''B2_OBSERVER_KEY_INVALID'' 500"

section \<open>Inventories\<close>

record b2_observed_version =
  bv_content_sha1 :: "js_string option"
  bv_delete_marker :: bool
  bv_digest :: "js_string option"
  bv_is_latest :: bool
  bv_compliance :: bool
  bv_retention_until :: "js_string option"
  bv_size :: int
  bv_version_id :: js_string

record b2_version_inventory =
  bi_default_retention_days :: int
  bi_encryption :: js_string
  bi_object_lock_enabled :: bool
  bi_type :: js_string
  bi_digest :: js_string
  bi_key :: js_string
  bi_versions :: "b2_observed_version list"

record inventory_summary =
  is_identical_version_ids :: "js_string list"
  is_inventory_digest :: js_string
  is_latest_version_id :: "js_string option"
  is_retention_by_version :: "(js_string \<times> js_string) list"

definition RETENTION_DAYS :: int where "RETENTION_DAYS = 2557"
definition RETENTION_MILLISECONDS :: int where "RETENTION_MILLISECONDS = 2557 * 86400000"

definition validate_version_id :: "js_string \<Rightarrow> unit result" where
  "validate_version_id v =
     (if length v = 0 \<or> length v > 512 then Inl (broker ''B2_VERSION_ID_INVALID'' 503 False)
      else Inr ())"

definition or_null :: "js_string option \<Rightarrow> json" where
  "or_null x = (case x of None \<Rightarrow> JNull | Some s \<Rightarrow> JStr s)"

definition inventory_digest_payload :: "b2_version_inventory \<Rightarrow> json" where
  "inventory_digest_payload i = JObj
     [(js ''bucket'', JObj
        [(js ''default_retention_days'', JI (bi_default_retention_days i)),
         (js ''encryption'', JStr (bi_encryption i)),
         (js ''object_lock_enabled'', JBool (bi_object_lock_enabled i)),
         (js ''type'', JStr (bi_type i))]),
      (js ''key'', JStr (bi_key i)),
      (js ''versions'', JArr (map (\<lambda>v. JObj
        [(js ''content_sha1'', or_null (bv_content_sha1 v)),
         (js ''delete_marker'', JBool (bv_delete_marker v)),
         (js ''digest'', or_null (bv_digest v)),
         (js ''is_latest'', JBool (bv_is_latest v)),
         (js ''retention_mode'', if bv_compliance v then JStr (js ''COMPLIANCE'') else JNull),
         (js ''retention_until'', or_null (bv_retention_until v)),
         (js ''size'', JI (bv_size v)),
         (js ''version_id'', JStr (bv_version_id v))]) (bi_versions i)))]"

definition version_conflicts ::
    "(js_string \<Rightarrow> int option) \<Rightarrow> int \<Rightarrow> js_string \<Rightarrow> js_string \<Rightarrow> int \<Rightarrow> b2_observed_version \<Rightarrow> bool" where
  "version_conflicts parse_date sz digest sha1 minimum v \<longleftrightarrow>
     bv_delete_marker v \<or> bv_digest v \<noteq> Some digest \<or> bv_content_sha1 v \<noteq> Some sha1 \<or>
     bv_size v \<noteq> sz \<or> \<not> bv_compliance v \<or>
     (case bv_retention_until v of
        None \<Rightarrow> True
      | Some until \<Rightarrow> (case parse_date until of None \<Rightarrow> True | Some ms \<Rightarrow> ms < minimum))"

text \<open>The loop over the versions, with the running \<open>ids\<close>, retention map, latest id and its count.\<close>

fun scan_versions ::
    "(b2_observed_version \<Rightarrow> bool) \<Rightarrow> b2_observed_version list \<Rightarrow>
       js_string list \<times> (js_string \<times> js_string) list \<times> js_string option \<times> nat \<Rightarrow>
       (js_string list \<times> (js_string \<times> js_string) list \<times> js_string option \<times> nat) result" where
  "scan_versions conflicts [] acc = Inr acc"
| "scan_versions conflicts (v # vs) (ids, retention, latest, count) =
     bind_r (validate_version_id (bv_version_id v)) (\<lambda>_.
       if conflicts v then Inl (broker ''B2_VERSION_HISTORY_CONFLICT'' 500 False)
       else scan_versions conflicts vs
         (ids @ [bv_version_id v],
          (bv_version_id v, (case bv_retention_until v of None \<Rightarrow> [] | Some u \<Rightarrow> u)) # retention,
          if bv_is_latest v then Some (bv_version_id v) else latest,
          if bv_is_latest v then count + 1 else count))"

definition validate_inventory ::
    "hash \<Rightarrow> (js_string \<Rightarrow> int option) \<Rightarrow> b2_version_inventory \<Rightarrow> js_string \<Rightarrow> int \<Rightarrow> js_string \<Rightarrow>
       js_string \<Rightarrow> int \<Rightarrow> inventory_summary result" where
  "validate_inventory sha parse_date i key sz digest sha1 minimum =
     (if bi_key i \<noteq> key \<or> \<not> matches DIGEST (bi_digest i) \<or> length (bi_versions i) > 16 \<or>
         bi_default_retention_days i \<noteq> RETENTION_DAYS \<or> bi_encryption i \<noteq> js ''SSE-B2'' \<or>
         \<not> bi_object_lock_enabled i \<or> bi_type i \<noteq> js ''allPrivate''
      then Inl (broker ''B2_VERSION_INVENTORY_INVALID'' 503 False)
      else
        bind_r (scan_versions (version_conflicts parse_date sz digest sha1 minimum) (bi_versions i)
                  ([], [], None, 0)) (\<lambda>(ids, retention, latest, count).
          if \<not> distinct ids \<or> join [0x0A] (sort ids) \<noteq> join [0x0A] ids \<or>
             count \<noteq> (if ids = [] then 0 else 1)
          then Inl (broker ''B2_VERSION_INVENTORY_INVALID'' 503 False)
          else
            bind_r (canonical_bytes (inventory_digest_payload i)) (\<lambda>bs.
              if timing_safe_equal (js ''sha256:'' @ sha256_hex sha bs) (bi_digest i)
              then Inr \<lparr>is_identical_version_ids = ids, is_inventory_digest = bi_digest i,
                        is_latest_version_id = latest, is_retention_by_version = retention\<rparr>
              else Inl (broker ''B2_VERSION_INVENTORY_DIGEST_MISMATCH'' 503 False))))"

section \<open>Observer-only reconciliation\<close>

record activation_worm =
  aw_digest :: js_string
  aw_key :: js_string
  aw_retention_until :: js_string
  aw_version_id :: js_string

record exact_input =
  ei_bytes :: bytes
  ei_committed_at :: js_string
  ei_content_sha1 :: js_string
  ei_digest :: js_string
  ei_key :: js_string

text \<open>
  \<open>inspect\<close> is \<open>observer.inspectExactKey\<close>, an operation on the outside world that may throw; \<open>sha1\<close>
  is SHA-1.
\<close>

definition exact_summary ::
    "hash \<Rightarrow> hash \<Rightarrow> (js_string \<Rightarrow> int option) \<Rightarrow> (js_string \<Rightarrow> ('w, b2_version_inventory) op) \<Rightarrow>
       exact_input \<Rightarrow> ('w, inventory_summary) op" where
  "exact_summary sha sha1 parse_date inspect i =
     (if length (ei_bytes i) = 0 \<or> \<not> is_canonical_time (ei_committed_at i) \<or>
         \<not> matches DIGEST (ei_digest i) \<or>
         \<not> timing_safe_equal (js ''sha256:'' @ sha256_hex sha (ei_bytes i)) (ei_digest i)
      then fail_op (broker ''B2_RECONCILIATION_INPUT_INVALID'' 500 False)
      else
        bind_op (inspect (ei_key i)) (\<lambda>inventory.
          lift_op (validate_inventory sha parse_date inventory (ei_key i) (int (length (ei_bytes i)))
            (ei_digest i) (hex_bytes (sha1 (ei_bytes i)))
            (the (date_parse (ei_committed_at i)) + RETENTION_MILLISECONDS))))"

definition reconcile_summary :: "exact_input \<Rightarrow> inventory_summary \<Rightarrow> activation_worm result" where
  "reconcile_summary i s =
     (case is_latest_version_id s of
        None \<Rightarrow> Inl (broker ''B2_RECONCILIATION_PENDING'' 503 True)
      | Some v \<Rightarrow>
          if is_identical_version_ids s = [] then Inl (broker ''B2_RECONCILIATION_PENDING'' 503 True)
          else if is_identical_version_ids s \<noteq> [v]
          then Inl (broker ''B2_RECONCILIATION_DUPLICATE_DISPATCH'' 409 False)
          else case map_of (is_retention_by_version s) v of
              None \<Rightarrow> Inl (broker ''B2_RECONCILIATION_PENDING'' 503 True)
            | Some until \<Rightarrow> Inr \<lparr>aw_digest = ei_digest i, aw_key = ei_key i,
                aw_retention_until = until, aw_version_id = v\<rparr>)"

definition reconcile_exact_object ::
    "hash \<Rightarrow> hash \<Rightarrow> (js_string \<Rightarrow> int option) \<Rightarrow> (js_string \<Rightarrow> ('w, b2_version_inventory) op) \<Rightarrow>
       exact_input \<Rightarrow> ('w, activation_worm) op" where
  "reconcile_exact_object sha sha1 parse_date inspect i =
     bind_op (exact_summary sha sha1 parse_date inspect i) (\<lambda>s. lift_op (reconcile_summary i s))"

definition assert_exact_object_absent ::
    "hash \<Rightarrow> hash \<Rightarrow> (js_string \<Rightarrow> int option) \<Rightarrow> (js_string \<Rightarrow> ('w, b2_version_inventory) op) \<Rightarrow>
       exact_input \<Rightarrow> ('w, js_string) op" where
  "assert_exact_object_absent sha sha1 parse_date inspect i =
     bind_op (exact_summary sha sha1 parse_date inspect i) (\<lambda>s.
       lift_op (if is_identical_version_ids s \<noteq> [] \<or> is_latest_version_id s \<noteq> None
                then Inl (broker ''B2_ABSENCE_CONFLICT'' 409 False)
                else Inr (is_inventory_digest s)))"

section \<open>What a validated inventory says\<close>

lemma scan_versions_sound:
  assumes "scan_versions conflicts vs (ids0, ret0, latest0, n0) = Inr (ids, ret, latest, n)"
  shows "ids = ids0 @ map bv_version_id vs \<and> (\<forall>v \<in> set vs. \<not> conflicts v) \<and>
    ret = rev (map (\<lambda>v. (bv_version_id v, case bv_retention_until v of None \<Rightarrow> [] | Some u \<Rightarrow> u)) vs) @ ret0 \<and>
    n = n0 + length (filter bv_is_latest vs) \<and>
    latest = (if filter bv_is_latest vs = [] then latest0
           else Some (bv_version_id (last (filter bv_is_latest vs)))) \<and>
    (\<forall>v \<in> set vs. 1 \<le> length (bv_version_id v) \<and> length (bv_version_id v) \<le> 512)"
  using assms
proof (induction vs arbitrary: ids0 ret0 latest0 n0)
  case (Cons v vs)
  from Cons.prems have v: "1 \<le> length (bv_version_id v)" "length (bv_version_id v) \<le> 512" "\<not> conflicts v"
    and rest: "scan_versions conflicts vs
      (ids0 @ [bv_version_id v],
       (bv_version_id v, (case bv_retention_until v of None \<Rightarrow> [] | Some u \<Rightarrow> u)) # ret0,
       if bv_is_latest v then Some (bv_version_id v) else latest0,
       if bv_is_latest v then n0 + 1 else n0) = Inr (ids, ret, latest, n)"
    by (auto simp: bind_r_eq_Inr validate_version_id_def Suc_le_eq split: if_splits)
  note IH = Cons.IH [OF rest]
  show ?case using IH v by (elim conjE, intro conjI) (simp_all split: if_splits)
qed simp

lemma validate_inventory_sound:
  assumes "validate_inventory sha parse_date i key sz digest sha1 minimum = Inr s"
  shows "bi_key i = key" and "is_inventory_digest s = bi_digest i" and "matches DIGEST (bi_digest i)"
    and "is_identical_version_ids s = map bv_version_id (bi_versions i)"
    and "\<forall>v \<in> set (bi_versions i). \<not> version_conflicts parse_date sz digest sha1 minimum v"
    and "distinct (map bv_version_id (bi_versions i))"
    and "is_latest_version_id s = None \<longleftrightarrow> bi_versions i = []"
    and "bi_versions i \<noteq> [] \<Longrightarrow>
      \<exists>v \<in> set (bi_versions i). bv_is_latest v \<and> is_latest_version_id s = Some (bv_version_id v) \<and>
        (\<forall>u \<in> set (bi_versions i). bv_is_latest u \<longrightarrow> u = v)"
    and "is_retention_by_version s =
      rev (map (\<lambda>v. (bv_version_id v, case bv_retention_until v of None \<Rightarrow> [] | Some u \<Rightarrow> u)) (bi_versions i))"
    and "\<exists>bs. canonical_bytes (inventory_digest_payload i) = Inr bs \<and>
      timing_safe_equal (js ''sha256:'' @ sha256_hex sha bs) (bi_digest i)"
    and "\<forall>v \<in> set (bi_versions i). 1 \<le> length (bv_version_id v) \<and> length (bv_version_id v) \<le> 512"
proof -
  obtain ids ret latest n bs where scan:
      "scan_versions (version_conflicts parse_date sz digest sha1 minimum) (bi_versions i)
         ([], [], None, 0) = Inr (ids, ret, latest, n)"
    and c: "bi_key i = key" "matches DIGEST (bi_digest i)" "distinct ids" "n = (if ids = [] then 0 else 1)"
      "canonical_bytes (inventory_digest_payload i) = Inr bs"
      "timing_safe_equal (js ''sha256:'' @ sha256_hex sha bs) (bi_digest i)"
    and s: "s = \<lparr>is_identical_version_ids = ids, is_inventory_digest = bi_digest i,
                        is_latest_version_id = latest, is_retention_by_version = ret\<rparr>"
    using assms unfolding validate_inventory_def
    by (auto simp: bind_r_eq_Inr split: if_splits)
  note sound = scan_versions_sound [OF scan]
  note f = sound [THEN conjunct1] sound [THEN conjunct2, THEN conjunct1]
    sound [THEN conjunct2, THEN conjunct2, THEN conjunct1]
    sound [THEN conjunct2, THEN conjunct2, THEN conjunct2, THEN conjunct1]
    sound [THEN conjunct2, THEN conjunct2, THEN conjunct2, THEN conjunct2, THEN conjunct1]
    sound [THEN conjunct2, THEN conjunct2, THEN conjunct2, THEN conjunct2, THEN conjunct2]
  show "bi_key i = key" "is_inventory_digest s = bi_digest i" "matches DIGEST (bi_digest i)"
    "is_identical_version_ids s = map bv_version_id (bi_versions i)"
    "\<forall>v \<in> set (bi_versions i). \<not> version_conflicts parse_date sz digest sha1 minimum v"
    "distinct (map bv_version_id (bi_versions i))"
    "is_retention_by_version s =
      rev (map (\<lambda>v. (bv_version_id v, case bv_retention_until v of None \<Rightarrow> [] | Some u \<Rightarrow> u)) (bi_versions i))"
    "\<exists>bs. canonical_bytes (inventory_digest_payload i) = Inr bs \<and>
      timing_safe_equal (js ''sha256:'' @ sha256_hex sha bs) (bi_digest i)"
    "\<forall>v \<in> set (bi_versions i). 1 \<le> length (bv_version_id v) \<and> length (bv_version_id v) \<le> 512"
    using c f by (simp_all add: s)
  have one: "length (filter bv_is_latest (bi_versions i)) = (if bi_versions i = [] then 0 else 1)"
    using f(1,4) c(4) by simp
  then show "is_latest_version_id s = None \<longleftrightarrow> bi_versions i = []"
    using f(5) by (auto simp: s split: if_splits)
  assume "bi_versions i \<noteq> []"
  with one obtain v where v: "filter bv_is_latest (bi_versions i) = [v]"
    by (auto simp: length_Suc_conv)
  then have set: "{u \<in> set (bi_versions i). bv_is_latest u} = {v}" by (metis list.set(1,2) set_filter)
  show "\<exists>v \<in> set (bi_versions i). bv_is_latest v \<and> is_latest_version_id s = Some (bv_version_id v) \<and>
        (\<forall>u \<in> set (bi_versions i). bv_is_latest u \<longrightarrow> u = v)"
  proof (intro bexI [of _ v] conjI ballI impI)
    show "is_latest_version_id s = Some (bv_version_id v)" using f(5) v by (simp add: s)
  qed (use set in auto)
qed

end
