(* ===== verification/WormStore.thy ===== *)
theory WormStore imports B2Inventory begin

text \<open>
  The durable journal of one exact append-only object write: the sealed identity of the effect
  (\<open>worm-exact-object-effect-contract.ts\<close>), its single row and the constraints of its table
  (\<open>worm-exact-object-effect-storage.ts\<close>) and the operations of the state machine
  (\<open>worm-exact-object-effect-store.ts\<close>). The statuses are preordered by what can still follow, and
  every operation moves the row upwards.
\<close>

section \<open>Contract\<close>

datatype worm_status = PREPARED | ABSENT | IN_FLIGHT | ACCEPTED | DISPATCHED_HOLD | CONFIRMED | HOLD

record worm_pins =
  executor_service_identity :: js_string
  executor_version_id :: js_string
  observer_service_identity :: js_string
  observer_version_id :: js_string

record worm_input =
  in_canonical_bytes :: bytes
  in_committed_at :: js_string
  in_digest :: js_string
  in_key :: js_string
  in_pins :: worm_pins

record prepared_worm = worm_input +
  in_effect_id :: js_string

definition WORM_EXACT_OBJECT_MAX_BYTES :: nat where "WORM_EXACT_OBJECT_MAX_BYTES = 65536"

definition SERVICE_IDENTITY :: regex where
  "SERVICE_IDENTITY = seqs [Lit ''cloudflare-worker:'', hexes 32, Lit ''/'', Cls ''az'',
     Rep (Cls ''az09--'') 0 62, Lit ''@'', VERSION_SHAPE]"

definition effect_error :: "string \<Rightarrow> bool \<Rightarrow> js_error" where
  "effect_error code retryable = broker code (if retryable then 503 else 409) retryable"

definition canonical_effect_timestamp :: "js_string \<Rightarrow> js_string result" where
  "canonical_effect_timestamp v =
     (if length v \<noteq> 24 \<or> \<not> is_canonical_time v
      then Inl (effect_error ''WORM_EXACT_OBJECT_EFFECT_TIME_INVALID'' False) else Inr v)"

definition ends_with :: "js_string \<Rightarrow> js_string \<Rightarrow> bool" where
  "ends_with s t \<longleftrightarrow> length t \<le> length s \<and> drop (length s - length t) s = t"

definition valid_pins :: "worm_pins \<Rightarrow> bool" where
  "valid_pins p \<longleftrightarrow>
     matches VERSION_SHAPE (executor_version_id p) \<and> matches VERSION_SHAPE (observer_version_id p) \<and>
     matches SERVICE_IDENTITY (executor_service_identity p) \<and>
     matches SERVICE_IDENTITY (observer_service_identity p) \<and>
     ends_with (executor_service_identity p) (js ''@'' @ executor_version_id p) \<and>
     ends_with (observer_service_identity p) (js ''@'' @ observer_version_id p) \<and>
     executor_service_identity p \<noteq> observer_service_identity p"

definition copy_and_validate_pins :: "worm_pins \<Rightarrow> worm_pins result" where
  "copy_and_validate_pins p =
     (if valid_pins p then Inr p
      else Inl (effect_error ''WORM_EXACT_OBJECT_EFFECT_PIN_INVALID'' False))"

definition effect_identity :: "worm_input \<Rightarrow> json" where
  "effect_identity i = JObj
     [(js ''body_bytes'', JI (int (length (in_canonical_bytes i)))),
      (js ''committed_at'', JStr (in_committed_at i)),
      (js ''digest'', JStr (in_digest i)),
      (js ''executor_service_identity'', JStr (executor_service_identity (in_pins i))),
      (js ''executor_version_id'', JStr (executor_version_id (in_pins i))),
      (js ''key'', JStr (in_key i)),
      (js ''observer_service_identity'', JStr (observer_service_identity (in_pins i))),
      (js ''observer_version_id'', JStr (observer_version_id (in_pins i))),
      (js ''schema'', JStr (js ''dpone.worm-exact-object-effect.v1''))]"

text \<open>The key policy of an adapter may itself throw; that is an invalid input too.\<close>

definition prepare_with_key_policy ::
    "hash \<Rightarrow> (js_string \<Rightarrow> bool result) \<Rightarrow> worm_input \<Rightarrow> prepared_worm result" where
  "prepare_with_key_policy sha policy i =
     (if length (in_canonical_bytes i) < 1 \<or> length (in_canonical_bytes i) > WORM_EXACT_OBJECT_MAX_BYTES
      then Inl (effect_error ''WORM_EXACT_OBJECT_EFFECT_INPUT_INVALID'' False)
      else
        bind_r (copy_and_validate_pins (in_pins i)) (\<lambda>pins.
        bind_r (canonical_effect_timestamp (in_committed_at i)) (\<lambda>committed_at.
          if (case policy (in_key i) of Inl _ \<Rightarrow> True
              | Inr allowed \<Rightarrow> \<not> matches DIGEST (in_digest i) \<or> \<not> allowed)
          then Inl (effect_error ''WORM_EXACT_OBJECT_EFFECT_INPUT_INVALID'' False)
          else if \<not> timing_safe_equal (js ''sha256:'' @ sha256_hex sha (in_canonical_bytes i)) (in_digest i)
          then Inl (effect_error ''WORM_EXACT_OBJECT_EFFECT_DIGEST_MISMATCH'' False)
          else
            bind_r (canonical_bytes (effect_identity i)) (\<lambda>bs.
              Inr \<lparr>in_canonical_bytes = in_canonical_bytes i, in_committed_at = committed_at,
                   in_digest = in_digest i, in_key = in_key i, in_pins = pins,
                   in_effect_id = js ''sha256:'' @ sha256_hex sha bs\<rparr>))))"

definition prepare_effect :: "hash \<Rightarrow> worm_input \<Rightarrow> prepared_worm result" where
  "prepare_effect sha i = prepare_with_key_policy sha (\<lambda>k. Inr (is_allowed_b2_exact_key k)) i"

section \<open>Storage\<close>

record worm_row =
  w_effect_id :: js_string
  w_canonical_bytes :: bytes
  w_committed_at :: js_string
  w_digest :: js_string
  w_object_key :: js_string
  w_pins :: worm_pins
  w_status :: worm_status
  w_absence_inventory_digest :: "js_string option"
  w_writer_version_id :: "js_string option"
  w_worm_version_id :: "js_string option"
  w_worm_retention_until :: "js_string option"
  w_hold_code :: "js_string option"

text \<open>SQLite's \<open>length\<close> of a text: its characters before the first NUL.\<close>

definition sql_length :: "js_string \<Rightarrow> nat" where
  "sql_length s = length (takeWhile (\<lambda>p. p \<noteq> 0) (code_points s))"

definition null_or :: "('a \<Rightarrow> bool) \<Rightarrow> 'a option \<Rightarrow> bool" where
  "null_or p x \<longleftrightarrow> (case x of None \<Rightarrow> True | Some y \<Rightarrow> p y)"

definition status_columns_ok :: "worm_row \<Rightarrow> bool" where
  "status_columns_ok r \<longleftrightarrow>
     (case w_status r of
        PREPARED \<Rightarrow> w_absence_inventory_digest r = None \<and> w_writer_version_id r = None \<and>
          w_worm_version_id r = None \<and> w_worm_retention_until r = None \<and> w_hold_code r = None
      | ABSENT \<Rightarrow> w_absence_inventory_digest r \<noteq> None \<and> w_writer_version_id r = None \<and>
          w_worm_version_id r = None \<and> w_worm_retention_until r = None \<and> w_hold_code r = None
      | IN_FLIGHT \<Rightarrow> w_absence_inventory_digest r \<noteq> None \<and> w_writer_version_id r = None \<and>
          w_worm_version_id r = None \<and> w_worm_retention_until r = None \<and> w_hold_code r = None
      | ACCEPTED \<Rightarrow> w_absence_inventory_digest r \<noteq> None \<and> w_writer_version_id r \<noteq> None \<and>
          w_worm_version_id r = None \<and> w_worm_retention_until r = None \<and> w_hold_code r = None
      | DISPATCHED_HOLD \<Rightarrow> w_absence_inventory_digest r \<noteq> None \<and>
          w_worm_version_id r = None \<and> w_worm_retention_until r = None \<and> w_hold_code r = None
      | CONFIRMED \<Rightarrow> w_absence_inventory_digest r \<noteq> None \<and>
          w_worm_version_id r \<noteq> None \<and> w_worm_retention_until r \<noteq> None \<and> w_hold_code r = None
      | HOLD \<Rightarrow> w_worm_version_id r = None \<and> w_worm_retention_until r = None \<and> w_hold_code r \<noteq> None)"

definition worm_row_ok :: "worm_row \<Rightarrow> bool" where
  "worm_row_ok r \<longleftrightarrow>
     sql_length (w_effect_id r) = 71 \<and>
     1 \<le> length (w_canonical_bytes r) \<and> length (w_canonical_bytes r) \<le> 65536 \<and>
     sql_length (w_committed_at r) = 24 \<and> sql_length (w_digest r) = 71 \<and>
     1 \<le> sql_length (w_object_key r) \<and> sql_length (w_object_key r) \<le> 512 \<and>
     1 \<le> sql_length (executor_service_identity (w_pins r)) \<and>
     sql_length (executor_service_identity (w_pins r)) \<le> 512 \<and>
     sql_length (executor_version_id (w_pins r)) = 36 \<and>
     1 \<le> sql_length (observer_service_identity (w_pins r)) \<and>
     sql_length (observer_service_identity (w_pins r)) \<le> 512 \<and>
     sql_length (observer_version_id (w_pins r)) = 36 \<and>
     null_or (\<lambda>d. sql_length d = 71) (w_absence_inventory_digest r) \<and>
     null_or (\<lambda>v. 1 \<le> sql_length v \<and> sql_length v \<le> 512) (w_writer_version_id r) \<and>
     null_or (\<lambda>v. 1 \<le> sql_length v \<and> sql_length v \<le> 512) (w_worm_version_id r) \<and>
     null_or (\<lambda>t. sql_length t = 24) (w_worm_retention_until r) \<and>
     null_or (\<lambda>c. 1 \<le> sql_length c \<and> sql_length c \<le> 128) (w_hold_code r) \<and>
     executor_service_identity (w_pins r) \<noteq> observer_service_identity (w_pins r) \<and>
     status_columns_ok r"

text \<open>
  The table holds at most the row whose \<open>singleton\<close> is 1. An \<open>UPDATE\<close> of it checks the constraints
  of the new row.
\<close>

type_synonym worm_storage = "worm_row option"

definition write_row :: "worm_row \<Rightarrow> worm_storage result" where
  "write_row r = (if worm_row_ok r then Inr (Some r) else Inl (Native SqlConstraint))"

text \<open>\<open>equalStoredBytes\<close>\<close>

definition equal_stored_bytes :: "bytes \<Rightarrow> bytes \<Rightarrow> bool" where
  "equal_stored_bytes left right \<longleftrightarrow>
     length left = length right \<and>
     fold (\<lambda>i d. d OR (byte_or_0 left i XOR byte_or_0 right i)) [0..<length left] 0 = 0"

lemma equal_stored_bytes_iff [simp]: "equal_stored_bytes l r \<longleftrightarrow> l = r"
proof
  assume "equal_stored_bytes l r"
  then have "length l = length r" and "\<And>i. i < length l \<Longrightarrow> byte_or_0 l i = byte_or_0 r i"
    by (simp_all add: equal_stored_bytes_def fold_or_eq_0 xor_eq_0)
  then show "l = r" by (intro nth_equalityI) (simp_all add: byte_or_0_def ucast_byte_eq)
next
  assume "l = r"
  then show "equal_stored_bytes l r" unfolding equal_stored_bytes_def fold_or_eq_0 by simp
qed

section \<open>The store\<close>

record worm_snapshot =
  s_absence_inventory_digest :: "js_string option"
  s_canonical_bytes :: bytes
  s_committed_at :: js_string
  s_digest :: js_string
  s_effect_id :: js_string
  s_hold_code :: "js_string option"
  s_key :: js_string
  s_pins :: worm_pins
  s_status :: worm_status
  s_writer_version_id :: "js_string option"
  s_worm :: "activation_worm option"

definition decode_snapshot :: "worm_row \<Rightarrow> worm_snapshot" where
  "decode_snapshot r =
     \<lparr>s_absence_inventory_digest = w_absence_inventory_digest r,
      s_canonical_bytes = w_canonical_bytes r, s_committed_at = w_committed_at r,
      s_digest = w_digest r, s_effect_id = w_effect_id r, s_hold_code = w_hold_code r,
      s_key = w_object_key r, s_pins = w_pins r, s_status = w_status r,
      s_writer_version_id = w_writer_version_id r,
      s_worm = (case (w_worm_version_id r, w_worm_retention_until r) of
          (Some v, Some t) \<Rightarrow> Some \<lparr>aw_digest = w_digest r, aw_key = w_object_key r,
                                   aw_retention_until = t, aw_version_id = v\<rparr>
        | _ \<Rightarrow> None)\<rparr>"

definition require_bound :: "js_string \<Rightarrow> worm_pins \<Rightarrow> worm_storage \<Rightarrow> worm_row result" where
  "require_bound effect_id pins s =
     bind_r (copy_and_validate_pins pins) (\<lambda>_.
       case s of
         None \<Rightarrow> Inl (effect_error ''WORM_EXACT_OBJECT_EFFECT_MISSING'' False)
       | Some r \<Rightarrow>
           if w_effect_id r \<noteq> effect_id \<or> w_pins r \<noteq> pins
           then Inl (effect_error ''WORM_EXACT_OBJECT_EFFECT_PIN_CONFLICT'' False)
           else Inr r)"

definition same_seal :: "worm_row \<Rightarrow> prepared_worm \<Rightarrow> bool" where
  "same_seal r p \<longleftrightarrow>
     w_effect_id r = in_effect_id p \<and> w_committed_at r = in_committed_at p \<and>
     w_digest r = in_digest p \<and> w_object_key r = in_key p \<and> w_pins r = in_pins p \<and>
     equal_stored_bytes (w_canonical_bytes r) (in_canonical_bytes p)"

definition sealed_row :: "prepared_worm \<Rightarrow> worm_row" where
  "sealed_row p =
     \<lparr>w_effect_id = in_effect_id p, w_canonical_bytes = in_canonical_bytes p,
      w_committed_at = in_committed_at p, w_digest = in_digest p, w_object_key = in_key p,
      w_pins = in_pins p, w_status = PREPARED, w_absence_inventory_digest = None,
      w_writer_version_id = None, w_worm_version_id = None, w_worm_retention_until = None,
      w_hold_code = None\<rparr>"

definition snapshot :: "js_string \<Rightarrow> worm_pins \<Rightarrow> (worm_storage, worm_snapshot) op" where
  "snapshot effect_id pins =
     bind_op get_op (\<lambda>s. lift_op (bind_r (require_bound effect_id pins s) (\<lambda>r. Inr (decode_snapshot r))))"

definition seal :: "hash \<Rightarrow> worm_input \<Rightarrow> (worm_storage, worm_snapshot) op" where
  "seal sha input =
     bind_op (lift_op (prepare_effect sha input)) (\<lambda>p.
     bind_op (transaction (\<lambda>s. case s of
         Some r \<Rightarrow> if same_seal r p then Inr ((), s)
                   else Inl (effect_error ''WORM_EXACT_OBJECT_EFFECT_SEAL_CONFLICT'' False)
       | None \<Rightarrow> bind_r (write_row (sealed_row p)) (\<lambda>t. Inr ((), t)))) (\<lambda>_.
     snapshot (in_effect_id p) (in_pins p)))"

datatype worm_action = CHECK_ABSENCE | COMPLETE | DISPATCH | RECONCILE | STOP_HOLD

definition action_for :: "worm_status \<Rightarrow> bool \<Rightarrow> worm_action result" where
  "action_for status claimed =
     (case status of
        PREPARED \<Rightarrow> Inr CHECK_ABSENCE
      | IN_FLIGHT \<Rightarrow> Inr (if claimed then DISPATCH else RECONCILE)
      | ACCEPTED \<Rightarrow> Inr RECONCILE
      | DISPATCHED_HOLD \<Rightarrow> Inr RECONCILE
      | CONFIRMED \<Rightarrow> Inr COMPLETE
      | HOLD \<Rightarrow> Inr STOP_HOLD
      | ABSENT \<Rightarrow> Inl (effect_error ''WORM_EXACT_OBJECT_EFFECT_STATE_INVALID'' False))"

definition next_action ::
    "js_string \<Rightarrow> worm_pins \<Rightarrow> (worm_storage, worm_action \<times> worm_snapshot) op" where
  "next_action effect_id pins =
     bind_op (transaction (\<lambda>s.
       bind_r (require_bound effect_id pins s) (\<lambda>r.
         if w_status r = ABSENT then
           bind_r (write_row (r\<lparr>w_status := IN_FLIGHT\<rparr>)) (\<lambda>t.
           bind_r (require_bound effect_id pins t) (\<lambda>r'. Inr ((decode_snapshot r', True), t)))
         else Inr ((decode_snapshot r, False), s)))) (\<lambda>(effect, claimed).
     lift_op (bind_r (action_for (s_status effect) claimed) (\<lambda>a. Inr (a, effect))))"

definition mark_absent :: "js_string \<Rightarrow> worm_pins \<Rightarrow> js_string \<Rightarrow> (worm_storage, unit) op" where
  "mark_absent effect_id pins inventory_digest =
     (if \<not> matches DIGEST inventory_digest
      then fail_op (effect_error ''WORM_EXACT_OBJECT_EFFECT_ABSENCE_INVALID'' False)
      else transaction (\<lambda>s.
        bind_r (require_bound effect_id pins s) (\<lambda>r.
          if w_status r = PREPARED then
            bind_r (write_row (r\<lparr>w_absence_inventory_digest := Some inventory_digest, w_status := ABSENT\<rparr>))
              (\<lambda>t. Inr ((), t))
          else if w_absence_inventory_digest r \<noteq> Some inventory_digest
          then Inl (effect_error ''WORM_EXACT_OBJECT_EFFECT_ABSENCE_CONFLICT'' False)
          else Inr ((), s))))"

definition version_conflict :: js_error where
  "version_conflict = effect_error ''WORM_EXACT_OBJECT_EFFECT_WRITER_VERSION_CONFLICT'' False"

definition accept_version :: "js_string \<Rightarrow> worm_pins \<Rightarrow> js_string \<Rightarrow> (worm_storage, unit) op" where
  "accept_version effect_id pins version =
     bind_op (lift_op (validate_version_id version)) (\<lambda>_. transaction (\<lambda>s.
       bind_r (require_bound effect_id pins s) (\<lambda>r.
         if w_status r = CONFIRMED then
           if w_worm_version_id r \<noteq> Some version then Inl version_conflict else Inr ((), s)
         else if w_status r = ACCEPTED then
           if w_writer_version_id r \<noteq> Some version then Inl version_conflict else Inr ((), s)
         else if w_status r \<noteq> IN_FLIGHT \<and> w_status r \<noteq> DISPATCHED_HOLD
         then Inl (effect_error ''WORM_EXACT_OBJECT_EFFECT_NOT_DISPATCHED'' False)
         else if w_writer_version_id r \<noteq> None \<and> w_writer_version_id r \<noteq> Some version
         then Inl version_conflict
         else bind_r (write_row (r\<lparr>w_writer_version_id := Some version, w_status := ACCEPTED\<rparr>))
           (\<lambda>t. Inr ((), t)))))"

definition mark_dispatched_hold :: "js_string \<Rightarrow> worm_pins \<Rightarrow> (worm_storage, unit) op" where
  "mark_dispatched_hold effect_id pins = transaction (\<lambda>s.
     bind_r (require_bound effect_id pins s) (\<lambda>r.
       if w_status r = DISPATCHED_HOLD \<or> w_status r = CONFIRMED \<or> w_status r = HOLD then Inr ((), s)
       else if w_status r \<noteq> IN_FLIGHT \<and> w_status r \<noteq> ACCEPTED
       then Inl (effect_error ''WORM_EXACT_OBJECT_EFFECT_NOT_DISPATCHED'' False)
       else bind_r (write_row (r\<lparr>w_status := DISPATCHED_HOLD\<rparr>)) (\<lambda>t. Inr ((), t))))"

definition time_of :: "js_string \<Rightarrow> int" where
  "time_of s = the (date_parse s)"

definition validate_worm :: "worm_row \<Rightarrow> activation_worm \<Rightarrow> unit result" where
  "validate_worm r worm =
     bind_r (validate_version_id (aw_version_id worm)) (\<lambda>_.
     bind_r (canonical_effect_timestamp (aw_retention_until worm)) (\<lambda>until.
       if aw_digest worm \<noteq> w_digest r \<or> aw_key worm \<noteq> w_object_key r \<or>
          time_of until < time_of (w_committed_at r) + RETENTION_MILLISECONDS \<or>
          w_status r = CONFIRMED \<and>
            (w_worm_version_id r \<noteq> Some (aw_version_id worm) \<or> w_worm_retention_until r \<noteq> Some until)
       then Inl (effect_error ''WORM_EXACT_OBJECT_EFFECT_CONFIRMATION_CONFLICT'' False)
       else Inr ()))"

definition confirm :: "js_string \<Rightarrow> worm_pins \<Rightarrow> activation_worm \<Rightarrow> (worm_storage, unit) op" where
  "confirm effect_id pins worm = transaction (\<lambda>s.
     bind_r (require_bound effect_id pins s) (\<lambda>r.
     bind_r (validate_worm r worm) (\<lambda>_.
       if w_status r = CONFIRMED then Inr ((), s)
       else if w_status r \<noteq> IN_FLIGHT \<and> w_status r \<noteq> ACCEPTED \<and> w_status r \<noteq> DISPATCHED_HOLD
       then Inl (effect_error ''WORM_EXACT_OBJECT_EFFECT_NOT_DISPATCHED'' False)
       else if w_writer_version_id r \<noteq> None \<and> w_writer_version_id r \<noteq> Some (aw_version_id worm)
       then Inl version_conflict
       else bind_r (write_row (r\<lparr>w_worm_version_id := Some (aw_version_id worm),
                w_worm_retention_until := Some (aw_retention_until worm), w_status := CONFIRMED\<rparr>))
         (\<lambda>t. Inr ((), t)))))"

definition HOLD_CODE :: regex where
  "HOLD_CODE = Seq (Cls ''AZ'') (Rep (Cls ''AZ09__'') 0 127)"

definition hold :: "js_string \<Rightarrow> worm_pins \<Rightarrow> js_string \<Rightarrow> (worm_storage, unit) op" where
  "hold effect_id pins code =
     (if \<not> matches HOLD_CODE code
      then fail_op (effect_error ''WORM_EXACT_OBJECT_EFFECT_HOLD_CODE_INVALID'' False)
      else transaction (\<lambda>s.
        bind_r (require_bound effect_id pins s) (\<lambda>r.
          if w_status r = CONFIRMED then Inr ((), s)
          else if w_status r = HOLD then
            if w_hold_code r \<noteq> Some code
            then Inl (effect_error ''WORM_EXACT_OBJECT_EFFECT_HOLD_CONFLICT'' False) else Inr ((), s)
          else bind_r (write_row (r\<lparr>w_status := HOLD, w_hold_code := Some code\<rparr>)) (\<lambda>t. Inr ((), t)))))"

record confirmed_worm =
  c_absence_inventory_digest :: js_string
  c_committed_at :: js_string
  c_digest :: js_string
  c_effect_id :: js_string
  c_key :: js_string
  c_pins :: worm_pins
  c_worm :: activation_worm

definition confirmed :: "js_string \<Rightarrow> worm_pins \<Rightarrow> (worm_storage, confirmed_worm) op" where
  "confirmed effect_id pins =
     bind_op (snapshot effect_id pins) (\<lambda>e. lift_op
       (case (s_absence_inventory_digest e, s_worm e) of
          (Some d, Some w) \<Rightarrow>
            if s_status e \<noteq> CONFIRMED
            then Inl (effect_error ''WORM_EXACT_OBJECT_EFFECT_PENDING'' True)
            else Inr \<lparr>c_absence_inventory_digest = d, c_committed_at = s_committed_at e,
                   c_digest = s_digest e, c_effect_id = s_effect_id e, c_key = s_key e,
                   c_pins = s_pins e, c_worm = w\<rparr>
        | _ \<Rightarrow> Inl (effect_error ''WORM_EXACT_OBJECT_EFFECT_PENDING'' True)))"

section \<open>ASCII patterns\<close>

text \<open>Texts that match a pattern of printable ASCII classes have the length SQLite measures.\<close>

fun printable_cls :: "string \<Rightarrow> bool" where
  "printable_cls (lo # hi # rest) \<longleftrightarrow> 0 < (of_char lo :: code_unit) \<and> (of_char hi :: code_unit) \<le> 0x7F \<and>
     printable_cls rest"
| "printable_cls _ \<longleftrightarrow> True"

fun printable :: "regex \<Rightarrow> bool" where
  "printable (Cls rs) \<longleftrightarrow> printable_cls rs"
| "printable (Lit s) \<longleftrightarrow> list_all (\<lambda>c. 0 < (of_char c :: code_unit) \<and> (of_char c :: code_unit) \<le> 0x7F) s"
| "printable (Seq r s) \<longleftrightarrow> printable r \<and> printable s"
| "printable (Alt r s) \<longleftrightarrow> printable r \<and> printable s"
| "printable (Rep r m n) \<longleftrightarrow> printable r"
| "printable (RepInf r m) \<longleftrightarrow> printable r"
| "printable _ \<longleftrightarrow> True"

definition visible :: "js_string \<Rightarrow> bool" where
  "visible s \<longleftrightarrow> (\<forall>c \<in> set s. 0 < c \<and> c \<le> 0x7F)"

lemma printable_cls: "printable_cls rs \<Longrightarrow> in_cls rs c \<Longrightarrow> 0 < c \<and> c \<le> 0x7F"
  by (induction rs rule: printable_cls.induct) (auto intro: less_le_trans order_trans)

lemma visible_pow: "(\<And>w. w \<in> L \<Longrightarrow> visible w) \<Longrightarrow> w \<in> pow L n \<Longrightarrow> visible w"
  by (induction n arbitrary: w) (auto simp: in_conc visible_def ball_Un)

lemma printable_visible: "printable r \<Longrightarrow> w \<in> lang r \<Longrightarrow> visible w"
proof (induction r arbitrary: w)
  case (Cls rs)
  then show ?case using printable_cls by (auto simp: visible_def)
next
  case (Lit s)
  then show ?case by (auto simp: visible_def js_def list_all_iff)
next
  case (Rep r m n)
  then show ?case using visible_pow [of "lang r"] by auto
next
  case (RepInf r m)
  then show ?case using visible_pow [of "lang r"] by auto
qed (auto simp: in_conc visible_def ball_Un)

lemma visible_ascii: "visible s \<Longrightarrow> ascii s"
  by (auto simp: visible_def ascii_def)

lemma visible_code_points: "visible s \<Longrightarrow> code_points s = map unat s"
  by (induction s) (auto simp: visible_def code_points_cases ascii_not_surrogate)

lemma sql_length_visible: "visible s \<Longrightarrow> sql_length s = length s"
proof -
  assume v: "visible s"
  then have "\<forall>p \<in> set (map unat s). p \<noteq> 0"
    by (auto simp: visible_def word_less_nat_alt)
  then have "takeWhile (\<lambda>p. p \<noteq> 0) (map unat s) = map unat s" by (simp add: takeWhile_eq_all_conv)
  then show ?thesis unfolding sql_length_def visible_code_points [OF v] by (simp only: length_map)
qed

lemma sql_length_matches: "printable r \<Longrightarrow> matches r s \<Longrightarrow> sql_length s = length s"
  by (auto simp: matches_iff_lang dest: printable_visible intro: sql_length_visible)

lemma printable_patterns [simp]:
  "printable DIGEST" "printable VERSION_SHAPE" "printable SERVICE_IDENTITY" "printable HOLD_CODE"
  "printable TIMESTAMP" "list_all printable EXACT_KEYS"
  by (simp_all add: DIGEST_def VERSION_SHAPE_def SERVICE_IDENTITY_def HOLD_CODE_def TIMESTAMP_def
      EXACT_KEYS_def OBSERVATION_KIND_def Let_def)

lemma VERSION_SHAPE_length: "matches VERSION_SHAPE w \<Longrightarrow> length w = 36"
  using matches_length [of VERSION_SHAPE 36 36 w] by (simp add: VERSION_SHAPE_def)

lemma SERVICE_IDENTITY_length: "matches SERVICE_IDENTITY w \<Longrightarrow> 89 \<le> length w \<and> length w \<le> 151"
  using matches_length [of SERVICE_IDENTITY 89 151 w] by (simp add: SERVICE_IDENTITY_def VERSION_SHAPE_def)

lemma HOLD_CODE_length: "matches HOLD_CODE w \<Longrightarrow> 1 \<le> length w \<and> length w \<le> 128"
  using matches_length [of HOLD_CODE 1 128 w] by (simp add: HOLD_CODE_def)

end
