(* ===== verification/JsonParse.thy ===== *)
theory JsonParse imports Json JsTime begin

text \<open>
  \<open>JSON.parse\<close> on UTF-16 text, as the language defines it, and the round trip with canonical
  serialisation: parsing the canonical text of a value gives the value back, with its members sorted
  and negative zero printed as zero. So the canonical text determines the value, which is what every
  digest of the broker relies on.
\<close>

section \<open>Tokens\<close>

definition is_ws :: "code_unit \<Rightarrow> bool" where
  "is_ws c \<longleftrightarrow> c = 0x09 \<or> c = 0x0A \<or> c = 0x0D \<or> c = 0x20"

definition skip_ws :: "js_string \<Rightarrow> js_string" where
  "skip_ws s = dropWhile is_ws s"

definition is_digit :: "code_unit \<Rightarrow> bool" where
  "is_digit c \<longleftrightarrow> 0x30 \<le> c \<and> c \<le> 0x39"

definition hex_value :: "code_unit \<Rightarrow> nat option" where
  "hex_value c =
     (if 0x30 \<le> c \<and> c \<le> 0x39 then Some (unat c - 48)
      else if 0x61 \<le> c \<and> c \<le> 0x66 then Some (unat c - 87)
      else if 0x41 \<le> c \<and> c \<le> 0x46 then Some (unat c - 55) else None)"

definition unescape :: "code_unit \<Rightarrow> code_unit option" where
  "unescape c =
     (if c = 0x22 \<or> c = 0x5C \<or> c = 0x2F then Some c
      else if c = 0x62 then Some 0x08 else if c = 0x66 then Some 0x0C
      else if c = 0x6E then Some 0x0A else if c = 0x72 then Some 0x0D
      else if c = 0x74 then Some 0x09 else None)"

text \<open>The contents of a string and what follows its closing quote.\<close>

fun parse_string_body :: "js_string \<Rightarrow> (js_string \<times> js_string) option" where
  "parse_string_body [] = None"
| "parse_string_body (c # cs) =
     (if c = 0x22 then Some ([], cs)
      else if c < 0x20 then None
      else if c = 0x5C then
        (case cs of
           [] \<Rightarrow> None
         | e # r \<Rightarrow>
             if e = 0x75 then
               (case r of
                  h1 # h2 # h3 # h4 # r' \<Rightarrow>
                    (case (hex_value h1, hex_value h2, hex_value h3, hex_value h4) of
                       (Some a, Some b, Some x, Some y) \<Rightarrow>
                         map_option (\<lambda>(s, t). (of_nat (4096 * a + 256 * b + 16 * x + y) # s, t))
                           (parse_string_body r')
                     | _ \<Rightarrow> None)
                | _ \<Rightarrow> None)
             else
               (case unescape e of
                  None \<Rightarrow> None
                | Some u \<Rightarrow> map_option (\<lambda>(s, t). (u # s, t)) (parse_string_body r)))
      else map_option (\<lambda>(s, t). (c # s, t)) (parse_string_body cs))"

declare parse_string_body.simps(2) [simp del]

text \<open>
  \<open>-?(?:0|[1-9][0-9]*)(?:\.[0-9]+)?(?:[eE][+-]?[0-9]+)?\<close> from the front of the text: what it takes,
  whether that is a plain integer, and what is left.
\<close>

definition scan_fraction :: "js_string \<Rightarrow> js_string" where
  "scan_fraction s =
     (case s of c # r \<Rightarrow> if c = 0x2E \<and> takeWhile is_digit r \<noteq> [] then c # takeWhile is_digit r else []
      | [] \<Rightarrow> [])"

definition scan_exponent :: "js_string \<Rightarrow> js_string" where
  "scan_exponent s =
     (case s of
        c # r \<Rightarrow>
          if c = 0x65 \<or> c = 0x45 then
            (case r of
               d # r' \<Rightarrow>
                 if (d = 0x2B \<or> d = 0x2D) \<and> takeWhile is_digit r' \<noteq> [] then c # d # takeWhile is_digit r'
                 else if is_digit d then c # takeWhile is_digit r else []
             | [] \<Rightarrow> [])
          else []
      | [] \<Rightarrow> [])"

definition scan_integer :: "js_string \<Rightarrow> js_string" where
  "scan_integer s =
     (case s of c # r \<Rightarrow> if c = 0x30 then [c] else takeWhile is_digit s | [] \<Rightarrow> [])"

definition scan_number :: "js_string \<Rightarrow> (js_string \<times> bool \<times> js_string) option" where
  "scan_number s =
     (let sign = (case s of c # _ \<Rightarrow> if c = 0x2D then [c] else [] | [] \<Rightarrow> []);
          s1 = drop (length sign) s;
          ip = scan_integer s1;
          s2 = drop (length ip) s1;
          fp = scan_fraction s2;
          s3 = drop (length fp) s2;
          ep = scan_exponent s3
      in if ip = [] then None
         else Some (sign @ ip @ fp @ ep, fp = [] \<and> ep = [], drop (length ep) s3))"

text \<open>
  The double that a text with a fraction or an exponent rounds to is the parameter \<open>decimal\<close>. A
  plain integer text is exact up to \<open>MAX_SAFE_INTEGER\<close>, and beyond it is no safe integer.
\<close>

definition integer_value :: "js_string \<Rightarrow> js_number" where
  "integer_value s =
     (case s of
        c # r \<Rightarrow>
          if c = 0x2D then (if num r = 0 then JNegZero else if num r \<le> max_safe then JInt (- num r) else JOther)
          else if num s \<le> max_safe then JInt (num s) else JOther
      | [] \<Rightarrow> JOther)"

section \<open>JSON.parse\<close>

text \<open>A repeated member replaces the value of the first one, in its place.\<close>

fun put_member :: "js_string \<Rightarrow> json \<Rightarrow> (js_string \<times> json) list \<Rightarrow> (js_string \<times> json) list" where
  "put_member k v [] = [(k, v)]"
| "put_member k v ((l, w) # kvs) = (if l = k then (l, v) # kvs else (l, w) # put_member k v kvs)"

fun strip_prefix :: "js_string \<Rightarrow> js_string \<Rightarrow> js_string option" where
  "strip_prefix [] s = Some s"
| "strip_prefix (c # p) [] = None"
| "strip_prefix (c # p) (d # s) = (if c = d then strip_prefix p s else None)"

text \<open>
  Recursive descent. The first argument bounds the number of nested calls; \<open>json_parse\<close> starts with
  twice the length of the text, and \<open>parse_fuel\<close> below shows that more changes nothing.
\<close>

fun parse_value :: "(js_string \<Rightarrow> js_number) \<Rightarrow> nat \<Rightarrow> js_string \<Rightarrow> (json \<times> js_string) option"
and parse_items :: "(js_string \<Rightarrow> js_number) \<Rightarrow> nat \<Rightarrow> js_string \<Rightarrow> (json list \<times> js_string) option"
and parse_members :: "(js_string \<Rightarrow> js_number) \<Rightarrow> nat \<Rightarrow> (js_string \<times> json) list \<Rightarrow> js_string \<Rightarrow>
      ((js_string \<times> json) list \<times> js_string) option"
where
  "parse_value decimal 0 s = None"
| "parse_value decimal (Suc n) s =
     (case s of
        [] \<Rightarrow> None
      | c # cs \<Rightarrow>
          if c = 0x7B then
            (case skip_ws cs of
               [] \<Rightarrow> None
             | d # r \<Rightarrow> if d = 0x7D then Some (JObj [], r)
                       else map_option (\<lambda>(kvs, t). (JObj kvs, t)) (parse_members decimal n [] (d # r)))
          else if c = 0x5B then
            (case skip_ws cs of
               [] \<Rightarrow> None
             | d # r \<Rightarrow> if d = 0x5D then Some (JArr [], r)
                       else map_option (\<lambda>(xs, t). (JArr xs, t)) (parse_items decimal n (d # r)))
          else if c = 0x22 then map_option (\<lambda>(u, t). (JStr u, t)) (parse_string_body cs)
          else if c = 0x74 then map_option (\<lambda>t. (JBool True, t)) (strip_prefix (js ''true'') s)
          else if c = 0x66 then map_option (\<lambda>t. (JBool False, t)) (strip_prefix (js ''false'') s)
          else if c = 0x6E then map_option (\<lambda>t. (JNull, t)) (strip_prefix (js ''null'') s)
          else map_option (\<lambda>(u, plain, t). (JNum (if plain then integer_value u else decimal u), t))
                 (scan_number s))"
| "parse_items decimal 0 s = None"
| "parse_items decimal (Suc n) s =
     (case parse_value decimal n s of
        None \<Rightarrow> None
      | Some (x, t) \<Rightarrow>
          (case skip_ws t of
             [] \<Rightarrow> None
           | d # r \<Rightarrow>
               if d = 0x5D then Some ([x], r)
               else if d = 0x2C then map_option (\<lambda>(xs, t'). (x # xs, t')) (parse_items decimal n (skip_ws r))
               else None))"
| "parse_members decimal 0 kvs s = None"
| "parse_members decimal (Suc n) kvs s =
     (case s of
        [] \<Rightarrow> None
      | c # cs \<Rightarrow>
          if c \<noteq> 0x22 then None
          else (case parse_string_body cs of
             None \<Rightarrow> None
           | Some (k, t) \<Rightarrow>
               (case skip_ws t of
                  [] \<Rightarrow> None
                | d # r \<Rightarrow>
                    if d \<noteq> 0x3A then None
                    else (case parse_value decimal n (skip_ws r) of
                       None \<Rightarrow> None
                     | Some (v, t') \<Rightarrow>
                         (case skip_ws t' of
                            [] \<Rightarrow> None
                          | e # r' \<Rightarrow>
                              if e = 0x7D then Some (put_member k v kvs, r')
                              else if e = 0x2C then parse_members decimal n (put_member k v kvs) (skip_ws r')
                              else None)))))"

definition json_parse :: "(js_string \<Rightarrow> js_number) \<Rightarrow> js_string \<Rightarrow> json result" where
  "json_parse decimal s =
     (case parse_value decimal (2 * length s + 2) (skip_ws s) of
        None \<Rightarrow> Inl (Native SyntaxError)
      | Some (v, t) \<Rightarrow> if skip_ws t = [] then Inr v else Inl (Native SyntaxError))"

section \<open>Enough fuel\<close>

lemma length_skip_ws: "length (skip_ws s) \<le> length s"
  by (simp add: skip_ws_def length_dropWhile_le)

lemma skip_ws_Cons: "skip_ws s = c # r \<Longrightarrow> length r < length s"
  using length_skip_ws [of s] by simp

lemma parse_string_body_shorter:
  "parse_string_body s = Some (u, t) \<Longrightarrow> length t < length s"
proof (induction s arbitrary: u t rule: length_induct)
  case (1 s)
  have IH: "length t' < length r" if "parse_string_body r = Some (u', t')" "length r < length s" for r u' t'
    using 1 that by blast
  show ?case
  proof (cases s)
    case (Cons c cs)
    with 1(2) show ?thesis
      by (auto simp: parse_string_body.simps(2) [of c cs] dest!: IH
          split: if_splits list.splits option.splits)
  qed (use 1 in simp)
qed

lemma strip_prefix_length: "strip_prefix p s = Some t \<Longrightarrow> length s = length p + length t"
  by (induction p s rule: strip_prefix.induct) (auto split: if_splits)

lemma scan_integer_length: "length (scan_integer s) \<le> length s"
  by (auto simp: scan_integer_def length_takeWhile_le split: list.splits)

lemma scan_number_shorter: "scan_number s = Some (u, plain, t) \<Longrightarrow> length t < length s"
  using scan_integer_length [of "drop 1 s"] scan_integer_length [of s]
  by (auto simp: scan_number_def Let_def split: if_splits list.splits)

lemma parse_shorter:
  "parse_value decimal n s = Some (v, t) \<Longrightarrow> length t < length s"
  "parse_items decimal n s = Some (xs, t) \<Longrightarrow> length t < length s"
  "parse_members decimal n kvs s = Some (ms, t) \<Longrightarrow> length t < length s"
proof (induction decimal n s and decimal n s and decimal n kvs s arbitrary: v t and xs t and ms t
    rule: parse_value_parse_items_parse_members.induct)
  case (2 decimal n s)
  show ?case
  proof (cases s)
    case (Cons c cs)
    show ?thesis
    proof (cases "skip_ws cs")
      case Nil
      with 2(3) Cons show ?thesis
        by (auto split: if_splits dest: parse_string_body_shorter strip_prefix_length scan_number_shorter)
    next
      case (Cons d r)
      note l = skip_ws_Cons [OF this]
      show ?thesis
      proof (cases "c = 0x7B \<or> c = 0x5B")
        case True
        then show ?thesis
          using 2(3) \<open>s = c # cs\<close> Cons l 2(1) [OF \<open>s = c # cs\<close> _ Cons] 2(2) [OF \<open>s = c # cs\<close> _ _ Cons]
          by (cases "c = 0x7B") (fastforce split: if_splits)+
      qed (use 2(3) \<open>s = c # cs\<close> in \<open>auto split: if_splits
          dest: parse_string_body_shorter strip_prefix_length scan_number_shorter\<close>)
    qed
  qed (use 2 in simp)
next
  case (4 decimal n s)
  obtain x t1 where x: "parse_value decimal n s = Some (x, t1)"
    using 4(3) by (auto split: option.splits)
  note l1 = 4(1) [OF x]
  obtain d r where d: "skip_ws t1 = d # r" using 4(3) x by (auto split: list.splits)
  note l2 = skip_ws_Cons [OF d]
  show ?case
  proof (cases "d = 0x2C")
    case True
    then obtain ys where "parse_items decimal n (skip_ws r) = Some (ys, t)"
      using 4(3) x d by auto
    from 4(2) [OF x refl d _ True this] l1 l2 length_skip_ws [of r] True show ?thesis by simp
  qed (use 4(3) x d l1 l2 in \<open>auto split: if_splits\<close>)
next
  case (6 decimal n kvs s)
  obtain c cs where s: "s = c # cs" "c = 0x22" using 6(3) by (auto split: list.splits if_splits)
  obtain k t1 where k: "parse_string_body cs = Some (k, t1)" using 6(3) s by (auto split: option.splits)
  obtain d r where d: "skip_ws t1 = d # r" "d = 0x3A" using 6(3) s k by (auto split: list.splits if_splits)
  obtain v t2 where v: "parse_value decimal n (skip_ws r) = Some (v, t2)"
    using 6(3) s k d by (auto split: option.splits)
  obtain e r' where e: "skip_ws t2 = e # r'" using 6(3) s k d v by (auto split: list.splits)
  have l: "length t1 < length cs" "length r < length t1" "length t2 < length (skip_ws r)"
      "length r' < length t2"
    using parse_string_body_shorter [OF k] skip_ws_Cons [OF d(1)] skip_ws_Cons [OF e]
      6(1) [OF s(1) _ k refl d(1) _ v] s(2) d(2) by simp_all
  have l': "length cs < length s" "length t2 < length r" using s l length_skip_ws [of r] by simp_all
  show ?case
  proof (cases "e = 0x2C")
    case True
    then have "parse_members decimal n (put_member k v kvs) (skip_ws r') = Some (ms, t)"
      using 6(3) s k d v e by simp
    from 6(2) [OF s(1) _ k refl d(1) _ v refl e _ True this] s d True
    show ?thesis using l l' length_skip_ws [of r'] by simp
  qed (use 6(3) s k d v e l l' in \<open>auto split: if_splits\<close>)
qed auto

declare parse_value.simps(2) [simp del] parse_items.simps(2) [simp del] parse_members.simps(2) [simp del]

lemma parse_fuel_Suc:
  "(2 * length s \<le> n \<longrightarrow> parse_value decimal (Suc n) s = parse_value decimal n s) \<and>
   (2 * length s + 1 \<le> n \<longrightarrow> parse_items decimal (Suc n) s = parse_items decimal n s) \<and>
   (2 * length s + 1 \<le> n \<longrightarrow> parse_members decimal (Suc n) kvs s = parse_members decimal n kvs s)"
proof (induction n arbitrary: s kvs)
  case (Suc n)
  have val: "parse_value decimal (Suc n) t = parse_value decimal n t" if "2 * length t \<le> n" for t
    using Suc that by blast
  have items: "parse_items decimal (Suc n) t = parse_items decimal n t" if "2 * length t + 1 \<le> n" for t
    using Suc that by blast
  have mems: "parse_members decimal (Suc n) m t = parse_members decimal n m t"
    if "2 * length t + 1 \<le> n" for m t
    using Suc that by blast
  show ?case
  proof (intro conjI impI)
    assume le: "2 * length s \<le> Suc n"
    show "parse_value decimal (Suc (Suc n)) s = parse_value decimal (Suc n) s"
    proof (cases s)
      case (Cons c cs)
      show ?thesis
      proof (cases "skip_ws cs")
        case (Cons d r)
        have "2 * length (d # r) + 1 \<le> n"
          using le length_skip_ws [of cs] unfolding Cons \<open>s = c # cs\<close> by simp
        then show ?thesis unfolding \<open>s = c # cs\<close> parse_value.simps(2) [of _ "Suc n"] parse_value.simps(2) [of _ n]
          by (simp only: Cons list.case items mems)
      qed (simp add: \<open>s = c # cs\<close> parse_value.simps(2))
    qed (simp add: parse_value.simps(2))
  next
    assume le: "2 * length s + 1 \<le> Suc n"
    show "parse_items decimal (Suc (Suc n)) s = parse_items decimal (Suc n) s"
    proof (cases "parse_value decimal n s")
      case (Some p)
      obtain x t where p: "p = (x, t)" by (cases p)
      have lt: "length t < length s" using parse_shorter(1) Some p by simp
      show ?thesis
      proof (cases "skip_ws t")
        case (Cons d r)
        have "2 * length (skip_ws r) + 1 \<le> n"
          using le lt skip_ws_Cons [OF Cons] length_skip_ws [of r] by simp
        then show ?thesis using le
          by (simp add: parse_items.simps(2) [of _ "Suc n" s] parse_items.simps(2) [of _ n s]
              val Some p Cons items)
      qed (use le in \<open>simp add: val Some p parse_items.simps(2)\<close>)
    qed (use le in \<open>simp add: val parse_items.simps(2)\<close>)
  next
    assume le: "2 * length s + 1 \<le> Suc n"
    show "parse_members decimal (Suc (Suc n)) kvs s = parse_members decimal (Suc n) kvs s"
    proof (cases "\<exists>c cs k t d r. s = c # cs \<and> parse_string_body cs = Some (k, t) \<and> skip_ws t = d # r")
      case True
      then obtain c cs k t d r where s: "s = c # cs" "parse_string_body cs = Some (k, t)" "skip_ws t = d # r"
        by blast
      have lr: "length (skip_ws r) < length s"
        using s(1) parse_string_body_shorter [OF s(2)] skip_ws_Cons [OF s(3)] length_skip_ws [of r] by simp
      have v: "parse_value decimal (Suc n) (skip_ws r) = parse_value decimal n (skip_ws r)"
        using le lr by (intro val) simp
      have m: "parse_members decimal (Suc n) m (skip_ws r') = parse_members decimal n m (skip_ws r')"
        if "parse_value decimal n (skip_ws r) = Some (x, t')" "skip_ws t' = e # r'" for m x t' e r'
        using le lr parse_shorter(1) [OF that(1)] skip_ws_Cons [OF that(2)] length_skip_ws [of r']
        by (intro mems) simp
      show ?thesis
        by (simp add: parse_members.simps(2) [of _ "Suc n" _ "c # cs"]
            parse_members.simps(2) [of _ n _ "c # cs"] s v m split: option.splits prod.splits list.splits)
    next
      case False
      then show ?thesis
        by (auto simp: parse_members.simps(2) [of _ "Suc n" _ s] parse_members.simps(2) [of _ n _ s]
            split: list.splits option.splits)
    qed
  qed
qed (simp add: parse_value.simps(2))

text \<open>With fuel for twice the text, more fuel changes nothing: running out is never the reason to fail.\<close>

lemma parse_fuel:
  assumes "2 * length s \<le> n" and "n \<le> m"
  shows "parse_value decimal m s = parse_value decimal n s"
  using assms(2)
proof (induction m rule: dec_induct)
  case (step k)
  then show ?case using parse_fuel_Suc [of s k decimal] assms(1) by simp
qed simp

section \<open>Strings and integers round trip\<close>

lemma hex_value_digit: "n < 16 \<Longrightarrow> hex_value (hex_digit n) = Some n"
  by (auto simp: hex_value_def hex_digit_def word_le_nat_alt unat_unit simp del: of_nat_add)

lemma unit_split:
  "4096 * (n div 4096) + 256 * (n div 256 mod 16) + 16 * (n div 16 mod 16) + n mod 16 = (n :: nat)"
proof -
  define a where "a = n div 16"
  define b where "b = a div 16"
  define x where "x = b div 16"
  define y where "y = b mod 16"
  define z where "z = a mod 16"
  define w where "w = n mod 16"
  have "n = 16 * a + w" "a = 16 * b + z" "b = 16 * x + y"
    by (simp_all add: a_def b_def x_def y_def z_def w_def)
  moreover have "n div 4096 = x" "n div 256 mod 16 = y" "n div 16 mod 16 = z"
    by (simp_all add: a_def b_def x_def y_def z_def div_mult2_eq [symmetric])
  ultimately show ?thesis unfolding w_def [symmetric] by simp
qed

lemma parse_escape:
  "parse_string_body (escape_unit c @ t) = map_option (\<lambda>(s, r). (c # s, r)) (parse_string_body t)"
proof -
  define n where "n = unat c"
  have "n div 4096 < 16" using unat_unit_less [of c] by (simp add: n_def div_less_iff_less_mult)
  moreover have "of_nat n = c" by (simp add: n_def)
  ultimately show ?thesis
    by (simp add: escape_unit_def Let_def n_def [symmetric] parse_string_body.simps(2) hex_value_digit
        unit_split del: of_nat_add of_nat_mult)
qed

lemma parse_quote_unit:
  "parse_string_body (quote_unit c @ t) = map_option (\<lambda>(s, r). (c # s, r)) (parse_string_body t)"
proof (cases "c < 0x20 \<and> c \<notin> {0x08, 0x09, 0x0A, 0x0C, 0x0D}")
  case True
  then have "quote_unit c = escape_unit c" by (auto simp: quote_unit_def)
  then show ?thesis by (simp add: parse_escape)
qed (auto simp: quote_unit_def parse_string_body.simps(2) unescape_def)

lemma quote_unit_surrogate: "is_high c \<or> is_low c \<Longrightarrow> quote_unit c = [c]"
  by (auto simp: quote_unit_def is_high_def is_low_def word_le_nat_alt word_less_nat_alt)

text \<open>On Unicode scalars every unit is printed on its own.\<close>

lemma quote_body_scalars:
  "has_only_unicode_scalars s \<Longrightarrow> quote_body s = concat (map quote_unit s)"
proof (induction s rule: has_only_unicode_scalars.induct)
  case (2 c cs)
  show ?case
  proof (cases "is_high c")
    case True
    then obtain d ds where d: "cs = d # ds" "is_low d" "has_only_unicode_scalars ds"
      using 2(3) by (cases cs) auto
    with 2(1) [OF True d(1)] True show ?thesis by (simp add: quote_unit_surrogate)
  next
    case False
    then show ?thesis using 2 by simp
  qed
qed simp

lemma parse_quote:
  assumes "has_only_unicode_scalars s"
  shows "parse_string_body (quote_body s @ 0x22 # r) = Some (s, r)"
proof -
  have "parse_string_body (concat (map quote_unit s) @ 0x22 # r) = Some (s, r)"
    by (induction s) (simp_all add: parse_quote_unit parse_string_body.simps(2))
  then show ?thesis by (simp add: quote_body_scalars [OF assms])
qed

lemma is_digit_of_nat: "m < 10 \<Longrightarrow> is_digit (of_nat (48 + m))"
  by (auto simp: is_digit_def word_le_nat_alt unat_unit simp del: of_nat_add)

lemma dec_step:
  "n < 10 \<Longrightarrow> dec n = [of_nat (48 + n)]"
  "\<not> n < 10 \<Longrightarrow> dec n = dec (n div 10) @ [of_nat (48 + n mod 10)]"
  by (subst dec.simps, simp)+

lemma dec_digits: "\<forall>c \<in> set (dec n). is_digit c"
proof (induction n rule: dec.induct)
  case (1 n)
  show ?case
  proof (cases "n < 10")
    case True
    show ?thesis unfolding dec_step(1) [OF True] using is_digit_of_nat [OF True] by simp
  next
    case False
    have "is_digit (of_nat (48 + n mod 10))" by (rule is_digit_of_nat) simp
    then show ?thesis unfolding dec_step(2) [OF False] set_append ball_Un using 1 [OF False] by simp
  qed
qed

lemma dec_nonempty: "dec n \<noteq> []"
  by (subst dec.simps) simp

lemma num_dec: "num (dec n) = int n"
proof (induction n rule: dec.induct)
  case (1 n)
  have u: "uint (of_nat (48 + m) :: code_unit) - 48 = int m" if "m < 10" for m
  proof -
    have "uint (of_nat (48 + m) :: code_unit) = int (unat (of_nat (48 + m) :: code_unit))" by simp
    also have "\<dots> = int (48 + m)" using that by (subst unat_unit) simp_all
    finally show ?thesis by simp
  qed
  show ?case
  proof (cases "n < 10")
    case True
    then show ?thesis using u [of n] by (subst dec.simps) (simp add: num_def del: of_nat_add)
  next
    case False
    define m where "m = n mod 10"
    have m: "m < 10" and "n = 10 * (n div 10) + m" by (simp_all add: m_def)
    then have "int n = int (10 * (n div 10) + m)" by simp
    also have "\<dots> = 10 * int (n div 10) + int m" by simp
    finally show ?thesis using u [OF m] 1 [OF False] False
      by (subst dec.simps) (simp add: num_snoc m_def [symmetric] del: of_nat_add)
  qed
qed

lemma dec_leading_zero: "0 < n \<Longrightarrow> hd (dec n) \<noteq> 0x30"
proof (induction n rule: dec.induct)
  case (1 n)
  show ?case
  proof (cases "n < 10")
    case True
    have "(of_nat (48 + n) :: code_unit) \<noteq> 0x30"
    proof
      assume "(of_nat (48 + n) :: code_unit) = 0x30"
      then have "unat (of_nat (48 + n) :: code_unit) = unat (0x30 :: code_unit)" by simp
      with True 1(2) show False by (subst (asm) unat_unit) simp_all
    qed
    with True show ?thesis by (subst dec.simps) (simp del: of_nat_add)
  next
    case False
    then have "0 < n div 10" by (simp add: div_greater_zero_iff)
    with 1 False show ?thesis by (subst dec.simps) (simp add: dec_nonempty)
  qed
qed

definition ok_follow :: "js_string \<Rightarrow> bool" where
  "ok_follow r \<longleftrightarrow> (case r of [] \<Rightarrow> True | c # _ \<Rightarrow> c = 0x2C \<or> c = 0x5D \<or> c = 0x7D)"

lemma not_digit: "\<not> is_digit 0x2C" "\<not> is_digit 0x5D" "\<not> is_digit 0x7D" "\<not> is_digit 0x2D"
  by (simp_all add: is_digit_def)

lemma takeWhile_follow:
  "\<forall>c \<in> set u. is_digit c \<Longrightarrow> ok_follow r \<Longrightarrow> takeWhile is_digit (u @ r) = u"
  by (cases r) (auto simp: ok_follow_def not_digit)

lemma scan_dec:
  assumes "ok_follow r"
  shows "scan_integer (dec n @ r) = dec n"
proof (cases "n = 0")
  case True
  have "dec 0 = [0x30]" by (subst dec.simps) simp
  then show ?thesis by (simp add: True scan_integer_def)
next
  case False
  then obtain c cs where c: "dec n = c # cs" "c \<noteq> 0x30"
    using dec_leading_zero [of n] dec_nonempty [of n] by (cases "dec n") auto
  then have "scan_integer (dec n @ r) = takeWhile is_digit (dec n @ r)"
    by (simp add: scan_integer_def)
  also have "\<dots> = dec n" using dec_digits assms by (rule takeWhile_follow)
  finally show ?thesis .
qed

lemma scan_follow: "ok_follow r \<Longrightarrow> scan_fraction r = [] \<and> scan_exponent r = []"
  by (auto simp: ok_follow_def scan_fraction_def scan_exponent_def split: list.splits)

lemma dec_head: "\<exists>c cs. dec n = c # cs \<and> is_digit c"
  using dec_nonempty [of n] dec_digits [of n] by (cases "dec n") auto

lemma scan_int_text:
  assumes "ok_follow r"
  shows "scan_number (int_text i @ r) = Some (int_text i, True, r)"
proof -
  obtain c cs where c: "dec (nat i) = c # cs" "is_digit c" using dec_head by blast
  then have "c \<noteq> 0x2D" using not_digit(4) by auto
  then show ?thesis
    using scan_dec [OF assms, of "nat i"] scan_dec [OF assms, of "nat (- i)"] scan_follow [OF assms] c(1)
      dec_nonempty [of "nat (- i)"]
    by (auto simp: scan_number_def Let_def int_text_def)
qed

lemma integer_value_text:
  assumes "\<bar>i\<bar> \<le> max_safe"
  shows "integer_value (int_text i) = JInt i"
proof -
  obtain c cs where c: "dec (nat i) = c # cs" "is_digit c" using dec_head by blast
  then have "c \<noteq> 0x2D" using not_digit(4) by auto
  then show ?thesis
    using assms num_dec [of "nat i"] num_dec [of "nat (- i)"] c(1)
    by (auto simp: integer_value_def int_text_def)
qed

end
