(* ===== verification/Canonical.thy ===== *)
theory Canonical imports JsonParse begin

text \<open>
  What canonical JSON is worth: the text of \<open>canonicalJson\<close> parses back to the value it was made
  from, up to the order of members and the sign of zero. Two values with one canonical text are
  therefore the same value, and the digests taken of canonical bytes bind every field.
\<close>

section \<open>Normal form\<close>

primrec normalise :: "json \<Rightarrow> json" where
  "normalise JUndef = JUndef"
| "normalise JNull = JNull"
| "normalise (JBool b) = JBool b"
| "normalise (JNum n) = JNum (if n = JNegZero then JInt 0 else n)"
| "normalise (JStr s) = JStr s"
| "normalise (JArr xs) = JArr (map normalise xs)"
| "normalise (JObj kvs) = JObj (sort_key fst (map (map_prod id normalise) kvs))"

lemma sort_key_map_prod:
  fixes f :: "'a \<Rightarrow> 'b" and kvs :: "(js_string \<times> 'a) list"
  shows "sort_key fst (map (map_prod id f) kvs) = map (map_prod id f) (sort_key fst kvs)"
proof -
  have "insort_key fst (map_prod id f x) (map (map_prod id f) ys) = map (map_prod id f) (insort_key fst x ys)"
    for x and ys :: "(js_string \<times> 'a) list"
    by (induction ys) (auto simp: map_prod_def split: prod.splits)
  then show ?thesis by (induction kvs) simp_all
qed

lemma well_formed_JObj:
  "well_formed (JObj kvs) \<longleftrightarrow> distinct (map fst kvs) \<and> (\<forall>(k, v) \<in> set kvs. well_formed v)"
  by (force simp: list_all_iff)

lemma lookup_normalise:
  assumes "distinct (map fst kvs)"
  shows "json_get (normalise (JObj kvs)) k = normalise (json_get (JObj kvs) k)"
proof -
  have "map_of (sort_key fst kvs) = map_of kvs"
    using assms by (intro map_of_inject_set [THEN iffD2]) (auto simp: distinct_map)
  then show ?thesis
    unfolding json_get_def lookup_def normalise.simps sort_key_map_prod
    by (auto simp: map_prod_def map_of_map split: option.splits)
qed

section \<open>Parsing the canonical text\<close>

definition parses :: "(js_string \<Rightarrow> js_number) \<Rightarrow> js_string \<Rightarrow> json \<Rightarrow> bool" where
  "parses decimal t v \<longleftrightarrow>
     (\<exists>c u. t = c # u \<and> \<not> is_ws c \<and> c \<noteq> 0x5D \<and> c \<noteq> 0x7D) \<and>
     (\<forall>r. ok_follow r \<longrightarrow> (\<exists>n0. \<forall>n \<ge> n0. parse_value decimal n (t @ r) = Some (v, r)))"

lemma parsesD:
  assumes "parses decimal t v" and "ok_follow r"
  shows "\<exists>n0. \<forall>n \<ge> n0. parse_value decimal n (t @ r) = Some (v, r)"
  using assms unfolding parses_def by blast

lemma parses_skip: "parses decimal t v \<Longrightarrow> skip_ws (t @ r) = t @ r"
  by (auto simp: parses_def skip_ws_def)

lemma strip_prefix_append: "strip_prefix p (p @ r) = Some r"
  by (induction p) simp_all

lemma skip_follow: "c = 0x2C \<or> c = 0x5D \<or> c = 0x7D \<or> c = 0x3A \<Longrightarrow> skip_ws (c # r) = c # r"
  by (auto simp: skip_ws_def is_ws_def)

lemma parsesI:
  assumes "t = c # u" and "\<not> is_ws c \<and> c \<noteq> 0x5D \<and> c \<noteq> 0x7D"
    and "\<And>r n. ok_follow r \<Longrightarrow> parse_value decimal (Suc n) (t @ r) = Some (v, r)"
  shows "parses decimal t v"
proof -
  have "\<exists>n0. \<forall>n \<ge> n0. parse_value decimal n (t @ r) = Some (v, r)" if "ok_follow r" for r
  proof (intro exI [of _ 1] allI impI)
    fix n :: nat
    assume "1 \<le> n"
    then show "parse_value decimal n (t @ r) = Some (v, r)" using assms(3) [OF that] by (cases n) auto
  qed
  with assms(1,2) show ?thesis by (auto simp: parses_def)
qed

lemma parses_words:
  "parses decimal (js ''null'') JNull" "parses decimal (js ''true'') (JBool True)"
  "parses decimal (js ''false'') (JBool False)"
proof -
  have cons: "js ''null'' = 0x6E # js ''ull''" "js ''true'' = 0x74 # js ''rue''"
    "js ''false'' = 0x66 # js ''alse''"
    by (simp_all add: js_def)
  note s = strip_prefix_append [of "js ''null''"] strip_prefix_append [of "js ''true''"]
    strip_prefix_append [of "js ''false''"]
  show "parses decimal (js ''null'') JNull" "parses decimal (js ''true'') (JBool True)"
    "parses decimal (js ''false'') (JBool False)"
    by (rule parsesI [OF cons(1)] parsesI [OF cons(2)] parsesI [OF cons(3)],
        simp add: is_ws_def, use s in \<open>simp add: parse_value.simps(2) cons\<close>)+
qed

lemma parses_string:
  assumes "has_only_unicode_scalars s"
  shows "parses decimal (json_quote s) (JStr s)"
proof (rule parsesI)
  show "json_quote s = 0x22 # quote_body s @ [0x22]" by (simp add: json_quote_def)
qed (simp_all add: is_ws_def json_quote_def parse_value.simps(2) parse_quote [OF assms])

lemma int_text_head: "\<exists>c u. int_text i = c # u \<and> (is_digit c \<or> c = 0x2D)"
  using dec_head [of "nat i"] by (auto simp: int_text_def)

lemma digit_not_special:
  "is_digit c \<or> c = 0x2D \<Longrightarrow> \<not> is_ws c \<and> c \<noteq> 0x5D \<and> c \<noteq> 0x7D \<and> c \<noteq> 0x7B \<and> c \<noteq> 0x5B \<and> c \<noteq> 0x22 \<and>
     c \<noteq> 0x74 \<and> c \<noteq> 0x66 \<and> c \<noteq> 0x6E"
  by (auto simp: is_digit_def is_ws_def word_le_nat_alt)

lemma parses_int:
  assumes "\<bar>i\<bar> \<le> max_safe"
  shows "parses decimal (int_text i) (JNum (JInt i))"
proof -
  obtain c u where c: "int_text i = c # u" "is_digit c \<or> c = 0x2D" using int_text_head by blast
  note d = digit_not_special [OF c(2)]
  show ?thesis
  proof (rule parsesI [OF c(1)])
    fix r n
    assume "ok_follow r"
    from scan_int_text [OF this, of i] integer_value_text [OF assms] c(1) d
    show "parse_value decimal (Suc n) (int_text i @ r) = Some (JNum (JInt i), r)"
      by (simp add: parse_value.simps(2))
  qed (use d in simp)
qed

lemma parse_items_join:
  assumes "list_all2 (parses decimal) ts vs" and "ts \<noteq> []"
  shows "\<exists>n0. \<forall>n \<ge> n0. parse_items decimal n (join [0x2C] ts @ 0x5D # r) = Some (vs, r)"
  using assms
proof (induction ts vs rule: list_all2_induct)
  case (Cons t ts v vs)
  show ?case
  proof (cases ts)
    case Nil
    with Cons(2) have vs: "vs = []" by simp
    have follow: "ok_follow (0x5D # r)" by (simp add: ok_follow_def)
    obtain n0 where n0: "\<And>n. n0 \<le> n \<Longrightarrow> parse_value decimal n (t @ 0x5D # r) = Some (v, 0x5D # r)"
      using parsesD [OF Cons(1) follow] by blast
    show ?thesis
    proof (intro exI [of _ "Suc n0"] allI impI)
      fix n
      assume "Suc n0 \<le> n"
      then obtain m where "n = Suc m" "n0 \<le> m" by (cases n) auto
      then show "parse_items decimal n (join [0x2C] (t # ts) @ 0x5D # r) = Some (v # vs, r)"
        using n0 by (simp add: Nil vs parse_items.simps(2) skip_follow)
    qed
  next
    case (Cons u us)
    obtain n1 where n1: "\<And>n. n1 \<le> n \<Longrightarrow>
        parse_items decimal n (join [0x2C] ts @ 0x5D # r) = Some (vs, r)"
      using \<open>ts \<noteq> [] \<Longrightarrow> _\<close> Cons by blast
    define rest where "rest = 0x2C # join [0x2C] ts @ 0x5D # r"
    have follow: "ok_follow rest" by (simp add: ok_follow_def rest_def)
    obtain n0 where n0: "\<And>n. n0 \<le> n \<Longrightarrow> parse_value decimal n (t @ rest) = Some (v, rest)"
      using parsesD [OF \<open>parses decimal t v\<close> follow] by blast
    have "skip_ws (join [0x2C] ts @ 0x5D # r) = join [0x2C] ts @ 0x5D # r"
    proof -
      obtain w where "parses decimal u w" using \<open>list_all2 _ ts vs\<close> Cons by (cases vs) auto
      from parses_skip [OF this] show ?thesis by (cases us) (simp_all add: Cons)
    qed
    note skip = this
    have whole: "join [0x2C] (t # ts) @ 0x5D # r = t @ rest" by (simp add: Cons rest_def)
    show ?thesis
    proof (intro exI [of _ "Suc (max n0 n1)"] allI impI)
      fix n
      assume "Suc (max n0 n1) \<le> n"
      then obtain m where m: "n = Suc m" "n0 \<le> m" "n1 \<le> m" by (cases n) auto
      show "parse_items decimal n (join [0x2C] (t # ts) @ 0x5D # r) = Some (v # vs, r)"
        unfolding whole m(1) parse_items.simps(2) n0 [OF m(2)]
        by (simp add: rest_def skip_follow skip n1 [OF m(3)])
    qed
  qed
qed simp

lemma put_member_fresh: "k \<notin> set (map fst kvs) \<Longrightarrow> put_member k v kvs = kvs @ [(k, v)]"
  by (induction k v kvs rule: put_member.induct) auto

definition member_text :: "js_string \<Rightarrow> js_string \<Rightarrow> js_string" where
  "member_text k t = json_quote k @ 0x3A # t"

lemma parse_members_join:
  assumes "list_all2 (\<lambda>(k, t) (l, v). l = k \<and> has_only_unicode_scalars k \<and> parses decimal t v) kts kvs"
    and "kts \<noteq> []" and "distinct (map fst (acc @ kvs))"
  shows "\<exists>n0. \<forall>n \<ge> n0. parse_members decimal n acc
    (join [0x2C] (map (\<lambda>(k, t). member_text k t) kts) @ 0x7D # r) = Some (acc @ kvs, r)"
  using assms
proof (induction kts kvs arbitrary: acc rule: list_all2_induct)
  case (Cons kt kts kv kvs)
  obtain k t v where kt: "kt = (k, t)" "kv = (k, v)" and k: "has_only_unicode_scalars k"
    and t: "parses decimal t v"
    using Cons(1) by (cases kt; cases kv) auto
  define tail where "tail = (if kts = [] then 0x7D # r
      else 0x2C # join [0x2C] (map (\<lambda>(k, t). member_text k t) kts) @ 0x7D # r)"
  have whole: "join [0x2C] (map (\<lambda>(k, t). member_text k t) (kt # kts)) @ 0x7D # r =
      0x22 # quote_body k @ 0x22 # 0x3A # t @ tail"
    by (cases kts) (simp_all add: kt tail_def, simp_all add: member_text_def json_quote_def)
  have follow: "ok_follow tail" by (simp add: ok_follow_def tail_def)
  obtain n0 where n0: "\<And>n. n0 \<le> n \<Longrightarrow> parse_value decimal n (t @ tail) = Some (v, tail)"
    using parsesD [OF t follow] by blast
  have put: "put_member k v acc = acc @ [(k, v)]"
    using Cons(5) kt by (intro put_member_fresh) auto
  have step: "parse_members decimal (Suc m) acc (0x22 # quote_body k @ 0x22 # 0x3A # t @ tail) =
     (case tail of e # r' \<Rightarrow> if e = 0x7D then Some (acc @ [(k, v)], r')
        else parse_members decimal m (acc @ [(k, v)]) (skip_ws r'))" if "n0 \<le> m" for m
    using that
    by (simp add: parse_members.simps(2) parse_quote [OF k] skip_follow parses_skip [OF t] n0 put)
      (simp add: tail_def skip_follow put)
  show ?case
  proof (cases kts)
    case Nil
    with Cons(2) have "kvs = []" by simp
    show ?thesis unfolding whole
    proof (intro exI [of _ "Suc n0"] allI impI)
      fix n
      assume "Suc n0 \<le> n"
      then obtain m where "n = Suc m" "n0 \<le> m" by (cases n) auto
      with step [of m] Nil \<open>kvs = []\<close> kt
      show "parse_members decimal n acc (0x22 # quote_body k @ 0x22 # 0x3A # t @ tail) =
          Some (acc @ kv # kvs, r)"
        by (simp add: tail_def)
    qed
  next
    case (Cons kt' kts')
    have "distinct (map fst ((acc @ [(k, v)]) @ kvs))" using Cons.prems(2) kt by simp
    then obtain n1 where n1: "\<And>n. n1 \<le> n \<Longrightarrow> parse_members decimal n (acc @ [(k, v)])
        (join [0x2C] (map (\<lambda>(k, t). member_text k t) kts) @ 0x7D # r) = Some ((acc @ [(k, v)]) @ kvs, r)"
      using Cons.IH [of "acc @ [(k, v)]"] Cons by blast
    have skip: "skip_ws (join [0x2C] (map (\<lambda>(k, t). member_text k t) kts) @ 0x7D # r) =
        join [0x2C] (map (\<lambda>(k, t). member_text k t) kts) @ 0x7D # r"
      by (cases kt'; cases kts') (simp_all add: Cons member_text_def json_quote_def skip_ws_def is_ws_def)
    define J where "J = join [0x2C] (map (\<lambda>(k, t). member_text k t) kts) @ 0x7D # r"
    have tail: "tail = 0x2C # J" by (simp add: tail_def J_def Cons)
    show ?thesis unfolding whole
    proof (intro exI [of _ "Suc (max n0 n1)"] allI impI)
      fix n
      assume "Suc (max n0 n1) \<le> n"
      then obtain m where m: "n = Suc m" "n0 \<le> m" "n1 \<le> m" by (cases n) auto
      show "parse_members decimal n acc (0x22 # quote_body k @ 0x22 # 0x3A # t @ tail) =
          Some (acc @ kv # kvs, r)"
        unfolding m(1) step [OF m(2)] unfolding tail
        using n1 [OF m(3)] kt by (simp add: skip [folded J_def] J_def [symmetric])
    qed
  qed
qed simp

section \<open>The round trip\<close>

lemma join_eq_Nil: "list_all (\<lambda>t. t \<noteq> []) ts \<Longrightarrow> join sep ts = [] \<longleftrightarrow> ts = []"
  by (induction sep ts rule: join.induct) auto

lemma parses_nonempty: "parses decimal t v \<Longrightarrow> t \<noteq> []"
  by (auto simp: parses_def)

lemma parse_value_Suc: "(\<And>n. n0 \<le> n \<Longrightarrow> f (Suc n) = x) \<Longrightarrow> \<exists>n0. \<forall>n \<ge> n0. f n = x"
  by (metis Suc_le_D Suc_le_mono)

lemma join_head:
  assumes "list_all2 (parses decimal) ts vs" and "ts \<noteq> []"
  shows "\<exists>c u. join [0x2C] ts = c # u \<and> \<not> is_ws c \<and> c \<noteq> 0x5D \<and> c \<noteq> 0x7D"
  using assms by (cases ts; cases vs; cases "tl ts") (auto simp: parses_def)

lemma parses_array:
  assumes "list_all2 (parses decimal) ts vs"
  shows "parses decimal (0x5B # join [0x2C] ts @ [0x5D]) (JArr vs)"
proof -
  have "\<exists>n0. \<forall>n \<ge> n0. parse_value decimal n (0x5B # join [0x2C] ts @ 0x5D # r) = Some (JArr vs, r)" for r
  proof (cases "ts = []")
    case True
    with assms have "vs = []" by simp
    with True show ?thesis
      by (intro parse_value_Suc [of 0]) (simp add: parse_value.simps(2) skip_follow)
  next
    case False
    obtain n1 where n1: "\<And>n. n1 \<le> n \<Longrightarrow> parse_items decimal n (join [0x2C] ts @ 0x5D # r) = Some (vs, r)"
      using parse_items_join [OF assms False] by blast
    obtain c u where c: "join [0x2C] ts = c # u" "\<not> is_ws c" "c \<noteq> 0x5D"
      using join_head [OF assms False] by blast
    then have "skip_ws (join [0x2C] ts @ 0x5D # r) = c # (u @ 0x5D # r)" by (simp add: skip_ws_def)
    with n1 c show ?thesis
      by (intro parse_value_Suc [of n1]) (simp add: parse_value.simps(2))
  qed
  then show ?thesis by (simp add: parses_def is_ws_def)
qed

lemma parses_object:
  assumes "list_all2 (\<lambda>(k, t) (l, v). l = k \<and> has_only_unicode_scalars k \<and> parses decimal t v) kts kvs"
    and "distinct (map fst kvs)"
  shows "parses decimal (0x7B # join [0x2C] (map (\<lambda>(k, t). member_text k t) kts) @ [0x7D]) (JObj kvs)"
proof -
  have "\<exists>n0. \<forall>n \<ge> n0. parse_value decimal n
      (0x7B # join [0x2C] (map (\<lambda>(k, t). member_text k t) kts) @ 0x7D # r) = Some (JObj kvs, r)" for r
  proof (cases kts)
    case Nil
    with assms have "kvs = []" by simp
    with Nil show ?thesis
      by (intro parse_value_Suc [of 0]) (simp add: parse_value.simps(2) skip_follow)
  next
    case (Cons kt kts')
    obtain n1 where n1: "\<And>n. n1 \<le> n \<Longrightarrow> parse_members decimal n []
        (join [0x2C] (map (\<lambda>(k, t). member_text k t) kts) @ 0x7D # r) = Some (kvs, r)"
      using parse_members_join [OF assms(1), of "[]"] assms(2) Cons by auto
    obtain u where u: "join [0x2C] (map (\<lambda>(k, t). member_text k t) kts) = 0x22 # u"
      by (cases kt; cases kts') (simp_all add: Cons member_text_def json_quote_def)
    then have "skip_ws (join [0x2C] (map (\<lambda>(k, t). member_text k t) kts) @ 0x7D # r) = 0x22 # (u @ 0x7D # r)"
      by (simp add: skip_ws_def is_ws_def)
    with n1 u show ?thesis
      by (intro parse_value_Suc [of n1]) (simp add: parse_value.simps(2))
  qed
  then show ?thesis by (simp add: parses_def is_ws_def)
qed

lemma bounded_ascii_scalars: "is_bounded_ascii k m \<Longrightarrow> has_only_unicode_scalars k"
  by (simp add: is_bounded_ascii_def ascii_scalars)

lemma normalise_members:
  "normalise (JObj kvs) = JObj (map (map_prod id normalise) (sort_key fst kvs))"
  by (simp add: sort_key_map_prod)

lemma encode_parses:
  "encode_canonical depth v budget = Inr (t, b) \<Longrightarrow> well_formed v \<Longrightarrow> parses decimal t (normalise v)"
  "encode_items depth xs budget = Inr (ts, b) \<Longrightarrow> \<forall>x \<in> set xs. well_formed x \<Longrightarrow>
     list_all2 (parses decimal) ts (map normalise xs)"
  "encode_members depth kvs budget = Inr (ts, b) \<Longrightarrow> \<forall>(k, v) \<in> set kvs. well_formed v \<Longrightarrow>
     \<forall>(k, v) \<in> set kvs. has_only_unicode_scalars k \<Longrightarrow>
     \<exists>kts. ts = map (\<lambda>(k, t). member_text k t) kts \<and>
       list_all2 (\<lambda>(k, t) (l, v). l = k \<and> has_only_unicode_scalars k \<and> parses decimal t v)
         kts (map (map_prod id normalise) kvs)"
proof (induction depth v budget and depth xs budget and depth kvs budget arbitrary: t b and ts b and ts b
    rule: encode_canonical_encode_items_encode_members.induct)
  case (1 depth v budget)
  then have guards: "assert_js (depth \<le> MAX_DEPTH) ''CANONICAL_JSON_TOO_DEEP'' 400 = Inr ()"
    "assert_js (0 \<le> budget - 1) ''CANONICAL_JSON_TOO_COMPLEX'' 400 = Inr ()"
    by (auto simp: encode_canonical.simps [of depth v budget] bind_r_eq_Inr)
  note enc = 1(3) [unfolded encode_canonical.simps [of depth v budget] guards bind_r.simps]
  have zero: "parses decimal (int_text 0) (JNum (JInt 0))" by (rule parses_int) (simp add: max_safe_def)
  show ?case
  proof (cases v)
    case (JArr xs)
    with enc obtain ts where ts: "encode_items (depth + 1) xs (budget - 1) = Inr (ts, b)"
      "t = 0x5B # join [0x2C] ts @ [0x5D]"
      by (auto simp: bind_r_eq_Inr split: if_splits)
    have "\<not> length xs > MAX_SEQUENCE_ITEMS" using enc JArr by (auto split: if_splits)
    with 1(1) [OF JArr _ ts(1)] 1(4) JArr have "list_all2 (parses decimal) ts (map normalise xs)"
      by (simp add: list_all_iff)
    then show ?thesis unfolding ts(2) JArr normalise.simps by (rule parses_array)
  next
    case (JObj kvs)
    with enc obtain ts where ts: "encode_members (depth + 1) (sort_key fst kvs) (budget - 1) = Inr (ts, b)"
      "t = 0x7B # join [0x2C] ts @ [0x7D]"
      and keys: "list_all (\<lambda>(k, _). is_bounded_ascii k MAX_KEY_BYTES) (sort_key fst kvs)"
      by (auto simp: bind_r_eq_Inr Let_def split: if_splits)
    have len: "\<not> length (sort_key fst kvs) > MAX_MAPPING_ENTRIES"
      using enc JObj by (auto simp: Let_def split: if_splits)
    have wf: "\<forall>(k, v) \<in> set (sort_key fst kvs). well_formed v" "distinct (map fst kvs)"
      using 1(4) unfolding JObj well_formed_JObj by auto
    from keys have keys': "\<not> \<not> list_all (\<lambda>(k, _). is_bounded_ascii k MAX_KEY_BYTES) (sort_key fst kvs)"
      by blast
    have "\<forall>(k, v) \<in> set (sort_key fst kvs). has_only_unicode_scalars k"
      using keys by (auto simp: list_all_iff intro: bounded_ascii_scalars)
    from 1(2) [OF JObj refl len keys' ts(1) wf(1) this] obtain kts where
      kts: "ts = map (\<lambda>(k, t). member_text k t) kts"
        "list_all2 (\<lambda>(k, t) (l, v). l = k \<and> has_only_unicode_scalars k \<and> parses decimal t v)
           kts (map (map_prod id normalise) (sort_key fst kvs))"
      by blast
    have "distinct (map fst (map (map_prod id normalise) (sort_key fst kvs)))"
      using wf(2) by (simp add: distinct_map)
    from parses_object [OF kts(2) this] show ?thesis
      unfolding ts(2) JObj normalise_members kts(1) .
  qed (use enc parses_words parses_string parses_int zero in \<open>auto simp: is_safe_integer_def number_int_def
      split: if_splits js_number.splits\<close>)
next
  case (3 depth x xs budget)
  then show ?case by (auto simp: bind_r_eq_Inr)
next
  case (5 depth k v kvs budget)
  from 5(3) obtain t b' ts' where t: "encode_canonical depth v budget = Inr (t, b')"
    "encode_members depth kvs b' = Inr (ts', b)" "ts = (json_quote k @ 0x3A # t) # ts'"
    by (auto simp: bind_r_eq_Inr)
  have rest: "\<forall>(k, v) \<in> set kvs. well_formed v" "\<forall>(k, v) \<in> set kvs. has_only_unicode_scalars k"
    using 5(4,5) by simp_all
  obtain kts where
    "ts' = map (\<lambda>(k, t). member_text k t) kts"
    "list_all2 (\<lambda>(k, t) (l, v). l = k \<and> has_only_unicode_scalars k \<and> parses decimal t v)
         kts (map (map_prod id normalise) kvs)"
    using 5(2) [OF t(2) rest] by blast
  with 5(1) [OF t(1)] 5(4,5) t(3) show ?case
    by (intro exI [of _ "(k, t) # kts"]) (simp add: member_text_def id_def)
qed simp_all

theorem canonical_parse:
  assumes "canonical_json v = Inr t" and "well_formed v"
  shows "json_parse decimal t = Inr (normalise v)"
proof -
  obtain b where "encode_canonical 0 v MAX_NODES = Inr (t, b)"
    using assms(1) by (auto simp: canonical_json_def bind_r_eq_Inr split: if_splits)
  from encode_parses(1) [OF this assms(2)] have p: "parses decimal t (normalise v)" .
  obtain n0 where n0: "\<forall>n \<ge> n0. parse_value decimal n (t @ []) = Some (normalise v, [])"
    using parsesD [OF p, of "[]"] by (auto simp: ok_follow_def)
  have "parse_value decimal (max n0 (2 * length t + 2)) t = parse_value decimal (2 * length t + 2) t"
    by (rule parse_fuel) simp_all
  with n0 have "parse_value decimal (2 * length t + 2) t = Some (normalise v, [])"
    by (metis append_Nil2 max.cobounded1)
  with parses_skip [OF p, of "[]"] show ?thesis by (simp add: json_parse_def skip_ws_def)
qed

text \<open>So the canonical text, and the canonical bytes, determine the value.\<close>

theorem canonical_json_inj:
  assumes "canonical_json v = Inr t" and "canonical_json w = Inr t" and "well_formed v" and "well_formed w"
  shows "normalise v = normalise w"
  using canonical_parse [OF assms(1,3), of undefined] canonical_parse [OF assms(2,4), of undefined] by simp

section \<open>Which values have a canonical text\<close>

definition deepest :: "nat list \<Rightarrow> nat" where
  "deepest hs = foldr (\<lambda>h m. max (Suc h) m) hs 0"

primrec height :: "json \<Rightarrow> nat" where
  "height JUndef = 0"
| "height JNull = 0"
| "height (JBool b) = 0"
| "height (JNum n) = 0"
| "height (JStr s) = 0"
| "height (JArr xs) = deepest (map height xs)"
| "height (JObj kvs) = deepest (map snd (map (map_prod id height) kvs))"

primrec nodes :: "json \<Rightarrow> nat" where
  "nodes JUndef = 1"
| "nodes JNull = 1"
| "nodes (JBool b) = 1"
| "nodes (JNum n) = 1"
| "nodes (JStr s) = 1"
| "nodes (JArr xs) = 1 + sum_list (map nodes xs)"
| "nodes (JObj kvs) = 1 + sum_list (map snd (map (map_prod id nodes) kvs))"

primrec encodable :: "json \<Rightarrow> bool" where
  "encodable JUndef \<longleftrightarrow> False"
| "encodable JNull \<longleftrightarrow> True"
| "encodable (JBool b) \<longleftrightarrow> True"
| "encodable (JNum n) \<longleftrightarrow> is_safe_integer n"
| "encodable (JStr s) \<longleftrightarrow> length (utf8_encode s) \<le> MAX_STRING_BYTES \<and> has_only_unicode_scalars s"
| "encodable (JArr xs) \<longleftrightarrow> length xs \<le> MAX_SEQUENCE_ITEMS \<and> list_all (\<lambda>b. b) (map encodable xs)"
| "encodable (JObj kvs) \<longleftrightarrow> length kvs \<le> MAX_MAPPING_ENTRIES \<and>
     list_all (\<lambda>(k, b). is_bounded_ascii k MAX_KEY_BYTES \<and> b) (map (map_prod id encodable) kvs)"

lemma deepest_le: "d + deepest hs \<le> n \<longleftrightarrow> d \<le> n \<and> (\<forall>h \<in> set hs. Suc d + h \<le> n)"
proof (induction hs)
  case (Cons h hs)
  have "d + deepest (h # hs) = max (Suc d + h) (d + deepest hs)" by (simp add: deepest_def)
  with Cons show ?case by auto
qed (simp add: deepest_def)

lemma sum_list_sort_key: "sum_list (map f (sort_key g xs)) = (sum_list (map f xs) :: nat)"
proof -
  have ins: "sum_list (map f (insort_key g x ys)) = f x + sum_list (map f ys)" for x ys
    by (induction ys) auto
  show ?thesis by (induction xs) (simp_all add: ins)
qed

lemma node_sums:
  "nodes (JObj kvs) = 1 + sum_list (map (\<lambda>(k, v). nodes v) (sort_key fst kvs))"
  "int (nodes (JArr xs)) = 1 + int (sum_list (map nodes xs))"
  unfolding sum_list_sort_key by (simp_all add: o_def map_prod_def split_def)

lemma encode_iff:
  "(\<exists>t. encode_canonical depth v budget = Inr (t, b)) \<longleftrightarrow>
     encodable v \<and> depth + height v \<le> MAX_DEPTH \<and> int (nodes v) \<le> budget \<and> b = budget - int (nodes v)"
  "(\<exists>ts. encode_items depth xs budget = Inr (ts, b)) \<longleftrightarrow>
     (\<forall>x \<in> set xs. encodable x \<and> depth + height x \<le> MAX_DEPTH) \<and>
     (xs \<noteq> [] \<longrightarrow> int (sum_list (map nodes xs)) \<le> budget) \<and> b = budget - int (sum_list (map nodes xs))"
  "(\<exists>ts. encode_members depth kvs budget = Inr (ts, b)) \<longleftrightarrow>
     (\<forall>(k, x) \<in> set kvs. encodable x \<and> depth + height x \<le> MAX_DEPTH) \<and>
     (kvs \<noteq> [] \<longrightarrow> int (sum_list (map (\<lambda>(k, v). nodes v) kvs)) \<le> budget) \<and>
     b = budget - int (sum_list (map (\<lambda>(k, v). nodes v) kvs))"
proof (induction depth v budget and depth xs budget and depth kvs budget arbitrary: b and b and b
    rule: encode_canonical_encode_items_encode_members.induct)
  case (1 depth v budget)
  have nodes_pos: "1 \<le> nodes w" for w by (cases w) simp_all
  show ?case
  proof (cases "depth \<le> MAX_DEPTH \<and> 0 \<le> budget - 1")
    case False
    then have "\<not> (depth + height v \<le> MAX_DEPTH \<and> int (nodes v) \<le> budget)"
      using nodes_pos [of v] by linarith
    moreover have "\<not> (\<exists>t. encode_canonical depth v budget = Inr (t, b))"
      using False by (auto simp: encode_canonical.simps [of depth v budget] result_simps)
    ultimately show ?thesis by blast
  next
    case True
    then have guards: "assert_js (depth \<le> MAX_DEPTH) ''CANONICAL_JSON_TOO_DEEP'' 400 = Inr ()"
      "assert_js (0 \<le> budget - 1) ''CANONICAL_JSON_TOO_COMPLEX'' 400 = Inr ()"
      by simp_all
    note enc = encode_canonical.simps [of depth v budget, unfolded guards bind_r.simps]
    show ?thesis
    proof (cases v)
      case (JArr xs)
      show ?thesis
      proof (cases "length xs > MAX_SEQUENCE_ITEMS")
        case False
        have "(\<exists>t. encode_canonical depth v budget = Inr (t, b)) \<longleftrightarrow>
            (\<exists>ts. encode_items (depth + 1) xs (budget - 1) = Inr (ts, b))"
          unfolding enc unfolding JArr using False by (auto simp: bind_r_eq_Inr)
        with 1(1) [OF JArr False, of b] False True show ?thesis
          by (auto simp: JArr deepest_le list_all_iff)
      qed (use enc JArr in simp)
    next
      case (JObj kvs)
      show ?thesis
      proof (cases "length kvs > MAX_MAPPING_ENTRIES \<or>
          \<not> list_all (\<lambda>(k, _). is_bounded_ascii k MAX_KEY_BYTES) (sort_key fst kvs)")
        case True
        then have "\<not> encodable v" by (force simp: JObj list_all_iff)
        with True enc JObj show ?thesis by (auto simp: Let_def)
      next
        case False
        then have f: "\<not> length (sort_key fst kvs) > MAX_MAPPING_ENTRIES"
          "\<not> \<not> list_all (\<lambda>(k, _). is_bounded_ascii k MAX_KEY_BYTES) (sort_key fst kvs)"
          by simp_all
        have eq: "(\<exists>t. encode_canonical depth v budget = Inr (t, b)) \<longleftrightarrow>
            (\<exists>ts. encode_members (depth + 1) (sort_key fst kvs) (budget - 1) = Inr (ts, b))"
          unfolding enc unfolding JObj using False by (auto simp: bind_r_eq_Inr Let_def)
        have keys: "encodable v \<longleftrightarrow> (\<forall>(k, x) \<in> set kvs. encodable x)"
          using False by (force simp: JObj list_all_iff)
        have deep: "depth + height v \<le> MAX_DEPTH \<longleftrightarrow> (\<forall>(k, x) \<in> set kvs. depth + 1 + height x \<le> MAX_DEPTH)"
          using True by (force simp: JObj deepest_le)
        show ?thesis unfolding eq 1(2) [OF JObj refl f, of b] keys deep
          using True by (auto simp: JObj node_sums(1) simp del: nodes.simps)
      qed
    qed (use enc True in \<open>auto split: if_splits\<close>)
  qed
next
  case (3 depth x xs budget)
  have pos: "1 \<le> nodes x" by (cases x) simp_all
  have "(\<exists>ts. encode_items depth (x # xs) budget = Inr (ts, b)) \<longleftrightarrow>
      (\<exists>b'. (\<exists>t. encode_canonical depth x budget = Inr (t, b')) \<and> (\<exists>ts. encode_items depth xs b' = Inr (ts, b)))"
    by (fastforce simp: bind_r_eq_Inr)
  also have "\<dots> \<longleftrightarrow> (\<exists>b'. (encodable x \<and> depth + height x \<le> MAX_DEPTH \<and> int (nodes x) \<le> budget \<and>
      b' = budget - int (nodes x)) \<and> (\<exists>ts. encode_items depth xs b' = Inr (ts, b)))"
    unfolding 3(1) ..
  finally show ?case using 3(2) pos by (auto simp: algebra_simps)
next
  case (5 depth k v kvs budget)
  have "(\<exists>ts. encode_members depth ((k, v) # kvs) budget = Inr (ts, b)) \<longleftrightarrow>
      (\<exists>b'. (\<exists>t. encode_canonical depth v budget = Inr (t, b')) \<and>
            (\<exists>ts. encode_members depth kvs b' = Inr (ts, b)))"
    by (fastforce simp: bind_r_eq_Inr)
  also have "\<dots> \<longleftrightarrow> (\<exists>b'. (encodable v \<and> depth + height v \<le> MAX_DEPTH \<and> int (nodes v) \<le> budget \<and>
      b' = budget - int (nodes v)) \<and> (\<exists>ts. encode_members depth kvs b' = Inr (ts, b)))"
    unfolding 5(1) ..
  finally show ?case using 5(2) by (auto simp: algebra_simps)
qed auto

section \<open>Size\<close>

text \<open>A bound on the length of the canonical text that is easy to compute.\<close>

primrec weight :: "json \<Rightarrow> nat" where
  "weight JUndef = 0"
| "weight JNull = 4"
| "weight (JBool b) = 5"
| "weight (JNum n) = 17"
| "weight (JStr s) = 6 * length s + 2"
| "weight (JArr xs) = 2 + sum_list (map Suc (map weight xs))"
| "weight (JObj kvs) = 2 + sum_list (map (\<lambda>(k, w). 6 * length k + 4 + w) (map (map_prod id weight) kvs))"

lemma quote_body_pair: "is_high c \<Longrightarrow> is_low d \<Longrightarrow> quote_body (c # d # ds) = c # d # quote_body ds"
  by (subst quote_body.simps(2)) simp

lemma quote_body_single:
  assumes "\<not> (is_high c \<and> (\<exists>d ds. cs = d # ds \<and> is_low d))"
  shows "\<exists>u. length u \<le> 6 \<and> quote_body (c # cs) = u @ quote_body cs"
proof -
  have u: "length (quote_unit c) \<le> 6" "length (escape_unit c) \<le> 6"
    by (simp_all add: quote_unit_def escape_unit_def Let_def)
  show ?thesis
  proof (cases "is_high c \<or> is_low c")
    case True
    then have "quote_body (c # cs) = escape_unit c @ quote_body cs"
      using assms by (cases cs) (auto simp del: quote_body.simps(2) simp: quote_body.simps(2) [of c])
    with u show ?thesis by blast
  qed (use u in auto)
qed

lemma length_quote_body: "length (quote_body s) \<le> 6 * length s"
proof (induction "length s" arbitrary: s rule: less_induct)
  case less
  show ?case
  proof (cases s)
    case (Cons c cs)
    have 1: "length (quote_body cs) \<le> 6 * length cs" using less Cons by simp
    show ?thesis
    proof (cases "is_high c \<and> (\<exists>d ds. cs = d # ds \<and> is_low d)")
      case True
      then obtain d ds where d: "cs = d # ds" "is_high c" "is_low d" by blast
      have "length (quote_body ds) \<le> 6 * length ds" using less \<open>s = c # cs\<close> d by simp
      then show ?thesis unfolding \<open>s = c # cs\<close> d(1) quote_body_pair [OF d(2,3)] by simp
    next
      case False
      then obtain u where "length u \<le> 6" "quote_body (c # cs) = u @ quote_body cs"
        using quote_body_single by blast
      with 1 \<open>s = c # cs\<close> show ?thesis by simp
    qed
  qed simp
qed

lemma length_dec: "n < 10 ^ Suc k \<Longrightarrow> length (dec n) \<le> Suc k"
proof (induction k arbitrary: n)
  case (Suc k)
  show ?case
  proof (cases "n < 10")
    case False
    have "n div 10 < 10 ^ Suc k" using Suc.prems by (simp add: div_less_iff_less_mult mult.commute)
    with Suc.IH show ?thesis unfolding dec_step(2) [OF False] by simp
  qed (simp add: dec_step(1))
qed (simp add: dec_step(1))

lemma safe_bounds:
  "is_safe_integer n \<Longrightarrow> - max_safe \<le> number_int n \<and> number_int n \<le> max_safe"
  by (auto simp: is_safe_integer_def number_int_def max_safe_def split: js_number.splits)

lemma length_int_text:
  assumes "is_safe_integer n"
  shows "length (int_text (number_int n)) \<le> 17"
proof -
  have lt: "nat i < 10 ^ Suc 15" if "i \<le> max_safe" for i
    using that by (cases "0 \<le> i") (simp_all add: nat_less_iff max_safe_def)
  have "length (dec (nat (number_int n))) \<le> 16" "length (dec (nat (- number_int n))) \<le> 16"
    using length_dec [OF lt, of "number_int n"] length_dec [OF lt, of "- number_int n"] safe_bounds [OF assms]
    by simp_all
  then show ?thesis by (simp add: int_text_def)
qed

lemma length_join: "length (join [c] ts) \<le> sum_list (map (\<lambda>t. Suc (length t)) ts)"
  by (induction "[c]" ts rule: join.induct) auto

lemma weight_sums:
  "weight (JObj kvs) = 2 + sum_list (map (\<lambda>(k, v). 6 * length k + 4 + weight v) (sort_key fst kvs))"
  unfolding sum_list_sort_key by (simp add: o_def map_prod_def split_def)

lemma encode_weight:
  "encode_canonical depth v budget = Inr (t, b) \<Longrightarrow> length t \<le> weight v"
  "encode_items depth xs budget = Inr (ts, b) \<Longrightarrow>
     sum_list (map (\<lambda>t. Suc (length t)) ts) \<le> sum_list (map Suc (map weight xs))"
  "encode_members depth kvs budget = Inr (ts, b) \<Longrightarrow>
     sum_list (map (\<lambda>t. Suc (length t)) ts) \<le> sum_list (map (\<lambda>(k, v). 6 * length k + 4 + weight v) kvs)"
proof (induction depth v budget and depth xs budget and depth kvs budget arbitrary: t b and ts b and ts b
    rule: encode_canonical_encode_items_encode_members.induct)
  case (1 depth v budget)
  then have guards: "assert_js (depth \<le> MAX_DEPTH) ''CANONICAL_JSON_TOO_DEEP'' 400 = Inr ()"
    "assert_js (0 \<le> budget - 1) ''CANONICAL_JSON_TOO_COMPLEX'' 400 = Inr ()"
    by (auto simp: encode_canonical.simps [of depth v budget] bind_r_eq_Inr)
  note enc = 1(3) [unfolded encode_canonical.simps [of depth v budget] guards bind_r.simps]
  show ?case
  proof (cases v)
    case (JArr xs)
    with enc obtain ts where ts: "encode_items (depth + 1) xs (budget - 1) = Inr (ts, b)"
      "t = 0x5B # join [0x2C] ts @ [0x5D]" "\<not> length xs > MAX_SEQUENCE_ITEMS"
      by (auto simp: bind_r_eq_Inr split: if_splits)
    with 1(1) [OF JArr ts(3,1)] length_join [of "0x2C" ts] show ?thesis by (simp add: JArr)
  next
    case (JObj kvs)
    with enc obtain ts where ts: "encode_members (depth + 1) (sort_key fst kvs) (budget - 1) = Inr (ts, b)"
      "t = 0x7B # join [0x2C] ts @ [0x7D]" "\<not> length (sort_key fst kvs) > MAX_MAPPING_ENTRIES"
      "\<not> \<not> list_all (\<lambda>(k, _). is_bounded_ascii k MAX_KEY_BYTES) (sort_key fst kvs)"
      by (auto simp: bind_r_eq_Inr Let_def split: if_splits)
    with 1(2) [OF JObj refl ts(3,4,1)] length_join [of "0x2C" ts] show ?thesis
      by (simp add: JObj weight_sums del: weight.simps)
  next
    case (JStr u)
    with enc length_quote_body [of u] show ?thesis by (auto simp: json_quote_def split: if_splits)
  qed (use enc length_int_text in \<open>auto split: if_splits\<close>)
next
  case (3 depth x xs budget)
  then show ?case by (fastforce simp: bind_r_eq_Inr)
next
  case (5 depth k v kvs budget)
  from 5(3) obtain t b' ts' where t: "encode_canonical depth v budget = Inr (t, b')"
    "encode_members depth kvs b' = Inr (ts', b)" "ts = (json_quote k @ 0x3A # t) # ts'"
    by (auto simp: bind_r_eq_Inr)
  with 5(1) [OF t(1)] 5(2) [OF t(2)] length_quote_body [of k] show ?case by (simp add: json_quote_def)
qed simp_all

lemma length_utf8_encode: "length (utf8_encode s) \<le> 3 * length s"
proof (induction "length s" arbitrary: s rule: less_induct)
  case less
  have u: "length (utf8_of p) \<le> 4" "p < 0x10000 \<Longrightarrow> length (utf8_of p) \<le> 3" for p
    by (simp_all add: utf8_of_def)
  show ?case
  proof (cases s)
    case (Cons c cs)
    have 1: "length (utf8_encode cs) \<le> 3 * length cs" using less Cons by simp
    show ?thesis
    proof (cases "is_high c \<and> (\<exists>d ds. cs = d # ds \<and> is_low d)")
      case True
      then obtain d ds where d: "is_high c" "cs = d # ds" "is_low d" by blast
      have "length (utf8_encode ds) \<le> 3 * length ds" using less \<open>s = c # cs\<close> d by simp
      with d \<open>s = c # cs\<close> u(1) [of "join_surrogates c d"] show ?thesis
        by (simp add: utf8_encode_def code_points_cases)
    next
      case False
      then have "\<exists>p < 0x10000. code_points s = p # code_points cs"
        using unat_unit_less [of c] unfolding \<open>s = c # cs\<close>
        by (cases "is_high c"; cases "is_low c"; cases cs) (auto simp: code_points_cases)
      with 1 u(2) \<open>s = c # cs\<close> show ?thesis by (fastforce simp: utf8_encode_def)
    qed
  qed (simp add: utf8_encode_def)
qed

theorem canonical_json_total:
  assumes "is_json_object v" and "encodable v" and "height v \<le> MAX_DEPTH" and "int (nodes v) \<le> MAX_NODES"
    and "3 * weight v \<le> MAX_CANONICAL_BYTES"
  shows "\<exists>t. canonical_json v = Inr t"
proof -
  have "\<exists>t. encode_canonical 0 v MAX_NODES = Inr (t, MAX_NODES - int (nodes v))"
    using encode_iff(1) [of 0 v MAX_NODES "MAX_NODES - int (nodes v)"] assms(2-4) by simp
  then obtain t b where t: "encode_canonical 0 v MAX_NODES = Inr (t, b)" by blast
  have "\<not> MAX_CANONICAL_BYTES < length (utf8_encode t)"
    using encode_weight(1) [OF t] length_utf8_encode [of t] assms(5) by linarith
  with t assms(1) show ?thesis by (simp add: canonical_json_def)
qed

lemma ascii_encodable: "ascii s \<Longrightarrow> length s \<le> MAX_STRING_BYTES \<Longrightarrow> encodable (JStr s)"
  by (simp add: length_utf8_ascii ascii_scalars)

end
