(* ===== verification/Bindings.thy ===== *)
theory Bindings imports Canonical Validation begin

text \<open>
  What the broker's digests bind. \<open>digestDomain\<close> hashes canonical bytes, which determine the domain
  and the payload; so, as long as SHA-256 does not collide on the preimages at hand, an equal
  identifier means equal fields. For a verified release binding this chains from the attempt
  identifier down to the tag, the commit and the policy.
\<close>

section \<open>Digests\<close>

lemma hex_digit_inj: "m < 16 \<Longrightarrow> n < 16 \<Longrightarrow> hex_digit m = hex_digit n \<longleftrightarrow> m = n"
  by (metis hex_value_digit option.inject)

lemma hex_bytes_inj: "hex_bytes a = hex_bytes b \<Longrightarrow> a = b"
proof (induction a arbitrary: b)
  case Nil
  then show ?case by (cases b) (simp_all add: hex_bytes_def)
next
  case (Cons x a)
  then obtain y b' where b: "b = y # b'" by (cases b) (simp_all add: hex_bytes_def)
  have lt: "unat z div 16 < 16" "unat z mod 16 < 16" for z :: byte
  proof -
    have "unat z < 2 ^ LENGTH(8)" by (rule unsigned_less)
    then show "unat z div 16 < 16" "unat z mod 16 < 16" by simp_all
  qed
  from Cons(2) b have "unat x div 16 = unat y div 16" "unat x mod 16 = unat y mod 16" "hex_bytes a = hex_bytes b'"
    using lt by (auto simp: hex_bytes_def hex_digit_inj)
  then have "unat x = unat y" "a = b'" using Cons.IH by (metis div_mult_mod_eq, blast)
  with b show ?case by (simp add: word_unat_eq_iff)
qed

lemma scalars_quote_unit: "c < 0x20 \<or> \<not> is_high c \<and> \<not> is_low c \<Longrightarrow> has_only_unicode_scalars (quote_unit c)"
proof -
  assume c: "c < 0x20 \<or> \<not> is_high c \<and> \<not> is_low c"
  have "ascii (escape_unit c)"
    using unat_unit_less [of c]
    by (auto simp: escape_unit_def Let_def ascii_def hex_digit_def word_le_nat_alt unat_unit
        div_less_iff_less_mult simp del: of_nat_add)
  then show ?thesis using c
    by (auto simp: quote_unit_def ascii_scalars has_only_unicode_scalars.simps is_high_def is_low_def)
qed

lemma scalars_quote_body: "has_only_unicode_scalars s \<Longrightarrow> has_only_unicode_scalars (quote_body s)"
proof (induction s rule: has_only_unicode_scalars.induct)
  case (2 c cs)
  show ?case
  proof (cases "is_high c")
    case True
    then obtain d ds where d: "cs = d # ds" "is_low d" "has_only_unicode_scalars ds"
      using 2(3) by (cases cs) auto
    with 2(1) [OF True d(1)] True show ?thesis by simp
  next
    case False
    then show ?thesis using 2 by (simp add: scalars_quote_unit has_only_unicode_scalars_append)
  qed
qed simp

lemma scalars_ascii_Cons: "c \<le> 0x7F \<Longrightarrow> has_only_unicode_scalars (c # s) \<longleftrightarrow> has_only_unicode_scalars s"
  by (simp add: ascii_not_surrogate)

lemma scalars_quote: "has_only_unicode_scalars s \<Longrightarrow> has_only_unicode_scalars (json_quote s)"
  by (simp add: json_quote_def scalars_ascii_Cons has_only_unicode_scalars_append scalars_quote_body
      del: has_only_unicode_scalars.simps(2))

lemma scalars_int_text: "has_only_unicode_scalars (int_text i)"
  using dec_digits [of "nat i"] dec_digits [of "nat (- i)"]
  by (intro ascii_scalars) (auto simp: int_text_def ascii_def is_digit_def intro: order_trans)

lemma scalars_join:
  "\<forall>t \<in> set ts. has_only_unicode_scalars t \<Longrightarrow> has_only_unicode_scalars (join [0x2C] ts)"
  by (induction "[0x2C :: code_unit]" ts rule: join.induct)
    (auto simp: has_only_unicode_scalars_append scalars_ascii_Cons simp del: has_only_unicode_scalars.simps(2))

lemma scalars_wrap:
  "a \<le> 0x7F \<Longrightarrow> b \<le> 0x7F \<Longrightarrow> has_only_unicode_scalars s \<Longrightarrow> has_only_unicode_scalars (a # s @ [b])"
  by (simp add: scalars_ascii_Cons has_only_unicode_scalars_append ascii_not_surrogate)

lemma encode_scalars:
  "encode_canonical depth v budget = Inr (t, b) \<Longrightarrow> has_only_unicode_scalars t"
  "encode_items depth xs budget = Inr (ts, b) \<Longrightarrow> \<forall>t \<in> set ts. has_only_unicode_scalars t"
  "encode_members depth kvs budget = Inr (ts, b) \<Longrightarrow> \<forall>(k, v) \<in> set kvs. has_only_unicode_scalars k \<Longrightarrow>
     \<forall>t \<in> set ts. has_only_unicode_scalars t"
proof (induction depth v budget and depth xs budget and depth kvs budget arbitrary: t b and ts b and ts b
    rule: encode_canonical_encode_items_encode_members.induct)
  case (1 depth v budget)
  then have guards: "assert_js (depth \<le> MAX_DEPTH) ''CANONICAL_JSON_TOO_DEEP'' 400 = Inr ()"
    "assert_js (0 \<le> budget - 1) ''CANONICAL_JSON_TOO_COMPLEX'' 400 = Inr ()"
    by (auto simp: encode_canonical.simps [of depth v budget] bind_r_eq_Inr)
  note enc = 1(3) [unfolded encode_canonical.simps [of depth v budget] guards bind_r.simps]
  have words: "has_only_unicode_scalars (js ''null'')" "has_only_unicode_scalars (js ''true'')"
    "has_only_unicode_scalars (js ''false'')"
    by (rule ascii_scalars, simp add: js_def)+
  show ?case
  proof (cases v)
    case (JArr xs)
    with enc obtain ts where ts: "encode_items (depth + 1) xs (budget - 1) = Inr (ts, b)"
      "t = 0x5B # join [0x2C] ts @ [0x5D]" "\<not> length xs > MAX_SEQUENCE_ITEMS"
      by (auto simp: bind_r_eq_Inr split: if_splits)
    show ?thesis unfolding ts(2)
      by (rule scalars_wrap [OF _ _ scalars_join [OF 1(1) [OF JArr ts(3,1)]]]) simp_all
  next
    case (JObj kvs)
    with enc obtain ts where ts: "encode_members (depth + 1) (sort_key fst kvs) (budget - 1) = Inr (ts, b)"
      "t = 0x7B # join [0x2C] ts @ [0x7D]" "\<not> length (sort_key fst kvs) > MAX_MAPPING_ENTRIES"
      "\<not> \<not> list_all (\<lambda>(k, _). is_bounded_ascii k MAX_KEY_BYTES) (sort_key fst kvs)"
      by (auto simp: bind_r_eq_Inr Let_def split: if_splits)
    have "\<forall>(k, v) \<in> set (sort_key fst kvs). has_only_unicode_scalars k"
      using ts(4) by (auto simp: list_all_iff intro: bounded_ascii_scalars)
    from 1(2) [OF JObj refl ts(3,4,1) this] show ?thesis unfolding ts(2)
      by (intro scalars_wrap scalars_join) simp_all
  qed (use enc words scalars_quote scalars_int_text in \<open>auto split: if_splits\<close>)
next
  case (3 depth x xs budget)
  then show ?case by (auto simp: bind_r_eq_Inr)
next
  case (5 depth k v kvs budget)
  from 5(3) obtain t b' ts' where t: "encode_canonical depth v budget = Inr (t, b')"
    "encode_members depth kvs b' = Inr (ts', b)" "ts = (json_quote k @ 0x3A # t) # ts'"
    by (auto simp: bind_r_eq_Inr)
  have k: "has_only_unicode_scalars k" "\<forall>(k, v) \<in> set kvs. has_only_unicode_scalars k" using 5(4) by auto
  have "has_only_unicode_scalars (json_quote k @ 0x3A # t)"
    using 5(1) [OF t(1)]
    by (intro has_only_unicode_scalars_append scalars_quote k) (simp add: ascii_not_surrogate)
  with 5(2) [OF t(2) k(2)] t(3) show ?case by simp
qed simp_all

lemma canonical_text_scalars: "canonical_json v = Inr t \<Longrightarrow> has_only_unicode_scalars t"
  by (auto simp: canonical_json_def bind_r_eq_Inr encode_scalars(1) split: if_splits)

text \<open>Equal canonical bytes mean equal values.\<close>

lemma canonical_bytes_inj:
  assumes "canonical_bytes v = Inr bs" and "canonical_bytes w = Inr bs" and "well_formed v" and "well_formed w"
  shows "normalise v = normalise w"
proof -
  obtain t u where t: "canonical_json v = Inr t" "canonical_json w = Inr u"
    and "utf8_encode t = utf8_encode u"
    using assms(1,2) by (auto simp: canonical_bytes_def bind_r_eq_Inr)
  then have "t = u" using canonical_text_scalars utf8_encode_inj by blast
  with t canonical_json_inj assms(3,4) show ?thesis by blast
qed

definition envelope :: "js_string \<Rightarrow> json \<Rightarrow> json" where
  "envelope domain payload = JObj [(js ''domain'', JStr domain), (js ''payload'', payload)]"

lemma digest_domain_preimage:
  assumes "digest_domain sha d p = Inr x"
  obtains bs where "canonical_bytes (envelope d p) = Inr bs" "x = js ''sha256:'' @ hex_bytes (sha bs)"
  using assms that
  by (auto simp: digest_domain_def digest_object_def sha256_hex_def envelope_def bind_r_eq_Inr split: if_splits)

lemma digest_domain_inj:
  assumes "digest_domain sha d p = Inr x" and "digest_domain sha d' p' = Inr x"
    and "well_formed p" and "well_formed p'"
    and "\<And>bs bs'. canonical_bytes (envelope d p) = Inr bs \<Longrightarrow> canonical_bytes (envelope d' p') = Inr bs' \<Longrightarrow>
           sha bs = sha bs' \<Longrightarrow> bs = bs'"
  shows "d = d'" and "normalise p = normalise p'"
proof -
  obtain bs bs' where bs: "canonical_bytes (envelope d p) = Inr bs" "canonical_bytes (envelope d' p') = Inr bs'"
    "hex_bytes (sha bs) = hex_bytes (sha bs')"
    using digest_domain_preimage [OF assms(1)] digest_domain_preimage [OF assms(2)]
    by (metis same_append_eq)
  with assms(5) hex_bytes_inj have "bs = bs'" by blast
  with bs have "normalise (envelope d p) = normalise (envelope d' p')"
    using assms(3,4) by (intro canonical_bytes_inj) (auto simp: envelope_def)
  moreover have "sort_key fst [(js ''domain'', a), (js ''payload'', b)] =
      [(js ''domain'', a), (js ''payload'', b)]" for a b :: json
    by (simp add: js_def)
  ultimately show "d = d'" "normalise p = normalise p'" by (simp_all add: envelope_def)
qed

section \<open>Release bindings\<close>

definition binding_well_formed :: "release_binding \<Rightarrow> bool" where
  "binding_well_formed b \<longleftrightarrow>
     rb_target_repo_id b = TARGET_REPOSITORY_ID \<and> rb_controller_repo_id b = CONTROLLER_REPOSITORY_ID \<and>
     matches TAG (rb_tag b) \<and> rb_tag_ref b = js ''refs/tags/'' @ rb_tag b \<and>
     matches SHA1_HEX (rb_peeled_commit_sha b) \<and> matches SHA1_HEX (rb_tag_object_sha b) \<and>
     rb_peeled_commit_sha b \<noteq> rb_tag_object_sha b \<and> matches SHA1_HEX (rb_controller_workflow_sha b) \<and>
     (\<forall>d \<in> {rb_policy_sha256 b, rb_attempt_id b, rb_candidate_artifact_digest b, rb_candidate_id b,
        rb_candidate_inventory_sha256 b, rb_candidate_manifest_digest b, rb_release_authority_id b,
        rb_release_identity_id b}. matches DIGEST d) \<and>
     (\<forall>i \<in> {rb_controller_workflow_id b, rb_candidate_artifact_id b, rb_candidate_run_id b, rb_run_id b}.
        1 \<le> i \<and> i \<le> max_safe) \<and>
     (\<forall>i \<in> {rb_candidate_run_attempt b, rb_run_attempt b}. 1 \<le> i \<and> i \<le> 1000)"

lemma parse_release_binding_sound:
  assumes "parse_release_binding v = Inr b"
  shows "binding_well_formed b"
  using assms
  unfolding parse_release_binding_def bind_r_eq_Inr assert_js_eq_Inr require_string_eq_Inr
    require_integer_eq_Inr require_tagged_digest_eq_Inr positive_safe_integer_eq_Inr sum.inject
  by (elim exE conjE, hypsubst) (simp add: binding_well_formed_def)

text \<open>The digests a successful verification has recomputed.\<close>

lemma verify_release_binding_digests:
  assumes "verify_release_binding sha b auth trusted = Inr ()"
  shows "digest_domain sha (js ''dpone.release.identity.v2'') (identity_payload b) = Inr (rb_release_identity_id b)"
    and "digest_domain sha (js ''dpone.release.authority.v2'') (authority_payload b) = Inr (rb_release_authority_id b)"
    and "digest_domain sha (js ''dpone.release.attempt.v2'') (attempt_payload b) = Inr (rb_attempt_id b)"
    and "digest_domain sha (js ''dpone.release.candidate.v2'') (candidate_payload b) = Inr (rb_candidate_id b)"
    and "rb_controller_workflow_id b = tw_id trusted" and "rb_controller_workflow_sha b = tw_sha trusted"
    and "rb_controller_workflow_sha b = aw_workflow_sha auth"
    and "rb_run_id b = num (aw_run_id auth)" and "rb_run_attempt b = aw_run_attempt auth"
  using assms unfolding verify_release_binding_def by (auto simp: result_simps)

lemma payloads_well_formed:
  "well_formed (identity_payload b)" "well_formed (authority_payload b)" "well_formed (attempt_payload b)"
  "well_formed (candidate_payload b)"
  by (simp_all add: identity_payload_def authority_payload_def attempt_payload_def candidate_payload_def JI_def)

lemma json_get_normalised:
  assumes "normalise (JObj kvs) = normalise (JObj kvs')" "distinct (map fst kvs)" "distinct (map fst kvs')"
  shows "normalise (json_get (JObj kvs) k) = normalise (json_get (JObj kvs') k)"
  using lookup_normalise [OF assms(2), of k] lookup_normalise [OF assms(3), of k] assms(1) by simp

lemma payload_gets:
  "json_get (identity_payload b) (js ''release'') = JStr (rb_tag b)"
  "json_get (authority_payload b) (js ''peeled_commit_sha'') = JStr (rb_peeled_commit_sha b)"
  "json_get (authority_payload b) (js ''policy_sha256'') = JStr (rb_policy_sha256 b)"
  "json_get (authority_payload b) (js ''release_identity_id'') = JStr (rb_release_identity_id b)"
  "json_get (authority_payload b) (js ''tag_object_sha'') = JStr (rb_tag_object_sha b)"
  "json_get (attempt_payload b) (js ''controller_repository_id'') = JI (rb_controller_repo_id b)"
  "json_get (attempt_payload b) (js ''controller_run_attempt'') = JI (rb_run_attempt b)"
  "json_get (attempt_payload b) (js ''controller_run_id'') = JI (rb_run_id b)"
  "json_get (attempt_payload b) (js ''controller_workflow_id'') = JI (rb_controller_workflow_id b)"
  "json_get (attempt_payload b) (js ''release_authority_id'') = JStr (rb_release_authority_id b)"
  by (simp_all add: identity_payload_def authority_payload_def attempt_payload_def json_get_def lookup_def)

lemma payload_get_same:
  "normalise (identity_payload b) = normalise (identity_payload b') \<Longrightarrow>
     normalise (json_get (identity_payload b) k) = normalise (json_get (identity_payload b') k)"
  "normalise (authority_payload b) = normalise (authority_payload b') \<Longrightarrow>
     normalise (json_get (authority_payload b) k) = normalise (json_get (authority_payload b') k)"
  "normalise (attempt_payload b) = normalise (attempt_payload b') \<Longrightarrow>
     normalise (json_get (attempt_payload b) k) = normalise (json_get (attempt_payload b') k)"
  unfolding identity_payload_def authority_payload_def attempt_payload_def
  by (erule json_get_normalised; simp)+

lemma normalise_leaves: "normalise (JStr s) = normalise (JStr t) \<longleftrightarrow> s = t"
  "normalise (JI i) = normalise (JI j) \<longleftrightarrow> i = j"
  by (simp_all add: JI_def)

lemma payload_fields:
  "normalise (identity_payload b) = normalise (identity_payload b') \<Longrightarrow> rb_tag b = rb_tag b'"
  "normalise (authority_payload b) = normalise (authority_payload b') \<Longrightarrow>
     rb_peeled_commit_sha b = rb_peeled_commit_sha b' \<and> rb_policy_sha256 b = rb_policy_sha256 b' \<and>
     rb_release_identity_id b = rb_release_identity_id b' \<and> rb_tag_object_sha b = rb_tag_object_sha b'"
  "normalise (attempt_payload b) = normalise (attempt_payload b') \<Longrightarrow>
     rb_controller_repo_id b = rb_controller_repo_id b' \<and> rb_run_attempt b = rb_run_attempt b' \<and>
     rb_run_id b = rb_run_id b' \<and> rb_controller_workflow_id b = rb_controller_workflow_id b' \<and>
     rb_release_authority_id b = rb_release_authority_id b'"
  using payload_get_same(1) [of b b' "js ''release''"]
    payload_get_same(2) [of b b' "js ''peeled_commit_sha''"]
    payload_get_same(2) [of b b' "js ''policy_sha256''"]
    payload_get_same(2) [of b b' "js ''release_identity_id''"]
    payload_get_same(2) [of b b' "js ''tag_object_sha''"]
    payload_get_same(3) [of b b' "js ''controller_repository_id''"]
    payload_get_same(3) [of b b' "js ''controller_run_attempt''"]
    payload_get_same(3) [of b b' "js ''controller_run_id''"]
    payload_get_same(3) [of b b' "js ''controller_workflow_id''"]
    payload_get_same(3) [of b b' "js ''release_authority_id''"]
  by (simp_all only: payload_gets normalise_leaves simp_thms)

section \<open>Sample bindings\<close>

definition zero_digest :: js_string where
  "zero_digest = js ''sha256:'' @ replicate 64 (of_char CHR ''0'')"

definition zero_sha :: hash where
  "zero_sha bs = replicate 32 0"

lemma hex_bytes_zeros: "hex_bytes (replicate n 0) = replicate (2 * n) (of_char CHR ''0'')"
  by (induction n) (simp_all add: hex_bytes_def hex_digit_def)

lemma zero_sha_hex: "js ''sha256:'' @ hex_bytes (zero_sha bs) = zero_digest"
  by (simp add: zero_digest_def zero_sha_def hex_bytes_zeros)

lemma zero_digest_props: "matches DIGEST zero_digest" "ascii zero_digest" "length zero_digest = 71"
proof -
  show "matches DIGEST zero_digest" unfolding zero_digest_def by (rule DIGEST_replicate) simp
qed (auto simp: zero_digest_def ascii_def js_def)

definition sample_binding :: "js_string \<Rightarrow> release_binding" where
  "sample_binding inventory =
     \<lparr>rb_attempt_id = zero_digest, rb_candidate_artifact_digest = zero_digest,
      rb_candidate_artifact_id = 11, rb_candidate_id = zero_digest,
      rb_candidate_inventory_sha256 = inventory, rb_candidate_manifest_digest = zero_digest,
      rb_candidate_run_attempt = 1, rb_candidate_run_id = 12,
      rb_controller_repo_id = CONTROLLER_REPOSITORY_ID, rb_controller_workflow_id = 13,
      rb_controller_workflow_sha = replicate 40 (of_char CHR ''c''),
      rb_peeled_commit_sha = replicate 40 (of_char CHR ''a''), rb_policy_sha256 = zero_digest,
      rb_release_authority_id = zero_digest, rb_release_identity_id = zero_digest, rb_run_attempt = 2,
      rb_run_id = 14, rb_tag = js ''v1.0.0'', rb_tag_object_sha = replicate 40 (of_char CHR ''b''),
      rb_tag_ref = js ''refs/tags/v1.0.0'', rb_target_repo_id = TARGET_REPOSITORY_ID\<rparr>"

definition sample_auth :: authenticated_workflow where
  "sample_auth = \<lparr>aw_run_id = js ''14'', aw_run_attempt = 2,
     aw_workflow_sha = replicate 40 (of_char CHR ''c'')\<rparr>"

definition sample_trusted :: trusted_workflow where
  "sample_trusted = \<lparr>tw_id = 13, tw_sha = replicate 40 (of_char CHR ''c'')\<rparr>"

text \<open>A payload of short ASCII strings and safe integers always has a digest.\<close>

lemma digest_domain_total:
  assumes "is_bounded_ascii d 128" and "encodable p" and "height p \<le> 30" and "int (nodes p) \<le> 1000"
    and "weight p \<le> 100000"
  shows "digest_domain sha d p = Inr (js ''sha256:'' @ hex_bytes (sha (utf8_encode
     (case canonical_json (envelope d p) of Inr t \<Rightarrow> t))))"
proof -
  have d: "ascii d" "length d \<le> 128" using assms(1) by (simp_all add: is_bounded_ascii_def)
  have key: "is_bounded_ascii (js ''domain'') MAX_KEY_BYTES" "is_bounded_ascii (js ''payload'') MAX_KEY_BYTES"
    by (simp_all add: is_bounded_ascii_def MAX_KEY_BYTES_def js_def)
  have "encodable (envelope d p)"
    using assms(2) d key ascii_encodable [OF d(1)]
    by (simp add: envelope_def MAX_MAPPING_ENTRIES_def MAX_STRING_BYTES_def)
  moreover have "height (envelope d p) \<le> MAX_DEPTH" "int (nodes (envelope d p)) \<le> MAX_NODES"
    "3 * weight (envelope d p) \<le> MAX_CANONICAL_BYTES"
    using assms(3-5) d(2)
    by (simp_all add: envelope_def deepest_def MAX_DEPTH_def MAX_NODES_def MAX_CANONICAL_BYTES_def)
  ultimately obtain t where "canonical_json (envelope d p) = Inr t"
    using canonical_json_total [of "envelope d p"] by (auto simp: envelope_def is_json_object_def)
  with assms(1) show ?thesis
    by (simp add: digest_domain_def digest_object_def canonical_bytes_def sha256_hex_def envelope_def)
qed

lemma ascii_js: "list_all (\<lambda>c. (of_char c :: code_unit) \<le> 0x7F) s \<Longrightarrow> ascii (js s)"
  by (auto simp: ascii_def js_def list_all_iff)

lemma sample_digests:
  assumes "ascii inventory" and "length inventory \<le> 128"
  shows "digest_domain zero_sha (js ''dpone.release.identity.v2'') (identity_payload (sample_binding inventory)) = Inr zero_digest"
    and "digest_domain zero_sha (js ''dpone.release.authority.v2'') (authority_payload (sample_binding inventory)) = Inr zero_digest"
    and "digest_domain zero_sha (js ''dpone.release.attempt.v2'') (attempt_payload (sample_binding inventory)) = Inr zero_digest"
    and "digest_domain zero_sha (js ''dpone.release.candidate.v2'') (candidate_payload (sample_binding inventory)) = Inr zero_digest"
proof -
  have key: "is_bounded_ascii (js k) 128" if "list_all (\<lambda>c. (of_char c :: code_unit) \<le> 0x7F) k" "k \<noteq> []" "length k \<le> 128" for k
    using that by (simp add: is_bounded_ascii_def ascii_js)
  have str: "encodable (JStr s)" if "ascii s" "length s \<le> 128" for s
    using that by (intro ascii_encodable) (simp_all add: MAX_STRING_BYTES_def)
  have rep: "ascii (replicate 40 c)" if "c \<le> 0x7F" for c :: code_unit
    using that by (auto simp: ascii_def)
  note d = digest_domain_total [where sha = zero_sha, unfolded zero_sha_hex]
  note defs = sample_binding_def identity_payload_def authority_payload_def attempt_payload_def
    candidate_payload_def JI_def
  note facts = key str rep zero_digest_props ascii_js assms(1) MAX_MAPPING_ENTRIES_def MAX_SEQUENCE_ITEMS_def
    MAX_KEY_BYTES_def is_safe_integer_def max_safe_def deepest_def CONTROLLER_REPOSITORY_ID_def
    TARGET_REPOSITORY_ID_def
  show "digest_domain zero_sha (js ''dpone.release.identity.v2'') (identity_payload (sample_binding inventory)) = Inr zero_digest"
    by (rule d; simp add: defs facts del: encodable.simps(5))
  show "digest_domain zero_sha (js ''dpone.release.authority.v2'') (authority_payload (sample_binding inventory)) = Inr zero_digest"
    by (rule d; simp add: defs facts del: encodable.simps(5))
  show "digest_domain zero_sha (js ''dpone.release.attempt.v2'') (attempt_payload (sample_binding inventory)) = Inr zero_digest"
    by (rule d; simp add: defs facts del: encodable.simps(5))
  show "digest_domain zero_sha (js ''dpone.release.candidate.v2'') (candidate_payload (sample_binding inventory)) = Inr zero_digest"
    by (rule d; use assms(2) in \<open>simp add: defs facts del: encodable.simps(5)\<close>)
qed

lemma sample_verified:
  assumes "ascii inventory" and "length inventory \<le> 128"
  shows "verify_release_binding zero_sha (sample_binding inventory) sample_auth sample_trusted = Inr ()"
proof -
  have "matches DIGITS (js ''14'')" "num (js ''14'') = 14"
    by (simp_all add: DIGITS_def js_def num_def)
  then show ?thesis
    by (simp add: verify_release_binding_def sample_digests [OF assms] positive_safe_integer_def max_safe_def)
      (simp add: sample_binding_def sample_auth_def sample_trusted_def)
qed

lemma encode_codes:
  fixes e
  defines "e \<equiv> broker ''CANONICAL_JSON_TOO_LARGE'' 400 False"
  shows "encode_canonical depth v budget \<noteq> Inl e" "encode_items depth xs budget \<noteq> Inl e"
    "encode_members depth kvs budget \<noteq> Inl e"
proof (induction depth v budget and depth xs budget and depth kvs budget
    rule: encode_canonical_encode_items_encode_members.induct)
  case (1 depth v budget)
  show ?case
  proof (cases v)
    case (JArr xs)
    show ?thesis using 1(1) [OF JArr] unfolding encode_canonical.simps [of depth v budget] unfolding JArr
      by (auto simp: bind_r_eq_Inl assert_js_eq_Inl e_def split: if_splits)
  next
    case (JObj kvs)
    show ?thesis using 1(2) [OF JObj refl] unfolding encode_canonical.simps [of depth v budget] unfolding JObj
      by (auto simp: bind_r_eq_Inl assert_js_eq_Inl e_def Let_def split: if_splits)
  qed (auto simp: encode_canonical.simps [of depth _ budget] bind_r_eq_Inl assert_js_eq_Inl e_def
      split: if_splits)
qed (auto simp: bind_r_eq_Inl)

text \<open>Whatever serialisation throws is an error of the broker's own.\<close>

lemma encode_broker_only:
  "broker_only (encode_canonical depth v budget)" "broker_only (encode_items depth xs budget)"
  "broker_only (encode_members depth kvs budget)"
proof (induction depth v budget and depth xs budget and depth kvs budget
    rule: encode_canonical_encode_items_encode_members.induct)
  case (1 depth v budget)
  show ?case
  proof (cases v)
    case (JArr xs)
    show ?thesis using 1(1) [OF JArr] unfolding encode_canonical.simps [of depth v budget] unfolding JArr
      by (auto intro!: broker_only_intros)
  next
    case (JObj kvs)
    show ?thesis using 1(2) [OF JObj refl] unfolding encode_canonical.simps [of depth v budget] unfolding JObj
      by (auto simp: Let_def intro!: broker_only_intros)
  qed (auto simp: encode_canonical.simps [of depth _ budget] intro!: broker_only_intros)
qed (auto intro!: broker_only_intros)

lemma canonical_bytes_broker_only [broker_only_intros]:
  "broker_only (canonical_json v)" "broker_only (canonical_bytes v)" "broker_only (digest_object sha v)"
  "broker_only (digest_domain sha domain v)"
  using encode_broker_only(1)
  by (auto simp: canonical_json_def canonical_bytes_def digest_object_def digest_domain_def
      intro!: broker_only_intros)

section \<open>Properties\<close>

text \<open>C11: Canonical JSON is lossless: the canonical text of a value is valid JSON and parses back to the
  same value, with its members in sorted order and negative zero as zero.\<close>

theorem canonical_json_round_trip:
  assumes "canonical_json v = Inr t" and "well_formed v"
  shows "json_parse decimal t = Inr (normalise v)"
  by (rule canonical_parse [OF assms])

theorem canonical_json_round_trip_witness:
  "json_parse (\<lambda>_. JOther) (js ''{\"a\":0,\"b\":[true]}'') =
     Inr (JObj [(js ''a'', JNum (JInt 0)), (js ''b'', JArr [JBool True])])"
proof -
  have "canonical_json (JObj [(js ''b'', JArr [JBool True]), (js ''a'', JNum JNegZero)]) =
      Inr (js ''{\"a\":0,\"b\":[true]}'')"
    by (simp add: canonical_json_def is_json_object_def encode_canonical.simps MAX_DEPTH_def MAX_NODES_def
        MAX_MAPPING_ENTRIES_def MAX_SEQUENCE_ITEMS_def MAX_KEY_BYTES_def MAX_CANONICAL_BYTES_def js_def
        is_bounded_ascii_def is_safe_integer_def number_int_def int_text_def json_quote_def quote_unit_def
        is_high_def is_low_def dec.simps length_utf8_ascii)
  from canonical_json_round_trip [OF this, of "\<lambda>_. JOther"] show ?thesis by (simp add: js_def)
qed

text \<open>C12: Before the byte limit, canonical serialisation accepts exactly the objects whose strings are
  Unicode scalars within 1 MiB, whose numbers are safe integers, whose member names are short
  non-empty ASCII, and which stay within 32 levels, 100,000 nodes, 4,096 items an array and 1,024
  members an object.\<close>

theorem canonical_json_domain:
  "(\<exists>t. canonical_json v = Inr t) \<or> canonical_json v = Inl (broker ''CANONICAL_JSON_TOO_LARGE'' 400 False) \<longleftrightarrow>
     is_json_object v \<and> encodable v \<and> height v \<le> MAX_DEPTH \<and> int (nodes v) \<le> MAX_NODES"
proof -
  have codes: "encode_canonical 0 v MAX_NODES \<noteq> Inl (broker ''CANONICAL_JSON_TOO_LARGE'' 400 False)"
    by (rule encode_codes)
  have "(\<exists>t. canonical_json v = Inr t) \<or> canonical_json v = Inl (broker ''CANONICAL_JSON_TOO_LARGE'' 400 False) \<longleftrightarrow>
      is_json_object v \<and> (\<exists>t b. encode_canonical 0 v MAX_NODES = Inr (t, b))"
    using codes by (cases "encode_canonical 0 v MAX_NODES") (auto simp: canonical_json_def)
  also have "\<dots> \<longleftrightarrow> is_json_object v \<and> encodable v \<and> height v \<le> MAX_DEPTH \<and> int (nodes v) \<le> MAX_NODES"
    unfolding ex_comm [of "\<lambda>t b. encode_canonical 0 v MAX_NODES = Inr (t, b)"] encode_iff(1) by auto
  finally show ?thesis .
qed

text \<open>C13: A parsed release binding is well formed: it names the two pinned repositories, a semantic
  version tag and its ref, two distinct git objects, tagged digests, and positive safe identifiers.\<close>

theorem parsed_binding_is_well_formed:
  assumes "parse_release_binding v = Inr b"
  shows "binding_well_formed b"
  by (rule parse_release_binding_sound [OF assms])

definition sample_binding_body :: json where
  "sample_binding_body =
     (let z = JStr zero_digest; hex = (\<lambda>c. JStr (replicate 40 (of_char c))) in JObj
       [(js ''attempt_id'', z), (js ''candidate_artifact_digest'', z),
        (js ''candidate_artifact_id'', JStr (js ''11'')), (js ''candidate_id'', z),
        (js ''candidate_inventory_sha256'', z), (js ''candidate_manifest_digest'', z),
        (js ''candidate_run_attempt'', JI 1), (js ''candidate_run_id'', JStr (js ''12'')),
        (js ''controller_repo_id'', JI CONTROLLER_REPOSITORY_ID), (js ''controller_workflow_id'', JI 13),
        (js ''controller_workflow_sha'', hex CHR ''c''), (js ''peeled_commit_sha'', hex CHR ''a''),
        (js ''policy_sha256'', z), (js ''release_authority_id'', z), (js ''release_identity_id'', z),
        (js ''run_attempt'', JI 2), (js ''run_id'', JStr (js ''14'')), (js ''tag'', JStr (js ''v1.0.0'')),
        (js ''tag_object_sha'', hex CHR ''b''), (js ''tag_ref'', JStr (js ''refs/tags/v1.0.0'')),
        (js ''target_repo_id'', JI TARGET_REPOSITORY_ID)])"

lemma sample_binding_parses: "parse_release_binding sample_binding_body = Inr (sample_binding zero_digest)"
proof -
  have hex: "matches SHA1_HEX (replicate 40 c)" if "in_cls ''09af'' c" for c
    using that by (auto simp: SHA1_HEX_def matches_Rep_Cls)
  have ids: "matches ID_TEXT (js ''11'')" "matches ID_TEXT (js ''12'')" "matches ID_TEXT (js ''14'')"
    "matches DIGITS (js ''11'')" "matches DIGITS (js ''12'')" "matches DIGITS (js ''14'')"
    "matches TAG (js ''v1.0.0'')"
    by (simp_all add: ID_TEXT_def DIGITS_def TAG_def js_def Let_def)
  have obj: "exact_object sample_binding_body BINDING_FIELDS =
      Inr (case sample_binding_body of JObj kvs \<Rightarrow> kvs)"
    by (auto simp: exact_object_eq_Inr sample_binding_body_def Let_def BINDING_FIELDS_def)
  show ?thesis
    unfolding parse_release_binding_def obj
    by (simp add: sample_binding_body_def Let_def require_string_def require_integer_def lookup_def ids hex
        JI_def is_safe_integer_def number_int_def max_safe_def require_tagged_digest_def zero_digest_props
        positive_safe_integer_def num_def sample_binding_def TARGET_REPOSITORY_ID_def
        CONTROLLER_REPOSITORY_ID_def js_append [symmetric]) (simp add: js_def)
qed

theorem parsed_binding_is_well_formed_witness: "binding_well_formed (sample_binding zero_digest)"
  by (rule parsed_binding_is_well_formed [OF sample_binding_parses])

definition no_collision :: "hash \<Rightarrow> string \<Rightarrow> json \<Rightarrow> json \<Rightarrow> bool" where
  "no_collision sha d p p' \<longleftrightarrow>
     (case (canonical_bytes (envelope (js d) p), canonical_bytes (envelope (js d) p')) of
        (Inr bs, Inr bs') \<Rightarrow> sha bs \<noteq> sha bs' \<or> bs = bs' | _ \<Rightarrow> True)"

lemma no_collision_same: "no_collision sha d p p"
  by (auto simp: no_collision_def split: sum.splits)

lemma digest_domain_no_collision:
  assumes "digest_domain sha (js d) p = Inr x" and "digest_domain sha (js d) p' = Inr x"
    and "well_formed p" and "well_formed p'" and "no_collision sha d p p'"
  shows "normalise p = normalise p'"
  by (rule digest_domain_inj(2) [OF assms(1-4)]) (use assms(5) in \<open>auto simp: no_collision_def\<close>)

text \<open>The attempt identifier binds the release: if two verified bindings have one attempt
  identifier, then, unless SHA-256 collides on their attempt, authority or identity preimages, they
  agree on the run, the workflow, the tag, both git objects and the policy.\<close>

theorem attempt_id_binds_release:
  assumes "verify_release_binding sha b auth trusted = Inr ()"
    and "verify_release_binding sha b' auth' trusted' = Inr ()"
    and "rb_attempt_id b = rb_attempt_id b'"
    and "no_collision sha ''dpone.release.attempt.v2'' (attempt_payload b) (attempt_payload b')"
    and "no_collision sha ''dpone.release.authority.v2'' (authority_payload b) (authority_payload b')"
    and "no_collision sha ''dpone.release.identity.v2'' (identity_payload b) (identity_payload b')"
  shows "rb_controller_repo_id b = rb_controller_repo_id b' \<and> rb_run_id b = rb_run_id b' \<and>
    rb_run_attempt b = rb_run_attempt b' \<and> rb_controller_workflow_id b = rb_controller_workflow_id b' \<and>
    rb_release_authority_id b = rb_release_authority_id b' \<and>
    rb_release_identity_id b = rb_release_identity_id b' \<and> rb_tag b = rb_tag b' \<and>
    rb_peeled_commit_sha b = rb_peeled_commit_sha b' \<and> rb_tag_object_sha b = rb_tag_object_sha b' \<and>
    rb_policy_sha256 b = rb_policy_sha256 b'"
proof -
  note d = verify_release_binding_digests [OF assms(1)]
  note d' = verify_release_binding_digests [OF assms(2)]
  note wf = payloads_well_formed
  have attempt: "normalise (attempt_payload b) = normalise (attempt_payload b')"
    by (rule digest_domain_no_collision [OF d(3) _ wf(3) wf(3) assms(4)]) (use d'(3) assms(3) in simp)
  note a = payload_fields(3) [OF attempt]
  have authority: "normalise (authority_payload b) = normalise (authority_payload b')"
    by (rule digest_domain_no_collision [OF d(2) _ wf(2) wf(2) assms(5)]) (use d'(2) a in simp)
  note c = payload_fields(2) [OF authority]
  have identity: "normalise (identity_payload b) = normalise (identity_payload b')"
    by (rule digest_domain_no_collision [OF d(1) _ wf(1) wf(1) assms(6)]) (use d'(1) c in simp)
  with a c payload_fields(1) show ?thesis by blast
qed

theorem attempt_id_binds_release_witness:
  "rb_tag (sample_binding zero_digest) = rb_tag (sample_binding (js ''other''))"
proof -
  have "ascii (js ''other'')" by (rule ascii_js) simp
  note v = sample_verified [OF zero_digest_props(2)] sample_verified [OF this]
  have "attempt_payload (sample_binding zero_digest) = attempt_payload (sample_binding (js ''other''))"
    "authority_payload (sample_binding zero_digest) = authority_payload (sample_binding (js ''other''))"
    "identity_payload (sample_binding zero_digest) = identity_payload (sample_binding (js ''other''))"
    by (simp_all add: attempt_payload_def authority_payload_def identity_payload_def sample_binding_def)
  then show ?thesis
    using attempt_id_binds_release [OF v]
    by (simp add: zero_digest_props no_collision_same) (simp add: sample_binding_def)
qed

end
