(* ===== verification/WormHistory.thy ===== *)
theory WormHistory imports WormStore Bindings begin

text \<open>
  Histories of the exact-object journal. \<open>row_move\<close> is its abstract state machine over one row;
  every operation of the store either leaves the storage alone, seals the first row, or makes one
  such move, and the moves only go up in the preorder of the statuses. From this follow the journal's
  invariant, the finality of \<open>CONFIRMED\<close> and \<open>HOLD\<close>, and that a dispatch is granted at most once.
\<close>

section \<open>The preorder of the statuses\<close>

fun rank :: "worm_status \<Rightarrow> nat" where
  "rank PREPARED = 0" | "rank ABSENT = 1" | "rank IN_FLIGHT = 2" | "rank ACCEPTED = 3"
| "rank DISPATCHED_HOLD = 3" | "rank CONFIRMED = 4" | "rank HOLD = 4"

instantiation worm_status :: preorder
begin

definition less_eq_worm_status :: "worm_status \<Rightarrow> worm_status \<Rightarrow> bool" where
  "less_eq_worm_status a b \<longleftrightarrow> a = b \<or> rank a < rank b \<or> rank a = 3 \<and> rank b = 3"

definition less_worm_status :: "worm_status \<Rightarrow> worm_status \<Rightarrow> bool" where
  "less_worm_status a b \<longleftrightarrow> a \<le> b \<and> \<not> b \<le> (a :: worm_status)"

instance
  by standard (auto simp: less_eq_worm_status_def less_worm_status_def)

end

lemma final_status: "CONFIRMED \<le> st \<longleftrightarrow> st = CONFIRMED" "HOLD \<le> st \<longleftrightarrow> st = HOLD"
  by (cases st; simp add: less_eq_worm_status_def)+

lemma before_dispatch: "st \<le> ABSENT \<longleftrightarrow> st = PREPARED \<or> st = ABSENT"
  by (cases st) (simp_all add: less_eq_worm_status_def)

section \<open>Moves of the row\<close>

definition same_effect :: "worm_row \<Rightarrow> worm_row \<Rightarrow> bool" where
  "same_effect r t \<longleftrightarrow>
     w_effect_id t = w_effect_id r \<and> w_canonical_bytes t = w_canonical_bytes r \<and>
     w_committed_at t = w_committed_at r \<and> w_digest t = w_digest r \<and>
     w_object_key t = w_object_key r \<and> w_pins t = w_pins r"

inductive row_move :: "worm_row \<Rightarrow> worm_row \<Rightarrow> bool" where
  absent: "w_status r = PREPARED \<Longrightarrow> matches DIGEST d \<Longrightarrow>
    row_move r (r\<lparr>w_absence_inventory_digest := Some d, w_status := ABSENT\<rparr>)"
| dispatch: "w_status r = ABSENT \<Longrightarrow> row_move r (r\<lparr>w_status := IN_FLIGHT\<rparr>)"
| accepted: "w_status r = IN_FLIGHT \<or> w_status r = DISPATCHED_HOLD \<Longrightarrow>
    w_writer_version_id r = None \<or> w_writer_version_id r = Some v \<Longrightarrow> 1 \<le> length v \<Longrightarrow> length v \<le> 512 \<Longrightarrow>
    row_move r (r\<lparr>w_writer_version_id := Some v, w_status := ACCEPTED\<rparr>)"
| dispatched_hold: "w_status r = IN_FLIGHT \<or> w_status r = ACCEPTED \<Longrightarrow>
    row_move r (r\<lparr>w_status := DISPATCHED_HOLD\<rparr>)"
| confirmed: "w_status r = IN_FLIGHT \<or> w_status r = ACCEPTED \<or> w_status r = DISPATCHED_HOLD \<Longrightarrow>
    w_writer_version_id r = None \<or> w_writer_version_id r = Some (aw_version_id worm) \<Longrightarrow>
    validate_worm r worm = Inr () \<Longrightarrow>
    row_move r (r\<lparr>w_worm_version_id := Some (aw_version_id worm),
      w_worm_retention_until := Some (aw_retention_until worm), w_status := CONFIRMED\<rparr>)"
| held: "w_status r \<noteq> CONFIRMED \<Longrightarrow> w_status r \<noteq> HOLD \<Longrightarrow> matches HOLD_CODE c \<Longrightarrow>
    row_move r (r\<lparr>w_status := HOLD, w_hold_code := Some c\<rparr>)"

inductive_simps row_move_from: "row_move r t"

lemma rank_less_4: "st \<noteq> CONFIRMED \<Longrightarrow> st \<noteq> HOLD \<Longrightarrow> rank st < 4"
  by (cases st) simp_all

lemma row_move_status: "row_move r t \<Longrightarrow> w_status r < w_status t \<or> rank (w_status r) = 3 \<and> rank (w_status t) = 3"
  by (induction rule: row_move.induct) (auto simp: less_worm_status_def less_eq_worm_status_def
      dest: rank_less_4)

lemma row_move_le: "row_move r t \<Longrightarrow> w_status r \<le> w_status t"
  using row_move_status by (auto simp: less_worm_status_def less_eq_worm_status_def)

lemma row_move_same: "row_move r t \<Longrightarrow> same_effect r t"
  by (induction rule: row_move.induct) (simp_all add: same_effect_def)

lemma row_move_final: "row_move r t \<Longrightarrow> w_status r \<noteq> CONFIRMED \<and> w_status r \<noteq> HOLD"
  by (induction rule: row_move.induct) auto

text \<open>What one operation may do to the storage.\<close>

inductive worm_write :: "hash \<Rightarrow> worm_storage \<Rightarrow> worm_storage \<Rightarrow> bool" for sha :: hash where
  skip: "worm_write sha s s"
| sealed: "prepare_effect sha i = Inr p \<Longrightarrow> worm_row_ok (sealed_row p) \<Longrightarrow>
    worm_write sha None (Some (sealed_row p))"
| move: "row_move r t \<Longrightarrow> worm_row_ok t \<Longrightarrow> worm_write sha (Some r) (Some t)"

lemma require_bound_eq_Inr [result_simps]:
  "require_bound e p s = Inr r \<longleftrightarrow> valid_pins p \<and> s = Some r \<and> w_effect_id r = e \<and> w_pins r = p"
  by (auto simp: require_bound_def copy_and_validate_pins_def split: option.splits if_splits)

lemma write_row_eq_Inr [result_simps]: "write_row r = Inr t \<longleftrightarrow> worm_row_ok r \<and> t = Some r"
  by (auto simp: write_row_def)

lemma transaction_worm:
  "(\<And>x t. body s = Inr (x, t) \<Longrightarrow> worm_write sha s t) \<Longrightarrow> worm_write sha s (snd (transaction body s))"
  by (auto simp: transaction_def intro: worm_write.skip split: sum.splits)

lemma snapshot_state [simp]: "snd (snapshot e p s) = s"
  by (simp add: snapshot_def)

lemma seal_write: "worm_write sha s (snd (seal sha i s))"
proof (cases "prepare_effect sha i")
  case (Inr p)
  show ?thesis
  proof (cases s)
    case None
    then show ?thesis using Inr
      by (auto simp: seal_def bind_op_state transaction_def write_row_def
          intro: worm_write.skip worm_write.sealed split: prod.splits sum.splits)
  qed (use Inr in \<open>auto simp: seal_def bind_op_state transaction_def
      intro: worm_write.skip split: prod.splits sum.splits\<close>)
qed (simp add: seal_def worm_write.skip)

lemma next_write: "worm_write sha s (snd (next_action e p s))"
proof -
  have st: "snd (next_action e p s) = snd (transaction (\<lambda>s.
       bind_r (require_bound e p s) (\<lambda>r.
         if w_status r = ABSENT then
           bind_r (write_row (r\<lparr>w_status := IN_FLIGHT\<rparr>)) (\<lambda>t.
           bind_r (require_bound e p t) (\<lambda>r'. Inr ((decode_snapshot r', True), t)))
         else Inr ((decode_snapshot r, False), s))) s)"
    unfolding next_action_def by (simp add: bind_op_state split: prod.splits sum.splits)
  show ?thesis unfolding st
    by (rule transaction_worm)
      (auto simp: result_simps intro: worm_write.skip worm_write.move row_move.dispatch split: if_splits)
qed

lemma mark_absent_write: "worm_write sha s (snd (mark_absent e p d s))"
proof (cases "matches DIGEST d")
  case True
  then show ?thesis unfolding mark_absent_def
    by (simp, intro transaction_worm)
      (auto simp: result_simps intro: worm_write.skip worm_write.move row_move.absent split: if_splits)
qed (simp add: mark_absent_def worm_write.skip)

lemma accept_write: "worm_write sha s (snd (accept_version e p v s))"
proof (cases "validate_version_id v")
  case (Inr u)
  then have v: "1 \<le> length v" "length v \<le> 512" by (auto simp: validate_version_id_def Suc_le_eq split: if_splits)
  show ?thesis unfolding accept_version_def Inr bind_op_lift
    by (rule transaction_worm)
      (use v in \<open>auto simp: result_simps intro!: worm_write.skip worm_write.move row_move.accepted
         split: if_splits\<close>)
qed (simp add: accept_version_def worm_write.skip)

lemma mark_dispatched_hold_write: "worm_write sha s (snd (mark_dispatched_hold e p s))"
  unfolding mark_dispatched_hold_def
  by (rule transaction_worm)
    (auto simp: result_simps intro: worm_write.skip worm_write.move row_move.dispatched_hold split: if_splits)

lemma confirm_write: "worm_write sha s (snd (confirm e p worm s))"
  unfolding confirm_def
  by (rule transaction_worm)
    (auto simp: result_simps intro: worm_write.skip worm_write.move row_move.confirmed split: if_splits)

lemma hold_write: "worm_write sha s (snd (hold e p c s))"
proof (cases "matches HOLD_CODE c")
  case True
  then show ?thesis unfolding hold_def
    by (simp, intro transaction_worm)
      (auto simp: result_simps intro: worm_write.skip worm_write.move row_move.held split: if_splits)
qed (simp add: hold_def worm_write.skip)

lemma confirmed_state [simp]: "snd (confirmed e p s) = s"
  by (simp add: confirmed_def bind_op_state snapshot_def split: sum.splits prod.splits)

section \<open>Histories\<close>

datatype worm_call =
    Seal worm_input
  | Next js_string worm_pins
  | Mark_Absent js_string worm_pins js_string
  | Accept js_string worm_pins js_string
  | Mark_Dispatched_Hold js_string worm_pins
  | Confirm js_string worm_pins activation_worm
  | Hold js_string worm_pins js_string
  | Read js_string worm_pins

fun after_worm_call :: "hash \<Rightarrow> worm_call \<Rightarrow> worm_storage \<Rightarrow> worm_storage" where
  "after_worm_call sha (Seal i) s = snd (seal sha i s)"
| "after_worm_call sha (Next e p) s = snd (next_action e p s)"
| "after_worm_call sha (Mark_Absent e p d) s = snd (mark_absent e p d s)"
| "after_worm_call sha (Accept e p v) s = snd (accept_version e p v s)"
| "after_worm_call sha (Mark_Dispatched_Hold e p) s = snd (mark_dispatched_hold e p s)"
| "after_worm_call sha (Confirm e p w) s = snd (confirm e p w s)"
| "after_worm_call sha (Hold e p c) s = snd (hold e p c s)"
| "after_worm_call sha (Read e p) s = snd (confirmed e p s)"

inductive worm_steps :: "hash \<Rightarrow> worm_storage \<Rightarrow> worm_storage \<Rightarrow> bool" for sha :: hash where
  start: "worm_steps sha s s"
| call: "worm_steps sha s t \<Longrightarrow> worm_steps sha s (after_worm_call sha c t)"

lemma after_worm_call_write: "worm_write sha s (after_worm_call sha c s)"
  by (cases c) (simp_all add: seal_write next_write mark_absent_write accept_write
      mark_dispatched_hold_write confirm_write hold_write worm_write.skip)

definition confirmation_ok :: "worm_row \<Rightarrow> bool" where
  "confirmation_ok r \<longleftrightarrow>
     (\<exists>v t. w_worm_version_id r = Some v \<and> 1 \<le> length v \<and> length v \<le> 512 \<and>
        w_worm_retention_until r = Some t \<and> is_canonical_time t \<and>
        time_of (w_committed_at r) + RETENTION_MILLISECONDS \<le> time_of t \<and>
        (w_writer_version_id r = None \<or> w_writer_version_id r = Some v))"

definition worm_inv :: "hash \<Rightarrow> worm_storage \<Rightarrow> bool" where
  "worm_inv sha s \<longleftrightarrow>
     (case s of None \<Rightarrow> True
      | Some r \<Rightarrow> worm_row_ok r \<and>
          (\<exists>i p. prepare_effect sha i = Inr p \<and> same_effect (sealed_row p) r) \<and>
          (case w_absence_inventory_digest r of None \<Rightarrow> True | Some d \<Rightarrow> matches DIGEST d) \<and>
          (w_status r = CONFIRMED \<longrightarrow> confirmation_ok r))"

lemma validate_worm_confirms:
  assumes "validate_worm r worm = Inr ()"
    and "w_writer_version_id r = None \<or> w_writer_version_id r = Some (aw_version_id worm)"
  shows "confirmation_ok (r\<lparr>w_worm_version_id := Some (aw_version_id worm),
      w_worm_retention_until := Some (aw_retention_until worm), w_status := CONFIRMED\<rparr>)"
    and "length (aw_retention_until worm) = 24" and "is_canonical_time (aw_retention_until worm)"
    and "1 \<le> length (aw_version_id worm) \<and> length (aw_version_id worm) \<le> 512"
  using assms
  by (auto simp: validate_worm_def confirmation_ok_def validate_version_id_def
      canonical_effect_timestamp_def Suc_le_eq result_simps split: if_splits)

lemma same_effect_trans: "same_effect r s \<Longrightarrow> same_effect s t \<Longrightarrow> same_effect r t"
  by (simp add: same_effect_def)

lemma worm_write_inv:
  assumes "worm_write sha s t" and "worm_inv sha s"
  shows "worm_inv sha t"
  using assms(1)
proof cases
  case (sealed i p)
  then show ?thesis by (auto simp: worm_inv_def same_effect_def sealed_row_def)
next
  case (move r t')
  have same: "same_effect r t'" by (rule row_move_same [OF move(3)])
  have conf: "w_status t' = CONFIRMED \<longrightarrow> confirmation_ok t'"
    using move(3) by cases (auto intro: validate_worm_confirms(1))
  have dig: "case w_absence_inventory_digest t' of None \<Rightarrow> True | Some d \<Rightarrow> matches DIGEST d"
    using move(3) assms(2) move(1) by cases (auto simp: worm_inv_def)
  from assms(2) move(1) obtain i p where "prepare_effect sha i = Inr p" "same_effect (sealed_row p) r"
    by (auto simp: worm_inv_def)
  with same_effect_trans [OF this(2) same] conf dig move(2,4) show ?thesis
    by (auto simp: worm_inv_def)
qed (use assms in simp)

lemma worm_steps_inv: "worm_steps sha s t \<Longrightarrow> worm_inv sha s \<Longrightarrow> worm_inv sha t"
  by (induction rule: worm_steps.induct) (blast intro: worm_write_inv after_worm_call_write)+

definition journal_le :: "worm_storage \<Rightarrow> worm_storage \<Rightarrow> bool" where
  "journal_le s t \<longleftrightarrow>
     (case s of None \<Rightarrow> True
      | Some r \<Rightarrow> (\<exists>r'. t = Some r' \<and> same_effect r r' \<and> w_status r \<le> w_status r' \<and>
                     (w_status r = CONFIRMED \<or> w_status r = HOLD \<longrightarrow> r' = r)))"

lemma journal_le_trans: "journal_le s t \<Longrightarrow> journal_le t u \<Longrightarrow> journal_le s u"
  by (fastforce simp: journal_le_def split: option.splits intro: same_effect_trans order_trans)

lemma worm_write_le: "worm_write sha s t \<Longrightarrow> journal_le s t"
proof (induction rule: worm_write.induct)
  case (move r t)
  then show ?case
    using row_move_final row_move_same row_move_le by (auto simp: journal_le_def)
qed (auto simp: journal_le_def same_effect_def split: option.splits)

lemma worm_steps_le: "worm_steps sha s t \<Longrightarrow> journal_le s t"
proof (induction rule: worm_steps.induct)
  case (start s)
  show ?case by (rule worm_write_le [OF worm_write.skip])
next
  case (call s t c)
  from journal_le_trans [OF this(2) worm_write_le [OF after_worm_call_write]] show ?case .
qed

text \<open>A dispatch is granted only where the row is \<open>ABSENT\<close>, and moves it past that for good.\<close>

lemma decode_status: "s_status (decode_snapshot r) = w_status r"
  by (simp add: decode_snapshot_def)

lemma next_dispatch:
  assumes "next_action e p s = (Inr (DISPATCH, x), t)"
  shows "\<exists>r. s = Some r \<and> w_status r = ABSENT \<and> t = Some (r\<lparr>w_status := IN_FLIGHT\<rparr>)"
  using assms
  by (auto simp: next_action_def op_simps result_simps action_for_def decode_snapshot_def
      split: if_splits worm_status.splits)

section \<open>Constraints\<close>

lemma visible_append: "visible (s @ t) \<longleftrightarrow> visible s \<and> visible t"
  by (auto simp: visible_def ball_Un)

lemma hex_digit_visible: "n < 16 \<Longrightarrow> 0 < hex_digit n \<and> hex_digit n \<le> 0x7F"
  by (auto simp: hex_digit_def word_less_nat_alt word_le_nat_alt unat_unit simp del: of_nat_add)

lemma hex_bytes_visible: "visible (hex_bytes bs)"
proof (induction bs)
  case (Cons b bs)
  have "unat b < 2 ^ LENGTH(8)" by (rule unsigned_less)
  then have "unat b div 16 < 16" "unat b mod 16 < 16" by simp_all
  with Cons show ?case
    by (simp add: hex_bytes_def visible_def hex_digit_visible [of "unat b div 16"]
        hex_digit_visible [of "unat b mod 16"])
qed (simp add: hex_bytes_def visible_def)

lemma length_hex_bytes [simp]: "length (hex_bytes bs) = 2 * length bs"
  by (induction bs) (simp_all add: hex_bytes_def)

lemma visible_sha256_tag: "visible (js ''sha256:'')"
  by (simp add: visible_def js_def)

lemma canonical_timestamp_length: "canonical_effect_timestamp v = Inr u \<Longrightarrow> u = v \<and> sql_length v = 24"
  using sql_length_matches [of TIMESTAMP v] TIMESTAMP_length [of v]
  by (auto simp: canonical_effect_timestamp_def is_canonical_time_def date_parse_def Let_def
      split: if_splits option.splits)

lemma allowed_key_length: "is_allowed_b2_exact_key k \<Longrightarrow> sql_length k = length k \<and> length k \<le> 512"
  using printable_patterns(6)
  by (auto simp: is_allowed_b2_exact_key_def list_ex_iff list_all_iff intro: sql_length_matches)

lemma allowed_key_nonempty: "is_allowed_b2_exact_key k \<Longrightarrow> 1 \<le> length k"
  by (cases k) (simp_all add: is_allowed_b2_exact_key_def EXACT_KEYS_def OBSERVATION_KIND_def VERSION_SHAPE_def)

lemma valid_pins_lengths:
  assumes "valid_pins p"
  shows "1 \<le> sql_length (executor_service_identity p) \<and> sql_length (executor_service_identity p) \<le> 512"
    and "1 \<le> sql_length (observer_service_identity p) \<and> sql_length (observer_service_identity p) \<le> 512"
    and "sql_length (executor_version_id p) = 36" and "sql_length (observer_version_id p) = 36"
    and "executor_service_identity p \<noteq> observer_service_identity p"
proof -
  have m: "matches SERVICE_IDENTITY (executor_service_identity p)"
    "matches SERVICE_IDENTITY (observer_service_identity p)" "matches VERSION_SHAPE (executor_version_id p)"
    "matches VERSION_SHAPE (observer_version_id p)"
    using assms by (simp_all add: valid_pins_def)
  note l = m [THEN sql_length_matches [rotated]]
  show "1 \<le> sql_length (executor_service_identity p) \<and> sql_length (executor_service_identity p) \<le> 512"
    "1 \<le> sql_length (observer_service_identity p) \<and> sql_length (observer_service_identity p) \<le> 512"
    "sql_length (executor_version_id p) = 36" "sql_length (observer_version_id p) = 36"
    using l SERVICE_IDENTITY_length [OF m(1)] SERVICE_IDENTITY_length [OF m(2)]
      VERSION_SHAPE_length [OF m(3)] VERSION_SHAPE_length [OF m(4)] by simp_all
qed (use assms in \<open>simp add: valid_pins_def\<close>)

lemma prepared_row_ok:
  assumes sha: "\<And>bs. length (sha bs) = 32" and "prepare_effect sha i = Inr p"
  shows "worm_row_ok (sealed_row p)"
proof -
  have p: "in_pins p = in_pins i" "valid_pins (in_pins i)" "in_committed_at p = in_committed_at i"
    "in_canonical_bytes p = in_canonical_bytes i"
    "1 \<le> length (in_canonical_bytes i)" "length (in_canonical_bytes i) \<le> 65536"
    "canonical_effect_timestamp (in_committed_at i) = Inr (in_committed_at i)"
    "in_digest p = in_digest i" "matches DIGEST (in_digest i)" "in_key p = in_key i"
    "is_allowed_b2_exact_key (in_key i)"
    and id: "\<exists>bs. in_effect_id p = js ''sha256:'' @ sha256_hex sha bs"
    using assms(2) unfolding prepare_effect_def prepare_with_key_policy_def WORM_EXACT_OBJECT_MAX_BYTES_def
    by (auto simp: copy_and_validate_pins_def result_simps Suc_le_eq canonical_effect_timestamp_def
        split: if_splits)
  have eid: "sql_length (in_effect_id p) = 71"
    using id sha by (auto simp: sql_length_visible visible_append visible_sha256_tag sha256_hex_def
        hex_bytes_visible)
  show ?thesis
    using p(1-10) eid canonical_timestamp_length [OF p(7)] allowed_key_length [OF p(11)]
      allowed_key_nonempty [OF p(11)] valid_pins_lengths [OF p(2)] sql_length_matches [of DIGEST]
      DIGEST_length [OF p(9)]
    by (simp add: worm_row_ok_def sealed_row_def status_columns_ok_def null_or_def)
qed

section \<open>A sample effect\<close>

lemma matches_seqs: "rs \<noteq> [] \<Longrightarrow> matches r u \<Longrightarrow> matches (seqs rs) v \<Longrightarrow> matches (seqs (r # rs)) (u @ v)"
  by (cases rs) (simp_all add: matches_SeqI)

lemma matches_replicate: "in_cls rs c \<Longrightarrow> matches (Rep (Cls rs) n n) (replicate n c)"
  by (auto simp: matches_Rep_Cls)

lemma matches_one: "in_cls rs c \<Longrightarrow> matches (Cls rs) [c]"
  by (simp add: matches_Cls)

definition hexs :: "nat \<Rightarrow> char \<Rightarrow> js_string" where
  "hexs n c = replicate n (of_char c)"

definition sample_version :: "char \<Rightarrow> js_string" where
  "sample_version c = hexs 8 c @ js ''-'' @ (hexs 4 c @ js ''-'') @ (hexs 4 c @ js ''-'') @
     (hexs 4 c @ js ''-'') @ hexs 12 c"

lemma hexs_matches: "in_cls ''09af'' (of_char c) \<Longrightarrow> matches (hexes n) (hexs n c)"
  unfolding hexs_def by (rule matches_replicate)

lemma hexs_ascii: "(of_char c :: code_unit) \<le> 0x7F \<Longrightarrow> ascii (hexs n c)"
  by (auto simp: hexs_def ascii_def)

lemma length_hexs [simp]: "length (hexs n c) = n"
  by (simp add: hexs_def)

lemma sample_version_matches:
  assumes "in_cls ''09af'' (of_char c)"
  shows "matches VERSION_SHAPE (sample_version c)"
proof -
  have "(hexs 4 c @ js ''-'') @ (hexs 4 c @ js ''-'') @ (hexs 4 c @ js ''-'') \<in>
      pow (lang (Seq (hexes 4) (Lit ''-''))) 3"
  proof -
    have "hexs 4 c @ js ''-'' \<in> lang (Seq (hexes 4) (Lit ''-''))"
      using matches_SeqI [OF hexs_matches [OF assms, of 4] matches_Lit_js [of "''-''"]]
      by (simp only: matches_iff_lang)
    then show ?thesis by (auto simp: numeral_3_eq_3 in_conc simp del: append_assoc lang.simps)
  qed
  then have "matches (Rep (Seq (hexes 4) (Lit ''-'')) 3 3)
      ((hexs 4 c @ js ''-'') @ (hexs 4 c @ js ''-'') @ (hexs 4 c @ js ''-''))"
    by (simp add: matches_iff_lang)
  from matches_SeqI [OF hexs_matches [OF assms] matches_SeqI [OF matches_Lit_js matches_SeqI [OF this
      hexs_matches [OF assms]]]]
  show ?thesis by (simp add: VERSION_SHAPE_def sample_version_def)
qed

definition sample_identity :: "char \<Rightarrow> js_string" where
  "sample_identity c = js ''cloudflare-worker:'' @ hexs 32 c @ js ''/'' @ [of_char CHR ''w''] @ [] @
     js ''@'' @ sample_version c"

lemma sample_identity_matches:
  assumes "in_cls ''09af'' (of_char c)"
  shows "matches SERVICE_IDENTITY (sample_identity c)"
  unfolding SERVICE_IDENTITY_def sample_identity_def
  by (intro matches_seqs matches_Lit_js hexs_matches assms matches_one)
    (simp_all add: sample_version_matches [OF assms])

definition sample_pins :: worm_pins where
  "sample_pins =
     \<lparr>executor_service_identity = sample_identity CHR ''a'', executor_version_id = sample_version CHR ''a'',
      observer_service_identity = sample_identity CHR ''b'', observer_version_id = sample_version CHR ''b''\<rparr>"

lemma ends_with_append: "ends_with (s @ t) t"
  by (simp add: ends_with_def)

lemma sample_pins_valid: "valid_pins sample_pins"
proof -
  have "ends_with (sample_identity c) (js ''@'' @ sample_version c)" for c
    using ends_with_append [of "js ''cloudflare-worker:'' @ hexs 32 c @ js ''/'' @ [of_char CHR ''w'']"
        "js ''@'' @ sample_version c"]
    by (simp add: sample_identity_def)
  moreover have "sample_identity CHR ''a'' \<noteq> sample_identity CHR ''b''"
    by (simp add: sample_identity_def hexs_def)
  ultimately show ?thesis
    by (simp add: valid_pins_def sample_pins_def sample_version_matches sample_identity_matches)
qed

definition sample_time :: js_string where
  "sample_time = iso_string 1767225600000"

lemma sample_time_canonical: "is_canonical_time sample_time"
  unfolding sample_time_def by (rule canonical_time_iso_string) (simp_all add: year_of_ms_def
    year_from_day_def day_from_year_def Let_def)

definition sample_key :: js_string where
  "sample_key = js ''receipts/v1/activation-head/generations/'' @ replicate 20 (of_char CHR ''0'') @
     js ''-'' @ hexs 64 CHR ''c'' @ js ''.json''"

lemma sample_key_allowed: "is_allowed_b2_exact_key sample_key"
proof -
  have "matches (seqs [Lit ''receipts/v1/activation-head/generations/'', Rep (Cls ''09'') 20 20, Lit ''-'',
      hexes 64, Lit ''.json'']) sample_key"
    unfolding sample_key_def
    by (intro matches_seqs matches_Lit_js hexs_matches matches_replicate) (simp_all add: matches_Lit_js)
  moreover have "length sample_key \<le> 512" by (simp add: sample_key_def)
  ultimately show ?thesis by (simp add: is_allowed_b2_exact_key_def EXACT_KEYS_def)
qed

definition sample_input :: worm_input where
  "sample_input = \<lparr>in_canonical_bytes = [1], in_committed_at = sample_time, in_digest = zero_digest,
     in_key = sample_key, in_pins = sample_pins\<rparr>"

definition sample_prepared :: prepared_worm where
  "sample_prepared = \<lparr>in_canonical_bytes = [1], in_committed_at = sample_time, in_digest = zero_digest,
     in_key = sample_key, in_pins = sample_pins, in_effect_id = zero_digest\<rparr>"

lemma timing_safe_equal_refl [simp]: "timing_safe_equal s s"
  unfolding timing_safe_equal_def Let_def fold_or_eq_0 by simp

lemma matches_ascii: "printable r \<Longrightarrow> matches r s \<Longrightarrow> ascii s"
  by (auto simp: matches_iff_lang dest: printable_visible intro: visible_ascii)

text \<open>The identity of an effect whose fields are valid always has a canonical text.\<close>

lemma effect_identity_canonical:
  assumes "valid_pins (in_pins i)" and "is_canonical_time (in_committed_at i)"
    and "matches DIGEST (in_digest i)" and "is_allowed_b2_exact_key (in_key i)"
    and "length (in_canonical_bytes i) \<le> 65536"
  shows "\<exists>bs. canonical_bytes (effect_identity i) = Inr bs"
proof -
  let ?p = "in_pins i"
  have m: "matches SERVICE_IDENTITY (executor_service_identity ?p)"
    "matches SERVICE_IDENTITY (observer_service_identity ?p)" "matches VERSION_SHAPE (executor_version_id ?p)"
    "matches VERSION_SHAPE (observer_version_id ?p)"
    using assms(1) by (simp_all add: valid_pins_def)
  have l: "length (executor_service_identity ?p) \<le> 512" "length (observer_service_identity ?p) \<le> 512"
    "length (executor_version_id ?p) = 36" "length (observer_version_id ?p) = 36"
    "length (in_digest i) = 71" "length (in_key i) \<le> 512" "length (in_committed_at i) = 24"
    using SERVICE_IDENTITY_length [OF m(1)] SERVICE_IDENTITY_length [OF m(2)] VERSION_SHAPE_length [OF m(3)]
      VERSION_SHAPE_length [OF m(4)] DIGEST_length [OF assms(3)] allowed_key_length [OF assms(4)]
      canonical_timeD(2) [OF assms(2)] by simp_all
  have "ascii (in_key i)"
    using assms(4) printable_patterns(6)
    by (auto simp: is_allowed_b2_exact_key_def list_ex_iff list_all_iff intro: matches_ascii)
  moreover have "ascii (in_committed_at i)"
    using assms(2) matches_ascii [of TIMESTAMP "in_committed_at i"]
    by (auto simp: is_canonical_time_def date_parse_def Let_def split: option.splits if_splits)
  ultimately have ascii: "ascii s" "length s \<le> 512"
    if "s \<in> {executor_service_identity ?p, observer_service_identity ?p, executor_version_id ?p,
      observer_version_id ?p, in_digest i, in_key i, in_committed_at i}" for s
    using that m [THEN matches_ascii [rotated]] matches_ascii [OF _ assms(3)] l by auto
  have str: "encodable (JStr s)"
    if "s \<in> {executor_service_identity ?p, observer_service_identity ?p, executor_version_id ?p,
      observer_version_id ?p, in_digest i, in_key i, in_committed_at i}" for s
    using ascii [OF that] by (intro ascii_encodable) (simp_all add: MAX_STRING_BYTES_def)
  have schema: "encodable (JStr (js ''dpone.worm-exact-object-effect.v1''))"
    by (intro ascii_encodable ascii_js) (simp_all add: MAX_STRING_BYTES_def)
  have key: "is_bounded_ascii (js k) MAX_KEY_BYTES"
    if "list_all (\<lambda>c. (of_char c :: code_unit) \<le> 0x7F) k" "k \<noteq> []" "length k \<le> 128" for k
    using that by (simp add: is_bounded_ascii_def ascii_js MAX_KEY_BYTES_def)
  have "encodable (effect_identity i)"
    using assms(5) unfolding effect_identity_def
    by (simp add: str schema key MAX_MAPPING_ENTRIES_def JI_def is_safe_integer_def max_safe_def
        del: encodable.simps(5))
  moreover have "height (effect_identity i) \<le> MAX_DEPTH" "int (nodes (effect_identity i)) \<le> MAX_NODES"
    by (simp_all add: effect_identity_def JI_def deepest_def MAX_DEPTH_def MAX_NODES_def)
  moreover have "3 * weight (effect_identity i) \<le> MAX_CANONICAL_BYTES"
    using l by (simp add: effect_identity_def JI_def MAX_CANONICAL_BYTES_def)
  ultimately obtain t where "canonical_json (effect_identity i) = Inr t"
    using canonical_json_total [of "effect_identity i"] by (auto simp: effect_identity_def is_json_object_def)
  then show ?thesis by (simp add: canonical_bytes_def)
qed

lemma sample_effect_prepared: "prepare_effect zero_sha sample_input = Inr sample_prepared"
proof -
  have "length sample_time = 24" using canonical_timeD(2) [OF sample_time_canonical] .
  moreover obtain bs where "canonical_bytes (effect_identity sample_input) = Inr bs"
    using effect_identity_canonical [of sample_input] sample_pins_valid sample_time_canonical
      zero_digest_props(1) sample_key_allowed by (auto simp: sample_input_def)
  ultimately show ?thesis
    by (simp add: prepare_effect_def prepare_with_key_policy_def sample_prepared_def
        copy_and_validate_pins_def canonical_effect_timestamp_def zero_sha_hex sha256_hex_def)
      (simp add: sample_input_def sample_pins_valid sample_time_canonical zero_digest_props
        sample_key_allowed WORM_EXACT_OBJECT_MAX_BYTES_def zero_sha_hex)
qed

lemma sample_row_ok: "worm_row_ok (sealed_row sample_prepared)"
  by (rule prepared_row_ok [OF _ sample_effect_prepared]) (simp add: zero_sha_def)

abbreviation sample_row :: worm_row where
  "sample_row \<equiv> sealed_row sample_prepared"

lemma sample_seal: "seal zero_sha sample_input None = (Inr (decode_snapshot sample_row), Some sample_row)"
  by (simp add: seal_def sample_effect_prepared transaction_def write_row_def sample_row_ok bind_op_def
      snapshot_def require_bound_def copy_and_validate_pins_def)
    (simp add: sample_prepared_def sealed_row_def sample_pins_valid)

text \<open>The row once its absence has been proved, and the dispatch granted on it.\<close>

abbreviation sample_absent :: worm_row where
  "sample_absent \<equiv> sample_row\<lparr>w_absence_inventory_digest := Some zero_digest, w_status := ABSENT\<rparr>"

lemma zero_digest_sql: "sql_length zero_digest = 71"
  using sql_length_matches [OF _ zero_digest_props(1)] zero_digest_props(3) by simp

lemma sample_absent_ok: "worm_row_ok sample_absent" "worm_row_ok (sample_absent\<lparr>w_status := IN_FLIGHT\<rparr>)"
  using sample_row_ok
  by (simp_all add: worm_row_ok_def sealed_row_def status_columns_ok_def null_or_def zero_digest_sql)

lemma sample_bound: "w_effect_id sample_row = zero_digest" "w_pins sample_row = sample_pins"
  "w_status sample_row = PREPARED"
  by (simp_all add: sealed_row_def sample_prepared_def)

lemma sample_mark_absent:
  "mark_absent zero_digest sample_pins zero_digest (Some sample_row) = (Inr (), Some sample_absent)"
  using sample_absent_ok
  by (simp add: mark_absent_def zero_digest_props transaction_def require_bound_def
      copy_and_validate_pins_def sample_pins_valid sample_bound write_row_def)

lemma sample_next:
  "next_action zero_digest sample_pins (Some sample_absent) =
     (Inr (DISPATCH, decode_snapshot (sample_absent\<lparr>w_status := IN_FLIGHT\<rparr>)),
      Some (sample_absent\<lparr>w_status := IN_FLIGHT\<rparr>))"
  using sample_absent_ok
  by (simp add: next_action_def transaction_def bind_op_def require_bound_def copy_and_validate_pins_def
      sample_pins_valid sample_bound write_row_def action_for_def decode_status)

section \<open>Moves keep the constraints\<close>

lemma sql_length_le: "sql_length s \<le> length s"
proof -
  have "length (code_points u) \<le> length u" for u
  proof (induction "length u" arbitrary: u rule: less_induct)
    case less
    show ?case
    proof (cases u)
      case (Cons c cs)
      have 1: "length (code_points cs) \<le> length cs" using less Cons by simp
      show ?thesis
      proof (cases "is_high c \<and> (\<exists>d ds. cs = d # ds \<and> is_low d)")
        case True
        then obtain d ds where d: "is_high c" "cs = d # ds" "is_low d" by blast
        have "length (code_points ds) \<le> length ds" using less Cons d by simp
        with d Cons show ?thesis by (simp add: code_points_cases)
      next
        case False
        then have "\<exists>p. code_points u = p # code_points cs"
          unfolding Cons by (cases "is_high c"; cases "is_low c"; cases cs) (auto simp: code_points_cases)
        with 1 Cons show ?thesis by auto
      qed
    qed simp
  qed
  then show ?thesis unfolding sql_length_def by (meson length_takeWhile_le order_trans)
qed

text \<open>A version id is acceptable to the table unless SQLite would read it as empty.\<close>

definition readable :: "js_string \<Rightarrow> bool" where
  "readable v \<longleftrightarrow> 1 \<le> sql_length v"

lemma row_move_ok:
  assumes "row_move r t" and "worm_row_ok r"
    and "\<And>v. w_writer_version_id t = Some v \<Longrightarrow> readable v" "\<And>v. w_worm_version_id t = Some v \<Longrightarrow> readable v"
  shows "worm_row_ok t"
  using assms(1)
proof cases
  case (absent d)
  with assms(2) sql_length_matches [of DIGEST d] DIGEST_length [of d] show ?thesis
    by (simp add: worm_row_ok_def status_columns_ok_def null_or_def)
next
  case dispatch
  with assms(2) show ?thesis by (simp add: worm_row_ok_def status_columns_ok_def null_or_def)
next
  case (accepted v)
  then have "sql_length v \<le> 512" using sql_length_le [of v] by simp
  moreover have "1 \<le> sql_length v" using assms(3) accepted(1) by (simp add: readable_def)
  ultimately show ?thesis using accepted(2) assms(2) unfolding accepted(1)
    by (auto simp: worm_row_ok_def status_columns_ok_def null_or_def)
next
  case dispatched_hold
  with assms(2) show ?thesis by (auto simp: worm_row_ok_def status_columns_ok_def)
next
  case (confirmed worm)
  note c = validate_worm_confirms(2-4) [OF confirmed(4,3)]
  have "sql_length (aw_version_id worm) \<le> 512" using c(3) sql_length_le [of "aw_version_id worm"] by simp
  moreover have "sql_length (aw_retention_until worm) = 24"
    using c(1,2) canonical_timestamp_length [of "aw_retention_until worm"]
    by (simp add: canonical_effect_timestamp_def)
  ultimately show ?thesis using confirmed assms(2,4)
    by (auto simp: worm_row_ok_def status_columns_ok_def null_or_def readable_def)
next
  case (held c)
  have "1 \<le> sql_length c" "sql_length c \<le> 128"
    using sql_length_matches [of HOLD_CODE c] HOLD_CODE_length [OF held(4)] held(4) by simp_all
  then show ?thesis using assms(2) held(2,3) unfolding held(1)
    by (cases "w_status r") (auto simp: worm_row_ok_def status_columns_ok_def null_or_def)
qed

definition sample_until :: js_string where
  "sample_until = iso_string (1767225600000 + RETENTION_MILLISECONDS)"

lemma sample_times:
  "date_parse sample_time = Some 1767225600000"
  "date_parse sample_until = Some (1767225600000 + RETENTION_MILLISECONDS)"
  "is_canonical_time sample_until" "ascii sample_until" "length sample_until = 24"
proof -
  show "date_parse sample_time = Some 1767225600000"
    unfolding sample_time_def by (rule date_parse_iso_string) (simp_all add: year_of_ms_def
      year_from_day_def day_from_year_def Let_def)
  show "date_parse sample_until = Some (1767225600000 + RETENTION_MILLISECONDS)"
    unfolding sample_until_def by (rule date_parse_iso_string) (simp_all add: year_of_ms_def
      year_from_day_def day_from_year_def Let_def RETENTION_MILLISECONDS_def)
  show can: "is_canonical_time sample_until"
    unfolding sample_until_def by (rule canonical_time_iso_string) (simp_all add: year_of_ms_def
      year_from_day_def day_from_year_def Let_def RETENTION_MILLISECONDS_def)
  then show "ascii sample_until"
    using matches_ascii [of TIMESTAMP sample_until]
    by (auto simp: is_canonical_time_def date_parse_def Let_def split: option.splits if_splits)
  show "length sample_until = 24" by (rule canonical_timeD(2) [OF can])
qed

end
