(* ===== verification/WormSafety.thy ===== *)
theory WormSafety imports WormHistory begin

text \<open>
  What the exact-object journal promises over every history of calls: its invariant, the finality of
  its end states, that a dispatch is granted at most once, and that it never runs into a constraint
  of its own table. A sample effect witnesses each of them.
\<close>

section \<open>A sample history\<close>

abbreviation sample_in_flight :: worm_row where
  "sample_in_flight \<equiv> sample_absent\<lparr>w_status := IN_FLIGHT\<rparr>"

lemma sample_worm_steps:
  "worm_steps zero_sha None (Some sample_row)"
  "worm_steps zero_sha None (Some sample_absent)"
  "worm_steps zero_sha None (Some sample_in_flight)"
proof -
  have 0: "worm_steps zero_sha None (after_worm_call zero_sha (Seal sample_input) None)"
    by (intro worm_steps.intros)
  then show 1: "worm_steps zero_sha None (Some sample_row)" by (simp add: sample_seal)
  from worm_steps.call [OF this, of "Mark_Absent zero_digest sample_pins zero_digest"]
  show 2: "worm_steps zero_sha None (Some sample_absent)" by (simp add: sample_mark_absent)
  from worm_steps.call [OF this, of "Next zero_digest sample_pins"]
  show "worm_steps zero_sha None (Some sample_in_flight)" by (simp add: sample_next)
qed

lemma sample_dispatch_history:
  "worm_steps zero_sha (Some sample_absent) (Some sample_in_flight)"
  using worm_steps.call [OF worm_steps.start [of zero_sha "Some sample_absent"], of "Next zero_digest sample_pins"]
  by (simp add: sample_next)

section \<open>No constraint is ever violated\<close>

fun readable_call :: "worm_call \<Rightarrow> bool" where
  "readable_call (Accept e p v) \<longleftrightarrow> readable v"
| "readable_call (Confirm e p w) \<longleftrightarrow> readable (aw_version_id w)"
| "readable_call _ \<longleftrightarrow> True"

text \<open>The result of a call, whatever value it returns.\<close>

definition outcome :: "'a result \<Rightarrow> unit result" where
  "outcome r = bind_r r (\<lambda>_. Inr ())"

fun worm_outcome :: "hash \<Rightarrow> worm_call \<Rightarrow> worm_storage \<Rightarrow> unit result" where
  "worm_outcome sha (Seal i) s = outcome (fst (seal sha i s))"
| "worm_outcome sha (Next e p) s = outcome (fst (next_action e p s))"
| "worm_outcome sha (Mark_Absent e p d) s = outcome (fst (mark_absent e p d s))"
| "worm_outcome sha (Accept e p v) s = outcome (fst (accept_version e p v s))"
| "worm_outcome sha (Mark_Dispatched_Hold e p) s = outcome (fst (mark_dispatched_hold e p s))"
| "worm_outcome sha (Confirm e p w) s = outcome (fst (confirm e p w s))"
| "worm_outcome sha (Hold e p c) s = outcome (fst (hold e p c s))"
| "worm_outcome sha (Read e p) s = outcome (fst (confirmed e p s))"

lemma outcome_broker_only [simp]: "broker_only (outcome r) \<longleftrightarrow> broker_only r"
  by (cases r) (auto simp: outcome_def broker_only_def)

lemma effect_error_broker_only [simp, broker_only_intros]: "broker_only (Inl (effect_error c b))"
  by (simp add: effect_error_def)

lemma require_bound_broker_only [broker_only_intros]: "broker_only (require_bound e p s)"
  by (auto simp: require_bound_def copy_and_validate_pins_def split: option.splits)

lemma write_row_broker_only: "worm_row_ok r \<Longrightarrow> broker_only (write_row r)"
  by (simp add: write_row_def)

lemma version_errors_broker_only [simp, broker_only_intros]:
  "broker_only (Inl version_conflict)" "broker_only (validate_version_id v)"
  by (simp_all add: version_conflict_def validate_version_id_def)

lemma validate_worm_broker_only [broker_only_intros]: "broker_only (validate_worm r w)"
  by (auto simp: validate_worm_def canonical_effect_timestamp_def intro!: broker_only_intros)

lemma prepare_broker_only [broker_only_intros]: "broker_only (prepare_effect sha i)"
  by (auto simp: prepare_effect_def prepare_with_key_policy_def copy_and_validate_pins_def
      canonical_effect_timestamp_def intro!: broker_only_intros split: sum.splits)

lemma action_for_broker_only [broker_only_intros]: "broker_only (action_for st claimed)"
  by (cases st) (simp_all add: action_for_def)

lemma snapshot_broker_only [broker_only_intros]: "broker_only (fst (snapshot e p s))"
  by (auto simp: snapshot_def intro!: broker_only_intros)

lemma row_move_write_broker_only:
  assumes "row_move r t" and "worm_inv sha (Some r)"
    and "\<And>v. w_writer_version_id t = Some v \<Longrightarrow> readable v" "\<And>v. w_worm_version_id t = Some v \<Longrightarrow> readable v"
  shows "broker_only (write_row t)"
  by (rule write_row_broker_only, rule row_move_ok [OF assms(1) _ assms(3,4)])
    (use assms(2) in \<open>simp add: worm_inv_def\<close>)

lemma stored_readable:
  assumes "worm_inv sha (Some r)"
  shows "w_writer_version_id r = Some v \<Longrightarrow> readable v" "w_worm_version_id r = Some v \<Longrightarrow> readable v"
  using assms by (auto simp: worm_inv_def worm_row_ok_def null_or_def readable_def)

text \<open>A transaction whose body writes only rows reached by one readable move.\<close>

lemma worm_ops_broker_only:
  assumes sha: "\<And>bs. length (sha bs) = 32" and inv: "worm_inv sha s"
  shows "broker_only (fst (seal sha i s))" and "broker_only (fst (next_action e p s))"
    and "broker_only (fst (mark_absent e p d s))" and "readable v \<Longrightarrow> broker_only (fst (accept_version e p v s))"
    and "broker_only (fst (mark_dispatched_hold e p s))"
    and "readable (aw_version_id w) \<Longrightarrow> broker_only (fst (confirm e p w s))"
    and "broker_only (fst (hold e p c s))" and "broker_only (fst (confirmed e p s))"
proof -
  have wr: "broker_only (write_row t)"
    if "require_bound e p s = Inr r" "row_move r t"
      "\<And>v. w_writer_version_id t = Some v \<Longrightarrow> w_writer_version_id r \<noteq> Some v \<Longrightarrow> readable v"
      "\<And>v. w_worm_version_id t = Some v \<Longrightarrow> w_worm_version_id r \<noteq> Some v \<Longrightarrow> readable v" for r t
    using that inv stored_readable [of sha r]
    by (intro row_move_write_broker_only [of r t sha]) (auto simp: result_simps)
  show "broker_only (fst (seal sha i s))"
    unfolding seal_def using prepared_row_ok [OF sha]
    by (intro broker_only_intros) (auto simp: op_simps result_simps intro!: broker_only_intros write_row_broker_only split: option.splits)
  show "broker_only (fst (next_action e p s))"
    unfolding next_action_def
    by (intro broker_only_intros wr) (auto simp: result_simps intro!: broker_only_intros row_move.dispatch)
  show "broker_only (fst (mark_absent e p d s))"
    unfolding mark_absent_def effect_error_def
    by (auto simp: effect_error_def intro!: broker_only_intros wr row_move.absent)
  show "broker_only (fst (mark_dispatched_hold e p s))"
    unfolding mark_dispatched_hold_def
    by (auto intro!: broker_only_intros wr row_move.dispatched_hold)
  show "broker_only (fst (hold e p c s))"
    unfolding hold_def effect_error_def
    by (auto simp: effect_error_def intro!: broker_only_intros wr row_move.held)
  show "broker_only (fst (accept_version e p v s))" if "readable v"
    unfolding accept_version_def using that
    by (intro broker_only_intros wr)
      (auto simp: validate_version_id_def Suc_le_eq intro!: broker_only_intros row_move.accepted split: if_splits)
  show "broker_only (fst (confirm e p w s))" if "readable (aw_version_id w)"
    unfolding confirm_def using that
    by (intro broker_only_intros wr) (auto intro!: broker_only_intros row_move.confirmed)
  show "broker_only (fst (confirmed e p s))"
    unfolding confirmed_def
    by (auto intro!: broker_only_intros split: option.splits)
qed

section \<open>What the effect identifier binds\<close>

lemma prepared_fields:
  assumes "prepare_effect sha i = Inr p"
  shows "p = \<lparr>in_canonical_bytes = in_canonical_bytes i, in_committed_at = in_committed_at i,
      in_digest = in_digest i, in_key = in_key i, in_pins = in_pins i, in_effect_id = in_effect_id p\<rparr>"
    and "\<exists>bs. canonical_bytes (effect_identity i) = Inr bs \<and> in_effect_id p = js ''sha256:'' @ sha256_hex sha bs"
    and "timing_safe_equal (js ''sha256:'' @ sha256_hex sha (in_canonical_bytes i)) (in_digest i)"
    and "in_effect_id p \<noteq> [] \<and> w_status (sealed_row p) = PREPARED"
  using assms unfolding prepare_effect_def prepare_with_key_policy_def
  by (auto simp: copy_and_validate_pins_def canonical_effect_timestamp_def result_simps js_def sealed_row_def
      split: if_splits)

lemma effect_identity_fields:
  assumes "normalise (effect_identity i) = normalise (effect_identity j)"
  shows "in_committed_at i = in_committed_at j \<and> in_digest i = in_digest j \<and> in_key i = in_key j \<and>
    in_pins i = in_pins j \<and> length (in_canonical_bytes i) = length (in_canonical_bytes j)"
  using assms by (simp add: effect_identity_def JI_def js_def number_int_def)

lemma effect_identity_well_formed: "well_formed (effect_identity i)"
  by (simp add: effect_identity_def JI_def)

definition identity_collision_free :: "hash \<Rightarrow> worm_input \<Rightarrow> worm_input \<Rightarrow> bool" where
  "identity_collision_free sha i j \<longleftrightarrow>
     (case (canonical_bytes (effect_identity i), canonical_bytes (effect_identity j)) of
        (Inr bs, Inr bs') \<Rightarrow> sha bs \<noteq> sha bs' \<or> bs = bs' | _ \<Rightarrow> True)"

section \<open>Properties\<close>

text \<open>C9: Every history of calls keeps the journal's invariant: the row satisfies the constraints of its
  table, still is the effect that was sealed, any absence digest is a tagged digest, and a
  confirmation names one version retained for the whole period after the commit.\<close>

theorem worm_journal_invariant:
  assumes "worm_steps sha None s"
  shows "worm_inv sha s"
  using worm_steps_inv [OF assms] by (simp add: worm_inv_def)

theorem worm_journal_invariant_witness: "worm_inv zero_sha (Some sample_in_flight)"
  by (rule worm_journal_invariant [OF sample_worm_steps(3)])

text \<open>The journal only moves forward: a sealed row keeps its effect, its status never goes back in the
  preorder of the statuses, and a CONFIRMED or HOLD row never changes again.\<close>

theorem journal_only_moves_forward:
  assumes "worm_steps sha (Some r) t"
  shows "\<exists>r'. t = Some r' \<and> same_effect r r' \<and> w_status r \<le> w_status r' \<and>
    (w_status r = CONFIRMED \<or> w_status r = HOLD \<longrightarrow> r' = r)"
  using worm_steps_le [OF assms] by (simp add: journal_le_def)

theorem journal_only_moves_forward_witness:
  "\<exists>r'. Some sample_in_flight = Some r' \<and> same_effect sample_absent r' \<and> w_status sample_absent \<le> w_status r' \<and>
    (w_status sample_absent = CONFIRMED \<or> w_status sample_absent = HOLD \<longrightarrow> r' = sample_absent)"
  by (rule journal_only_moves_forward [OF sample_dispatch_history])

text \<open>A dispatch is granted at most once in the life of a journal: after a call of next returned
  DISPATCH, no later call does, whatever happened in between.\<close>

theorem dispatch_granted_at_most_once:
  assumes "next_action e p s = (Inr (DISPATCH, x), t)" and "worm_steps sha t u"
  shows "next_action e' p' u \<noteq> (Inr (DISPATCH, y), v)"
proof
  assume "next_action e' p' u = (Inr (DISPATCH, y), v)"
  from next_dispatch [OF this] obtain r' where r': "u = Some r'" "w_status r' = ABSENT" by blast
  from next_dispatch [OF assms(1)] obtain r where "t = Some (r\<lparr>w_status := IN_FLIGHT\<rparr>)" by blast
  with worm_steps_le [OF assms(2)] r' show False by (simp add: journal_le_def less_eq_worm_status_def)
qed

theorem dispatch_granted_at_most_once_witness:
  "next_action zero_digest sample_pins (Some sample_in_flight) \<noteq>
     (Inr (DISPATCH, decode_snapshot sample_in_flight), Some sample_in_flight)"
  by (rule dispatch_granted_at_most_once [OF sample_next worm_steps.start])

text \<open>C10: Wherever a journal got to, a call with readable version identifiers never violates a constraint
  of the table: whatever it throws is an error of the broker's own.\<close>

theorem journal_never_violates_constraints:
  assumes "\<And>bs. length (sha bs) = 32" and "worm_steps sha None s" and "readable_call c"
  shows "broker_only (worm_outcome sha c s)"
proof -
  have "worm_inv sha s" using worm_steps_inv [OF assms(2)] by (simp add: worm_inv_def)
  note ops = worm_ops_broker_only [OF assms(1) this]
  show ?thesis using assms(3) by (cases c) (simp_all add: ops)
qed

theorem journal_never_violates_constraints_witness:
  "broker_only (worm_outcome zero_sha (Accept zero_digest sample_pins (js ''v1'')) (Some sample_in_flight))"
proof (rule journal_never_violates_constraints [OF _ sample_worm_steps(3)])
  show "readable_call (Accept zero_digest sample_pins (js ''v1''))"
    using sql_length_visible [of "js ''v1''"] by (simp add: readable_def visible_def js_def)
qed (simp add: zero_sha_def)

text \<open>The effect identifier binds the effect: two accepted inputs with one identifier are the same
  input, bytes and all, unless SHA-256 collides on their identities or on their contents.\<close>

theorem effect_id_binds_effect:
  assumes "prepare_effect sha i = Inr p" and "prepare_effect sha j = Inr q"
    and "in_effect_id p = in_effect_id q" and "identity_collision_free sha i j"
    and "sha (in_canonical_bytes i) \<noteq> sha (in_canonical_bytes j) \<or> in_canonical_bytes i = in_canonical_bytes j"
    and "\<And>bs. length (sha bs) = 32"
  shows "p = q"
proof -
  obtain bs bs' where bs: "canonical_bytes (effect_identity i) = Inr bs" "in_effect_id p = js ''sha256:'' @ sha256_hex sha bs"
    and bs': "canonical_bytes (effect_identity j) = Inr bs'" "in_effect_id q = js ''sha256:'' @ sha256_hex sha bs'"
    using prepared_fields(2) [OF assms(1)] prepared_fields(2) [OF assms(2)] by blast
  with assms(3) have "sha bs = sha bs'" by (simp add: sha256_hex_def hex_bytes_inj)
  with bs bs' assms(4) have eq: "bs = bs'" by (simp add: identity_collision_free_def)
  have same: "in_committed_at i = in_committed_at j \<and> in_digest i = in_digest j \<and> in_key i = in_key j \<and>
      in_pins i = in_pins j \<and> length (in_canonical_bytes i) = length (in_canonical_bytes j)"
    by (intro effect_identity_fields canonical_bytes_inj [OF bs(1)])
      (simp_all add: eq bs'(1) effect_identity_well_formed)
  have tag: "timing_safe_equal (js ''sha256:'' @ sha256_hex sha b) d \<Longrightarrow> matches DIGEST d \<Longrightarrow>
      d = js ''sha256:'' @ sha256_hex sha b" for b d
  proof -
    assume d: "timing_safe_equal (js ''sha256:'' @ sha256_hex sha b) d" "matches DIGEST d"
    have a: "ascii d" "ascii (js ''sha256:'' @ sha256_hex sha b)"
      using matches_ascii [OF _ d(2)] visible_ascii [OF hex_bytes_visible] visible_ascii [OF visible_sha256_tag]
      by (simp_all add: sha256_hex_def ascii_def ball_Un)
    have "length d = 71" using DIGEST_length [OF d(2)] .
    with a have "utf8_encode (js ''sha256:'' @ sha256_hex sha b) = utf8_encode d"
      using d(1) timing_safe_equal_iff [of "js ''sha256:'' @ sha256_hex sha b" d] assms(6) [of b]
      by (simp add: length_utf8_ascii sha256_hex_def)
    with a show "d = js ''sha256:'' @ sha256_hex sha b"
      using utf8_encode_inj ascii_scalars by metis
  qed
  have dig: "matches DIGEST (in_digest i)" "matches DIGEST (in_digest j)"
    using assms(1,2) unfolding prepare_effect_def prepare_with_key_policy_def
    by (auto simp: result_simps split: if_splits)
  have "js ''sha256:'' @ sha256_hex sha (in_canonical_bytes i) = js ''sha256:'' @ sha256_hex sha (in_canonical_bytes j)"
    using tag [OF prepared_fields(3) [OF assms(1)] dig(1)] tag [OF prepared_fields(3) [OF assms(2)] dig(2)] same
    by simp
  then have "in_canonical_bytes i = in_canonical_bytes j"
    using assms(5) hex_bytes_inj by (auto simp: sha256_hex_def)
  with same assms(3) show ?thesis
    by (subst prepared_fields(1) [OF assms(1)], subst prepared_fields(1) [OF assms(2)]) simp
qed

theorem effect_id_binds_effect_witness: "sample_prepared = sample_prepared"
  by (rule effect_id_binds_effect [OF sample_effect_prepared sample_effect_prepared])
    (simp_all add: identity_collision_free_def zero_sha_def split: sum.splits)

text \<open>Sealing is idempotent and exclusive: on a sealed journal, seal either returns the stored effect,
  when the input is the one that was sealed, or refuses it as a conflict; the journal never changes.\<close>

theorem sealed_journal_keeps_its_effect:
  assumes "worm_inv sha (Some r)" and "prepare_effect sha i = Inr p"
  shows "seal sha i (Some r) =
    (if same_effect (sealed_row p) r then Inr (decode_snapshot r)
     else Inl (effect_error ''WORM_EXACT_OBJECT_EFFECT_SEAL_CONFLICT'' False), Some r)"
proof -
  have valid: "valid_pins (in_pins p)"
    using assms(2) unfolding prepare_effect_def prepare_with_key_policy_def
    by (auto simp: copy_and_validate_pins_def result_simps split: if_splits)
  show ?thesis using assms(2) valid
    by (auto simp: seal_def transaction_def bind_op_def snapshot_def require_bound_def
        copy_and_validate_pins_def same_seal_def same_effect_def sealed_row_def)
qed

theorem sealed_journal_keeps_its_effect_witness:
  "seal zero_sha sample_input (Some sample_in_flight) = (Inr (decode_snapshot sample_in_flight), Some sample_in_flight)"
  using sealed_journal_keeps_its_effect [OF worm_steps_inv [OF sample_worm_steps(3)] sample_effect_prepared]
  by (simp add: worm_inv_def same_effect_def)

end
