(* ===== verification/WormRunner.thy ===== *)
theory WormRunner imports WormSafety begin

text \<open>
  The runner of one exact object effect (\<open>worm-exact-object-effect-runner.ts\<close>). It talks to the journal
  through the interface \<open>WormExactObjectEffectJournal\<close>, here a record of operations, and to the outside
  world, whose state \<open>'w\<close> is opaque, through the writer's \<open>uploadExact\<close> and the observer's
  \<open>inspectExactKey\<close>. What the runner needs of a journal is the locale \<open>dispatch_journal\<close>; the store of
  \<open>WormStore\<close> provides it.
\<close>

section \<open>The journal interface\<close>

record 'j worm_journal =
  j_accept :: "js_string \<Rightarrow> worm_pins \<Rightarrow> js_string \<Rightarrow> ('j, unit) op"
  j_confirm :: "js_string \<Rightarrow> worm_pins \<Rightarrow> activation_worm \<Rightarrow> ('j, unit) op"
  j_confirmed :: "js_string \<Rightarrow> worm_pins \<Rightarrow> ('j, confirmed_worm) op"
  j_hold :: "js_string \<Rightarrow> worm_pins \<Rightarrow> js_string \<Rightarrow> ('j, unit) op"
  j_mark_absent :: "js_string \<Rightarrow> worm_pins \<Rightarrow> js_string \<Rightarrow> ('j, unit) op"
  j_mark_dispatched_hold :: "js_string \<Rightarrow> worm_pins \<Rightarrow> ('j, unit) op"
  j_next :: "js_string \<Rightarrow> worm_pins \<Rightarrow> ('j, worm_action \<times> worm_snapshot) op"
  j_seal :: "worm_input \<Rightarrow> ('j, worm_snapshot) op"

record upload_request =
  u_canonical_bytes :: bytes
  u_content_sha1 :: js_string
  u_digest :: js_string
  u_key :: js_string

record 'w outside =
  upload_exact :: "upload_request \<Rightarrow> ('w, js_string) op"
  inspect_exact_key :: "js_string \<Rightarrow> ('w, b2_version_inventory) op"

definition on_journal :: "('j, 'a) op \<Rightarrow> ('j \<times> 'w, 'a) op" where
  "on_journal m = (\<lambda>(j, w). case m j of (r, j') \<Rightarrow> (r, (j', w)))"

definition on_world :: "('w, 'a) op \<Rightarrow> ('j \<times> 'w, 'a) op" where
  "on_world m = (\<lambda>(j, w). case m w of (r, w') \<Rightarrow> (r, (j, w')))"

text \<open>\<open>try m catch h\<close>: the handler runs in the state the error left.\<close>

definition catch_op :: "('s, 'a) op \<Rightarrow> (js_error \<Rightarrow> ('s, 'a) op) \<Rightarrow> ('s, 'a) op" where
  "catch_op m h = (\<lambda>s. case m s of (Inl e, t) \<Rightarrow> h e t | (Inr x, t) \<Rightarrow> (Inr x, t))"

section \<open>The runner\<close>

definition MAX_TRANSITIONS :: nat where "MAX_TRANSITIONS = 8"

definition runner_input :: "hash \<Rightarrow> worm_snapshot \<Rightarrow> exact_input" where
  "runner_input sha1 x =
     \<lparr>ei_bytes = s_canonical_bytes x, ei_committed_at = s_committed_at x,
      ei_content_sha1 = hex_bytes (sha1 (s_canonical_bytes x)), ei_digest = s_digest x, ei_key = s_key x\<rparr>"

definition upload_of :: "exact_input \<Rightarrow> upload_request" where
  "upload_of i = \<lparr>u_canonical_bytes = ei_bytes i, u_content_sha1 = ei_content_sha1 i,
     u_digest = ei_digest i, u_key = ei_key i\<rparr>"

fun normalize_observer_error :: "js_error \<Rightarrow> js_error" where
  "normalize_observer_error (Broker c st b) = Broker c st b"
| "normalize_observer_error _ = broker ''WORM_EXACT_OBJECT_EFFECT_OBSERVER_UNAVAILABLE'' 503 True"

text \<open>The hashes and the lenient date parser of the environment, passed to every step.\<close>

record runtime =
  rt_sha256 :: hash
  rt_sha1 :: hash
  rt_parse_date :: "js_string \<Rightarrow> int option"

definition check_absence ::
    "runtime \<Rightarrow> 'j worm_journal \<Rightarrow> 'w outside \<Rightarrow> worm_snapshot \<Rightarrow> ('j \<times> 'w, unit) op" where
  "check_absence rt J W x =
     catch_op
       (bind_op (on_world (assert_exact_object_absent (rt_sha256 rt) (rt_sha1 rt) (rt_parse_date rt)
                  (inspect_exact_key W) (runner_input (rt_sha1 rt) x))) (\<lambda>inventory_digest.
         on_journal (j_mark_absent J (s_effect_id x) (s_pins x) inventory_digest)))
       (\<lambda>error. let normalized = normalize_observer_error error in
         if \<not> err_retryable normalized
         then bind_op (on_journal (j_hold J (s_effect_id x) (s_pins x) (err_code normalized)))
                (\<lambda>_. fail_op normalized)
         else fail_op normalized)"

definition dispatch_once ::
    "runtime \<Rightarrow> 'j worm_journal \<Rightarrow> 'w outside \<Rightarrow> worm_snapshot \<Rightarrow> ('j \<times> 'w, unit) op" where
  "dispatch_once rt J W x =
     catch_op
       (bind_op (on_world (upload_exact W (upload_of (runner_input (rt_sha1 rt) x)))) (\<lambda>version_id.
         on_journal (j_accept J (s_effect_id x) (s_pins x) version_id)))
       (\<lambda>_. return_op ())"

definition reconcile ::
    "runtime \<Rightarrow> 'j worm_journal \<Rightarrow> 'w outside \<Rightarrow> worm_snapshot \<Rightarrow> ('j \<times> 'w, unit) op" where
  "reconcile rt J W x =
     catch_op
       (bind_op (on_world (reconcile_exact_object (rt_sha256 rt) (rt_sha1 rt) (rt_parse_date rt)
                  (inspect_exact_key W) (runner_input (rt_sha1 rt) x))) (\<lambda>worm.
         on_journal (j_confirm J (s_effect_id x) (s_pins x) worm)))
       (\<lambda>error. let normalized = normalize_observer_error error in
         bind_op
           (if err_retryable normalized
            then on_journal (j_mark_dispatched_hold J (s_effect_id x) (s_pins x))
            else on_journal (j_hold J (s_effect_id x) (s_pins x) (err_code normalized)))
           (\<lambda>_. fail_op normalized))"

text \<open>
  The loop of \<open>execute\<close>, at most \<open>n\<close> transitions; \<open>None\<close> when they are used up and the loop falls through.
\<close>

fun transitions ::
    "nat \<Rightarrow> runtime \<Rightarrow> 'j worm_journal \<Rightarrow> 'w outside \<Rightarrow> worm_snapshot \<Rightarrow> ('j \<times> 'w, confirmed_worm option) op" where
  "transitions 0 rt J W sealed = return_op None"
| "transitions (Suc n) rt J W sealed =
     bind_op (on_journal (j_next J (s_effect_id sealed) (s_pins sealed))) (\<lambda>(action, effect).
       case action of
         COMPLETE \<Rightarrow> bind_op (on_journal (j_confirmed J (s_effect_id sealed) (s_pins sealed)))
           (\<lambda>c. return_op (Some c))
       | STOP_HOLD \<Rightarrow> fail_op (Broker (case s_hold_code effect of Some c \<Rightarrow> c
           | None \<Rightarrow> js ''WORM_EXACT_OBJECT_EFFECT_HOLD'') 409 False)
       | CHECK_ABSENCE \<Rightarrow> bind_op (check_absence rt J W effect) (\<lambda>_. transitions n rt J W sealed)
       | DISPATCH \<Rightarrow> bind_op (dispatch_once rt J W effect) (\<lambda>_. transitions n rt J W sealed)
       | RECONCILE \<Rightarrow> bind_op (reconcile rt J W effect) (\<lambda>_. transitions n rt J W sealed))"

definition execute ::
    "runtime \<Rightarrow> 'j worm_journal \<Rightarrow> 'w outside \<Rightarrow> worm_input \<Rightarrow> ('j \<times> 'w, confirmed_worm) op" where
  "execute rt J W input =
     bind_op (on_journal (j_seal J input)) (\<lambda>sealed.
     bind_op (transitions MAX_TRANSITIONS rt J W sealed) (\<lambda>r. lift_op
       (case r of None \<Rightarrow> Inl (effect_error ''WORM_EXACT_OBJECT_EFFECT_TRANSITION_LIMIT'' True)
        | Some c \<Rightarrow> Inr c)))"

section \<open>What an operation leaves alone\<close>

lemma on_journal_apply: "on_journal m (j, w) = (fst (m j), (snd (m j), w))"
  by (simp add: on_journal_def split: prod.splits)

lemma on_world_apply: "on_world m (j, w) = (fst (m w), (j, snd (m w)))"
  by (simp add: on_world_def split: prod.splits)

text \<open>\<open>keeps I m\<close>: from a state with \<open>I\<close>, \<open>m\<close> ends in one, whether it returns or throws.\<close>

definition keeps :: "('s \<Rightarrow> bool) \<Rightarrow> ('s, 'a) op \<Rightarrow> bool" where
  "keeps I m \<longleftrightarrow> (\<forall>s. I s \<longrightarrow> I (snd (m s)))"

named_theorems keeps_intros

lemma keepsD: "keeps I m \<Longrightarrow> I s \<Longrightarrow> I (snd (m s))"
  by (simp add: keeps_def)

lemma keeps_basic [keeps_intros]:
  "keeps I (return_op x)" "keeps I (fail_op e)" "keeps I (lift_op r)"
  by (simp_all add: keeps_def)

lemma keeps_bind [keeps_intros]: "keeps I m \<Longrightarrow> (\<And>x. keeps I (f x)) \<Longrightarrow> keeps I (bind_op m f)"
  unfolding keeps_def by (auto simp: bind_op_state split: prod.splits sum.splits)

lemma keeps_catch [keeps_intros]: "keeps I m \<Longrightarrow> (\<And>e. keeps I (h e)) \<Longrightarrow> keeps I (catch_op m h)"
  unfolding keeps_def catch_op_def by (auto split: prod.splits sum.splits)

lemma keeps_if [keeps_intros]: "keeps I m \<Longrightarrow> keeps I m' \<Longrightarrow> keeps I (if c then m else m')"
  by simp

lemma keeps_journal: "(\<And>j w. I (j, w) \<Longrightarrow> I (snd (m j), w)) \<Longrightarrow> keeps I (on_journal m)"
  by (auto simp: keeps_def on_journal_apply)

lemma keeps_world: "(\<And>j w. I (j, w) \<Longrightarrow> I (j, snd (m w))) \<Longrightarrow> keeps I (on_world m)"
  by (auto simp: keeps_def on_world_apply)

text \<open>Observation only calls \<open>inspectExactKey\<close>.\<close>

lemma observation_keeps:
  assumes "\<And>k. keeps I (inspect k)"
  shows "keeps I (assert_exact_object_absent sha sha1 pd inspect i)"
    and "keeps I (reconcile_exact_object sha sha1 pd inspect i)"
  unfolding assert_exact_object_absent_def reconcile_exact_object_def exact_summary_def
  by (intro keeps_intros assms)+

section \<open>Journals that grant one dispatch\<close>

text \<open>
  What the runner relies on. \<open>granted j\<close> is the upload that a dispatch was granted for, once one was:
  no operation takes a grant back or changes it, and \<open>next\<close> answers \<open>DISPATCH\<close> only when there was no
  grant, leaving the grant of exactly the effect it returns.
\<close>

locale dispatch_journal =
  fixes J :: "'j worm_journal" and sha1 :: hash and granted :: "'j \<Rightarrow> upload_request option"
  assumes accept_keeps: "granted j = Some q \<Longrightarrow> granted (snd (j_accept J e p v j)) = Some q"
    and confirm_keeps: "granted j = Some q \<Longrightarrow> granted (snd (j_confirm J e p worm j)) = Some q"
    and confirmed_keeps: "granted j = Some q \<Longrightarrow> granted (snd (j_confirmed J e p j)) = Some q"
    and hold_keeps: "granted j = Some q \<Longrightarrow> granted (snd (j_hold J e p c j)) = Some q"
    and mark_absent_keeps: "granted j = Some q \<Longrightarrow> granted (snd (j_mark_absent J e p d j)) = Some q"
    and mark_dispatched_hold_keeps:
      "granted j = Some q \<Longrightarrow> granted (snd (j_mark_dispatched_hold J e p j)) = Some q"
    and next_keeps: "granted j = Some q \<Longrightarrow> granted (snd (j_next J e p j)) = Some q"
    and seal_keeps: "granted j = Some q \<Longrightarrow> granted (snd (j_seal J i j)) = Some q"
    and next_grants: "j_next J e p j = (Inr (DISPATCH, x), j') \<Longrightarrow>
      granted j = None \<and> granted j' = Some (upload_of (runner_input sha1 x))"
begin

text \<open>The world keeps a log of the uploads; a logged upload is the granted one, and there is one at most.\<close>

definition uploads_ok :: "'j \<times> (upload_request list \<times> 'w) \<Rightarrow> bool" where
  "uploads_ok s \<longleftrightarrow> (case s of (j, (log, w)) \<Rightarrow> log = [] \<or> (\<exists>q. log = [q] \<and> granted j = Some q))"

lemma uploads_ok_journal:
  assumes "\<And>j q. granted j = Some q \<Longrightarrow> granted (snd (m j)) = Some q"
  shows "keeps uploads_ok (on_journal m)"
  by (rule keeps_journal) (use assms in \<open>auto simp: uploads_ok_def\<close>)

lemmas journal_keeps = uploads_ok_journal [OF accept_keeps] uploads_ok_journal [OF confirm_keeps]
  uploads_ok_journal [OF confirmed_keeps] uploads_ok_journal [OF hold_keeps]
  uploads_ok_journal [OF mark_absent_keeps] uploads_ok_journal [OF mark_dispatched_hold_keeps]
  uploads_ok_journal [OF seal_keeps]

end

text \<open>The writer that logs what is uploaded, and the observer beside it.\<close>

definition logged :: "'w outside \<Rightarrow> (upload_request list \<times> 'w) outside" where
  "logged W =
     \<lparr>upload_exact = (\<lambda>q (log, w). case upload_exact W q w of (r, w') \<Rightarrow> (r, (log @ [q], w'))),
      inspect_exact_key = (\<lambda>k (log, w). case inspect_exact_key W k w of (r, w') \<Rightarrow> (r, (log, w')))\<rparr>"

lemma logged_inspect: "keeps (\<lambda>(log, w). P log) (inspect_exact_key (logged W) k)"
  by (auto simp: keeps_def logged_def split: prod.splits)

lemma logged_upload: "fst (snd (upload_exact (logged W) q (log, w))) = log @ [q]"
  by (simp add: logged_def split: prod.splits)

context dispatch_journal
begin

lemma observer_keeps:
  "keeps uploads_ok (on_world (assert_exact_object_absent sha s1 pd (inspect_exact_key (logged W)) i))"
  "keeps uploads_ok (on_world (reconcile_exact_object sha s1 pd (inspect_exact_key (logged W)) i))"
proof -
  have frame: "keeps uploads_ok (on_world m)"
    if "\<And>P. keeps (\<lambda>(log, w). P log) m" for m :: "(upload_request list \<times> 'w, 'b) op"
  proof (rule keeps_world)
    fix j and lw :: "upload_request list \<times> 'w" assume "uploads_ok (j, lw)"
    then show "uploads_ok (j, snd (m lw))"
      using keepsD [OF that [of "\<lambda>log. uploads_ok (j, (log, undefined))"], of lw]
      by (auto simp: uploads_ok_def split: prod.splits)
  qed
  show "keeps uploads_ok (on_world (assert_exact_object_absent sha s1 pd (inspect_exact_key (logged W)) i))"
    "keeps uploads_ok (on_world (reconcile_exact_object sha s1 pd (inspect_exact_key (logged W)) i))"
    by (rule frame, rule observation_keeps, rule logged_inspect)+
qed

lemma observing_steps_keep:
  "keeps uploads_ok (check_absence rt J (logged W) x)" "keeps uploads_ok (reconcile rt J (logged W) x)"
proof -
  show "keeps uploads_ok (check_absence rt J (logged W) x)"
    unfolding check_absence_def Let_def by (intro keeps_intros observer_keeps journal_keeps)
  show "keeps uploads_ok (reconcile rt J (logged W) x)"
    unfolding reconcile_def Let_def by (intro keeps_intros observer_keeps journal_keeps)
qed

text \<open>A dispatch of the effect \<open>next\<close> just granted.\<close>

lemma dispatch_keeps:
  assumes "j_next J e p j = (Inr (DISPATCH, x), j')" and "rt_sha1 rt = sha1"
    and "uploads_ok (j, lw)"
  shows "uploads_ok (snd (dispatch_once rt J (logged W) x (j', lw)))"
proof -
  let ?q = "upload_of (runner_input sha1 x)"
  note g = next_grants [OF assms(1)]
  obtain log w where lw: "lw = (log, w)" by fastforce
  with assms(3) g have log: "log = []" by (auto simp: uploads_ok_def)
  let ?up = "on_world (upload_exact (logged W) ?q) :: ('j \<times> _, _) op"
  have up: "uploads_ok (snd (?up (j', lw)))"
    using logged_upload [of W ?q log w] g unfolding lw log
    by (auto simp: on_world_apply uploads_ok_def split: prod.splits)
  have "uploads_ok (snd (bind_op ?up (\<lambda>v. on_journal (j_accept J (s_effect_id x) (s_pins x) v)) (j', lw)))"
    by (rule bind_op_inv [where I = uploads_ok]) (rule up, rule keepsD [OF journal_keeps(1)])
  then show ?thesis
    by (auto simp: dispatch_once_def catch_op_def assms(2) split: prod.splits sum.splits)
qed

lemma transitions_keep:
  fixes W :: "'w outside"
  assumes "rt_sha1 rt = sha1"
  shows "keeps uploads_ok (transitions n rt J (logged W) sealed)"
proof (induction n)
  case (Suc n)
  show ?case unfolding keeps_def
  proof (intro allI impI)
    fix s :: "'j \<times> (upload_request list \<times> 'w)" assume s: "uploads_ok s"
    obtain j lw where jw: "s = (j, lw)" by (rule prod.exhaust)
    let ?next = "j_next J (s_effect_id sealed) (s_pins sealed)"
    have after: "uploads_ok (snd (?next j), lw)"
      using keepsD [OF uploads_ok_journal [OF next_keeps] s] unfolding jw on_journal_apply by simp
    show "uploads_ok (snd (transitions (Suc n) rt J (logged W) sealed s))"
    proof (cases "fst (?next j)")
      case (Inl e)
      then show ?thesis using after by (simp add: jw bind_op_state on_journal_apply)
    next
      case (Inr ax)
      obtain a x where ax: "ax = (a, x)" by fastforce
      have nxt: "?next j = (Inr (a, x), snd (?next j))" using Inr ax by (metis prod.collapse)
      show ?thesis
      proof (cases a)
        case DISPATCH
        have d: "uploads_ok (snd (dispatch_once rt J (logged W) x (snd (?next j), lw)))"
          by (rule dispatch_keeps [OF nxt [unfolded DISPATCH] assms s [unfolded jw]])
        have "uploads_ok (snd (bind_op (dispatch_once rt J (logged W) x)
            (\<lambda>_. transitions n rt J (logged W) sealed) (snd (?next j), lw)))"
          by (rule bind_op_inv [where I = uploads_ok]) (rule d, rule keepsD [OF Suc])
        then show ?thesis using Inr ax DISPATCH
          by (simp add: jw bind_op_def [of "on_journal ?next"] on_journal_apply)
      next
        case COMPLETE
        show ?thesis using Inr ax COMPLETE keepsD [OF keeps_bind [OF journal_keeps(3) keeps_basic(1)] after]
          by (simp add: jw bind_op_def [of "on_journal ?next"] on_journal_apply)
      next
        case STOP_HOLD
        show ?thesis using Inr ax STOP_HOLD after
          by (simp add: jw bind_op_def [of "on_journal ?next"] on_journal_apply)
      next
        case CHECK_ABSENCE
        show ?thesis using Inr ax CHECK_ABSENCE keepsD [OF keeps_bind [OF observing_steps_keep(1) Suc] after]
          by (simp add: jw bind_op_def [of "on_journal ?next"] on_journal_apply)
      next
        case RECONCILE
        show ?thesis using Inr ax RECONCILE keepsD [OF keeps_bind [OF observing_steps_keep(2) Suc] after]
          by (simp add: jw bind_op_def [of "on_journal ?next"] on_journal_apply)
      qed
    qed
  qed
qed (simp add: keeps_def)

lemma execute_keeps: "rt_sha1 rt = sha1 \<Longrightarrow> keeps uploads_ok (execute rt J (logged W) i)"
  unfolding execute_def by (intro keeps_intros journal_keeps transitions_keep)

end

section \<open>The store is such a journal\<close>

definition worm_store :: "hash \<Rightarrow> worm_storage worm_journal" where
  "worm_store sha =
     \<lparr>j_accept = accept_version, j_confirm = confirm, j_confirmed = confirmed, j_hold = hold,
      j_mark_absent = mark_absent, j_mark_dispatched_hold = mark_dispatched_hold, j_next = next_action,
      j_seal = seal sha\<rparr>"

lemma worm_store_ops [simp]:
  "j_accept (worm_store sha) = accept_version" "j_confirm (worm_store sha) = confirm"
  "j_confirmed (worm_store sha) = confirmed" "j_hold (worm_store sha) = hold"
  "j_mark_absent (worm_store sha) = mark_absent"
  "j_mark_dispatched_hold (worm_store sha) = mark_dispatched_hold"
  "j_next (worm_store sha) = next_action" "j_seal (worm_store sha) = seal sha"
  by (simp_all add: worm_store_def)

definition store_granted :: "hash \<Rightarrow> worm_storage \<Rightarrow> upload_request option" where
  "store_granted sha1 s = (case s of None \<Rightarrow> None
     | Some r \<Rightarrow> if w_status r \<le> ABSENT then None
                else Some (upload_of (runner_input sha1 (decode_snapshot r))))"

lemma store_granted_le:
  assumes "journal_le s t" and "store_granted sha1 s = Some q"
  shows "store_granted sha1 t = Some q"
proof -
  obtain r where r: "s = Some r" "\<not> w_status r \<le> ABSENT"
    using assms(2) by (auto simp: store_granted_def split: option.splits if_splits)
  then obtain r' where r': "t = Some r'" "same_effect r r'" "w_status r \<le> w_status r'"
    using assms(1) by (auto simp: journal_le_def)
  have "\<not> w_status r' \<le> ABSENT" using r(2) r'(3) order_trans by blast
  with assms(2) r r' show ?thesis
    by (simp add: store_granted_def upload_of_def runner_input_def decode_snapshot_def same_effect_def)
qed

lemmas store_granted_write = store_granted_le [OF worm_write_le]

interpretation worm: dispatch_journal "worm_store sha" sha1 "store_granted sha1" for sha sha1
proof unfold_locales
  fix e p x j j' assume "j_next (worm_store sha) e p j = (Inr (DISPATCH, x), j')"
  then have n: "next_action e p j = (Inr (DISPATCH, x), j')" by simp
  obtain r where "j = Some r" "w_status r = ABSENT" "j' = Some (r\<lparr>w_status := IN_FLIGHT\<rparr>)"
    using next_dispatch [OF n] by blast
  moreover from this n have "x = decode_snapshot (r\<lparr>w_status := IN_FLIGHT\<rparr>)"
    by (auto simp: next_action_def op_simps result_simps split: if_splits)
  ultimately show "store_granted sha1 j = None \<and> store_granted sha1 j' = Some (upload_of (runner_input sha1 x))"
    by (simp add: store_granted_def less_eq_worm_status_def)
qed (simp_all add: store_granted_write [OF seal_write] store_granted_write [OF next_write]
    store_granted_write [OF mark_absent_write] store_granted_write [OF accept_write]
    store_granted_write [OF mark_dispatched_hold_write] store_granted_write [OF confirm_write]
    store_granted_write [OF hold_write])

text \<open>The calls of \<open>execute\<close> that one journal serves, one after the other.\<close>

fun executes :: "runtime \<Rightarrow> 'w outside \<Rightarrow> worm_input list \<Rightarrow> worm_storage \<times> 'w \<Rightarrow> worm_storage \<times> 'w" where
  "executes rt W [] s = s"
| "executes rt W (i # is) s = executes rt W is (snd (execute rt (worm_store (rt_sha256 rt)) W i s))"

lemma executes_uploads_ok:
  "worm.uploads_ok (rt_sha1 rt) s \<Longrightarrow> worm.uploads_ok (rt_sha1 rt) (executes rt (logged W) is s)"
  by (induction "is" arbitrary: s) (simp_all add: keepsD [OF worm.execute_keeps])

text \<open>C1: One object is uploaded at most once: over any number of executions, with any inputs, any writer
  and any observer, the writer is called at most once, with the bytes, digest and key that the journal
  has sealed.\<close>

theorem uploaded_at_most_once:
  "case executes rt (logged W) inputs (None, ([], w)) of
     (j, (log, w')) \<Rightarrow> log = [] \<or>
       (\<exists>q r. log = [q] \<and> j = Some r \<and> u_canonical_bytes q = w_canonical_bytes r \<and>
          u_digest q = w_digest r \<and> u_key q = w_object_key r)"
proof -
  have "worm.uploads_ok (rt_sha1 rt) (executes rt (logged W) inputs (None, ([], w)))"
    by (rule executes_uploads_ok) (simp add: worm.uploads_ok_def)
  then show ?thesis
    by (fastforce simp: worm.uploads_ok_def store_granted_def upload_of_def runner_input_def
        decode_snapshot_def split: prod.splits option.splits if_splits)
qed

section \<open>The loop always ends by itself\<close>

lemma next_action_eq_Inr:
  "next_action e p s = (Inr (a, x), t) \<longleftrightarrow>
     valid_pins p \<and> (\<exists>r. s = Some r \<and> w_effect_id r = e \<and> w_pins r = p \<and>
       (if w_status r = ABSENT
        then worm_row_ok (r\<lparr>w_status := IN_FLIGHT\<rparr>) \<and> a = DISPATCH \<and> t = Some (r\<lparr>w_status := IN_FLIGHT\<rparr>) \<and>
          x = decode_snapshot (r\<lparr>w_status := IN_FLIGHT\<rparr>)
        else action_for (w_status r) False = Inr a \<and> t = s \<and> x = decode_snapshot r))"
proof (cases s)
  case (Some r)
  show ?thesis
  proof (cases "valid_pins p \<and> w_effect_id r = e \<and> w_pins r = p")
    case True
    then have b: "require_bound e p (Some r) = Inr r"
      "require_bound e p (Some (r\<lparr>w_status := IN_FLIGHT\<rparr>)) = Inr (r\<lparr>w_status := IN_FLIGHT\<rparr>)"
      by (simp_all add: require_bound_eq_Inr)
    show ?thesis
    proof (cases "w_status r = ABSENT")
      case absent: True
      show ?thesis
        using True absent b by (cases "worm_row_ok (r\<lparr>w_status := IN_FLIGHT\<rparr>)")
          (auto simp: next_action_def Some transaction_def bind_op_def write_row_def decode_status action_for_def)
    next
      case False
      then have "next_action e p (Some r) =
          (bind_r (action_for (w_status r) False) (\<lambda>a. Inr (a, decode_snapshot r)), Some r)"
        by (simp add: next_action_def transaction_def bind_op_def b(1) decode_status)
      then show ?thesis using True False by (auto simp: Some result_simps)
    qed
  next
    case False
    then have "\<exists>er. require_bound e p (Some r) = Inl er"
      by (auto simp: require_bound_def copy_and_validate_pins_def)
    then show ?thesis using False by (auto simp: next_action_def Some transaction_def bind_op_def)
  qed
qed (auto simp: next_action_def op_simps result_simps)

lemma bind_on_journal: "bind_op (on_journal m) f (j, w) =
    (case m j of (Inl e, j') \<Rightarrow> (Inl e, (j', w)) | (Inr x, j') \<Rightarrow> f x (j', w))"
  by (simp add: bind_op_def on_journal_def split: prod.splits sum.splits)

lemma bind_on_world: "bind_op (on_world m) f (j, w) =
    (case m w of (Inl e, w') \<Rightarrow> (Inl e, (j, w')) | (Inr x, w') \<Rightarrow> f x (j, w'))"
  by (simp add: bind_op_def on_world_def split: prod.splits sum.splits)

text \<open>How many transitions a journal can still ask for.\<close>

fun steps_left :: "worm_status \<Rightarrow> nat" where
  "steps_left PREPARED = 4" | "steps_left ABSENT = 3" | "steps_left IN_FLIGHT = 2"
| "steps_left ACCEPTED = 2" | "steps_left DISPATCHED_HOLD = 2" | "steps_left CONFIRMED = 1"
| "steps_left HOLD = 1"

definition journal_steps_left :: "worm_storage \<Rightarrow> nat" where
  "journal_steps_left s = (case s of None \<Rightarrow> 1 | Some r \<Rightarrow> steps_left (w_status r))"

lemma steps_left_positive [simp]: "steps_left st \<noteq> 0"
  by (cases st) simp_all

lemma on_journal_eq_Inr [op_simps]:
  "on_journal m s = (Inr x, t) \<longleftrightarrow> (\<exists>j j' w. s = (j, w) \<and> t = (j', w) \<and> m j = (Inr x, j'))"
  by (cases s) (auto simp: on_journal_def split: prod.splits)

text \<open>A handler that always throws again adds no result.\<close>

lemma catch_op_rethrows:
  assumes "\<And>e s y t. h e s \<noteq> (Inr y, t)"
  shows "catch_op m h s = (Inr x, t) \<longleftrightarrow> m s = (Inr x, t)"
  using assms by (auto simp: catch_op_def split: prod.splits sum.splits)

lemma check_absence_eq_Inr:
  "check_absence rt J W x s = (Inr u, t) \<longleftrightarrow>
     (\<exists>d s'. on_world (assert_exact_object_absent (rt_sha256 rt) (rt_sha1 rt) (rt_parse_date rt)
         (inspect_exact_key W) (runner_input (rt_sha1 rt) x)) s = (Inr d, s') \<and>
       on_journal (j_mark_absent J (s_effect_id x) (s_pins x) d) s' = (Inr u, t))"
  unfolding check_absence_def Let_def
  by (subst catch_op_rethrows) (simp_all add: op_simps)

lemma reconcile_eq_Inr:
  "reconcile rt J W x s = (Inr u, t) \<longleftrightarrow>
     (\<exists>worm s'. on_world (reconcile_exact_object (rt_sha256 rt) (rt_sha1 rt) (rt_parse_date rt)
         (inspect_exact_key W) (runner_input (rt_sha1 rt) x)) s = (Inr worm, s') \<and>
       on_journal (j_confirm J (s_effect_id x) (s_pins x) worm) s' = (Inr u, t))"
  unfolding reconcile_def Let_def
  by (subst catch_op_rethrows) (simp_all add: op_simps)

lemma on_world_state: "on_world m (j, w) = (r, s) \<Longrightarrow> fst s = j"
  by (auto simp: on_world_def split: prod.splits)

lemma check_absence_progress:
  assumes "check_absence rt (worm_store sha) W x (Some r, w) = (Inr (), (j, w'))" and "w_status r = PREPARED"
  shows "journal_steps_left j = 3"
proof -
  obtain d where "mark_absent (s_effect_id x) (s_pins x) d (Some r) = (Inr (), j)"
    using assms(1) by (auto simp: check_absence_eq_Inr on_journal_eq_Inr dest!: on_world_state)
  then show ?thesis using assms(2)
    by (auto simp: mark_absent_def op_simps result_simps journal_steps_left_def split: if_splits)
qed

lemma confirm_confirms:
  assumes "confirm e p worm j = (Inr u, j')"
  shows "\<exists>r. j' = Some r \<and> w_status r = CONFIRMED"
proof -
  obtain r where r: "require_bound e p j = Inr r"
    using assms by (auto simp: confirm_def op_simps bind_r_eq_Inr)
  then have j: "j = Some r" by (simp add: require_bound_eq_Inr)
  have "(if w_status r = CONFIRMED then Inr ((), j)
       else if w_status r \<noteq> IN_FLIGHT \<and> w_status r \<noteq> ACCEPTED \<and> w_status r \<noteq> DISPATCHED_HOLD
       then Inl (effect_error ''WORM_EXACT_OBJECT_EFFECT_NOT_DISPATCHED'' False)
       else if w_writer_version_id r \<noteq> None \<and> w_writer_version_id r \<noteq> Some (aw_version_id worm)
       then Inl version_conflict
       else bind_r (write_row (r\<lparr>w_worm_version_id := Some (aw_version_id worm),
                w_worm_retention_until := Some (aw_retention_until worm), w_status := CONFIRMED\<rparr>))
         (\<lambda>t. Inr ((), t))) = Inr (u, j')"
    using assms unfolding confirm_def transaction_eq_Inr r bind_r.simps bind_r_eq_Inr [of "validate_worm r worm"]
    by blast
  then show ?thesis by (simp add: j bind_r_eq_Inr write_row_eq_Inr split: if_splits) (auto simp: j)
qed

lemma reconcile_progress:
  assumes "reconcile rt (worm_store sha) W x (j, w) = (Inr (), (j', w'))"
  shows "journal_steps_left j' = 1"
proof -
  obtain worm where "confirm (s_effect_id x) (s_pins x) worm j = (Inr (), j')"
    using assms by (auto simp: reconcile_eq_Inr on_journal_eq_Inr dest!: on_world_state)
  from confirm_confirms [OF this] show ?thesis by (auto simp: journal_steps_left_def)
qed

lemma dispatch_progress:
  assumes "w_status r = IN_FLIGHT" and "dispatch_once rt (worm_store sha) W x (Some r, w) = (y, (j, w'))"
  shows "y = Inr () \<and> journal_steps_left j \<le> 2"
proof -
  let ?u = "upload_exact W (upload_of (runner_input (rt_sha1 rt) x)) w"
  have "y = Inr () \<and> (j = Some r \<or> (\<exists>v. j = snd (accept_version (s_effect_id x) (s_pins x) v (Some r))))"
  proof (cases "fst ?u")
    case (Inl e)
    then obtain w2 where "?u = (Inl e, w2)" by (metis prod.collapse)
    with assms(2) show ?thesis by (simp add: dispatch_once_def catch_op_def bind_on_world)
  next
    case (Inr v)
    then obtain w2 where "?u = (Inr v, w2)" by (metis prod.collapse)
    with assms(2) show ?thesis
      by (cases "fst (accept_version (s_effect_id x) (s_pins x) v (Some r))")
        (auto simp: dispatch_once_def catch_op_def bind_on_world on_journal_apply split: prod.splits)
  qed
  then have y: "y = Inr ()" and "j = Some r \<or> (\<exists>v. j = snd (accept_version (s_effect_id x) (s_pins x) v (Some r)))"
    by simp_all
  then have "journal_le (Some r) j"
    using worm_write_le [OF accept_write] worm_write_le [OF worm_write.skip] by blast
  then obtain r' where "j = Some r'" "IN_FLIGHT \<le> w_status r'" using assms(1) by (auto simp: journal_le_def)
  then show ?thesis using y
    by (cases "w_status r'") (simp_all add: journal_steps_left_def less_eq_worm_status_def)
qed

lemma transitions_end:
  "journal_steps_left j \<le> n \<Longrightarrow> fst (transitions n rt (worm_store sha) W sealed (j, w)) \<noteq> Inr None"
proof (induction n arbitrary: j w)
  case (Suc n)
  let ?next = "next_action (s_effect_id sealed) (s_pins sealed) j"
  show ?case
  proof (cases "fst ?next")
    case (Inl e)
    then obtain t where "?next = (Inl e, t)" by (metis prod.collapse)
    then show ?thesis by (simp add: bind_on_journal)
  next
    case (Inr ax)
    obtain a x t where nxt: "?next = (Inr (a, x), t)" using Inr by (metis prod.collapse)
    then obtain r where j: "j = Some r" and c: "if w_status r = ABSENT
        then worm_row_ok (r\<lparr>w_status := IN_FLIGHT\<rparr>) \<and> a = DISPATCH \<and> t = Some (r\<lparr>w_status := IN_FLIGHT\<rparr>) \<and>
          x = decode_snapshot (r\<lparr>w_status := IN_FLIGHT\<rparr>)
        else action_for (w_status r) False = Inr a \<and> t = j \<and> x = decode_snapshot r"
      unfolding next_action_eq_Inr by blast
    have go: "fst (bind_op m (\<lambda>_. transitions n rt (worm_store sha) W sealed) s) \<noteq> Inr None"
      if "\<And>j' w'. m s = (Inr (), (j', w')) \<Longrightarrow> journal_steps_left j' \<le> n"
      for m :: "(worm_storage \<times> 'a, unit) op" and s
    proof -
      obtain y j2 w2 where t: "m s = (y, (j2, w2))" by (cases "m s")
      show ?thesis
      proof (cases y)
        case (Inr u)
        have "journal_steps_left j2 \<le> n" by (rule that) (use t Inr in simp)
        then show ?thesis using Suc.IH t Inr by (simp add: bind_op_def)
      qed (use t in \<open>simp add: bind_op_def\<close>)
    qed
    show ?thesis
    proof (cases a)
      case CHECK_ABSENCE
      with c have st: "w_status r = PREPARED" "t = j" by (cases "w_status r"; simp add: action_for_def)+
      have "fst (bind_op (check_absence rt (worm_store sha) W x)
          (\<lambda>_. transitions n rt (worm_store sha) W sealed) (t, w)) \<noteq> Inr None"
      proof (rule go)
        fix j' w' assume "check_absence rt (worm_store sha) W x (t, w) = (Inr (), (j', w'))"
        then show "journal_steps_left j' \<le> n"
          using check_absence_progress [of rt sha W x r w j' w'] Suc.prems st
          by (simp add: j journal_steps_left_def)
      qed
      with nxt CHECK_ABSENCE show ?thesis by (simp add: bind_on_journal)
    next
      case DISPATCH
      with c have st: "w_status r = ABSENT" "t = Some (r\<lparr>w_status := IN_FLIGHT\<rparr>)"
        by (cases "w_status r"; simp add: action_for_def)+
      have "fst (bind_op (dispatch_once rt (worm_store sha) W x)
          (\<lambda>_. transitions n rt (worm_store sha) W sealed) (t, w)) \<noteq> Inr None"
      proof (rule go)
        fix j' w' assume "dispatch_once rt (worm_store sha) W x (t, w) = (Inr (), (j', w'))"
        then show "journal_steps_left j' \<le> n"
          using dispatch_progress [of "r\<lparr>w_status := IN_FLIGHT\<rparr>" rt sha W x w "Inr ()" j' w'] Suc.prems st
          by (simp add: j journal_steps_left_def)
      qed
      with nxt DISPATCH show ?thesis by (simp add: bind_on_journal)
    next
      case RECONCILE
      with c have st: "steps_left (w_status r) = 2" "t = j"
        by (cases "w_status r"; simp add: action_for_def)+
      have "fst (bind_op (reconcile rt (worm_store sha) W x)
          (\<lambda>_. transitions n rt (worm_store sha) W sealed) (t, w)) \<noteq> Inr None"
      proof (rule go)
        fix j' w' assume "reconcile rt (worm_store sha) W x (t, w) = (Inr (), (j', w'))"
        then show "journal_steps_left j' \<le> n" using reconcile_progress [of rt sha W x t w j' w'] Suc.prems st
          by (simp add: j journal_steps_left_def)
      qed
      with nxt RECONCILE show ?thesis by (simp add: bind_on_journal)
    next
      case COMPLETE
      with nxt show ?thesis by (simp add: bind_on_journal split: prod.splits sum.splits)
    next
      case STOP_HOLD
      with nxt show ?thesis by (simp add: bind_on_journal)
    qed
  qed
qed (simp add: journal_steps_left_def split: option.splits)

text \<open>C8: The transition limit is never reached: from any state of the journal, any eight (even four)
  transitions of the loop end with a confirmation or an error of the journal or the observer.\<close>

theorem transition_limit_unreachable:
  "fst (transitions MAX_TRANSITIONS rt (worm_store sha) W sealed (j, w)) \<noteq> Inr None \<and>
   fst (transitions 4 rt (worm_store sha) W sealed (j, w)) \<noteq> Inr None"
proof -
  have "journal_steps_left j \<le> 4"
  proof (cases j)
    case (Some r)
    then show ?thesis by (cases "w_status r") (simp_all add: journal_steps_left_def)
  qed (simp add: journal_steps_left_def)
  then show ?thesis by (simp add: transitions_end MAX_TRANSITIONS_def del: transitions.simps)
qed

section \<open>What a returned confirmation means\<close>

text \<open>A predicate of the journal that every operation of the store keeps is kept by an execution.\<close>

definition of_journal :: "('j \<Rightarrow> bool) \<Rightarrow> 'j \<times> 'w \<Rightarrow> bool" where
  "of_journal P s \<longleftrightarrow> P (fst s)"

lemma of_journal_world: "keeps (of_journal P) (on_world m)"
  by (rule keeps_world) (simp add: of_journal_def)

lemma store_keeps:
  assumes "\<And>s t. worm_write sha s t \<Longrightarrow> P s \<Longrightarrow> P t"
  shows "keeps (of_journal P) (transitions n rt (worm_store sha) W sealed)"
proof -
  have op: "keeps (of_journal P) (on_journal m)" if "\<And>s. worm_write sha s (snd (m s))" for m :: "(worm_storage, 'b) op"
    by (rule keeps_journal) (use that assms in \<open>auto simp: of_journal_def\<close>)
  have steps: "keeps (of_journal P) (check_absence rt (worm_store sha) W x)"
    "keeps (of_journal P) (dispatch_once rt (worm_store sha) W x)"
    "keeps (of_journal P) (reconcile rt (worm_store sha) W x)" for x
    unfolding check_absence_def dispatch_once_def reconcile_def Let_def
    by (intro keeps_intros of_journal_world op;
        simp add: mark_absent_write accept_write confirm_write hold_write mark_dispatched_hold_write)+
  have nxt: "keeps (of_journal P) (on_journal (next_action e p))"
    "keeps (of_journal P) (on_journal (confirmed e p))" for e p
    by (rule op, simp add: next_write worm_write.skip)+
  show ?thesis
  proof (induction n)
    case (Suc n)
    have "keeps (of_journal P) (case ax of (action, effect) \<Rightarrow> case action of
         COMPLETE \<Rightarrow> bind_op (on_journal (confirmed (s_effect_id sealed) (s_pins sealed)))
           (\<lambda>c. return_op (Some c))
       | STOP_HOLD \<Rightarrow> fail_op (Broker (case s_hold_code effect of Some c \<Rightarrow> c
           | None \<Rightarrow> js ''WORM_EXACT_OBJECT_EFFECT_HOLD'') 409 False)
       | CHECK_ABSENCE \<Rightarrow> bind_op (check_absence rt (worm_store sha) W effect) (\<lambda>_. transitions n rt (worm_store sha) W sealed)
       | DISPATCH \<Rightarrow> bind_op (dispatch_once rt (worm_store sha) W effect) (\<lambda>_. transitions n rt (worm_store sha) W sealed)
       | RECONCILE \<Rightarrow> bind_op (reconcile rt (worm_store sha) W effect) (\<lambda>_. transitions n rt (worm_store sha) W sealed))" for ax
      by (cases ax; cases "fst ax") (auto intro!: keeps_intros steps nxt Suc)
    then show ?case unfolding transitions.simps worm_store_ops by (rule keeps_bind [OF nxt(1)])
  qed (simp add: keeps_def)
qed

lemma transitions_return:
  "transitions n rt (worm_store sha) W sealed s = (Inr (Some c), t) \<Longrightarrow>
     confirmed (s_effect_id sealed) (s_pins sealed) (fst t) = (Inr c, fst t)"
proof (induction n arbitrary: s)
  case (Suc n)
  obtain a x s' where nxt: "on_journal (next_action (s_effect_id sealed) (s_pins sealed)) s = (Inr (a, x), s')"
    and rest: "(case a of
         COMPLETE \<Rightarrow> bind_op (on_journal (confirmed (s_effect_id sealed) (s_pins sealed)))
           (\<lambda>c. return_op (Some c))
       | STOP_HOLD \<Rightarrow> fail_op (Broker (case s_hold_code x of Some c \<Rightarrow> c
           | None \<Rightarrow> js ''WORM_EXACT_OBJECT_EFFECT_HOLD'') 409 False)
       | CHECK_ABSENCE \<Rightarrow> bind_op (check_absence rt (worm_store sha) W x) (\<lambda>_. transitions n rt (worm_store sha) W sealed)
       | DISPATCH \<Rightarrow> bind_op (dispatch_once rt (worm_store sha) W x) (\<lambda>_. transitions n rt (worm_store sha) W sealed)
       | RECONCILE \<Rightarrow> bind_op (reconcile rt (worm_store sha) W x) (\<lambda>_. transitions n rt (worm_store sha) W sealed)) s'
       = (Inr (Some c), t)"
    using Suc.prems unfolding transitions.simps worm_store_ops bind_op_eq_Inr by (fastforce split: prod.splits)
  show ?case
  proof (cases a)
    case COMPLETE
    with rest obtain j j' w where "t = (j', w)" "confirmed (s_effect_id sealed) (s_pins sealed) j = (Inr c, j')"
      by (auto simp: op_simps)
    then show ?thesis using confirmed_state [of "s_effect_id sealed" "s_pins sealed" j] by simp
  qed (use rest in \<open>auto simp: bind_op_eq_Inr dest: Suc.IH\<close>)
qed simp

lemma prepared_row_fields:
  assumes "prepare_effect sha i = Inr p"
  shows "w_effect_id (sealed_row p) = in_effect_id p \<and> w_pins (sealed_row p) = in_pins i \<and>
    w_committed_at (sealed_row p) = in_committed_at i \<and> w_digest (sealed_row p) = in_digest i \<and>
    w_object_key (sealed_row p) = in_key i \<and> w_canonical_bytes (sealed_row p) = in_canonical_bytes i"
  using prepared_fields(1) [OF assms] by (cases p) (simp add: sealed_row_def)

lemma decode_snapshot_fields:
  "s_effect_id (decode_snapshot r) = w_effect_id r" "s_pins (decode_snapshot r) = w_pins r"
  "s_committed_at (decode_snapshot r) = w_committed_at r" "s_digest (decode_snapshot r) = w_digest r"
  "s_key (decode_snapshot r) = w_object_key r" "s_canonical_bytes (decode_snapshot r) = w_canonical_bytes r"
  "s_absence_inventory_digest (decode_snapshot r) = w_absence_inventory_digest r"
  by (simp_all add: decode_snapshot_def)

lemma snapshot_eq_Inr:
  "snapshot e p s = (Inr x, t) \<longleftrightarrow> valid_pins p \<and> t = s \<and>
     (\<exists>r. s = Some r \<and> w_effect_id r = e \<and> w_pins r = p \<and> x = decode_snapshot r)"
  by (auto simp: snapshot_def bind_r_eq_Inr require_bound_eq_Inr)

lemma seal_eq_InrD:
  assumes "seal sha i s = (Inr x, t)"
  shows "\<exists>p r. prepare_effect sha i = Inr p \<and> t = Some r \<and> same_effect (sealed_row p) r \<and> x = decode_snapshot r"
proof -
  obtain p s' u where p: "prepare_effect sha i = Inr p" and t: "snapshot (in_effect_id p) (in_pins p) s' = (Inr x, t)"
    and body: "(case s of Some r \<Rightarrow> if same_seal r p then Inr ((), s)
                   else Inl (effect_error ''WORM_EXACT_OBJECT_EFFECT_SEAL_CONFLICT'' False)
       | None \<Rightarrow> bind_r (write_row (sealed_row p)) (\<lambda>t. Inr ((), t))) = Inr (u, s')"
    using assms unfolding seal_def bind_op_lift_eq_Inr unfolding bind_op_eq_Inr transaction_eq_Inr by blast
  from t obtain r where r: "s' = Some r" "t = Some r" "x = decode_snapshot r" by (auto simp: snapshot_eq_Inr)
  have "same_effect (sealed_row p) r"
    using body r(1) by (cases s) (auto simp: bind_r_eq_Inr write_row_eq_Inr same_seal_def same_effect_def
        sealed_row_def split: if_splits)
  with p r show ?thesis by blast
qed

lemma confirmed_eq_InrD:
  assumes "confirmed e p s = (Inr c, t)"
  shows "\<exists>r d v u. s = Some r \<and> w_status r = CONFIRMED \<and> w_absence_inventory_digest r = Some d \<and>
    w_worm_version_id r = Some v \<and> w_worm_retention_until r = Some u \<and>
    c = \<lparr>c_absence_inventory_digest = d, c_committed_at = w_committed_at r, c_digest = w_digest r,
      c_effect_id = w_effect_id r, c_key = w_object_key r, c_pins = w_pins r,
      c_worm = \<lparr>aw_digest = w_digest r, aw_key = w_object_key r, aw_retention_until = u, aw_version_id = v\<rparr>\<rparr>"
proof -
  obtain r where r: "s = Some r" "(case (s_absence_inventory_digest (decode_snapshot r), s_worm (decode_snapshot r)) of
          (Some d, Some w) \<Rightarrow>
            if s_status (decode_snapshot r) \<noteq> CONFIRMED
            then Inl (effect_error ''WORM_EXACT_OBJECT_EFFECT_PENDING'' True)
            else Inr \<lparr>c_absence_inventory_digest = d, c_committed_at = s_committed_at (decode_snapshot r),
                   c_digest = s_digest (decode_snapshot r), c_effect_id = s_effect_id (decode_snapshot r),
                   c_key = s_key (decode_snapshot r), c_pins = s_pins (decode_snapshot r), c_worm = w\<rparr>
        | _ \<Rightarrow> Inl (effect_error ''WORM_EXACT_OBJECT_EFFECT_PENDING'' True)) = Inr c"
    using assms unfolding confirmed_def bind_op_eq_Inr snapshot_eq_Inr by auto
  then show ?thesis
    by (cases "w_absence_inventory_digest r"; cases "w_worm_version_id r"; cases "w_worm_retention_until r")
      (auto simp: decode_snapshot_def split: if_splits)
qed

section \<open>An undisturbed execution\<close>

text \<open>The observed version can be confirmed: retention and commit times are canonical and far enough apart.\<close>

definition confirmable :: "worm_input \<Rightarrow> activation_worm \<Rightarrow> bool" where
  "confirmable i worm \<longleftrightarrow>
     aw_digest worm = in_digest i \<and> aw_key worm = in_key i \<and> readable (aw_version_id worm) \<and>
     length (aw_version_id worm) \<le> 512 \<and> is_canonical_time (aw_retention_until worm) \<and>
     time_of (in_committed_at i) + RETENTION_MILLISECONDS \<le> time_of (aw_retention_until worm)"

definition input_exact :: "hash \<Rightarrow> worm_input \<Rightarrow> exact_input" where
  "input_exact sha1 i =
     \<lparr>ei_bytes = in_canonical_bytes i, ei_committed_at = in_committed_at i,
      ei_content_sha1 = hex_bytes (sha1 (in_canonical_bytes i)), ei_digest = in_digest i, ei_key = in_key i\<rparr>"

lemma absent_digest:
  assumes "assert_exact_object_absent sha sha1 pd inspect i w = (Inr d, w')"
  shows "matches DIGEST d"
proof -
  obtain x where x: "d = is_inventory_digest x" "exact_summary sha sha1 pd inspect i w = (Inr x, w')"
    using assms by (auto simp: assert_exact_object_absent_def op_simps split: if_splits)
  then obtain inv where "validate_inventory sha pd inv (ei_key i) (int (length (ei_bytes i)))
            (ei_digest i) (hex_bytes (sha1 (ei_bytes i)))
            (the (date_parse (ei_committed_at i)) + RETENTION_MILLISECONDS) = Inr x"
    by (auto simp: exact_summary_def op_simps split: if_splits)
  from validate_inventory_sound(2,3) [OF this] x(1) show ?thesis by simp
qed

lemma runner_input_row:
  assumes "same_effect (sealed_row p) r" and "prepare_effect sha i = Inr p"
  shows "runner_input sha1 (decode_snapshot r) = input_exact sha1 i"
  using prepared_row_fields [OF assms(2)] assms(1)
  by (simp add: runner_input_def input_exact_def decode_snapshot_fields same_effect_def)

lemma bound_row:
  assumes "prepare_effect sha i = Inr p" and "same_effect (sealed_row p) r"
  shows "require_bound (in_effect_id p) (in_pins p) (Some r) = Inr r"
proof -
  have "valid_pins (in_pins p)"
    using assms(1) unfolding prepare_effect_def prepare_with_key_policy_def
    by (auto simp: copy_and_validate_pins_def bind_r_eq_Inr split: if_splits)
  with assms(2) show ?thesis by (simp add: require_bound_eq_Inr same_effect_def sealed_row_def)
qed

lemma next_of_row:
  assumes "prepare_effect sha i = Inr p" and "same_effect (sealed_row p) r"
    and "action_for (w_status r) False = Inr a"
  shows "next_action (in_effect_id p) (in_pins p) (Some r) = (Inr (a, decode_snapshot r), Some r)"
proof -
  have "w_status r \<noteq> ABSENT" using assms(3) by (auto simp: action_for_def)
  with bound_row [OF assms(1,2)] assms(3) show ?thesis
    by (auto simp: next_action_eq_Inr require_bound_eq_Inr)
qed

lemma snapshot_bound:
  assumes "same_effect (sealed_row p) r"
  shows "s_effect_id (decode_snapshot r) = in_effect_id p" "s_pins (decode_snapshot r) = in_pins p"
  using assms by (simp_all add: decode_snapshot_fields same_effect_def sealed_row_def)

abbreviation absent_row :: "prepared_worm \<Rightarrow> js_string \<Rightarrow> worm_row" where
  "absent_row p d \<equiv> (sealed_row p)\<lparr>w_absence_inventory_digest := Some d, w_status := ABSENT\<rparr>"

abbreviation in_flight_row :: "prepared_worm \<Rightarrow> js_string \<Rightarrow> worm_row" where
  "in_flight_row p d \<equiv> (sealed_row p)\<lparr>w_absence_inventory_digest := Some d, w_status := IN_FLIGHT\<rparr>"

lemma stage_rows:
  assumes sha: "\<And>bs. length (sha bs) = 32" and "prepare_effect sha i = Inr p" and "matches DIGEST d"
  shows "worm_row_ok (sealed_row p)" "worm_row_ok (absent_row p d)" "worm_row_ok (in_flight_row p d)"
    and "readable v \<Longrightarrow> length v \<le> 512 \<Longrightarrow>
      worm_row_ok ((in_flight_row p d)\<lparr>w_writer_version_id := Some v, w_status := ACCEPTED\<rparr>)"
proof -
  show 0: "worm_row_ok (sealed_row p)" by (rule prepared_row_ok [OF sha assms(2)])
  have d: "sql_length d = 71" using sql_length_matches [OF _ assms(3)] DIGEST_length [OF assms(3)] by simp
  then show "worm_row_ok (absent_row p d)" and 2: "worm_row_ok (in_flight_row p d)"
    using 0 by (simp_all add: worm_row_ok_def status_columns_ok_def null_or_def sealed_row_def)
  show "worm_row_ok ((in_flight_row p d)\<lparr>w_writer_version_id := Some v, w_status := ACCEPTED\<rparr>)"
    if "readable v" "length v \<le> 512"
    using 2 that sql_length_le [of v]
    by (simp add: worm_row_ok_def status_columns_ok_def null_or_def sealed_row_def readable_def)
qed

lemma stage_absence:
  assumes "prepare_effect sha i = Inr p" and "worm_row_ok (absent_row p d)" and "rt_sha1 rt = sha1"
    and "assert_exact_object_absent (rt_sha256 rt) sha1 (rt_parse_date rt) (inspect_exact_key W)
      (input_exact sha1 i) w = (Inr d, w')"
  shows "check_absence rt (worm_store sha) W (decode_snapshot (sealed_row p)) (Some (sealed_row p), w) =
    (Inr (), (Some (absent_row p d), w'))"
proof -
  have same: "same_effect (sealed_row p) (sealed_row p)" by (simp add: same_effect_def)
  have "mark_absent (in_effect_id p) (in_pins p) d (Some (sealed_row p)) = (Inr (), Some (absent_row p d))"
    using absent_digest [OF assms(4)] bound_row [OF assms(1) same] prepared_fields(4) [OF assms(1)] assms(2)
    by (simp add: mark_absent_def transaction_def write_row_def)
  then show ?thesis
    using assms(3,4) runner_input_row [OF same assms(1), of sha1]
    by (simp add: check_absence_eq_Inr on_journal_eq_Inr on_world_apply snapshot_bound [OF same])
qed

lemma stage_dispatch:
  assumes "prepare_effect sha i = Inr p" and "rt_sha1 rt = sha1" and "readable v" and "length v \<le> 512"
    and "worm_row_ok ((in_flight_row p d)\<lparr>w_writer_version_id := Some v, w_status := ACCEPTED\<rparr>)"
    and "upload_exact W (upload_of (input_exact sha1 i)) w = (u, w')" and "u = Inr v \<or> (\<exists>e. u = Inl e)"
  shows "dispatch_once rt (worm_store sha) W (decode_snapshot (in_flight_row p d)) (Some (in_flight_row p d), w) =
    (Inr (), (Some (if u = Inr v then (in_flight_row p d)\<lparr>w_writer_version_id := Some v, w_status := ACCEPTED\<rparr>
                    else in_flight_row p d), w'))"
proof -
  have same: "same_effect (sealed_row p) (in_flight_row p d)" by (simp add: same_effect_def)
  have "1 \<le> length v" using assms(3) sql_length_le [of v] by (simp add: readable_def)
  then have "validate_version_id v = Inr ()" using assms(4) by (auto simp: validate_version_id_def)
  then have "accept_version (in_effect_id p) (in_pins p) v (Some (in_flight_row p d)) =
      (Inr (), Some ((in_flight_row p d)\<lparr>w_writer_version_id := Some v, w_status := ACCEPTED\<rparr>))"
    using bound_row [OF assms(1) same] assms(5)
    by (simp add: accept_version_def transaction_def write_row_def sealed_row_def)
  then show ?thesis
    using assms(2,6,7) runner_input_row [OF same assms(1), of sha1]
    by (auto simp: dispatch_once_def catch_op_def bind_on_world on_journal_apply snapshot_bound [OF same])
qed

lemma stage_reconcile:
  assumes "prepare_effect sha i = Inr p" and "rt_sha1 rt = sha1" and "confirmable i worm"
    and r: "same_effect (sealed_row p) r" "worm_row_ok r" "w_status r = IN_FLIGHT \<or> w_status r = ACCEPTED"
      "w_writer_version_id r = None \<or> w_writer_version_id r = Some (aw_version_id worm)"
    and "reconcile_exact_object (rt_sha256 rt) sha1 (rt_parse_date rt) (inspect_exact_key W)
      (input_exact sha1 i) w = (Inr worm, w')"
  shows "reconcile rt (worm_store sha) W (decode_snapshot r) (Some r, w) =
    (Inr (), (Some (r\<lparr>w_worm_version_id := Some (aw_version_id worm),
      w_worm_retention_until := Some (aw_retention_until worm), w_status := CONFIRMED\<rparr>), w'))"
proof -
  let ?t = "r\<lparr>w_worm_version_id := Some (aw_version_id worm),
      w_worm_retention_until := Some (aw_retention_until worm), w_status := CONFIRMED\<rparr>"
  note c = assms(3) [unfolded confirmable_def]
  have "1 \<le> length (aw_version_id worm)"
    using c sql_length_le [of "aw_version_id worm"] by (simp add: readable_def)
  moreover have "length (aw_retention_until worm) = 24" using c canonical_timeD(2) by blast
  moreover have "w_digest r = in_digest i" "w_object_key r = in_key i" "w_committed_at r = in_committed_at i"
    using r(1) prepared_row_fields [OF assms(1)] by (simp_all add: same_effect_def)
  ultimately have v: "validate_worm r worm = Inr ()"
    using c r(3) by (auto simp: validate_worm_def validate_version_id_def canonical_effect_timestamp_def)
  have "row_move r ?t" by (rule row_move.confirmed) (use r v in auto)
  then have "worm_row_ok ?t"
    by (rule row_move_ok) (use r(2,4) c in \<open>auto\<close>)
  then have "confirm (in_effect_id p) (in_pins p) worm (Some r) = (Inr (), Some ?t)"
    using bound_row [OF assms(1) r(1)] v r(3,4)
    by (auto simp: confirm_def transaction_def write_row_def)
  then show ?thesis
    using assms(2,8) runner_input_row [OF r(1) assms(1), of sha1]
    by (simp add: reconcile_eq_Inr on_journal_eq_Inr on_world_apply snapshot_bound [OF r(1)])
qed

lemma undisturbed_execution:
  assumes hashes: "\<And>bs. length (rt_sha256 rt bs) = 32" and p: "prepare_effect (rt_sha256 rt) i = Inr p"
    and absent: "assert_exact_object_absent (rt_sha256 rt) (rt_sha1 rt) (rt_parse_date rt) (inspect_exact_key W)
      (input_exact (rt_sha1 rt) i) w0 = (Inr d, w1)"
    and upload: "upload_exact W (upload_of (input_exact (rt_sha1 rt) i)) w1 = (u, w2)"
      "u = Inr (aw_version_id worm) \<or> (\<exists>e. u = Inl e)"
    and observed: "reconcile_exact_object (rt_sha256 rt) (rt_sha1 rt) (rt_parse_date rt) (inspect_exact_key W)
      (input_exact (rt_sha1 rt) i) w2 = (Inr worm, w3)"
    and conf: "confirmable i worm"
  shows "\<exists>c r. execute rt (worm_store (rt_sha256 rt)) W i (None, w0) = (Inr c, (Some r, w3)) \<and>
    w_status r = CONFIRMED \<and> c_worm c = worm \<and> c_absence_inventory_digest c = d"
proof -
  let ?J = "worm_store (rt_sha256 rt)" and ?r0 = "sealed_row p" and ?r1 = "absent_row p d"
  let ?r2 = "in_flight_row p d" and ?v = "aw_version_id worm"
  define r3 where "r3 = (if u = Inr ?v then ?r2\<lparr>w_writer_version_id := Some ?v, w_status := ACCEPTED\<rparr> else ?r2)"
  define r4 where "r4 = r3\<lparr>w_worm_version_id := Some ?v, w_worm_retention_until := Some (aw_retention_until worm),
    w_status := CONFIRMED\<rparr>"
  note c = conf [unfolded confirmable_def]
  note ok = stage_rows [OF hashes p absent_digest [OF absent]]
  have same: "same_effect ?r0 ?r0" "same_effect ?r0 ?r1" "same_effect ?r0 r3" "same_effect ?r0 r4"
    by (simp_all add: same_effect_def r3_def r4_def)
  have seal: "seal (rt_sha256 rt) i None = (Inr (decode_snapshot ?r0), Some ?r0)"
    using p ok(1) bound_row [OF p same(1)]
    by (simp add: seal_def transaction_def write_row_def bind_op_def snapshot_def sealed_row_def)
  have n0: "next_action (in_effect_id p) (in_pins p) (Some ?r0) = (Inr (CHECK_ABSENCE, decode_snapshot ?r0), Some ?r0)"
    using prepared_fields(4) [OF p] by (intro next_of_row [OF p same(1)]) (simp add: action_for_def)
  have n1: "next_action (in_effect_id p) (in_pins p) (Some ?r1) = (Inr (DISPATCH, decode_snapshot ?r2), Some ?r2)"
    using bound_row [OF p same(2)] ok(3) by (simp add: next_action_eq_Inr require_bound_eq_Inr)
  have n3: "next_action (in_effect_id p) (in_pins p) (Some r3) = (Inr (RECONCILE, decode_snapshot r3), Some r3)"
    by (intro next_of_row [OF p same(3)]) (simp add: action_for_def r3_def)
  have n4: "next_action (in_effect_id p) (in_pins p) (Some r4) = (Inr (COMPLETE, decode_snapshot r4), Some r4)"
    by (intro next_of_row [OF p same(4)]) (simp add: action_for_def r4_def)
  have t1: "check_absence rt ?J W (decode_snapshot ?r0) (Some ?r0, w0) = (Inr (), (Some ?r1, w1))"
    by (rule stage_absence [OF p ok(2) refl absent])
  have t2: "dispatch_once rt ?J W (decode_snapshot ?r2) (Some ?r2, w1) = (Inr (), (Some r3, w2))"
    unfolding r3_def using c upload(2) by (intro stage_dispatch [OF p refl _ _ ok(4) upload(1)]) auto
  have "worm_row_ok r3" using ok(3,4) c by (auto simp: r3_def)
  then have t3: "reconcile rt ?J W (decode_snapshot r3) (Some r3, w2) = (Inr (), (Some r4, w3))"
    unfolding r4_def by (intro stage_reconcile [OF p refl conf same(3) _ _ _ observed]) (simp_all add: r3_def sealed_row_def)
  have fin: "\<exists>cw. confirmed (in_effect_id p) (in_pins p) (Some r4) = (Inr cw, Some r4) \<and> c_worm cw = worm \<and>
      c_absence_inventory_digest cw = d"
    using bound_row [OF p same(4)] c prepared_row_fields [OF p]
    by (auto simp: confirmed_def bind_op_def snapshot_def decode_snapshot_def r4_def r3_def)
  note snap = snapshot_bound [OF same(1)]
  obtain cw where cw: "confirmed (in_effect_id p) (in_pins p) (Some r4) = (Inr cw, Some r4)" "c_worm cw = worm"
    "c_absence_inventory_digest cw = d" using fin by blast
  have "transitions 4 rt ?J W (decode_snapshot ?r0) (Some ?r0, w0) = (Inr (Some cw), (Some r4, w3))"
    by (simp add: numeral_eq_Suc bind_on_journal snap n0 n1 n3 n4 bind_op_def [of "check_absence rt ?J W _"]
        bind_op_def [of "dispatch_once rt ?J W _"] bind_op_def [of "reconcile rt ?J W _"] t1 t2 t3 cw)
  moreover have "transitions MAX_TRANSITIONS rt ?J W (decode_snapshot ?r0) (Some ?r0, w0) =
      transitions 4 rt ?J W (decode_snapshot ?r0) (Some ?r0, w0)"
    by (simp add: MAX_TRANSITIONS_def numeral_eq_Suc bind_on_journal snap n0 n1 n3 n4
        bind_op_def [of "check_absence rt ?J W _"]
        bind_op_def [of "dispatch_once rt ?J W _"] bind_op_def [of "reconcile rt ?J W _"] t1 t2 t3 cw)
  ultimately have "execute rt ?J W i (None, w0) = (Inr cw, (Some r4, w3))"
    by (simp add: execute_def bind_on_journal seal bind_op_def [of "transitions _ _ _ _ _"])
  then show ?thesis using cw by (auto simp: r4_def)
qed

section \<open>A sample world\<close>

text \<open>A bucket that holds the version once it was uploaded.\<close>

definition sample_inventory :: "bool \<Rightarrow> js_string \<Rightarrow> b2_version_inventory" where
  "sample_inventory there key =
     \<lparr>bi_default_retention_days = RETENTION_DAYS, bi_encryption = js ''SSE-B2'', bi_object_lock_enabled = True,
      bi_type = js ''allPrivate'', bi_digest = zero_digest, bi_key = key,
      bi_versions = (if there
        then [\<lparr>bv_content_sha1 = Some [], bv_delete_marker = False, bv_digest = Some zero_digest,
               bv_is_latest = True, bv_compliance = True, bv_retention_until = Some sample_until, bv_size = 1,
               bv_version_id = js ''v1''\<rparr>]
        else [])\<rparr>"

definition sample_outside :: "bool outside" where
  "sample_outside =
     \<lparr>upload_exact = (\<lambda>q there. (Inr (js ''v1''), True)),
      inspect_exact_key = (\<lambda>key there. (Inr (sample_inventory there key), there))\<rparr>"

definition sample_runtime :: runtime where
  "sample_runtime = \<lparr>rt_sha256 = zero_sha, rt_sha1 = (\<lambda>_. []), rt_parse_date = date_parse\<rparr>"

definition sample_worm :: activation_worm where
  "sample_worm = \<lparr>aw_digest = zero_digest, aw_key = sample_key, aw_retention_until = sample_until,
     aw_version_id = js ''v1''\<rparr>"

lemma sample_inventory_digest: "\<exists>bs. canonical_bytes (inventory_digest_payload (sample_inventory there sample_key)) = Inr bs"
proof -
  let ?v = "inventory_digest_payload (sample_inventory there sample_key)"
  have key: "is_bounded_ascii (js k) MAX_KEY_BYTES"
    if "list_all (\<lambda>c. (of_char c :: code_unit) \<le> 0x7F) k" "k \<noteq> []" "length k \<le> 128" for k
    using that by (simp add: is_bounded_ascii_def ascii_js MAX_KEY_BYTES_def)
  have str: "encodable (JStr s)" if "ascii s" "length s \<le> 512" for s
    using that by (intro ascii_encodable) (simp_all add: MAX_STRING_BYTES_def)
  have k: "ascii sample_key" "length sample_key \<le> 512"
    using sample_key_allowed printable_patterns(6) allowed_key_length [OF sample_key_allowed]
    by (auto simp: is_allowed_b2_exact_key_def list_ex_iff list_all_iff intro: matches_ascii)
  have "encodable ?v"
    by (simp add: inventory_digest_payload_def sample_inventory_def or_null_def str key k ascii_js sample_times
        zero_digest_props RETENTION_DAYS_def JI_def is_safe_integer_def max_safe_def MAX_MAPPING_ENTRIES_def
        MAX_SEQUENCE_ITEMS_def ascii_def [of "[]"] del: encodable.simps(5))
  moreover have "height ?v \<le> MAX_DEPTH" "int (nodes ?v) \<le> MAX_NODES"
    by (simp_all add: inventory_digest_payload_def sample_inventory_def or_null_def JI_def deepest_def
        MAX_DEPTH_def MAX_NODES_def)
  moreover have "3 * weight ?v \<le> MAX_CANONICAL_BYTES"
    using k by (simp add: inventory_digest_payload_def sample_inventory_def or_null_def JI_def sample_times
        zero_digest_props MAX_CANONICAL_BYTES_def)
  ultimately obtain t where "canonical_json ?v = Inr t"
    using canonical_json_total [of ?v] by (auto simp: inventory_digest_payload_def is_json_object_def)
  then show ?thesis by (simp add: canonical_bytes_def)
qed

lemma sample_summary:
  "exact_summary zero_sha (\<lambda>_. []) date_parse (inspect_exact_key sample_outside) (input_exact (\<lambda>_. []) sample_input) there =
     (Inr \<lparr>is_identical_version_ids = (if there then [js ''v1''] else []), is_inventory_digest = zero_digest,
        is_latest_version_id = (if there then Some (js ''v1'') else None),
        is_retention_by_version = (if there then [(js ''v1'', sample_until)] else [])\<rparr>, there)"
proof -
  obtain bs where "canonical_bytes (inventory_digest_payload (sample_inventory there sample_key)) = Inr bs"
    using sample_inventory_digest by blast
  moreover have "bi_digest (sample_inventory there k) = zero_digest" "bi_key (sample_inventory there k) = k"
    "bi_default_retention_days (sample_inventory there k) = RETENTION_DAYS"
    "bi_encryption (sample_inventory there k) = js ''SSE-B2''" "bi_object_lock_enabled (sample_inventory there k)"
    "bi_type (sample_inventory there k) = js ''allPrivate''" for k
    by (simp_all add: sample_inventory_def)
  moreover have "hex_bytes [] = []" by (simp add: hex_bytes_def)
  moreover have "scan_versions (version_conflicts date_parse 1 zero_digest [] (1767225600000 + RETENTION_MILLISECONDS))
      (bi_versions (sample_inventory there sample_key)) ([], [], None, 0) =
      Inr (if there then [js ''v1''] else [], if there then [(js ''v1'', sample_until)] else [],
        if there then Some (js ''v1'') else None, if there then 1 else 0)"
    by (simp add: sample_inventory_def version_conflicts_def sample_times validate_version_id_def)
  moreover have "length (bi_versions (sample_inventory there sample_key)) \<le> 16"
    by (simp add: sample_inventory_def)
  ultimately show ?thesis
    by (simp add: exact_summary_def input_exact_def sample_input_def sample_time_canonical zero_digest_props
        zero_sha_hex sha256_hex_def bind_op_def sample_outside_def validate_inventory_def sample_times)
qed

lemma sample_observations:
  "assert_exact_object_absent zero_sha (\<lambda>_. []) date_parse (inspect_exact_key sample_outside)
     (input_exact (\<lambda>_. []) sample_input) False = (Inr zero_digest, False)"
  "reconcile_exact_object zero_sha (\<lambda>_. []) date_parse (inspect_exact_key sample_outside)
     (input_exact (\<lambda>_. []) sample_input) True = (Inr sample_worm, True)"
  by (simp_all add: assert_exact_object_absent_def reconcile_exact_object_def bind_op_def sample_summary
      reconcile_summary_def) (simp add: sample_worm_def input_exact_def sample_input_def)

lemma sample_confirmable: "confirmable sample_input sample_worm"
  using sql_length_visible [of "js ''v1''"] sample_times
  by (simp add: confirmable_def sample_worm_def sample_input_def readable_def visible_def js_def time_of_def)

lemma sample_environment:
  "length (rt_sha256 sample_runtime bs) = 32"
  "prepare_effect (rt_sha256 sample_runtime) sample_input = Inr sample_prepared"
  "assert_exact_object_absent (rt_sha256 sample_runtime) (rt_sha1 sample_runtime) (rt_parse_date sample_runtime)
     (inspect_exact_key sample_outside) (input_exact (rt_sha1 sample_runtime) sample_input) False =
     (Inr zero_digest, False)"
  "upload_exact sample_outside (upload_of (input_exact (rt_sha1 sample_runtime) sample_input)) False =
     (Inr (aw_version_id sample_worm), True)"
  "reconcile_exact_object (rt_sha256 sample_runtime) (rt_sha1 sample_runtime) (rt_parse_date sample_runtime)
     (inspect_exact_key sample_outside) (input_exact (rt_sha1 sample_runtime) sample_input) True =
     (Inr sample_worm, True)"
  by (simp_all add: sample_runtime_def sample_effect_prepared sample_observations)
    (simp_all add: zero_sha_def sample_outside_def sample_worm_def)

lemma sample_execution:
  "\<exists>c r. execute sample_runtime (worm_store (rt_sha256 sample_runtime)) sample_outside sample_input (None, False) =
     (Inr c, (Some r, True)) \<and> w_status r = CONFIRMED \<and> c_worm c = sample_worm \<and>
     c_absence_inventory_digest c = zero_digest"
  by (rule undisturbed_execution [OF sample_environment(1-4) _ sample_environment(5) sample_confirmable]) simp

text \<open>C6: An execution that returns a confirmation has its object retained: the result and the stored
  journal name the sealed input's digest, key and commit time, the journal is CONFIRMED, and the
  confirmed version is locked for at least the retention period after the commit.\<close>

theorem confirmed_means_retained:
  assumes "execute rt (worm_store sha) W i (j, w) = (Inr c, (j', w'))" and "worm_inv sha j"
  shows "\<exists>p r. prepare_effect sha i = Inr p \<and> j' = Some r \<and> w_status r = CONFIRMED \<and>
    same_effect (sealed_row p) r \<and> c_effect_id c = in_effect_id p \<and> c_pins c = in_pins i \<and>
    c_committed_at c = in_committed_at i \<and> c_digest c = in_digest i \<and> c_key c = in_key i \<and>
    aw_digest (c_worm c) = in_digest i \<and> aw_key (c_worm c) = in_key i \<and>
    time_of (in_committed_at i) + RETENTION_MILLISECONDS \<le> time_of (aw_retention_until (c_worm c))"
proof -
  obtain x j1 where seal: "seal sha i j = (Inr x, j1)"
    and tr: "transitions MAX_TRANSITIONS rt (worm_store sha) W x (j1, w) = (Inr (Some c), (j', w'))"
    using assms(1) unfolding execute_def
    by (auto simp: op_simps split: option.splits)
  obtain p r1 where p: "prepare_effect sha i = Inr p" and j1: "j1 = Some r1" "same_effect (sealed_row p) r1"
    using seal_eq_InrD [OF seal] by blast
  let ?P = "\<lambda>s. worm_inv sha s \<and> (\<exists>r. s = Some r \<and> same_effect (sealed_row p) r)"
  have step: "?P t" if wr: "worm_write sha s t" and P: "?P s" for s t
  proof -
    from P obtain r where r: "s = Some r" "same_effect (sealed_row p) r" by blast
    with worm_write_le [OF wr] obtain r' where "t = Some r'" "same_effect r r'" by (auto simp: journal_le_def)
    with r same_effect_trans worm_write_inv [OF wr] P show ?thesis by blast
  qed
  have "keeps (of_journal ?P) (transitions MAX_TRANSITIONS rt (worm_store sha) W x)"
    by (rule store_keeps) (rule step)
  note keep = keepsD [OF this, of "(j1, w)"]
  have "worm_inv sha j1" using worm_write_inv [OF seal_write assms(2), of i] seal by simp
  then have "?P j'" using keep j1 tr by (simp add: of_journal_def)
  then obtain r where r: "j' = Some r" "same_effect (sealed_row p) r" "worm_inv sha (Some r)" by blast
  have c: "confirmed (s_effect_id x) (s_pins x) j' = (Inr c, j')" using transitions_return [OF tr] by simp
  from confirmed_eq_InrD [OF this] obtain d v u where conf: "w_status r = CONFIRMED" "w_worm_retention_until r = Some u"
    and ceq: "c = \<lparr>c_absence_inventory_digest = d, c_committed_at = w_committed_at r, c_digest = w_digest r,
      c_effect_id = w_effect_id r, c_key = w_object_key r, c_pins = w_pins r,
      c_worm = \<lparr>aw_digest = w_digest r, aw_key = w_object_key r, aw_retention_until = u, aw_version_id = v\<rparr>\<rparr>"
    unfolding r(1) by blast
  have "confirmation_ok r" using r(3) conf by (simp add: worm_inv_def)
  then have "time_of (w_committed_at r) + RETENTION_MILLISECONDS \<le> time_of u"
    using conf by (auto simp: confirmation_ok_def)
  moreover have "w_effect_id r = in_effect_id p" "w_pins r = in_pins i" "w_committed_at r = in_committed_at i"
    "w_digest r = in_digest i" "w_object_key r = in_key i"
    using r(2) prepared_row_fields [OF p] by (simp_all add: same_effect_def)
  ultimately show ?thesis using p r(1,2) conf(1) ceq
    by (intro exI [of _ p] exI [of _ r]) simp
qed

theorem confirmed_means_retained_witness:
  "\<exists>c r. execute sample_runtime (worm_store (rt_sha256 sample_runtime)) sample_outside sample_input (None, False) =
     (Inr c, (Some r, True)) \<and> w_status r = CONFIRMED \<and> aw_digest (c_worm c) = zero_digest"
proof -
  obtain c r where e: "execute sample_runtime (worm_store (rt_sha256 sample_runtime)) sample_outside sample_input
      (None, False) = (Inr c, (Some r, True))" using sample_execution by blast
  have "in_digest sample_input = zero_digest" by (simp add: sample_input_def)
  with confirmed_means_retained [OF e] have "w_status r = CONFIRMED \<and> aw_digest (c_worm c) = zero_digest"
    by (auto simp: worm_inv_def)
  with e show ?thesis by blast
qed

text \<open>What the observer-only reconciliation itself guarantees of the version it returns.\<close>

lemma reconciled_worm:
  assumes "reconcile_exact_object sha sha1 pd inspect x w = (Inr worm, w')"
  shows "aw_digest worm = ei_digest x" and "aw_key worm = ei_key x" and "length (aw_version_id worm) \<le> 512"
    and "\<exists>ms. pd (aw_retention_until worm) = Some ms \<and> time_of (ei_committed_at x) + RETENTION_MILLISECONDS \<le> ms"
proof -
  from assms obtain s inv where v: "validate_inventory sha pd inv (ei_key x) (int (length (ei_bytes x))) (ei_digest x)
      (hex_bytes (sha1 (ei_bytes x))) (time_of (ei_committed_at x) + RETENTION_MILLISECONDS) = Inr s"
    and r: "reconcile_summary x s = Inr worm"
    by (auto simp: reconcile_exact_object_def exact_summary_def bind_op_eq_Inr time_of_def split: if_splits)
  note sound = validate_inventory_sound [OF v]
  from r obtain until where f: "is_identical_version_ids s = [aw_version_id worm]"
    "map_of (is_retention_by_version s) (aw_version_id worm) = Some until" "aw_retention_until worm = until"
    and same: "aw_digest worm = ei_digest x" "aw_key worm = ei_key x"
    by (auto simp: reconcile_summary_def split: option.splits if_splits)
  from f(1) sound(4) obtain u where u: "bi_versions inv = [u]" "bv_version_id u = aw_version_id worm"
    by (auto simp: map_eq_Cons_conv)
  have "until = (case bv_retention_until u of None \<Rightarrow> [] | Some t \<Rightarrow> t)"
    using f(2) sound(9) u by simp
  moreover have "\<not> version_conflicts pd (int (length (ei_bytes x))) (ei_digest x) (hex_bytes (sha1 (ei_bytes x)))
      (time_of (ei_committed_at x) + RETENTION_MILLISECONDS) u" using sound(5) u(1) by simp
  ultimately show "\<exists>ms. pd (aw_retention_until worm) = Some ms \<and> time_of (ei_committed_at x) + RETENTION_MILLISECONDS \<le> ms"
    using f(3) by (auto simp: version_conflicts_def not_less split: option.splits)
  show "length (aw_version_id worm) \<le> 512" using sound(11) u by auto
  show "aw_digest worm = ei_digest x" "aw_key worm = ei_key x" by (fact same)+
qed

text \<open>C7: An undisturbed execution succeeds, even when the response of the upload is lost: if the observer
  reports the key absent before and exactly the uploaded version after, and it reports that version's retention
  in the one form the journal stores, canonical UTC milliseconds, and an identifier in which SQLite counts at
  least one character, then execute returns a confirmation of that version and leaves the journal CONFIRMED.
  (The observer itself also accepts retention texts of other forms that Date.parse reads; the journal refuses those.)\<close>

theorem undisturbed_execution_confirms:
  assumes "\<And>bs. length (rt_sha256 rt bs) = 32" and "prepare_effect (rt_sha256 rt) i = Inr p"
    and "assert_exact_object_absent (rt_sha256 rt) (rt_sha1 rt) (rt_parse_date rt) (inspect_exact_key W)
      (input_exact (rt_sha1 rt) i) w0 = (Inr d, w1)"
    and "upload_exact W (upload_of (input_exact (rt_sha1 rt) i)) w1 = (u, w2)"
    and "u = Inr (aw_version_id worm) \<or> (\<exists>e. u = Inl e)"
    and "reconcile_exact_object (rt_sha256 rt) (rt_sha1 rt) (rt_parse_date rt) (inspect_exact_key W)
      (input_exact (rt_sha1 rt) i) w2 = (Inr worm, w3)"
    and "is_canonical_time (aw_retention_until worm)" and "1 \<le> sql_length (aw_version_id worm)"
    and "rt_parse_date rt (aw_retention_until worm) = date_parse (aw_retention_until worm)"
  shows "\<exists>c r. execute rt (worm_store (rt_sha256 rt)) W i (None, w0) = (Inr c, (Some r, w3)) \<and>
    w_status r = CONFIRMED \<and> c_worm c = worm \<and> c_absence_inventory_digest c = d"
proof -
  have "confirmable i worm"
    using reconciled_worm [OF assms(6)] assms(7-9)
    by (auto simp: confirmable_def input_exact_def readable_def time_of_def)
  then show ?thesis by (rule undisturbed_execution [OF assms(1-6)])
qed

theorem undisturbed_execution_confirms_witness:
  "\<exists>c r. execute sample_runtime (worm_store (rt_sha256 sample_runtime)) sample_outside sample_input (None, False) =
     (Inr c, (Some r, True)) \<and> w_status r = CONFIRMED \<and> c_worm c = sample_worm \<and>
     c_absence_inventory_digest c = zero_digest"
proof -
  have "is_canonical_time (aw_retention_until sample_worm)" "1 \<le> sql_length (aw_version_id sample_worm)"
    "rt_parse_date sample_runtime (aw_retention_until sample_worm) = date_parse (aw_retention_until sample_worm)"
    using sample_confirmable by (simp_all add: confirmable_def readable_def sample_runtime_def)
  from undisturbed_execution_confirms [OF sample_environment(1-4) _ sample_environment(5) this] show ?thesis by simp
qed

end
