(* ===== verification/AuthorityFields.thy ===== *)
theory AuthorityFields imports WormHistory begin

text \<open>
  The field checks that the modules of the activated authority share. Each module declares its own
  copies with its own error (\<open>literal\<close>, \<open>exactInteger\<close>, \<open>timestamp\<close>, \<open>tagged\<close>); here they are written once
  over the code and status of the error, and the modules instantiate them.
\<close>

definition BODY_BYTES :: nat where "BODY_BYTES = 65536"

definition VERSION_ID :: regex where
  "VERSION_ID = Rep (Cls ''AZaz09..__==--'') 1 512"

text \<open>
  \<open>new Date(Date.parse(value)).toISOString() === value\<close>, for texts of the shape of \<open>TIMESTAMP\<close>. A field out of
  range makes the date invalid, and then \<open>toISOString\<close> itself throws.
\<close>

definition prints_back :: "js_string \<Rightarrow> bool result" where
  "prints_back v = (case date_parse v of
       None \<Rightarrow> Inl (Native RangeError)
     | Some t \<Rightarrow> bind_r (to_iso_string t) (\<lambda>s. Inr (s = v)))"

definition timestamp_check :: "string \<Rightarrow> int \<Rightarrow> js_string \<Rightarrow> js_string result" where
  "timestamp_check code status v =
     (if \<not> matches TIMESTAMP v then Inl (broker code status False)
      else bind_r (prints_back v) (\<lambda>same. bind_r (assert_js same code status) (\<lambda>_. Inr v)))"

definition tagged_check :: "string \<Rightarrow> int \<Rightarrow> js_string \<Rightarrow> js_string result" where
  "tagged_check code status v = bind_r (assert_js (matches DIGEST v) code status) (\<lambda>_. Inr v)"

definition request_id_check :: "string \<Rightarrow> int \<Rightarrow> js_string \<Rightarrow> js_string result" where
  "request_id_check code status v = bind_r (assert_js (matches REQUEST_ID v) code status) (\<lambda>_. Inr v)"

definition literal_check :: "string \<Rightarrow> int \<Rightarrow> members \<Rightarrow> string \<Rightarrow> js_string \<Rightarrow> unit result" where
  "literal_check code status kvs key expected =
     bind_r (require_string kvs key (length expected) None) (\<lambda>s. assert_js (s = expected) code status)"

definition integer_check :: "string \<Rightarrow> int \<Rightarrow> members \<Rightarrow> string \<Rightarrow> int \<Rightarrow> unit result" where
  "integer_check code status kvs key expected =
     bind_r (require_integer kvs key expected expected) (\<lambda>n. assert_js (n = expected) code status)"

definition size_check :: "string \<Rightarrow> int \<Rightarrow> json \<Rightarrow> unit result" where
  "size_check code status v =
     bind_r (canonical_bytes v) (\<lambda>bs. assert_js (0 < length bs \<and> length bs \<le> BODY_BYTES) code status)"

definition tagged_field :: "members \<Rightarrow> string \<Rightarrow> js_string result" where
  "tagged_field kvs key = require_string kvs key 71 (Some DIGEST)"

definition sha256_tag :: "hash \<Rightarrow> bytes \<Rightarrow> js_string" where
  "sha256_tag sha bs = js ''sha256:'' @ sha256_hex sha bs"

definition head_time :: "js_string \<Rightarrow> int" where
  "head_time s = the (date_parse s)"

lemma bind_r_InrE:
  assumes "bind_r m f = Inr y"
  obtains x where "m = Inr x" "f x = Inr y"
  using assms by (auto simp: bind_r_eq_Inr)

section \<open>When the checks pass\<close>

lemma prints_back_eq_Inr [result_simps]: "prints_back v = Inr True \<longleftrightarrow> is_canonical_time v"
  by (auto simp: prints_back_def is_canonical_time_def bind_r_eq_Inr split: option.splits)

lemma canonical_time_matches: "is_canonical_time v \<Longrightarrow> matches TIMESTAMP v"
  by (auto simp: is_canonical_time_def date_parse_def Let_def split: option.splits if_splits)

lemma timestamp_check_eq_Inr [result_simps]:
  "timestamp_check code status v = Inr t \<longleftrightarrow> is_canonical_time v \<and> t = v"
  using canonical_time_matches [of v] prints_back_eq_Inr [of v]
  by (auto simp: timestamp_check_def bind_r_eq_Inr assert_js_eq_Inr)

lemma tagged_check_eq_Inr [result_simps]:
  "tagged_check code status v = Inr t \<longleftrightarrow> matches DIGEST v \<and> t = v"
  by (auto simp: tagged_check_def result_simps)

lemma request_id_check_eq_Inr [result_simps]:
  "request_id_check code status v = Inr t \<longleftrightarrow> matches REQUEST_ID v \<and> t = v"
  by (auto simp: request_id_check_def result_simps)

lemma literal_check_eq_Inr [result_simps]:
  "literal_check code status kvs key expected = Inr u \<longleftrightarrow>
     lookup kvs (js key) = JStr expected \<and> expected \<noteq> []"
  by (auto simp: literal_check_def result_simps)

lemma integer_check_eq_Inr [result_simps]:
  "integer_check code status kvs key expected = Inr u \<longleftrightarrow>
     (\<exists>n. lookup kvs (js key) = JNum n \<and> is_safe_integer n \<and> number_int n = expected)"
  by (auto simp: integer_check_def result_simps)

lemma tagged_field_eq_Inr [result_simps]:
  "tagged_field kvs key = Inr d \<longleftrightarrow> lookup kvs (js key) = JStr d \<and> matches DIGEST d"
  using DIGEST_length [of d] by (auto simp: tagged_field_def require_string_eq_Inr)

lemma size_check_eq_Inr [result_simps]:
  "size_check code status v = Inr u \<longleftrightarrow> (\<exists>bs. canonical_bytes v = Inr bs \<and> 0 < length bs \<and> length bs \<le> BODY_BYTES)"
  by (auto simp: size_check_def result_simps)

text \<open>A field of an object with given members, and the object without its parse.\<close>

lemma exact_object_JObj:
  "distinct allowed \<Longrightarrow> map fst kvs = map js allowed \<Longrightarrow> exact_object (JObj kvs) allowed = Inr kvs"
  by (simp add: exact_object_eq_Inr flip: set_map)

lemma VERSION_ID_length: "matches VERSION_ID w \<Longrightarrow> 1 \<le> length w \<and> length w \<le> 512"
  using matches_length [of VERSION_ID 1 512 w] by (simp add: VERSION_ID_def)

section \<open>Equal canonical text\<close>

text \<open>Serialisation reads an object through its sorted members only.\<close>

lemma sort_key_normalised:
  fixes kvs :: "(js_string \<times> 'a) list"
  shows "sort_key fst (sort_key fst (map (map_prod id f) kvs)) = map (map_prod id f) (sort_key fst kvs)"
  unfolding sort_key_map_prod [symmetric] by (intro sort_key_id_if_sorted sorted_sort_key)

lemma encode_normalise:
  "encode_canonical depth (normalise v) budget = encode_canonical depth v budget"
  "encode_items depth (map normalise xs) budget = encode_items depth xs budget"
  "encode_members depth (map (map_prod id normalise) kvs) budget = encode_members depth kvs budget"
proof (induction depth v budget and depth xs budget and depth kvs budget
    rule: encode_canonical_encode_items_encode_members.induct)
  case (1 depth v budget)
  show ?case
  proof (cases v)
    case (JNum n)
    then show ?thesis
      by (simp add: encode_canonical.simps [of depth _ budget] is_safe_integer_def number_int_def max_safe_def)
  next
    case (JArr xs)
    show ?thesis using 1(1) [OF JArr] unfolding JArr
      by (simp add: encode_canonical.simps [of depth _ budget])
  next
    case (JObj kvs)
    have keys: "list_all (\<lambda>(k, _). p k) (map (map_prod id normalise) xs) = list_all (\<lambda>(k, _). p k) xs" for p xs
      by (auto simp: list_all_iff)
    show ?thesis using 1(2) [OF JObj refl] unfolding JObj
      by (auto simp: encode_canonical.simps [of depth _ budget] sort_key_normalised [unfolded id_def]
          keys [unfolded id_def] Let_def id_def)
  qed simp_all
qed (simp_all split: prod.splits)

lemma canonical_json_normalise: "canonical_json (normalise v) = canonical_json v"
  by (cases v) (simp_all only: canonical_json_def is_json_object_def encode_normalise normalise.simps json.simps
      if_True if_False not_True_eq_False not_False_eq_True
      encode_normalise(1) [of 0 "JObj _" MAX_NODES, simplified])

lemma canonical_bytes_normalise: "normalise v = normalise w \<Longrightarrow> canonical_bytes v = canonical_bytes w"
  using canonical_json_normalise [of v] canonical_json_normalise [of w] by (simp add: canonical_bytes_def)

text \<open>\<open>canonicalJson(v) === canonicalJson(w)\<close>: the two are one value, whatever the order of their members.\<close>

lemma same_text_normalise:
  assumes "canonical_json v = Inr t" and "canonical_json w = Inr t" and "well_formed v" and "well_formed w"
  shows "normalise v = normalise w"
  by (rule canonical_json_inj [OF assms])

definition without :: "js_string \<Rightarrow> members \<Rightarrow> members" where
  "without k kvs = filter (\<lambda>(k', _). k' \<noteq> k) kvs"

lemma without_normalise:
  assumes "normalise (JObj kvs) = normalise (JObj kvs')"
  shows "normalise (JObj (without k kvs)) = normalise (JObj (without k kvs'))"
proof -
  have eq: "sort_key fst (map (map_prod id normalise) (without k xs)) =
      filter (\<lambda>(k', _). k' \<noteq> k) (sort_key fst (map (map_prod id normalise) xs))" for xs
    by (simp add: without_def filter_sort filter_map comp_def case_prod_unfold)
  from assms show ?thesis by (simp add: eq)
qed

section \<open>Small objects\<close>

text \<open>
  A plain value holds ASCII texts of at most a thousand characters, safe integers and short ASCII member
  names; its canonical text is ASCII, one byte a character.
\<close>

primrec plain :: "json \<Rightarrow> bool" where
  "plain JUndef \<longleftrightarrow> False"
| "plain JNull \<longleftrightarrow> True"
| "plain (JBool b) \<longleftrightarrow> True"
| "plain (JNum n) \<longleftrightarrow> is_safe_integer n"
| "plain (JStr s) \<longleftrightarrow> ascii s \<and> length s \<le> 1000"
| "plain (JArr xs) \<longleftrightarrow> length xs \<le> MAX_SEQUENCE_ITEMS \<and> list_all (\<lambda>b. b) (map plain xs)"
| "plain (JObj kvs) \<longleftrightarrow> length kvs \<le> MAX_MAPPING_ENTRIES \<and>
     list_all (\<lambda>(k, b). is_bounded_ascii k MAX_KEY_BYTES \<and> b) (map (map_prod id plain) kvs)"

lemma plain_encodable: "plain v \<Longrightarrow> encodable v"
proof (induction v)
  case (JStr s)
  then show ?case by (intro ascii_encodable) (simp_all add: MAX_STRING_BYTES_def)
next
  case (JObj kvs)
  then show ?case by (fastforce simp: list_all_iff)
qed (auto simp: list_all_iff)

lemma ascii_quote_unit: "c \<le> 0x7F \<Longrightarrow> ascii (quote_unit c)"
  using unat_unit_less [of c]
  by (auto simp: quote_unit_def escape_unit_def Let_def ascii_def hex_digit_def word_le_nat_alt unat_unit
      div_less_iff_less_mult simp del: of_nat_add)

lemma ascii_quote: "ascii s \<Longrightarrow> ascii (json_quote s)"
proof -
  assume "ascii s"
  then have "ascii (quote_body s)"
  proof (induction s)
    case (Cons c s)
    then have "\<not> is_high c" "\<not> is_low c" "ascii (quote_unit c)" "ascii (quote_body s)"
      using ascii_not_surrogate [of c] ascii_quote_unit [of c] by simp_all
    then show ?case by simp
  qed simp
  then show ?thesis by (simp add: json_quote_def)
qed

lemma ascii_int_text: "ascii (int_text i)"
  using dec_digits [of "nat i"] dec_digits [of "nat (- i)"]
  by (auto simp: int_text_def ascii_def is_digit_def intro: order_trans)

lemma ascii_join: "\<forall>t \<in> set ts. ascii t \<Longrightarrow> ascii (join [0x2C] ts)"
  by (induction "[0x2C :: code_unit]" ts rule: join.induct) auto

lemma encode_ascii:
  "encode_canonical depth v budget = Inr (t, b) \<Longrightarrow> plain v \<Longrightarrow> ascii t"
  "encode_items depth xs budget = Inr (ts, b) \<Longrightarrow> \<forall>x \<in> set xs. plain x \<Longrightarrow> \<forall>t \<in> set ts. ascii t"
  "encode_members depth kvs budget = Inr (ts, b) \<Longrightarrow> \<forall>(k, v) \<in> set kvs. ascii k \<and> plain v \<Longrightarrow>
     \<forall>t \<in> set ts. ascii t"
proof (induction depth v budget and depth xs budget and depth kvs budget arbitrary: t b and ts b and ts b
    rule: encode_canonical_encode_items_encode_members.induct)
  case (1 depth v budget)
  then have guards: "assert_js (depth \<le> MAX_DEPTH) ''CANONICAL_JSON_TOO_DEEP'' 400 = Inr ()"
    "assert_js (0 \<le> budget - 1) ''CANONICAL_JSON_TOO_COMPLEX'' 400 = Inr ()"
    by (auto simp: encode_canonical.simps [of depth v budget] bind_r_eq_Inr)
  note enc = 1(3) [unfolded encode_canonical.simps [of depth v budget] guards bind_r.simps]
  have words: "ascii (js ''null'')" "ascii (js ''true'')" "ascii (js ''false'')" by (simp_all add: js_def)
  show ?case
  proof (cases v)
    case (JArr xs)
    with enc obtain ts where ts: "encode_items (depth + 1) xs (budget - 1) = Inr (ts, b)"
      "t = 0x5B # join [0x2C] ts @ [0x5D]" "\<not> length xs > MAX_SEQUENCE_ITEMS"
      by (auto simp: bind_r_eq_Inr split: if_splits)
    have "\<forall>t \<in> set ts. ascii t"
      by (rule 1(1) [OF JArr ts(3,1)]) (use 1(4) JArr in \<open>simp add: list_all_iff\<close>)
    then show ?thesis unfolding ts(2) by (simp add: ascii_join)
  next
    case (JObj kvs)
    with enc obtain ts where ts: "encode_members (depth + 1) (sort_key fst kvs) (budget - 1) = Inr (ts, b)"
      "t = 0x7B # join [0x2C] ts @ [0x7D]" "\<not> length (sort_key fst kvs) > MAX_MAPPING_ENTRIES"
      "\<not> \<not> list_all (\<lambda>(k, _). is_bounded_ascii k MAX_KEY_BYTES) (sort_key fst kvs)"
      by (auto simp: bind_r_eq_Inr Let_def split: if_splits)
    have "\<forall>(k, v) \<in> set (sort_key fst kvs). ascii k \<and> plain v"
      using ts(4) 1(4) JObj by (force simp: list_all_iff is_bounded_ascii_def)
    from 1(2) [OF JObj refl ts(3,4,1) this] show ?thesis unfolding ts(2) by (simp add: ascii_join)
  qed (use enc words 1(4) ascii_quote ascii_int_text in \<open>auto split: if_splits\<close>)
next
  case (3 depth x xs budget)
  then show ?case by (fastforce simp: bind_r_eq_Inr)
next
  case (5 depth k v kvs budget)
  from 5(3) obtain t b' ts' where t: "encode_canonical depth v budget = Inr (t, b')"
    "encode_members depth kvs b' = Inr (ts', b)" "ts = (json_quote k @ 0x3A # t) # ts'"
    by (auto simp: bind_r_eq_Inr)
  from 5(4) have k: "ascii k" "plain v" "\<forall>(k, v) \<in> set kvs. ascii k \<and> plain v" by auto
  have "ascii (json_quote k @ 0x3A # t)" using 5(1) [OF t(1) k(2)] ascii_quote [OF k(1)] by simp
  with 5(2) [OF t(2) k(3)] t(3) show ?case by simp
qed simp_all

text \<open>
  \<open>fits d n w v\<close>: \<open>v\<close> is plain, with at most \<open>d\<close> levels, \<open>n\<close> nodes and \<open>w\<close> characters of text. An object
  that fits the body limit always has canonical bytes within it.
\<close>

definition fits :: "nat \<Rightarrow> nat \<Rightarrow> nat \<Rightarrow> json \<Rightarrow> bool" where
  "fits d n w v \<longleftrightarrow> plain v \<and> height v \<le> d \<and> nodes v \<le> n \<and> weight v \<le> w"

lemma fits_mono: "fits d n w v \<Longrightarrow> d \<le> d' \<Longrightarrow> n \<le> n' \<Longrightarrow> w \<le> w' \<Longrightarrow> fits d' n' w' v"
  by (auto simp: fits_def)

lemma canonical_text_nonempty: "canonical_json v = Inr t \<Longrightarrow> utf8_encode t \<noteq> []"
proof
  assume t: "canonical_json v = Inr t" and "utf8_encode t = []"
  then have "t = []" using utf8_encode_inj [of t "[]"] canonical_text_scalars by (auto simp: utf8_encode_def)
  with t show False
    by (cases v) (auto simp: canonical_json_def is_json_object_def encode_canonical.simps [of 0 _ MAX_NODES]
        bind_r_eq_Inr Let_def split: if_splits)
qed

lemma fits_canonical:
  assumes "fits 32 1000 65536 (JObj kvs)"
  obtains t where "canonical_json (JObj kvs) = Inr t" "canonical_bytes (JObj kvs) = Inr (utf8_encode t)"
    "0 < length (utf8_encode t)" "length (utf8_encode t) \<le> BODY_BYTES"
proof -
  let ?v = "JObj kvs"
  have f: "plain ?v" "height ?v \<le> 32" "nodes ?v \<le> 1000" "weight ?v \<le> 65536"
    using assms unfolding fits_def by blast+
  from f(2,3,4) have "height ?v \<le> MAX_DEPTH" "int (nodes ?v) \<le> MAX_NODES" "3 * weight ?v \<le> MAX_CANONICAL_BYTES"
    unfolding MAX_DEPTH_def MAX_NODES_def MAX_CANONICAL_BYTES_def by linarith+
  with canonical_json_total [OF _ plain_encodable [OF f(1)]] obtain t where t: "canonical_json ?v = Inr t"
    by (auto simp: is_json_object_def)
  then obtain b where e: "encode_canonical 0 ?v MAX_NODES = Inr (t, b)"
    by (auto simp: canonical_json_def is_json_object_def bind_r_eq_Inr split: if_splits)
  from encode_weight(1) [OF e] length_utf8_ascii [OF encode_ascii(1) [OF e f(1)]] f(4)
  have "length (utf8_encode t) \<le> BODY_BYTES" unfolding BODY_BYTES_def by linarith
  with that t canonical_text_nonempty [OF t] show ?thesis by (simp add: canonical_bytes_def)
qed

text \<open>Sorting the members changes none of the measures.\<close>

lemma deepest_set: "set hs = set hs' \<Longrightarrow> deepest hs = deepest hs'"
  using deepest_le [of 0 hs] deepest_le [of 0 hs'] by (intro order_antisym) auto

lemma measures_normalise:
  "plain (normalise v) = plain v" "height (normalise v) = height v" "nodes (normalise v) = nodes v"
  "weight (normalise v) = weight v"
proof (induction v)
  case (JObj kvs)
  {
    case 1
    show ?case using JObj.IH(1)
      by (fastforce simp: list_all_iff snds.simps)
  next
    case 2
    have "snd ` map_prod id height ` map_prod id normalise ` set kvs = snd ` map_prod id height ` set kvs"
      using JObj.IH(2) by (force simp: image_iff)
    then show ?case by (auto intro!: deepest_set simp: image_comp)
  next
    case 3
    have "sum_list (map (\<lambda>x. nodes (normalise (snd x))) kvs) = sum_list (map (\<lambda>x. nodes (snd x)) kvs)"
      using JObj.IH(3) by (intro arg_cong [where f = sum_list] map_cong) (auto simp: snds.simps)
    then show ?case
      by (simp add: sum_list_sort_key [of "nodes \<circ> snd", unfolded comp_def] comp_def)
  next
    case 4
    have "sum_list (map (\<lambda>x. 6 * length (fst x) + 4 + weight (normalise (snd x))) kvs) =
        sum_list (map (\<lambda>x. 6 * length (fst x) + 4 + weight (snd x)) kvs)"
      using JObj.IH(4) by (intro arg_cong [where f = sum_list] map_cong) (auto simp: snds.simps)
    then show ?case
      by (simp add: sum_list_sort_key [of "\<lambda>x. 6 * length (fst x) + 4 + weight (snd x)"] comp_def case_prod_unfold)
  }
next
  case (JNum n)
  { case 1 show ?case by (simp add: is_safe_integer_def max_safe_def) }
next
  case (JArr xs)
  {
    case 1
    show ?case using JArr.IH(1) by (auto simp: list_all_iff)
  next
    case 2
    have "map height (map normalise xs) = map height xs" using JArr.IH(2) by simp
    then show ?case unfolding normalise.simps height.simps by (simp only:)
  next
    case 3
    have "map nodes (map normalise xs) = map nodes xs" using JArr.IH(3) by simp
    then show ?case unfolding normalise.simps nodes.simps by (simp only:)
  next
    case 4
    have "map weight (map normalise xs) = map weight xs" using JArr.IH(4) by simp
    then show ?case unfolding normalise.simps weight.simps by (simp only:)
  }
qed simp_all

lemma fits_normalise: "normalise v = normalise w \<Longrightarrow> fits d n m v = fits d n m w"
  using measures_normalise [of v] measures_normalise [of w] by (simp add: fits_def)

lemma bounded_key: "is_bounded_ascii (js k) MAX_KEY_BYTES \<longleftrightarrow>
    list_all (\<lambda>c. (of_char c :: code_unit) \<le> 0x7F) k \<and> k \<noteq> [] \<and> length k \<le> 128"
proof -
  have "ascii (js k) \<longleftrightarrow> list_all (\<lambda>c. (of_char c :: code_unit) \<le> 0x7F) k"
    by (auto simp: ascii_def js_def list_all_iff)
  then show ?thesis by (auto simp: is_bounded_ascii_def MAX_KEY_BYTES_def)
qed

lemmas fits_simps = bounded_key JI_def is_safe_integer_def max_safe_def deepest_def
  MAX_MAPPING_ENTRIES_def ascii_js

lemma printable_shared [simp]: "printable VERSION_ID" "printable REQUEST_ID" "printable CLOUDFLARE_UUID"
  by (simp_all add: VERSION_ID_def REQUEST_ID_def CLOUDFLARE_UUID_def Let_def)

lemma matched_text:
  "matches DIGEST s \<Longrightarrow> ascii s \<and> length s = 71"
  "matches VERSION_ID s \<Longrightarrow> ascii s \<and> length s \<le> 512"
  "matches REQUEST_ID s \<Longrightarrow> ascii s \<and> length s \<le> 128"
  "matches CLOUDFLARE_UUID s \<Longrightarrow> ascii s \<and> length s = 36"
  "is_canonical_time s \<Longrightarrow> ascii s \<and> length s = 24"
  "matches TIMESTAMP s \<Longrightarrow> ascii s \<and> length s = 24"
  using DIGEST_length VERSION_ID_length REQUEST_ID_length CLOUDFLARE_UUID_length TIMESTAMP_length
    canonical_time_matches matches_ascii printable_shared printable_patterns by blast+

section \<open>Objects that are one value\<close>

text \<open>Two objects with one normal form have the same members, up to their order and that of nested ones.\<close>

lemma normalise_leaf:
  "normalise x = JStr s \<longleftrightarrow> x = JStr s" "n \<noteq> 0 \<Longrightarrow> normalise x = JI n \<longleftrightarrow> x = JI n"
  by (cases x; auto simp: JI_def)+

lemma normalise_JI [simp]: "normalise (JI n) = JI n"
  by (simp add: JI_def)

lemma same_JObj: "normalise x = normalise (JObj kvs) \<Longrightarrow> \<exists>kvs'. x = JObj kvs'"
  by (cases x) simp_all

lemma same_lookup:
  assumes "normalise (JObj kvs) = normalise (JObj kvs')" and "well_formed (JObj kvs)" and "well_formed (JObj kvs')"
  shows "normalise (lookup kvs k) = normalise (lookup kvs' k)" and "set (map fst kvs) = set (map fst kvs')"
    and "well_formed (lookup kvs k)"
proof -
  have d: "distinct (map fst kvs)" "distinct (map fst kvs')" using assms(2,3) by simp_all
  from lookup_normalise [OF d(1), of k] lookup_normalise [OF d(2), of k] assms(1)
  show "normalise (lookup kvs k) = normalise (lookup kvs' k)" by (simp add: json_get_def)
  have "set (map fst (sort_key fst (map (map_prod id normalise) xs))) = set (map fst xs)"
    for xs :: "(js_string \<times> json) list" by (simp add: image_comp)
  with assms(1) show "set (map fst kvs) = set (map fst kvs')" by (metis json.inject(5) normalise.simps(7))
  show "well_formed (lookup kvs k)"
    using assms(2) [unfolded well_formed_JObj] by (auto simp: lookup_def dest: map_of_SomeD split: option.splits)
qed

lemma well_formed_lookup: "well_formed (JObj kvs) \<Longrightarrow> well_formed (lookup kvs k)"
  by (rule same_lookup(3)) auto

lemma members_normalise:
  assumes "distinct (map fst kvs)" and "set (map fst kvs) = js ` set names" and "distinct names"
  shows "normalise (JObj kvs) = normalise (JObj (map (\<lambda>k. (js k, lookup kvs (js k))) names))"
proof -
  let ?m = "map (\<lambda>k. (js k, lookup kvs (js k))) names"
  have d: "distinct (map fst ?m)" using assms(3) by (simp add: comp_def distinct_map inj_on_def)
  have "set kvs = set ?m"
  proof (rule set_eqI, unfold split_paired_all)
    fix k v
    have "(k, v) \<in> set kvs \<longleftrightarrow> k \<in> set (map fst kvs) \<and> lookup kvs k = v"
    proof
      assume "(k, v) \<in> set kvs"
      then show "k \<in> set (map fst kvs) \<and> lookup kvs k = v"
        using assms(1) by (force simp: lookup_def)
    next
      assume k: "k \<in> set (map fst kvs) \<and> lookup kvs k = v"
      then obtain u where "map_of kvs k = Some u" by (metis domIff dom_map_of_conv_image_fst not_None_eq set_map)
      then show "(k, v) \<in> set kvs" using k by (auto simp: lookup_def dest: map_of_SomeD)
    qed
    also have "\<dots> \<longleftrightarrow> (k, v) \<in> set ?m" using assms(2) by auto
    finally show "(k, v) \<in> set kvs \<longleftrightarrow> (k, v) \<in> set ?m" .
  qed
  then have "set (sort_key fst kvs) = set (sort_key fst ?m)" by simp
  moreover have "sorted (map fst (sort_key fst kvs))" "sorted (map fst (sort_key fst ?m))" by (rule sorted_sort_key)+
  moreover have "distinct (map fst (sort_key fst kvs))" "distinct (map fst (sort_key fst ?m))"
    using assms(1) d by (simp_all add: distinct_map inj_on_def)
  ultimately have "sort_key fst kvs = sort_key fst ?m" by (intro map_sorted_distinct_set_unique [of fst]) (auto simp: distinct_map)
  then show ?thesis by (simp only: normalise.simps sort_key_map_prod)
qed

lemma normalise_idem: "normalise (normalise v) = normalise v"
proof (induction v)
  case (JObj kvs)
  let ?m = "map (map_prod id normalise) kvs"
  have "map (map_prod id normalise) ?m = ?m" using JObj by (auto simp: snds.simps)
  then have "sort_key fst (map (map_prod id normalise) (sort_key fst ?m)) = sort_key fst (sort_key fst ?m)"
    by (simp only: sort_key_map_prod [symmetric])
  also have "\<dots> = sort_key fst ?m" by (intro sort_key_id_if_sorted sorted_sort_key)
  finally show ?case by (simp only: normalise.simps)
qed auto

lemma normalise_well_formed: "well_formed v \<Longrightarrow> well_formed (normalise v)"
proof (induction v)
  case (JObj kvs)
  then show ?case
    by (force simp: list_all_iff snds.simps distinct_map inj_on_def)
qed (auto simp: list_all_iff)

end
