(* ===== verification/HeadDocument.thy ===== *)
theory HeadDocument imports AuthorityFields B2Inventory begin

text \<open>
  The head witness of \<open>activated-authority-head.ts\<close>: one generation of the account-global chain of
  activated authorities, built from its inputs with a self-derived identifier, and parsed by
  rebuilding it.
\<close>

definition GENERATION_MAX :: int where "GENERATION_MAX = max_safe"

definition HEAD_SCHEMA :: js_string where
  "HEAD_SCHEMA = js ''dpone.activated-service-authority-head.v1''"

record head_input =
  hi_activated_record_id :: js_string
  hi_activated_record_sha256 :: js_string
  hi_activated_service_authorities_sha256 :: js_string
  hi_activated_worm :: activation_worm
  hi_committed_at :: js_string
  hi_generation :: int
  hi_ingress_worker_version_id :: js_string
  hi_previous :: json

definition head_tagged :: "js_string \<Rightarrow> js_string result" where
  "head_tagged = tagged_check ''ACTIVATED_AUTHORITY_HEAD_INVALID'' 500"

definition head_timestamp :: "js_string \<Rightarrow> js_string result" where
  "head_timestamp = timestamp_check ''ACTIVATED_AUTHORITY_HEAD_INVALID'' 500"

definition head_literal :: "members \<Rightarrow> string \<Rightarrow> js_string \<Rightarrow> unit result" where
  "head_literal = literal_check ''ACTIVATED_AUTHORITY_HEAD_INVALID'' 503"

definition head_integer :: "members \<Rightarrow> string \<Rightarrow> int \<Rightarrow> unit result" where
  "head_integer = integer_check ''ACTIVATED_AUTHORITY_HEAD_INVALID'' 503"

definition head_size :: "json \<Rightarrow> unit result" where
  "head_size = size_check ''ACTIVATED_AUTHORITY_HEAD_SIZE_INVALID'' 413"

lemmas head_checks [result_simps] =
  head_tagged_def head_timestamp_def head_literal_def head_integer_def head_size_def

definition worker_version :: "js_string \<Rightarrow> js_string result" where
  "worker_version v =
     bind_r (assert_js (matches CLOUDFLARE_UUID v) ''ACTIVATED_AUTHORITY_HEAD_INVALID'' 500) (\<lambda>_. Inr v)"

definition head_generation :: "int \<Rightarrow> int result" where
  "head_generation n =
     bind_r (assert_js (\<bar>n\<bar> \<le> max_safe \<and> 1 \<le> n \<and> n \<le> GENERATION_MAX)
       ''ACTIVATED_AUTHORITY_HEAD_INVALID'' 500) (\<lambda>_. Inr n)"

definition activation_key :: "js_string \<Rightarrow> js_string \<Rightarrow> js_string" where
  "activation_key ingress digest = js ''receipts/v1/activation/'' @ ingress @ js ''/1-'' @ drop 7 digest @ js ''.json''"

definition parse_activation_worm :: "json \<Rightarrow> js_string \<Rightarrow> js_string \<Rightarrow> activation_worm result" where
  "parse_activation_worm v digest ingress =
     bind_r (exact_object v [''digest'', ''key'', ''retention_until'', ''version_id'']) (\<lambda>worm.
     bind_r (head_literal worm ''digest'' digest) (\<lambda>_.
     let expected_key = activation_key ingress digest in
     bind_r (head_literal worm ''key'' expected_key) (\<lambda>_.
     bind_r (require_string worm ''retention_until'' 32 (Some TIMESTAMP)) (\<lambda>retention_until.
     bind_r (require_string worm ''version_id'' 512 (Some VERSION_ID)) (\<lambda>version_id.
       Inr \<lparr>aw_digest = digest, aw_key = expected_key, aw_retention_until = retention_until,
            aw_version_id = version_id\<rparr>)))))"

definition worm_json :: "js_string \<Rightarrow> js_string \<Rightarrow> js_string \<Rightarrow> js_string \<Rightarrow> json" where
  "worm_json digest key retention_until version_id = JObj
     [(js ''digest'', JStr digest), (js ''key'', JStr key),
      (js ''retention_until'', JStr retention_until), (js ''version_id'', JStr version_id)]"

definition activation_worm_json :: "activation_worm \<Rightarrow> js_string \<Rightarrow> js_string \<Rightarrow> json result" where
  "activation_worm_json worm digest ingress =
     bind_r (assert_js (aw_digest worm = digest) ''ACTIVATED_AUTHORITY_HEAD_WORM_INVALID'' 503) (\<lambda>_.
     bind_r (parse_activation_worm
       (worm_json digest (aw_key worm) (aw_retention_until worm) (aw_version_id worm)) digest ingress) (\<lambda>normalized.
     bind_r (head_timestamp (aw_retention_until normalized)) (\<lambda>retention_until.
       Inr (worm_json digest (aw_key normalized) retention_until (aw_version_id normalized)))))"

definition PREVIOUS_FIELDS :: "string list" where
  "PREVIOUS_FIELDS = [''generation'', ''record_id'', ''record_sha256'']"

definition parse_previous :: "json \<Rightarrow> json result" where
  "parse_previous v =
     (if v = JStr (js ''GENESIS'') then Inr v
      else
        bind_r (exact_object v PREVIOUS_FIELDS) (\<lambda>previous.
        bind_r (require_integer previous ''generation'' 1 (GENERATION_MAX - 1)) (\<lambda>_.
        bind_r (tagged_field previous ''record_id'') (\<lambda>_.
        bind_r (tagged_field previous ''record_sha256'') (\<lambda>_. Inr v)))))"

definition previous_json :: "json \<Rightarrow> int \<Rightarrow> json result" where
  "previous_json v current =
     (if current = 1 then
        bind_r (assert_js (v = JStr (js ''GENESIS'')) ''ACTIVATED_AUTHORITY_HEAD_PREVIOUS_INVALID'' 409)
          (\<lambda>_. Inr v)
      else
        bind_r (exact_object v PREVIOUS_FIELDS) (\<lambda>previous.
        bind_r (require_integer previous ''generation'' 1 (GENERATION_MAX - 1)) (\<lambda>n.
        bind_r (assert_js (n = current - 1) ''ACTIVATED_AUTHORITY_HEAD_PREVIOUS_INVALID'' 409) (\<lambda>_.
        bind_r (tagged_field previous ''record_id'') (\<lambda>record_id.
        bind_r (tagged_field previous ''record_sha256'') (\<lambda>record_sha256.
          Inr (JObj [(js ''generation'', lookup previous (js ''generation'')),
                     (js ''record_id'', JStr record_id), (js ''record_sha256'', JStr record_sha256)])))))))"

definition HEAD_FIELDS :: "string list" where
  "HEAD_FIELDS = [''activated'', ''activated_service_authorities_sha256'', ''committed_at'', ''generation'',
     ''ingress_worker_version_id'', ''previous'', ''record_id'', ''schema'', ''schema_version'']"

definition head_members ::
    "js_string \<Rightarrow> js_string \<Rightarrow> json \<Rightarrow> js_string \<Rightarrow> js_string \<Rightarrow> int \<Rightarrow> js_string \<Rightarrow> json \<Rightarrow> members" where
  "head_members record_id record_sha256 worm authorities committed_at gen ingress previous =
     [(js ''activated'', JObj [(js ''record_id'', JStr record_id), (js ''record_sha256'', JStr record_sha256),
         (js ''worm'', worm)]),
      (js ''activated_service_authorities_sha256'', JStr authorities),
      (js ''committed_at'', JStr committed_at),
      (js ''generation'', JI gen),
      (js ''ingress_worker_version_id'', JStr ingress),
      (js ''previous'', previous),
      (js ''schema'', JStr HEAD_SCHEMA),
      (js ''schema_version'', JI 1)]"

definition build_activated_authority_head :: "hash \<Rightarrow> head_input \<Rightarrow> json result" where
  "build_activated_authority_head sha i =
     bind_r (head_tagged (hi_activated_record_sha256 i)) (\<lambda>record_sha256.
     bind_r (worker_version (hi_ingress_worker_version_id i)) (\<lambda>ingress.
     bind_r (head_tagged (hi_activated_record_id i)) (\<lambda>record_id.
     bind_r (activation_worm_json (hi_activated_worm i) record_sha256 ingress) (\<lambda>worm.
     bind_r (head_tagged (hi_activated_service_authorities_sha256 i)) (\<lambda>authorities.
     bind_r (head_timestamp (hi_committed_at i)) (\<lambda>committed_at.
     bind_r (head_generation (hi_generation i)) (\<lambda>gen.
     bind_r (previous_json (hi_previous i) (hi_generation i)) (\<lambda>previous.
     let without_id = head_members record_id record_sha256 worm authorities committed_at gen ingress previous in
     bind_r (canonical_bytes (JObj without_id)) (\<lambda>bs.
     let head = JObj (without_id @ [(js ''record_id'', JStr (sha256_tag sha bs))]) in
     bind_r (head_size head) (\<lambda>_. Inr head))))))))))"

definition parse_activated_authority_head :: "hash \<Rightarrow> json \<Rightarrow> json result" where
  "parse_activated_authority_head sha v =
     bind_r (exact_object v HEAD_FIELDS) (\<lambda>head.
     bind_r (head_literal head ''schema'' HEAD_SCHEMA) (\<lambda>_.
     bind_r (head_integer head ''schema_version'' 1) (\<lambda>_.
     bind_r (require_integer head ''generation'' 1 GENERATION_MAX) (\<lambda>gen.
     bind_r (exact_object (lookup head (js ''activated'')) [''record_id'', ''record_sha256'', ''worm'']) (\<lambda>activated.
     bind_r (tagged_field activated ''record_sha256'') (\<lambda>record_sha256.
     bind_r (tagged_field activated ''record_id'') (\<lambda>record_id.
     bind_r (tagged_field head ''activated_service_authorities_sha256'') (\<lambda>authorities.
     bind_r (require_string head ''ingress_worker_version_id'' 36 (Some CLOUDFLARE_UUID)) (\<lambda>ingress.
     bind_r (parse_activation_worm (lookup activated (js ''worm'')) record_sha256 ingress) (\<lambda>worm.
     bind_r (require_string head ''committed_at'' 32 (Some TIMESTAMP)) (\<lambda>committed_at.
     bind_r (parse_previous (lookup head (js ''previous''))) (\<lambda>previous.
     bind_r (build_activated_authority_head sha
         \<lparr>hi_activated_record_id = record_id, hi_activated_record_sha256 = record_sha256,
          hi_activated_service_authorities_sha256 = authorities, hi_activated_worm = worm,
          hi_committed_at = committed_at, hi_generation = gen, hi_ingress_worker_version_id = ingress,
          hi_previous = previous\<rparr>) (\<lambda>rebuilt.
     bind_r (canonical_json v) (\<lambda>text.
     bind_r (canonical_json rebuilt) (\<lambda>rebuilt_text.
     bind_r (assert_js (text = rebuilt_text \<and> lookup head (js ''record_id'') = json_get rebuilt (js ''record_id''))
       ''ACTIVATED_AUTHORITY_HEAD_DIGEST_INVALID'' 503) (\<lambda>_. Inr v))))))))))))))))"

definition head_record_sha256 :: "hash \<Rightarrow> json \<Rightarrow> js_string result" where
  "head_record_sha256 sha head =
     bind_r (parse_activated_authority_head sha head) (\<lambda>h.
     bind_r (canonical_bytes h) (\<lambda>bs. Inr (sha256_tag sha bs)))"

definition pad_start :: "nat \<Rightarrow> js_string \<Rightarrow> js_string" where
  "pad_start n s = replicate (n - length s) 0x30 @ s"

definition head_key :: "hash \<Rightarrow> json \<Rightarrow> js_string result" where
  "head_key sha head =
     bind_r (case head of JObj kvs \<Rightarrow> require_integer kvs ''generation'' 1 GENERATION_MAX
             | _ \<Rightarrow> Inl (broker ''FIELD_INVALID'' 400 False)) (\<lambda>n.
     bind_r (head_record_sha256 sha head) (\<lambda>d.
       Inr (js ''receipts/v1/activation-head/generations/'' @ pad_start 20 (int_text n) @ js ''-'' @
            drop 7 d @ js ''.json'')))"

definition activated_service_authorities_sha256 :: "members \<Rightarrow> js_string result" where
  "activated_service_authorities_sha256 activated =
     bind_r (exact_object (lookup activated (js ''service_authorities''))
       [''a1_precommit_observation'', ''expectation_sha256'']) (\<lambda>authorities.
     bind_r (exact_object (lookup authorities (js ''a1_precommit_observation''))
       [''broker_accepted_at'', ''cloudflare_provider_observation_sha256'', ''expectation_sha256'',
        ''network_surface'', ''observed_at'', ''observer_service_identity'', ''observer_worker_version_id'',
        ''phase'', ''provider_observation_sha256'', ''schema'', ''schema_version'', ''services'']) (\<lambda>observation.
     bind_r (head_literal observation ''phase'' (js ''A1_PRECOMMIT'')) (\<lambda>_.
       tagged_field observation ''provider_observation_sha256'')))"

section \<open>When the parts are accepted\<close>

lemma parse_activation_worm_eq_Inr [result_simps]:
  "parse_activation_worm v digest ingress = Inr w \<longleftrightarrow>
     (\<exists>kvs. v = JObj kvs \<and> set (map fst kvs) = js ` {''digest'', ''key'', ''retention_until'', ''version_id''} \<and>
        lookup kvs (js ''digest'') = JStr digest \<and> digest \<noteq> [] \<and>
        lookup kvs (js ''key'') = JStr (aw_key w) \<and> lookup kvs (js ''retention_until'') = JStr (aw_retention_until w) \<and>
        lookup kvs (js ''version_id'') = JStr (aw_version_id w)) \<and>
     aw_digest w = digest \<and> aw_key w = activation_key ingress digest \<and>
     matches TIMESTAMP (aw_retention_until w) \<and> matches VERSION_ID (aw_version_id w)"
proof -
  have "matches TIMESTAMP s \<Longrightarrow> 0 < length s \<and> length s \<le> 32" "matches VERSION_ID s \<Longrightarrow> 0 < length s \<and> length s \<le> 512"
    for s using TIMESTAMP_length [of s] VERSION_ID_length [of s] by auto
  then show ?thesis
    by (cases w) (auto simp: parse_activation_worm_def Let_def result_simps activation_key_def
        simp del: length_greater_0_conv)
qed

lemma activation_worm_json_eq_Inr [result_simps]:
  "activation_worm_json w digest ingress = Inr j \<longleftrightarrow>
     aw_digest w = digest \<and> digest \<noteq> [] \<and> aw_key w = activation_key ingress digest \<and>
     is_canonical_time (aw_retention_until w) \<and> matches VERSION_ID (aw_version_id w) \<and>
     j = worm_json (aw_digest w) (aw_key w) (aw_retention_until w) (aw_version_id w)"
proof -
  have "parse_activation_worm (worm_json digest (aw_key w) (aw_retention_until w) (aw_version_id w)) digest ingress = Inr n
      \<longleftrightarrow> digest \<noteq> [] \<and> aw_key w = activation_key ingress digest \<and> matches TIMESTAMP (aw_retention_until w) \<and>
        matches VERSION_ID (aw_version_id w) \<and> n = \<lparr>aw_digest = digest, aw_key = aw_key w,
          aw_retention_until = aw_retention_until w, aw_version_id = aw_version_id w\<rparr>" for n
    by (cases n) (auto simp: parse_activation_worm_eq_Inr worm_json_def lookup_def)
  then show ?thesis
    using canonical_time_matches [of "aw_retention_until w"]
    by (auto simp: activation_worm_json_def bind_r_eq_Inr assert_js_eq_Inr head_checks timestamp_check_eq_Inr)
qed

lemma parse_previous_eq_Inr [result_simps]:
  "parse_previous v = Inr p \<longleftrightarrow> p = v \<and> (v = JStr (js ''GENESIS'') \<or>
     (\<exists>kvs n d d'. v = JObj kvs \<and> set (map fst kvs) = js ` set PREVIOUS_FIELDS \<and>
        lookup kvs (js ''generation'') = JNum n \<and> is_safe_integer n \<and>
        1 \<le> number_int n \<and> number_int n < GENERATION_MAX \<and>
        lookup kvs (js ''record_id'') = JStr d \<and> matches DIGEST d \<and>
        lookup kvs (js ''record_sha256'') = JStr d' \<and> matches DIGEST d'))"
  by (auto simp: parse_previous_def result_simps PREVIOUS_FIELDS_def)

definition links_to :: "json \<Rightarrow> int \<Rightarrow> json \<Rightarrow> bool" where
  "links_to v current p \<longleftrightarrow>
     (if current = 1 then v = JStr (js ''GENESIS'') \<and> p = v
      else \<exists>kvs n d d'. v = JObj kvs \<and> set (map fst kvs) = js ` set PREVIOUS_FIELDS \<and>
        lookup kvs (js ''generation'') = JNum n \<and> is_safe_integer n \<and>
        number_int n = current - 1 \<and> 1 \<le> current - 1 \<and> current - 1 < GENERATION_MAX \<and>
        lookup kvs (js ''record_id'') = JStr d \<and> matches DIGEST d \<and>
        lookup kvs (js ''record_sha256'') = JStr d' \<and> matches DIGEST d' \<and>
        p = JObj [(js ''generation'', JNum n), (js ''record_id'', JStr d), (js ''record_sha256'', JStr d')])"

lemma previous_json_eq_Inr [result_simps]: "previous_json v current = Inr p \<longleftrightarrow> links_to v current p"
  by (auto simp: previous_json_def links_to_def result_simps PREVIOUS_FIELDS_def)

lemma links_to_again: "links_to v current p \<Longrightarrow> links_to p current p"
  by (auto simp: links_to_def PREVIOUS_FIELDS_def lookup_def split: if_splits)

lemma links_to_parse: "links_to v current p \<Longrightarrow> parse_previous p = Inr p"
  by (auto simp: links_to_def parse_previous_eq_Inr PREVIOUS_FIELDS_def lookup_def split: if_splits)

section \<open>What a built head holds\<close>

definition worm_of :: "activation_worm \<Rightarrow> json" where
  "worm_of w = worm_json (aw_digest w) (aw_key w) (aw_retention_until w) (aw_version_id w)"

definition input_members :: "head_input \<Rightarrow> json \<Rightarrow> members" where
  "input_members i p =
     head_members (hi_activated_record_id i) (hi_activated_record_sha256 i) (worm_of (hi_activated_worm i))
       (hi_activated_service_authorities_sha256 i) (hi_committed_at i) (hi_generation i)
       (hi_ingress_worker_version_id i) p"

definition head_input_ok :: "head_input \<Rightarrow> json \<Rightarrow> bool" where
  "head_input_ok i p \<longleftrightarrow>
     matches DIGEST (hi_activated_record_sha256 i) \<and> matches CLOUDFLARE_UUID (hi_ingress_worker_version_id i) \<and>
     matches DIGEST (hi_activated_record_id i) \<and> matches DIGEST (hi_activated_service_authorities_sha256 i) \<and>
     is_canonical_time (hi_committed_at i) \<and> 1 \<le> hi_generation i \<and> hi_generation i \<le> GENERATION_MAX \<and>
     (let w = hi_activated_worm i in
        aw_digest w = hi_activated_record_sha256 i \<and>
        aw_key w = activation_key (hi_ingress_worker_version_id i) (hi_activated_record_sha256 i) \<and>
        is_canonical_time (aw_retention_until w) \<and> matches VERSION_ID (aw_version_id w)) \<and>
     links_to (hi_previous i) (hi_generation i) p"

definition named_head :: "hash \<Rightarrow> members \<Rightarrow> bytes \<Rightarrow> json" where
  "named_head sha kvs bs = JObj (kvs @ [(js ''record_id'', JStr (sha256_tag sha bs))])"

lemma build_head_eq_Inr:
  "build_activated_authority_head sha i = Inr h \<longleftrightarrow>
     (\<exists>p bs bs'. head_input_ok i p \<and> canonical_bytes (JObj (input_members i p)) = Inr bs \<and>
        h = named_head sha (input_members i p) bs \<and>
        canonical_bytes h = Inr bs' \<and> 0 < length bs' \<and> length bs' \<le> BODY_BYTES)"
proof -
  have "matches DIGEST s \<Longrightarrow> s \<noteq> []" for s using DIGEST_length [of s] by auto
  then show ?thesis
    unfolding build_activated_authority_head_def Let_def bind_r_eq_Inr head_checks tagged_check_eq_Inr
      timestamp_check_eq_Inr size_check_eq_Inr previous_json_eq_Inr worker_version_def head_generation_def
      assert_js_eq_Inr activation_worm_json_eq_Inr head_input_ok_def named_head_def input_members_def worm_of_def
    by (auto simp: GENERATION_MAX_def)
qed

section \<open>Built heads are small\<close>

definition HEAD_WEIGHT :: nat where "HEAD_WEIGHT = 9300"

lemma sha256_tag_text: "length (sha bs) = 32 \<Longrightarrow> ascii (sha256_tag sha bs) \<and> length (sha256_tag sha bs) = 71"
  using visible_ascii [OF hex_bytes_visible, of "sha bs"]
  by (simp add: sha256_tag_def sha256_hex_def ascii_js)

lemma activation_key_text:
  assumes "matches DIGEST d" and "matches CLOUDFLARE_UUID g"
  shows "ascii (activation_key g d)" and "length (activation_key g d) = 131"
proof -
  have "ascii (drop 7 d)" using matched_text(1) [OF assms(1)] by (auto simp: ascii_def dest: in_set_dropD)
  with matched_text(1) [OF assms(1)] matched_text(4) [OF assms(2)]
  show "ascii (activation_key g d)" "length (activation_key g d) = 131"
    by (simp_all add: activation_key_def ascii_js)
qed

lemma links_to_fits:
  assumes "links_to v n p"
  shows "fits 1 4 1200 p"
proof (cases "n = 1")
  case True
  with assms have "p = JStr (js ''GENESIS'')" by (simp add: links_to_def)
  then show ?thesis by (simp add: fits_def fits_simps )
next
  case False
  with assms obtain m d d' where
    p: "p = JObj [(js ''generation'', JNum m), (js ''record_id'', JStr d), (js ''record_sha256'', JStr d')]"
    and m: "is_safe_integer m" and d: "matches DIGEST d" "matches DIGEST d'"
    by (auto simp: links_to_def)
  show ?thesis unfolding p fits_def
    using m matched_text(1) [OF d(1)] matched_text(1) [OF d(2)]
    by (simp add: bounded_key deepest_def MAX_MAPPING_ENTRIES_def )
qed

lemma head_input_fits:
  assumes "head_input_ok i p" and "ascii d" and "length d = 71"
  shows "fits 3 30 HEAD_WEIGHT (JObj (input_members i p @ [(js ''record_id'', JStr d)]))"
    and "fits 3 30 HEAD_WEIGHT (JObj (input_members i p))"
proof -
  let ?w = "hi_activated_worm i"
  have ok: "matches DIGEST (hi_activated_record_sha256 i)" "matches CLOUDFLARE_UUID (hi_ingress_worker_version_id i)"
    "matches DIGEST (hi_activated_record_id i)" "matches DIGEST (hi_activated_service_authorities_sha256 i)"
    "is_canonical_time (hi_committed_at i)" "1 \<le> hi_generation i" "hi_generation i \<le> max_safe"
    "aw_digest ?w = hi_activated_record_sha256 i"
    "aw_key ?w = activation_key (hi_ingress_worker_version_id i) (hi_activated_record_sha256 i)"
    "is_canonical_time (aw_retention_until ?w)" "matches VERSION_ID (aw_version_id ?w)"
    and l: "links_to (hi_previous i) (hi_generation i) p"
    using assms(1) unfolding head_input_ok_def Let_def GENERATION_MAX_def by blast+
  note tx = matched_text(1) [OF ok(1)] matched_text(4) [OF ok(2)] matched_text(1) [OF ok(3)]
    matched_text(1) [OF ok(4)] matched_text(5) [OF ok(5)] matched_text(5) [OF ok(10)]
    activation_key_text [OF ok(1,2)]
  have int: "is_safe_integer (JInt (hi_generation i))" using ok(6,7) by (simp add: is_safe_integer_def)
  have p: "plain p" "height p \<le> 1" "nodes p \<le> 4" "weight p \<le> 1200"
    using links_to_fits [OF l] by (simp_all add: fits_def)
  have one: "is_safe_integer (JInt 1)" by (simp add: is_safe_integer_def max_safe_def)
  note s = input_members_def head_members_def worm_of_def worm_json_def ok(8,9) HEAD_SCHEMA_def HEAD_WEIGHT_def
  have version: "ascii (aw_version_id ?w) \<and> length (aw_version_id ?w) \<le> 1000"
    using matched_text(2) [OF ok(11)] by simp
  note f = tx version int one assms(2,3) bounded_key JI_def deepest_def MAX_MAPPING_ENTRIES_def ascii_js
  have e: "plain (JObj (input_members i p @ [(js ''record_id'', JStr d)]))" "plain (JObj (input_members i p))"
    using p(1) by (simp_all add: s f )
  have h: "height (JObj (input_members i p @ [(js ''record_id'', JStr d)])) \<le> 3" "height (JObj (input_members i p)) \<le> 3"
    using p(2) by (simp_all add: s f)
  have n: "nodes (JObj (input_members i p @ [(js ''record_id'', JStr d)])) \<le> 30" "nodes (JObj (input_members i p)) \<le> 30"
    using p(3) by (simp_all add: s f)
  have w: "weight (JObj (input_members i p @ [(js ''record_id'', JStr d)])) \<le> HEAD_WEIGHT"
    "weight (JObj (input_members i p)) \<le> HEAD_WEIGHT"
    using p(4) matched_text(2) [OF ok(11)] by (simp_all add: s f)
  show "fits 3 30 HEAD_WEIGHT (JObj (input_members i p @ [(js ''record_id'', JStr d)]))"
    "fits 3 30 HEAD_WEIGHT (JObj (input_members i p))"
    using e h n w by (simp_all add: fits_def)
qed

text \<open>The size limit never refuses a head: its inputs are bounded by their patterns.\<close>

lemma build_head_total:
  assumes "head_input_ok i p" and "\<And>bs. length (sha bs) = 32"
  obtains bs where "canonical_bytes (JObj (input_members i p)) = Inr bs"
    "build_activated_authority_head sha i = Inr (named_head sha (input_members i p) bs)"
proof -
  have le: "(3::nat) \<le> 32" "(30::nat) \<le> 1000" "HEAD_WEIGHT \<le> 65536" by (simp_all add: HEAD_WEIGHT_def)
  obtain t where t: "canonical_bytes (JObj (input_members i p)) = Inr (utf8_encode t)"
    by (rule fits_canonical [OF fits_mono [OF head_input_fits(2) le]])
      (use assms(1) sha256_tag_text [of sha] assms(2) in auto)
  let ?h = "named_head sha (input_members i p) (utf8_encode t)"
  obtain u where "canonical_bytes ?h = Inr (utf8_encode u)" "0 < length (utf8_encode u)"
    "length (utf8_encode u) \<le> BODY_BYTES"
    unfolding named_head_def
    by (rule fits_canonical [OF fits_mono [OF head_input_fits(1) le]])
      (use assms(1) sha256_tag_text [of sha] assms(2) in auto)
  with t assms(1) have "build_activated_authority_head sha i = Inr ?h"
    unfolding build_head_eq_Inr by blast
  with that t show ?thesis by blast
qed

lemma named_head_fields:
  "set (map fst (input_members i p @ [(js ''record_id'', JStr d)])) = js ` set HEAD_FIELDS"
  "distinct (map fst (input_members i p @ [(js ''record_id'', JStr d)]))"
  by (auto simp: input_members_def head_members_def HEAD_FIELDS_def)

lemma head_lookups:
  assumes "kvs = input_members i p @ [(js ''record_id'', JStr d)]"
  shows "lookup kvs (js ''schema'') = JStr HEAD_SCHEMA" "lookup kvs (js ''schema_version'') = JI 1"
    "lookup kvs (js ''generation'') = JI (hi_generation i)"
    "lookup kvs (js ''activated'') = JObj [(js ''record_id'', JStr (hi_activated_record_id i)),
       (js ''record_sha256'', JStr (hi_activated_record_sha256 i)), (js ''worm'', worm_of (hi_activated_worm i))]"
    "lookup kvs (js ''activated_service_authorities_sha256'') = JStr (hi_activated_service_authorities_sha256 i)"
    "lookup kvs (js ''ingress_worker_version_id'') = JStr (hi_ingress_worker_version_id i)"
    "lookup kvs (js ''committed_at'') = JStr (hi_committed_at i)" "lookup kvs (js ''previous'') = p"
    "lookup kvs (js ''record_id'') = JStr d"
  by (simp_all add: assms input_members_def head_members_def lookup_def)

text \<open>The members of a built head have names of their own.\<close>

lemma build_head_well_formed:
  assumes "build_activated_authority_head sha i = Inr h"
  shows "well_formed h"
proof -
  obtain p bs where ok: "head_input_ok i p" and h: "h = named_head sha (input_members i p) bs"
    using assms unfolding build_head_eq_Inr by blast
  have "well_formed p" using ok by (auto simp: head_input_ok_def links_to_def Let_def split: if_splits)
  then show ?thesis
    unfolding h named_head_def by (simp add: input_members_def head_members_def worm_of_def worm_json_def JI_def)
qed

lemma links_to_same:
  assumes "links_to v n p" and "normalise q = normalise p" and "well_formed q"
  shows "links_to q n p" "parse_previous q = Inr q"
proof -
  have "links_to q n p \<and> parse_previous q = Inr q"
  proof (cases "n = 1")
    case True
    then have "p = JStr (js ''GENESIS'')" using assms(1) by (simp add: links_to_def)
    with assms(2) True show ?thesis by (simp add: links_to_def normalise_leaf parse_previous_eq_Inr)
  next
    case False
    with assms(1) obtain m d d' where
      p: "p = JObj [(js ''generation'', JNum m), (js ''record_id'', JStr d), (js ''record_sha256'', JStr d')]"
      and m: "is_safe_integer m" "number_int m = n - 1" "1 \<le> n - 1" "n - 1 < GENERATION_MAX"
      and d: "matches DIGEST d" "matches DIGEST d'"
      by (auto simp: links_to_def)
    have mi: "m = JInt (n - 1)" using m(1-3) by (cases m) (auto simp: is_safe_integer_def number_int_def)
    obtain kvs where q: "q = JObj kvs" using assms(2) p same_JObj by blast
    let ?p = "[(js ''generation'', JNum m), (js ''record_id'', JStr d), (js ''record_sha256'', JStr d')]"
    have n: "normalise (JObj kvs) = normalise (JObj ?p)" using assms(2) q p by simp
    note same = same_lookup [OF n assms(3) [unfolded q]]
    have "normalise (lookup kvs (js ''generation'')) = JI (n - 1)" "normalise (lookup kvs (js ''record_id'')) = JStr d"
      "normalise (lookup kvs (js ''record_sha256'')) = JStr d'" "set (map fst kvs) = js ` set PREVIOUS_FIELDS"
      using same(1) [of "js ''generation''"] same(1) [of "js ''record_id''"] same(1) [of "js ''record_sha256''"] same(2) m(3)
      by (auto simp: lookup_def mi JI_def PREVIOUS_FIELDS_def)
    then have "lookup kvs (js ''generation'') = JI (n - 1)" "lookup kvs (js ''record_id'') = JStr d"
      "lookup kvs (js ''record_sha256'') = JStr d'" "set (map fst kvs) = js ` set PREVIOUS_FIELDS"
      using m(3) by (simp_all add: normalise_leaf)
    then show ?thesis
      using m d False unfolding q p by (auto simp: links_to_def parse_previous_eq_Inr JI_def mi)
  qed
  then show "links_to q n p" "parse_previous q = Inr q" by simp_all
qed

lemma same_worm:
  assumes "normalise v = normalise (worm_of w)" and "well_formed v"
  obtains kvs where "v = JObj kvs" "lookup kvs (js ''digest'') = JStr (aw_digest w)"
    "lookup kvs (js ''key'') = JStr (aw_key w)" "lookup kvs (js ''retention_until'') = JStr (aw_retention_until w)"
    "lookup kvs (js ''version_id'') = JStr (aw_version_id w)"
    "set (map fst kvs) = js ` {''digest'', ''key'', ''retention_until'', ''version_id''}"
proof -
  obtain kvs where v: "v = JObj kvs" using assms(1) same_JObj unfolding worm_of_def worm_json_def by blast
  have "well_formed (worm_of w)" by (simp add: worm_of_def worm_json_def)
  note same = same_lookup [OF assms(1) [unfolded v worm_of_def worm_json_def] assms(2) [unfolded v]
      this [unfolded worm_of_def worm_json_def]]
  have "lookup kvs (js ''digest'') = JStr (aw_digest w)" "lookup kvs (js ''key'') = JStr (aw_key w)"
    "lookup kvs (js ''retention_until'') = JStr (aw_retention_until w)"
    "lookup kvs (js ''version_id'') = JStr (aw_version_id w)"
    "set (map fst kvs) = js ` {''digest'', ''key'', ''retention_until'', ''version_id''}"
    using same(1) [of "js ''digest''"] same(1) [of "js ''key''"] same(1) [of "js ''retention_until''"]
      same(1) [of "js ''version_id''"] same(2) by (simp_all add: lookup_def normalise_leaf)
  with that v show ?thesis by blast
qed

text \<open>A head that is, up to the order of its members, one that was built parses; parsing feeds its own
  fields back to the builder.\<close>

lemma parse_same_head:
  assumes "build_activated_authority_head sha i = Inr h" and "normalise w = normalise h" and "well_formed w"
  shows "parse_activated_authority_head sha w = Inr w"
proof -
  obtain p bs bs' where ok: "head_input_ok i p" and c: "canonical_bytes (JObj (input_members i p)) = Inr bs"
    and h: "h = named_head sha (input_members i p) bs" and c': "canonical_bytes h = Inr bs'"
    "0 < length bs'" "length bs' \<le> BODY_BYTES"
    using assms(1) unfolding build_head_eq_Inr by blast
  define hkvs where "hkvs = input_members i p @ [(js ''record_id'', JStr (sha256_tag sha bs))]"
  note hl = head_lookups [OF hkvs_def]
  have hk: "h = JObj hkvs" using h by (simp add: named_head_def hkvs_def)
  obtain kvs where w: "w = JObj kvs" using assms(2) hk same_JObj by blast
  have n: "normalise (JObj kvs) = normalise (JObj hkvs)" using assms(2) w hk by simp
  note same = same_lookup [OF n assms(3) [unfolded w] build_head_well_formed [OF assms(1), unfolded hk]]
  let ?w = "hi_activated_worm i"
  have f: "matches DIGEST (hi_activated_record_sha256 i)" "matches CLOUDFLARE_UUID (hi_ingress_worker_version_id i)"
    "matches DIGEST (hi_activated_record_id i)" "matches DIGEST (hi_activated_service_authorities_sha256 i)"
    "is_canonical_time (hi_committed_at i)" "1 \<le> hi_generation i" "hi_generation i \<le> GENERATION_MAX"
    "aw_digest ?w = hi_activated_record_sha256 i"
    "aw_key ?w = activation_key (hi_ingress_worker_version_id i) (hi_activated_record_sha256 i)"
    "is_canonical_time (aw_retention_until ?w)" "matches VERSION_ID (aw_version_id ?w)"
    "links_to (hi_previous i) (hi_generation i) p"
    using ok unfolding head_input_ok_def Let_def by blast+
  have str: "lookup kvs k = JStr s" if "lookup hkvs k = JStr s" for k s
    using same(1) [of k] that by (simp add: normalise_leaf)
  have int: "lookup kvs k = JI m" if "lookup hkvs k = JI m" "m \<noteq> 0" for k m
    using same(1) [of k] that by (simp add: normalise_leaf)
  have gen0: "hi_generation i \<noteq> 0" using f(6) by simp
  note lk = str [OF hl(1)] int [OF hl(2) one_neq_zero] int [OF hl(3) gen0] str [OF hl(5)] str [OF hl(6)] str [OF hl(7)]
    str [OF hl(9)]
  let ?a = "[(js ''record_id'', JStr (hi_activated_record_id i)),
       (js ''record_sha256'', JStr (hi_activated_record_sha256 i)), (js ''worm'', worm_of ?w)]"
  have na: "normalise (lookup kvs (js ''activated'')) = normalise (JObj ?a)" using same(1) by (simp only: hl(4))
  then obtain akvs where a: "lookup kvs (js ''activated'') = JObj akvs" using same_JObj by blast
  have wa: "well_formed (JObj akvs)" using same(3) [of "js ''activated''"] a by simp
  have "well_formed (JObj ?a)" by (simp add: worm_of_def worm_json_def)
  note same_a = same_lookup [OF na [unfolded a] wa this]
  have "lookup ?a (js ''record_id'') = JStr (hi_activated_record_id i)"
    "lookup ?a (js ''record_sha256'') = JStr (hi_activated_record_sha256 i)" "lookup ?a (js ''worm'') = worm_of ?w"
    by (simp_all add: lookup_def)
  then have al: "lookup akvs (js ''record_id'') = JStr (hi_activated_record_id i)"
    "lookup akvs (js ''record_sha256'') = JStr (hi_activated_record_sha256 i)"
    "normalise (lookup akvs (js ''worm'')) = normalise (worm_of ?w)"
    using same_a(1) [of "js ''record_id''"] same_a(1) [of "js ''record_sha256''"] same_a(1) [of "js ''worm''"]
    by (simp_all add: normalise_leaf)
  obtain wkvs where ww: "lookup akvs (js ''worm'') = JObj wkvs" and
    wl: "lookup wkvs (js ''digest'') = JStr (aw_digest ?w)" "lookup wkvs (js ''key'') = JStr (aw_key ?w)"
    "lookup wkvs (js ''retention_until'') = JStr (aw_retention_until ?w)"
    "lookup wkvs (js ''version_id'') = JStr (aw_version_id ?w)"
    "set (map fst wkvs) = js ` {''digest'', ''key'', ''retention_until'', ''version_id''}"
    by (rule same_worm [OF al(3) same_a(3)])
  define q where "q = lookup kvs (js ''previous'')"
  have q: "links_to q (hi_generation i) p" "parse_previous q = Inr q"
    using links_to_same [OF f(12), of q] same(1,3) [of "js ''previous''"] by (simp_all add: q_def hl(8))
  define j where "j = i\<lparr>hi_previous := q\<rparr>"
  have j: "head_input_ok j p" "\<And>r. input_members j r = input_members i r"
    using ok q(1) by (simp_all add: j_def head_input_ok_def input_members_def)
  have jrec: "\<lparr>hi_activated_record_id = hi_activated_record_id i, hi_activated_record_sha256 = hi_activated_record_sha256 i,
      hi_activated_service_authorities_sha256 = hi_activated_service_authorities_sha256 i,
      hi_activated_worm = ?w, hi_committed_at = hi_committed_at i, hi_generation = hi_generation i,
      hi_ingress_worker_version_id = hi_ingress_worker_version_id i, hi_previous = q\<rparr> = j"
    by (cases i) (simp add: j_def)
  have b: "build_activated_authority_head sha j = Inr h"
    unfolding build_head_eq_Inr j(2) using j(1) c c' h by blast
  have act: "exact_object (JObj akvs) [''record_id'', ''record_sha256'', ''worm''] = Inr akvs"
    using same_a(2) by (simp add: exact_object_eq_Inr)
  have worm: "parse_activation_worm (JObj wkvs) (hi_activated_record_sha256 i) (hi_ingress_worker_version_id i) = Inr ?w"
    using f DIGEST_length [OF f(1)] canonical_time_matches [OF f(10)] wl
    by (auto simp: parse_activation_worm_eq_Inr)
  have num: "require_integer kvs ''generation'' 1 GENERATION_MAX = Inr (hi_generation i)"
    using f(6,7) by (simp add: require_integer_eq_Inr lk JI_def is_safe_integer_def number_int_def GENERATION_MAX_def)
  have uuid: "require_string kvs ''ingress_worker_version_id'' 36 (Some CLOUDFLARE_UUID) = Inr (hi_ingress_worker_version_id i)"
    and time: "require_string kvs ''committed_at'' 32 (Some TIMESTAMP) = Inr (hi_committed_at i)"
    using f CLOUDFLARE_UUID_length [OF f(2)] canonical_time_matches [OF f(5)] TIMESTAMP_length [of "hi_committed_at i"]
    by (auto simp: require_string_eq_Inr lk)
  have heads: "head_literal kvs ''schema'' HEAD_SCHEMA = Inr ()" "head_integer kvs ''schema_version'' 1 = Inr ()"
    "tagged_field kvs ''activated_service_authorities_sha256'' = Inr (hi_activated_service_authorities_sha256 i)"
    by (simp_all add: head_checks literal_check_eq_Inr integer_check_eq_Inr lk JI_def is_safe_integer_def
        max_safe_def number_int_def HEAD_SCHEMA_def tagged_field_eq_Inr f)
  have tags: "tagged_field akvs ''record_sha256'' = Inr (hi_activated_record_sha256 i)"
    "tagged_field akvs ''record_id'' = Inr (hi_activated_record_id i)"
    by (simp_all add: tagged_field_eq_Inr f al)
  have obj: "exact_object (JObj kvs) HEAD_FIELDS = Inr kvs"
    using same(2) named_head_fields(1) by (simp add: exact_object_eq_Inr hkvs_def) (simp add: HEAD_FIELDS_def)
  obtain t where t: "canonical_json h = Inr t" using c'(1) by (auto simp: canonical_bytes_def bind_r_eq_Inr)
  then have t': "canonical_json (JObj kvs) = Inr t"
    using canonical_json_normalise [of "JObj kvs"] canonical_json_normalise [of h] assms(2) w by simp
  show ?thesis
    unfolding parse_activated_authority_head_def w obj bind_r.simps heads num a act tags uuid time ww worm
      q_def [symmetric] q(2) jrec b t t'
    by (simp add: hk json_get_def lk hl)
qed

lemma parse_built_head:
  assumes "build_activated_authority_head sha i = Inr h"
  shows "parse_activated_authority_head sha h = Inr h"
  by (rule parse_same_head [OF assms refl build_head_well_formed [OF assms]])

text \<open>What a parse has checked, with the input it rebuilt the head from.\<close>

lemma parse_head_object:
  assumes "parse_activated_authority_head sha v = Inr h"
  obtains kvs where "v = JObj kvs" "h = v"
proof -
  from assms obtain kvs where "exact_object v HEAD_FIELDS = Inr kvs"
    unfolding parse_activated_authority_head_def by (elim bind_r_InrE)
  then have "v = JObj kvs" by (simp add: exact_object_eq_Inr)
  moreover have "h = v" using assms unfolding parse_activated_authority_head_def by (elim bind_r_InrE) simp
  ultimately show ?thesis by (rule that)
qed

lemma parse_headD:
  assumes "parse_activated_authority_head sha (JObj kvs) = Inr h"
  obtains i akvs wkvs rebuilt t n where "h = JObj kvs" "set (map fst kvs) = js ` set HEAD_FIELDS"
    "build_activated_authority_head sha i = Inr rebuilt"
    "canonical_json (JObj kvs) = Inr t" "canonical_json rebuilt = Inr t"
    "lookup kvs (js ''record_id'') = json_get rebuilt (js ''record_id'')"
    "lookup kvs (js ''generation'') = JNum n" "is_safe_integer n" "number_int n = hi_generation i"
    "lookup kvs (js ''committed_at'') = JStr (hi_committed_at i)"
    "lookup kvs (js ''activated_service_authorities_sha256'') = JStr (hi_activated_service_authorities_sha256 i)"
    "lookup kvs (js ''ingress_worker_version_id'') = JStr (hi_ingress_worker_version_id i)"
    "lookup kvs (js ''activated'') = JObj akvs"
    "set (map fst akvs) = js ` {''record_id'', ''record_sha256'', ''worm''}"
    "lookup akvs (js ''record_id'') = JStr (hi_activated_record_id i)"
    "lookup akvs (js ''record_sha256'') = JStr (hi_activated_record_sha256 i)"
    "lookup akvs (js ''worm'') = JObj wkvs"
    "set (map fst wkvs) = js ` {''digest'', ''key'', ''retention_until'', ''version_id''}"
    "lookup wkvs (js ''retention_until'') = JStr (aw_retention_until (hi_activated_worm i))"
    "lookup kvs (js ''previous'') = hi_previous i"
proof -
  show ?thesis
    using assms unfolding parse_activated_authority_head_def
    apply (elim bind_r_InrE)
    subgoal premises q for kvs' _ _ gen akvs sha256 rid authorities ingress worm committed previous rebuilt t t' _
    proof -
      have kk: "kvs' = kvs" using q(1) by (simp add: exact_object_eq_Inr)
      note p = q [unfolded kk]
      note f = p(1,5) [unfolded exact_object_eq_Inr] p(4) [unfolded require_integer_eq_Inr]
        p(6,7,8) [unfolded tagged_field_eq_Inr] p(9,11) [unfolded require_string_eq_Inr]
        p(10) [unfolded parse_activation_worm_eq_Inr] p(12) [unfolded parse_previous_eq_Inr]
        p(16) [unfolded assert_js_eq_Inr]
      let ?i = "\<lparr>hi_activated_record_id = rid, hi_activated_record_sha256 = sha256,
          hi_activated_service_authorities_sha256 = authorities, hi_activated_worm = worm,
          hi_committed_at = committed, hi_generation = gen, hi_ingress_worker_version_id = ingress,
          hi_previous = previous\<rparr>"
      obtain wkvs where w: "lookup akvs (js ''worm'') = JObj wkvs"
        "set (map fst wkvs) = js ` {''digest'', ''key'', ''retention_until'', ''version_id''}"
        "lookup wkvs (js ''retention_until'') = JStr (aw_retention_until worm)"
        using f(9) by blast
      obtain n where n: "lookup kvs (js ''generation'') = JNum n" "is_safe_integer n" "number_int n = gen"
        using f(3) by blast
      have prev: "lookup kvs (js ''previous'') = previous" using f(10) by simp
      have id: "lookup kvs (js ''record_id'') = json_get rebuilt (js ''record_id'')" and t: "t' = t"
        using f(11) by simp_all
      show ?thesis
        by (rule that [of ?i rebuilt t n akvs wkvs])
          (use p(13,14,15,17) f(1,2,4-8) w n prev id t in \<open>simp_all\<close>)
    qed
    done
qed

lemma parse_head_same: "parse_activated_authority_head sha v = Inr h \<Longrightarrow> h = v"
  by (erule parse_head_object)

text \<open>The members of a parsed head, up to their order, are those of the rebuilt one.\<close>

lemma input_members_without:
  "without (js ''record_id'') (input_members i p @ [(js ''record_id'', d)]) = input_members i p"
  by (simp add: without_def input_members_def head_members_def)

lemma parse_head_same_value:
  assumes "parse_activated_authority_head sha v = Inr h" and "well_formed v" and "well_formed w"
    and "normalise w = normalise v"
  shows "parse_activated_authority_head sha w = Inr w"
proof -
  obtain kvs where v: "v = JObj kvs" by (rule parse_head_object [OF assms(1)])
  obtain i rebuilt t where b: "build_activated_authority_head sha i = Inr rebuilt"
    and t: "canonical_json v = Inr t" "canonical_json rebuilt = Inr t"
    unfolding v by (rule parse_headD [OF assms(1) [unfolded v]])
  have "normalise v = normalise rebuilt"
    by (rule same_text_normalise [OF t assms(2) build_head_well_formed [OF b]])
  with assms(4) show ?thesis by (intro parse_same_head [OF b _ assms(3)]) simp
qed

lemma parse_head_derived:
  assumes "parse_activated_authority_head sha v = Inr h" and "well_formed v"
  obtains i p bs kvs where "h = v" "v = JObj kvs" "head_input_ok i p"
    "normalise v = normalise (named_head sha (input_members i p) bs)"
    "canonical_bytes (JObj (without (js ''record_id'') kvs)) = Inr bs"
    "json_get v (js ''record_id'') = JStr (sha256_tag sha bs)"
    "hi_generation i = number_int (case json_get v (js ''generation'') of JNum n \<Rightarrow> n | _ \<Rightarrow> JOther)"
proof -
  obtain kvs where v: "v = JObj kvs" by (rule parse_head_object [OF assms(1)])
  obtain i rebuilt t n where h': "h = v" and b: "build_activated_authority_head sha i = Inr rebuilt"
    and t: "canonical_json v = Inr t" "canonical_json rebuilt = Inr t"
    and r: "json_get v (js ''record_id'') = json_get rebuilt (js ''record_id'')"
    and g: "lookup kvs (js ''generation'') = JNum n" "number_int n = hi_generation i"
    unfolding v json_get_def [of "JObj kvs"] json.case by (rule parse_headD [OF assms(1) [unfolded v]])
  obtain p bs where ok: "head_input_ok i p" and c: "canonical_bytes (JObj (input_members i p)) = Inr bs"
    and h: "rebuilt = named_head sha (input_members i p) bs"
    using b unfolding build_head_eq_Inr by blast
  have n: "normalise v = normalise rebuilt"
    by (rule same_text_normalise [OF t assms(2) build_head_well_formed [OF b]])
  have "normalise (JObj kvs) = normalise (JObj (input_members i p @ [(js ''record_id'', JStr (sha256_tag sha bs))]))"
    using n unfolding v h named_head_def .
  from canonical_bytes_normalise [OF without_normalise [OF this, of "js ''record_id''"]]
  have c': "canonical_bytes (JObj (without (js ''record_id'') kvs)) = Inr bs"
    unfolding input_members_without by (rule trans) (rule c)
  have rid: "json_get v (js ''record_id'') = JStr (sha256_tag sha bs)"
    unfolding r unfolding h named_head_def json_get_def json.case by (rule head_lookups(9) [OF refl])
  have gen: "hi_generation i = number_int (case json_get v (js ''generation'') of JNum n \<Rightarrow> n | _ \<Rightarrow> JOther)"
    using g by (auto simp: v json_get_def)
  show ?thesis by (rule that [OF h' v ok _ c' rid gen]) (simp only: n h)
qed

section \<open>Dates that parse also print\<close>

lemma num_bound: "length w \<le> 3 \<Longrightarrow> \<bar>num w\<bar> \<le> 7274496"
proof -
  assume "length w \<le> 3"
  have u: "0 \<le> uint (c :: code_unit)" "uint c < 65536" for c
    using unsigned_less [where 'a = int, of c] by simp_all
  from \<open>length w \<le> 3\<close> consider "w = []" | a where "w = [a]" | a b where "w = [a, b]" | a b c where "w = [a, b, c]"
    by (cases w; cases "tl w"; cases "tl (tl w)"; cases "tl (tl (tl w))") auto
  then show ?thesis
  proof cases
    case 2
    then have "num w = uint a - 48" by (simp add: num_def)
    then show ?thesis using u [of a] by linarith
  next
    case 3
    then have "num w = 10 * uint a + uint b - 528" by (simp add: num_def)
    then show ?thesis using u [of a] u [of b] by linarith
  next
    case 4
    then have "num w = 100 * uint a + 10 * uint b + uint c - 5328" by (simp add: num_def)
    then show ?thesis using u [of a] u [of b] u [of c] by linarith
  qed (simp add: num_def)
qed

lemma num_digits: "\<forall>c \<in> set w. in_cls ''09'' c \<Longrightarrow> 0 \<le> num w \<and> num w < 10 ^ length w"
proof (induction w rule: rev_induct)
  case (snoc c w)
  then have w: "0 \<le> num w" "num w < 10 ^ length w" by simp_all
  have "in_cls ''09'' c" using snoc(2) by simp
  then have "48 \<le> uint c" "uint c \<le> 57" using in_cls_digit by blast+
  with w show ?case unfolding num_snoc by simp
qed (simp add: num_def)

lemma matches_Seq_iff: "matches (Seq p q) s \<longleftrightarrow> (\<exists>u w. s = u @ w \<and> matches p u \<and> matches q w)"
  by (auto simp: matches_iff_lang in_conc)

lemma ms_bound:
  fixes a m d h n s z :: int
  assumes "- 800000 \<le> a" "a \<le> 4000000" "0 \<le> m" "m \<le> 366" "1 \<le> d" "d \<le> 31"
    "\<bar>h\<bar> \<le> 7274496" "\<bar>n\<bar> \<le> 7274496" "\<bar>s\<bar> \<le> 7274496" "\<bar>z\<bar> \<le> 7274496"
  shows "\<bar>(a + m + (d - 1)) * 86400000 + h * 3600000 + n * 60000 + s * 1000 + z\<bar> \<le> 8640000000000000"
proof -
  have "\<bar>a + m + (d - 1)\<bar> \<le> 4000400" using assms(1-6) by linarith
  then have "\<bar>(a + m + (d - 1)) * 86400000\<bar> \<le> 4000400 * 86400000" by (simp add: abs_mult)
  moreover have "\<bar>h * 3600000\<bar> \<le> 7274496 * 3600000" "\<bar>n * 60000\<bar> \<le> 7274496 * 60000" "\<bar>s * 1000\<bar> \<le> 7274496 * 1000"
    using assms(7-9) by (simp_all add: abs_mult)
  ultimately show ?thesis using assms(10) by linarith
qed

lemma TIMESTAMP_year: "matches TIMESTAMP s \<Longrightarrow> 0 \<le> num (take 4 s) \<and> num (take 4 s) \<le> 9999"
proof -
  assume "matches TIMESTAMP s"
  then obtain u w where u: "s = u @ w" and "matches (Rep (Cls ''09'') 4 4) u"
    unfolding TIMESTAMP_def Let_def by (subst (asm) matches_Seq_iff) (elim exE conjE, rule that)
  then have "length u = 4" "\<forall>c \<in> set u. in_cls ''09'' c" by (simp_all add: matches_Rep_Cls del: in_cls.simps)
  with u num_digits [of u] show ?thesis by simp
qed

lemma date_parse_prints:
  assumes "date_parse s = Some t"
  shows "\<exists>u. to_iso_string t = Inr u"
proof -
  let ?f = "fields_of_text s"
  have m: "matches TIMESTAMP s" and v: "valid_fields ?f" and t: "t = ms_of_fields ?f"
    using assms by (auto simp: date_parse_def Let_def split: if_splits)
  have y: "0 \<le> f_year ?f" "f_year ?f \<le> 9999" using TIMESTAMP_year [OF m] by (simp_all add: fields_of_text_def)
  have d: "- 800000 \<le> day_from_year (f_year ?f)" "day_from_year (f_year ?f) \<le> 4000000"
    using y by (simp_all add: day_from_year_def)
  let ?m = "sum_list (take (nat (f_month ?f - 1)) (month_lengths (f_year ?f)))"
  have "?m + sum_list (drop (nat (f_month ?f - 1)) (month_lengths (f_year ?f))) = sum_list (month_lengths (f_year ?f))"
    by (metis append_take_drop_id sum_list_append)
  moreover have "0 \<le> sum_list (drop k (month_lengths (f_year ?f)))" "0 \<le> sum_list (take k (month_lengths (f_year ?f)))" for k
    using month_lengths_nonneg [of "f_year ?f"] by (auto intro!: sum_list_nonneg dest: in_set_dropD in_set_takeD)
  ultimately have ml: "0 \<le> ?m" "?m \<le> 366" using sum_month_lengths [of "f_year ?f"] by (auto split: if_splits) (smt (verit))+
  have n: "\<bar>f_hour ?f\<bar> \<le> 7274496" "\<bar>f_minute ?f\<bar> \<le> 7274496" "\<bar>f_second ?f\<bar> \<le> 7274496" "\<bar>f_ms ?f\<bar> \<le> 7274496"
    using num_bound [of "take 2 (drop 11 s)"] num_bound [of "take 2 (drop 14 s)"] num_bound [of "take 2 (drop 17 s)"]
      num_bound [of "take 3 (drop 20 s)"] by (simp_all add: fields_of_text_def)
  have "1 \<le> f_day ?f" "f_day ?f \<le> 31" using v by (simp_all add: valid_fields_def)
  from ms_bound [OF d ml this n] have "\<bar>t\<bar> \<le> 8640000000000000" unfolding t ms_of_fields_def .
  then show ?thesis by (simp add: to_iso_string_def)
qed

section \<open>A sample head\<close>

definition sample_worker_version :: js_string where
  "sample_worker_version = js ''aaaaaaaa-aaaa-aaaa-aaaa-aaaaaaaaaaaa''"

definition sample_head_input :: head_input where
  "sample_head_input = \<lparr>hi_activated_record_id = zero_digest, hi_activated_record_sha256 = zero_digest,
     hi_activated_service_authorities_sha256 = zero_digest,
     hi_activated_worm = \<lparr>aw_digest = zero_digest, aw_key = activation_key sample_worker_version zero_digest,
       aw_retention_until = sample_until, aw_version_id = js ''v1''\<rparr>,
     hi_committed_at = sample_time, hi_generation = 1, hi_ingress_worker_version_id = sample_worker_version,
     hi_previous = JStr (js ''GENESIS'')\<rparr>"

definition sample_head_members :: members where
  "sample_head_members = input_members sample_head_input (JStr (js ''GENESIS'')) @
     [(js ''record_id'', JStr zero_digest)]"

lemma sample_worker_version_matches: "matches CLOUDFLARE_UUID sample_worker_version"
  by (simp add: CLOUDFLARE_UUID_def sample_worker_version_def Let_def js_def)

lemma zero_sha_length: "length (zero_sha bs) = 32"
  by (simp add: zero_sha_def)

lemma zero_sha_tag: "sha256_tag zero_sha bs = zero_digest"
  by (simp add: sha256_tag_def sha256_hex_def zero_sha_hex)

lemma sample_head_input_ok: "head_input_ok sample_head_input (JStr (js ''GENESIS''))"
proof -
  have "matches VERSION_ID (js ''v1'')" by (simp add: VERSION_ID_def js_def)
  then show ?thesis
    by (simp add: head_input_ok_def sample_head_input_def links_to_def zero_digest_props sample_worker_version_matches
        sample_time_canonical sample_times GENERATION_MAX_def max_safe_def Let_def)
qed

lemma sample_head_built: "build_activated_authority_head zero_sha sample_head_input = Inr (JObj sample_head_members)"
  by (rule build_head_total [where sha = zero_sha, OF sample_head_input_ok zero_sha_length])
    (simp add: named_head_def zero_sha_tag sample_head_members_def)

section \<open>Properties\<close>

text \<open>C15: A built head witness parses: \<open>parseActivatedAuthorityHead\<close>, which rebuilds the head from its own
  fields and compares the canonical texts, accepts it and returns it unchanged.\<close>

theorem built_head_parses:
  assumes "build_activated_authority_head sha i = Inr h"
  shows "parse_activated_authority_head sha h = Inr h"
  by (rule parse_built_head [OF assms])

theorem built_head_parses_witness:
  "parse_activated_authority_head zero_sha (JObj sample_head_members) = Inr (JObj sample_head_members)"
  by (rule built_head_parses [OF sample_head_built])

text \<open>A head that parses is self-derived: its record id is the digest of the canonical bytes of the rest
  of it, its fields have the declared shapes, and a head of a generation above one links to a
  generation one lower, while the first links to \<open>GENESIS\<close>.\<close>

theorem parsed_head_is_self_derived:
  assumes "parse_activated_authority_head sha v = Inr h" and "well_formed v"
  shows "\<exists>i p bs kvs. h = v \<and> v = JObj kvs \<and> head_input_ok i p \<and> links_to (hi_previous i) (hi_generation i) p \<and>
    normalise v = normalise (named_head sha (input_members i p) bs) \<and>
    canonical_bytes (JObj (without (js ''record_id'') kvs)) = Inr bs \<and>
    json_get v (js ''record_id'') = JStr (sha256_tag sha bs)"
proof -
  obtain i p bs kvs where d: "h = v" "v = JObj kvs" "head_input_ok i p"
    "normalise v = normalise (named_head sha (input_members i p) bs)"
    "canonical_bytes (JObj (without (js ''record_id'') kvs)) = Inr bs"
    "json_get v (js ''record_id'') = JStr (sha256_tag sha bs)"
    by (rule parse_head_derived [OF assms])
  moreover have "links_to (hi_previous i) (hi_generation i) p" using d(3) by (simp add: head_input_ok_def Let_def)
  ultimately show ?thesis by blast
qed

theorem parsed_head_is_self_derived_witness:
  "json_get (JObj sample_head_members) (js ''record_id'') = JStr zero_digest"
  using parsed_head_is_self_derived [OF parse_built_head [OF sample_head_built] build_head_well_formed [OF sample_head_built]]
  by (auto simp: zero_sha_tag)

text \<open>Building a head succeeds exactly on well-formed inputs whose previous link matches the
  generation; the body limit never refuses one.\<close>

theorem heads_are_built_exactly_from_valid_input:
  assumes "\<And>bs. length (sha bs) = 32"
  shows "(\<exists>h. build_activated_authority_head sha i = Inr h) \<longleftrightarrow> (\<exists>p. head_input_ok i p)"
proof
  assume "\<exists>h. build_activated_authority_head sha i = Inr h"
  then show "\<exists>p. head_input_ok i p" unfolding build_head_eq_Inr by blast
next
  assume "\<exists>p. head_input_ok i p"
  then obtain p where "head_input_ok i p" ..
  then obtain bs where "build_activated_authority_head sha i = Inr (named_head sha (input_members i p) bs)"
    by (rule build_head_total [OF _ assms])
  then show "\<exists>h. build_activated_authority_head sha i = Inr h" by blast
qed

theorem heads_are_built_exactly_from_valid_input_witness:
  "\<exists>h. build_activated_authority_head zero_sha sample_head_input = Inr h"
  using heads_are_built_exactly_from_valid_input [of zero_sha sample_head_input, OF zero_sha_length] sample_head_input_ok by blast

text \<open>The outcome of the heads' \<open>timestamp\<close> on every text: it accepts canonical timestamps, refuses a
  text of another shape or a rolled-over date with its own error, and lets the \<open>RangeError\<close> of
  \<open>toISOString\<close> escape on a text of the right shape with a field out of range.\<close>

theorem timestamp_outcomes:
  "head_timestamp v =
     (if is_canonical_time v then Inr v
      else if matches TIMESTAMP v \<and> date_parse v = None then Inl (Native RangeError)
      else Inl (broker ''ACTIVATED_AUTHORITY_HEAD_INVALID'' 500 False))"
proof (cases "matches TIMESTAMP v \<and> date_parse v \<noteq> None")
  case True
  then obtain t where t: "date_parse v = Some t" by blast
  obtain s where s: "to_iso_string t = Inr s" using date_parse_prints [OF t] by blast
  with t True show ?thesis
    by (auto simp: head_timestamp_def timestamp_check_def prints_back_def is_canonical_time_def)
next
  case False
  then show ?thesis using canonical_time_matches [of v]
    by (auto simp: head_timestamp_def timestamp_check_def prints_back_def is_canonical_time_def)
qed

end
