(* ===== verification/HeadProof.thy ===== *)
theory HeadProof imports HeadDocument JsonParse begin

text \<open>
  The current-head proof of \<open>activated-authority-head-proof.ts\<close>: a head witness with its WORM receipt and
  the times of the read it answers, built, parsed and compared with the read request.
\<close>

definition PROOF_SCHEMA :: js_string where
  "PROOF_SCHEMA = js ''dpone.activated-service-authority-head-current.v1''"

definition READ_REQUEST_SCHEMA :: js_string where
  "READ_REQUEST_SCHEMA = js ''dpone.activated-service-authority-head-read-request.v1''"

definition proof_timestamp :: "js_string \<Rightarrow> js_string result" where
  "proof_timestamp = timestamp_check ''ACTIVATED_AUTHORITY_HEAD_PROOF_INVALID'' 503"

definition proof_request_id :: "js_string \<Rightarrow> js_string result" where
  "proof_request_id = request_id_check ''ACTIVATED_AUTHORITY_HEAD_PROOF_INVALID'' 503"

definition proof_literal :: "members \<Rightarrow> string \<Rightarrow> js_string \<Rightarrow> unit result" where
  "proof_literal = literal_check ''ACTIVATED_AUTHORITY_HEAD_PROOF_INVALID'' 503"

definition proof_integer :: "members \<Rightarrow> string \<Rightarrow> int \<Rightarrow> unit result" where
  "proof_integer = integer_check ''ACTIVATED_AUTHORITY_HEAD_PROOF_INVALID'' 503"

definition proof_size :: "json \<Rightarrow> unit result" where
  "proof_size = size_check ''ACTIVATED_AUTHORITY_HEAD_PROOF_SIZE_INVALID'' 503"

lemmas proof_checks [result_simps] =
  proof_timestamp_def proof_request_id_def proof_literal_def proof_integer_def proof_size_def

section \<open>The receipt and the times of a read\<close>

definition WORM_FIELDS :: "string list" where
  "WORM_FIELDS = [''digest'', ''key'', ''retention_until'', ''version_id'']"

definition parse_head_worm :: "json \<Rightarrow> js_string \<Rightarrow> js_string \<Rightarrow> activation_worm result" where
  "parse_head_worm v digest key =
     bind_r (exact_object v WORM_FIELDS) (\<lambda>worm.
     bind_r (proof_literal worm ''digest'' digest) (\<lambda>_.
     bind_r (proof_literal worm ''key'' key) (\<lambda>_.
     bind_r (require_string worm ''retention_until'' 32 (Some TIMESTAMP)) (\<lambda>retention_until.
     bind_r (require_string worm ''version_id'' 512 (Some VERSION_ID)) (\<lambda>version_id.
       Inr \<lparr>aw_digest = digest, aw_key = key, aw_retention_until = retention_until,
            aw_version_id = version_id\<rparr>)))))"

definition head_worm :: "activation_worm \<Rightarrow> js_string \<Rightarrow> js_string \<Rightarrow> json result" where
  "head_worm worm digest key =
     bind_r (assert_js (aw_digest worm = digest \<and> aw_key worm = key)
       ''ACTIVATED_AUTHORITY_HEAD_WORM_INVALID'' 503) (\<lambda>_.
     bind_r (proof_timestamp (aw_retention_until worm)) (\<lambda>retention_until.
     bind_r (require_string [(js ''value'', JStr (aw_version_id worm))] ''value'' 512 (Some VERSION_ID)) (\<lambda>version_id.
       Inr (worm_json digest key retention_until version_id))))"

text \<open>Comparisons of \<open>Date.parse\<close> results: a \<open>NaN\<close> compares false.\<close>

definition times_hold :: "js_string list \<Rightarrow> (int list \<Rightarrow> bool) \<Rightarrow> bool" where
  "times_hold ss p \<longleftrightarrow> (if None \<in> set (map date_parse ss) then False else p (map (the \<circ> date_parse) ss))"

definition assert_fresh_read :: "js_string \<Rightarrow> js_string \<Rightarrow> js_string \<Rightarrow> js_string \<Rightarrow> unit result" where
  "assert_fresh_read requested_at observed_at accepted_at committed_at =
     assert_js (times_hold [requested_at, observed_at, accepted_at, committed_at] (\<lambda>ts. case ts of
         [requested, observed, accepted, committed] \<Rightarrow>
           committed \<le> observed \<and> requested \<le> observed \<and> observed - requested \<le> 60000 \<and>
           observed \<le> accepted \<and> accepted - observed \<le> 60000
       | _ \<Rightarrow> False))
       ''ACTIVATED_AUTHORITY_HEAD_STALE'' 503"

definition assert_retention :: "js_string \<Rightarrow> js_string \<Rightarrow> unit result" where
  "assert_retention retention_until observed_at =
     assert_js (times_hold [retention_until, observed_at] (\<lambda>ts. case ts of
         [retention, observed] \<Rightarrow> retention > observed | _ \<Rightarrow> False))
       ''ACTIVATED_AUTHORITY_HEAD_RETENTION_INVALID'' 503"

definition assert_minimum_retention :: "js_string \<Rightarrow> js_string \<Rightarrow> unit result" where
  "assert_minimum_retention retention_until committed_at =
     assert_js (times_hold [retention_until, committed_at] (\<lambda>ts. case ts of
         [retention, committed] \<Rightarrow> retention \<ge> committed + 2557 * 86400000 | _ \<Rightarrow> False))
       ''ACTIVATED_AUTHORITY_HEAD_RETENTION_INVALID'' 503"

section \<open>Proofs\<close>

definition PROOF_FIELDS :: "string list" where
  "PROOF_FIELDS = [''broker_accepted_at'', ''head'', ''observed_at'', ''record_sha256'', ''request_id'',
     ''requested_at'', ''schema'', ''schema_version'', ''worm'']"

definition parse_current_head_proof :: "hash \<Rightarrow> json \<Rightarrow> json result" where
  "parse_current_head_proof sha v =
     bind_r (exact_object v PROOF_FIELDS) (\<lambda>proof.
     bind_r (proof_size v) (\<lambda>_.
     bind_r (proof_literal proof ''schema'' PROOF_SCHEMA) (\<lambda>_.
     bind_r (proof_integer proof ''schema_version'' 1) (\<lambda>_.
     bind_r (require_string proof ''request_id'' 128 (Some REQUEST_ID)) (\<lambda>request_id.
     bind_r (proof_request_id request_id) (\<lambda>_.
     bind_r (require_string proof ''requested_at'' 32 (Some TIMESTAMP)) (\<lambda>requested.
     bind_r (proof_timestamp requested) (\<lambda>requested_at.
     bind_r (require_string proof ''observed_at'' 32 (Some TIMESTAMP)) (\<lambda>observed.
     bind_r (proof_timestamp observed) (\<lambda>observed_at.
     bind_r (require_string proof ''broker_accepted_at'' 32 (Some TIMESTAMP)) (\<lambda>accepted.
     bind_r (proof_timestamp accepted) (\<lambda>accepted_at.
     bind_r (parse_activated_authority_head sha (lookup proof (js ''head''))) (\<lambda>head.
     bind_r (head_record_sha256 sha head) (\<lambda>expected_digest.
     bind_r (tagged_field proof ''record_sha256'') (\<lambda>record_sha256.
     bind_r (assert_js (record_sha256 = expected_digest) ''ACTIVATED_AUTHORITY_HEAD_PROOF_DIGEST_INVALID'' 503) (\<lambda>_.
     bind_r (head_key sha head) (\<lambda>expected_key.
     bind_r (parse_head_worm (lookup proof (js ''worm'')) expected_digest expected_key) (\<lambda>worm.
     bind_r (exact_object (json_get head (js ''activated'')) [''record_id'', ''record_sha256'', ''worm'']) (\<lambda>activated.
     bind_r (exact_object (lookup activated (js ''worm'')) WORM_FIELDS) (\<lambda>activated_worm.
     bind_r (case head of JObj kvs \<Rightarrow> require_string kvs ''committed_at'' 32 (Some TIMESTAMP)
             | _ \<Rightarrow> Inl (broker ''FIELD_INVALID'' 400 False)) (\<lambda>committed.
     bind_r (proof_timestamp committed) (\<lambda>committed_at.
     bind_r (assert_fresh_read requested_at observed_at accepted_at committed_at) (\<lambda>_.
     bind_r (require_string activated_worm ''retention_until'' 32 (Some TIMESTAMP)) (\<lambda>retention_until.
     bind_r (assert_retention retention_until observed_at) (\<lambda>_.
     bind_r (assert_minimum_retention (aw_retention_until worm) committed_at) (\<lambda>_.
       Inr v))))))))))))))))))))))))))"

record head_proof_input =
  hp_broker_accepted_at :: js_string
  hp_head :: json
  hp_observed_at :: js_string
  hp_request_id :: js_string
  hp_requested_at :: js_string
  hp_worm :: activation_worm

definition proof_members ::
    "js_string \<Rightarrow> json \<Rightarrow> js_string \<Rightarrow> js_string \<Rightarrow> js_string \<Rightarrow> js_string \<Rightarrow> json \<Rightarrow> members" where
  "proof_members accepted_at head observed_at record_sha256 request_id requested_at worm =
     [(js ''broker_accepted_at'', JStr accepted_at), (js ''head'', head), (js ''observed_at'', JStr observed_at),
      (js ''record_sha256'', JStr record_sha256), (js ''request_id'', JStr request_id),
      (js ''requested_at'', JStr requested_at), (js ''schema'', JStr PROOF_SCHEMA),
      (js ''schema_version'', JI 1), (js ''worm'', worm)]"

definition build_current_head_proof :: "hash \<Rightarrow> head_proof_input \<Rightarrow> json result" where
  "build_current_head_proof sha i =
     bind_r (parse_activated_authority_head sha (hp_head i)) (\<lambda>head.
     bind_r (head_record_sha256 sha head) (\<lambda>record_sha256.
     bind_r (head_key sha head) (\<lambda>expected_key.
     bind_r (proof_timestamp (hp_broker_accepted_at i)) (\<lambda>accepted_at.
     bind_r (proof_timestamp (hp_observed_at i)) (\<lambda>observed_at.
     bind_r (proof_request_id (hp_request_id i)) (\<lambda>request_id.
     bind_r (proof_timestamp (hp_requested_at i)) (\<lambda>requested_at.
     bind_r (head_worm (hp_worm i) record_sha256 expected_key) (\<lambda>worm.
       parse_current_head_proof sha
         (JObj (proof_members accepted_at head observed_at record_sha256 request_id requested_at worm))))))))))"

text \<open>The canonical text of a proof, as another Worker receives it.\<close>

definition parse_current_head_proof_canonical :: "(js_string \<Rightarrow> js_number) \<Rightarrow> hash \<Rightarrow> js_string \<Rightarrow> json result" where
  "parse_current_head_proof_canonical decimal sha t =
     (let n = length (utf8_encode t) in
      if n = 0 \<or> n > BODY_BYTES then Inl (broker ''ACTIVATED_AUTHORITY_HEAD_PROOF_SIZE_INVALID'' 503 False)
      else case json_parse decimal t of
        Inl _ \<Rightarrow> Inl (broker ''ACTIVATED_AUTHORITY_HEAD_PROOF_INVALID'' 503 False)
      | Inr decoded \<Rightarrow>
          bind_r (parse_current_head_proof sha decoded) (\<lambda>proof.
          bind_r (canonical_json proof) (\<lambda>u.
          bind_r (assert_js (t = u) ''ACTIVATED_AUTHORITY_HEAD_PROOF_NONCANONICAL'' 503) (\<lambda>_. Inr proof))))"

section \<open>Read requests\<close>

definition READ_REQUEST_FIELDS :: "string list" where
  "READ_REQUEST_FIELDS = [''expected_activated_record_id'', ''expected_activated_record_sha256'',
     ''expected_activated_service_authorities_sha256'', ''expected_ingress_worker_version_id'',
     ''request_id'', ''requested_at'', ''schema'', ''schema_version'']"

definition parse_head_read_request :: "json \<Rightarrow> json result" where
  "parse_head_read_request v =
     bind_r (exact_object v READ_REQUEST_FIELDS) (\<lambda>request.
     bind_r (proof_literal request ''schema'' READ_REQUEST_SCHEMA) (\<lambda>_.
     bind_r (proof_integer request ''schema_version'' 1) (\<lambda>_.
     bind_r (tagged_field request ''expected_activated_record_id'') (\<lambda>_.
     bind_r (tagged_field request ''expected_activated_record_sha256'') (\<lambda>_.
     bind_r (tagged_field request ''expected_activated_service_authorities_sha256'') (\<lambda>_.
     bind_r (require_string request ''expected_ingress_worker_version_id'' 36 (Some CLOUDFLARE_UUID)) (\<lambda>_.
     bind_r (require_string request ''request_id'' 128 (Some REQUEST_ID)) (\<lambda>request_id.
     bind_r (proof_request_id request_id) (\<lambda>_.
     bind_r (require_string request ''requested_at'' 32 (Some TIMESTAMP)) (\<lambda>requested_at.
     bind_r (proof_timestamp requested_at) (\<lambda>_. Inr v)))))))))))"

record read_request_input =
  rq_activated_record_id :: js_string
  rq_activated_record_sha256 :: js_string
  rq_activated_service_authorities_sha256 :: js_string
  rq_ingress_worker_version_id :: js_string
  rq_request_id :: js_string
  rq_requested_at :: js_string

definition build_head_read_request :: "read_request_input \<Rightarrow> json result" where
  "build_head_read_request i = parse_head_read_request (JObj
     [(js ''expected_activated_record_id'', JStr (rq_activated_record_id i)),
      (js ''expected_activated_record_sha256'', JStr (rq_activated_record_sha256 i)),
      (js ''expected_activated_service_authorities_sha256'', JStr (rq_activated_service_authorities_sha256 i)),
      (js ''expected_ingress_worker_version_id'', JStr (rq_ingress_worker_version_id i)),
      (js ''request_id'', JStr (rq_request_id i)), (js ''requested_at'', JStr (rq_requested_at i)),
      (js ''schema'', JStr READ_REQUEST_SCHEMA), (js ''schema_version'', JI 1)])"

definition assert_current_head_matches_request :: "hash \<Rightarrow> json \<Rightarrow> json \<Rightarrow> json result" where
  "assert_current_head_matches_request sha v raw_request =
     bind_r (parse_current_head_proof sha v) (\<lambda>proof.
     bind_r (parse_head_read_request raw_request) (\<lambda>request.
     bind_r (exact_object (json_get proof (js ''head'')) HEAD_FIELDS) (\<lambda>head.
     bind_r (exact_object (lookup head (js ''activated'')) [''record_id'', ''record_sha256'', ''worm'']) (\<lambda>activated.
     bind_r (assert_js
         (json_get proof (js ''request_id'') = json_get request (js ''request_id'') \<and>
          json_get proof (js ''requested_at'') = json_get request (js ''requested_at'') \<and>
          lookup activated (js ''record_id'') = json_get request (js ''expected_activated_record_id'') \<and>
          lookup activated (js ''record_sha256'') = json_get request (js ''expected_activated_record_sha256'') \<and>
          lookup head (js ''activated_service_authorities_sha256'') =
            json_get request (js ''expected_activated_service_authorities_sha256'') \<and>
          lookup head (js ''ingress_worker_version_id'') =
            json_get request (js ''expected_ingress_worker_version_id''))
         ''ACTIVATED_AUTHORITY_HEAD_STALE'' 503) (\<lambda>_. Inr proof)))))"

section \<open>What a parsed proof has shown\<close>

lemma assert_fresh_read_eq_Inr [result_simps]:
  "assert_fresh_read r ob a c = Inr u \<longleftrightarrow>
     (\<exists>rt ot at ct. date_parse r = Some rt \<and> date_parse ob = Some ot \<and> date_parse a = Some at \<and>
        date_parse c = Some ct \<and> ct \<le> ot \<and> rt \<le> ot \<and> ot - rt \<le> 60000 \<and> ot \<le> at \<and> at - ot \<le> 60000)"
  by (cases "date_parse r"; cases "date_parse ob"; cases "date_parse a"; cases "date_parse c")
    (simp_all add: assert_fresh_read_def assert_js_eq_Inr times_hold_def)

lemma assert_retention_eq_Inr [result_simps]:
  "assert_retention x ob = Inr u \<longleftrightarrow>
     (\<exists>xt ot. date_parse x = Some xt \<and> date_parse ob = Some ot \<and> xt > ot)"
  by (cases "date_parse x"; cases "date_parse ob")
    (simp_all add: assert_retention_def assert_js_eq_Inr times_hold_def)

lemma assert_minimum_retention_eq_Inr [result_simps]:
  "assert_minimum_retention x c = Inr u \<longleftrightarrow>
     (\<exists>xt ct. date_parse x = Some xt \<and> date_parse c = Some ct \<and> xt \<ge> ct + 2557 * 86400000)"
  by (cases "date_parse x"; cases "date_parse c")
    (simp_all add: assert_minimum_retention_def assert_js_eq_Inr times_hold_def)

lemma parse_head_worm_eq_Inr [result_simps]:
  "parse_head_worm v digest key = Inr w \<longleftrightarrow>
     (\<exists>kvs. v = JObj kvs \<and> set (map fst kvs) = js ` set WORM_FIELDS \<and>
        lookup kvs (js ''digest'') = JStr digest \<and> digest \<noteq> [] \<and>
        lookup kvs (js ''key'') = JStr key \<and> key \<noteq> [] \<and>
        lookup kvs (js ''retention_until'') = JStr (aw_retention_until w) \<and>
        lookup kvs (js ''version_id'') = JStr (aw_version_id w)) \<and>
     aw_digest w = digest \<and> aw_key w = key \<and>
     matches TIMESTAMP (aw_retention_until w) \<and> matches VERSION_ID (aw_version_id w)"
proof -
  have "matches TIMESTAMP s \<Longrightarrow> 0 < length s \<and> length s \<le> 32" "matches VERSION_ID s \<Longrightarrow> 0 < length s \<and> length s \<le> 512"
    for s using TIMESTAMP_length [of s] VERSION_ID_length [of s] by auto
  then show ?thesis
    by (cases w) (auto simp: parse_head_worm_def result_simps WORM_FIELDS_def simp del: length_greater_0_conv)
qed

lemma head_worm_eq_Inr [result_simps]:
  "head_worm w digest key = Inr j \<longleftrightarrow>
     aw_digest w = digest \<and> aw_key w = key \<and> is_canonical_time (aw_retention_until w) \<and>
     matches VERSION_ID (aw_version_id w) \<and> j = worm_of w"
  using VERSION_ID_length [of "aw_version_id w"]
  by (auto simp: head_worm_def result_simps lookup_def worm_of_def)

definition proof_times_ok :: "js_string \<Rightarrow> js_string \<Rightarrow> js_string \<Rightarrow> js_string \<Rightarrow> js_string \<Rightarrow> js_string \<Rightarrow> bool" where
  "proof_times_ok requested observed accepted committed activated_until head_until \<longleftrightarrow>
     is_canonical_time requested \<and> is_canonical_time observed \<and> is_canonical_time accepted \<and>
     is_canonical_time committed \<and>
     assert_fresh_read requested observed accepted committed = Inr () \<and>
     assert_retention activated_until observed = Inr () \<and> assert_minimum_retention head_until committed = Inr ()"

lemma parse_proofD:
  assumes "parse_current_head_proof sha v = Inr p"
  obtains kvs hkvs akvs wkvs digest key w requested observed accepted committed until rid where
    "v = JObj kvs" "set (map fst kvs) = js ` set PROOF_FIELDS" "proof_size v = Inr ()"
    "lookup kvs (js ''requested_at'') = JStr requested"
    "lookup kvs (js ''observed_at'') = JStr observed" "lookup kvs (js ''broker_accepted_at'') = JStr accepted"
    "lookup kvs (js ''head'') = JObj hkvs"
    "parse_activated_authority_head sha (JObj hkvs) = Inr (JObj hkvs)"
    "head_record_sha256 sha (JObj hkvs) = Inr digest" "lookup kvs (js ''record_sha256'') = JStr digest"
    "head_key sha (JObj hkvs) = Inr key" "parse_head_worm (lookup kvs (js ''worm'')) digest key = Inr w"
    "lookup hkvs (js ''activated'') = JObj akvs" "lookup akvs (js ''worm'') = JObj wkvs"
    "lookup hkvs (js ''committed_at'') = JStr committed" "lookup wkvs (js ''retention_until'') = JStr until"
    "proof_times_ok requested observed accepted committed until (aw_retention_until w)"
    "p = v" "lookup kvs (js ''request_id'') = JStr rid" "matches REQUEST_ID rid"
    "lookup kvs (js ''schema'') = JStr PROOF_SCHEMA" "lookup kvs (js ''schema_version'') = JI 1"
proof -
  show ?thesis
    using assms unfolding parse_current_head_proof_def
    apply (elim bind_r_InrE)
    subgoal premises p for kvs _ _ _ rid _ requested requested' observed observed' accepted accepted' head digest
      digest' _ key w akvs wkvs committed committed' _ until
    proof -
      note f = p(1) [unfolded exact_object_eq_Inr] p(7,9,11,15,21,24) [unfolded require_string_eq_Inr tagged_field_eq_Inr]
        p(8,10,12,22) [unfolded proof_timestamp_def timestamp_check_eq_Inr]
        p(16) [unfolded assert_js_eq_Inr] p(19,20) [unfolded exact_object_eq_Inr]
      have h: "head = lookup kvs (js ''head'')" by (rule parse_head_same [OF p(13)])
      obtain hkvs where hk: "head = JObj hkvs" using f by (cases head) (simp_all add: json_get_def)
      have hl: "lookup kvs (js ''head'') = JObj hkvs" using h hk by simp
      obtain n where n: "lookup kvs (js ''schema_version'') = JNum n" "is_safe_integer n" "number_int n = 1"
        using p(4) [unfolded proof_integer_def integer_check_eq_Inr] by blast
      then have one: "lookup kvs (js ''schema_version'') = JI 1"
        by (cases n) (auto simp: JI_def is_safe_integer_def number_int_def)
      have r: "lookup kvs (js ''request_id'') = JStr rid" "matches REQUEST_ID rid"
        "lookup kvs (js ''schema'') = JStr PROOF_SCHEMA"
        using p(3) [unfolded proof_literal_def literal_check_eq_Inr] p(5) [unfolded require_string_eq_Inr] by simp_all
      show ?thesis
        by (rule that [of kvs requested observed accepted hkvs digest key w akvs wkvs committed until rid])
          (use one r f p(2,13,14,17,18,23,25,26,27) hl hk in
            \<open>simp_all add: json_get_def require_string_eq_Inr proof_times_ok_def\<close>)
    qed
    done
qed

lemma parse_proof_headD:
  assumes "parse_current_head_proof sha (JObj kvs) = Inr p"
  obtains hkvs digest where "p = JObj kvs" "lookup kvs (js ''head'') = JObj hkvs"
    "parse_activated_authority_head sha (JObj hkvs) = Inr (JObj hkvs)"
    "head_record_sha256 sha (JObj hkvs) = Inr digest" "lookup kvs (js ''record_sha256'') = JStr digest"
    "set (map fst hkvs) = js ` set HEAD_FIELDS"
proof -
  obtain kvs' hkvs digest where k: "JObj kvs = JObj kvs'" and p: "p = JObj kvs"
    and f: "lookup kvs' (js ''head'') = JObj hkvs" "parse_activated_authority_head sha (JObj hkvs) = Inr (JObj hkvs)"
    "head_record_sha256 sha (JObj hkvs) = Inr digest" "lookup kvs' (js ''record_sha256'') = JStr digest"
    by (rule parse_proofD [OF assms])
  have "set (map fst hkvs) = js ` set HEAD_FIELDS" by (rule parse_headD [OF f(2)])
  with that p f k show ?thesis by simp
qed

section \<open>Parsed heads have a digest and a key\<close>

lemma sha256_tag_DIGEST: "length (sha bs) = 32 \<Longrightarrow> matches DIGEST (sha256_tag sha bs)"
proof -
  assume len: "length (sha bs) = 32"
  have hex: "in_cls ''09af'' (hex_digit n)" if "n < 16" for n
  proof -
    have "n \<in> set [0..<16]" using that by simp
    then show ?thesis by (simp add: upt_rec hex_digit_def) (elim disjE; simp)
  qed
  have lt: "unat b div 16 < 16" "unat b mod 16 < 16" for b :: byte
    using unsigned_less [where 'a = nat, of b] by simp_all
  have "\<forall>c \<in> set (hex_bytes (sha bs)). in_cls ''09af'' c"
    using hex lt by (auto simp: hex_bytes_def simp del: in_cls.simps)
  then show ?thesis
    unfolding DIGEST_iff sha256_tag_def sha256_hex_def using len
    by (intro exI [of _ "hex_bytes (sha bs)"]) simp
qed

definition key_of :: "int \<Rightarrow> js_string \<Rightarrow> js_string" where
  "key_of n digest = js ''receipts/v1/activation-head/generations/'' @ pad_start 20 (int_text n) @ js ''-'' @
     drop 7 digest @ js ''.json''"

lemma key_of_text:
  assumes "\<bar>n\<bar> \<le> max_safe" and "matches DIGEST d"
  shows "ascii (key_of n d)" "length (key_of n d) = 130" "key_of n d \<noteq> []"
proof -
  have "length (int_text n) \<le> 17"
    using length_int_text [of "JInt n"] assms(1) by (simp add: is_safe_integer_def number_int_def)
  moreover have "ascii (drop 7 d)" using matched_text(1) [OF assms(2)] by (auto simp: ascii_def dest: in_set_dropD)
  moreover have "ascii (replicate k 0x30)" for k by (auto simp: ascii_def)
  ultimately show "ascii (key_of n d)" "length (key_of n d) = 130"
    using matched_text(1) [OF assms(2)] ascii_int_text [of n] by (simp_all add: key_of_def pad_start_def ascii_js)
  then show "key_of n d \<noteq> []" by auto
qed

lemma parsed_head_receipt:
  assumes "parse_activated_authority_head sha (JObj hkvs) = Inr h" and "\<And>bs. length (sha bs) = 32"
  obtains bs n where "canonical_bytes (JObj hkvs) = Inr bs" "lookup hkvs (js ''generation'') = JNum n"
    "is_safe_integer n" "1 \<le> number_int n"
    "head_record_sha256 sha (JObj hkvs) = Inr (sha256_tag sha bs)"
    "head_key sha (JObj hkvs) = Inr (key_of (number_int n) (sha256_tag sha bs))"
proof -
  obtain i t n rebuilt where t: "canonical_json (JObj hkvs) = Inr t" and n: "lookup hkvs (js ''generation'') = JNum n"
    "is_safe_integer n" "number_int n = hi_generation i" and b: "build_activated_authority_head sha i = Inr rebuilt"
    by (rule parse_headD [OF assms(1)])
  have g: "1 \<le> number_int n" "number_int n \<le> GENERATION_MAX"
    using b unfolding build_head_eq_Inr n(3) by (auto simp: head_input_ok_def Let_def)
  have c: "canonical_bytes (JObj hkvs) = Inr (utf8_encode t)" using t by (simp add: canonical_bytes_def)
  have h: "h = JObj hkvs" by (rule parse_head_same [OF assms(1)])
  have d: "head_record_sha256 sha (JObj hkvs) = Inr (sha256_tag sha (utf8_encode t))"
    using assms(1) c unfolding h by (simp add: head_record_sha256_def)
  have "require_integer hkvs ''generation'' 1 GENERATION_MAX = Inr (number_int n)"
    using n g by (simp add: require_integer_eq_Inr)
  with d have "head_key sha (JObj hkvs) = Inr (key_of (number_int n) (sha256_tag sha (utf8_encode t)))"
    by (simp add: head_key_def key_of_def)
  with that c n d g show ?thesis by blast
qed

lemma parsed_head_fits:
  assumes "parse_activated_authority_head sha v = Inr h" and "well_formed v" and "\<And>bs. length (sha bs) = 32"
  shows "fits 3 30 HEAD_WEIGHT v"
proof -
  obtain i p bs where ok: "head_input_ok i p" and n: "normalise v = normalise (named_head sha (input_members i p) bs)"
    by (rule parse_head_derived [OF assms(1,2)])
  from head_input_fits(1) [OF ok] sha256_tag_text [of sha bs] assms(3) n fits_normalise [OF n]
  show ?thesis by (simp add: named_head_def)
qed

section \<open>When a proof is built\<close>

definition proof_ok :: "hash \<Rightarrow> head_proof_input \<Rightarrow> members \<Rightarrow> js_string \<Rightarrow> bool" where
  "proof_ok sha i hkvs digest \<longleftrightarrow>
     hp_head i = JObj hkvs \<and> parse_activated_authority_head sha (JObj hkvs) = Inr (JObj hkvs) \<and>
     head_record_sha256 sha (JObj hkvs) = Inr digest \<and> head_key sha (JObj hkvs) = Inr (aw_key (hp_worm i)) \<and>
     aw_digest (hp_worm i) = digest \<and> matches TIMESTAMP (aw_retention_until (hp_worm i)) \<and>
     matches VERSION_ID (aw_version_id (hp_worm i)) \<and> matches REQUEST_ID (hp_request_id i) \<and>
     (\<exists>committed until. lookup hkvs (js ''committed_at'') = JStr committed \<and>
        json_get (json_get (lookup hkvs (js ''activated'')) (js ''worm'')) (js ''retention_until'') = JStr until \<and>
        proof_times_ok (hp_requested_at i) (hp_observed_at i) (hp_broker_accepted_at i) committed until
          (aw_retention_until (hp_worm i)))"

definition proof_input_ok :: "hash \<Rightarrow> head_proof_input \<Rightarrow> members \<Rightarrow> js_string \<Rightarrow> bool" where
  "proof_input_ok sha i hkvs digest \<longleftrightarrow>
     proof_ok sha i hkvs digest \<and> is_canonical_time (aw_retention_until (hp_worm i))"

definition input_proof :: "head_proof_input \<Rightarrow> members" where
  "input_proof i = proof_members (hp_broker_accepted_at i) (hp_head i) (hp_observed_at i) (aw_digest (hp_worm i))
     (hp_request_id i) (hp_requested_at i) (worm_of (hp_worm i))"

definition PROOF_WEIGHT :: nat where "PROOF_WEIGHT = 18000"

lemma proof_input_fits:
  assumes "proof_ok sha i hkvs digest" and "well_formed (JObj hkvs)" and "\<And>bs. length (sha bs) = 32"
  shows "fits 4 60 PROOF_WEIGHT (JObj (input_proof i))"
proof -
  let ?w = "hp_worm i"
  have hd: "hp_head i = JObj hkvs" and p: "parse_activated_authority_head sha (JObj hkvs) = Inr (JObj hkvs)"
    and k: "head_key sha (JObj hkvs) = Inr (aw_key ?w)" "head_record_sha256 sha (JObj hkvs) = Inr (aw_digest ?w)"
    and ok: "matches TIMESTAMP (aw_retention_until ?w)" "matches VERSION_ID (aw_version_id ?w)"
    "matches REQUEST_ID (hp_request_id i)" "is_canonical_time (hp_requested_at i)"
    "is_canonical_time (hp_observed_at i)" "is_canonical_time (hp_broker_accepted_at i)"
    using assms(1) unfolding proof_ok_def proof_times_ok_def by blast+
  obtain bs n where n: "is_safe_integer n"
    "head_record_sha256 sha (JObj hkvs) = Inr (sha256_tag sha bs)"
    "head_key sha (JObj hkvs) = Inr (key_of (number_int n) (sha256_tag sha bs))"
    by (rule parsed_head_receipt [OF p assms(3)])
  have d: "aw_digest ?w = sha256_tag sha bs" "aw_key ?w = key_of (number_int n) (sha256_tag sha bs)"
    using n k by simp_all
  have dg: "matches DIGEST (sha256_tag sha bs)" using sha256_tag_DIGEST [of sha] assms(3) by blast
  have "\<bar>number_int n\<bar> \<le> max_safe" using safe_integer_bounds [OF n(1)] by (simp add: abs_le_iff)
  note key = key_of_text [OF this dg]
  have h: "plain (hp_head i)" "height (hp_head i) \<le> 3" "nodes (hp_head i) \<le> 30" "weight (hp_head i) \<le> HEAD_WEIGHT"
    using parsed_head_fits [OF p assms(2,3)] unfolding hd fits_def by blast+
  have version: "ascii (aw_version_id ?w) \<and> length (aw_version_id ?w) \<le> 1000"
    and request: "ascii (hp_request_id i) \<and> length (hp_request_id i) \<le> 1000"
    using matched_text(2) [OF ok(2)] matched_text(3) [OF ok(3)] by simp_all
  have one: "is_safe_integer (JInt 1)" by (simp add: is_safe_integer_def max_safe_def)
  note s = input_proof_def proof_members_def worm_of_def worm_json_def d PROOF_SCHEMA_def PROOF_WEIGHT_def
  note f = matched_text(1) [OF dg] matched_text(6) [OF ok(1)] matched_text(5) [OF ok(4)] matched_text(5) [OF ok(5)]
    matched_text(5) [OF ok(6)] key(1,2) version request one bounded_key JI_def deepest_def
    MAX_MAPPING_ENTRIES_def ascii_js
  have "plain (JObj (input_proof i))" using h(1) by (simp add: s f)
  moreover have "height (JObj (input_proof i)) \<le> 4" using h(2) by (simp add: s f)
  moreover have "nodes (JObj (input_proof i)) \<le> 60" using h(3) by (simp add: s f)
  moreover have "weight (JObj (input_proof i)) \<le> PROOF_WEIGHT"
    using h(4) matched_text(2) [OF ok(2)] matched_text(3) [OF ok(3)] by (simp add: s f HEAD_WEIGHT_def)
  ultimately show ?thesis by (simp add: fits_def)
qed

lemma proof_lookups:
  assumes "kvs = proof_members acc head ob digest rid req worm"
  shows "lookup kvs (js ''broker_accepted_at'') = JStr acc" "lookup kvs (js ''head'') = head"
    "lookup kvs (js ''observed_at'') = JStr ob" "lookup kvs (js ''record_sha256'') = JStr digest"
    "lookup kvs (js ''request_id'') = JStr rid" "lookup kvs (js ''requested_at'') = JStr req"
    "lookup kvs (js ''schema'') = JStr PROOF_SCHEMA" "lookup kvs (js ''schema_version'') = JI 1"
    "lookup kvs (js ''worm'') = worm"
    "exact_object (JObj kvs) PROOF_FIELDS = Inr kvs"
  unfolding assms by (simp_all add: proof_members_def lookup_def exact_object_JObj PROOF_FIELDS_def)

lemma timestamp_field:
  "is_canonical_time t \<Longrightarrow> lookup kvs (js k) = JStr t \<Longrightarrow> require_string kvs k 32 (Some TIMESTAMP) = Inr t"
  using canonical_time_matches [of t] matched_text(5) [of t] by (auto simp: require_string_eq_Inr)

text \<open>A head that is the same value has the same digest, key and times.\<close>

lemma head_same_receipt:
  assumes "parse_activated_authority_head sha (JObj kvs) = Inr (JObj kvs)" and "well_formed (JObj kvs)"
    and "parse_activated_authority_head sha (JObj kvs') = Inr (JObj kvs')" and "well_formed (JObj kvs')"
    and "normalise (JObj kvs') = normalise (JObj kvs)" and "\<And>bs. length (sha bs) = 32"
  shows "head_record_sha256 sha (JObj kvs') = head_record_sha256 sha (JObj kvs)"
    and "head_key sha (JObj kvs') = head_key sha (JObj kvs)"
    and "lookup kvs' (js ''committed_at'') = lookup kvs (js ''committed_at'')"
    and "json_get (json_get (lookup kvs' (js ''activated'')) (js ''worm'')) (js ''retention_until'') =
         json_get (json_get (lookup kvs (js ''activated'')) (js ''worm'')) (js ''retention_until'')"
proof -
  note same = same_lookup [OF assms(5,4,2)]
  obtain bs n where r: "canonical_bytes (JObj kvs) = Inr bs" "lookup kvs (js ''generation'') = JNum n"
    "is_safe_integer n" "1 \<le> number_int n" "head_record_sha256 sha (JObj kvs) = Inr (sha256_tag sha bs)"
    "head_key sha (JObj kvs) = Inr (key_of (number_int n) (sha256_tag sha bs))"
    by (rule parsed_head_receipt [OF assms(1,6)])
  obtain bs' n' where r': "canonical_bytes (JObj kvs') = Inr bs'" "lookup kvs' (js ''generation'') = JNum n'"
    "is_safe_integer n'" "1 \<le> number_int n'" "head_record_sha256 sha (JObj kvs') = Inr (sha256_tag sha bs')"
    "head_key sha (JObj kvs') = Inr (key_of (number_int n') (sha256_tag sha bs'))"
    by (rule parsed_head_receipt [OF assms(3,6)])
  have bs: "bs' = bs" using r(1) r'(1) canonical_bytes_normalise [OF assms(5)] by simp
  have "number_int n' = number_int n"
    using same(1) [of "js ''generation''"] r(2,4) r'(2,4)
    by (cases n; cases n') (auto simp: number_int_def)
  with bs r r' show "head_record_sha256 sha (JObj kvs') = head_record_sha256 sha (JObj kvs)"
    "head_key sha (JObj kvs') = head_key sha (JObj kvs)" by simp_all
  obtain akvs wkvs and i :: head_input where c: "lookup kvs (js ''committed_at'') = JStr (hi_committed_at i)"
    and a: "lookup kvs (js ''activated'') = JObj akvs" and w: "lookup akvs (js ''worm'') = JObj wkvs"
    and u: "lookup wkvs (js ''retention_until'') = JStr (aw_retention_until (hi_activated_worm i))"
    by (rule parse_headD [OF assms(1)])
  obtain akvs' wkvs' and i' :: head_input where c': "lookup kvs' (js ''committed_at'') = JStr (hi_committed_at i')"
    and a': "lookup kvs' (js ''activated'') = JObj akvs'" and w': "lookup akvs' (js ''worm'') = JObj wkvs'"
    and u': "lookup wkvs' (js ''retention_until'') = JStr (aw_retention_until (hi_activated_worm i'))"
    by (rule parse_headD [OF assms(3)])
  show "lookup kvs' (js ''committed_at'') = lookup kvs (js ''committed_at'')"
    using same(1) [of "js ''committed_at''"] by (simp add: c c')
  note wf = well_formed_lookup [OF assms(2), of "js ''activated''", unfolded a]
    well_formed_lookup [OF assms(4), of "js ''activated''", unfolded a']
  have na: "normalise (JObj akvs') = normalise (JObj akvs)" using same(1) [of "js ''activated''"] by (simp add: a a')
  note wfw = well_formed_lookup [OF wf(1), of "js ''worm''", unfolded w]
    well_formed_lookup [OF wf(2), of "js ''worm''", unfolded w']
  have nw: "normalise (JObj wkvs') = normalise (JObj wkvs)"
    using same_lookup(1) [OF na wf(2,1), of "js ''worm''"] by (simp add: w w')
  show "json_get (json_get (lookup kvs' (js ''activated'')) (js ''worm'')) (js ''retention_until'') =
         json_get (json_get (lookup kvs (js ''activated'')) (js ''worm'')) (js ''retention_until'')"
    using same_lookup(1) [OF nw wfw(2,1), of "js ''retention_until''"] by (simp add: json_get_def a a' w w' u u')
qed

lemma proof_input_same:
  assumes "proof_ok sha i hkvs digest" and "well_formed (JObj hkvs)"
    and "parse_activated_authority_head sha (JObj hkvs') = Inr (JObj hkvs')" and "well_formed (JObj hkvs')"
    and "normalise (JObj hkvs') = normalise (JObj hkvs)" and "\<And>bs. length (sha bs) = 32"
  shows "proof_ok sha (i\<lparr>hp_head := JObj hkvs'\<rparr>) hkvs' digest"
proof -
  have "parse_activated_authority_head sha (JObj hkvs) = Inr (JObj hkvs)"
    using assms(1) unfolding proof_ok_def by blast
  note r = head_same_receipt [OF this assms(2-6)]
  show ?thesis using assms(1,3) unfolding proof_ok_def r by simp
qed

text \<open>Which objects parse: those with the members of a valid input, in any order.\<close>

lemma parse_proof_members:
  assumes "proof_ok sha i hkvs digest" and "\<And>bs. length (sha bs) = 32"
    and "set (map fst kvs) = js ` set PROOF_FIELDS" and "proof_size (JObj kvs) = Inr ()"
    and lk: "lookup kvs (js ''broker_accepted_at'') = JStr (hp_broker_accepted_at i)"
      "lookup kvs (js ''head'') = JObj hkvs" "lookup kvs (js ''observed_at'') = JStr (hp_observed_at i)"
      "lookup kvs (js ''record_sha256'') = JStr (aw_digest (hp_worm i))"
      "lookup kvs (js ''request_id'') = JStr (hp_request_id i)"
      "lookup kvs (js ''requested_at'') = JStr (hp_requested_at i)"
      "lookup kvs (js ''schema'') = JStr PROOF_SCHEMA" "lookup kvs (js ''schema_version'') = JI 1"
    and worm: "parse_head_worm (lookup kvs (js ''worm'')) (aw_digest (hp_worm i)) (aw_key (hp_worm i)) = Inr (hp_worm i)"
  shows "parse_current_head_proof sha (JObj kvs) = Inr (JObj kvs)"
proof -
  let ?w = "hp_worm i"
  have p: "parse_activated_authority_head sha (JObj hkvs) = Inr (JObj hkvs)"
    and k: "head_key sha (JObj hkvs) = Inr (aw_key ?w)" "head_record_sha256 sha (JObj hkvs) = Inr (aw_digest ?w)"
    and ok: "matches REQUEST_ID (hp_request_id i)"
    using assms(1) unfolding proof_ok_def by blast+
  obtain committed until where c: "lookup hkvs (js ''committed_at'') = JStr committed"
    and until: "json_get (json_get (lookup hkvs (js ''activated'')) (js ''worm'')) (js ''retention_until'') = JStr until"
    and times: "proof_times_ok (hp_requested_at i) (hp_observed_at i) (hp_broker_accepted_at i) committed until
          (aw_retention_until ?w)"
    using assms(1) unfolding proof_ok_def by blast
  note t = times [unfolded proof_times_ok_def]
  obtain bs where "head_record_sha256 sha (JObj hkvs) = Inr (sha256_tag sha bs)"
    by (rule parsed_head_receipt [OF p assms(2)])
  then have dg: "matches DIGEST (aw_digest ?w)" using sha256_tag_DIGEST [of sha] assms(2) k(2) by simp
  obtain akvs wkvs and j :: head_input where a: "lookup hkvs (js ''activated'') = JObj akvs"
    "set (map fst akvs) = js ` {''record_id'', ''record_sha256'', ''worm''}"
    "lookup akvs (js ''worm'') = JObj wkvs"
    "set (map fst wkvs) = js ` {''digest'', ''key'', ''retention_until'', ''version_id''}"
    "lookup wkvs (js ''retention_until'') = JStr (aw_retention_until (hi_activated_worm j))"
    by (rule parse_headD [OF p])
  have ua: "lookup wkvs (js ''retention_until'') = JStr until" using until by (simp add: a json_get_def)
  have obj: "exact_object (JObj kvs) PROOF_FIELDS = Inr kvs"
    using assms(3) by (simp add: exact_object_eq_Inr) (simp add: PROOF_FIELDS_def)
  have head: "proof_literal kvs ''schema'' PROOF_SCHEMA = Inr ()" "proof_integer kvs ''schema_version'' 1 = Inr ()"
    "require_string kvs ''request_id'' 128 (Some REQUEST_ID) = Inr (hp_request_id i)"
    "proof_request_id (hp_request_id i) = Inr (hp_request_id i)"
    "tagged_field kvs ''record_sha256'' = Inr (aw_digest ?w)"
    using REQUEST_ID_length [OF ok] ok dg
    by (auto simp: proof_checks literal_check_eq_Inr integer_check_eq_Inr request_id_check_eq_Inr lk JI_def
        is_safe_integer_def max_safe_def number_int_def PROOF_SCHEMA_def require_string_eq_Inr tagged_field_eq_Inr)
  have stamp: "proof_timestamp s = Inr s" if "is_canonical_time s" for s
    using that by (simp add: proof_timestamp_def timestamp_check_eq_Inr)
  have canon: "is_canonical_time (hp_requested_at i)" "is_canonical_time (hp_observed_at i)"
    "is_canonical_time (hp_broker_accepted_at i)" "is_canonical_time committed"
    and checks: "assert_fresh_read (hp_requested_at i) (hp_observed_at i) (hp_broker_accepted_at i) committed = Inr ()"
    "assert_retention until (hp_observed_at i) = Inr ()"
    "assert_minimum_retention (aw_retention_until ?w) committed = Inr ()" using t by blast+
  have req: "require_string kvs ''requested_at'' 32 (Some TIMESTAMP) = Inr (hp_requested_at i)"
    "require_string kvs ''observed_at'' 32 (Some TIMESTAMP) = Inr (hp_observed_at i)"
    "require_string kvs ''broker_accepted_at'' 32 (Some TIMESTAMP) = Inr (hp_broker_accepted_at i)"
    "require_string hkvs ''committed_at'' 32 (Some TIMESTAMP) = Inr committed"
    by (rule timestamp_field; fact canon lk(6,3,1) c)+
  have until': "matches TIMESTAMP until" "length until = 24"
    using checks(2) TIMESTAMP_length [of until]
    by (auto simp: assert_retention_eq_Inr date_parse_def Let_def split: if_splits)
  have wr: "require_string wkvs ''retention_until'' 32 (Some TIMESTAMP) = Inr until"
    using until' by (auto simp: require_string_eq_Inr ua)
  have act: "exact_object (json_get (JObj hkvs) (js ''activated'')) [''record_id'', ''record_sha256'', ''worm''] = Inr akvs"
    "exact_object (lookup akvs (js ''worm'')) WORM_FIELDS = Inr wkvs"
    using a(2,4) by (simp_all add: json_get_def a(1,3) exact_object_eq_Inr WORM_FIELDS_def)
  show ?thesis
    unfolding parse_current_head_proof_def obj bind_r.simps assms(4) head req(1-3)
      stamp [OF canon(1)] stamp [OF canon(2)] stamp [OF canon(3)] lk(2) p k worm act json.case req(4)
      stamp [OF canon(4)] checks wr
    by simp
qed

lemma proof_input_worm:
  assumes "proof_ok sha i hkvs digest" and "\<And>bs. length (sha bs) = 32"
  shows "aw_digest (hp_worm i) \<noteq> []" "aw_key (hp_worm i) \<noteq> []" "matches TIMESTAMP (aw_retention_until (hp_worm i))"
    "matches VERSION_ID (aw_version_id (hp_worm i))"
proof -
  have p: "parse_activated_authority_head sha (JObj hkvs) = Inr (JObj hkvs)"
    and k: "head_key sha (JObj hkvs) = Inr (aw_key (hp_worm i))"
      "head_record_sha256 sha (JObj hkvs) = Inr (aw_digest (hp_worm i))"
    and ok: "matches TIMESTAMP (aw_retention_until (hp_worm i))" "matches VERSION_ID (aw_version_id (hp_worm i))"
    using assms(1) unfolding proof_ok_def by blast+
  obtain bs n where n: "is_safe_integer n" "head_record_sha256 sha (JObj hkvs) = Inr (sha256_tag sha bs)"
    "head_key sha (JObj hkvs) = Inr (key_of (number_int n) (sha256_tag sha bs))"
    by (rule parsed_head_receipt [OF p assms(2)])
  have dg: "matches DIGEST (aw_digest (hp_worm i))" using sha256_tag_DIGEST [of sha] assms(2) n(2) k(2) by simp
  then show "aw_digest (hp_worm i) \<noteq> []" using matched_text(1) by fastforce
  have "\<bar>number_int n\<bar> \<le> max_safe" using safe_integer_bounds [OF n(1)] by (simp add: abs_le_iff)
  from key_of_text(3) [OF this dg] show "aw_key (hp_worm i) \<noteq> []" using n k by simp
  show "matches TIMESTAMP (aw_retention_until (hp_worm i))" "matches VERSION_ID (aw_version_id (hp_worm i))"
    using ok by blast+
qed

lemma input_proof_well_formed: "hp_head i = JObj hkvs \<Longrightarrow> well_formed (JObj hkvs) \<Longrightarrow> well_formed (JObj (input_proof i))"
  by (simp add: input_proof_def proof_members_def worm_of_def worm_json_def JI_def)

lemma proof_input_size:
  assumes "proof_ok sha i hkvs digest" and "well_formed (JObj hkvs)" and "\<And>bs. length (sha bs) = 32"
    and "normalise (JObj kvs) = normalise (JObj (input_proof i))"
  shows "proof_size (JObj kvs) = Inr ()"
proof -
  obtain u where "canonical_bytes (JObj (input_proof i)) = Inr (utf8_encode u)" "0 < length (utf8_encode u)"
    "length (utf8_encode u) \<le> BODY_BYTES"
    by (rule fits_canonical [OF fits_mono [OF proof_input_fits [OF assms(1-3)]]]) (simp_all add: PROOF_WEIGHT_def)
  then show ?thesis by (simp add: proof_size_def size_check_eq_Inr canonical_bytes_normalise [OF assms(4)])
qed

text \<open>A value that is a valid proof up to the order of members parses too.\<close>

lemma parse_same_proof:
  assumes "proof_ok sha i hkvs digest" and "well_formed (JObj hkvs)" and "\<And>bs. length (sha bs) = 32"
    and "normalise w = normalise (JObj (input_proof i))" and "well_formed w"
  shows "parse_current_head_proof sha w = Inr w"
proof -
  obtain kvs where w: "w = JObj kvs" using assms(4) same_JObj by blast
  have n: "normalise (JObj kvs) = normalise (JObj (input_proof i))" using assms(4) w by simp
  have hd: "hp_head i = JObj hkvs" and p: "parse_activated_authority_head sha (JObj hkvs) = Inr (JObj hkvs)"
    and k: "head_key sha (JObj hkvs) = Inr (aw_key (hp_worm i))"
      "head_record_sha256 sha (JObj hkvs) = Inr (aw_digest (hp_worm i))"
    using assms(1) unfolding proof_ok_def by blast+
  note same = same_lookup [OF n assms(5) [unfolded w] input_proof_well_formed [OF hd assms(2)]]
  note il = proof_lookups [OF input_proof_def [of i]]
  have str: "lookup kvs x = JStr s" if "lookup (input_proof i) x = JStr s" for x s
    using same(1) [of x] that by (simp add: normalise_leaf)
  have one: "lookup kvs (js ''schema_version'') = JI 1"
    using same(1) [of "js ''schema_version''"] by (simp add: il normalise_leaf)
  have nh: "normalise (lookup kvs (js ''head'')) = normalise (JObj hkvs)" using same(1) by (simp only: il hd)
  then obtain hkvs' where h': "lookup kvs (js ''head'') = JObj hkvs'" using same_JObj by blast
  note nh = nh [unfolded h']
  have wf': "well_formed (JObj hkvs')" using same(3) [of "js ''head''"] h' by simp
  have p': "parse_activated_authority_head sha (JObj hkvs') = Inr (JObj hkvs')"
    by (rule parse_head_same_value [OF p assms(2) wf' nh])
  define j where "j = i\<lparr>hp_head := JObj hkvs'\<rparr>"
  have "proof_ok sha j hkvs' digest"
    by (rule proof_input_same [OF assms(1,2) p' wf' nh assms(3), folded j_def])
  moreover have "parse_head_worm (lookup kvs (js ''worm'')) (aw_digest (hp_worm j)) (aw_key (hp_worm j)) = Inr (hp_worm j)"
  proof -
    have nw: "normalise (lookup kvs (js ''worm'')) = normalise (worm_of (hp_worm i))" using same(1) by (simp only: il)
    obtain wkvs where "lookup kvs (js ''worm'') = JObj wkvs" "lookup wkvs (js ''digest'') = JStr (aw_digest (hp_worm i))"
      "lookup wkvs (js ''key'') = JStr (aw_key (hp_worm i))"
      "lookup wkvs (js ''retention_until'') = JStr (aw_retention_until (hp_worm i))"
      "lookup wkvs (js ''version_id'') = JStr (aw_version_id (hp_worm i))"
      "set (map fst wkvs) = js ` {''digest'', ''key'', ''retention_until'', ''version_id''}"
      by (rule same_worm [OF nw same(3)])
    then show ?thesis
      using proof_input_worm [OF assms(1,3)] by (simp add: parse_head_worm_eq_Inr j_def WORM_FIELDS_def)
  qed
  moreover have "set (map fst kvs) = js ` set PROOF_FIELDS"
    using same(2) il(10) by (simp only: exact_object_eq_Inr)
  ultimately have "parse_current_head_proof sha (JObj kvs) = Inr (JObj kvs)"
    using parse_proof_members [of sha j hkvs' digest kvs] assms(3) proof_input_size [OF assms(1-3) n] h' one
      str [OF il(1)] str [OF il(3)] str [OF il(4)] str [OF il(5)] str [OF il(6)] str [OF il(7)]
    by (simp add: j_def)
  then show ?thesis by (simp only: w)
qed

lemma parse_input_proof:
  assumes "proof_ok sha i hkvs digest" and "well_formed (JObj hkvs)" and "\<And>bs. length (sha bs) = 32"
  shows "parse_current_head_proof sha (JObj (input_proof i)) = Inr (JObj (input_proof i))"
proof -
  have "hp_head i = JObj hkvs" using assms(1) unfolding proof_ok_def by blast
  then show ?thesis by (intro parse_same_proof [OF assms refl]) (rule input_proof_well_formed [OF _ assms(2)])
qed

lemma build_proofD:
  assumes "build_current_head_proof sha i = Inr p"
  obtains hkvs digest where "proof_input_ok sha i hkvs digest" "p = JObj (input_proof i)"
    "parse_current_head_proof sha p = Inr p"
proof -
  show ?thesis
    using assms unfolding build_current_head_proof_def
    apply (elim bind_r_InrE)
    subgoal premises p for head digest key accepted observed rid requested worm
    proof -
      note f = p(4,5,7) [unfolded proof_timestamp_def timestamp_check_eq_Inr]
        p(6) [unfolded proof_request_id_def request_id_check_eq_Inr] p(8) [unfolded head_worm_eq_Inr]
      have h: "head = hp_head i" by (rule parse_head_same [OF p(1)])
      have "proof_members accepted head observed digest rid requested worm = input_proof i"
        using f h by (simp add: input_proof_def)
      note p9 = p(9) [unfolded this]
      note lk = proof_lookups [OF input_proof_def [of i]]
      obtain kvs hkvs akvs wkvs digest' key' w requested' observed' accepted' committed until where
        k: "JObj (input_proof i) = JObj kvs" and
        q: "lookup kvs (js ''requested_at'') = JStr requested'"
        "lookup kvs (js ''observed_at'') = JStr observed'" "lookup kvs (js ''broker_accepted_at'') = JStr accepted'"
        "lookup kvs (js ''head'') = JObj hkvs" "head_record_sha256 sha (JObj hkvs) = Inr digest'"
        "head_key sha (JObj hkvs) = Inr key'" "parse_head_worm (lookup kvs (js ''worm'')) digest' key' = Inr w" and
        a: "lookup hkvs (js ''activated'') = JObj akvs" "lookup akvs (js ''worm'') = JObj wkvs"
        "lookup hkvs (js ''committed_at'') = JStr committed" "lookup wkvs (js ''retention_until'') = JStr until" and
        t: "proof_times_ok requested' observed' accepted' committed until (aw_retention_until w)" and
        pp: "p = JObj (input_proof i)"
        by (rule parse_proofD [OF p9])
      have kk: "kvs = input_proof i" using k by simp
      note q' = q [unfolded kk lk]
      have hd: "hp_head i = JObj hkvs" using q'(4) .
      have d: "digest' = digest" "key' = key" using q'(5,6) p(2,3) h hd by simp_all
      have w: "aw_retention_until w = aw_retention_until (hp_worm i)"
        using q'(7) f by (auto simp: parse_head_worm_eq_Inr worm_of_def worm_json_def lookup_def)
      have "proof_input_ok sha i hkvs digest"
        unfolding proof_input_ok_def proof_ok_def using canonical_time_matches [of "aw_retention_until (hp_worm i)"] p(1-3) f hd h a q'(1-3) t w
        by (simp add: json_get_def)
      then show ?thesis using that pp p9 by simp
    qed
    done
qed

lemma build_input_proof:
  assumes "proof_input_ok sha i hkvs digest" and "well_formed (JObj hkvs)" and "\<And>bs. length (sha bs) = 32"
  shows "build_current_head_proof sha i = Inr (JObj (input_proof i))"
proof -
  have f: "hp_head i = JObj hkvs" "parse_activated_authority_head sha (JObj hkvs) = Inr (JObj hkvs)"
    "head_key sha (JObj hkvs) = Inr (aw_key (hp_worm i))" "head_record_sha256 sha (JObj hkvs) = Inr (aw_digest (hp_worm i))"
    "is_canonical_time (aw_retention_until (hp_worm i))" "matches VERSION_ID (aw_version_id (hp_worm i))"
    "matches REQUEST_ID (hp_request_id i)" "is_canonical_time (hp_requested_at i)"
    "is_canonical_time (hp_observed_at i)" "is_canonical_time (hp_broker_accepted_at i)"
    using assms(1) unfolding proof_input_ok_def proof_ok_def proof_times_ok_def by blast+
  have "proof_timestamp s = Inr s" if "is_canonical_time s" for s
    using that by (simp add: proof_timestamp_def timestamp_check_eq_Inr)
  moreover have "proof_request_id (hp_request_id i) = Inr (hp_request_id i)"
    using f(7) by (simp add: proof_request_id_def request_id_check_eq_Inr)
  moreover have "head_worm (hp_worm i) (aw_digest (hp_worm i)) (aw_key (hp_worm i)) = Inr (worm_of (hp_worm i))"
    using f(5,6) by (simp add: head_worm_eq_Inr)
  ultimately show ?thesis
    using parse_input_proof [of sha i hkvs digest, OF _ assms(2,3)] assms(1)
    by (simp add: build_current_head_proof_def f input_proof_def proof_input_ok_def)
qed

text \<open>Every parsed proof is, up to the order of its members, the proof of some input.\<close>

lemma parsed_proof_form:
  assumes "parse_current_head_proof sha v = Inr p" and "well_formed v"
  obtains i hkvs digest where "proof_ok sha i hkvs digest" "well_formed (JObj hkvs)"
    "normalise v = normalise (JObj (input_proof i))"
proof -
  obtain kvs hkvs akvs wkvs digest key w requested observed accepted committed until rid where
    v: "v = JObj kvs" and k: "set (map fst kvs) = js ` set PROOF_FIELDS"
    and l: "lookup kvs (js ''requested_at'') = JStr requested"
    "lookup kvs (js ''observed_at'') = JStr observed" "lookup kvs (js ''broker_accepted_at'') = JStr accepted"
    "lookup kvs (js ''head'') = JObj hkvs" "lookup kvs (js ''record_sha256'') = JStr digest"
    "lookup kvs (js ''request_id'') = JStr rid" "lookup kvs (js ''schema'') = JStr PROOF_SCHEMA"
    "lookup kvs (js ''schema_version'') = JI 1"
    and h: "parse_activated_authority_head sha (JObj hkvs) = Inr (JObj hkvs)"
    "head_record_sha256 sha (JObj hkvs) = Inr digest" "head_key sha (JObj hkvs) = Inr key"
    and w: "parse_head_worm (lookup kvs (js ''worm'')) digest key = Inr w"
    and a: "lookup hkvs (js ''activated'') = JObj akvs" "lookup akvs (js ''worm'') = JObj wkvs"
    "lookup hkvs (js ''committed_at'') = JStr committed" "lookup wkvs (js ''retention_until'') = JStr until"
    and t: "proof_times_ok requested observed accepted committed until (aw_retention_until w)"
    and r: "matches REQUEST_ID rid"
    by (rule parse_proofD [OF assms(1)])
  define i where "i = \<lparr>hp_broker_accepted_at = accepted, hp_head = JObj hkvs, hp_observed_at = observed,
    hp_request_id = rid, hp_requested_at = requested, hp_worm = w\<rparr>"
  note wd = w [unfolded parse_head_worm_eq_Inr]
  have ok: "proof_ok sha i hkvs digest"
    unfolding proof_ok_def i_def using h r t a wd by (auto simp: json_get_def)
  have d: "distinct (map fst kvs)" using assms(2) v by simp
  have wf: "well_formed (lookup kvs x)" for x using well_formed_lookup assms(2) v by blast
  obtain wk where wk: "lookup kvs (js ''worm'') = JObj wk" "set (map fst wk) = js ` set WORM_FIELDS"
    "lookup wk (js ''digest'') = JStr (aw_digest w)" "lookup wk (js ''key'') = JStr (aw_key w)"
    "lookup wk (js ''retention_until'') = JStr (aw_retention_until w)"
    "lookup wk (js ''version_id'') = JStr (aw_version_id w)"
    using wd by blast
  have "distinct (map fst wk)" using wf [of "js ''worm''"] wk(1) by simp
  from members_normalise [OF this wk(2)] have "normalise (JObj wk) = normalise (worm_of w)"
    by (simp add: WORM_FIELDS_def wk worm_of_def worm_json_def)
  moreover have "aw_digest w = digest" using wd by simp
  moreover have "normalise (JObj kvs) = normalise (JObj (map (\<lambda>k. (js k, lookup kvs (js k))) PROOF_FIELDS))"
    by (rule members_normalise [OF d k]) (simp add: PROOF_FIELDS_def)
  ultimately have "normalise v = normalise (JObj (input_proof i))"
    by (simp add: v PROOF_FIELDS_def l wk(1) input_proof_def proof_members_def i_def)
  moreover have "well_formed (JObj hkvs)" using wf [of "js ''head''"] l(4) by simp
  ultimately show ?thesis using that ok by blast
qed

lemma parse_proof_same_value:
  assumes "parse_current_head_proof sha v = Inr p" and "well_formed v" and "well_formed w"
    and "normalise w = normalise v" and "\<And>bs. length (sha bs) = 32"
  shows "parse_current_head_proof sha w = Inr w"
proof -
  obtain i hkvs digest where "proof_ok sha i hkvs digest" "well_formed (JObj hkvs)"
    "normalise v = normalise (JObj (input_proof i))"
    by (rule parsed_proof_form [OF assms(1,2)])
  with assms(3-5) show ?thesis by (intro parse_same_proof [of sha i hkvs digest]) simp_all
qed

lemma parsed_proof_fits:
  assumes "parse_current_head_proof sha v = Inr p" and "well_formed v" and "\<And>bs. length (sha bs) = 32"
  shows "fits 4 60 PROOF_WEIGHT v"
proof -
  obtain i hkvs digest where i: "proof_ok sha i hkvs digest" "well_formed (JObj hkvs)"
    "normalise v = normalise (JObj (input_proof i))"
    by (rule parsed_proof_form [OF assms(1,2)])
  from proof_input_fits [OF i(1,2) assms(3)] fits_normalise [OF i(3)] show ?thesis by simp
qed

section \<open>A sample proof\<close>

definition sample_head_worm :: activation_worm where
  "sample_head_worm = \<lparr>aw_digest = zero_digest, aw_key = key_of 1 zero_digest,
     aw_retention_until = sample_until, aw_version_id = js ''v1''\<rparr>"

definition sample_proof_input :: head_proof_input where
  "sample_proof_input = \<lparr>hp_broker_accepted_at = sample_time, hp_head = JObj sample_head_members,
     hp_observed_at = sample_time, hp_request_id = js ''request-1'', hp_requested_at = sample_time,
     hp_worm = sample_head_worm\<rparr>"

lemma sample_head_parses:
  "parse_activated_authority_head zero_sha (JObj sample_head_members) = Inr (JObj sample_head_members)"
  by (rule parse_built_head [OF sample_head_built])

lemma sample_head_well_formed: "well_formed (JObj sample_head_members)"
  by (rule build_head_well_formed [OF sample_head_built])

lemma sample_head_lookups:
  "lookup sample_head_members (js ''generation'') = JI 1"
  "lookup sample_head_members (js ''committed_at'') = JStr sample_time"
  "json_get (json_get (lookup sample_head_members (js ''activated'')) (js ''worm'')) (js ''retention_until'') = JStr sample_until"
  "lookup sample_head_members (js ''record_id'') = JStr zero_digest"
  using head_lookups [OF sample_head_members_def]
  by (simp_all add: sample_head_input_def json_get_def) (simp_all add: lookup_def worm_of_def worm_json_def)

lemma sample_head_receipt:
  "head_record_sha256 zero_sha (JObj sample_head_members) = Inr zero_digest"
  "head_key zero_sha (JObj sample_head_members) = Inr (key_of 1 zero_digest)"
proof -
  obtain bs n where n: "lookup sample_head_members (js ''generation'') = JNum n"
    "head_record_sha256 zero_sha (JObj sample_head_members) = Inr (sha256_tag zero_sha bs)"
    "head_key zero_sha (JObj sample_head_members) = Inr (key_of (number_int n) (sha256_tag zero_sha bs))"
    by (rule parsed_head_receipt [OF sample_head_parses zero_sha_length])
  have "number_int n = 1" using n(1) sample_head_lookups(1) by (auto simp: JI_def number_int_def)
  with n show "head_record_sha256 zero_sha (JObj sample_head_members) = Inr zero_digest"
    "head_key zero_sha (JObj sample_head_members) = Inr (key_of 1 zero_digest)"
    by (simp_all add: zero_sha_tag)
qed

lemma sample_proof_input_ok: "proof_input_ok zero_sha sample_proof_input sample_head_members zero_digest"
proof -
  have "matches VERSION_ID (js ''v1'')" "matches REQUEST_ID (js ''request-1'')"
    by (simp_all add: VERSION_ID_def REQUEST_ID_def js_def)
  then show ?thesis
    by (simp add: proof_input_ok_def proof_ok_def canonical_time_matches sample_proof_input_def sample_head_worm_def sample_head_parses
        sample_head_receipt sample_head_lookups sample_times sample_time_canonical proof_times_ok_def
        assert_fresh_read_eq_Inr assert_retention_eq_Inr assert_minimum_retention_eq_Inr RETENTION_MILLISECONDS_def)
qed

lemma sample_proof_built:
  "build_current_head_proof zero_sha sample_proof_input = Inr (JObj (input_proof sample_proof_input))"
  by (rule build_input_proof [OF sample_proof_input_ok sample_head_well_formed zero_sha_length])

lemma sample_proof_ok: "proof_ok zero_sha sample_proof_input sample_head_members zero_digest"
  using sample_proof_input_ok by (simp add: proof_input_ok_def)

section \<open>Properties\<close>

text \<open>C16: Which inputs a current-head proof is built from (proof_input_ok), and what it then is (input_proof). It is
  built exactly when all of these hold: the head parses; the receipt names the head's own record digest and key, with
  a version identifier of the right shape; the request identifier has its shape; the times of request, observation,
  acceptance and commit and the receipt's retention are canonical timestamps; the read is fresh (the observation is not before the
  commit, at most a minute after the request, and at most a minute before the acceptance); the copy of the activated record that the head names is retained beyond the observation; and the head's own
  copy is retained for at least 2,557 days after the commit. Nothing else is asked: the body limit never refuses one.\<close>

theorem proofs_are_built_exactly_from_fresh_reads:
  assumes "\<And>bs. length (sha bs) = 32" and "well_formed (hp_head i)"
  shows "build_current_head_proof sha i = Inr p \<longleftrightarrow>
     (\<exists>hkvs digest. proof_input_ok sha i hkvs digest) \<and> p = JObj (input_proof i)"
proof
  assume "build_current_head_proof sha i = Inr p"
  then show "(\<exists>hkvs digest. proof_input_ok sha i hkvs digest) \<and> p = JObj (input_proof i)"
    by (rule build_proofD) blast
next
  assume r: "(\<exists>hkvs digest. proof_input_ok sha i hkvs digest) \<and> p = JObj (input_proof i)"
  then obtain hkvs digest where ok: "proof_input_ok sha i hkvs digest" by blast
  then have "hp_head i = JObj hkvs" unfolding proof_input_ok_def proof_ok_def by blast
  with build_input_proof [OF ok _ assms(1)] assms(2) r show "build_current_head_proof sha i = Inr p" by simp
qed

theorem proofs_are_built_exactly_from_fresh_reads_witness:
  "build_current_head_proof zero_sha sample_proof_input = Inr (JObj (input_proof sample_proof_input))"
proof -
  have "well_formed (hp_head sample_proof_input)" using sample_head_well_formed by (simp add: sample_proof_input_def)
  from proofs_are_built_exactly_from_fresh_reads [of zero_sha, OF zero_sha_length this] sample_proof_input_ok
  show ?thesis by blast
qed

text \<open>A proof that parses is fresh and retained: its head parses and has the proof's digest, the broker
  accepted it at most two minutes after the request and not before the commit, and the head's WORM
  copy is retained for at least 2,557 days from the commit.\<close>

theorem parsed_proof_is_fresh:
  assumes "parse_current_head_proof sha v = Inr p"
  shows "\<exists>kvs hkvs digest w requested observed accepted committed rt ot at ct ut. p = JObj kvs \<and> v = p \<and>
    lookup kvs (js ''head'') = JObj hkvs \<and> parse_activated_authority_head sha (JObj hkvs) = Inr (JObj hkvs) \<and>
    head_record_sha256 sha (JObj hkvs) = Inr digest \<and> lookup kvs (js ''record_sha256'') = JStr digest \<and>
    head_key sha (JObj hkvs) = Inr (aw_key w) \<and> parse_head_worm (lookup kvs (js ''worm'')) digest (aw_key w) = Inr w \<and>
    lookup kvs (js ''requested_at'') = JStr requested \<and> date_parse requested = Some rt \<and>
    lookup kvs (js ''observed_at'') = JStr observed \<and> date_parse observed = Some ot \<and>
    lookup kvs (js ''broker_accepted_at'') = JStr accepted \<and> date_parse accepted = Some at \<and>
    lookup hkvs (js ''committed_at'') = JStr committed \<and> date_parse committed = Some ct \<and>
    date_parse (aw_retention_until w) = Some ut \<and>
    rt \<le> ot \<and> ct \<le> ot \<and> ot \<le> at \<and> at - rt \<le> 120000 \<and> ct + 2557 * 86400000 \<le> ut"
proof -
  obtain kvs hkvs digest key w requested observed accepted committed until where
    p: "v = JObj kvs" "p = v"
    and f: "lookup kvs (js ''requested_at'') = JStr requested"
    "lookup kvs (js ''observed_at'') = JStr observed" "lookup kvs (js ''broker_accepted_at'') = JStr accepted"
    "lookup kvs (js ''head'') = JObj hkvs" "parse_activated_authority_head sha (JObj hkvs) = Inr (JObj hkvs)"
    "head_record_sha256 sha (JObj hkvs) = Inr digest" "lookup kvs (js ''record_sha256'') = JStr digest"
    "head_key sha (JObj hkvs) = Inr key" "parse_head_worm (lookup kvs (js ''worm'')) digest key = Inr w"
    "lookup hkvs (js ''committed_at'') = JStr committed"
    and t: "proof_times_ok requested observed accepted committed until (aw_retention_until w)"
    by (rule parse_proofD [OF assms])
  obtain rt ot at ct where a: "date_parse requested = Some rt" "date_parse observed = Some ot"
    "date_parse accepted = Some at" "date_parse committed = Some ct" "ct \<le> ot" "rt \<le> ot" "ot - rt \<le> 60000"
    "ot \<le> at" "at - ot \<le> 60000"
    using t unfolding proof_times_ok_def assert_fresh_read_eq_Inr by blast
  obtain ut where u: "date_parse (aw_retention_until w) = Some ut" "ct + 2557 * 86400000 \<le> ut"
    using t a(4) unfolding proof_times_ok_def assert_minimum_retention_eq_Inr by auto
  have "key = aw_key w" using f(9) by (simp add: parse_head_worm_eq_Inr)
  with p f a u show ?thesis by auto
qed

theorem parsed_proof_is_fresh_witness:
  "\<exists>kvs. JObj (input_proof sample_proof_input) = JObj kvs \<and> (\<exists>hkvs. lookup kvs (js ''head'') = JObj hkvs)"
  using parsed_proof_is_fresh [OF parse_input_proof [OF sample_proof_ok sample_head_well_formed zero_sha_length]]
  by blast

text \<open>C17: A built proof survives transport: its canonical text, parsed by another Worker, is accepted there
  and gives the same proof with its members in canonical order.\<close>

theorem built_proof_survives_transport:
  assumes "build_current_head_proof sha i = Inr p" and "canonical_json p = Inr t"
    and "\<And>bs. length (sha bs) = 32" and "well_formed (hp_head i)"
  shows "parse_current_head_proof_canonical decimal sha t = Inr (normalise p)"
proof -
  obtain hkvs digest where input_ok: "proof_input_ok sha i hkvs digest" and p: "p = JObj (input_proof i)"
    by (rule build_proofD [OF assms(1)])
  then have ok: "proof_ok sha i hkvs digest" by (simp add: proof_input_ok_def)
  then have hd: "hp_head i = JObj hkvs" by (simp add: proof_ok_def)
  have wf: "well_formed (JObj hkvs)" using assms(4) hd by simp
  have wp: "well_formed p" unfolding p by (rule input_proof_well_formed [OF hd wf])
  have nn: "normalise (normalise p) = normalise p" "well_formed (normalise p)"
    by (rule normalise_idem) (rule normalise_well_formed [OF wp])
  have "parse_current_head_proof sha (normalise p) = Inr (normalise p)"
    by (rule parse_same_proof [OF ok wf assms(3)]) (use nn p in simp_all)
  moreover have "json_parse decimal t = Inr (normalise p)" by (rule canonical_parse [OF assms(2) wp])
  moreover have "canonical_json (normalise p) = Inr t" using assms(2) by (simp add: canonical_json_normalise)
  moreover have "0 < length (utf8_encode t) \<and> length (utf8_encode t) \<le> BODY_BYTES"
    using proof_input_size [OF ok wf assms(3) refl] assms(2)
    by (auto simp: p proof_size_def size_check_eq_Inr canonical_bytes_def)
  ultimately show ?thesis by (simp add: parse_current_head_proof_canonical_def Let_def)
qed

theorem built_proof_survives_transport_witness:
  "\<exists>t. parse_current_head_proof_canonical (\<lambda>_. JOther) zero_sha t = Inr (normalise (JObj (input_proof sample_proof_input)))"
proof -
  obtain t where t: "canonical_json (JObj (input_proof sample_proof_input)) = Inr t"
    by (rule fits_canonical [OF fits_mono [OF proof_input_fits [OF sample_proof_ok sample_head_well_formed
      zero_sha_length]]]) (simp_all add: PROOF_WEIGHT_def)
  have "well_formed (hp_head sample_proof_input)" using sample_head_well_formed by (simp add: sample_proof_input_def)
  from built_proof_survives_transport [OF sample_proof_built t zero_sha_length this] show ?thesis by blast
qed

end
