(* ===== verification/EffectReservation.thy ===== *)
theory EffectReservation imports HeadProof begin

text \<open>
  The reservation of \<open>activated-authority-effect.ts\<close>: it pins one activation-proof effect to one global
  head, with the replay use that will pay for it, under an identifier derived from the head and the
  intent.
\<close>

definition ACTIVATION_PROOF :: js_string where "ACTIVATION_PROOF = js ''ACTIVATION_PROOF''"

definition RESERVATION_SCHEMA :: js_string where
  "RESERVATION_SCHEMA = js ''dpone.activated-authority-effect-reservation.v1''"

definition RESERVATION_ID_SCHEMA :: js_string where
  "RESERVATION_ID_SCHEMA = js ''dpone.activated-authority-effect-reservation-id.v1''"

definition effect_timestamp :: "js_string \<Rightarrow> js_string result" where
  "effect_timestamp = timestamp_check ''ACTIVATED_AUTHORITY_EFFECT_RESERVATION_INVALID'' 409"

definition effect_tagged :: "js_string \<Rightarrow> js_string result" where
  "effect_tagged = tagged_check ''ACTIVATED_AUTHORITY_EFFECT_RESERVATION_INVALID'' 409"

definition effect_request_id :: "js_string \<Rightarrow> js_string result" where
  "effect_request_id = request_id_check ''ACTIVATED_AUTHORITY_EFFECT_RESERVATION_INVALID'' 409"

definition effect_literal :: "members \<Rightarrow> string \<Rightarrow> js_string \<Rightarrow> unit result" where
  "effect_literal = literal_check ''ACTIVATED_AUTHORITY_EFFECT_RESERVATION_INVALID'' 409"

definition effect_integer :: "members \<Rightarrow> string \<Rightarrow> int \<Rightarrow> unit result" where
  "effect_integer = integer_check ''ACTIVATED_AUTHORITY_EFFECT_RESERVATION_INVALID'' 409"

definition safe_positive_integer :: "int \<Rightarrow> int result" where
  "safe_positive_integer n =
     bind_r (assert_js (\<bar>n\<bar> \<le> max_safe \<and> 1 \<le> n) ''ACTIVATED_AUTHORITY_EFFECT_RESERVATION_INVALID'' 409) (\<lambda>_. Inr n)"

definition effect_size :: "json \<Rightarrow> unit result" where
  "effect_size = size_check ''ACTIVATED_AUTHORITY_EFFECT_RESERVATION_SIZE_INVALID'' 413"

definition assert_window :: "js_string \<Rightarrow> js_string \<Rightarrow> unit result" where
  "assert_window created_at expires_at =
     assert_js (times_hold [created_at, expires_at] (\<lambda>ts. case ts of
         [created, expires] \<Rightarrow> created < expires \<and> expires - created \<le> 60000 | _ \<Rightarrow> False))
       ''ACTIVATED_AUTHORITY_EFFECT_RESERVATION_INVALID'' 409"

lemmas effect_checks [result_simps] =
  effect_timestamp_def effect_tagged_def effect_request_id_def effect_literal_def effect_integer_def effect_size_def

section \<open>Reservations\<close>

record reservation_input =
  ri_created_at :: js_string
  ri_expires_at :: js_string
  ri_head_generation :: int
  ri_head_record_id :: js_string
  ri_head_record_sha256 :: js_string
  ri_head_proof :: json
  ri_intent_sha256 :: js_string
  ri_replay_claims_sha256 :: js_string
  ri_replay_expires_at :: int
  ri_replay_jti_sha256 :: js_string
  ri_request_id :: js_string

definition is_number :: "json \<Rightarrow> int \<Rightarrow> bool" where
  "is_number v n \<longleftrightarrow> (case v of JNum m \<Rightarrow> is_safe_integer m \<and> number_int m = n | _ \<Rightarrow> False)"

definition reserved_head_json :: "int \<Rightarrow> js_string \<Rightarrow> js_string \<Rightarrow> json" where
  "reserved_head_json gen record_id record_sha256 = JObj
     [(js ''generation'', JI gen), (js ''record_id'', JStr record_id), (js ''record_sha256'', JStr record_sha256)]"

definition replay_json :: "js_string \<Rightarrow> int \<Rightarrow> js_string \<Rightarrow> json" where
  "replay_json claims expires jti = JObj
     [(js ''claims_sha256'', JStr claims), (js ''expires_at'', JI expires), (js ''jti_sha256'', JStr jti)]"

definition reservation_members :: "js_string \<Rightarrow> js_string \<Rightarrow> json \<Rightarrow> json \<Rightarrow> js_string \<Rightarrow> js_string \<Rightarrow> json \<Rightarrow> js_string \<Rightarrow> members" where
  "reservation_members created expires head proof proof_sha256 intent replay request_id =
     [(js ''created_at'', JStr created), (js ''expires_at'', JStr expires), (js ''head'', head),
      (js ''head_proof'', proof), (js ''head_proof_sha256'', JStr proof_sha256), (js ''intent_sha256'', JStr intent),
      (js ''operation'', JStr ACTIVATION_PROOF), (js ''replay'', replay), (js ''request_id'', JStr request_id),
      (js ''schema'', JStr RESERVATION_SCHEMA), (js ''schema_version'', JI 1)]"

text \<open>The preimage of the identifier: the head, the intent and the operation, not the times of one request.\<close>

definition reservation_id_payload :: "json \<Rightarrow> js_string \<Rightarrow> json" where
  "reservation_id_payload head intent = JObj
     [(js ''head'', head), (js ''intent_sha256'', JStr intent), (js ''operation'', JStr ACTIVATION_PROOF),
      (js ''schema'', JStr RESERVATION_ID_SCHEMA), (js ''schema_version'', JI 1)]"

definition build_effect_reservation :: "hash \<Rightarrow> reservation_input \<Rightarrow> json result" where
  "build_effect_reservation sha i =
     bind_r (parse_current_head_proof sha (ri_head_proof i)) (\<lambda>head_proof.
     bind_r (exact_object (json_get head_proof (js ''head'')) HEAD_FIELDS) (\<lambda>proof_head.
     bind_r (assert_js
         (is_number (lookup proof_head (js ''generation'')) (ri_head_generation i) \<and>
          lookup proof_head (js ''record_id'') = JStr (ri_head_record_id i) \<and>
          json_get head_proof (js ''record_sha256'') = JStr (ri_head_record_sha256 i))
         ''ACTIVATED_AUTHORITY_EFFECT_RESERVATION_INVALID'' 409) (\<lambda>_.
     bind_r (effect_timestamp (ri_created_at i)) (\<lambda>created.
     bind_r (effect_timestamp (ri_expires_at i)) (\<lambda>expires.
     bind_r (safe_positive_integer (ri_head_generation i)) (\<lambda>gen.
     bind_r (effect_tagged (ri_head_record_id i)) (\<lambda>record_id.
     bind_r (effect_tagged (ri_head_record_sha256 i)) (\<lambda>record_sha256.
     bind_r (canonical_bytes head_proof) (\<lambda>proof_bytes.
     bind_r (effect_tagged (ri_intent_sha256 i)) (\<lambda>intent.
     bind_r (effect_tagged (ri_replay_claims_sha256 i)) (\<lambda>claims.
     bind_r (safe_positive_integer (ri_replay_expires_at i)) (\<lambda>replay_expires.
     bind_r (effect_tagged (ri_replay_jti_sha256 i)) (\<lambda>jti.
     bind_r (effect_request_id (ri_request_id i)) (\<lambda>request_id.
     let head = reserved_head_json gen record_id record_sha256;
         without_id = reservation_members created expires head head_proof (sha256_tag sha proof_bytes) intent
           (replay_json claims replay_expires jti) request_id in
     bind_r (assert_window created expires) (\<lambda>_.
     bind_r (canonical_bytes (reservation_id_payload head intent)) (\<lambda>id_bytes.
     let reservation = JObj (without_id @ [(js ''reservation_id'', JStr (sha256_tag sha id_bytes))]) in
     bind_r (effect_size reservation) (\<lambda>_. Inr reservation)))))))))))))))))"

definition RESERVATION_FIELDS :: "string list" where
  "RESERVATION_FIELDS = [''created_at'', ''expires_at'', ''head'', ''head_proof'', ''head_proof_sha256'',
     ''intent_sha256'', ''operation'', ''replay'', ''request_id'', ''reservation_id'', ''schema'', ''schema_version'']"

definition REPLAY_FIELDS :: "string list" where
  "REPLAY_FIELDS = [''claims_sha256'', ''expires_at'', ''jti_sha256'']"

definition parse_effect_reservation :: "hash \<Rightarrow> json \<Rightarrow> json result" where
  "parse_effect_reservation sha v =
     bind_r (exact_object v RESERVATION_FIELDS) (\<lambda>reservation.
     bind_r (effect_literal reservation ''schema'' RESERVATION_SCHEMA) (\<lambda>_.
     bind_r (effect_integer reservation ''schema_version'' 1) (\<lambda>_.
     bind_r (effect_literal reservation ''operation'' ACTIVATION_PROOF) (\<lambda>_.
     bind_r (exact_object (lookup reservation (js ''head'')) PREVIOUS_FIELDS) (\<lambda>head.
     bind_r (exact_object (lookup reservation (js ''replay'')) REPLAY_FIELDS) (\<lambda>replay.
     bind_r (require_string reservation ''created_at'' 32 (Some TIMESTAMP)) (\<lambda>created.
     bind_r (require_string reservation ''expires_at'' 32 (Some TIMESTAMP)) (\<lambda>expires.
     bind_r (require_integer head ''generation'' 1 max_safe) (\<lambda>gen.
     bind_r (tagged_field head ''record_id'') (\<lambda>record_id.
     bind_r (tagged_field head ''record_sha256'') (\<lambda>record_sha256.
     bind_r (parse_current_head_proof sha (lookup reservation (js ''head_proof''))) (\<lambda>head_proof.
     bind_r (tagged_field reservation ''intent_sha256'') (\<lambda>intent.
     bind_r (tagged_field replay ''claims_sha256'') (\<lambda>claims.
     bind_r (require_integer replay ''expires_at'' 1 max_safe) (\<lambda>replay_expires.
     bind_r (tagged_field replay ''jti_sha256'') (\<lambda>jti.
     bind_r (require_string reservation ''request_id'' 128 (Some REQUEST_ID)) (\<lambda>request_id.
     bind_r (build_effect_reservation sha
         \<lparr>ri_created_at = created, ri_expires_at = expires, ri_head_generation = gen, ri_head_record_id = record_id,
          ri_head_record_sha256 = record_sha256, ri_head_proof = head_proof, ri_intent_sha256 = intent,
          ri_replay_claims_sha256 = claims, ri_replay_expires_at = replay_expires, ri_replay_jti_sha256 = jti,
          ri_request_id = request_id\<rparr>) (\<lambda>rebuilt.
     bind_r (canonical_json v) (\<lambda>t.
     bind_r (canonical_json rebuilt) (\<lambda>rebuilt_text.
     bind_r (assert_js (t = rebuilt_text) ''ACTIVATED_AUTHORITY_EFFECT_RESERVATION_INVALID'' 409) (\<lambda>_.
       Inr v)))))))))))))))))))))"

section \<open>What a built reservation holds\<close>

lemma assert_window_eq_Inr [result_simps]:
  "assert_window a b = Inr u \<longleftrightarrow>
     (\<exists>at bt. date_parse a = Some at \<and> date_parse b = Some bt \<and> at < bt \<and> bt - at \<le> 60000)"
  by (cases "date_parse a"; cases "date_parse b") (simp_all add: assert_window_def assert_js_eq_Inr times_hold_def)

lemma safe_positive_integer_eq_Inr [result_simps]:
  "safe_positive_integer n = Inr m \<longleftrightarrow> 1 \<le> n \<and> n \<le> max_safe \<and> m = n"
  by (auto simp: safe_positive_integer_def result_simps)

definition reservation_input_ok :: "hash \<Rightarrow> reservation_input \<Rightarrow> bool" where
  "reservation_input_ok sha i \<longleftrightarrow>
     parse_current_head_proof sha (ri_head_proof i) = Inr (ri_head_proof i) \<and>
     (\<exists>kvs hkvs. ri_head_proof i = JObj kvs \<and> lookup kvs (js ''head'') = JObj hkvs \<and>
        is_number (lookup hkvs (js ''generation'')) (ri_head_generation i) \<and>
        lookup hkvs (js ''record_id'') = JStr (ri_head_record_id i) \<and>
        lookup kvs (js ''record_sha256'') = JStr (ri_head_record_sha256 i)) \<and>
     is_canonical_time (ri_created_at i) \<and> is_canonical_time (ri_expires_at i) \<and>
     1 \<le> ri_head_generation i \<and> ri_head_generation i \<le> max_safe \<and>
     matches DIGEST (ri_head_record_id i) \<and> matches DIGEST (ri_head_record_sha256 i) \<and>
     matches DIGEST (ri_intent_sha256 i) \<and> matches DIGEST (ri_replay_claims_sha256 i) \<and>
     1 \<le> ri_replay_expires_at i \<and> ri_replay_expires_at i \<le> max_safe \<and>
     matches DIGEST (ri_replay_jti_sha256 i) \<and> matches REQUEST_ID (ri_request_id i) \<and>
     assert_window (ri_created_at i) (ri_expires_at i) = Inr ()"

definition input_head :: "reservation_input \<Rightarrow> json" where
  "input_head i = reserved_head_json (ri_head_generation i) (ri_head_record_id i) (ri_head_record_sha256 i)"

definition input_replay :: "reservation_input \<Rightarrow> json" where
  "input_replay i = replay_json (ri_replay_claims_sha256 i) (ri_replay_expires_at i) (ri_replay_jti_sha256 i)"

definition input_reservation :: "hash \<Rightarrow> reservation_input \<Rightarrow> bytes \<Rightarrow> bytes \<Rightarrow> members" where
  "input_reservation sha i proof_bytes id_bytes =
     reservation_members (ri_created_at i) (ri_expires_at i) (input_head i) (ri_head_proof i)
       (sha256_tag sha proof_bytes) (ri_intent_sha256 i) (input_replay i) (ri_request_id i) @
     [(js ''reservation_id'', JStr (sha256_tag sha id_bytes))]"

lemma parse_proof_same: "parse_current_head_proof sha v = Inr p \<Longrightarrow> p = v"
  by (erule parse_proofD)

lemma build_reservation_eq_Inr:
  "build_effect_reservation sha i = Inr r \<longleftrightarrow>
     (\<exists>pb ib. reservation_input_ok sha i \<and> canonical_bytes (ri_head_proof i) = Inr pb \<and>
        canonical_bytes (reservation_id_payload (input_head i) (ri_intent_sha256 i)) = Inr ib \<and>
        r = JObj (input_reservation sha i pb ib) \<and> effect_size r = Inr ())"
  (is "_ = Inr r \<longleftrightarrow> ?R")
proof
  assume "build_effect_reservation sha i = Inr r"
  then show ?R
    unfolding build_effect_reservation_def Let_def
    apply (elim bind_r_InrE)
    subgoal premises p for hp ph _ created expires gen rid rsha pb intent claims rexp jti req _ ib _
    proof -
      have hp: "hp = ri_head_proof i" by (rule parse_proof_same [OF p(1)])
      obtain kvs hkvs where k: "ri_head_proof i = JObj kvs" "lookup kvs (js ''head'') = JObj hkvs"
        by (rule parse_proofD [OF p(1)])
      have ph: "ph = hkvs" using p(2) by (simp add: hp k json_get_def exact_object_eq_Inr)
      note f = p(4,5) [unfolded effect_timestamp_def timestamp_check_eq_Inr]
        p(6,12) [unfolded safe_positive_integer_eq_Inr]
        p(7,8,10,11,13) [unfolded effect_tagged_def tagged_check_eq_Inr]
        p(14) [unfolded effect_request_id_def request_id_check_eq_Inr]
      have m: "is_number (lookup hkvs (js ''generation'')) (ri_head_generation i)"
        "lookup hkvs (js ''record_id'') = JStr (ri_head_record_id i)"
        "lookup kvs (js ''record_sha256'') = JStr (ri_head_record_sha256 i)"
        using p(3) by (simp_all add: assert_js_eq_Inr ph hp k json_get_def)
      have w: "assert_window (ri_created_at i) (ri_expires_at i) = Inr ()" using p(15) f by simp
      have ok: "reservation_input_ok sha i"
        unfolding reservation_input_ok_def using p(1) hp k m w f by auto
      have r: "r = JObj (input_reservation sha i pb ib)"
        using p(18) f hp by (simp add: input_reservation_def input_head_def input_replay_def)
      show ?R
        by (intro exI [of _ pb] exI [of _ ib] conjI ok r)
          (use p(9,16,17,18) f hp in \<open>simp_all add: input_head_def\<close>)
    qed
    done
next
  assume ?R
  then obtain pb ib kvs hkvs where ok: "reservation_input_ok sha i"
    and b: "canonical_bytes (ri_head_proof i) = Inr pb"
    "canonical_bytes (reservation_id_payload (input_head i) (ri_intent_sha256 i)) = Inr ib"
    and r: "r = JObj (input_reservation sha i pb ib)" "effect_size r = Inr ()"
    and pp: "parse_current_head_proof sha (ri_head_proof i) = Inr (ri_head_proof i)"
    and k: "ri_head_proof i = JObj kvs" "lookup kvs (js ''head'') = JObj hkvs"
      "is_number (lookup hkvs (js ''generation'')) (ri_head_generation i)"
      "lookup hkvs (js ''record_id'') = JStr (ri_head_record_id i)"
      "lookup kvs (js ''record_sha256'') = JStr (ri_head_record_sha256 i)"
    unfolding reservation_input_ok_def by blast
  note o = ok [unfolded reservation_input_ok_def]
  obtain hkvs' where h': "lookup kvs (js ''head'') = JObj hkvs'" "set (map fst hkvs') = js ` set HEAD_FIELDS"
    by (rule parse_proof_headD [OF pp [unfolded k(1)]])
  then have "set (map fst hkvs) = js ` set HEAD_FIELDS" using k(2) by simp
  then have ph: "exact_object (json_get (JObj kvs) (js ''head'')) HEAD_FIELDS = Inr hkvs"
    by (simp add: json_get_def k exact_object_eq_Inr) (simp add: HEAD_FIELDS_def)
  show "build_effect_reservation sha i = Inr r"
    using o b r ph k pp unfolding build_effect_reservation_def Let_def
    by (simp add: effect_timestamp_def timestamp_check_eq_Inr json_get_def)
      (simp add: bind_r_eq_Inr result_simps input_reservation_def input_head_def input_replay_def)
qed

section \<open>Reservations are small\<close>

definition RESERVATION_WEIGHT :: nat where "RESERVATION_WEIGHT = 26000"

lemma input_reservation_fits:
  assumes "reservation_input_ok sha i" and "well_formed (ri_head_proof i)" and "\<And>bs. length (sha bs) = 32"
  shows "fits 5 90 RESERVATION_WEIGHT (JObj (input_reservation sha i pb ib))"
proof -
  have ok: "matches DIGEST (ri_head_record_id i)" "matches DIGEST (ri_head_record_sha256 i)"
    "matches DIGEST (ri_intent_sha256 i)" "matches DIGEST (ri_replay_claims_sha256 i)"
    "matches DIGEST (ri_replay_jti_sha256 i)" "matches REQUEST_ID (ri_request_id i)"
    "is_canonical_time (ri_created_at i)" "is_canonical_time (ri_expires_at i)"
    "parse_current_head_proof sha (ri_head_proof i) = Inr (ri_head_proof i)"
    and n: "1 \<le> ri_head_generation i" "ri_head_generation i \<le> max_safe"
    "1 \<le> ri_replay_expires_at i" "ri_replay_expires_at i \<le> max_safe"
    using assms(1) unfolding reservation_input_ok_def by blast+
  have p: "plain (ri_head_proof i)" "height (ri_head_proof i) \<le> 4" "nodes (ri_head_proof i) \<le> 60"
    "weight (ri_head_proof i) \<le> PROOF_WEIGHT"
    using parsed_proof_fits [OF ok(9) assms(2,3)] unfolding fits_def by blast+
  have request: "ascii (ri_request_id i) \<and> length (ri_request_id i) \<le> 1000"
    using matched_text(3) [OF ok(6)] by simp
  have num: "is_safe_integer (JInt 1)" "is_safe_integer (JInt (ri_head_generation i))"
    "is_safe_integer (JInt (ri_replay_expires_at i))"
    using n by (simp_all add: is_safe_integer_def max_safe_def)
  note s = input_reservation_def reservation_members_def input_head_def input_replay_def reserved_head_json_def
    replay_json_def RESERVATION_SCHEMA_def ACTIVATION_PROOF_def RESERVATION_WEIGHT_def
  note f = matched_text(1) [OF ok(1)] matched_text(1) [OF ok(2)] matched_text(1) [OF ok(3)] matched_text(1) [OF ok(4)]
    matched_text(1) [OF ok(5)] matched_text(5) [OF ok(7)] matched_text(5) [OF ok(8)] request num
    sha256_tag_text [of sha pb, OF assms(3)] sha256_tag_text [of sha ib, OF assms(3)]
    bounded_key JI_def deepest_def MAX_MAPPING_ENTRIES_def ascii_js
  have "plain (JObj (input_reservation sha i pb ib))" using p(1) by (simp add: s f)
  moreover have "height (JObj (input_reservation sha i pb ib)) \<le> 5" using p(2) by (simp add: s f)
  moreover have "nodes (JObj (input_reservation sha i pb ib)) \<le> 90" using p(3) by (simp add: s f)
  moreover have "weight (JObj (input_reservation sha i pb ib)) \<le> RESERVATION_WEIGHT"
    using p(4) matched_text(3) [OF ok(6)] by (simp add: s f PROOF_WEIGHT_def)
  ultimately show ?thesis by (simp add: fits_def)
qed

lemma id_payload_fits:
  assumes "matches DIGEST a" and "matches DIGEST b" and "matches DIGEST c" and "1 \<le> n" and "n \<le> max_safe"
  shows "fits 2 20 3000 (reservation_id_payload (reserved_head_json n a b) c)"
proof -
  have num: "is_safe_integer (JInt 1)" "is_safe_integer (JInt n)"
    using assms(4,5) by (simp_all add: is_safe_integer_def max_safe_def)
  show ?thesis
    by (simp add: fits_def reservation_id_payload_def reserved_head_json_def num matched_text(1) [OF assms(1)]
        matched_text(1) [OF assms(2)] matched_text(1) [OF assms(3)] bounded_key JI_def deepest_def
        MAX_MAPPING_ENTRIES_def ascii_js RESERVATION_ID_SCHEMA_def ACTIVATION_PROOF_def)
qed

text \<open>The size limit refuses no reservation; one is built exactly from valid input.\<close>

lemma build_reservation_total:
  assumes "reservation_input_ok sha i" and "well_formed (ri_head_proof i)" and "\<And>bs. length (sha bs) = 32"
  obtains pb ib where "canonical_bytes (ri_head_proof i) = Inr pb"
    "canonical_bytes (reservation_id_payload (input_head i) (ri_intent_sha256 i)) = Inr ib"
    "build_effect_reservation sha i = Inr (JObj (input_reservation sha i pb ib))"
proof -
  have ok: "matches DIGEST (ri_head_record_id i)" "matches DIGEST (ri_head_record_sha256 i)"
    "matches DIGEST (ri_intent_sha256 i)" "1 \<le> ri_head_generation i" "ri_head_generation i \<le> max_safe"
    "parse_current_head_proof sha (ri_head_proof i) = Inr (ri_head_proof i)"
    using assms(1) unfolding reservation_input_ok_def by blast+
  obtain kvs where k: "ri_head_proof i = JObj kvs" by (rule parse_proofD [OF ok(6)])
  obtain pt where pb: "canonical_bytes (ri_head_proof i) = Inr (utf8_encode pt)"
    unfolding k by (rule fits_canonical [OF fits_mono [OF parsed_proof_fits [OF ok(6) assms(2,3), unfolded k]]])
      (simp_all add: PROOF_WEIGHT_def)
  obtain it where ib: "canonical_bytes (reservation_id_payload (input_head i) (ri_intent_sha256 i)) = Inr (utf8_encode it)"
    unfolding reservation_id_payload_def
    by (rule fits_canonical [OF fits_mono [OF id_payload_fits [OF ok(1-5), folded input_head_def,
      unfolded reservation_id_payload_def]]]) simp_all
  let ?r = "JObj (input_reservation sha i (utf8_encode pt) (utf8_encode it))"
  obtain u where "canonical_bytes ?r = Inr (utf8_encode u)" "0 < length (utf8_encode u)"
    "length (utf8_encode u) \<le> BODY_BYTES"
    by (rule fits_canonical [OF fits_mono [OF input_reservation_fits [OF assms]]]) (simp_all add: RESERVATION_WEIGHT_def)
  then have "effect_size ?r = Inr ()" by (simp add: effect_size_def size_check_eq_Inr)
  with assms(1) pb ib have "build_effect_reservation sha i = Inr ?r" unfolding build_reservation_eq_Inr by blast
  with that pb ib show ?thesis by blast
qed

section \<open>Parsing a reservation\<close>

lemma reservation_lookups:
  assumes "kvs = input_reservation sha i pb ib"
  shows "lookup kvs (js ''created_at'') = JStr (ri_created_at i)" "lookup kvs (js ''expires_at'') = JStr (ri_expires_at i)"
    "lookup kvs (js ''head'') = input_head i" "lookup kvs (js ''head_proof'') = ri_head_proof i"
    "lookup kvs (js ''intent_sha256'') = JStr (ri_intent_sha256 i)"
    "lookup kvs (js ''operation'') = JStr ACTIVATION_PROOF" "lookup kvs (js ''replay'') = input_replay i"
    "lookup kvs (js ''request_id'') = JStr (ri_request_id i)" "lookup kvs (js ''schema'') = JStr RESERVATION_SCHEMA"
    "lookup kvs (js ''schema_version'') = JI 1" "lookup kvs (js ''reservation_id'') = JStr (sha256_tag sha ib)"
    "set (map fst kvs) = js ` set RESERVATION_FIELDS"
  by (simp_all add: assms input_reservation_def reservation_members_def lookup_def)
    (auto simp: RESERVATION_FIELDS_def)

lemma input_reservation_well_formed:
  "well_formed (ri_head_proof i) \<Longrightarrow> well_formed (JObj (input_reservation sha i pb ib))"
  by (simp add: input_reservation_def reservation_members_def input_head_def input_replay_def
      reserved_head_json_def replay_json_def JI_def)

lemma reservation_input_same_proof:
  assumes "reservation_input_ok sha i" and "well_formed (ri_head_proof i)" and "well_formed q"
    and "normalise q = normalise (ri_head_proof i)" and "\<And>bs. length (sha bs) = 32"
  shows "reservation_input_ok sha (i\<lparr>ri_head_proof := q\<rparr>)"
proof -
  obtain kvs hkvs where pp: "parse_current_head_proof sha (ri_head_proof i) = Inr (ri_head_proof i)"
    and k: "ri_head_proof i = JObj kvs" "lookup kvs (js ''head'') = JObj hkvs"
      "is_number (lookup hkvs (js ''generation'')) (ri_head_generation i)"
      "lookup hkvs (js ''record_id'') = JStr (ri_head_record_id i)"
      "lookup kvs (js ''record_sha256'') = JStr (ri_head_record_sha256 i)"
    using assms(1) unfolding reservation_input_ok_def by blast
  have qp: "parse_current_head_proof sha q = Inr q"
    by (rule parse_proof_same_value [OF pp assms(2,3,4,5)])
  obtain qvs where q: "q = JObj qvs" using assms(4) k(1) same_JObj by metis
  note same = same_lookup [OF assms(4) [unfolded q k(1)] assms(3) [unfolded q] assms(2) [unfolded k(1)]]
  have nh: "normalise (lookup qvs (js ''head'')) = normalise (JObj hkvs)" using same(1) [of "js ''head''"] by (simp only: k(2))
  then obtain hqvs where h: "lookup qvs (js ''head'') = JObj hqvs" using same_JObj by blast
  have wh: "well_formed (JObj hqvs)" "well_formed (JObj hkvs)"
    using same(3) [of "js ''head''"] h well_formed_lookup [OF assms(2) [unfolded k(1)], of "js ''head''"] k(2) by simp_all
  note same_h = same_lookup [OF nh [unfolded h] wh]
  have "is_number (lookup hqvs (js ''generation'')) (ri_head_generation i)"
  proof -
    obtain n where n: "lookup hkvs (js ''generation'') = JNum n" "is_safe_integer n" "number_int n = ri_head_generation i"
      using k(3) by (cases "lookup hkvs (js ''generation'')") (auto simp: is_number_def)
    have "1 \<le> ri_head_generation i" using assms(1) unfolding reservation_input_ok_def by blast
    then have "n = JInt (ri_head_generation i)" using n by (cases n) (auto simp: number_int_def is_safe_integer_def)
    then have "lookup hqvs (js ''generation'') = JNum n"
      using same_h(1) [of "js ''generation''"] n(1) \<open>1 \<le> ri_head_generation i\<close>
        normalise_leaf(2) [of "ri_head_generation i" "lookup hqvs (js ''generation'')"] by (simp add: JI_def)
    then show ?thesis using n by (simp add: is_number_def)
  qed
  moreover have "lookup hqvs (js ''record_id'') = JStr (ri_head_record_id i)"
    "lookup qvs (js ''record_sha256'') = JStr (ri_head_record_sha256 i)"
    using same_h(1) [of "js ''record_id''"] same(1) [of "js ''record_sha256''"] k by (simp_all add: normalise_leaf)
  ultimately show ?thesis
    using assms(1) qp h unfolding reservation_input_ok_def by (simp add: q)
qed

lemma normalise_members_cong:
  "map (map_prod id normalise) a = map (map_prod id normalise) b \<Longrightarrow> normalise (JObj a) = normalise (JObj b)"
  by simp

text \<open>A value that is a built reservation up to the order of its members parses.\<close>

lemma parse_same_reservation:
  assumes "build_effect_reservation sha i = Inr r" and "well_formed (ri_head_proof i)"
    and "normalise w = normalise r" and "well_formed w" and "\<And>bs. length (sha bs) = 32"
  shows "parse_effect_reservation sha w = Inr w"
proof -
  obtain pb ib where ok: "reservation_input_ok sha i" and pb: "canonical_bytes (ri_head_proof i) = Inr pb"
    and ib: "canonical_bytes (reservation_id_payload (input_head i) (ri_intent_sha256 i)) = Inr ib"
    and r: "r = JObj (input_reservation sha i pb ib)" and size: "effect_size r = Inr ()"
    using assms(1) unfolding build_reservation_eq_Inr by blast
  define rkvs where "rkvs = input_reservation sha i pb ib"
  note rl = reservation_lookups [OF rkvs_def]
  obtain kvs where w: "w = JObj kvs" using assms(3) r same_JObj by metis
  note same = same_lookup [OF assms(3) [unfolded w r] assms(4) [unfolded w] input_reservation_well_formed [OF assms(2)],
      folded rkvs_def]
  have str: "lookup kvs k = JStr s" if "lookup rkvs k = JStr s" for k s
    using same(1) [of k] that by (simp add: normalise_leaf)
  have int: "lookup kvs (js ''schema_version'') = JI 1"
    using same(1) [of "js ''schema_version''"] by (simp add: rl normalise_leaf)
  note lk = str [OF rl(1)] str [OF rl(2)] str [OF rl(5)] str [OF rl(6)] str [OF rl(8)] str [OF rl(9)] int
  define q where "q = lookup kvs (js ''head_proof'')"
  have q: "normalise q = normalise (ri_head_proof i)" "well_formed q"
    using same(1,3) [of "js ''head_proof''"] by (simp_all add: q_def rl)
  define j where "j = i\<lparr>ri_head_proof := q\<rparr>"
  have jok: "reservation_input_ok sha j"
    unfolding j_def by (rule reservation_input_same_proof [OF ok assms(2) q(2,1) assms(5)])
  note o = ok [unfolded reservation_input_ok_def]
  have jq: "parse_current_head_proof sha q = Inr q" using jok by (simp add: reservation_input_ok_def j_def)
  obtain hk where h: "lookup kvs (js ''head'') = JObj hk"
    using same(1) [of "js ''head''"] same_JObj unfolding rl input_head_def reserved_head_json_def by blast
  obtain pk where p: "lookup kvs (js ''replay'') = JObj pk"
    using same(1) [of "js ''replay''"] same_JObj unfolding rl input_replay_def replay_json_def by blast
  have wfi: "well_formed (input_head i)" "well_formed (input_replay i)"
    by (simp_all add: input_head_def reserved_head_json_def input_replay_def replay_json_def JI_def)
  note same_h = same_lookup [OF same(1) [of "js ''head''", unfolded h rl input_head_def reserved_head_json_def]
      same(3) [of "js ''head''", unfolded h] wfi(1) [unfolded input_head_def reserved_head_json_def]]
  note same_p = same_lookup [OF same(1) [of "js ''replay''", unfolded p rl input_replay_def replay_json_def]
      same(3) [of "js ''replay''", unfolded p] wfi(2) [unfolded input_replay_def replay_json_def]]
  have pos: "ri_head_generation i \<noteq> 0" "ri_replay_expires_at i \<noteq> 0" using o by linarith+
  have hl: "lookup hk (js ''generation'') = JI (ri_head_generation i)" "lookup hk (js ''record_id'') = JStr (ri_head_record_id i)"
    "lookup hk (js ''record_sha256'') = JStr (ri_head_record_sha256 i)" "set (map fst hk) = js ` set PREVIOUS_FIELDS"
    using same_h(1) [of "js ''generation''"] same_h(1) [of "js ''record_id''"] same_h(1) [of "js ''record_sha256''"]
      same_h(2) pos by (simp_all add: lookup_def normalise_leaf PREVIOUS_FIELDS_def)
  have pl: "lookup pk (js ''expires_at'') = JI (ri_replay_expires_at i)"
    "lookup pk (js ''claims_sha256'') = JStr (ri_replay_claims_sha256 i)"
    "lookup pk (js ''jti_sha256'') = JStr (ri_replay_jti_sha256 i)" "set (map fst pk) = js ` set REPLAY_FIELDS"
    using same_p(1) [of "js ''expires_at''"] same_p(1) [of "js ''claims_sha256''"] same_p(1) [of "js ''jti_sha256''"]
      same_p(2) pos by (simp_all add: lookup_def normalise_leaf REPLAY_FIELDS_def)
  have jrec: "\<lparr>ri_created_at = ri_created_at i, ri_expires_at = ri_expires_at i, ri_head_generation = ri_head_generation i,
      ri_head_record_id = ri_head_record_id i, ri_head_record_sha256 = ri_head_record_sha256 i, ri_head_proof = q,
      ri_intent_sha256 = ri_intent_sha256 i, ri_replay_claims_sha256 = ri_replay_claims_sha256 i,
      ri_replay_expires_at = ri_replay_expires_at i, ri_replay_jti_sha256 = ri_replay_jti_sha256 i,
      ri_request_id = ri_request_id i\<rparr> = j"
    by (cases i) (simp add: j_def)
  have jm: "input_head j = input_head i" "input_replay j = input_replay i" "ri_intent_sha256 j = ri_intent_sha256 i"
    "ri_head_proof j = q" by (simp_all add: j_def input_head_def input_replay_def)
  have nj: "normalise (JObj (input_reservation sha j pb ib)) = normalise r"
    unfolding r by (rule normalise_members_cong)
      (simp add: input_reservation_def reservation_members_def jm q(1), simp add: j_def)
  have js: "effect_size (JObj (input_reservation sha j pb ib)) = Inr ()"
    using size canonical_bytes_normalise [OF nj] by (simp add: effect_size_def size_check_def)
  have qb: "canonical_bytes q = Inr pb" using pb canonical_bytes_normalise [OF q(1)] by simp
  have b: "build_effect_reservation sha j = Inr (JObj (input_reservation sha j pb ib))"
    unfolding build_reservation_eq_Inr jm by (intro exI [of _ pb] exI [of _ ib] conjI jok qb ib refl js)
  have objs: "exact_object (JObj kvs) RESERVATION_FIELDS = Inr kvs" "exact_object (JObj hk) PREVIOUS_FIELDS = Inr hk"
    "exact_object (JObj pk) REPLAY_FIELDS = Inr pk"
    using same(2) rl(12) hl(4) pl(4) by (simp_all add: exact_object_eq_Inr)
      (simp_all add: RESERVATION_FIELDS_def PREVIOUS_FIELDS_def REPLAY_FIELDS_def)
  have lits: "effect_literal kvs ''schema'' RESERVATION_SCHEMA = Inr ()" "effect_integer kvs ''schema_version'' 1 = Inr ()"
    "effect_literal kvs ''operation'' ACTIVATION_PROOF = Inr ()"
    by (simp_all add: effect_checks literal_check_eq_Inr integer_check_eq_Inr lk RESERVATION_SCHEMA_def
        ACTIVATION_PROOF_def JI_def is_safe_integer_def max_safe_def number_int_def)
  have times: "require_string kvs ''created_at'' 32 (Some TIMESTAMP) = Inr (ri_created_at i)"
    "require_string kvs ''expires_at'' 32 (Some TIMESTAMP) = Inr (ri_expires_at i)"
    using o timestamp_field lk(1,2) by blast+
  have ints: "require_integer hk ''generation'' 1 max_safe = Inr (ri_head_generation i)"
    "require_integer pk ''expires_at'' 1 max_safe = Inr (ri_replay_expires_at i)"
    using o by (simp_all add: require_integer_eq_Inr hl pl JI_def is_safe_integer_def number_int_def)
  have tags: "tagged_field hk ''record_id'' = Inr (ri_head_record_id i)"
    "tagged_field hk ''record_sha256'' = Inr (ri_head_record_sha256 i)"
    "tagged_field kvs ''intent_sha256'' = Inr (ri_intent_sha256 i)"
    "tagged_field pk ''claims_sha256'' = Inr (ri_replay_claims_sha256 i)"
    "tagged_field pk ''jti_sha256'' = Inr (ri_replay_jti_sha256 i)"
    using o by (simp_all add: tagged_field_eq_Inr hl pl lk)
  have "matches REQUEST_ID (ri_request_id i)" using o by blast
  then have req: "require_string kvs ''request_id'' 128 (Some REQUEST_ID) = Inr (ri_request_id i)"
    using REQUEST_ID_length [of "ri_request_id i"] by (auto simp: require_string_eq_Inr lk)
  obtain t where t: "canonical_json r = Inr t"
    using size by (auto simp: effect_size_def size_check_eq_Inr canonical_bytes_def bind_r_eq_Inr)
  then have ts: "canonical_json (JObj kvs) = Inr t" "canonical_json (JObj (input_reservation sha j pb ib)) = Inr t"
    using canonical_json_normalise [of "JObj kvs"] canonical_json_normalise [of r] assms(3) w nj
      canonical_json_normalise [of "JObj (input_reservation sha j pb ib)"] by simp_all
  show ?thesis
    unfolding parse_effect_reservation_def w objs bind_r.simps lits h p times ints tags q_def [symmetric] jq req jrec b ts
    by simp
qed

text \<open>What a parse has shown, with the input the reservation was rebuilt from.\<close>

lemma parsed_reservation_form:
  assumes "parse_effect_reservation sha v = Inr r" and "well_formed v"
  obtains i kvs hk pk pb ib where "v = JObj kvs" "r = v" "reservation_input_ok sha i" "well_formed (ri_head_proof i)"
    "canonical_bytes (reservation_id_payload (input_head i) (ri_intent_sha256 i)) = Inr ib"
    "build_effect_reservation sha i = Inr (JObj (input_reservation sha i pb ib))"
    "normalise v = normalise (JObj (input_reservation sha i pb ib))"
    "lookup kvs (js ''created_at'') = JStr (ri_created_at i)" "lookup kvs (js ''expires_at'') = JStr (ri_expires_at i)"
    "lookup kvs (js ''request_id'') = JStr (ri_request_id i)" "lookup kvs (js ''intent_sha256'') = JStr (ri_intent_sha256 i)"
    "lookup kvs (js ''reservation_id'') = JStr (sha256_tag sha ib)" "lookup kvs (js ''head_proof'') = ri_head_proof i"
    "lookup kvs (js ''head'') = JObj hk" "is_number (lookup hk (js ''generation'')) (ri_head_generation i)"
    "lookup hk (js ''record_id'') = JStr (ri_head_record_id i)"
    "lookup hk (js ''record_sha256'') = JStr (ri_head_record_sha256 i)"
    "lookup kvs (js ''replay'') = JObj pk" "is_number (lookup pk (js ''expires_at'')) (ri_replay_expires_at i)"
    "lookup pk (js ''claims_sha256'') = JStr (ri_replay_claims_sha256 i)"
    "lookup pk (js ''jti_sha256'') = JStr (ri_replay_jti_sha256 i)"
    "\<exists>t. canonical_json v = Inr t"
proof -
  show ?thesis
    using assms(1) unfolding parse_effect_reservation_def
    apply (elim bind_r_InrE)
    subgoal premises p for kvs _ _ _ hk pk created expires gen rid rsha hproof intent claims rexp jti req rebuilt t t' _
    proof -
      have v: "v = JObj kvs" using p(1) by (simp add: exact_object_eq_Inr)
      let ?i = "\<lparr>ri_created_at = created, ri_expires_at = expires, ri_head_generation = gen, ri_head_record_id = rid,
          ri_head_record_sha256 = rsha, ri_head_proof = hproof, ri_intent_sha256 = intent,
          ri_replay_claims_sha256 = claims, ri_replay_expires_at = rexp, ri_replay_jti_sha256 = jti,
          ri_request_id = req\<rparr>"
      obtain pb ib where b: "reservation_input_ok sha ?i"
        "canonical_bytes (reservation_id_payload (input_head ?i) (ri_intent_sha256 ?i)) = Inr ib"
        "rebuilt = JObj (input_reservation sha ?i pb ib)"
        using p(18) unfolding build_reservation_eq_Inr by blast
      have t: "t' = t" using p(21) by (simp add: assert_js_eq_Inr)
      have hp: "lookup kvs (js ''head_proof'') = hproof" using parse_proof_same [OF p(12)] by simp
      have wp: "well_formed hproof" using well_formed_lookup [of kvs "js ''head_proof''"] assms(2) by (simp add: v hp)
      have wr: "well_formed rebuilt" unfolding b(3) by (rule input_reservation_well_formed) (simp add: wp)
      have n: "normalise v = normalise (JObj (input_reservation sha ?i pb ib))"
        using same_text_normalise [OF p(19) p(20) [unfolded t] assms(2) wr] b(3) by simp
      have id: "lookup kvs (js ''reservation_id'') = JStr (sha256_tag sha ib)"
        using same_lookup(1) [OF n [unfolded v] assms(2) [unfolded v] wr [unfolded b(3)], of "js ''reservation_id''"]
          reservation_lookups(11) [OF refl, of sha ?i pb ib] by (simp add: normalise_leaf)
      note f = p(5,6) [unfolded exact_object_eq_Inr] p(7,8,17) [unfolded require_string_eq_Inr]
        p(9,15) [unfolded require_integer_eq_Inr] p(10,11,13,14,16) [unfolded tagged_field_eq_Inr]
      have num: "is_number (lookup hk (js ''generation'')) gen" "is_number (lookup pk (js ''expires_at'')) rexp"
        using f(6,7) by (auto simp: is_number_def)
      have r: "r = v" using p(22) by simp
      have b': "build_effect_reservation sha ?i = Inr (JObj (input_reservation sha ?i pb ib))" using p(18) b(3) by simp
      have wp': "well_formed (ri_head_proof ?i)" using wp by simp
      show ?thesis
        by (rule that [OF v r b(1) wp' b(2) b' n])
          (use f num id hp p(19) in \<open>simp_all only: reservation_input.select_convs\<close>, auto)
    qed
    done
qed

section \<open>The identifier\<close>

lemma id_payload_fields:
  assumes "normalise (reservation_id_payload (reserved_head_json n a b) c) =
      normalise (reservation_id_payload (reserved_head_json n' a' b') c')"
  shows "n = n' \<and> a = a' \<and> b = b' \<and> c = c'"
proof -
  let ?k = "\<lambda>n a b c. [(js ''head'', reserved_head_json n a b), (js ''intent_sha256'', JStr c),
      (js ''operation'', JStr ACTIVATION_PROOF), (js ''schema'', JStr RESERVATION_ID_SCHEMA), (js ''schema_version'', JI 1)]"
  let ?h = "\<lambda>n a b. [(js ''generation'', JI n), (js ''record_id'', JStr a), (js ''record_sha256'', JStr b)]"
  have wf: "well_formed (JObj (?k n a b c))" "well_formed (JObj (?h n a b))" for n a b c
    by (simp_all add: reserved_head_json_def JI_def)
  note same = same_lookup(1) [OF assms [unfolded reservation_id_payload_def] wf(1,1)]
  have c: "c = c'" using same [of "js ''intent_sha256''"] by (simp add: lookup_def)
  have "normalise (JObj (?h n a b)) = normalise (JObj (?h n' a' b'))"
    using same [of "js ''head''"] by (simp only: lookup_def map_of.simps fst_conv snd_conv if_True refl option.case
        fun_upd_same reserved_head_json_def)
  note same_h = same_lookup(1) [OF this wf(2,2)]
  have "n = n'" "a = a'" "b = b'"
    using same_h [of "js ''generation''"] same_h [of "js ''record_id''"] same_h [of "js ''record_sha256''"]
    by (simp_all add: lookup_def JI_def)
  with c show ?thesis by simp
qed

section \<open>A sample reservation\<close>

definition sample_reservation_input :: reservation_input where
  "sample_reservation_input = \<lparr>ri_created_at = sample_time, ri_expires_at = iso_string 1767225630000,
     ri_head_generation = 1, ri_head_record_id = zero_digest, ri_head_record_sha256 = zero_digest,
     ri_head_proof = JObj (input_proof sample_proof_input), ri_intent_sha256 = zero_digest,
     ri_replay_claims_sha256 = zero_digest, ri_replay_expires_at = 1767225700, ri_replay_jti_sha256 = zero_digest,
     ri_request_id = js ''request-1''\<rparr>"

lemma sample_expiry:
  "date_parse (iso_string 1767225630000) = Some 1767225630000"
  "is_canonical_time (iso_string 1767225630000)"
  by (rule date_parse_iso_string canonical_time_iso_string;
      simp add: year_of_ms_def year_from_day_def day_from_year_def Let_def)+

lemma sample_proof_parses:
  "parse_current_head_proof zero_sha (JObj (input_proof sample_proof_input)) = Inr (JObj (input_proof sample_proof_input))"
  by (rule parse_input_proof [OF sample_proof_ok sample_head_well_formed zero_sha_length])

lemma sample_proof_well_formed: "well_formed (JObj (input_proof sample_proof_input))"
  by (rule input_proof_well_formed [OF _ sample_head_well_formed]) (simp add: sample_proof_input_def)

lemma sample_reservation_input_ok: "reservation_input_ok zero_sha sample_reservation_input"
proof -
  have "matches REQUEST_ID (js ''request-1'')" by (simp add: REQUEST_ID_def js_def)
  moreover have "lookup (input_proof sample_proof_input) (js ''head'') = JObj sample_head_members"
    "lookup (input_proof sample_proof_input) (js ''record_sha256'') = JStr zero_digest"
    using proof_lookups [OF input_proof_def [of sample_proof_input]]
    by (simp_all add: sample_proof_input_def sample_head_worm_def)
  ultimately show ?thesis
    using sample_proof_parses
    by (simp add: reservation_input_ok_def sample_reservation_input_def sample_head_lookups is_number_def JI_def
        is_safe_integer_def number_int_def max_safe_def sample_time_canonical sample_expiry zero_digest_props
        assert_window_eq_Inr sample_times)
qed

lemma sample_input_proof_well_formed: "well_formed (ri_head_proof sample_reservation_input)"
  using sample_proof_well_formed by (simp add: sample_reservation_input_def)

lemma sample_reservation_built:
  obtains pb ib where "canonical_bytes (reservation_id_payload (input_head sample_reservation_input) zero_digest) = Inr ib"
    "build_effect_reservation zero_sha sample_reservation_input =
      Inr (JObj (input_reservation zero_sha sample_reservation_input pb ib))"
  by (rule build_reservation_total [where sha = zero_sha, OF sample_reservation_input_ok sample_input_proof_well_formed zero_sha_length])
    (simp add: sample_reservation_input_def)

section \<open>Properties\<close>

text \<open>C18: A built reservation parses, whatever order transport gives its members, as long as it is the same
  value; so what the store keeps as canonical bytes reads back as a reservation.\<close>

theorem built_reservation_parses:
  assumes "build_effect_reservation sha i = Inr r" and "well_formed (ri_head_proof i)"
    and "normalise w = normalise r" and "well_formed w" and "\<And>bs. length (sha bs) = 32"
  shows "parse_effect_reservation sha w = Inr w"
  by (rule parse_same_reservation [OF assms])

theorem built_reservation_parses_witness:
  "\<exists>pb ib. parse_effect_reservation zero_sha (normalise (JObj (input_reservation zero_sha sample_reservation_input pb ib))) =
     Inr (normalise (JObj (input_reservation zero_sha sample_reservation_input pb ib)))"
proof -
  obtain pb ib where b: "build_effect_reservation zero_sha sample_reservation_input =
      Inr (JObj (input_reservation zero_sha sample_reservation_input pb ib))"
    by (rule sample_reservation_built)
  note w = input_reservation_well_formed [OF sample_input_proof_well_formed, of zero_sha pb ib]
  from built_reservation_parses [OF b sample_input_proof_well_formed normalise_idem normalise_well_formed [OF w] zero_sha_length]
  show ?thesis by blast
qed

text \<open>The reservation identifier binds exactly the head and the intent: reservations for one head and
  one intent have one identifier, whatever their times, proof and replay use; and reservations with one
  identifier, unless SHA-256 collides on their preimages, name one head and one intent.\<close>

theorem reservation_id_binds_head_and_intent:
  assumes "parse_effect_reservation sha v = Inr v" and "parse_effect_reservation sha w = Inr w"
    and "well_formed v" and "well_formed w"
    and "json_get v (js ''head'') = reserved_head_json n a b" and "json_get v (js ''intent_sha256'') = JStr c"
    and "json_get w (js ''head'') = reserved_head_json n' a' b'" and "json_get w (js ''intent_sha256'') = JStr c'"
    and "\<And>bs bs'. canonical_bytes (reservation_id_payload (reserved_head_json n a b) c) = Inr bs \<Longrightarrow>
        canonical_bytes (reservation_id_payload (reserved_head_json n' a' b') c') = Inr bs' \<Longrightarrow>
        sha bs = sha bs' \<Longrightarrow> bs = bs'"
  shows "json_get v (js ''reservation_id'') = json_get w (js ''reservation_id'') \<longleftrightarrow>
     n = n' \<and> a = a' \<and> b = b' \<and> c = c'"
proof -
  have form: "\<exists>bs. canonical_bytes (reservation_id_payload (reserved_head_json n a b) c) = Inr bs \<and>
      json_get v (js ''reservation_id'') = JStr (sha256_tag sha bs)"
    if h: "parse_effect_reservation sha v = Inr v" "well_formed v" "json_get v (js ''head'') = reserved_head_json n a b"
      "json_get v (js ''intent_sha256'') = JStr c" for v n a b c
  proof -
    obtain i kvs hk ib where k: "v = JObj kvs" and ok: "reservation_input_ok sha i"
      and ib: "canonical_bytes (reservation_id_payload (input_head i) (ri_intent_sha256 i)) = Inr ib"
      and l: "lookup kvs (js ''intent_sha256'') = JStr (ri_intent_sha256 i)"
      "lookup kvs (js ''reservation_id'') = JStr (sha256_tag sha ib)" "lookup kvs (js ''head'') = JObj hk"
      "is_number (lookup hk (js ''generation'')) (ri_head_generation i)"
      "lookup hk (js ''record_id'') = JStr (ri_head_record_id i)"
      "lookup hk (js ''record_sha256'') = JStr (ri_head_record_sha256 i)"
      by (rule parsed_reservation_form [OF h(1,2)])
    have "input_head i = reserved_head_json n a b" "ri_intent_sha256 i = c"
      using l h(3,4) by (auto simp: k json_get_def reserved_head_json_def input_head_def lookup_def is_number_def
          JI_def number_int_def)
    with ib l(2) show ?thesis by (auto simp: k json_get_def)
  qed
  obtain bs where bs: "canonical_bytes (reservation_id_payload (reserved_head_json n a b) c) = Inr bs"
    "json_get v (js ''reservation_id'') = JStr (sha256_tag sha bs)"
    using form [OF assms(1,3,5,6)] by blast
  obtain bs' where bs': "canonical_bytes (reservation_id_payload (reserved_head_json n' a' b') c') = Inr bs'"
    "json_get w (js ''reservation_id'') = JStr (sha256_tag sha bs')"
    using form [OF assms(2,4,7,8)] by blast
  have wf: "well_formed (reservation_id_payload (reserved_head_json n a b) c)" for n a b c
    by (simp add: reservation_id_payload_def reserved_head_json_def JI_def)
  show ?thesis
  proof
    assume "json_get v (js ''reservation_id'') = json_get w (js ''reservation_id'')"
    then have "sha bs = sha bs'"
      using bs(2) bs'(2) hex_bytes_inj by (simp add: sha256_tag_def sha256_hex_def)
    then have "bs = bs'" using assms(9) bs(1) bs'(1) by blast
    then have "normalise (reservation_id_payload (reserved_head_json n a b) c) =
        normalise (reservation_id_payload (reserved_head_json n' a' b') c')"
      using bs(1) bs'(1) canonical_bytes_inj wf by blast
    then show "n = n' \<and> a = a' \<and> b = b' \<and> c = c'" by (rule id_payload_fields)
  next
    assume "n = n' \<and> a = a' \<and> b = b' \<and> c = c'"
    then show "json_get v (js ''reservation_id'') = json_get w (js ''reservation_id'')"
      using bs bs' by simp
  qed
qed

theorem reservation_id_binds_head_and_intent_witness:
  "\<exists>v. parse_effect_reservation zero_sha v = Inr v \<and>
     json_get v (js ''reservation_id'') = json_get v (js ''reservation_id'')"
proof -
  obtain pb ib where b: "build_effect_reservation zero_sha sample_reservation_input =
      Inr (JObj (input_reservation zero_sha sample_reservation_input pb ib))"
    by (rule sample_reservation_built)
  let ?v = "JObj (input_reservation zero_sha sample_reservation_input pb ib)"
  note w = input_reservation_well_formed [OF sample_input_proof_well_formed, of zero_sha pb ib]
  have p: "parse_effect_reservation zero_sha ?v = Inr ?v"
    by (rule parse_same_reservation [OF b sample_input_proof_well_formed refl w zero_sha_length])
  have l: "json_get ?v (js ''head'') = reserved_head_json 1 zero_digest zero_digest"
    "json_get ?v (js ''intent_sha256'') = JStr zero_digest"
    using reservation_lookups [OF refl, of zero_sha sample_reservation_input pb ib]
    by (simp_all add: json_get_def input_head_def sample_reservation_input_def)
  have "json_get ?v (js ''reservation_id'') = json_get ?v (js ''reservation_id'') \<longleftrightarrow>
      (1::int) = 1 \<and> zero_digest = zero_digest \<and> zero_digest = zero_digest \<and> zero_digest = zero_digest"
    by (rule reservation_id_binds_head_and_intent [OF p p w w l l]) simp
  with p show ?thesis by blast
qed

end
