(* ===== verification/AuthorityStorage.thy ===== *)
theory AuthorityStorage imports EffectReservation begin

text \<open>
  The durable storage of the account-global authority object: the table of heads
  (\<open>activated-authority-head-store.ts\<close>) and the table of effect reservations
  (\<open>activated-authority-effect-storage.ts\<close>), with the constraints their \<open>CREATE TABLE\<close> and
  \<open>CREATE UNIQUE INDEX\<close> statements declare. Both stores work on the one storage.
\<close>

datatype mirror_state = M_PREPARED | M_DISPATCHED_HOLD | M_CONFIRMED

record head_row =
  hr_activated_record_id :: js_string
  hr_activated_record_sha256 :: js_string
  hr_activated_service_authorities_sha256 :: js_string
  hr_canonical_bytes :: bytes
  hr_committed_at :: js_string
  hr_generation :: int
  hr_ingress_worker_version_id :: js_string
  hr_mirror_state :: mirror_state
  hr_record_id :: js_string
  hr_record_sha256 :: js_string
  hr_request_digest :: js_string
  hr_worm_key :: "js_string option"
  hr_worm_retention_until :: "js_string option"
  hr_worm_version_id :: "js_string option"

definition head_row_ok :: "head_row \<Rightarrow> bool" where
  "head_row_ok r \<longleftrightarrow>
     1 \<le> hr_generation r \<and> 1 \<le> length (hr_canonical_bytes r) \<and> length (hr_canonical_bytes r) \<le> 65536 \<and>
     (hr_mirror_state r \<noteq> M_CONFIRMED \<and> hr_worm_key r = None \<and> hr_worm_version_id r = None \<and>
        hr_worm_retention_until r = None \<or>
      hr_mirror_state r = M_CONFIRMED \<and> hr_worm_key r \<noteq> None \<and> hr_worm_version_id r \<noteq> None \<and>
        hr_worm_retention_until r \<noteq> None)"

definition is_pending :: "head_row \<Rightarrow> bool" where
  "is_pending r \<longleftrightarrow> hr_mirror_state r \<noteq> M_CONFIRMED"

definition heads_ok :: "head_row list \<Rightarrow> bool" where
  "heads_ok t \<longleftrightarrow>
     distinct (map hr_generation t) \<and> distinct (map hr_request_digest t) \<and> distinct (map hr_record_id t) \<and>
     distinct (map hr_record_sha256 t) \<and> distinct (map hr_activated_record_id t) \<and>
     distinct (map hr_activated_record_sha256 t) \<and> distinct (map hr_ingress_worker_version_id t) \<and>
     list_all head_row_ok t \<and> length (filter is_pending t) \<le> 1"

datatype effect_status =
    E_CANCELLED_UNDISPATCHED | E_CONFIRMED | E_DISPATCHED_HOLD | E_EXPIRED_UNDISPATCHED | E_RESERVED | E_SEALED

record effect_row =
  ef_canonical_bytes :: bytes
  ef_created_at :: js_string
  ef_expires_at :: js_string
  ef_head_generation :: int
  ef_head_record_id :: js_string
  ef_head_record_sha256 :: js_string
  ef_intent_sha256 :: js_string
  ef_operation :: js_string
  ef_request_id :: js_string
  ef_reservation_id :: js_string
  ef_result_bytes :: "bytes option"
  ef_result_sha256 :: "js_string option"
  ef_status :: effect_status

definition authority_effect_ok :: "effect_row \<Rightarrow> bool" where
  "authority_effect_ok r \<longleftrightarrow>
     1 \<le> length (ef_canonical_bytes r) \<and> length (ef_canonical_bytes r) \<le> 65536 \<and>
     ef_operation r = ACTIVATION_PROOF \<and>
     (case ef_result_bytes r of None \<Rightarrow> True | Some bs \<Rightarrow> 1 \<le> length bs \<and> length bs \<le> 65536) \<and>
     (ef_status r \<in> {E_SEALED, E_DISPATCHED_HOLD, E_CONFIRMED} \<and> ef_result_bytes r \<noteq> None \<and> ef_result_sha256 r \<noteq> None \<or>
      ef_status r \<in> {E_RESERVED, E_EXPIRED_UNDISPATCHED, E_CANCELLED_UNDISPATCHED} \<and>
        ef_result_bytes r = None \<and> ef_result_sha256 r = None)"

definition effects_ok :: "effect_row list \<Rightarrow> bool" where
  "effects_ok t \<longleftrightarrow>
     distinct (map ef_reservation_id t) \<and> distinct (map ef_intent_sha256 t) \<and> distinct (map ef_request_id t) \<and>
     list_all authority_effect_ok t"

record authority_storage =
  as_heads :: "head_row list"
  as_effects :: "effect_row list"

definition empty_authority_storage :: authority_storage where
  "empty_authority_storage = \<lparr>as_heads = [], as_effects = []\<rparr>"

definition storage_ok :: "authority_storage \<Rightarrow> bool" where
  "storage_ok s \<longleftrightarrow> heads_ok (as_heads s) \<and> effects_ok (as_effects s)"

interpretation heads: unique_table heads_ok hr_generation
  by unfold_locales (simp add: heads_ok_def)

interpretation heads_request: unique_table heads_ok hr_request_digest
  by unfold_locales (simp add: heads_ok_def)

interpretation effects: unique_table effects_ok ef_reservation_id
  by unfold_locales (simp add: effects_ok_def)

interpretation effects_intent: unique_table effects_ok ef_intent_sha256
  by unfold_locales (simp add: effects_ok_def)

definition write_heads :: "authority_storage \<Rightarrow> head_row list \<Rightarrow> authority_storage result" where
  "write_heads s t = bind_r (write_table heads_ok t) (\<lambda>t'. Inr (s\<lparr>as_heads := t'\<rparr>))"

definition write_effect_rows :: "authority_storage \<Rightarrow> effect_row list \<Rightarrow> authority_storage result" where
  "write_effect_rows s t = bind_r (write_table effects_ok t) (\<lambda>t'. Inr (s\<lparr>as_effects := t'\<rparr>))"

lemma write_heads_eq_Inr [result_simps]: "write_heads s t = Inr u \<longleftrightarrow> heads_ok t \<and> u = s\<lparr>as_heads := t\<rparr>"
  by (auto simp: write_heads_def result_simps)

lemma write_effect_rows_eq_Inr [result_simps]: "write_effect_rows s t = Inr u \<longleftrightarrow> effects_ok t \<and> u = s\<lparr>as_effects := t\<rparr>"
  by (auto simp: write_effect_rows_def result_simps)

section \<open>Stored bytes and fields\<close>

definition decode_effect_bytes :: "bytes \<Rightarrow> js_string result" where
  "decode_effect_bytes bs = (case text_decode bs of None \<Rightarrow> Inl (Native TypeError) | Some t \<Rightarrow> Inr t)"

definition decode_nullable_effect_bytes :: "bytes option \<Rightarrow> js_string option result" where
  "decode_nullable_effect_bytes v =
     (case v of None \<Rightarrow> Inr None | Some bs \<Rightarrow> bind_r (decode_effect_bytes bs) (\<lambda>t. Inr (Some t)))"

definition required_effect_object :: "json \<Rightarrow> string \<Rightarrow> json result" where
  "required_effect_object v key =
     (if is_json_object (json_get v (js key)) then Inr (json_get v (js key))
      else Inl (broker ''ACTIVATED_AUTHORITY_EFFECT_RESERVATION_INVALID'' 409 False))"

definition required_effect_string :: "json \<Rightarrow> string \<Rightarrow> js_string result" where
  "required_effect_string v key =
     (case json_get v (js key) of JStr s \<Rightarrow> Inr s
      | _ \<Rightarrow> Inl (broker ''ACTIVATED_AUTHORITY_EFFECT_RESERVATION_INVALID'' 409 False))"

definition required_effect_number :: "json \<Rightarrow> string \<Rightarrow> int result" where
  "required_effect_number v key =
     (case json_get v (js key) of
        JNum n \<Rightarrow> if is_safe_integer n then Inr (number_int n)
                  else Inl (broker ''ACTIVATED_AUTHORITY_EFFECT_RESERVATION_INVALID'' 409 False)
      | _ \<Rightarrow> Inl (broker ''ACTIVATED_AUTHORITY_EFFECT_RESERVATION_INVALID'' 409 False))"

lemma required_effect_eq_Inr [result_simps]:
  "required_effect_object v k = Inr w \<longleftrightarrow> w = json_get v (js k) \<and> is_json_object w"
  "required_effect_string v k = Inr s \<longleftrightarrow> json_get v (js k) = JStr s"
  "required_effect_number v k = Inr n \<longleftrightarrow> is_number (json_get v (js k)) n"
  by (auto simp: required_effect_object_def required_effect_string_def required_effect_number_def is_number_def
      split: json.splits)

end
