(* ===== verification/HeadStore.thy ===== *)
theory HeadStore imports AuthorityStorage begin

text \<open>
  The store of heads, \<open>ActivatedAuthorityHeadStore\<close>: a head is reserved, its WORM mirror dispatched and
  confirmed. Heads are appended one generation at a time, each linked to the one before.
\<close>

section \<open>Queries\<close>

definition find_head :: "int \<Rightarrow> authority_storage \<Rightarrow> head_row option" where
  "find_head gen s = first_row (filter (\<lambda>r. hr_generation r = gen) (as_heads s))"

definition find_by_request :: "js_string \<Rightarrow> authority_storage \<Rightarrow> head_row option" where
  "find_by_request digest s = first_row (filter (\<lambda>r. hr_request_digest r = digest) (as_heads s))"

definition current_head :: "authority_storage \<Rightarrow> head_row option" where
  "current_head s =
     first_row (rev (sort_key hr_generation (filter (\<lambda>r. hr_mirror_state r = M_CONFIRMED) (as_heads s))))"

definition pending_head :: "authority_storage \<Rightarrow> head_row option" where
  "pending_head s = first_row (filter is_pending (as_heads s))"

definition require_head :: "int \<Rightarrow> authority_storage \<Rightarrow> head_row result" where
  "require_head gen s =
     (case find_head gen s of
        None \<Rightarrow> Inl (broker ''ACTIVATED_AUTHORITY_HEAD_MISSING'' 503 False) | Some r \<Rightarrow> Inr r)"

definition unfinished_effect_row :: "effect_row \<Rightarrow> bool" where
  "unfinished_effect_row r \<longleftrightarrow> ef_status r \<in> {E_RESERVED, E_SEALED, E_DISPATCHED_HOLD}"

definition has_nonterminal_effect :: "authority_storage \<Rightarrow> bool" where
  "has_nonterminal_effect s \<longleftrightarrow> length (filter unfinished_effect_row (as_effects s)) > 0"

definition has_activated_record :: "js_string \<Rightarrow> js_string \<Rightarrow> authority_storage \<Rightarrow> bool" where
  "has_activated_record record_id record_sha256 s \<longleftrightarrow>
     length (filter (\<lambda>r. hr_activated_record_id r = record_id \<or> hr_activated_record_sha256 r = record_sha256)
       (as_heads s)) > 0"

definition has_ingress_version :: "js_string \<Rightarrow> authority_storage \<Rightarrow> bool" where
  "has_ingress_version version s \<longleftrightarrow>
     length (filter (\<lambda>r. hr_ingress_worker_version_id r = version) (as_heads s)) > 0"

section \<open>Reserving a head\<close>

record head_reservation =
  hv_activated_record_id :: js_string
  hv_activated_record_sha256 :: js_string
  hv_activated_service_authorities_sha256 :: js_string
  hv_committed_at :: js_string
  hv_generation :: int
  hv_head :: json
  hv_ingress_worker_version_id :: js_string
  hv_record_id :: js_string
  hv_record_sha256 :: js_string
  hv_request_digest :: js_string

definition assert_same_reserved_head :: "head_row \<Rightarrow> head_reservation \<Rightarrow> unit result" where
  "assert_same_reserved_head row i =
     bind_r (require_r
         (hr_generation row = hv_generation i \<and> hr_record_id row = hv_record_id i \<and>
          hr_record_sha256 row = hv_record_sha256 i \<and> hr_activated_record_id row = hv_activated_record_id i \<and>
          hr_activated_record_sha256 row = hv_activated_record_sha256 i \<and>
          hr_activated_service_authorities_sha256 row = hv_activated_service_authorities_sha256 i \<and>
          hr_committed_at row = hv_committed_at i)
         (broker ''ACTIVATED_AUTHORITY_HEAD_APPEND_CONFLICT'' 409 False)) (\<lambda>_.
     bind_r (decode_effect_bytes (hr_canonical_bytes row)) (\<lambda>stored.
     bind_r (canonical_json (hv_head i)) (\<lambda>t.
       require_r (stored = t \<and> hr_ingress_worker_version_id row = hv_ingress_worker_version_id i)
         (broker ''ACTIVATED_AUTHORITY_HEAD_APPEND_CONFLICT'' 409 False))))"

definition assert_previous :: "json \<Rightarrow> head_row option \<Rightarrow> unit result" where
  "assert_previous v current =
     (case current of
        None \<Rightarrow> require_r (v = JStr (js ''GENESIS'')) (broker ''ACTIVATED_AUTHORITY_HEAD_PREVIOUS_INVALID'' 409 False)
      | Some row \<Rightarrow>
          (case v of
             JObj kvs \<Rightarrow>
               require_r
                 (set (map fst kvs) = js ` set PREVIOUS_FIELDS \<and>
                  is_number (lookup kvs (js ''generation'')) (hr_generation row) \<and>
                  lookup kvs (js ''record_id'') = JStr (hr_record_id row) \<and>
                  lookup kvs (js ''record_sha256'') = JStr (hr_record_sha256 row))
                 (broker ''ACTIVATED_AUTHORITY_HEAD_PREVIOUS_INVALID'' 409 False)
           | _ \<Rightarrow> Inl (broker ''ACTIVATED_AUTHORITY_HEAD_PREVIOUS_INVALID'' 409 False)))"

definition expired_undispatched :: "effect_row \<Rightarrow> effect_row" where
  "expired_undispatched r =
     r\<lparr>ef_status := E_EXPIRED_UNDISPATCHED, ef_result_bytes := None, ef_result_sha256 := None\<rparr>"

definition prepared_head :: "head_reservation \<Rightarrow> bytes \<Rightarrow> head_row" where
  "prepared_head i bs =
     \<lparr>hr_activated_record_id = hv_activated_record_id i, hr_activated_record_sha256 = hv_activated_record_sha256 i,
      hr_activated_service_authorities_sha256 = hv_activated_service_authorities_sha256 i,
      hr_canonical_bytes = bs, hr_committed_at = hv_committed_at i, hr_generation = hv_generation i,
      hr_ingress_worker_version_id = hv_ingress_worker_version_id i, hr_mirror_state = M_PREPARED,
      hr_record_id = hv_record_id i, hr_record_sha256 = hv_record_sha256 i,
      hr_request_digest = hv_request_digest i, hr_worm_key = None, hr_worm_retention_until = None,
      hr_worm_version_id = None\<rparr>"

definition reserve_body ::
    "int \<Rightarrow> head_reservation \<Rightarrow> bytes \<Rightarrow> authority_storage \<Rightarrow> (head_row option \<times> authority_storage) result" where
  "reserve_body now i bs s =
     (case find_by_request (hv_request_digest i) s of
        Some row \<Rightarrow> bind_r (assert_same_reserved_head row i) (\<lambda>_. Inr (Some row, s))
      | None \<Rightarrow>
          bind_r (to_iso_string now) (\<lambda>now_text.
          bind_r (write_effect_rows s (update_where (\<lambda>r. ef_status r \<in> {E_RESERVED, E_SEALED} \<and> ef_expires_at r < now_text)
              expired_undispatched (as_effects s))) (\<lambda>t.
          bind_r (require_r (pending_head t = None \<and> \<not> has_nonterminal_effect t)
              (broker ''ACTIVATED_AUTHORITY_HEAD_ADVANCE_BLOCKED'' 409 False)) (\<lambda>_.
          bind_r (require_r (\<not> has_activated_record (hv_activated_record_id i) (hv_activated_record_sha256 i) t \<and>
                \<not> has_ingress_version (hv_ingress_worker_version_id i) t)
              (broker ''ACTIVATED_AUTHORITY_HEAD_ROLLBACK_FORBIDDEN'' 409 False)) (\<lambda>_.
          bind_r (require_r
                (hv_generation i = (case current_head t of None \<Rightarrow> 0 | Some r \<Rightarrow> hr_generation r) + 1)
              (broker ''ACTIVATED_AUTHORITY_HEAD_GENERATION_INVALID'' 409 False)) (\<lambda>_.
          bind_r (assert_previous (json_get (hv_head i) (js ''previous'')) (current_head t)) (\<lambda>_.
          bind_r (write_heads t (as_heads t @ [prepared_head i bs])) (\<lambda>u.
            Inr (find_head (hv_generation i) u, u)))))))))"

definition reserve_head :: "hash \<Rightarrow> int \<Rightarrow> head_reservation \<Rightarrow> (authority_storage, head_row) op" where
  "reserve_head sha now i =
     bind_op (lift_op (parse_activated_authority_head sha (hv_head i))) (\<lambda>head.
     bind_op (lift_op (canonical_bytes head)) (\<lambda>bs.
     bind_op (lift_op (require_r (0 < length bs \<and> length bs \<le> BODY_BYTES)
       (broker ''ACTIVATED_AUTHORITY_HEAD_SIZE_INVALID'' 413 False))) (\<lambda>_.
     bind_op (lift_op (exact_object (json_get head (js ''activated'')) [''record_id'', ''record_sha256'', ''worm''])) (\<lambda>activated.
     bind_op (lift_op (canonical_json head)) (\<lambda>head_text.
     bind_op (lift_op (canonical_json (hv_head i))) (\<lambda>input_text.
     bind_op (lift_op (head_record_sha256 sha head)) (\<lambda>record_sha256.
     bind_op (lift_op (require_r
        (head_text = input_text \<and> record_sha256 = hv_record_sha256 i \<and>
         json_get head (js ''record_id'') = JStr (hv_record_id i) \<and>
         lookup activated (js ''record_id'') = JStr (hv_activated_record_id i) \<and>
         lookup activated (js ''record_sha256'') = JStr (hv_activated_record_sha256 i) \<and>
         json_get head (js ''activated_service_authorities_sha256'') =
           JStr (hv_activated_service_authorities_sha256 i) \<and>
         json_get head (js ''ingress_worker_version_id'') = JStr (hv_ingress_worker_version_id i) \<and>
         json_get head (js ''committed_at'') = JStr (hv_committed_at i))
        (broker ''ACTIVATED_AUTHORITY_HEAD_BINDING_INVALID'' 409 False))) (\<lambda>_.
     bind_op (transaction (reserve_body now i bs)) (\<lambda>resolved.
       case resolved of
         None \<Rightarrow> fail_op (broker ''ACTIVATED_AUTHORITY_HEAD_STORE_FAILED'' 500 False)
       | Some row \<Rightarrow> return_op row)))))))))"

section \<open>Mirroring a head\<close>

definition require_op :: "int \<Rightarrow> (authority_storage, head_row) op" where
  "require_op gen = bind_op get_op (\<lambda>s. lift_op (require_head gen s))"

definition mark_dispatched_body :: "int \<Rightarrow> authority_storage \<Rightarrow> (unit \<times> authority_storage) result" where
  "mark_dispatched_body gen s =
     bind_r (require_head gen s) (\<lambda>row.
       if hr_mirror_state row = M_PREPARED then
         bind_r (write_heads s (update_where (\<lambda>r. hr_generation r = gen)
           (\<lambda>r. r\<lparr>hr_mirror_state := M_DISPATCHED_HOLD\<rparr>) (as_heads s))) (\<lambda>t. Inr ((), t))
       else Inr ((), s))"

definition mark_dispatched :: "int \<Rightarrow> (authority_storage, head_row) op" where
  "mark_dispatched gen = bind_op (transaction (mark_dispatched_body gen)) (\<lambda>_. require_op gen)"

definition assert_same_worm :: "head_row \<Rightarrow> activation_worm \<Rightarrow> unit result" where
  "assert_same_worm row worm =
     require_r
       (hr_record_sha256 row = aw_digest worm \<and> hr_worm_key row = Some (aw_key worm) \<and>
        hr_worm_version_id row = Some (aw_version_id worm) \<and>
        hr_worm_retention_until row = Some (aw_retention_until worm))
       (broker ''ACTIVATED_AUTHORITY_HEAD_WORM_CONFLICT'' 409 False)"

definition valid_head_worm :: "activation_worm \<Rightarrow> js_string \<Rightarrow> js_string \<Rightarrow> bool" where
  "valid_head_worm worm expected_key committed_at \<longleftrightarrow>
     aw_key worm = expected_key \<and> matches DIGEST (aw_digest worm) \<and> matches VERSION_ID (aw_version_id worm) \<and>
     matches TIMESTAMP (aw_retention_until worm) \<and> is_canonical_time (aw_retention_until worm) \<and>
     (case (date_parse (aw_retention_until worm), date_parse committed_at) of
        (Some retention, Some committed) \<Rightarrow> \<not> retention < committed + 2557 * 86400000
      | _ \<Rightarrow> True)"

definition confirmed_head :: "activation_worm \<Rightarrow> head_row \<Rightarrow> head_row" where
  "confirmed_head worm r =
     r\<lparr>hr_mirror_state := M_CONFIRMED, hr_worm_key := Some (aw_key worm),
       hr_worm_version_id := Some (aw_version_id worm), hr_worm_retention_until := Some (aw_retention_until worm)\<rparr>"

definition confirm_body :: "int \<Rightarrow> activation_worm \<Rightarrow> authority_storage \<Rightarrow> (unit \<times> authority_storage) result" where
  "confirm_body gen worm s =
     bind_r (require_head gen s) (\<lambda>row.
       if hr_mirror_state row = M_CONFIRMED then bind_r (assert_same_worm row worm) (\<lambda>_. Inr ((), s))
       else
         bind_r (require_r (hr_mirror_state row = M_DISPATCHED_HOLD \<and> hr_record_sha256 row = aw_digest worm)
           (broker ''ACTIVATED_AUTHORITY_HEAD_CONFIRM_INVALID'' 409 False)) (\<lambda>_.
         bind_r (write_heads s (update_where
             (\<lambda>r. hr_generation r = gen \<and> hr_mirror_state r = M_DISPATCHED_HOLD)
             (confirmed_head worm) (as_heads s))) (\<lambda>t. Inr ((), t))))"

definition confirm_head ::
    "(js_string \<Rightarrow> js_number) \<Rightarrow> hash \<Rightarrow> int \<Rightarrow> activation_worm \<Rightarrow> (authority_storage, head_row) op" where
  "confirm_head decimal sha gen worm =
     bind_op (require_op gen) (\<lambda>pending.
     bind_op (lift_op (decode_effect_bytes (hr_canonical_bytes pending))) (\<lambda>t.
     bind_op (lift_op (json_parse decimal t)) (\<lambda>decoded.
     bind_op (lift_op (parse_activated_authority_head sha decoded)) (\<lambda>head.
     bind_op (lift_op (head_key sha head)) (\<lambda>expected_key.
     bind_op (lift_op (require_r (valid_head_worm worm expected_key (hr_committed_at pending))
       (broker ''ACTIVATED_AUTHORITY_HEAD_WORM_CONFLICT'' 409 False))) (\<lambda>_.
     bind_op (transaction (confirm_body gen worm)) (\<lambda>_. require_op gen)))))))"

end
