(* ===== verification/EffectStore.thy ===== *)
theory EffectStore imports HeadStore begin

text \<open>
  The store of effect reservations, \<open>ActivatedAuthorityEffectStore\<close>: an effect is reserved under the
  current head, its result sealed, then dispatched and confirmed. A reservation that was not dispatched
  can expire, be cancelled, and be armed again.
\<close>

section \<open>Queries\<close>

definition find_effect :: "js_string \<Rightarrow> authority_storage \<Rightarrow> effect_row option" where
  "find_effect rid s = first_row (filter (\<lambda>r. ef_reservation_id r = rid) (as_effects s))"

definition require_effect :: "js_string \<Rightarrow> authority_storage \<Rightarrow> effect_row result" where
  "require_effect rid s =
     (case find_effect rid s of
        None \<Rightarrow> Inl (broker ''ACTIVATED_AUTHORITY_EFFECT_MISSING'' 409 False) | Some r \<Rightarrow> Inr r)"

definition require_effect_op :: "js_string \<Rightarrow> (authority_storage, effect_row) op" where
  "require_effect_op rid = bind_op get_op (\<lambda>s. lift_op (require_effect rid s))"

definition pending_head_count :: "authority_storage \<Rightarrow> nat" where
  "pending_head_count s = length (filter is_pending (as_heads s))"

definition stored_reservation ::
    "(js_string \<Rightarrow> js_number) \<Rightarrow> hash \<Rightarrow> effect_row \<Rightarrow> json result" where
  "stored_reservation decimal sha row =
     bind_r (decode_effect_bytes (ef_canonical_bytes row)) (\<lambda>t.
     bind_r (case json_parse decimal t of
         Inl _ \<Rightarrow> Inl (broker ''ACTIVATED_AUTHORITY_EFFECT_STORED_INVALID'' 503 False) | Inr v \<Rightarrow> Inr v) (\<lambda>v.
     bind_r (parse_effect_reservation sha v) (\<lambda>reservation.
     bind_r (canonical_json reservation) (\<lambda>u.
     bind_r (require_r (t = u \<and> json_get reservation (js ''reservation_id'') = JStr (ef_reservation_id row))
       (broker ''ACTIVATED_AUTHORITY_EFFECT_STORED_INVALID'' 503 False)) (\<lambda>_.
       Inr reservation)))))"

definition result_canonical :: "effect_row \<Rightarrow> js_string option result" where
  "result_canonical row = decode_nullable_effect_bytes (ef_result_bytes row)"

section \<open>Reserving\<close>

definition expire_undispatched :: "int \<Rightarrow> authority_storage \<Rightarrow> authority_storage result" where
  "expire_undispatched now s =
     bind_r (to_iso_string now) (\<lambda>now_text.
       write_effect_rows s (update_where (\<lambda>r. ef_status r = E_RESERVED \<and> ef_expires_at r < now_text)
         (\<lambda>r. r\<lparr>ef_status := E_EXPIRED_UNDISPATCHED\<rparr>) (as_effects s)))"

text \<open>Whether the head a row was reserved under is another one than \<open>head\<close>.\<close>

definition other_head :: "effect_row \<Rightarrow> json \<Rightarrow> bool result" where
  "other_head row head =
     bind_r (required_effect_number head ''generation'') (\<lambda>g.
       if ef_head_generation row \<noteq> g then Inr True
       else bind_r (required_effect_string head ''record_id'') (\<lambda>i.
         if ef_head_record_id row \<noteq> i then Inr True
         else bind_r (required_effect_string head ''record_sha256'') (\<lambda>d.
           Inr (ef_head_record_sha256 row \<noteq> d))))"

definition assert_current_head :: "json \<Rightarrow> authority_storage \<Rightarrow> unit result" where
  "assert_current_head head s =
     bind_r (required_effect_number head ''generation'') (\<lambda>g.
       case current_head s of
         None \<Rightarrow> Inl (broker ''ACTIVATED_AUTHORITY_HEAD_STALE'' 409 False)
       | Some current \<Rightarrow>
           if hr_generation current \<noteq> g then Inl (broker ''ACTIVATED_AUTHORITY_HEAD_STALE'' 409 False)
           else bind_r (required_effect_string head ''record_id'') (\<lambda>i.
             if hr_record_id current \<noteq> i then Inl (broker ''ACTIVATED_AUTHORITY_HEAD_STALE'' 409 False)
             else bind_r (required_effect_string head ''record_sha256'') (\<lambda>d.
               require_r (hr_record_sha256 current = d)
                 (broker ''ACTIVATED_AUTHORITY_HEAD_STALE'' 409 False))))"

definition rearmed_effect :: "bytes \<Rightarrow> js_string \<Rightarrow> js_string \<Rightarrow> js_string \<Rightarrow> effect_row \<Rightarrow> effect_row" where
  "rearmed_effect bs request created expires r =
     r\<lparr>ef_canonical_bytes := bs, ef_request_id := request, ef_created_at := created, ef_expires_at := expires,
       ef_status := E_RESERVED, ef_result_bytes := None, ef_result_sha256 := None\<rparr>"

definition replace_undispatched ::
    "effect_row \<Rightarrow> json \<Rightarrow> bytes \<Rightarrow> authority_storage \<Rightarrow> authority_storage result" where
  "replace_undispatched row reservation bs s =
     bind_r (required_effect_object reservation ''head'') (\<lambda>head.
     bind_r (other_head row head) (\<lambda>other.
     bind_r (require_r (\<not> other) (broker ''ACTIVATED_AUTHORITY_EFFECT_REARM_INVALID'' 409 False)) (\<lambda>_.
     bind_r (required_effect_string reservation ''request_id'') (\<lambda>request.
     bind_r (required_effect_string reservation ''created_at'') (\<lambda>created.
     bind_r (required_effect_string reservation ''expires_at'') (\<lambda>expires.
       write_effect_rows s (update_where (\<lambda>r. ef_reservation_id r = ef_reservation_id row)
         (rearmed_effect bs request created expires) (as_effects s))))))))"

definition reserved_effect :: "json \<Rightarrow> json \<Rightarrow> bytes \<Rightarrow> effect_row result" where
  "reserved_effect reservation head bs =
     bind_r (required_effect_string reservation ''reservation_id'') (\<lambda>rid.
     bind_r (required_effect_number head ''generation'') (\<lambda>g.
     bind_r (required_effect_string head ''record_id'') (\<lambda>i.
     bind_r (required_effect_string head ''record_sha256'') (\<lambda>d.
     bind_r (required_effect_string reservation ''intent_sha256'') (\<lambda>intent.
     bind_r (required_effect_string reservation ''request_id'') (\<lambda>request.
     bind_r (required_effect_string reservation ''created_at'') (\<lambda>created.
     bind_r (required_effect_string reservation ''expires_at'') (\<lambda>expires.
       Inr \<lparr>ef_canonical_bytes = bs, ef_created_at = created, ef_expires_at = expires,
            ef_head_generation = g, ef_head_record_id = i, ef_head_record_sha256 = d,
            ef_intent_sha256 = intent, ef_operation = ACTIVATION_PROOF, ef_request_id = request,
            ef_reservation_id = rid, ef_result_bytes = None, ef_result_sha256 = None,
            ef_status = E_RESERVED\<rparr>))))))))"

definition reserve_effect_body ::
    "int \<Rightarrow> json \<Rightarrow> json \<Rightarrow> bytes \<Rightarrow> authority_storage \<Rightarrow> (effect_row option \<times> authority_storage) result" where
  "reserve_effect_body now reservation head bs s =
     bind_r (expire_undispatched now s) (\<lambda>t.
     bind_r (required_effect_string reservation ''reservation_id'') (\<lambda>rid.
       case find_effect rid t of
         Some existing \<Rightarrow>
           bind_r (other_head existing head) (\<lambda>other.
           bind_r (if other then Inr True
                   else bind_r (required_effect_string reservation ''intent_sha256'') (\<lambda>intent.
                     Inr (ef_intent_sha256 existing \<noteq> intent))) (\<lambda>conflict.
             if conflict then Inl (broker ''ACTIVATED_AUTHORITY_EFFECT_CONFLICT'' 409 False)
             else if ef_status existing \<in> {E_RESERVED, E_EXPIRED_UNDISPATCHED, E_CANCELLED_UNDISPATCHED} then
               bind_r (replace_undispatched existing reservation bs t) (\<lambda>u.
                 Inr (find_effect (ef_reservation_id existing) u, u))
             else Inr (Some existing, t)))
       | None \<Rightarrow>
           bind_r (require_r (pending_head_count t = 0)
             (broker ''ACTIVATED_AUTHORITY_HEAD_ADVANCE_PENDING'' 503 True)) (\<lambda>_.
           bind_r (assert_current_head head t) (\<lambda>_.
           bind_r (reserved_effect reservation head bs) (\<lambda>row.
           bind_r (write_effect_rows t (as_effects t @ [row])) (\<lambda>u.
             Inr (find_effect rid u, u)))))))"

definition reserve_effect :: "hash \<Rightarrow> int \<Rightarrow> json \<Rightarrow> (authority_storage, effect_row) op" where
  "reserve_effect sha now v =
     bind_op (lift_op (parse_effect_reservation sha v)) (\<lambda>reservation.
     bind_op (lift_op (required_effect_object reservation ''head'')) (\<lambda>head.
     bind_op (lift_op (canonical_bytes reservation)) (\<lambda>bs.
     bind_op (transaction (reserve_effect_body now reservation head bs)) (\<lambda>resolved.
       case resolved of
         None \<Rightarrow> fail_op (broker ''ACTIVATED_AUTHORITY_EFFECT_STORE_FAILED'' 500 False)
       | Some row \<Rightarrow> return_op row))))"

section \<open>Dispatching, sealing, confirming, cancelling\<close>

definition set_effect ::
    "js_string \<Rightarrow> (effect_row \<Rightarrow> effect_row) \<Rightarrow> authority_storage \<Rightarrow> (unit \<times> authority_storage) result" where
  "set_effect rid f s =
     bind_r (write_effect_rows s (update_where (\<lambda>r. ef_reservation_id r = rid) f (as_effects s))) (\<lambda>t.
       Inr ((), t))"

definition dispatch_body :: "js_string \<Rightarrow> int \<Rightarrow> authority_storage \<Rightarrow> (unit \<times> authority_storage) result" where
  "dispatch_body rid now s =
     bind_r (require_effect rid s) (\<lambda>row.
       if ef_status row = E_DISPATCHED_HOLD \<or> ef_status row = E_CONFIRMED then Inr ((), s)
       else if ef_status row \<noteq> E_SEALED \<or>
               (case date_parse (ef_expires_at row) of None \<Rightarrow> False | Some e \<Rightarrow> e < now) then
         if ef_status row = E_RESERVED \<or> ef_status row = E_SEALED
         then set_effect rid expired_undispatched s
         else Inr ((), s)
       else
         bind_r (write_effect_rows s (update_where
           (\<lambda>r. ef_reservation_id r = rid \<and> ef_status r = E_SEALED)
           (\<lambda>r. r\<lparr>ef_status := E_DISPATCHED_HOLD\<rparr>) (as_effects s))) (\<lambda>t. Inr ((), t)))"

definition dispatch_effect :: "js_string \<Rightarrow> int \<Rightarrow> (authority_storage, effect_row) op" where
  "dispatch_effect rid now =
     bind_op (transaction (dispatch_body rid now)) (\<lambda>_.
     bind_op (require_effect_op rid) (\<lambda>row.
       if ef_status row \<noteq> E_DISPATCHED_HOLD \<and> ef_status row \<noteq> E_CONFIRMED
       then fail_op (broker ''ACTIVATED_AUTHORITY_EFFECT_NOT_DISPATCHABLE'' 409 False)
       else return_op row))"

definition sealed_effect :: "bytes \<Rightarrow> js_string \<Rightarrow> effect_row \<Rightarrow> effect_row" where
  "sealed_effect bs digest r =
     r\<lparr>ef_status := E_SEALED, ef_result_bytes := Some bs, ef_result_sha256 := Some digest\<rparr>"

definition seal_body ::
    "js_string \<Rightarrow> js_string \<Rightarrow> bytes \<Rightarrow> js_string \<Rightarrow> authority_storage \<Rightarrow> (unit \<times> authority_storage) result" where
  "seal_body rid canonical bs digest s =
     bind_r (require_effect rid s) (\<lambda>row.
       if ef_status row \<in> {E_SEALED, E_DISPATCHED_HOLD, E_CONFIRMED} then
         bind_r (require_r (ef_result_sha256 row = Some digest)
           (broker ''ACTIVATED_AUTHORITY_EFFECT_CONFLICT'' 409 False)) (\<lambda>_.
         bind_r (decode_nullable_effect_bytes (ef_result_bytes row)) (\<lambda>stored.
         bind_r (require_r (stored = Some canonical)
           (broker ''ACTIVATED_AUTHORITY_EFFECT_CONFLICT'' 409 False)) (\<lambda>_. Inr ((), s))))
       else if ef_status row \<noteq> E_RESERVED
       then Inl (broker ''ACTIVATED_AUTHORITY_EFFECT_NOT_SEALABLE'' 409 False)
       else set_effect rid (sealed_effect bs digest) s)"

definition seal_effect ::
    "(js_string \<Rightarrow> js_number) \<Rightarrow> hash \<Rightarrow> js_string \<Rightarrow> js_string \<Rightarrow> (authority_storage, effect_row) op" where
  "seal_effect decimal sha rid canonical =
     bind_op (lift_op (require_r
         (0 < length (utf8_encode canonical) \<and> length (utf8_encode canonical) \<le> BODY_BYTES)
         (broker ''ACTIVATED_AUTHORITY_EFFECT_RESULT_SIZE_INVALID'' 413 False))) (\<lambda>_.
     bind_op (lift_op (case json_parse decimal canonical of
         Inl _ \<Rightarrow> Inl (broker ''ACTIVATED_AUTHORITY_EFFECT_RESULT_INVALID'' 409 False) | Inr v \<Rightarrow> Inr v)) (\<lambda>decoded.
     bind_op (lift_op (require_r (is_json_object decoded)
         (broker ''ACTIVATED_AUTHORITY_EFFECT_RESULT_INVALID'' 409 False))) (\<lambda>_.
     bind_op (lift_op (canonical_json decoded)) (\<lambda>t.
     bind_op (lift_op (require_r (t = canonical)
         (broker ''ACTIVATED_AUTHORITY_EFFECT_RESULT_INVALID'' 409 False))) (\<lambda>_.
     bind_op (transaction (seal_body rid canonical (utf8_encode canonical)
         (sha256_tag sha (utf8_encode canonical)))) (\<lambda>_.
       require_effect_op rid))))))"

definition confirm_effect_body ::
    "js_string \<Rightarrow> js_string \<Rightarrow> authority_storage \<Rightarrow> (unit \<times> authority_storage) result" where
  "confirm_effect_body rid digest s =
     bind_r (require_effect rid s) (\<lambda>row.
       if ef_status row = E_CONFIRMED then
         bind_r (require_r (ef_result_sha256 row = Some digest)
           (broker ''ACTIVATED_AUTHORITY_EFFECT_CONFLICT'' 409 False)) (\<lambda>_. Inr ((), s))
       else if ef_status row \<noteq> E_DISPATCHED_HOLD \<or> ef_result_sha256 row \<noteq> Some digest
       then Inl (broker ''ACTIVATED_AUTHORITY_EFFECT_NOT_DISPATCHED'' 409 False)
       else set_effect rid (\<lambda>r. r\<lparr>ef_status := E_CONFIRMED\<rparr>) s)"

definition confirm_effect :: "js_string \<Rightarrow> js_string \<Rightarrow> (authority_storage, effect_row) op" where
  "confirm_effect rid digest =
     bind_op (lift_op (require_r (matches DIGEST digest)
         (broker ''ACTIVATED_AUTHORITY_EFFECT_RESULT_INVALID'' 409 False))) (\<lambda>_.
     bind_op (transaction (confirm_effect_body rid digest)) (\<lambda>_. require_effect_op rid))"

definition cancelled_undispatched :: "effect_row \<Rightarrow> effect_row" where
  "cancelled_undispatched r =
     r\<lparr>ef_status := E_CANCELLED_UNDISPATCHED, ef_result_bytes := None, ef_result_sha256 := None\<rparr>"

definition cancel_undispatched_body ::
    "js_string \<Rightarrow> authority_storage \<Rightarrow> (unit \<times> authority_storage) result" where
  "cancel_undispatched_body rid s =
     bind_r (require_effect rid s) (\<lambda>row.
       if ef_status row = E_CANCELLED_UNDISPATCHED then Inr ((), s)
       else if ef_status row \<noteq> E_RESERVED \<and> ef_status row \<noteq> E_SEALED
       then Inl (broker ''ACTIVATED_AUTHORITY_EFFECT_ALREADY_DISPATCHED'' 409 False)
       else set_effect rid cancelled_undispatched s)"

definition cancel_undispatched :: "js_string \<Rightarrow> (authority_storage, effect_row) op" where
  "cancel_undispatched rid =
     bind_op (transaction (cancel_undispatched_body rid)) (\<lambda>_. require_effect_op rid)"

definition rearm_body ::
    "js_string \<Rightarrow> json \<Rightarrow> bytes \<Rightarrow> authority_storage \<Rightarrow> (unit \<times> authority_storage) result" where
  "rearm_body rid replacement bs s =
     bind_r (require_effect rid s) (\<lambda>row.
     bind_r (require_r
         (ef_status row = E_DISPATCHED_HOLD \<and>
          json_get replacement (js ''reservation_id'') = JStr rid \<and>
          json_get replacement (js ''intent_sha256'') = JStr (ef_intent_sha256 row))
         (broker ''ACTIVATED_AUTHORITY_EFFECT_REARM_INVALID'' 409 False)) (\<lambda>_.
     bind_r (replace_undispatched row replacement bs s) (\<lambda>t. Inr ((), t))))"

definition rearm_after_observed_absent :: "hash \<Rightarrow> js_string \<Rightarrow> json \<Rightarrow> (authority_storage, effect_row) op" where
  "rearm_after_observed_absent sha rid v =
     bind_op (lift_op (parse_effect_reservation sha v)) (\<lambda>replacement.
     bind_op (lift_op (canonical_bytes replacement)) (\<lambda>bs.
     bind_op (transaction (rearm_body rid replacement bs)) (\<lambda>_. require_effect_op rid)))"

end
