(* ===== verification/EffectRpc.thy ===== *)
theory EffectRpc imports EffectReservation begin

text \<open>
  The canonical texts that cross the worker boundary to the authority object:
  \<open>activated-authority-effect-rpc.ts\<close> with its common checks (\<open>-rpc-common.ts\<close>).
\<close>

definition RESERVE_REQUEST_SCHEMA :: js_string where
  "RESERVE_REQUEST_SCHEMA = js ''dpone.activated-authority-effect-reserve-request.v1''"
definition RESERVE_RESULT_SCHEMA :: js_string where
  "RESERVE_RESULT_SCHEMA = js ''dpone.activated-authority-effect-reserve-result.v1''"
definition TRANSITION_REQUEST_SCHEMA :: js_string where
  "TRANSITION_REQUEST_SCHEMA = js ''dpone.activated-authority-effect-transition-request.v1''"
definition STATUS_SCHEMA :: js_string where
  "STATUS_SCHEMA = js ''dpone.activated-authority-effect-status.v1''"

section \<open>Common checks\<close>

definition decode_effect_canonical :: "(js_string \<Rightarrow> js_number) \<Rightarrow> js_string \<Rightarrow> members result" where
  "decode_effect_canonical decimal t =
     (let n = length (utf8_encode t) in
      if n = 0 \<or> n > BODY_BYTES
      then Inl (broker ''ACTIVATED_AUTHORITY_EFFECT_RPC_SIZE_INVALID'' 413 False)
      else case json_parse decimal t of
        Inl _ \<Rightarrow> Inl (broker ''ACTIVATED_AUTHORITY_EFFECT_RPC_INVALID'' 409 False)
      | Inr JNull \<Rightarrow> Inl (Native TypeError)
      | Inr v \<Rightarrow>
          bind_r (require_object v ''OBJECT_REQUIRED'') (\<lambda>kvs.
          bind_r (canonical_json (JObj kvs)) (\<lambda>u.
          bind_r (assert_js (t = u) ''ACTIVATED_AUTHORITY_EFFECT_RPC_NONCANONICAL'' 409) (\<lambda>_. Inr kvs))))"

definition rpc_timestamp :: "js_string \<Rightarrow> js_string result" where
  "rpc_timestamp v =
     bind_r (prints_back v) (\<lambda>same.
     bind_r (assert_js same ''ACTIVATED_AUTHORITY_EFFECT_RPC_INVALID'' 409) (\<lambda>_. Inr v))"

definition rpc_literal :: "members \<Rightarrow> string \<Rightarrow> js_string \<Rightarrow> unit result" where
  "rpc_literal kvs key expected = literal_check ''ACTIVATED_AUTHORITY_EFFECT_RPC_INVALID'' 409 kvs key expected"

definition rpc_integer :: "members \<Rightarrow> string \<Rightarrow> int \<Rightarrow> unit result" where
  "rpc_integer kvs key expected = integer_check ''ACTIVATED_AUTHORITY_EFFECT_RPC_INVALID'' 409 kvs key expected"

definition rpc_object :: "json \<Rightarrow> json result" where
  "rpc_object v =
     (if is_json_object v then Inr v
      else Inl (broker ''ACTIVATED_AUTHORITY_EFFECT_RESULT_INVALID'' 503 False))"

section \<open>Reserve requests\<close>

record reserve_request =
  rs_body :: members
  rs_expires_at :: js_string
  rs_intent_sha256 :: js_string
  rs_read_request :: json
  rs_replay_claims_sha256 :: js_string
  rs_replay_expires_at :: int
  rs_replay_jti_sha256 :: js_string
  rs_request_id :: js_string
  rs_requested_at :: js_string

definition RESERVE_REQUEST_FIELDS :: "string list" where
  "RESERVE_REQUEST_FIELDS = [''expected_activated_record_id'', ''expected_activated_record_sha256'',
     ''expected_activated_service_authorities_sha256'', ''expected_ingress_worker_version_id'', ''expires_at'',
     ''intent_sha256'', ''operation'', ''replay_claims_sha256'', ''replay_expires_at'', ''replay_jti_sha256'',
     ''request_id'', ''requested_at'', ''schema'', ''schema_version'']"

definition assert_request_window :: "js_string \<Rightarrow> js_string \<Rightarrow> unit result" where
  "assert_request_window requested_at expires_at =
     assert_js (times_hold [requested_at, expires_at] (\<lambda>ts. case ts of
         [requested, expires] \<Rightarrow> requested < expires \<and> expires - requested \<le> 60000 | _ \<Rightarrow> False))
       ''ACTIVATED_AUTHORITY_EFFECT_REQUEST_INVALID'' 409"

definition parse_reserve_request :: "(js_string \<Rightarrow> js_number) \<Rightarrow> js_string \<Rightarrow> reserve_request result" where
  "parse_reserve_request decimal canonical =
     bind_r (decode_effect_canonical decimal canonical) (\<lambda>body.
     bind_r (exact_object (JObj body) RESERVE_REQUEST_FIELDS) (\<lambda>request.
     bind_r (rpc_literal request ''schema'' RESERVE_REQUEST_SCHEMA) (\<lambda>_.
     bind_r (rpc_integer request ''schema_version'' 1) (\<lambda>_.
     bind_r (rpc_literal request ''operation'' ACTIVATION_PROOF) (\<lambda>_.
     bind_r (require_string request ''request_id'' 128 (Some REQUEST_ID)) (\<lambda>request_id.
     bind_r (require_string request ''requested_at'' 32 (Some TIMESTAMP)) (\<lambda>requested.
     bind_r (rpc_timestamp requested) (\<lambda>requested_at.
     bind_r (require_string request ''expires_at'' 32 (Some TIMESTAMP)) (\<lambda>expires.
     bind_r (rpc_timestamp expires) (\<lambda>expires_at.
     bind_r (assert_request_window requested_at expires_at) (\<lambda>_.
     bind_r (tagged_field request ''expected_activated_record_id'') (\<lambda>record_id.
     bind_r (tagged_field request ''expected_activated_record_sha256'') (\<lambda>record_sha256.
     bind_r (tagged_field request ''expected_activated_service_authorities_sha256'') (\<lambda>authorities.
     bind_r (require_string request ''expected_ingress_worker_version_id'' 36 (Some CLOUDFLARE_UUID)) (\<lambda>ingress.
     bind_r (build_head_read_request
         \<lparr>rq_activated_record_id = record_id, rq_activated_record_sha256 = record_sha256,
          rq_activated_service_authorities_sha256 = authorities, rq_ingress_worker_version_id = ingress,
          rq_request_id = request_id, rq_requested_at = requested_at\<rparr>) (\<lambda>read_request.
     bind_r (tagged_field request ''intent_sha256'') (\<lambda>intent.
     bind_r (tagged_field request ''replay_claims_sha256'') (\<lambda>claims.
     bind_r (require_integer request ''replay_expires_at'' 1 max_safe) (\<lambda>replay_expires.
     bind_r (tagged_field request ''replay_jti_sha256'') (\<lambda>jti.
       Inr \<lparr>rs_body = request, rs_expires_at = expires_at, rs_intent_sha256 = intent,
            rs_read_request = read_request, rs_replay_claims_sha256 = claims,
            rs_replay_expires_at = replay_expires, rs_replay_jti_sha256 = jti, rs_request_id = request_id,
            rs_requested_at = requested_at\<rparr>))))))))))))))))))))"

record reserve_request_input =
  qi_activated_record_id :: js_string
  qi_activated_record_sha256 :: js_string
  qi_activated_service_authorities_sha256 :: js_string
  qi_expires_at :: js_string
  qi_ingress_worker_version_id :: js_string
  qi_intent_sha256 :: js_string
  qi_replay_claims_sha256 :: js_string
  qi_replay_expires_at :: int
  qi_replay_jti_sha256 :: js_string
  qi_request_id :: js_string
  qi_requested_at :: js_string

definition reserve_request_members :: "reserve_request_input \<Rightarrow> members" where
  "reserve_request_members i =
     [(js ''expected_activated_record_id'', JStr (qi_activated_record_id i)),
      (js ''expected_activated_record_sha256'', JStr (qi_activated_record_sha256 i)),
      (js ''expected_activated_service_authorities_sha256'', JStr (qi_activated_service_authorities_sha256 i)),
      (js ''expected_ingress_worker_version_id'', JStr (qi_ingress_worker_version_id i)),
      (js ''expires_at'', JStr (qi_expires_at i)), (js ''intent_sha256'', JStr (qi_intent_sha256 i)),
      (js ''operation'', JStr ACTIVATION_PROOF),
      (js ''replay_claims_sha256'', JStr (qi_replay_claims_sha256 i)),
      (js ''replay_expires_at'', JI (qi_replay_expires_at i)),
      (js ''replay_jti_sha256'', JStr (qi_replay_jti_sha256 i)), (js ''request_id'', JStr (qi_request_id i)),
      (js ''requested_at'', JStr (qi_requested_at i)), (js ''schema'', JStr RESERVE_REQUEST_SCHEMA),
      (js ''schema_version'', JI 1)]"

definition build_reserve_request ::
    "(js_string \<Rightarrow> js_number) \<Rightarrow> reserve_request_input \<Rightarrow> js_string result" where
  "build_reserve_request decimal i =
     bind_r (canonical_json (JObj (reserve_request_members i))) (\<lambda>t.
     bind_r (parse_reserve_request decimal t) (\<lambda>_. Inr t))"

section \<open>Reserve results\<close>

datatype returnable_status = RS_CONFIRMED | RS_DISPATCHED_HOLD | RS_RESERVED | RS_SEALED

primrec returnable_text :: "returnable_status \<Rightarrow> js_string" where
  "returnable_text RS_CONFIRMED = js ''CONFIRMED''"
| "returnable_text RS_DISPATCHED_HOLD = js ''DISPATCHED_HOLD''"
| "returnable_text RS_RESERVED = js ''RESERVED''"
| "returnable_text RS_SEALED = js ''SEALED''"

definition read_returnable :: "json \<Rightarrow> returnable_status option" where
  "read_returnable v =
     (if v = JStr (js ''CONFIRMED'') then Some RS_CONFIRMED
      else if v = JStr (js ''DISPATCHED_HOLD'') then Some RS_DISPATCHED_HOLD
      else if v = JStr (js ''RESERVED'') then Some RS_RESERVED
      else if v = JStr (js ''SEALED'') then Some RS_SEALED else None)"

record reserve_result =
  rr_head_proof :: json
  rr_reservation :: json
  rr_sealed_result :: "json option"
  rr_sealed_result_sha256 :: "js_string option"
  rr_status :: returnable_status

definition RESERVE_RESULT_FIELDS :: "string list" where
  "RESERVE_RESULT_FIELDS = [''activated_authority_head'', ''reservation'', ''sealed_result'',
     ''sealed_result_sha256'', ''schema'', ''schema_version'', ''status'']"

text \<open>\<open>===\<close> of two values that are not both objects; the negative zero is equal to zero.\<close>

definition strict_equal :: "json \<Rightarrow> json \<Rightarrow> bool" where
  "strict_equal v w =
     (case (v, w) of
        (JNum m, JNum n) \<Rightarrow> m \<noteq> JOther \<and> n \<noteq> JOther \<and> number_int m = number_int n
      | _ \<Rightarrow> v = w)"

definition sealed_consistent ::
    "hash \<Rightarrow> returnable_status \<Rightarrow> json option \<Rightarrow> js_string option \<Rightarrow> bool result" where
  "sealed_consistent sha status sealed digest =
     (if status = RS_RESERVED then Inr (sealed = None \<and> digest = None)
      else case sealed of
        None \<Rightarrow> Inr False
      | Some v \<Rightarrow> bind_r (canonical_bytes v) (\<lambda>bs. Inr (digest = Some (sha256_tag sha bs))))"

definition parse_reserve_result ::
    "(js_string \<Rightarrow> js_number) \<Rightarrow> hash \<Rightarrow> js_string \<Rightarrow> reserve_result result" where
  "parse_reserve_result decimal sha canonical =
     bind_r (decode_effect_canonical decimal canonical) (\<lambda>decoded.
     bind_r (exact_object (JObj decoded) RESERVE_RESULT_FIELDS) (\<lambda>body.
     bind_r (rpc_literal body ''schema'' RESERVE_RESULT_SCHEMA) (\<lambda>_.
     bind_r (rpc_integer body ''schema_version'' 1) (\<lambda>_.
     bind_r (parse_current_head_proof sha (lookup body (js ''activated_authority_head''))) (\<lambda>head_proof.
     bind_r (parse_effect_reservation sha (lookup body (js ''reservation''))) (\<lambda>reservation.
     bind_r (case read_returnable (lookup body (js ''status'')) of
         None \<Rightarrow> Inl (broker ''ACTIVATED_AUTHORITY_EFFECT_RESULT_INVALID'' 503 False)
       | Some status \<Rightarrow> Inr status) (\<lambda>status.
     bind_r (if lookup body (js ''sealed_result'') = JNull then Inr None
             else bind_r (rpc_object (lookup body (js ''sealed_result''))) (\<lambda>v. Inr (Some v))) (\<lambda>sealed.
     bind_r (if lookup body (js ''sealed_result_sha256'') = JNull then Inr None
             else bind_r (tagged_field body ''sealed_result_sha256'') (\<lambda>d. Inr (Some d))) (\<lambda>digest.
     bind_r (sealed_consistent sha status sealed digest) (\<lambda>consistent.
     bind_r (assert_js consistent ''ACTIVATED_AUTHORITY_EFFECT_RESULT_INVALID'' 503) (\<lambda>_.
     bind_r (exact_object (json_get reservation (js ''head'')) PREVIOUS_FIELDS) (\<lambda>head.
     bind_r (exact_object (json_get head_proof (js ''head'')) HEAD_FIELDS) (\<lambda>proof_head.
     bind_r (assert_js
         ((status = RS_CONFIRMED \<or>
             json_get reservation (js ''request_id'') = json_get head_proof (js ''request_id'')) \<and>
          strict_equal (lookup head (js ''generation'')) (lookup proof_head (js ''generation'')) \<and>
          lookup head (js ''record_id'') = lookup proof_head (js ''record_id'') \<and>
          lookup head (js ''record_sha256'') = json_get head_proof (js ''record_sha256''))
         ''ACTIVATED_AUTHORITY_EFFECT_RESULT_INVALID'' 503) (\<lambda>_.
       Inr \<lparr>rr_head_proof = head_proof, rr_reservation = reservation, rr_sealed_result = sealed,
            rr_sealed_result_sha256 = digest, rr_status = status\<rparr>))))))))))))))"

definition build_reserve_result ::
    "(js_string \<Rightarrow> js_number) \<Rightarrow> hash \<Rightarrow> json \<Rightarrow> json \<Rightarrow> returnable_status \<Rightarrow> js_string option \<Rightarrow> js_string result" where
  "build_reserve_result decimal sha head_proof reservation status sealed_canonical =
     bind_r (case sealed_canonical of None \<Rightarrow> Inr JNull
         | Some t \<Rightarrow> bind_r (decode_effect_canonical decimal t) (\<lambda>kvs. Inr (JObj kvs))) (\<lambda>sealed.
     bind_r (parse_current_head_proof sha head_proof) (\<lambda>proof_value.
     bind_r (parse_effect_reservation sha reservation) (\<lambda>reservation_value.
     bind_r (if sealed = JNull then Inr JNull
             else bind_r (canonical_bytes sealed) (\<lambda>bs. Inr (JStr (sha256_tag sha bs)))) (\<lambda>digest.
     bind_r (canonical_json (JObj
         [(js ''activated_authority_head'', proof_value), (js ''reservation'', reservation_value),
          (js ''sealed_result'', sealed), (js ''sealed_result_sha256'', digest),
          (js ''schema'', JStr RESERVE_RESULT_SCHEMA), (js ''schema_version'', JI 1),
          (js ''status'', JStr (returnable_text status))])) (\<lambda>canonical.
     bind_r (parse_reserve_result decimal sha canonical) (\<lambda>_. Inr canonical))))))"

definition with_member :: "members \<Rightarrow> js_string \<Rightarrow> json \<Rightarrow> members" where
  "with_member kvs k v = map (\<lambda>(l, w). (l, if l = k then v else w)) kvs @ (if k \<in> set (map fst kvs) then [] else [(k, v)])"

definition null_if_missing :: "json \<Rightarrow> json" where
  "null_if_missing v = (if v = JUndef then JNull else v)"

definition assert_reserve_result_matches_request :: "hash \<Rightarrow> reserve_result \<Rightarrow> reserve_request \<Rightarrow> unit result" where
  "assert_reserve_result_matches_request sha v request =
     bind_r (assert_current_head_matches_request sha (rr_head_proof v)
         (case rs_read_request request of
            JObj kvs \<Rightarrow> JObj (with_member kvs (js ''requested_at'')
              (null_if_missing (json_get (rr_head_proof v) (js ''requested_at''))))
          | w \<Rightarrow> w)) (\<lambda>_.
       assert_js (json_get (rr_reservation v) (js ''intent_sha256'') = JStr (rs_intent_sha256 request))
         ''ACTIVATED_AUTHORITY_EFFECT_RESULT_INVALID'' 503)"

section \<open>Transition requests and statuses\<close>

datatype effect_transition = CANCEL | CONFIRM | DISPATCH_EFFECT | SEAL

primrec transition_text :: "effect_transition \<Rightarrow> js_string" where
  "transition_text CANCEL = js ''CANCEL''"
| "transition_text CONFIRM = js ''CONFIRM''"
| "transition_text DISPATCH_EFFECT = js ''DISPATCH''"
| "transition_text SEAL = js ''SEAL''"

definition read_transition :: "json \<Rightarrow> effect_transition option" where
  "read_transition v =
     (if v = JStr (js ''CANCEL'') then Some CANCEL
      else if v = JStr (js ''CONFIRM'') then Some CONFIRM
      else if v = JStr (js ''DISPATCH'') then Some DISPATCH_EFFECT
      else if v = JStr (js ''SEAL'') then Some SEAL else None)"

record transition_request =
  tq_action :: effect_transition
  tq_request_id :: js_string
  tq_requested_at :: js_string
  tq_reservation_id :: js_string
  tq_result_sha256 :: "js_string option"

definition parse_transition_request :: "(js_string \<Rightarrow> js_number) \<Rightarrow> js_string \<Rightarrow> transition_request result" where
  "parse_transition_request decimal canonical =
     bind_r (decode_effect_canonical decimal canonical) (\<lambda>decoded.
     bind_r (case read_transition (lookup decoded (js ''action'')) of
         None \<Rightarrow> Inl (broker ''ACTIVATED_AUTHORITY_EFFECT_TRANSITION_INVALID'' 409 False)
       | Some action \<Rightarrow> Inr action) (\<lambda>action.
     bind_r (exact_object (JObj decoded)
         (if action = CONFIRM then [''action'', ''request_id'', ''requested_at'', ''reservation_id'',
            ''result_sha256'', ''schema'', ''schema_version'']
          else [''action'', ''request_id'', ''requested_at'', ''reservation_id'', ''schema'', ''schema_version''])) (\<lambda>body.
     bind_r (rpc_literal body ''schema'' TRANSITION_REQUEST_SCHEMA) (\<lambda>_.
     bind_r (rpc_integer body ''schema_version'' 1) (\<lambda>_.
     bind_r (if action = CONFIRM then bind_r (tagged_field body ''result_sha256'') (\<lambda>d. Inr (Some d))
             else Inr None) (\<lambda>digest.
     bind_r (require_string body ''request_id'' 128 (Some REQUEST_ID)) (\<lambda>request_id.
     bind_r (require_string body ''requested_at'' 32 (Some TIMESTAMP)) (\<lambda>requested.
     bind_r (rpc_timestamp requested) (\<lambda>requested_at.
     bind_r (tagged_field body ''reservation_id'') (\<lambda>reservation_id.
       Inr \<lparr>tq_action = action, tq_request_id = request_id, tq_requested_at = requested_at,
            tq_reservation_id = reservation_id, tq_result_sha256 = digest\<rparr>))))))))))"

definition transition_members :: "transition_request \<Rightarrow> members" where
  "transition_members i =
     [(js ''action'', JStr (transition_text (tq_action i))), (js ''request_id'', JStr (tq_request_id i)),
      (js ''requested_at'', JStr (tq_requested_at i)), (js ''reservation_id'', JStr (tq_reservation_id i))] @
     (if tq_action i = CONFIRM
      then [(js ''result_sha256'', case tq_result_sha256 i of None \<Rightarrow> JNull | Some d \<Rightarrow> JStr d)] else []) @
     [(js ''schema'', JStr TRANSITION_REQUEST_SCHEMA), (js ''schema_version'', JI 1)]"

definition build_transition_request ::
    "(js_string \<Rightarrow> js_number) \<Rightarrow> transition_request \<Rightarrow> js_string result" where
  "build_transition_request decimal i =
     bind_r (canonical_json (JObj (transition_members i))) (\<lambda>t.
     bind_r (parse_transition_request decimal t) (\<lambda>_. Inr t))"

datatype reported_status = RP_CANCELLED_UNDISPATCHED | RP_CONFIRMED | RP_DISPATCHED_HOLD | RP_SEALED

definition read_reported :: "json \<Rightarrow> reported_status option" where
  "read_reported v =
     (if v = JStr (js ''CANCELLED_UNDISPATCHED'') then Some RP_CANCELLED_UNDISPATCHED
      else if v = JStr (js ''CONFIRMED'') then Some RP_CONFIRMED
      else if v = JStr (js ''DISPATCHED_HOLD'') then Some RP_DISPATCHED_HOLD
      else if v = JStr (js ''SEALED'') then Some RP_SEALED else None)"

definition parse_effect_status ::
    "(js_string \<Rightarrow> js_number) \<Rightarrow> js_string \<Rightarrow> js_string \<Rightarrow> (js_string option \<times> reported_status) result" where
  "parse_effect_status decimal canonical reservation_id =
     bind_r (decode_effect_canonical decimal canonical) (\<lambda>decoded.
     bind_r (exact_object (JObj decoded) [''reservation_id'', ''result_sha256'', ''schema'', ''schema_version'',
       ''status'']) (\<lambda>body.
     bind_r (rpc_literal body ''schema'' STATUS_SCHEMA) (\<lambda>_.
     bind_r (rpc_integer body ''schema_version'' 1) (\<lambda>_.
     bind_r (case (lookup body (js ''reservation_id'') = JStr reservation_id, read_reported (lookup body (js ''status''))) of
         (True, Some status) \<Rightarrow> Inr status
       | _ \<Rightarrow> Inl (broker ''ACTIVATED_AUTHORITY_EFFECT_STATUS_INVALID'' 503 False)) (\<lambda>status.
       case lookup body (js ''result_sha256'') of
         JNull \<Rightarrow> Inr (None, status)
       | JStr d \<Rightarrow> bind_r (assert_js (matches DIGEST d) ''ACTIVATED_AUTHORITY_EFFECT_STATUS_INVALID'' 503) (\<lambda>_.
           Inr (Some d, status))
       | _ \<Rightarrow> Inl (broker ''ACTIVATED_AUTHORITY_EFFECT_STATUS_INVALID'' 503 False))))))"

end
