(* ===== verification/HeadRpc.thy ===== *)
theory HeadRpc imports EffectRpc begin

text \<open>
  The snapshots of activation records that cross the worker boundary (\<open>activation-rpc.ts\<close>) and the
  read and advance requests of the authority object (\<open>activated-authority-head-rpc.ts\<close>).
\<close>

section \<open>Activation snapshots\<close>

record activation_record =
  ar_digest :: js_string
  ar_envelope :: json
  ar_record_id :: js_string
  ar_sequence :: int
  ar_worm :: activation_worm

record activation_snapshot =
  an_activated :: "activation_record option"
  an_provisioned :: activation_record

definition SNAPSHOT_SCHEMA :: js_string where
  "SNAPSHOT_SCHEMA = js ''dpone.release-broker-activation-snapshot.v1''"

definition snapshot_literal :: "members \<Rightarrow> string \<Rightarrow> js_string \<Rightarrow> unit result" where
  "snapshot_literal kvs key expected =
     bind_r (require_string kvs key (max 1 (length expected)) None) (\<lambda>s.
       assert_js (s = expected) ''ACTIVATION_SNAPSHOT_INVALID'' 503)"

definition snapshot_integer :: "members \<Rightarrow> string \<Rightarrow> int \<Rightarrow> unit result" where
  "snapshot_integer kvs key expected = integer_check ''ACTIVATION_SNAPSHOT_INVALID'' 503 kvs key expected"

text \<open>\<open>/^receipts\\/v1\\/activation\\/.+\\.json$/u\<close>; the dot matches no line terminator.\<close>

definition activation_key_shape :: "js_string \<Rightarrow> bool" where
  "activation_key_shape s \<longleftrightarrow>
     (let before = js ''receipts/v1/activation/''; after = js ''.json'';
          middle = take (length s - length before - length after) (drop (length before) s) in
      length s > length before + length after \<and> take (length before) s = before \<and>
      drop (length s - length after) s = after \<and>
      list_all (\<lambda>c. c \<notin> {0x0A, 0x0D, 0x2028, 0x2029}) middle)"

text \<open>\<open>/^\\d{4}-\\d{2}-\\d{2}T\\d{2}:\\d{2}:\\d{2}(?:\\.\\d{3})?Z$/u\<close>\<close>

definition SECONDS_TIMESTAMP :: regex where
  "SECONDS_TIMESTAMP =
     (let d = (\<lambda>n. Rep (Cls ''09'') n n) in
      Seq (d 4) (Seq (Lit ''-'') (Seq (d 2) (Seq (Lit ''-'') (Seq (d 2) (Seq (Lit ''T'')
        (Seq (d 2) (Seq (Lit '':'') (Seq (d 2) (Seq (Lit '':'') (Seq (d 2)
          (Seq (Rep (Seq (Lit ''.'') (d 3)) 0 1) (Lit ''Z'')))))))))))))"

definition parse_snapshot_worm :: "json \<Rightarrow> js_string \<Rightarrow> activation_worm result" where
  "parse_snapshot_worm v digest =
     bind_r (exact_object v [''digest'', ''key'', ''retention_until'', ''version_id'']) (\<lambda>worm.
     bind_r (snapshot_literal worm ''digest'' digest) (\<lambda>_.
     bind_r (require_string worm ''key'' 512 None) (\<lambda>key.
     bind_r (require_r (activation_key_shape key) (broker ''FIELD_INVALID'' 400 False)) (\<lambda>_.
     bind_r (require_string worm ''retention_until'' 32 (Some SECONDS_TIMESTAMP)) (\<lambda>until.
     bind_r (require_string worm ''version_id'' 512 None) (\<lambda>version_id.
       Inr \<lparr>aw_digest = digest, aw_key = key, aw_retention_until = until, aw_version_id = version_id\<rparr>))))))"

definition parse_snapshot_record :: "json \<Rightarrow> int \<Rightarrow> activation_record result" where
  "parse_snapshot_record v sequence =
     bind_r (exact_object v [''digest'', ''envelope'', ''record_id'', ''sequence'', ''worm'']) (\<lambda>record_value.
     let envelope_value = lookup record_value (js ''envelope'') in
     bind_r (assert_js (is_json_object envelope_value) ''ACTIVATION_SNAPSHOT_INVALID'' 503) (\<lambda>_.
     bind_r (snapshot_integer record_value ''sequence'' sequence) (\<lambda>_.
     bind_r (tagged_field record_value ''digest'') (\<lambda>digest.
     bind_r (tagged_field record_value ''record_id'') (\<lambda>record_id.
     bind_r (assert_js (json_get envelope_value (js ''record_id'') = JStr record_id \<and>
         strict_equal (json_get envelope_value (js ''sequence'')) (JI sequence))
       ''ACTIVATION_SNAPSHOT_BINDING_INVALID'' 503) (\<lambda>_.
     bind_r (parse_snapshot_worm (lookup record_value (js ''worm'')) digest) (\<lambda>worm.
       Inr \<lparr>ar_digest = digest, ar_envelope = envelope_value, ar_record_id = record_id, ar_sequence = sequence,
            ar_worm = worm\<rparr>)))))))"

definition parse_activation_snapshot ::
    "(js_string \<Rightarrow> js_number) \<Rightarrow> js_string \<Rightarrow> activation_snapshot result" where
  "parse_activation_snapshot decimal t =
     (if length t = 0 \<or> length (utf8_encode t) > 131072
      then Inl (broker ''ACTIVATION_SNAPSHOT_SIZE_INVALID'' 503 False)
      else case json_parse decimal t of
        Inl _ \<Rightarrow> Inl (broker ''ACTIVATION_SNAPSHOT_INVALID'' 503 False)
      | Inr decoded \<Rightarrow>
          bind_r (exact_object decoded [''activated'', ''provisioned'', ''schema'', ''schema_version'']) (\<lambda>snapshot.
          bind_r (canonical_json (JObj snapshot)) (\<lambda>u.
          bind_r (assert_js (t = u) ''ACTIVATION_SNAPSHOT_NONCANONICAL'' 503) (\<lambda>_.
          bind_r (snapshot_literal snapshot ''schema'' SNAPSHOT_SCHEMA) (\<lambda>_.
          bind_r (snapshot_integer snapshot ''schema_version'' 1) (\<lambda>_.
          let activated = lookup snapshot (js ''activated'') in
          bind_r (assert_js (activated = JNull \<or> is_json_object activated) ''ACTIVATION_SNAPSHOT_INVALID'' 503) (\<lambda>_.
          bind_r (if activated = JNull then Inr None
                  else bind_r (parse_snapshot_record activated 1) (\<lambda>r. Inr (Some r))) (\<lambda>activated_record.
          bind_r (parse_snapshot_record (lookup snapshot (js ''provisioned'')) 0) (\<lambda>provisioned_record.
            Inr \<lparr>an_activated = activated_record, an_provisioned = provisioned_record\<rparr>)))))))))"

definition snapshot_record_json :: "activation_record \<Rightarrow> json" where
  "snapshot_record_json r = JObj
     [(js ''digest'', JStr (ar_digest r)), (js ''envelope'', ar_envelope r), (js ''record_id'', JStr (ar_record_id r)),
      (js ''sequence'', JI (ar_sequence r)),
      (js ''worm'', JObj
        [(js ''digest'', JStr (aw_digest (ar_worm r))), (js ''key'', JStr (aw_key (ar_worm r))),
         (js ''retention_until'', JStr (aw_retention_until (ar_worm r))),
         (js ''version_id'', JStr (aw_version_id (ar_worm r)))])]"

definition activation_snapshot_json :: "activation_snapshot \<Rightarrow> json" where
  "activation_snapshot_json n = JObj
     [(js ''activated'', case an_activated n of None \<Rightarrow> JNull | Some r \<Rightarrow> snapshot_record_json r),
      (js ''provisioned'', snapshot_record_json (an_provisioned n)),
      (js ''schema'', JStr SNAPSHOT_SCHEMA), (js ''schema_version'', JI 1)]"

section \<open>Requests of the head\<close>

definition decode_head_canonical ::
    "(js_string \<Rightarrow> js_number) \<Rightarrow> js_string \<Rightarrow> nat \<Rightarrow> string \<Rightarrow> json result" where
  "decode_head_canonical decimal t maximum code =
     (let n = length (utf8_encode t) in
      if n = 0 \<or> n > maximum then Inl (broker (code @ ''_SIZE'') 413 False)
      else case json_parse decimal t of
        Inl _ \<Rightarrow> Inl (broker code 400 False)
      | Inr v \<Rightarrow>
          bind_r (require_r (is_json_object v) (broker code 400 False)) (\<lambda>_.
          bind_r (canonical_json v) (\<lambda>u.
          bind_r (assert_js (t = u) (code @ ''_NONCANONICAL'') 400) (\<lambda>_. Inr v))))"

definition parse_head_read_request_canonical :: "(js_string \<Rightarrow> js_number) \<Rightarrow> js_string \<Rightarrow> json result" where
  "parse_head_read_request_canonical decimal t =
     bind_r (decode_head_canonical decimal t BODY_BYTES ''ACTIVATED_AUTHORITY_HEAD_READ_INVALID'')
       parse_head_read_request"

definition assert_fresh_head_request :: "js_string \<Rightarrow> int \<Rightarrow> unit result" where
  "assert_fresh_head_request requested_at now =
     assert_js (case date_parse requested_at of
         None \<Rightarrow> False
       | Some requested \<Rightarrow>
           requested \<le> now + 30000 \<and> now - requested \<ge> -30000 \<and> now - requested \<le> 60000)
       ''ACTIVATED_AUTHORITY_HEAD_REQUEST_STALE'' 409"

definition ADVANCE_REQUEST_SCHEMA :: js_string where
  "ADVANCE_REQUEST_SCHEMA = js ''dpone.activated-service-authority-head-advance-request.v1''"

definition MAX_ADVANCE_BYTES :: nat where "MAX_ADVANCE_BYTES = 2 * BODY_BYTES + 8192"

record advance_request =
  av_body :: json
  av_request_id :: js_string
  av_requested_at :: js_string
  av_snapshot :: activation_snapshot

definition head_rpc_literal :: "members \<Rightarrow> string \<Rightarrow> js_string \<Rightarrow> unit result" where
  "head_rpc_literal kvs key expected = literal_check ''ACTIVATED_AUTHORITY_HEAD_RPC_INVALID'' 400 kvs key expected"

definition head_rpc_integer :: "members \<Rightarrow> string \<Rightarrow> int \<Rightarrow> unit result" where
  "head_rpc_integer kvs key expected = integer_check ''ACTIVATED_AUTHORITY_HEAD_RPC_INVALID'' 400 kvs key expected"

definition parse_advance_request :: "(js_string \<Rightarrow> js_number) \<Rightarrow> js_string \<Rightarrow> advance_request result" where
  "parse_advance_request decimal t =
     bind_r (decode_head_canonical decimal t MAX_ADVANCE_BYTES ''ACTIVATED_AUTHORITY_HEAD_ADVANCE_INVALID'') (\<lambda>body.
     bind_r (exact_object body [''request_id'', ''requested_at'', ''schema'', ''schema_version'', ''snapshot'']) (\<lambda>request.
     bind_r (head_rpc_literal request ''schema'' ADVANCE_REQUEST_SCHEMA) (\<lambda>_.
     bind_r (head_rpc_integer request ''schema_version'' 1) (\<lambda>_.
     bind_r (require_string request ''request_id'' 128 (Some REQUEST_ID)) (\<lambda>request_id.
     bind_r (require_string request ''requested_at'' 32 (Some TIMESTAMP)) (\<lambda>requested_at.
     bind_r (exact_object (lookup request (js ''snapshot''))
         [''activated'', ''provisioned'', ''schema'', ''schema_version'']) (\<lambda>snapshot_object.
     bind_r (canonical_json (JObj snapshot_object)) (\<lambda>u.
     bind_r (parse_activation_snapshot decimal u) (\<lambda>snapshot.
     bind_r (assert_js (an_activated snapshot \<noteq> None) ''ACTIVATED_AUTHORITY_HEAD_ADVANCE_INVALID'' 409) (\<lambda>_.
       Inr \<lparr>av_body = body, av_request_id = request_id, av_requested_at = requested_at,
            av_snapshot = snapshot\<rparr>))))))))))"

definition build_advance_request ::
    "(js_string \<Rightarrow> js_number) \<Rightarrow> activation_snapshot \<Rightarrow> js_string \<Rightarrow> js_string \<Rightarrow> js_string result" where
  "build_advance_request decimal source request_id requested_at =
     bind_r (canonical_json (JObj
         [(js ''request_id'', JStr request_id), (js ''requested_at'', JStr requested_at),
          (js ''schema'', JStr ADVANCE_REQUEST_SCHEMA), (js ''schema_version'', JI 1),
          (js ''snapshot'', activation_snapshot_json source)])) (\<lambda>t.
     bind_r (parse_advance_request decimal t) (\<lambda>_. Inr t))"

end
