(* ===== verification/Coordinator.thy ===== *)
theory Coordinator imports EffectStore HeadRpc ReplayHistory begin

text \<open>
  The coordinator of proof effects (\<open>activated-authority-effect-coordinator.ts\<close>): it moves a row of the
  effect journal and the use of its token in the replay ledger, another durable object, in step. The
  ledger is the record of the operations the coordinator calls on it, over a state of its own; the head
  proofs are built by a function the authority object passes in.
\<close>

section \<open>The two objects\<close>

record 'l replay_ledger_rpc =
  lr_prepare :: "json \<Rightarrow> ('l, effect_replay_observation) op"
  lr_commit :: "json \<Rightarrow> ('l, effect_replay_observation) op"
  lr_cancel :: "json \<Rightarrow> ('l, effect_replay_observation) op"
  lr_observe :: "json \<Rightarrow> ('l, effect_replay_observation) op"
  lr_mark_terminal :: "json \<Rightarrow> ('l, effect_replay_observation) op"

definition on_storage :: "(authority_storage, 'a) op \<Rightarrow> (authority_storage \<times> 'l, 'a) op" where
  "on_storage m = (\<lambda>(s, l). let (r, t) = m s in (r, (t, l)))"

definition on_ledger :: "('l, 'a) op \<Rightarrow> (authority_storage \<times> 'l, 'a) op" where
  "on_ledger m = (\<lambda>(s, l). let (r, k) = m l in (r, (s, k)))"

definition replay_ledger :: "'l replay_ledger_rpc option \<Rightarrow> 'l replay_ledger_rpc result" where
  "replay_ledger env =
     (case env of None \<Rightarrow> Inl (broker ''AUTH_REPLAY_LEDGER_UNAVAILABLE'' 503 True) | Some rpc \<Rightarrow> Inr rpc)"

section \<open>Bindings and statuses\<close>

definition stored_invalid :: js_error where
  "stored_invalid = broker ''ACTIVATED_AUTHORITY_EFFECT_STORED_INVALID'' 503 False"

definition stored_object :: "json \<Rightarrow> string \<Rightarrow> json result" where
  "stored_object v key =
     (if is_json_object (json_get v (js key)) then Inr (json_get v (js key)) else Inl stored_invalid)"

definition stored_string :: "json \<Rightarrow> string \<Rightarrow> js_string result" where
  "stored_string v key = (case json_get v (js key) of JStr s \<Rightarrow> Inr s | _ \<Rightarrow> Inl stored_invalid)"

definition stored_number :: "json \<Rightarrow> string \<Rightarrow> int result" where
  "stored_number v key =
     (case json_get v (js key) of
        JNum n \<Rightarrow> if is_safe_integer n then Inr (number_int n) else Inl stored_invalid
      | _ \<Rightarrow> Inl stored_invalid)"

definition replay_binding :: "(js_string \<Rightarrow> js_number) \<Rightarrow> hash \<Rightarrow> effect_row \<Rightarrow> json result" where
  "replay_binding decimal sha row =
     bind_r (stored_reservation decimal sha row) (\<lambda>reservation.
     bind_r (stored_object reservation ''replay'') (\<lambda>replay.
     bind_r (stored_string replay ''jti_sha256'') (\<lambda>jti.
     bind_r (stored_number replay ''expires_at'') (\<lambda>expires.
     bind_r (stored_string replay ''claims_sha256'') (\<lambda>claims.
       Inr (effect_replay_binding_body jti expires (ef_request_id row) claims (ef_reservation_id row)))))))"

definition returnable :: "effect_status \<Rightarrow> returnable_status option" where
  "returnable st =
     (case st of
        E_RESERVED \<Rightarrow> Some RS_RESERVED | E_SEALED \<Rightarrow> Some RS_SEALED
      | E_DISPATCHED_HOLD \<Rightarrow> Some RS_DISPATCHED_HOLD | E_CONFIRMED \<Rightarrow> Some RS_CONFIRMED | _ \<Rightarrow> None)"

primrec status_text :: "effect_status \<Rightarrow> js_string" where
  "status_text E_CANCELLED_UNDISPATCHED = js ''CANCELLED_UNDISPATCHED''"
| "status_text E_CONFIRMED = js ''CONFIRMED''"
| "status_text E_DISPATCHED_HOLD = js ''DISPATCHED_HOLD''"
| "status_text E_EXPIRED_UNDISPATCHED = js ''EXPIRED_UNDISPATCHED''"
| "status_text E_RESERVED = js ''RESERVED''"
| "status_text E_SEALED = js ''SEALED''"

definition status_canonical :: "effect_row \<Rightarrow> js_string result" where
  "status_canonical row = canonical_json (JObj
     [(js ''reservation_id'', JStr (ef_reservation_id row)),
      (js ''result_sha256'', case ef_result_sha256 row of None \<Rightarrow> JNull | Some d \<Rightarrow> JStr d),
      (js ''schema'', JStr STATUS_SCHEMA), (js ''schema_version'', JI 1),
      (js ''status'', JStr (status_text (ef_status row)))])"

section \<open>Reserving and reconciling\<close>

definition reconcile_effect ::
    "(js_string \<Rightarrow> js_number) \<Rightarrow> hash \<Rightarrow> 'l replay_ledger_rpc option \<Rightarrow> effect_row \<Rightarrow> json \<Rightarrow>
       (authority_storage \<times> 'l, effect_row) op" where
  "reconcile_effect decimal sha env row replacement =
     bind_op (lift_op (replay_ledger env)) (\<lambda>ledger.
     bind_op (lift_op (replay_binding decimal sha row)) (\<lambda>binding.
     bind_op (on_ledger (lr_observe ledger binding)) (\<lambda>observed.
       if ef_status row = E_DISPATCHED_HOLD \<and> eo_state observed = Observed CONSUMED then
         (case ef_result_sha256 row of
            None \<Rightarrow> fail_op stored_invalid
          | Some digest \<Rightarrow> on_storage (confirm_effect (ef_reservation_id row) digest))
       else if eo_state observed = Observed PREPARED then
         bind_op (on_ledger (lr_cancel ledger binding)) (\<lambda>cancelled.
           if eo_state cancelled \<noteq> Observed CANCELLED
           then fail_op (broker ''ACTIVATED_AUTHORITY_EFFECT_RECONCILIATION_CONFLICT'' 409 False)
           else
             bind_op (on_storage (rearm_after_observed_absent sha (ef_reservation_id row) replacement)) (\<lambda>rearmed.
             bind_op (on_ledger (lr_mark_terminal ledger binding)) (\<lambda>_. return_op rearmed)))
       else if eo_state observed = Observed CANCELLED \<or> ef_status row = E_SEALED \<and> eo_state observed = ABSENT then
         bind_op (on_storage (rearm_after_observed_absent sha (ef_reservation_id row) replacement)) (\<lambda>rearmed.
         bind_op (if eo_state observed = Observed CANCELLED
                  then bind_op (on_ledger (lr_mark_terminal ledger binding)) (\<lambda>_. return_op ())
                  else return_op ()) (\<lambda>_. return_op rearmed))
       else if eo_state observed = Observed CONSUMED
       then fail_op (broker ''ACTIVATED_AUTHORITY_EFFECT_RECONCILIATION_CONFLICT'' 409 False)
       else fail_op (broker ''ACTIVATED_AUTHORITY_EFFECT_RECONCILIATION_AMBIGUOUS'' 503 False))))"

definition accept_reserved ::
    "(js_string \<Rightarrow> js_number) \<Rightarrow> hash \<Rightarrow> 'l replay_ledger_rpc option \<Rightarrow> json \<Rightarrow> json \<Rightarrow> effect_row \<Rightarrow>
       (authority_storage \<times> 'l, js_string) op" where
  "accept_reserved decimal sha env proof_value reservation reserved =
     bind_op (if ef_status reserved = E_SEALED \<or> ef_status reserved = E_DISPATCHED_HOLD
              then reconcile_effect decimal sha env reserved reservation else return_op reserved) (\<lambda>row.
     bind_op (lift_op (stored_reservation decimal sha row)) (\<lambda>accepted.
       case returnable (ef_status row) of
         None \<Rightarrow> fail_op (broker ''ACTIVATED_AUTHORITY_EFFECT_STATUS_INVALID'' 503 False)
       | Some status \<Rightarrow>
           bind_op (if ef_status row = E_CONFIRMED then
               bind_op (lift_op (replay_ledger env)) (\<lambda>ledger.
               bind_op (lift_op (replay_binding decimal sha row)) (\<lambda>binding.
               bind_op (on_ledger (lr_mark_terminal ledger binding)) (\<lambda>_. return_op ())))
             else return_op ()) (\<lambda>_.
           bind_op (lift_op (result_canonical row)) (\<lambda>sealed.
           lift_op (build_reserve_result decimal sha proof_value accepted status sealed)))))"

type_synonym head_proof_builder = "head_row \<Rightarrow> js_string \<Rightarrow> js_string \<Rightarrow> int \<Rightarrow> json result"

definition coordinator_reserve ::
    "(js_string \<Rightarrow> js_number) \<Rightarrow> hash \<Rightarrow> 'l replay_ledger_rpc option \<Rightarrow> head_proof_builder \<Rightarrow> int \<Rightarrow> int \<Rightarrow>
       js_string \<Rightarrow> (authority_storage \<times> 'l, js_string) op" where
  "coordinator_reserve decimal sha env build_head_proof now store_now canonical =
     bind_op (lift_op (parse_reserve_request decimal canonical)) (\<lambda>request.
     bind_op (lift_op (assert_fresh_head_request (rs_requested_at request) now)) (\<lambda>_.
     bind_op (lift_op (require_r
         (case date_parse (rs_expires_at request) of None \<Rightarrow> True | Some e \<Rightarrow> \<not> e < now)
         (broker ''ACTIVATED_AUTHORITY_EFFECT_REQUEST_STALE'' 409 False))) (\<lambda>_.
     bind_op get_op (\<lambda>(s, _).
     bind_op (lift_op (require_r (pending_head s = None)
         (broker ''ACTIVATED_AUTHORITY_HEAD_ADVANCE_PENDING'' 503 True))) (\<lambda>_.
     bind_op (lift_op (case current_head s of
         None \<Rightarrow> Inl (broker ''ACTIVATED_AUTHORITY_HEAD_UNAVAILABLE'' 503 True) | Some h \<Rightarrow> Inr h)) (\<lambda>current.
     bind_op (lift_op (build_head_proof current (rs_request_id request) (rs_requested_at request) now)) (\<lambda>proof_value.
     bind_op (lift_op (assert_current_head_matches_request sha proof_value (rs_read_request request))) (\<lambda>_.
     bind_op (lift_op (build_effect_reservation sha
         \<lparr>ri_created_at = rs_requested_at request, ri_expires_at = rs_expires_at request,
          ri_head_generation = hr_generation current, ri_head_record_id = hr_record_id current,
          ri_head_record_sha256 = hr_record_sha256 current, ri_head_proof = proof_value,
          ri_intent_sha256 = rs_intent_sha256 request, ri_replay_claims_sha256 = rs_replay_claims_sha256 request,
          ri_replay_expires_at = rs_replay_expires_at request, ri_replay_jti_sha256 = rs_replay_jti_sha256 request,
          ri_request_id = rs_request_id request\<rparr>)) (\<lambda>reservation.
     bind_op (on_storage (reserve_effect sha store_now reservation)) (\<lambda>reserved.
       accept_reserved decimal sha env proof_value reservation reserved))))))))))"

section \<open>Transitions\<close>

definition prepare_and_dispatch ::
    "(js_string \<Rightarrow> js_number) \<Rightarrow> hash \<Rightarrow> 'l replay_ledger_rpc option \<Rightarrow> int \<Rightarrow> effect_row \<Rightarrow>
       (authority_storage \<times> 'l, effect_row) op" where
  "prepare_and_dispatch decimal sha env now row =
     (if ef_status row = E_DISPATCHED_HOLD \<or> ef_status row = E_CONFIRMED then return_op row
      else if ef_status row \<noteq> E_SEALED
      then fail_op (broker ''ACTIVATED_AUTHORITY_EFFECT_NOT_DISPATCHABLE'' 409 False)
      else
        bind_op (lift_op (replay_ledger env)) (\<lambda>ledger.
        bind_op (lift_op (replay_binding decimal sha row)) (\<lambda>binding.
        bind_op (on_ledger (lr_prepare ledger binding)) (\<lambda>prepared.
          if eo_state prepared \<noteq> Observed PREPARED
          then fail_op (broker ''ACTIVATED_AUTHORITY_EFFECT_RECONCILIATION_CONFLICT'' 409 False)
          else on_storage (dispatch_effect (ef_reservation_id row) now)))))"

definition commit_and_confirm ::
    "(js_string \<Rightarrow> js_number) \<Rightarrow> hash \<Rightarrow> 'l replay_ledger_rpc option \<Rightarrow> effect_row \<Rightarrow> js_string \<Rightarrow>
       (authority_storage \<times> 'l, effect_row) op" where
  "commit_and_confirm decimal sha env row digest =
     (if ef_status row \<noteq> E_DISPATCHED_HOLD \<and> ef_status row \<noteq> E_CONFIRMED
      then fail_op (broker ''ACTIVATED_AUTHORITY_EFFECT_NOT_DISPATCHED'' 409 False)
      else
        bind_op (lift_op (replay_binding decimal sha row)) (\<lambda>binding.
        bind_op (lift_op (replay_ledger env)) (\<lambda>ledger.
        bind_op (on_ledger (lr_commit ledger binding)) (\<lambda>committed.
          if eo_state committed \<noteq> Observed CONSUMED
          then fail_op (broker ''ACTIVATED_AUTHORITY_EFFECT_RECONCILIATION_CONFLICT'' 409 False)
          else
            bind_op (on_storage (confirm_effect (ef_reservation_id row) digest)) (\<lambda>confirmed.
            bind_op (on_ledger (lr_mark_terminal ledger binding)) (\<lambda>_. return_op confirmed))))))"

definition find_requested ::
    "transition_request \<Rightarrow> (authority_storage \<times> 'l, effect_row) op" where
  "find_requested request =
     bind_op get_op (\<lambda>(s, _).
       lift_op (case find_effect (tq_reservation_id request) s of
         None \<Rightarrow> Inl (broker ''ACTIVATED_AUTHORITY_EFFECT_MISSING'' 409 False)
       | Some row \<Rightarrow>
           if ef_request_id row = tq_request_id request then Inr row
           else Inl (broker ''ACTIVATED_AUTHORITY_EFFECT_MISSING'' 409 False)))"

definition coordinator_transition ::
    "(js_string \<Rightarrow> js_number) \<Rightarrow> hash \<Rightarrow> 'l replay_ledger_rpc option \<Rightarrow> int \<Rightarrow> int \<Rightarrow> js_string \<Rightarrow>
       (authority_storage \<times> 'l, js_string) op" where
  "coordinator_transition decimal sha env now dispatch_now canonical =
     bind_op (lift_op (parse_transition_request decimal canonical)) (\<lambda>request.
     bind_op (lift_op (assert_fresh_head_request (tq_requested_at request) now)) (\<lambda>_.
     bind_op (find_requested request) (\<lambda>existing.
     bind_op (case tq_action request of
         SEAL \<Rightarrow> fail_op (broker ''ACTIVATED_AUTHORITY_EFFECT_TRANSITION_INVALID'' 409 False)
       | DISPATCH_EFFECT \<Rightarrow> prepare_and_dispatch decimal sha env dispatch_now existing
       | CONFIRM \<Rightarrow>
           (case tq_result_sha256 request of
              None \<Rightarrow> fail_op (broker ''ACTIVATED_AUTHORITY_EFFECT_RESULT_INVALID'' 409 False)
            | Some digest \<Rightarrow> commit_and_confirm decimal sha env existing digest)
       | CANCEL \<Rightarrow> on_storage (cancel_undispatched (tq_reservation_id request))) (\<lambda>row.
       lift_op (status_canonical row)))))"

definition coordinator_seal ::
    "(js_string \<Rightarrow> js_number) \<Rightarrow> hash \<Rightarrow> int \<Rightarrow> js_string \<Rightarrow> js_string \<Rightarrow>
       (authority_storage \<times> 'l, js_string) op" where
  "coordinator_seal decimal sha now canonical canonical_result =
     bind_op (lift_op (parse_transition_request decimal canonical)) (\<lambda>request.
     bind_op (lift_op (assert_fresh_head_request (tq_requested_at request) now)) (\<lambda>_.
     bind_op (lift_op (require_r (tq_action request = SEAL)
         (broker ''ACTIVATED_AUTHORITY_EFFECT_TRANSITION_INVALID'' 409 False))) (\<lambda>_.
     bind_op (find_requested request) (\<lambda>_.
     bind_op (on_storage (seal_effect decimal sha (tq_reservation_id request) canonical_result)) (\<lambda>row.
       lift_op (status_canonical row))))))"

end
