(* ===== verification/GlobalHead.thy ===== *)
theory GlobalHead imports Coordinator begin

text \<open>
  The authority object (\<open>global-activated-authority-head.ts\<close>): it advances the head by one verified
  activation snapshot at a time, reads the current head, and runs the coordinator. Its calls are
  serialised by \<open>exclusive\<close>, so a call is one operation on the storage, the replay ledger and the
  outside world. The verification of a snapshot is a parameter (its whole-snapshot checks are not part of
  this development), and so are the two services: the mirror, which stores a head, and the observer.
\<close>

definition on_objects :: "('s, 'a) op \<Rightarrow> ('s \<times> 'w, 'a) op" where
  "on_objects m = (\<lambda>(s, w). let (r, t) = m s in (r, (t, w)))"

definition on_heads :: "(authority_storage, 'a) op \<Rightarrow> ((authority_storage \<times> 'l) \<times> 'w, 'a) op" where
  "on_heads m = on_objects (on_storage m)"

definition on_world :: "('w, 'a) op \<Rightarrow> ('s \<times> 'w, 'a) op" where
  "on_world m = (\<lambda>(s, w). let (r, v) = m w in (r, (s, v)))"

record verified_activation =
  va_activated :: activation_record
  va_activated_service_authorities_sha256 :: js_string
  va_provisioned :: activation_record
  va_worker_version_id :: js_string

record 'w head_services =
  hs_inspect :: "js_string \<Rightarrow> ('w, b2_version_inventory) op"
  hs_mirror :: "json \<Rightarrow> ('w, unit) op"
  hs_mirror_bound :: bool
  hs_observer_bound :: bool

definition require_service :: "bool \<Rightarrow> string \<Rightarrow> unit result" where
  "require_service bound code = require_r bound (broker code 503 True)"

definition require_head_string :: "json \<Rightarrow> string \<Rightarrow> js_string result" where
  "require_head_string v key =
     (case json_get v (js key) of JStr s \<Rightarrow> Inr s
      | _ \<Rightarrow> Inl (broker ''ACTIVATED_AUTHORITY_HEAD_INVALID'' 503 False))"

section \<open>Stored heads and their proofs\<close>

definition row_head :: "(js_string \<Rightarrow> js_number) \<Rightarrow> hash \<Rightarrow> head_row \<Rightarrow> json result" where
  "row_head decimal sha row =
     bind_r (decode_effect_bytes (hr_canonical_bytes row)) (\<lambda>t.
     bind_r (case json_parse decimal t of
         Inl _ \<Rightarrow> Inl (broker ''ACTIVATED_AUTHORITY_HEAD_STORED_INVALID'' 503 False) | Inr v \<Rightarrow> Inr v) (\<lambda>decoded.
     bind_r (parse_activated_authority_head sha decoded) (\<lambda>head.
     bind_r (canonical_json head) (\<lambda>u.
     bind_r (require_r (t = u) (broker ''ACTIVATED_AUTHORITY_HEAD_STORED_NONCANONICAL'' 503 False)) (\<lambda>_.
       Inr head)))))"

definition proof_for :: "(js_string \<Rightarrow> js_number) \<Rightarrow> hash \<Rightarrow> head_row \<Rightarrow> js_string \<Rightarrow> js_string \<Rightarrow> int \<Rightarrow> json result" where
  "proof_for decimal sha row request_id requested_at now =
     (case (hr_mirror_state row, hr_worm_key row, hr_worm_version_id row, hr_worm_retention_until row) of
        (M_CONFIRMED, Some key, Some version_id, Some until) \<Rightarrow>
          bind_r (to_iso_string now) (\<lambda>observed_at.
          bind_r (row_head decimal sha row) (\<lambda>head.
            build_current_head_proof sha
              \<lparr>hp_broker_accepted_at = observed_at, hp_head = head, hp_observed_at = observed_at,
               hp_request_id = request_id, hp_requested_at = requested_at,
               hp_worm = \<lparr>aw_digest = hr_record_sha256 row, aw_key = key, aw_retention_until = until,
                 aw_version_id = version_id\<rparr>\<rparr>))
      | _ \<Rightarrow> Inl (broker ''ACTIVATED_AUTHORITY_HEAD_ADVANCE_PENDING'' 503 True))"

definition assert_current :: "head_row \<Rightarrow> authority_storage \<Rightarrow> unit result" where
  "assert_current row s =
     require_r
       (pending_head s = None \<and>
        (case current_head s of
           None \<Rightarrow> False
         | Some current \<Rightarrow>
             hr_generation current = hr_generation row \<and> hr_record_id current = hr_record_id row \<and>
             hr_record_sha256 current = hr_record_sha256 row))
       (broker ''ACTIVATED_AUTHORITY_HEAD_STALE'' 409 False)"

section \<open>Advancing the head\<close>

definition activation_worm_body :: "activation_worm \<Rightarrow> json" where
  "activation_worm_body worm = JObj
     [(js ''digest'', JStr (aw_digest worm)), (js ''key'', JStr (aw_key worm)),
      (js ''retention_until'', JStr (aw_retention_until worm)), (js ''version_id'', JStr (aw_version_id worm))]"

definition candidate_record :: "activation_record \<Rightarrow> json" where
  "candidate_record r = JObj
     [(js ''record_id'', JStr (ar_record_id r)), (js ''record_sha256'', JStr (ar_digest r)),
      (js ''worm'', activation_worm_body (ar_worm r))]"

definition semantic_advance_body :: "verified_activation \<Rightarrow> json" where
  "semantic_advance_body v = JObj
     [(js ''activated'', candidate_record (va_activated v)),
      (js ''activated_service_authorities_sha256'', JStr (va_activated_service_authorities_sha256 v)),
      (js ''ingress_worker_version_id'', JStr (va_worker_version_id v)),
      (js ''provisioned'', candidate_record (va_provisioned v)),
      (js ''schema'', JStr (js ''dpone.activated-service-authority-head-candidate.v1'')),
      (js ''schema_version'', JI 1)]"

definition semantic_advance_digest :: "hash \<Rightarrow> verified_activation \<Rightarrow> js_string result" where
  "semantic_advance_digest sha v =
     bind_r (canonical_bytes (semantic_advance_body v)) (\<lambda>bs. Inr (sha256_tag sha bs))"

definition observe_exact ::
    "hash \<Rightarrow> hash \<Rightarrow> (js_string \<Rightarrow> int option) \<Rightarrow> 'w head_services \<Rightarrow> bytes \<Rightarrow> js_string \<Rightarrow> js_string \<Rightarrow> js_string \<Rightarrow>
       ('w, activation_worm) op" where
  "observe_exact sha sha1 parse_date services bs committed_at digest key =
     reconcile_exact_object sha sha1 parse_date (hs_inspect services)
       \<lparr>ei_bytes = bs, ei_committed_at = committed_at, ei_content_sha1 = hex_bytes (sha1 bs),
        ei_digest = digest, ei_key = key\<rparr>"

definition requery_activation_worm ::
    "hash \<Rightarrow> hash \<Rightarrow> (js_string \<Rightarrow> int option) \<Rightarrow> 'w head_services \<Rightarrow> activation_record \<Rightarrow> ('w, unit) op" where
  "requery_activation_worm sha sha1 parse_date services r =
     bind_op (lift_op (require_service (hs_observer_bound services) ''WORM_VERSION_OBSERVER_UNAVAILABLE'')) (\<lambda>_.
     bind_op (lift_op (canonical_bytes (ar_envelope r))) (\<lambda>bs.
     bind_op (lift_op (require_head_string (ar_envelope r) ''committed_at'')) (\<lambda>committed_at.
     bind_op (observe_exact sha sha1 parse_date services bs committed_at (ar_digest r)
       (aw_key (ar_worm r))) (\<lambda>reconciled.
       lift_op (require_r
         (aw_version_id reconciled = aw_version_id (ar_worm r) \<and>
          aw_retention_until reconciled = aw_retention_until (ar_worm r))
         (broker ''ACTIVATED_AUTHORITY_HEAD_A1_WORM_MISMATCH'' 503 False))))))"

text \<open>\<open>Promise.all\<close> of two operations that run whether or not the other fails.\<close>

definition both_op :: "('w, unit) op \<Rightarrow> ('w, unit) op \<Rightarrow> ('w, unit) op" where
  "both_op m n = (\<lambda>w. let (r, w1) = m w; (q, w2) = n w1 in (bind_r r (\<lambda>_. q), w2))"

definition complete_pending ::
    "(js_string \<Rightarrow> js_number) \<Rightarrow> hash \<Rightarrow> hash \<Rightarrow> (js_string \<Rightarrow> int option) \<Rightarrow> 'w head_services \<Rightarrow> head_row \<Rightarrow>
       ((authority_storage \<times> 'l) \<times> 'w, head_row) op" where
  "complete_pending decimal sha sha1 parse_date services row =
     bind_op (lift_op (row_head decimal sha row)) (\<lambda>head.
     bind_op (lift_op (require_service (hs_mirror_bound services) ''WORM_MIRROR_UNAVAILABLE'')) (\<lambda>_.
     bind_op (lift_op (require_service (hs_observer_bound services) ''WORM_VERSION_OBSERVER_UNAVAILABLE'')) (\<lambda>_.
       if hr_mirror_state row = M_CONFIRMED then return_op row
       else
         bind_op (if hr_mirror_state row = M_PREPARED then
             bind_op (on_heads (mark_dispatched (hr_generation row))) (\<lambda>_. on_world (hs_mirror services head))
           else return_op ()) (\<lambda>_.
         bind_op (lift_op (canonical_bytes head)) (\<lambda>bs.
         bind_op (lift_op (head_key sha head)) (\<lambda>key.
         bind_op (on_world (observe_exact sha sha1 parse_date services bs (hr_committed_at row)
             (hr_record_sha256 row) key)) (\<lambda>worm.
           on_heads (confirm_head decimal sha (hr_generation row) worm))))))))"

definition current_reference :: "head_row option \<Rightarrow> json" where
  "current_reference current =
     (case current of
        None \<Rightarrow> JStr (js ''GENESIS'')
      | Some row \<Rightarrow> JObj
          [(js ''generation'', JI (hr_generation row)), (js ''record_id'', JStr (hr_record_id row)),
           (js ''record_sha256'', JStr (hr_record_sha256 row))])"

definition reserve_advance ::
    "hash \<Rightarrow> verified_activation \<Rightarrow> js_string \<Rightarrow> int \<Rightarrow> int \<Rightarrow> (authority_storage, head_row) op" where
  "reserve_advance sha v request_digest commit_now store_now =
     bind_op get_op (\<lambda>s.
     let current = current_head s;
         gen = (case current of None \<Rightarrow> 0 | Some row \<Rightarrow> hr_generation row) + 1 in
     bind_op (lift_op (to_iso_string commit_now)) (\<lambda>committed_at.
     bind_op (lift_op (build_activated_authority_head sha
         \<lparr>hi_activated_record_id = ar_record_id (va_activated v),
          hi_activated_record_sha256 = ar_digest (va_activated v),
          hi_activated_service_authorities_sha256 = va_activated_service_authorities_sha256 v,
          hi_activated_worm = ar_worm (va_activated v), hi_committed_at = committed_at, hi_generation = gen,
          hi_ingress_worker_version_id = va_worker_version_id v,
          hi_previous = current_reference current\<rparr>)) (\<lambda>head.
     bind_op (lift_op (require_head_string head ''record_id'')) (\<lambda>record_id.
     bind_op (lift_op (head_record_sha256 sha head)) (\<lambda>record_sha256.
       reserve_head sha store_now
         \<lparr>hv_activated_record_id = ar_record_id (va_activated v),
          hv_activated_record_sha256 = ar_digest (va_activated v),
          hv_activated_service_authorities_sha256 = va_activated_service_authorities_sha256 v,
          hv_committed_at = committed_at, hv_generation = gen, hv_head = head,
          hv_ingress_worker_version_id = va_worker_version_id v, hv_record_id = record_id,
          hv_record_sha256 = record_sha256, hv_request_digest = request_digest\<rparr>)))))"

record advance_clock =
  cl_now :: int
  cl_commit :: int
  cl_store :: int
  cl_proof :: int

definition advance ::
    "(js_string \<Rightarrow> js_number) \<Rightarrow> hash \<Rightarrow> hash \<Rightarrow> (js_string \<Rightarrow> int option) \<Rightarrow> 'w head_services \<Rightarrow>
       (activation_snapshot \<Rightarrow> verified_activation result) \<Rightarrow> advance_clock \<Rightarrow> js_string \<Rightarrow>
       ((authority_storage \<times> 'l) \<times> 'w, js_string) op" where
  "advance decimal sha sha1 parse_date services verify_snapshot clock canonical =
     bind_op (lift_op (parse_advance_request decimal canonical)) (\<lambda>request.
     bind_op (lift_op (assert_fresh_head_request (av_requested_at request) (cl_now clock))) (\<lambda>_.
     bind_op (lift_op (verify_snapshot (av_snapshot request))) (\<lambda>v.
     bind_op (on_world (both_op
         (requery_activation_worm sha sha1 parse_date services (va_provisioned v))
         (requery_activation_worm sha sha1 parse_date services (va_activated v)))) (\<lambda>_.
     bind_op (lift_op (semantic_advance_digest sha v)) (\<lambda>request_digest.
     bind_op (on_heads get_op) (\<lambda>s.
     bind_op (case find_by_request request_digest s of
         Some row \<Rightarrow> return_op row
       | None \<Rightarrow> on_heads (reserve_advance sha v request_digest (cl_commit clock) (cl_store clock))) (\<lambda>row.
     bind_op (complete_pending decimal sha sha1 parse_date services row) (\<lambda>completed.
     bind_op (on_heads get_op) (\<lambda>t.
     bind_op (lift_op (assert_current completed t)) (\<lambda>_.
     lift_op (bind_r (proof_for decimal sha completed (av_request_id request) (av_requested_at request)
         (cl_proof clock)) canonical_json)))))))))))"

section \<open>Reading the head and running effects\<close>

definition current_canonical ::
    "(js_string \<Rightarrow> js_number) \<Rightarrow> hash \<Rightarrow> int \<Rightarrow> js_string \<Rightarrow> (authority_storage, js_string) op" where
  "current_canonical decimal sha now canonical =
     bind_op (lift_op (parse_head_read_request_canonical decimal canonical)) (\<lambda>request.
     bind_op (lift_op (require_head_string request ''requested_at'')) (\<lambda>requested_at.
     bind_op (lift_op (assert_fresh_head_request requested_at now)) (\<lambda>_.
     bind_op get_op (\<lambda>s.
     bind_op (lift_op (require_r (pending_head s = None)
         (broker ''ACTIVATED_AUTHORITY_HEAD_ADVANCE_PENDING'' 503 True))) (\<lambda>_.
     bind_op (lift_op (case current_head s of
         None \<Rightarrow> Inl (broker ''ACTIVATED_AUTHORITY_HEAD_UNAVAILABLE'' 503 True) | Some h \<Rightarrow> Inr h)) (\<lambda>current.
     bind_op (lift_op (require_head_string request ''request_id'')) (\<lambda>request_id.
     bind_op (lift_op (proof_for decimal sha current request_id requested_at now)) (\<lambda>proof_value.
     bind_op (lift_op (assert_current_head_matches_request sha proof_value request)) (\<lambda>_.
       lift_op (canonical_json proof_value))))))))))"

definition reserve_activation_proof_effect where
  "reserve_activation_proof_effect decimal sha env now store_now canonical =
     coordinator_reserve decimal sha env (proof_for decimal sha) now store_now canonical"

definition transition_activation_proof_effect where
  "transition_activation_proof_effect decimal sha env now dispatch_now canonical =
     coordinator_transition decimal sha env now dispatch_now canonical"

definition seal_activation_proof_effect where
  "seal_activation_proof_effect decimal sha now canonical canonical_result =
     coordinator_seal decimal sha now canonical canonical_result"

end
