(* ===== verification/AuthorityHistory.thy ===== *)
theory AuthorityHistory imports EffectStore begin

text \<open>
  Histories of the authority object's storage. Every operation of the two stores is a sequence of
  writes of five kinds: rows of the effect journal move between statuses, a reservation is added, a head
  is added, dispatched or confirmed. The invariants of the storage are proved write by write.
\<close>

section \<open>Parsed JSON\<close>

text \<open>\<open>JSON.parse\<close> never yields an object with a member twice.\<close>

lemma put_member_wf:
  "distinct (map fst kvs) \<Longrightarrow> \<forall>(l, w) \<in> set kvs. well_formed w \<Longrightarrow> well_formed v \<Longrightarrow>
     distinct (map fst (put_member k v kvs)) \<and> (\<forall>(l, w) \<in> set (put_member k v kvs). well_formed w)"
proof (induction k v kvs rule: put_member.induct)
  case (2 k v l w kvs)
  have "set (map fst (put_member k v kvs)) = insert k (set (map fst kvs))" for kvs :: members
    by (induction k v kvs rule: put_member.induct) auto
  with 2 show ?case by auto
qed simp

lemma parse_wf:
  "parse_value decimal n s = Some (v, t) \<Longrightarrow> well_formed v"
  "parse_items decimal n s = Some (xs, t) \<Longrightarrow> \<forall>x \<in> set xs. well_formed x"
  "parse_members decimal n kvs s = Some (kvs', t) \<Longrightarrow> distinct (map fst kvs) \<Longrightarrow>
     \<forall>(l, w) \<in> set kvs. well_formed w \<Longrightarrow> distinct (map fst kvs') \<and> (\<forall>(l, w) \<in> set kvs'. well_formed w)"
proof (induction decimal n s and decimal n s and decimal n kvs s arbitrary: v t and xs t and kvs' t
    rule: parse_value_parse_items_parse_members.induct)
  case (2 decimal n s)
  then show ?case
    by (auto simp: parse_value.simps(2) list_all_iff split: list.splits if_splits) fastforce
next
  case (4 decimal n s)
  then show ?case by (auto simp: parse_items.simps(2) split: option.splits list.splits if_splits)
next
  case (6 decimal n kvs s)
  obtain cs k t0 r v t1 e r' where s: "s = 0x22 # cs" "parse_string_body cs = Some (k, t0)" "skip_ws t0 = 0x3A # r"
    "parse_value decimal n (skip_ws r) = Some (v, t1)" "skip_ws t1 = e # r'"
    and rest: "e = 0x7D \<and> kvs' = put_member k v kvs \<or>
      e \<noteq> 0x7D \<and> e = 0x2C \<and> parse_members decimal n (put_member k v kvs) (skip_ws r') = Some (kvs', t)"
    using 6(3) by (auto simp: parse_members.simps(2) split: list.splits option.splits if_splits prod.splits)
  have v: "well_formed v" using 6(1) [OF s(1) _ s(2) refl s(3) _ s(4)] by simp
  note p = put_member_wf [OF 6(4,5) v, of k]
  show ?case
  proof (cases "e = 0x7D")
    case True
    then show ?thesis using rest p by auto
  next
    case False
    then show ?thesis using rest p 6(2) [OF s(1) _ s(2) refl s(3) _ s(4) refl s(5)] by auto
  qed
qed (simp_all add: parse_value.simps(1) parse_items.simps(1) parse_members.simps(1))

lemma json_parse_well_formed: "json_parse decimal s = Inr v \<Longrightarrow> well_formed v"
  by (auto simp: json_parse_def dest: parse_wf(1) split: option.splits if_splits)

section \<open>What the stored bytes hold\<close>

definition same_head :: "head_row \<Rightarrow> effect_row \<Rightarrow> bool" where
  "same_head h r \<longleftrightarrow>
     ef_head_generation r = hr_generation h \<and> ef_head_record_id r = hr_record_id h \<and>
     ef_head_record_sha256 r = hr_record_sha256 h"

definition under_current :: "authority_storage \<Rightarrow> effect_row \<Rightarrow> bool" where
  "under_current s r \<longleftrightarrow> pending_head s = None \<and> (\<exists>h. current_head s = Some h \<and> same_head h r)"

text \<open>The head a reservation names is the row's.\<close>

definition names_head :: "json \<Rightarrow> effect_row \<Rightarrow> bool" where
  "names_head head r \<longleftrightarrow>
     is_json_object head \<and> is_number (json_get head (js ''generation'')) (ef_head_generation r) \<and>
     json_get head (js ''record_id'') = JStr (ef_head_record_id r) \<and>
     json_get head (js ''record_sha256'') = JStr (ef_head_record_sha256 r)"

definition reservation_row :: "json \<Rightarrow> effect_row \<Rightarrow> bool" where
  "reservation_row v r \<longleftrightarrow>
     json_get v (js ''reservation_id'') = JStr (ef_reservation_id r) \<and>
     json_get v (js ''intent_sha256'') = JStr (ef_intent_sha256 r) \<and>
     json_get v (js ''request_id'') = JStr (ef_request_id r) \<and>
     json_get v (js ''created_at'') = JStr (ef_created_at r) \<and>
     json_get v (js ''expires_at'') = JStr (ef_expires_at r) \<and>
     names_head (json_get v (js ''head'')) r"

definition effect_bound :: "hash \<Rightarrow> effect_row \<Rightarrow> bool" where
  "effect_bound sha r \<longleftrightarrow>
     (\<exists>v. parse_effect_reservation sha v = Inr v \<and> well_formed v \<and>
        canonical_bytes v = Inr (ef_canonical_bytes r) \<and> reservation_row v r)"

definition sealed_bytes :: "hash \<Rightarrow> bytes \<Rightarrow> js_string \<Rightarrow> bool" where
  "sealed_bytes sha bs digest \<longleftrightarrow>
     (\<exists>v. is_json_object v \<and> well_formed v \<and> canonical_bytes v = Inr bs) \<and> digest = sha256_tag sha bs"

section \<open>Writes\<close>

text \<open>
  How one row of the journal moves. \<open>C\<close> and \<open>R\<close> restrict which rows a caller may confirm, and which
  dispatched rows it may arm again.
\<close>

inductive effect_move ::
    "hash \<Rightarrow> (effect_row \<Rightarrow> bool) \<Rightarrow> (effect_row \<Rightarrow> bool) \<Rightarrow> authority_storage \<Rightarrow> effect_row \<Rightarrow> effect_row \<Rightarrow> bool"
  for sha :: hash and C R :: "effect_row \<Rightarrow> bool" and s :: authority_storage where
  stays: "effect_move sha C R s r r"
| expires: "ef_status r \<in> {E_RESERVED, E_SEALED} \<Longrightarrow> effect_move sha C R s r (expired_undispatched r)"
| cancels: "ef_status r \<in> {E_RESERVED, E_SEALED} \<Longrightarrow> effect_move sha C R s r (cancelled_undispatched r)"
| seals: "ef_status r = E_RESERVED \<Longrightarrow> sealed_bytes sha bs digest \<Longrightarrow>
    effect_move sha C R s r (sealed_effect bs digest r)"
| dispatches: "ef_status r = E_SEALED \<Longrightarrow> effect_move sha C R s r (r\<lparr>ef_status := E_DISPATCHED_HOLD\<rparr>)"
| confirms: "ef_status r = E_DISPATCHED_HOLD \<Longrightarrow> C r \<Longrightarrow> effect_move sha C R s r (r\<lparr>ef_status := E_CONFIRMED\<rparr>)"
| rearms: "ef_status r \<in> {E_RESERVED, E_EXPIRED_UNDISPATCHED, E_CANCELLED_UNDISPATCHED, E_DISPATCHED_HOLD} \<Longrightarrow>
    ef_status r = E_DISPATCHED_HOLD \<longrightarrow> R r \<Longrightarrow> under_current s r \<Longrightarrow>
    effect_bound sha (rearmed_effect bs request created expires r) \<Longrightarrow>
    effect_move sha C R s r (rearmed_effect bs request created expires r)"

inductive_cases effect_moveE [consumes 1, case_names stays expires cancels seals dispatches confirms rearms]:
  "effect_move sha C R s r q"

definition head_bound :: "hash \<Rightarrow> head_row option \<Rightarrow> head_row \<Rightarrow> bool" where
  "head_bound sha before row \<longleftrightarrow>
     (\<exists>v. parse_activated_authority_head sha v = Inr v \<and> well_formed v \<and>
        canonical_bytes v = Inr (hr_canonical_bytes row) \<and>
        head_record_sha256 sha v = Inr (hr_record_sha256 row) \<and>
        json_get v (js ''record_id'') = JStr (hr_record_id row) \<and>
        json_get v (js ''committed_at'') = JStr (hr_committed_at row) \<and>
        json_get v (js ''ingress_worker_version_id'') = JStr (hr_ingress_worker_version_id row) \<and>
        assert_previous (json_get v (js ''previous'')) before = Inr ())"

inductive authority_write ::
    "hash \<Rightarrow> (effect_row \<Rightarrow> bool) \<Rightarrow> (effect_row \<Rightarrow> bool) \<Rightarrow> authority_storage \<Rightarrow> authority_storage \<Rightarrow> bool"
  for sha :: hash and C R :: "effect_row \<Rightarrow> bool" where
  moved: "(\<And>r. r \<in> set (as_effects s) \<Longrightarrow> effect_move sha C R s r (f r)) \<Longrightarrow>
    effects_ok (map f (as_effects s)) \<Longrightarrow> authority_write sha C R s (s\<lparr>as_effects := map f (as_effects s)\<rparr>)"
| reserved: "effects_ok (as_effects s @ [row]) \<Longrightarrow> ef_status row = E_RESERVED \<Longrightarrow> effect_bound sha row \<Longrightarrow>
    under_current s row \<Longrightarrow> authority_write sha C R s (s\<lparr>as_effects := as_effects s @ [row]\<rparr>)"
| prepared: "heads_ok (as_heads s @ [row]) \<Longrightarrow> hr_mirror_state row = M_PREPARED \<Longrightarrow> pending_head s = None \<Longrightarrow>
    \<not> has_nonterminal_effect s \<Longrightarrow>
    hr_generation row = (case current_head s of None \<Rightarrow> 0 | Some h \<Rightarrow> hr_generation h) + 1 \<Longrightarrow>
    head_bound sha (current_head s) row \<Longrightarrow> authority_write sha C R s (s\<lparr>as_heads := as_heads s @ [row]\<rparr>)"
| dispatched: "row \<in> set (as_heads s) \<Longrightarrow> hr_mirror_state row = M_PREPARED \<Longrightarrow>
    t = update_where (\<lambda>x. hr_generation x = hr_generation row) (\<lambda>x. x\<lparr>hr_mirror_state := M_DISPATCHED_HOLD\<rparr>)
      (as_heads s) \<Longrightarrow> heads_ok t \<Longrightarrow> authority_write sha C R s (s\<lparr>as_heads := t\<rparr>)"
| confirmed: "row \<in> set (as_heads s) \<Longrightarrow> hr_mirror_state row = M_DISPATCHED_HOLD \<Longrightarrow>
    hr_record_sha256 row = aw_digest worm \<Longrightarrow>
    t = update_where (\<lambda>x. hr_generation x = hr_generation row) (confirmed_head worm) (as_heads s) \<Longrightarrow>
    heads_ok t \<Longrightarrow> authority_write sha C R s (s\<lparr>as_heads := t\<rparr>)"

abbreviation authority_writes ::
    "hash \<Rightarrow> (effect_row \<Rightarrow> bool) \<Rightarrow> (effect_row \<Rightarrow> bool) \<Rightarrow> authority_storage \<Rightarrow> authority_storage \<Rightarrow> bool" where
  "authority_writes sha C R \<equiv> (authority_write sha C R)\<^sup>*\<^sup>*"

lemma write_storage_ok: "authority_write sha C R s t \<Longrightarrow> storage_ok s \<Longrightarrow> storage_ok t"
  by (induction rule: authority_write.induct) (auto simp: storage_ok_def)

lemma writes_storage_ok: "authority_writes sha C R s t \<Longrightarrow> storage_ok s \<Longrightarrow> storage_ok t"
  by (induction rule: rtranclp_induct) (auto intro: write_storage_ok)

lemma effect_move_mono:
  "effect_move sha C R s r q \<Longrightarrow> (\<And>x. C x \<Longrightarrow> C' x) \<Longrightarrow> (\<And>x. R x \<Longrightarrow> R' x) \<Longrightarrow> effect_move sha C' R' s r q"
  by (induction rule: effect_move.induct) (auto intro: effect_move.intros)

lemma authority_write_mono:
  assumes "authority_write sha C R s t" and "\<And>x. C x \<Longrightarrow> C' x" and "\<And>x. R x \<Longrightarrow> R' x"
  shows "authority_write sha C' R' s t"
  using assms(1)
proof cases
  case (moved f)
  have "effect_move sha C' R' s r (f r)" if "r \<in> set (as_effects s)" for r
    using moved(2) [OF that] assms(2,3) by (rule effect_move_mono)
  then show ?thesis unfolding moved(1) using moved(3) by (rule authority_write.moved)
qed (auto intro: authority_write.intros)

section \<open>What the operations of the effect store write\<close>

lemma write_where:
  assumes "write_effect_rows s (update_where p f (as_effects s)) = Inr t"
    and "\<And>r. r \<in> set (as_effects s) \<Longrightarrow> p r \<Longrightarrow> effect_move sha C R s r (f r)"
  shows "authority_write sha C R s t" and "as_heads t = as_heads s"
proof -
  have t: "effects_ok (update_where p f (as_effects s))" "t = s\<lparr>as_effects := update_where p f (as_effects s)\<rparr>"
    using assms(1) by (simp_all add: write_effect_rows_eq_Inr)
  show "authority_write sha C R s t"
    unfolding t(2) update_where_def
    by (rule authority_write.moved) (use assms(2) t(1) in \<open>auto simp: update_where_def intro: effect_move.stays\<close>)
  show "as_heads t = as_heads s" by (simp add: t(2))
qed

lemma find_effect_iff:
  "storage_ok s \<Longrightarrow> find_effect rid s = Some r \<longleftrightarrow> r \<in> set (as_effects s) \<and> ef_reservation_id r = rid"
  unfolding find_effect_def storage_ok_def by (rule effects.lookup_Some_iff) simp

lemma require_effect_eq_Inr:
  "storage_ok s \<Longrightarrow> require_effect rid s = Inr r \<longleftrightarrow> r \<in> set (as_effects s) \<and> ef_reservation_id r = rid"
  by (auto simp: require_effect_def find_effect_iff [symmetric] split: option.splits)

lemma same_reservation_id:
  "storage_ok s \<Longrightarrow> r \<in> set (as_effects s) \<Longrightarrow> q \<in> set (as_effects s) \<Longrightarrow>
     ef_reservation_id r = ef_reservation_id q \<Longrightarrow> r = q"
  unfolding storage_ok_def using effects.same_key by blast

lemma stored_effect_ok: "storage_ok s \<Longrightarrow> r \<in> set (as_effects s) \<Longrightarrow> authority_effect_ok r"
  by (simp add: storage_ok_def effects_ok_def list_all_iff)

text \<open>An update of the one row with a reservation id.\<close>

lemma set_effect_write:
  assumes "storage_ok s" and "r \<in> set (as_effects s)" and "ef_reservation_id r = rid"
    and "set_effect rid f s = Inr (u, t)" and "effect_move sha C R s r (f r)"
  shows "authority_write sha C R s t"
proof -
  from assms(4) have w: "write_effect_rows s (update_where (\<lambda>x. ef_reservation_id x = rid) f (as_effects s)) = Inr t"
    by (auto simp: set_effect_def bind_r_eq_Inr)
  show ?thesis
    by (rule write_where(1) [OF w]) (use assms same_reservation_id in blast)
qed

lemma expire_undispatched_write:
  assumes "storage_ok s" and "expire_undispatched now s = Inr t"
  shows "authority_write sha C R s t" and "as_heads t = as_heads s"
proof -
  from assms(2) obtain u where w: "write_effect_rows s (update_where (\<lambda>r. ef_status r = E_RESERVED \<and> ef_expires_at r < u)
      (\<lambda>r. r\<lparr>ef_status := E_EXPIRED_UNDISPATCHED\<rparr>) (as_effects s)) = Inr t"
    unfolding expire_undispatched_def by (elim bind_r_InrE)
  have m: "effect_move sha C R s r (r\<lparr>ef_status := E_EXPIRED_UNDISPATCHED\<rparr>)"
    if r: "r \<in> set (as_effects s)" and st: "ef_status r = E_RESERVED \<and> ef_expires_at r < u" for r
  proof -
    have "ef_result_bytes r = None" "ef_result_sha256 r = None"
      using stored_effect_ok [OF assms(1) r] st by (auto simp: authority_effect_ok_def)
    then have "r\<lparr>ef_status := E_EXPIRED_UNDISPATCHED\<rparr> = expired_undispatched r"
      by (simp add: expired_undispatched_def)
    then show ?thesis using st effect_move.expires [of r] by simp
  qed
  show "authority_write sha C R s t" by (rule write_where(1) [OF w m])
  show "as_heads t = as_heads s" using w by (auto simp: write_effect_rows_eq_Inr)
qed

text \<open>A reservation as the store receives it, parsed and serialised.\<close>

definition reservation_document :: "hash \<Rightarrow> json \<Rightarrow> bytes \<Rightarrow> bool" where
  "reservation_document sha v bs \<longleftrightarrow> parse_effect_reservation sha v = Inr v \<and> well_formed v \<and> canonical_bytes v = Inr bs"

text \<open>The head a reservation names is the current one, and none is pending.\<close>

definition pinned :: "authority_storage \<Rightarrow> json \<Rightarrow> bool" where
  "pinned s v \<longleftrightarrow> pending_head s = None \<and>
     (\<exists>h. current_head s = Some h \<and>
        is_number (json_get (json_get v (js ''head'')) (js ''generation'')) (hr_generation h) \<and>
        json_get (json_get v (js ''head'')) (js ''record_id'') = JStr (hr_record_id h) \<and>
        json_get (json_get v (js ''head'')) (js ''record_sha256'') = JStr (hr_record_sha256 h))"

lemma is_number_unique: "is_number v m \<Longrightarrow> is_number v n \<Longrightarrow> m = n"
  by (cases v) (auto simp: is_number_def)

lemma heads_queries_cong:
  "as_heads t = as_heads s \<Longrightarrow> pending_head t = pending_head s \<and> current_head t = current_head s \<and>
     pending_head_count t = pending_head_count s"
  by (simp add: pending_head_def current_head_def pending_head_count_def)

lemma pinned_cong: "as_heads t = as_heads s \<Longrightarrow> pinned t v = pinned s v"
  using heads_queries_cong [of t s] by (simp add: pinned_def)

lemma pinned_under_current: "pinned s v \<Longrightarrow> names_head (json_get v (js ''head'')) r \<Longrightarrow> under_current s r"
  unfolding pinned_def names_head_def under_current_def same_head_def using is_number_unique by fastforce

lemma other_head_eq_False:
  "is_json_object head \<Longrightarrow> other_head r head = Inr False \<longleftrightarrow> names_head head r"
  by (auto simp: other_head_def names_head_def bind_r_eq_Inr required_effect_eq_Inr is_number_unique
      split: if_splits)

text \<open>Arming a row again keeps its identity and binds it to the new reservation.\<close>

lemma replace_undispatched_write:
  assumes ok: "storage_ok s" and r: "r \<in> set (as_effects s)" and doc: "reservation_document sha v bs"
    and id: "json_get v (js ''reservation_id'') = JStr (ef_reservation_id r)"
    and intent: "json_get v (js ''intent_sha256'') = JStr (ef_intent_sha256 r)"
    and st: "ef_status r \<in> {E_RESERVED, E_EXPIRED_UNDISPATCHED, E_CANCELLED_UNDISPATCHED, E_DISPATCHED_HOLD}"
      "ef_status r = E_DISPATCHED_HOLD \<longrightarrow> R r"
    and pin: "pinned s v" and w: "replace_undispatched r v bs s = Inr t"
  obtains q where "authority_write sha C R s t" "as_heads t = as_heads s" "ef_status q = E_RESERVED" "q \<in> set (as_effects t)"
    "ef_reservation_id q = ef_reservation_id r" "effect_bound sha q"
proof -
  obtain head other request created expires where
    h: "required_effect_object v ''head'' = Inr head" "other_head r head = Inr other" "\<not> other"
    and f: "required_effect_string v ''request_id'' = Inr request" "required_effect_string v ''created_at'' = Inr created"
      "required_effect_string v ''expires_at'' = Inr expires"
    and u: "write_effect_rows s (update_where (\<lambda>x. ef_reservation_id x = ef_reservation_id r)
         (rearmed_effect bs request created expires) (as_effects s)) = Inr t"
    using w unfolding replace_undispatched_def by (elim bind_r_InrE) (simp add: require_r_eq_Inr)
  let ?q = "rearmed_effect bs request created expires r"
  have n: "names_head (json_get v (js ''head'')) r"
    using h other_head_eq_False [of "json_get v (js ''head'')" r] by (auto simp: required_effect_eq_Inr)
  have b: "effect_bound sha ?q"
    using doc id intent f n unfolding effect_bound_def reservation_document_def
    by (intro exI [of _ v]) (simp add: reservation_row_def names_head_def rearmed_effect_def required_effect_eq_Inr)
  have m: "effect_move sha C R s r ?q"
    using pinned_under_current [OF pin n] st b by (intro effect_move.rearms)
  have "ef_reservation_id q = ef_reservation_id r \<Longrightarrow> q \<in> set (as_effects s) \<Longrightarrow> q = r" for q
    using same_reservation_id [OF ok _ r] by blast
  then have wr: "authority_write sha C R s t" by (intro write_where(1) [OF u]) (use m in blast)
  have t: "t = s\<lparr>as_effects := update_where (\<lambda>x. ef_reservation_id x = ef_reservation_id r)
         (rearmed_effect bs request created expires) (as_effects s)\<rparr>"
    using u by (simp add: write_effect_rows_eq_Inr)
  show thesis
    by (rule that [of ?q, OF wr])
      (use r b in \<open>auto simp: t set_update_where rearmed_effect_def\<close>)
qed

lemma reserved_effect_eq_Inr:
  assumes "reserved_effect v head bs = Inr r" and "head = json_get v (js ''head'')" and "is_json_object head"
  shows "reservation_row v r" and "ef_status r = E_RESERVED" and "ef_canonical_bytes r = bs"
  using assms
  by (auto simp: reserved_effect_def bind_r_eq_Inr required_effect_eq_Inr reservation_row_def names_head_def)

lemma assert_current_head_pinned:
  assumes "assert_current_head (json_get v (js ''head'')) s = Inr u" and "pending_head_count s = 0"
  shows "pinned s v"
proof -
  have "pending_head s = None" using assms(2) by (simp add: pending_head_count_def pending_head_def)
  with assms(1) show ?thesis
    by (auto simp: assert_current_head_def pinned_def bind_r_eq_Inr required_effect_eq_Inr require_r_eq_Inr
        split: option.splits if_splits)
qed

text \<open>
  Reserving: either the existing row comes back (dispatched or sealed rows untouched, others armed
  again), or a new row is added under the current head.
\<close>

lemma reserve_effect_body_writes:
  assumes ok: "storage_ok s" and doc: "reservation_document sha v bs" and pin: "pinned s v"
    and body: "reserve_effect_body now v (json_get v (js ''head'')) bs s = Inr (x, t)"
    and head: "is_json_object (json_get v (js ''head''))"
  obtains r where "authority_writes sha C R s t" "as_heads t = as_heads s" "x = Some r" "r \<in> set (as_effects t)"
    "json_get v (js ''reservation_id'') = JStr (ef_reservation_id r)"
    "ef_status r \<notin> {E_EXPIRED_UNDISPATCHED, E_CANCELLED_UNDISPATCHED}"
proof -
  obtain s1 rid where e: "expire_undispatched now s = Inr s1"
    and rid: "json_get v (js ''reservation_id'') = JStr rid"
    and rest: "(case find_effect rid s1 of
         Some existing \<Rightarrow>
           bind_r (other_head existing (json_get v (js ''head''))) (\<lambda>other.
           bind_r (if other then Inr True
                   else bind_r (required_effect_string v ''intent_sha256'') (\<lambda>intent.
                     Inr (ef_intent_sha256 existing \<noteq> intent))) (\<lambda>conflict.
             if conflict then Inl (broker ''ACTIVATED_AUTHORITY_EFFECT_CONFLICT'' 409 False)
             else if ef_status existing \<in> {E_RESERVED, E_EXPIRED_UNDISPATCHED, E_CANCELLED_UNDISPATCHED} then
               bind_r (replace_undispatched existing v bs s1) (\<lambda>u.
                 Inr (find_effect (ef_reservation_id existing) u, u))
             else Inr (Some existing, s1)))
       | None \<Rightarrow>
           bind_r (require_r (pending_head_count s1 = 0)
             (broker ''ACTIVATED_AUTHORITY_HEAD_ADVANCE_PENDING'' 503 True)) (\<lambda>_.
           bind_r (assert_current_head (json_get v (js ''head'')) s1) (\<lambda>_.
           bind_r (reserved_effect v (json_get v (js ''head'')) bs) (\<lambda>row.
           bind_r (write_effect_rows s1 (as_effects s1 @ [row])) (\<lambda>u.
             Inr (find_effect rid u, u)))))) = Inr (x, t)"
    using body unfolding reserve_effect_body_def by (elim bind_r_InrE) (simp add: required_effect_eq_Inr)
  have w1: "authority_write sha C R s s1" by (rule expire_undispatched_write(1) [OF ok e])
  have h1: "as_heads s1 = as_heads s" by (rule expire_undispatched_write(2) [OF ok e])
  have ok1: "storage_ok s1" by (rule write_storage_ok [OF w1 ok])
  have pin1: "pinned s1 v" using pin pinned_cong [OF h1] by simp
  show thesis
  proof (cases "find_effect rid s1")
    case (Some r)
    then have r: "r \<in> set (as_effects s1)" "ef_reservation_id r = rid" using find_effect_iff [OF ok1] by auto
    have n: "names_head (json_get v (js ''head'')) r" and i: "json_get v (js ''intent_sha256'') = JStr (ef_intent_sha256 r)"
      using rest Some other_head_eq_False [OF head, of r]
      by (auto simp: bind_r_eq_Inr required_effect_eq_Inr split: if_splits)
    show thesis
    proof (cases "ef_status r \<in> {E_RESERVED, E_EXPIRED_UNDISPATCHED, E_CANCELLED_UNDISPATCHED}")
      case True
      then obtain u where u: "replace_undispatched r v bs s1 = Inr u" "x = find_effect (ef_reservation_id r) u" "t = u"
        using rest Some by (auto simp: bind_r_eq_Inr split: if_splits)
      obtain q where w2: "authority_write sha C R s1 u" "as_heads u = as_heads s1"
        and q: "ef_status q = E_RESERVED" "q \<in> set (as_effects u)" "ef_reservation_id q = ef_reservation_id r"
        by (rule replace_undispatched_write [OF ok1 r(1) doc _ i _ _ pin1 u(1), where R = R and C = C])
          (use r rid True in auto)
      have "x = Some q" using u(2) q find_effect_iff [OF write_storage_ok [OF w2(1) ok1]] by simp
      moreover have "authority_writes sha C R s t"
        using w1 w2(1) u(3) by (auto intro: rtranclp.rtrancl_into_rtrancl)
      ultimately show thesis using w2(2) h1 q r rid u(3) by (intro that [of q]) auto
    next
      case False
      then have "x = Some r \<and> t = s1" using rest Some by (auto simp: bind_r_eq_Inr split: if_splits)
      then show thesis using False h1 w1 r rid by (intro that [of r]) auto
    qed
  next
    case None
    then obtain row u where a: "pending_head_count s1 = 0" "assert_current_head (json_get v (js ''head'')) s1 = Inr ()"
      and row: "reserved_effect v (json_get v (js ''head'')) bs = Inr row"
      and u: "write_effect_rows s1 (as_effects s1 @ [row]) = Inr u" "x = find_effect rid u" "t = u"
      using rest by (auto simp: bind_r_eq_Inr require_r_eq_Inr)
    note rr = reserved_effect_eq_Inr [OF row refl head]
    have b: "effect_bound sha row"
      using doc rr unfolding effect_bound_def reservation_document_def by (intro exI [of _ v]) simp
    have "names_head (json_get v (js ''head'')) row" using rr(1) by (simp add: reservation_row_def)
    from pinned_under_current [OF pin1 this] have "under_current s1 row" .
    with rr b u have w2: "authority_write sha C R s1 t"
      by (auto simp: write_effect_rows_eq_Inr intro: authority_write.reserved)
    have t: "t = s1\<lparr>as_effects := as_effects s1 @ [row]\<rparr>" using u by (simp add: write_effect_rows_eq_Inr)
    have id: "ef_reservation_id row = rid" using rr(1) rid by (simp add: reservation_row_def)
    have "row \<in> set (as_effects t)" by (simp add: t)
    then have "x = Some row" using u(2,3) find_effect_iff [OF write_storage_ok [OF w2 ok1]] id by simp
    moreover have "authority_writes sha C R s t" using w1 w2 by (auto intro: rtranclp.rtrancl_into_rtrancl)
    ultimately show thesis using h1 rr id rid by (intro that [of row]) (auto simp: t)
  qed
qed

text \<open>An operation that runs one transaction and reads the row back writes what the transaction writes.\<close>

lemma transaction_writes:
  assumes "\<And>u t. body s = Inr (u, t) \<Longrightarrow> authority_write sha C R s t"
  shows "authority_writes sha C R s (snd (bind_op (transaction body) (\<lambda>_. require_effect_op rid) s))"
  using assms
  by (auto simp: bind_op_state transaction_def require_effect_op_def split: prod.splits sum.splits)

lemma dispatch_body_write:
  assumes ok: "storage_ok s" and body: "dispatch_body rid now s = Inr (u, t)"
  shows "authority_writes sha C R s t"
proof -
  obtain r where r: "r \<in> set (as_effects s)" "ef_reservation_id r = rid" "require_effect rid s = Inr r"
    using body by (auto simp: dispatch_body_def bind_r_eq_Inr require_effect_eq_Inr [OF ok])
  consider "t = s" | "ef_status r \<in> {E_RESERVED, E_SEALED}" "set_effect rid expired_undispatched s = Inr (u, t)"
    | "ef_status r = E_SEALED" "write_effect_rows s (update_where
           (\<lambda>r. ef_reservation_id r = rid \<and> ef_status r = E_SEALED)
           (\<lambda>r. r\<lparr>ef_status := E_DISPATCHED_HOLD\<rparr>) (as_effects s)) = Inr t"
    using body r(3) by (auto simp: dispatch_body_def bind_r_eq_Inr split: if_splits)
  then show ?thesis
  proof cases
    case 2
    then show ?thesis using set_effect_write [OF ok r(1,2) 2(2) effect_move.expires] by auto
  next
    case 3
    then show ?thesis using write_where(1) [OF 3(2) effect_move.dispatches] by auto
  qed simp
qed

lemma dispatch_effect_writes:
  assumes "storage_ok s"
  shows "authority_writes sha C R s (snd (dispatch_effect rid now s))"
  using dispatch_body_write [OF assms, of rid now]
  by (auto simp: dispatch_effect_def bind_op_state transaction_def require_effect_op_def split: prod.splits sum.splits)

lemma confirm_effect_writes:
  assumes ok: "storage_ok s"
    and C: "\<And>r. r \<in> set (as_effects s) \<Longrightarrow> ef_reservation_id r = rid \<Longrightarrow> C r"
  shows "authority_writes sha C R s (snd (confirm_effect rid digest s))"
proof -
  have "authority_writes sha C R s t" if body: "confirm_effect_body rid digest s = Inr (u, t)" for u t
  proof -
    obtain r where r: "r \<in> set (as_effects s)" "ef_reservation_id r = rid" "require_effect rid s = Inr r"
      using body by (auto simp: confirm_effect_body_def bind_r_eq_Inr require_effect_eq_Inr [OF ok])
    consider "t = s" | "ef_status r = E_DISPATCHED_HOLD"
        "set_effect rid (\<lambda>r. r\<lparr>ef_status := E_CONFIRMED\<rparr>) s = Inr (u, t)"
      using body r(3) by (auto simp: confirm_effect_body_def bind_r_eq_Inr split: if_splits)
    then show ?thesis
    proof cases
      case 2
      then show ?thesis using set_effect_write [OF ok r(1,2) 2(2)] effect_move.confirms C [OF r(1,2)] by fast
    qed simp
  qed
  then show ?thesis
    by (auto simp: confirm_effect_def bind_op_lift_state bind_op_state transaction_def require_effect_op_def
        split: prod.splits sum.splits)
qed

lemma cancel_undispatched_writes:
  assumes ok: "storage_ok s"
  shows "authority_writes sha C R s (snd (cancel_undispatched rid s))"
proof -
  have "authority_writes sha C R s t" if body: "cancel_undispatched_body rid s = Inr (u, t)" for u t
  proof -
    obtain r where r: "r \<in> set (as_effects s)" "ef_reservation_id r = rid" "require_effect rid s = Inr r"
      using body by (auto simp: cancel_undispatched_body_def bind_r_eq_Inr require_effect_eq_Inr [OF ok])
    consider "t = s" | "ef_status r \<in> {E_RESERVED, E_SEALED}" "set_effect rid cancelled_undispatched s = Inr (u, t)"
      using body r(3) by (auto simp: cancel_undispatched_body_def bind_r_eq_Inr split: if_splits)
    then show ?thesis
    proof cases
      case 2
      then show ?thesis using set_effect_write [OF ok r(1,2) 2(2) effect_move.cancels] by auto
    qed simp
  qed
  then show ?thesis
    by (auto simp: cancel_undispatched_def bind_op_state transaction_def require_effect_op_def
        split: prod.splits sum.splits)
qed

lemma seal_effect_writes:
  assumes ok: "storage_ok s"
  shows "authority_writes sha C R s (snd (seal_effect decimal sha rid canonical s))"
proof -
  have "authority_writes sha C R s t"
    if body: "seal_body rid canonical (utf8_encode canonical) (sha256_tag sha (utf8_encode canonical)) s = Inr (u, t)"
      and v: "json_parse decimal canonical = Inr v" "is_json_object v" "canonical_json v = Inr canonical" for u t v
  proof -
    obtain r where r: "r \<in> set (as_effects s)" "ef_reservation_id r = rid" "require_effect rid s = Inr r"
      using body by (auto simp: seal_body_def bind_r_eq_Inr require_effect_eq_Inr [OF ok])
    have sb: "sealed_bytes sha (utf8_encode canonical) (sha256_tag sha (utf8_encode canonical))"
      unfolding sealed_bytes_def
      by (intro conjI exI [of _ v]) (use v json_parse_well_formed [OF v(1)] in \<open>simp_all add: canonical_bytes_def\<close>)
    consider "t = s" | "ef_status r = E_RESERVED"
        "set_effect rid (sealed_effect (utf8_encode canonical) (sha256_tag sha (utf8_encode canonical))) s = Inr (u, t)"
      using body r(3) by (auto simp: seal_body_def bind_r_eq_Inr require_r_eq_Inr split: if_splits)
    then show ?thesis
    proof cases
      case 2
      then show ?thesis using set_effect_write [OF ok r(1,2) 2(2) effect_move.seals [OF 2(1) sb]] by auto
    qed simp
  qed
  then show ?thesis
    unfolding seal_effect_def
    by (auto simp: bind_op_lift_state bind_op_state transaction_def require_effect_op_def require_r_def
        split: prod.splits sum.splits if_splits)
qed

lemma rearm_writes:
  assumes ok: "storage_ok s" and doc: "\<And>w. parse_effect_reservation sha v = Inr w \<Longrightarrow> w = v \<and> well_formed v"
    and pin: "pinned s v"
    and R: "\<And>r. r \<in> set (as_effects s) \<Longrightarrow> ef_reservation_id r = rid \<Longrightarrow> ef_status r = E_DISPATCHED_HOLD \<Longrightarrow> R r"
  shows "authority_writes sha C R s (snd (rearm_after_observed_absent sha rid v s))"
proof -
  have "authority_writes sha C R s t"
    if d: "parse_effect_reservation sha v = Inr w" "canonical_bytes w = Inr bs"
      and body: "rearm_body rid w bs s = Inr (u, t)" for w bs u t
  proof -
    have wv: "w = v" and dd: "reservation_document sha v bs"
      using doc [OF d(1)] d by (auto simp: reservation_document_def)
    obtain r where r: "r \<in> set (as_effects s)" "ef_reservation_id r = rid"
      and st: "ef_status r = E_DISPATCHED_HOLD" and id: "json_get v (js ''reservation_id'') = JStr rid"
      and intent: "json_get v (js ''intent_sha256'') = JStr (ef_intent_sha256 r)"
      and rep: "replace_undispatched r v bs s = Inr t"
      using body wv by (auto simp: rearm_body_def bind_r_eq_Inr require_r_eq_Inr require_effect_eq_Inr [OF ok])
    obtain q where "authority_write sha C R s t"
      by (rule replace_undispatched_write [OF ok r(1) dd _ intent _ _ pin rep, where R = R and C = C])
        (use id r st R in auto)
    then show ?thesis by auto
  qed
  then show ?thesis
    by (auto simp: rearm_after_observed_absent_def bind_op_lift_state bind_op_state transaction_def
        require_effect_op_def split: prod.splits sum.splits)
qed

section \<open>What the operations of the head store write\<close>

lemma find_head_iff:
  "storage_ok s \<Longrightarrow> find_head n s = Some r \<longleftrightarrow> r \<in> set (as_heads s) \<and> hr_generation r = n"
  unfolding find_head_def storage_ok_def by (rule heads.lookup_Some_iff) simp

lemma require_head_eq_Inr:
  "storage_ok s \<Longrightarrow> require_head n s = Inr r \<longleftrightarrow> r \<in> set (as_heads s) \<and> hr_generation r = n"
  by (auto simp: require_head_def find_head_iff [symmetric] split: option.splits)

lemma same_generation:
  "storage_ok s \<Longrightarrow> r \<in> set (as_heads s) \<Longrightarrow> q \<in> set (as_heads s) \<Longrightarrow>
     hr_generation r = hr_generation q \<Longrightarrow> r = q"
  unfolding storage_ok_def using heads.same_key by blast

lemma mark_dispatched_body_write:
  assumes ok: "storage_ok s" and body: "mark_dispatched_body n s = Inr (u, t)"
  shows "authority_writes sha C R s t"
proof -
  obtain r where r: "r \<in> set (as_heads s)" "hr_generation r = n" "require_head n s = Inr r"
    using body by (auto simp: mark_dispatched_body_def bind_r_eq_Inr require_head_eq_Inr [OF ok])
  show ?thesis
  proof (cases "hr_mirror_state r = M_PREPARED")
    case True
    then have w: "write_heads s (update_where (\<lambda>x. hr_generation x = n)
        (\<lambda>x. x\<lparr>hr_mirror_state := M_DISPATCHED_HOLD\<rparr>) (as_heads s)) = Inr t"
      using body r(3) by (auto simp: mark_dispatched_body_def bind_r_eq_Inr)
    show ?thesis
      using w authority_write.dispatched [OF r(1) True refl, of sha C R] r(2)
      by (auto simp: write_heads_eq_Inr)
  qed (use body r(3) in \<open>auto simp: mark_dispatched_body_def\<close>)
qed

lemma confirm_body_write:
  assumes ok: "storage_ok s" and body: "confirm_body n worm s = Inr (u, t)"
  shows "authority_writes sha C R s t"
proof -
  obtain r where r: "r \<in> set (as_heads s)" "hr_generation r = n" "require_head n s = Inr r"
    using body by (auto simp: confirm_body_def bind_r_eq_Inr require_head_eq_Inr [OF ok])
  show ?thesis
  proof (cases "hr_mirror_state r = M_CONFIRMED")
    case False
    then have d: "hr_mirror_state r = M_DISPATCHED_HOLD" "hr_record_sha256 r = aw_digest worm"
      and w: "write_heads s (update_where (\<lambda>x. hr_generation x = n \<and> hr_mirror_state x = M_DISPATCHED_HOLD)
        (confirmed_head worm) (as_heads s)) = Inr t"
      using body r(3) by (auto simp: confirm_body_def bind_r_eq_Inr require_r_eq_Inr)
    have same: "update_where (\<lambda>x. hr_generation x = n \<and> hr_mirror_state x = M_DISPATCHED_HOLD) (confirmed_head worm)
        (as_heads s) = update_where (\<lambda>x. hr_generation x = n) (confirmed_head worm) (as_heads s)"
      using same_generation [OF ok _ r(1)] d(1) r(2) by (auto simp: update_where_def)
    show ?thesis
      using w authority_write.confirmed [OF r(1) d refl, of sha C R] r(2) same
      by (auto simp: write_heads_eq_Inr)
  qed (use body r(3) in \<open>auto simp: confirm_body_def bind_r_eq_Inr\<close>)
qed

lemma head_transaction_writes:
  assumes "\<And>u t. body s = Inr (u, t) \<Longrightarrow> authority_writes sha C R s t"
  shows "authority_writes sha C R s (snd (bind_op (transaction body) (\<lambda>_. require_op n) s))"
  using assms by (auto simp: bind_op_state transaction_def require_op_def split: prod.splits sum.splits)

lemma mark_dispatched_writes:
  "storage_ok s \<Longrightarrow> authority_writes sha C R s (snd (mark_dispatched n s))"
  unfolding mark_dispatched_def by (intro head_transaction_writes) (rule mark_dispatched_body_write)

lemma confirm_head_writes:
  assumes "storage_ok s"
  shows "authority_writes sha C R s (snd (confirm_head decimal sha n worm s))"
proof -
  have c: "authority_writes sha C R s (snd (bind_op (transaction (confirm_body n worm)) (\<lambda>_. require_op n) s))"
    by (rule head_transaction_writes) (rule confirm_body_write [OF assms])
  have r: "require_op n s = (require_head n s, s)" by (simp add: require_op_def)
  show ?thesis
    unfolding confirm_head_def bind_op_state [of "require_op n"] r
    by (cases "require_head n s") (auto simp: bind_op_lift_state c split: sum.splits)
qed

lemma expired_for_advance_write:
  assumes "write_effect_rows s (update_where (\<lambda>r. ef_status r \<in> {E_RESERVED, E_SEALED} \<and> ef_expires_at r < u)
      expired_undispatched (as_effects s)) = Inr t"
  shows "authority_write sha C R s t"
  by (rule write_where(1) [OF assms effect_move.expires]) simp

lemma reserve_head_writes:
  assumes ok: "storage_ok s" and wf: "well_formed (hv_head i)"
  shows "authority_writes sha C R s (snd (reserve_head sha now i s))"
proof -
  have body: "authority_writes sha C R s t"
    if h: "parse_activated_authority_head sha (hv_head i) = Inr (hv_head i)" "canonical_bytes (hv_head i) = Inr bs"
      "head_record_sha256 sha (hv_head i) = Inr (hv_record_sha256 i)"
      "json_get (hv_head i) (js ''record_id'') = JStr (hv_record_id i)"
      "json_get (hv_head i) (js ''committed_at'') = JStr (hv_committed_at i)"
      "json_get (hv_head i) (js ''ingress_worker_version_id'') = JStr (hv_ingress_worker_version_id i)"
      and b: "reserve_body now i bs s = Inr (x, t)" for bs x t
  proof (cases "find_by_request (hv_request_digest i) s")
    case None
    obtain now_text s1 where e: "write_effect_rows s (update_where (\<lambda>r. ef_status r \<in> {E_RESERVED, E_SEALED} \<and>
        ef_expires_at r < now_text) expired_undispatched (as_effects s)) = Inr s1"
      and p: "pending_head s1 = None" "\<not> has_nonterminal_effect s1"
      and g: "hv_generation i = (case current_head s1 of None \<Rightarrow> 0 | Some r \<Rightarrow> hr_generation r) + 1"
      and pr: "assert_previous (json_get (hv_head i) (js ''previous'')) (current_head s1) = Inr ()"
      and w: "write_heads s1 (as_heads s1 @ [prepared_head i bs]) = Inr t"
      using b None unfolding reserve_body_def by (auto simp: bind_r_eq_Inr require_r_eq_Inr)
    have w1: "authority_write sha C R s s1" by (rule expired_for_advance_write [OF e])
    have "head_bound sha (current_head s1) (prepared_head i bs)"
      unfolding head_bound_def by (intro exI [of _ "hv_head i"]) (use h wf pr in \<open>simp add: prepared_head_def\<close>)
    then have "authority_write sha C R s1 t"
      using w p g authority_write.prepared [of s1 "prepared_head i bs" sha C R]
      by (simp add: write_heads_eq_Inr prepared_head_def)
    with w1 show ?thesis by (auto intro: rtranclp.rtrancl_into_rtrancl)
  qed (use b in \<open>auto simp: reserve_body_def bind_r_eq_Inr\<close>)
  show ?thesis
  proof (cases "parse_activated_authority_head sha (hv_head i)")
    case (Inr h)
    then have p: "parse_activated_authority_head sha (hv_head i) = Inr (hv_head i)"
      using parse_head_same [OF Inr] by simp
    show ?thesis
      unfolding reserve_head_def p
      by (auto simp: bind_op_lift_state bind_op_state transaction_def require_r_def
          split: sum.splits prod.splits option.splits if_splits intro!: body [OF p])
  qed (simp add: reserve_head_def bind_op_lift_state)
qed

end
