(* ===== verification/AuthorityInvariant.thy ===== *)
theory AuthorityInvariant imports AuthorityHistory begin

text \<open>
  The invariant of the authority object's storage: the heads form one chain, generation by generation,
  in which only the newest may still be pending; every row of the effect journal reads back as the
  reservation it was written from; and an effect that is not finished lives under the current head.
\<close>

section \<open>The chain of heads\<close>

definition newest :: "head_row list \<Rightarrow> head_row option" where
  "newest hs = (if hs = [] then None else Some (last hs))"

inductive head_chain :: "hash \<Rightarrow> head_row list \<Rightarrow> bool" for sha :: hash where
  genesis: "head_chain sha []"
| advanced: "head_chain sha hs \<Longrightarrow> \<forall>h \<in> set hs. hr_mirror_state h = M_CONFIRMED \<Longrightarrow>
    hr_generation r = int (length hs) + 1 \<Longrightarrow> head_bound sha (newest hs) r \<Longrightarrow> head_chain sha (hs @ [r])"

lemma head_chain_snoc:
  "head_chain sha (hs @ [r]) \<longleftrightarrow>
     head_chain sha hs \<and> (\<forall>h \<in> set hs. hr_mirror_state h = M_CONFIRMED) \<and>
     hr_generation r = int (length hs) + 1 \<and> head_bound sha (newest hs) r"
  by (subst head_chain.simps) auto

lemma head_chain_generations: "head_chain sha hs \<Longrightarrow> map hr_generation hs = map (\<lambda>k. int k + 1) [0..<length hs]"
  by (induction rule: head_chain.induct) simp_all

lemma newest_eq: "newest (hs @ [r]) = Some r" "newest [] = None"
  by (simp_all add: newest_def)

lemma head_chain_sorted: "head_chain sha hs \<Longrightarrow> sorted (map hr_generation (filter p hs))"
proof -
  assume c: "head_chain sha hs"
  have "sorted (map hr_generation hs)"
    unfolding head_chain_generations [OF c] by (simp add: sorted_iff_nth_mono)
  then show ?thesis by (rule sorted_filter)
qed

lemma chain_pending:
  assumes "head_chain sha (as_heads s)"
  shows "pending_head s = None \<longleftrightarrow> (\<forall>h \<in> set (as_heads s). hr_mirror_state h = M_CONFIRMED)"
  by (auto simp: pending_head_def is_pending_def filter_empty_conv)

lemma first_row_rev: "first_row (rev xs) = (if xs = [] then None else Some (last xs))"
  by (induction xs rule: rev_induct) simp_all

text \<open>\<open>ORDER BY generation DESC LIMIT 1\<close> over the confirmed heads of a chain.\<close>

lemma current_head_chain:
  assumes "head_chain sha (as_heads s)"
  shows "current_head s = newest (filter (\<lambda>h. hr_mirror_state h = M_CONFIRMED) (as_heads s))"
  unfolding current_head_def sort_key_id_if_sorted [OF head_chain_sorted [OF assms]] first_row_rev newest_def ..

lemma current_head_none_pending:
  assumes "head_chain sha (as_heads s)" and "pending_head s = None"
  shows "current_head s = newest (as_heads s)"
  using current_head_chain [OF assms(1)] chain_pending [OF assms(1)] assms(2) by (simp add: filter_True)

text \<open>A head that is not confirmed is the newest.\<close>

lemma pending_is_newest:
  assumes "head_chain sha hs" and "r \<in> set hs" and "hr_mirror_state r \<noteq> M_CONFIRMED"
  obtains ps where "hs = ps @ [r]"
  using assms by (cases rule: head_chain.cases) auto

lemma head_bound_mirror:
  "head_bound sha b (r\<lparr>hr_mirror_state := m\<rparr>) = head_bound sha b r"
  "head_bound sha b (confirmed_head worm r) = head_bound sha b r"
  by (simp_all add: head_bound_def confirmed_head_def)

text \<open>An update of the newest row by its generation.\<close>

lemma update_newest:
  assumes "head_chain sha (ps @ [r])"
  shows "update_where (\<lambda>x. hr_generation x = hr_generation r) f (ps @ [r]) = ps @ [f r]"
proof -
  have "hr_generation x \<noteq> hr_generation r" if "x \<in> set ps" for x
  proof -
    from assms have c: "head_chain sha ps" and g: "hr_generation r = int (length ps) + 1"
      unfolding head_chain_snoc by simp_all
    have "hr_generation x \<in> set (map hr_generation ps)" using that by simp
    then show ?thesis unfolding head_chain_generations [OF c] g by auto
  qed
  then show ?thesis by (auto simp: update_where_def intro: map_idI)
qed

section \<open>The invariant\<close>

definition result_bound :: "hash \<Rightarrow> effect_row \<Rightarrow> bool" where
  "result_bound sha r \<longleftrightarrow>
     (ef_status r \<in> {E_SEALED, E_DISPATCHED_HOLD, E_CONFIRMED} \<longrightarrow>
       (\<exists>bs digest. ef_result_bytes r = Some bs \<and> ef_result_sha256 r = Some digest \<and> sealed_bytes sha bs digest))"

definition storage_inv :: "hash \<Rightarrow> authority_storage \<Rightarrow> bool" where
  "storage_inv sha s \<longleftrightarrow>
     storage_ok s \<and> head_chain sha (as_heads s) \<and>
     (\<forall>r \<in> set (as_effects s). effect_bound sha r \<and> result_bound sha r \<and>
        (unfinished_effect_row r \<longrightarrow> under_current s r))"

lemma storage_inv_empty: "storage_inv sha empty_authority_storage"
  by (simp add: storage_inv_def empty_authority_storage_def storage_ok_def heads_ok_def effects_ok_def head_chain.genesis)

lemma under_current_cong: "as_heads t = as_heads s \<Longrightarrow> under_current t r = under_current s r"
  using heads_queries_cong [of t s] by (simp add: under_current_def)

text \<open>What a move keeps of its row.\<close>

lemma effect_move_keeps:
  assumes "effect_move sha C R s r q"
  shows "ef_reservation_id q = ef_reservation_id r \<and> ef_intent_sha256 q = ef_intent_sha256 r \<and> same_head h q = same_head h r"
  using assms
  by cases (simp_all add: same_head_def expired_undispatched_def cancelled_undispatched_def sealed_effect_def rearmed_effect_def)

lemma effect_move_bound:
  assumes "effect_move sha C R s r q" and "effect_bound sha r" and "result_bound sha r"
    and "unfinished_effect_row r \<longrightarrow> under_current s r"
  shows "effect_bound sha q" and "result_bound sha q" and "unfinished_effect_row q \<longrightarrow> under_current s q"
proof -
  have k: "under_current s q = under_current s r"
    using effect_move_keeps [OF assms(1)] by (simp add: under_current_def)
  have b: "effect_bound sha (x r) = effect_bound sha r"
    if "\<And>y. reservation_row y (x r) = reservation_row y r" "ef_canonical_bytes (x r) = ef_canonical_bytes r" for x
    using that by (simp add: effect_bound_def)
  from assms(1) show "effect_bound sha q"
    by cases (use assms(2) in \<open>simp_all add: effect_bound_def reservation_row_def names_head_def
      expired_undispatched_def cancelled_undispatched_def sealed_effect_def\<close>)
  from assms(1) show "result_bound sha q"
    by cases (use assms(3) in \<open>simp_all add: result_bound_def expired_undispatched_def cancelled_undispatched_def
      sealed_effect_def rearmed_effect_def\<close>)
  from assms(1) show "unfinished_effect_row q \<longrightarrow> under_current s q"
    unfolding k by cases (use assms(4) in \<open>simp_all add: unfinished_effect_row_def expired_undispatched_def
      cancelled_undispatched_def sealed_effect_def\<close>)
qed

lemma head_update_inv:
  assumes inv: "storage_inv sha s" and r: "r \<in> set (as_heads s)" "hr_mirror_state r \<noteq> M_CONFIRMED"
    and f: "hr_generation (f r) = hr_generation r" "\<And>b. head_bound sha b (f r) = head_bound sha b r"
    and t: "t = update_where (\<lambda>x. hr_generation x = hr_generation r) f (as_heads s)" "heads_ok t"
  shows "storage_inv sha (s\<lparr>as_heads := t\<rparr>)"
proof -
  have c: "head_chain sha (as_heads s)" using inv by (simp add: storage_inv_def)
  obtain ps where ps: "as_heads s = ps @ [r]" by (rule pending_is_newest [OF c r])
  then have c': "head_chain sha (ps @ [r])" using c by simp
  have t': "t = ps @ [f r]" using update_newest [OF c'] t(1) ps by simp
  have "head_chain sha t" using c' f unfolding t' head_chain_snoc by simp
  moreover have "\<not> unfinished_effect_row q" if "q \<in> set (as_effects s)" for q
  proof
    assume "unfinished_effect_row q"
    with inv that have "under_current s q" by (simp add: storage_inv_def)
    then have "pending_head s = None" by (simp add: under_current_def)
    with chain_pending [OF c] r show False by blast
  qed
  ultimately show ?thesis using inv t(2) by (simp add: storage_inv_def storage_ok_def)
qed

lemma write_inv:
  assumes "authority_write sha C R s t" and inv: "storage_inv sha s"
  shows "storage_inv sha t"
  using assms(1)
proof cases
  case (moved f)
  have "effect_bound sha (f r) \<and> result_bound sha (f r) \<and> (unfinished_effect_row (f r) \<longrightarrow> under_current s (f r))"
    if "r \<in> set (as_effects s)" for r
    using effect_move_bound [OF moved(2) [OF that]] inv that by (simp add: storage_inv_def)
  then show ?thesis
    using inv moved(1,3) under_current_cong [of t s] by (simp add: storage_inv_def storage_ok_def)
next
  case (reserved row)
  then have "result_bound sha row" by (simp add: result_bound_def)
  then show ?thesis
    using inv reserved under_current_cong [of t s] by (auto simp: storage_inv_def storage_ok_def)
next
  case (prepared row)
  have c: "head_chain sha (as_heads s)" using inv by (simp add: storage_inv_def)
  have cur: "current_head s = newest (as_heads s)" by (rule current_head_none_pending [OF c prepared(4)])
  have "hr_generation row = int (length (as_heads s)) + 1"
  proof (cases "as_heads s" rule: rev_cases)
    case (snoc ps r)
    then show ?thesis using prepared(6) cur c by (simp add: newest_eq head_chain_snoc)
  qed (use prepared(6) cur in \<open>simp add: newest_eq\<close>)
  then have "head_chain sha (as_heads s @ [row])"
    using c prepared(4,7) chain_pending [OF c] cur by (simp add: head_chain_snoc)
  moreover have "\<not> unfinished_effect_row q" if "q \<in> set (as_effects s)" for q
    using prepared(5) that by (auto simp: has_nonterminal_effect_def filter_empty_conv)
  ultimately show ?thesis using inv prepared(1,2) by (simp add: storage_inv_def storage_ok_def)
next
  case (dispatched row u)
  show ?thesis unfolding dispatched(1)
    by (rule head_update_inv [OF inv dispatched(2) _ _ _ dispatched(4,5)])
      (simp_all add: dispatched(3) head_bound_mirror)
next
  case (confirmed row worm u)
  show ?thesis unfolding confirmed(1)
    by (rule head_update_inv [OF inv confirmed(2) _ _ _ confirmed(5,6)])
      (simp_all add: confirmed(3) head_bound_mirror, simp add: confirmed_head_def)
qed

lemma writes_inv: "authority_writes sha C R s t \<Longrightarrow> storage_inv sha s \<Longrightarrow> storage_inv sha t"
  by (induction rule: rtranclp_induct) (auto intro: write_inv)

end
