(* ===== verification/CoordinatorHistory.thy ===== *)
theory CoordinatorHistory imports Coordinator AuthorityInvariant begin

text \<open>
  What the coordinator does to the effect journal and the replay ledger together. The ledger is an
  interface: its operations keep an invariant and never forget that a token is spent. Over it, every
  operation of the coordinator is a sequence of ledger calls and journal writes that confirm an effect
  only if its token is spent and arm a dispatched effect again only if it is not.
\<close>

section \<open>Joint writes\<close>

text \<open>The token of the effect is spent, by what the ledger holds.\<close>

definition effect_spent ::
    "(js_string \<Rightarrow> js_number) \<Rightarrow> hash \<Rightarrow> (json \<Rightarrow> 'l \<Rightarrow> bool) \<Rightarrow> 'l \<Rightarrow> effect_row \<Rightarrow> bool" where
  "effect_spent decimal sha spent l r \<longleftrightarrow> (\<exists>b. replay_binding decimal sha r = Inr b \<and> spent b l)"

definition ledger_operation :: "'l replay_ledger_rpc \<Rightarrow> ('l, effect_replay_observation) op \<Rightarrow> bool" where
  "ledger_operation rpc m \<longleftrightarrow>
     (\<exists>b. m \<in> {lr_prepare rpc b, lr_commit rpc b, lr_cancel rpc b, lr_observe rpc b, lr_mark_terminal rpc b})"

inductive joint_write ::
    "(js_string \<Rightarrow> js_number) \<Rightarrow> hash \<Rightarrow> 'l replay_ledger_rpc \<Rightarrow> (json \<Rightarrow> 'l \<Rightarrow> bool) \<Rightarrow>
       authority_storage \<times> 'l \<Rightarrow> authority_storage \<times> 'l \<Rightarrow> bool"
  for decimal :: "js_string \<Rightarrow> js_number" and sha :: hash and rpc :: "'l replay_ledger_rpc"
    and spent :: "json \<Rightarrow> 'l \<Rightarrow> bool" where
  journal: "authority_write sha (effect_spent decimal sha spent l) (\<lambda>r. \<not> effect_spent decimal sha spent l r) s t \<Longrightarrow>
    joint_write decimal sha rpc spent (s, l) (t, l)"
| ledger: "ledger_operation rpc m \<Longrightarrow> joint_write decimal sha rpc spent (s, l) (s, snd (m l))"

definition joint_inv ::
    "(js_string \<Rightarrow> js_number) \<Rightarrow> hash \<Rightarrow> ('l \<Rightarrow> bool) \<Rightarrow> (json \<Rightarrow> 'l \<Rightarrow> bool) \<Rightarrow> authority_storage \<times> 'l \<Rightarrow> bool" where
  "joint_inv decimal sha lok spent x \<longleftrightarrow>
     storage_inv sha (fst x) \<and> lok (snd x) \<and>
     (\<forall>r \<in> set (as_effects (fst x)). ef_status r = E_CONFIRMED \<longrightarrow> effect_spent decimal sha spent (snd x) r)"

lemma replay_binding_cong:
  "ef_canonical_bytes q = ef_canonical_bytes r \<Longrightarrow> ef_request_id q = ef_request_id r \<Longrightarrow>
     ef_reservation_id q = ef_reservation_id r \<Longrightarrow> replay_binding decimal sha q = replay_binding decimal sha r"
  by (simp add: replay_binding_def stored_reservation_def)

lemma effect_spent_cong:
  "ef_canonical_bytes q = ef_canonical_bytes r \<Longrightarrow> ef_request_id q = ef_request_id r \<Longrightarrow>
     ef_reservation_id q = ef_reservation_id r \<Longrightarrow> effect_spent decimal sha spent l q = effect_spent decimal sha spent l r"
  using replay_binding_cong [of q r decimal sha] by (simp add: effect_spent_def)

text \<open>The same effect at the same stage or confirmed, with the same result.\<close>

definition carried_on :: "effect_row \<Rightarrow> effect_row \<Rightarrow> bool" where
  "carried_on r q \<longleftrightarrow>
     ef_reservation_id q = ef_reservation_id r \<and> ef_request_id q = ef_request_id r \<and>
     ef_canonical_bytes q = ef_canonical_bytes r \<and> ef_result_bytes q = ef_result_bytes r \<and>
     ef_result_sha256 q = ef_result_sha256 r \<and>
     (ef_status q = ef_status r \<or> ef_status q = E_CONFIRMED)"

lemma carried_on_refl: "carried_on r r" by (simp add: carried_on_def)

lemma carried_on_trans: "carried_on r q \<Longrightarrow> carried_on q p \<Longrightarrow> carried_on r p"
  by (auto simp: carried_on_def)

lemma move_carries_on:
  assumes "effect_move sha C R s r q" and "ef_status r \<in> {E_DISPATCHED_HOLD, E_CONFIRMED}"
    and "ef_status r = E_DISPATCHED_HOLD \<longrightarrow> \<not> R r"
  shows "carried_on r q"
  using assms(1) by cases (use assms(2,3) in \<open>auto simp: carried_on_def\<close>)

lemma write_carries_on:
  assumes "authority_write sha C R s t" and "r \<in> set (as_effects s)"
    and "ef_status r \<in> {E_DISPATCHED_HOLD, E_CONFIRMED}" and "ef_status r = E_DISPATCHED_HOLD \<longrightarrow> \<not> R r"
  shows "\<exists>q \<in> set (as_effects t). carried_on r q"
  using assms(1)
proof cases
  case (moved f)
  have "carried_on r (f r)" by (rule move_carries_on [OF moved(2) [OF assms(2)] assms(3,4)])
  then show ?thesis using moved(1) assms(2) by auto
qed (use assms(2) carried_on_refl in auto)

lemma write_confirmed:
  assumes "authority_write sha C R s t" and "q \<in> set (as_effects t)" and "ef_status q = E_CONFIRMED"
  shows "\<exists>r \<in> set (as_effects s). carried_on r q \<and> (ef_status r = E_CONFIRMED \<or> C r)"
  using assms(1)
proof cases
  case (moved f)
  then obtain r where r: "r \<in> set (as_effects s)" "q = f r" using assms(2) by auto
  from moved(2) [OF r(1)] have "carried_on r q \<and> (ef_status r = E_CONFIRMED \<or> C r)"
    unfolding r(2) [symmetric] by cases (use assms(3) in \<open>auto simp: carried_on_def expired_undispatched_def
      cancelled_undispatched_def sealed_effect_def rearmed_effect_def\<close>)
  with r(1) show ?thesis by blast
qed (use assms(2,3) carried_on_refl in auto)

lemma bind_writes:
  assumes "r\<^sup>*\<^sup>* x (snd (m x))" and "\<And>a y. m x = (Inr a, y) \<Longrightarrow> r\<^sup>*\<^sup>* y (snd (f a y))"
  shows "r\<^sup>*\<^sup>* x (snd (bind_op m f x))"
proof (cases "m x")
  case (Pair q y)
  then show ?thesis using assms by (cases q) (auto simp: bind_op_state intro: rtranclp_trans)
qed

lemma lift_writes:
  assumes "\<And>a. m = Inr a \<Longrightarrow> r\<^sup>*\<^sup>* x (snd (f a x))"
  shows "r\<^sup>*\<^sup>* x (snd (bind_op (lift_op m) f x))"
  using assms by (cases m) auto

text \<open>A replacement is a parsed reservation under the current head.\<close>

definition replacement_ok :: "hash \<Rightarrow> authority_storage \<Rightarrow> json \<Rightarrow> bool" where
  "replacement_ok sha s v \<longleftrightarrow> (\<forall>w. parse_effect_reservation sha v = Inr w \<longrightarrow> w = v \<and> well_formed v) \<and> pinned s v"

lemma parse_reservation_same: "parse_effect_reservation sha v = Inr w \<Longrightarrow> w = v"
  unfolding parse_effect_reservation_def by (elim bind_r_InrE) simp

text \<open>The reservation the coordinator builds from the current head.\<close>

lemma built_replacement_ok:
  assumes "build_effect_reservation sha i = Inr v" and "well_formed (ri_head_proof i)"
    and "pending_head s = None" and "current_head s = Some h"
    and "ri_head_generation i = hr_generation h" and "ri_head_record_id i = hr_record_id h"
    and "ri_head_record_sha256 i = hr_record_sha256 h"
  shows "replacement_ok sha s v"
proof -
  obtain pb ib where ok: "reservation_input_ok sha i" and v: "v = JObj (input_reservation sha i pb ib)"
    using assms(1) unfolding build_reservation_eq_Inr by blast
  have "1 \<le> ri_head_generation i" "ri_head_generation i \<le> max_safe" using ok by (simp_all add: reservation_input_ok_def)
  then have "pinned s v"
    using assms(3-7) reservation_lookups(3) [OF HOL.refl, of sha i pb ib]
    by (simp add: pinned_def v json_get_def input_head_def reserved_head_json_def lookup_def is_number_def JI_def
        is_safe_integer_def number_int_def)
  then show ?thesis
    using parse_reservation_same input_reservation_well_formed [OF assms(2)] by (auto simp: replacement_ok_def v)
qed

lemma replacement_ok_cong: "as_heads t = as_heads s \<Longrightarrow> replacement_ok sha t v = replacement_ok sha s v"
  using pinned_cong [of t s] by (simp add: replacement_ok_def)

lemma reserve_effect_writes:
  assumes ok: "storage_ok s" and rep: "replacement_ok sha s v"
  shows "authority_writes sha C R s (snd (reserve_effect sha now v s))"
    and "reserve_effect sha now v s = (Inr r, t) \<Longrightarrow> r \<in> set (as_effects t) \<and> as_heads t = as_heads s"
proof -
  have body: "authority_writes sha C R s t \<and> (\<exists>r. x = Some r \<and> r \<in> set (as_effects t)) \<and> as_heads t = as_heads s"
    if p: "parse_effect_reservation sha v = Inr v" and b: "canonical_bytes v = Inr bs"
      and h: "required_effect_object v ''head'' = Inr head" and w: "reserve_effect_body now v head bs s = Inr (x, t)"
    for bs head x t
  proof -
    have hd: "head = json_get v (js ''head'')" "is_json_object (json_get v (js ''head''))"
      using h by (auto simp: required_effect_eq_Inr)
    have doc: "reservation_document sha v bs" "pinned s v"
      using rep p b by (auto simp: replacement_ok_def reservation_document_def)
    show ?thesis
      by (rule reserve_effect_body_writes [OF ok doc w [unfolded hd(1)] hd(2), where C = C and R = R]) blast
  qed
  show "authority_writes sha C R s (snd (reserve_effect sha now v s))"
  proof (cases "parse_effect_reservation sha v")
    case (Inr w)
    then have p: "parse_effect_reservation sha v = Inr v" using parse_reservation_same [OF Inr] by simp
    show ?thesis
      unfolding reserve_effect_def p
      by (auto simp: bind_op_lift_state bind_op_state transaction_def split: sum.splits prod.splits option.splits
          dest: body [OF p])
  qed (simp add: reserve_effect_def bind_op_lift_state)
  assume e: "reserve_effect sha now v s = (Inr r, t)"
  then obtain w where w: "parse_effect_reservation sha v = Inr w" by (auto simp: reserve_effect_def op_simps)
  then have p: "parse_effect_reservation sha v = Inr v" using parse_reservation_same [OF w] by simp
  obtain head bs x u where "required_effect_object v ''head'' = Inr head" "canonical_bytes v = Inr bs"
    "reserve_effect_body now v head bs s = Inr (x, u)"
    "(case x of None \<Rightarrow> fail_op (broker ''ACTIVATED_AUTHORITY_EFFECT_STORE_FAILED'' 500 False)
       | Some row \<Rightarrow> return_op row) u = (Inr r, t)"
    using e unfolding reserve_effect_def p by (auto simp: op_simps)
  then show "r \<in> set (as_effects t) \<and> as_heads t = as_heads s"
    using body [OF p, of bs head x u] by auto
qed

section \<open>The interface of the replay ledger\<close>

locale replay_ledger_interface =
  fixes rpc :: "'l replay_ledger_rpc" and lok :: "'l \<Rightarrow> bool" and spent :: "json \<Rightarrow> 'l \<Rightarrow> bool"
  assumes operation_inv: "ledger_operation rpc m \<Longrightarrow> lok l \<Longrightarrow> lok (snd (m l))"
    and spent_kept: "ledger_operation rpc m \<Longrightarrow> lok l \<Longrightarrow> spent b l \<Longrightarrow> spent b (snd (m l))"
    and committed: "lok l \<Longrightarrow> lr_commit rpc b l = (Inr x, k) \<Longrightarrow> eo_state x = Observed CONSUMED \<Longrightarrow> spent b k"
    and observed: "lok l \<Longrightarrow> lr_observe rpc b l = (Inr x, k) \<Longrightarrow> eo_state x = Observed CONSUMED \<Longrightarrow> spent b k"
    and cancelled: "lok l \<Longrightarrow> lr_cancel rpc b l = (Inr x, k) \<Longrightarrow> eo_state x = Observed CANCELLED \<Longrightarrow> \<not> spent b k"
    and not_observed: "lok l \<Longrightarrow> lr_observe rpc b l = (Inr x, k) \<Longrightarrow> eo_state x = Observed CANCELLED \<Longrightarrow> \<not> spent b k"
begin

abbreviation W :: "(js_string \<Rightarrow> js_number) \<Rightarrow> hash \<Rightarrow> authority_storage \<times> 'l \<Rightarrow> authority_storage \<times> 'l \<Rightarrow> bool" where
  "W decimal sha \<equiv> (joint_write decimal sha rpc spent)\<^sup>*\<^sup>*"

lemma operations:
  "ledger_operation rpc (lr_prepare rpc b)" "ledger_operation rpc (lr_commit rpc b)"
  "ledger_operation rpc (lr_cancel rpc b)" "ledger_operation rpc (lr_observe rpc b)"
  "ledger_operation rpc (lr_mark_terminal rpc b)"
  by (auto simp: ledger_operation_def)

lemma joint_write_inv:
  assumes "joint_write decimal sha rpc spent x y" and "joint_inv decimal sha lok spent x"
  shows "joint_inv decimal sha lok spent y"
  using assms(1)
proof cases
  case (journal l s t)
  have "effect_spent decimal sha spent l q" if q: "q \<in> set (as_effects t)" "ef_status q = E_CONFIRMED" for q
  proof -
    obtain r where r: "r \<in> set (as_effects s)" "carried_on r q"
      "ef_status r = E_CONFIRMED \<or> effect_spent decimal sha spent l r"
      using write_confirmed [OF journal(3) q] by blast
    then have "effect_spent decimal sha spent l r"
      using assms(2) journal(1) by (auto simp: joint_inv_def)
    then show ?thesis using effect_spent_cong [of q r decimal sha spent l] r(2) by (simp add: carried_on_def)
  qed
  then show ?thesis using assms(2) write_inv [OF journal(3)] journal(1,2) by (simp add: joint_inv_def)
next
  case (ledger m s l)
  then show ?thesis
    using assms(2) operation_inv [OF ledger(3)] spent_kept [OF ledger(3)]
    by (auto simp: joint_inv_def effect_spent_def)
qed

lemma joint_writes_inv:
  "W decimal sha x y \<Longrightarrow> joint_inv decimal sha lok spent x \<Longrightarrow> joint_inv decimal sha lok spent y"
  by (induction rule: rtranclp_induct) (auto intro: joint_write_inv)

text \<open>An effect whose token is spent is carried on: it is not armed again, and its result stays.\<close>

lemma spent_carried_on:
  assumes "W decimal sha x y" and "lok (snd x)" and "r \<in> set (as_effects (fst x))"
    and "ef_status r \<in> {E_DISPATCHED_HOLD, E_CONFIRMED}" and "effect_spent decimal sha spent (snd x) r"
  shows "lok (snd y) \<and> (\<exists>q \<in> set (as_effects (fst y)). carried_on r q \<and> effect_spent decimal sha spent (snd y) q)"
  using assms(1)
proof (induction rule: rtranclp_induct)
  case base
  then show ?case using assms carried_on_refl by blast
next
  case (step y z)
  then obtain q where q: "q \<in> set (as_effects (fst y))" "carried_on r q" "effect_spent decimal sha spent (snd y) q"
    and i: "lok (snd y)" by blast
  have st: "ef_status q \<in> {E_DISPATCHED_HOLD, E_CONFIRMED}" using q(2) assms(4) by (auto simp: carried_on_def)
  from step(2) show ?case
  proof cases
    case (journal l s t)
    then have "\<exists>p \<in> set (as_effects t). carried_on q p" using q by (intro write_carries_on [OF journal(3) _ st]) auto
    then obtain p where p: "p \<in> set (as_effects t)" "carried_on q p" by blast
    moreover have "effect_spent decimal sha spent l p"
      using q(3) p(2) journal(1) effect_spent_cong [of p q decimal sha spent l] by (simp add: carried_on_def)
    ultimately show ?thesis using i journal carried_on_trans [OF q(2)] by auto
  next
    case (ledger m s l)
    then show ?thesis
      using q i operation_inv [OF ledger(3)] spent_kept [OF ledger(3)] by (auto simp: effect_spent_def)
  qed
qed

lemma on_ledger_writes:
  assumes "ledger_operation rpc m"
  shows "W decimal sha x (snd (on_ledger m x))"
proof -
  obtain s l where x: "x = (s, l)" by (cases x)
  have "joint_write decimal sha rpc spent (s, l) (s, snd (m l))" by (rule joint_write.ledger [OF assms])
  then show ?thesis by (simp add: x on_ledger_def case_prod_beta)
qed

lemma on_storage_writes:
  assumes "authority_writes sha (effect_spent decimal sha spent l) (\<lambda>r. \<not> effect_spent decimal sha spent l r) s (snd (m s))"
  shows "W decimal sha (s, l) (snd (on_storage m (s, l)))"
proof -
  have "W decimal sha (s, l) (t, l)"
    if "authority_writes sha (effect_spent decimal sha spent l) (\<lambda>r. \<not> effect_spent decimal sha spent l r) s t" for t
    using that by (induction rule: rtranclp_induct) (auto intro: joint_write.journal rtranclp.rtrancl_into_rtrancl)
  from this [OF assms] show ?thesis by (simp add: on_storage_def case_prod_beta)
qed

text \<open>The coordinator's operations, on a row the journal holds.\<close>

lemma ledger_result:
  assumes "on_ledger m (s, l) = (q, y)"
  obtains k where "y = (s, k)" "m l = (q, k)"
  using assms by (cases "m l") (auto simp: on_ledger_def)

lemma journal_ok: "joint_inv decimal sha lok spent (s, l) \<Longrightarrow> storage_ok s \<and> lok l"
  by (simp add: joint_inv_def storage_inv_def)

lemma joint_after_ledger:
  assumes "joint_inv decimal sha lok spent (s, l)" and "ledger_operation rpc m" and "m l = (q, k)"
  shows "joint_inv decimal sha lok spent (s, k)"
  using joint_write_inv [OF joint_write.ledger [OF assms(2)] assms(1)] assms(3) by simp

lemma confirm_writes:
  assumes j: "joint_inv decimal sha lok spent (s, l)" and row: "row \<in> set (as_effects s)"
    and "effect_spent decimal sha spent l row"
  shows "W decimal sha (s, l) (snd (on_storage (confirm_effect (ef_reservation_id row) digest) (s, l)))"
proof (rule on_storage_writes, rule confirm_effect_writes)
  show ok: "storage_ok s" using journal_ok [OF j] ..
  show "effect_spent decimal sha spent l r"
    if "r \<in> set (as_effects s)" "ef_reservation_id r = ef_reservation_id row" for r
    using same_reservation_id [OF ok that(1) row that(2)] assms(3) by simp
qed

lemma commit_and_confirm_writes:
  assumes j: "joint_inv decimal sha lok spent (s, l)" and row: "row \<in> set (as_effects s)"
    and env: "env = None \<or> env = Some rpc"
  shows "W decimal sha (s, l) (snd (commit_and_confirm decimal sha env row digest (s, l)))"
proof -
  have step: "W decimal sha (s, l) (snd (bind_op (on_ledger (lr_commit rpc b)) (\<lambda>committed.
          if eo_state committed \<noteq> Observed CONSUMED
          then fail_op (broker ''ACTIVATED_AUTHORITY_EFFECT_RECONCILIATION_CONFLICT'' 409 False)
          else
            bind_op (on_storage (confirm_effect (ef_reservation_id row) digest)) (\<lambda>confirmed.
            bind_op (on_ledger (lr_mark_terminal rpc b)) (\<lambda>_. return_op confirmed))) (s, l)))"
    if b: "replay_binding decimal sha row = Inr b" for b
  proof (rule bind_writes)
    fix x y assume c: "on_ledger (lr_commit rpc b) (s, l) = (Inr x, y)"
    obtain k where y: "y = (s, k)" "lr_commit rpc b l = (Inr x, k)" by (rule ledger_result [OF c])
    have jk: "joint_inv decimal sha lok spent (s, k)" by (rule joint_after_ledger [OF j operations(2) y(2)])
    have sp: "effect_spent decimal sha spent k row" if "eo_state x = Observed CONSUMED"
      using committed [OF _ y(2) that] journal_ok [OF j] b by (auto simp: effect_spent_def)
    show "W decimal sha y (snd ((if eo_state x \<noteq> Observed CONSUMED
          then fail_op (broker ''ACTIVATED_AUTHORITY_EFFECT_RECONCILIATION_CONFLICT'' 409 False)
          else
            bind_op (on_storage (confirm_effect (ef_reservation_id row) digest)) (\<lambda>confirmed.
            bind_op (on_ledger (lr_mark_terminal rpc b)) (\<lambda>_. return_op confirmed))) y))"
    proof (cases "eo_state x = Observed CONSUMED")
      case True
      have "W decimal sha (s, k) (snd (bind_op (on_storage (confirm_effect (ef_reservation_id row) digest)) (\<lambda>confirmed.
            bind_op (on_ledger (lr_mark_terminal rpc b)) (\<lambda>_. return_op confirmed)) (s, k)))"
        by (intro bind_writes confirm_writes [OF jk row sp [OF True]] on_ledger_writes operations) simp
      then show ?thesis using True by (simp add: y(1))
    qed simp
  qed (rule on_ledger_writes [OF operations(2)])
  show ?thesis
    unfolding commit_and_confirm_def
    using env by (auto simp: replay_ledger_def intro!: lift_writes step)
qed

lemma prepare_and_dispatch_writes:
  assumes j: "joint_inv decimal sha lok spent (s, l)" and env: "env = None \<or> env = Some rpc"
  shows "W decimal sha (s, l) (snd (prepare_and_dispatch decimal sha env now row (s, l)))"
proof -
  have step: "W decimal sha (s, l) (snd (bind_op (on_ledger (lr_prepare rpc b)) (\<lambda>prepared.
          if eo_state prepared \<noteq> Observed PREPARED
          then fail_op (broker ''ACTIVATED_AUTHORITY_EFFECT_RECONCILIATION_CONFLICT'' 409 False)
          else on_storage (dispatch_effect (ef_reservation_id row) now)) (s, l)))" for b
  proof (rule bind_writes)
    fix x y assume c: "on_ledger (lr_prepare rpc b) (s, l) = (Inr x, y)"
    obtain k where y: "y = (s, k)" by (rule ledger_result [OF c])
    have dispatch: "W decimal sha (s, k) (snd (on_storage (dispatch_effect (ef_reservation_id row) now) (s, k)))"
      by (rule on_storage_writes, rule dispatch_effect_writes) (use journal_ok [OF j] in simp)
    show "W decimal sha y (snd ((if eo_state x \<noteq> Observed PREPARED
          then fail_op (broker ''ACTIVATED_AUTHORITY_EFFECT_RECONCILIATION_CONFLICT'' 409 False)
          else on_storage (dispatch_effect (ef_reservation_id row) now)) y))"
      using dispatch by (simp add: y)
  qed (rule on_ledger_writes [OF operations(1)])
  show ?thesis
    unfolding prepare_and_dispatch_def
    using env by (auto simp: replay_ledger_def intro!: lift_writes step)
qed

lemma rearm_spent_writes:
  assumes j: "joint_inv decimal sha lok spent (s, l)" and row: "row \<in> set (as_effects s)"
    and rep: "replacement_ok sha s v"
    and "ef_status row = E_DISPATCHED_HOLD \<longrightarrow> \<not> effect_spent decimal sha spent l row"
  shows "W decimal sha (s, l) (snd (on_storage (rearm_after_observed_absent sha (ef_reservation_id row) v) (s, l)))"
proof (rule on_storage_writes, rule rearm_writes)
  show ok: "storage_ok s" using journal_ok [OF j] ..
  show "pinned s v" using rep by (simp add: replacement_ok_def)
  show "w = v \<and> well_formed v" if "parse_effect_reservation sha v = Inr w" for w
    using rep that by (simp add: replacement_ok_def)
  show "\<not> effect_spent decimal sha spent l r"
    if "r \<in> set (as_effects s)" "ef_reservation_id r = ef_reservation_id row" "ef_status r = E_DISPATCHED_HOLD" for r
    using same_reservation_id [OF ok that(1) row that(2)] assms(4) that(3) by simp
qed

lemma reconcile_writes:
  assumes j: "joint_inv decimal sha lok spent (s, l)" and row: "row \<in> set (as_effects s)"
    and env: "env = None \<or> env = Some rpc" and rep: "replacement_ok sha s v"
  shows "W decimal sha (s, l) (snd (reconcile_effect decimal sha env row v (s, l)))"
proof -
  let ?rearm = "\<lambda>b m. bind_op (on_storage (rearm_after_observed_absent sha (ef_reservation_id row) v)) (m b)"
  have step: "W decimal sha (s, l) (snd (bind_op (on_ledger (lr_observe rpc b)) (\<lambda>observed.
       if ef_status row = E_DISPATCHED_HOLD \<and> eo_state observed = Observed CONSUMED then
         (case ef_result_sha256 row of
            None \<Rightarrow> fail_op stored_invalid
          | Some digest \<Rightarrow> on_storage (confirm_effect (ef_reservation_id row) digest))
       else if eo_state observed = Observed PREPARED then
         bind_op (on_ledger (lr_cancel rpc b)) (\<lambda>cancelled.
           if eo_state cancelled \<noteq> Observed CANCELLED
           then fail_op (broker ''ACTIVATED_AUTHORITY_EFFECT_RECONCILIATION_CONFLICT'' 409 False)
           else
             bind_op (on_storage (rearm_after_observed_absent sha (ef_reservation_id row) v)) (\<lambda>rearmed.
             bind_op (on_ledger (lr_mark_terminal rpc b)) (\<lambda>_. return_op rearmed)))
       else if eo_state observed = Observed CANCELLED \<or> ef_status row = E_SEALED \<and> eo_state observed = ABSENT then
         bind_op (on_storage (rearm_after_observed_absent sha (ef_reservation_id row) v)) (\<lambda>rearmed.
         bind_op (if eo_state observed = Observed CANCELLED
                  then bind_op (on_ledger (lr_mark_terminal rpc b)) (\<lambda>_. return_op ())
                  else return_op ()) (\<lambda>_. return_op rearmed))
       else if eo_state observed = Observed CONSUMED
       then fail_op (broker ''ACTIVATED_AUTHORITY_EFFECT_RECONCILIATION_CONFLICT'' 409 False)
       else fail_op (broker ''ACTIVATED_AUTHORITY_EFFECT_RECONCILIATION_AMBIGUOUS'' 503 False)) (s, l)))"
    (is "W decimal sha (s, l) (snd (bind_op _ ?F (s, l)))")
    if b: "replay_binding decimal sha row = Inr b" for b
  proof (rule bind_writes)
    fix x y assume c: "on_ledger (lr_observe rpc b) (s, l) = (Inr x, y)"
    obtain k where y: "y = (s, k)" "lr_observe rpc b l = (Inr x, k)" by (rule ledger_result [OF c])
    have jk: "joint_inv decimal sha lok spent (s, k)" by (rule joint_after_ledger [OF j operations(4) y(2)])
    have lk: "lok l" "lok k" using journal_ok [OF j] journal_ok [OF jk] by simp_all
    have confirm: "W decimal sha (s, k) (snd (on_storage (confirm_effect (ef_reservation_id row) digest) (s, k)))"
      if "eo_state x = Observed CONSUMED" for digest
      by (rule confirm_writes [OF jk row]) (use observed [OF lk(1) y(2) that] b in \<open>auto simp: effect_spent_def\<close>)
    have mark: "W decimal sha z (snd (bind_op (on_ledger (lr_mark_terminal rpc b)) (\<lambda>_. return_op a) z))" for z and a :: 'z
      by (intro bind_writes on_ledger_writes operations) simp
    have rearm_cancelled: "W decimal sha (s, k2) (snd (bind_op (on_storage
        (rearm_after_observed_absent sha (ef_reservation_id row) v)) (\<lambda>rearmed.
             bind_op (on_ledger (lr_mark_terminal rpc b)) (\<lambda>_. return_op rearmed)) (s, k2)))"
      if q: "lr_cancel rpc b k = (Inr q, k2)" "eo_state q = Observed CANCELLED" for q k2
    proof (rule bind_writes)
      show "W decimal sha (s, k2) (snd (on_storage (rearm_after_observed_absent sha (ef_reservation_id row) v) (s, k2)))"
        by (rule rearm_spent_writes [OF joint_after_ledger [OF jk operations(3) q(1)] row rep])
          (use cancelled [OF lk(2) q] b in \<open>auto simp: effect_spent_def\<close>)
    qed (rule mark)
    have cancel: "W decimal sha (s, k) (snd (bind_op (on_ledger (lr_cancel rpc b)) (\<lambda>q.
           if eo_state q \<noteq> Observed CANCELLED
           then fail_op (broker ''ACTIVATED_AUTHORITY_EFFECT_RECONCILIATION_CONFLICT'' 409 False)
           else
             bind_op (on_storage (rearm_after_observed_absent sha (ef_reservation_id row) v)) (\<lambda>rearmed.
             bind_op (on_ledger (lr_mark_terminal rpc b)) (\<lambda>_. return_op rearmed))) (s, k)))"
    proof (rule bind_writes)
      fix q z assume q: "on_ledger (lr_cancel rpc b) (s, k) = (Inr q, z)"
      obtain k2 where z: "z = (s, k2)" "lr_cancel rpc b k = (Inr q, k2)" by (rule ledger_result [OF q])
      show "W decimal sha z (snd ((if eo_state q \<noteq> Observed CANCELLED
           then fail_op (broker ''ACTIVATED_AUTHORITY_EFFECT_RECONCILIATION_CONFLICT'' 409 False)
           else
             bind_op (on_storage (rearm_after_observed_absent sha (ef_reservation_id row) v)) (\<lambda>rearmed.
             bind_op (on_ledger (lr_mark_terminal rpc b)) (\<lambda>_. return_op rearmed))) z))"
        using rearm_cancelled [OF z(2)] by (simp add: z(1))
    qed (rule on_ledger_writes [OF operations(3)])
    have rearm: "W decimal sha (s, k) (snd (bind_op (on_storage
        (rearm_after_observed_absent sha (ef_reservation_id row) v)) (\<lambda>rearmed.
         bind_op (if eo_state x = Observed CANCELLED
                  then bind_op (on_ledger (lr_mark_terminal rpc b)) (\<lambda>_. return_op ())
                  else return_op ()) (\<lambda>_. return_op rearmed)) (s, k)))"
      if "eo_state x = Observed CANCELLED \<or> ef_status row = E_SEALED \<and> eo_state x = ABSENT"
    proof (intro bind_writes rearm_spent_writes [OF jk row rep])
      show "ef_status row = E_DISPATCHED_HOLD \<longrightarrow> \<not> effect_spent decimal sha spent k row"
        using that not_observed [OF lk(1) y(2)] b by (auto simp: effect_spent_def)
      show "W decimal sha z (snd ((if eo_state x = Observed CANCELLED
                  then bind_op (on_ledger (lr_mark_terminal rpc b)) (\<lambda>_. return_op ())
                  else return_op ()) z))" for z
        using mark [of z "()"] by simp
    qed simp
    show "W decimal sha y (snd (?F x y))"
      using confirm cancel rearm by (auto simp: y(1) split: option.split)
  qed (rule on_ledger_writes [OF operations(4)])
  show ?thesis
    unfolding reconcile_effect_def
    using env by (auto simp: replay_ledger_def intro!: lift_writes step)
qed

lemma accept_reserved_writes:
  assumes j: "joint_inv decimal sha lok spent (s, l)" and row: "row \<in> set (as_effects s)"
    and env: "env = None \<or> env = Some rpc" and rep: "replacement_ok sha s v"
  shows "W decimal sha (s, l) (snd (accept_reserved decimal sha env p v row (s, l)))"
  unfolding accept_reserved_def
proof (rule bind_writes)
  show "W decimal sha (s, l) (snd ((if ef_status row = E_SEALED \<or> ef_status row = E_DISPATCHED_HOLD
              then reconcile_effect decimal sha env row v else return_op row) (s, l)))"
    using reconcile_writes [OF j row env rep] by simp
next
  fix r y
  have mark: "W decimal sha y (snd ((if ef_status r = E_CONFIRMED then
               bind_op (lift_op (replay_ledger env)) (\<lambda>ledger.
               bind_op (lift_op (replay_binding decimal sha r)) (\<lambda>binding.
               bind_op (on_ledger (lr_mark_terminal ledger binding)) (\<lambda>_. return_op ())))
             else return_op ()) y))"
    using env by (auto simp: replay_ledger_def intro!: lift_writes bind_writes on_ledger_writes operations)
  show "W decimal sha y (snd (bind_op (lift_op (stored_reservation decimal sha r)) (\<lambda>accepted.
       case returnable (ef_status r) of
         None \<Rightarrow> fail_op (broker ''ACTIVATED_AUTHORITY_EFFECT_STATUS_INVALID'' 503 False)
       | Some status \<Rightarrow>
           bind_op (if ef_status r = E_CONFIRMED then
               bind_op (lift_op (replay_ledger env)) (\<lambda>ledger.
               bind_op (lift_op (replay_binding decimal sha r)) (\<lambda>binding.
               bind_op (on_ledger (lr_mark_terminal ledger binding)) (\<lambda>_. return_op ())))
             else return_op ()) (\<lambda>_.
           bind_op (lift_op (result_canonical r)) (\<lambda>sealed.
           lift_op (build_reserve_result decimal sha p accepted status sealed)))) y))"
  proof (rule lift_writes)
    fix accepted
    show "W decimal sha y (snd ((case returnable (ef_status r) of
         None \<Rightarrow> fail_op (broker ''ACTIVATED_AUTHORITY_EFFECT_STATUS_INVALID'' 503 False)
       | Some status \<Rightarrow>
           bind_op (if ef_status r = E_CONFIRMED then
               bind_op (lift_op (replay_ledger env)) (\<lambda>ledger.
               bind_op (lift_op (replay_binding decimal sha r)) (\<lambda>binding.
               bind_op (on_ledger (lr_mark_terminal ledger binding)) (\<lambda>_. return_op ())))
             else return_op ()) (\<lambda>_.
           bind_op (lift_op (result_canonical r)) (\<lambda>sealed.
           lift_op (build_reserve_result decimal sha p accepted status sealed)))) y))"
    proof (cases "returnable (ef_status r)")
      case (Some status)
      then show ?thesis by (simp only: option.case) (intro bind_writes mark lift_writes, simp)
    qed simp
  qed
qed

lemma coordinator_reserve_writes:
  assumes j: "joint_inv decimal sha lok spent (s, l)" and env: "env = None \<or> env = Some rpc"
    and wf: "\<And>row q a n p. build row q a n = Inr p \<Longrightarrow> well_formed p"
  shows "W decimal sha (s, l) (snd (coordinator_reserve decimal sha env build now store_now canonical (s, l)))"
  unfolding coordinator_reserve_def
proof (intro lift_writes)
  fix request :: reserve_request and u u'
  show "W decimal sha (s, l) (snd (bind_op get_op (\<lambda>(s, _).
     bind_op (lift_op (require_r (pending_head s = None)
         (broker ''ACTIVATED_AUTHORITY_HEAD_ADVANCE_PENDING'' 503 True))) (\<lambda>_.
     bind_op (lift_op (case current_head s of
         None \<Rightarrow> Inl (broker ''ACTIVATED_AUTHORITY_HEAD_UNAVAILABLE'' 503 True) | Some h \<Rightarrow> Inr h)) (\<lambda>current.
     bind_op (lift_op (build current (rs_request_id request) (rs_requested_at request) now)) (\<lambda>proof_value.
     bind_op (lift_op (assert_current_head_matches_request sha proof_value (rs_read_request request))) (\<lambda>_.
     bind_op (lift_op (build_effect_reservation sha
         \<lparr>ri_created_at = rs_requested_at request, ri_expires_at = rs_expires_at request,
          ri_head_generation = hr_generation current, ri_head_record_id = hr_record_id current,
          ri_head_record_sha256 = hr_record_sha256 current, ri_head_proof = proof_value,
          ri_intent_sha256 = rs_intent_sha256 request, ri_replay_claims_sha256 = rs_replay_claims_sha256 request,
          ri_replay_expires_at = rs_replay_expires_at request, ri_replay_jti_sha256 = rs_replay_jti_sha256 request,
          ri_request_id = rs_request_id request\<rparr>)) (\<lambda>reservation.
     bind_op (on_storage (reserve_effect sha store_now reservation)) (\<lambda>reserved.
       accept_reserved decimal sha env proof_value reservation reserved))))))) (s, l)))"
    unfolding bind_op_get prod.case
  proof (intro lift_writes)
    fix u h p q v
    assume pend: "require_r (pending_head s = None) (broker ''ACTIVATED_AUTHORITY_HEAD_ADVANCE_PENDING'' 503 True) = Inr u"
      and h: "(case current_head s of None \<Rightarrow> Inl (broker ''ACTIVATED_AUTHORITY_HEAD_UNAVAILABLE'' 503 True)
         | Some h \<Rightarrow> Inr h) = Inr h"
      and p: "build h (rs_request_id request) (rs_requested_at request) now = Inr p"
      and v: "build_effect_reservation sha
         \<lparr>ri_created_at = rs_requested_at request, ri_expires_at = rs_expires_at request,
          ri_head_generation = hr_generation h, ri_head_record_id = hr_record_id h,
          ri_head_record_sha256 = hr_record_sha256 h, ri_head_proof = p,
          ri_intent_sha256 = rs_intent_sha256 request, ri_replay_claims_sha256 = rs_replay_claims_sha256 request,
          ri_replay_expires_at = rs_replay_expires_at request, ri_replay_jti_sha256 = rs_replay_jti_sha256 request,
          ri_request_id = rs_request_id request\<rparr> = Inr v"
    have ch: "current_head s = Some h" using h by (cases "current_head s") simp_all
    have rep: "replacement_ok sha s v"
      by (rule built_replacement_ok [OF v _ _ ch]) (use pend wf [OF p] in \<open>simp_all add: require_r_eq_Inr\<close>)
    have ok: "storage_ok s" using journal_ok [OF j] ..
    note w = reserve_effect_writes [OF ok rep]
    show "W decimal sha (s, l) (snd (bind_op (on_storage (reserve_effect sha store_now v)) (\<lambda>reserved.
       accept_reserved decimal sha env p v reserved) (s, l)))"
    proof (rule bind_writes)
      show st: "W decimal sha (s, l) (snd (on_storage (reserve_effect sha store_now v) (s, l)))"
        by (rule on_storage_writes) (rule w(1))
      fix row y assume e: "on_storage (reserve_effect sha store_now v) (s, l) = (Inr row, y)"
      then obtain t where y: "y = (t, l)" "reserve_effect sha store_now v s = (Inr row, t)"
        by (cases "reserve_effect sha store_now v s") (auto simp: on_storage_def)
      have jt: "joint_inv decimal sha lok spent (t, l)"
        using joint_writes_inv [OF st j] by (simp add: e y(1))
      show "W decimal sha y (snd (accept_reserved decimal sha env p v row y))"
        unfolding y(1)
        by (rule accept_reserved_writes [OF jt _ env])
          (use w(2) [OF y(2)] rep replacement_ok_cong [of t s sha v] in simp_all)
    qed
  qed
qed

lemma find_requested_row:
  assumes "joint_inv decimal sha lok spent (s, l)" and "find_requested q (s, l) = (Inr row, y)"
  shows "y = (s, l) \<and> row \<in> set (as_effects s) \<and> ef_reservation_id row = tq_reservation_id q"
  using assms(2) find_effect_iff [of s "tq_reservation_id q" row] journal_ok [OF assms(1)]
  by (auto simp: find_requested_def split: option.splits if_splits)

lemma coordinator_transition_writes:
  assumes j: "joint_inv decimal sha lok spent (s, l)" and env: "env = None \<or> env = Some rpc"
  shows "W decimal sha (s, l) (snd (coordinator_transition decimal sha env now dispatch_now canonical (s, l)))"
  unfolding coordinator_transition_def
proof (intro lift_writes)
  fix q :: transition_request and u
  have cancel: "W decimal sha (s, l) (snd (on_storage (cancel_undispatched (tq_reservation_id q)) (s, l)))"
    by (rule on_storage_writes, rule cancel_undispatched_writes) (use journal_ok [OF j] in simp)
  show "W decimal sha (s, l) (snd (bind_op (find_requested q) (\<lambda>existing.
     bind_op (case tq_action q of
         SEAL \<Rightarrow> fail_op (broker ''ACTIVATED_AUTHORITY_EFFECT_TRANSITION_INVALID'' 409 False)
       | DISPATCH_EFFECT \<Rightarrow> prepare_and_dispatch decimal sha env dispatch_now existing
       | CONFIRM \<Rightarrow>
           (case tq_result_sha256 q of
              None \<Rightarrow> fail_op (broker ''ACTIVATED_AUTHORITY_EFFECT_RESULT_INVALID'' 409 False)
            | Some digest \<Rightarrow> commit_and_confirm decimal sha env existing digest)
       | CANCEL \<Rightarrow> on_storage (cancel_undispatched (tq_reservation_id q))) (\<lambda>row.
       lift_op (status_canonical row))) (s, l)))"
  proof (rule bind_writes)
    show "W decimal sha (s, l) (snd (find_requested q (s, l)))" by (simp add: find_requested_def)
    fix row y assume "find_requested q (s, l) = (Inr row, y)"
    from find_requested_row [OF j this] have y: "y = (s, l)" and row: "row \<in> set (as_effects s)" by simp_all
    show "W decimal sha y (snd (bind_op (case tq_action q of
         SEAL \<Rightarrow> fail_op (broker ''ACTIVATED_AUTHORITY_EFFECT_TRANSITION_INVALID'' 409 False)
       | DISPATCH_EFFECT \<Rightarrow> prepare_and_dispatch decimal sha env dispatch_now row
       | CONFIRM \<Rightarrow>
           (case tq_result_sha256 q of
              None \<Rightarrow> fail_op (broker ''ACTIVATED_AUTHORITY_EFFECT_RESULT_INVALID'' 409 False)
            | Some digest \<Rightarrow> commit_and_confirm decimal sha env row digest)
       | CANCEL \<Rightarrow> on_storage (cancel_undispatched (tq_reservation_id q))) (\<lambda>row.
       lift_op (status_canonical row)) y))"
      unfolding y
      by (rule bind_writes)
        (use cancel prepare_and_dispatch_writes [OF j env] commit_and_confirm_writes [OF j row env] in
          \<open>auto split: effect_transition.split option.split\<close>)
  qed
qed

lemma coordinator_seal_writes:
  assumes j: "joint_inv decimal sha lok spent (s, l)"
  shows "W decimal sha (s, l) (snd (coordinator_seal decimal sha now canonical res (s, l)))"
  unfolding coordinator_seal_def
proof (intro lift_writes)
  fix q :: transition_request and u u'
  have seal: "W decimal sha (s, l) (snd (on_storage (seal_effect decimal sha (tq_reservation_id q) res) (s, l)))"
    by (rule on_storage_writes, rule seal_effect_writes) (use journal_ok [OF j] in simp)
  show "W decimal sha (s, l) (snd (bind_op (find_requested q) (\<lambda>_.
     bind_op (on_storage (seal_effect decimal sha (tq_reservation_id q) res)) (\<lambda>row.
       lift_op (status_canonical row))) (s, l)))"
  proof (rule bind_writes)
    show "W decimal sha (s, l) (snd (find_requested q (s, l)))" by (simp add: find_requested_def)
    fix row y assume "find_requested q (s, l) = (Inr row, y)"
    then have y: "y = (s, l)" using find_requested_row [OF j] by blast
    show "W decimal sha y (snd (bind_op (on_storage (seal_effect decimal sha (tq_reservation_id q) res)) (\<lambda>row.
       lift_op (status_canonical row)) y))"
      unfolding y by (rule bind_writes, rule seal) simp
  qed
qed

end

end
