(* ===== verification/RemoteLedger.thy ===== *)
theory RemoteLedger imports CoordinatorHistory begin

text \<open>
  The replay ledger as the coordinator reaches it: another durable object, across the network. Before a
  call other clients may have called the ledger; the call itself may be lost on the way there or its
  reply on the way back, and it reads the ledger's own clock. A schedule lists what happens around each
  call; the ledger behind it is the model of \<open>auth-replay-ledger.ts\<close> and \<open>auth-replay-effect-store.ts\<close>,
  and it meets the interface of the coordinator.
\<close>

section \<open>Calls over the network\<close>

type_synonym timed_call = "ledger_call \<times> int \<times> int \<times> int"

record ledger_hop =
  lh_before :: "timed_call list"
  lh_lost_request :: "js_error option"
  lh_lost_reply :: "js_error option"
  lh_n1 :: int
  lh_n2 :: int
  lh_n3 :: int

record remote_ledger =
  rl_clock :: int
  rl_storage :: replay_storage
  rl_schedule :: "ledger_hop list"

fun run_calls :: "hash \<Rightarrow> timed_call list \<Rightarrow> int \<times> replay_storage \<Rightarrow> int \<times> replay_storage" where
  "run_calls sha [] st = st"
| "run_calls sha ((c, n1, n2, n3) # cs) st =
     run_calls sha cs (n3, after_call sha EFFECT_LEDGER_NAME c n1 n2 n3 (snd st))"

text \<open>The clock does not run backwards, and one call does not span the seven days of the tombstone grace.\<close>

fun calls_ok :: "int \<Rightarrow> timed_call list \<Rightarrow> int \<Rightarrow> bool" where
  "calls_ok clock [] end_clock \<longleftrightarrow> clock = end_clock"
| "calls_ok clock ((c, n1, n2, n3) # cs) end_clock \<longleftrightarrow>
     clock \<le> n1 \<and> n1 \<le> n2 \<and> n2 \<le> n3 \<and> n3 < n1 + TERMINAL_TOMBSTONE_GRACE_MS \<and> calls_ok n3 cs end_clock"

fun end_clock :: "int \<Rightarrow> timed_call list \<Rightarrow> int" where
  "end_clock clock [] = clock"
| "end_clock clock ((c, n1, n2, n3) # cs) = end_clock n3 cs"

fun schedule_ok :: "int \<Rightarrow> ledger_hop list \<Rightarrow> bool" where
  "schedule_ok clock [] \<longleftrightarrow> True"
| "schedule_ok clock (h # hs) \<longleftrightarrow>
     calls_ok clock (lh_before h) (end_clock clock (lh_before h)) \<and> end_clock clock (lh_before h) \<le> lh_n1 h \<and>
     lh_n1 h \<le> lh_n2 h \<and> lh_n2 h \<le> lh_n3 h \<and> lh_n3 h < lh_n1 h + TERMINAL_TOMBSTONE_GRACE_MS \<and>
     schedule_ok (lh_n3 h) hs"

text \<open>A call; when the schedule is over, no request gets through any more.\<close>

definition remote_call ::
    "hash \<Rightarrow> js_error \<Rightarrow> (int \<Rightarrow> int \<Rightarrow> int \<Rightarrow> (replay_storage, 'a) op) \<Rightarrow> (remote_ledger, 'a) op" where
  "remote_call sha lost m = (\<lambda>l.
     case rl_schedule l of
       [] \<Rightarrow> (Inl lost, l)
     | h # hs \<Rightarrow>
         let s = snd (run_calls sha (lh_before h) (rl_clock l, rl_storage l)) in
         case lh_lost_request h of
           Some e \<Rightarrow> (Inl e, \<lparr>rl_clock = lh_n3 h, rl_storage = s, rl_schedule = hs\<rparr>)
         | None \<Rightarrow>
             let (r, t) = m (lh_n1 h) (lh_n2 h) (lh_n3 h) s in
             ((case lh_lost_reply h of Some e \<Rightarrow> Inl e | None \<Rightarrow> r),
              \<lparr>rl_clock = lh_n3 h, rl_storage = t, rl_schedule = hs\<rparr>))"

definition remote_rpc :: "hash \<Rightarrow> js_error \<Rightarrow> remote_ledger replay_ledger_rpc" where
  "remote_rpc sha lost =
     \<lparr>lr_prepare = (\<lambda>b. remote_call sha lost (\<lambda>n1 n2 n3. prepare_effect_exact EFFECT_LEDGER_NAME b n1 n2 n3)),
      lr_commit = (\<lambda>b. remote_call sha lost (\<lambda>n1 n2 n3. commit_prepared_effect_exact EFFECT_LEDGER_NAME b n1)),
      lr_cancel = (\<lambda>b. remote_call sha lost (\<lambda>n1 n2 n3. cancel_prepared_effect_exact EFFECT_LEDGER_NAME b n1)),
      lr_observe = (\<lambda>b. remote_call sha lost (\<lambda>n1 n2 n3. observe_prepared_effect_exact EFFECT_LEDGER_NAME b)),
      lr_mark_terminal =
        (\<lambda>b. remote_call sha lost (\<lambda>n1 n2 n3. mark_effect_journal_terminal_exact EFFECT_LEDGER_NAME b n1))\<rparr>"

definition remote_ok :: "remote_ledger \<Rightarrow> bool" where
  "remote_ok l \<longleftrightarrow> ledger_inv (rl_storage l) \<and> schedule_ok (rl_clock l) (rl_schedule l)"

text \<open>The use a binding names is consumed, or was and its tombstone is pruned after the token expired.\<close>

definition token_spent :: "json \<Rightarrow> remote_ledger \<Rightarrow> bool" where
  "token_spent v l \<longleftrightarrow>
     (\<exists>b r. parse_effect_replay_binding v = Inr b \<and> row_binds b r \<and> er_state r = CONSUMED \<and>
        settled r (rl_clock l) (rl_storage l))"

section \<open>The laws of the interface\<close>

lemma ledger_steps_trans:
  "ledger_steps sha name y z \<Longrightarrow> ledger_steps sha name x y \<Longrightarrow> ledger_steps sha name x z"
  by (induction rule: ledger_steps.induct) (auto intro: ledger_steps.step)

lemma run_calls_steps:
  "calls_ok clock cs e \<Longrightarrow> ledger_steps sha EFFECT_LEDGER_NAME (clock, s) (e, snd (run_calls sha cs (clock, s)))"
proof (induction cs arbitrary: clock s)
  case (Cons x cs)
  obtain c n1 n2 n3 where x: "x = (c, n1, n2, n3)" by (cases x)
  from Cons.prems have "ledger_step sha EFFECT_LEDGER_NAME (clock, s) (n3, after_call sha EFFECT_LEDGER_NAME c n1 n2 n3 s)"
    by (intro ledger_step.call) (simp_all add: x)
  then have "ledger_steps sha EFFECT_LEDGER_NAME (clock, s) (n3, after_call sha EFFECT_LEDGER_NAME c n1 n2 n3 s)"
    by (rule ledger_steps.step [OF ledger_steps.refl])
  moreover have "ledger_steps sha EFFECT_LEDGER_NAME (n3, after_call sha EFFECT_LEDGER_NAME c n1 n2 n3 s)
      (e, snd (run_calls sha cs (n3, after_call sha EFFECT_LEDGER_NAME c n1 n2 n3 s)))"
    using Cons.prems by (intro Cons.IH) (simp add: x)
  ultimately show ?case by (simp add: x ledger_steps_trans)
qed (auto intro: ledger_steps.refl)

lemma remote_call_steps:
  assumes ok: "remote_ok l"
    and m: "\<And>n1 n2 n3 s. \<exists>c. snd (m n1 n2 n3 s) = after_call sha EFFECT_LEDGER_NAME c n1 n2 n3 s"
  shows "remote_ok (snd (remote_call sha lost m l))"
    and "settled r (rl_clock l) (rl_storage l) \<Longrightarrow> er_state r \<noteq> PREPARED \<Longrightarrow>
      settled r (rl_clock (snd (remote_call sha lost m l))) (rl_storage (snd (remote_call sha lost m l)))"
    and "remote_call sha lost m l = (Inr x, k) \<Longrightarrow>
      \<exists>n1 n2 n3 s. ledger_inv s \<and> m n1 n2 n3 s = (Inr x, rl_storage k)"
proof -
  have "remote_ok (snd (remote_call sha lost m l)) \<and>
    (settled r (rl_clock l) (rl_storage l) \<and> er_state r \<noteq> PREPARED \<longrightarrow>
      settled r (rl_clock (snd (remote_call sha lost m l))) (rl_storage (snd (remote_call sha lost m l)))) \<and>
    (remote_call sha lost m l = (Inr x, k) \<longrightarrow> (\<exists>n1 n2 n3 s. ledger_inv s \<and> m n1 n2 n3 s = (Inr x, rl_storage k)))"
  proof (cases "rl_schedule l")
    case (Cons h hs)
    let ?e = "end_clock (rl_clock l) (lh_before h)"
    define s where "s = snd (run_calls sha (lh_before h) (rl_clock l, rl_storage l))"
    have sc: "calls_ok (rl_clock l) (lh_before h) ?e" "?e \<le> lh_n1 h" "lh_n1 h \<le> lh_n2 h" "lh_n2 h \<le> lh_n3 h"
      "lh_n3 h < lh_n1 h + TERMINAL_TOMBSTONE_GRACE_MS" "schedule_ok (lh_n3 h) hs" and i: "ledger_inv (rl_storage l)"
      using ok Cons by (simp_all add: remote_ok_def)
    have st: "ledger_steps sha EFFECT_LEDGER_NAME (rl_clock l, rl_storage l) (?e, s)"
      unfolding s_def by (rule run_calls_steps [OF sc(1)])
    have i1: "ledger_inv s" using ledger_steps_inv [OF st] i by simp
    have ss: "settled r ?e s" if "settled r (rl_clock l) (rl_storage l)" "er_state r \<noteq> PREPARED"
      using settled_steps [OF st i that] ..
    obtain c where c: "snd (m (lh_n1 h) (lh_n2 h) (lh_n3 h) s) =
        after_call sha EFFECT_LEDGER_NAME c (lh_n1 h) (lh_n2 h) (lh_n3 h) s" using m by blast
    obtain q t where q: "m (lh_n1 h) (lh_n2 h) (lh_n3 h) s = (q, t)" by (cases "m (lh_n1 h) (lh_n2 h) (lh_n3 h) s")
    have "ledger_step sha EFFECT_LEDGER_NAME (?e, s) (lh_n3 h, t)"
      using ledger_step.call [OF sc(2-5), of sha EFFECT_LEDGER_NAME s c] c q by simp
    then have st': "ledger_steps sha EFFECT_LEDGER_NAME (?e, s) (lh_n3 h, t)"
      by (rule ledger_steps.step [OF ledger_steps.refl])
    have it: "ledger_inv t" using ledger_steps_inv [OF st'] i1 by simp
    have tt: "settled r (lh_n3 h) t" if "settled r (rl_clock l) (rl_storage l)" "er_state r \<noteq> PREPARED"
      using settled_steps [OF st' i1 ss [OF that] that(2)] ..
    have sl: "settled r (lh_n3 h) s" if "settled r (rl_clock l) (rl_storage l)" "er_state r \<noteq> PREPARED"
      by (rule settled_later [OF ss [OF that]]) (use sc(2-4) in simp)
    show ?thesis
    proof (cases "lh_lost_request h")
      case None
      then have e: "remote_call sha lost m l = ((case lh_lost_reply h of Some e \<Rightarrow> Inl e | None \<Rightarrow> q),
          \<lparr>rl_clock = lh_n3 h, rl_storage = t, rl_schedule = hs\<rparr>)"
        by (simp add: remote_call_def Cons s_def [symmetric] q Let_def)
      show ?thesis
        unfolding e using it sc(6) tt i1 q by (auto simp: remote_ok_def split: option.splits) blast
    next
      case (Some e)
      then have e: "remote_call sha lost m l = (Inl e, \<lparr>rl_clock = lh_n3 h, rl_storage = s, rl_schedule = hs\<rparr>)"
        by (simp add: remote_call_def Cons s_def [symmetric] Let_def)
      show ?thesis unfolding e using i1 sc(6) sl by (simp add: remote_ok_def)
    qed
  qed (use ok in \<open>simp add: remote_call_def\<close>)
  then show "remote_ok (snd (remote_call sha lost m l))"
    and "settled r (rl_clock l) (rl_storage l) \<Longrightarrow> er_state r \<noteq> PREPARED \<Longrightarrow>
      settled r (rl_clock (snd (remote_call sha lost m l))) (rl_storage (snd (remote_call sha lost m l)))"
    and "remote_call sha lost m l = (Inr x, k) \<Longrightarrow>
      \<exists>n1 n2 n3 s. ledger_inv s \<and> m n1 n2 n3 s = (Inr x, rl_storage k)" by blast+
qed

text \<open>The calls of the interface are calls of the ledger.\<close>

lemma effect_calls:
  "prepare_effect_exact EFFECT_LEDGER_NAME b n1 n2 n3 = prepare b n1 n2 n3"
  "commit_prepared_effect_exact EFFECT_LEDGER_NAME b n1 = commit b n1"
  "cancel_prepared_effect_exact EFFECT_LEDGER_NAME b n1 = cancel b n1"
  "observe_prepared_effect_exact EFFECT_LEDGER_NAME b = observe b"
  by (simp_all add: prepare_effect_exact_def commit_prepared_effect_exact_def cancel_prepared_effect_exact_def
      observe_prepared_effect_exact_def on_effect_ledger_def)

lemma remote_operation:
  assumes "ledger_operation (remote_rpc sha lost) m"
  obtains f where "m = remote_call sha lost f"
    "\<And>n1 n2 n3 s. \<exists>c. snd (f n1 n2 n3 s) = after_call sha EFFECT_LEDGER_NAME c n1 n2 n3 s"
proof -
  obtain b where "m = lr_prepare (remote_rpc sha lost) b \<or> m = lr_commit (remote_rpc sha lost) b \<or>
      m = lr_cancel (remote_rpc sha lost) b \<or> m = lr_observe (remote_rpc sha lost) b \<or>
      m = lr_mark_terminal (remote_rpc sha lost) b"
    using assms by (auto simp: ledger_operation_def)
  then show thesis
  proof (elim disjE)
    assume "m = lr_prepare (remote_rpc sha lost) b"
    then show thesis by (intro that) (simp add: remote_rpc_def, metis after_call.simps(4))
  next
    assume "m = lr_commit (remote_rpc sha lost) b"
    then show thesis by (intro that) (simp add: remote_rpc_def, metis after_call.simps(5))
  next
    assume "m = lr_cancel (remote_rpc sha lost) b"
    then show thesis by (intro that) (simp add: remote_rpc_def, metis after_call.simps(6))
  next
    assume "m = lr_observe (remote_rpc sha lost) b"
    then show thesis by (intro that) (simp add: remote_rpc_def, metis after_call.simps(7))
  next
    assume "m = lr_mark_terminal (remote_rpc sha lost) b"
    then show thesis by (intro that) (simp add: remote_rpc_def, metis after_call.simps(8))
  qed
qed

lemma remote_commit:
  assumes "remote_ok l" and "lr_commit (remote_rpc sha lost) b l = (Inr x, k)"
  shows "\<exists>n s. ledger_inv s \<and> commit b n s = (Inr x, rl_storage k)"
proof -
  have c: "\<exists>c. snd (commit_prepared_effect_exact EFFECT_LEDGER_NAME b n1 s) = after_call sha EFFECT_LEDGER_NAME c n1 n2 n3 s" for n1 n2 n3 s
    by (rule exI [of _ "Commit_Effect b"]) simp
  have "remote_call sha lost (\<lambda>n1 n2 n3. commit_prepared_effect_exact EFFECT_LEDGER_NAME b n1) l = (Inr x, k)" using assms(2) by (simp add: remote_rpc_def)
  from remote_call_steps(3) [OF assms(1) c this] show ?thesis by (auto simp: effect_calls)
qed

lemma remote_cancel:
  assumes "remote_ok l" and "lr_cancel (remote_rpc sha lost) b l = (Inr x, k)"
  shows "\<exists>n s. ledger_inv s \<and> cancel b n s = (Inr x, rl_storage k)"
proof -
  have c: "\<exists>c. snd (cancel_prepared_effect_exact EFFECT_LEDGER_NAME b n1 s) = after_call sha EFFECT_LEDGER_NAME c n1 n2 n3 s" for n1 n2 n3 s
    by (rule exI [of _ "Cancel_Effect b"]) simp
  have "remote_call sha lost (\<lambda>n1 n2 n3. cancel_prepared_effect_exact EFFECT_LEDGER_NAME b n1) l = (Inr x, k)" using assms(2) by (simp add: remote_rpc_def)
  from remote_call_steps(3) [OF assms(1) c this] show ?thesis by (auto simp: effect_calls)
qed

lemma remote_observe:
  assumes "remote_ok l" and "lr_observe (remote_rpc sha lost) b l = (Inr x, k)"
  shows "\<exists>s. ledger_inv s \<and> observe b s = (Inr x, rl_storage k)"
proof -
  have c: "\<exists>c. snd (observe_prepared_effect_exact EFFECT_LEDGER_NAME b s) = after_call sha EFFECT_LEDGER_NAME c n1 n2 n3 s" for n1 n2 n3 s
    by (rule exI [of _ "Observe_Effect b"]) simp
  have "remote_call sha lost (\<lambda>n1 n2 n3. observe_prepared_effect_exact EFFECT_LEDGER_NAME b) l = (Inr x, k)" using assms(2) by (simp add: remote_rpc_def)
  from remote_call_steps(3) [OF assms(1) c this] show ?thesis by (auto simp: effect_calls)
qed

text \<open>What the row bound by a binding says about its token.\<close>

lemma bound_row_spent:
  "r \<in> set (oidc_effect_jti (rl_storage k)) \<Longrightarrow> row_binds b r \<Longrightarrow> er_state r = CONSUMED \<Longrightarrow>
     parse_effect_replay_binding v = Inr b \<Longrightarrow> token_spent v k"
  using terminal_settled by (auto simp: token_spent_def)

lemma bound_row_unspent:
  assumes "ledger_inv (rl_storage k)" and "r \<in> set (oidc_effect_jti (rl_storage k))" and "row_binds b r"
    and "er_state r \<noteq> CONSUMED" and "parse_effect_replay_binding v = Inr b"
  shows "\<not> token_spent v k"
proof
  assume "token_spent v k"
  then obtain q where q: "row_binds b q" "er_state q = CONSUMED" "settled q (rl_clock k) (rl_storage k)"
    using assms(5) by (auto simp: token_spent_def)
  have ok: "oidc_effect_jti_ok (oidc_effect_jti (rl_storage k))" using assms(1) by (simp add: ledger_inv_def)
  have "same_use q r" using same_use_binds [OF q(1)] assms(3) by simp
  then obtain x where x: "x \<in> set (oidc_effect_jti (rl_storage k))" "same_use q x" "er_state x = CONSUMED"
    using q(2,3) assms(2) by (auto simp: settled_def)
  have "er_jti_hash x = er_jti_hash r" using x(2) \<open>same_use q r\<close> by (simp add: same_use_def)
  then have "x = r" using effect_jti.same_key [OF ok x(1) assms(2)] by simp
  then show False using x(3) assms(4) by simp
qed

lemma observe_row:
  assumes "observe v s = (Inr x, t)" and "ledger_inv s" and "eo_state x = Observed st"
  obtains b r where "parse_effect_replay_binding v = Inr b" "t = s" "r \<in> set (oidc_effect_jti s)" "row_binds b r"
    "er_state r = st"
proof -
  obtain b where b: "parse_effect_replay_binding v = Inr b" "t = s"
    and o: "(if effect_rows s b = [] then Inr (observation_from_binding b ABSENT)
                else bind_r (exact_effect_row (effect_rows s b) b) (\<lambda>row. Inr (effect_observation row))) = Inr x"
    using assms(1) by (auto simp: observe_def op_simps)
  from o assms(3) obtain r where r: "exact_effect_row (effect_rows s b) b = Inr r" "x = effect_observation r"
    by (auto simp: observation_from_binding_def bind_r_eq_Inr split: if_splits)
  have "r \<in> set (oidc_effect_jti s) \<and> row_binds b r"
    using r(1) exact_row_iff [of s b r] assms(2) by (simp add: ledger_inv_def)
  then show thesis using b r(2) assms(3) by (intro that [of b r]) (auto simp: effect_observation_def)
qed

interpretation remote: replay_ledger_interface "remote_rpc sha lost" remote_ok token_spent for sha lost
proof unfold_locales
  fix m l
  assume m: "ledger_operation (remote_rpc sha lost) m" and ok: "remote_ok l"
  obtain f where f: "m = remote_call sha lost f"
    "\<And>n1 n2 n3 s. \<exists>c. snd (f n1 n2 n3 s) = after_call sha EFFECT_LEDGER_NAME c n1 n2 n3 s"
    by (rule remote_operation [OF m]) blast
  show "remote_ok (snd (m l))" unfolding f(1) by (rule remote_call_steps(1) [OF ok f(2)])
  fix b assume "token_spent b l"
  then show "token_spent b (snd (m l))"
    unfolding f(1) token_spent_def using remote_call_steps(2) [OF ok f(2)] by fastforce
next
  fix l b and x :: effect_replay_observation and k
  assume ok: "remote_ok l" and st: "eo_state x = Observed CONSUMED"
  {
    assume "lr_commit (remote_rpc sha lost) b l = (Inr x, k)"
    then obtain n s where t: "ledger_inv s" "transition b CONSUMED n s = (Inr x, rl_storage k)"
      using remote_commit [OF ok] unfolding commit_def by blast
    obtain e r where "parse_effect_replay_binding b = Inr e" "r \<in> set (oidc_effect_jti (rl_storage k))" "row_binds e r"
      "er_state r = CONSUMED"
      by (rule transition_success [OF t(2,1)]) auto
    then show "token_spent b k" by (intro bound_row_spent)
  next
    assume "lr_observe (remote_rpc sha lost) b l = (Inr x, k)"
    then obtain s where o: "ledger_inv s" "observe b s = (Inr x, rl_storage k)" using remote_observe [OF ok] by blast
    obtain e r where "parse_effect_replay_binding b = Inr e" "rl_storage k = s" "r \<in> set (oidc_effect_jti s)"
      "row_binds e r" "er_state r = CONSUMED"
      by (rule observe_row [OF o(2,1) st])
    then show "token_spent b k" by (intro bound_row_spent) simp_all
  }
next
  fix l b and x :: effect_replay_observation and k
  assume ok: "remote_ok l" and st: "eo_state x = Observed CANCELLED"
  {
    assume "lr_cancel (remote_rpc sha lost) b l = (Inr x, k)"
    then obtain n s where t: "ledger_inv s" "transition b CANCELLED n s = (Inr x, rl_storage k)"
      using remote_cancel [OF ok] unfolding cancel_def by blast
    obtain e r where "parse_effect_replay_binding b = Inr e" "r \<in> set (oidc_effect_jti (rl_storage k))" "row_binds e r"
      "er_state r = CANCELLED" "ledger_inv (rl_storage k)"
      by (rule transition_success [OF t(2,1)]) auto
    then show "\<not> token_spent b k" by (intro bound_row_unspent [of k r e b]) simp_all
  next
    assume "lr_observe (remote_rpc sha lost) b l = (Inr x, k)"
    then obtain s where o: "ledger_inv s" "observe b s = (Inr x, rl_storage k)" using remote_observe [OF ok] by blast
    obtain e r where "parse_effect_replay_binding b = Inr e" "rl_storage k = s" "r \<in> set (oidc_effect_jti s)"
      "row_binds e r" "er_state r = CANCELLED"
      by (rule observe_row [OF o(2,1) st])
    then show "\<not> token_spent b k" using o(1) by (intro bound_row_unspent [of k r e b]) simp_all
  }
qed

end
