(* ===== verification/AuthorityObject.thy ===== *)
theory AuthorityObject imports RemoteLedger GlobalHead begin

text \<open>
  Histories of the authority object: its calls in any order, with any request text, any readings of the
  clock, any behaviour of the two WORM services, any verdict of the snapshot verification, any schedule
  of the replay ledger and any changes of the outside world in between.
\<close>

section \<open>What a call writes\<close>

type_synonym 'w authority_state = "(authority_storage \<times> remote_ledger) \<times> 'w"

abbreviation remote_writes ::
    "(js_string \<Rightarrow> js_number) \<Rightarrow> hash \<Rightarrow> js_error \<Rightarrow> authority_storage \<times> remote_ledger \<Rightarrow>
       authority_storage \<times> remote_ledger \<Rightarrow> bool" where
  "remote_writes decimal sha lost \<equiv> (joint_write decimal sha (remote_rpc sha lost) token_spent)\<^sup>*\<^sup>*"

abbreviation object_inv ::
    "(js_string \<Rightarrow> js_number) \<Rightarrow> hash \<Rightarrow> authority_storage \<times> remote_ledger \<Rightarrow> bool" where
  "object_inv decimal sha \<equiv> joint_inv decimal sha remote_ok token_spent"

definition object_writes ::
    "(js_string \<Rightarrow> js_number) \<Rightarrow> hash \<Rightarrow> js_error \<Rightarrow> ('w authority_state, 'a) op \<Rightarrow> bool" where
  "object_writes decimal sha lost m \<longleftrightarrow>
     (\<forall>x w. object_inv decimal sha x \<longrightarrow> remote_writes decimal sha lost x (fst (snd (m (x, w)))))"

lemma object_writes_bind:
  assumes "object_writes decimal sha lost m" and "\<And>a. object_writes decimal sha lost (f a)"
  shows "object_writes decimal sha lost (bind_op m f)"
  unfolding object_writes_def
proof (intro allI impI)
  fix x w assume inv: "object_inv decimal sha x"
  obtain q y v where m: "m (x, w) = (q, (y, v))" by (cases "m (x, w)") auto
  have y: "remote_writes decimal sha lost x y"
    using assms(1) [unfolded object_writes_def, rule_format, OF inv, of w] m by simp
  have "remote_writes decimal sha lost y (fst (snd (f a (y, v))))" for a
    using assms(2) remote.joint_writes_inv [OF y inv] unfolding object_writes_def by blast
  then show "remote_writes decimal sha lost x (fst (snd (bind_op m f (x, w))))"
    using y m by (cases q) (auto simp: bind_op_state intro: rtranclp_trans)
qed

lemma object_writes_lift:
  "(\<And>a. r = Inr a \<Longrightarrow> object_writes decimal sha lost (f a)) \<Longrightarrow> object_writes decimal sha lost (bind_op (lift_op r) f)"
  by (cases r) (simp_all add: object_writes_def)

lemma object_writes_pure:
  "object_writes decimal sha lost (lift_op r)" "object_writes decimal sha lost (return_op a)"
  "object_writes decimal sha lost (fail_op e)"
  by (simp_all add: object_writes_def)

lemma object_writes_world: "object_writes decimal sha lost (on_world m)"
  by (simp add: object_writes_def on_world_def case_prod_beta)

lemma object_writes_heads:
  assumes "\<And>s C R. storage_ok s \<Longrightarrow> authority_writes sha C R s (snd (m s))"
  shows "object_writes decimal sha lost (on_heads m)"
  unfolding object_writes_def
proof (intro allI impI)
  fix x :: "authority_storage \<times> remote_ledger" and w
  assume inv: "object_inv decimal sha x"
  obtain s l where x: "x = (s, l)" by (cases x)
  have "remote_writes decimal sha lost (s, l) (snd (on_storage m (s, l)))"
    by (rule remote.on_storage_writes, rule assms) (use remote.journal_ok inv x in blast)
  then show "remote_writes decimal sha lost x (fst (snd (on_heads m (x, w))))"
    by (simp add: x on_heads_def on_objects_def case_prod_beta)
qed

lemma object_writes_effects:
  assumes "\<And>s l. object_inv decimal sha (s, l) \<Longrightarrow> remote_writes decimal sha lost (s, l) (snd (m (s, l)))"
  shows "object_writes decimal sha lost (on_objects m)"
  using assms by (auto simp: object_writes_def on_objects_def case_prod_beta)

lemma get_writes: "authority_writes sha C R s (snd (get_op s))"
  by simp

section \<open>The calls\<close>

lemma row_head_well_formed: "row_head decimal sha row = Inr h \<Longrightarrow> well_formed h"
  unfolding row_head_def
  by (elim bind_r_InrE) (auto dest!: json_parse_well_formed parse_head_same split: sum.splits)

lemma proof_for_well_formed:
  assumes "proof_for decimal sha row request_id requested_at now = Inr p"
  shows "well_formed p"
proof -
  obtain head i where h: "row_head decimal sha row = Inr head" "hp_head i = head" "build_current_head_proof sha i = Inr p"
    using assms unfolding proof_for_def
    by (simp split: mirror_state.splits option.splits)
      (elim bind_r_InrE, erule that [rotated -1], simp_all)
  obtain hkvs digest where d: "proof_input_ok sha i hkvs digest" "p = JObj (input_proof i)"
    by (rule build_proofD [OF h(3)])
  then have "hp_head i = JObj hkvs" by (simp add: proof_input_ok_def proof_ok_def)
  then show ?thesis using input_proof_well_formed [of i hkvs] row_head_well_formed [OF h(1)] h(2) d(2) by simp
qed

lemma reserve_advance_writes:
  "storage_ok s \<Longrightarrow> authority_writes sha C R s (snd (reserve_advance sha v d n1 n2 s))"
proof -
  assume ok: "storage_ok s"
  show ?thesis
    unfolding reserve_advance_def bind_op_get Let_def
    by (intro lift_writes reserve_head_writes [OF ok]) (simp add: build_head_well_formed)
qed

lemma complete_pending_writes:
  "object_writes decimal sha lost (complete_pending decimal sha sha1 parse_date services row)"
  unfolding complete_pending_def
proof (intro object_writes_lift)
  fix head u u'
  have "object_writes decimal sha lost (bind_op (if hr_mirror_state row = M_PREPARED then
             bind_op (on_heads (mark_dispatched (hr_generation row))) (\<lambda>_. on_world (hs_mirror services head))
           else return_op ()) (\<lambda>_.
         bind_op (lift_op (canonical_bytes head)) (\<lambda>bs.
         bind_op (lift_op (head_key sha head)) (\<lambda>key.
         bind_op (on_world (observe_exact sha sha1 parse_date services bs (hr_committed_at row)
             (hr_record_sha256 row) key)) (\<lambda>worm.
           on_heads (confirm_head decimal sha (hr_generation row) worm))))))"
    by (auto intro!: object_writes_bind [where f = "\<lambda>_. bind_op _ _"] object_writes_bind object_writes_lift
        object_writes_world object_writes_pure object_writes_heads mark_dispatched_writes confirm_head_writes)
  then show "object_writes decimal sha lost (if hr_mirror_state row = M_CONFIRMED then return_op row else
         bind_op (if hr_mirror_state row = M_PREPARED then
             bind_op (on_heads (mark_dispatched (hr_generation row))) (\<lambda>_. on_world (hs_mirror services head))
           else return_op ()) (\<lambda>_.
         bind_op (lift_op (canonical_bytes head)) (\<lambda>bs.
         bind_op (lift_op (head_key sha head)) (\<lambda>key.
         bind_op (on_world (observe_exact sha sha1 parse_date services bs (hr_committed_at row)
             (hr_record_sha256 row) key)) (\<lambda>worm.
           on_heads (confirm_head decimal sha (hr_generation row) worm))))))"
    by (simp add: object_writes_pure)
qed

lemma advance_writes:
  "object_writes decimal sha lost (advance decimal sha sha1 parse_date services verify clock canonical)"
proof -
  have find: "object_writes decimal sha lost (case find_by_request d s of
         Some row \<Rightarrow> return_op row
       | None \<Rightarrow> on_heads (reserve_advance sha v d n1 n2))" for d s v n1 n2
    by (auto intro!: object_writes_pure object_writes_heads reserve_advance_writes split: option.split)
  show ?thesis
    unfolding advance_def
    by (intro object_writes_lift object_writes_bind object_writes_world object_writes_pure find
        complete_pending_writes object_writes_heads get_writes)
qed

section \<open>Histories\<close>

record 'w authority_setting =
  se_decimal :: "js_string \<Rightarrow> js_number"
  se_sha :: hash
  se_sha1 :: hash
  se_parse_date :: "js_string \<Rightarrow> int option"
  se_services :: "'w head_services"
  se_verify :: "activation_snapshot \<Rightarrow> verified_activation result"
  se_lost :: js_error
  se_ledger_bound :: bool

datatype authority_call =
    Advance_Head advance_clock js_string
  | Read_Head int js_string
  | Reserve_Proof_Effect int int js_string
  | Transition_Proof_Effect int int js_string
  | Seal_Proof_Effect int js_string js_string

definition setting_ledger :: "'w authority_setting \<Rightarrow> remote_ledger replay_ledger_rpc option" where
  "setting_ledger S = (if se_ledger_bound S then Some (remote_rpc (se_sha S) (se_lost S)) else None)"

fun run_authority_call :: "'w authority_setting \<Rightarrow> authority_call \<Rightarrow> ('w authority_state, js_string) op" where
  "run_authority_call S (Advance_Head clock canonical) =
     advance (se_decimal S) (se_sha S) (se_sha1 S) (se_parse_date S) (se_services S) (se_verify S) clock canonical"
| "run_authority_call S (Read_Head now canonical) =
     on_heads (current_canonical (se_decimal S) (se_sha S) now canonical)"
| "run_authority_call S (Reserve_Proof_Effect now store_now canonical) =
     on_objects (reserve_activation_proof_effect (se_decimal S) (se_sha S) (setting_ledger S) now store_now canonical)"
| "run_authority_call S (Transition_Proof_Effect now dispatch_now canonical) =
     on_objects (transition_activation_proof_effect (se_decimal S) (se_sha S) (setting_ledger S) now dispatch_now
       canonical)"
| "run_authority_call S (Seal_Proof_Effect now canonical res) =
     on_objects (seal_activation_proof_effect (se_decimal S) (se_sha S) now canonical res)"

text \<open>A step is a call, whatever it returns, or a change of the outside world between calls.\<close>

inductive authority_step :: "'w authority_setting \<Rightarrow> 'w authority_state \<Rightarrow> 'w authority_state \<Rightarrow> bool"
  for S :: "'w authority_setting" where
  call: "authority_step S x (snd (run_authority_call S c x))"
| world: "authority_step S (y, w) (y, v)"

abbreviation authority_steps :: "'w authority_setting \<Rightarrow> 'w authority_state \<Rightarrow> 'w authority_state \<Rightarrow> bool" where
  "authority_steps S \<equiv> (authority_step S)\<^sup>*\<^sup>*"

lemma current_canonical_writes:
  "authority_writes sha C R s (snd (current_canonical decimal sha now canonical s))"
  unfolding current_canonical_def by (intro lift_writes bind_writes get_writes) simp_all

lemma setting_ledger_cases: "setting_ledger S = None \<or> setting_ledger S = Some (remote_rpc (se_sha S) (se_lost S))"
  by (simp add: setting_ledger_def)

lemma run_authority_call_writes: "object_writes (se_decimal S) (se_sha S) (se_lost S) (run_authority_call S c)"
proof (cases c)
  case (Advance_Head clock canonical)
  then show ?thesis by (simp add: advance_writes)
next
  case (Read_Head now canonical)
  then show ?thesis by (simp add: object_writes_heads current_canonical_writes)
next
  case (Reserve_Proof_Effect now store_now canonical)
  then show ?thesis
    by (simp add: reserve_activation_proof_effect_def)
      (intro object_writes_effects remote.coordinator_reserve_writes setting_ledger_cases proof_for_well_formed)
next
  case (Transition_Proof_Effect now dispatch_now canonical)
  then show ?thesis
    by (simp add: transition_activation_proof_effect_def)
      (intro object_writes_effects remote.coordinator_transition_writes setting_ledger_cases)
next
  case (Seal_Proof_Effect now canonical res)
  then show ?thesis
    by (simp add: seal_activation_proof_effect_def)
      (intro object_writes_effects remote.coordinator_seal_writes)
qed

lemma authority_step_writes:
  assumes "authority_step S x y" and "object_inv (se_decimal S) (se_sha S) (fst x)"
  shows "remote_writes (se_decimal S) (se_sha S) (se_lost S) (fst x) (fst y)"
  using assms(1)
proof cases
  case (call c)
  show ?thesis
    using run_authority_call_writes [of S c] assms(2) unfolding object_writes_def call
    by (metis prod.collapse)
qed simp

lemma authority_steps_writes:
  assumes "authority_steps S x y" and "object_inv (se_decimal S) (se_sha S) (fst x)"
  shows "remote_writes (se_decimal S) (se_sha S) (se_lost S) (fst x) (fst y)"
  using assms(1)
proof (induction rule: rtranclp_induct)
  case (step y z)
  have "remote_writes (se_decimal S) (se_sha S) (se_lost S) (fst y) (fst z)"
    by (rule authority_step_writes [OF step(2) remote.joint_writes_inv [OF step(3) assms(2)]])
  with step(3) show ?case by (rule rtranclp_trans)
qed simp

lemma authority_steps_inv:
  "authority_steps S x y \<Longrightarrow> object_inv (se_decimal S) (se_sha S) (fst x) \<Longrightarrow> object_inv (se_decimal S) (se_sha S) (fst y)"
  using remote.joint_writes_inv [OF authority_steps_writes] by blast

text \<open>A new object, before any call, with the ledger of the deployment.\<close>

definition authority_start :: "remote_ledger \<Rightarrow> 'w \<Rightarrow> 'w authority_state" where
  "authority_start l w = ((empty_authority_storage, l), w)"

lemma authority_start_inv: "remote_ok l \<Longrightarrow> object_inv decimal sha (fst (authority_start l w))"
  by (simp add: authority_start_def joint_inv_def storage_inv_empty) (simp add: empty_authority_storage_def)

lemma reached_inv:
  "authority_steps S (authority_start l w) x \<Longrightarrow> remote_ok l \<Longrightarrow> object_inv (se_decimal S) (se_sha S) (fst x)"
  by (rule authority_steps_inv [OF _ authority_start_inv])

end
