(* ===== verification/AuthorityReadback.thy ===== *)
theory AuthorityReadback imports AuthorityObject begin

text \<open>
  What the authority object stores, it reads back: the canonical bytes of a head and of a reservation
  decode to the text they encode, the text parses to the stored document with its members in canonical
  order, and the document passes the checks again. So a bound row never fails with a stored-invalid
  error, and its replay binding exists.
\<close>

section \<open>Canonical bytes decode\<close>

lemma canonical_text_brace: "canonical_json v = Inr t \<Longrightarrow> take 1 t = [0x7B]"
  by (cases v)
    (auto simp: canonical_json_def is_json_object_def encode_canonical.simps[where v = "JObj kvs" for kvs] bind_r_eq_Inr Let_def
      split: if_splits)

lemma canonical_text_decodes: "canonical_json v = Inr t \<Longrightarrow> decode_effect_bytes (utf8_encode t) = Inr t"
  using canonical_text_scalars [of v t] canonical_text_brace [of v t] text_decode_encode [of t]
  by (simp add: decode_effect_bytes_def)

lemma canonical_bytes_text: "canonical_bytes v = Inr bs \<longleftrightarrow> (\<exists>t. canonical_json v = Inr t \<and> bs = utf8_encode t)"
  by (auto simp: canonical_bytes_def bind_r_eq_Inr)

section \<open>Stored heads\<close>

lemma stored_head_reads_back:
  assumes "head_bound sha before row"
  shows "\<exists>v. canonical_bytes v = Inr (hr_canonical_bytes row) \<and> row_head decimal sha row = Inr (normalise v)"
proof -
  obtain v where p: "parse_activated_authority_head sha v = Inr v" and w: "well_formed v"
    and b: "canonical_bytes v = Inr (hr_canonical_bytes row)"
    using assms unfolding head_bound_def by blast
  obtain t where t: "canonical_json v = Inr t" "hr_canonical_bytes row = utf8_encode t"
    using b unfolding canonical_bytes_text by blast
  have n: "parse_activated_authority_head sha (normalise v) = Inr (normalise v)"
    by (rule parse_head_same_value [OF p w normalise_well_formed [OF w] normalise_idem])
  have "row_head decimal sha row = Inr (normalise v)"
    using canonical_text_decodes [OF t(1)] canonical_parse [OF t(1) w, of decimal] n t(1)
    by (simp add: row_head_def t(2) canonical_json_normalise require_r_def)
  with b show ?thesis by blast
qed

section \<open>Stored reservations\<close>

lemma parsed_reservation_normalised:
  assumes "parse_effect_reservation sha v = Inr v" and "well_formed v" and "\<And>bs. length (sha bs) = 32"
  shows "parse_effect_reservation sha (normalise v) = Inr (normalise v)"
proof -
  obtain i pb ib where "build_effect_reservation sha i = Inr (JObj (input_reservation sha i pb ib))"
    "well_formed (ri_head_proof i)" "normalise v = normalise (JObj (input_reservation sha i pb ib))"
    by (rule parsed_reservation_form [OF assms(1,2)])
  then show ?thesis
    using normalise_idem [of v] normalise_well_formed [OF assms(2)] assms(3) parse_same_reservation by metis
qed

lemma stored_reservation_reads_back:
  assumes "effect_bound sha r" and "\<And>bs. length (sha bs) = 32"
  obtains v where "parse_effect_reservation sha v = Inr v" "well_formed v" "reservation_row v r"
    "canonical_bytes v = Inr (ef_canonical_bytes r)" "stored_reservation decimal sha r = Inr (normalise v)"
proof -
  obtain v where p: "parse_effect_reservation sha v = Inr v" and w: "well_formed v"
    and b: "canonical_bytes v = Inr (ef_canonical_bytes r)" and rr: "reservation_row v r"
    using assms(1) unfolding effect_bound_def by blast
  obtain t where t: "canonical_json v = Inr t" "ef_canonical_bytes r = utf8_encode t"
    using b unfolding canonical_bytes_text by blast
  obtain kvs where v: "v = JObj kvs" by (rule parsed_reservation_form [OF p w])
  have n: "parse_effect_reservation sha (normalise v) = Inr (normalise v)"
    by (rule parsed_reservation_normalised [OF p w assms(2)])
  obtain kvs' where v': "normalise v = JObj kvs'" using parsed_reservation_form [OF n normalise_well_formed [OF w]] by metis
  have nn: "normalise (JObj kvs') = normalise (JObj kvs)" using v v' normalise_idem [of v] by simp
  have ww: "well_formed (JObj kvs')" "well_formed (JObj kvs)"
    using normalise_well_formed [OF w] w unfolding v' by (simp_all only: v)
  note same_lookup(1) [OF nn ww, of "js ''reservation_id''"]
  then have "json_get (normalise v) (js ''reservation_id'') = JStr (ef_reservation_id r)"
    using rr unfolding v' by (simp add: v reservation_row_def json_get_def normalise_leaf)
  then have "stored_reservation decimal sha r = Inr (normalise v)"
    using canonical_text_decodes [OF t(1)] canonical_parse [OF t(1) w, of decimal] n t(1)
    by (simp add: stored_reservation_def t(2) canonical_json_normalise require_r_def)
  then show thesis by (rule that [OF p w rr b])
qed

text \<open>The replay binding of a stored effect, as the coordinator sends it and the ledger parses it.\<close>

lemma request_id_length: "matches REQUEST_ID s \<Longrightarrow> s \<noteq> [] \<and> length s \<le> 128"
  by (auto simp: REQUEST_ID_def matches_Seq_iff matches_Rep_Cls matches_iff_lang [of "Cls _"] simp del: in_cls.simps)

lemma stored_binding_accepted:
  assumes "effect_bound sha r" and "\<And>bs. length (sha bs) = 32"
  shows "\<exists>b e t c. replay_binding decimal sha r = Inr b \<and> parse_effect_replay_binding b = Inr e \<and>
     eb_request_id e = ef_request_id r \<and> eb_reservation_id e = ef_reservation_id r \<and>
     date_parse (ef_created_at r) = Some c \<and> date_parse (ef_expires_at r) = Some t \<and> c < t \<and> t - c \<le> 60000"
proof -
  obtain v where p: "parse_effect_reservation sha v = Inr v" and w: "well_formed v" and rr: "reservation_row v r"
    and st: "stored_reservation decimal sha r = Inr (normalise v)"
    by (rule stored_reservation_reads_back [OF assms])
  obtain i kvs where v: "v = JObj kvs" and ok: "reservation_input_ok sha i"
    and l: "lookup kvs (js ''created_at'') = JStr (ri_created_at i)" "lookup kvs (js ''expires_at'') = JStr (ri_expires_at i)"
      "lookup kvs (js ''request_id'') = JStr (ri_request_id i)"
    by (rule parsed_reservation_form [OF p w])
  have f: "ef_created_at r = ri_created_at i" "ef_expires_at r = ri_expires_at i" "ef_request_id r = ri_request_id i"
    using rr l by (simp_all add: reservation_row_def v json_get_def)
  have n: "parse_effect_reservation sha (normalise v) = Inr (normalise v)"
    by (rule parsed_reservation_normalised [OF p w assms(2)])
  obtain j kvs' pk ib where v': "normalise v = JObj kvs'" and ok': "reservation_input_ok sha j"
    and l': "lookup kvs' (js ''reservation_id'') = JStr (sha256_tag sha ib)" "lookup kvs' (js ''replay'') = JObj pk"
      "is_number (lookup pk (js ''expires_at'')) (ri_replay_expires_at j)"
      "lookup pk (js ''claims_sha256'') = JStr (ri_replay_claims_sha256 j)"
      "lookup pk (js ''jti_sha256'') = JStr (ri_replay_jti_sha256 j)"
    by (rule parsed_reservation_form [OF n normalise_well_formed [OF w]])
  have rid: "ef_reservation_id r = sha256_tag sha ib"
    using st l'(1) unfolding stored_reservation_def
    by (elim bind_r_InrE) (simp add: require_r_eq_Inr v' json_get_def)
  have num: "stored_number (JObj pk) ''expires_at'' = Inr (ri_replay_expires_at j)"
    using l'(3) by (cases "lookup pk (js ''expires_at'')") (auto simp: stored_number_def json_get_def is_number_def)
  have b: "replay_binding decimal sha r = Inr (effect_replay_binding_body (ri_replay_jti_sha256 j) (ri_replay_expires_at j)
      (ef_request_id r) (ri_replay_claims_sha256 j) (ef_reservation_id r))"
    using l' num by (simp add: replay_binding_def st v' stored_object_def stored_string_def json_get_def is_json_object_def)
  have e: "parse_effect_replay_binding (effect_replay_binding_body (ri_replay_jti_sha256 j) (ri_replay_expires_at j)
      (ef_request_id r) (ri_replay_claims_sha256 j) (ef_reservation_id r)) =
    Inr \<lparr>eb_claims_digest = ri_replay_claims_sha256 j, eb_expires_at = ri_replay_expires_at j,
         eb_jti_hash = drop 7 (ri_replay_jti_sha256 j), eb_request_id = ef_request_id r,
         eb_reservation_id = ef_reservation_id r\<rparr>"
    by (rule parse_binding_body)
      (use ok ok' request_id_length [of "ri_request_id i"] in
        \<open>auto simp: reservation_input_ok_def f(3) rid sha256_tag_DIGEST [of sha, OF assms(2)]\<close>)
  show ?thesis
    using ok b e by (auto simp: reservation_input_ok_def f assert_window_eq_Inr)
qed

end
