(* ===== verification/EffectCompletion.thy ===== *)
theory EffectCompletion imports AuthorityReadback begin

text \<open>
  Carrying an effect through: a sealed effect that has not expired is dispatched, and then confirmed, when
  the calls on the replay ledger get through; and what the coordinator does with a sealed effect it is asked
  to reserve again.
\<close>

section \<open>The journal\<close>

lemma effects_ok_set_status:
  assumes ok: "effects_ok t" and r: "r \<in> set t" and f: "authority_effect_ok (f r)"
    "ef_reservation_id (f r) = ef_reservation_id r" "ef_intent_sha256 (f r) = ef_intent_sha256 r"
    "ef_request_id (f r) = ef_request_id r"
  shows "effects_ok (map (\<lambda>x. if x = r then f x else x) t)"
proof -
  have g: "map g (map (\<lambda>x. if x = r then f x else x) t) = map g t" if "g (f r) = g r" for g :: "effect_row \<Rightarrow> js_string"
    using that by auto
  have "list_all authority_effect_ok (map (\<lambda>x. if x = r then f x else x) t)"
    using ok f(1) by (auto simp: effects_ok_def list_all_iff)
  with ok show ?thesis unfolding effects_ok_def g [OF f(2)] g [OF f(3)] g [OF f(4)] by simp
qed

lemma update_one_effect:
  assumes ok: "storage_ok s" and r: "r \<in> set (as_effects s)"
    and f: "authority_effect_ok (f r)" "ef_reservation_id (f r) = ef_reservation_id r"
    "ef_intent_sha256 (f r) = ef_intent_sha256 r" "ef_request_id (f r) = ef_request_id r"
    and p: "p r" "\<And>x. p x \<Longrightarrow> ef_reservation_id x = ef_reservation_id r"
  obtains t where "write_effect_rows s (update_where p f (as_effects s)) = Inr t" "storage_ok t"
    "f r \<in> set (as_effects t)" "as_heads t = as_heads s"
proof -
  have one: "update_where p f (as_effects s) = map (\<lambda>x. if x = r then f x else x) (as_effects s)"
    unfolding update_where_def
  proof (rule map_cong [OF HOL.refl])
    fix x assume x: "x \<in> set (as_effects s)"
    have "p x \<longleftrightarrow> x = r" using same_reservation_id [OF ok x r p(2)] p(1) by blast
    then show "(if p x then f x else x) = (if x = r then f x else x)" by simp
  qed
  have e: "effects_ok (map (\<lambda>x. if x = r then f x else x) (as_effects s))"
    using ok by (intro effects_ok_set_status r f) (simp add: storage_ok_def)
  let ?t = "s\<lparr>as_effects := map (\<lambda>x. if x = r then f x else x) (as_effects s)\<rparr>"
  have "write_effect_rows s (update_where p f (as_effects s)) = Inr ?t"
    unfolding one write_effect_rows_eq_Inr using e by simp
  moreover have "storage_ok ?t" using ok e by (simp add: storage_ok_def)
  moreover have "f r \<in> set (as_effects ?t)" using r by auto
  ultimately show thesis by (rule that) simp
qed

lemma require_after_write:
  assumes "storage_ok t" and "q \<in> set (as_effects t)" and "ef_reservation_id q = rid"
  shows "require_effect_op rid t = (Inr q, t)"
  using assms require_effect_eq_Inr [of t rid q] by (simp add: require_effect_op_def)

lemma dispatch_sealed:
  assumes ok: "storage_ok s" and r: "r \<in> set (as_effects s)" and st: "ef_status r = E_SEALED"
    and e: "date_parse (ef_expires_at r) = Some e" "now \<le> e"
  obtains t where "dispatch_effect (ef_reservation_id r) now s = (Inr (r\<lparr>ef_status := E_DISPATCHED_HOLD\<rparr>), t)"
    "storage_ok t" "r\<lparr>ef_status := E_DISPATCHED_HOLD\<rparr> \<in> set (as_effects t)"
proof -
  have "authority_effect_ok (r\<lparr>ef_status := E_DISPATCHED_HOLD\<rparr>)"
    using stored_effect_ok [OF ok r] st by (simp add: authority_effect_ok_def)
  then obtain t where t: "write_effect_rows s (update_where
      (\<lambda>x. ef_reservation_id x = ef_reservation_id r \<and> ef_status x = E_SEALED)
      (\<lambda>x. x\<lparr>ef_status := E_DISPATCHED_HOLD\<rparr>) (as_effects s)) = Inr t" "storage_ok t"
    "r\<lparr>ef_status := E_DISPATCHED_HOLD\<rparr> \<in> set (as_effects t)"
    by (rule update_one_effect [OF ok r, where f = "\<lambda>x. x\<lparr>ef_status := E_DISPATCHED_HOLD\<rparr>" and
        p = "\<lambda>x. ef_reservation_id x = ef_reservation_id r \<and> ef_status x = E_SEALED"]) (use st in simp_all)
  have "require_effect (ef_reservation_id r) s = Inr r" using require_effect_eq_Inr [OF ok] r by simp
  then have "dispatch_effect (ef_reservation_id r) now s = (Inr (r\<lparr>ef_status := E_DISPATCHED_HOLD\<rparr>), t)"
    using e st t(1) require_after_write [OF t(2,3)]
    by (simp add: dispatch_effect_def op_simps dispatch_body_def)
  then show thesis using t by (intro that)
qed

lemma confirm_dispatched:
  assumes ok: "storage_ok s" and r: "r \<in> set (as_effects s)" and st: "ef_status r = E_DISPATCHED_HOLD"
    and d: "ef_result_sha256 r = Some digest" "matches DIGEST digest"
  obtains t where "confirm_effect (ef_reservation_id r) digest s = (Inr (r\<lparr>ef_status := E_CONFIRMED\<rparr>), t)"
    "storage_ok t" "r\<lparr>ef_status := E_CONFIRMED\<rparr> \<in> set (as_effects t)"
proof -
  have "authority_effect_ok (r\<lparr>ef_status := E_CONFIRMED\<rparr>)"
    using stored_effect_ok [OF ok r] st by (simp add: authority_effect_ok_def)
  then obtain t where t: "write_effect_rows s (update_where (\<lambda>x. ef_reservation_id x = ef_reservation_id r)
      (\<lambda>x. x\<lparr>ef_status := E_CONFIRMED\<rparr>) (as_effects s)) = Inr t" "storage_ok t"
    "r\<lparr>ef_status := E_CONFIRMED\<rparr> \<in> set (as_effects t)"
    by (rule update_one_effect [OF ok r, where f = "\<lambda>x. x\<lparr>ef_status := E_CONFIRMED\<rparr>" and
        p = "\<lambda>x. ef_reservation_id x = ef_reservation_id r"]) simp_all
  have "require_effect (ef_reservation_id r) s = Inr r" using require_effect_eq_Inr [OF ok] r by simp
  then have "confirm_effect (ef_reservation_id r) digest s = (Inr (r\<lparr>ef_status := E_CONFIRMED\<rparr>), t)"
    using d st t(1) require_after_write [OF t(2,3)]
    by (simp add: confirm_effect_def op_simps confirm_effect_body_def set_effect_def)
  then show thesis using t by (intro that)
qed

section \<open>The replay ledger\<close>

text \<open>A call that gets through, with no calls from elsewhere before it.\<close>

definition quiet :: "ledger_hop \<Rightarrow> bool" where
  "quiet h \<longleftrightarrow> lh_before h = [] \<and> lh_lost_request h = None \<and> lh_lost_reply h = None"

lemma remote_call_quiet:
  assumes "rl_schedule l = h # hs" and "quiet h" and "m (lh_n1 h) (lh_n2 h) (lh_n3 h) (rl_storage l) = (r, t)"
  shows "remote_call sha lost m l = (r, \<lparr>rl_clock = lh_n3 h, rl_storage = t, rl_schedule = hs\<rparr>)"
  using assms by (simp add: remote_call_def quiet_def)

lemma remote_call_schedule:
  "remote_call sha lost m l = (Inr x, k) \<Longrightarrow> rl_schedule l = h # hs \<Longrightarrow> rl_schedule k = hs"
  by (auto simp: remote_call_def Let_def split: option.splits prod.splits)

lemma committed_use_is_marked:
  assumes inv: "ledger_inv s" and c: "commit b n s = (Inr x, t)"
  shows "\<exists>y u. mark_journal_terminal b m t = (Inr y, u)"
proof -
  from c have c': "transition b CONSUMED n s = (Inr x, t)" by (simp add: commit_def)
  obtain e r where e: "parse_effect_replay_binding b = Inr e" and r: "r \<in> set (oidc_effect_jti t)" "row_binds e r"
    "er_state r = CONSUMED" and it: "ledger_inv t"
    by (rule transition_success [OF c' inv]) simp
  have "oidc_effect_jti_ok (oidc_effect_jti t)" using it by (simp add: ledger_inv_def)
  from mark_body_row [OF this r(1,2)] show ?thesis
    by (simp add: mark_journal_terminal_def e transaction_def r(3))
qed

lemma mark_call: "mark_effect_journal_terminal_exact EFFECT_LEDGER_NAME b n = mark_journal_terminal b n"
  by (simp add: mark_effect_journal_terminal_exact_def on_effect_ledger_def)

text \<open>Once the use is prepared, two quiet calls commit it and mark it.\<close>

lemma prepared_use_is_finished:
  assumes ok: "remote_ok l" and p: "lr_prepare (remote_rpc sha lost) b l = (Inr p, l1)"
    and sch: "rl_schedule l = h1 # h2 # h3 # hs" "quiet h2" "quiet h3"
  obtains c l2 m l3 where "eo_state p = Observed PREPARED" "lr_commit (remote_rpc sha lost) b l1 = (Inr c, l2)"
    "eo_state c = Observed CONSUMED" "lr_mark_terminal (remote_rpc sha lost) b l2 = (Inr m, l3)"
proof -
  have pc: "remote_call sha lost (\<lambda>n1 n2 n3. prepare_effect_exact EFFECT_LEDGER_NAME b n1 n2 n3) l = (Inr p, l1)"
    using p by (simp add: remote_rpc_def)
  have a: "\<exists>c. snd (prepare_effect_exact EFFECT_LEDGER_NAME b n1 n2 n3 s) = after_call sha EFFECT_LEDGER_NAME c n1 n2 n3 s"
    for n1 n2 n3 s
    by (rule exI [of _ "Prepare_Effect b"]) simp
  obtain n1 n2 n3 s where s: "ledger_inv s" "prepare b n1 n2 n3 s = (Inr p, rl_storage l1)"
    using remote_call_steps(3) [OF ok a pc] by (auto simp: effect_calls)
  have ok1: "remote_ok l1" using remote_call_steps(1) [OF ok a, of lost] pc by simp
  have s1: "rl_schedule l1 = h2 # h3 # hs" by (rule remote_call_schedule [OF pc sch(1)])
  obtain c t where c: "commit b (lh_n1 h2) (rl_storage l1) = (Inr c, t)" "eo_state c = Observed CONSUMED"
    using prepared_use_outcomes(3) [OF s, of "lh_n1 h2"]
    by (cases "commit b (lh_n1 h2) (rl_storage l1)") auto
  obtain m u where m: "mark_journal_terminal b (lh_n1 h3) t = (Inr m, u)"
    using committed_use_is_marked [OF _ c(1), of "lh_n1 h3"] ok1 by (auto simp: remote_ok_def)
  let ?l2 = "\<lparr>rl_clock = lh_n3 h2, rl_storage = t, rl_schedule = h3 # hs\<rparr>"
  have l2: "lr_commit (remote_rpc sha lost) b l1 = (Inr c, ?l2)"
    using remote_call_quiet [OF s1 sch(2), where m = "\<lambda>n1 n2 n3. commit_prepared_effect_exact EFFECT_LEDGER_NAME b n1" and r = "Inr c" and t = t] c(1)
    by (simp add: remote_rpc_def effect_calls)
  have "lr_mark_terminal (remote_rpc sha lost) b ?l2 = (Inr m, \<lparr>rl_clock = lh_n3 h3, rl_storage = u, rl_schedule = hs\<rparr>)"
    using remote_call_quiet [of ?l2 h3 hs "\<lambda>n1 n2 n3. mark_effect_journal_terminal_exact EFFECT_LEDGER_NAME b n1" "Inr m" u] sch(3) m
    by (simp add: remote_rpc_def mark_call)
  with l2 c(2) prepared_use_outcomes(1) [OF s] show thesis by (intro that)
qed

section \<open>Through the coordinator\<close>

lemma sealed_effect_is_carried_through:
  assumes j: "object_inv decimal sha (s, l)" and row: "row \<in> set (as_effects s)" "ef_status row = E_SEALED"
    and sha: "\<And>bs. length (sha bs) = 32"
    and e: "date_parse (ef_expires_at row) = Some e" "now \<le> e"
    and b: "replay_binding decimal sha row = Inr b"
    and p: "lr_prepare (remote_rpc sha lost) b l = (Inr p, l1)"
    and sch: "rl_schedule l = h1 # h2 # h3 # hs" "quiet h2" "quiet h3"
  obtains t digest u l3 where
    "prepare_and_dispatch decimal sha (Some (remote_rpc sha lost)) now row (s, l) =
       (Inr (row\<lparr>ef_status := E_DISPATCHED_HOLD\<rparr>), (t, l1))"
    "ef_result_sha256 row = Some digest"
    "commit_and_confirm decimal sha (Some (remote_rpc sha lost)) (row\<lparr>ef_status := E_DISPATCHED_HOLD\<rparr>) digest (t, l1) =
       (Inr (row\<lparr>ef_status := E_CONFIRMED\<rparr>), (u, l3))"
proof -
  have ok: "storage_ok s" "remote_ok l" using remote.journal_ok [OF j] by simp_all
  have "result_bound sha row" using j row(1) by (simp add: joint_inv_def storage_inv_def)
  then obtain digest where d: "ef_result_sha256 row = Some digest" "matches DIGEST digest"
    using row(2) sha256_tag_DIGEST [of sha, OF sha] by (auto simp: result_bound_def sealed_bytes_def)
  obtain c l2 m l3 where f: "eo_state p = Observed PREPARED" "lr_commit (remote_rpc sha lost) b l1 = (Inr c, l2)"
    "eo_state c = Observed CONSUMED" "lr_mark_terminal (remote_rpc sha lost) b l2 = (Inr m, l3)"
    by (rule prepared_use_is_finished [OF ok(2) p sch])
  let ?q = "row\<lparr>ef_status := E_DISPATCHED_HOLD\<rparr>"
  obtain t where t: "dispatch_effect (ef_reservation_id row) now s = (Inr ?q, t)" "storage_ok t" "?q \<in> set (as_effects t)"
    by (rule dispatch_sealed [OF ok(1) row e])
  obtain u where u: "confirm_effect (ef_reservation_id ?q) digest t = (Inr (?q\<lparr>ef_status := E_CONFIRMED\<rparr>), u)"
    by (rule confirm_dispatched [OF t(2,3)]) (use d in simp_all)
  have bq: "replay_binding decimal sha ?q = Inr b" using b replay_binding_cong [of ?q row decimal sha] by simp
  have "prepare_and_dispatch decimal sha (Some (remote_rpc sha lost)) now row (s, l) = (Inr ?q, (t, l1))"
    using row(2) b p f(1) t(1)
    by (simp add: prepare_and_dispatch_def replay_ledger_def op_simps on_ledger_def on_storage_def)
  moreover have "commit_and_confirm decimal sha (Some (remote_rpc sha lost)) ?q digest (t, l1) =
      (Inr (row\<lparr>ef_status := E_CONFIRMED\<rparr>), (u, l3))"
    using bq f(2-4) u
    by (simp add: commit_and_confirm_def replay_ledger_def op_simps on_ledger_def on_storage_def)
  ultimately show thesis using d(1) by (intro that)
qed

section \<open>A sealed effect is not reconciled\<close>

lemma rearm_refuses_other_than_dispatched:
  assumes "storage_ok s" and "row \<in> set (as_effects s)" and "ef_status row \<noteq> E_DISPATCHED_HOLD"
  shows "\<exists>e. rearm_after_observed_absent sha (ef_reservation_id row) v s = (Inl e, s)"
proof -
  have "require_effect (ef_reservation_id row) s = Inr row" using require_effect_eq_Inr [OF assms(1)] assms(2) by simp
  then have b: "rearm_body (ef_reservation_id row) w bs s =
      Inl (broker ''ACTIVATED_AUTHORITY_EFFECT_REARM_INVALID'' 409 False)" for w bs
    using assms(3) by (simp add: rearm_body_def)
  show ?thesis
  proof (cases "parse_effect_reservation sha v")
    case (Inr w)
    then show ?thesis
      by (cases "canonical_bytes w")
        (simp_all add: rearm_after_observed_absent_def bind_op_def transaction_def b)
  qed (simp add: rearm_after_observed_absent_def)
qed

lemma sealed_effect_is_not_reconciled:
  assumes ok: "storage_ok s" and row: "row \<in> set (as_effects s)" "ef_status row = E_SEALED"
  shows "\<exists>e k. reconcile_effect decimal sha env row v (s, l) = (Inl e, (s, k))"
proof (cases env)
  case (Some rpc)
  obtain e where re: "rearm_after_observed_absent sha (ef_reservation_id row) v s = (Inl e, s)"
    using rearm_refuses_other_than_dispatched [OF ok row(1)] row(2) by fastforce
  show ?thesis
  proof (cases "replay_binding decimal sha row")
    case (Inr b)
    obtain q k where o: "lr_observe rpc b l = (q, k)" by (cases "lr_observe rpc b l")
    obtain c k' where c: "lr_cancel rpc b k = (c, k')" by (cases "lr_cancel rpc b k")
    show ?thesis
      by (cases q; cases c)
        (simp_all add: Some Inr reconcile_effect_def replay_ledger_def bind_op_def on_ledger_def on_storage_def o c re row(2))
  qed (simp add: Some reconcile_effect_def replay_ledger_def)
qed (simp add: reconcile_effect_def replay_ledger_def)

end
