(* ===== verification/AuthoritySample.thy ===== *)
theory AuthoritySample imports AuthorityReadback begin

text \<open>
  A sample authority object: one confirmed head, one effect under it at a chosen stage, and a replay
  ledger without calls from elsewhere. It satisfies the invariant, so the properties can be applied to it.
\<close>

section \<open>Documents\<close>

definition canonical_of :: "json \<Rightarrow> bytes" where
  "canonical_of v = (case canonical_bytes v of Inr bs \<Rightarrow> bs | Inl _ \<Rightarrow> [])"

definition sample_reservation :: json where
  "sample_reservation =
     (case build_effect_reservation zero_sha sample_reservation_input of Inr v \<Rightarrow> v | Inl _ \<Rightarrow> JNull)"

lemma canonical_of: "canonical_bytes v = Inr bs \<Longrightarrow> canonical_of v = bs"
  by (simp add: canonical_of_def)

lemma sample_head_bytes:
  "canonical_bytes (JObj sample_head_members) = Inr (canonical_of (JObj sample_head_members))"
  "1 \<le> length (canonical_of (JObj sample_head_members))" "length (canonical_of (JObj sample_head_members)) \<le> 65536"
  using sample_head_built unfolding build_head_eq_Inr by (auto simp: canonical_of BODY_BYTES_def Suc_le_eq)

lemma sample_reservation_document:
  obtains pb ib where "sample_reservation = JObj (input_reservation zero_sha sample_reservation_input pb ib)"
    "parse_effect_reservation zero_sha sample_reservation = Inr sample_reservation" "well_formed sample_reservation"
    "canonical_bytes sample_reservation = Inr (canonical_of sample_reservation)"
    "1 \<le> length (canonical_of sample_reservation)" "length (canonical_of sample_reservation) \<le> 65536"
proof -
  obtain pb ib where b: "build_effect_reservation zero_sha sample_reservation_input =
      Inr (JObj (input_reservation zero_sha sample_reservation_input pb ib))" (is "_ = Inr ?v")
    by (rule sample_reservation_built)
  then have v: "sample_reservation = ?v" by (simp add: sample_reservation_def)
  have w: "well_formed ?v" by (rule input_reservation_well_formed [OF sample_input_proof_well_formed])
  have p: "parse_effect_reservation zero_sha ?v = Inr ?v"
    by (rule parse_same_reservation [OF b sample_input_proof_well_formed HOL.refl w zero_sha_length])
  have "effect_size ?v = Inr ()" using b unfolding build_reservation_eq_Inr by blast
  then obtain bs where "canonical_bytes ?v = Inr bs" "0 < length bs" "length bs \<le> BODY_BYTES"
    by (auto simp: effect_size_def size_check_eq_Inr)
  then show thesis using v w p by (intro that) (simp_all add: canonical_of BODY_BYTES_def Suc_le_eq)
qed

section \<open>Rows\<close>

definition sample_head_row :: head_row where
  "sample_head_row =
     \<lparr>hr_activated_record_id = zero_digest, hr_activated_record_sha256 = zero_digest,
      hr_activated_service_authorities_sha256 = zero_digest,
      hr_canonical_bytes = canonical_of (JObj sample_head_members), hr_committed_at = sample_time,
      hr_generation = 1, hr_ingress_worker_version_id = sample_worker_version, hr_mirror_state = M_CONFIRMED,
      hr_record_id = zero_digest, hr_record_sha256 = zero_digest, hr_request_digest = zero_digest,
      hr_worm_key = Some (key_of 1 zero_digest), hr_worm_retention_until = Some sample_until,
      hr_worm_version_id = Some (js ''v1'')\<rparr>"

text \<open>The sealed result is the text \<open>{}\<close>.\<close>

definition sample_effect_row :: "effect_status \<Rightarrow> effect_row" where
  "sample_effect_row st =
     \<lparr>ef_canonical_bytes = canonical_of sample_reservation, ef_created_at = sample_time,
      ef_expires_at = iso_string 1767225630000, ef_head_generation = 1, ef_head_record_id = zero_digest,
      ef_head_record_sha256 = zero_digest, ef_intent_sha256 = zero_digest, ef_operation = ACTIVATION_PROOF,
      ef_request_id = js ''request-1'', ef_reservation_id = zero_digest,
      ef_result_bytes = (if st \<in> {E_SEALED, E_DISPATCHED_HOLD, E_CONFIRMED} then Some (utf8_encode (js ''{}'')) else None),
      ef_result_sha256 = (if st \<in> {E_SEALED, E_DISPATCHED_HOLD, E_CONFIRMED} then Some zero_digest else None),
      ef_status = st\<rparr>"

definition sample_authority :: "effect_status \<Rightarrow> authority_storage" where
  "sample_authority st = \<lparr>as_heads = [sample_head_row], as_effects = [sample_effect_row st]\<rparr>"

lemma empty_object_text: "canonical_json (JObj []) = Inr (js ''{}'')" "utf8_encode (js ''{}'') = [0x7B, 0x7D]"
proof -
  show e: "utf8_encode (js ''{}'') = [0x7B, 0x7D]"
    by (simp add: utf8_encode_def js_def is_high_def is_low_def utf8_of_def code_points.simps)
  show "canonical_json (JObj []) = Inr (js ''{}'')"
    using e by (simp add: canonical_json_def is_json_object_def encode_canonical.simps MAX_DEPTH_def MAX_NODES_def
        MAX_MAPPING_ENTRIES_def MAX_CANONICAL_BYTES_def assert_js_def js_def)
qed

lemma sample_head_bound: "head_bound zero_sha None sample_head_row"
proof -
  have "lookup sample_head_members (js ''ingress_worker_version_id'') = JStr sample_worker_version"
    "lookup sample_head_members (js ''previous'') = JStr (js ''GENESIS'')"
    unfolding sample_head_members_def
    by (simp_all add: head_lookups [OF HOL.refl] sample_head_input_def)
  then show ?thesis
    unfolding head_bound_def
    by (intro exI [of _ "JObj sample_head_members"])
      (intro conjI sample_head_well_formed; simp add: sample_head_row_def sample_head_parses sample_head_bytes(1) sample_head_receipt
        sample_head_lookups json_get_def assert_previous_def require_r_def)
qed

lemma sample_effect_bound: "effect_bound zero_sha (sample_effect_row st)"
proof -
  obtain pb ib where d: "sample_reservation = JObj (input_reservation zero_sha sample_reservation_input pb ib)"
    "parse_effect_reservation zero_sha sample_reservation = Inr sample_reservation" "well_formed sample_reservation"
    "canonical_bytes sample_reservation = Inr (canonical_of sample_reservation)"
    by (rule sample_reservation_document)
  have "reservation_row sample_reservation (sample_effect_row st)"
    using reservation_lookups [OF HOL.refl, of zero_sha sample_reservation_input pb ib]
    by (simp add: reservation_row_def d(1) json_get_def sample_effect_row_def sample_reservation_input_def zero_sha_tag
        input_head_def reserved_head_json_def names_head_def is_json_object_def)
      (simp add: lookup_def is_number_def JI_def is_safe_integer_def number_int_def max_safe_def)
  then show ?thesis unfolding effect_bound_def using d by (intro exI [of _ sample_reservation]) (simp add: sample_effect_row_def)
qed

lemma sample_result_bound: "result_bound zero_sha (sample_effect_row st)"
  unfolding result_bound_def sealed_bytes_def
  by (auto simp: sample_effect_row_def zero_sha_tag canonical_bytes_def empty_object_text is_json_object_def
      intro!: exI [of _ "JObj []"])

lemma sample_current: "current_head (sample_authority st) = Some sample_head_row" "pending_head (sample_authority st) = None"
  by (simp_all add: current_head_def pending_head_def sample_authority_def sample_head_row_def is_pending_def)

lemma sample_storage_inv: "storage_inv zero_sha (sample_authority st)"
proof -
  have h: "heads_ok (as_heads (sample_authority st))"
    using sample_head_bytes
    by (simp add: heads_ok_def sample_authority_def head_row_ok_def sample_head_row_def is_pending_def)
  obtain pb ib where "1 \<le> length (canonical_of sample_reservation)" "length (canonical_of sample_reservation) \<le> 65536"
    by (rule sample_reservation_document)
  then have e: "effects_ok (as_effects (sample_authority st))"
    by (cases st) (simp_all add: effects_ok_def sample_authority_def authority_effect_ok_def sample_effect_row_def
        empty_object_text)
  have c: "head_chain zero_sha (as_heads (sample_authority st))"
    using head_chain.advanced [OF head_chain.genesis, of sample_head_row] sample_head_bound
    by (simp add: sample_authority_def newest_def sample_head_row_def)
  have "under_current (sample_authority st) (sample_effect_row st)"
    by (simp add: under_current_def sample_current same_head_def) (simp add: sample_effect_row_def sample_head_row_def)
  then show ?thesis
    using h e c sample_effect_bound sample_result_bound
    by (simp add: storage_inv_def storage_ok_def) (simp add: sample_authority_def)
qed

section \<open>The object and its ledger\<close>

definition quiet_hop :: ledger_hop where
  "quiet_hop = \<lparr>lh_before = [], lh_lost_request = None, lh_lost_reply = None, lh_n1 = 0, lh_n2 = 0, lh_n3 = 0\<rparr>"

definition sample_ledger :: "replay_storage \<Rightarrow> remote_ledger" where
  "sample_ledger t = \<lparr>rl_clock = 0, rl_storage = t, rl_schedule = [quiet_hop, quiet_hop, quiet_hop]\<rparr>"

definition sample_setting :: "unit authority_setting" where
  "sample_setting = \<lparr>se_decimal = (\<lambda>_. JOther), se_sha = zero_sha, se_sha1 = zero_sha, se_parse_date = (\<lambda>_. None),
     se_services = \<lparr>hs_inspect = (\<lambda>_ w. (Inl (Native TypeError), w)), hs_mirror = (\<lambda>_ w. (Inr (), w)),
       hs_mirror_bound = True, hs_observer_bound = True\<rparr>,
     se_verify = (\<lambda>_. Inl (Native TypeError)), se_lost = Native TypeError, se_ledger_bound = True\<rparr>"

definition sample_token :: json where
  "sample_token =
     (case replay_binding (\<lambda>_. JOther) zero_sha (sample_effect_row E_SEALED) of Inr b \<Rightarrow> b | Inl _ \<Rightarrow> JNull)"

definition sample_token_binding :: effect_replay_binding where
  "sample_token_binding =
     (case parse_effect_replay_binding sample_token of
        Inr e \<Rightarrow> e
      | Inl _ \<Rightarrow> \<lparr>eb_claims_digest = [], eb_expires_at = 0, eb_jti_hash = [], eb_request_id = [], eb_reservation_id = []\<rparr>)"

lemma sample_token:
  "replay_binding (\<lambda>_. JOther) zero_sha (sample_effect_row st) = Inr sample_token"
  "parse_effect_replay_binding sample_token = Inr sample_token_binding"
proof -
  obtain b e where b: "replay_binding (\<lambda>_. JOther) zero_sha (sample_effect_row E_SEALED) = Inr b"
    "parse_effect_replay_binding b = Inr e"
    using stored_binding_accepted [OF sample_effect_bound zero_sha_length, of "\<lambda>_. JOther" E_SEALED] by blast
  then show "parse_effect_replay_binding sample_token = Inr sample_token_binding"
    by (simp add: sample_token_def sample_token_binding_def)
  have "replay_binding (\<lambda>_. JOther) zero_sha (sample_effect_row st) =
      replay_binding (\<lambda>_. JOther) zero_sha (sample_effect_row E_SEALED)"
    by (rule replay_binding_cong) (simp_all add: sample_effect_row_def)
  with b show "replay_binding (\<lambda>_. JOther) zero_sha (sample_effect_row st) = Inr sample_token"
    by (simp add: sample_token_def)
qed

text \<open>The token of the sample effect consumed by an earlier commit.\<close>

definition sample_consumed :: replay_storage where
  "sample_consumed =
     \<lparr>oidc_jti = [], oidc_effect_jti = [finish CONSUMED 0 (prepared_row sample_token_binding 0)]\<rparr>"

lemma sample_ledgers_ok: "remote_ok (sample_ledger empty_replay_storage)" "remote_ok (sample_ledger sample_consumed)"
  by (simp_all add: remote_ok_def sample_ledger_def quiet_hop_def TERMINAL_TOMBSTONE_GRACE_MS_def ledger_inv_def
      empty_replay_storage_def sample_consumed_def oidc_jti_ok_def oidc_effect_jti_ok_def tables_disjoint_def
      effect_row_ok_def prepared_row_def EFFECT_REPLAY_MAX_ROWS_def)

lemma sample_token_spent: "token_spent sample_token (sample_ledger sample_consumed)"
  unfolding token_spent_def
  by (intro exI [of _ sample_token_binding] exI [of _ "finish CONSUMED 0 (prepared_row sample_token_binding 0)"] conjI
      terminal_settled)
    (simp_all add: sample_token sample_ledger_def sample_consumed_def row_binds_def prepared_row_def)

lemma sample_prepared_remotely:
  "\<exists>p l1. lr_prepare (remote_rpc zero_sha lost) sample_token (sample_ledger empty_replay_storage) = (Inr p, l1)"
proof -
  have "1 \<le> eb_expires_at sample_token_binding"
    using sample_token(2) unfolding parse_effect_replay_binding_def
    by (elim bind_r_InrE) (auto simp: require_integer_eq_Inr, metis effect_replay_binding.select_convs(2))
  then show ?thesis
    by (simp add: remote_rpc_def remote_call_def sample_ledger_def quiet_hop_def effect_calls prepare_def sample_token
        transaction_def prepare_body_def Let_def empty_replay_storage_def prune_terminal_tombstones_def
        has_ordinary_collision_def effect_rows_def write_effects_def write_table_def oidc_effect_jti_ok_def
        EFFECT_REPLAY_MAX_ROWS_def)
qed

lemma sample_object_inv:
  "object_inv (\<lambda>_. JOther) zero_sha (sample_authority st, sample_ledger sample_consumed)"
  "st \<noteq> E_CONFIRMED \<Longrightarrow> object_inv (\<lambda>_. JOther) zero_sha (sample_authority st, sample_ledger empty_replay_storage)"
proof -
  have spent: "effect_spent (\<lambda>_. JOther) zero_sha token_spent (sample_ledger sample_consumed) (sample_effect_row st)" for st
    using sample_token(1) sample_token_spent by (simp add: effect_spent_def)
  show "object_inv (\<lambda>_. JOther) zero_sha (sample_authority st, sample_ledger sample_consumed)"
    using sample_storage_inv sample_ledgers_ok spent by (simp add: joint_inv_def) (simp add: sample_authority_def)
  show "st \<noteq> E_CONFIRMED \<Longrightarrow> object_inv (\<lambda>_. JOther) zero_sha (sample_authority st, sample_ledger empty_replay_storage)"
    using sample_storage_inv sample_ledgers_ok
    by (simp add: joint_inv_def) (simp add: sample_authority_def sample_effect_row_def)
qed

end
