(* ===== verification/AuthoritySafety.thy ===== *)
theory AuthoritySafety imports EffectCompletion AuthoritySample begin

text \<open>
  The properties of the authority object over its histories: the chain of heads, the effects under them,
  the tokens the effects spend, and the status machine the effect journal implements.
\<close>

section \<open>The invariant, spelled out\<close>

definition authority_inv :: "'w authority_setting \<Rightarrow> 'w authority_state \<Rightarrow> bool" where
  "authority_inv S x \<longleftrightarrow> object_inv (se_decimal S) (se_sha S) (fst x)"

lemma authority_inv_steps: "authority_steps S x y \<Longrightarrow> authority_inv S x \<Longrightarrow> authority_inv S y"
  unfolding authority_inv_def by (rule authority_steps_inv)

lemma authority_inv_storage:
  "authority_inv S ((s, l), w) \<Longrightarrow> storage_inv (se_sha S) s \<and> storage_ok s \<and> head_chain (se_sha S) (as_heads s)"
  by (simp add: authority_inv_def joint_inv_def storage_inv_def)

lemma head_chain_nth:
  "head_chain sha hs \<Longrightarrow> i < length hs \<Longrightarrow>
     hr_generation (hs ! i) = int i + 1 \<and> head_bound sha (if i = 0 then None else Some (hs ! (i - 1))) (hs ! i) \<and>
     (i + 1 < length hs \<longrightarrow> hr_mirror_state (hs ! i) = M_CONFIRMED)"
proof (induction arbitrary: i rule: head_chain.induct)
  case (advanced hs r)
  show ?case
  proof (cases "i < length hs")
    case True
    then show ?thesis using advanced.IH [OF True] advanced(2) by (auto simp: nth_append)
  next
    case False
    then have "i = length hs" using advanced.prems by simp
    then show ?thesis
      using advanced(3,4) by (cases hs rule: rev_cases) (simp_all add: newest_def nth_append)
  qed
qed simp

section \<open>Confirmed heads\<close>

lemma write_keeps_confirmed_head:
  assumes "authority_write sha C R s t" and ok: "storage_ok s"
    and h: "h \<in> set (as_heads s)" "hr_mirror_state h = M_CONFIRMED"
  shows "h \<in> set (as_heads t)"
proof -
  have keep: "h \<in> set (update_where (\<lambda>x. hr_generation x = hr_generation row) f (as_heads s))"
    if "row \<in> set (as_heads s)" "hr_mirror_state row \<noteq> M_CONFIRMED" for row f
  proof -
    have "hr_generation h \<noteq> hr_generation row" using same_generation [OF ok h(1) that(1)] h(2) that(2) by auto
    with h(1) show ?thesis by (auto simp: update_where_def image_iff intro: bexI [of _ h])
  qed
  from assms(1) show ?thesis by cases (use h keep in auto)
qed

lemma joint_writes_keep_confirmed_head:
  assumes "remote_writes decimal sha lost x y" and "object_inv decimal sha x"
    and "h \<in> set (as_heads (fst x))" "hr_mirror_state h = M_CONFIRMED"
  shows "h \<in> set (as_heads (fst y))"
  using assms(1)
proof (induction rule: rtranclp_induct)
  case (step y z)
  have "storage_ok (fst y)"
    using remote.joint_writes_inv [OF step(1) assms(2)] by (simp add: joint_inv_def storage_inv_def)
  with step(2,3) show ?case by cases (use assms(4) write_keeps_confirmed_head in auto)
qed (use assms(3) in simp)

section \<open>The status machine of an effect\<close>

text \<open>What a client of the journal sees of one effect: its stage, with the sealed result while it has one.\<close>

datatype effect_stage =
    Reserved_Stage
  | Sealed_Stage "bytes option" "js_string option"
  | Dispatched_Stage "bytes option" "js_string option"
  | Confirmed_Stage "bytes option" "js_string option"
  | Expired_Stage
  | Cancelled_Stage



inductive stage_step :: "effect_stage option \<Rightarrow> effect_stage option \<Rightarrow> bool" where
  create: "stage_step None (Some Reserved_Stage)"
| seal: "stage_step (Some Reserved_Stage) (Some (Sealed_Stage bs d))"
| dispatch: "stage_step (Some (Sealed_Stage bs d)) (Some (Dispatched_Stage bs d))"
| confirm: "stage_step (Some (Dispatched_Stage bs d)) (Some (Confirmed_Stage bs d))"
| expire: "stage_step (Some Reserved_Stage) (Some Expired_Stage)"
| expire_sealed: "stage_step (Some (Sealed_Stage bs d)) (Some Expired_Stage)"
| cancel: "stage_step (Some Reserved_Stage) (Some Cancelled_Stage)"
| cancel_sealed: "stage_step (Some (Sealed_Stage bs d)) (Some Cancelled_Stage)"
| rearm_expired: "stage_step (Some Expired_Stage) (Some Reserved_Stage)"
| rearm_cancelled: "stage_step (Some Cancelled_Stage) (Some Reserved_Stage)"
| rearm_dispatched: "stage_step (Some (Dispatched_Stage bs d)) (Some Reserved_Stage)"

inductive_simps stage_step_confirmed: "stage_step (Some (Confirmed_Stage bs d)) x"

lemma confirmed_stage_final: "stage_step\<^sup>*\<^sup>* (Some (Confirmed_Stage bs d)) x \<Longrightarrow> x = Some (Confirmed_Stage bs d)"
  by (induction rule: rtranclp_induct) (auto simp: stage_step_confirmed)





section \<open>Properties\<close>

text \<open>C19: Whatever calls a new authority object receives, and whatever the outside world and the network to
  the replay ledger do, its storage satisfies its constraints, its heads are numbered from one without
  gaps, each is bound to its canonical bytes and links to the digest of the one before, and all but the
  newest are confirmed.\<close>

theorem reached_heads_form_a_chain:
  assumes "authority_steps S (authority_start l w) ((s, k), v)" and "remote_ok l"
  shows "authority_inv S ((s, k), v) \<and> storage_ok s \<and>
    (\<forall>i < length (as_heads s). hr_generation (as_heads s ! i) = int i + 1 \<and>
       head_bound (se_sha S) (if i = 0 then None else Some (as_heads s ! (i - 1))) (as_heads s ! i) \<and>
       (i + 1 < length (as_heads s) \<longrightarrow> hr_mirror_state (as_heads s ! i) = M_CONFIRMED))"
proof -
  have i: "authority_inv S ((s, k), v)"
    unfolding authority_inv_def by (rule reached_inv [OF assms])
  then show ?thesis using authority_inv_storage [OF i] head_chain_nth by blast
qed

theorem reached_heads_form_a_chain_witness:
  "authority_inv sample_setting
     (snd (run_authority_call sample_setting (Read_Head 0 []) (authority_start (sample_ledger empty_replay_storage) ())))"
proof -
  obtain s k v where y: "snd (run_authority_call sample_setting (Read_Head 0 [])
      (authority_start (sample_ledger empty_replay_storage) ())) = ((s, k), v)" by (metis prod.exhaust)
  have "authority_steps sample_setting (authority_start (sample_ledger empty_replay_storage) ()) ((s, k), v)"
    unfolding y [symmetric] by (rule r_into_rtranclp, rule authority_step.call)
  from reached_heads_form_a_chain [OF this sample_ledgers_ok(1)] show ?thesis unfolding y ..
qed

text \<open>C20: An effect that is reserved, sealed or dispatched lives under the current head, with no head
  pending: the head does not move under an open effect.\<close>

theorem open_effects_live_under_the_current_head:
  assumes "authority_inv S x" and "authority_steps S x ((s, k), v)" and "r \<in> set (as_effects s)"
    and "ef_status r \<in> {E_RESERVED, E_SEALED, E_DISPATCHED_HOLD}"
  shows "pending_head s = None \<and>
    (\<exists>h. current_head s = Some h \<and> ef_head_generation r = hr_generation h \<and>
       ef_head_record_id r = hr_record_id h \<and> ef_head_record_sha256 r = hr_record_sha256 h)"
proof -
  have "storage_inv (se_sha S) s" using authority_inv_storage [OF authority_inv_steps [OF assms(2,1)]] by simp
  with assms(3,4) show ?thesis
    by (auto simp: storage_inv_def unfinished_effect_row_def under_current_def same_head_def)
qed

lemma sample_authority_inv:
  "authority_inv sample_setting ((sample_authority st, sample_ledger sample_consumed), w)"
  "st \<noteq> E_CONFIRMED \<Longrightarrow> authority_inv sample_setting ((sample_authority st, sample_ledger empty_replay_storage), w)"
  using sample_object_inv by (simp_all add: authority_inv_def sample_setting_def)

theorem open_effects_live_under_the_current_head_witness:
  "\<exists>h. current_head (sample_authority E_SEALED) = Some h \<and> hr_generation h = 1"
  using open_effects_live_under_the_current_head
    [OF sample_authority_inv(1) rtranclp.rtrancl_refl, of "sample_effect_row E_SEALED" E_SEALED]
  by (simp add: sample_authority_def sample_effect_row_def) auto

text \<open>C21: What the journal stores about an effect reads back: its bytes parse as the reservation it names,
  its reservation window is at most a minute, and the replay binding the coordinator derives from the
  bytes is one the replay ledger's parser accepts, with the row's request and reservation ids.\<close>

theorem stored_effects_read_back:
  assumes "authority_inv S x" and "authority_steps S x ((s, k), v)" and "r \<in> set (as_effects s)"
    and "\<And>bs. length (se_sha S bs) = 32"
  shows "\<exists>b e c t. replay_binding (se_decimal S) (se_sha S) r = Inr b \<and> parse_effect_replay_binding b = Inr e \<and>
    eb_request_id e = ef_request_id r \<and> eb_reservation_id e = ef_reservation_id r \<and>
    date_parse (ef_created_at r) = Some c \<and> date_parse (ef_expires_at r) = Some t \<and> c < t \<and> t - c \<le> 60000"
proof -
  have "effect_bound (se_sha S) r"
    using authority_inv_storage [OF authority_inv_steps [OF assms(2,1)]] assms(3) by (simp add: storage_inv_def)
  from stored_binding_accepted [OF this assms(4), of "se_decimal S"] show ?thesis by blast
qed

theorem stored_effects_read_back_witness:
  "\<exists>b. replay_binding (\<lambda>_. JOther) zero_sha (sample_effect_row E_SEALED) = Inr b"
proof -
  have "\<And>bs. length (se_sha sample_setting bs) = 32" by (simp add: sample_setting_def zero_sha_length)
  from stored_effects_read_back [OF sample_authority_inv(1) rtranclp.rtrancl_refl _ this, of "sample_effect_row E_SEALED" E_SEALED]
  show ?thesis by (auto simp: sample_authority_def sample_setting_def)
qed

text \<open>C22: An effect is confirmed only once its token is spent: in the replay ledger the use its replay
  binding names is consumed, or was and its tombstone was pruned after the token expired.\<close>

theorem confirmed_effects_spent_their_token:
  assumes "authority_inv S x" and "authority_steps S x ((s, k), v)" and "r \<in> set (as_effects s)"
    and "ef_status r = E_CONFIRMED"
  shows "\<exists>b e u. replay_binding (se_decimal S) (se_sha S) r = Inr b \<and> parse_effect_replay_binding b = Inr e \<and>
    row_binds e u \<and> er_state u = CONSUMED \<and> settled u (rl_clock k) (rl_storage k)"
proof -
  have "authority_inv S ((s, k), v)" by (rule authority_inv_steps [OF assms(2,1)])
  with assms(3,4) show ?thesis
    by (auto simp: authority_inv_def joint_inv_def effect_spent_def token_spent_def)
qed

theorem confirmed_effects_spent_their_token_witness:
  "\<exists>e u. parse_effect_replay_binding sample_token = Inr e \<and> row_binds e u \<and> er_state u = CONSUMED \<and>
     settled u 0 sample_consumed"
  using confirmed_effects_spent_their_token
    [OF sample_authority_inv(1) rtranclp.rtrancl_refl, of "sample_effect_row E_CONFIRMED" E_CONFIRMED]
    sample_token(1)
  by (auto simp: sample_authority_def sample_setting_def sample_ledger_def) (simp add: sample_effect_row_def)

text \<open>C23: A spent token is final: an effect that is dispatched or confirmed and whose token is spent is
  never armed again. It stays, with its reservation and its result, dispatched or confirmed.\<close>

theorem spent_effects_are_never_armed_again:
  assumes "authority_inv S x" and "authority_steps S x ((s, k), v)"
    and "r \<in> set (as_effects (fst (fst x)))" and "ef_status r \<in> {E_DISPATCHED_HOLD, E_CONFIRMED}"
    and "replay_binding (se_decimal S) (se_sha S) r = Inr b" and "token_spent b (snd (fst x))"
  shows "\<exists>q \<in> set (as_effects s). ef_reservation_id q = ef_reservation_id r \<and>
    ef_canonical_bytes q = ef_canonical_bytes r \<and> ef_result_bytes q = ef_result_bytes r \<and>
    ef_result_sha256 q = ef_result_sha256 r \<and> (ef_status q = ef_status r \<or> ef_status q = E_CONFIRMED)"
proof -
  have w: "remote_writes (se_decimal S) (se_sha S) (se_lost S) (fst x) (s, k)"
    using authority_steps_writes [OF assms(2)] assms(1) by (simp add: authority_inv_def)
  have "remote_ok (snd (fst x))" using assms(1) by (simp add: authority_inv_def joint_inv_def)
  from remote.spent_carried_on [OF w this assms(3,4)] assms(5,6) show ?thesis
    by (auto simp: effect_spent_def carried_on_def)
qed

theorem spent_effects_are_never_armed_again_witness:
  "\<exists>q \<in> set (as_effects (fst (fst (snd (run_authority_call sample_setting (Reserve_Proof_Effect 0 0 [])
      ((sample_authority E_DISPATCHED_HOLD, sample_ledger sample_consumed), ())))))).
     ef_status q = E_DISPATCHED_HOLD \<or> ef_status q = E_CONFIRMED"
proof -
  let ?x = "((sample_authority E_DISPATCHED_HOLD, sample_ledger sample_consumed), ())"
  obtain s k v where y: "snd (run_authority_call sample_setting (Reserve_Proof_Effect 0 0 []) ?x) = ((s, k), v)"
    by (metis prod.exhaust)
  have st: "authority_steps sample_setting ?x ((s, k), v)"
    unfolding y [symmetric] by (rule r_into_rtranclp, rule authority_step.call)
  have "\<exists>q \<in> set (as_effects s). ef_status q = E_DISPATCHED_HOLD \<or> ef_status q = E_CONFIRMED"
    using spent_effects_are_never_armed_again [OF sample_authority_inv(1) st, of "sample_effect_row E_DISPATCHED_HOLD" sample_token]
      sample_token(1) sample_token_spent
    by (auto simp: sample_authority_def sample_setting_def) (auto simp: sample_effect_row_def)
  then show ?thesis unfolding y fst_conv .
qed

text \<open>C24: A confirmed head is immutable: no call changes or removes its row.\<close>

theorem confirmed_heads_are_immutable:
  assumes "authority_inv S x" and "authority_steps S x ((s, k), v)"
    and "h \<in> set (as_heads (fst (fst x)))" and "hr_mirror_state h = M_CONFIRMED"
  shows "h \<in> set (as_heads s)"
  using joint_writes_keep_confirmed_head [OF authority_steps_writes [OF assms(2)] _ assms(3,4)] assms(1)
  by (simp add: authority_inv_def)

theorem confirmed_heads_are_immutable_witness:
  "sample_head_row \<in> set (as_heads (fst (fst (snd (run_authority_call sample_setting
     (Advance_Head \<lparr>cl_now = 0, cl_commit = 0, cl_store = 0, cl_proof = 0\<rparr> [])
     ((sample_authority E_RESERVED, sample_ledger empty_replay_storage), ()))))))"
proof -
  let ?x = "((sample_authority E_RESERVED, sample_ledger empty_replay_storage), ())"
  let ?c = "Advance_Head \<lparr>cl_now = 0, cl_commit = 0, cl_store = 0, cl_proof = 0\<rparr> []"
  obtain s k v where y: "snd (run_authority_call sample_setting ?c ?x) = ((s, k), v)" by (metis prod.exhaust)
  have st: "authority_steps sample_setting ?x ((s, k), v)"
    unfolding y [symmetric] by (rule r_into_rtranclp, rule authority_step.call)
  have "sample_head_row \<in> set (as_heads s)"
    by (rule confirmed_heads_are_immutable [OF _ st])
      (simp_all add: sample_authority_inv, simp_all add: sample_authority_def sample_head_row_def)
  then show ?thesis by (simp only: y fst_conv)
qed



text \<open>The query for the current head, \<open>ORDER BY generation DESC LIMIT 1\<close> over the confirmed rows, is the
  plain lookup by position: the n-th stored head, for n confirmed heads.\<close>

theorem current_head_is_the_last_confirmed:
  assumes "authority_inv S x" and "authority_steps S x ((s, k), v)"
    and "n = length (filter (\<lambda>h. hr_mirror_state h = M_CONFIRMED) (as_heads s))"
  shows "current_head s = (if n = 0 then None else Some (as_heads s ! (n - 1)))"
proof -
  have c: "head_chain (se_sha S) (as_heads s)"
    using authority_inv_storage [OF authority_inv_steps [OF assms(2,1)]] by simp
  from c have f: "filter (\<lambda>h. hr_mirror_state h = M_CONFIRMED) (as_heads s) =
      take (length (filter (\<lambda>h. hr_mirror_state h = M_CONFIRMED) (as_heads s))) (as_heads s)"
    by cases (simp_all add: filter_True)
  then show ?thesis
    unfolding current_head_chain [OF c] newest_def assms(3)
    by (metis (no_types, lifting) last_conv_nth length_0_conv nth_take diff_less length_greater_0_conv zero_less_one)
qed

theorem current_head_is_the_last_confirmed_witness:
  "current_head (sample_authority E_RESERVED) = Some sample_head_row"
  using current_head_is_the_last_confirmed
    [OF sample_authority_inv(1) rtranclp.rtrancl_refl HOL.refl, of E_RESERVED]
  by (simp add: sample_authority_def) (simp add: sample_head_row_def)

text \<open>C26: Reserving again an effect whose row is sealed never succeeds: whatever the replay ledger answers,
  the coordinator's reconciliation fails and leaves the journal as it was, since the store arms only
  dispatched rows again, also where the coordinator means to arm a sealed one.\<close>

theorem sealed_effects_cannot_be_reconciled:
  assumes "storage_inv sha s" and "row \<in> set (as_effects s)" and "ef_status row = E_SEALED"
  shows "\<exists>e k. reconcile_effect decimal sha env row replacement (s, l) = (Inl e, (s, k))"
  by (rule sealed_effect_is_not_reconciled) (use assms in \<open>simp_all add: storage_inv_def\<close>)

theorem sealed_effects_cannot_be_reconciled_witness:
  "\<exists>e k. reconcile_effect (\<lambda>_. JOther) zero_sha (Some (remote_rpc zero_sha (Native TypeError)))
     (sample_effect_row E_SEALED) sample_reservation (sample_authority E_SEALED, sample_ledger empty_replay_storage) =
     (Inl e, (sample_authority E_SEALED, k))"
  by (rule sealed_effects_cannot_be_reconciled [OF sample_storage_inv])
    (simp_all add: sample_authority_def sample_effect_row_def)

text \<open>C27: A sealed effect can be carried through: if the replay ledger prepares its use and the two calls
  after that get through, the coordinator dispatches the effect while it has not expired and then
  confirms it with its sealed digest.\<close>

theorem sealed_effects_can_be_confirmed:
  assumes "authority_inv S ((s, l), w)" and "row \<in> set (as_effects s)" and "ef_status row = E_SEALED"
    and "\<And>bs. length (se_sha S bs) = 32" and "date_parse (ef_expires_at row) = Some e" and "now \<le> e"
    and "replay_binding (se_decimal S) (se_sha S) row = Inr b"
    and "lr_prepare (remote_rpc (se_sha S) (se_lost S)) b l = (Inr p, l1)"
    and "rl_schedule l = h1 # h2 # h3 # hs" and "quiet h2" and "quiet h3"
  shows "\<exists>t digest y.
    prepare_and_dispatch (se_decimal S) (se_sha S) (Some (remote_rpc (se_sha S) (se_lost S))) now row (s, l) =
      (Inr (row\<lparr>ef_status := E_DISPATCHED_HOLD\<rparr>), (t, l1)) \<and> ef_result_sha256 row = Some digest \<and>
    commit_and_confirm (se_decimal S) (se_sha S) (Some (remote_rpc (se_sha S) (se_lost S)))
      (row\<lparr>ef_status := E_DISPATCHED_HOLD\<rparr>) digest (t, l1) = (Inr (row\<lparr>ef_status := E_CONFIRMED\<rparr>), y)"
proof -
  have j: "object_inv (se_decimal S) (se_sha S) (s, l)" using assms(1) by (simp add: authority_inv_def)
  show ?thesis
    by (rule sealed_effect_is_carried_through [OF j assms(2-11)]) blast
qed

theorem sealed_effects_can_be_confirmed_witness:
  "\<exists>digest x y. commit_and_confirm (\<lambda>_. JOther) zero_sha (Some (remote_rpc zero_sha (Native TypeError)))
     ((sample_effect_row E_SEALED)\<lparr>ef_status := E_DISPATCHED_HOLD\<rparr>) digest x =
     (Inr ((sample_effect_row E_SEALED)\<lparr>ef_status := E_CONFIRMED\<rparr>), y)"
proof -
  obtain p l1 where p: "lr_prepare (remote_rpc zero_sha (Native TypeError)) sample_token (sample_ledger empty_replay_storage) = (Inr p, l1)"
    using sample_prepared_remotely by blast
  have s: "sample_effect_row E_SEALED \<in> set (as_effects (sample_authority E_SEALED))" "ef_status (sample_effect_row E_SEALED) = E_SEALED"
    "date_parse (ef_expires_at (sample_effect_row E_SEALED)) = Some 1767225630000"
    by (simp_all add: sample_authority_def) (simp_all add: sample_effect_row_def sample_expiry)
  have S: "se_sha sample_setting = zero_sha" "se_decimal sample_setting = (\<lambda>_. JOther)" "se_lost sample_setting = Native TypeError"
    by (simp_all add: sample_setting_def)
  have q: "rl_schedule (sample_ledger empty_replay_storage) = [quiet_hop, quiet_hop, quiet_hop]" "quiet quiet_hop"
    by (simp_all add: sample_ledger_def quiet_def quiet_hop_def)
  have i: "authority_inv sample_setting ((sample_authority E_SEALED, sample_ledger empty_replay_storage), ())"
    by (simp add: sample_authority_inv)
  have "0 \<le> (1767225630000 :: int)" by simp
  from sealed_effects_can_be_confirmed [OF i s(1,2) _ s(3) this, unfolded S, OF zero_sha_length sample_token(1) p q(1,2,2)]
  show ?thesis by blast
qed

end
