(* ===== verification/PublicZip.thy ===== *)
theory PublicZip imports Unicode JsRegex begin

text \<open>
  The public archive of a candidate (\<open>candidate-public-v2/zip-format.ts\<close>): a ZIP of three stored members
  in which every byte is determined by the members. \<open>DataView\<close> reads and writes are little-endian; a write
  or a read past the end of the buffer is the \<open>RangeError\<close> of the runtime.
\<close>

section \<open>Constants and errors\<close>

definition candidate_assert :: "bool \<Rightarrow> string \<Rightarrow> unit result" where
  "candidate_assert c code = (if c then Inr () else Inl (Candidate (js code)))"

definition PUBLIC_V2_MAX_BYTES :: nat where "PUBLIC_V2_MAX_BYTES = 65536"
definition LOCAL_SIGNATURE :: nat where "LOCAL_SIGNATURE = 0x04034b50"
definition CENTRAL_SIGNATURE :: nat where "CENTRAL_SIGNATURE = 0x02014b50"
definition EOCD_SIGNATURE :: nat where "EOCD_SIGNATURE = 0x06054b50"
definition VERSION_NEEDED :: nat where "VERSION_NEEDED = 20"
definition VERSION_MADE_BY :: nat where "VERSION_MADE_BY = 0x0314"
definition DOS_TIME :: nat where "DOS_TIME = 0"
definition DOS_DATE :: nat where "DOS_DATE = 0x0021"
definition EXTERNAL_ATTRIBUTES :: nat where "EXTERNAL_ATTRIBUTES = 0x81a40000"
definition LOCAL_HEADER_BYTES :: nat where "LOCAL_HEADER_BYTES = 30"
definition CENTRAL_HEADER_BYTES :: nat where "CENTRAL_HEADER_BYTES = 46"
definition EOCD_BYTES :: nat where "EOCD_BYTES = 22"

definition PROVISIONED_NAME :: js_string where "PROVISIONED_NAME = js ''activation-a0-public-core-v2.json''"
definition ACTIVATED_NAME :: js_string where "ACTIVATED_NAME = js ''activation-a1-public-core-v2.json''"
definition CLOSURE_NAME :: js_string where "CLOSURE_NAME = js ''runtime-closure-public-v2.json''"

definition ordered_names :: "js_string list" where
  "ordered_names = [PROVISIONED_NAME, ACTIVATED_NAME, CLOSURE_NAME]"

text \<open>\<open>/^[A-Za-z0-9][A-Za-z0-9._-]{0,127}$/u\<close>\<close>

definition MEMBER_NAME :: regex where
  "MEMBER_NAME = Seq (Cls ''AZaz09'') (Rep (Cls ''AZaz09..__--'') 0 127)"

record archive_members =
  pa_activated :: bytes
  pa_closure :: bytes
  pa_provisioned :: bytes

record zip_member =
  zm_bytes :: bytes
  zm_name :: js_string

record member_metadata =
  mm_bytes :: bytes
  mm_crc32 :: nat
  mm_local_offset :: nat
  mm_name_bytes :: bytes

record parsed_metadata =
  pm_crc32 :: nat
  pm_local_offset :: nat
  pm_name :: js_string
  pm_name_bytes :: bytes
  pm_size :: nat

section \<open>CRC-32 and the buffer\<close>

text \<open>One bit and one byte of the loop, on the 32 bits the operators of the code compute with.\<close>

definition crc_bit :: "32 word \<Rightarrow> 32 word" where
  "crc_bit c = xor (drop_bit 1 c) (and 0xedb88320 (- (and c 1)))"

definition crc_byte :: "32 word \<Rightarrow> byte \<Rightarrow> 32 word" where
  "crc_byte c b = (crc_bit ^^ 8) (xor c (ucast b))"

definition crc32 :: "bytes \<Rightarrow> nat" where
  "crc32 bs = unat (xor (foldl crc_byte 0xffffffff bs) 0xffffffff)"

definition le16 :: "nat \<Rightarrow> bytes" where
  "le16 v = [of_nat v, of_nat (v div 256)]"

definition le32 :: "nat \<Rightarrow> bytes" where
  "le32 v = [of_nat v, of_nat (v div 256), of_nat (v div 65536), of_nat (v div 16777216)]"

definition u16_at :: "bytes \<Rightarrow> nat \<Rightarrow> nat" where
  "u16_at bs off = unat (bs ! off) + 256 * unat (bs ! (off + 1))"

definition u32_at :: "bytes \<Rightarrow> nat \<Rightarrow> nat" where
  "u32_at bs off = u16_at bs off + 65536 * u16_at bs (off + 2)"

definition get_u16 :: "bytes \<Rightarrow> nat \<Rightarrow> nat result" where
  "get_u16 bs off = (if off + 2 \<le> length bs then Inr (u16_at bs off) else Inl (Native RangeError))"

definition get_u32 :: "bytes \<Rightarrow> nat \<Rightarrow> nat result" where
  "get_u32 bs off = (if off + 4 \<le> length bs then Inr (u32_at bs off) else Inl (Native RangeError))"

definition put_bytes :: "bytes \<Rightarrow> nat \<Rightarrow> bytes \<Rightarrow> bytes result" where
  "put_bytes out off w =
     (if off + length w \<le> length out then Inr (take off out @ w @ drop (off + length w) out)
      else Inl (Native RangeError))"

definition set_u16 :: "bytes \<Rightarrow> nat \<Rightarrow> nat \<Rightarrow> bytes result" where
  "set_u16 out off v = put_bytes out off (le16 v)"

definition set_u32 :: "bytes \<Rightarrow> nat \<Rightarrow> nat \<Rightarrow> bytes result" where
  "set_u32 out off v = put_bytes out off (le32 v)"

definition require_u16 :: "bytes \<Rightarrow> nat \<Rightarrow> nat \<Rightarrow> string \<Rightarrow> unit result" where
  "require_u16 bs off expected code = candidate_assert (off + 2 \<le> length bs \<and> u16_at bs off = expected) code"

definition require_u32 :: "bytes \<Rightarrow> nat \<Rightarrow> nat \<Rightarrow> string \<Rightarrow> unit result" where
  "require_u32 bs off expected code = candidate_assert (off + 4 \<le> length bs \<and> u32_at bs off = expected) code"

definition assert_range :: "bytes \<Rightarrow> nat \<Rightarrow> nat \<Rightarrow> unit result" where
  "assert_range bs start n = candidate_assert (start + n \<le> length bs) ''PUBLIC_V2_ZIP_TRUNCATED''"

definition slice :: "bytes \<Rightarrow> nat \<Rightarrow> nat \<Rightarrow> bytes result" where
  "slice bs start n = bind_r (assert_range bs start n) (\<lambda>_. Inr (take n (drop start bs)))"

section \<open>Building\<close>

definition encode_name :: "js_string \<Rightarrow> bytes result" where
  "encode_name name =
     bind_r (candidate_assert (matches MEMBER_NAME name) ''PUBLIC_V2_ZIP_MEMBER_NAME_INVALID'') (\<lambda>_.
       Inr (utf8_encode name))"

definition decode_name :: "bytes \<Rightarrow> js_string result" where
  "decode_name bs =
     bind_r (candidate_assert (list_all (\<lambda>b. b \<le> 0x7f) bs) ''PUBLIC_V2_ZIP_MEMBER_NAME_INVALID'') (\<lambda>_.
       case text_decode bs of None \<Rightarrow> Inl (Native TypeError) | Some t \<Rightarrow> Inr t)"

fun check_member_sizes :: "nat \<Rightarrow> zip_member list \<Rightarrow> unit result" where
  "check_member_sizes expanded [] = Inr ()"
| "check_member_sizes expanded (m # ms) =
     bind_r (candidate_assert (1 \<le> length (zm_bytes m) \<and> length (zm_bytes m) \<le> PUBLIC_V2_MAX_BYTES)
       ''PUBLIC_V2_ZIP_EXPANDED_SIZE_INVALID'') (\<lambda>_.
     bind_r (candidate_assert (expanded + length (zm_bytes m) \<le> PUBLIC_V2_MAX_BYTES)
       ''PUBLIC_V2_ZIP_EXPANDED_SIZE_INVALID'') (\<lambda>_.
       check_member_sizes (expanded + length (zm_bytes m)) ms))"

definition snapshot_zip_members :: "archive_members \<Rightarrow> zip_member list result" where
  "snapshot_zip_members i =
     (let members = [\<lparr>zm_bytes = pa_provisioned i, zm_name = PROVISIONED_NAME\<rparr>,
        \<lparr>zm_bytes = pa_activated i, zm_name = ACTIVATED_NAME\<rparr>,
        \<lparr>zm_bytes = pa_closure i, zm_name = CLOSURE_NAME\<rparr>] in
      bind_r (check_member_sizes 0 members) (\<lambda>_. Inr members))"

definition write_common_header :: "bytes \<Rightarrow> nat \<Rightarrow> member_metadata \<Rightarrow> bytes result" where
  "write_common_header out off m =
     bind_r (set_u16 out off VERSION_NEEDED) (\<lambda>out.
     bind_r (set_u16 out (off + 2) 0) (\<lambda>out.
     bind_r (set_u16 out (off + 4) 0) (\<lambda>out.
     bind_r (set_u16 out (off + 6) DOS_TIME) (\<lambda>out.
     bind_r (set_u16 out (off + 8) DOS_DATE) (\<lambda>out.
     bind_r (set_u32 out (off + 10) (mm_crc32 m)) (\<lambda>out.
     bind_r (set_u32 out (off + 14) (length (mm_bytes m))) (\<lambda>out.
       set_u32 out (off + 18) (length (mm_bytes m)))))))))"

definition write_local :: "bytes \<Rightarrow> nat \<Rightarrow> member_metadata \<Rightarrow> (bytes \<times> nat) result" where
  "write_local out off m =
     bind_r (set_u32 out off LOCAL_SIGNATURE) (\<lambda>out.
     bind_r (write_common_header out (off + 4) m) (\<lambda>out.
     bind_r (set_u16 out (off + 26) (length (mm_name_bytes m))) (\<lambda>out.
     bind_r (set_u16 out (off + 28) 0) (\<lambda>out.
     bind_r (put_bytes out (off + LOCAL_HEADER_BYTES) (mm_name_bytes m)) (\<lambda>out.
     let data_offset = off + LOCAL_HEADER_BYTES + length (mm_name_bytes m) in
     bind_r (put_bytes out data_offset (mm_bytes m)) (\<lambda>out.
       Inr (out, data_offset + length (mm_bytes m))))))))"

definition write_central :: "bytes \<Rightarrow> nat \<Rightarrow> member_metadata \<Rightarrow> (bytes \<times> nat) result" where
  "write_central out off m =
     bind_r (set_u32 out off CENTRAL_SIGNATURE) (\<lambda>out.
     bind_r (set_u16 out (off + 4) VERSION_MADE_BY) (\<lambda>out.
     bind_r (write_common_header out (off + 6) m) (\<lambda>out.
     bind_r (set_u16 out (off + 28) (length (mm_name_bytes m))) (\<lambda>out.
     bind_r (set_u16 out (off + 30) 0) (\<lambda>out.
     bind_r (set_u16 out (off + 32) 0) (\<lambda>out.
     bind_r (set_u16 out (off + 34) 0) (\<lambda>out.
     bind_r (set_u16 out (off + 36) 0) (\<lambda>out.
     bind_r (set_u32 out (off + 38) EXTERNAL_ATTRIBUTES) (\<lambda>out.
     bind_r (set_u32 out (off + 42) (mm_local_offset m)) (\<lambda>out.
     bind_r (put_bytes out (off + CENTRAL_HEADER_BYTES) (mm_name_bytes m)) (\<lambda>out.
       Inr (out, off + CENTRAL_HEADER_BYTES + length (mm_name_bytes m)))))))))))))"

definition write_eocd :: "bytes \<Rightarrow> nat \<Rightarrow> nat \<Rightarrow> nat \<Rightarrow> nat \<Rightarrow> bytes result" where
  "write_eocd out off count central_size central_offset =
     bind_r (set_u32 out off EOCD_SIGNATURE) (\<lambda>out.
     bind_r (set_u16 out (off + 4) 0) (\<lambda>out.
     bind_r (set_u16 out (off + 6) 0) (\<lambda>out.
     bind_r (set_u16 out (off + 8) count) (\<lambda>out.
     bind_r (set_u16 out (off + 10) count) (\<lambda>out.
     bind_r (set_u32 out (off + 12) central_size) (\<lambda>out.
     bind_r (set_u32 out (off + 16) central_offset) (\<lambda>out.
       set_u16 out (off + 20) 0)))))))"

fun write_all :: "(bytes \<Rightarrow> nat \<Rightarrow> member_metadata \<Rightarrow> (bytes \<times> nat) result) \<Rightarrow> bytes \<Rightarrow> nat \<Rightarrow>
    member_metadata list \<Rightarrow> (bytes \<times> nat) result" where
  "write_all f out off [] = Inr (out, off)"
| "write_all f out off (m # ms) = bind_r (f out off m) (\<lambda>(out, off). write_all f out off ms)"

fun plan_members :: "nat \<Rightarrow> zip_member list \<Rightarrow> (member_metadata list \<times> nat) result" where
  "plan_members local_bytes [] = Inr ([], local_bytes)"
| "plan_members local_bytes (m # ms) =
     bind_r (encode_name (zm_name m)) (\<lambda>name_bytes.
     bind_r (plan_members (local_bytes + (LOCAL_HEADER_BYTES + length name_bytes + length (zm_bytes m))) ms) (\<lambda>(rest, total).
       Inr (\<lparr>mm_bytes = zm_bytes m, mm_crc32 = crc32 (zm_bytes m), mm_local_offset = local_bytes,
             mm_name_bytes = name_bytes\<rparr> # rest, total)))"

definition build_public_zip :: "archive_members \<Rightarrow> bytes result" where
  "build_public_zip i =
     bind_r (snapshot_zip_members i) (\<lambda>members.
     bind_r (candidate_assert (sum_list (map (\<lambda>m. length (zm_bytes m)) members) \<le> PUBLIC_V2_MAX_BYTES)
       ''PUBLIC_V2_ZIP_EXPANDED_SIZE_INVALID'') (\<lambda>_.
     bind_r (plan_members 0 members) (\<lambda>(metadata, local_bytes).
     let central_bytes = sum_list (map (\<lambda>m. CENTRAL_HEADER_BYTES + length (mm_name_bytes m)) metadata);
         total_bytes = local_bytes + central_bytes + EOCD_BYTES in
     bind_r (candidate_assert (total_bytes \<le> PUBLIC_V2_MAX_BYTES) ''PUBLIC_V2_ZIP_RAW_SIZE_INVALID'') (\<lambda>_.
     bind_r (write_all write_local (replicate total_bytes 0) 0 metadata) (\<lambda>(out, off).
     bind_r (candidate_assert (off = local_bytes) ''PUBLIC_V2_ZIP_OFFSET_INVALID'') (\<lambda>_.
     bind_r (write_all write_central out off metadata) (\<lambda>(out, off).
     bind_r (candidate_assert (off = local_bytes + central_bytes) ''PUBLIC_V2_ZIP_OFFSET_INVALID'') (\<lambda>_.
       write_eocd out off (length members) central_bytes local_bytes))))))))"

section \<open>Parsing\<close>

definition validate_common_header :: "bytes \<Rightarrow> nat \<Rightarrow> unit result" where
  "validate_common_header bs off =
     bind_r (require_u16 bs off VERSION_NEEDED ''PUBLIC_V2_ZIP_METADATA_INVALID'') (\<lambda>_.
     bind_r (require_u16 bs (off + 2) 0 ''PUBLIC_V2_ZIP_FLAGS_INVALID'') (\<lambda>_.
     bind_r (require_u16 bs (off + 4) 0 ''PUBLIC_V2_ZIP_COMPRESSION_INVALID'') (\<lambda>_.
     bind_r (require_u16 bs (off + 6) DOS_TIME ''PUBLIC_V2_ZIP_METADATA_INVALID'') (\<lambda>_.
       require_u16 bs (off + 8) DOS_DATE ''PUBLIC_V2_ZIP_METADATA_INVALID''))))"

definition parse_central_member :: "bytes \<Rightarrow> nat \<Rightarrow> nat \<Rightarrow> js_string \<Rightarrow> parsed_metadata result" where
  "parse_central_member bs off expanded_total expected =
     bind_r (assert_range bs off CENTRAL_HEADER_BYTES) (\<lambda>_.
     bind_r (require_u32 bs off CENTRAL_SIGNATURE ''PUBLIC_V2_ZIP_CENTRAL_HEADER_INVALID'') (\<lambda>_.
     bind_r (require_u16 bs (off + 4) VERSION_MADE_BY ''PUBLIC_V2_ZIP_METADATA_INVALID'') (\<lambda>_.
     bind_r (validate_common_header bs (off + 6)) (\<lambda>_.
     bind_r (get_u32 bs (off + 16)) (\<lambda>crc.
     bind_r (get_u32 bs (off + 20)) (\<lambda>compressed.
     bind_r (get_u32 bs (off + 24)) (\<lambda>expanded.
     bind_r (candidate_assert (compressed = expanded) ''PUBLIC_V2_ZIP_COMPRESSION_INVALID'') (\<lambda>_.
     bind_r (candidate_assert (1 \<le> expanded \<and> expanded \<le> PUBLIC_V2_MAX_BYTES)
       ''PUBLIC_V2_ZIP_EXPANDED_SIZE_INVALID'') (\<lambda>_.
     bind_r (candidate_assert (expanded_total + expanded \<le> PUBLIC_V2_MAX_BYTES)
       ''PUBLIC_V2_ZIP_EXPANDED_SIZE_INVALID'') (\<lambda>_.
     bind_r (get_u16 bs (off + 28)) (\<lambda>name_length.
     bind_r (require_u16 bs (off + 30) 0 ''PUBLIC_V2_ZIP_EXTRA_INVALID'') (\<lambda>_.
     bind_r (require_u16 bs (off + 32) 0 ''PUBLIC_V2_ZIP_COMMENT_INVALID'') (\<lambda>_.
     bind_r (require_u16 bs (off + 34) 0 ''PUBLIC_V2_ZIP_DISK_INVALID'') (\<lambda>_.
     bind_r (require_u16 bs (off + 36) 0 ''PUBLIC_V2_ZIP_METADATA_INVALID'') (\<lambda>_.
     bind_r (require_u32 bs (off + 38) EXTERNAL_ATTRIBUTES ''PUBLIC_V2_ZIP_METADATA_INVALID'') (\<lambda>_.
     bind_r (get_u32 bs (off + 42)) (\<lambda>local_offset.
     bind_r (slice bs (off + CENTRAL_HEADER_BYTES) name_length) (\<lambda>name_bytes.
     bind_r (decode_name name_bytes) (\<lambda>name.
     bind_r (candidate_assert (name = expected) ''PUBLIC_V2_ZIP_MEMBER_NAME_INVALID'') (\<lambda>_.
       Inr \<lparr>pm_crc32 = crc, pm_local_offset = local_offset, pm_name = name, pm_name_bytes = name_bytes,
            pm_size = expanded\<rparr>))))))))))))))))))))"

fun parse_central_members :: "bytes \<Rightarrow> nat \<Rightarrow> nat \<Rightarrow> js_string list \<Rightarrow> (parsed_metadata list \<times> nat) result" where
  "parse_central_members bs off expanded_total [] = Inr ([], off)"
| "parse_central_members bs off expanded_total (name # names) =
     bind_r (parse_central_member bs off expanded_total name) (\<lambda>m.
     bind_r (parse_central_members bs (off + (CENTRAL_HEADER_BYTES + length (pm_name_bytes m)))
       (expanded_total + pm_size m) names) (\<lambda>(ms, end_offset).
       Inr (m # ms, end_offset)))"

definition parse_central :: "bytes \<Rightarrow> nat \<Rightarrow> nat \<Rightarrow> parsed_metadata list result" where
  "parse_central bs start central_size =
     bind_r (parse_central_members bs start 0 ordered_names) (\<lambda>(members, off).
     bind_r (candidate_assert (off = start + central_size) ''PUBLIC_V2_ZIP_CENTRAL_DIRECTORY_INVALID'') (\<lambda>_.
       Inr members))"

definition parse_local_member :: "bytes \<Rightarrow> nat \<Rightarrow> parsed_metadata \<Rightarrow> zip_member result" where
  "parse_local_member bs off c =
     bind_r (candidate_assert (pm_local_offset c = off) ''PUBLIC_V2_ZIP_LOCAL_OFFSET_INVALID'') (\<lambda>_.
     bind_r (assert_range bs off LOCAL_HEADER_BYTES) (\<lambda>_.
     bind_r (require_u32 bs off LOCAL_SIGNATURE ''PUBLIC_V2_ZIP_LOCAL_HEADER_INVALID'') (\<lambda>_.
     bind_r (validate_common_header bs (off + 4)) (\<lambda>_.
     bind_r (require_u32 bs (off + 14) (pm_crc32 c) ''PUBLIC_V2_ZIP_CRC_INVALID'') (\<lambda>_.
     bind_r (require_u32 bs (off + 18) (pm_size c) ''PUBLIC_V2_ZIP_SIZE_INVALID'') (\<lambda>_.
     bind_r (require_u32 bs (off + 22) (pm_size c) ''PUBLIC_V2_ZIP_SIZE_INVALID'') (\<lambda>_.
     bind_r (require_u16 bs (off + 26) (length (pm_name_bytes c)) ''PUBLIC_V2_ZIP_NAME_INVALID'') (\<lambda>_.
     bind_r (require_u16 bs (off + 28) 0 ''PUBLIC_V2_ZIP_EXTRA_INVALID'') (\<lambda>_.
     let name_start = off + LOCAL_HEADER_BYTES in
     bind_r (slice bs name_start (length (pm_name_bytes c))) (\<lambda>local_name.
     bind_r (candidate_assert (local_name = pm_name_bytes c) ''PUBLIC_V2_ZIP_NAME_MISMATCH'') (\<lambda>_.
     bind_r (slice bs (name_start + length local_name) (pm_size c)) (\<lambda>data.
     bind_r (candidate_assert (crc32 data = pm_crc32 c) ''PUBLIC_V2_ZIP_CRC_INVALID'') (\<lambda>_.
       Inr \<lparr>zm_bytes = data, zm_name = pm_name c\<rparr>)))))))))))))"

fun parse_local_members :: "bytes \<Rightarrow> nat \<Rightarrow> parsed_metadata list \<Rightarrow> (zip_member list \<times> nat) result" where
  "parse_local_members bs off [] = Inr ([], off)"
| "parse_local_members bs off (c # cs) =
     bind_r (parse_local_member bs off c) (\<lambda>m.
     bind_r (parse_local_members bs
       (off + LOCAL_HEADER_BYTES + length (pm_name_bytes c) + length (zm_bytes m)) cs) (\<lambda>(ms, end_offset).
       Inr (m # ms, end_offset)))"

definition parse_locals :: "bytes \<Rightarrow> parsed_metadata list \<Rightarrow> nat \<Rightarrow> zip_member list result" where
  "parse_locals bs metadata central_offset =
     bind_r (parse_local_members bs 0 metadata) (\<lambda>(members, off).
     bind_r (candidate_assert (off = central_offset) ''PUBLIC_V2_ZIP_LOCAL_LAYOUT_INVALID'') (\<lambda>_.
       Inr members))"

definition require_member :: "zip_member list \<Rightarrow> nat \<Rightarrow> zip_member result" where
  "require_member members k =
     (if k < length members then Inr (members ! k)
      else Inl (Candidate (js ''PUBLIC_V2_ZIP_MEMBER_COUNT_INVALID'')))"

definition parse_public_zip :: "bytes \<Rightarrow> archive_members result" where
  "parse_public_zip bs =
     bind_r (candidate_assert (EOCD_BYTES \<le> length bs \<and> length bs \<le> PUBLIC_V2_MAX_BYTES)
       ''PUBLIC_V2_ZIP_RAW_SIZE_INVALID'') (\<lambda>_.
     let eocd = length bs - EOCD_BYTES in
     bind_r (require_u32 bs eocd EOCD_SIGNATURE ''PUBLIC_V2_ZIP_EOCD_INVALID'') (\<lambda>_.
     bind_r (require_u16 bs (eocd + 4) 0 ''PUBLIC_V2_ZIP_EOCD_INVALID'') (\<lambda>_.
     bind_r (require_u16 bs (eocd + 6) 0 ''PUBLIC_V2_ZIP_EOCD_INVALID'') (\<lambda>_.
     bind_r (require_u16 bs (eocd + 8) 3 ''PUBLIC_V2_ZIP_MEMBER_COUNT_INVALID'') (\<lambda>_.
     bind_r (require_u16 bs (eocd + 10) 3 ''PUBLIC_V2_ZIP_MEMBER_COUNT_INVALID'') (\<lambda>_.
     bind_r (get_u32 bs (eocd + 12)) (\<lambda>central_size.
     bind_r (get_u32 bs (eocd + 16)) (\<lambda>central_offset.
     bind_r (require_u16 bs (eocd + 20) 0 ''PUBLIC_V2_ZIP_COMMENT_INVALID'') (\<lambda>_.
     bind_r (candidate_assert (central_offset + central_size = eocd)
       ''PUBLIC_V2_ZIP_CENTRAL_DIRECTORY_INVALID'') (\<lambda>_.
     bind_r (parse_central bs central_offset central_size) (\<lambda>metadata.
     bind_r (parse_locals bs metadata central_offset) (\<lambda>members.
     bind_r (candidate_assert (sum_list (map (\<lambda>m. length (zm_bytes m)) members) \<le> PUBLIC_V2_MAX_BYTES)
       ''PUBLIC_V2_ZIP_EXPANDED_SIZE_INVALID'') (\<lambda>_.
     bind_r (require_member members 0) (\<lambda>provisioned.
     bind_r (require_member members 1) (\<lambda>activated.
     bind_r (require_member members 2) (\<lambda>closure.
       Inr \<lparr>pa_activated = zm_bytes activated, pa_closure = zm_bytes closure,
            pa_provisioned = zm_bytes provisioned\<rparr>))))))))))))))))"

end
