(* ===== verification/PublicZipExact.thy ===== *)
theory PublicZipExact imports PublicZip AuthorityFields begin

text \<open>
  The parser and the builder of the public archive are exact inverses. An archive is the concatenation of
  its local records, central records and end record; \<open>chunk bs off w\<close> says that \<open>bs\<close> holds \<open>w\<close> at \<open>off\<close>,
  so the checks of the parser say which chunks the archive holds, and the writes of the builder append
  one chunk after the other.
\<close>

lemma candidate_assert_eq_Inr [result_simps]: "candidate_assert c code = Inr u \<longleftrightarrow> c"
  by (simp add: candidate_assert_def)

lemma candidate_assert_True [simp]: "candidate_assert True code = Inr ()"
  by (simp add: candidate_assert_def)

section \<open>Numbers in little-endian\<close>

lemma le_length [simp]: "length (le16 v) = 2" "length (le32 v) = 4"
  by (simp_all add: le16_def le32_def)

lemma unat_byte_mod: "unat (of_nat n :: byte) = n mod 256"
  by (simp add: unat_of_nat take_bit_eq_mod)

lemma byte_less: "unat (b :: byte) < 256"
  using unsigned_less [of b] by simp

lemma le16_bytes: "u16_at [a, b] 0 < 65536" "le16 (u16_at [a, b] 0) = [a, b]"
proof -
  show "u16_at [a, b] 0 < 65536" using byte_less [of a] byte_less [of b] by (simp add: u16_at_def)
  have "unat (of_nat (u16_at [a, b] 0) :: byte) = unat a" "unat (of_nat (u16_at [a, b] 0 div 256) :: byte) = unat b"
    using byte_less [of a] byte_less [of b] unfolding unat_byte_mod u16_at_def by simp_all
  then show "le16 (u16_at [a, b] 0) = [a, b]" unfolding le16_def word_unat_eq_iff [symmetric] by simp
qed

lemma u16_le16: "v < 65536 \<Longrightarrow> u16_at (le16 v) 0 = v"
  by (simp add: u16_at_def le16_def unat_byte_mod)

lemma u32_split: "u32_at [a, b, c, d] 0 = u16_at [a, b] 0 + 65536 * u16_at [c, d] 0"
  by (simp add: u32_at_def u16_at_def)

lemma le32_split: "le32 v = le16 (v mod 65536) @ le16 (v div 65536)"
proof -
  have m: "v mod 65536 = 256 * (v div 256 mod 256) + v mod 256" using mod_mult2_eq [of v 256 256] by simp
  have "unat (of_nat v :: byte) = unat (of_nat (v mod 65536) :: byte)"
    "unat (of_nat (v div 256) :: byte) = unat (of_nat (v mod 65536 div 256) :: byte)"
    unfolding unat_byte_mod m by simp_all
  then have "(of_nat v :: byte) = of_nat (v mod 65536)" "(of_nat (v div 256) :: byte) = of_nat (v mod 65536 div 256)"
    unfolding word_unat_eq_iff [symmetric] by simp_all
  moreover have "v div 65536 div 256 = v div 16777216" using div_mult2_eq [of v 65536 256] by simp
  ultimately show ?thesis by (simp only: le32_def le16_def append_Cons append_Nil)
qed

lemma le32_bytes: "u32_at [a, b, c, d] 0 < 4294967296" "le32 (u32_at [a, b, c, d] 0) = [a, b, c, d]"
  using le16_bytes [of a b] le16_bytes [of c d] unfolding u32_split le32_split by simp_all

lemma u32_le32: "v < 4294967296 \<Longrightarrow> u32_at (le32 v) 0 = v"
  using u16_le16 [of "v mod 65536"] u16_le16 [of "v div 65536"]
  by (simp add: le32_split le16_def u32_split less_mult_imp_div_less)

section \<open>Chunks\<close>

definition chunk :: "bytes \<Rightarrow> nat \<Rightarrow> bytes \<Rightarrow> bool" where
  "chunk bs off w \<longleftrightarrow> off + length w \<le> length bs \<and> take (length w) (drop off bs) = w"

lemma chunk_append: "chunk bs off (a @ b) \<longleftrightarrow> chunk bs off a \<and> chunk bs (off + length a) b"
proof
  assume "chunk bs off (a @ b)"
  then have l: "off + length a + length b \<le> length bs" and t: "take (length a + length b) (drop off bs) = a @ b"
    by (simp_all add: chunk_def add.assoc)
  have "take (length a) (take (length a + length b) (drop off bs)) = a" unfolding t by simp
  moreover have "drop (length a) (take (length a + length b) (drop off bs)) = b" unfolding t by simp
  ultimately show "chunk bs off a \<and> chunk bs (off + length a) b"
    using l by (simp add: chunk_def drop_take add.commute)
next
  assume c: "chunk bs off a \<and> chunk bs (off + length a) b"
  then show "chunk bs off (a @ b)"
    by (auto simp: chunk_def take_add add.commute add.left_commute)
qed

lemma chunk_Nil [simp]: "chunk bs off [] \<longleftrightarrow> off \<le> length bs"
  by (simp add: chunk_def)

lemma chunk_whole: "chunk bs 0 w \<Longrightarrow> length w = length bs \<Longrightarrow> bs = w"
  by (simp add: chunk_def)

lemma chunk_middle: "chunk (a @ w @ b) (length a) w"
  by (simp add: chunk_def)

lemma chunk_length: "chunk bs off w \<Longrightarrow> off + length w \<le> length bs"
  by (simp add: chunk_def)

lemma nth_pair: "off + 2 \<le> length bs \<Longrightarrow> take 2 (drop off bs) = [bs ! off, bs ! (off + 1)]"
  by (rule nth_equalityI) (auto simp: less_2_cases_iff)

lemma chunk_u16: "off + 2 \<le> length bs \<Longrightarrow> chunk bs off (le16 (u16_at bs off))"
proof -
  assume l: "off + 2 \<le> length bs"
  have "le16 (u16_at bs off) = [bs ! off, bs ! (off + 1)]"
    using le16_bytes(2) [of "bs ! off" "bs ! (off + 1)"] by (simp add: u16_at_def)
  then show ?thesis using l nth_pair [OF l] unfolding chunk_def le_length by simp
qed

lemma chunk_u16_at: "chunk bs off (le16 v) \<Longrightarrow> v < 65536 \<Longrightarrow> u16_at bs off = v"
proof -
  assume c: "chunk bs off (le16 v)" and v: "v < 65536"
  then have l: "off + 2 \<le> length bs" and t: "[bs ! off, bs ! (off + 1)] = le16 v"
    using nth_pair [of off bs] by (simp_all add: chunk_def)
  have "u16_at bs off = u16_at [bs ! off, bs ! (off + 1)] 0" by (simp add: u16_at_def)
  then show "u16_at bs off = v" unfolding t using u16_le16 [OF v] by simp
qed

lemma u16_at_less: "off + 2 \<le> length bs \<Longrightarrow> u16_at bs off < 65536"
  using le16_bytes(1) [of "bs ! off" "bs ! (off + 1)"] by (simp add: u16_at_def)

lemma u32_at_less: "off + 4 \<le> length bs \<Longrightarrow> u32_at bs off < 4294967296"
  using u16_at_less [of off bs] u16_at_less [of "off + 2" bs] by (simp add: u32_at_def)

lemma chunk_u32: "off + 4 \<le> length bs \<Longrightarrow> chunk bs off (le32 (u32_at bs off))"
proof -
  assume l: "off + 4 \<le> length bs"
  have "u32_at bs off mod 65536 = u16_at bs off" "u32_at bs off div 65536 = u16_at bs (off + 2)"
    using u16_at_less [of off bs] l by (simp_all add: u32_at_def)
  then show ?thesis unfolding le32_split chunk_append using l by (simp add: chunk_u16)
qed

lemma chunk_u32_at: "chunk bs off (le32 v) \<Longrightarrow> v < 4294967296 \<Longrightarrow> u32_at bs off = v"
proof -
  assume c: "chunk bs off (le32 v)" and v: "v < 4294967296"
  then have "u16_at bs off = v mod 65536" "u16_at bs (off + 2) = v div 65536"
    unfolding le32_split chunk_append by (auto intro!: chunk_u16_at simp: less_mult_imp_div_less)
  then show "u32_at bs off = v" by (simp add: u32_at_def)
qed

lemma require_u16_iff: "v < 65536 \<Longrightarrow> require_u16 bs off v code = Inr u \<longleftrightarrow> chunk bs off (le16 v)"
  using chunk_u16 [of off bs] chunk_u16_at [of bs off v] chunk_length [of bs off "le16 v"]
  by (auto simp: require_u16_def candidate_assert_eq_Inr)

lemma require_u32_iff: "v < 4294967296 \<Longrightarrow> require_u32 bs off v code = Inr u \<longleftrightarrow> chunk bs off (le32 v)"
  using chunk_u32 [of off bs] chunk_u32_at [of bs off v] chunk_length [of bs off "le32 v"]
  by (auto simp: require_u32_def candidate_assert_eq_Inr)

lemma get_u16_iff: "get_u16 bs off = Inr v \<longleftrightarrow> v < 65536 \<and> chunk bs off (le16 v)"
  using chunk_u16 [of off bs] chunk_u16_at [of bs off v] chunk_length [of bs off "le16 v"] u16_at_less [of off bs]
  by (auto simp: get_u16_def)

lemma get_u32_iff: "get_u32 bs off = Inr v \<longleftrightarrow> v < 4294967296 \<and> chunk bs off (le32 v)"
  using chunk_u32 [of off bs] chunk_u32_at [of bs off v] chunk_length [of bs off "le32 v"] u32_at_less [of off bs]
  by (auto simp: get_u32_def)

lemma slice_iff: "slice bs off n = Inr w \<longleftrightarrow> length w = n \<and> chunk bs off w"
  by (auto simp: slice_def assert_range_def bind_r_eq_Inr candidate_assert_eq_Inr chunk_def)

lemma assert_range_iff: "assert_range bs off n = Inr u \<longleftrightarrow> off + n \<le> length bs"
  by (simp add: assert_range_def candidate_assert_eq_Inr)

section \<open>Member names\<close>

lemma ascii_utf8: "ascii s \<Longrightarrow> utf8_encode s = map ucast s"
proof (induction s)
  case (Cons c s)
  then have c: "c \<le> 0x7F" by simp
  then have n: "unat c < 128" by (simp add: word_le_nat_alt)
  have "(of_nat (unat c) :: byte) = ucast c" by simp
  then have "utf8_of (unat c) = [ucast c]" using n by (simp add: utf8_of_def)
  then show ?case
    using Cons c by (simp add: utf8_encode_def ascii_not_surrogate code_points_cases)
qed (simp add: utf8_encode_def)

lemma widen_narrow: "ucast (ucast (b :: byte) :: code_unit) = b"
  using byte_less [of b] by (simp only: word_unat_eq_iff unsigned_ucast_eq) (simp add: unsigned_take_bit_eq take_bit_nat_eq_self)

lemma decode_name_iff: "decode_name nb = Inr name \<longleftrightarrow> ascii name \<and> nb = utf8_encode name"
proof -
  have enc: "ascii (map ucast w :: js_string) \<and> utf8_encode (map ucast w) = w" if "list_all (\<lambda>b. b \<le> 0x7f) w" for w :: bytes
  proof -
    have "(ucast b :: code_unit) \<le> 0x7F" if "b \<le> 0x7f" for b :: byte
      using that byte_less [of b] by (simp add: word_le_nat_alt unsigned_ucast_eq take_bit_nat_eq_self)
    with that have a: "ascii (map ucast w :: js_string)" by (auto simp: ascii_def list_all_iff)
    have "map ucast (map ucast w :: js_string) = w"
      using that by (induction w) (simp_all add: widen_narrow)
    with a show ?thesis by (simp add: ascii_utf8)
  qed
  have dec: "text_decode (utf8_encode t) = Some t" if "ascii t" for t
  proof -
    have "take 1 t \<noteq> [0xFEFF]" using that by (cases t) auto
    then show ?thesis by (rule text_decode_encode [OF ascii_scalars [OF that]])
  qed
  have low: "list_all (\<lambda>b. b \<le> 0x7f) (utf8_encode t)" if "ascii t" for t
    using that by (auto simp: ascii_utf8 list_all_iff ascii_def word_le_nat_alt unsigned_ucast_eq take_bit_nat_eq_self)
  show ?thesis
  proof
    assume d: "decode_name nb = Inr name"
    then have l: "list_all (\<lambda>b. b \<le> 0x7f) nb" and t: "text_decode nb = Some name"
      by (auto simp: decode_name_def bind_r_eq_Inr candidate_assert_eq_Inr split: option.splits)
    from enc [OF l] dec [of "map ucast nb"] t show "ascii name \<and> nb = utf8_encode name" by auto
  next
    assume "ascii name \<and> nb = utf8_encode name"
    then show "decode_name nb = Inr name" using dec low by (simp add: decode_name_def)
  qed
qed

lemma member_names:
  "matches MEMBER_NAME PROVISIONED_NAME" "matches MEMBER_NAME ACTIVATED_NAME" "matches MEMBER_NAME CLOSURE_NAME"
  "ascii PROVISIONED_NAME" "ascii ACTIVATED_NAME" "ascii CLOSURE_NAME"
  "length PROVISIONED_NAME = 33" "length ACTIVATED_NAME = 33" "length CLOSURE_NAME = 30"
  by (simp_all add: MEMBER_NAME_def PROVISIONED_NAME_def ACTIVATED_NAME_def CLOSURE_NAME_def js_def)

section \<open>The layout\<close>

definition common_bytes :: "nat \<Rightarrow> nat \<Rightarrow> bytes" where
  "common_bytes crc n = le16 VERSION_NEEDED @ le16 0 @ le16 0 @ le16 DOS_TIME @ le16 DOS_DATE @ le32 crc @ le32 n @ le32 n"

definition local_record :: "bytes \<Rightarrow> bytes \<Rightarrow> bytes" where
  "local_record nb b = le32 LOCAL_SIGNATURE @ common_bytes (crc32 b) (length b) @ le16 (length nb) @ le16 0 @ nb @ b"

definition central_record :: "bytes \<Rightarrow> nat \<Rightarrow> nat \<Rightarrow> nat \<Rightarrow> bytes" where
  "central_record nb crc n off =
     le32 CENTRAL_SIGNATURE @ le16 VERSION_MADE_BY @ common_bytes crc n @ le16 (length nb) @ le16 0 @ le16 0 @ le16 0 @
     le16 0 @ le32 EXTERNAL_ATTRIBUTES @ le32 off @ nb"

definition end_record :: "nat \<Rightarrow> nat \<Rightarrow> nat \<Rightarrow> bytes" where
  "end_record n len off =
     le32 EOCD_SIGNATURE @ le16 0 @ le16 0 @ le16 n @ le16 n @ le32 len @ le32 off @ le16 0"

lemma record_lengths [simp]:
  "length (common_bytes crc n) = 22" "length (local_record nb b) = 30 + length nb + length b"
  "length (central_record nb crc n off) = 46 + length nb" "length (end_record n len off) = 22"
  by (simp_all add: common_bytes_def local_record_def central_record_def end_record_def)

lemmas zip_constants = LOCAL_SIGNATURE_def CENTRAL_SIGNATURE_def EOCD_SIGNATURE_def VERSION_NEEDED_def
  VERSION_MADE_BY_def DOS_TIME_def DOS_DATE_def EXTERNAL_ATTRIBUTES_def LOCAL_HEADER_BYTES_def
  CENTRAL_HEADER_BYTES_def EOCD_BYTES_def PUBLIC_V2_MAX_BYTES_def

section \<open>What the parser accepts\<close>

lemma validate_common_header_iff:
  "validate_common_header bs off = Inr u \<longleftrightarrow>
     chunk bs off (le16 VERSION_NEEDED @ le16 0 @ le16 0 @ le16 DOS_TIME @ le16 DOS_DATE)"
  by (auto simp: validate_common_header_def bind_r_eq_Inr require_u16_iff chunk_append zip_constants ac_simps
      simp del: add_2_eq_Suc')

lemma parse_central_member_iff:
  "parse_central_member bs off tot name = Inr m \<longleftrightarrow>
     chunk bs off (central_record (pm_name_bytes m) (pm_crc32 m) (pm_size m) (pm_local_offset m)) \<and>
     pm_crc32 m < 4294967296 \<and> pm_local_offset m < 4294967296 \<and> length (pm_name_bytes m) < 65536 \<and>
     1 \<le> pm_size m \<and> tot + pm_size m \<le> PUBLIC_V2_MAX_BYTES \<and>
     decode_name (pm_name_bytes m) = Inr name \<and> pm_name m = name"
  (is "_ \<longleftrightarrow> ?R")
proof
  assume "parse_central_member bs off tot name = Inr m"
  then show ?R
    unfolding parse_central_member_def
    by (elim bind_r_InrE)
      (auto simp: assert_range_iff require_u32_iff require_u16_iff validate_common_header_iff get_u32_iff get_u16_iff
        candidate_assert_eq_Inr slice_iff central_record_def common_bytes_def chunk_append zip_constants ac_simps
        simp del: add_2_eq_Suc')
next
  assume ?R
  then have c: "chunk bs off (central_record (pm_name_bytes m) (pm_crc32 m) (pm_size m) (pm_local_offset m))"
    by simp
  moreover from chunk_length [OF c] have "off + CENTRAL_HEADER_BYTES \<le> length bs" by (simp add: CENTRAL_HEADER_BYTES_def)
  ultimately show "parse_central_member bs off tot name = Inr m"
    using \<open>?R\<close>
    by (cases m) (auto simp: parse_central_member_def bind_r_eq_Inr assert_range_iff require_u32_iff require_u16_iff
        validate_common_header_iff get_u32_iff get_u16_iff candidate_assert_eq_Inr slice_iff central_record_def
        common_bytes_def chunk_append zip_constants ac_simps
        simp del: add_2_eq_Suc')
qed

lemma parse_local_member_iff:
  assumes "pm_crc32 c < 4294967296" "pm_size c < 4294967296" "length (pm_name_bytes c) < 65536"
  shows "parse_local_member bs off c = Inr m \<longleftrightarrow>
     pm_local_offset c = off \<and> chunk bs off (local_record (pm_name_bytes c) (zm_bytes m)) \<and>
     crc32 (zm_bytes m) = pm_crc32 c \<and> length (zm_bytes m) = pm_size c \<and> zm_name m = pm_name c"
  (is "_ \<longleftrightarrow> ?R")
proof
  assume "parse_local_member bs off c = Inr m"
  then show ?R
    using assms unfolding parse_local_member_def Let_def
    by (elim bind_r_InrE)
      (auto simp: assert_range_iff require_u32_iff require_u16_iff validate_common_header_iff
        candidate_assert_eq_Inr slice_iff local_record_def common_bytes_def chunk_append zip_constants ac_simps
        simp del: add_2_eq_Suc')
next
  assume ?R
  moreover from this have "off + LOCAL_HEADER_BYTES \<le> length bs"
    using chunk_length [of bs off "local_record (pm_name_bytes c) (zm_bytes m)"] by (simp add: LOCAL_HEADER_BYTES_def)
  ultimately show "parse_local_member bs off c = Inr m"
    using assms
    by (auto simp: parse_local_member_def bind_r_eq_Inr assert_range_iff require_u32_iff require_u16_iff Let_def
        validate_common_header_iff candidate_assert_eq_Inr slice_iff local_record_def
        common_bytes_def chunk_append zip_constants ac_simps
        simp del: add_2_eq_Suc')
qed

text \<open>The three central records, as far as the central directory determines them.\<close>

definition central_of :: "parsed_metadata \<Rightarrow> bytes" where
  "central_of m = central_record (pm_name_bytes m) (pm_crc32 m) (pm_size m) (pm_local_offset m)"

definition central_ok :: "js_string \<Rightarrow> parsed_metadata \<Rightarrow> bool" where
  "central_ok name m \<longleftrightarrow>
     pm_crc32 m < 4294967296 \<and> pm_local_offset m < 4294967296 \<and> 1 \<le> pm_size m \<and> pm_name m = name \<and>
     pm_name_bytes m = utf8_encode name"

lemma name_bytes_length:
  "length (utf8_encode PROVISIONED_NAME) = 33" "length (utf8_encode ACTIVATED_NAME) = 33"
  "length (utf8_encode CLOSURE_NAME) = 30"
  using member_names length_utf8_ascii by simp_all

lemma parse_named_central:
  assumes "name \<in> set ordered_names"
  shows "parse_central_member bs off tot name = Inr m \<longleftrightarrow>
     central_ok name m \<and> chunk bs off (central_of m) \<and> tot + pm_size m \<le> PUBLIC_V2_MAX_BYTES"
proof -
  have "ascii name" "length (utf8_encode name) < 65536"
    using assms member_names name_bytes_length by (auto simp: ordered_names_def)
  then show ?thesis
    by (auto simp: parse_central_member_iff central_ok_def central_of_def decode_name_iff)
qed

lemma parse_central_iff:
  "parse_central bs start len = Inr ms \<longleftrightarrow>
     (\<exists>m0 m1 m2. ms = [m0, m1, m2] \<and> central_ok PROVISIONED_NAME m0 \<and> central_ok ACTIVATED_NAME m1 \<and>
        central_ok CLOSURE_NAME m2 \<and> pm_size m0 + pm_size m1 + pm_size m2 \<le> PUBLIC_V2_MAX_BYTES \<and>
        chunk bs start (central_of m0 @ central_of m1 @ central_of m2) \<and> len = 234)"
proof -
  have n: "PROVISIONED_NAME \<in> set ordered_names" "ACTIVATED_NAME \<in> set ordered_names" "CLOSURE_NAME \<in> set ordered_names"
    by (simp_all add: ordered_names_def)
  have l: "length (pm_name_bytes m0) = 33" if "central_ok PROVISIONED_NAME m0" for m0
    using that name_bytes_length by (simp add: central_ok_def)
  have l1: "length (pm_name_bytes m0) = 33" if "central_ok ACTIVATED_NAME m0" for m0
    using that name_bytes_length by (simp add: central_ok_def)
  have l2: "length (pm_name_bytes m0) = 30" if "central_ok CLOSURE_NAME m0" for m0
    using that name_bytes_length by (simp add: central_ok_def)
  have "parse_central bs start len = Inr ms \<longleftrightarrow>
     (\<exists>m0 m1 m2. ms = [m0, m1, m2] \<and> parse_central_member bs start 0 PROVISIONED_NAME = Inr m0 \<and>
        parse_central_member bs (start + (46 + length (pm_name_bytes m0))) (pm_size m0) ACTIVATED_NAME = Inr m1 \<and>
        parse_central_member bs (start + (46 + length (pm_name_bytes m0)) + (46 + length (pm_name_bytes m1)))
          (pm_size m0 + pm_size m1) CLOSURE_NAME = Inr m2 \<and>
        start + (46 + length (pm_name_bytes m0)) + (46 + length (pm_name_bytes m1)) + (46 + length (pm_name_bytes m2)) = start + len)"
    by (fastforce simp: parse_central_def ordered_names_def bind_r_eq_Inr candidate_assert_eq_Inr CENTRAL_HEADER_BYTES_def)
  also have "\<dots> \<longleftrightarrow> (\<exists>m0 m1 m2. ms = [m0, m1, m2] \<and> central_ok PROVISIONED_NAME m0 \<and> central_ok ACTIVATED_NAME m1 \<and>
        central_ok CLOSURE_NAME m2 \<and> pm_size m0 + pm_size m1 + pm_size m2 \<le> PUBLIC_V2_MAX_BYTES \<and>
        chunk bs start (central_of m0 @ central_of m1 @ central_of m2) \<and> len = 234)"
    unfolding parse_named_central [OF n(1)] parse_named_central [OF n(2)] parse_named_central [OF n(3)]
    by (intro ex_cong1) (auto simp: chunk_append central_of_def l l1 l2 ac_simps simp del: add_2_eq_Suc')
  finally show ?thesis .
qed

lemma crc32_less: "crc32 bs < 4294967296"
  using unsigned_less [where 'b = 32] by (simp add: crc32_def)

definition local_of :: "js_string \<Rightarrow> bytes \<Rightarrow> bytes" where
  "local_of name b = local_record (utf8_encode name) b"

lemma parse_named_local:
  assumes "central_ok name c" and "name \<in> set ordered_names" and "pm_size c \<le> PUBLIC_V2_MAX_BYTES"
  shows "parse_local_member bs off c = Inr m \<longleftrightarrow>
     pm_local_offset c = off \<and> chunk bs off (local_of name (zm_bytes m)) \<and> pm_crc32 c = crc32 (zm_bytes m) \<and>
     pm_size c = length (zm_bytes m) \<and> zm_name m = name"
proof -
  have "pm_crc32 c < 4294967296" "pm_size c < 4294967296" "length (pm_name_bytes c) < 65536"
    using assms name_bytes_length by (auto simp: central_ok_def ordered_names_def PUBLIC_V2_MAX_BYTES_def)
  from parse_local_member_iff [OF this] show ?thesis
    using assms(1) by (auto simp: central_ok_def local_of_def)
qed

lemma parse_locals_iff:
  assumes c: "central_ok PROVISIONED_NAME m0" "central_ok ACTIVATED_NAME m1" "central_ok CLOSURE_NAME m2"
    and le: "pm_size m0 + pm_size m1 + pm_size m2 \<le> PUBLIC_V2_MAX_BYTES"
  shows "parse_locals bs [m0, m1, m2] off = Inr zs \<longleftrightarrow>
     (\<exists>b0 b1 b2. zs = [\<lparr>zm_bytes = b0, zm_name = PROVISIONED_NAME\<rparr>, \<lparr>zm_bytes = b1, zm_name = ACTIVATED_NAME\<rparr>,
         \<lparr>zm_bytes = b2, zm_name = CLOSURE_NAME\<rparr>] \<and>
        chunk bs 0 (local_of PROVISIONED_NAME b0 @ local_of ACTIVATED_NAME b1 @ local_of CLOSURE_NAME b2) \<and>
        pm_crc32 m0 = crc32 b0 \<and> pm_crc32 m1 = crc32 b1 \<and> pm_crc32 m2 = crc32 b2 \<and>
        pm_size m0 = length b0 \<and> pm_size m1 = length b1 \<and> pm_size m2 = length b2 \<and>
        pm_local_offset m0 = 0 \<and> pm_local_offset m1 = 63 + length b0 \<and>
        pm_local_offset m2 = 126 + length b0 + length b1 \<and> off = 186 + length b0 + length b1 + length b2)"
    (is "_ \<longleftrightarrow> ?R")
proof -
  have n: "PROVISIONED_NAME \<in> set ordered_names" "ACTIVATED_NAME \<in> set ordered_names" "CLOSURE_NAME \<in> set ordered_names"
    by (simp_all add: ordered_names_def)
  have s: "pm_size m0 \<le> PUBLIC_V2_MAX_BYTES" "pm_size m1 \<le> PUBLIC_V2_MAX_BYTES" "pm_size m2 \<le> PUBLIC_V2_MAX_BYTES"
    using le by simp_all
  have l: "length (pm_name_bytes m0) = 33" "length (pm_name_bytes m1) = 33" "length (pm_name_bytes m2) = 30"
    using c name_bytes_length by (simp_all add: central_ok_def)
  have "parse_locals bs [m0, m1, m2] off = Inr zs \<longleftrightarrow>
     (\<exists>z0 z1 z2. zs = [z0, z1, z2] \<and> parse_local_member bs 0 m0 = Inr z0 \<and>
        parse_local_member bs (63 + length (zm_bytes z0)) m1 = Inr z1 \<and>
        parse_local_member bs (63 + length (zm_bytes z0) + (63 + length (zm_bytes z1))) m2 = Inr z2 \<and>
        off = 63 + length (zm_bytes z0) + (63 + length (zm_bytes z1)) + (60 + length (zm_bytes z2)))"
    by (simp add: parse_locals_def bind_r_eq_Inr candidate_assert_eq_Inr LOCAL_HEADER_BYTES_def l ac_simps) blast
  also have "\<dots> \<longleftrightarrow> ?R"
    unfolding parse_named_local [OF c(1) n(1) s(1)] parse_named_local [OF c(2) n(2) s(2)] parse_named_local [OF c(3) n(3) s(3)]
  proof
    assume "\<exists>z0 z1 z2. zs = [z0, z1, z2] \<and>
       (pm_local_offset m0 = 0 \<and> chunk bs 0 (local_of PROVISIONED_NAME (zm_bytes z0)) \<and> pm_crc32 m0 = crc32 (zm_bytes z0) \<and>
          pm_size m0 = length (zm_bytes z0) \<and> zm_name z0 = PROVISIONED_NAME) \<and>
       (pm_local_offset m1 = 63 + length (zm_bytes z0) \<and>
          chunk bs (63 + length (zm_bytes z0)) (local_of ACTIVATED_NAME (zm_bytes z1)) \<and> pm_crc32 m1 = crc32 (zm_bytes z1) \<and>
          pm_size m1 = length (zm_bytes z1) \<and> zm_name z1 = ACTIVATED_NAME) \<and>
       (pm_local_offset m2 = 63 + length (zm_bytes z0) + (63 + length (zm_bytes z1)) \<and>
          chunk bs (63 + length (zm_bytes z0) + (63 + length (zm_bytes z1))) (local_of CLOSURE_NAME (zm_bytes z2)) \<and>
          pm_crc32 m2 = crc32 (zm_bytes z2) \<and> pm_size m2 = length (zm_bytes z2) \<and> zm_name z2 = CLOSURE_NAME) \<and>
       off = 63 + length (zm_bytes z0) + (63 + length (zm_bytes z1)) + (60 + length (zm_bytes z2))"
    then obtain z0 z1 z2 where z: "zs = [z0, z1, z2]" "zm_name z0 = PROVISIONED_NAME" "zm_name z1 = ACTIVATED_NAME"
      "zm_name z2 = CLOSURE_NAME"
      and r: "chunk bs 0 (local_of PROVISIONED_NAME (zm_bytes z0))" "pm_local_offset m0 = 0"
      "chunk bs (63 + length (zm_bytes z0)) (local_of ACTIVATED_NAME (zm_bytes z1))"
      "chunk bs (63 + length (zm_bytes z0) + (63 + length (zm_bytes z1))) (local_of CLOSURE_NAME (zm_bytes z2))"
      "pm_local_offset m1 = 63 + length (zm_bytes z0)"
      "pm_local_offset m2 = 63 + length (zm_bytes z0) + (63 + length (zm_bytes z1))"
      "off = 63 + length (zm_bytes z0) + (63 + length (zm_bytes z1)) + (60 + length (zm_bytes z2))"
      "pm_crc32 m0 = crc32 (zm_bytes z0)" "pm_crc32 m1 = crc32 (zm_bytes z1)" "pm_crc32 m2 = crc32 (zm_bytes z2)"
      "pm_size m0 = length (zm_bytes z0)" "pm_size m1 = length (zm_bytes z1)" "pm_size m2 = length (zm_bytes z2)"
      by blast
    have e: "z = \<lparr>zm_bytes = zm_bytes z, zm_name = zm_name z\<rparr>" for z by simp
    show ?R
      by (rule exI [of _ "zm_bytes z0"], rule exI [of _ "zm_bytes z1"], rule exI [of _ "zm_bytes z2"])
        (use z r e [of z0] e [of z1] e [of z2] in
          \<open>simp add: chunk_append local_of_def name_bytes_length ac_simps del: add_2_eq_Suc'\<close>)
  next
    assume ?R
    then obtain b0 b1 b2 where r: "zs = [\<lparr>zm_bytes = b0, zm_name = PROVISIONED_NAME\<rparr>,
        \<lparr>zm_bytes = b1, zm_name = ACTIVATED_NAME\<rparr>, \<lparr>zm_bytes = b2, zm_name = CLOSURE_NAME\<rparr>]"
      "chunk bs 0 (local_of PROVISIONED_NAME b0 @ local_of ACTIVATED_NAME b1 @ local_of CLOSURE_NAME b2)"
      "pm_crc32 m0 = crc32 b0" "pm_crc32 m1 = crc32 b1" "pm_crc32 m2 = crc32 b2"
      "pm_size m0 = length b0" "pm_size m1 = length b1" "pm_size m2 = length b2"
      "pm_local_offset m0 = 0" "pm_local_offset m1 = 63 + length b0"
      "pm_local_offset m2 = 126 + length b0 + length b1" "off = 186 + length b0 + length b1 + length b2"
      by blast
    have cc: "chunk bs 0 (local_of PROVISIONED_NAME b0)" "chunk bs (63 + length b0) (local_of ACTIVATED_NAME b1)"
      "chunk bs (63 + length b0 + (63 + length b1)) (local_of CLOSURE_NAME b2)"
      using r(2) unfolding chunk_append
      by (simp_all add: local_of_def name_bytes_length ac_simps del: add_2_eq_Suc')
    show "\<exists>z0 z1 z2. zs = [z0, z1, z2] \<and>
       (pm_local_offset m0 = 0 \<and> chunk bs 0 (local_of PROVISIONED_NAME (zm_bytes z0)) \<and> pm_crc32 m0 = crc32 (zm_bytes z0) \<and>
          pm_size m0 = length (zm_bytes z0) \<and> zm_name z0 = PROVISIONED_NAME) \<and>
       (pm_local_offset m1 = 63 + length (zm_bytes z0) \<and>
          chunk bs (63 + length (zm_bytes z0)) (local_of ACTIVATED_NAME (zm_bytes z1)) \<and> pm_crc32 m1 = crc32 (zm_bytes z1) \<and>
          pm_size m1 = length (zm_bytes z1) \<and> zm_name z1 = ACTIVATED_NAME) \<and>
       (pm_local_offset m2 = 63 + length (zm_bytes z0) + (63 + length (zm_bytes z1)) \<and>
          chunk bs (63 + length (zm_bytes z0) + (63 + length (zm_bytes z1))) (local_of CLOSURE_NAME (zm_bytes z2)) \<and>
          pm_crc32 m2 = crc32 (zm_bytes z2) \<and> pm_size m2 = length (zm_bytes z2) \<and> zm_name z2 = CLOSURE_NAME) \<and>
       off = 63 + length (zm_bytes z0) + (63 + length (zm_bytes z1)) + (60 + length (zm_bytes z2))"
      unfolding r(1) using r(3-12) cc by simp
  qed
  finally show ?thesis .
qed

section \<open>The archive of three members\<close>

definition central_entry :: "js_string \<Rightarrow> bytes \<Rightarrow> nat \<Rightarrow> bytes" where
  "central_entry name b off = central_record (utf8_encode name) (crc32 b) (length b) off"

definition local_part :: "archive_members \<Rightarrow> bytes" where
  "local_part i =
     local_of PROVISIONED_NAME (pa_provisioned i) @ local_of ACTIVATED_NAME (pa_activated i) @
     local_of CLOSURE_NAME (pa_closure i)"

definition central_part :: "archive_members \<Rightarrow> bytes" where
  "central_part i =
     central_entry PROVISIONED_NAME (pa_provisioned i) 0 @
     central_entry ACTIVATED_NAME (pa_activated i) (63 + length (pa_provisioned i)) @
     central_entry CLOSURE_NAME (pa_closure i) (126 + length (pa_provisioned i) + length (pa_activated i))"

definition archive_bytes :: "archive_members \<Rightarrow> bytes" where
  "archive_bytes i = local_part i @ central_part i @ end_record 3 234 (length (local_part i))"

definition archive_ok :: "archive_members \<Rightarrow> bool" where
  "archive_ok i \<longleftrightarrow>
     1 \<le> length (pa_provisioned i) \<and> 1 \<le> length (pa_activated i) \<and> 1 \<le> length (pa_closure i) \<and>
     length (pa_provisioned i) + length (pa_activated i) + length (pa_closure i) + 442 \<le> PUBLIC_V2_MAX_BYTES"

lemma part_lengths:
  "length (local_part i) = 186 + length (pa_provisioned i) + length (pa_activated i) + length (pa_closure i)"
  "length (central_part i) = 234"
  "length (archive_bytes i) = 442 + length (pa_provisioned i) + length (pa_activated i) + length (pa_closure i)"
  by (simp_all add: archive_bytes_def local_part_def central_part_def local_of_def central_entry_def name_bytes_length)

lemma parse_public_zip_iff: "parse_public_zip bs = Inr i \<longleftrightarrow> archive_ok i \<and> bs = archive_bytes i"
proof
  assume p: "parse_public_zip bs = Inr i"
  define e where "e = length bs - EOCD_BYTES"
  obtain off len ms zs where len: "22 \<le> length bs" "length bs \<le> PUBLIC_V2_MAX_BYTES"
    and er: "chunk bs e (end_record 3 len off)" and ol: "off + len = e"
    and c: "parse_central bs off len = Inr ms" and l: "parse_locals bs ms off = Inr zs"
    and i: "bind_r (require_member zs 0) (\<lambda>provisioned. bind_r (require_member zs 1) (\<lambda>activated.
       bind_r (require_member zs 2) (\<lambda>closure. Inr \<lparr>pa_activated = zm_bytes activated, pa_closure = zm_bytes closure,
            pa_provisioned = zm_bytes provisioned\<rparr>))) = Inr i"
    using p unfolding parse_public_zip_def Let_def e_def [symmetric]
    by (elim bind_r_InrE)
      (auto simp: candidate_assert_eq_Inr require_u32_iff require_u16_iff get_u32_iff end_record_def chunk_append
        zip_constants ac_simps simp del: add_2_eq_Suc')
  obtain m0 m1 m2 where ms: "ms = [m0, m1, m2]" and ok: "central_ok PROVISIONED_NAME m0" "central_ok ACTIVATED_NAME m1"
    "central_ok CLOSURE_NAME m2" and le: "pm_size m0 + pm_size m1 + pm_size m2 \<le> PUBLIC_V2_MAX_BYTES"
    and cc: "chunk bs off (central_of m0 @ central_of m1 @ central_of m2)" and len': "len = 234"
    using c unfolding parse_central_iff by blast
  obtain b0 b1 b2 where zs: "zs = [\<lparr>zm_bytes = b0, zm_name = PROVISIONED_NAME\<rparr>,
        \<lparr>zm_bytes = b1, zm_name = ACTIVATED_NAME\<rparr>, \<lparr>zm_bytes = b2, zm_name = CLOSURE_NAME\<rparr>]"
    and lc: "chunk bs 0 (local_of PROVISIONED_NAME b0 @ local_of ACTIVATED_NAME b1 @ local_of CLOSURE_NAME b2)"
    and f: "pm_crc32 m0 = crc32 b0" "pm_crc32 m1 = crc32 b1" "pm_crc32 m2 = crc32 b2"
      "pm_size m0 = length b0" "pm_size m1 = length b1" "pm_size m2 = length b2"
      "pm_local_offset m0 = 0" "pm_local_offset m1 = 63 + length b0"
      "pm_local_offset m2 = 126 + length b0 + length b1" "off = 186 + length b0 + length b1 + length b2"
    using l unfolding ms parse_locals_iff [OF ok le] by blast
  have i': "i = \<lparr>pa_activated = b1, pa_closure = b2, pa_provisioned = b0\<rparr>"
    using i by (simp add: zs require_member_def)
  have lp: "chunk bs 0 (local_part i)" using lc by (simp add: local_part_def i')
  have cp: "chunk bs (length (local_part i)) (central_part i)"
    using cc ok f by (simp add: part_lengths central_part_def central_entry_def central_of_def central_ok_def i')
  have ep: "chunk bs (length (local_part i) + length (central_part i)) (end_record 3 234 (length (local_part i)))"
    using er ol len' f(10) by (simp add: part_lengths i')
  have "chunk bs 0 (archive_bytes i)"
    unfolding archive_bytes_def chunk_append using lp cp ep by simp
  moreover have n: "length (archive_bytes i) = length bs"
    using ol len(1) len' f(10) by (simp add: part_lengths i' e_def EOCD_BYTES_def)
  moreover have "archive_ok i"
    using ok f len(2) n by (simp add: archive_ok_def central_ok_def part_lengths i')
  ultimately show "archive_ok i \<and> bs = archive_bytes i" using chunk_whole by simp
next
  assume a: "archive_ok i \<and> bs = archive_bytes i"
  define n where "n = length (local_part i)"
  have nn: "n = 186 + length (pa_provisioned i) + length (pa_activated i) + length (pa_closure i)" "n < 65536"
    using a by (simp_all add: n_def part_lengths archive_ok_def PUBLIC_V2_MAX_BYTES_def)
  have len: "22 \<le> length bs" "length bs \<le> PUBLIC_V2_MAX_BYTES" "length bs - EOCD_BYTES = n + 234"
    using a by (simp_all add: part_lengths archive_ok_def EOCD_BYTES_def nn)
  have ch: "chunk bs 0 (local_part i)" "chunk bs n (central_part i)" "chunk bs (n + 234) (end_record 3 234 n)"
    using a chunk_middle [of "[]" "local_part i"] chunk_middle [of "local_part i" "central_part i"]
      chunk_middle [of "local_part i @ central_part i" _ "[]"]
    by (simp_all add: archive_bytes_def n_def part_lengths(2))
  let ?meta = "\<lambda>name b off. \<lparr>pm_crc32 = crc32 b, pm_local_offset = off, pm_name = name, pm_name_bytes = utf8_encode name,
      pm_size = length b\<rparr>"
  let ?cp = "?meta PROVISIONED_NAME (pa_provisioned i) 0"
  let ?ca = "?meta ACTIVATED_NAME (pa_activated i) (63 + length (pa_provisioned i))"
  let ?cc = "?meta CLOSURE_NAME (pa_closure i) (126 + length (pa_provisioned i) + length (pa_activated i))"
  have ok: "central_ok PROVISIONED_NAME ?cp" "central_ok ACTIVATED_NAME ?ca" "central_ok CLOSURE_NAME ?cc"
    and le: "pm_size ?cp + pm_size ?ca + pm_size ?cc \<le> PUBLIC_V2_MAX_BYTES"
    using a crc32_less by (simp_all add: central_ok_def archive_ok_def PUBLIC_V2_MAX_BYTES_def)
  have c: "parse_central bs n 234 = Inr [?cp, ?ca, ?cc]"
    unfolding parse_central_iff using ok le ch(2)
    by (simp add: central_of_def central_part_def central_entry_def)
  have l: "parse_locals bs [?cp, ?ca, ?cc] n = Inr [\<lparr>zm_bytes = pa_provisioned i, zm_name = PROVISIONED_NAME\<rparr>,
         \<lparr>zm_bytes = pa_activated i, zm_name = ACTIVATED_NAME\<rparr>, \<lparr>zm_bytes = pa_closure i, zm_name = CLOSURE_NAME\<rparr>]"
    unfolding parse_locals_iff [OF ok le] using ch(1) nn by (simp add: local_part_def)
  have er: "require_u32 bs (n + 234) EOCD_SIGNATURE code = Inr ()" "require_u16 bs (n + 234 + 4) 0 code = Inr ()"
    "require_u16 bs (n + 234 + 6) 0 code = Inr ()" "require_u16 bs (n + 234 + 8) 3 code = Inr ()"
    "require_u16 bs (n + 234 + 10) 3 code = Inr ()" "get_u32 bs (n + 234 + 12) = Inr 234"
    "get_u32 bs (n + 234 + 16) = Inr n" "require_u16 bs (n + 234 + 20) 0 code = Inr ()" for code
    using ch(3) nn(2)
    by (simp_all add: require_u32_iff require_u16_iff get_u32_iff end_record_def chunk_append zip_constants ac_simps
        del: add_2_eq_Suc')
  show "parse_public_zip bs = Inr i"
    using len a er c l
    by (simp add: parse_public_zip_def Let_def EOCD_BYTES_def archive_ok_def require_member_def
        candidate_assert_def)
qed

section \<open>What the builder writes\<close>

text \<open>A buffer of \<open>n\<close> bytes whose front \<open>p\<close> is written and whose rest is still zero.\<close>

definition filled :: "nat \<Rightarrow> bytes \<Rightarrow> bytes" where
  "filled n p = p @ replicate (n - length p) 0"

lemma put_filled:
  "off = length p \<Longrightarrow> length p + length w \<le> n \<Longrightarrow> put_bytes (filled n p) off w = Inr (filled n (p @ w))"
  by (simp add: put_bytes_def filled_def)

lemma filled_whole: "length p = n \<Longrightarrow> filled n p = p"
  by (simp add: filled_def)

lemma filled_empty: "replicate n 0 = filled n []"
  by (simp add: filled_def)

lemma write_local_filled:
  assumes "length p + 30 + length (mm_name_bytes m) + length (mm_bytes m) \<le> n" and "mm_crc32 m = crc32 (mm_bytes m)"
    and "off = length p"
  shows "write_local (filled n p) off m = Inr (filled n (p @ local_record (mm_name_bytes m) (mm_bytes m)),
     length p + length (local_record (mm_name_bytes m) (mm_bytes m)))"
  using assms(1)
  by (simp add: assms(2,3) write_local_def write_common_header_def set_u16_def set_u32_def put_filled Let_def
      LOCAL_HEADER_BYTES_def local_record_def common_bytes_def)

lemma write_central_filled:
  assumes "length p + 46 + length (mm_name_bytes m) \<le> n" and "off = length p"
  shows "write_central (filled n p) off m =
     Inr (filled n (p @ central_record (mm_name_bytes m) (mm_crc32 m) (length (mm_bytes m)) (mm_local_offset m)),
       length p + length (central_record (mm_name_bytes m) (mm_crc32 m) (length (mm_bytes m)) (mm_local_offset m)))"
  using assms(1)
  by (simp add: assms(2) write_central_def write_common_header_def set_u16_def set_u32_def put_filled
      CENTRAL_HEADER_BYTES_def central_record_def common_bytes_def)

lemma write_eocd_filled:
  assumes "length p + 22 \<le> n" and "off = length p"
  shows "write_eocd (filled n p) off count len start = Inr (filled n (p @ end_record count len start))"
  using assms(1)
  by (simp add: assms(2) write_eocd_def set_u16_def set_u32_def put_filled end_record_def)

lemma snapshot_zip_members_iff:
  "snapshot_zip_members i = Inr ms \<longleftrightarrow>
     ms = [\<lparr>zm_bytes = pa_provisioned i, zm_name = PROVISIONED_NAME\<rparr>,
        \<lparr>zm_bytes = pa_activated i, zm_name = ACTIVATED_NAME\<rparr>, \<lparr>zm_bytes = pa_closure i, zm_name = CLOSURE_NAME\<rparr>] \<and>
     1 \<le> length (pa_provisioned i) \<and> 1 \<le> length (pa_activated i) \<and> 1 \<le> length (pa_closure i) \<and>
     length (pa_provisioned i) + length (pa_activated i) + length (pa_closure i) \<le> PUBLIC_V2_MAX_BYTES"
  by (auto simp: snapshot_zip_members_def Let_def bind_r_eq_Inr candidate_assert_eq_Inr)

lemma build_public_zip_iff: "build_public_zip i = Inr bs \<longleftrightarrow> archive_ok i \<and> bs = archive_bytes i"
proof -
  let ?ms = "[\<lparr>zm_bytes = pa_provisioned i, zm_name = PROVISIONED_NAME\<rparr>,
        \<lparr>zm_bytes = pa_activated i, zm_name = ACTIVATED_NAME\<rparr>, \<lparr>zm_bytes = pa_closure i, zm_name = CLOSURE_NAME\<rparr>]"
  let ?meta = "\<lambda>name b off. \<lparr>mm_bytes = b, mm_crc32 = crc32 b, mm_local_offset = off, mm_name_bytes = utf8_encode name\<rparr>"
  let ?cp = "?meta PROVISIONED_NAME (pa_provisioned i) 0"
  let ?ca = "?meta ACTIVATED_NAME (pa_activated i) (63 + length (pa_provisioned i))"
  let ?cc = "?meta CLOSURE_NAME (pa_closure i) (126 + length (pa_provisioned i) + length (pa_activated i))"
  define n where "n = length (local_part i)"
  have n: "n = 186 + length (pa_provisioned i) + length (pa_activated i) + length (pa_closure i)"
    by (simp add: n_def part_lengths)
  have plan: "plan_members 0 ?ms = Inr ([?cp, ?ca, ?cc], n)"
    by (simp add: encode_name_def candidate_assert_def member_names name_bytes_length LOCAL_HEADER_BYTES_def n)
  have central: "sum_list (map (\<lambda>m. CENTRAL_HEADER_BYTES + length (mm_name_bytes m)) [?cp, ?ca, ?cc]) = 234"
    by (simp add: CENTRAL_HEADER_BYTES_def name_bytes_length)
  have w1: "write_all write_local (replicate (n + 234 + 22) 0) 0 [?cp, ?ca, ?cc] = Inr (filled (n + 256) (local_part i), n)"
    by (simp add: filled_empty write_local_filled name_bytes_length n local_part_def local_of_def)
  have w2: "write_all write_central (filled (n + 256) (local_part i)) n [?cp, ?ca, ?cc] =
      Inr (filled (n + 256) (local_part i @ central_part i), n + 234)"
    by (simp add: write_central_filled name_bytes_length n_def central_part_def central_entry_def)
  have w3: "write_eocd (filled (n + 256) (local_part i @ central_part i)) (n + 234) 3 234 n = Inr (archive_bytes i)"
    by (simp add: write_eocd_filled part_lengths(2) n_def [symmetric] archive_bytes_def)
      (simp add: n_def filled_whole part_lengths(2))
  show ?thesis
  proof (cases "archive_ok i")
    case True
    then have s: "snapshot_zip_members i = Inr ?ms" "sum_list (map (\<lambda>m. length (zm_bytes m)) ?ms) \<le> PUBLIC_V2_MAX_BYTES"
      "n + 234 + 22 \<le> PUBLIC_V2_MAX_BYTES" "length ?ms = 3"
      by (simp_all add: snapshot_zip_members_iff archive_ok_def n)
    have "build_public_zip i = Inr (archive_bytes i)"
      by (simp only: build_public_zip_def s(1) bind_r.simps s(2) candidate_assert_True plan prod.case Let_def central
          EOCD_BYTES_def s(3,4) w1 w2 w3 simp_thms)
    with True show ?thesis by auto
  next
    case False
    have "build_public_zip i \<noteq> Inr bs"
    proof
      assume "build_public_zip i = Inr bs"
      note b = this [unfolded build_public_zip_def]
      from b obtain ms where ms: "snapshot_zip_members i = Inr ms" by (elim bind_r_InrE)
      have s: "ms = ?ms" "1 \<le> length (pa_provisioned i)" "1 \<le> length (pa_activated i)" "1 \<le> length (pa_closure i)"
        using ms by (simp_all add: snapshot_zip_members_iff)
      have "n + 234 + 22 \<le> PUBLIC_V2_MAX_BYTES"
        using b unfolding ms s(1) plan bind_r.simps prod.case Let_def central EOCD_BYTES_def
        by (elim bind_r_InrE) (simp only: candidate_assert_eq_Inr)
      with s False show False by (simp add: archive_ok_def n)
    qed
    with False show ?thesis by simp
  qed
qed

section \<open>Properties\<close>

text \<open>C28: The public archive has exactly one byte form: a byte string parses as the archive of three members
  exactly when it is what the builder produces for them. So the parser inverts the builder, the bytes
  are determined by the members, and any other archive is refused.\<close>

theorem public_zip_is_exact: "parse_public_zip bs = Inr i \<longleftrightarrow> build_public_zip i = Inr bs"
  unfolding parse_public_zip_iff build_public_zip_iff ..

text \<open>The builder succeeds exactly on three non-empty members whose archive, 442 bytes of headers
  included, is within 65,536 bytes; no write leaves the buffer and no offset check ever fails.\<close>

theorem public_zip_is_built_exactly_within_bounds:
  "(\<exists>bs. build_public_zip i = Inr bs) \<longleftrightarrow>
     1 \<le> length (pa_provisioned i) \<and> 1 \<le> length (pa_activated i) \<and> 1 \<le> length (pa_closure i) \<and>
     length (pa_provisioned i) + length (pa_activated i) + length (pa_closure i) + 442 \<le> 65536"
  by (auto simp: build_public_zip_iff archive_ok_def PUBLIC_V2_MAX_BYTES_def)

text \<open>The published check value of CRC-32 for the one-byte message \<open>a\<close>.\<close>

lemma crc32_check: "crc32 [0x61] = 0xE8B7BE43"
proof -
  have f: "(crc_bit ^^ 8) c = crc_bit (crc_bit (crc_bit (crc_bit (crc_bit (crc_bit (crc_bit (crc_bit c)))))))" for c
    by (simp add: eval_nat_numeral)
  show ?thesis by (simp add: crc32_def crc_byte_def f) (simp add: crc_bit_def)
qed

end
