(* ===== verification/PublicCanonical.thy ===== *)
theory PublicCanonical imports PublicZipExact begin

text \<open>
  The canonical JSON of the public-v2 codecs (\<open>candidate-public-v2/canonical.ts\<close>, \<open>bytes.ts\<close> and
  \<open>identity.ts\<close>): one pass that charges every fragment against a byte budget before appending it, the
  byte parser that accepts nothing but its output, and the identifiers taken of it. A \<open>json\<close> value is
  plain data, so the descriptor and prototype checks, which only reject values that are not, pass.
\<close>

section \<open>The budget\<close>

definition PUBLIC_MAX_DEPTH :: nat where "PUBLIC_MAX_DEPTH = 32"
definition PUBLIC_MAX_NODES :: int where "PUBLIC_MAX_NODES = 100000"
definition PUBLIC_MAX_MAPPING_ENTRIES :: nat where "PUBLIC_MAX_MAPPING_ENTRIES = 1024"
definition PUBLIC_MAX_SEQUENCE_ITEMS :: nat where "PUBLIC_MAX_SEQUENCE_ITEMS = 4096"
definition PUBLIC_MAX_KEY_BYTES :: nat where "PUBLIC_MAX_KEY_BYTES = 128"
definition PUBLIC_MAX_STRING_BYTES :: nat where "PUBLIC_MAX_STRING_BYTES = 1048576"
definition PRIVATE_NONCE_BYTES :: nat where "PRIVATE_NONCE_BYTES = 32"

record encoding_budget =
  eb_bytes :: nat
  eb_nodes :: int

definition charge :: "nat \<Rightarrow> encoding_budget \<Rightarrow> encoding_budget result" where
  "charge n b =
     (let b' = b\<lparr>eb_bytes := eb_bytes b + n\<rparr> in
      bind_r (candidate_assert (eb_bytes b' \<le> PUBLIC_V2_MAX_BYTES) ''PUBLIC_V2_CANONICAL_SIZE_INVALID'') (\<lambda>_. Inr b'))"

definition append_ascii :: "js_string \<Rightarrow> encoding_budget \<Rightarrow> (js_string \<times> encoding_budget) result" where
  "append_ascii s b = bind_r (charge (length s) b) (\<lambda>b'. Inr (s, b'))"

section \<open>Strings\<close>

definition escaped_code_unit :: "code_unit \<Rightarrow> js_string option" where
  "escaped_code_unit c =
     (if c = 0x22 then Some [0x5C, 0x22] else if c = 0x5C then Some [0x5C, 0x5C]
      else if c = 0x08 then Some [0x5C, 0x62] else if c = 0x09 then Some [0x5C, 0x74]
      else if c = 0x0A then Some [0x5C, 0x6E] else if c = 0x0C then Some [0x5C, 0x66]
      else if c = 0x0D then Some [0x5C, 0x72]
      else if c \<le> 0x1F then Some ([0x5C, 0x75, 0x30, 0x30] @ [hex_digit (unat c div 16), hex_digit (unat c mod 16)])
      else None)"

definition utf8_unit_bytes :: "code_unit \<Rightarrow> nat" where
  "utf8_unit_bytes c = (if c \<le> 0x7F then 1 else if c \<le> 0x7FF then 2 else 3)"

text \<open>
  The loop of \<open>encodeString\<close> from some index on, with \<open>rawBytes\<close> so far; past the end \<open>charCodeAt\<close> is \<open>NaN\<close>,
  so a high surrogate at the end fails the assertion.
\<close>

fun encode_units :: "nat \<Rightarrow> js_string \<Rightarrow> encoding_budget \<Rightarrow> (js_string \<times> encoding_budget) result" where
  "encode_units raw [] b = Inr ([], b)"
| "encode_units raw (c # cs) b =
     (if is_high c
      then (case cs of
              [] \<Rightarrow> Inl (Candidate (js ''PUBLIC_V2_CANONICAL_SURROGATE_INVALID''))
            | d # ds \<Rightarrow>
                bind_r (candidate_assert (is_low d) ''PUBLIC_V2_CANONICAL_SURROGATE_INVALID'') (\<lambda>_.
                bind_r (charge 4 b) (\<lambda>b1.
                bind_r (candidate_assert (raw + 4 \<le> PUBLIC_MAX_STRING_BYTES) ''PUBLIC_V2_CANONICAL_STRING_TOO_LARGE'') (\<lambda>_.
                bind_r (encode_units (raw + 4) ds b1) (\<lambda>(t, b2). Inr (c # d # t, b2))))))
      else
        bind_r (candidate_assert (\<not> is_low c) ''PUBLIC_V2_CANONICAL_SURROGATE_INVALID'') (\<lambda>_.
        let n = utf8_unit_bytes c in
        bind_r (case escaped_code_unit c of
                  None \<Rightarrow> bind_r (charge n b) (\<lambda>b1. Inr ([c], b1))
                | Some e \<Rightarrow> append_ascii e b) (\<lambda>(part, b1).
        bind_r (candidate_assert (raw + n \<le> PUBLIC_MAX_STRING_BYTES) ''PUBLIC_V2_CANONICAL_STRING_TOO_LARGE'') (\<lambda>_.
        bind_r (encode_units (raw + n) cs b1) (\<lambda>(t, b2). Inr (part @ t, b2))))))"

definition encode_string :: "js_string \<Rightarrow> encoding_budget \<Rightarrow> (js_string \<times> encoding_budget) result" where
  "encode_string s b =
     bind_r (append_ascii [0x22] b) (\<lambda>(q, b1).
     bind_r (encode_units 0 s b1) (\<lambda>(t, b2).
     bind_r (append_ascii [0x22] b2) (\<lambda>(q', b3). Inr (q @ t @ q', b3))))"

section \<open>Values\<close>

definition assert_ascii_key :: "js_string \<Rightarrow> unit result" where
  "assert_ascii_key key =
     bind_r (candidate_assert (0 < length key \<and> length key \<le> PUBLIC_MAX_KEY_BYTES) ''PUBLIC_V2_CANONICAL_KEY_INVALID'') (\<lambda>_.
       candidate_assert (ascii key) ''PUBLIC_V2_CANONICAL_KEY_INVALID'')"

definition assert_plain_object :: "json \<Rightarrow> string \<Rightarrow> (js_string \<times> json) list result" where
  "assert_plain_object v code =
     (case v of
        JObj kvs \<Rightarrow>
          bind_r (candidate_assert (length kvs \<le> PUBLIC_MAX_MAPPING_ENTRIES) ''PUBLIC_V2_CANONICAL_OBJECT_TOO_LARGE'') (\<lambda>_. Inr kvs)
      | _ \<Rightarrow> Inl (Candidate (js code)))"

definition append_comma :: "bool \<Rightarrow> encoding_budget \<Rightarrow> (js_string \<times> encoding_budget) result" where
  "append_comma first b = (if first then Inr ([], b) else append_ascii [0x2C] b)"

text \<open>
  \<open>encodeValue\<close>, \<open>encodeArray\<close> and \<open>encodeObject\<close>; the budget is threaded in the order the code visits the
  parts. Every part is text, joined without a separator.
\<close>

function (sequential)
  encode_value :: "nat \<Rightarrow> json \<Rightarrow> encoding_budget \<Rightarrow> (js_string \<times> encoding_budget) result"
and encode_elements :: "nat \<Rightarrow> bool \<Rightarrow> json list \<Rightarrow> encoding_budget \<Rightarrow> (js_string \<times> encoding_budget) result"
and encode_entries :: "nat \<Rightarrow> bool \<Rightarrow> (js_string \<times> json) list \<Rightarrow> encoding_budget \<Rightarrow> (js_string \<times> encoding_budget) result"
where
  "encode_value depth v b0 =
     bind_r (candidate_assert (depth \<le> PUBLIC_MAX_DEPTH) ''PUBLIC_V2_CANONICAL_TOO_DEEP'') (\<lambda>_.
     let b = b0\<lparr>eb_nodes := eb_nodes b0 - 1\<rparr> in
     bind_r (candidate_assert (0 \<le> eb_nodes b) ''PUBLIC_V2_CANONICAL_TOO_COMPLEX'') (\<lambda>_.
       case v of
         JNull \<Rightarrow> append_ascii (js ''null'') b
       | JBool x \<Rightarrow> append_ascii (if x then js ''true'' else js ''false'') b
       | JStr s \<Rightarrow> encode_string s b
       | JNum n \<Rightarrow>
           bind_r (candidate_assert (is_safe_integer n) ''PUBLIC_V2_CANONICAL_NUMBER_INVALID'') (\<lambda>_.
             append_ascii (if n = JNegZero then [0x30] else int_text (number_int n)) b)
       | JArr xs \<Rightarrow>
           bind_r (candidate_assert (length xs \<le> PUBLIC_MAX_SEQUENCE_ITEMS) ''PUBLIC_V2_CANONICAL_ARRAY_TOO_LARGE'') (\<lambda>_.
           bind_r (append_ascii [0x5B] b) (\<lambda>(l, b1).
           bind_r (encode_elements (depth + 1) True xs b1) (\<lambda>(t, b2).
           bind_r (append_ascii [0x5D] b2) (\<lambda>(r, b3). Inr (l @ t @ r, b3)))))
       | JUndef \<Rightarrow> Inl (Candidate (js ''PUBLIC_V2_CANONICAL_TYPE_INVALID''))
       | JObj kvs \<Rightarrow>
           bind_r (candidate_assert (length kvs \<le> PUBLIC_MAX_MAPPING_ENTRIES) ''PUBLIC_V2_CANONICAL_OBJECT_TOO_LARGE'') (\<lambda>_.
           bind_r (append_ascii [0x7B] b) (\<lambda>(l, b1).
           bind_r (encode_entries (depth + 1) True (sort_key fst kvs) b1) (\<lambda>(t, b2).
           bind_r (append_ascii [0x7D] b2) (\<lambda>(r, b3). Inr (l @ t @ r, b3)))))))"
| "encode_elements depth first [] b = Inr ([], b)"
| "encode_elements depth first (x # xs) b =
     bind_r (append_comma first b) (\<lambda>(c, b1).
     bind_r (encode_value depth x b1) (\<lambda>(t, b2).
     bind_r (encode_elements depth False xs b2) (\<lambda>(ts, b3). Inr (c @ t @ ts, b3))))"
| "encode_entries depth first [] b = Inr ([], b)"
| "encode_entries depth first ((k, v) # kvs) b =
     bind_r (assert_ascii_key k) (\<lambda>_.
     bind_r (append_comma first b) (\<lambda>(c, b1).
     bind_r (encode_string k b1) (\<lambda>(q, b2).
     bind_r (append_ascii [0x3A] b2) (\<lambda>(colon, b3).
     bind_r (encode_value depth v b3) (\<lambda>(t, b4).
     bind_r (encode_entries depth False kvs b4) (\<lambda>(ts, b5). Inr (c @ q @ colon @ t @ ts, b5)))))))"
  by pat_completeness auto
termination
  by (relation "measure (case_sum (\<lambda>(_, v, _). 2 * size v)
       (case_sum (\<lambda>(_, _, xs, _). 2 * size_list size xs + 1)
         (\<lambda>(_, _, kvs, _). 2 * size_list (size_prod (\<lambda>_. 0) size) kvs + 1)))") (auto simp: size_list_sort_key)

declare encode_value.simps [simp del]

definition rethrow_candidate :: "'a result \<Rightarrow> 'a result" where
  "rethrow_candidate r =
     (case r of
        Inl e \<Rightarrow> Inl (case e of Candidate c \<Rightarrow> e | _ \<Rightarrow> Candidate (js ''PUBLIC_V2_CANONICAL_OBJECT_INVALID''))
      | Inr x \<Rightarrow> Inr x)"

definition canonical_public_v2 :: "json \<Rightarrow> js_string result" where
  "canonical_public_v2 v =
     rethrow_candidate (
       bind_r (assert_plain_object v ''PUBLIC_V2_CANONICAL_ROOT_INVALID'') (\<lambda>_.
       bind_r (encode_value 0 v \<lparr>eb_bytes = 0, eb_nodes = PUBLIC_MAX_NODES\<rparr>) (\<lambda>(encoded, b).
       bind_r (candidate_assert (1 \<le> eb_bytes b) ''PUBLIC_V2_CANONICAL_SIZE_INVALID'') (\<lambda>_. Inr encoded))))"

definition canonical_public_v2_bytes :: "json \<Rightarrow> bytes result" where
  "canonical_public_v2_bytes v =
     bind_r (canonical_public_v2 v) (\<lambda>t.
     bind_r (candidate_assert (length (utf8_encode t) \<le> PUBLIC_V2_MAX_BYTES) ''PUBLIC_V2_CANONICAL_SIZE_INVALID'') (\<lambda>_.
       Inr (utf8_encode t)))"

section \<open>Parsing\<close>

definition parse_canonical_public_v2 :: "(js_string \<Rightarrow> js_number) \<Rightarrow> bytes \<Rightarrow> json result" where
  "parse_canonical_public_v2 decimal bs =
     bind_r (candidate_assert (1 \<le> length bs \<and> length bs \<le> PUBLIC_V2_MAX_BYTES) ''PUBLIC_V2_RAW_SIZE_INVALID'') (\<lambda>_.
     bind_r (candidate_assert (take 3 bs \<noteq> BOM) ''PUBLIC_V2_BOM_INVALID'') (\<lambda>_.
     bind_r (case text_decode bs of None \<Rightarrow> Inl (Candidate (js ''PUBLIC_V2_UTF8_INVALID'')) | Some t \<Rightarrow> Inr t) (\<lambda>t.
     bind_r (case json_parse decimal t of Inl _ \<Rightarrow> Inl (Candidate (js ''PUBLIC_V2_JSON_INVALID'')) | Inr v \<Rightarrow> Inr v) (\<lambda>v.
     bind_r (assert_plain_object v ''PUBLIC_V2_CANONICAL_ROOT_INVALID'') (\<lambda>_.
     bind_r (canonical_public_v2_bytes v) (\<lambda>cs.
     bind_r (candidate_assert (cs = bs) ''PUBLIC_V2_NOT_CANONICAL'') (\<lambda>_. Inr v)))))))"

definition canonical_public_v2_snapshot :: "(js_string \<Rightarrow> js_number) \<Rightarrow> json \<Rightarrow> json result" where
  "canonical_public_v2_snapshot decimal v =
     bind_r (canonical_public_v2_bytes v) (parse_canonical_public_v2 decimal)"

section \<open>Byte snapshots and identifiers\<close>

definition copy_public_v2_bytes :: "bytes \<Rightarrow> string \<Rightarrow> bytes result" where
  "copy_public_v2_bytes bs code =
     bind_r (candidate_assert (1 \<le> length bs \<and> length bs \<le> PUBLIC_V2_MAX_BYTES) code) (\<lambda>_. Inr bs)"

definition copy_private_nonce :: "bytes \<Rightarrow> bytes result" where
  "copy_private_nonce bs =
     bind_r (candidate_assert (length bs = PRIVATE_NONCE_BYTES) ''PUBLIC_V2_NONCE_INVALID'') (\<lambda>_. Inr bs)"

text \<open>\<open>/^[\x20-\x7e]{1,128}$/u\<close>\<close>

definition PUBLIC_DOMAIN :: regex where
  "PUBLIC_DOMAIN = Rep (Cls '' ~'') 1 128"

definition sha256_bytes :: "hash \<Rightarrow> bytes \<Rightarrow> bytes result" where
  "sha256_bytes sha bs =
     bind_r (copy_public_v2_bytes bs ''PUBLIC_V2_RAW_SIZE_INVALID'') (\<lambda>cs. Inr (sha cs))"

definition sha256_tagged :: "hash \<Rightarrow> bytes \<Rightarrow> js_string result" where
  "sha256_tagged sha bs = bind_r (sha256_bytes sha bs) (\<lambda>d. Inr (js ''sha256:'' @ hex_bytes d))"

definition raw_public_v2_digest :: "hash \<Rightarrow> json \<Rightarrow> js_string result" where
  "raw_public_v2_digest sha v = bind_r (canonical_public_v2_bytes v) (sha256_tagged sha)"

definition public_v2_id :: "hash \<Rightarrow> js_string \<Rightarrow> json \<Rightarrow> js_string result" where
  "public_v2_id sha domain payload =
     bind_r (candidate_assert (matches PUBLIC_DOMAIN domain \<and> 0 \<notin> set domain) ''PUBLIC_V2_DOMAIN_INVALID'') (\<lambda>_.
       raw_public_v2_digest sha (JObj [(js ''domain'', JStr domain), (js ''payload'', payload)]))"

definition require_digest :: "json \<Rightarrow> string \<Rightarrow> js_string result" where
  "require_digest v code =
     (case v of JStr s \<Rightarrow> if matches DIGEST s then Inr s else Inl (Candidate (js code))
      | _ \<Rightarrow> Inl (Candidate (js code)))"

section \<open>Agreement with the canonical form of the broker\<close>

lemma charge_eq_Inr [result_simps]:
  "charge n b = Inr b' \<longleftrightarrow> eb_bytes b + n \<le> PUBLIC_V2_MAX_BYTES \<and> b' = b\<lparr>eb_bytes := eb_bytes b + n\<rparr>"
  by (auto simp: charge_def Let_def result_simps)

lemma append_ascii_eq_Inr [result_simps]:
  "append_ascii s b = Inr (t, b') \<longleftrightarrow>
     t = s \<and> eb_bytes b + length s \<le> PUBLIC_V2_MAX_BYTES \<and> b' = b\<lparr>eb_bytes := eb_bytes b + length s\<rparr>"
  by (auto simp: append_ascii_def result_simps)

lemma code_points_append: "has_only_unicode_scalars s \<Longrightarrow> code_points (s @ t) = code_points s @ code_points t"
proof (induction s rule: has_only_unicode_scalars.induct)
  case (2 c cs)
  then show ?case by (cases "is_high c"; cases cs) (auto simp: code_points_cases)
qed simp

lemma utf8_encode_append: "has_only_unicode_scalars s \<Longrightarrow> utf8_encode (s @ t) = utf8_encode s @ utf8_encode t"
  by (simp add: utf8_encode_def code_points_append)

lemma utf8_encode_Nil [simp]: "utf8_encode [] = []"
  by (simp add: utf8_encode_def)

lemma utf8_ascii_Cons: "c \<le> 0x7F \<Longrightarrow> length (utf8_encode (c # s)) = Suc (length (utf8_encode s))"
  using utf8_encode_append [of "[c]" s] length_utf8_ascii [of "[c]"] ascii_scalars [of "[c]"] by simp

lemma utf8_pair: "is_high c \<Longrightarrow> is_low d \<Longrightarrow> length (utf8_encode (c # d # s)) = 4 + length (utf8_encode s)"
  using join_surrogates_bounds [of c d] by (simp add: utf8_encode_def code_points_cases utf8_of_def)

lemma utf8_unit: "\<not> is_high c \<Longrightarrow> \<not> is_low c \<Longrightarrow> length (utf8_encode (c # s)) = utf8_unit_bytes c + length (utf8_encode s)"
  using unat_unit_less [of c]
  by (auto simp: utf8_encode_def code_points_cases utf8_of_def utf8_unit_bytes_def word_le_nat_alt)

lemma quote_unit_escaped:
  "quote_unit c = (case escaped_code_unit c of None \<Rightarrow> [c] | Some e \<Rightarrow> e)"
proof -
  have "escape_unit c = [0x5C, 0x75, 0x30, 0x30, hex_digit (unat c div 16), hex_digit (unat c mod 16)]" if "unat c < 32"
    using that by (simp add: escape_unit_def Let_def hex_digit_def)
  then show ?thesis
    by (auto simp: quote_unit_def escaped_code_unit_def word_le_nat_alt word_less_nat_alt)
qed

lemma escaped_lengths:
  "escaped_code_unit c = Some e \<Longrightarrow> ascii e \<and> utf8_unit_bytes c = 1"
proof -
  assume e: "escaped_code_unit c = Some e"
  then have "c \<le> 0x7F"
    by (auto simp: escaped_code_unit_def word_le_nat_alt split: if_splits)
  moreover have "quote_unit c = e" by (simp add: quote_unit_escaped e)
  ultimately show ?thesis using ascii_quote_unit [of c] by (simp add: utf8_unit_bytes_def)
qed


abbreviation (input) spend :: "js_string \<Rightarrow> encoding_budget \<Rightarrow> encoding_budget" where
  "spend t b \<equiv> b\<lparr>eb_bytes := eb_bytes b + length (utf8_encode t)\<rparr>"

lemma encode_units_iff:
  assumes "raw \<le> PUBLIC_MAX_STRING_BYTES" and "eb_bytes b \<le> PUBLIC_V2_MAX_BYTES"
  shows "encode_units raw s b = Inr (t, b') \<longleftrightarrow>
     has_only_unicode_scalars s \<and> raw + length (utf8_encode s) \<le> PUBLIC_MAX_STRING_BYTES \<and>
     t = quote_body s \<and> eb_bytes b + length (utf8_encode t) \<le> PUBLIC_V2_MAX_BYTES \<and> b' = spend t b"
  using assms
proof (induction raw s b arbitrary: t b' rule: encode_units.induct)
  case (2 raw c cs b)
  show ?case
  proof (cases "is_high c")
    case True
    show ?thesis
    proof (cases cs)
      case Nil
      with True show ?thesis by simp
    next
      case (Cons d ds)
      show ?thesis
      proof (cases "is_low d \<and> eb_bytes b + 4 \<le> PUBLIC_V2_MAX_BYTES \<and> raw + 4 \<le> PUBLIC_MAX_STRING_BYTES")
        case ok: True
        have IH: "encode_units (raw + 4) ds (b\<lparr>eb_bytes := eb_bytes b + 4\<rparr>) = Inr (u, b2) \<longleftrightarrow>
            has_only_unicode_scalars ds \<and> raw + 4 + length (utf8_encode ds) \<le> PUBLIC_MAX_STRING_BYTES \<and>
            u = quote_body ds \<and> eb_bytes b + 4 + length (utf8_encode u) \<le> PUBLIC_V2_MAX_BYTES \<and>
            b2 = b\<lparr>eb_bytes := eb_bytes b + 4 + length (utf8_encode u)\<rparr>" for u b2
          using 2(1) [OF True Cons, of "b\<lparr>eb_bytes := eb_bytes b + 4\<rparr>" u b2] ok
          by (simp add: result_simps)
        have "encode_units raw (c # cs) b = Inr (t, b') \<longleftrightarrow>
            (\<exists>u. t = c # d # u \<and> encode_units (raw + 4) ds (b\<lparr>eb_bytes := eb_bytes b + 4\<rparr>) = Inr (u, b'))"
          using True Cons ok by (auto simp: result_simps)
        with True Cons ok show ?thesis by (auto simp: IH utf8_pair)
      next
        case False
        with True Cons show ?thesis by (auto simp: result_simps utf8_pair)
      qed
    qed
  next
    case high: False
    show ?thesis
    proof (cases "is_low c")
      case True
      with high show ?thesis by (simp add: candidate_assert_def)
    next
      case False
      obtain part where part: "part = quote_unit c" by simp
      have pl: "length (utf8_encode (part @ u)) = length (utf8_encode part) + length (utf8_encode u)" for u
        unfolding part using scalars_quote_unit [of c] high False by (simp add: utf8_encode_append)
      let ?b = "b\<lparr>eb_bytes := eb_bytes b + length (utf8_encode part)\<rparr>"
      have step: "(case escaped_code_unit c of
              None \<Rightarrow> bind_r (charge (utf8_unit_bytes c) b) (\<lambda>b1. Inr ([c], b1))
            | Some e \<Rightarrow> append_ascii e b) = Inr (p, b1) \<longleftrightarrow>
          p = part \<and> eb_bytes b + length (utf8_encode part) \<le> PUBLIC_V2_MAX_BYTES \<and> b1 = ?b" for p b1
        using utf8_unit [OF high False, of "[]"] unfolding part quote_unit_escaped
        by (auto simp: result_simps length_utf8_ascii dest: escaped_lengths split: option.splits)
      show ?thesis
      proof (cases "eb_bytes b + length (utf8_encode part) \<le> PUBLIC_V2_MAX_BYTES \<and>
          raw + utf8_unit_bytes c \<le> PUBLIC_MAX_STRING_BYTES")
        case ok: True
        have IH: "encode_units (raw + utf8_unit_bytes c) cs ?b = Inr (u, b2) \<longleftrightarrow>
            has_only_unicode_scalars cs \<and> raw + utf8_unit_bytes c + length (utf8_encode cs) \<le> PUBLIC_MAX_STRING_BYTES \<and>
            u = quote_body cs \<and> eb_bytes b + length (utf8_encode part) + length (utf8_encode u) \<le> PUBLIC_V2_MAX_BYTES \<and>
            b2 = b\<lparr>eb_bytes := eb_bytes b + length (utf8_encode part) + length (utf8_encode u)\<rparr>" for u b2
          using 2(2) [OF high HOL.refl, of ?b u b2] ok
          by (simp add: result_simps)
        have "encode_units raw (c # cs) b = Inr (t, b') \<longleftrightarrow>
            (\<exists>u. t = part @ u \<and> encode_units (raw + utf8_unit_bytes c) cs ?b = Inr (u, b'))"
          using high False ok by (auto simp: result_simps step Let_def)
        moreover have "quote_body (c # cs) = part @ quote_body cs" using high False part by simp
        ultimately show ?thesis using high False ok by (simp only: IH) (auto simp: utf8_unit pl pl [unfolded part])
      next
        case no: False
        have "quote_body (c # cs) = part @ quote_body cs" using high False part by simp
        with high False no show ?thesis by (auto simp: result_simps step Let_def utf8_unit pl pl [unfolded part])
      qed
    qed
  qed
qed auto

lemma encode_string_iff:
  assumes "eb_bytes b \<le> PUBLIC_V2_MAX_BYTES"
  shows "encode_string s b = Inr (t, b') \<longleftrightarrow>
     has_only_unicode_scalars s \<and> length (utf8_encode s) \<le> PUBLIC_MAX_STRING_BYTES \<and>
     t = json_quote s \<and> eb_bytes b + length (utf8_encode t) \<le> PUBLIC_V2_MAX_BYTES \<and> b' = spend t b"
proof (cases "eb_bytes b + 1 \<le> PUBLIC_V2_MAX_BYTES")
  case True
  have q: "length (utf8_encode (json_quote s)) = 2 + length (utf8_encode (quote_body s))"
    if "has_only_unicode_scalars s"
    using scalars_quote_body [OF that] length_utf8_ascii [of "[0x22]"]
    by (simp add: json_quote_def utf8_ascii_Cons utf8_encode_append)
  have "encode_string s b = Inr (t, b') \<longleftrightarrow>
      (\<exists>u b2. encode_units 0 s (b\<lparr>eb_bytes := eb_bytes b + 1\<rparr>) = Inr (u, b2) \<and>
        t = 0x22 # u @ [0x22] \<and> eb_bytes b2 + 1 \<le> PUBLIC_V2_MAX_BYTES \<and> b' = b2\<lparr>eb_bytes := eb_bytes b2 + 1\<rparr>)"
    using True by (auto simp: encode_string_def result_simps)
  also have "\<dots> \<longleftrightarrow> has_only_unicode_scalars s \<and> length (utf8_encode s) \<le> PUBLIC_MAX_STRING_BYTES \<and>
     t = json_quote s \<and> eb_bytes b + length (utf8_encode t) \<le> PUBLIC_V2_MAX_BYTES \<and> b' = spend t b"
    using True q by (auto simp: encode_units_iff json_quote_def)
  finally show ?thesis .
next
  case False
  have "1 \<le> length (utf8_encode (json_quote s))" by (simp add: json_quote_def utf8_ascii_Cons)
  with False show ?thesis by (auto simp: encode_string_def result_simps)
qed

lemma assert_ascii_key_iff: "assert_ascii_key k = Inr u \<longleftrightarrow> is_bounded_ascii k MAX_KEY_BYTES"
  by (auto simp: assert_ascii_key_def result_simps is_bounded_ascii_def PUBLIC_MAX_KEY_BYTES_def MAX_KEY_BYTES_def)

text \<open>What follows the first element: every text with a comma before it.\<close>

definition separated :: "bool \<Rightarrow> js_string list \<Rightarrow> js_string" where
  "separated first ts = (if first then join [0x2C] ts else concat (map ((#) 0x2C) ts))"

lemma join_Cons: "join [0x2C] (t # ts) = t @ concat (map ((#) 0x2C) ts)"
  by (induction ts arbitrary: t) simp_all

lemma separated_Nil [simp]: "separated first [] = []"
  by (simp add: separated_def)

lemma separated_Cons: "separated first (t # ts) = (if first then [] else [0x2C]) @ t @ separated False ts"
  by (simp add: separated_def join_Cons)

lemma append_comma_eq_Inr:
  "eb_bytes b \<le> PUBLIC_V2_MAX_BYTES \<Longrightarrow> append_comma first b = Inr (c, b') \<longleftrightarrow>
     c = (if first then [] else [0x2C]) \<and> eb_bytes b + length c \<le> PUBLIC_V2_MAX_BYTES \<and>
     b' = b\<lparr>eb_bytes := eb_bytes b + length c\<rparr>"
  by (cases b) (auto simp: append_comma_def result_simps)

abbreviation (input) budget :: "nat \<Rightarrow> int \<Rightarrow> encoding_budget" where
  "budget k n \<equiv> \<lparr>eb_bytes = k, eb_nodes = n\<rparr>"

lemma wrapped_eq_Inr:
  "bind_r (append_ascii [l] (budget k n)) (\<lambda>(l, b1). bind_r (f b1) (\<lambda>(t, b2).
     bind_r (append_ascii [r] b2) (\<lambda>(r, b3). Inr (l @ t @ r, b3)))) = Inr (t, b') \<longleftrightarrow>
   k + 1 \<le> PUBLIC_V2_MAX_BYTES \<and>
   (\<exists>u b2. f (budget (k + 1) n) = Inr (u, b2) \<and> eb_bytes b2 + 1 \<le> PUBLIC_V2_MAX_BYTES \<and> t = l # u @ [r] \<and>
      b' = b2\<lparr>eb_bytes := eb_bytes b2 + 1\<rparr>)"
  by (auto simp: result_simps)

lemma length_utf8_wrapped:
  "l \<le> 0x7F \<Longrightarrow> r \<le> 0x7F \<Longrightarrow> has_only_unicode_scalars u \<Longrightarrow>
   length (utf8_encode (l # u @ [r])) = 2 + length (utf8_encode u)"
  using length_utf8_ascii [of "[r]"] by (simp add: utf8_ascii_Cons utf8_encode_append)

lemma scalars_separated: "\<forall>t \<in> set ts. has_only_unicode_scalars t \<Longrightarrow> has_only_unicode_scalars (separated first ts)"
proof (induction ts arbitrary: first)
  case (Cons t ts)
  then show ?case
    by (auto simp: separated_Cons scalars_ascii_Cons has_only_unicode_scalars_append
        simp del: has_only_unicode_scalars.simps(2))
qed simp

lemma length_utf8_separated:
  assumes "has_only_unicode_scalars t"
  shows "length (utf8_encode (separated first (t # ts))) =
     (if first then 0 else 1) + length (utf8_encode t) + length (utf8_encode (separated False ts))"
  using assms by (simp add: separated_Cons utf8_ascii_Cons utf8_encode_append)

lemma length_utf8_member:
  assumes "has_only_unicode_scalars k" and "has_only_unicode_scalars t"
  shows "length (utf8_encode (separated first ((json_quote k @ 0x3A # t) # ts))) =
     (if first then 0 else 1) + length (utf8_encode (json_quote k)) + 1 + length (utf8_encode t) +
     length (utf8_encode (separated False ts))"
  using assms by (simp add: length_utf8_separated has_only_unicode_scalars_append scalars_quote scalars_ascii_Cons
      utf8_encode_append utf8_ascii_Cons del: has_only_unicode_scalars.simps(2))

lemma encode_limits:
  "PUBLIC_MAX_DEPTH = MAX_DEPTH" "PUBLIC_MAX_SEQUENCE_ITEMS = MAX_SEQUENCE_ITEMS"
  "PUBLIC_MAX_MAPPING_ENTRIES = MAX_MAPPING_ENTRIES" "PUBLIC_MAX_STRING_BYTES = MAX_STRING_BYTES"
  "PUBLIC_MAX_NODES = MAX_NODES"
  by (simp_all add: PUBLIC_MAX_DEPTH_def MAX_DEPTH_def PUBLIC_MAX_SEQUENCE_ITEMS_def MAX_SEQUENCE_ITEMS_def
      PUBLIC_MAX_MAPPING_ENTRIES_def MAX_MAPPING_ENTRIES_def PUBLIC_MAX_STRING_BYTES_def MAX_STRING_BYTES_def
      PUBLIC_MAX_NODES_def MAX_NODES_def)

lemma append_word_iff:
  "ascii w \<Longrightarrow> append_ascii w (budget k n) = Inr (t, b') \<longleftrightarrow>
     t = w \<and> k + length (utf8_encode t) \<le> PUBLIC_V2_MAX_BYTES \<and> b' = budget (k + length (utf8_encode t)) n"
  by (auto simp: append_ascii_eq_Inr length_utf8_ascii)

lemma encode_string_budget:
  "k \<le> PUBLIC_V2_MAX_BYTES \<Longrightarrow> encode_string s (budget k n) = Inr (t, b') \<longleftrightarrow>
     has_only_unicode_scalars s \<and> length (utf8_encode s) \<le> MAX_STRING_BYTES \<and> t = json_quote s \<and>
     k + length (utf8_encode t) \<le> PUBLIC_V2_MAX_BYTES \<and> b' = budget (k + length (utf8_encode t)) n"
  by (simp add: encode_string_iff encode_limits)

lemma wrapped_texts:
  assumes "\<And>u b2. eb_bytes (budget (k + 1) n) \<le> PUBLIC_V2_MAX_BYTES \<Longrightarrow> enc = Inr (u, b2) \<longleftrightarrow>
      P \<and> (\<exists>ts n'. items = Inr (ts, n') \<and> u = separated True ts \<and>
        eb_bytes (budget (k + 1) n) + length (utf8_encode u) \<le> PUBLIC_V2_MAX_BYTES \<and>
        b2 = budget (eb_bytes (budget (k + 1) n) + length (utf8_encode u)) n')"
    and "\<And>ts n'. P \<Longrightarrow> items = Inr (ts, n') \<Longrightarrow> \<forall>u \<in> set ts. has_only_unicode_scalars u"
    and "l \<le> 0x7F" "r \<le> 0x7F"
  shows "k + 1 \<le> PUBLIC_V2_MAX_BYTES \<and> (\<exists>u b2. enc = Inr (u, b2) \<and> eb_bytes b2 + 1 \<le> PUBLIC_V2_MAX_BYTES \<and>
       t = l # u @ [r] \<and> b' = b2\<lparr>eb_bytes := eb_bytes b2 + 1\<rparr>) \<longleftrightarrow>
     P \<and> (\<exists>ts n'. items = Inr (ts, n') \<and> t = l # join [0x2C] ts @ [r] \<and>
       k + length (utf8_encode t) \<le> PUBLIC_V2_MAX_BYTES \<and> b' = budget (k + length (utf8_encode t)) n')"
proof (cases "k + 1 \<le> PUBLIC_V2_MAX_BYTES")
  case True
  have enc: "enc = Inr (u, b2) \<longleftrightarrow> P \<and> (\<exists>ts n'. items = Inr (ts, n') \<and> u = separated True ts \<and>
        k + 1 + length (utf8_encode u) \<le> PUBLIC_V2_MAX_BYTES \<and> b2 = budget (k + 1 + length (utf8_encode u)) n')" for u b2
    using assms(1) [of u b2] True by simp
  have len: "length (utf8_encode (l # join [0x2C] ts @ [r])) = 2 + length (utf8_encode (join [0x2C] ts))"
    if "P" "items = Inr (ts, n')" for ts n'
    by (intro length_utf8_wrapped assms(3,4) scalars_join assms(2) [OF that])
  show ?thesis unfolding enc using True by (auto simp: separated_def len)
next
  case False
  have "1 \<le> length (utf8_encode (l # s @ [r]))" for s using assms(3) by (simp add: utf8_ascii_Cons)
  then have "\<not> k + length (utf8_encode (l # join [0x2C] ts @ [r])) \<le> PUBLIC_V2_MAX_BYTES" for ts
    using False by (meson add_left_mono order_trans)
  with False show ?thesis by auto
qed

lemma encode_budget_iff:
  "eb_bytes b \<le> PUBLIC_V2_MAX_BYTES \<Longrightarrow> encode_value depth v b = Inr (t, b') \<longleftrightarrow>
     (\<exists>n'. encode_canonical depth v (eb_nodes b) = Inr (t, n') \<and>
        eb_bytes b + length (utf8_encode t) \<le> PUBLIC_V2_MAX_BYTES \<and>
        b' = budget (eb_bytes b + length (utf8_encode t)) n')"
  "eb_bytes b \<le> PUBLIC_V2_MAX_BYTES \<Longrightarrow> encode_elements depth first xs b = Inr (t, b') \<longleftrightarrow>
     (\<exists>ts n'. encode_items depth xs (eb_nodes b) = Inr (ts, n') \<and> t = separated first ts \<and>
        eb_bytes b + length (utf8_encode t) \<le> PUBLIC_V2_MAX_BYTES \<and>
        b' = budget (eb_bytes b + length (utf8_encode t)) n')"
  "eb_bytes b \<le> PUBLIC_V2_MAX_BYTES \<Longrightarrow> encode_entries depth first kvs b = Inr (t, b') \<longleftrightarrow>
     list_all (\<lambda>(k, _). is_bounded_ascii k MAX_KEY_BYTES) kvs \<and>
     (\<exists>ts n'. encode_members depth kvs (eb_nodes b) = Inr (ts, n') \<and> t = separated first ts \<and>
        eb_bytes b + length (utf8_encode t) \<le> PUBLIC_V2_MAX_BYTES \<and>
        b' = budget (eb_bytes b + length (utf8_encode t)) n')"
proof (induction depth v b and depth first xs b and depth first kvs b arbitrary: t b' and t b' and t b'
    rule: encode_value_encode_elements_encode_entries.induct)
  case (1 depth v b)
  obtain k n where b: "b = budget k n" by (cases b) auto
  have k: "k \<le> PUBLIC_V2_MAX_BYTES" using 1(3) b by simp
  show ?case
  proof (cases "depth \<le> MAX_DEPTH \<and> 0 \<le> n - 1")
    case False
    then show ?thesis
      by (auto simp: b encode_value.simps [of depth v] encode_canonical.simps [of depth v] result_simps encode_limits
          Let_def)
  next
    case True
    note unfold = b encode_value.simps [of depth v] encode_canonical.simps [of depth v] encode_limits Let_def
    have words: "ascii (js ''null'')" "ascii (js ''true'')" "ascii (js ''false'')" "ascii [0x30]" "ascii (int_text i)" for i
      by (simp_all add: ascii_int_text js_def)
    have num: "(if m = JNegZero then [0x30] else int_text (number_int m)) = int_text (number_int m)" for m
      by (simp add: number_int_def int_text_def dec.simps)
    show ?thesis
    proof (cases v)
      case (JArr xs)
      show ?thesis
      proof (cases "length xs \<le> MAX_SEQUENCE_ITEMS")
        case len: True
        have "encode_value depth v b = Inr (t, b') \<longleftrightarrow> k + 1 \<le> PUBLIC_V2_MAX_BYTES \<and>
            (\<exists>u b2. encode_elements (depth + 1) True xs (budget (k + 1) (n - 1)) = Inr (u, b2) \<and>
               eb_bytes b2 + 1 \<le> PUBLIC_V2_MAX_BYTES \<and> t = 0x5B # u @ [0x5D] \<and> b' = b2\<lparr>eb_bytes := eb_bytes b2 + 1\<rparr>)"
          using True len unfolding JArr by (simp add: b encode_value.simps [of depth "JArr xs"] encode_limits wrapped_eq_Inr)
        also have "\<dots> \<longleftrightarrow> (\<exists>ts n'. encode_items (depth + 1) xs (n - 1) = Inr (ts, n') \<and>
            t = 0x5B # join [0x2C] ts @ [0x5D] \<and> k + length (utf8_encode t) \<le> PUBLIC_V2_MAX_BYTES \<and>
            b' = budget (k + length (utf8_encode t)) n')"
          by (rule wrapped_texts [where P = True, unfolded simp_thms])
            (use 1(1) [OF HOL.refl JArr, of "budget (k + 1) (n - 1)"] in \<open>simp_all add: b encode_scalars(2)\<close>)
        also have "\<dots> \<longleftrightarrow> (\<exists>n'. encode_canonical depth v (eb_nodes b) = Inr (t, n') \<and>
            eb_bytes b + length (utf8_encode t) \<le> PUBLIC_V2_MAX_BYTES \<and>
            b' = budget (eb_bytes b + length (utf8_encode t)) n')"
          using True len unfolding JArr by (auto simp: b encode_canonical.simps [of depth "JArr xs"] result_simps)
        finally show ?thesis .
      next
        case False
        with True show ?thesis unfolding JArr
          by (simp add: b encode_value.simps [of depth "JArr xs"] encode_canonical.simps [of depth "JArr xs"] encode_limits candidate_assert_def)
      qed
    next
      case (JObj kvs)
      let ?kvs = "sort_key fst kvs"
      have sc: "\<forall>u \<in> set ts. has_only_unicode_scalars u"
        if "encode_members (depth + 1) ?kvs (n - 1) = Inr (ts, n')"
          "list_all (\<lambda>(k, _). is_bounded_ascii k MAX_KEY_BYTES) ?kvs" for ts n'
        using that(2) by (intro encode_scalars(3) [OF that(1)])
          (auto simp: list_all_iff simp del: set_sort intro: bounded_ascii_scalars)
      show ?thesis
      proof (cases "length kvs \<le> MAX_MAPPING_ENTRIES")
        case len: True
        have "encode_value depth v b = Inr (t, b') \<longleftrightarrow> k + 1 \<le> PUBLIC_V2_MAX_BYTES \<and>
            (\<exists>u b2. encode_entries (depth + 1) True ?kvs (budget (k + 1) (n - 1)) = Inr (u, b2) \<and>
               eb_bytes b2 + 1 \<le> PUBLIC_V2_MAX_BYTES \<and> t = 0x7B # u @ [0x7D] \<and> b' = b2\<lparr>eb_bytes := eb_bytes b2 + 1\<rparr>)"
          using True len unfolding JObj by (simp add: b encode_value.simps [of depth "JObj kvs"] encode_limits wrapped_eq_Inr)
        also have "\<dots> \<longleftrightarrow> list_all (\<lambda>(k, _). is_bounded_ascii k MAX_KEY_BYTES) ?kvs \<and>
            (\<exists>ts n'. encode_members (depth + 1) ?kvs (n - 1) = Inr (ts, n') \<and>
            t = 0x7B # join [0x2C] ts @ [0x7D] \<and> k + length (utf8_encode t) \<le> PUBLIC_V2_MAX_BYTES \<and>
            b' = budget (k + length (utf8_encode t)) n')"
          by (rule wrapped_texts)
            (use 1(2) [OF HOL.refl JObj, of "budget (k + 1) (n - 1)"] sc in \<open>simp_all add: b\<close>)
        also have "\<dots> \<longleftrightarrow> (\<exists>n'. encode_canonical depth v (eb_nodes b) = Inr (t, n') \<and>
            eb_bytes b + length (utf8_encode t) \<le> PUBLIC_V2_MAX_BYTES \<and>
            b' = budget (eb_bytes b + length (utf8_encode t)) n')"
          using True len unfolding JObj by (auto simp: b encode_canonical.simps [of depth "JObj kvs"] result_simps Let_def split: if_splits)
        finally show ?thesis .
      next
        case False
        with True show ?thesis unfolding JObj
          by (simp add: b encode_value.simps [of depth "JObj kvs"] encode_canonical.simps [of depth "JObj kvs"] encode_limits candidate_assert_def)
      qed
    qed (use True k words num in \<open>auto simp: b encode_value.simps encode_canonical.simps encode_limits
        result_simps append_word_iff encode_string_budget words [THEN length_utf8_ascii]\<close>)
  qed
next
  case (3 depth first x xs b)
  obtain k n where b: "b = budget k n" by (cases b) auto
  let ?c = "if first then [] else [0x2C :: code_unit]"
  let ?k = "k + (if first then 0 else 1)"
  show ?case
  proof (cases "?k \<le> PUBLIC_V2_MAX_BYTES")
    case True
    have c: "append_comma first b = Inr (c, b1) \<longleftrightarrow> c = ?c \<and> b1 = budget ?k n" for c b1
      using 3(3) True by (auto simp: b append_comma_eq_Inr)
    have "encode_elements depth first (x # xs) b = Inr (t, b') \<longleftrightarrow>
        (\<exists>u b2 w. encode_value depth x (budget ?k n) = Inr (u, b2) \<and>
           encode_elements depth False xs b2 = Inr (w, b') \<and> t = ?c @ u @ w)"
      by (auto simp: result_simps c)
    also have "\<dots> \<longleftrightarrow> (\<exists>u n2 w. encode_canonical depth x n = Inr (u, n2) \<and>
        ?k + length (utf8_encode u) \<le> PUBLIC_V2_MAX_BYTES \<and>
        encode_elements depth False xs (budget (?k + length (utf8_encode u)) n2) = Inr (w, b') \<and> t = ?c @ u @ w)"
      using 3(1) [of "budget ?k n"] True by auto
    also have "\<dots> \<longleftrightarrow> (\<exists>u n2 ts n'. encode_canonical depth x n = Inr (u, n2) \<and> encode_items depth xs n2 = Inr (ts, n') \<and>
        t = ?c @ u @ separated False ts \<and>
        ?k + length (utf8_encode u) + length (utf8_encode (separated False ts)) \<le> PUBLIC_V2_MAX_BYTES \<and>
        b' = budget (?k + length (utf8_encode u) + length (utf8_encode (separated False ts))) n')"
      using 3(2) [of "budget (?k + length (utf8_encode _)) _"] by fastforce
    also have "\<dots> \<longleftrightarrow> (\<exists>ts n'. encode_items depth (x # xs) (eb_nodes b) = Inr (ts, n') \<and> t = separated first ts \<and>
        eb_bytes b + length (utf8_encode t) \<le> PUBLIC_V2_MAX_BYTES \<and>
        b' = budget (eb_bytes b + length (utf8_encode t)) n')"
      by (auto simp: b result_simps length_utf8_separated encode_scalars(1) separated_Cons [symmetric] ac_simps)
    finally show ?thesis .
  next
    case False
    with 3(3) show ?thesis by (auto simp: b result_simps append_comma_eq_Inr length_utf8_separated encode_scalars(1))
  qed
next
  case (5 depth first key v kvs b)
  obtain k n where b: "b = budget k n" by (cases b) auto
  let ?c = "if first then [] else [0x2C :: code_unit]"
  let ?k = "k + (if first then 0 else 1)"
  let ?q = "?k + length (utf8_encode (json_quote key)) + 1"
  show ?case
  proof (cases "is_bounded_ascii key MAX_KEY_BYTES \<and> ?q \<le> PUBLIC_V2_MAX_BYTES")
    case True
    note key = True [THEN conjunct1]
    have sk: "has_only_unicode_scalars key" using bounded_ascii_scalars [OF key] .
    have short: "length (utf8_encode key) \<le> MAX_STRING_BYTES"
      using key by (simp add: is_bounded_ascii_def length_utf8_ascii MAX_KEY_BYTES_def MAX_STRING_BYTES_def)
    have c: "append_comma first b = Inr (c, b1) \<longleftrightarrow> c = ?c \<and> b1 = budget ?k n" for c b1
      using 5(3) True by (auto simp: b append_comma_eq_Inr)
    have q: "encode_string key (budget ?k n) = Inr (q, b2) \<longleftrightarrow>
        q = json_quote key \<and> b2 = budget (?k + length (utf8_encode (json_quote key))) n" for q b2
      using True sk short by (subst encode_string_budget) auto
    have colon: "append_ascii [0x3A] (budget (?k + length (utf8_encode (json_quote key))) n) = Inr (a, b3) \<longleftrightarrow>
        a = [0x3A] \<and> b3 = budget ?q n" for a b3
      using True by (auto simp: append_ascii_eq_Inr)
    have sep: "?c @ json_quote key @ 0x3A # u @ separated False ts = separated first ((json_quote key @ 0x3A # u) # ts)"
      for u ts by (simp add: separated_Cons)
    have "encode_entries depth first ((key, v) # kvs) b = Inr (t, b') \<longleftrightarrow>
        (\<exists>u b4 w. encode_value depth v (budget ?q n) = Inr (u, b4) \<and>
           encode_entries depth False kvs b4 = Inr (w, b') \<and> t = ?c @ json_quote key @ 0x3A # u @ w)"
      using key by (simp add: bind_r_eq_Inr c q colon assert_ascii_key_iff ex_simps [symmetric] del: ex_simps) blast
    also have "\<dots> \<longleftrightarrow> (\<exists>u n2 w. encode_canonical depth v n = Inr (u, n2) \<and>
        ?q + length (utf8_encode u) \<le> PUBLIC_V2_MAX_BYTES \<and>
        encode_entries depth False kvs (budget (?q + length (utf8_encode u)) n2) = Inr (w, b') \<and>
        t = ?c @ json_quote key @ 0x3A # u @ w)"
      using 5(1) [of "budget ?q n"] True by auto
    also have "\<dots> \<longleftrightarrow> list_all (\<lambda>(k, _). is_bounded_ascii k MAX_KEY_BYTES) kvs \<and>
        (\<exists>u n2 ts n'. encode_canonical depth v n = Inr (u, n2) \<and> encode_members depth kvs n2 = Inr (ts, n') \<and>
        t = ?c @ json_quote key @ 0x3A # u @ separated False ts \<and>
        ?q + length (utf8_encode u) + length (utf8_encode (separated False ts)) \<le> PUBLIC_V2_MAX_BYTES \<and>
        b' = budget (?q + length (utf8_encode u) + length (utf8_encode (separated False ts))) n')"
      using 5(2) [of "budget (?q + length (utf8_encode _)) _"] by fastforce
    also have "\<dots> \<longleftrightarrow> list_all (\<lambda>(k, _). is_bounded_ascii k MAX_KEY_BYTES) ((key, v) # kvs) \<and>
        (\<exists>ts n'. encode_members depth ((key, v) # kvs) (eb_nodes b) = Inr (ts, n') \<and> t = separated first ts \<and>
        eb_bytes b + length (utf8_encode t) \<le> PUBLIC_V2_MAX_BYTES \<and>
        b' = budget (eb_bytes b + length (utf8_encode t)) n')"
      unfolding sep using key by (auto simp: b result_simps length_utf8_member encode_scalars(1) sk ac_simps)
    finally show ?thesis .
  next
    case False
    with 5(3) show ?thesis
      by (cases "is_bounded_ascii key MAX_KEY_BYTES")
        (auto simp: b result_simps append_comma_eq_Inr assert_ascii_key_iff encode_string_budget length_utf8_member
          encode_scalars(1) bounded_ascii_scalars)
  qed
qed (auto simp: result_simps)

lemma canonical_public_v2_iff:
  "canonical_public_v2 v = Inr t \<longleftrightarrow> canonical_json v = Inr t \<and> length (utf8_encode t) \<le> PUBLIC_V2_MAX_BYTES"
proof (cases v)
  case (JObj kvs)
  have "canonical_public_v2 v = Inr t \<longleftrightarrow> length kvs \<le> MAX_MAPPING_ENTRIES \<and>
      (\<exists>b. encode_value 0 v (budget 0 MAX_NODES) = Inr (t, b) \<and> 1 \<le> eb_bytes b)"
    by (auto simp: canonical_public_v2_def rethrow_candidate_def JObj assert_plain_object_def encode_limits result_simps
        split: sum.splits)
  also have "\<dots> \<longleftrightarrow> length kvs \<le> MAX_MAPPING_ENTRIES \<and> (\<exists>n. encode_canonical 0 v MAX_NODES = Inr (t, n)) \<and>
      length (utf8_encode t) \<le> PUBLIC_V2_MAX_BYTES \<and> 1 \<le> length (utf8_encode t)"
    using encode_budget_iff(1) [of "budget 0 MAX_NODES" 0 v t] by auto
  also have "\<dots> \<longleftrightarrow> canonical_json v = Inr t \<and> length (utf8_encode t) \<le> PUBLIC_V2_MAX_BYTES"
  proof -
    have "canonical_json v = Inr t \<longleftrightarrow>
        (\<exists>n. encode_canonical 0 v MAX_NODES = Inr (t, n)) \<and> length (utf8_encode t) \<le> MAX_CANONICAL_BYTES"
      by (auto simp: canonical_json_def JObj is_json_object_def result_simps not_less)
    moreover have "length kvs \<le> MAX_MAPPING_ENTRIES" if "encode_canonical 0 v MAX_NODES = Inr (t, n)" for n
      using that by (auto simp: JObj encode_canonical.simps [of 0 "JObj kvs"] result_simps Let_def split: if_splits)
    moreover have "PUBLIC_V2_MAX_BYTES \<le> MAX_CANONICAL_BYTES"
      by (simp add: MAX_CANONICAL_BYTES_def PUBLIC_V2_MAX_BYTES_def)
    ultimately show ?thesis using canonical_text_nonempty [of v t] by (auto simp: Suc_le_eq)
  qed
  finally show ?thesis .
qed (auto simp: canonical_public_v2_def assert_plain_object_def rethrow_candidate_def canonical_json_def is_json_object_def)

lemma canonical_public_v2_bytes_iff:
  "canonical_public_v2_bytes v = Inr bs \<longleftrightarrow> canonical_bytes v = Inr bs \<and> length bs \<le> PUBLIC_V2_MAX_BYTES"
  by (auto simp: canonical_public_v2_bytes_def canonical_bytes_def canonical_public_v2_iff result_simps)

section \<open>JSON.parse builds well-formed values\<close>

lemma put_member_keys: "set (map fst (put_member k v kvs)) = insert k (set (map fst kvs))"
  by (induction k v kvs rule: put_member.induct) auto

lemma put_member_well_formed: "well_formed (JObj kvs) \<Longrightarrow> well_formed v \<Longrightarrow> well_formed (JObj (put_member k v kvs))"
proof (induction kvs)
  case (Cons p kvs)
  obtain l w where p: "p = (l, w)" by fastforce
  then show ?case using Cons put_member_keys [of k v kvs]
    by (auto simp: well_formed_JObj simp del: well_formed.simps(7))
qed (simp add: well_formed_JObj del: well_formed.simps(7))

lemma parse_well_formed:
  "parse_value decimal n s = Some (v, t) \<Longrightarrow> well_formed v"
  "parse_items decimal n s = Some (xs, t) \<Longrightarrow> \<forall>x \<in> set xs. well_formed x"
  "parse_members decimal n kvs s = Some (ms, t) \<Longrightarrow> well_formed (JObj kvs) \<Longrightarrow> well_formed (JObj ms)"
proof (induction decimal n s and decimal n s and decimal n kvs s arbitrary: v t and xs t and ms t
    rule: parse_value_parse_items_parse_members.induct)
  case (2 decimal n s)
  obtain c cs where s: "s = c # cs" using 2(3) by (auto simp: parse_value.simps split: list.splits)
  show ?case
  proof (cases "skip_ws cs")
    case Nil
    with 2(3) s show ?thesis by (auto simp: parse_value.simps split: if_splits)
  next
    case (Cons d r)
    show ?thesis
    proof (cases "c = 0x7B \<or> c = 0x5B")
      case True
      then show ?thesis
        using 2(3) s Cons 2(1) [OF s _ Cons] 2(2) [OF s _ _ Cons]
        by (cases "c = 0x7B")
          (auto simp: parse_value.simps list_all_iff simp del: well_formed.simps(7) split: if_splits,
            simp_all add: well_formed_JObj)
    qed (use 2(3) s in \<open>auto simp: parse_value.simps split: if_splits\<close>)
  qed
next
  case (4 decimal n s)
  obtain x t1 where x: "parse_value decimal n s = Some (x, t1)"
    using 4(3) by (auto simp: parse_items.simps split: option.splits)
  obtain d r where d: "skip_ws t1 = d # r" using 4(3) x by (auto simp: parse_items.simps split: list.splits)
  show ?case
  proof (cases "d = 0x2C")
    case True
    then obtain ys where "parse_items decimal n (skip_ws r) = Some (ys, t)" "xs = x # ys"
      using 4(3) x d by (auto simp: parse_items.simps)
    with 4(1) [OF x] 4(2) [OF x HOL.refl d _ True] True show ?thesis by auto
  qed (use 4(1) [OF x] 4(3) x d in \<open>auto simp: parse_items.simps split: if_splits\<close>)
next
  case (6 decimal n kvs s)
  obtain c cs where s: "s = c # cs" "c = 0x22" using 6(3) by (auto simp: parse_members.simps split: list.splits if_splits)
  obtain k t1 where k: "parse_string_body cs = Some (k, t1)"
    using 6(3) s by (auto simp: parse_members.simps split: option.splits)
  obtain d r where d: "skip_ws t1 = d # r" "d = 0x3A"
    using 6(3) s k by (auto simp: parse_members.simps split: list.splits if_splits)
  obtain v t2 where v: "parse_value decimal n (skip_ws r) = Some (v, t2)"
    using 6(3) s k d by (auto simp: parse_members.simps split: option.splits)
  obtain e r' where e: "skip_ws t2 = e # r'" using 6(3) s k d v by (auto simp: parse_members.simps split: list.splits)
  have wf: "well_formed (JObj (put_member k v kvs))"
    by (rule put_member_well_formed [OF 6(4) 6(1) [OF s(1) _ k HOL.refl d(1) _ v]]) (use s d in simp_all)
  show ?case
  proof (cases "e = 0x2C")
    case True
    then have "parse_members decimal n (put_member k v kvs) (skip_ws r') = Some (ms, t)"
      using 6(3) s k d v e by (simp add: parse_members.simps)
    from 6(2) [OF s(1) _ k HOL.refl d(1) _ v HOL.refl e _ True this wf] s d True show ?thesis by simp
  qed (use 6(3) s k d v e wf in \<open>auto simp: parse_members.simps split: if_splits\<close>)
qed (auto simp: parse_value.simps parse_items.simps parse_members.simps)

lemma parsed_json_well_formed: "json_parse decimal s = Inr v \<Longrightarrow> well_formed v"
  by (auto simp: json_parse_def dest: parse_well_formed(1) split: option.splits if_splits)

section \<open>Properties\<close>

text \<open>C31: The public codec and the broker's own canonical serialiser agree: a value has a canonical public form
  exactly when it has a canonical form of at most 65,536 bytes, and the texts are the same, although one
  charges a budget piece by piece and the other measures the finished text.\<close>

theorem public_canonical_is_bounded_canonical_json:
  "canonical_public_v2 v = Inr t \<longleftrightarrow> canonical_json v = Inr t \<and> length (utf8_encode t) \<le> 65536"
  by (simp add: canonical_public_v2_iff PUBLIC_V2_MAX_BYTES_def)

lemma parse_canonical_public_v2_iff:
  "parse_canonical_public_v2 decimal bs = Inr v \<longleftrightarrow>
     canonical_public_v2_bytes v = Inr bs \<and> well_formed v \<and> normalise v = v"
proof
  assume p: "parse_canonical_public_v2 decimal bs = Inr v"
  then obtain t where t: "text_decode bs = Some t" "json_parse decimal t = Inr v" "canonical_public_v2_bytes v = Inr bs"
    by (auto simp: parse_canonical_public_v2_def result_simps split: option.splits sum.splits)
  note wf = parsed_json_well_formed [OF t(2)]
  obtain u where u: "canonical_json v = Inr u" "bs = utf8_encode u"
    using t(3) by (auto simp: canonical_public_v2_bytes_iff canonical_bytes_def result_simps)
  have "take 3 bs \<noteq> BOM" using p by (auto simp: parse_canonical_public_v2_def result_simps)
  with t(1) have "utf8_decode bs = Some t" by (simp add: text_decode_def)
  with utf8_decode_encode [OF canonical_text_scalars [OF u(1)]] have "t = u" by (simp add: u(2))
  with canonical_parse [OF u(1) wf, of decimal] t(2) have "normalise v = v" by simp
  with t(3) wf show "canonical_public_v2_bytes v = Inr bs \<and> well_formed v \<and> normalise v = v" by simp
next
  assume a: "canonical_public_v2_bytes v = Inr bs \<and> well_formed v \<and> normalise v = v"
  then obtain u where u: "canonical_json v = Inr u" "bs = utf8_encode u" "length bs \<le> PUBLIC_V2_MAX_BYTES"
    by (auto simp: canonical_public_v2_bytes_iff canonical_bytes_def result_simps)
  obtain kvs where v: "v = JObj kvs" using u(1) by (cases v) (auto simp: canonical_json_def is_json_object_def)
  obtain w where w: "u = 0x7B # w"
    using u(1) by (auto simp: v canonical_json_def is_json_object_def encode_canonical.simps [of 0 "JObj kvs"] Let_def
        result_simps split: if_splits)
  have s: "has_only_unicode_scalars u" "take 1 u \<noteq> [0xFEFF]" using canonical_text_scalars [OF u(1)] w by simp_all
  have dec: "text_decode bs = Some u" unfolding u(2) by (rule text_decode_encode [OF s])
  have bom: "take 3 bs \<noteq> BOM" using utf8_encode_BOM [OF s(1)] s(2) u(2) by auto
  have parsed: "json_parse decimal u = Inr v" using canonical_parse [OF u(1), of decimal] a by simp
  have "length kvs \<le> PUBLIC_MAX_MAPPING_ENTRIES"
    using u(1) by (auto simp: v canonical_json_def is_json_object_def encode_canonical.simps [of 0 "JObj kvs"] Let_def
        result_simps encode_limits split: if_splits)
  then have plain: "assert_plain_object v ''PUBLIC_V2_CANONICAL_ROOT_INVALID'' = Inr kvs"
    by (simp add: v assert_plain_object_def)
  have len: "1 \<le> length bs \<and> length bs \<le> PUBLIC_V2_MAX_BYTES"
    using canonical_text_nonempty [OF u(1)] u(2,3) by (simp add: Suc_le_eq)
  show "parse_canonical_public_v2 decimal bs = Inr v"
    using a len bom by (simp add: parse_canonical_public_v2_def dec parsed plain)
qed

text \<open>The byte parser accepts exactly the canonical bytes: bytes parse to a value precisely when they are
  the canonical bytes of that value, whose members are then sorted, distinct and free of negative zeros.
  Nothing else, and no second spelling of a value, is ever accepted.\<close>

theorem public_bytes_parse_exactly:
  "parse_canonical_public_v2 decimal bs = Inr v \<longleftrightarrow>
     canonical_public_v2_bytes v = Inr bs \<and> well_formed v \<and> normalise v = v"
  by (rule parse_canonical_public_v2_iff)

lemma canonical_public_v2_snapshot_iff:
  assumes "well_formed v"
  shows "canonical_public_v2_snapshot decimal v = Inr w \<longleftrightarrow>
     w = normalise v \<and> (\<exists>bs. canonical_public_v2_bytes v = Inr bs)"
proof -
  have same: "canonical_public_v2_bytes (normalise v) = Inr bs \<longleftrightarrow> canonical_public_v2_bytes v = Inr bs" for bs
    using canonical_bytes_normalise [OF normalise_idem, of v] by (simp add: canonical_public_v2_bytes_iff)
  have "w = normalise v" if "canonical_public_v2_bytes v = Inr bs" "canonical_public_v2_bytes w = Inr bs"
    "well_formed w" "normalise w = w" for bs
    using canonical_bytes_inj [of v bs w] that assms by (simp add: canonical_public_v2_bytes_iff)
  then show ?thesis
    using same normalise_well_formed [OF assms] normalise_idem [of v]
    by (auto simp: canonical_public_v2_snapshot_def result_simps parse_canonical_public_v2_iff)
qed

section \<open>Identifiers\<close>

lemma sha256_tagged_eq_Inr [result_simps]:
  "sha256_tagged sha bs = Inr d \<longleftrightarrow>
     1 \<le> length bs \<and> length bs \<le> PUBLIC_V2_MAX_BYTES \<and> d = js ''sha256:'' @ hex_bytes (sha bs)"
  by (auto simp: sha256_tagged_def sha256_bytes_def copy_public_v2_bytes_def result_simps)

lemma copy_public_v2_bytes_eq_Inr [result_simps]:
  "copy_public_v2_bytes bs code = Inr cs \<longleftrightarrow> cs = bs \<and> 1 \<le> length bs \<and> length bs \<le> PUBLIC_V2_MAX_BYTES"
  by (auto simp: copy_public_v2_bytes_def result_simps)

lemma copy_private_nonce_eq_Inr [result_simps]:
  "copy_private_nonce bs = Inr cs \<longleftrightarrow> cs = bs \<and> length bs = 32"
  by (auto simp: copy_private_nonce_def result_simps PRIVATE_NONCE_BYTES_def)

lemma require_digest_eq_Inr [result_simps]: "require_digest v code = Inr s \<longleftrightarrow> v = JStr s \<and> matches DIGEST s"
  by (cases v) (auto simp: require_digest_def)

lemma canonical_public_nonempty: "canonical_public_v2_bytes v = Inr bs \<Longrightarrow> 1 \<le> length bs"
  using canonical_text_nonempty [of v]
  by (auto simp: canonical_public_v2_bytes_iff canonical_bytes_def result_simps Suc_le_eq)

lemma raw_public_v2_digest_eq_Inr [result_simps]:
  "raw_public_v2_digest sha v = Inr d \<longleftrightarrow>
     (\<exists>bs. canonical_public_v2_bytes v = Inr bs \<and> d = js ''sha256:'' @ hex_bytes (sha bs))"
  using canonical_public_nonempty [of v]
  by (auto simp: raw_public_v2_digest_def result_simps canonical_public_v2_bytes_iff)

definition id_preimage :: "js_string \<Rightarrow> json \<Rightarrow> bytes" where
  "id_preimage domain payload =
     (case canonical_public_v2_bytes (envelope domain payload) of Inr bs \<Rightarrow> bs | Inl _ \<Rightarrow> [])"

lemma public_v2_id_eq_Inr:
  "public_v2_id sha domain payload = Inr i \<longleftrightarrow>
     matches PUBLIC_DOMAIN domain \<and> 0 \<notin> set domain \<and>
     (\<exists>bs. canonical_public_v2_bytes (envelope domain payload) = Inr bs \<and> i = js ''sha256:'' @ hex_bytes (sha bs))"
  by (auto simp: public_v2_id_def result_simps envelope_def [symmetric])

text \<open>A public identifier binds its domain and its payload: unless the hash collides on the two encoded
  envelopes, equal identifiers have the same domain and payloads that are equal up to member order.\<close>

theorem public_id_binds_domain_and_payload:
  assumes "public_v2_id sha d p = Inr i" and "public_v2_id sha e q = Inr i" and "well_formed p" and "well_formed q"
  shows "d = e \<and> normalise p = normalise q \<or>
     id_preimage d p \<noteq> id_preimage e q \<and> sha (id_preimage d p) = sha (id_preimage e q)"
proof -
  obtain a b where a: "canonical_public_v2_bytes (envelope d p) = Inr a" "i = js ''sha256:'' @ hex_bytes (sha a)"
    and b: "canonical_public_v2_bytes (envelope e q) = Inr b" "i = js ''sha256:'' @ hex_bytes (sha b)"
    using assms(1,2) by (auto simp: public_v2_id_eq_Inr)
  have same: "sha a = sha b" using a(2) b(2) by (auto dest: hex_bytes_inj)
  show ?thesis
  proof (cases "a = b")
    case True
    have "normalise (envelope d p) = normalise (envelope e q)"
      using canonical_bytes_inj [of "envelope d p" a "envelope e q"] a(1) b(1) True assms(3,4)
      by (simp add: canonical_public_v2_bytes_iff envelope_def)
    moreover have "sort_key fst [(js ''domain'', u), (js ''payload'', w)] = [(js ''domain'', u), (js ''payload'', w)]"
      for u w :: json by (simp add: js_def)
    ultimately show ?thesis by (simp add: envelope_def)
  next
    case False
    with same a(1) b(1) show ?thesis by (simp add: id_preimage_def)
  qed
qed

lemma sample_public_id: "public_v2_id zero_sha (js ''d'') (JObj []) = Inr zero_digest"
proof -
  have "canonical_json (envelope (js ''d'') (JObj [])) = Inr (js ''{\"domain\":\"d\",\"payload\":{}}'')"
    by (simp add: envelope_def canonical_json_def is_json_object_def encode_canonical.simps MAX_DEPTH_def MAX_NODES_def
        MAX_MAPPING_ENTRIES_def MAX_KEY_BYTES_def MAX_CANONICAL_BYTES_def MAX_STRING_BYTES_def js_def
        is_bounded_ascii_def json_quote_def quote_unit_def is_high_def is_low_def length_utf8_ascii)
  then have "canonical_public_v2_bytes (envelope (js ''d'') (JObj [])) =
      Inr (utf8_encode (js ''{\"domain\":\"d\",\"payload\":{}}''))"
    by (simp add: canonical_public_v2_bytes_iff canonical_bytes_def PUBLIC_V2_MAX_BYTES_def js_def length_utf8_ascii)
  moreover have "matches PUBLIC_DOMAIN (js ''d'')" by (simp add: PUBLIC_DOMAIN_def matches_Rep_Cls js_def)
  moreover have "0 \<notin> set (js ''d'')" by (simp add: js_def)
  ultimately show ?thesis by (simp add: public_v2_id_eq_Inr zero_sha_hex)
qed

theorem public_id_binds_domain_and_payload_witness:
  "js ''d'' = js ''d'' \<and> normalise (JObj []) = normalise (JObj []) \<or>
   id_preimage (js ''d'') (JObj []) \<noteq> id_preimage (js ''d'') (JObj []) \<and>
     zero_sha (id_preimage (js ''d'') (JObj [])) = zero_sha (id_preimage (js ''d'') (JObj []))"
  by (rule public_id_binds_domain_and_payload [OF sample_public_id sample_public_id]) simp_all

end
