(* ===== verification/PublicFields.thy ===== *)
theory PublicFields imports PublicCanonical begin

text \<open>
  The field readers of the public codecs (\<open>candidate-public-v2/validation.ts\<close>), the eight distribution rows
  of a release (\<open>distributions.ts\<close>), its public identity (\<open>release-identity.ts\<close>) and the request for a
  runtime closure (\<open>runtime-closure-request.ts\<close>).
\<close>

section \<open>Field readers\<close>

text \<open>
  \<open>===\<close> between a value and a primitive: zeros of either sign are equal, \<open>JOther\<close> is never a literal of the
  code. Two different objects or arrays are never identical.
\<close>

fun strict_equal :: "json \<Rightarrow> json \<Rightarrow> bool" where
  "strict_equal (JNum a) (JNum b) \<longleftrightarrow> a \<noteq> JOther \<and> b \<noteq> JOther \<and> number_int a = number_int b"
| "strict_equal (JArr xs) w \<longleftrightarrow> False"
| "strict_equal (JObj kvs) w \<longleftrightarrow> False"
| "strict_equal v w \<longleftrightarrow> v = w"

definition exact_members :: "json \<Rightarrow> string list \<Rightarrow> string \<Rightarrow> members result" where
  "exact_members v keys code =
     (case v of
        JObj kvs \<Rightarrow> bind_r (candidate_assert (sort (map fst kvs) = sort (map js keys)) code) (\<lambda>_. Inr kvs)
      | _ \<Rightarrow> Inl (Candidate (js code)))"

definition object_field :: "members \<Rightarrow> string \<Rightarrow> string \<Rightarrow> members result" where
  "object_field kvs key code = (case lookup kvs (js key) of JObj m \<Rightarrow> Inr m | _ \<Rightarrow> Inl (Candidate (js code)))"

definition array_field :: "members \<Rightarrow> string \<Rightarrow> string \<Rightarrow> json list result" where
  "array_field kvs key code = (case lookup kvs (js key) of JArr xs \<Rightarrow> Inr xs | _ \<Rightarrow> Inl (Candidate (js code)))"

definition string_field :: "members \<Rightarrow> string \<Rightarrow> string \<Rightarrow> regex option \<Rightarrow> js_string result" where
  "string_field kvs key code pattern =
     (case lookup kvs (js key) of
        JStr s \<Rightarrow> bind_r (candidate_assert (case pattern of None \<Rightarrow> True | Some r \<Rightarrow> matches r s) code) (\<lambda>_. Inr s)
      | _ \<Rightarrow> Inl (Candidate (js code)))"

definition digest_field :: "members \<Rightarrow> string \<Rightarrow> string \<Rightarrow> js_string result" where
  "digest_field kvs key code = require_digest (lookup kvs (js key)) code"

definition git_sha_field :: "members \<Rightarrow> string \<Rightarrow> string \<Rightarrow> js_string result" where
  "git_sha_field kvs key code = string_field kvs key code (Some SHA1_HEX)"

definition integer_field :: "members \<Rightarrow> string \<Rightarrow> int \<Rightarrow> int \<Rightarrow> string \<Rightarrow> int result" where
  "integer_field kvs key lo hi code =
     (case lookup kvs (js key) of
        JNum n \<Rightarrow> bind_r (candidate_assert (is_safe_integer n \<and> lo \<le> number_int n \<and> number_int n \<le> hi) code)
                    (\<lambda>_. Inr (number_int n))
      | _ \<Rightarrow> Inl (Candidate (js code)))"

definition literal_field :: "members \<Rightarrow> string \<Rightarrow> json \<Rightarrow> string \<Rightarrow> unit result" where
  "literal_field kvs key expected code = candidate_assert (strict_equal (lookup kvs (js key)) expected) code"

definition clone_without :: "members \<Rightarrow> string list \<Rightarrow> members" where
  "clone_without kvs keys = filter (\<lambda>(k, _). k \<notin> set (map js keys)) kvs"

definition project_object :: "members \<Rightarrow> string list \<Rightarrow> string \<Rightarrow> members result" where
  "project_object kvs keys code =
     map_r (\<lambda>key. bind_r (candidate_assert (lookup kvs (js key) \<noteq> JUndef) code)
                    (\<lambda>_. Inr (js key, lookup kvs (js key)))) keys"

lemma json_size_members: "(k, v) \<in> set kvs \<Longrightarrow> size v < Suc (size_list (size_prod (\<lambda>_. 0) size) kvs)"
  by (induction kvs) auto

lemma lookup_size: "lookup kvs k \<noteq> JUndef \<Longrightarrow> size (lookup kvs k) < Suc (size_list (size_prod (\<lambda>_. 0) size) kvs)"
  by (auto simp: lookup_def dest!: map_of_SomeD json_size_members split: option.splits)

lemma json_size_items: "x \<in> set xs \<Longrightarrow> size x < Suc (size_list size xs)" for x :: json
  by (induction xs) auto

text \<open>\<open>jsonEqual\<close>. The values compared are never one object, so the test of identity only decides primitives.\<close>

declare conj_cong [fundef_cong]

function (sequential) json_equal :: "json \<Rightarrow> json \<Rightarrow> bool" where
  "json_equal (JArr xs) (JArr ys) \<longleftrightarrow>
     length xs = length ys \<and> list_all (\<lambda>i. ys ! i \<noteq> JUndef \<and> json_equal (xs ! i) (ys ! i)) [0..<length xs]"
| "json_equal (JObj kvs) (JObj lws) \<longleftrightarrow>
     length kvs = length lws \<and>
     list_all (\<lambda>k. k \<in> set (map fst lws) \<and> lookup kvs k \<noteq> JUndef \<and> lookup lws k \<noteq> JUndef \<and>
       json_equal (lookup kvs k) (lookup lws k)) (map fst kvs)"
| "json_equal v w \<longleftrightarrow> strict_equal v w"
  by pat_completeness auto
termination
proof (relation "measure (\<lambda>(v, _). size v)")
  fix xs ys :: "json list" and i
  assume "length xs = length ys" "i \<in> set [0..<length xs]"
  then have "xs ! i \<in> set xs" by simp
  then have "size (xs ! i) < Suc (size_list size xs)" by (rule json_size_items)
  then show "((xs ! i, ys ! i), JArr xs, JArr ys) \<in> measure (\<lambda>(v, _). size v)" by simp
qed (simp_all add: lookup_size)

declare json_equal.simps [simp del]

section \<open>When a reader returns\<close>

lemma exact_members_eq_Inr [result_simps]:
  "exact_members v keys code = Inr kvs \<longleftrightarrow> v = JObj kvs \<and> sort (map fst kvs) = sort (map js keys)"
  by (cases v) (auto simp: exact_members_def result_simps)

lemma sorted_keys_iff:
  assumes "distinct (map fst kvs)" and "distinct keys"
  shows "sort (map fst kvs) = sort (map js keys) \<longleftrightarrow> set (map fst kvs) = js ` set keys"
proof
  assume "sort (map fst kvs) = sort (map js keys)"
  then have "set (sort (map fst kvs)) = set (sort (map js keys))" by simp
  then show "set (map fst kvs) = js ` set keys" by simp
next
  assume "set (map fst kvs) = js ` set keys"
  moreover have "distinct (map js keys)" using assms(2) by (simp add: distinct_map inj_on_def)
  ultimately show "sort (map fst kvs) = sort (map js keys)"
    using assms(1) by (intro sorted_distinct_set_unique) simp_all
qed

lemma field_readers_eq_Inr [result_simps]:
  "object_field kvs key code = Inr m \<longleftrightarrow> lookup kvs (js key) = JObj m"
  "array_field kvs key code = Inr xs \<longleftrightarrow> lookup kvs (js key) = JArr xs"
  "string_field kvs key code pattern = Inr s \<longleftrightarrow>
     lookup kvs (js key) = JStr s \<and> (\<forall>r. pattern = Some r \<longrightarrow> matches r s)"
  "digest_field kvs key code = Inr s \<longleftrightarrow> lookup kvs (js key) = JStr s \<and> matches DIGEST s"
  "git_sha_field kvs key code = Inr s \<longleftrightarrow> lookup kvs (js key) = JStr s \<and> matches SHA1_HEX s"
  "literal_field kvs key v code = Inr u \<longleftrightarrow> strict_equal (lookup kvs (js key)) v"
  by (auto simp: object_field_def array_field_def string_field_def digest_field_def git_sha_field_def literal_field_def
      result_simps split: json.splits option.splits)

lemma integer_field_eq_Inr [result_simps]:
  "integer_field kvs key lo hi code = Inr i \<longleftrightarrow>
     (\<exists>n. lookup kvs (js key) = JNum n \<and> is_safe_integer n \<and> i = number_int n \<and> lo \<le> i \<and> i \<le> hi)"
  by (auto simp: integer_field_def result_simps split: json.splits)

lemma strict_equal_str [simp]: "strict_equal v (JStr s) \<longleftrightarrow> v = JStr s"
  by (cases v) auto

lemma strict_equal_JI: "strict_equal v (JI i) \<longleftrightarrow> (\<exists>n. v = JNum n \<and> n \<noteq> JOther \<and> number_int n = i)"
  by (cases v) (auto simp: JI_def number_int_def)

section \<open>Structural equality\<close>

lemma member_lookup:
  assumes "distinct (map fst kvs)"
  shows "(k, v) \<in> set kvs \<longleftrightarrow> k \<in> set (map fst kvs) \<and> lookup kvs k = v"
proof
  assume "(k, v) \<in> set kvs"
  with assms show "k \<in> set (map fst kvs) \<and> lookup kvs k = v" by (force simp: lookup_def)
next
  assume k: "k \<in> set (map fst kvs) \<and> lookup kvs k = v"
  then obtain u where "map_of kvs k = Some u" by (metis domIff dom_map_of_conv_image_fst not_None_eq set_map)
  then show "(k, v) \<in> set kvs" using k by (auto simp: lookup_def dest: map_of_SomeD)
qed

lemma normalise_members_eq:
  assumes "well_formed (JObj kvs)" and "well_formed (JObj lws)"
  shows "normalise (JObj kvs) = normalise (JObj lws) \<longleftrightarrow> length kvs = length lws \<and>
     (\<forall>k \<in> set (map fst kvs). k \<in> set (map fst lws) \<and> normalise (lookup kvs k) = normalise (lookup lws k))"
proof
  assume n: "normalise (JObj kvs) = normalise (JObj lws)"
  then have "length (sort_key fst (map (map_prod id normalise) kvs)) = length (sort_key fst (map (map_prod id normalise) lws))"
    by simp
  with same_lookup(1,2) [OF n assms] show "length kvs = length lws \<and>
     (\<forall>k \<in> set (map fst kvs). k \<in> set (map fst lws) \<and> normalise (lookup kvs k) = normalise (lookup lws k))" by simp
next
  assume a: "length kvs = length lws \<and>
     (\<forall>k \<in> set (map fst kvs). k \<in> set (map fst lws) \<and> normalise (lookup kvs k) = normalise (lookup lws k))"
  have d: "distinct (map fst kvs)" "distinct (map fst lws)" using assms by simp_all
  have keys: "set (map fst kvs) = set (map fst lws)"
    by (rule card_subset_eq) (use a d [THEN distinct_card] in auto)
  have vals: "normalise (lookup kvs k) = normalise (lookup lws k)" if "k \<in> set (map fst lws)" for k
    using a keys that by blast
  let ?n = "map (map_prod id normalise)"
  have mem: "(k, v) \<in> set (?n xs) \<longleftrightarrow> k \<in> set (map fst xs) \<and> v = normalise (lookup xs k)"
    if "distinct (map fst xs)" for k v and xs :: members
    using member_lookup [OF that, of k] by (force simp: image_iff)
  have "set (?n kvs) = set (?n lws)"
    by (rule set_eqI, unfold split_paired_all mem [OF d(1)] mem [OF d(2)]) (simp add: keys vals del: set_map cong: conj_cong)
  then have "set (sort_key fst (?n kvs)) = set (sort_key fst (?n lws))" by simp
  moreover have "sorted (map fst (sort_key fst (?n xs)))" for xs by (rule sorted_sort_key)
  moreover have "distinct (map fst (sort_key fst (?n xs)))" if "distinct (map fst xs)" for xs
    using that eq_key_imp_eq_value [OF that] by (auto simp: distinct_map inj_on_def)
  ultimately have "sort_key fst (?n kvs) = sort_key fst (?n lws)"
    using d by (intro map_sorted_distinct_set_unique [of fst]) (auto simp: distinct_map)
  then show "normalise (JObj kvs) = normalise (JObj lws)" by simp
qed

lemma encodable_lookup: "encodable (JObj kvs) \<Longrightarrow> k \<in> set (map fst kvs) \<Longrightarrow> encodable (lookup kvs k)"
proof -
  assume e: "encodable (JObj kvs)" "k \<in> set (map fst kvs)"
  then obtain v where "map_of kvs k = Some v" by (metis domIff dom_map_of_conv_image_fst not_None_eq set_map)
  with e(1) show ?thesis by (fastforce simp: lookup_def list_all_iff dest: map_of_SomeD)
qed

lemma json_equal_leaf:
  assumes "\<forall>xs ys. \<not> (v = JArr xs \<and> w = JArr ys)" and "\<forall>xs ys. \<not> (v = JObj xs \<and> w = JObj ys)"
    and "encodable v" and "encodable w"
  shows "json_equal v w \<longleftrightarrow> normalise v = normalise w"
  using assms
  by (cases v; cases w)
    (simp_all add: json_equal.simps is_safe_integer_def number_int_def split: js_number.splits)

lemma json_equal_iff:
  assumes "encodable v" and "encodable w" and "well_formed v" and "well_formed w"
  shows "json_equal v w \<longleftrightarrow> normalise v = normalise w"
  using assms
proof (induction v w rule: json_equal.induct)
  case (1 xs ys)
  have e: "encodable (xs ! i)" "encodable (ys ! i)" "well_formed (xs ! i)" "well_formed (ys ! i)"
    if "i < length xs" "length xs = length ys" for i
    using 1(2-5) that by (auto simp: list_all_length)
  have ne: "ys ! i \<noteq> JUndef" if "i < length xs" "length xs = length ys" for i
    using e(2) [OF that] by auto
  have "json_equal (xs ! i) (ys ! i) \<longleftrightarrow> normalise (xs ! i) = normalise (ys ! i)"
    if "i < length xs" "length xs = length ys" for i
    by (rule 1(1) [OF that(2) _ ne [OF that] e [OF that]]) (use that in simp)
  note this ne
  then show ?case
    by (cases "length xs = length ys") (auto simp only: json_equal.simps(1) normalise.simps json.inject list_all_iff
        list_eq_iff_nth_eq [of "map normalise xs"] length_map nth_map set_upt atLeastLessThan_iff le0 simp_thms)
next
  case (2 kvs lws)
  have e: "encodable (lookup kvs k) \<and> lookup kvs k \<noteq> JUndef" if "k \<in> set (map fst kvs)" for k
    using encodable_lookup [OF 2(2) that] by auto
  have f: "encodable (lookup lws k) \<and> lookup lws k \<noteq> JUndef" if "k \<in> set (map fst lws)" for k
    using encodable_lookup [OF 2(3) that] by auto
  have "json_equal (lookup kvs k) (lookup lws k) \<longleftrightarrow> normalise (lookup kvs k) = normalise (lookup lws k)"
    if "k \<in> set (map fst kvs)" "k \<in> set (map fst lws)" "length kvs = length lws" for k
    using e [OF that(1)] f [OF that(2)]
    by (intro 2(1) [OF that(3,1,2)] well_formed_lookup [OF 2(4)] well_formed_lookup [OF 2(5)]) simp_all
  with e f show ?case
    unfolding normalise_members_eq [OF 2(4,5)] json_equal.simps(2) list_all_iff by (intro conj_cong HOL.refl ball_cong) simp_all
qed (rule json_equal_leaf; simp)+

end
