(* ===== verification/PublicDistributions.thy ===== *)
theory PublicDistributions imports PublicFields begin

text \<open>
  The eight distribution rows of a release (\<open>candidate-public-v2/distributions.ts\<close>), its public identity
  (\<open>release-identity.ts\<close>) and the request for a runtime closure (\<open>runtime-closure-request.ts\<close>).
\<close>

section \<open>Distribution rows\<close>

definition PUBLIC_PROJECTS :: "js_string list" where
  "PUBLIC_PROJECTS = map js [''apache-airflow-providers-dpone'', ''dpone'', ''dpone-airflow-pack'', ''dpone-native-accel'']"

definition NORMALIZED_PROJECTS :: "js_string list" where
  "NORMALIZED_PROJECTS = map js [''apache_airflow_providers_dpone'', ''dpone'', ''dpone_airflow_pack'', ''dpone_native_accel'']"

definition MAX_DISTRIBUTION_BYTES :: int where "MAX_DISTRIBUTION_BYTES = 100000000"
definition MAX_TOTAL_BYTES :: int where "MAX_TOTAL_BYTES = 536870912"

text \<open>\<open>/^(?:0|[1-9][0-9]*)\.(?:0|[1-9][0-9]*)\.(?:0|[1-9][0-9]*)$/u\<close>; a tag is a \<open>v\<close> before it.\<close>

definition VERSION :: regex where
  "VERSION = (let n = Alt (Lit ''0'') (Seq (Cls ''19'') (RepInf (Cls ''09'') 0)) in
     Seq n (Seq (Lit ''.'') (Seq n (Seq (Lit ''.'') n))))"

definition ROW_KEYS :: "string list" where
  "ROW_KEYS = [''filename'', ''project'', ''sha256'', ''size_bytes'', ''version'']"

record distribution_input =
  di_filename :: js_string
  di_project :: js_string
  di_sha256 :: js_string
  di_size_bytes :: js_number
  di_version :: js_string

definition distribution_filename :: "nat \<Rightarrow> js_string \<Rightarrow> js_string" where
  "distribution_filename i version =
     NORMALIZED_PROJECTS ! (i div 2) @
       (if i mod 2 = 0 then js ''-'' @ version @ js ''-py3-none-any.whl'' else js ''-'' @ version @ js ''.tar.gz'')"

text \<open>One turn of the loop, at an index: the size of the row. The array has eight rows, so the index of a project is in range.\<close>

definition validate_distribution_row :: "js_string \<Rightarrow> nat \<Rightarrow> json \<Rightarrow> int result" where
  "validate_distribution_row version i v =
     bind_r (exact_members v ROW_KEYS ''PUBLIC_V2_DISTRIBUTION_INVALID'') (\<lambda>row.
     bind_r (candidate_assert (i div 2 < length PUBLIC_PROJECTS \<and> i div 2 < length NORMALIZED_PROJECTS)
       ''PUBLIC_V2_DISTRIBUTION_INVALID'') (\<lambda>_.
     bind_r (literal_field row ''project'' (JStr (PUBLIC_PROJECTS ! (i div 2))) ''PUBLIC_V2_DISTRIBUTION_INVALID'') (\<lambda>_.
     bind_r (string_field row ''version'' ''PUBLIC_V2_DISTRIBUTION_INVALID'' (Some VERSION)) (\<lambda>_.
     bind_r (candidate_assert (strict_equal (lookup row (js ''version'')) (JStr version)) ''PUBLIC_V2_VERSION_MISMATCH'') (\<lambda>_.
     bind_r (literal_field row ''filename'' (JStr (distribution_filename i version)) ''PUBLIC_V2_FILENAME_INVALID'') (\<lambda>_.
     bind_r (require_digest (lookup row (js ''sha256'')) ''PUBLIC_V2_DISTRIBUTION_DIGEST_INVALID'') (\<lambda>_.
       integer_field row ''size_bytes'' 1 MAX_DISTRIBUTION_BYTES ''PUBLIC_V2_DISTRIBUTION_SIZE_INVALID'')))))))"

fun validate_rows :: "js_string \<Rightarrow> nat \<Rightarrow> int \<Rightarrow> json list \<Rightarrow> int result" where
  "validate_rows version i sofar [] = Inr sofar"
| "validate_rows version i sofar (v # vs) =
     bind_r (validate_distribution_row version i v) (\<lambda>n.
     bind_r (candidate_assert (\<bar>sofar + n\<bar> \<le> max_safe) ''PUBLIC_V2_DISTRIBUTION_SIZE_INVALID'') (\<lambda>_.
       validate_rows version (i + 1) (sofar + n) vs))"

definition validate_distribution_rows :: "json \<Rightarrow> js_string \<Rightarrow> json list result" where
  "validate_distribution_rows value tag =
     bind_r (candidate_assert (matches TAG tag) ''PUBLIC_V2_RELEASE_TAG_INVALID'') (\<lambda>_.
     bind_r (case value of JArr vs \<Rightarrow> if length vs = 8 then Inr vs else Inl (Candidate (js ''PUBLIC_V2_DISTRIBUTIONS_INVALID''))
        | _ \<Rightarrow> Inl (Candidate (js ''PUBLIC_V2_DISTRIBUTIONS_INVALID''))) (\<lambda>vs.
     bind_r (validate_rows (drop 1 tag) 0 0 vs) (\<lambda>sofar.
     bind_r (candidate_assert (sofar \<le> MAX_TOTAL_BYTES) ''PUBLIC_V2_DISTRIBUTION_TOTAL_SIZE_INVALID'') (\<lambda>_.
     bind_r (canonical_public_v2_bytes (JObj [(js ''distributions'', JArr vs)])) (\<lambda>_. Inr vs)))))"

definition distribution_row :: "distribution_input \<Rightarrow> json" where
  "distribution_row d =
     JObj [(js ''filename'', JStr (di_filename d)), (js ''project'', JStr (di_project d)),
       (js ''sha256'', JStr (di_sha256 d)), (js ''size_bytes'', JNum (di_size_bytes d)), (js ''version'', JStr (di_version d))]"

definition build_distribution_rows :: "distribution_input list \<Rightarrow> js_string \<Rightarrow> json list result" where
  "build_distribution_rows inputs tag =
     bind_r (candidate_assert (matches TAG tag) ''PUBLIC_V2_RELEASE_TAG_INVALID'') (\<lambda>_.
     bind_r (candidate_assert (length inputs = 8) ''PUBLIC_V2_DISTRIBUTIONS_INVALID'') (\<lambda>_.
     let rows = map distribution_row inputs in
     bind_r (validate_distribution_rows (JArr rows) tag) (\<lambda>_.
     bind_r (candidate_assert (list_all (\<lambda>row. strict_equal (json_get row (js ''version'')) (JStr (drop 1 tag))) rows)
       ''PUBLIC_V2_VERSION_MISMATCH'') (\<lambda>_. Inr rows))))"

section \<open>The public identity of a release\<close>

definition PUBLIC_RELEASE_ID_DOMAIN :: js_string where
  "PUBLIC_RELEASE_ID_DOMAIN = js ''dpone.release.public-identity.v2''"

definition public_release_id :: "hash \<Rightarrow> js_string \<Rightarrow> js_string result" where
  "public_release_id sha tag =
     bind_r (candidate_assert (matches TAG tag) ''PUBLIC_V2_RELEASE_TAG_INVALID'') (\<lambda>_.
       public_v2_id sha PUBLIC_RELEASE_ID_DOMAIN
         (JObj [(js ''projects'', JArr (map JStr PUBLIC_PROJECTS)), (js ''release'', JStr tag)]))"

definition RUNTIME_CLOSURE_REQUEST_SCHEMA :: js_string where
  "RUNTIME_CLOSURE_REQUEST_SCHEMA = js ''dpone.release-runtime-closure-request.v2''"

definition parse_runtime_closure_request ::
  "hash \<Rightarrow> (js_string \<Rightarrow> js_number) \<Rightarrow> bytes \<Rightarrow> members result" where
  "parse_runtime_closure_request sha decimal bs =
     bind_r (parse_canonical_public_v2 decimal bs) (\<lambda>v.
     bind_r (exact_members v [''public_release_id'', ''schema'', ''schema_version'', ''tag''] ''PUBLIC_V2_CLOSURE_REQUEST_INVALID'') (\<lambda>request.
     bind_r (require_digest (lookup request (js ''public_release_id'')) ''PUBLIC_V2_RELEASE_ID_INVALID'') (\<lambda>release_id.
     bind_r (literal_field request ''schema'' (JStr RUNTIME_CLOSURE_REQUEST_SCHEMA) ''PUBLIC_V2_CLOSURE_REQUEST_INVALID'') (\<lambda>_.
     bind_r (literal_field request ''schema_version'' (JI 2) ''PUBLIC_V2_CLOSURE_REQUEST_INVALID'') (\<lambda>_.
     bind_r (string_field request ''tag'' ''PUBLIC_V2_RELEASE_TAG_INVALID'' (Some TAG)) (\<lambda>tag.
     bind_r (public_release_id sha tag) (\<lambda>derived.
     bind_r (candidate_assert (release_id = derived) ''PUBLIC_V2_RELEASE_ID_MISMATCH'') (\<lambda>_. Inr request))))))))"

end
