(* ===== verification/PublicSidecar.thy ===== *)
theory PublicSidecar imports PublicFields begin

text \<open>
  The private sidecar of a public document (\<open>candidate-public-v2/sidecar.ts\<close>): the nonce and its base64url
  text, the sidecar and its opening, the commitment that the public document carries, and the
  verification of an opening. \<open>SidecarKind\<close> is a closed union of the type checker, so a typed kind is a
  value of the datatype; where the code reads a kind from JSON it is a string.
\<close>

section \<open>Kinds and their schemas\<close>

datatype sidecar_kind = ACTIVATION_A0 | ACTIVATION_A1 | ACTIVATION_PROOF | RUNTIME_CLOSURE

definition SIDECAR_KINDS :: "sidecar_kind list" where
  "SIDECAR_KINDS = [ACTIVATION_A0, ACTIVATION_A1, ACTIVATION_PROOF, RUNTIME_CLOSURE]"

fun kind_text :: "sidecar_kind \<Rightarrow> js_string" where
  "kind_text ACTIVATION_A0 = js ''ACTIVATION_A0''"
| "kind_text ACTIVATION_A1 = js ''ACTIVATION_A1''"
| "kind_text ACTIVATION_PROOF = js ''ACTIVATION_PROOF''"
| "kind_text RUNTIME_CLOSURE = js ''RUNTIME_CLOSURE''"

definition require_kind :: "js_string \<Rightarrow> sidecar_kind result" where
  "require_kind s =
     (case find (\<lambda>k. kind_text k = s) SIDECAR_KINDS of
        Some k \<Rightarrow> Inr k
      | None \<Rightarrow> Inl (Candidate (js ''PUBLIC_V2_SIDECAR_KIND_INVALID'')))"

fun private_payload_schema :: "sidecar_kind \<Rightarrow> js_string" where
  "private_payload_schema ACTIVATION_A0 = js ''dpone.release-broker-provisioned-private-payload.v2''"
| "private_payload_schema ACTIVATION_A1 = js ''dpone.release-broker-activated-private-payload.v2''"
| "private_payload_schema ACTIVATION_PROOF = js ''dpone.release-broker-activation-proof-private-payload.v2''"
| "private_payload_schema RUNTIME_CLOSURE = js ''dpone.release-runtime-closure-private-payload.v2''"

fun document_schema :: "sidecar_kind \<Rightarrow> js_string" where
  "document_schema ACTIVATION_A0 = js ''dpone.release-broker-provisioned-public-core.v2''"
| "document_schema ACTIVATION_A1 = js ''dpone.release-broker-activated-public-core.v2''"
| "document_schema ACTIVATION_PROOF = js ''dpone.release-broker-activation-proof-public.v2''"
| "document_schema RUNTIME_CLOSURE = js ''dpone.release-runtime-closure-public.v2''"

fun terminal_id :: "sidecar_kind \<Rightarrow> string" where
  "terminal_id ACTIVATION_A0 = ''record_id''"
| "terminal_id ACTIVATION_A1 = ''record_id''"
| "terminal_id ACTIVATION_PROOF = ''proof_id''"
| "terminal_id RUNTIME_CLOSURE = ''closure_id''"

definition PRIVATE_SIDECAR_SCHEMA :: js_string where
  "PRIVATE_SIDECAR_SCHEMA = js ''dpone.release-private-sidecar.v2''"
definition PRIVATE_SIDECAR_OPENING_SCHEMA :: js_string where
  "PRIVATE_SIDECAR_OPENING_SCHEMA = js ''dpone.release-private-sidecar-opening.v2''"
definition COMMITMENT_DOMAIN :: js_string where
  "COMMITMENT_DOMAIN = js ''dpone.release.private-sidecar-commitment.v2''"
definition PUBLIC_CONTEXT_DOMAIN :: js_string where
  "PUBLIC_CONTEXT_DOMAIN = js ''dpone.release.public-context.v2''"

definition SIDECAR_KEYS :: "string list" where
  "SIDECAR_KEYS = [''kind'', ''private_payload_schema'', ''private_payload_sha256'', ''public_context_sha256'', ''schema'',
     ''schema_version'']"
definition OPENING_KEYS :: "string list" where
  "OPENING_KEYS = [''nonce_b64url'', ''schema'', ''schema_version'', ''sidecar'']"

section \<open>The nonce\<close>

definition require_nonce :: "bytes \<Rightarrow> unit result" where
  "require_nonce nonce =
     bind_r (candidate_assert (length nonce = 32) ''PUBLIC_V2_NONCE_INVALID'') (\<lambda>_.
       candidate_assert (list_ex (\<lambda>b. b \<noteq> 0) nonce) ''PUBLIC_V2_NONCE_INVALID'')"

text \<open>\<open>btoa\<close> of a binary string, given as its bytes, and \<open>atob\<close>, which drops the padding and the spare bits.\<close>

definition b64_char :: "nat \<Rightarrow> code_unit" where
  "b64_char n =
     (if n < 26 then of_nat (65 + n) else if n < 52 then of_nat (71 + n) else if n < 62 then of_nat (n - 4)
      else if n = 62 then 0x2B else 0x2F)"

definition b64_value :: "code_unit \<Rightarrow> nat option" where
  "b64_value c =
     (if 65 \<le> c \<and> c \<le> 90 then Some (unat c - 65) else if 97 \<le> c \<and> c \<le> 122 then Some (unat c - 71)
      else if 48 \<le> c \<and> c \<le> 57 then Some (unat c + 4) else if c = 0x2B then Some 62
      else if c = 0x2F then Some 63 else None)"

fun btoa :: "bytes \<Rightarrow> js_string" where
  "btoa [] = []"
| "btoa [a] = (let n = unat a * 16 in [b64_char (n div 64), b64_char (n mod 64), 0x3D, 0x3D])"
| "btoa [a, b] =
     (let n = (unat a * 256 + unat b) * 4 in
      [b64_char (n div 4096), b64_char (n div 64 mod 64), b64_char (n mod 64), 0x3D])"
| "btoa (a # b # c # bs) =
     (let n = (unat a * 256 + unat b) * 256 + unat c in
      [b64_char (n div 262144), b64_char (n div 4096 mod 64), b64_char (n div 64 mod 64), b64_char (n mod 64)] @ btoa bs)"

fun atob_groups :: "nat list \<Rightarrow> bytes option" where
  "atob_groups [] = Some []"
| "atob_groups [x] = None"
| "atob_groups [x, y] = Some [of_nat ((x * 64 + y) div 16)]"
| "atob_groups [x, y, z] =
     (let n = ((x * 64 + y) * 64 + z) div 4 in Some [of_nat (n div 256), of_nat n])"
| "atob_groups (x # y # z # w # r) =
     (let n = ((x * 64 + y) * 64 + z) * 64 + w in
      map_option (\<lambda>bs. [of_nat (n div 65536), of_nat (n div 256), of_nat n] @ bs) (atob_groups r))"

definition strip_padding :: "js_string \<Rightarrow> js_string" where
  "strip_padding s =
     (if length s mod 4 \<noteq> 0 then s
      else case rev s of
             c # d # r \<Rightarrow> if c = 0x3D \<and> d = 0x3D then rev r else if c = 0x3D then rev (d # r) else s
           | _ \<Rightarrow> s)"

definition atob :: "js_string \<Rightarrow> bytes option" where
  "atob s =
     (case those (map b64_value (strip_padding s)) of None \<Rightarrow> None | Some vs \<Rightarrow> atob_groups vs)"

definition replace_unit :: "code_unit \<Rightarrow> code_unit \<Rightarrow> js_string \<Rightarrow> js_string" where
  "replace_unit c d s = map (\<lambda>x. if x = c then d else x) s"

definition encode_nonce :: "bytes \<Rightarrow> js_string result" where
  "encode_nonce nonce =
     bind_r (require_nonce nonce) (\<lambda>_.
     let encoded = rev (dropWhile (\<lambda>c. c = 0x3D) (rev (replace_unit 0x2F 0x5F (replace_unit 0x2B 0x2D (btoa nonce))))) in
     bind_r (candidate_assert (length encoded = 43) ''PUBLIC_V2_NONCE_INVALID'') (\<lambda>_. Inr encoded))"

definition NONCE_TEXT :: regex where
  "NONCE_TEXT = Rep (Cls ''AZaz09__--'') 43 43"

definition decode_nonce :: "js_string \<Rightarrow> bytes result" where
  "decode_nonce v =
     bind_r (candidate_assert (matches NONCE_TEXT v) ''PUBLIC_V2_NONCE_INVALID'') (\<lambda>_.
     bind_r (case atob (replace_unit 0x5F 0x2F (replace_unit 0x2D 0x2B v) @ [0x3D]) of
               None \<Rightarrow> Inl (Candidate (js ''PUBLIC_V2_NONCE_INVALID'')) | Some bs \<Rightarrow> Inr bs) (\<lambda>nonce.
     bind_r (require_nonce nonce) (\<lambda>_.
     bind_r (encode_nonce nonce) (\<lambda>back.
     bind_r (candidate_assert (back = v) ''PUBLIC_V2_NONCE_INVALID'') (\<lambda>_. Inr nonce)))))"

section \<open>Sidecars and openings\<close>

definition require_kind_field :: "members \<Rightarrow> sidecar_kind option \<Rightarrow> sidecar_kind result" where
  "require_kind_field sidecar expected =
     bind_r (string_field sidecar ''kind'' ''PUBLIC_V2_SIDECAR_KIND_INVALID'' None) (\<lambda>s.
     bind_r (require_kind s) (\<lambda>kind.
     bind_r (candidate_assert (expected = None \<or> expected = Some kind) ''PUBLIC_V2_SIDECAR_KIND_MISMATCH'') (\<lambda>_. Inr kind)))"

definition require_private_payload :: "json \<Rightarrow> js_string \<Rightarrow> unit result" where
  "require_private_payload payload schema =
     candidate_assert (strict_equal (json_get payload (js ''schema'')) (JStr schema)) ''PUBLIC_V2_PRIVATE_SCHEMA_MISMATCH''"

definition parse_sidecar :: "(js_string \<Rightarrow> js_number) \<Rightarrow> json \<Rightarrow> json result" where
  "parse_sidecar decimal v =
     bind_r (canonical_public_v2_snapshot decimal v) (\<lambda>s.
     bind_r (exact_members s SIDECAR_KEYS ''PUBLIC_V2_SIDECAR_INVALID'') (\<lambda>sidecar.
     bind_r (require_kind_field sidecar None) (\<lambda>kind.
     bind_r (candidate_assert (strict_equal (lookup sidecar (js ''private_payload_schema'')) (JStr (private_payload_schema kind)))
       ''PUBLIC_V2_PRIVATE_SCHEMA_MISMATCH'') (\<lambda>_.
     bind_r (require_digest (lookup sidecar (js ''private_payload_sha256'')) ''PUBLIC_V2_PRIVATE_PAYLOAD_DIGEST_INVALID'') (\<lambda>_.
     bind_r (require_digest (lookup sidecar (js ''public_context_sha256'')) ''PUBLIC_V2_PUBLIC_CONTEXT_INVALID'') (\<lambda>_.
     bind_r (literal_field sidecar ''schema'' (JStr PRIVATE_SIDECAR_SCHEMA) ''PUBLIC_V2_SIDECAR_INVALID'') (\<lambda>_.
     bind_r (literal_field sidecar ''schema_version'' (JI 2) ''PUBLIC_V2_SIDECAR_INVALID'') (\<lambda>_.
       canonical_public_v2_snapshot decimal (JObj sidecar)))))))))"

definition parse_opening :: "(js_string \<Rightarrow> js_number) \<Rightarrow> json \<Rightarrow> json result" where
  "parse_opening decimal v =
     bind_r (canonical_public_v2_snapshot decimal v) (\<lambda>s.
     bind_r (exact_members s OPENING_KEYS ''PUBLIC_V2_OPENING_INVALID'') (\<lambda>opening.
     bind_r (literal_field opening ''schema'' (JStr PRIVATE_SIDECAR_OPENING_SCHEMA) ''PUBLIC_V2_OPENING_INVALID'') (\<lambda>_.
     bind_r (literal_field opening ''schema_version'' (JI 2) ''PUBLIC_V2_OPENING_INVALID'') (\<lambda>_.
     bind_r (string_field opening ''nonce_b64url'' ''PUBLIC_V2_NONCE_INVALID'' None) (\<lambda>n.
     bind_r (decode_nonce n) (\<lambda>_.
     bind_r (object_field opening ''sidecar'' ''PUBLIC_V2_OPENING_INVALID'') (\<lambda>sidecar.
     bind_r (parse_sidecar decimal (JObj sidecar)) (\<lambda>_.
       canonical_public_v2_snapshot decimal (JObj opening)))))))))"

text \<open>Big-endian bytes of a length. The writes into the preallocated frame are consecutive and fill it.\<close>

definition be_bytes :: "nat \<Rightarrow> nat \<Rightarrow> bytes" where
  "be_bytes k n = map (\<lambda>i. of_nat (n div 256 ^ (k - 1 - i))) [0..<k]"

definition commitment_frame :: "bytes \<Rightarrow> bytes \<Rightarrow> bytes" where
  "commitment_frame nonce sidecar_bytes =
     utf8_encode COMMITMENT_DOMAIN @ [0] @ be_bytes 4 (length nonce) @ nonce @ be_bytes 8 (length sidecar_bytes) @ sidecar_bytes"

definition sidecar_commitment :: "hash \<Rightarrow> (js_string \<Rightarrow> js_number) \<Rightarrow> bytes \<Rightarrow> json \<Rightarrow> js_string result" where
  "sidecar_commitment sha decimal nonce sidecar_value =
     bind_r (require_nonce nonce) (\<lambda>_.
     bind_r (parse_sidecar decimal sidecar_value) (\<lambda>sidecar.
     bind_r (canonical_public_v2_bytes sidecar) (\<lambda>bs.
       sha256_tagged sha (commitment_frame nonce bs))))"

definition public_context_digest :: "hash \<Rightarrow> sidecar_kind \<Rightarrow> json \<Rightarrow> js_string result" where
  "public_context_digest sha kind base =
     bind_r (canonical_public_v2_bytes base) (\<lambda>_.
       public_v2_id sha PUBLIC_CONTEXT_DOMAIN (JObj [(js ''document'', base), (js ''kind'', JStr (kind_text kind))]))"

definition strip_committed_document :: "(js_string \<Rightarrow> js_number) \<Rightarrow> json \<Rightarrow> sidecar_kind \<Rightarrow> json result" where
  "strip_committed_document decimal document kind =
     bind_r (canonical_public_v2_snapshot decimal document) (\<lambda>s.
     bind_r (candidate_assert (strict_equal (json_get s (js ''schema'')) (JStr (document_schema kind)))
       ''PUBLIC_V2_DOCUMENT_SCHEMA_MISMATCH'') (\<lambda>_.
     bind_r (require_digest (json_get s (js ''private_sidecar_commitment'')) ''PUBLIC_V2_COMMITMENT_INVALID'') (\<lambda>_.
     bind_r (require_digest (json_get s (js (terminal_id kind))) ''PUBLIC_V2_TERMINAL_ID_INVALID'') (\<lambda>_.
       case s of
         JObj kvs \<Rightarrow> Inr (JObj (clone_without kvs [''private_sidecar_commitment'', terminal_id kind]))
       | _ \<Rightarrow> Inl (Native TypeError)))))"

section \<open>Building and verifying an opening\<close>

record sidecar_opening =
  so_commitment :: js_string
  so_dispatch_safety :: js_string
  so_nonce_bytes :: bytes
  so_nonce_fingerprint :: js_string
  so_opening :: json
  so_opening_bytes :: bytes
  so_private_payload_bytes :: bytes
  so_sidecar :: json

definition sidecar_object :: "sidecar_kind \<Rightarrow> js_string \<Rightarrow> js_string \<Rightarrow> json" where
  "sidecar_object kind payload_digest context =
     JObj [(js ''kind'', JStr (kind_text kind)), (js ''private_payload_schema'', JStr (private_payload_schema kind)),
       (js ''private_payload_sha256'', JStr payload_digest), (js ''public_context_sha256'', JStr context),
       (js ''schema'', JStr PRIVATE_SIDECAR_SCHEMA), (js ''schema_version'', JI 2)]"

definition opening_object :: "js_string \<Rightarrow> json \<Rightarrow> json" where
  "opening_object nonce_text sidecar =
     JObj [(js ''nonce_b64url'', JStr nonce_text), (js ''schema'', JStr PRIVATE_SIDECAR_OPENING_SCHEMA),
       (js ''schema_version'', JI 2), (js ''sidecar'', sidecar)]"

definition build_sidecar_opening ::
  "hash \<Rightarrow> (js_string \<Rightarrow> js_number) \<Rightarrow> sidecar_kind \<Rightarrow> bytes \<Rightarrow> bytes \<Rightarrow> json \<Rightarrow> sidecar_opening result" where
  "build_sidecar_opening sha decimal kind nonce0 payload_bytes0 base0 =
     bind_r (copy_private_nonce nonce0) (\<lambda>nonce.
     bind_r (require_nonce nonce) (\<lambda>_.
     bind_r (copy_public_v2_bytes payload_bytes0 ''PUBLIC_V2_PRIVATE_PAYLOAD_SIZE_INVALID'') (\<lambda>payload_bytes.
     bind_r (parse_canonical_public_v2 decimal payload_bytes) (\<lambda>payload.
     bind_r (require_private_payload payload (private_payload_schema kind)) (\<lambda>_.
     bind_r (canonical_public_v2_snapshot decimal base0) (\<lambda>base.
     bind_r (sha256_tagged sha payload_bytes) (\<lambda>payload_digest.
     bind_r (public_context_digest sha kind base) (\<lambda>context.
     bind_r (canonical_public_v2_snapshot decimal (sidecar_object kind payload_digest context)) (\<lambda>sidecar.
     bind_r (encode_nonce nonce) (\<lambda>nonce_text.
     bind_r (canonical_public_v2_snapshot decimal (opening_object nonce_text sidecar)) (\<lambda>opening.
     bind_r (canonical_public_v2_bytes opening) (\<lambda>opening_bytes.
     bind_r (sidecar_commitment sha decimal nonce sidecar) (\<lambda>commitment.
     bind_r (sha256_tagged sha nonce) (\<lambda>fingerprint.
       Inr \<lparr>so_commitment = commitment, so_dispatch_safety = js ''UNPERSISTED_CANDIDATE_NOT_DISPATCH_SAFE'',
         so_nonce_bytes = nonce, so_nonce_fingerprint = fingerprint, so_opening = opening,
         so_opening_bytes = opening_bytes, so_private_payload_bytes = payload_bytes, so_sidecar = sidecar\<rparr>))))))))))))))"

text \<open>\<open>verifySidecarOpening\<close>: its second half, from the parsed opening on, is a definition of its own.\<close>

definition verify_opened ::
  "hash \<Rightarrow> (js_string \<Rightarrow> js_number) \<Rightarrow> sidecar_kind \<Rightarrow> bytes \<Rightarrow> json \<Rightarrow> json \<Rightarrow> js_string \<Rightarrow> members \<Rightarrow> unit result" where
  "verify_opened sha decimal kind payload_bytes payload document commitment opened =
     bind_r (object_field opened ''sidecar'' ''PUBLIC_V2_OPENING_INVALID'') (\<lambda>sidecar.
     bind_r (string_field opened ''nonce_b64url'' ''PUBLIC_V2_NONCE_INVALID'' None) (\<lambda>text.
     bind_r (decode_nonce text) (\<lambda>nonce.
     bind_r (require_kind_field sidecar (Some kind)) (\<lambda>_.
     bind_r (string_field sidecar ''private_payload_schema'' ''PUBLIC_V2_PRIVATE_SCHEMA_INVALID'' None) (\<lambda>schema.
     bind_r (candidate_assert (schema = private_payload_schema kind) ''PUBLIC_V2_PRIVATE_SCHEMA_MISMATCH'') (\<lambda>_.
     bind_r (require_private_payload payload schema) (\<lambda>_.
     bind_r (sha256_tagged sha payload_bytes) (\<lambda>payload_digest.
     bind_r (candidate_assert (strict_equal (lookup sidecar (js ''private_payload_sha256'')) (JStr payload_digest))
       ''PUBLIC_V2_PRIVATE_PAYLOAD_DIGEST_MISMATCH'') (\<lambda>_.
     bind_r (strip_committed_document decimal document kind) (\<lambda>base.
     bind_r (public_context_digest sha kind base) (\<lambda>context.
     bind_r (candidate_assert (strict_equal (lookup sidecar (js ''public_context_sha256'')) (JStr context))
       ''PUBLIC_V2_PUBLIC_CONTEXT_MISMATCH'') (\<lambda>_.
     bind_r (sidecar_commitment sha decimal nonce (JObj sidecar)) (\<lambda>expected.
       candidate_assert (commitment = expected) ''PUBLIC_V2_COMMITMENT_MISMATCH'')))))))))))))"

definition verify_sidecar_opening ::
  "hash \<Rightarrow> (js_string \<Rightarrow> js_number) \<Rightarrow> sidecar_kind \<Rightarrow> json \<Rightarrow> bytes \<Rightarrow> json \<Rightarrow> unit result" where
  "verify_sidecar_opening sha decimal kind opening0 payload_bytes0 document0 =
     bind_r (copy_public_v2_bytes payload_bytes0 ''PUBLIC_V2_PRIVATE_PAYLOAD_SIZE_INVALID'') (\<lambda>payload_bytes.
     bind_r (parse_canonical_public_v2 decimal payload_bytes) (\<lambda>payload.
     bind_r (canonical_public_v2_snapshot decimal document0) (\<lambda>document.
     bind_r (require_digest (json_get document (js ''private_sidecar_commitment'')) ''PUBLIC_V2_COMMITMENT_INVALID'') (\<lambda>commitment.
     bind_r (parse_opening decimal opening0) (\<lambda>opened.
       case opened of
         JObj kvs \<Rightarrow> verify_opened sha decimal kind payload_bytes payload document commitment kvs
       | _ \<Rightarrow> Inl (Native TypeError))))))"

end
