(* ===== verification/PublicSidecarExact.thy ===== *)
theory PublicSidecarExact imports PublicSidecar HeadProof begin

text \<open>
  What the sidecar codec guarantees: base64url text and nonce determine each other, an opening that was
  built verifies against the document sealed with its commitment, and a verified opening binds the
  document, the private payload and the nonce.
\<close>

section \<open>Base64url\<close>

fun sextets :: "bytes \<Rightarrow> nat list" where
  "sextets [] = []"
| "sextets [a] = (let n = unat a * 16 in [n div 64, n mod 64])"
| "sextets [a, b] = (let n = (unat a * 256 + unat b) * 4 in [n div 4096, n div 64 mod 64, n mod 64])"
| "sextets (a # b # c # bs) =
     (let n = (unat a * 256 + unat b) * 256 + unat c in
      [n div 262144, n div 4096 mod 64, n div 64 mod 64, n mod 64] @ sextets bs)"

lemma btoa_sextets: "btoa bs = map b64_char (sextets bs) @ replicate ((3 - length bs mod 3) mod 3) 0x3D"
proof (induction bs rule: sextets.induct)
  case (4 a b c bs)
  have "length (a # b # c # bs) mod 3 = length bs mod 3" by (simp add: mod_add_self2 [of "length bs" 3, simplified])
  then show ?case using 4 by (simp only: btoa.simps sextets.simps Let_def map_append list.map append_assoc)
qed (simp_all add: Let_def numeral_2_eq_2)

lemma sextets_small: "x \<in> set (sextets bs) \<Longrightarrow> x < 64"
proof (induction bs rule: sextets.induct)
  case (4 a b c bs)
  obtain n where n: "n = (unat a * 256 + unat b) * 256 + unat c" by simp
  have "unat a \<le> 255" "unat b \<le> 255" "unat c \<le> 255"
    using byte_less [of a] byte_less [of b] byte_less [of c] by simp_all
  then have "n < 64 * 262144" unfolding n by simp
  then have "n div 262144 < 64" by (rule less_mult_imp_div_less)
  with 4 show ?case by (auto simp only: sextets.simps Let_def n [symmetric] set_append Un_iff list.set insert_iff empty_iff; simp)
next
  case (3 a b)
  obtain n where n: "n = (unat a * 256 + unat b) * 4" by simp
  have "unat a \<le> 255" "unat b \<le> 255" using byte_less [of a] byte_less [of b] by simp_all
  then have "n < 64 * 4096" unfolding n by simp
  then have "n div 4096 < 64" by (rule less_mult_imp_div_less)
  with 3 show ?case by (auto simp only: sextets.simps Let_def n [symmetric] list.set insert_iff empty_iff; simp)
next
  case (2 a)
  obtain n where n: "n = unat a * 16" by simp
  have "unat a \<le> 255" using byte_less [of a] by simp
  then have "n < 64 * 64" unfolding n by simp
  then have "n div 64 < 64" by (rule less_mult_imp_div_less)
  with 2 show ?case by (auto simp only: sextets.simps Let_def n [symmetric] list.set insert_iff empty_iff; simp)
qed simp

lemma length_sextets: "length (sextets bs) = (4 * length bs + 2) div 3"
  by (induction bs rule: sextets.induct) (simp_all add: Let_def)

lemma byte_of_nat: "m mod 256 = unat (b :: byte) \<Longrightarrow> of_nat m = b"
  by (metis unat_byte_mod word_unat_eq_iff)

lemma join_sextets:
  "(((n :: nat) div 262144) * 64 + n div 4096 mod 64) * 64 + n div 64 mod 64 = n div 64"
  "((n div 4096) * 64 + n div 64 mod 64) * 64 + n mod 64 = n"
proof -
  have d: "n div 4096 = n div 64 div 64" "n div 262144 = n div 64 div 64 div 64" by (simp_all add: div_mult2_eq [symmetric])
  show "((n div 4096) * 64 + n div 64 mod 64) * 64 + n mod 64 = n" unfolding d by (simp add: div_mult_mod_eq)
  show "(n div 262144 * 64 + n div 4096 mod 64) * 64 + n div 64 mod 64 = n div 64" unfolding d by (simp add: div_mult_mod_eq)
qed

lemma atob_sextets: "atob_groups (sextets bs) = Some bs"
proof (induction bs rule: sextets.induct)
  case (2 a)
  have "(unat a * 16 div 64 * 64 + unat a * 16 mod 64) div 16 = unat a" unfolding div_mult_mod_eq by simp
  then show ?case by (simp only: sextets.simps Let_def atob_groups.simps) simp
next
  case (3 a b)
  let ?n = "(unat a * 256 + unat b) * 4"
  have "((?n div 4096 * 64 + ?n div 64 mod 64) * 64 + ?n mod 64) div 4 = unat a * 256 + unat b"
    unfolding join_sextets by simp
  moreover have "[of_nat ((unat a * 256 + unat b) div 256), of_nat (unat a * 256 + unat b)] = [a, b]"
    using byte_less [of b] byte_of_nat [of "(unat a * 256 + unat b) div 256" a] byte_of_nat [of "unat a * 256 + unat b" b]
    by simp
  ultimately show ?case by (simp only: sextets.simps Let_def atob_groups.simps)
next
  case (4 a b c bs)
  let ?n = "(unat a * 256 + unat b) * 256 + unat c"
  have j: "((?n div 262144 * 64 + ?n div 4096 mod 64) * 64 + ?n div 64 mod 64) * 64 + ?n mod 64 = ?n"
    unfolding join_sextets(1) by (rule div_mult_mod_eq)
  have n2: "?n div 256 = unat a * 256 + unat b" using byte_less [of c] by simp
  have "?n div 65536 = ?n div 256 div 256" by (simp only: div_mult2_eq [symmetric]) simp
  then have n: "?n div 65536 = unat a" "?n div 256 = unat a * 256 + unat b"
    unfolding n2 using byte_less [of b] by simp_all
  have l1: "of_nat (?n div 65536) = a" unfolding n by simp
  have l2: "of_nat (?n div 256) = b" by (rule byte_of_nat) (unfold n, use byte_less [of b] in simp)
  have l3: "of_nat ?n = c" by (rule byte_of_nat) (simp only: mod_mult_self3 mod_less byte_less)
  show ?case
    by (simp only: sextets.simps Let_def atob_groups.simps append.simps j option.map 4 [OF HOL.refl] l1 l2 l3)
qed simp

lemma b64_table:
  "list_all (\<lambda>n. b64_value (b64_char n) = Some n \<and> b64_char n \<noteq> 0x3D \<and> b64_char n \<noteq> 0x2D \<and> b64_char n \<noteq> 0x5F \<and>
     in_cls ''AZaz09__--'' (if b64_char n = 0x2B then 0x2D else if b64_char n = 0x2F then 0x5F else b64_char n)) [0..<64]"
  by code_simp

lemma b64_char_value:
  assumes "n < 64"
  shows "b64_value (b64_char n) = Some n" and "b64_char n \<noteq> 0x3D" and "b64_char n \<noteq> 0x2D" and "b64_char n \<noteq> 0x5F"
    and "in_cls ''AZaz09__--'' (if b64_char n = 0x2B then 0x2D else if b64_char n = 0x2F then 0x5F else b64_char n)"
  using b64_table assms by (auto simp: list_all_iff)

definition url_unit :: "code_unit \<Rightarrow> code_unit" where
  "url_unit c = (if c = 0x2B then 0x2D else if c = 0x2F then 0x5F else c)"

definition nonce_text :: "bytes \<Rightarrow> js_string" where
  "nonce_text nonce = map (\<lambda>n. url_unit (b64_char n)) (sextets nonce)"

lemma require_nonce_eq_Inr [result_simps]: "require_nonce n = Inr u \<longleftrightarrow> length n = 32 \<and> (\<exists>b \<in> set n. b \<noteq> 0)"
  by (simp add: require_nonce_def result_simps list_ex_iff)

lemma url_replaced: "replace_unit 0x2F 0x5F (replace_unit 0x2B 0x2D s) = map url_unit s"
  by (auto simp: replace_unit_def url_unit_def)

lemma url_unit_back:
  assumes "n < 64"
  shows "(if (if url_unit (b64_char n) = 0x2D then 0x2B else url_unit (b64_char n)) = 0x5F then 0x2F
     else if url_unit (b64_char n) = 0x2D then 0x2B else url_unit (b64_char n)) = b64_char n"
  using b64_char_value(3,4) [OF assms] by (auto simp: url_unit_def)

lemma replaced_back: "replace_unit 0x5F 0x2F (replace_unit 0x2D 0x2B (nonce_text nonce)) = map b64_char (sextets nonce)"
  unfolding replace_unit_def nonce_text_def map_map comp_def
  by (rule map_cong [OF HOL.refl]) (rule url_unit_back [OF sextets_small])

lemma dropWhile_rev_keep:
  assumes "\<forall>c \<in> set s. c \<noteq> x"
  shows "rev (dropWhile (\<lambda>c. c = x) (rev (s @ replicate k x))) = s"
proof -
  have "dropWhile (\<lambda>c. c = x) (rev s) = rev s"
    using assms by (cases "rev s") (auto simp: dropWhile_eq_self_iff dest: arg_cong [of _ _ set])
  moreover have "dropWhile (\<lambda>c. c = x) (replicate k x @ rev s) = dropWhile (\<lambda>c. c = x) (rev s)"
    by (induction k) simp_all
  ultimately show ?thesis by simp
qed

lemma encode_nonce_iff: "encode_nonce n = Inr s \<longleftrightarrow> length n = 32 \<and> (\<exists>b \<in> set n. b \<noteq> 0) \<and> s = nonce_text n"
proof (cases "length n = 32")
  case True
  have "map url_unit (btoa n) = nonce_text n @ replicate 1 0x3D"
    by (simp add: btoa_sextets True nonce_text_def url_unit_def)
  moreover have "\<forall>c \<in> set (nonce_text n). c \<noteq> 0x3D"
    using b64_char_value(2) [OF sextets_small] by (auto simp: nonce_text_def url_unit_def)
  moreover have "length (nonce_text n) = 43" by (simp add: nonce_text_def length_sextets True)
  ultimately have "rev (dropWhile (\<lambda>c. c = 0x3D) (rev (map url_unit (btoa n)))) = nonce_text n" "length (nonce_text n) = 43"
    using dropWhile_rev_keep [of "nonce_text n" "0x3D" 1] by simp_all
  then show ?thesis by (auto simp: encode_nonce_def result_simps url_replaced Let_def)
qed (simp add: encode_nonce_def result_simps)

lemma those_b64: "(\<And>x. x \<in> set xs \<Longrightarrow> x < 64) \<Longrightarrow> those (map b64_value (map b64_char xs)) = Some xs"
  by (induction xs) (simp_all add: b64_char_value)

lemma decode_nonce_iff: "decode_nonce s = Inr n \<longleftrightarrow> encode_nonce n = Inr s"
proof
  assume "decode_nonce s = Inr n"
  then show "encode_nonce n = Inr s"
    by (auto simp: decode_nonce_def bind_r_eq_Inr candidate_assert_eq_Inr)
next
  assume e: "encode_nonce n = Inr s"
  then have n: "length n = 32" "\<exists>b \<in> set n. b \<noteq> 0" "s = nonce_text n" by (simp_all add: encode_nonce_iff)
  have len: "length (sextets n) = 43" by (simp add: length_sextets n)
  have "in_cls ''AZaz09__--'' (url_unit (b64_char x))" if "x \<in> set (sextets n)" for x
    unfolding url_unit_def by (rule b64_char_value(5) [OF sextets_small [OF that]])
  with len have m: "matches NONCE_TEXT s"
    by (auto simp: NONCE_TEXT_def matches_Rep_Cls n(3) nonce_text_def simp del: in_cls.simps)
  obtain ts t where ts: "map b64_char (sextets n) = ts @ [t]" using len
    by (metis length_0_conv map_is_Nil_conv rev_exhaust zero_neq_numeral)
  have "t \<in> set (map b64_char (sextets n))" by (simp only: ts) simp
  then have t: "t \<noteq> 0x3D" using b64_char_value(2) [OF sextets_small] by auto
  have "length ts = 42" using arg_cong [OF ts, of length] len by simp
  with t have "strip_padding (map b64_char (sextets n) @ [0x3D]) = map b64_char (sextets n)"
    unfolding ts by (simp add: strip_padding_def)
  moreover have "those (map b64_value (map b64_char (sextets n))) = Some (sextets n)"
    by (rule those_b64) (rule sextets_small)
  ultimately have "atob (map b64_char (sextets n) @ [0x3D]) = Some n" by (simp add: atob_def atob_sextets)
  with e m n show "decode_nonce s = Inr n"
    by (simp add: decode_nonce_def replaced_back require_nonce_def list_ex_iff)
qed

section \<open>What the parsers accept\<close>

lemma normal_members:
  assumes "well_formed (JObj kvs)"
  obtains kvs' where "normalise (JObj kvs) = JObj kvs'" "well_formed (JObj kvs')" "set (map fst kvs') = set (map fst kvs)"
    "\<And>k. lookup kvs' k = normalise (lookup kvs k)"
proof -
  let ?m = "sort_key fst (map (map_prod id normalise) kvs)"
  have n: "normalise (JObj kvs) = JObj ?m" by simp
  note wf = normalise_well_formed [OF assms, unfolded n]
  have eq: "normalise (JObj kvs) = normalise (JObj ?m)" unfolding n [symmetric] normalise_idem ..
  have "lookup ?m k = normalise (lookup kvs k)" for k
    using lookup_normalise [of kvs k] assms by (simp only: n json_get_def json.case well_formed.simps)
  with that [OF n wf] same_lookup(2) [OF eq assms wf] show thesis by blast
qed

lemma exact_members_wf:
  assumes "well_formed v" and "distinct keys"
  shows "exact_members v keys code = Inr kvs \<longleftrightarrow> v = JObj kvs \<and> set (map fst kvs) = js ` set keys"
proof (cases "v = JObj kvs")
  case True
  with assms(1) have "distinct (map fst kvs)" by simp
  from sorted_keys_iff [OF this assms(2)] show ?thesis by (simp only: exact_members_eq_Inr)
qed (simp add: exact_members_eq_Inr)

lemma canonical_public_normalise: "canonical_public_v2_bytes (normalise v) = Inr bs \<longleftrightarrow> canonical_public_v2_bytes v = Inr bs"
  using canonical_bytes_normalise [OF normalise_idem, of v] by (simp add: canonical_public_v2_bytes_iff)

lemma normalise_two: "normalise v = JI 2 \<longleftrightarrow> v = JI 2"
  by (simp add: normalise_leaf)

lemma normal_two: "strict_equal (normalise v) (JI 2) \<longleftrightarrow> v = JI 2"
  by (cases v) (auto simp: strict_equal_JI JI_def number_int_def split: js_number.splits)

lemma strict_equal_two [simp]: "strict_equal (JI 2) (JI 2)"
  by (simp add: JI_def)

lemma require_kind_eq_Inr [result_simps]: "require_kind s = Inr k \<longleftrightarrow> s = kind_text k"
proof -
  have inj: "kind_text a = kind_text b \<longleftrightarrow> a = b" for a b by (cases a; cases b) simp_all
  show ?thesis
    by (cases k) (auto simp: require_kind_def SIDECAR_KINDS_def split: if_splits)
qed

lemma require_kind_field_eq_Inr [result_simps]:
  "require_kind_field sidecar expected = Inr k \<longleftrightarrow>
     lookup sidecar (js ''kind'') = JStr (kind_text k) \<and> (expected = None \<or> expected = Some k)"
  by (auto simp: require_kind_field_def result_simps)

text \<open>The members a sidecar has: its kind fixes the schema of the payload, and the two digests are its content.\<close>

definition sidecar_members :: "members \<Rightarrow> sidecar_kind \<Rightarrow> js_string \<Rightarrow> js_string \<Rightarrow> bool" where
  "sidecar_members kvs kind pd ctx \<longleftrightarrow>
     set (map fst kvs) = js ` set SIDECAR_KEYS \<and> lookup kvs (js ''kind'') = JStr (kind_text kind) \<and>
     lookup kvs (js ''private_payload_schema'') = JStr (private_payload_schema kind) \<and>
     lookup kvs (js ''private_payload_sha256'') = JStr pd \<and> matches DIGEST pd \<and>
     lookup kvs (js ''public_context_sha256'') = JStr ctx \<and> matches DIGEST ctx \<and>
     lookup kvs (js ''schema'') = JStr PRIVATE_SIDECAR_SCHEMA \<and> lookup kvs (js ''schema_version'') = JI 2"

lemma snapshot_object: "canonical_public_v2_snapshot decimal v = Inr s \<Longrightarrow> \<exists>kvs. v = JObj kvs"
  by (cases v) (auto simp: canonical_public_v2_snapshot_def canonical_public_v2_bytes_iff canonical_bytes_def
      canonical_json_def is_json_object_def bind_r_eq_Inr)

definition is_sidecar :: "members \<Rightarrow> bool" where
  "is_sidecar kvs \<longleftrightarrow> (\<exists>kind pd ctx. sidecar_members kvs kind pd ctx)"

lemma parse_sidecar_iff:
  assumes "well_formed v"
  shows "parse_sidecar decimal v = Inr w \<longleftrightarrow>
     w = normalise v \<and> (\<exists>bs. canonical_public_v2_bytes v = Inr bs) \<and>
     (\<exists>kvs. v = JObj kvs \<and> is_sidecar kvs)"
proof (cases v)
  case (JObj kvs)
  obtain kvs' where n: "normalise v = JObj kvs'" "well_formed (JObj kvs')" "set (map fst kvs') = set (map fst kvs)"
    "\<And>k. lookup kvs' k = normalise (lookup kvs k)"
    using normal_members assms JObj by metis
  have d: "distinct SIDECAR_KEYS" by (simp add: SIDECAR_KEYS_def)
  have nn: "normalise (JObj kvs') = JObj kvs'" using normalise_idem [of v] n(1) by simp
  have bytes: "canonical_public_v2_bytes (JObj kvs') = Inr bs \<longleftrightarrow> canonical_public_v2_bytes v = Inr bs" for bs
    unfolding n(1) [symmetric] by (rule canonical_public_normalise)
  have snap: "canonical_public_v2_snapshot decimal v = Inr s \<longleftrightarrow> s = JObj kvs' \<and> (\<exists>bs. canonical_public_v2_bytes v = Inr bs)"
    "canonical_public_v2_snapshot decimal (JObj kvs') = Inr s \<longleftrightarrow> s = JObj kvs' \<and> (\<exists>bs. canonical_public_v2_bytes v = Inr bs)" for s
    unfolding canonical_public_v2_snapshot_iff [OF assms] canonical_public_v2_snapshot_iff [OF n(2)] nn n(1) bytes by (rule HOL.refl)+
  have fields: "lookup kvs' (js k) = JStr u \<longleftrightarrow> lookup kvs (js k) = JStr u" for k u by (simp add: n(4) normalise_leaf)
  show ?thesis
  proof
    assume "parse_sidecar decimal v = Inr w"
    then show "w = normalise v \<and> (\<exists>bs. canonical_public_v2_bytes v = Inr bs) \<and>
        (\<exists>kvs. v = JObj kvs \<and> is_sidecar kvs)"
      unfolding parse_sidecar_def
      by (elim bind_r_InrE, simp only: snap exact_members_wf [OF n(2) d], elim conjE, simp only: json.inject,
          hypsubst, simp only: snap)
        (auto simp only: result_simps JObj json.inject fields n(3,4) n(1) [unfolded JObj] normalise_leaf normal_two
          is_sidecar_def sidecar_members_def strict_equal_str simp_thms)
  next
    assume a: "w = normalise v \<and> (\<exists>bs. canonical_public_v2_bytes v = Inr bs) \<and>
        (\<exists>kvs. v = JObj kvs \<and> is_sidecar kvs)"
    then obtain kind pd ctx where m: "sidecar_members kvs kind pd ctx" using JObj by (auto simp: is_sidecar_def)
    have f: "lookup kvs' (js ''kind'') = JStr (kind_text kind)"
      "lookup kvs' (js ''private_payload_schema'') = JStr (private_payload_schema kind)"
      "lookup kvs' (js ''private_payload_sha256'') = JStr pd" "lookup kvs' (js ''public_context_sha256'') = JStr ctx"
      "lookup kvs' (js ''schema'') = JStr PRIVATE_SIDECAR_SCHEMA" "strict_equal (lookup kvs' (js ''schema_version'')) (JI 2)"
      "matches DIGEST pd" "matches DIGEST ctx" "set (map fst kvs') = js ` set SIDECAR_KEYS"
      using m by (simp_all only: sidecar_members_def fields n(3,4) normal_two normalise.simps simp_thms)
    have "require_kind_field kvs' None = Inr kind" by (simp add: require_kind_field_eq_Inr f)
    moreover have "exact_members (JObj kvs') SIDECAR_KEYS code = Inr kvs'" for code
      unfolding exact_members_wf [OF n(2) d] using f(9) by simp
    moreover have "literal_field kvs' ''schema'' (JStr PRIVATE_SIDECAR_SCHEMA) code = Inr ()"
      "literal_field kvs' ''schema_version'' (JI 2) code = Inr ()" for code
      by (simp_all only: field_readers_eq_Inr f strict_equal_str)
    moreover have "canonical_public_v2_snapshot decimal v = Inr (JObj kvs')"
      "canonical_public_v2_snapshot decimal (JObj kvs') = Inr (JObj kvs')" using snap a by auto
    ultimately show "parse_sidecar decimal v = Inr w"
      using a by (simp add: parse_sidecar_def f require_digest_def n(1))
  qed
qed (auto simp: parse_sidecar_def bind_r_eq_Inr dest: snapshot_object)

lemma sidecar_members_normalise:
  assumes "well_formed (JObj kvs)" and "normalise (JObj kvs) = JObj kvs'"
  shows "sidecar_members kvs' kind pd ctx \<longleftrightarrow> sidecar_members kvs kind pd ctx"
proof -
  obtain ms where n: "normalise (JObj kvs) = JObj ms" "set (map fst ms) = set (map fst kvs)"
    "\<And>k. lookup ms k = normalise (lookup kvs k)" using normal_members [OF assms(1)] by metis
  then have "ms = kvs'" using assms(2) by simp
  with n(2,3) show ?thesis by (simp only: sidecar_members_def normalise_leaf normalise_two)
qed

definition opening_members :: "members \<Rightarrow> bytes \<Rightarrow> members \<Rightarrow> bool" where
  "opening_members kvs nonce sidecar \<longleftrightarrow>
     set (map fst kvs) = js ` set OPENING_KEYS \<and> lookup kvs (js ''schema'') = JStr PRIVATE_SIDECAR_OPENING_SCHEMA \<and>
     lookup kvs (js ''schema_version'') = JI 2 \<and> length nonce = 32 \<and> (\<exists>b \<in> set nonce. b \<noteq> 0) \<and>
     lookup kvs (js ''nonce_b64url'') = JStr (nonce_text nonce) \<and> lookup kvs (js ''sidecar'') = JObj sidecar"

lemma parse_opening_iff:
  assumes "well_formed v"
  shows "parse_opening decimal v = Inr w \<longleftrightarrow>
     w = normalise v \<and> (\<exists>bs. canonical_public_v2_bytes v = Inr bs) \<and>
     (\<exists>kvs nonce sidecar bs. v = JObj kvs \<and> opening_members kvs nonce sidecar \<and>
        is_sidecar sidecar \<and> canonical_public_v2_bytes (JObj sidecar) = Inr bs)"
proof (cases v)
  case (JObj kvs)
  obtain kvs' where n: "normalise v = JObj kvs'" "well_formed (JObj kvs')" "set (map fst kvs') = set (map fst kvs)"
    "\<And>k. lookup kvs' k = normalise (lookup kvs k)"
    using normal_members assms JObj by metis
  have d: "distinct OPENING_KEYS" by (simp add: OPENING_KEYS_def)
  have nn: "normalise (JObj kvs') = JObj kvs'" using normalise_idem [of v] n(1) by simp
  have bytes: "canonical_public_v2_bytes (JObj kvs') = Inr bs \<longleftrightarrow> canonical_public_v2_bytes v = Inr bs" for bs
    unfolding n(1) [symmetric] by (rule canonical_public_normalise)
  have snap: "canonical_public_v2_snapshot decimal v = Inr s \<longleftrightarrow> s = JObj kvs' \<and> (\<exists>bs. canonical_public_v2_bytes v = Inr bs)"
    "canonical_public_v2_snapshot decimal (JObj kvs') = Inr s \<longleftrightarrow> s = JObj kvs' \<and> (\<exists>bs. canonical_public_v2_bytes v = Inr bs)" for s
    unfolding canonical_public_v2_snapshot_iff [OF assms] canonical_public_v2_snapshot_iff [OF n(2)] nn n(1) bytes by (rule HOL.refl)+
  have fields: "lookup kvs' (js k) = JStr u \<longleftrightarrow> lookup kvs (js k) = JStr u" for k u by (simp add: n(4) normalise_leaf)
  have wf: "well_formed (lookup kvs k)" for k using well_formed_lookup assms JObj by metis
  have side: "lookup kvs' (js ''sidecar'') = JObj s \<and> parse_sidecar decimal (JObj s) = Inr u \<longleftrightarrow>
      (\<exists>sidecar bs. lookup kvs (js ''sidecar'') = JObj sidecar \<and> normalise (JObj sidecar) = JObj s \<and>
        u = JObj s \<and> is_sidecar sidecar \<and> canonical_public_v2_bytes (JObj sidecar) = Inr bs)" for s u
  proof (cases "lookup kvs (js ''sidecar'')")
    case (JObj sidecar)
    note wfs = wf [of "js ''sidecar''", unfolded JObj]
    obtain ms where m: "normalise (JObj sidecar) = JObj ms" "well_formed (JObj ms)"
      using normal_members [OF wfs] by metis
    have "normalise (JObj ms) = JObj ms" using normalise_idem [of "JObj sidecar"] m(1) by simp
    moreover have "is_sidecar ms = is_sidecar sidecar"
      using sidecar_members_normalise [OF wfs m(1)] by (simp add: is_sidecar_def)
    ultimately have "parse_sidecar decimal (JObj ms) = Inr u \<longleftrightarrow> u = JObj ms \<and>
        (\<exists>bs. canonical_public_v2_bytes (JObj sidecar) = Inr bs) \<and> is_sidecar sidecar"
      using parse_sidecar_iff [OF m(2), of decimal u] canonical_public_normalise [of "JObj sidecar", unfolded m(1)]
      by (simp del: normalise.simps)
    moreover have "lookup kvs' (js ''sidecar'') = JObj s \<longleftrightarrow> s = ms" using m(1) JObj by (auto simp only: n(4) json.inject)
    ultimately show ?thesis using m(1) JObj by (cases "s = ms") (auto simp del: normalise.simps)
  qed (simp_all add: n(4))
  show ?thesis
  proof
    assume "parse_opening decimal v = Inr w"
    then obtain nt nonce s u where o: "w = JObj kvs'" "\<exists>bs. canonical_public_v2_bytes v = Inr bs"
      "set (map fst kvs') = js ` set OPENING_KEYS" "strict_equal (lookup kvs' (js ''schema'')) (JStr PRIVATE_SIDECAR_OPENING_SCHEMA)"
      "strict_equal (lookup kvs' (js ''schema_version'')) (JI 2)" "lookup kvs' (js ''nonce_b64url'') = JStr nt"
      "decode_nonce nt = Inr nonce" "lookup kvs' (js ''sidecar'') = JObj s" "parse_sidecar decimal (JObj s) = Inr u"
      unfolding parse_opening_def
      by (elim bind_r_InrE, simp only: snap exact_members_wf [OF n(2) d], elim conjE, simp only: json.inject,
          hypsubst, simp only: snap field_readers_eq_Inr)
    then have "opening_members kvs nonce sidecar" if "lookup kvs (js ''sidecar'') = JObj sidecar" for sidecar
      using that by (simp add: opening_members_def fields n(3,4) normal_two strict_equal_str decode_nonce_iff encode_nonce_iff
          normalise_leaf del: set_map)
    then show "w = normalise v \<and> (\<exists>bs. canonical_public_v2_bytes v = Inr bs) \<and>
      (\<exists>kvs nonce sidecar bs. v = JObj kvs \<and> opening_members kvs nonce sidecar \<and>
        is_sidecar sidecar \<and> canonical_public_v2_bytes (JObj sidecar) = Inr bs)"
      using side [of s u] o(1,2,8,9) n(1) JObj by auto
  next
    assume a: "w = normalise v \<and> (\<exists>bs. canonical_public_v2_bytes v = Inr bs) \<and>
      (\<exists>kvs nonce sidecar bs. v = JObj kvs \<and> opening_members kvs nonce sidecar \<and>
        is_sidecar sidecar \<and> canonical_public_v2_bytes (JObj sidecar) = Inr bs)"
    then obtain nonce sidecar bs where m: "opening_members kvs nonce sidecar"
      "is_sidecar sidecar" "canonical_public_v2_bytes (JObj sidecar) = Inr bs" using JObj by auto
    obtain s where s: "normalise (JObj sidecar) = JObj s" by simp
    have "lookup kvs' (js ''sidecar'') = JObj s" "parse_sidecar decimal (JObj s) = Inr (JObj s)"
      using side [of s "JObj s"] m s by (auto simp: opening_members_def)
    moreover have "exact_members (JObj kvs') OPENING_KEYS code = Inr kvs'" for code
      unfolding exact_members_wf [OF n(2) d] using m(1) by (simp add: opening_members_def n(3) del: set_map)
    moreover have "literal_field kvs' ''schema'' (JStr PRIVATE_SIDECAR_OPENING_SCHEMA) code = Inr ()"
      "literal_field kvs' ''schema_version'' (JI 2) code = Inr ()"
      "string_field kvs' ''nonce_b64url'' code None = Inr (nonce_text nonce)" for code
      using m(1) by (simp_all add: field_readers_eq_Inr opening_members_def fields n(4) normal_two)
    moreover have "decode_nonce (nonce_text nonce) = Inr nonce"
      using m(1) by (simp add: decode_nonce_iff encode_nonce_iff opening_members_def)
    moreover have "canonical_public_v2_snapshot decimal v = Inr (JObj kvs')"
      "canonical_public_v2_snapshot decimal (JObj kvs') = Inr (JObj kvs')" using snap a by auto
    ultimately show "parse_opening decimal v = Inr w"
      using a by (simp add: parse_opening_def object_field_def n(1))
  qed
qed (auto simp: parse_opening_def bind_r_eq_Inr dest: snapshot_object)

section \<open>When an opening verifies\<close>

lemma sha256_tag_hex: "sha256_tag sha bs = js ''sha256:'' @ hex_bytes (sha bs)"
  by (simp add: sha256_tag_def sha256_hex_def)

definition derived_fields :: "sidecar_kind \<Rightarrow> string list" where
  "derived_fields kind = [''private_sidecar_commitment'', terminal_id kind]"

lemma clone_without_normalise:
  assumes "normalise (JObj kvs) = JObj kvs'"
  shows "JObj (clone_without kvs' ks) = normalise (JObj (clone_without kvs ks))"
proof -
  have "kvs' = sort_key fst (map (map_prod id normalise) kvs)" using assms by simp
  then show ?thesis
    by (simp add: clone_without_def filter_sort filter_map comp_def case_prod_unfold)
qed

lemma well_formed_clone: "well_formed (JObj kvs) \<Longrightarrow> well_formed (JObj (clone_without kvs ks))"
  unfolding well_formed_JObj clone_without_def by (auto simp: distinct_map_filter)

lemma strip_committed_document_iff:
  assumes "well_formed (JObj kvs)"
  shows "strip_committed_document decimal (JObj kvs) kind = Inr b \<longleftrightarrow>
     (\<exists>bs. canonical_public_v2_bytes (JObj kvs) = Inr bs) \<and> lookup kvs (js ''schema'') = JStr (document_schema kind) \<and>
     (\<exists>c. lookup kvs (js ''private_sidecar_commitment'') = JStr c \<and> matches DIGEST c) \<and>
     (\<exists>c. lookup kvs (js (terminal_id kind)) = JStr c \<and> matches DIGEST c) \<and>
     b = normalise (JObj (clone_without kvs (derived_fields kind)))"
proof -
  obtain kvs' where n: "normalise (JObj kvs) = JObj kvs'" "\<And>k. lookup kvs' k = normalise (lookup kvs k)"
    using normal_members [OF assms] by metis
  have get: "json_get (JObj kvs') k = normalise (lookup kvs k)" for k by (simp add: json_get_def n(2))
  show ?thesis
    unfolding strip_committed_document_def bind_r_eq_Inr canonical_public_v2_snapshot_iff [OF assms] n(1)
      clone_without_normalise [OF n(1), symmetric] derived_fields_def
    by (auto simp: get result_simps normalise_leaf)
qed

lemma public_context_digest_iff:
  "public_context_digest sha kind base = Inr d \<longleftrightarrow>
     (\<exists>bs. canonical_public_v2_bytes base = Inr bs) \<and>
     public_v2_id sha PUBLIC_CONTEXT_DOMAIN (JObj [(js ''document'', base), (js ''kind'', JStr (kind_text kind))]) = Inr d"
  by (simp add: public_context_digest_def bind_r_eq_Inr)

lemma context_normalise: "public_context_digest sha kind (normalise base) = Inr d \<longleftrightarrow> public_context_digest sha kind base = Inr d"
proof -
  let ?e = "\<lambda>b. envelope PUBLIC_CONTEXT_DOMAIN (JObj [(js ''document'', b), (js ''kind'', JStr (kind_text kind))])"
  have s: "sort_key fst [(js ''document'', x), (js ''kind'', y)] = [(js ''document'', x), (js ''kind'', y)]" for x y :: json
    by (simp add: js_def)
  have "normalise (?e (normalise base)) = normalise (?e base)"
    by (simp only: envelope_def normalise.simps list.map map_prod_simp id_apply s normalise_idem)
  then have "canonical_bytes (?e (normalise base)) = canonical_bytes (?e base)" by (rule canonical_bytes_normalise)
  then have "canonical_public_v2_bytes (?e (normalise base)) = Inr bs \<longleftrightarrow> canonical_public_v2_bytes (?e base) = Inr bs" for bs
    by (simp only: canonical_public_v2_bytes_iff)
  then show ?thesis
    unfolding public_context_digest_iff public_v2_id_eq_Inr canonical_public_normalise by simp
qed

lemma sidecar_commitment_iff:
  assumes "well_formed (JObj sidecar)"
  shows "sidecar_commitment sha decimal nonce (JObj sidecar) = Inr c \<longleftrightarrow>
     length nonce = 32 \<and> (\<exists>b \<in> set nonce. b \<noteq> 0) \<and> is_sidecar sidecar \<and>
     (\<exists>bs. canonical_public_v2_bytes (JObj sidecar) = Inr bs \<and>
        length (commitment_frame nonce bs) \<le> PUBLIC_V2_MAX_BYTES \<and> c = sha256_tag sha (commitment_frame nonce bs))"
proof -
  have "1 \<le> length (commitment_frame nonce bs)" for bs by (simp add: commitment_frame_def)
  then show ?thesis
    unfolding sidecar_commitment_def bind_r_eq_Inr parse_sidecar_iff [OF assms]
    by (auto simp: require_nonce_eq_Inr canonical_public_normalise sha256_tagged_eq_Inr sha256_tag_hex
        simp del: normalise.simps)
qed

lemma sidecar_commitment_tag: "sidecar_commitment sha decimal nonce v = Inr c \<Longrightarrow> \<exists>x. c = sha256_tag sha x"
  by (auto simp: sidecar_commitment_def bind_r_eq_Inr sha256_tagged_eq_Inr sha256_tag_hex)

lemma parse_canonical_size: "parse_canonical_public_v2 decimal bs = Inr v \<Longrightarrow> 1 \<le> length bs \<and> length bs \<le> PUBLIC_V2_MAX_BYTES"
  by (auto simp: parse_canonical_public_v2_def bind_r_eq_Inr candidate_assert_eq_Inr)

lemma sidecar_members_fields:
  "sidecar_members kvs kind pd ctx \<longleftrightarrow>
     is_sidecar kvs \<and> lookup kvs (js ''kind'') = JStr (kind_text kind) \<and>
     lookup kvs (js ''private_payload_schema'') = JStr (private_payload_schema kind) \<and>
     lookup kvs (js ''private_payload_sha256'') = JStr pd \<and> lookup kvs (js ''public_context_sha256'') = JStr ctx"
  by (auto simp only: sidecar_members_def is_sidecar_def json.inject)

lemma verify_opened_iff:
  assumes "opening_members okvs nonce sidecar" and "normalise (JObj okvs) = JObj opened" and o: "well_formed (JObj okvs)"
    and d: "well_formed document" and "1 \<le> length p" and "length p \<le> PUBLIC_V2_MAX_BYTES"
  shows "verify_opened sha decimal kind p payload document commitment opened = Inr () \<longleftrightarrow>
     json_get payload (js ''schema'') = JStr (private_payload_schema kind) \<and>
     (\<exists>sb ctx base. sidecar_members sidecar kind (sha256_tag sha p) ctx \<and>
        strip_committed_document decimal document kind = Inr base \<and> public_context_digest sha kind base = Inr ctx \<and>
        canonical_public_v2_bytes (JObj sidecar) = Inr sb \<and> length (commitment_frame nonce sb) \<le> PUBLIC_V2_MAX_BYTES \<and>
        commitment = sha256_tag sha (commitment_frame nonce sb))"
proof -
  have l: "lookup okvs (js ''sidecar'') = JObj sidecar" "lookup okvs (js ''nonce_b64url'') = JStr (nonce_text nonce)"
    and nonce: "length nonce = 32" "\<exists>b \<in> set nonce. b \<noteq> 0"
    using assms(1) by (simp_all only: opening_members_def)
  obtain ms where ms: "normalise (JObj okvs) = JObj ms" "\<And>k. lookup ms k = normalise (lookup okvs k)"
    using normal_members [OF o] by metis
  then have on: "lookup opened k = normalise (lookup okvs k)" for k using assms(2) by simp
  obtain s where s: "normalise (JObj sidecar) = JObj s" by simp
  have wf: "well_formed (JObj sidecar)" using well_formed_lookup [OF o, of "js ''sidecar''"] l(1) by simp
  have wfs: "well_formed (JObj s)" using normalise_well_formed [OF wf] s by simp
  have sm: "sidecar_members s kind pd ctx \<longleftrightarrow> sidecar_members sidecar kind pd ctx" for kind pd ctx
    by (rule sidecar_members_normalise [OF wf s])
  have bytes: "canonical_public_v2_bytes (JObj s) = Inr bs \<longleftrightarrow> canonical_public_v2_bytes (JObj sidecar) = Inr bs" for bs
    using canonical_public_normalise [of "JObj sidecar"] by (simp only: s)
  have so: "is_sidecar s \<longleftrightarrow> is_sidecar sidecar" by (simp add: is_sidecar_def sm)
  have l': "object_field opened ''sidecar'' c = Inr s" "string_field opened ''nonce_b64url'' c None = Inr (nonce_text nonce)" for c
    by (simp_all only: field_readers_eq_Inr on l s normalise.simps(5)) simp
  have dec: "decode_nonce (nonce_text nonce) = Inr nonce" using nonce by (simp add: decode_nonce_iff encode_nonce_iff)
  have pd: "sha256_tagged sha p = Inr (sha256_tag sha p)" using assms(5,6) by (simp add: sha256_tagged_eq_Inr sha256_tag_hex)
  have commit: "sidecar_commitment sha decimal nonce (JObj s) = Inr c \<longleftrightarrow>
      is_sidecar sidecar \<and> (\<exists>bs. canonical_public_v2_bytes (JObj sidecar) = Inr bs \<and>
        length (commitment_frame nonce bs) \<le> PUBLIC_V2_MAX_BYTES \<and> c = sha256_tag sha (commitment_frame nonce bs))" for c
    unfolding sidecar_commitment_iff [OF wfs] bytes so using nonce by simp
  obtain ns where ns: "normalise (JObj sidecar) = JObj ns" "\<And>k. lookup ns k = normalise (lookup sidecar k)"
    using normal_members [OF wf] by metis
  then have fields: "lookup s k = JStr u \<longleftrightarrow> lookup sidecar k = JStr u" for k u
    using s by (simp only: json.inject normalise_leaf)
  show ?thesis
    unfolding verify_opened_def l' bind_r.simps dec pd bind_r_eq_Inr commit require_kind_field_eq_Inr field_readers_eq_Inr
      candidate_assert_eq_Inr require_private_payload_def strict_equal_str sidecar_members_fields fields
    by (auto simp del: normalise.simps)
qed

lemma verify_sidecar_opening_iff:
  assumes o: "well_formed (JObj okvs)" and d: "well_formed (JObj dkvs)"
  shows "verify_sidecar_opening sha decimal kind (JObj okvs) p (JObj dkvs) = Inr () \<longleftrightarrow>
     (\<exists>payload. parse_canonical_public_v2 decimal p = Inr payload \<and>
        json_get payload (js ''schema'') = JStr (private_payload_schema kind)) \<and>
     (\<exists>bs. canonical_public_v2_bytes (JObj dkvs) = Inr bs) \<and> (\<exists>bs. canonical_public_v2_bytes (JObj okvs) = Inr bs) \<and>
     lookup dkvs (js ''schema'') = JStr (document_schema kind) \<and>
     (\<exists>c. lookup dkvs (js (terminal_id kind)) = JStr c \<and> matches DIGEST c) \<and>
     (\<exists>nonce sidecar sb ctx. opening_members okvs nonce sidecar \<and> sidecar_members sidecar kind (sha256_tag sha p) ctx \<and>
        public_context_digest sha kind (JObj (clone_without dkvs (derived_fields kind))) = Inr ctx \<and>
        canonical_public_v2_bytes (JObj sidecar) = Inr sb \<and>
        length (commitment_frame nonce sb) \<le> PUBLIC_V2_MAX_BYTES \<and>
        matches DIGEST (sha256_tag sha (commitment_frame nonce sb)) \<and>
        lookup dkvs (js ''private_sidecar_commitment'') = JStr (sha256_tag sha (commitment_frame nonce sb)))"
    (is "?verify \<longleftrightarrow> ?ok")
proof -
  obtain dkvs' where dn: "normalise (JObj dkvs) = JObj dkvs'" "well_formed (JObj dkvs')"
    "\<And>k. lookup dkvs' k = normalise (lookup dkvs k)" using normal_members [OF d] by metis
  obtain okvs' where on: "normalise (JObj okvs) = JObj okvs'" by simp
  have get: "json_get (JObj dkvs') k = normalise (lookup dkvs k)" for k by (simp add: json_get_def dn(3))
  have dbytes: "canonical_public_v2_bytes (JObj dkvs') = Inr bs \<longleftrightarrow> canonical_public_v2_bytes (JObj dkvs) = Inr bs" for bs
    using canonical_public_normalise [of "JObj dkvs"] by (simp only: dn(1))
  have dsnap: "canonical_public_v2_snapshot decimal (JObj dkvs) = Inr v \<longleftrightarrow>
      v = JObj dkvs' \<and> (\<exists>bs. canonical_public_v2_bytes (JObj dkvs) = Inr bs)" for v
    unfolding canonical_public_v2_snapshot_iff [OF d] dn(1) by (rule HOL.refl)
  have strip: "(\<exists>b. strip_committed_document decimal (JObj dkvs') kind = Inr b \<and> public_context_digest sha kind b = Inr ctx) \<longleftrightarrow>
      (\<exists>bs. canonical_public_v2_bytes (JObj dkvs) = Inr bs) \<and> lookup dkvs (js ''schema'') = JStr (document_schema kind) \<and>
      (\<exists>c. lookup dkvs (js ''private_sidecar_commitment'') = JStr c \<and> matches DIGEST c) \<and>
      (\<exists>c. lookup dkvs (js (terminal_id kind)) = JStr c \<and> matches DIGEST c) \<and>
      public_context_digest sha kind (JObj (clone_without dkvs (derived_fields kind))) = Inr ctx" for ctx
    unfolding strip_committed_document_iff [OF dn(2)] clone_without_normalise [OF dn(1)] dbytes dn(3) normalise_leaf normalise_idem
    using context_normalise [of sha kind "JObj (clone_without dkvs (derived_fields kind))" ctx] by (auto simp only: ex_simps)
  show ?thesis
  proof
    assume ?verify
    then obtain payload document commitment parsed where b:
      "parse_canonical_public_v2 decimal p = Inr payload" "canonical_public_v2_snapshot decimal (JObj dkvs) = Inr document"
      "json_get document (js ''private_sidecar_commitment'') = JStr commitment" "matches DIGEST commitment"
      "parse_opening decimal (JObj okvs) = Inr parsed"
      "(case parsed of JObj kvs \<Rightarrow> verify_opened sha decimal kind p payload document commitment kvs
         | _ \<Rightarrow> Inl (Native TypeError)) = Inr ()"
      unfolding verify_sidecar_opening_def
      by (elim bind_r_InrE, simp only: copy_public_v2_bytes_eq_Inr require_digest_eq_Inr)
    have doc: "document = JObj dkvs'" and dc: "\<exists>bs. canonical_public_v2_bytes (JObj dkvs) = Inr bs"
      using b(2) by (simp_all only: dsnap)
    have commitment: "lookup dkvs (js ''private_sidecar_commitment'') = JStr commitment"
      using b(3) by (simp only: doc get normalise_leaf)
    obtain nonce sidecar where op: "parsed = JObj okvs'" "\<exists>bs. canonical_public_v2_bytes (JObj okvs) = Inr bs"
      "opening_members okvs nonce sidecar"
      using b(5) unfolding parse_opening_iff [OF o] on json.inject by metis
    note size = parse_canonical_size [OF b(1)]
    have "verify_opened sha decimal kind p payload (JObj dkvs') commitment okvs' = Inr ()" using b(6) by (simp add: op(1) doc)
    then obtain sb ctx base where
      v: "json_get payload (js ''schema'') = JStr (private_payload_schema kind)"
        "sidecar_members sidecar kind (sha256_tag sha p) ctx"
        "strip_committed_document decimal (JObj dkvs') kind = Inr base" "public_context_digest sha kind base = Inr ctx"
        "canonical_public_v2_bytes (JObj sidecar) = Inr sb" "length (commitment_frame nonce sb) \<le> PUBLIC_V2_MAX_BYTES"
        "commitment = sha256_tag sha (commitment_frame nonce sb)"
      using verify_opened_iff [OF op(3) on o dn(2)] size by auto
    have "lookup dkvs (js ''schema'') = JStr (document_schema kind)"
      "\<exists>c. lookup dkvs (js (terminal_id kind)) = JStr c \<and> matches DIGEST c"
      "public_context_digest sha kind (JObj (clone_without dkvs (derived_fields kind))) = Inr ctx"
      using strip [of ctx] v(3,4) by auto
    with b(1,4) v(1,2,5-7) op(2,3) dc commitment show ?ok by blast
  next
    assume ok: ?ok
    then obtain payload nonce sidecar sb ctx where a:
      "parse_canonical_public_v2 decimal p = Inr payload" "json_get payload (js ''schema'') = JStr (private_payload_schema kind)"
      "opening_members okvs nonce sidecar" "sidecar_members sidecar kind (sha256_tag sha p) ctx"
      "public_context_digest sha kind (JObj (clone_without dkvs (derived_fields kind))) = Inr ctx"
      "canonical_public_v2_bytes (JObj sidecar) = Inr sb" "length (commitment_frame nonce sb) \<le> PUBLIC_V2_MAX_BYTES"
      "matches DIGEST (sha256_tag sha (commitment_frame nonce sb))"
      "lookup dkvs (js ''private_sidecar_commitment'') = JStr (sha256_tag sha (commitment_frame nonce sb))"
      by blast
    note size = parse_canonical_size [OF a(1)]
    have "\<exists>base. strip_committed_document decimal (JObj dkvs') kind = Inr base \<and> public_context_digest sha kind base = Inr ctx"
      unfolding strip using ok a by blast
    then have opened: "verify_opened sha decimal kind p payload (JObj dkvs') (sha256_tag sha (commitment_frame nonce sb)) okvs' = Inr ()"
      using verify_opened_iff [OF a(3) on o dn(2)] size a by blast
    have "is_sidecar sidecar" using a(4) by (simp only: sidecar_members_fields)
    then have "parse_opening decimal (JObj okvs) = Inr (JObj okvs')"
      unfolding parse_opening_iff [OF o] on using ok a(3,6) by blast
    moreover have "canonical_public_v2_snapshot decimal (JObj dkvs) = Inr (JObj dkvs')" using ok by (simp only: dsnap)
    moreover have "copy_public_v2_bytes p c = Inr p" for c using size by (simp add: copy_public_v2_bytes_eq_Inr)
    moreover have "json_get (JObj dkvs') (js ''private_sidecar_commitment'') = JStr (sha256_tag sha (commitment_frame nonce sb))"
      by (simp only: get a(9) normalise.simps(5))
    ultimately show ?verify
      using opened a(1,8) by (simp add: verify_sidecar_opening_def require_digest_def del: normalise.simps)
  qed
qed

section \<open>Properties\<close>

lemma build_sidecar_opening_facts:
  assumes "build_sidecar_opening sha decimal kind nonce p base = Inr r" and "well_formed base"
  obtains payload bs ctx sb where
    "parse_canonical_public_v2 decimal p = Inr payload" "json_get payload (js ''schema'') = JStr (private_payload_schema kind)"
    "canonical_public_v2_bytes base = Inr bs" "public_context_digest sha kind base = Inr ctx"
    "canonical_public_v2_bytes (sidecar_object kind (sha256_tag sha p) ctx) = Inr sb"
    "encode_nonce nonce = Inr (nonce_text nonce)"
    "so_opening r = normalise (opening_object (nonce_text nonce) (normalise (sidecar_object kind (sha256_tag sha p) ctx)))"
    "\<exists>ob. canonical_public_v2_bytes (so_opening r) = Inr ob"
    "sidecar_commitment sha decimal nonce (normalise (sidecar_object kind (sha256_tag sha p) ctx)) = Inr (so_commitment r)"
proof -
  have wfs: "well_formed (sidecar_object kind pd ctx)" for pd ctx by (simp add: sidecar_object_def JI_def)
  have wfo: "well_formed (opening_object t (normalise (sidecar_object kind pd ctx)))" for t pd ctx
    using normalise_well_formed [OF wfs, of pd ctx] by (simp add: opening_object_def JI_def del: normalise.simps)
  obtain n u b payload v bs0 pd ctx sidecar t opened ob c fp where
    e: "copy_private_nonce nonce = Inr n" "copy_public_v2_bytes p ''PUBLIC_V2_PRIVATE_PAYLOAD_SIZE_INVALID'' = Inr b"
      "parse_canonical_public_v2 decimal b = Inr payload" "require_private_payload payload (private_payload_schema kind) = Inr v"
      "canonical_public_v2_snapshot decimal base = Inr bs0" "sha256_tagged sha b = Inr pd"
      "public_context_digest sha kind bs0 = Inr ctx"
      "canonical_public_v2_snapshot decimal (sidecar_object kind pd ctx) = Inr sidecar" "encode_nonce n = Inr t"
      "canonical_public_v2_snapshot decimal (opening_object t sidecar) = Inr opened"
      "canonical_public_v2_bytes opened = Inr ob" "sidecar_commitment sha decimal n sidecar = Inr c"
    and r': "(Inr \<lparr>so_commitment = c, so_dispatch_safety = js ''UNPERSISTED_CANDIDATE_NOT_DISPATCH_SAFE'',
         so_nonce_bytes = n, so_nonce_fingerprint = fp, so_opening = opened,
         so_opening_bytes = ob, so_private_payload_bytes = b, so_sidecar = sidecar\<rparr> :: sidecar_opening result) = Inr r"
    using assms(1) [unfolded build_sidecar_opening_def]
    by (elim bind_r_InrE) (simp only: simp_thms)
  note r = r' [unfolded sum.inject, symmetric]
  have n: "n = nonce" and b: "b = p" using e(1,2) by (simp_all only: copy_private_nonce_eq_Inr copy_public_v2_bytes_eq_Inr)
  have pd: "pd = sha256_tag sha p" using e(6) by (simp only: b sha256_tagged_eq_Inr sha256_tag_hex)
  obtain bs where base: "bs0 = normalise base" "canonical_public_v2_bytes base = Inr bs"
    using e(5) canonical_public_v2_snapshot_iff [OF assms(2)] by blast
  obtain sb where side: "sidecar = normalise (sidecar_object kind pd ctx)" "canonical_public_v2_bytes (sidecar_object kind pd ctx) = Inr sb"
    using e(8) canonical_public_v2_snapshot_iff [OF wfs] by blast
  have t: "t = nonce_text nonce" using e(9) by (simp only: n encode_nonce_iff)
  have opened: "opened = normalise (opening_object t sidecar)"
    using e(10) unfolding side(1) canonical_public_v2_snapshot_iff [OF wfo] by blast
  show thesis
  proof (rule that)
    show "so_opening r = normalise (opening_object (nonce_text nonce) (normalise (sidecar_object kind (sha256_tag sha p) ctx)))"
      by (simp only: r sidecar_opening.simps opened t side(1) pd)
    show "\<exists>ob. canonical_public_v2_bytes (so_opening r) = Inr ob"
      using e(11) by (auto simp only: r sidecar_opening.simps)
    show "sidecar_commitment sha decimal nonce (normalise (sidecar_object kind (sha256_tag sha p) ctx)) = Inr (so_commitment r)"
      using e(12) by (simp only: r sidecar_opening.simps n side(1) pd)
    show "json_get payload (js ''schema'') = JStr (private_payload_schema kind)"
      using e(4) by (simp only: require_private_payload_def candidate_assert_eq_Inr strict_equal_str)
  qed (use e(3,7,9) base side(2) in \<open>simp_all only: b pd n t context_normalise\<close>)
qed

lemma lookup_append:
  "k \<in> set (map fst kvs) \<Longrightarrow> lookup (kvs @ lws) k = lookup kvs k"
  "k \<notin> set (map fst kvs) \<Longrightarrow> lookup (kvs @ lws) k = lookup lws k"
proof -
  have eq: "map_of (kvs @ lws) k = (case map_of kvs k of None \<Rightarrow> map_of lws k | Some v \<Rightarrow> Some v)"
    by (simp add: map_add_def)
  show "k \<in> set (map fst kvs) \<Longrightarrow> lookup (kvs @ lws) k = lookup kvs k"
    using eq by (cases "map_of kvs k") (auto simp: lookup_def map_of_eq_None_iff)
  show "k \<notin> set (map fst kvs) \<Longrightarrow> lookup (kvs @ lws) k = lookup lws k"
    using eq by (simp add: lookup_def map_of_eq_None_iff [THEN iffD2])
qed

lemma lookup_absent: "k \<notin> set (map fst kvs) \<Longrightarrow> lookup kvs k = JUndef"
  by (simp add: lookup_def map_of_eq_None_iff [THEN iffD2])

lemma sidecar_object_members:
  assumes "sidecar_object kind pd ctx = JObj kvs" and "matches DIGEST pd" and "matches DIGEST ctx"
  shows "sidecar_members kvs kind pd ctx"
  using assms by (auto simp: sidecar_object_def sidecar_members_def SIDECAR_KEYS_def lookup_def)

lemma opening_object_members:
  assumes "opening_object (nonce_text nonce) (JObj sidecar) = JObj kvs" and "encode_nonce nonce = Inr t"
  shows "opening_members kvs nonce sidecar"
  using assms by (auto simp: opening_object_def opening_members_def OPENING_KEYS_def lookup_def encode_nonce_iff)

text \<open>Objects of moderate size always have a public form, so building from them succeeds.\<close>

lemma fits_public:
  assumes "fits 32 1000 65536 (JObj kvs)" and "well_formed (JObj kvs)"
  obtains bs where "canonical_public_v2_bytes (JObj kvs) = Inr bs" "1 \<le> length bs" "length bs \<le> 65536"
    "canonical_public_v2_snapshot decimal (JObj kvs) = Inr (normalise (JObj kvs))"
proof -
  obtain t where t: "canonical_bytes (JObj kvs) = Inr (utf8_encode t)" "0 < length (utf8_encode t)"
    "length (utf8_encode t) \<le> BODY_BYTES" by (rule fits_canonical [OF assms(1)])
  then have b: "canonical_public_v2_bytes (JObj kvs) = Inr (utf8_encode t)"
    by (simp add: canonical_public_v2_bytes_iff PUBLIC_V2_MAX_BYTES_def BODY_BYTES_def)
  then have "canonical_public_v2_snapshot decimal (JObj kvs) = Inr (normalise (JObj kvs))"
    unfolding canonical_public_v2_snapshot_iff [OF assms(2)] by blast
  with that b t(2,3) show thesis by (simp add: BODY_BYTES_def)
qed

lemma public_weight:
  assumes "canonical_public_v2_bytes v = Inr bs" and "plain v"
  shows "length bs \<le> weight v"
proof -
  obtain t where t: "canonical_json v = Inr t" "bs = utf8_encode t"
    using assms(1) by (auto simp: canonical_public_v2_bytes_iff canonical_bytes_def result_simps)
  then obtain b where e: "encode_canonical 0 v MAX_NODES = Inr (t, b)"
    by (auto simp: canonical_json_def result_simps split: if_splits)
  from encode_weight(1) [OF e] length_utf8_ascii [OF encode_ascii(1) [OF e assms(2)]] show ?thesis by (simp add: t(2))
qed

lemma nonce_text_shape: "ascii (nonce_text n)" "length (nonce_text n) = (4 * length n + 2) div 3"
proof -
  have "list_all (\<lambda>x. b64_char x \<le> 0x7F) [0..<64]" by code_simp
  then have "b64_char x \<le> 0x7F" if "x < 64" for x using that by (simp add: list_all_iff)
  then show "ascii (nonce_text n)" "length (nonce_text n) = (4 * length n + 2) div 3"
    using sextets_small by (auto simp: nonce_text_def url_unit_def ascii_def length_sextets)
qed

lemma sidecar_fits:
  assumes "matches DIGEST pd" and "matches DIGEST ctx"
  shows "fits 2 10 3000 (sidecar_object kind pd ctx)" and "well_formed (sidecar_object kind pd ctx)"
proof -
  show "fits 2 10 3000 (sidecar_object kind pd ctx)"
    using matched_text(1) [OF assms(1)] matched_text(1) [OF assms(2)]
    by (cases kind) (simp_all add: fits_def fits_simps sidecar_object_def PRIVATE_SIDECAR_SCHEMA_def)
  show "well_formed (sidecar_object kind pd ctx)" by (simp add: sidecar_object_def JI_def)
qed

lemma context_fits:
  assumes "fits 28 900 40000 base" and "well_formed base"
  shows "fits 32 1000 65536 (envelope PUBLIC_CONTEXT_DOMAIN (JObj [(js ''document'', base), (js ''kind'', JStr (kind_text kind))]))"
    and "well_formed (envelope PUBLIC_CONTEXT_DOMAIN (JObj [(js ''document'', base), (js ''kind'', JStr (kind_text kind))]))"
  using assms
  by (cases kind; simp add: fits_def fits_simps envelope_def PUBLIC_CONTEXT_DOMAIN_def JI_def)+

lemma opening_fits:
  assumes "fits 2 10 3000 side" and "well_formed side" and "length nonce = 32"
  shows "fits 32 1000 65536 (opening_object (nonce_text nonce) side)" and "well_formed (opening_object (nonce_text nonce) side)"
  using assms nonce_text_shape [of nonce]
  by (simp_all add: fits_def fits_simps opening_object_def PRIVATE_SIDECAR_OPENING_SCHEMA_def JI_def)

lemma build_sidecar_opening_succeeds:
  assumes nonce: "length nonce = 32" "\<exists>b \<in> set nonce. b \<noteq> 0"
    and p: "parse_canonical_public_v2 decimal p = Inr payload" "json_get payload (js ''schema'') = JStr (private_payload_schema kind)"
    and base: "fits 28 900 40000 (JObj base)" "well_formed (JObj base)" and sha: "\<And>x. length (sha x) = 32"
  obtains r where "build_sidecar_opening sha decimal kind nonce p (JObj base) = Inr r"
proof -
  have dig: "matches DIGEST (sha256_tag sha x)" for x by (rule sha256_tag_DIGEST) (rule sha)
  have base': "fits 32 1000 65536 (JObj base)" by (rule fits_mono [OF base(1)]) simp_all
  obtain bb where bb: "canonical_public_v2_snapshot decimal (JObj base) = Inr (normalise (JObj base))"
    "canonical_public_v2_bytes (JObj base) = Inr bb" by (rule fits_public [OF base' base(2)])
  let ?e = "envelope PUBLIC_CONTEXT_DOMAIN (JObj [(js ''document'', JObj base), (js ''kind'', JStr (kind_text kind))])"
  obtain ekvs where e: "?e = JObj ekvs" by (simp add: envelope_def)
  obtain eb where eb: "canonical_public_v2_bytes ?e = Inr eb"
    using fits_public context_fits [OF base, of kind] unfolding e by metis
  have dom: "matches PUBLIC_DOMAIN PUBLIC_CONTEXT_DOMAIN" "0 \<notin> set PUBLIC_CONTEXT_DOMAIN"
    by (simp_all add: PUBLIC_DOMAIN_def PUBLIC_CONTEXT_DOMAIN_def matches_Rep_Cls js_def)
  let ?ctx = "sha256_tag sha eb"
  have ctx: "public_context_digest sha kind (normalise (JObj base)) = Inr ?ctx"
    unfolding context_normalise
    unfolding public_context_digest_iff public_v2_id_eq_Inr using bb(2) eb dom by (simp add: sha256_tag_hex)
  let ?pd = "sha256_tag sha p"
  note side = sidecar_fits [OF dig dig, of kind p eb]
  obtain skvs where s: "sidecar_object kind ?pd ?ctx = JObj skvs" by (simp add: sidecar_object_def)
  have "fits 32 1000 65536 (JObj skvs)" unfolding s [symmetric] by (rule fits_mono [OF side(1)]) simp_all
  then obtain sb where sb: "canonical_public_v2_bytes (JObj skvs) = Inr sb" "length sb \<le> 65536"
    "canonical_public_v2_snapshot decimal (JObj skvs) = Inr (normalise (JObj skvs))"
    using fits_public side(2) unfolding s by metis
  obtain s' where s': "normalise (JObj skvs) = JObj s'" by simp
  have nside: "fits 2 10 3000 (JObj s')" "well_formed (JObj s')"
    using side fits_normalise [of "JObj s'" "JObj skvs"] normalise_well_formed [of "JObj skvs"] normalise_idem [of "JObj skvs"]
    unfolding s s' by simp_all
  have small: "length sb \<le> 3000"
    using public_weight [OF sb(1)] side(1) by (simp add: s fits_def)
  have "length (utf8_encode COMMITMENT_DOMAIN) = 43" by (simp add: COMMITMENT_DOMAIN_def length_utf8_ascii ascii_js js_def)
  then have frame: "length (commitment_frame nonce sb) \<le> PUBLIC_V2_MAX_BYTES"
    using small nonce(1) by (simp add: commitment_frame_def be_bytes_def PUBLIC_V2_MAX_BYTES_def)
  have bytes: "canonical_public_v2_bytes (JObj s') = Inr sb"
    using sb(1) unfolding s' [symmetric] canonical_public_normalise .
  have members: "sidecar_members s' kind ?pd ?ctx"
    using sidecar_members_normalise [OF _ s'] side(2) sidecar_object_members [OF s dig dig] by (simp add: s)
  have commit: "sidecar_commitment sha decimal nonce (JObj s') = Inr (sha256_tag sha (commitment_frame nonce sb))"
    unfolding sidecar_commitment_iff [OF nside(2)]
    using nonce members bytes frame by (simp add: sidecar_members_fields del: normalise.simps)
  obtain okvs where o: "opening_object (nonce_text nonce) (JObj s') = JObj okvs" by (simp add: opening_object_def)
  have ofits: "fits 32 1000 65536 (JObj okvs)" "well_formed (JObj okvs)" using opening_fits [OF nside nonce(1)] by (simp_all add: o)
  obtain ob where ob: "canonical_public_v2_bytes (JObj okvs) = Inr ob"
    "canonical_public_v2_snapshot decimal (JObj okvs) = Inr (normalise (JObj okvs))" by (rule fits_public [OF ofits])
  note size = parse_canonical_size [OF p(1)]
  have "canonical_public_v2_bytes (normalise (JObj okvs)) = Inr ob" by (simp only: canonical_public_normalise ob(1))
  moreover have "sha256_tagged sha p = Inr ?pd" using size by (simp add: sha256_tagged_eq_Inr sha256_tag_hex)
  moreover have "sha256_tagged sha nonce = Inr (sha256_tag sha nonce)"
    using nonce(1) by (simp add: sha256_tagged_eq_Inr sha256_tag_hex PUBLIC_V2_MAX_BYTES_def)
  moreover have "copy_public_v2_bytes p c = Inr p" for c using size by (simp add: copy_public_v2_bytes_eq_Inr)
  moreover have "copy_private_nonce nonce = Inr nonce" using nonce(1) by (simp add: copy_private_nonce_eq_Inr)
  moreover have "require_nonce nonce = Inr ()" using nonce by (simp add: require_nonce_eq_Inr)
  moreover have "require_private_payload payload (private_payload_schema kind) = Inr ()"
    using p(2) by (simp add: require_private_payload_def candidate_assert_eq_Inr strict_equal_str)
  moreover have "encode_nonce nonce = Inr (nonce_text nonce)" using nonce by (simp add: encode_nonce_iff)
  ultimately show thesis
    using that p(1) bb(1) ctx sb(3) commit ob(2)
    unfolding build_sidecar_opening_def by (simp only: bind_r.simps s s' o)
qed

lemma opening_verifies:
  assumes build: "build_sidecar_opening sha decimal kind nonce p (JObj base) = Inr r"
    and wf: "well_formed (JObj base)" and schema: "lookup base (js ''schema'') = JStr (document_schema kind)"
    and fresh: "js ''private_sidecar_commitment'' \<notin> set (map fst base)" "js (terminal_id kind) \<notin> set (map fst base)"
    and doc: "document = base @ [(js ''private_sidecar_commitment'', JStr (so_commitment r)), (js (terminal_id kind), JStr tid)]"
    and tid: "matches DIGEST tid" and bound: "canonical_public_v2_bytes (JObj document) = Inr bs"
    and sha: "\<And>x. length (sha x) = 32"
  shows "verify_sidecar_opening sha decimal kind (so_opening r) p (JObj document) = Inr ()"
proof -
  obtain payload bs' ctx sb where b:
    "parse_canonical_public_v2 decimal p = Inr payload" "json_get payload (js ''schema'') = JStr (private_payload_schema kind)"
    "canonical_public_v2_bytes (JObj base) = Inr bs'" "public_context_digest sha kind (JObj base) = Inr ctx"
    "canonical_public_v2_bytes (sidecar_object kind (sha256_tag sha p) ctx) = Inr sb"
    "encode_nonce nonce = Inr (nonce_text nonce)"
    "so_opening r = normalise (opening_object (nonce_text nonce) (normalise (sidecar_object kind (sha256_tag sha p) ctx)))"
    "\<exists>ob. canonical_public_v2_bytes (so_opening r) = Inr ob"
    "sidecar_commitment sha decimal nonce (normalise (sidecar_object kind (sha256_tag sha p) ctx)) = Inr (so_commitment r)"
    by (rule build_sidecar_opening_facts [OF build wf])
  have dig: "matches DIGEST (sha256_tag sha x)" for x by (rule sha256_tag_DIGEST) (rule sha)
  have ctx: "matches DIGEST ctx" using b(4) dig
    by (auto simp: public_context_digest_iff public_v2_id_eq_Inr sha256_tag_hex [symmetric])
  obtain so where so: "sidecar_object kind (sha256_tag sha p) ctx = JObj so" by (simp add: sidecar_object_def)
  have wso: "well_formed (JObj so)" unfolding so [symmetric] by (simp add: sidecar_object_def JI_def)
  obtain s where s: "normalise (JObj so) = JObj s" "well_formed (JObj s)" using normal_members [OF wso] by metis
  have sm: "sidecar_members s kind (sha256_tag sha p) ctx"
    unfolding sidecar_members_normalise [OF wso s(1)]
    by (rule sidecar_object_members [OF so dig ctx])
  have sb: "canonical_public_v2_bytes (JObj s) = Inr sb"
    using b(5) unfolding so s(1) [symmetric] canonical_public_normalise .
  obtain oo where oo: "opening_object (nonce_text nonce) (JObj s) = JObj oo" by (simp add: opening_object_def)
  have woo: "well_formed (JObj oo)" unfolding oo [symmetric] using s(2) by (simp add: opening_object_def JI_def)
  obtain ov where ov: "normalise (JObj oo) = JObj ov" "well_formed (JObj ov)" "set (map fst ov) = set (map fst oo)"
    "\<And>k. lookup ov k = normalise (lookup oo k)" using normal_members [OF woo] by metis
  have ss: "normalise (JObj s) = JObj s" using normalise_idem [of "JObj so"] by (simp only: s(1))
  have om: "opening_members ov nonce s"
    using opening_object_members [OF oo b(6)]
    by (simp add: opening_members_def ov(3,4) ss normalise_two del: normalise.simps(7) set_map)
  have opened: "so_opening r = JObj ov" by (simp only: b(7) so s(1) oo ov(1))
  have commit: "length (commitment_frame nonce sb) \<le> PUBLIC_V2_MAX_BYTES"
    "so_commitment r = sha256_tag sha (commitment_frame nonce sb)"
    using b(9) unfolding so s(1) sidecar_commitment_iff [OF s(2)] by (simp_all add: sb)
  have ne: "js ''private_sidecar_commitment'' \<noteq> js (terminal_id kind)" "js ''schema'' \<noteq> js (terminal_id kind)"
    by (cases kind; simp)+
  have wd: "well_formed (JObj document)" using wf fresh ne unfolding doc by simp
  have strip: "clone_without document (derived_fields kind) = base"
  proof -
    have "filter (\<lambda>(k, _). k \<notin> set (map js (derived_fields kind))) base = base"
      using fresh by (force simp: filter_id_conv derived_fields_def)
    then show ?thesis unfolding doc clone_without_def by (simp add: derived_fields_def)
  qed
  have "js ''schema'' \<in> set (map fst base)" using schema lookup_absent [of "js ''schema''" base] by force
  then have l: "lookup document (js ''schema'') = JStr (document_schema kind)"
    "lookup document (js (terminal_id kind)) = JStr tid"
    "lookup document (js ''private_sidecar_commitment'') = JStr (so_commitment r)"
    unfolding doc using schema fresh ne by (simp_all add: lookup_append del: set_map) (simp_all add: lookup_def)
  show ?thesis
    unfolding opened verify_sidecar_opening_iff [OF ov(2) wd] strip
    using b(1,2,4,8) bound tid l om sm sb commit dig by (auto simp only: opened)
qed

text \<open>The 43 characters of a nonce and its 32 bytes determine each other: decoding accepts exactly the texts that
  encoding produces, no other spelling of the same bytes.\<close>

theorem nonce_text_round_trip: "decode_nonce s = Inr nonce \<longleftrightarrow> encode_nonce nonce = Inr s"
  by (rule decode_nonce_iff)

text \<open>C30: An opening that was built verifies: against the document that is its public base, the commitment the
  builder returned and any terminal identifier of the right shape, whenever the base has the document schema of the
  opening's kind and neither of the two derived fields, and that document is within the public bounds. (The builder
  checks neither the schema nor the fields of the base it is given; the verifier refuses a document of another schema.)\<close>

theorem built_opening_verifies:
  assumes build: "build_sidecar_opening sha decimal kind nonce p (JObj base) = Inr r"
    and wf: "well_formed (JObj base)" and schema: "lookup base (js ''schema'') = JStr (document_schema kind)"
    and fresh: "js ''private_sidecar_commitment'' \<notin> set (map fst base)" "js (terminal_id kind) \<notin> set (map fst base)"
    and doc: "document = base @ [(js ''private_sidecar_commitment'', JStr (so_commitment r)), (js (terminal_id kind), JStr tid)]"
    and tid: "matches DIGEST tid" and bound: "canonical_public_v2_bytes (JObj document) = Inr bs"
    and sha: "\<And>x. length (sha x) = 32"
  shows "verify_sidecar_opening sha decimal kind (so_opening r) p (JObj document) = Inr ()"
  by (rule opening_verifies [OF assms])

text \<open>A smallest payload and document base of each kind, for concrete instances.\<close>

definition sample_base :: "sidecar_kind \<Rightarrow> members" where
  "sample_base kind = [(js ''schema'', JStr (document_schema kind))]"

definition sample_payload :: "sidecar_kind \<Rightarrow> members" where
  "sample_payload kind = [(js ''schema'', JStr (private_payload_schema kind))]"

lemma sample_members:
  "fits 1 2 400 (JObj (sample_base kind))" "well_formed (JObj (sample_base kind))"
  "fits 1 2 400 (JObj (sample_payload kind))" "well_formed (JObj (sample_payload kind))"
proof -
  show "fits 1 2 400 (JObj (sample_base kind))"
    by (cases kind) (simp_all add: fits_def fits_simps sample_base_def)
  show "fits 1 2 400 (JObj (sample_payload kind))"
    by (cases kind) (simp_all add: fits_def fits_simps sample_payload_def)
qed (simp_all add: sample_base_def sample_payload_def)

lemma sample_payload_normal: "normalise (JObj (sample_payload kind)) = JObj (sample_payload kind)"
proof -
  have "sort_key fst [x] = [x]" for x :: "js_string \<times> json" by simp
  then show ?thesis by (simp only: sample_payload_def normalise.simps list.map map_prod_simp id_apply)
qed

lemma sample_private_payload:
  obtains p where "parse_canonical_public_v2 decimal p = Inr (JObj (sample_payload kind))"
    "json_get (JObj (sample_payload kind)) (js ''schema'') = JStr (private_payload_schema kind)"
proof -
  obtain p where "canonical_public_v2_bytes (JObj (sample_payload kind)) = Inr p"
    using fits_public [OF _ sample_members(4)] fits_mono [OF sample_members(3), of 32 1000 65536 kind] by simp metis
  then have "parse_canonical_public_v2 decimal p = Inr (JObj (sample_payload kind))"
    by (simp only: parse_canonical_public_v2_iff sample_members(4) sample_payload_normal simp_thms)
  with that show thesis by (simp add: json_get_def lookup_def sample_payload_def)
qed

lemma sample_nonce: "length (replicate 32 1 :: bytes) = 32" "\<exists>b \<in> set (replicate 32 1 :: bytes). b \<noteq> 0"
  by simp_all

definition sample_document :: "js_string \<Rightarrow> members" where
  "sample_document commitment =
     sample_base ACTIVATION_A0 @ [(js ''private_sidecar_commitment'', JStr commitment), (js ''record_id'', JStr zero_digest)]"

lemma sample_opening_built:
  obtains p r where "build_sidecar_opening zero_sha (\<lambda>_. JOther) ACTIVATION_A0 (replicate 32 1) p (JObj (sample_base ACTIVATION_A0)) = Inr r"
    "\<exists>bs. canonical_public_v2_bytes (JObj (sample_document (so_commitment r))) = Inr bs"
    "well_formed (JObj (sample_document (so_commitment r)))"
proof -
  let ?kind = "ACTIVATION_A0" and ?base = "sample_base ACTIVATION_A0"
  obtain p where p: "parse_canonical_public_v2 (\<lambda>_. JOther) p = Inr (JObj (sample_payload ?kind))"
    "json_get (JObj (sample_payload ?kind)) (js ''schema'') = JStr (private_payload_schema ?kind)"
    by (rule sample_private_payload)
  obtain r where r: "build_sidecar_opening zero_sha (\<lambda>_. JOther) ?kind (replicate 32 1) p (JObj ?base) = Inr r"
    by (rule build_sidecar_opening_succeeds [OF sample_nonce p fits_mono [OF sample_members(1)] sample_members(2) zero_sha_length])
      simp_all
  have digits: "matches DIGEST (so_commitment r)"
    using build_sidecar_opening_facts [OF r sample_members(2)] sidecar_commitment_tag zero_digest_props(1)
    by (metis zero_sha_tag)
  have "fits 32 1000 65536 (JObj (sample_document (so_commitment r)))" "well_formed (JObj (sample_document (so_commitment r)))"
    using matched_text(1) [OF digits] matched_text(1) [OF zero_digest_props(1)]
    by (simp_all add: fits_def fits_simps sample_document_def sample_base_def)
  with that r fits_public show thesis by metis
qed

lemma sample_base_schema:
  "lookup (sample_base ACTIVATION_A0) (js ''schema'') = JStr (document_schema ACTIVATION_A0)"
  "js ''private_sidecar_commitment'' \<notin> set (map fst (sample_base ACTIVATION_A0))"
  "js (terminal_id ACTIVATION_A0) \<notin> set (map fst (sample_base ACTIVATION_A0))"
  "sample_document c = sample_base ACTIVATION_A0 @
     [(js ''private_sidecar_commitment'', JStr c), (js (terminal_id ACTIVATION_A0), JStr zero_digest)]"
  by (simp_all add: sample_document_def sample_base_def lookup_def)

theorem built_opening_verifies_witness:
  "\<exists>p r. build_sidecar_opening zero_sha (\<lambda>_. JOther) ACTIVATION_A0 (replicate 32 1) p (JObj (sample_base ACTIVATION_A0)) = Inr r \<and>
     verify_sidecar_opening zero_sha (\<lambda>_. JOther) ACTIVATION_A0 (so_opening r) p (JObj (sample_document (so_commitment r))) = Inr ()"
proof -
  obtain p r bs where r: "build_sidecar_opening zero_sha (\<lambda>_. JOther) ACTIVATION_A0 (replicate 32 1) p (JObj (sample_base ACTIVATION_A0)) = Inr r"
    "canonical_public_v2_bytes (JObj (sample_document (so_commitment r))) = Inr bs"
    using sample_opening_built by metis
  from r built_opening_verifies [OF r(1) sample_members(2) sample_base_schema zero_digest_props(1) r(2) zero_sha_length]
  show ?thesis by blast
qed

section \<open>What a commitment binds\<close>

text \<open>The bytes whose digest an opening is committed by, and those behind the context digest of a document.\<close>

definition opening_frame :: "json \<Rightarrow> bytes" where
  "opening_frame v =
     (case (json_get v (js ''nonce_b64url''), canonical_public_v2_bytes (json_get v (js ''sidecar''))) of
        (JStr t, Inr bs) \<Rightarrow> (case decode_nonce t of Inr nonce \<Rightarrow> commitment_frame nonce bs | Inl _ \<Rightarrow> [])
      | _ \<Rightarrow> [])"

definition context_frame :: "sidecar_kind \<Rightarrow> members \<Rightarrow> bytes" where
  "context_frame kind document =
     id_preimage PUBLIC_CONTEXT_DOMAIN
       (JObj [(js ''document'', JObj (clone_without document (derived_fields kind))), (js ''kind'', JStr (kind_text kind))])"

definition no_collision :: "hash \<Rightarrow> bytes \<Rightarrow> bytes \<Rightarrow> bool" where
  "no_collision sha a b \<longleftrightarrow> sha a = sha b \<longrightarrow> a = b"

lemma no_collision_tag: "no_collision sha a b \<Longrightarrow> sha256_tag sha a = sha256_tag sha b \<longleftrightarrow> a = b"
  by (auto simp: no_collision_def sha256_tag_hex dest: hex_bytes_inj)

lemma commitment_frame_inj:
  assumes "commitment_frame n a = commitment_frame m b" and "length n = length m"
  shows "n = m \<and> a = b"
  using assms by (simp add: commitment_frame_def be_bytes_def)

lemma envelope_well_formed: "well_formed (envelope d p) \<longleftrightarrow> well_formed p"
  by (simp add: envelope_def)

lemma kind_text_inj [simp]: "kind_text k = kind_text l \<longleftrightarrow> k = l"
  by (cases k; cases l; simp)

lemma normalise_by_keys:
  assumes "well_formed (JObj kvs)" and "well_formed (JObj lws)" and "set (map fst kvs) = set (map fst lws)"
    and "\<And>k. k \<in> set (map fst kvs) \<Longrightarrow> normalise (lookup kvs k) = normalise (lookup lws k)"
  shows "normalise (JObj kvs) = normalise (JObj lws)"
proof -
  have "length kvs = length lws"
    using distinct_card [of "map fst kvs"] distinct_card [of "map fst lws"] assms(1-3) by (simp del: set_map)
  then show ?thesis unfolding normalise_members_eq [OF assms(1,2)] using assms(3,4) by blast
qed

lemma verified_opening_facts:
  assumes "verify_sidecar_opening sha decimal kind (JObj okvs) p (JObj dkvs) = Inr ()"
    and "well_formed (JObj okvs)" and "well_formed (JObj dkvs)"
  obtains nonce sidecar sb ctx where "opening_members okvs nonce sidecar" "sidecar_members sidecar kind (sha256_tag sha p) ctx"
    "canonical_public_v2_bytes (JObj sidecar) = Inr sb" "opening_frame (JObj okvs) = commitment_frame nonce sb"
    "lookup dkvs (js ''private_sidecar_commitment'') = JStr (sha256_tag sha (opening_frame (JObj okvs)))"
    "ctx = sha256_tag sha (context_frame kind dkvs)" "well_formed (JObj sidecar)"
    "canonical_public_v2_bytes (envelope PUBLIC_CONTEXT_DOMAIN
       (JObj [(js ''document'', JObj (clone_without dkvs (derived_fields kind))), (js ''kind'', JStr (kind_text kind))])) =
       Inr (context_frame kind dkvs)"
proof -
  obtain nonce sidecar sb ctx where v: "opening_members okvs nonce sidecar" "sidecar_members sidecar kind (sha256_tag sha p) ctx"
    "public_context_digest sha kind (JObj (clone_without dkvs (derived_fields kind))) = Inr ctx"
    "canonical_public_v2_bytes (JObj sidecar) = Inr sb"
    "lookup dkvs (js ''private_sidecar_commitment'') = JStr (sha256_tag sha (commitment_frame nonce sb))"
    using assms(1) unfolding verify_sidecar_opening_iff [OF assms(2,3)] by blast
  have l: "lookup okvs (js ''sidecar'') = JObj sidecar" "lookup okvs (js ''nonce_b64url'') = JStr (nonce_text nonce)"
    and nonce: "length nonce = 32" "\<exists>b \<in> set nonce. b \<noteq> 0"
    using v(1) by (simp_all only: opening_members_def)
  have dec: "decode_nonce (nonce_text nonce) = Inr nonce" using nonce by (simp add: decode_nonce_iff encode_nonce_iff)
  have frame: "opening_frame (JObj okvs) = commitment_frame nonce sb"
    by (simp add: opening_frame_def json_get_def l dec v(4))
  have wf: "well_formed (JObj sidecar)" using well_formed_lookup [OF assms(2), of "js ''sidecar''"] l(1) by simp
  obtain eb where eb: "canonical_public_v2_bytes (envelope PUBLIC_CONTEXT_DOMAIN
       (JObj [(js ''document'', JObj (clone_without dkvs (derived_fields kind))), (js ''kind'', JStr (kind_text kind))])) = Inr eb"
    "ctx = sha256_tag sha eb"
    using v(3) by (auto simp: public_context_digest_iff public_v2_id_eq_Inr sha256_tag_hex)
  then have "eb = context_frame kind dkvs" by (simp add: context_frame_def id_preimage_def)
  with that v(1,2,4,5) frame wf eb show thesis by simp
qed

lemma normalise_envelopes:
  "normalise (envelope d p) = JObj [(js ''domain'', JStr d), (js ''payload'', normalise p)]"
  "normalise (JObj [(js ''document'', x), (js ''kind'', JStr y)]) = JObj [(js ''document'', normalise x), (js ''kind'', JStr y)]"
proof -
  have s: "sort_key fst [(js ''domain'', u), (js ''payload'', w)] = [(js ''domain'', u), (js ''payload'', w)]"
    "sort_key fst [(js ''document'', u), (js ''kind'', w)] = [(js ''document'', u), (js ''kind'', w)]" for u w :: json
    by (simp_all add: js_def)
  show "normalise (envelope d p) = JObj [(js ''domain'', JStr d), (js ''payload'', normalise p)]"
    "normalise (JObj [(js ''document'', x), (js ''kind'', JStr y)]) = JObj [(js ''document'', normalise x), (js ''kind'', JStr y)]"
    by (simp_all only: envelope_def normalise.simps list.map map_prod_simp id_apply s)
qed

text \<open>C29: A commitment binds what it opens to. When openings of two documents verify, the documents carry one
  commitment, and the hash collides on none of the three pairs of texts it is applied to, then kind, private
  payload, opening and public base are the same, the last two up to the order of members.\<close>

theorem commitment_binds_opening:
  assumes v: "verify_sidecar_opening sha decimal k1 (JObj o1) p1 (JObj d1) = Inr ()"
    and w: "verify_sidecar_opening sha decimal k2 (JObj o2) p2 (JObj d2) = Inr ()"
    and wf: "well_formed (JObj o1)" "well_formed (JObj o2)" "well_formed (JObj d1)" "well_formed (JObj d2)"
    and commit: "lookup d1 (js ''private_sidecar_commitment'') = lookup d2 (js ''private_sidecar_commitment'')"
    and apart: "no_collision sha (opening_frame (JObj o1)) (opening_frame (JObj o2))" "no_collision sha p1 p2"
      "no_collision sha (context_frame k1 d1) (context_frame k2 d2)"
  shows "k1 = k2 \<and> p1 = p2 \<and> normalise (JObj o1) = normalise (JObj o2) \<and>
    normalise (JObj (clone_without d1 (derived_fields k1))) = normalise (JObj (clone_without d2 (derived_fields k2)))"
proof -
  obtain n1 s1 b1 c1 where a: "opening_members o1 n1 s1" "sidecar_members s1 k1 (sha256_tag sha p1) c1"
    "canonical_public_v2_bytes (JObj s1) = Inr b1" "opening_frame (JObj o1) = commitment_frame n1 b1"
    "lookup d1 (js ''private_sidecar_commitment'') = JStr (sha256_tag sha (opening_frame (JObj o1)))"
    "c1 = sha256_tag sha (context_frame k1 d1)" "well_formed (JObj s1)"
    "canonical_public_v2_bytes (envelope PUBLIC_CONTEXT_DOMAIN
       (JObj [(js ''document'', JObj (clone_without d1 (derived_fields k1))), (js ''kind'', JStr (kind_text k1))])) =
       Inr (context_frame k1 d1)"
    by (rule verified_opening_facts [OF v wf(1,3)])
  obtain n2 s2 b2 c2 where b: "opening_members o2 n2 s2" "sidecar_members s2 k2 (sha256_tag sha p2) c2"
    "canonical_public_v2_bytes (JObj s2) = Inr b2" "opening_frame (JObj o2) = commitment_frame n2 b2"
    "lookup d2 (js ''private_sidecar_commitment'') = JStr (sha256_tag sha (opening_frame (JObj o2)))"
    "c2 = sha256_tag sha (context_frame k2 d2)" "well_formed (JObj s2)"
    "canonical_public_v2_bytes (envelope PUBLIC_CONTEXT_DOMAIN
       (JObj [(js ''document'', JObj (clone_without d2 (derived_fields k2))), (js ''kind'', JStr (kind_text k2))])) =
       Inr (context_frame k2 d2)"
    by (rule verified_opening_facts [OF w wf(2,4)])
  have "opening_frame (JObj o1) = opening_frame (JObj o2)"
    using commit no_collision_tag [OF apart(1)] by (simp add: a(5) b(5))
  then have nb: "n1 = n2" "b1 = b2"
    using commitment_frame_inj [of n1 b1 n2 b2] a(1) b(1) by (simp_all add: a(4) b(4) opening_members_def)
  have side: "normalise (JObj s1) = normalise (JObj s2)"
    using canonical_bytes_inj [of "JObj s1" b1 "JObj s2"] a(3,7) b(3,7) nb by (simp add: canonical_public_v2_bytes_iff)
  obtain t where t: "normalise (JObj s1) = JObj t" by simp
  have sm: "sidecar_members t k1 (sha256_tag sha p1) c1" "sidecar_members t k2 (sha256_tag sha p2) c2"
    using sidecar_members_normalise [OF a(7) t] sidecar_members_normalise [OF b(7), of t] a(2) b(2) side t by simp_all
  then have k: "k1 = k2" and pd: "sha256_tag sha p1 = sha256_tag sha p2" and c: "c1 = c2"
    by (simp_all add: sidecar_members_def)
  have p: "p1 = p2" using pd no_collision_tag [OF apart(2)] by simp
  have "normalise (JObj o1) = normalise (JObj o2)"
  proof (rule normalise_by_keys [OF wf(1,2)])
    show "set (map fst o1) = set (map fst o2)" using a(1) b(1) by (simp only: opening_members_def)
    fix x assume "x \<in> set (map fst o1)"
    then have "x \<in> js ` set OPENING_KEYS" using a(1) by (simp only: opening_members_def)
    then show "normalise (lookup o1 x) = normalise (lookup o2 x)"
      using a(1) b(1) nb(1) side by (auto simp: OPENING_KEYS_def opening_members_def simp del: normalise.simps)
  qed
  moreover have "context_frame k1 d1 = context_frame k2 d2"
    using c no_collision_tag [OF apart(3)] by (simp add: a(6) b(6))
  then have "normalise (envelope PUBLIC_CONTEXT_DOMAIN (JObj [(js ''document'', JObj (clone_without d1 (derived_fields k1))), (js ''kind'', JStr (kind_text k1))])) =
      normalise (envelope PUBLIC_CONTEXT_DOMAIN (JObj [(js ''document'', JObj (clone_without d2 (derived_fields k2))), (js ''kind'', JStr (kind_text k2))]))"
    using a(8) b(8) well_formed_clone [OF wf(3)] well_formed_clone [OF wf(4)]
    by (intro canonical_bytes_inj) (simp_all add: canonical_public_v2_bytes_iff envelope_well_formed del: normalise.simps)
  then have "normalise (JObj (clone_without d1 (derived_fields k1))) = normalise (JObj (clone_without d2 (derived_fields k2)))"
    by (simp only: normalise_envelopes json.inject list.inject prod.inject simp_thms)
  ultimately show ?thesis using k p by simp
qed


lemma built_opening_object:
  assumes "build_sidecar_opening sha decimal kind nonce p base = Inr r" and "well_formed base"
  obtains okvs where "so_opening r = JObj okvs" "well_formed (JObj okvs)"
proof -
  obtain side where o: "so_opening r = normalise (opening_object (nonce_text nonce) (normalise side))" "well_formed side"
  proof (rule build_sidecar_opening_facts [OF assms])
    fix ctx assume o: "so_opening r = normalise (opening_object (nonce_text nonce) (normalise (sidecar_object kind (sha256_tag sha p) ctx)))"
    show thesis by (rule that [OF o]) (simp add: sidecar_object_def JI_def)
  qed
  have wf: "well_formed (opening_object (nonce_text nonce) (normalise side))"
    using normalise_well_formed [OF o(2)] by (simp add: opening_object_def JI_def del: normalise.simps)
  obtain okvs where "opening_object (nonce_text nonce) (normalise side) = JObj okvs" by (simp add: opening_object_def)
  with that o normalise_well_formed [OF wf] show thesis by simp
qed

theorem commitment_binds_opening_witness:
  "\<exists>p opening document. verify_sidecar_opening zero_sha (\<lambda>_. JOther) ACTIVATION_A0 (JObj opening) p (JObj document) = Inr () \<and>
     ACTIVATION_A0 = ACTIVATION_A0 \<and> p = p \<and> normalise (JObj opening) = normalise (JObj opening) \<and>
     normalise (JObj (clone_without document (derived_fields ACTIVATION_A0))) =
       normalise (JObj (clone_without document (derived_fields ACTIVATION_A0)))"
proof -
  obtain p r bs where r: "build_sidecar_opening zero_sha (\<lambda>_. JOther) ACTIVATION_A0 (replicate 32 1) p (JObj (sample_base ACTIVATION_A0)) = Inr r"
    "canonical_public_v2_bytes (JObj (sample_document (so_commitment r))) = Inr bs"
    and wf: "well_formed (JObj (sample_document (so_commitment r)))"
    using sample_opening_built by metis
  obtain okvs where o: "so_opening r = JObj okvs" "well_formed (JObj okvs)" by (rule built_opening_object [OF r(1) sample_members(2)])
  have v: "verify_sidecar_opening zero_sha (\<lambda>_. JOther) ACTIVATION_A0 (JObj okvs) p (JObj (sample_document (so_commitment r))) = Inr ()"
    using opening_verifies [OF r(1) sample_members(2) sample_base_schema zero_digest_props(1) r(2) zero_sha_length] o(1) by simp
  have "no_collision zero_sha x x" for x by (simp add: no_collision_def)
  from commitment_binds_opening [OF v v o(2,2) wf wf HOL.refl this this this] v show ?thesis by blast
qed

end
