(* ===== verification/PublicReplay.thy ===== *)
theory PublicReplay imports PublicSidecarExact begin

text \<open>
  The replay of a candidate publication (\<open>candidate-public-v2/replay-state.ts\<close>): the table of transitions
  between its states, the material that a retry must repeat, and the check that it does. The states
  and the events are closed unions of the type checker, hence datatypes; two names are both a state
  and an event, so the constructors carry a prefix. The key of the table joins the two names with a
  colon that neither contains, so it is the pair.
\<close>

section \<open>States, events and their table\<close>

datatype candidate_replay_state =
  RS_RESERVED_NO_EFFECT | RS_PRIVATE_FROZEN | RS_PRIVATE_WORM_IN_FLIGHT | RS_HOLD_PRIVATE | RS_PRIVATE_WORM_CONFIRMED
| RS_PUBLIC_FROZEN | RS_PUBLIC_EFFECT_IN_FLIGHT | RS_HOLD_PUBLIC | RS_PUBLIC_RECONCILE_IN_FLIGHT | RS_CONFIRMED | RS_CANCELLED

datatype candidate_replay_event =
  RE_FREEZE_PRIVATE | RE_START_PRIVATE_WORM | RE_CONFIRM_PRIVATE_WORM | RE_HOLD_PRIVATE | RE_RETRY_PRIVATE_WORM
| RE_FREEZE_PUBLIC | RE_START_PUBLIC_EFFECT | RE_CONFIRM_PUBLIC_EFFECT | RE_HOLD_PUBLIC | RE_START_PUBLIC_RECONCILE
| RE_CONFIRM_PUBLIC_RECONCILE | RE_CANCEL

definition TRANSITIONS :: "((candidate_replay_state \<times> candidate_replay_event) \<times> candidate_replay_state) list" where
  "TRANSITIONS =
    [((RS_HOLD_PRIVATE, RE_RETRY_PRIVATE_WORM), RS_PRIVATE_WORM_IN_FLIGHT),
     ((RS_HOLD_PUBLIC, RE_START_PUBLIC_RECONCILE), RS_PUBLIC_RECONCILE_IN_FLIGHT),
     ((RS_PRIVATE_FROZEN, RE_START_PRIVATE_WORM), RS_PRIVATE_WORM_IN_FLIGHT),
     ((RS_PRIVATE_WORM_CONFIRMED, RE_FREEZE_PUBLIC), RS_PUBLIC_FROZEN),
     ((RS_PRIVATE_WORM_IN_FLIGHT, RE_CONFIRM_PRIVATE_WORM), RS_PRIVATE_WORM_CONFIRMED),
     ((RS_PRIVATE_WORM_IN_FLIGHT, RE_HOLD_PRIVATE), RS_HOLD_PRIVATE),
     ((RS_PUBLIC_EFFECT_IN_FLIGHT, RE_CONFIRM_PUBLIC_EFFECT), RS_CONFIRMED),
     ((RS_PUBLIC_EFFECT_IN_FLIGHT, RE_HOLD_PUBLIC), RS_HOLD_PUBLIC),
     ((RS_PUBLIC_FROZEN, RE_START_PUBLIC_EFFECT), RS_PUBLIC_EFFECT_IN_FLIGHT),
     ((RS_PUBLIC_RECONCILE_IN_FLIGHT, RE_CONFIRM_PUBLIC_RECONCILE), RS_CONFIRMED),
     ((RS_PUBLIC_RECONCILE_IN_FLIGHT, RE_HOLD_PUBLIC), RS_HOLD_PUBLIC),
     ((RS_RESERVED_NO_EFFECT, RE_CANCEL), RS_CANCELLED),
     ((RS_RESERVED_NO_EFFECT, RE_FREEZE_PRIVATE), RS_PRIVATE_FROZEN)]"

definition transition_candidate_replay :: "candidate_replay_state \<Rightarrow> candidate_replay_event \<Rightarrow> candidate_replay_state result" where
  "transition_candidate_replay state event =
     (case map_of TRANSITIONS (state, event) of
        Some next \<Rightarrow> Inr next
      | None \<Rightarrow> Inl (Candidate (js ''PUBLIC_V2_REPLAY_TRANSITION_INVALID'')))"

text \<open>A sequence of events, stopped by the first one that is refused.\<close>

fun replay_run :: "candidate_replay_state \<Rightarrow> candidate_replay_event list \<Rightarrow> candidate_replay_state result" where
  "replay_run s [] = Inr s"
| "replay_run s (e # es) = bind_r (transition_candidate_replay s e) (\<lambda>t. replay_run t es)"

section \<open>The material of a retry\<close>

record candidate_replay_material =
  rm_dispatch_safety :: js_string
  rm_document_bytes :: bytes
  rm_kind :: sidecar_kind
  rm_nonce_bytes :: bytes
  rm_nonce_fingerprint :: js_string
  rm_opening_bytes :: bytes
  rm_private_payload_bytes :: bytes

record candidate_replay_input =
  ri_document_bytes :: bytes
  ri_kind :: sidecar_kind
  ri_nonce_bytes :: bytes
  ri_opening_bytes :: bytes
  ri_private_payload_bytes :: bytes

definition snapshot_candidate_replay_material :: "hash \<Rightarrow> candidate_replay_input \<Rightarrow> candidate_replay_material result" where
  "snapshot_candidate_replay_material sha i =
     bind_r (candidate_assert (ri_kind i \<in> set SIDECAR_KINDS) ''PUBLIC_V2_REPLAY_KIND_INVALID'') (\<lambda>_.
     bind_r (copy_private_nonce (ri_nonce_bytes i)) (\<lambda>nonce.
     bind_r (copy_public_v2_bytes (ri_document_bytes i) ''PUBLIC_V2_RAW_SIZE_INVALID'') (\<lambda>document.
     bind_r (copy_public_v2_bytes (ri_opening_bytes i) ''PUBLIC_V2_RAW_SIZE_INVALID'') (\<lambda>opened.
     bind_r (copy_public_v2_bytes (ri_private_payload_bytes i) ''PUBLIC_V2_PRIVATE_PAYLOAD_SIZE_INVALID'') (\<lambda>payload.
     bind_r (sha256_tagged sha nonce) (\<lambda>fingerprint.
       Inr \<lparr>rm_dispatch_safety = js ''PURE_MODEL_NOT_PERSISTENCE_AUTHORITY'', rm_document_bytes = document,
         rm_kind = ri_kind i, rm_nonce_bytes = nonce, rm_nonce_fingerprint = fingerprint,
         rm_opening_bytes = opened, rm_private_payload_bytes = payload\<rparr>))))))"

fun every_byte :: "bytes \<Rightarrow> bytes \<Rightarrow> nat \<Rightarrow> bool" where
  "every_byte [] right i = True"
| "every_byte (b # bs) right i = (i < length right \<and> b = right ! i \<and> every_byte bs right (i + 1))"

definition equal_bytes :: "bytes \<Rightarrow> bytes \<Rightarrow> bool" where
  "equal_bytes left right \<longleftrightarrow> length left = length right \<and> every_byte left right 0"

definition assert_exact_candidate_replay :: "candidate_replay_material \<Rightarrow> candidate_replay_material \<Rightarrow> unit result" where
  "assert_exact_candidate_replay reserved retry =
     bind_r (candidate_assert (rm_kind reserved = rm_kind retry) ''PUBLIC_V2_REPLAY_KIND_MISMATCH'') (\<lambda>_.
       candidate_assert
         (rm_nonce_fingerprint reserved = rm_nonce_fingerprint retry \<and>
          equal_bytes (rm_nonce_bytes reserved) (rm_nonce_bytes retry) \<and>
          equal_bytes (rm_private_payload_bytes reserved) (rm_private_payload_bytes retry) \<and>
          equal_bytes (rm_opening_bytes reserved) (rm_opening_bytes retry) \<and>
          equal_bytes (rm_document_bytes reserved) (rm_document_bytes retry))
         ''PUBLIC_V2_REPLAY_MATERIAL_MISMATCH'')"

section \<open>Where a replay can be\<close>

lemma transition_iff:
  "transition_candidate_replay s e = Inr t \<longleftrightarrow> ((s, e), t) \<in> set TRANSITIONS"
  by (cases s; cases e; cases t) (simp_all add: transition_candidate_replay_def TRANSITIONS_def)

fun_cases replay_run_NilE: "replay_run s [] = Inr t"
fun_cases replay_run_ConsE: "replay_run s (e # es) = Inr t"

text \<open>What has happened before a replay is in a state: whether the private object was confirmed, the
  public effect started, the outcome confirmed, the replay cancelled.\<close>

fun private_confirmed :: "candidate_replay_state \<Rightarrow> nat" where
  "private_confirmed s =
     (if s \<in> {RS_PRIVATE_WORM_CONFIRMED, RS_PUBLIC_FROZEN, RS_PUBLIC_EFFECT_IN_FLIGHT, RS_HOLD_PUBLIC,
         RS_PUBLIC_RECONCILE_IN_FLIGHT, RS_CONFIRMED} then 1 else 0)"

fun public_started :: "candidate_replay_state \<Rightarrow> nat" where
  "public_started s =
     (if s \<in> {RS_PUBLIC_EFFECT_IN_FLIGHT, RS_HOLD_PUBLIC, RS_PUBLIC_RECONCILE_IN_FLIGHT, RS_CONFIRMED} then 1 else 0)"

lemma transition_counts:
  assumes "transition_candidate_replay s e = Inr t"
  shows "private_confirmed t = private_confirmed s + (if e = RE_CONFIRM_PRIVATE_WORM then 1 else 0)"
    and "public_started t = public_started s + (if e = RE_START_PUBLIC_EFFECT then 1 else 0)"
    and "e = RE_START_PUBLIC_EFFECT \<Longrightarrow> private_confirmed s = 1"
    and "e = RE_CANCEL \<Longrightarrow> s = RS_RESERVED_NO_EFFECT \<and> t = RS_CANCELLED"
    and "s \<noteq> RS_CANCELLED" and "t \<noteq> RS_RESERVED_NO_EFFECT"
  using assms by (auto simp: transition_iff TRANSITIONS_def)

lemma replay_run_counts:
  assumes "replay_run s es = Inr t"
  shows "private_confirmed t = private_confirmed s + count_list es RE_CONFIRM_PRIVATE_WORM"
    and "public_started t = public_started s + count_list es RE_START_PUBLIC_EFFECT"
  using assms
  by (induction s es rule: replay_run.induct)
    (auto simp del: private_confirmed.simps public_started.simps simp: bind_r_eq_Inr transition_counts(1,2))

lemma replay_run_append: "replay_run s (es @ fs) = bind_r (replay_run s es) (\<lambda>t. replay_run t fs)"
proof (induction s es rule: replay_run.induct)
  case (2 s e es)
  then show ?case by (cases "transition_candidate_replay s e") simp_all
qed simp

lemma replay_run_cancel:
  assumes "replay_run s es = Inr t" and "RE_CANCEL \<in> set es"
  shows "es = [RE_CANCEL]"
proof -
  obtain us vs where es: "es = us @ RE_CANCEL # vs" using split_list [OF assms(2)] by blast
  then obtain m n where m: "replay_run s us = Inr m" "transition_candidate_replay m RE_CANCEL = Inr n" "replay_run n vs = Inr t"
    using assms(1) by (auto simp: replay_run_append bind_r_eq_Inr)
  note c = transition_counts(4) [OF m(2) HOL.refl]
  have "us = []"
    using m(1) c transition_counts(6) by (cases us rule: rev_cases) (auto simp: replay_run_append bind_r_eq_Inr)
  moreover have "vs = []"
    using m(3) c transition_counts(5) by (cases vs) (auto simp: bind_r_eq_Inr)
  ultimately show ?thesis by (simp add: es)
qed

section \<open>Properties\<close>

text \<open>C32: Whatever events a replay accepts, it starts the public effect at most once, and only after the private
  object was confirmed (exactly once); a replay that is cancelled did nothing else; one that ends confirmed
  did start the effect.\<close>

theorem replay_starts_one_public_effect:
  assumes "replay_run RS_RESERVED_NO_EFFECT es = Inr s"
  shows "count_list es RE_START_PUBLIC_EFFECT \<le> 1 \<and>
    (\<forall>us vs. es = us @ RE_START_PUBLIC_EFFECT # vs \<longrightarrow> count_list us RE_CONFIRM_PRIVATE_WORM = 1) \<and>
    (RE_CANCEL \<in> set es \<longrightarrow> es = [RE_CANCEL]) \<and> (s = RS_CONFIRMED \<longrightarrow> RE_START_PUBLIC_EFFECT \<in> set es)"
proof (intro conjI allI impI)
  note n = replay_run_counts [OF assms]
  show "count_list es RE_START_PUBLIC_EFFECT \<le> 1" using n(2) by (simp split: if_splits)
  show "es = [RE_CANCEL]" if "RE_CANCEL \<in> set es" by (rule replay_run_cancel [OF assms that])
  show "RE_START_PUBLIC_EFFECT \<in> set es" if "s = RS_CONFIRMED"
    using n(2) that count_list_0_iff [of es RE_START_PUBLIC_EFFECT] by auto
  fix us vs assume es: "es = us @ RE_START_PUBLIC_EFFECT # vs"
  then obtain m t where m: "replay_run RS_RESERVED_NO_EFFECT us = Inr m" "transition_candidate_replay m RE_START_PUBLIC_EFFECT = Inr t"
    using assms by (auto simp: replay_run_append bind_r_eq_Inr)
  show "count_list us RE_CONFIRM_PRIVATE_WORM = 1"
    using replay_run_counts(1) [OF m(1)] transition_counts(3) [OF m(2)] by simp
qed

theorem replay_starts_one_public_effect_witness:
  "count_list [RE_FREEZE_PRIVATE, RE_START_PRIVATE_WORM, RE_HOLD_PRIVATE, RE_RETRY_PRIVATE_WORM, RE_CONFIRM_PRIVATE_WORM,
     RE_FREEZE_PUBLIC, RE_START_PUBLIC_EFFECT, RE_HOLD_PUBLIC, RE_START_PUBLIC_RECONCILE, RE_CONFIRM_PUBLIC_RECONCILE]
     RE_START_PUBLIC_EFFECT \<le> 1"
proof -
  have "replay_run RS_RESERVED_NO_EFFECT
      [RE_FREEZE_PRIVATE, RE_START_PRIVATE_WORM, RE_HOLD_PRIVATE, RE_RETRY_PRIVATE_WORM, RE_CONFIRM_PRIVATE_WORM,
       RE_FREEZE_PUBLIC, RE_START_PUBLIC_EFFECT, RE_HOLD_PUBLIC, RE_START_PUBLIC_RECONCILE, RE_CONFIRM_PUBLIC_RECONCILE] =
      Inr RS_CONFIRMED"
    by (simp add: transition_candidate_replay_def TRANSITIONS_def)
  from replay_starts_one_public_effect [OF this] show ?thesis by blast
qed

lemma every_byte_drop: "i + length bs = length right \<Longrightarrow> every_byte bs right i \<longleftrightarrow> bs = drop i right"
proof (induction bs right i rule: every_byte.induct)
  case (2 b bs right i)
  then have "drop i right = right ! i # drop (Suc i) right" by (simp add: Cons_nth_drop_Suc)
  with 2 show ?case by auto
qed simp

lemma equal_bytes_iff [simp]: "equal_bytes left right \<longleftrightarrow> left = right"
  by (auto simp: equal_bytes_def every_byte_drop)

text \<open>C33: A retry is accepted exactly when it repeats the reserved material byte for byte.\<close>

theorem retry_repeats_the_material:
  assumes "snapshot_candidate_replay_material sha reserved = Inr m" and "snapshot_candidate_replay_material sha retry = Inr n"
  shows "assert_exact_candidate_replay m n = Inr () \<longleftrightarrow> reserved = retry"
  using assms
  by (cases reserved; cases retry)
    (auto simp: snapshot_candidate_replay_material_def assert_exact_candidate_replay_def result_simps)

theorem retry_repeats_the_material_witness:
  "\<exists>m. assert_exact_candidate_replay m m = Inr () \<longleftrightarrow>
     \<lparr>ri_document_bytes = [1], ri_kind = RUNTIME_CLOSURE, ri_nonce_bytes = replicate 32 1, ri_opening_bytes = [2],
       ri_private_payload_bytes = [3]\<rparr> =
     \<lparr>ri_document_bytes = [1], ri_kind = RUNTIME_CLOSURE, ri_nonce_bytes = replicate 32 1, ri_opening_bytes = [2],
       ri_private_payload_bytes = [3]\<rparr>"
proof -
  let ?i = "\<lparr>ri_document_bytes = [1], ri_kind = RUNTIME_CLOSURE, ri_nonce_bytes = replicate 32 1, ri_opening_bytes = [2],
       ri_private_payload_bytes = [3]\<rparr> :: candidate_replay_input"
  obtain m where "snapshot_candidate_replay_material zero_sha ?i = Inr m"
    by (simp add: snapshot_candidate_replay_material_def candidate_assert_def SIDECAR_KINDS_def copy_private_nonce_def
        copy_public_v2_bytes_def sha256_tagged_def sha256_bytes_def PRIVATE_NONCE_BYTES_def PUBLIC_V2_MAX_BYTES_def)
  from retry_repeats_the_material [OF this this] show ?thesis by blast
qed

end
