(* ===== verification/PublicActivation.thy ===== *)
theory PublicActivation imports PublicSidecarExact begin

text \<open>
  The two public activation records (\<open>candidate-public-v2/activation-core-validation.ts\<close> and
  \<open>activation-core.ts\<close>): A0, the provisioned core, and A1, the activated core that links to it; their
  builders and parsers, the binding of the pair and its identifier.
\<close>

section \<open>Validation of the bases\<close>

definition PROVISIONED_PUBLIC_CORE_SCHEMA :: js_string where
  "PROVISIONED_PUBLIC_CORE_SCHEMA = js ''dpone.release-broker-provisioned-public-core.v2''"
definition ACTIVATED_PUBLIC_CORE_SCHEMA :: js_string where
  "ACTIVATED_PUBLIC_CORE_SCHEMA = js ''dpone.release-broker-activated-public-core.v2''"

definition A0_BASE_KEYS :: "string list" where
  "A0_BASE_KEYS = [''broker_source'', ''controller_source'', ''previous'', ''schema'', ''schema_version'', ''sequence'']"
definition A0_KEYS :: "string list" where
  "A0_KEYS = A0_BASE_KEYS @ [''private_sidecar_commitment'', ''record_id'']"
definition A1_BASE_KEYS :: "string list" where
  "A1_BASE_KEYS = [''baseline_source'', ''previous'', ''provisioned_record_sha256'', ''schema'', ''schema_version'', ''sequence'']"
definition A1_KEYS :: "string list" where
  "A1_KEYS = A1_BASE_KEYS @ [''private_sidecar_commitment'', ''record_id'']"

definition BROKER_SOURCE_KEYS :: "string list" where
  "BROKER_SOURCE_KEYS = [''commit_sha'', ''source_sha256'', ''tree_sha'']"
definition CONTROLLER_SOURCE_KEYS :: "string list" where
  "CONTROLLER_SOURCE_KEYS = [''action_bundle'', ''commit_sha'', ''default_branch_workflow_blob_sha'', ''tag_object_sha'',
     ''tag_ref'', ''tree_sha'', ''workflow_blob_sha'', ''workflow_sha256'']"
definition ACTION_BUNDLE_KEYS :: "string list" where
  "ACTION_BUNDLE_KEYS = [''bundle_sha256'', ''commit_sha'', ''metadata_blob_sha'']"
definition BASELINE_SOURCE_KEYS :: "string list" where
  "BASELINE_SOURCE_KEYS = [''baseline_commit_sha'', ''baseline_tree_sha'', ''policy_blob_sha'', ''policy_sha256'',
     ''runtime_workflow_blob_sha'', ''runtime_workflow_sha256'']"

definition TAG_REF :: regex where
  "TAG_REF = Seq (Lit ''refs/tags/'') TAG"

definition validate_controller_source :: "members \<Rightarrow> unit result" where
  "validate_controller_source v =
     bind_r (exact_members (JObj v) CONTROLLER_SOURCE_KEYS ''PUBLIC_V2_A0_CONTROLLER_INVALID'') (\<lambda>source.
     bind_r (object_field source ''action_bundle'' ''PUBLIC_V2_A0_ACTION_INVALID'') (\<lambda>bundle.
     bind_r (exact_members (JObj bundle) ACTION_BUNDLE_KEYS ''PUBLIC_V2_A0_ACTION_INVALID'') (\<lambda>action.
     bind_r (digest_field action ''bundle_sha256'' ''PUBLIC_V2_A0_ACTION_INVALID'') (\<lambda>_.
     bind_r (git_sha_field action ''commit_sha'' ''PUBLIC_V2_A0_ACTION_INVALID'') (\<lambda>action_commit.
     bind_r (git_sha_field action ''metadata_blob_sha'' ''PUBLIC_V2_A0_ACTION_INVALID'') (\<lambda>_.
     bind_r (git_sha_field source ''commit_sha'' ''PUBLIC_V2_A0_CONTROLLER_INVALID'') (\<lambda>workflow_commit.
     bind_r (candidate_assert (action_commit \<noteq> workflow_commit) ''PUBLIC_V2_A0_ACTION_WORKFLOW_COLLISION'') (\<lambda>_.
     bind_r (git_sha_field source ''default_branch_workflow_blob_sha'' ''PUBLIC_V2_A0_CONTROLLER_INVALID'') (\<lambda>_.
     bind_r (git_sha_field source ''tag_object_sha'' ''PUBLIC_V2_A0_CONTROLLER_INVALID'') (\<lambda>tag_object.
     bind_r (candidate_assert (tag_object \<noteq> workflow_commit) ''PUBLIC_V2_A0_TAG_NOT_ANNOTATED'') (\<lambda>_.
     bind_r (string_field source ''tag_ref'' ''PUBLIC_V2_A0_CONTROLLER_INVALID'' (Some TAG_REF)) (\<lambda>_.
     bind_r (git_sha_field source ''tree_sha'' ''PUBLIC_V2_A0_CONTROLLER_INVALID'') (\<lambda>_.
     bind_r (git_sha_field source ''workflow_blob_sha'' ''PUBLIC_V2_A0_CONTROLLER_INVALID'') (\<lambda>_.
     bind_r (digest_field source ''workflow_sha256'' ''PUBLIC_V2_A0_CONTROLLER_INVALID'') (\<lambda>_. Inr ())))))))))))))))"

definition validate_provisioned_base :: "json \<Rightarrow> members result" where
  "validate_provisioned_base v =
     bind_r (exact_members v A0_BASE_KEYS ''PUBLIC_V2_A0_BASE_INVALID'') (\<lambda>base.
     bind_r (object_field base ''broker_source'' ''PUBLIC_V2_A0_BROKER_SOURCE_INVALID'') (\<lambda>b.
     bind_r (exact_members (JObj b) BROKER_SOURCE_KEYS ''PUBLIC_V2_A0_BROKER_SOURCE_INVALID'') (\<lambda>broker.
     bind_r (git_sha_field broker ''commit_sha'' ''PUBLIC_V2_A0_BROKER_SOURCE_INVALID'') (\<lambda>_.
     bind_r (digest_field broker ''source_sha256'' ''PUBLIC_V2_A0_BROKER_SOURCE_INVALID'') (\<lambda>_.
     bind_r (git_sha_field broker ''tree_sha'' ''PUBLIC_V2_A0_BROKER_SOURCE_INVALID'') (\<lambda>_.
     bind_r (object_field base ''controller_source'' ''PUBLIC_V2_A0_CONTROLLER_INVALID'') (\<lambda>controller.
     bind_r (validate_controller_source controller) (\<lambda>_.
     bind_r (literal_field base ''previous'' (JStr (js ''GENESIS'')) ''PUBLIC_V2_A0_BASE_INVALID'') (\<lambda>_.
     bind_r (literal_field base ''schema'' (JStr PROVISIONED_PUBLIC_CORE_SCHEMA) ''PUBLIC_V2_A0_BASE_INVALID'') (\<lambda>_.
     bind_r (literal_field base ''schema_version'' (JI 2) ''PUBLIC_V2_A0_BASE_INVALID'') (\<lambda>_.
     bind_r (literal_field base ''sequence'' (JI 0) ''PUBLIC_V2_A0_BASE_INVALID'') (\<lambda>_.
     bind_r (canonical_public_v2_bytes (JObj base)) (\<lambda>_. Inr base)))))))))))))"

definition validate_activated_base :: "json \<Rightarrow> members result" where
  "validate_activated_base v =
     bind_r (exact_members v A1_BASE_KEYS ''PUBLIC_V2_A1_BASE_INVALID'') (\<lambda>base.
     bind_r (object_field base ''baseline_source'' ''PUBLIC_V2_A1_BASELINE_INVALID'') (\<lambda>b.
     bind_r (exact_members (JObj b) BASELINE_SOURCE_KEYS ''PUBLIC_V2_A1_BASELINE_INVALID'') (\<lambda>baseline.
     bind_r (map_r (\<lambda>key. git_sha_field baseline key ''PUBLIC_V2_A1_BASELINE_INVALID'')
       [''baseline_commit_sha'', ''baseline_tree_sha'', ''policy_blob_sha'', ''runtime_workflow_blob_sha'']) (\<lambda>_.
     bind_r (digest_field baseline ''policy_sha256'' ''PUBLIC_V2_A1_BASELINE_INVALID'') (\<lambda>_.
     bind_r (digest_field baseline ''runtime_workflow_sha256'' ''PUBLIC_V2_A1_BASELINE_INVALID'') (\<lambda>_.
     bind_r (digest_field base ''previous'' ''PUBLIC_V2_A1_BASE_INVALID'') (\<lambda>_.
     bind_r (digest_field base ''provisioned_record_sha256'' ''PUBLIC_V2_A1_BASE_INVALID'') (\<lambda>_.
     bind_r (literal_field base ''schema'' (JStr ACTIVATED_PUBLIC_CORE_SCHEMA) ''PUBLIC_V2_A1_BASE_INVALID'') (\<lambda>_.
     bind_r (literal_field base ''schema_version'' (JI 2) ''PUBLIC_V2_A1_BASE_INVALID'') (\<lambda>_.
     bind_r (literal_field base ''sequence'' (JI 1) ''PUBLIC_V2_A1_BASE_INVALID'') (\<lambda>_.
     bind_r (canonical_public_v2_bytes (JObj base)) (\<lambda>_. Inr base))))))))))))"

definition without_record_id :: "members \<Rightarrow> members" where
  "without_record_id r = filter (\<lambda>(k, _). k \<noteq> js ''record_id'') r"

section \<open>The provisioned core\<close>

definition A0_DOMAIN :: js_string where "A0_DOMAIN = js ''dpone.activation.public-a0.v2''"
definition A1_DOMAIN :: js_string where "A1_DOMAIN = js ''dpone.activation.public-a1.v2''"
definition ACTIVATION_DOMAIN :: js_string where "ACTIVATION_DOMAIN = js ''dpone.activation.public-authority.v2''"

record broker_source_input =
  bsi_commit_sha :: js_string
  bsi_source_sha256 :: js_string
  bsi_tree_sha :: js_string

record action_bundle_input =
  abi_bundle_sha256 :: js_string
  abi_commit_sha :: js_string
  abi_metadata_blob_sha :: js_string

record controller_source_input =
  csi_action_bundle :: action_bundle_input
  csi_commit_sha :: js_string
  csi_default_branch_workflow_blob_sha :: js_string
  csi_tag_object_sha :: js_string
  csi_tag_ref :: js_string
  csi_tree_sha :: js_string
  csi_workflow_blob_sha :: js_string
  csi_workflow_sha256 :: js_string

record baseline_source_input =
  bli_baseline_commit_sha :: js_string
  bli_baseline_tree_sha :: js_string
  bli_policy_blob_sha :: js_string
  bli_policy_sha256 :: js_string
  bli_runtime_workflow_blob_sha :: js_string
  bli_runtime_workflow_sha256 :: js_string

text \<open>A built candidate: the result of the sidecar with the document and its bytes.\<close>

record document_candidate = sidecar_opening +
  dc_document :: json
  dc_document_bytes :: bytes

definition with_document :: "sidecar_opening \<Rightarrow> json \<Rightarrow> bytes \<Rightarrow> document_candidate" where
  "with_document s document bs = sidecar_opening.extend s \<lparr>dc_document = document, dc_document_bytes = bs\<rparr>"

definition provisioned_base :: "broker_source_input \<Rightarrow> controller_source_input \<Rightarrow> members" where
  "provisioned_base b c =
     [(js ''broker_source'', JObj [(js ''commit_sha'', JStr (bsi_commit_sha b)), (js ''source_sha256'', JStr (bsi_source_sha256 b)),
         (js ''tree_sha'', JStr (bsi_tree_sha b))]),
      (js ''controller_source'', JObj [
         (js ''action_bundle'', JObj [(js ''bundle_sha256'', JStr (abi_bundle_sha256 (csi_action_bundle c))),
            (js ''commit_sha'', JStr (abi_commit_sha (csi_action_bundle c))),
            (js ''metadata_blob_sha'', JStr (abi_metadata_blob_sha (csi_action_bundle c)))]),
         (js ''commit_sha'', JStr (csi_commit_sha c)),
         (js ''default_branch_workflow_blob_sha'', JStr (csi_default_branch_workflow_blob_sha c)),
         (js ''tag_object_sha'', JStr (csi_tag_object_sha c)), (js ''tag_ref'', JStr (csi_tag_ref c)),
         (js ''tree_sha'', JStr (csi_tree_sha c)), (js ''workflow_blob_sha'', JStr (csi_workflow_blob_sha c)),
         (js ''workflow_sha256'', JStr (csi_workflow_sha256 c))]),
      (js ''previous'', JStr (js ''GENESIS'')), (js ''schema'', JStr PROVISIONED_PUBLIC_CORE_SCHEMA),
      (js ''schema_version'', JI 2), (js ''sequence'', JI 0)]"

definition build_provisioned_public_base :: "broker_source_input \<Rightarrow> controller_source_input \<Rightarrow> members result" where
  "build_provisioned_public_base b c =
     bind_r (validate_provisioned_base (JObj (provisioned_base b c))) (\<lambda>_. Inr (provisioned_base b c))"

definition seal_provisioned_public_core :: "hash \<Rightarrow> members \<Rightarrow> json \<Rightarrow> members result" where
  "seal_provisioned_public_core sha base_value commitment_value =
     bind_r (validate_provisioned_base (JObj base_value)) (\<lambda>base.
     bind_r (require_digest commitment_value ''PUBLIC_V2_A0_COMMITMENT_INVALID'') (\<lambda>commitment.
     let unsigned = base @ [(js ''private_sidecar_commitment'', JStr commitment)] in
     bind_r (public_v2_id sha A0_DOMAIN (JObj unsigned)) (\<lambda>i.
       Inr (unsigned @ [(js ''record_id'', JStr i)]))))"

definition parse_untrusted_provisioned :: "hash \<Rightarrow> (js_string \<Rightarrow> js_number) \<Rightarrow> json \<Rightarrow> members result" where
  "parse_untrusted_provisioned sha decimal v =
     bind_r (canonical_public_v2_snapshot decimal v) (\<lambda>s.
     bind_r (exact_members s A0_KEYS ''PUBLIC_V2_A0_INVALID'') (\<lambda>record.
     bind_r (project_object record A0_BASE_KEYS ''PUBLIC_V2_A0_INVALID'') (\<lambda>base.
     bind_r (validate_provisioned_base (JObj base)) (\<lambda>_.
     bind_r (require_digest (lookup record (js ''private_sidecar_commitment'')) ''PUBLIC_V2_A0_COMMITMENT_INVALID'') (\<lambda>_.
     bind_r (require_digest (lookup record (js ''record_id'')) ''PUBLIC_V2_A0_RECORD_ID_INVALID'') (\<lambda>record_id.
     bind_r (public_v2_id sha A0_DOMAIN (JObj (without_record_id record))) (\<lambda>i.
     bind_r (candidate_assert (record_id = i) ''PUBLIC_V2_A0_ID_MISMATCH'') (\<lambda>_.
     bind_r (canonical_public_v2_bytes (JObj record)) (\<lambda>_. Inr record)))))))))"

definition parse_canonical_provisioned :: "hash \<Rightarrow> (js_string \<Rightarrow> js_number) \<Rightarrow> bytes \<Rightarrow> members result" where
  "parse_canonical_provisioned sha decimal bs =
     bind_r (copy_public_v2_bytes bs ''PUBLIC_V2_RAW_SIZE_INVALID'') (\<lambda>b.
     bind_r (parse_canonical_public_v2 decimal b) (\<lambda>v. parse_untrusted_provisioned sha decimal v))"

definition build_provisioned_candidate ::
  "hash \<Rightarrow> (js_string \<Rightarrow> js_number) \<Rightarrow> broker_source_input \<Rightarrow> controller_source_input \<Rightarrow> bytes \<Rightarrow> json \<Rightarrow>
     document_candidate result" where
  "build_provisioned_candidate sha decimal b c nonce0 private_payload =
     bind_r (copy_private_nonce nonce0) (\<lambda>nonce.
     bind_r (canonical_public_v2_bytes private_payload) (\<lambda>payload_bytes.
     bind_r (build_provisioned_public_base b c) (\<lambda>base.
     bind_r (build_sidecar_opening sha decimal ACTIVATION_A0 nonce payload_bytes (JObj base)) (\<lambda>sidecar.
     bind_r (seal_provisioned_public_core sha base (JStr (so_commitment sidecar))) (\<lambda>provisional.
     bind_r (canonical_public_v2_bytes (JObj provisional)) (\<lambda>document_bytes.
     bind_r (parse_canonical_provisioned sha decimal document_bytes) (\<lambda>document.
       Inr (with_document sidecar (JObj document) document_bytes))))))))"

section \<open>The activated core\<close>

definition check_provisioned_link :: "hash \<Rightarrow> (js_string \<Rightarrow> js_number) \<Rightarrow> members \<Rightarrow> json option \<Rightarrow> unit result" where
  "check_provisioned_link sha decimal record provisioned_snapshot =
     (case provisioned_snapshot of
        None \<Rightarrow> Inr ()
      | Some s \<Rightarrow>
          bind_r (parse_untrusted_provisioned sha decimal s) (\<lambda>provisioned.
          bind_r (candidate_assert (strict_equal (lookup record (js ''previous'')) (lookup provisioned (js ''record_id'')))
            ''PUBLIC_V2_A1_PREVIOUS_MISMATCH'') (\<lambda>_.
          bind_r (raw_public_v2_digest sha (JObj provisioned)) (\<lambda>digest.
            candidate_assert (strict_equal (lookup record (js ''provisioned_record_sha256'')) (JStr digest))
              ''PUBLIC_V2_A1_PROVISIONED_DIGEST_MISMATCH''))))"

definition parse_untrusted_activated :: "hash \<Rightarrow> (js_string \<Rightarrow> js_number) \<Rightarrow> json \<Rightarrow> json option \<Rightarrow> members result" where
  "parse_untrusted_activated sha decimal v provisioned_value =
     bind_r (canonical_public_v2_snapshot decimal v) (\<lambda>s.
     bind_r (exact_members s A1_KEYS ''PUBLIC_V2_A1_INVALID'') (\<lambda>record.
     bind_r (case provisioned_value of
               None \<Rightarrow> Inr None
             | Some p \<Rightarrow> bind_r (canonical_public_v2_snapshot decimal p) (\<lambda>q. Inr (Some q))) (\<lambda>provisioned_snapshot.
     bind_r (project_object record A1_BASE_KEYS ''PUBLIC_V2_A1_INVALID'') (\<lambda>base.
     bind_r (validate_activated_base (JObj base)) (\<lambda>_.
     bind_r (require_digest (lookup record (js ''private_sidecar_commitment'')) ''PUBLIC_V2_A1_COMMITMENT_INVALID'') (\<lambda>_.
     bind_r (require_digest (lookup record (js ''record_id'')) ''PUBLIC_V2_A1_RECORD_ID_INVALID'') (\<lambda>record_id.
     bind_r (public_v2_id sha A1_DOMAIN (JObj (without_record_id record))) (\<lambda>i.
     bind_r (candidate_assert (record_id = i) ''PUBLIC_V2_A1_ID_MISMATCH'') (\<lambda>_.
     bind_r (check_provisioned_link sha decimal record provisioned_snapshot) (\<lambda>_.
     bind_r (canonical_public_v2_bytes (JObj record)) (\<lambda>_. Inr record)))))))))))"

record activation_pair =
  ap_activated :: members
  ap_provisioned :: members

definition parse_canonical_activation_pair ::
  "hash \<Rightarrow> (js_string \<Rightarrow> js_number) \<Rightarrow> bytes \<Rightarrow> bytes \<Rightarrow> activation_pair result" where
  "parse_canonical_activation_pair sha decimal activated0 provisioned0 =
     bind_r (copy_public_v2_bytes provisioned0 ''PUBLIC_V2_RAW_SIZE_INVALID'') (\<lambda>provisioned_bytes.
     bind_r (copy_public_v2_bytes activated0 ''PUBLIC_V2_RAW_SIZE_INVALID'') (\<lambda>activated_bytes.
     bind_r (parse_canonical_provisioned sha decimal provisioned_bytes) (\<lambda>provisioned.
     bind_r (parse_canonical_public_v2 decimal activated_bytes) (\<lambda>activated_object.
     bind_r (parse_untrusted_activated sha decimal activated_object (Some (JObj provisioned))) (\<lambda>activated.
       Inr \<lparr>ap_activated = activated, ap_provisioned = provisioned\<rparr>)))))"

definition activated_base :: "baseline_source_input \<Rightarrow> js_string \<Rightarrow> js_string \<Rightarrow> members" where
  "activated_base b previous digest =
     [(js ''baseline_source'', JObj [(js ''baseline_commit_sha'', JStr (bli_baseline_commit_sha b)),
         (js ''baseline_tree_sha'', JStr (bli_baseline_tree_sha b)), (js ''policy_blob_sha'', JStr (bli_policy_blob_sha b)),
         (js ''policy_sha256'', JStr (bli_policy_sha256 b)),
         (js ''runtime_workflow_blob_sha'', JStr (bli_runtime_workflow_blob_sha b)),
         (js ''runtime_workflow_sha256'', JStr (bli_runtime_workflow_sha256 b))]),
      (js ''previous'', JStr previous), (js ''provisioned_record_sha256'', JStr digest),
      (js ''schema'', JStr ACTIVATED_PUBLIC_CORE_SCHEMA), (js ''schema_version'', JI 2), (js ''sequence'', JI 1)]"

definition build_activated_public_base ::
  "hash \<Rightarrow> (js_string \<Rightarrow> js_number) \<Rightarrow> baseline_source_input \<Rightarrow> json \<Rightarrow> members result" where
  "build_activated_public_base sha decimal b provisioned0 =
     bind_r (parse_untrusted_provisioned sha decimal provisioned0) (\<lambda>provisioned.
     bind_r (require_digest (lookup provisioned (js ''record_id'')) ''PUBLIC_V2_DIGEST_INVALID'') (\<lambda>previous.
     bind_r (raw_public_v2_digest sha (JObj provisioned)) (\<lambda>digest.
     let base = activated_base b previous digest in
     bind_r (validate_activated_base (JObj base)) (\<lambda>_. Inr base))))"

definition seal_activated_public_core :: "hash \<Rightarrow> members \<Rightarrow> json \<Rightarrow> members result" where
  "seal_activated_public_core sha base_value commitment_value =
     bind_r (validate_activated_base (JObj base_value)) (\<lambda>base.
     bind_r (require_digest commitment_value ''PUBLIC_V2_A1_COMMITMENT_INVALID'') (\<lambda>commitment.
     let unsigned = base @ [(js ''private_sidecar_commitment'', JStr commitment)] in
     bind_r (public_v2_id sha A1_DOMAIN (JObj unsigned)) (\<lambda>i.
       Inr (unsigned @ [(js ''record_id'', JStr i)]))))"

definition build_activated_candidate ::
  "hash \<Rightarrow> (js_string \<Rightarrow> js_number) \<Rightarrow> baseline_source_input \<Rightarrow> bytes \<Rightarrow> json \<Rightarrow> json \<Rightarrow> document_candidate result" where
  "build_activated_candidate sha decimal b nonce0 private_payload provisioned0 =
     bind_r (copy_private_nonce nonce0) (\<lambda>nonce.
     bind_r (canonical_public_v2_bytes private_payload) (\<lambda>payload_bytes.
     bind_r (canonical_public_v2_bytes provisioned0) (\<lambda>provisioned_bytes.
     bind_r (parse_canonical_provisioned sha decimal provisioned_bytes) (\<lambda>provisioned.
     bind_r (build_activated_public_base sha decimal b (JObj provisioned)) (\<lambda>base.
     bind_r (build_sidecar_opening sha decimal ACTIVATION_A1 nonce payload_bytes (JObj base)) (\<lambda>sidecar.
     bind_r (seal_activated_public_core sha base (JStr (so_commitment sidecar))) (\<lambda>provisional.
     bind_r (canonical_public_v2_bytes (JObj provisional)) (\<lambda>document_bytes.
     bind_r (parse_canonical_activation_pair sha decimal document_bytes provisioned_bytes) (\<lambda>pair.
       Inr (with_document sidecar (JObj (ap_activated pair)) document_bytes))))))))))"

section \<open>The binding of a pair\<close>

definition activation_binding :: "hash \<Rightarrow> (js_string \<Rightarrow> js_number) \<Rightarrow> json \<Rightarrow> json \<Rightarrow> members result" where
  "activation_binding sha decimal provisioned0 activated0 =
     bind_r (canonical_public_v2_snapshot decimal provisioned0) (\<lambda>provisioned_snapshot.
     bind_r (canonical_public_v2_snapshot decimal activated0) (\<lambda>activated_snapshot.
     bind_r (parse_untrusted_provisioned sha decimal provisioned_snapshot) (\<lambda>provisioned.
     bind_r (parse_untrusted_activated sha decimal activated_snapshot (Some (JObj provisioned))) (\<lambda>activated.
     bind_r (require_digest (lookup activated (js ''record_id'')) ''PUBLIC_V2_DIGEST_INVALID'') (\<lambda>activated_id.
     bind_r (raw_public_v2_digest sha (JObj activated)) (\<lambda>activated_digest.
     bind_r (require_digest (lookup provisioned (js ''record_id'')) ''PUBLIC_V2_DIGEST_INVALID'') (\<lambda>provisioned_id.
     bind_r (raw_public_v2_digest sha (JObj provisioned)) (\<lambda>provisioned_digest.
       Inr [(js ''activated_record_id'', JStr activated_id), (js ''activated_record_sha256'', JStr activated_digest),
         (js ''provisioned_record_id'', JStr provisioned_id), (js ''provisioned_record_sha256'', JStr provisioned_digest)]))))))))"

definition public_activation_id :: "hash \<Rightarrow> (js_string \<Rightarrow> js_number) \<Rightarrow> json \<Rightarrow> json \<Rightarrow> js_string result" where
  "public_activation_id sha decimal provisioned activated =
     bind_r (activation_binding sha decimal provisioned activated) (\<lambda>b. public_v2_id sha ACTIVATION_DOMAIN (JObj b))"

end
