(* ===== verification/PublicActivationExact.thy ===== *)
theory PublicActivationExact imports PublicActivation begin

text \<open>
  What the activation parsers return, how a sealed document relates to the sidecar it carries, and what the
  identifier of a pair of records binds.
\<close>

section \<open>Snapshots, bytes and digests\<close>

lemma snapshot_facts:
  assumes "canonical_public_v2_snapshot decimal v = Inr s" and "well_formed v"
  shows "s = normalise v" and "well_formed s" and "normalise s = s"
    and "canonical_public_v2_bytes s = canonical_public_v2_bytes v" and "\<exists>bs. canonical_public_v2_bytes v = Inr bs"
proof -
  have s: "s = normalise v" "\<exists>bs. canonical_public_v2_bytes v = Inr bs"
    using assms(1) unfolding canonical_public_v2_snapshot_iff [OF assms(2)] by blast+
  then show "s = normalise v" "\<exists>bs. canonical_public_v2_bytes v = Inr bs" by blast+
  show "well_formed s" unfolding s(1) by (rule normalise_well_formed [OF assms(2)])
  show "normalise s = s" unfolding s(1) by (rule normalise_idem)
  show "canonical_public_v2_bytes s = canonical_public_v2_bytes v"
    using s(2) canonical_public_normalise [of v] unfolding s(1) by auto
qed

lemma snapshot_normalise:
  assumes "well_formed v"
  shows "canonical_public_v2_snapshot decimal (normalise v) = Inr s \<longleftrightarrow> canonical_public_v2_snapshot decimal v = Inr s"
  unfolding canonical_public_v2_snapshot_iff [OF assms] canonical_public_v2_snapshot_iff [OF normalise_well_formed [OF assms]]
    canonical_public_normalise normalise_idem ..

lemma snapshot_normal:
  assumes "well_formed v" and "normalise v = v" and "canonical_public_v2_bytes v = Inr bs"
  shows "canonical_public_v2_snapshot decimal v = Inr v"
  unfolding canonical_public_v2_snapshot_iff [OF assms(1)] using assms(2,3) by simp

lemma parse_canonical_of:
  assumes "canonical_public_v2_bytes v = Inr bs" and "well_formed v"
  shows "parse_canonical_public_v2 decimal bs = Inr w \<longleftrightarrow> w = normalise v"
proof -
  have "normalise v = w" if "canonical_public_v2_bytes w = Inr bs" "well_formed w" "normalise w = w" for w
    using canonical_bytes_inj [of v bs w] assms that by (simp add: canonical_public_v2_bytes_iff)
  moreover have "canonical_public_v2_bytes (normalise v) = Inr bs" using assms(1) by (simp only: canonical_public_normalise)
  ultimately show ?thesis
    unfolding parse_canonical_public_v2_iff using normalise_well_formed [OF assms(2)] normalise_idem by metis
qed

lemma raw_digest_iff: "raw_public_v2_digest sha v = Inr d \<longleftrightarrow> (\<exists>bs. canonical_public_v2_bytes v = Inr bs \<and> d = sha256_tag sha bs)"
  using raw_public_v2_digest_eq_Inr [of sha v d] by (simp add: sha256_tag_hex)

lemma public_id_tag:
  "public_v2_id sha d p = Inr i \<Longrightarrow> canonical_public_v2_bytes (envelope d p) = Inr (id_preimage d p) \<and> i = sha256_tag sha (id_preimage d p)"
  by (auto simp: public_v2_id_eq_Inr id_preimage_def sha256_tag_hex)

lemma public_id_DIGEST: "public_v2_id sha d p = Inr i \<Longrightarrow> (\<And>x. length (sha x) = 32) \<Longrightarrow> matches DIGEST i"
  using public_id_tag [of sha d p i] sha256_tag_DIGEST by blast

lemma copy_ok: "1 \<le> length bs \<and> length bs \<le> PUBLIC_V2_MAX_BYTES \<Longrightarrow> copy_public_v2_bytes bs c = Inr bs"
  by (simp add: copy_public_v2_bytes_eq_Inr)

text \<open>A document that is its own snapshot: its canonical bytes parse back to it.\<close>

definition settled :: "members \<Rightarrow> bool" where
  "settled r \<longleftrightarrow> well_formed (JObj r) \<and> normalise (JObj r) = JObj r \<and> (\<exists>bs. canonical_public_v2_bytes (JObj r) = Inr bs)"

lemma settled_snapshot:
  assumes "settled r"
  shows "canonical_public_v2_snapshot decimal (JObj r) = Inr s \<longleftrightarrow> s = JObj r"
  using assms canonical_public_v2_snapshot_iff [of "JObj r" decimal s] by (auto simp: settled_def simp del: normalise.simps)

section \<open>What the parsers return\<close>

text \<open>The checks of the two parsers, after the snapshot.\<close>

definition provisioned_checks :: "hash \<Rightarrow> json \<Rightarrow> members result" where
  "provisioned_checks sha s =
     bind_r (exact_members s A0_KEYS ''PUBLIC_V2_A0_INVALID'') (\<lambda>record.
     bind_r (project_object record A0_BASE_KEYS ''PUBLIC_V2_A0_INVALID'') (\<lambda>base.
     bind_r (validate_provisioned_base (JObj base)) (\<lambda>_.
     bind_r (require_digest (lookup record (js ''private_sidecar_commitment'')) ''PUBLIC_V2_A0_COMMITMENT_INVALID'') (\<lambda>_.
     bind_r (require_digest (lookup record (js ''record_id'')) ''PUBLIC_V2_A0_RECORD_ID_INVALID'') (\<lambda>record_id.
     bind_r (public_v2_id sha A0_DOMAIN (JObj (without_record_id record))) (\<lambda>i.
     bind_r (candidate_assert (record_id = i) ''PUBLIC_V2_A0_ID_MISMATCH'') (\<lambda>_.
     bind_r (canonical_public_v2_bytes (JObj record)) (\<lambda>_. Inr record))))))))"

lemma provisioned_unfold:
  "parse_untrusted_provisioned sha decimal v = bind_r (canonical_public_v2_snapshot decimal v) (provisioned_checks sha)"
  unfolding parse_untrusted_provisioned_def provisioned_checks_def ..

lemma provisioned_checks_same: "provisioned_checks sha s = Inr r \<Longrightarrow> s = JObj r"
  unfolding provisioned_checks_def
  by (elim bind_r_InrE) (simp only: exact_members_eq_Inr sum.inject)

lemma parse_provisioned_iff:
  assumes "well_formed v"
  shows "parse_untrusted_provisioned sha decimal v = Inr r \<longleftrightarrow>
     normalise v = JObj r \<and> settled r \<and> provisioned_checks sha (JObj r) = Inr r"
proof
  assume "parse_untrusted_provisioned sha decimal v = Inr r"
  then obtain s where s: "canonical_public_v2_snapshot decimal v = Inr s" "provisioned_checks sha s = Inr r"
    unfolding provisioned_unfold bind_r_eq_Inr by blast
  note f = snapshot_facts [OF s(1) assms] and r = provisioned_checks_same [OF s(2)]
  have "settled r" using f(2-5) unfolding r settled_def by simp
  then show "normalise v = JObj r \<and> settled r \<and> provisioned_checks sha (JObj r) = Inr r" using f(1) s(2) r by simp
next
  assume a: "normalise v = JObj r \<and> settled r \<and> provisioned_checks sha (JObj r) = Inr r"
  then have "canonical_public_v2_snapshot decimal (normalise v) = Inr (JObj r)" using settled_snapshot by metis
  with a show "parse_untrusted_provisioned sha decimal v = Inr r"
    unfolding provisioned_unfold bind_r_eq_Inr snapshot_normalise [OF assms] by blast
qed

definition activated_checks :: "hash \<Rightarrow> (js_string \<Rightarrow> js_number) \<Rightarrow> json \<Rightarrow> json option \<Rightarrow> members result" where
  "activated_checks sha decimal s provisioned_value =
     bind_r (exact_members s A1_KEYS ''PUBLIC_V2_A1_INVALID'') (\<lambda>record.
     bind_r (case provisioned_value of
               None \<Rightarrow> Inr None
             | Some p \<Rightarrow> bind_r (canonical_public_v2_snapshot decimal p) (\<lambda>q. Inr (Some q))) (\<lambda>provisioned_snapshot.
     bind_r (project_object record A1_BASE_KEYS ''PUBLIC_V2_A1_INVALID'') (\<lambda>base.
     bind_r (validate_activated_base (JObj base)) (\<lambda>_.
     bind_r (require_digest (lookup record (js ''private_sidecar_commitment'')) ''PUBLIC_V2_A1_COMMITMENT_INVALID'') (\<lambda>_.
     bind_r (require_digest (lookup record (js ''record_id'')) ''PUBLIC_V2_A1_RECORD_ID_INVALID'') (\<lambda>record_id.
     bind_r (public_v2_id sha A1_DOMAIN (JObj (without_record_id record))) (\<lambda>i.
     bind_r (candidate_assert (record_id = i) ''PUBLIC_V2_A1_ID_MISMATCH'') (\<lambda>_.
     bind_r (check_provisioned_link sha decimal record provisioned_snapshot) (\<lambda>_.
     bind_r (canonical_public_v2_bytes (JObj record)) (\<lambda>_. Inr record))))))))))"

lemma activated_unfold:
  "parse_untrusted_activated sha decimal v p =
     bind_r (canonical_public_v2_snapshot decimal v) (\<lambda>s. activated_checks sha decimal s p)"
  unfolding parse_untrusted_activated_def activated_checks_def ..

lemma activated_checks_same: "activated_checks sha decimal s p = Inr r \<Longrightarrow> s = JObj r"
  unfolding activated_checks_def
  by (elim bind_r_InrE) (simp only: exact_members_eq_Inr sum.inject)

lemma parse_activated_iff:
  assumes "well_formed v"
  shows "parse_untrusted_activated sha decimal v p = Inr r \<longleftrightarrow>
     normalise v = JObj r \<and> settled r \<and> activated_checks sha decimal (JObj r) p = Inr r"
proof
  assume "parse_untrusted_activated sha decimal v p = Inr r"
  then obtain s where s: "canonical_public_v2_snapshot decimal v = Inr s" "activated_checks sha decimal s p = Inr r"
    unfolding activated_unfold bind_r_eq_Inr by blast
  note f = snapshot_facts [OF s(1) assms] and r = activated_checks_same [OF s(2)]
  have "settled r" using f(2-5) unfolding r settled_def by simp
  then show "normalise v = JObj r \<and> settled r \<and> activated_checks sha decimal (JObj r) p = Inr r" using f(1) s(2) r by simp
next
  assume a: "normalise v = JObj r \<and> settled r \<and> activated_checks sha decimal (JObj r) p = Inr r"
  then have "canonical_public_v2_snapshot decimal (normalise v) = Inr (JObj r)" using settled_snapshot by metis
  with a show "parse_untrusted_activated sha decimal v p = Inr r"
    unfolding activated_unfold bind_r_eq_Inr snapshot_normalise [OF assms] by blast
qed

lemma parse_canonical_provisioned_iff:
  "parse_canonical_provisioned sha decimal bs = Inr r \<longleftrightarrow>
     canonical_public_v2_bytes (JObj r) = Inr bs \<and> settled r \<and> provisioned_checks sha (JObj r) = Inr r"
proof
  assume "parse_canonical_provisioned sha decimal bs = Inr r"
  then obtain v where v: "parse_canonical_public_v2 decimal bs = Inr v" "parse_untrusted_provisioned sha decimal v = Inr r"
    by (auto simp: parse_canonical_provisioned_def result_simps)
  then have w: "canonical_public_v2_bytes v = Inr bs" "well_formed v" "normalise v = v"
    by (simp_all only: parse_canonical_public_v2_iff)
  show "canonical_public_v2_bytes (JObj r) = Inr bs \<and> settled r \<and> provisioned_checks sha (JObj r) = Inr r"
    using v(2) w(1,3) unfolding parse_provisioned_iff [OF w(2)] by simp
next
  assume a: "canonical_public_v2_bytes (JObj r) = Inr bs \<and> settled r \<and> provisioned_checks sha (JObj r) = Inr r"
  then have wf: "well_formed (JObj r)" "normalise (JObj r) = JObj r" by (simp_all only: settled_def)
  have p: "parse_canonical_public_v2 decimal bs = Inr (JObj r)" using a wf by (simp only: parse_canonical_public_v2_iff)
  have "parse_untrusted_provisioned sha decimal (JObj r) = Inr r" using a wf(2) by (simp only: parse_provisioned_iff [OF wf(1)])
  with p parse_canonical_size [OF p] show "parse_canonical_provisioned sha decimal bs = Inr r"
    by (simp add: parse_canonical_provisioned_def copy_ok)
qed

lemma parse_pair_iff:
  "parse_canonical_activation_pair sha decimal abytes pbytes = Inr pair \<longleftrightarrow>
     parse_canonical_provisioned sha decimal pbytes = Inr (ap_provisioned pair) \<and>
     canonical_public_v2_bytes (JObj (ap_activated pair)) = Inr abytes \<and> settled (ap_activated pair) \<and>
     activated_checks sha decimal (JObj (ap_activated pair)) (Some (JObj (ap_provisioned pair))) = Inr (ap_activated pair)"
proof
  assume "parse_canonical_activation_pair sha decimal abytes pbytes = Inr pair"
  then obtain v where v: "parse_canonical_provisioned sha decimal pbytes = Inr (ap_provisioned pair)"
    "parse_canonical_public_v2 decimal abytes = Inr v"
    "parse_untrusted_activated sha decimal v (Some (JObj (ap_provisioned pair))) = Inr (ap_activated pair)"
    by (auto simp: parse_canonical_activation_pair_def result_simps)
  then have w: "canonical_public_v2_bytes v = Inr abytes" "well_formed v" "normalise v = v"
    by (simp_all only: parse_canonical_public_v2_iff)
  show "parse_canonical_provisioned sha decimal pbytes = Inr (ap_provisioned pair) \<and>
     canonical_public_v2_bytes (JObj (ap_activated pair)) = Inr abytes \<and> settled (ap_activated pair) \<and>
     activated_checks sha decimal (JObj (ap_activated pair)) (Some (JObj (ap_provisioned pair))) = Inr (ap_activated pair)"
    using v(1,3) w(1,3) unfolding parse_activated_iff [OF w(2)] by simp
next
  assume a: "parse_canonical_provisioned sha decimal pbytes = Inr (ap_provisioned pair) \<and>
     canonical_public_v2_bytes (JObj (ap_activated pair)) = Inr abytes \<and> settled (ap_activated pair) \<and>
     activated_checks sha decimal (JObj (ap_activated pair)) (Some (JObj (ap_provisioned pair))) = Inr (ap_activated pair)"
  then have wf: "well_formed (JObj (ap_activated pair))" "normalise (JObj (ap_activated pair)) = JObj (ap_activated pair)"
    by (simp_all only: settled_def)
  have p: "parse_canonical_public_v2 decimal abytes = Inr (JObj (ap_activated pair))"
    using a wf by (simp only: parse_canonical_public_v2_iff)
  have q: "parse_untrusted_activated sha decimal (JObj (ap_activated pair)) (Some (JObj (ap_provisioned pair))) = Inr (ap_activated pair)"
    using a wf(2) by (simp only: parse_activated_iff [OF wf(1)])
  have "copy_public_v2_bytes pbytes c = Inr pbytes" for c
    using a by (auto simp: parse_canonical_provisioned_def result_simps)
  with a p q parse_canonical_size [OF p] show "parse_canonical_activation_pair sha decimal abytes pbytes = Inr pair"
    by (cases pair) (simp add: parse_canonical_activation_pair_def copy_ok)
qed

section \<open>A sealed document opens\<close>

lemma build_payload_bytes:
  assumes "build_sidecar_opening sha decimal kind nonce p base = Inr r"
  shows "so_private_payload_bytes r = p"
proof -
  obtain b where b: "copy_public_v2_bytes p ''PUBLIC_V2_PRIVATE_PAYLOAD_SIZE_INVALID'' = Inr b"
    "so_private_payload_bytes r = b"
    using assms unfolding build_sidecar_opening_def
    by (elim bind_r_InrE) (drule sum.inject(2) [THEN iffD1], hypsubst, simp)
  then show ?thesis by (simp add: copy_public_v2_bytes_eq_Inr)
qed

lemma verify_normalise:
  assumes "well_formed v"
  shows "verify_sidecar_opening sha decimal kind o1 p (normalise v) = Inr () \<longleftrightarrow>
    verify_sidecar_opening sha decimal kind o1 p v = Inr ()"
  unfolding verify_sidecar_opening_def bind_r_eq_Inr snapshot_normalise [OF assms] ..

lemma with_document_fields [simp]:
  "so_opening (with_document s d bs) = so_opening s"
  "so_commitment (with_document s d bs) = so_commitment s"
  "so_private_payload_bytes (with_document s d bs) = so_private_payload_bytes s"
  "dc_document (with_document s d bs) = d" "dc_document_bytes (with_document s d bs) = bs"
  by (simp_all add: with_document_def sidecar_opening.defs)

lemma sealed_opens:
  assumes build: "build_sidecar_opening sha decimal kind nonce p (JObj base) = Inr s"
    and wf: "well_formed (JObj base)" and schema: "lookup base (js ''schema'') = JStr (document_schema kind)"
    and fresh: "js ''private_sidecar_commitment'' \<notin> set (map fst base)" "js (terminal_id kind) \<notin> set (map fst base)"
    and tid: "matches DIGEST i" and sha: "\<And>x. length (sha x) = 32"
    and sealed: "canonical_public_v2_bytes
      (JObj (base @ [(js ''private_sidecar_commitment'', JStr (so_commitment s)), (js (terminal_id kind), JStr i)])) = Inr bs"
    and d: "canonical_public_v2_bytes (JObj d) = Inr bs" "settled d"
  shows "verify_sidecar_opening sha decimal kind (so_opening s) (so_private_payload_bytes s) (JObj d) = Inr ()"
proof -
  let ?doc = "base @ [(js ''private_sidecar_commitment'', JStr (so_commitment s)), (js (terminal_id kind), JStr i)]"
  have "js ''private_sidecar_commitment'' \<noteq> js (terminal_id kind)" by (cases kind) simp_all
  then have wfd: "well_formed (JObj ?doc)" using wf fresh by simp
  have "normalise (JObj ?doc) = normalise (JObj d)"
    using canonical_bytes_inj [of "JObj ?doc" bs "JObj d"] sealed d wfd by (simp only: canonical_public_v2_bytes_iff settled_def)
  then have same: "JObj d = normalise (JObj ?doc)" using d(2) by (simp only: settled_def)
  show ?thesis unfolding build_payload_bytes [OF build] same verify_normalise [OF wfd]
    by (rule opening_verifies [OF build wf schema fresh HOL.refl tid sealed sha])
qed

lemma document_schemas:
  "document_schema ACTIVATION_A0 = PROVISIONED_PUBLIC_CORE_SCHEMA" "document_schema ACTIVATION_A1 = ACTIVATED_PUBLIC_CORE_SCHEMA"
  by (simp_all add: PROVISIONED_PUBLIC_CORE_SCHEMA_def ACTIVATED_PUBLIC_CORE_SCHEMA_def)

lemma provisioned_base_shape:
  "well_formed (JObj (provisioned_base b c))" "lookup (provisioned_base b c) (js ''schema'') = JStr (document_schema ACTIVATION_A0)"
  "js ''private_sidecar_commitment'' \<notin> set (map fst (provisioned_base b c))"
  "js (terminal_id ACTIVATION_A0) \<notin> set (map fst (provisioned_base b c))"
  by (simp_all add: provisioned_base_def lookup_def JI_def PROVISIONED_PUBLIC_CORE_SCHEMA_def)

lemma activated_base_shape:
  "well_formed (JObj (activated_base b p d))" "lookup (activated_base b p d) (js ''schema'') = JStr (document_schema ACTIVATION_A1)"
  "js ''private_sidecar_commitment'' \<notin> set (map fst (activated_base b p d))"
  "js (terminal_id ACTIVATION_A1) \<notin> set (map fst (activated_base b p d))"
  by (simp_all add: activated_base_def lookup_def JI_def ACTIVATED_PUBLIC_CORE_SCHEMA_def)

lemma validated_bases:
  "validate_provisioned_base v = Inr m \<Longrightarrow> v = JObj m" "validate_activated_base v = Inr m \<Longrightarrow> v = JObj m"
  unfolding validate_provisioned_base_def validate_activated_base_def
  by (elim bind_r_InrE; simp only: exact_members_eq_Inr sum.inject)+

lemma provisioned_candidate_opens:
  assumes "build_provisioned_candidate sha decimal b c nonce payload = Inr d" and sha: "\<And>x. length (sha x) = 32"
  shows "verify_sidecar_opening sha decimal ACTIVATION_A0 (so_opening d) (so_private_payload_bytes d) (dc_document d) = Inr ()"
proof -
  obtain n pb base s sealed bs doc where e: "build_provisioned_public_base b c = Inr base"
    "build_sidecar_opening sha decimal ACTIVATION_A0 n pb (JObj base) = Inr s"
    "seal_provisioned_public_core sha base (JStr (so_commitment s)) = Inr sealed"
    "canonical_public_v2_bytes (JObj sealed) = Inr bs" "parse_canonical_provisioned sha decimal bs = Inr doc"
    and d: "Inr (with_document s (JObj doc) bs) = (Inr d :: document_candidate result)"
    using assms(1) unfolding build_provisioned_candidate_def by (elim bind_r_InrE) (simp only: simp_thms)
  have base: "base = provisioned_base b c" using e(1) by (auto simp only: build_provisioned_public_base_def bind_r_eq_Inr sum.inject)
  obtain i where i: "public_v2_id sha A0_DOMAIN (JObj (base @ [(js ''private_sidecar_commitment'', JStr (so_commitment s))])) = Inr i"
    "sealed = base @ [(js ''private_sidecar_commitment'', JStr (so_commitment s)), (js (terminal_id ACTIVATION_A0), JStr i)]"
    using e(3) by (auto simp: seal_provisioned_public_core_def bind_r_eq_Inr require_digest_eq_Inr Let_def dest!: validated_bases)
  have doc: "canonical_public_v2_bytes (JObj doc) = Inr bs" "settled doc" using e(5) by (simp_all only: parse_canonical_provisioned_iff)
  have "verify_sidecar_opening sha decimal ACTIVATION_A0 (so_opening s) (so_private_payload_bytes s) (JObj doc) = Inr ()"
    by (rule sealed_opens [OF e(2) _ _ _ _ public_id_DIGEST [OF i(1) sha] sha _ doc])
      (use e(4) provisioned_base_shape in \<open>simp_all only: base i(2) not_False_eq_True\<close>)
  then show ?thesis using d by (auto simp only: sum.inject with_document_fields)
qed

lemma activated_candidate_opens:
  assumes "build_activated_candidate sha decimal b nonce payload provisioned = Inr d" and sha: "\<And>x. length (sha x) = 32"
  shows "verify_sidecar_opening sha decimal ACTIVATION_A1 (so_opening d) (so_private_payload_bytes d) (dc_document d) = Inr ()"
proof -
  obtain n pb pv base s sealed bs pair pbytes where e: "build_activated_public_base sha decimal b (JObj pv) = Inr base"
    "build_sidecar_opening sha decimal ACTIVATION_A1 n pb (JObj base) = Inr s"
    "seal_activated_public_core sha base (JStr (so_commitment s)) = Inr sealed"
    "canonical_public_v2_bytes (JObj sealed) = Inr bs" "parse_canonical_activation_pair sha decimal bs pbytes = Inr pair"
    and d: "Inr (with_document s (JObj (ap_activated pair)) bs) = (Inr d :: document_candidate result)"
    using assms(1) unfolding build_activated_candidate_def by (elim bind_r_InrE) (simp only: simp_thms)
  obtain pid dg where base: "base = activated_base b pid dg"
    using e(1) by (auto simp only: build_activated_public_base_def bind_r_eq_Inr sum.inject Let_def)
  obtain i where i: "public_v2_id sha A1_DOMAIN (JObj (base @ [(js ''private_sidecar_commitment'', JStr (so_commitment s))])) = Inr i"
    "sealed = base @ [(js ''private_sidecar_commitment'', JStr (so_commitment s)), (js (terminal_id ACTIVATION_A1), JStr i)]"
    using e(3) by (auto simp: seal_activated_public_core_def bind_r_eq_Inr require_digest_eq_Inr Let_def dest!: validated_bases)
  have doc: "canonical_public_v2_bytes (JObj (ap_activated pair)) = Inr bs" "settled (ap_activated pair)"
    using e(5) by (simp_all only: parse_pair_iff)
  have "verify_sidecar_opening sha decimal ACTIVATION_A1 (so_opening s) (so_private_payload_bytes s) (JObj (ap_activated pair)) = Inr ()"
    by (rule sealed_opens [OF e(2) _ _ _ _ public_id_DIGEST [OF i(1) sha] sha _ doc])
      (use e(4) activated_base_shape in \<open>simp_all only: base i(2) not_False_eq_True\<close>)
  then show ?thesis using d by (auto simp only: sum.inject with_document_fields)
qed

end
