(* ===== verification/PublicIssuance.thy ===== *)
theory PublicIssuance imports PublicActivationExact begin

text \<open>
  Building succeeds on valid input: a base that is its own normal form and of moderate size can be sealed
  with its commitment and its identifier, and its parser returns the sealed document. From that, A0 and
  A1 can always be built from valid sources.
\<close>

section \<open>Objects in normal form\<close>

lemma normalise_sorted:
  assumes "sorted (map fst kvs)" and "\<And>k v. (k, v) \<in> set kvs \<Longrightarrow> normalise v = v"
  shows "normalise (JObj kvs) = JObj kvs"
proof -
  have "map (map_prod id normalise) kvs = kvs" using assms(2) by (auto intro!: map_idI)
  moreover have "sort_key fst kvs = kvs" using assms(1) by (rule sort_key_id_if_sorted)
  ultimately show ?thesis by simp
qed

lemma normalise_str [simp]: "normalise (JStr s) = JStr s" by simp

lemma project_object_eq_Inr:
  "project_object m ks code = Inr p \<longleftrightarrow>
     (\<forall>k \<in> set ks. lookup m (js k) \<noteq> JUndef) \<and> p = map (\<lambda>k. (js k, lookup m (js k))) ks"
proof -
  have "map_r (\<lambda>k. bind_r (candidate_assert (lookup m (js k) \<noteq> JUndef) code) (\<lambda>_. Inr (js k, lookup m (js k)))) ks = Inr p \<longleftrightarrow>
     (\<forall>k \<in> set ks. lookup m (js k) \<noteq> JUndef) \<and> p = map (\<lambda>k. (js k, lookup m (js k))) ks" for p
    by (induction ks arbitrary: p) (auto simp: result_simps)
  then show ?thesis by (simp add: project_object_def)
qed

lemma public_id_normalise: "public_v2_id sha d (normalise p) = Inr i \<longleftrightarrow> public_v2_id sha d p = Inr i"
proof -
  have "normalise (envelope d (normalise p)) = normalise (envelope d p)"
    by (simp only: normalise_envelopes normalise_idem)
  then have "canonical_bytes (envelope d (normalise p)) = canonical_bytes (envelope d p)" by (rule canonical_bytes_normalise)
  then show ?thesis unfolding public_v2_id_eq_Inr by (simp only: canonical_public_v2_bytes_iff)
qed

lemma public_id_exists:
  assumes "fits 31 990 60000 p" and "well_formed p" and "matches PUBLIC_DOMAIN d" and "0 \<notin> set d"
  obtains i where "public_v2_id sha d p = Inr i"
proof -
  have "ascii d" "length d \<le> 128"
    using assms(3) matches_ascii [of PUBLIC_DOMAIN d] by (simp_all add: PUBLIC_DOMAIN_def matches_Rep_Cls)
  then have "fits 32 1000 65536 (envelope d p)" "well_formed (envelope d p)"
    using assms(1,2) by (simp_all add: fits_def fits_simps envelope_def)
  then obtain bs where "canonical_public_v2_bytes (envelope d p) = Inr bs"
    using fits_public unfolding envelope_def by metis
  with that assms(3,4) show thesis by (simp add: public_v2_id_eq_Inr)
qed

section \<open>Sealing a base\<close>

text \<open>A base with its commitment and terminal identifier, in normal form; what its parser projects out of it.\<close>

lemma sealed_document:
  assumes wf: "well_formed (JObj base)" and keys: "map fst base = map js ks" "JUndef \<notin> set (map snd base)"
    and fresh: "c \<notin> set (map fst base)" "t \<notin> set (map fst base)" "c \<noteq> t"
    and doc: "canonical_public_v2_bytes (JObj (base @ [(c, JStr x), (t, JStr i)])) = Inr bs"
  obtains r where "normalise (JObj (base @ [(c, JStr x), (t, JStr i)])) = JObj r" "settled r"
    "canonical_public_v2_bytes (JObj r) = Inr bs" "set (map fst r) = insert c (insert t (js ` set ks))"
    "lookup r c = JStr x" "lookup r t = JStr i" "\<And>k. k \<in> set ks \<Longrightarrow> lookup r (js k) = normalise (lookup base (js k))"
    "\<And>code. project_object r ks code = Inr (map (map_prod id normalise) base)"
    "JObj (filter (\<lambda>(k, _). k \<noteq> t) r) = normalise (JObj (base @ [(c, JStr x)]))"
proof -
  let ?doc = "base @ [(c, JStr x), (t, JStr i)]"
  have wfd: "well_formed (JObj ?doc)" using wf fresh by auto
  obtain r where r: "normalise (JObj ?doc) = JObj r" "well_formed (JObj r)" "set (map fst r) = set (map fst ?doc)"
    "\<And>k. lookup r k = normalise (lookup ?doc k)" using normal_members [OF wfd] by metis
  have bytes: "canonical_public_v2_bytes (JObj r) = Inr bs" using doc unfolding r(1) [symmetric] canonical_public_normalise .
  have settled: "settled r" using r(1,2) bytes normalise_idem [of "JObj ?doc"] by (simp add: settled_def)
  have ks: "set (map fst base) = js ` set ks" unfolding keys(1) by simp
  have base: "lookup r (js k) = normalise (lookup base (js k))" if "k \<in> set ks" for k
    using r(4) lookup_append(1) [of "js k" base] that ks by (simp del: set_map)
  have d: "distinct (map fst base)" using wf by simp
  have pairs: "map (\<lambda>k. (js k, normalise (lookup base (js k)))) ks = map (map_prod id normalise) base"
  proof -
    have "map (\<lambda>k. (js k, normalise (lookup base (js k)))) ks = map (\<lambda>k. (k, normalise (lookup base k))) (map js ks)"
      by (simp add: comp_def)
    also have "\<dots> = map (\<lambda>(k, v). (k, normalise v)) base"
      unfolding keys(1) [symmetric] map_map by (rule map_cong [OF HOL.refl]) (use d in \<open>auto simp: lookup_def\<close>)
    finally show ?thesis by (simp add: map_prod_def)
  qed
  have defined: "normalise (lookup base (js k)) \<noteq> JUndef" if "k \<in> set ks" for k
  proof -
    have "js k \<in> set (map fst base)" using that ks by blast
    then have "(js k, lookup base (js k)) \<in> set base" using member_lookup [OF d] by blast
    then have "lookup base (js k) \<noteq> JUndef" using keys(2) by force
    then show ?thesis by (cases "lookup base (js k)") (simp_all split: js_number.splits)
  qed
  have project: "project_object r ks code = Inr (map (map_prod id normalise) base)" for code
    unfolding project_object_eq_Inr using base defined pairs by (simp cong: map_cong)
  have ct: "lookup r c = JStr x" "lookup r t = JStr i"
    unfolding r(4) lookup_append(2) [OF fresh(1)] lookup_append(2) [OF fresh(2)] using fresh(3) by (simp_all add: lookup_def)
  have "normalise (JObj (filter (\<lambda>(k, _). k \<noteq> t) ?doc)) = JObj (filter (\<lambda>(k, _). k \<noteq> t) r)"
  proof -
    have "r = sort_key fst (map (map_prod id normalise) ?doc)" using r(1) by simp
    then show ?thesis by (simp only: normalise.simps filter_sort filter_map comp_def case_prod_unfold fst_map_prod id_apply)
  qed
  moreover have "filter (\<lambda>(k, _). k \<noteq> t) ?doc = base @ [(c, JStr x)]"
    using fresh by (force simp: filter_id_conv)
  ultimately have "JObj (filter (\<lambda>(k, _). k \<noteq> t) r) = normalise (JObj (base @ [(c, JStr x)]))" by metis
  with that r(1,3) settled bytes ks ct base project show thesis by (simp del: set_map)
qed

section \<open>The provisioned core\<close>

lemma A_keys_sorted:
  "sorted (map js A0_BASE_KEYS)" "sorted (map js A1_BASE_KEYS)" "sorted (map js BROKER_SOURCE_KEYS)"
  "sorted (map js CONTROLLER_SOURCE_KEYS)" "sorted (map js ACTION_BUNDLE_KEYS)" "sorted (map js BASELINE_SOURCE_KEYS)"
  "distinct A0_BASE_KEYS" "distinct A1_BASE_KEYS" "distinct BROKER_SOURCE_KEYS" "distinct CONTROLLER_SOURCE_KEYS"
  "distinct ACTION_BUNDLE_KEYS" "distinct BASELINE_SOURCE_KEYS" "distinct A0_KEYS" "distinct A1_KEYS"
  by code_simp+

definition broker_source_members :: "broker_source_input \<Rightarrow> members" where
  "broker_source_members b = [(js ''commit_sha'', JStr (bsi_commit_sha b)), (js ''source_sha256'', JStr (bsi_source_sha256 b)),
     (js ''tree_sha'', JStr (bsi_tree_sha b))]"

definition action_bundle_members :: "action_bundle_input \<Rightarrow> members" where
  "action_bundle_members a = [(js ''bundle_sha256'', JStr (abi_bundle_sha256 a)), (js ''commit_sha'', JStr (abi_commit_sha a)),
     (js ''metadata_blob_sha'', JStr (abi_metadata_blob_sha a))]"

definition controller_source_members :: "controller_source_input \<Rightarrow> members" where
  "controller_source_members c =
     [(js ''action_bundle'', JObj (action_bundle_members (csi_action_bundle c))), (js ''commit_sha'', JStr (csi_commit_sha c)),
      (js ''default_branch_workflow_blob_sha'', JStr (csi_default_branch_workflow_blob_sha c)),
      (js ''tag_object_sha'', JStr (csi_tag_object_sha c)), (js ''tag_ref'', JStr (csi_tag_ref c)),
      (js ''tree_sha'', JStr (csi_tree_sha c)), (js ''workflow_blob_sha'', JStr (csi_workflow_blob_sha c)),
      (js ''workflow_sha256'', JStr (csi_workflow_sha256 c))]"

lemma provisioned_base_members:
  "provisioned_base b c = [(js ''broker_source'', JObj (broker_source_members b)),
     (js ''controller_source'', JObj (controller_source_members c)), (js ''previous'', JStr (js ''GENESIS'')),
     (js ''schema'', JStr PROVISIONED_PUBLIC_CORE_SCHEMA), (js ''schema_version'', JI 2), (js ''sequence'', JI 0)]"
  by (simp add: provisioned_base_def broker_source_members_def controller_source_members_def action_bundle_members_def)

text \<open>The sources that A0 accepts: what the validation asks of every field, and a tag reference of moderate length.\<close>

definition provisioned_sources_ok :: "broker_source_input \<Rightarrow> controller_source_input \<Rightarrow> bool" where
  "provisioned_sources_ok b c \<longleftrightarrow>
     list_all (matches SHA1_HEX) [bsi_commit_sha b, bsi_tree_sha b, abi_commit_sha (csi_action_bundle c),
       abi_metadata_blob_sha (csi_action_bundle c), csi_commit_sha c, csi_default_branch_workflow_blob_sha c,
       csi_tag_object_sha c, csi_tree_sha c, csi_workflow_blob_sha c] \<and>
     list_all (matches DIGEST) [bsi_source_sha256 b, abi_bundle_sha256 (csi_action_bundle c), csi_workflow_sha256 c] \<and>
     abi_commit_sha (csi_action_bundle c) \<noteq> csi_commit_sha c \<and> csi_tag_object_sha c \<noteq> csi_commit_sha c \<and>
     matches TAG_REF (csi_tag_ref c) \<and> length (csi_tag_ref c) \<le> 256"

lemma sha1_text: "matches SHA1_HEX s \<Longrightarrow> ascii s \<and> length s = 40"
  using matches_ascii [of SHA1_HEX s] by (simp add: SHA1_HEX_def matches_Rep_Cls)

lemma tag_texts: "matches TAG s \<Longrightarrow> ascii s" "matches TAG_REF s \<Longrightarrow> ascii s"
  by (rule matches_ascii; simp add: TAG_def TAG_REF_def Let_def)+

lemma provisioned_keys:
  "map fst (broker_source_members b) = map js BROKER_SOURCE_KEYS"
  "map fst (action_bundle_members a) = map js ACTION_BUNDLE_KEYS"
  "map fst (controller_source_members c) = map js CONTROLLER_SOURCE_KEYS"
  "map fst (provisioned_base b c) = map js A0_BASE_KEYS"
  by (simp_all add: broker_source_members_def BROKER_SOURCE_KEYS_def action_bundle_members_def ACTION_BUNDLE_KEYS_def
      controller_source_members_def CONTROLLER_SOURCE_KEYS_def provisioned_base_members A0_BASE_KEYS_def)

lemma exact_same: "map fst m = map js ks \<Longrightarrow> exact_members (JObj m) ks code = Inr m"
  by (simp add: exact_members_eq_Inr)

lemma provisioned_lookups:
  "lookup (broker_source_members b) (js ''commit_sha'') = JStr (bsi_commit_sha b)"
  "lookup (broker_source_members b) (js ''source_sha256'') = JStr (bsi_source_sha256 b)"
  "lookup (broker_source_members b) (js ''tree_sha'') = JStr (bsi_tree_sha b)"
  "lookup (action_bundle_members a) (js ''bundle_sha256'') = JStr (abi_bundle_sha256 a)"
  "lookup (action_bundle_members a) (js ''commit_sha'') = JStr (abi_commit_sha a)"
  "lookup (action_bundle_members a) (js ''metadata_blob_sha'') = JStr (abi_metadata_blob_sha a)"
  "lookup (controller_source_members c) (js ''action_bundle'') = JObj (action_bundle_members (csi_action_bundle c))"
  "lookup (controller_source_members c) (js ''commit_sha'') = JStr (csi_commit_sha c)"
  "lookup (controller_source_members c) (js ''default_branch_workflow_blob_sha'') = JStr (csi_default_branch_workflow_blob_sha c)"
  "lookup (controller_source_members c) (js ''tag_object_sha'') = JStr (csi_tag_object_sha c)"
  "lookup (controller_source_members c) (js ''tag_ref'') = JStr (csi_tag_ref c)"
  "lookup (controller_source_members c) (js ''tree_sha'') = JStr (csi_tree_sha c)"
  "lookup (controller_source_members c) (js ''workflow_blob_sha'') = JStr (csi_workflow_blob_sha c)"
  "lookup (controller_source_members c) (js ''workflow_sha256'') = JStr (csi_workflow_sha256 c)"
  "lookup (provisioned_base b c) (js ''broker_source'') = JObj (broker_source_members b)"
  "lookup (provisioned_base b c) (js ''controller_source'') = JObj (controller_source_members c)"
  "lookup (provisioned_base b c) (js ''previous'') = JStr (js ''GENESIS'')"
  "lookup (provisioned_base b c) (js ''schema'') = JStr PROVISIONED_PUBLIC_CORE_SCHEMA"
  "lookup (provisioned_base b c) (js ''schema_version'') = JI 2"
  "lookup (provisioned_base b c) (js ''sequence'') = JI 0"
  by (simp_all add: broker_source_members_def action_bundle_members_def controller_source_members_def
      provisioned_base_members lookup_def)

lemma reader_ok:
  "lookup m (js k) = JStr s \<Longrightarrow> matches SHA1_HEX s \<Longrightarrow> git_sha_field m k c = Inr s"
  "lookup m (js k) = JStr s \<Longrightarrow> matches DIGEST s \<Longrightarrow> digest_field m k c = Inr s"
  "lookup m (js k) = JStr s \<Longrightarrow> (case p of None \<Rightarrow> True | Some r \<Rightarrow> matches r s) \<Longrightarrow> string_field m k c p = Inr s"
  "lookup m (js k) = JObj o1 \<Longrightarrow> object_field m k c = Inr o1"
  "strict_equal (lookup m (js k)) v \<Longrightarrow> literal_field m k v c = Inr ()"
  "matches DIGEST s \<Longrightarrow> require_digest (JStr s) c = Inr s"
  by (auto simp: field_readers_eq_Inr require_digest_eq_Inr split: option.splits)

lemma strict_equal_self [simp]: "strict_equal (JI n) (JI n)"
  by (simp add: JI_def number_int_def)

lemma provisioned_normal:
  "normalise (JObj (broker_source_members b)) = JObj (broker_source_members b)"
  "normalise (JObj (action_bundle_members a)) = JObj (action_bundle_members a)"
  "normalise (JObj (controller_source_members c)) = JObj (controller_source_members c)"
  "normalise (JObj (provisioned_base b c)) = JObj (provisioned_base b c)"
proof -
  show "normalise (JObj (broker_source_members b)) = JObj (broker_source_members b)"
    by (rule normalise_sorted, use A_keys_sorted(3) in \<open>simp add: broker_source_members_def BROKER_SOURCE_KEYS_def\<close>)
      (auto simp: broker_source_members_def)
  show "normalise (JObj (action_bundle_members a)) = JObj (action_bundle_members a)" for a
    by (rule normalise_sorted, use A_keys_sorted(5) in \<open>simp add: action_bundle_members_def ACTION_BUNDLE_KEYS_def\<close>)
      (auto simp: action_bundle_members_def)
  then show "normalise (JObj (controller_source_members c)) = JObj (controller_source_members c)" for c
    by (intro normalise_sorted, use A_keys_sorted(4) in \<open>simp add: controller_source_members_def CONTROLLER_SOURCE_KEYS_def\<close>)
      (auto simp: controller_source_members_def simp del: normalise.simps(7))
  with \<open>normalise (JObj (broker_source_members b)) = JObj (broker_source_members b)\<close>
  show "normalise (JObj (provisioned_base b c)) = JObj (provisioned_base b c)"
    by (intro normalise_sorted, use A_keys_sorted(1) in \<open>simp add: provisioned_base_members A0_BASE_KEYS_def\<close>)
      (auto simp: provisioned_base_members simp del: normalise.simps(7))
qed

lemma provisioned_base_good:
  assumes "provisioned_sources_ok b c"
  shows "fits 4 60 12000 (JObj (provisioned_base b c))" and "well_formed (JObj (provisioned_base b c))"
    and "normalise (JObj (provisioned_base b c)) = JObj (provisioned_base b c)"
    and "\<And>code. canonical_public_v2_bytes (JObj (provisioned_base b c)) = Inr code \<Longrightarrow>
      validate_provisioned_base (JObj (provisioned_base b c)) = Inr (provisioned_base b c)"
proof -
  have sha1: "ascii s \<and> length s = 40" if "s \<in> {bsi_commit_sha b, bsi_tree_sha b, abi_commit_sha (csi_action_bundle c),
       abi_metadata_blob_sha (csi_action_bundle c), csi_commit_sha c, csi_default_branch_workflow_blob_sha c,
       csi_tag_object_sha c, csi_tree_sha c, csi_workflow_blob_sha c}" for s
    using assms that by (auto simp: provisioned_sources_ok_def sha1_text)
  have dig: "ascii s \<and> length s = 71" if "s \<in> {bsi_source_sha256 b, abi_bundle_sha256 (csi_action_bundle c), csi_workflow_sha256 c}" for s
    using assms that by (auto simp: provisioned_sources_ok_def dest: matched_text(1))
  have tag: "ascii (csi_tag_ref c)" "length (csi_tag_ref c) \<le> 256" using assms by (simp_all add: provisioned_sources_ok_def tag_texts)
  show "fits 4 60 12000 (JObj (provisioned_base b c))"
    using tag by (simp add: fits_def fits_simps provisioned_base_def sha1 dig PROVISIONED_PUBLIC_CORE_SCHEMA_def)
  show wf: "well_formed (JObj (provisioned_base b c))" by (rule provisioned_base_shape)
  show "normalise (JObj (provisioned_base b c)) = JObj (provisioned_base b c)"
    by (rule provisioned_normal)
  fix bs assume bs: "canonical_public_v2_bytes (JObj (provisioned_base b c)) = Inr bs"
  show "validate_provisioned_base (JObj (provisioned_base b c)) = Inr (provisioned_base b c)"
  proof -
    have "validate_controller_source (controller_source_members c) = Inr ()"
      using assms unfolding validate_controller_source_def provisioned_sources_ok_def
      by (simp add: exact_same provisioned_keys provisioned_lookups reader_ok)
    then show ?thesis
      using assms bs unfolding validate_provisioned_base_def provisioned_sources_ok_def
      by (simp add: exact_same provisioned_keys provisioned_lookups reader_ok)
  qed
qed

section \<open>Sealing succeeds\<close>

abbreviation committed :: "members \<Rightarrow> js_string \<Rightarrow> members" where
  "committed base commitment \<equiv> base @ [(js ''private_sidecar_commitment'', JStr commitment)]"

abbreviation sealed_members :: "members \<Rightarrow> js_string \<Rightarrow> sidecar_kind \<Rightarrow> js_string \<Rightarrow> members" where
  "sealed_members base commitment kind i \<equiv>
     base @ [(js ''private_sidecar_commitment'', JStr commitment), (js (terminal_id kind), JStr i)]"

definition private_payload_ok :: "sidecar_kind \<Rightarrow> json \<Rightarrow> bool" where
  "private_payload_ok kind payload \<longleftrightarrow>
     well_formed payload \<and> (\<exists>bs. canonical_public_v2_bytes payload = Inr bs) \<and>
     json_get payload (js ''schema'') = JStr (private_payload_schema kind)"

definition nonce_ok :: "bytes \<Rightarrow> bool" where
  "nonce_ok nonce \<longleftrightarrow> length nonce = 32 \<and> list_ex (\<lambda>b. b \<noteq> 0) nonce"

lemma private_payload_parses:
  assumes "private_payload_ok kind payload" and "canonical_public_v2_bytes payload = Inr pb"
  shows "parse_canonical_public_v2 decimal pb = Inr (normalise payload)"
    and "json_get (normalise payload) (js ''schema'') = JStr (private_payload_schema kind)"
proof -
  have wf: "well_formed payload" using assms(1) by (simp add: private_payload_ok_def)
  show "parse_canonical_public_v2 decimal pb = Inr (normalise payload)" using parse_canonical_of [OF assms(2) wf] by simp
  obtain kvs where p: "payload = JObj kvs" using assms(1) by (cases payload) (auto simp: private_payload_ok_def json_get_def)
  obtain m where m: "normalise payload = JObj m" "\<And>k. lookup m k = normalise (lookup kvs k)"
    using normal_members [OF wf [unfolded p]] p by metis
  have "lookup kvs (js ''schema'') = JStr (private_payload_schema kind)"
    using assms(1) by (simp add: private_payload_ok_def p json_get_def)
  then show "json_get (normalise payload) (js ''schema'') = JStr (private_payload_schema kind)"
    by (simp only: m(1) json_get_def json.case m(2) normalise_str)
qed

lemma fits_add:
  assumes "fits h n w (JObj kvs)" and "1 \<le> h" and "n \<le> 1000" and "is_bounded_ascii k MAX_KEY_BYTES" and "ascii s" and "length s \<le> 1000"
    and "m = n + 1" and "6 * length k + 6 * length s + 6 + w \<le> u"
  shows "fits h m u (JObj (kvs @ [(k, JStr s)]))"
proof -
  have pos: "1 \<le> nodes v" for v by (cases v) simp_all
  have "length kvs \<le> sum_list (map (\<lambda>x. nodes (snd x)) kvs)"
  proof (induction kvs)
    case (Cons a kvs)
    then show ?case using pos [of "snd a"] by simp
  qed simp
  moreover have "sum_list (map (\<lambda>x. nodes (snd x)) kvs) < n"
    using assms(1) by (simp add: fits_def comp_def)
  ultimately have "length kvs < MAX_MAPPING_ENTRIES" using assms(3) by (simp add: MAX_MAPPING_ENTRIES_def)
  moreover have "deepest (hs @ [0]) \<le> h \<longleftrightarrow> deepest hs \<le> h" for hs
    using deepest_le [of 0 "hs @ [0]" h] deepest_le [of 0 hs h] assms(2) by auto
  ultimately show ?thesis using assms by (auto simp: fits_def)
qed

lemma seal_succeeds:
  assumes nonce: "nonce_ok nonce" and payload: "private_payload_ok kind payload" "canonical_public_v2_bytes payload = Inr pb"
    and base: "fits 20 800 40000 (JObj base)" "well_formed (JObj base)" "map fst base = map js ks" "JUndef \<notin> set (map snd base)"
    and fresh: "js ''private_sidecar_commitment'' \<notin> set (map fst base)" "js (terminal_id kind) \<notin> set (map fst base)"
    and domain: "matches PUBLIC_DOMAIN d" "0 \<notin> set d" and sha: "\<And>x. length (sha x) = 32"
  obtains s i bs r where "build_sidecar_opening sha decimal kind nonce pb (JObj base) = Inr s"
    "matches DIGEST (so_commitment s)" "public_v2_id sha d (JObj (committed base (so_commitment s))) = Inr i" "matches DIGEST i"
    "canonical_public_v2_bytes (JObj (sealed_members base (so_commitment s) kind i)) = Inr bs"
    "normalise (JObj (sealed_members base (so_commitment s) kind i)) = JObj r" "settled r"
    "canonical_public_v2_bytes (JObj r) = Inr bs"
    "set (map fst r) = insert (js ''private_sidecar_commitment'') (insert (js (terminal_id kind)) (js ` set ks))"
    "lookup r (js ''private_sidecar_commitment'') = JStr (so_commitment s)" "lookup r (js (terminal_id kind)) = JStr i"
    "\<And>k. k \<in> set ks \<Longrightarrow> lookup r (js k) = normalise (lookup base (js k))"
    "\<And>code. project_object r ks code = Inr (map (map_prod id normalise) base)"
    "public_v2_id sha d (JObj (filter (\<lambda>(k, _). k \<noteq> js (terminal_id kind)) r)) = Inr i"
    "\<And>h n w. fits h n w (JObj base) \<Longrightarrow> 1 \<le> h \<Longrightarrow> n \<le> 800 \<Longrightarrow> fits h (n + 2) (w + 1500) (JObj r)"
proof -
  have n: "length nonce = 32" "\<exists>b \<in> set nonce. b \<noteq> 0" using nonce by (simp_all add: nonce_ok_def list_ex_iff)
  have base': "fits 28 900 40000 (JObj base)" by (rule fits_mono [OF base(1)]) simp_all
  obtain s where s: "build_sidecar_opening sha decimal kind nonce pb (JObj base) = Inr s"
    by (rule build_sidecar_opening_succeeds [OF n private_payload_parses [OF payload] base' base(2) sha])
  have commitment: "matches DIGEST (so_commitment s)"
  proof (rule build_sidecar_opening_facts [OF s base(2)])
    fix ctx assume "sidecar_commitment sha decimal nonce (normalise (sidecar_object kind (sha256_tag sha pb) ctx)) = Inr (so_commitment s)"
    then obtain x where "so_commitment s = sha256_tag sha x" using sidecar_commitment_tag by blast
    then show ?thesis using sha256_tag_DIGEST [of sha x] sha by simp
  qed
  have ne: "js ''private_sidecar_commitment'' \<noteq> js (terminal_id kind)" by (cases kind) simp_all
  have keylen: "is_bounded_ascii (js (terminal_id kind)) MAX_KEY_BYTES" "length (terminal_id kind) \<le> 10"
    by (cases kind; simp add: fits_simps)+
  have grow1: "fits h (n + 1) (w + 700) (JObj (committed base (so_commitment s)))" if "fits h n w (JObj base)" "1 \<le> h" "n \<le> 800" for h n w
    by (rule fits_add [OF that(1,2)]) (use that matched_text(1) [OF commitment] in \<open>simp_all add: fits_simps\<close>)
  have com: "fits 20 801 40700 (JObj (committed base (so_commitment s)))" "well_formed (JObj (committed base (so_commitment s)))"
    using grow1 [OF base(1)] base(2) fresh by auto
  obtain i where i: "public_v2_id sha d (JObj (committed base (so_commitment s))) = Inr i"
    by (rule public_id_exists [OF fits_mono [OF com(1)] com(2) domain]) simp_all
  have di: "matches DIGEST i" by (rule public_id_DIGEST [OF i sha])
  let ?doc = "sealed_members base (so_commitment s) kind i"
  have grow: "fits h (n + 2) (w + 1500) (JObj ?doc)" if "fits h n w (JObj base)" "1 \<le> h" "n \<le> 800" for h n w
    using fits_add [OF grow1 [OF that] that(2) _ keylen(1), of i] matched_text(1) [OF di] keylen(2) that(3) by simp
  have wfd: "well_formed (JObj ?doc)" using base(2) fresh ne by auto
  have docfits: "fits 32 1000 65536 (JObj ?doc)" using grow [OF base(1)] by (auto intro: fits_mono)
  obtain bs where bs: "canonical_public_v2_bytes (JObj ?doc) = Inr bs" by (rule fits_public [OF docfits wfd])
  obtain r where r: "normalise (JObj ?doc) = JObj r" "settled r" "canonical_public_v2_bytes (JObj r) = Inr bs"
    "set (map fst r) = insert (js ''private_sidecar_commitment'') (insert (js (terminal_id kind)) (js ` set ks))"
    "lookup r (js ''private_sidecar_commitment'') = JStr (so_commitment s)" "lookup r (js (terminal_id kind)) = JStr i"
    "\<And>k. k \<in> set ks \<Longrightarrow> lookup r (js k) = normalise (lookup base (js k))"
    "\<And>code. project_object r ks code = Inr (map (map_prod id normalise) base)"
    "JObj (filter (\<lambda>(k, _). k \<noteq> js (terminal_id kind)) r) = normalise (JObj (committed base (so_commitment s)))"
    by (rule sealed_document [OF base(2-4) fresh ne bs]) (rule that)
  have id: "public_v2_id sha d (JObj (filter (\<lambda>(k, _). k \<noteq> js (terminal_id kind)) r)) = Inr i"
    unfolding r(9) public_id_normalise by (rule i)
  have grown: "fits h (n + 2) (w + 1500) (JObj r)" if "fits h n w (JObj base)" "1 \<le> h" "n \<le> 800" for h n w
    using grow [OF that] fits_normalise [of "JObj ?doc" "JObj r"] r(1,2) by (simp add: settled_def del: normalise.simps)
  from that s commitment i di bs r(1-8) id grown show thesis by blast
qed


section \<open>Building A0\<close>

lemma sealed_fields:
  "terminal_id ACTIVATION_A0 = ''record_id''" "terminal_id ACTIVATION_A1 = ''record_id''"
  "terminal_id ACTIVATION_PROOF = ''proof_id''" "terminal_id RUNTIME_CLOSURE = ''closure_id''"
  by simp_all

lemma activation_domains:
  "matches PUBLIC_DOMAIN A0_DOMAIN" "0 \<notin> set A0_DOMAIN" "matches PUBLIC_DOMAIN A1_DOMAIN" "0 \<notin> set A1_DOMAIN"
  "matches PUBLIC_DOMAIN ACTIVATION_DOMAIN" "0 \<notin> set ACTIVATION_DOMAIN"
  by (simp_all add: PUBLIC_DOMAIN_def A0_DOMAIN_def A1_DOMAIN_def ACTIVATION_DOMAIN_def matches_Rep_Cls js_def)

lemma exact_settled:
  assumes "settled r" and "distinct ks" and "set (map fst r) = js ` set ks"
  shows "exact_members (JObj r) ks code = Inr r"
  using assms exact_members_wf [of "JObj r" ks code r] by (simp add: settled_def del: well_formed.simps set_map)

lemma provisioned_candidate_built:
  assumes sources: "provisioned_sources_ok b c" and nonce: "nonce_ok nonce"
    and payload: "private_payload_ok ACTIVATION_A0 payload" and sha: "\<And>x. length (sha x) = 32"
  obtains d r where "build_provisioned_candidate sha decimal b c nonce payload = Inr d" "dc_document d = JObj r"
    "parse_canonical_provisioned sha decimal (dc_document_bytes d) = Inr r" "fits 4 62 13500 (JObj r)"
    "lookup r (js ''controller_source'') = JObj (controller_source_members c)"
    "\<exists>i. lookup r (js ''record_id'') = JStr i \<and> matches DIGEST i"
proof -
  obtain pb where pb: "canonical_public_v2_bytes payload = Inr pb" using payload by (auto simp: private_payload_ok_def)
  let ?base = "provisioned_base b c"
  note base = provisioned_base_good [OF sources] and keys = provisioned_keys(4) [of b c]
  have small: "fits 20 800 40000 (JObj ?base)" "fits 32 1000 65536 (JObj ?base)"
    by (rule fits_mono [OF base(1)]; simp)+
  obtain bb where bb: "canonical_public_v2_bytes (JObj ?base) = Inr bb" by (rule fits_public [OF small(2) base(2)])
  note valid = base(4) [OF bb]
  have normal: "map (map_prod id normalise) ?base = ?base"
    by (simp add: provisioned_base_members provisioned_normal del: normalise.simps(7))
  have undef: "JUndef \<notin> set (map snd ?base)" by (simp add: provisioned_base_members JI_def)
  obtain s i bs r where r: "build_sidecar_opening sha decimal ACTIVATION_A0 nonce pb (JObj ?base) = Inr s"
    "matches DIGEST (so_commitment s)" "public_v2_id sha A0_DOMAIN (JObj (committed ?base (so_commitment s))) = Inr i"
    "matches DIGEST i" "canonical_public_v2_bytes (JObj (sealed_members ?base (so_commitment s) ACTIVATION_A0 i)) = Inr bs"
    "normalise (JObj (sealed_members ?base (so_commitment s) ACTIVATION_A0 i)) = JObj r"
    "settled r" "canonical_public_v2_bytes (JObj r) = Inr bs"
    "set (map fst r) = insert (js ''private_sidecar_commitment'') (insert (js (terminal_id ACTIVATION_A0)) (js ` set A0_BASE_KEYS))"
    "lookup r (js ''private_sidecar_commitment'') = JStr (so_commitment s)" "lookup r (js (terminal_id ACTIVATION_A0)) = JStr i"
    "\<And>k. k \<in> set A0_BASE_KEYS \<Longrightarrow> lookup r (js k) = normalise (lookup ?base (js k))"
    "\<And>code. project_object r A0_BASE_KEYS code = Inr (map (map_prod id normalise) ?base)"
    "public_v2_id sha A0_DOMAIN (JObj (filter (\<lambda>(k, _). k \<noteq> js (terminal_id ACTIVATION_A0)) r)) = Inr i"
    "\<And>h n w. fits h n w (JObj ?base) \<Longrightarrow> 1 \<le> h \<Longrightarrow> n \<le> 800 \<Longrightarrow> fits h (n + 2) (w + 1500) (JObj r)"
    by (rule seal_succeeds [where decimal = decimal, OF nonce payload pb small(1) base(2) keys undef provisioned_base_shape(3,4)
          activation_domains(1,2) sha]) (rule that)
  have "seal_provisioned_public_core sha ?base (JStr (so_commitment s)) =
      Inr (sealed_members ?base (so_commitment s) ACTIVATION_A0 i)"
    using valid r(2,3) by (simp add: seal_provisioned_public_core_def reader_ok Let_def)
  moreover have "provisioned_checks sha (JObj r) = Inr r"
  proof -
    have "set (map fst r) = js ` set A0_KEYS" unfolding r(9) by (auto simp: A0_KEYS_def)
    then have "exact_members (JObj r) A0_KEYS code = Inr r" for code by (rule exact_settled [OF r(7) A_keys_sorted(13)])
    then show ?thesis
      unfolding provisioned_checks_def without_record_id_def
      using r(2,4,8,10,11,13,14) valid by (simp add: normal reader_ok sealed_fields)
  qed
  then have parsed: "parse_canonical_provisioned sha decimal bs = Inr r" unfolding parse_canonical_provisioned_iff using r(7,8) by blast
  moreover have "build_provisioned_public_base b c = Inr ?base" by (simp add: build_provisioned_public_base_def valid)
  moreover have "copy_private_nonce nonce = Inr nonce" using nonce by (simp add: nonce_ok_def copy_private_nonce_eq_Inr)
  ultimately have "build_provisioned_candidate sha decimal b c nonce payload = Inr (with_document s (JObj r) bs)"
    using pb r(1,5) by (simp add: build_provisioned_candidate_def)
  moreover have "fits 4 62 13500 (JObj r)" using r(15) [OF base(1)] by simp
  moreover have "lookup r (js ''controller_source'') = JObj (controller_source_members c)"
    using r(12) [of "''controller_source''"] by (simp add: A0_BASE_KEYS_def provisioned_lookups provisioned_normal del: normalise.simps(7))
  moreover have "\<exists>i. lookup r (js ''record_id'') = JStr i \<and> matches DIGEST i" using r(4,11) by simp
  ultimately show thesis using that parsed by (metis with_document_fields(4,5))
qed

section \<open>Building A1\<close>

definition baseline_source_members :: "baseline_source_input \<Rightarrow> members" where
  "baseline_source_members b =
     [(js ''baseline_commit_sha'', JStr (bli_baseline_commit_sha b)), (js ''baseline_tree_sha'', JStr (bli_baseline_tree_sha b)),
      (js ''policy_blob_sha'', JStr (bli_policy_blob_sha b)), (js ''policy_sha256'', JStr (bli_policy_sha256 b)),
      (js ''runtime_workflow_blob_sha'', JStr (bli_runtime_workflow_blob_sha b)),
      (js ''runtime_workflow_sha256'', JStr (bli_runtime_workflow_sha256 b))]"

definition baseline_source_ok :: "baseline_source_input \<Rightarrow> bool" where
  "baseline_source_ok b \<longleftrightarrow>
     list_all (matches SHA1_HEX) [bli_baseline_commit_sha b, bli_baseline_tree_sha b, bli_policy_blob_sha b,
       bli_runtime_workflow_blob_sha b] \<and>
     list_all (matches DIGEST) [bli_policy_sha256 b, bli_runtime_workflow_sha256 b]"

lemma activated_base_members:
  "activated_base b p d = [(js ''baseline_source'', JObj (baseline_source_members b)), (js ''previous'', JStr p),
     (js ''provisioned_record_sha256'', JStr d), (js ''schema'', JStr ACTIVATED_PUBLIC_CORE_SCHEMA),
     (js ''schema_version'', JI 2), (js ''sequence'', JI 1)]"
  by (simp add: activated_base_def baseline_source_members_def)

lemma activated_keys:
  "map fst (baseline_source_members b) = map js BASELINE_SOURCE_KEYS" "map fst (activated_base b p d) = map js A1_BASE_KEYS"
  by (simp_all add: baseline_source_members_def BASELINE_SOURCE_KEYS_def activated_base_members A1_BASE_KEYS_def)

lemma activated_lookups:
  "lookup (baseline_source_members b) (js ''baseline_commit_sha'') = JStr (bli_baseline_commit_sha b)"
  "lookup (baseline_source_members b) (js ''baseline_tree_sha'') = JStr (bli_baseline_tree_sha b)"
  "lookup (baseline_source_members b) (js ''policy_blob_sha'') = JStr (bli_policy_blob_sha b)"
  "lookup (baseline_source_members b) (js ''policy_sha256'') = JStr (bli_policy_sha256 b)"
  "lookup (baseline_source_members b) (js ''runtime_workflow_blob_sha'') = JStr (bli_runtime_workflow_blob_sha b)"
  "lookup (baseline_source_members b) (js ''runtime_workflow_sha256'') = JStr (bli_runtime_workflow_sha256 b)"
  "lookup (activated_base b p d) (js ''baseline_source'') = JObj (baseline_source_members b)"
  "lookup (activated_base b p d) (js ''previous'') = JStr p"
  "lookup (activated_base b p d) (js ''provisioned_record_sha256'') = JStr d"
  "lookup (activated_base b p d) (js ''schema'') = JStr ACTIVATED_PUBLIC_CORE_SCHEMA"
  "lookup (activated_base b p d) (js ''schema_version'') = JI 2"
  "lookup (activated_base b p d) (js ''sequence'') = JI 1"
  by (simp_all add: baseline_source_members_def activated_base_members lookup_def)

lemma activated_normal:
  "normalise (JObj (baseline_source_members b)) = JObj (baseline_source_members b)"
  "normalise (JObj (activated_base b p d)) = JObj (activated_base b p d)"
proof -
  show n: "normalise (JObj (baseline_source_members b)) = JObj (baseline_source_members b)"
    by (rule normalise_sorted, use A_keys_sorted(6) in \<open>simp add: baseline_source_members_def BASELINE_SOURCE_KEYS_def\<close>)
      (auto simp: baseline_source_members_def)
  show "normalise (JObj (activated_base b p d)) = JObj (activated_base b p d)"
    by (rule normalise_sorted, use A_keys_sorted(2) in \<open>simp add: activated_base_members A1_BASE_KEYS_def\<close>)
      (use n in \<open>auto simp: activated_base_members simp del: normalise.simps(7)\<close>)
qed

lemma activated_base_good:
  assumes ok: "baseline_source_ok b" and "matches DIGEST p" and "matches DIGEST d"
  shows "fits 4 60 8000 (JObj (activated_base b p d))"
    and "\<And>bs. canonical_public_v2_bytes (JObj (activated_base b p d)) = Inr bs \<Longrightarrow>
      validate_activated_base (JObj (activated_base b p d)) = Inr (activated_base b p d)"
proof -
  have sha1: "ascii s \<and> length s = 40" if "s \<in> {bli_baseline_commit_sha b, bli_baseline_tree_sha b, bli_policy_blob_sha b,
       bli_runtime_workflow_blob_sha b}" for s
    using ok that by (auto simp: baseline_source_ok_def sha1_text)
  have dig: "ascii s \<and> length s = 71" if "s \<in> {bli_policy_sha256 b, bli_runtime_workflow_sha256 b, p, d}" for s
    using assms that by (auto simp: baseline_source_ok_def dest: matched_text(1))
  show "fits 4 60 8000 (JObj (activated_base b p d))"
    by (simp add: fits_def fits_simps activated_base_def sha1 dig ACTIVATED_PUBLIC_CORE_SCHEMA_def)
  fix bs assume "canonical_public_v2_bytes (JObj (activated_base b p d)) = Inr bs"
  then show "validate_activated_base (JObj (activated_base b p d)) = Inr (activated_base b p d)"
    using assms unfolding validate_activated_base_def baseline_source_ok_def
    by (simp add: exact_same activated_keys activated_lookups reader_ok)
qed

lemma provisioned_checks_facts:
  assumes "provisioned_checks sha (JObj p) = Inr p"
  obtains i bs where "lookup p (js ''record_id'') = JStr i" "matches DIGEST i" "canonical_public_v2_bytes (JObj p) = Inr bs"
    "public_v2_id sha A0_DOMAIN (JObj (without_record_id p)) = Inr i"
  using assms unfolding provisioned_checks_def
  by (elim bind_r_InrE) (auto simp only: require_digest_eq_Inr candidate_assert_eq_Inr exact_members_eq_Inr json.inject)

lemma activated_candidate_built:
  assumes baseline: "baseline_source_ok b" and nonce: "nonce_ok nonce" and payload: "private_payload_ok ACTIVATION_A1 payload"
    and p: "parse_canonical_provisioned sha decimal pbytes = Inr p" and sha: "\<And>x. length (sha x) = 32"
  obtains d r where "build_activated_candidate sha decimal b nonce payload (JObj p) = Inr d" "dc_document d = JObj r"
    "parse_canonical_activation_pair sha decimal (dc_document_bytes d) pbytes = Inr \<lparr>ap_activated = r, ap_provisioned = p\<rparr>"
    "fits 4 62 9500 (JObj r)" "lookup r (js ''baseline_source'') = JObj (baseline_source_members b)"
proof -
  have pp: "canonical_public_v2_bytes (JObj p) = Inr pbytes" "settled p" "provisioned_checks sha (JObj p) = Inr p"
    using p by (simp_all only: parse_canonical_provisioned_iff)
  have wfp: "well_formed (JObj p)" and np: "normalise (JObj p) = JObj p" using pp(2) by (simp_all only: settled_def)
  have p2: "parse_untrusted_provisioned sha decimal (JObj p) = Inr p" unfolding parse_provisioned_iff [OF wfp] using np pp by blast
  obtain prev where prev: "lookup p (js ''record_id'') = JStr prev" "matches DIGEST prev"
    by (rule provisioned_checks_facts [OF pp(3)])
  have dg: "raw_public_v2_digest sha (JObj p) = Inr (sha256_tag sha pbytes)" unfolding raw_digest_iff using pp(1) by blast
  have ddg: "matches DIGEST (sha256_tag sha pbytes)" by (rule sha256_tag_DIGEST) (rule sha)
  let ?base = "activated_base b prev (sha256_tag sha pbytes)"
  obtain pb where pb: "canonical_public_v2_bytes payload = Inr pb" using payload by (auto simp: private_payload_ok_def)
  note base = activated_base_good [OF baseline prev(2) ddg] and keys = activated_keys(2) [of b prev "sha256_tag sha pbytes"]
  note shape = activated_base_shape [of b prev "sha256_tag sha pbytes"]
  have small: "fits 20 800 40000 (JObj ?base)" "fits 32 1000 65536 (JObj ?base)"
    by (rule fits_mono [OF base(1)]; simp)+
  obtain bb where bb: "canonical_public_v2_bytes (JObj ?base) = Inr bb" by (rule fits_public [OF small(2) shape(1)])
  note valid = base(2) [OF bb]
  have normal: "map (map_prod id normalise) ?base = ?base"
    by (simp add: activated_base_members activated_normal del: normalise.simps(7))
  have undef: "JUndef \<notin> set (map snd ?base)" by (simp add: activated_base_members JI_def)
  obtain s i bs r where r: "build_sidecar_opening sha decimal ACTIVATION_A1 nonce pb (JObj ?base) = Inr s"
    "matches DIGEST (so_commitment s)" "public_v2_id sha A1_DOMAIN (JObj (committed ?base (so_commitment s))) = Inr i"
    "matches DIGEST i" "canonical_public_v2_bytes (JObj (sealed_members ?base (so_commitment s) ACTIVATION_A1 i)) = Inr bs"
    "normalise (JObj (sealed_members ?base (so_commitment s) ACTIVATION_A1 i)) = JObj r"
    "settled r" "canonical_public_v2_bytes (JObj r) = Inr bs"
    "set (map fst r) = insert (js ''private_sidecar_commitment'') (insert (js (terminal_id ACTIVATION_A1)) (js ` set A1_BASE_KEYS))"
    "lookup r (js ''private_sidecar_commitment'') = JStr (so_commitment s)" "lookup r (js (terminal_id ACTIVATION_A1)) = JStr i"
    "\<And>k. k \<in> set A1_BASE_KEYS \<Longrightarrow> lookup r (js k) = normalise (lookup ?base (js k))"
    "\<And>code. project_object r A1_BASE_KEYS code = Inr (map (map_prod id normalise) ?base)"
    "public_v2_id sha A1_DOMAIN (JObj (filter (\<lambda>(k, _). k \<noteq> js (terminal_id ACTIVATION_A1)) r)) = Inr i"
    "\<And>h n w. fits h n w (JObj ?base) \<Longrightarrow> 1 \<le> h \<Longrightarrow> n \<le> 800 \<Longrightarrow> fits h (n + 2) (w + 1500) (JObj r)"
    by (rule seal_succeeds [where decimal = decimal, OF nonce payload pb small(1) shape(1) keys undef shape(3,4)
          activation_domains(3,4) sha]) (rule that)
  have "seal_activated_public_core sha ?base (JStr (so_commitment s)) =
      Inr (sealed_members ?base (so_commitment s) ACTIVATION_A1 i)"
    using valid r(2,3) by (simp add: seal_activated_public_core_def reader_ok Let_def)
  moreover have lk: "lookup r (js ''previous'') = JStr prev" "lookup r (js ''provisioned_record_sha256'') = JStr (sha256_tag sha pbytes)"
    "lookup r (js ''baseline_source'') = JObj (baseline_source_members b)"
    using r(12) [of "''previous''"] r(12) [of "''provisioned_record_sha256''"] r(12) [of "''baseline_source''"]
    by (simp_all add: A1_BASE_KEYS_def activated_lookups activated_normal del: normalise.simps(7))
  have "activated_checks sha decimal (JObj r) (Some (JObj p)) = Inr r"
  proof -
    have "set (map fst r) = js ` set A1_KEYS" unfolding r(9) by (auto simp: A1_KEYS_def)
    then have "exact_members (JObj r) A1_KEYS code = Inr r" for code by (rule exact_settled [OF r(7) A_keys_sorted(14)])
    moreover have "check_provisioned_link sha decimal r (Some (JObj p)) = Inr ()"
      by (simp add: check_provisioned_link_def p2 lk prev dg)
    moreover have "canonical_public_v2_snapshot decimal (JObj p) = Inr (JObj p)" using settled_snapshot [OF pp(2)] by blast
    ultimately show ?thesis
      unfolding activated_checks_def without_record_id_def
      using r(2,4,8,10,11,13,14) valid by (simp add: normal reader_ok sealed_fields)
  qed
  then have parsed: "parse_canonical_activation_pair sha decimal bs pbytes = Inr \<lparr>ap_activated = r, ap_provisioned = p\<rparr>"
    unfolding parse_pair_iff using r(7,8) p by simp
  moreover have "build_activated_public_base sha decimal b (JObj p) = Inr ?base"
    by (simp add: build_activated_public_base_def p2 prev reader_ok dg Let_def valid)
  moreover have "copy_private_nonce nonce = Inr nonce" using nonce by (simp add: nonce_ok_def copy_private_nonce_eq_Inr)
  ultimately have "build_activated_candidate sha decimal b nonce payload (JObj p) = Inr (with_document s (JObj r) bs)"
    using pb r(1,5) p pp(1) by (simp add: build_activated_candidate_def)
  moreover have "fits 4 62 9500 (JObj r)" using r(15) [OF base(1)] by simp
  ultimately show thesis using that parsed lk(3) by (metis with_document_fields(4,5))
qed

section \<open>The binding of a pair\<close>

definition pair_ok :: "hash \<Rightarrow> (js_string \<Rightarrow> js_number) \<Rightarrow> members \<Rightarrow> members \<Rightarrow> bool" where
  "pair_ok sha decimal p a \<longleftrightarrow>
     settled p \<and> provisioned_checks sha (JObj p) = Inr p \<and> settled a \<and>
     activated_checks sha decimal (JObj a) (Some (JObj p)) = Inr a"

definition public_bytes :: "json \<Rightarrow> bytes" where
  "public_bytes v = (case canonical_public_v2_bytes v of Inr bs \<Rightarrow> bs | Inl _ \<Rightarrow> [])"

definition binding_of :: "hash \<Rightarrow> members \<Rightarrow> members \<Rightarrow> members" where
  "binding_of sha p a =
     [(js ''activated_record_id'', lookup a (js ''record_id'')), (js ''activated_record_sha256'', JStr (sha256_tag sha (public_bytes (JObj a)))),
      (js ''provisioned_record_id'', lookup p (js ''record_id'')),
      (js ''provisioned_record_sha256'', JStr (sha256_tag sha (public_bytes (JObj p))))]"

lemma settled_bytes: "settled r \<Longrightarrow> canonical_public_v2_bytes (JObj r) = Inr (public_bytes (JObj r))"
  by (auto simp: settled_def public_bytes_def simp del: normalise.simps)

lemma settled_inj:
  "settled r \<Longrightarrow> settled s \<Longrightarrow> public_bytes (JObj r) = public_bytes (JObj s) \<Longrightarrow> JObj r = JObj s"
  using canonical_bytes_inj [of "JObj r" "public_bytes (JObj r)" "JObj s"] settled_bytes [of r] settled_bytes [of s]
  by (simp add: settled_def canonical_public_v2_bytes_iff del: normalise.simps)

lemma activated_checks_id:
  assumes "activated_checks sha decimal (JObj a) p = Inr a"
  obtains i where "lookup a (js ''record_id'') = JStr i" "matches DIGEST i"
  using assms unfolding activated_checks_def
  by (elim bind_r_InrE) (auto simp only: require_digest_eq_Inr candidate_assert_eq_Inr exact_members_eq_Inr json.inject)

lemma activation_binding_iff:
  assumes "well_formed u" and "well_formed v"
  shows "activation_binding sha decimal u v = Inr b \<longleftrightarrow>
     (\<exists>p a. normalise u = JObj p \<and> normalise v = JObj a \<and> pair_ok sha decimal p a \<and> b = binding_of sha p a)"
proof
  assume "activation_binding sha decimal u v = Inr b"
  then obtain ps as p a ai ad pi pd where e: "canonical_public_v2_snapshot decimal u = Inr ps"
    "canonical_public_v2_snapshot decimal v = Inr as" "parse_untrusted_provisioned sha decimal ps = Inr p"
    "parse_untrusted_activated sha decimal as (Some (JObj p)) = Inr a"
    "lookup a (js ''record_id'') = JStr ai" "raw_public_v2_digest sha (JObj a) = Inr ad"
    "lookup p (js ''record_id'') = JStr pi" "raw_public_v2_digest sha (JObj p) = Inr pd"
    and b: "Inr [(js ''activated_record_id'', JStr ai), (js ''activated_record_sha256'', JStr ad),
         (js ''provisioned_record_id'', JStr pi), (js ''provisioned_record_sha256'', JStr pd)] = (Inr b :: members result)"
    unfolding activation_binding_def by (elim bind_r_InrE) (simp only: require_digest_eq_Inr)
  note fu = snapshot_facts [OF e(1) assms(1)] and fv = snapshot_facts [OF e(2) assms(2)]
  have "pair_ok sha decimal p a" "normalise u = JObj p" "normalise v = JObj a"
    using e(3,4) fu(1,3) fv(1,3) unfolding parse_provisioned_iff [OF fu(2)] parse_activated_iff [OF fv(2)] pair_ok_def
    by (simp_all only: simp_thms)
  moreover from this have "ad = sha256_tag sha (public_bytes (JObj a))" "pd = sha256_tag sha (public_bytes (JObj p))"
    using e(6,8) by (auto simp: raw_digest_iff settled_bytes pair_ok_def)
  ultimately show "\<exists>p a. normalise u = JObj p \<and> normalise v = JObj a \<and> pair_ok sha decimal p a \<and> b = binding_of sha p a"
    using b e(5,7) by (auto simp: binding_of_def)
next
  assume "\<exists>p a. normalise u = JObj p \<and> normalise v = JObj a \<and> pair_ok sha decimal p a \<and> b = binding_of sha p a"
  then obtain p a where pa: "normalise u = JObj p" "normalise v = JObj a" "pair_ok sha decimal p a" "b = binding_of sha p a"
    by blast
  note ok = pa(3) [unfolded pair_ok_def]
  then have s: "settled p" "settled a" by blast+
  have n: "well_formed (JObj p)" "normalise (JObj p) = JObj p" "well_formed (JObj a)" "normalise (JObj a) = JObj a"
    using s by (simp_all only: settled_def)
  have "canonical_public_v2_snapshot decimal u = Inr (JObj p)" "canonical_public_v2_snapshot decimal v = Inr (JObj a)"
    using settled_snapshot [OF s(1), of decimal] settled_snapshot [OF s(2), of decimal]
      snapshot_normalise [OF assms(1)] snapshot_normalise [OF assms(2)] by (simp_all only: pa(1,2) simp_thms)
  moreover have "parse_untrusted_provisioned sha decimal (JObj p) = Inr p"
    "parse_untrusted_activated sha decimal (JObj a) (Some (JObj p)) = Inr a"
    using ok n by (simp_all only: parse_provisioned_iff [OF n(1)] parse_activated_iff [OF n(3)] simp_thms)
  moreover obtain pi where "lookup p (js ''record_id'') = JStr pi" "matches DIGEST pi"
    using provisioned_checks_facts ok by metis
  moreover obtain ai where "lookup a (js ''record_id'') = JStr ai" "matches DIGEST ai"
    using activated_checks_id ok by metis
  moreover have "raw_public_v2_digest sha (JObj a) = Inr (sha256_tag sha (public_bytes (JObj a)))"
    "raw_public_v2_digest sha (JObj p) = Inr (sha256_tag sha (public_bytes (JObj p)))"
    unfolding raw_digest_iff using s settled_bytes by blast+
  ultimately show "activation_binding sha decimal u v = Inr b"
    by (simp add: activation_binding_def pa(4) binding_of_def reader_ok)
qed

text \<open>The bytes behind the identifier of a pair.\<close>

definition activation_frame :: "hash \<Rightarrow> (js_string \<Rightarrow> js_number) \<Rightarrow> json \<Rightarrow> json \<Rightarrow> bytes" where
  "activation_frame sha decimal u v =
     (case activation_binding sha decimal u v of Inr b \<Rightarrow> id_preimage ACTIVATION_DOMAIN (JObj b) | Inl _ \<Rightarrow> [])"

lemma binding_well_formed: "pair_ok sha decimal p a \<Longrightarrow> well_formed (JObj (binding_of sha p a))"
  by (auto simp: pair_ok_def binding_of_def elim!: provisioned_checks_facts activated_checks_id)

text \<open>C35: The identifier of an activation binds both records: pairs with one identifier have one A0 and one A1,
  up to the order of members, unless the hash collides on the two bindings or on a pair of records.\<close>

theorem activation_id_binds_the_pair:
  assumes i: "public_activation_id sha decimal u1 v1 = Inr i" "public_activation_id sha decimal u2 v2 = Inr i"
    and wf: "well_formed u1" "well_formed v1" "well_formed u2" "well_formed v2"
    and apart: "no_collision sha (activation_frame sha decimal u1 v1) (activation_frame sha decimal u2 v2)"
      "no_collision sha (public_bytes (normalise u1)) (public_bytes (normalise u2))"
      "no_collision sha (public_bytes (normalise v1)) (public_bytes (normalise v2))"
  shows "normalise u1 = normalise u2 \<and> normalise v1 = normalise v2"
proof -
  obtain p1 a1 where e1: "normalise u1 = JObj p1" "normalise v1 = JObj a1" "pair_ok sha decimal p1 a1"
    "activation_binding sha decimal u1 v1 = Inr (binding_of sha p1 a1)"
    "public_v2_id sha ACTIVATION_DOMAIN (JObj (binding_of sha p1 a1)) = Inr i"
    using i(1) activation_binding_iff [OF wf(1,2)] by (auto simp: public_activation_id_def bind_r_eq_Inr)
  obtain p2 a2 where e2: "normalise u2 = JObj p2" "normalise v2 = JObj a2" "pair_ok sha decimal p2 a2"
    "activation_binding sha decimal u2 v2 = Inr (binding_of sha p2 a2)"
    "public_v2_id sha ACTIVATION_DOMAIN (JObj (binding_of sha p2 a2)) = Inr i"
    using i(2) activation_binding_iff [OF wf(3,4)] by (auto simp: public_activation_id_def bind_r_eq_Inr)
  note t1 = public_id_tag [OF e1(5)] and t2 = public_id_tag [OF e2(5)]
  have "activation_frame sha decimal u1 v1 = activation_frame sha decimal u2 v2"
    using t1 t2 no_collision_tag [OF apart(1)] by (simp add: activation_frame_def e1(4) e2(4))
  then have "normalise (envelope ACTIVATION_DOMAIN (JObj (binding_of sha p1 a1))) =
      normalise (envelope ACTIVATION_DOMAIN (JObj (binding_of sha p2 a2)))"
    using t1 t2 binding_well_formed [OF e1(3)] binding_well_formed [OF e2(3)]
    by (intro canonical_bytes_inj)
      (simp_all add: canonical_public_v2_bytes_iff envelope_well_formed activation_frame_def e1(4) e2(4) del: normalise.simps)
  then have same: "normalise (JObj (binding_of sha p1 a1)) = normalise (JObj (binding_of sha p2 a2))"
    by (simp only: normalise_envelopes json.inject list.inject prod.inject simp_thms)
  have get: "sha256_tag sha (public_bytes (JObj a1)) = sha256_tag sha (public_bytes (JObj a2))"
    "sha256_tag sha (public_bytes (JObj p1)) = sha256_tag sha (public_bytes (JObj p2))"
    using same_lookup(1) [OF same binding_well_formed [OF e1(3)] binding_well_formed [OF e2(3)], of "js ''activated_record_sha256''"]
      same_lookup(1) [OF same binding_well_formed [OF e1(3)] binding_well_formed [OF e2(3)], of "js ''provisioned_record_sha256''"]
    by (simp_all add: binding_of_def lookup_def)
  have "public_bytes (JObj p1) = public_bytes (JObj p2)"
    by (rule no_collision_tag [OF apart(2) [unfolded e1(1) e2(1)], THEN iffD1, OF get(2)])
  moreover have "public_bytes (JObj a1) = public_bytes (JObj a2)"
    by (rule no_collision_tag [OF apart(3) [unfolded e1(2) e2(2)], THEN iffD1, OF get(1)])
  ultimately show ?thesis using e1(3) e2(3) settled_inj by (simp only: e1(1,2) e2(1,2) pair_ok_def)
qed

definition zeros :: js_string where "zeros = replicate 40 0x30"
definition ones :: js_string where "ones = replicate 40 0x31"

definition sample_broker :: broker_source_input where
  "sample_broker = \<lparr>bsi_commit_sha = zeros, bsi_source_sha256 = zero_digest, bsi_tree_sha = zeros\<rparr>"
definition sample_controller :: controller_source_input where
  "sample_controller = \<lparr>csi_action_bundle = \<lparr>abi_bundle_sha256 = zero_digest, abi_commit_sha = ones, abi_metadata_blob_sha = zeros\<rparr>,
     csi_commit_sha = zeros, csi_default_branch_workflow_blob_sha = zeros, csi_tag_object_sha = ones,
     csi_tag_ref = js ''refs/tags/v1.0.0'', csi_tree_sha = zeros, csi_workflow_blob_sha = zeros, csi_workflow_sha256 = zero_digest\<rparr>"
definition sample_baseline :: baseline_source_input where
  "sample_baseline = \<lparr>bli_baseline_commit_sha = zeros, bli_baseline_tree_sha = zeros, bli_policy_blob_sha = zeros,
     bli_policy_sha256 = zero_digest, bli_runtime_workflow_blob_sha = zeros, bli_runtime_workflow_sha256 = zero_digest\<rparr>"

lemma sample_texts: "matches SHA1_HEX zeros" "matches SHA1_HEX ones" "zeros \<noteq> ones" "matches TAG_REF (js ''refs/tags/v1.0.0'')"
proof -
  show "matches SHA1_HEX zeros" "matches SHA1_HEX ones" by (simp_all add: SHA1_HEX_def matches_Rep_Cls zeros_def ones_def)
  show "zeros \<noteq> ones" by (simp add: zeros_def ones_def)
  show "matches TAG_REF (js ''refs/tags/v1.0.0'')" by code_simp
qed

lemma sample_sources: "provisioned_sources_ok sample_broker sample_controller" "baseline_source_ok sample_baseline"
  using sample_texts zero_digest_props
  by (auto simp: provisioned_sources_ok_def baseline_source_ok_def sample_broker_def sample_controller_def sample_baseline_def)

lemma sample_payload_ok: "private_payload_ok kind (JObj (sample_payload kind))" "nonce_ok (replicate 32 1)"
proof -
  obtain p where "parse_canonical_public_v2 (\<lambda>_. JOther) p = Inr (JObj (sample_payload kind))"
    "json_get (JObj (sample_payload kind)) (js ''schema'') = JStr (private_payload_schema kind)"
    by (rule sample_private_payload)
  then show "private_payload_ok kind (JObj (sample_payload kind))"
    unfolding parse_canonical_public_v2_iff private_payload_ok_def by blast
  show "nonce_ok (replicate 32 1)" by (simp add: nonce_ok_def list_ex_iff)
qed

lemma sample_pair:
  obtains p a pbytes abytes where "parse_canonical_provisioned zero_sha (\<lambda>_. JOther) pbytes = Inr p"
    "parse_canonical_activation_pair zero_sha (\<lambda>_. JOther) abytes pbytes = Inr \<lparr>ap_activated = a, ap_provisioned = p\<rparr>"
    "fits 4 62 13500 (JObj p)" "fits 4 62 9500 (JObj a)"
    "lookup p (js ''controller_source'') = JObj (controller_source_members sample_controller)"
    "lookup a (js ''baseline_source'') = JObj (baseline_source_members sample_baseline)"
proof -
  obtain d p where p: "build_provisioned_candidate zero_sha (\<lambda>_. JOther) sample_broker sample_controller (replicate 32 1)
      (JObj (sample_payload ACTIVATION_A0)) = Inr d"
    "parse_canonical_provisioned zero_sha (\<lambda>_. JOther) (dc_document_bytes d) = Inr p" "fits 4 62 13500 (JObj p)"
    "lookup p (js ''controller_source'') = JObj (controller_source_members sample_controller)"
    by (rule provisioned_candidate_built [OF sample_sources(1) sample_payload_ok(2,1) zero_sha_length]) (rule that, assumption+)
  obtain e :: document_candidate and a where "parse_canonical_activation_pair zero_sha (\<lambda>_. JOther) (dc_document_bytes e) (dc_document_bytes d) =
      Inr \<lparr>ap_activated = a, ap_provisioned = p\<rparr>" "fits 4 62 9500 (JObj a)"
    "lookup a (js ''baseline_source'') = JObj (baseline_source_members sample_baseline)"
    by (rule activated_candidate_built [OF sample_sources(2) sample_payload_ok(2,1) p(2) zero_sha_length]) (rule that, assumption+)
  with that p show thesis by blast
qed

text \<open>Every pair of records has an identifier.\<close>

lemma parsed_pair_ok:
  assumes "parse_canonical_activation_pair sha decimal abytes pbytes = Inr \<lparr>ap_activated = a, ap_provisioned = p\<rparr>"
  shows "pair_ok sha decimal p a" "well_formed (JObj p)" "normalise (JObj p) = JObj p" "well_formed (JObj a)"
    "normalise (JObj a) = JObj a" "activation_binding sha decimal (JObj p) (JObj a) = Inr (binding_of sha p a)"
proof -
  show pair: "pair_ok sha decimal p a"
    using assms unfolding parse_pair_iff parse_canonical_provisioned_iff pair_ok_def by simp
  then show n: "well_formed (JObj p)" "normalise (JObj p) = JObj p" "well_formed (JObj a)" "normalise (JObj a) = JObj a"
    by (simp_all only: pair_ok_def settled_def)
  show "activation_binding sha decimal (JObj p) (JObj a) = Inr (binding_of sha p a)"
    unfolding activation_binding_iff [OF n(1,3)] using pair n(2,4) by blast
qed

lemma activation_id_exists:
  assumes "pair_ok sha decimal p a" and sha: "\<And>x. length (sha x) = 32"
  obtains i where "public_activation_id sha decimal (JObj p) (JObj a) = Inr i"
    "public_v2_id sha ACTIVATION_DOMAIN (JObj (binding_of sha p a)) = Inr i" "matches DIGEST i"
proof -
  have n: "well_formed (JObj p)" "normalise (JObj p) = JObj p" "well_formed (JObj a)" "normalise (JObj a) = JObj a"
    using assms(1) by (simp_all only: pair_ok_def settled_def)
  have b: "activation_binding sha decimal (JObj p) (JObj a) = Inr (binding_of sha p a)"
    unfolding activation_binding_iff [OF n(1,3)] using assms(1) n(2,4) by blast
  obtain pi where pi: "lookup p (js ''record_id'') = JStr pi" "matches DIGEST pi"
    using assms(1) by (auto simp: pair_ok_def elim: provisioned_checks_facts)
  obtain ai where ai: "lookup a (js ''record_id'') = JStr ai" "matches DIGEST ai"
    using assms(1) by (auto simp: pair_ok_def elim: activated_checks_id)
  have dig: "matches DIGEST (sha256_tag sha x)" for x by (rule sha256_tag_DIGEST) (rule sha)
  have "fits 31 990 60000 (JObj (binding_of sha p a))"
    using matched_text(1) [OF dig] matched_text(1) [OF pi(2)] matched_text(1) [OF ai(2)]
    by (simp add: fits_def fits_simps binding_of_def pi ai)
  then obtain i where i: "public_v2_id sha ACTIVATION_DOMAIN (JObj (binding_of sha p a)) = Inr i"
    using public_id_exists [OF _ binding_well_formed [OF assms(1)] activation_domains(5,6)] by metis
  with that public_id_DIGEST [OF i sha] b show thesis by (simp add: public_activation_id_def)
qed

theorem activation_id_binds_the_pair_witness:
  "\<exists>u v i. public_activation_id zero_sha (\<lambda>_. JOther) u v = Inr i \<and> normalise u = normalise u \<and> normalise v = normalise v"
proof -
  obtain p a pbytes abytes where
    "parse_canonical_activation_pair zero_sha (\<lambda>_. JOther) abytes pbytes = Inr \<lparr>ap_activated = a, ap_provisioned = p\<rparr>"
    using sample_pair by metis
  note pair = parsed_pair_ok [OF this]
  obtain i where i: "public_activation_id zero_sha (\<lambda>_. JOther) (JObj p) (JObj a) = Inr i"
    using activation_id_exists [OF pair(1) zero_sha_length] by metis
  have "no_collision zero_sha x x" for x by (simp add: no_collision_def)
  from activation_id_binds_the_pair [OF i i pair(2,4,2,4) this this this] i show ?thesis by blast
qed

end
