(* ===== verification/PublicProof.thy ===== *)
theory PublicProof imports PublicActivation begin

text \<open>
  The public activation proof (\<open>candidate-public-v2/activation-proof.ts\<close>): a pair of activation records
  admitted at a second of the broker's clock, valid for the minute after it. The reading of the injected
  clock is a parameter: an integer, or \<open>None\<close> when the clock throws or reads no integer, which fail with one code.
\<close>

section \<open>Seconds of UTC\<close>

definition ACTIVATION_PROOF_PUBLIC_SCHEMA :: js_string where
  "ACTIVATION_PROOF_PUBLIC_SCHEMA = js ''dpone.release-broker-activation-proof-public.v2''"
definition ACTIVATION_PROOF_REQUEST_SCHEMA :: js_string where
  "ACTIVATION_PROOF_REQUEST_SCHEMA = js ''dpone.release-broker-activation-proof-request.v2''"
definition PROOF_DOMAIN :: js_string where "PROOF_DOMAIN = js ''dpone.activation.public-proof.v2''"
definition MAX_DATE_MS :: int where "MAX_DATE_MS = 8640000000000000"

definition UTC_SECONDS :: regex where
  "UTC_SECONDS = (let d = Cls ''09'' in
     Seq (Rep d 4 4) (Seq (Lit ''-'') (Seq (Rep d 2 2) (Seq (Lit ''-'') (Seq (Rep d 2 2) (Seq (Lit ''T'')
       (Seq (Rep d 2 2) (Seq (Lit '':'') (Seq (Rep d 2 2) (Seq (Lit '':'') (Seq (Rep d 2 2) (Lit ''Z''))))))))))))"

definition PROOF_KEYS :: "string list" where
  "PROOF_KEYS = [''activation'', ''admitted_at'', ''expires_at'', ''private_sidecar_commitment'', ''proof_id'', ''schema'',
     ''schema_version'']"
definition PROOF_BASE_KEYS :: "string list" where
  "PROOF_BASE_KEYS = filter (\<lambda>k. k \<noteq> ''private_sidecar_commitment'' \<and> k \<noteq> ''proof_id'') PROOF_KEYS"
definition ACTIVATION_KEYS :: "string list" where
  "ACTIVATION_KEYS = [''activated'', ''activated_record_sha256'', ''activation_id'', ''provisioned'', ''provisioned_record_sha256'']"

text \<open>\<open>replace\<close> of a text: its first occurrence.\<close>

fun replace_first :: "js_string \<Rightarrow> js_string \<Rightarrow> js_string \<Rightarrow> js_string" where
  "replace_first old new [] = (if old = [] then new else [])"
| "replace_first old new (c # cs) =
     (if take (length old) (c # cs) = old then new @ drop (length old) (c # cs) else c # replace_first old new cs)"

definition format_utc_seconds :: "int \<Rightarrow> js_string result" where
  "format_utc_seconds t =
     bind_r (candidate_assert (\<bar>t\<bar> \<le> max_safe \<and> 0 \<le> t \<and> t \<le> MAX_DATE_MS) ''PUBLIC_V2_PROOF_TIME_INVALID'') (\<lambda>_.
       case to_iso_string t of
         Inr s \<Rightarrow> Inr (replace_first (js ''.000Z'') (js ''Z'') s)
       | Inl e \<Rightarrow> Inl (Candidate (js ''PUBLIC_V2_PROOF_TIME_INVALID'')))"

text \<open>\<open>Date.parse\<close> of a text without a fraction reads the milliseconds as zero.\<close>

definition date_parse_seconds :: "js_string \<Rightarrow> int option" where
  "date_parse_seconds s = date_parse (take 19 s @ js ''.000'' @ drop 19 s)"

definition parse_utc_seconds :: "js_string \<Rightarrow> int result" where
  "parse_utc_seconds v =
     bind_r (candidate_assert (matches UTC_SECONDS v) ''PUBLIC_V2_PROOF_TIME_INVALID'') (\<lambda>_.
     case date_parse_seconds v of
       None \<Rightarrow> Inl (Candidate (js ''PUBLIC_V2_PROOF_TIME_INVALID''))
     | Some t \<Rightarrow>
         bind_r (candidate_assert (\<bar>t\<bar> \<le> max_safe \<and> 0 \<le> t \<and> t \<le> MAX_DATE_MS) ''PUBLIC_V2_PROOF_TIME_INVALID'') (\<lambda>_.
         bind_r (format_utc_seconds t) (\<lambda>back.
         bind_r (candidate_assert (back = v) ''PUBLIC_V2_PROOF_TIME_INVALID'') (\<lambda>_. Inr t))))"

section \<open>The proof\<close>

definition validate_proof_base :: "hash \<Rightarrow> (js_string \<Rightarrow> js_number) \<Rightarrow> json \<Rightarrow> activation_pair result" where
  "validate_proof_base sha decimal v =
     bind_r (exact_members v PROOF_BASE_KEYS ''PUBLIC_V2_PROOF_BASE_INVALID'') (\<lambda>base.
     bind_r (object_field base ''activation'' ''PUBLIC_V2_PROOF_ACTIVATION_INVALID'') (\<lambda>a.
     bind_r (exact_members (JObj a) ACTIVATION_KEYS ''PUBLIC_V2_PROOF_ACTIVATION_INVALID'') (\<lambda>activation.
     bind_r (object_field activation ''provisioned'' ''PUBLIC_V2_PROOF_ACTIVATION_INVALID'') (\<lambda>p.
     bind_r (parse_untrusted_provisioned sha decimal (JObj p)) (\<lambda>provisioned.
     bind_r (object_field activation ''activated'' ''PUBLIC_V2_PROOF_ACTIVATION_INVALID'') (\<lambda>q.
     bind_r (parse_untrusted_activated sha decimal (JObj q) (Some (JObj provisioned))) (\<lambda>activated.
     bind_r (raw_public_v2_digest sha (JObj provisioned)) (\<lambda>provisioned_digest.
     bind_r (if strict_equal (lookup activation (js ''provisioned_record_sha256'')) (JStr provisioned_digest)
         then bind_r (raw_public_v2_digest sha (JObj activated)) (\<lambda>activated_digest.
           Inr (strict_equal (lookup activation (js ''activated_record_sha256'')) (JStr activated_digest)))
         else Inr False) (\<lambda>digests_match.
     bind_r (candidate_assert digests_match ''PUBLIC_V2_PROOF_RECORD_DIGEST_MISMATCH'') (\<lambda>_.
     bind_r (require_digest (lookup activation (js ''activation_id'')) ''PUBLIC_V2_PROOF_ACTIVATION_ID_INVALID'') (\<lambda>_.
     bind_r (string_field base ''admitted_at'' ''PUBLIC_V2_PROOF_TIME_INVALID'' (Some UTC_SECONDS)) (\<lambda>admitted_at.
     bind_r (parse_utc_seconds admitted_at) (\<lambda>admitted_ms.
     bind_r (string_field base ''expires_at'' ''PUBLIC_V2_PROOF_TIME_INVALID'' (Some UTC_SECONDS)) (\<lambda>expires_at.
     bind_r (parse_utc_seconds expires_at) (\<lambda>expires_ms.
     bind_r (candidate_assert (expires_ms - admitted_ms = 60000) ''PUBLIC_V2_PROOF_TTL_INVALID'') (\<lambda>_.
     bind_r (literal_field base ''schema'' (JStr ACTIVATION_PROOF_PUBLIC_SCHEMA) ''PUBLIC_V2_PROOF_BASE_INVALID'') (\<lambda>_.
     bind_r (literal_field base ''schema_version'' (JI 2) ''PUBLIC_V2_PROOF_BASE_INVALID'') (\<lambda>_.
     bind_r (canonical_public_v2_bytes (JObj base)) (\<lambda>_.
       Inr \<lparr>ap_activated = activated, ap_provisioned = provisioned\<rparr>)))))))))))))))))))"

definition without_proof_id :: "members \<Rightarrow> members" where
  "without_proof_id m = filter (\<lambda>(k, _). k \<noteq> js ''proof_id'') m"

definition parse_untrusted_activation_proof :: "hash \<Rightarrow> (js_string \<Rightarrow> js_number) \<Rightarrow> json \<Rightarrow> members result" where
  "parse_untrusted_activation_proof sha decimal v =
     bind_r (canonical_public_v2_snapshot decimal v) (\<lambda>s.
     bind_r (exact_members s PROOF_KEYS ''PUBLIC_V2_PROOF_INVALID'') (\<lambda>m.
     bind_r (project_object m PROOF_BASE_KEYS ''PUBLIC_V2_PROOF_INVALID'') (\<lambda>base.
     bind_r (validate_proof_base sha decimal (JObj base)) (\<lambda>pair.
     bind_r (require_digest (lookup m (js ''private_sidecar_commitment'')) ''PUBLIC_V2_PROOF_COMMITMENT_INVALID'') (\<lambda>_.
     bind_r (require_digest (lookup m (js ''proof_id'')) ''PUBLIC_V2_PROOF_ID_INVALID'') (\<lambda>proof_id.
     bind_r (public_v2_id sha PROOF_DOMAIN (JObj (without_proof_id m))) (\<lambda>i.
     bind_r (candidate_assert (proof_id = i) ''PUBLIC_V2_PROOF_ID_MISMATCH'') (\<lambda>_.
     bind_r (object_field m ''activation'' ''PUBLIC_V2_PROOF_ACTIVATION_INVALID'') (\<lambda>activation.
     bind_r (public_activation_id sha decimal (JObj (ap_provisioned pair)) (JObj (ap_activated pair))) (\<lambda>activation_id.
     bind_r (candidate_assert (strict_equal (lookup activation (js ''activation_id'')) (JStr activation_id))
       ''PUBLIC_V2_PROOF_ACTIVATION_ID_MISMATCH'') (\<lambda>_.
     bind_r (canonical_public_v2_bytes (JObj m)) (\<lambda>_. Inr m))))))))))))"

definition parse_canonical_activation_proof :: "hash \<Rightarrow> (js_string \<Rightarrow> js_number) \<Rightarrow> bytes \<Rightarrow> members result" where
  "parse_canonical_activation_proof sha decimal bs =
     bind_r (copy_public_v2_bytes bs ''PUBLIC_V2_RAW_SIZE_INVALID'') (\<lambda>b.
     bind_r (parse_canonical_public_v2 decimal b) (\<lambda>v. parse_untrusted_activation_proof sha decimal v))"

definition assert_untrusted_proof_fresh :: "members \<Rightarrow> int \<Rightarrow> unit result" where
  "assert_untrusted_proof_fresh m now =
     bind_r (candidate_assert (\<bar>now\<bar> \<le> max_safe \<and> 0 \<le> now \<and> now \<le> MAX_DATE_MS) ''PUBLIC_V2_PROOF_NOW_INVALID'') (\<lambda>_.
     bind_r (string_field m ''admitted_at'' ''PUBLIC_V2_PROOF_TIME_INVALID'' None) (\<lambda>admitted_at.
     bind_r (parse_utc_seconds admitted_at) (\<lambda>admitted_ms.
     bind_r (string_field m ''expires_at'' ''PUBLIC_V2_PROOF_TIME_INVALID'' None) (\<lambda>expires_at.
     bind_r (parse_utc_seconds expires_at) (\<lambda>expires_ms.
       candidate_assert (admitted_ms \<le> now + 30000 \<and> now < expires_ms) ''PUBLIC_V2_PROOF_NOT_FRESH'')))))"

definition parse_activation_proof_request :: "(js_string \<Rightarrow> js_number) \<Rightarrow> bytes \<Rightarrow> members result" where
  "parse_activation_proof_request decimal bs =
     bind_r (parse_canonical_public_v2 decimal bs) (\<lambda>v.
     bind_r (exact_members v [''schema'', ''schema_version''] ''PUBLIC_V2_PROOF_REQUEST_INVALID'') (\<lambda>request.
     bind_r (literal_field request ''schema'' (JStr ACTIVATION_PROOF_REQUEST_SCHEMA) ''PUBLIC_V2_PROOF_REQUEST_INVALID'') (\<lambda>_.
     bind_r (literal_field request ''schema_version'' (JI 2) ''PUBLIC_V2_PROOF_REQUEST_INVALID'') (\<lambda>_. Inr request))))"

definition activation_object :: "members \<Rightarrow> members \<Rightarrow> js_string \<Rightarrow> js_string \<Rightarrow> js_string \<Rightarrow> json" where
  "activation_object activated provisioned activated_digest activation_id provisioned_digest =
     JObj [(js ''activated'', JObj activated), (js ''activated_record_sha256'', JStr activated_digest),
       (js ''activation_id'', JStr activation_id), (js ''provisioned'', JObj provisioned),
       (js ''provisioned_record_sha256'', JStr provisioned_digest)]"

definition proof_base :: "json \<Rightarrow> js_string \<Rightarrow> js_string \<Rightarrow> members" where
  "proof_base activation admitted_at expires_at =
     [(js ''activation'', activation), (js ''admitted_at'', JStr admitted_at), (js ''expires_at'', JStr expires_at),
      (js ''schema'', JStr ACTIVATION_PROOF_PUBLIC_SCHEMA), (js ''schema_version'', JI 2)]"

definition build_proof_base ::
  "hash \<Rightarrow> (js_string \<Rightarrow> js_number) \<Rightarrow> activation_pair \<Rightarrow> js_string \<Rightarrow> js_string \<Rightarrow> members result" where
  "build_proof_base sha decimal pair admitted_at expires_at =
     bind_r (activation_binding sha decimal (JObj (ap_provisioned pair)) (JObj (ap_activated pair))) (\<lambda>_.
     bind_r (raw_public_v2_digest sha (JObj (ap_activated pair))) (\<lambda>activated_digest.
     bind_r (public_activation_id sha decimal (JObj (ap_provisioned pair)) (JObj (ap_activated pair))) (\<lambda>activation_id.
     bind_r (raw_public_v2_digest sha (JObj (ap_provisioned pair))) (\<lambda>provisioned_digest.
     let base = proof_base (activation_object (ap_activated pair) (ap_provisioned pair) activated_digest activation_id
           provisioned_digest) admitted_at expires_at in
     bind_r (validate_proof_base sha decimal (JObj base)) (\<lambda>_. Inr base)))))"

definition build_activation_proof_candidate ::
  "hash \<Rightarrow> (js_string \<Rightarrow> js_number) \<Rightarrow> int option \<Rightarrow> bytes \<Rightarrow> json \<Rightarrow> json \<Rightarrow> json \<Rightarrow> document_candidate result" where
  "build_activation_proof_candidate sha decimal clock nonce0 private_payload provisioned0 activated0 =
     bind_r (copy_private_nonce nonce0) (\<lambda>nonce.
     bind_r (canonical_public_v2_bytes private_payload) (\<lambda>payload_bytes.
     bind_r (canonical_public_v2_bytes provisioned0) (\<lambda>provisioned_bytes.
     bind_r (canonical_public_v2_bytes activated0) (\<lambda>activated_bytes.
     bind_r (case clock of None \<Rightarrow> Inl (Candidate (js ''PUBLIC_V2_PROOF_NOW_INVALID'')) | Some now \<Rightarrow> Inr now) (\<lambda>now.
     bind_r (candidate_assert (\<bar>now\<bar> \<le> max_safe \<and> 0 \<le> now \<and> now \<le> MAX_DATE_MS - 60000) ''PUBLIC_V2_PROOF_NOW_INVALID'') (\<lambda>_.
     let admitted_ms = now div 1000 * 1000 in
     bind_r (format_utc_seconds admitted_ms) (\<lambda>admitted_at.
     bind_r (parse_canonical_activation_pair sha decimal activated_bytes provisioned_bytes) (\<lambda>pair.
     bind_r (format_utc_seconds (admitted_ms + 60000)) (\<lambda>expires_at.
     bind_r (build_proof_base sha decimal pair admitted_at expires_at) (\<lambda>base.
     bind_r (build_sidecar_opening sha decimal ACTIVATION_PROOF nonce payload_bytes (JObj base)) (\<lambda>sidecar.
     let unsigned = base @ [(js ''private_sidecar_commitment'', JStr (so_commitment sidecar))] in
     bind_r (public_v2_id sha PROOF_DOMAIN (JObj unsigned)) (\<lambda>i.
     bind_r (canonical_public_v2_bytes (JObj (unsigned @ [(js ''proof_id'', JStr i)]))) (\<lambda>document_bytes.
     bind_r (parse_canonical_activation_proof sha decimal document_bytes) (\<lambda>document.
       Inr (with_document sidecar (JObj document) document_bytes)))))))))))))))"

end
