(* ===== verification/PublicProofExact.thy ===== *)
theory PublicProofExact imports PublicIssuance PublicProof begin

text \<open>
  The public activation proof: seconds of UTC print and parse exactly, a built proof is fresh in the minute
  it was admitted for and in no other, and building succeeds for every pair of records.
\<close>

section \<open>Seconds print and parse exactly\<close>

definition date_head :: "js_string \<Rightarrow> date_fields \<Rightarrow> js_string" where
  "date_head year f = year @ js ''-'' @ pad 2 (f_month f) @ js ''-'' @ pad 2 (f_day f) @ js ''T'' @
     pad 2 (f_hour f) @ js '':'' @ pad 2 (f_minute f) @ js '':'' @ pad 2 (f_second f)"

definition year_text :: "int \<Rightarrow> js_string" where
  "year_text y = (if 0 \<le> y \<and> y \<le> 9999 then pad 4 y else if 0 \<le> y then js ''+'' @ pad 6 y else js ''-'' @ pad 6 (- y))"

definition seconds_text :: "int \<Rightarrow> js_string" where
  "seconds_text t = date_head (year_text (f_year (fields_of_ms t))) (fields_of_ms t) @ js ''Z''"

lemma replace_first_after:
  assumes "c \<notin> set h"
  shows "replace_first (c # cs) new (h @ (c # cs)) = h @ new"
  using assms by (induction h) auto

lemma pad_no_dot: "0x2E \<notin> set (pad k n)"
  using pad_digits [of "0x2E" k n] by auto

lemma head_no_dot: "0x2E \<notin> set (date_head (year_text y) f)"
  using pad_no_dot by (auto simp: date_head_def year_text_def js_def)

lemma iso_string_seconds:
  assumes "t mod 1000 = 0"
  shows "iso_string t = date_head (year_text (f_year (fields_of_ms t))) (fields_of_ms t) @ js ''.000Z''"
proof -
  have "t mod 86400000 mod 1000 = 0" using assms by (simp add: mod_mod_cancel)
  then have "f_ms (fields_of_ms t) = 0" by (simp add: fields_of_ms_def Let_def split: prod.splits)
  moreover have "pad 3 0 = js ''000''" by code_simp
  ultimately show ?thesis
    by (simp add: iso_string_def Let_def fields_text_def date_head_def year_text_def js_def)
qed

lemma format_seconds:
  assumes "t mod 1000 = 0"
  shows "format_utc_seconds t = Inr s \<longleftrightarrow> 0 \<le> t \<and> t \<le> MAX_DATE_MS \<and> s = seconds_text t"
proof -
  have dot: "js ''.000Z'' = 0x2E # js ''000Z''" by (simp add: js_def)
  have "replace_first (js ''.000Z'') (js ''Z'') (iso_string t) = seconds_text t"
    unfolding iso_string_seconds [OF assms] dot seconds_text_def by (rule replace_first_after) (rule head_no_dot)
  then show ?thesis
    by (auto simp: format_utc_seconds_def result_simps to_iso_string_def MAX_DATE_MS_def max_safe_def)
qed

lemma length_seconds:
  "length (seconds_text t) = (if 0 \<le> f_year (fields_of_ms t) \<and> f_year (fields_of_ms t) \<le> 9999 then 20 else 23)"
  by (simp add: seconds_text_def date_head_def year_text_def del: pad.simps)

lemma UTC_SECONDS_length: "matches UTC_SECONDS w \<Longrightarrow> length w = 20"
  using matches_length [of UTC_SECONDS 20 20 w] by (simp add: UTC_SECONDS_def Let_def)

lemma year_monotone: "0 \<le> t \<Longrightarrow> 0 \<le> year_of_ms t"
proof -
  assume t: "0 \<le> t"
  have "day_from_year 0 \<le> 0" by code_simp
  have b: "day_from_year (year_from_day d) \<le> d" "d < day_from_year (year_from_day d + 1)" for d
    using year_from_day_bounds by blast+
  show "0 \<le> year_of_ms t"
  proof (rule ccontr)
    assume "\<not> 0 \<le> year_of_ms t"
    then have "year_of_ms t + 1 \<le> 0" by simp
    then have "day_from_year (year_of_ms t + 1) \<le> day_from_year 0"
      using day_from_year_strict [of "year_of_ms t + 1" 0] by (cases "year_of_ms t + 1 = 0") auto
    moreover have "t div 86400000 < day_from_year (year_of_ms t + 1)" unfolding year_of_ms_def by (rule b)
    ultimately show False using t \<open>day_from_year 0 \<le> 0\<close> pos_imp_zdiv_nonneg_iff [of 86400000 t] by simp
  qed
qed

lemma parse_seconds:
  assumes "t mod 1000 = 0" and "0 \<le> t" and "t \<le> MAX_DATE_MS"
  shows "parse_utc_seconds (seconds_text t) = Inr u \<longleftrightarrow> u = t \<and> year_of_ms t \<le> 9999"
proof (cases "year_of_ms t \<le> 9999")
  case True
  note y = year_monotone [OF assms(2)] True
  note f = fields_of_ms_sound [OF y]
  have year: "year_text (f_year (fields_of_ms t)) = pad 4 (f_year (fields_of_ms t))" using f y by (simp add: year_text_def)
  let ?h = "date_head (year_text (f_year (fields_of_ms t))) (fields_of_ms t)"
  have len: "length ?h = 19" unfolding year by (simp add: date_head_def del: pad.simps)
  have "take 19 (seconds_text t) @ js ''.000'' @ drop 19 (seconds_text t) = iso_string t"
    unfolding seconds_text_def iso_string_seconds [OF assms(1)] using len by (simp add: js_def)
  then have parse: "date_parse_seconds (seconds_text t) = Some t"
    using date_parse_iso_string [OF y] by (simp add: date_parse_seconds_def)
  have "matches UTC_SECONDS (seconds_text t)"
    unfolding UTC_SECONDS_def Let_def seconds_text_def date_head_def year append_assoc
    by (intro matches_SeqI matches_pad matches_Lit_js)
  moreover have "format_utc_seconds t = Inr (seconds_text t)" unfolding format_seconds [OF assms(1)] using assms by simp
  moreover have "\<bar>t\<bar> \<le> max_safe" using assms(2,3) by (simp add: MAX_DATE_MS_def max_safe_def)
  ultimately show ?thesis using parse assms True by (auto simp: parse_utc_seconds_def)
next
  case False
  show ?thesis
  proof (cases "0 \<le> f_year (fields_of_ms t) \<and> f_year (fields_of_ms t) \<le> 9999")
    case True
    moreover have "f_year (fields_of_ms t) = year_of_ms t"
      by (simp add: fields_of_ms_def Let_def year_of_ms_def split: prod.splits)
    ultimately show ?thesis using False by simp
  next
    case noyear: False
    then have "\<not> matches UTC_SECONDS (seconds_text t)" using UTC_SECONDS_length [of "seconds_text t"] length_seconds [of t] by auto
    then show ?thesis using False by (simp add: parse_utc_seconds_def candidate_assert_def)
  qed
qed

section \<open>What a built proof is\<close>

lemma proof_member_lookups:
  "lookup (proof_base a x y) (js ''activation'') = a" "lookup (proof_base a x y) (js ''admitted_at'') = JStr x"
  "lookup (proof_base a x y) (js ''expires_at'') = JStr y"
  "lookup (proof_base a x y) (js ''schema'') = JStr ACTIVATION_PROOF_PUBLIC_SCHEMA"
  "lookup (proof_base a x y) (js ''schema_version'') = JI 2"
  "map fst (proof_base a x y) = map js PROOF_BASE_KEYS"
  by (simp_all add: proof_base_def lookup_def PROOF_BASE_KEYS_def PROOF_KEYS_def)

lemma proof_base_shape:
  "well_formed a \<Longrightarrow> well_formed (JObj (proof_base a x y))"
  "lookup (proof_base a x y) (js ''schema'') = JStr (document_schema ACTIVATION_PROOF)"
  "js ''private_sidecar_commitment'' \<notin> set (map fst (proof_base a x y))"
  "js (terminal_id ACTIVATION_PROOF) \<notin> set (map fst (proof_base a x y))"
  by (simp_all add: proof_base_def lookup_def JI_def ACTIVATION_PROOF_PUBLIC_SCHEMA_def)

lemma validated_proof_times:
  assumes "validate_proof_base sha decimal (JObj (proof_base a x y)) = Inr pair"
  obtains t u where "parse_utc_seconds x = Inr t" "parse_utc_seconds y = Inr u" "u - t = 60000"
  using assms unfolding validate_proof_base_def
  by (elim bind_r_InrE) (auto simp only: exact_members_eq_Inr json.inject field_readers_eq_Inr proof_member_lookups candidate_assert_eq_Inr)

lemma proof_parsed:
  assumes "parse_canonical_activation_proof sha decimal bs = Inr m"
  shows "canonical_public_v2_bytes (JObj m) = Inr bs \<and> settled m"
proof -
  obtain v where v: "parse_canonical_public_v2 decimal bs = Inr v" "parse_untrusted_activation_proof sha decimal v = Inr m"
    using assms by (auto simp: parse_canonical_activation_proof_def result_simps)
  have w: "canonical_public_v2_bytes v = Inr bs" "well_formed v" "normalise v = v"
    using v(1) by (simp_all only: parse_canonical_public_v2_iff)
  obtain s where s: "canonical_public_v2_snapshot decimal v = Inr s" "s = JObj m"
    using v(2) unfolding parse_untrusted_activation_proof_def
    by (elim bind_r_InrE) (auto simp only: exact_members_eq_Inr sum.inject)
  note f = snapshot_facts [OF s(1) w(2)]
  show ?thesis using f(1,2,3,4) w(1) unfolding s(2) settled_def by simp
qed

lemma proof_candidate_facts:
  assumes "build_activation_proof_candidate sha decimal (Some now) nonce payload p a = Inr d"
  obtains act s i bs m pb n pair where
    "0 \<le> now" "now \<le> MAX_DATE_MS - 60000"
    "build_sidecar_opening sha decimal ACTIVATION_PROOF n pb
       (JObj (proof_base act (seconds_text (now div 1000 * 1000)) (seconds_text (now div 1000 * 1000 + 60000)))) = Inr s"
    "validate_proof_base sha decimal
       (JObj (proof_base act (seconds_text (now div 1000 * 1000)) (seconds_text (now div 1000 * 1000 + 60000)))) = Inr pair"
    "public_v2_id sha PROOF_DOMAIN (JObj (committed
       (proof_base act (seconds_text (now div 1000 * 1000)) (seconds_text (now div 1000 * 1000 + 60000))) (so_commitment s))) = Inr i"
    "canonical_public_v2_bytes (JObj (sealed_members
       (proof_base act (seconds_text (now div 1000 * 1000)) (seconds_text (now div 1000 * 1000 + 60000))) (so_commitment s)
       ACTIVATION_PROOF i)) = Inr bs"
    "canonical_public_v2_bytes (JObj m) = Inr bs" "settled m" "d = with_document s (JObj m) bs" "well_formed act"
proof -
  let ?adm = "now div 1000 * 1000"
  obtain n pb pby aby x y pair base s i bs m where e:
    "\<bar>now\<bar> \<le> max_safe \<and> 0 \<le> now \<and> now \<le> MAX_DATE_MS - 60000"
    "format_utc_seconds ?adm = Inr x" "parse_canonical_activation_pair sha decimal aby pby = Inr pair"
    "format_utc_seconds (?adm + 60000) = Inr y" "build_proof_base sha decimal pair x y = Inr base"
    "build_sidecar_opening sha decimal ACTIVATION_PROOF n pb (JObj base) = Inr s"
    "public_v2_id sha PROOF_DOMAIN (JObj (committed base (so_commitment s))) = Inr i"
    "canonical_public_v2_bytes (JObj (committed base (so_commitment s) @ [(js ''proof_id'', JStr i)])) = Inr bs"
    "parse_canonical_activation_proof sha decimal bs = Inr m" "Inr (with_document s (JObj m) bs) = (Inr d :: document_candidate result)"
    using assms unfolding build_activation_proof_candidate_def Let_def option.case
    by (elim bind_r_InrE) (simp only: sum.inject candidate_assert_eq_Inr)
  have "?adm mod 1000 = 0" "(?adm + 60000) mod 1000 = 0" by (simp_all add: mod_add_eq)
  then have xy: "x = seconds_text ?adm" "y = seconds_text (?adm + 60000)" using e(2,4) by (simp_all only: format_seconds)
  obtain ad ai pd q where base: "base = proof_base (activation_object (ap_activated pair) (ap_provisioned pair) ad ai pd) x y"
    "validate_proof_base sha decimal (JObj base) = Inr q"
    using e(5) unfolding build_proof_base_def Let_def by (elim bind_r_InrE) (auto simp only: sum.inject)
  have "well_formed (JObj (ap_activated pair))" "well_formed (JObj (ap_provisioned pair))"
    using e(3) by (simp_all only: parse_pair_iff parse_canonical_provisioned_iff settled_def)
  then have wf: "well_formed (activation_object (ap_activated pair) (ap_provisioned pair) ad ai pd)"
    by (simp add: activation_object_def)
  have doc: "canonical_public_v2_bytes (JObj m) = Inr bs" "settled m" using proof_parsed [OF e(9)] by simp_all
  show thesis
    by (rule that [OF _ _ e(6) [unfolded base(1) xy] base(2) [unfolded base(1) xy] e(7) [unfolded base(1) xy] _ doc _ wf])
      (use e(1,8,10) in \<open>simp_all add: base(1) xy\<close>)
qed

lemma proof_candidate_opens:
  assumes "build_activation_proof_candidate sha decimal (Some now) nonce payload p a = Inr d" and sha: "\<And>x. length (sha x) = 32"
  shows "verify_sidecar_opening sha decimal ACTIVATION_PROOF (so_opening d) (so_private_payload_bytes d) (dc_document d) = Inr ()"
proof (rule proof_candidate_facts [OF assms(1)])
  fix act s i bs m pb n pair
  let ?base = "proof_base act (seconds_text (now div 1000 * 1000)) (seconds_text (now div 1000 * 1000 + 60000))"
  assume b: "build_sidecar_opening sha decimal ACTIVATION_PROOF n pb (JObj ?base) = Inr s"
    "public_v2_id sha PROOF_DOMAIN (JObj (committed ?base (so_commitment s))) = Inr i"
    "canonical_public_v2_bytes (JObj (sealed_members ?base (so_commitment s) ACTIVATION_PROOF i)) = Inr bs"
    "canonical_public_v2_bytes (JObj m) = Inr bs" "settled m" "d = with_document s (JObj m) bs" "well_formed act"
  have "verify_sidecar_opening sha decimal ACTIVATION_PROOF (so_opening s) (so_private_payload_bytes s) (JObj m) = Inr ()"
    by (rule sealed_opens [OF b(1) proof_base_shape(1) [OF b(7)] proof_base_shape(2-4) public_id_DIGEST [OF b(2) sha] sha b(3-5)])
  then show ?thesis by (simp only: b(6) with_document_fields)
qed

lemma sealed_lookup:
  assumes "canonical_public_v2_bytes (JObj doc) = Inr bs" and wf: "well_formed (JObj doc)"
    and "canonical_public_v2_bytes (JObj m) = Inr bs" and "settled m"
  shows "lookup m k = normalise (lookup doc k)"
proof -
  obtain ms where ms: "normalise (JObj doc) = JObj ms" "\<And>k. lookup ms k = normalise (lookup doc k)"
    by (rule normal_members [OF wf]) (rule that)
  have "normalise (JObj doc) = normalise (JObj m)"
    using canonical_bytes_inj [of "JObj doc" bs "JObj m"] assms by (simp only: canonical_public_v2_bytes_iff settled_def)
  then have "ms = m" using ms(1) assms(4) by (simp only: settled_def json.inject)
  then show ?thesis using ms(2) by simp
qed

lemma times_parse:
  assumes "adm mod 1000 = 0" and "0 \<le> adm" and "adm + 60000 \<le> MAX_DATE_MS"
    and "validate_proof_base sha decimal (JObj (proof_base act (seconds_text adm) (seconds_text (adm + 60000)))) = Inr pair"
  shows "parse_utc_seconds (seconds_text adm) = Inr adm" and "parse_utc_seconds (seconds_text (adm + 60000)) = Inr (adm + 60000)"
proof -
  have mod2: "(adm + 60000) mod 1000 = 0" using assms(1) mod_add_eq [of adm 1000 60000] by simp
  have range: "adm \<le> MAX_DATE_MS" "0 \<le> adm + 60000" using assms(2,3) by linarith+
  obtain u v where uv: "parse_utc_seconds (seconds_text adm) = Inr u" "parse_utc_seconds (seconds_text (adm + 60000)) = Inr v"
    by (rule validated_proof_times [OF assms(4)])
  show "parse_utc_seconds (seconds_text adm) = Inr adm"
    using uv(1) parse_seconds [OF assms(1,2) range(1)] by blast
  show "parse_utc_seconds (seconds_text (adm + 60000)) = Inr (adm + 60000)"
    using uv(2) parse_seconds [OF mod2 range(2) assms(3)] by blast
qed

lemma fresh_iff:
  assumes "lookup m (js ''admitted_at'') = JStr x" and "lookup m (js ''expires_at'') = JStr y"
    and "parse_utc_seconds x = Inr u" and "parse_utc_seconds y = Inr v" and "v \<le> MAX_DATE_MS"
  shows "assert_untrusted_proof_fresh m t = Inr () \<longleftrightarrow> 0 \<le> t \<and> u - 30000 \<le> t \<and> t < v"
proof -
  have "string_field m ''admitted_at'' c None = Inr x" "string_field m ''expires_at'' c None = Inr y" for c
    using assms(1,2) by (simp_all add: reader_ok)
  then have "assert_untrusted_proof_fresh m t = Inr () \<longleftrightarrow>
      (\<bar>t\<bar> \<le> max_safe \<and> 0 \<le> t \<and> t \<le> MAX_DATE_MS) \<and> u \<le> t + 30000 \<and> t < v"
    by (simp add: assert_untrusted_proof_fresh_def assms(3,4) bind_r_eq_Inr candidate_assert_eq_Inr)
  moreover have "\<bar>t\<bar> \<le> max_safe \<and> t \<le> MAX_DATE_MS" if "0 \<le> t" "t < v"
    using that assms(5) by (simp add: max_safe_def MAX_DATE_MS_def)
  ultimately show ?thesis by auto
qed

text \<open>C36: A proof built at some moment is accepted as fresh exactly from thirty seconds before the second it was
  admitted at until a minute after that second, and at no other time.\<close>

theorem built_proof_is_fresh_for_its_minute:
  assumes "build_activation_proof_candidate sha decimal (Some now) nonce payload p a = Inr d" and "dc_document d = JObj m"
  shows "assert_untrusted_proof_fresh m t = Inr () \<longleftrightarrow>
    0 \<le> t \<and> now div 1000 * 1000 - 30000 \<le> t \<and> t < now div 1000 * 1000 + 60000"
proof (rule proof_candidate_facts [OF assms(1)])
  define adm where "adm = now div 1000 * 1000"
  fix act s i bs m' pb n pair
  let ?base = "proof_base act (seconds_text (now div 1000 * 1000)) (seconds_text (now div 1000 * 1000 + 60000))"
  assume b: "0 \<le> now" "now \<le> MAX_DATE_MS - 60000" "validate_proof_base sha decimal (JObj ?base) = Inr pair"
    "canonical_public_v2_bytes (JObj (sealed_members ?base (so_commitment s) ACTIVATION_PROOF i)) = Inr bs"
    "canonical_public_v2_bytes (JObj m') = Inr bs" "settled m'" "d = with_document s (JObj m') bs" "well_formed act"
  have m: "m' = m" using assms(2) b(7) by simp
  have "adm mod 1000 = 0" "0 \<le> adm" "adm \<le> now" using b(1) zmod_le_nonneg_dividend [OF b(1), of 1000]
    by (simp_all add: adm_def minus_mod_eq_div_mult [symmetric])
  then have adm: "adm mod 1000 = 0" "0 \<le> adm" "adm + 60000 \<le> MAX_DATE_MS" using b(2) by linarith+
  note times = times_parse [OF adm b(3) [folded adm_def]]
  have wfd: "well_formed (JObj (sealed_members ?base (so_commitment s) ACTIVATION_PROOF i))"
    using b(8) by (simp add: proof_base_def JI_def)
  have look: "lookup m (js ''admitted_at'') = JStr (seconds_text adm)" "lookup m (js ''expires_at'') = JStr (seconds_text (adm + 60000))"
    unfolding sealed_lookup [OF b(4) wfd b(5,6) [unfolded m]] by (simp_all add: proof_base_def lookup_def adm_def)
  show ?thesis unfolding fresh_iff [OF look times adm(3)] adm_def ..
qed

section \<open>Building a proof succeeds\<close>

lemma proof_domain: "matches PUBLIC_DOMAIN PROOF_DOMAIN" "0 \<notin> set PROOF_DOMAIN"
  by (simp_all add: PUBLIC_DOMAIN_def PROOF_DOMAIN_def matches_Rep_Cls js_def)

lemma proof_keys_sorted:
  "sorted (map js PROOF_BASE_KEYS)" "sorted (map js ACTIVATION_KEYS)" "distinct PROOF_KEYS"
  by code_simp+

lemma activation_object_shape:
  "activation_object a p ad i pd = JObj [(js ''activated'', JObj a), (js ''activated_record_sha256'', JStr ad),
     (js ''activation_id'', JStr i), (js ''provisioned'', JObj p), (js ''provisioned_record_sha256'', JStr pd)]"
  by (simp add: activation_object_def)

definition activation_members :: "members \<Rightarrow> members \<Rightarrow> js_string \<Rightarrow> js_string \<Rightarrow> js_string \<Rightarrow> members" where
  "activation_members a p ad i pd = [(js ''activated'', JObj a), (js ''activated_record_sha256'', JStr ad),
     (js ''activation_id'', JStr i), (js ''provisioned'', JObj p), (js ''provisioned_record_sha256'', JStr pd)]"

lemma activation_members_lookups:
  "activation_object a p ad i pd = JObj (activation_members a p ad i pd)"
  "lookup (activation_members a p ad i pd) (js ''activated'') = JObj a"
  "lookup (activation_members a p ad i pd) (js ''activated_record_sha256'') = JStr ad"
  "lookup (activation_members a p ad i pd) (js ''activation_id'') = JStr i"
  "lookup (activation_members a p ad i pd) (js ''provisioned'') = JObj p"
  "lookup (activation_members a p ad i pd) (js ''provisioned_record_sha256'') = JStr pd"
  "map fst (activation_members a p ad i pd) = map js ACTIVATION_KEYS"
  by (simp_all add: activation_members_def activation_object_def lookup_def ACTIVATION_KEYS_def)

lemma proof_normal:
  assumes "normalise (JObj a) = JObj a" and "normalise (JObj p) = JObj p"
  shows "normalise (JObj (activation_members a p ad i pd)) = JObj (activation_members a p ad i pd)"
    and "normalise (JObj (proof_base (activation_object a p ad i pd) x y)) = JObj (proof_base (activation_object a p ad i pd) x y)"
proof -
  show n: "normalise (JObj (activation_members a p ad i pd)) = JObj (activation_members a p ad i pd)"
    by (rule normalise_sorted, use proof_keys_sorted(2) activation_members_lookups(7) in simp)
      (use assms in \<open>auto simp: activation_members_def simp del: normalise.simps(7)\<close>)
  show "normalise (JObj (proof_base (activation_object a p ad i pd) x y)) = JObj (proof_base (activation_object a p ad i pd) x y)"
    by (rule normalise_sorted, use proof_keys_sorted(1) proof_member_lookups(6) in simp)
      (use n in \<open>auto simp: proof_base_def activation_members_lookups(1) simp del: normalise.simps(7)\<close>)
qed

lemma parse_utc_matches: "parse_utc_seconds x = Inr t \<Longrightarrow> matches UTC_SECONDS x"
  by (auto simp: parse_utc_seconds_def bind_r_eq_Inr candidate_assert_eq_Inr)

lemma UTC_SECONDS_text: "matches UTC_SECONDS x \<Longrightarrow> ascii x \<and> length x = 20"
  using matches_ascii [of UTC_SECONDS x] UTC_SECONDS_length by (simp add: UTC_SECONDS_def Let_def)

lemma settled_parses:
  assumes "settled r" and "canonical_public_v2_bytes (JObj r) = Inr bs"
  shows "parse_canonical_public_v2 decimal bs = Inr (JObj r)" and "copy_public_v2_bytes bs code = Inr bs"
proof -
  show p: "parse_canonical_public_v2 decimal bs = Inr (JObj r)"
    using assms by (simp only: parse_canonical_public_v2_iff settled_def simp_thms)
  show "copy_public_v2_bytes bs code = Inr bs" by (rule copy_ok [OF parse_canonical_size [OF p]])
qed

lemma proof_base_fits:
  assumes p: "plain (JObj p)" "height (JObj p) \<le> 4" "nodes (JObj p) \<le> 62" "weight (JObj p) \<le> 13500"
    and a: "plain (JObj a)" "height (JObj a) \<le> 4" "nodes (JObj a) \<le> 62" "weight (JObj a) \<le> 9500"
    and texts: "list_all (\<lambda>s. ascii s \<and> length s \<le> 71) [ad, i, pd, x, y]"
  shows "fits 6 140 26500 (JObj (proof_base (activation_object a p ad i pd) x y))"
proof -
  have "fits 6 140 26500 (JObj [(js ''activation'', JObj [(js ''activated'', u), (js ''activated_record_sha256'', JStr ad),
     (js ''activation_id'', JStr i), (js ''provisioned'', v), (js ''provisioned_record_sha256'', JStr pd)]),
     (js ''admitted_at'', JStr x), (js ''expires_at'', JStr y),
     (js ''schema'', JStr ACTIVATION_PROOF_PUBLIC_SCHEMA), (js ''schema_version'', JI 2)])"
    if "plain u" "height u \<le> 4" "nodes u \<le> 62" "weight u \<le> 9500" "plain v" "height v \<le> 4" "nodes v \<le> 62" "weight v \<le> 13500" for u v
    using that texts by (simp add: fits_def fits_simps ACTIVATION_PROOF_PUBLIC_SCHEMA_def)
  from this [OF a p] show ?thesis unfolding proof_base_def activation_object_def .
qed

lemma proof_candidate_built:
  assumes nonce: "nonce_ok nonce" and payload: "private_payload_ok ACTIVATION_PROOF payload" and sha: "\<And>x. length (sha x) = 32"
    and pair: "parse_canonical_activation_pair sha decimal abytes pbytes = Inr \<lparr>ap_activated = a, ap_provisioned = p\<rparr>"
    and fit: "fits 4 62 13500 (JObj p)" "fits 4 62 9500 (JObj a)"
    and now: "0 \<le> now" "now \<le> MAX_DATE_MS - 60000"
    and years: "year_of_ms (now div 1000 * 1000) \<le> 9999" "year_of_ms (now div 1000 * 1000 + 60000) \<le> 9999"
  obtains d m where "build_activation_proof_candidate sha decimal (Some now) nonce payload (JObj p) (JObj a) = Inr d"
    "dc_document d = JObj m" "parse_canonical_activation_proof sha decimal (dc_document_bytes d) = Inr m"
proof -
  define adm where "adm = now div 1000 * 1000"
  have "adm mod 1000 = 0" "0 \<le> adm" "adm \<le> now" using now(1) zmod_le_nonneg_dividend [OF now(1), of 1000]
    by (simp_all add: adm_def minus_mod_eq_div_mult [symmetric])
  then have adm: "adm mod 1000 = 0" "0 \<le> adm" "adm + 60000 \<le> MAX_DATE_MS" using now(2) by linarith+
  have mod2: "(adm + 60000) mod 1000 = 0" using adm(1) mod_add_eq [of adm 1000 60000] by simp
  let ?x = "seconds_text adm" and ?y = "seconds_text (adm + 60000)"
  have fmt: "format_utc_seconds adm = Inr ?x" "format_utc_seconds (adm + 60000) = Inr ?y"
    unfolding format_seconds [OF adm(1)] format_seconds [OF mod2] using adm by simp_all
  have times: "parse_utc_seconds ?x = Inr adm" "parse_utc_seconds ?y = Inr (adm + 60000)"
    using parse_seconds [OF adm(1,2)] parse_seconds [OF mod2 _ adm(3)] adm years by (simp_all add: adm_def)
  have texts: "ascii ?x" "length ?x = 20" "ascii ?y" "length ?y = 20" "matches UTC_SECONDS ?x" "matches UTC_SECONDS ?y"
    using times [THEN parse_utc_matches] UTC_SECONDS_text by blast+
  note ok = parsed_pair_ok [OF pair]
  have ss: "settled p" "settled a" using ok(1) by (simp_all add: pair_ok_def)
  have bytes: "canonical_public_v2_bytes (JObj p) = Inr pbytes" "canonical_public_v2_bytes (JObj a) = Inr abytes"
    using pair by (simp_all add: parse_pair_iff parse_canonical_provisioned_iff)
  have parse: "parse_untrusted_provisioned sha decimal (JObj p) = Inr p"
    "parse_untrusted_activated sha decimal (JObj a) (Some (JObj p)) = Inr a"
    using ok(1,3,5) unfolding parse_provisioned_iff [OF ok(2)] parse_activated_iff [OF ok(4)] pair_ok_def by blast+
  obtain i where i: "public_activation_id sha decimal (JObj p) (JObj a) = Inr i" "matches DIGEST i"
    by (rule activation_id_exists [OF ok(1) sha])
  let ?ad = "sha256_tag sha abytes" and ?pd = "sha256_tag sha pbytes"
  have dg: "raw_public_v2_digest sha (JObj p) = Inr ?pd" "raw_public_v2_digest sha (JObj a) = Inr ?ad"
    unfolding raw_digest_iff using bytes by blast+
  have dig: "matches DIGEST (sha256_tag sha x)" for x by (rule sha256_tag_DIGEST) (rule sha)
  let ?act = "activation_object a p ?ad i ?pd"
  let ?base = "proof_base ?act ?x ?y"
  have basefits: "fits 6 140 26500 (JObj ?base)"
    by (rule proof_base_fits)
      (use fit matched_text(1) [OF dig, of abytes] matched_text(1) [OF dig, of pbytes] matched_text(1) [OF i(2)] texts(1-4) in
        \<open>simp_all add: fits_def del: plain.simps height.simps nodes.simps weight.simps\<close>)
  have small: "fits 20 800 40000 (JObj ?base)" "fits 32 1000 65536 (JObj ?base)"
    by (rule fits_mono [OF basefits]; simp)+
  have wfact: "well_formed ?act" using ok(2,4) by (simp add: activation_object_def)
  note shape = proof_base_shape(1) [OF wfact, of ?x ?y] proof_base_shape(2-4) [of ?act ?x ?y]
  note normal = proof_normal [OF ok(5,3)]
  obtain bb where bb: "canonical_public_v2_bytes (JObj ?base) = Inr bb" by (rule fits_public [OF small(2) shape(1)])
  have valid: "validate_proof_base sha decimal (JObj ?base) = Inr \<lparr>ap_activated = a, ap_provisioned = p\<rparr>"
    unfolding validate_proof_base_def activation_members_lookups(1)
    using bb [unfolded activation_members_lookups(1)] i(2) texts(5,6) times
    by (simp add: exact_same proof_member_lookups activation_members_lookups(2-7) reader_ok parse dg)
  have built: "build_proof_base sha decimal \<lparr>ap_activated = a, ap_provisioned = p\<rparr> ?x ?y = Inr ?base"
    by (simp add: build_proof_base_def ok(6) dg i(1) Let_def valid)
  have undef: "JUndef \<notin> set (map snd ?base)" by (simp add: proof_base_def activation_object_def JI_def)
  have same: "map (map_prod id normalise) ?base = ?base"
    using normal(1) by (simp add: proof_base_def activation_members_lookups(1) JI_def del: normalise.simps(7))
  obtain pb where pb: "canonical_public_v2_bytes payload = Inr pb" using payload by (auto simp: private_payload_ok_def)
  obtain s j bs r where r: "build_sidecar_opening sha decimal ACTIVATION_PROOF nonce pb (JObj ?base) = Inr s"
    "matches DIGEST (so_commitment s)" "public_v2_id sha PROOF_DOMAIN (JObj (committed ?base (so_commitment s))) = Inr j"
    "matches DIGEST j" "canonical_public_v2_bytes (JObj (sealed_members ?base (so_commitment s) ACTIVATION_PROOF j)) = Inr bs"
    "settled r" "canonical_public_v2_bytes (JObj r) = Inr bs"
    "set (map fst r) = insert (js ''private_sidecar_commitment'') (insert (js (terminal_id ACTIVATION_PROOF)) (js ` set PROOF_BASE_KEYS))"
    "lookup r (js ''private_sidecar_commitment'') = JStr (so_commitment s)" "lookup r (js (terminal_id ACTIVATION_PROOF)) = JStr j"
    "\<And>k. k \<in> set PROOF_BASE_KEYS \<Longrightarrow> lookup r (js k) = normalise (lookup ?base (js k))"
    "\<And>code. project_object r PROOF_BASE_KEYS code = Inr (map (map_prod id normalise) ?base)"
    "public_v2_id sha PROOF_DOMAIN (JObj (filter (\<lambda>(k, _). k \<noteq> js (terminal_id ACTIVATION_PROOF)) r)) = Inr j"
    by (rule seal_succeeds [where decimal = decimal, OF nonce payload pb small(1) shape(1) proof_member_lookups(6) undef shape(3,4)
          proof_domain sha]) (rule that, assumption+)
  have act: "lookup r (js ''activation'') = ?act"
    using r(11) [of "''activation''"] normal(1)
    by (simp add: PROOF_BASE_KEYS_def PROOF_KEYS_def proof_member_lookups activation_members_lookups(1) del: normalise.simps(7))
  have "set (map fst r) = js ` set PROOF_KEYS" unfolding r(8) by (auto simp: PROOF_BASE_KEYS_def PROOF_KEYS_def)
  then have exact: "exact_members (JObj r) PROOF_KEYS code = Inr r" for code by (rule exact_settled [OF r(6) proof_keys_sorted(3)])
  have snap: "canonical_public_v2_snapshot decimal (JObj r) = Inr (JObj r)" using settled_snapshot [OF r(6)] by blast
  have untrusted: "parse_untrusted_activation_proof sha decimal (JObj r) = Inr r"
    unfolding parse_untrusted_activation_proof_def without_proof_id_def
    using r(2,4,7,9,10,13) act r(12) [unfolded same]
    by (simp add: snap exact valid i(1) reader_ok sealed_fields activation_members_lookups(1,4) valid [unfolded activation_members_lookups(1)])
  have parsed: "parse_canonical_activation_proof sha decimal bs = Inr r"
    using untrusted by (simp add: parse_canonical_activation_proof_def settled_parses [OF r(6,7)])
  have n: "copy_private_nonce nonce = Inr nonce" using nonce by (simp add: nonce_ok_def copy_private_nonce_eq_Inr)
  have range: "\<bar>now\<bar> \<le> max_safe" using now by (simp add: MAX_DATE_MS_def max_safe_def)
  have "build_activation_proof_candidate sha decimal (Some now) nonce payload (JObj p) (JObj a) = Inr (with_document s (JObj r) bs)"
    unfolding build_activation_proof_candidate_def
    using n pb bytes range now fmt pair built r(1,3,5) parsed
    by (simp add: adm_def [symmetric] Let_def sealed_fields)
  with parsed show thesis using that by (metis with_document_fields(4,5))
qed

text \<open>C37: From valid sources (every field as its validation asks, and a tag reference of at most 256 characters, so
  that the documents surely stay within the public bounds; the code itself has no such limit), thirty-two private bytes that are not all zero, private payloads of the right schemas
  and a clock within the years of four digits, A0, A1 and the activation proof are all built, and each
  verifies against the opening it was built with.\<close>

theorem valid_sources_are_issued:
  assumes sources: "provisioned_sources_ok b c" "baseline_source_ok l"
    and nonces: "nonce_ok n0" "nonce_ok n1" "nonce_ok n2"
    and payloads: "private_payload_ok ACTIVATION_A0 p0" "private_payload_ok ACTIVATION_A1 p1" "private_payload_ok ACTIVATION_PROOF p2"
    and sha: "\<And>x. length (sha x) = 32"
    and now: "0 \<le> now" "now \<le> MAX_DATE_MS - 60000"
    and years: "year_of_ms (now div 1000 * 1000) \<le> 9999" "year_of_ms (now div 1000 * 1000 + 60000) \<le> 9999"
  shows "\<exists>d0 d1 d2. build_provisioned_candidate sha decimal b c n0 p0 = Inr d0 \<and>
     build_activated_candidate sha decimal l n1 p1 (dc_document d0) = Inr d1 \<and>
     build_activation_proof_candidate sha decimal (Some now) n2 p2 (dc_document d0) (dc_document d1) = Inr d2 \<and>
     verify_sidecar_opening sha decimal ACTIVATION_A0 (so_opening d0) (so_private_payload_bytes d0) (dc_document d0) = Inr () \<and>
     verify_sidecar_opening sha decimal ACTIVATION_A1 (so_opening d1) (so_private_payload_bytes d1) (dc_document d1) = Inr () \<and>
     verify_sidecar_opening sha decimal ACTIVATION_PROOF (so_opening d2) (so_private_payload_bytes d2) (dc_document d2) = Inr ()"
proof -
  obtain d0 p where p: "build_provisioned_candidate sha decimal b c n0 p0 = Inr d0" "dc_document d0 = JObj p"
    "parse_canonical_provisioned sha decimal (dc_document_bytes d0) = Inr p" "fits 4 62 13500 (JObj p)"
    by (rule provisioned_candidate_built [where decimal = decimal, OF sources(1) nonces(1) payloads(1) sha]) (rule that, assumption+)
  obtain d1 :: document_candidate and a where a: "build_activated_candidate sha decimal l n1 p1 (JObj p) = Inr d1" "dc_document d1 = JObj a"
    "parse_canonical_activation_pair sha decimal (dc_document_bytes d1) (dc_document_bytes d0) =
      Inr \<lparr>ap_activated = a, ap_provisioned = p\<rparr>" "fits 4 62 9500 (JObj a)"
    by (rule activated_candidate_built [OF sources(2) nonces(2) payloads(2) p(3) sha]) (rule that, assumption+)
  obtain d2 where q: "build_activation_proof_candidate sha decimal (Some now) n2 p2 (JObj p) (JObj a) = Inr d2"
    by (rule proof_candidate_built [OF nonces(3) payloads(3) sha a(3) p(4) a(4) now years]) (rule that, assumption+)
  show ?thesis
    using p(1,2) a(1,2) q provisioned_candidate_opens [OF p(1) sha] activated_candidate_opens [OF a(1) sha] proof_candidate_opens [OF q sha]
    by auto
qed

theorem valid_sources_are_issued_witness:
  "\<exists>d0 d1. build_provisioned_candidate zero_sha (\<lambda>_. JOther) sample_broker sample_controller (replicate 32 1)
       (JObj (sample_payload ACTIVATION_A0)) = Inr d0 \<and>
     build_activated_candidate zero_sha (\<lambda>_. JOther) sample_baseline (replicate 32 1) (JObj (sample_payload ACTIVATION_A1))
       (dc_document d0) = Inr d1"
proof -
  have y: "year_of_ms (0 div 1000 * 1000) \<le> 9999" "year_of_ms (0 div 1000 * 1000 + 60000) \<le> 9999" by code_simp+
  from valid_sources_are_issued [where sha = zero_sha and decimal = "\<lambda>_. JOther", OF sample_sources sample_payload_ok(2,2,2,1,1,1) zero_sha_length _ _ y]
  show ?thesis by (auto simp: MAX_DATE_MS_def)
qed

text \<open>At the start of time, a proof is admitted and fresh.\<close>

theorem built_proof_is_fresh_for_its_minute_witness:
  "\<exists>p a d m. build_activation_proof_candidate zero_sha (\<lambda>_. JOther) (Some 0) (replicate 32 1) (JObj (sample_payload ACTIVATION_PROOF))
       (JObj p) (JObj a) = Inr d \<and> dc_document d = JObj m \<and>
     assert_untrusted_proof_fresh m 59999 = Inr () \<and> assert_untrusted_proof_fresh m 60000 \<noteq> Inr ()"
proof -
  have y: "year_of_ms (0 div 1000 * 1000) \<le> 9999" "year_of_ms (0 div 1000 * 1000 + 60000) \<le> 9999" by code_simp+
  obtain p a pbytes abytes where
    pair: "parse_canonical_activation_pair zero_sha (\<lambda>_. JOther) abytes pbytes = Inr \<lparr>ap_activated = a, ap_provisioned = p\<rparr>"
    and fit: "fits 4 62 13500 (JObj p)" "fits 4 62 9500 (JObj a)" using sample_pair by metis
  obtain d m where d: "build_activation_proof_candidate zero_sha (\<lambda>_. JOther) (Some 0) (replicate 32 1)
       (JObj (sample_payload ACTIVATION_PROOF)) (JObj p) (JObj a) = Inr d" "dc_document d = JObj m"
    by (rule proof_candidate_built [OF sample_payload_ok(2,1) zero_sha_length pair fit _ _ y])
      (simp add: MAX_DATE_MS_def, simp add: MAX_DATE_MS_def, rule that, assumption+)
  have "assert_untrusted_proof_fresh m 59999 = Inr ()" "assert_untrusted_proof_fresh m 60000 \<noteq> Inr ()"
    using built_proof_is_fresh_for_its_minute [OF d, of 59999] built_proof_is_fresh_for_its_minute [OF d, of 60000] by simp_all
  with d show ?thesis by blast
qed

end
