(* ===== verification/PublicClosure.thy ===== *)
theory PublicClosure imports PublicActivation PublicDistributions begin

text \<open>
  The runtime closure (\<open>candidate-public-v2/runtime-closure.ts\<close>), which ties the eight distributions of a
  release to a pair of activation records.
\<close>

section \<open>The closure\<close>

definition RUNTIME_CLOSURE_PUBLIC_SCHEMA :: js_string where
  "RUNTIME_CLOSURE_PUBLIC_SCHEMA = js ''dpone.release-runtime-closure-public.v2''"
definition AUTHORITY_DOMAIN :: js_string where "AUTHORITY_DOMAIN = js ''dpone.release.public-authority.v2''"
definition INVENTORY_DOMAIN :: js_string where "INVENTORY_DOMAIN = js ''dpone.release.public-distribution-inventory.v2''"
definition CANDIDATE_DOMAIN :: js_string where "CANDIDATE_DOMAIN = js ''dpone.release.public-candidate.v2''"
definition CLOSURE_DOMAIN :: js_string where "CLOSURE_DOMAIN = js ''dpone.release.public-runtime-closure.v2''"

definition CLOSURE_BASE_KEYS :: "string list" where
  "CLOSURE_BASE_KEYS = [''activation'', ''controller_action'', ''decision'', ''distribution_inventory_id'', ''distributions'',
     ''public_authority_id'', ''public_candidate_id'', ''public_release_id'', ''release'', ''schema'', ''schema_version'',
     ''state'', ''status'']"
definition CLOSURE_KEYS :: "string list" where
  "CLOSURE_KEYS = CLOSURE_BASE_KEYS @ [''closure_id'', ''private_sidecar_commitment'']"
definition RELEASE_KEYS :: "string list" where
  "RELEASE_KEYS = [''peeled_commit_sha'', ''policy_blob_sha'', ''policy_sha256'', ''runtime_workflow_blob_sha'',
     ''runtime_workflow_sha256'', ''tag'', ''tag_object_sha'']"

record release_source_input =
  rsi_peeled_commit_sha :: js_string
  rsi_policy_blob_sha :: js_string
  rsi_policy_sha256 :: js_string
  rsi_runtime_workflow_blob_sha :: js_string
  rsi_runtime_workflow_sha256 :: js_string
  rsi_tag :: js_string
  rsi_tag_object_sha :: js_string

definition controller_action :: "(js_string \<Rightarrow> js_number) \<Rightarrow> members \<Rightarrow> json result" where
  "controller_action decimal provisioned =
     bind_r (object_field provisioned ''controller_source'' ''PUBLIC_V2_CONTROLLER_INVALID'') (\<lambda>controller.
     bind_r (object_field controller ''action_bundle'' ''PUBLIC_V2_CONTROLLER_ACTION_INVALID'') (\<lambda>bundle.
       canonical_public_v2_snapshot decimal (JObj bundle)))"

definition validate_release :: "members \<Rightarrow> members result" where
  "validate_release v =
     bind_r (exact_members (JObj v) RELEASE_KEYS ''PUBLIC_V2_RELEASE_INVALID'') (\<lambda>release.
     bind_r (git_sha_field release ''peeled_commit_sha'' ''PUBLIC_V2_RELEASE_INVALID'') (\<lambda>peeled.
     bind_r (git_sha_field release ''policy_blob_sha'' ''PUBLIC_V2_RELEASE_INVALID'') (\<lambda>_.
     bind_r (require_digest (lookup release (js ''policy_sha256'')) ''PUBLIC_V2_RELEASE_INVALID'') (\<lambda>_.
     bind_r (git_sha_field release ''runtime_workflow_blob_sha'' ''PUBLIC_V2_RELEASE_INVALID'') (\<lambda>_.
     bind_r (require_digest (lookup release (js ''runtime_workflow_sha256'')) ''PUBLIC_V2_RELEASE_INVALID'') (\<lambda>_.
     bind_r (string_field release ''tag'' ''PUBLIC_V2_RELEASE_TAG_INVALID'' (Some TAG)) (\<lambda>_.
     bind_r (git_sha_field release ''tag_object_sha'' ''PUBLIC_V2_RELEASE_INVALID'') (\<lambda>tag_object.
     bind_r (candidate_assert (tag_object \<noteq> peeled) ''PUBLIC_V2_RELEASE_TAG_NOT_ANNOTATED'') (\<lambda>_. Inr release)))))))))"

text \<open>The values compared are members of parsed records: strings, or absent.\<close>

definition validate_release_against_baseline :: "members \<Rightarrow> members \<Rightarrow> unit result" where
  "validate_release_against_baseline release activated =
     bind_r (object_field activated ''baseline_source'' ''PUBLIC_V2_A1_BASELINE_INVALID'') (\<lambda>baseline.
     bind_r (map_r (\<lambda>key. candidate_assert (strict_equal (lookup release (js key)) (lookup baseline (js key)))
         ''PUBLIC_V2_RELEASE_BASELINE_CONTENT_MISMATCH'')
       [''policy_blob_sha'', ''policy_sha256'', ''runtime_workflow_blob_sha'', ''runtime_workflow_sha256'']) (\<lambda>_. Inr ()))"

definition inventory_payload :: "json list \<Rightarrow> json" where
  "inventory_payload distributions = JObj [(js ''distributions'', JArr distributions)]"

definition authority_payload :: "js_string \<Rightarrow> json \<Rightarrow> json \<Rightarrow> js_string \<Rightarrow> json \<Rightarrow> json" where
  "authority_payload activation_id peeled policy release_id tag_object =
     JObj [(js ''activation_id'', JStr activation_id), (js ''peeled_commit_sha'', peeled), (js ''policy_sha256'', policy),
       (js ''public_release_id'', JStr release_id), (js ''tag_object_sha'', tag_object)]"

definition candidate_payload :: "js_string \<Rightarrow> js_string \<Rightarrow> json" where
  "candidate_payload inventory_id authority_id =
     JObj [(js ''distribution_inventory_id'', JStr inventory_id), (js ''public_authority_id'', JStr authority_id)]"

definition or_json_null :: "json \<Rightarrow> json" where
  "or_json_null v = (if v = JUndef then JNull else v)"

definition validate_closure_ids :: "hash \<Rightarrow> members \<Rightarrow> members \<Rightarrow> json list \<Rightarrow> js_string \<Rightarrow> unit result" where
  "validate_closure_ids sha base release distributions activation_id =
     bind_r (string_field release ''tag'' ''PUBLIC_V2_RELEASE_TAG_INVALID'' None) (\<lambda>tag.
     bind_r (public_release_id sha tag) (\<lambda>release_id.
     bind_r (public_v2_id sha INVENTORY_DOMAIN (inventory_payload distributions)) (\<lambda>inventory_id.
     bind_r (public_v2_id sha AUTHORITY_DOMAIN
       (authority_payload activation_id (or_json_null (lookup release (js ''peeled_commit_sha'')))
          (or_json_null (lookup release (js ''policy_sha256''))) release_id
          (or_json_null (lookup release (js ''tag_object_sha''))))) (\<lambda>authority_id.
     bind_r (candidate_assert (strict_equal (lookup base (js ''public_release_id'')) (JStr release_id))
       ''PUBLIC_V2_RELEASE_ID_MISMATCH'') (\<lambda>_.
     bind_r (candidate_assert (strict_equal (lookup base (js ''distribution_inventory_id'')) (JStr inventory_id))
       ''PUBLIC_V2_INVENTORY_ID_MISMATCH'') (\<lambda>_.
     bind_r (candidate_assert (strict_equal (lookup base (js ''public_authority_id'')) (JStr authority_id))
       ''PUBLIC_V2_AUTHORITY_ID_MISMATCH'') (\<lambda>_.
     bind_r (public_v2_id sha CANDIDATE_DOMAIN (candidate_payload inventory_id authority_id)) (\<lambda>candidate_id.
       candidate_assert (strict_equal (lookup base (js ''public_candidate_id'')) (JStr candidate_id))
         ''PUBLIC_V2_CANDIDATE_ID_MISMATCH''))))))))"

definition validate_closure_base ::
  "hash \<Rightarrow> (js_string \<Rightarrow> js_number) \<Rightarrow> json \<Rightarrow> members \<Rightarrow> members \<Rightarrow> unit result" where
  "validate_closure_base sha decimal v provisioned activated =
     bind_r (exact_members v CLOSURE_BASE_KEYS ''PUBLIC_V2_CLOSURE_BASE_INVALID'') (\<lambda>base.
     bind_r (object_field base ''release'' ''PUBLIC_V2_RELEASE_INVALID'') (\<lambda>r.
     bind_r (validate_release r) (\<lambda>release.
     bind_r (string_field release ''tag'' ''PUBLIC_V2_RELEASE_TAG_INVALID'' None) (\<lambda>tag.
     bind_r (validate_distribution_rows (lookup base (js ''distributions'')) tag) (\<lambda>distributions.
     bind_r (activation_binding sha decimal (JObj provisioned) (JObj activated)) (\<lambda>binding.
     bind_r (public_activation_id sha decimal (JObj provisioned) (JObj activated)) (\<lambda>activation_id.
     bind_r (object_field base ''activation'' ''PUBLIC_V2_CLOSURE_ACTIVATION_INVALID'') (\<lambda>activation.
     bind_r (candidate_assert (json_equal (JObj activation) (JObj (binding @ [(js ''activation_id'', JStr activation_id)])))
       ''PUBLIC_V2_CLOSURE_ACTIVATION_MISMATCH'') (\<lambda>_.
     bind_r (object_field base ''controller_action'' ''PUBLIC_V2_CLOSURE_CONTROLLER_ACTION_INVALID'') (\<lambda>action.
     bind_r (controller_action decimal provisioned) (\<lambda>expected_action.
     bind_r (candidate_assert (json_equal (JObj action) expected_action) ''PUBLIC_V2_CLOSURE_CONTROLLER_ACTION_MISMATCH'') (\<lambda>_.
     bind_r (validate_release_against_baseline release activated) (\<lambda>_.
     bind_r (validate_closure_ids sha base release distributions activation_id) (\<lambda>_.
     bind_r (literal_field base ''decision'' (JStr (js ''GO'')) ''PUBLIC_V2_CLOSURE_BASE_INVALID'') (\<lambda>_.
     bind_r (literal_field base ''schema'' (JStr RUNTIME_CLOSURE_PUBLIC_SCHEMA) ''PUBLIC_V2_CLOSURE_BASE_INVALID'') (\<lambda>_.
     bind_r (literal_field base ''schema_version'' (JI 2) ''PUBLIC_V2_CLOSURE_BASE_INVALID'') (\<lambda>_.
     bind_r (literal_field base ''state'' (JStr (js ''CLOSED'')) ''PUBLIC_V2_CLOSURE_BASE_INVALID'') (\<lambda>_.
     bind_r (literal_field base ''status'' (JStr (js ''PASS'')) ''PUBLIC_V2_CLOSURE_BASE_INVALID'') (\<lambda>_.
     bind_r (canonical_public_v2_bytes (JObj base)) (\<lambda>_. Inr ()))))))))))))))))))))"

definition without_closure_id :: "members \<Rightarrow> members" where
  "without_closure_id m = filter (\<lambda>(k, _). k \<noteq> js ''closure_id'') m"

definition parse_untrusted_runtime_closure ::
  "hash \<Rightarrow> (js_string \<Rightarrow> js_number) \<Rightarrow> json \<Rightarrow> json \<Rightarrow> json \<Rightarrow> members result" where
  "parse_untrusted_runtime_closure sha decimal v provisioned_value activated_value =
     bind_r (canonical_public_v2_snapshot decimal v) (\<lambda>s.
     bind_r (exact_members s CLOSURE_KEYS ''PUBLIC_V2_CLOSURE_INVALID'') (\<lambda>closure.
     bind_r (canonical_public_v2_snapshot decimal provisioned_value) (\<lambda>provisioned_snapshot.
     bind_r (canonical_public_v2_snapshot decimal activated_value) (\<lambda>activated_snapshot.
     bind_r (parse_untrusted_provisioned sha decimal provisioned_snapshot) (\<lambda>provisioned.
     bind_r (parse_untrusted_activated sha decimal activated_snapshot (Some (JObj provisioned))) (\<lambda>activated.
     bind_r (project_object closure CLOSURE_BASE_KEYS ''PUBLIC_V2_CLOSURE_INVALID'') (\<lambda>base.
     bind_r (validate_closure_base sha decimal (JObj base) provisioned activated) (\<lambda>_.
     bind_r (require_digest (lookup closure (js ''private_sidecar_commitment'')) ''PUBLIC_V2_CLOSURE_COMMITMENT_INVALID'') (\<lambda>_.
     bind_r (require_digest (lookup closure (js ''closure_id'')) ''PUBLIC_V2_CLOSURE_ID_INVALID'') (\<lambda>closure_id.
     bind_r (public_v2_id sha CLOSURE_DOMAIN (JObj (without_closure_id closure))) (\<lambda>i.
     bind_r (candidate_assert (closure_id = i) ''PUBLIC_V2_CLOSURE_ID_MISMATCH'') (\<lambda>_.
     bind_r (canonical_public_v2_bytes (JObj closure)) (\<lambda>_. Inr closure)))))))))))))"

definition parse_canonical_runtime_closure ::
  "hash \<Rightarrow> (js_string \<Rightarrow> js_number) \<Rightarrow> bytes \<Rightarrow> bytes \<Rightarrow> bytes \<Rightarrow> members result" where
  "parse_canonical_runtime_closure sha decimal activated0 closure0 provisioned0 =
     bind_r (copy_public_v2_bytes activated0 ''PUBLIC_V2_RAW_SIZE_INVALID'') (\<lambda>activated_bytes.
     bind_r (copy_public_v2_bytes closure0 ''PUBLIC_V2_RAW_SIZE_INVALID'') (\<lambda>closure_bytes.
     bind_r (parse_canonical_public_v2 decimal closure_bytes) (\<lambda>closure.
     bind_r (copy_public_v2_bytes provisioned0 ''PUBLIC_V2_RAW_SIZE_INVALID'') (\<lambda>provisioned_bytes.
     bind_r (parse_canonical_activation_pair sha decimal activated_bytes provisioned_bytes) (\<lambda>pair.
       parse_untrusted_runtime_closure sha decimal closure (JObj (ap_provisioned pair)) (JObj (ap_activated pair)))))))"

definition release_object :: "release_source_input \<Rightarrow> members" where
  "release_object r =
     [(js ''peeled_commit_sha'', JStr (rsi_peeled_commit_sha r)), (js ''policy_blob_sha'', JStr (rsi_policy_blob_sha r)),
      (js ''policy_sha256'', JStr (rsi_policy_sha256 r)), (js ''runtime_workflow_blob_sha'', JStr (rsi_runtime_workflow_blob_sha r)),
      (js ''runtime_workflow_sha256'', JStr (rsi_runtime_workflow_sha256 r)), (js ''tag'', JStr (rsi_tag r)),
      (js ''tag_object_sha'', JStr (rsi_tag_object_sha r))]"

definition build_closure_base ::
  "hash \<Rightarrow> (js_string \<Rightarrow> js_number) \<Rightarrow> members \<Rightarrow> members \<Rightarrow> release_source_input \<Rightarrow> json list \<Rightarrow> members result" where
  "build_closure_base sha decimal provisioned activated r distributions =
     bind_r (activation_binding sha decimal (JObj provisioned) (JObj activated)) (\<lambda>binding.
     bind_r (public_activation_id sha decimal (JObj provisioned) (JObj activated)) (\<lambda>activation_id.
     bind_r (public_release_id sha (rsi_tag r)) (\<lambda>release_id.
     bind_r (public_v2_id sha INVENTORY_DOMAIN (inventory_payload distributions)) (\<lambda>inventory_id.
     bind_r (public_v2_id sha AUTHORITY_DOMAIN
       (authority_payload activation_id (JStr (rsi_peeled_commit_sha r)) (JStr (rsi_policy_sha256 r)) release_id
          (JStr (rsi_tag_object_sha r)))) (\<lambda>authority_id.
     bind_r (controller_action decimal provisioned) (\<lambda>action.
     bind_r (public_v2_id sha CANDIDATE_DOMAIN (candidate_payload inventory_id authority_id)) (\<lambda>candidate_id.
     let base = [(js ''activation'', JObj (binding @ [(js ''activation_id'', JStr activation_id)])),
        (js ''controller_action'', action), (js ''decision'', JStr (js ''GO'')),
        (js ''distribution_inventory_id'', JStr inventory_id), (js ''distributions'', JArr distributions),
        (js ''public_authority_id'', JStr authority_id), (js ''public_candidate_id'', JStr candidate_id),
        (js ''public_release_id'', JStr release_id), (js ''release'', JObj (release_object r)),
        (js ''schema'', JStr RUNTIME_CLOSURE_PUBLIC_SCHEMA), (js ''schema_version'', JI 2),
        (js ''state'', JStr (js ''CLOSED'')), (js ''status'', JStr (js ''PASS''))] in
     bind_r (validate_closure_base sha decimal (JObj base) provisioned activated) (\<lambda>_. Inr base))))))))"

text \<open>The inputs are copied before the first \<open>await\<close>; as values they are their own copies.\<close>

definition build_runtime_closure_candidate ::
  "hash \<Rightarrow> (js_string \<Rightarrow> js_number) \<Rightarrow> distribution_input list \<Rightarrow> bytes \<Rightarrow> json \<Rightarrow> json \<Rightarrow> json \<Rightarrow>
     release_source_input \<Rightarrow> document_candidate result" where
  "build_runtime_closure_candidate sha decimal distribution_inputs nonce0 private_payload provisioned0 activated0 r =
     bind_r (copy_private_nonce nonce0) (\<lambda>nonce.
     bind_r (canonical_public_v2_bytes private_payload) (\<lambda>payload_bytes.
     bind_r (canonical_public_v2_bytes provisioned0) (\<lambda>provisioned_bytes.
     bind_r (canonical_public_v2_bytes activated0) (\<lambda>activated_bytes.
     bind_r (candidate_assert (length distribution_inputs = 8) ''PUBLIC_V2_DISTRIBUTIONS_INVALID'') (\<lambda>_.
     bind_r (parse_canonical_activation_pair sha decimal activated_bytes provisioned_bytes) (\<lambda>pair.
     bind_r (build_distribution_rows distribution_inputs (rsi_tag r)) (\<lambda>distributions.
     bind_r (build_closure_base sha decimal (ap_provisioned pair) (ap_activated pair) r distributions) (\<lambda>base.
     bind_r (build_sidecar_opening sha decimal RUNTIME_CLOSURE nonce payload_bytes (JObj base)) (\<lambda>sidecar.
     let unsigned = base @ [(js ''private_sidecar_commitment'', JStr (so_commitment sidecar))] in
     bind_r (public_v2_id sha CLOSURE_DOMAIN (JObj unsigned)) (\<lambda>i.
     bind_r (canonical_public_v2_bytes (JObj (unsigned @ [(js ''closure_id'', JStr i)]))) (\<lambda>document_bytes.
     bind_r (parse_canonical_runtime_closure sha decimal activated_bytes document_bytes provisioned_bytes) (\<lambda>document.
       Inr (with_document sidecar (JObj document) document_bytes)))))))))))))"

end
