(* ===== verification/PublicArchive.thy ===== *)
theory PublicArchive imports PublicClosure begin

text \<open>
  The public archive (\<open>candidate-public-v2/public-archive.ts\<close>): the three documents, parsed and linked to
  each other, in the deterministic ZIP. Building and parsing are inverse to each other.
\<close>

record parsed_members =
  ua_activated :: members
  ua_activated_bytes :: bytes
  ua_closure :: members
  ua_closure_bytes :: bytes
  ua_provisioned :: members
  ua_provisioned_bytes :: bytes

record untrusted_public_archive = parsed_members +
  ua_archive_bytes :: bytes
  ua_archive_sha256 :: js_string

definition snapshot_members :: "archive_members \<Rightarrow> archive_members result" where
  "snapshot_members i =
     bind_r (candidate_assert (int (length (pa_activated i) + length (pa_closure i) + length (pa_provisioned i)) \<le> max_safe \<and>
         length (pa_activated i) + length (pa_closure i) + length (pa_provisioned i) \<le> PUBLIC_V2_MAX_BYTES)
       ''PUBLIC_V2_ZIP_EXPANDED_SIZE_INVALID'') (\<lambda>_.
     bind_r (copy_public_v2_bytes (pa_activated i) ''PUBLIC_V2_RAW_SIZE_INVALID'') (\<lambda>activated.
     bind_r (copy_public_v2_bytes (pa_closure i) ''PUBLIC_V2_RAW_SIZE_INVALID'') (\<lambda>closure.
     bind_r (copy_public_v2_bytes (pa_provisioned i) ''PUBLIC_V2_RAW_SIZE_INVALID'') (\<lambda>provisioned.
       Inr \<lparr>pa_activated = activated, pa_closure = closure, pa_provisioned = provisioned\<rparr>))))"

definition parse_archive_members :: "hash \<Rightarrow> (js_string \<Rightarrow> js_number) \<Rightarrow> archive_members \<Rightarrow> parsed_members result" where
  "parse_archive_members sha decimal i =
     bind_r (snapshot_members i) (\<lambda>m.
     bind_r (parse_canonical_activation_pair sha decimal (pa_activated m) (pa_provisioned m)) (\<lambda>pair.
     bind_r (parse_canonical_runtime_closure sha decimal (pa_activated m) (pa_closure m) (pa_provisioned m)) (\<lambda>closure.
       Inr \<lparr>ua_activated = ap_activated pair, ua_activated_bytes = pa_activated m, ua_closure = closure,
         ua_closure_bytes = pa_closure m, ua_provisioned = ap_provisioned pair, ua_provisioned_bytes = pa_provisioned m\<rparr>)))"

definition with_archive :: "hash \<Rightarrow> parsed_members \<Rightarrow> bytes \<Rightarrow> untrusted_public_archive result" where
  "with_archive sha parsed zip_bytes =
     bind_r (sha256_tagged sha zip_bytes) (\<lambda>digest.
       Inr (parsed_members.extend parsed \<lparr>ua_archive_bytes = zip_bytes, ua_archive_sha256 = digest\<rparr>))"

definition build_untrusted_public_archive ::
  "hash \<Rightarrow> (js_string \<Rightarrow> js_number) \<Rightarrow> archive_members \<Rightarrow> untrusted_public_archive result" where
  "build_untrusted_public_archive sha decimal i =
     bind_r (snapshot_members i) (\<lambda>m.
     bind_r (parse_archive_members sha decimal m) (\<lambda>parsed.
     bind_r (build_public_zip m) (\<lambda>zip_bytes. with_archive sha parsed zip_bytes)))"

definition parse_untrusted_public_archive ::
  "hash \<Rightarrow> (js_string \<Rightarrow> js_number) \<Rightarrow> bytes \<Rightarrow> untrusted_public_archive result" where
  "parse_untrusted_public_archive sha decimal bs =
     bind_r (copy_public_v2_bytes bs ''PUBLIC_V2_ZIP_RAW_SIZE_INVALID'') (\<lambda>zip_bytes.
     bind_r (parse_public_zip zip_bytes) (\<lambda>m.
     bind_r (parse_archive_members sha decimal m) (\<lambda>parsed. with_archive sha parsed zip_bytes)))"

text \<open>The three member files an archive was parsed from.\<close>

definition archive_files :: "untrusted_public_archive \<Rightarrow> archive_members" where
  "archive_files a = \<lparr>pa_activated = ua_activated_bytes a, pa_closure = ua_closure_bytes a, pa_provisioned = ua_provisioned_bytes a\<rparr>"

lemma snapshot_members_eq_Inr: "snapshot_members i = Inr m \<Longrightarrow> m = i"
  by (cases i) (auto simp: snapshot_members_def result_simps)

lemma snapshot_members_fits:
  "snapshot_members i = Inr i \<longleftrightarrow>
     1 \<le> length (pa_provisioned i) \<and> 1 \<le> length (pa_activated i) \<and> 1 \<le> length (pa_closure i) \<and>
     length (pa_provisioned i) + length (pa_activated i) + length (pa_closure i) \<le> 65536"
  by (cases i) (auto simp: snapshot_members_def result_simps PUBLIC_V2_MAX_BYTES_def max_safe_def)

lemma archive_members_files:
  assumes "parse_archive_members sha decimal i = Inr p"
  shows "i = \<lparr>pa_activated = ua_activated_bytes p, pa_closure = ua_closure_bytes p, pa_provisioned = ua_provisioned_bytes p\<rparr>"
    and "snapshot_members i = Inr i"
proof -
  obtain m where m: "snapshot_members i = Inr m" using assms by (auto simp: parse_archive_members_def result_simps)
  moreover have "m = i" by (rule snapshot_members_eq_Inr [OF m])
  ultimately show "snapshot_members i = Inr i"
    and "i = \<lparr>pa_activated = ua_activated_bytes p, pa_closure = ua_closure_bytes p, pa_provisioned = ua_provisioned_bytes p\<rparr>"
    using assms by (auto simp: parse_archive_members_def result_simps)
qed

lemma with_archive_eq_Inr:
  "with_archive sha p bs = Inr a \<longleftrightarrow>
     1 \<le> length bs \<and> length bs \<le> PUBLIC_V2_MAX_BYTES \<and>
     a = parsed_members.extend p \<lparr>ua_archive_bytes = bs, ua_archive_sha256 = sha256_tag sha bs\<rparr>"
  by (auto simp: with_archive_def result_simps sha256_tag_hex)

lemma extend_fields [simp]:
  "archive_files (parsed_members.extend p \<lparr>ua_archive_bytes = bs, ua_archive_sha256 = d\<rparr>) =
     \<lparr>pa_activated = ua_activated_bytes p, pa_closure = ua_closure_bytes p, pa_provisioned = ua_provisioned_bytes p\<rparr>"
  "ua_archive_bytes (parsed_members.extend p \<lparr>ua_archive_bytes = bs, ua_archive_sha256 = d\<rparr>) = bs"
  by (simp_all add: archive_files_def parsed_members.defs)

text \<open>C34: The bytes of a public archive and its contents determine each other: parsing accepts exactly the
  bytes that building from the member files produces, with the same documents and the same digest.\<close>

theorem public_archive_is_exact:
  "parse_untrusted_public_archive sha decimal bs = Inr a \<longleftrightarrow>
     build_untrusted_public_archive sha decimal (archive_files a) = Inr a \<and> ua_archive_bytes a = bs"
proof
  assume "parse_untrusted_public_archive sha decimal bs = Inr a"
  then obtain m p where p: "parse_public_zip bs = Inr m" "parse_archive_members sha decimal m = Inr p" "with_archive sha p bs = Inr a"
    by (auto simp: parse_untrusted_public_archive_def result_simps)
  have a: "archive_files a = m" "ua_archive_bytes a = bs"
    using p(3) archive_members_files(1) [OF p(2)] by (auto simp: with_archive_eq_Inr)
  have "build_public_zip m = Inr bs" using p(1) unfolding parse_public_zip_iff build_public_zip_iff .
  with p archive_members_files(2) [OF p(2)] a
  show "build_untrusted_public_archive sha decimal (archive_files a) = Inr a \<and> ua_archive_bytes a = bs"
    by (simp add: build_untrusted_public_archive_def)
next
  assume b: "build_untrusted_public_archive sha decimal (archive_files a) = Inr a \<and> ua_archive_bytes a = bs"
  then obtain m p zs where p: "snapshot_members (archive_files a) = Inr m" "parse_archive_members sha decimal m = Inr p"
    "build_public_zip m = Inr zs" "with_archive sha p zs = Inr a"
    by (auto simp: build_untrusted_public_archive_def result_simps)
  have zs: "zs = bs" "copy_public_v2_bytes bs c = Inr bs" for c
    using p(4) b by (auto simp: with_archive_eq_Inr copy_public_v2_bytes_eq_Inr)
  have "parse_public_zip bs = Inr m" using p(3) zs(1) unfolding parse_public_zip_iff build_public_zip_iff by simp
  with p zs show "parse_untrusted_public_archive sha decimal bs = Inr a"
    by (simp add: parse_untrusted_public_archive_def)
qed

end
