(* ===== verification/PublicClosureExact.thy ===== *)
theory PublicClosureExact imports PublicProofExact PublicArchive begin

text \<open>
  The documents of a public archive are linked to each other, and a closure and its archive are built from
  every valid release.
\<close>

section \<open>What a parsed closure is tied to\<close>

lemma lookup_projected: "k \<in> set ks \<Longrightarrow> lookup (map (\<lambda>k. (js k, f k)) ks) (js k) = f k"
  by (induction ks) (auto simp: lookup_def)

lemma closure_parsed:
  assumes "parse_canonical_runtime_closure sha decimal ab cb pb = Inr c"
  obtains p a base where "parse_canonical_activation_pair sha decimal ab pb = Inr \<lparr>ap_activated = a, ap_provisioned = p\<rparr>"
    "settled c" "canonical_public_v2_bytes (JObj c) = Inr cb" "validate_closure_base sha decimal (JObj base) p a = Inr ()"
    "\<And>k. k \<in> set CLOSURE_BASE_KEYS \<Longrightarrow> lookup base (js k) = lookup c (js k)"
proof -
  obtain pair v where v: "parse_canonical_public_v2 decimal cb = Inr v"
    "parse_canonical_activation_pair sha decimal ab pb = Inr pair"
    "parse_untrusted_runtime_closure sha decimal v (JObj (ap_provisioned pair)) (JObj (ap_activated pair)) = Inr c"
    using assms unfolding parse_canonical_runtime_closure_def
    by (elim bind_r_InrE) (simp only: copy_public_v2_bytes_eq_Inr)
  obtain p a where pair: "pair = \<lparr>ap_activated = a, ap_provisioned = p\<rparr>" by (cases pair) simp
  note ok = parsed_pair_ok [OF v(2) [unfolded pair]]
  have w: "canonical_public_v2_bytes v = Inr cb" "well_formed v" "normalise v = v"
    using v(1) by (simp_all only: parse_canonical_public_v2_iff)
  obtain s p1 a1 p2 a2 base where e: "canonical_public_v2_snapshot decimal v = Inr s" "s = JObj c"
    "canonical_public_v2_snapshot decimal (JObj p) = Inr p1" "canonical_public_v2_snapshot decimal (JObj a) = Inr a1"
    "parse_untrusted_provisioned sha decimal p1 = Inr p2" "parse_untrusted_activated sha decimal a1 (Some (JObj p2)) = Inr a2"
    "project_object c CLOSURE_BASE_KEYS ''PUBLIC_V2_CLOSURE_INVALID'' = Inr base"
    "validate_closure_base sha decimal (JObj base) p2 a2 = Inr ()"
    using v(3) unfolding parse_untrusted_runtime_closure_def pair activation_pair.simps
    by (elim bind_r_InrE) (simp only: exact_members_eq_Inr sum.inject unit_eq)
  note f = snapshot_facts [OF e(1) w(2)]
  have c: "settled c" "canonical_public_v2_bytes (JObj c) = Inr cb"
    using f(1-4) w(1,3) unfolding e(2) settled_def by simp_all
  have ss: "settled p" "settled a" using ok(1) by (simp_all add: pair_ok_def)
  have "p1 = JObj p" "a1 = JObj a"
    using e(3,4) unfolding settled_snapshot [OF ss(1)] settled_snapshot [OF ss(2)] by blast+
  then have same: "p2 = p" "a2 = a"
    using e(5,6) ok(3,5) by (simp_all only: json.inject parse_provisioned_iff [OF ok(2)] parse_activated_iff [OF ok(4)])
  show thesis
  proof (rule that [OF v(2) [unfolded pair] c e(8) [unfolded same]])
    fix k assume "k \<in> set CLOSURE_BASE_KEYS"
    then show "lookup base (js k) = lookup c (js k)"
      using e(7) by (auto simp: project_object_eq_Inr lookup_projected)
  qed
qed

lemma json_equal_text: "json_equal v (JStr s) \<longleftrightarrow> v = JStr s"
  by (cases v) (simp_all add: json_equal.simps)

text \<open>An object that is equal to one of distinct members has their values.\<close>

lemma json_equal_members:
  assumes "json_equal (JObj kvs) (JObj lws)" and "distinct (map fst kvs)" and "distinct (map fst lws)"
    and "k \<in> set (map fst lws)" and "lookup lws k = JStr s"
  shows "lookup kvs k = JStr s"
proof -
  have e: "length kvs = length lws" "\<And>k. k \<in> set (map fst kvs) \<Longrightarrow> k \<in> set (map fst lws) \<and> json_equal (lookup kvs k) (lookup lws k)"
    using assms(1) by (auto simp: json_equal.simps(2) list_all_iff)
  have "set (map fst kvs) = set (map fst lws)"
    by (rule card_subset_eq) (use e assms(2,3) [THEN distinct_card] in auto)
  then have "json_equal (lookup kvs k) (lookup lws k)" using e(2) assms(4) by simp
  then show ?thesis by (simp only: assms(5) json_equal_text)
qed

lemma closure_base_facts:
  assumes "validate_closure_base sha decimal (JObj base) p a = Inr ()"
  obtains release binding i activation baseline where
    "lookup base (js ''release'') = JObj release" "lookup base (js ''activation'') = JObj activation"
    "activation_binding sha decimal (JObj p) (JObj a) = Inr binding" "public_activation_id sha decimal (JObj p) (JObj a) = Inr i"
    "json_equal (JObj activation) (JObj (binding @ [(js ''activation_id'', JStr i)]))"
    "lookup a (js ''baseline_source'') = JObj baseline"
    "\<And>k. k \<in> {''policy_blob_sha'', ''policy_sha256'', ''runtime_workflow_blob_sha'', ''runtime_workflow_sha256''} \<Longrightarrow>
       lookup release (js k) = lookup baseline (js k)"
proof -
  obtain r release binding i activation u where e:
    "lookup base (js ''release'') = JObj r" "validate_release r = Inr release"
    "activation_binding sha decimal (JObj p) (JObj a) = Inr binding" "public_activation_id sha decimal (JObj p) (JObj a) = Inr i"
    "lookup base (js ''activation'') = JObj activation"
    "json_equal (JObj activation) (JObj (binding @ [(js ''activation_id'', JStr i)]))"
    "validate_release_against_baseline release a = Inr u"
    using assms unfolding validate_closure_base_def
    by (elim bind_r_InrE) (simp only: exact_members_eq_Inr field_readers_eq_Inr candidate_assert_eq_Inr json.inject sum.inject)
  have r: "r = release" "\<exists>s. lookup release (js ''policy_blob_sha'') = JStr s" "\<exists>s. lookup release (js ''policy_sha256'') = JStr s"
    "\<exists>s. lookup release (js ''runtime_workflow_blob_sha'') = JStr s" "\<exists>s. lookup release (js ''runtime_workflow_sha256'') = JStr s"
    using e(2) unfolding validate_release_def
    by (elim bind_r_InrE; simp only: exact_members_eq_Inr field_readers_eq_Inr require_digest_eq_Inr sum.inject json.inject; blast)+
  have strict: "v = w" if "strict_equal v w" "\<exists>s. v = JStr s" for v w using that by (cases w) auto
  obtain baseline where b: "lookup a (js ''baseline_source'') = JObj baseline"
    "\<And>k. k \<in> {''policy_blob_sha'', ''policy_sha256'', ''runtime_workflow_blob_sha'', ''runtime_workflow_sha256''} \<Longrightarrow>
       strict_equal (lookup release (js k)) (lookup baseline (js k))"
    using e(7) by (auto simp: validate_release_against_baseline_def bind_r_eq_Inr candidate_assert_eq_Inr field_readers_eq_Inr)
  show thesis
  proof (rule that [OF e(1) [unfolded r(1)] e(5,3,4,6) b(1)])
    fix k assume k: "k \<in> {''policy_blob_sha'', ''policy_sha256'', ''runtime_workflow_blob_sha'', ''runtime_workflow_sha256''}"
    then show "lookup release (js k) = lookup baseline (js k)" using strict [OF b(2) [OF k]] r(2-5) by blast
  qed
qed

section \<open>The rows of a release\<close>

text \<open>The rows a release has to have: digest and size of each file in order, the names from the version.\<close>

definition release_rows :: "js_string \<Rightarrow> (js_string \<times> int) list \<Rightarrow> distribution_input list" where
  "release_rows version files = map (\<lambda>i. \<lparr>di_filename = distribution_filename i version, di_project = PUBLIC_PROJECTS ! (i div 2),
     di_sha256 = fst (files ! i), di_size_bytes = JInt (snd (files ! i)), di_version = version\<rparr>) [0..<8]"

definition files_ok :: "(js_string \<times> int) list \<Rightarrow> bool" where
  "files_ok files \<longleftrightarrow> length files = 8 \<and>
     list_all (\<lambda>(d, n). matches DIGEST d \<and> 1 \<le> n \<and> n \<le> MAX_DISTRIBUTION_BYTES) files \<and>
     sum_list (map snd files) \<le> MAX_TOTAL_BYTES"

lemma TAG_VERSION: "matches TAG t \<longleftrightarrow> (\<exists>w. t = 0x76 # w \<and> matches VERSION w)"
proof -
  have e: "TAG = Seq (Lit ''v'') VERSION" by (simp add: TAG_def VERSION_def Let_def)
  have "matches TAG t \<longleftrightarrow> (\<exists>w. t = js ''v'' @ w \<and> matches VERSION w)"
    by (subst e, subst matches_Seq, subst matches_Lit) blast
  moreover have "js ''v'' = [0x76]" by (simp add: js_def)
  ultimately show ?thesis by simp
qed

lemma VERSION_ascii: "matches VERSION w \<Longrightarrow> ascii w"
  by (rule matches_ascii; simp add: VERSION_def Let_def)

definition row_members :: "js_string \<Rightarrow> nat \<Rightarrow> js_string \<times> int \<Rightarrow> members" where
  "row_members version i f = [(js ''filename'', JStr (distribution_filename i version)), (js ''project'', JStr (PUBLIC_PROJECTS ! (i div 2))),
     (js ''sha256'', JStr (fst f)), (js ''size_bytes'', JI (snd f)), (js ''version'', JStr version)]"

lemma release_rows_members: "map distribution_row (release_rows version files) = map (\<lambda>i. JObj (row_members version i (files ! i))) [0..<8]"
  by (simp add: release_rows_def distribution_row_def row_members_def JI_def)

lemma row_lookups:
  "map fst (row_members v i f) = map js ROW_KEYS" "lookup (row_members v i f) (js ''filename'') = JStr (distribution_filename i v)"
  "lookup (row_members v i f) (js ''project'') = JStr (PUBLIC_PROJECTS ! (i div 2))" "lookup (row_members v i f) (js ''sha256'') = JStr (fst f)"
  "lookup (row_members v i f) (js ''size_bytes'') = JI (snd f)" "lookup (row_members v i f) (js ''version'') = JStr v"
  by (simp_all add: row_members_def ROW_KEYS_def lookup_def)

lemma project_texts:
  assumes "i < 8"
  shows "ascii (PUBLIC_PROJECTS ! (i div 2)) \<and> length (PUBLIC_PROJECTS ! (i div 2)) \<le> 30"
    and "ascii w \<Longrightarrow> ascii (distribution_filename i w) \<and> length (distribution_filename i w) \<le> 52 + length w"
proof -
  have "i div 2 \<in> {0, 1, 2, 3}" using assms by auto
  then show "ascii (PUBLIC_PROJECTS ! (i div 2)) \<and> length (PUBLIC_PROJECTS ! (i div 2)) \<le> 30"
    "ascii w \<Longrightarrow> ascii (distribution_filename i w) \<and> length (distribution_filename i w) \<le> 52 + length w"
    by (auto simp: PUBLIC_PROJECTS_def NORMALIZED_PROJECTS_def distribution_filename_def ascii_js)
qed

lemma row_good:
  assumes "i < 8" and "matches VERSION w" and "length w \<le> 64" and "matches DIGEST (fst f)" and "1 \<le> snd f" and "snd f \<le> MAX_DISTRIBUTION_BYTES"
  shows "fits 1 6 2000 (JObj (row_members w i f))" and "well_formed (JObj (row_members w i f))"
    and "normalise (JObj (row_members w i f)) = JObj (row_members w i f)"
    and "validate_distribution_row w i (JObj (row_members w i f)) = Inr (snd f)"
proof -
  have n: "snd f \<le> 100000000" using assms(6) by (simp add: MAX_DISTRIBUTION_BYTES_def)
  show "fits 1 6 2000 (JObj (row_members w i f))"
    using project_texts(1) [OF assms(1)] project_texts(2) [OF assms(1) VERSION_ascii [OF assms(2)]] VERSION_ascii [OF assms(2)]
      matched_text(1) [OF assms(4)] assms(3,5) n
    by (simp add: fits_def fits_simps row_members_def)
  show "well_formed (JObj (row_members w i f))" by (simp add: row_members_def JI_def)
  show "normalise (JObj (row_members w i f)) = JObj (row_members w i f)"
  proof (rule normalise_sorted)
    have "sorted (map js ROW_KEYS)" by code_simp
    then show "sorted (map fst (row_members w i f))" by (simp only: row_lookups(1))
  qed (auto simp: row_members_def JI_def)
  have p: "i div 2 < length PUBLIC_PROJECTS" "i div 2 < length NORMALIZED_PROJECTS"
    using assms(1) by (simp_all add: PUBLIC_PROJECTS_def NORMALIZED_PROJECTS_def)
  have "integer_field (row_members w i f) ''size_bytes'' 1 MAX_DISTRIBUTION_BYTES c = Inr (snd f)" for c
    using assms(5,6) n by (simp add: integer_field_eq_Inr row_lookups JI_def is_safe_integer_def number_int_def max_safe_def)
  then show "validate_distribution_row w i (JObj (row_members w i f)) = Inr (snd f)"
    using p assms(2,4) by (simp add: validate_distribution_row_def exact_same row_lookups reader_ok candidate_assert_eq_Inr)
qed

lemma rows_validate:
  assumes "\<And>i. i < length files \<Longrightarrow> validate_distribution_row w (k + i) (rows i) = Inr (snd (files ! i))"
    and "\<And>f. f \<in> set files \<Longrightarrow> 0 \<le> snd f" and "0 \<le> n" and "n + sum_list (map snd files) \<le> max_safe"
  shows "validate_rows w k n (map rows [0..<length files]) = Inr (n + sum_list (map snd files))"
  using assms
proof (induction files arbitrary: k n rows)
  case (Cons f fs)
  have step: "map rows [0..<length (f # fs)] = rows 0 # map (\<lambda>i. rows (Suc i)) [0..<length fs]"
    by (simp add: map_upt_Suc del: upt_Suc)
  have pos: "0 \<le> sum_list (map snd fs)" using Cons.prems(2) by (intro sum_list_nonneg) auto
  have "validate_distribution_row w k (rows 0) = Inr (snd f)" using Cons.prems(1) [of 0] by simp
  moreover have "\<bar>n + snd f\<bar> \<le> max_safe" "0 \<le> n + snd f" "n + snd f + sum_list (map snd fs) \<le> max_safe"
    using Cons.prems(2) [of f] Cons.prems(3,4) pos by simp_all
  moreover from this have "validate_rows w (k + 1) (n + snd f) (map (\<lambda>i. rows (Suc i)) [0..<length fs]) = Inr (n + snd f + sum_list (map snd fs))"
    using Cons.prems(1) [of "Suc i" for i] Cons.prems(2) by (intro Cons.IH) simp_all
  ultimately show ?case unfolding step by (simp add: candidate_assert_eq_Inr add.assoc)
qed simp

lemma fits_array:
  assumes "\<And>v. v \<in> set vs \<Longrightarrow> fits h n w v" and "length vs \<le> 1000"
  shows "fits (Suc h) (1 + length vs * n) (2 + length vs * Suc w) (JArr vs)"
proof -
  have sums: "sum_list (map nodes vs) \<le> length vs * n" "sum_list (map (\<lambda>v. Suc (weight v)) vs) \<le> length vs * Suc w"
    using assms(1) sum_list_mono [of vs nodes "\<lambda>_. n"] sum_list_mono [of vs "\<lambda>v. Suc (weight v)" "\<lambda>_. Suc w"]
    by (simp_all add: fits_def sum_list_triv)
  moreover have "deepest (map height vs) \<le> Suc h" using deepest_le [of 0 "map height vs" "Suc h"] assms(1) by (auto simp: fits_def)
  ultimately show ?thesis using assms by (auto simp: fits_def list_all_iff comp_def MAX_SEQUENCE_ITEMS_def)
qed

definition row_objects :: "js_string \<Rightarrow> (js_string \<times> int) list \<Rightarrow> json list" where
  "row_objects w files = map (\<lambda>i. JObj (row_members w i (files ! i))) [0..<8]"

lemma rows_good:
  assumes files: "files_ok files" and w: "matches VERSION w" "length w \<le> 64"
  shows "fits 2 49 16010 (JArr (row_objects w files))" and "well_formed (JArr (row_objects w files))"
    and "normalise (JArr (row_objects w files)) = JArr (row_objects w files)"
    and "validate_distribution_rows (JArr (row_objects w files)) (0x76 # w) = Inr (row_objects w files)"
    and "build_distribution_rows (release_rows w files) (0x76 # w) = Inr (row_objects w files)"
proof -
  have len: "length files = 8" using files by (simp add: files_ok_def)
  have f: "matches DIGEST (fst f)" "1 \<le> snd f" "snd f \<le> MAX_DISTRIBUTION_BYTES" if "f \<in> set files" for f
    using files that by (auto simp: files_ok_def list_all_iff)
  have row: "fits 1 6 2000 (JObj (row_members w i (files ! i)))" "well_formed (JObj (row_members w i (files ! i)))"
    "normalise (JObj (row_members w i (files ! i))) = JObj (row_members w i (files ! i))"
    "validate_distribution_row w i (JObj (row_members w i (files ! i))) = Inr (snd (files ! i))" if "i < 8" for i
    by (rule row_good [OF that w f(1) f(2) f(3)]; use that len in simp)+
  have objs: "\<exists>i < 8. v = JObj (row_members w i (files ! i))" if "v \<in> set (row_objects w files)" for v
    using that by (auto simp: row_objects_def)
  have n: "length (row_objects w files) = 8" by (simp add: row_objects_def)
  have "fits (Suc 1) (1 + length (row_objects w files) * 6) (2 + length (row_objects w files) * Suc 2000) (JArr (row_objects w files))"
    by (rule fits_array) (use objs row(1) n in auto)
  then show fits: "fits 2 49 16010 (JArr (row_objects w files))" unfolding n by (simp add: numeral_2_eq_2)
  show wf: "well_formed (JArr (row_objects w files))"
    using objs row(2) by (auto simp: list_all_iff simp del: well_formed.simps(7))
  show "normalise (JArr (row_objects w files)) = JArr (row_objects w files)"
    using objs row(3) by (auto intro!: map_idI simp del: normalise.simps(7))
  have total: "sum_list (map snd files) \<le> MAX_TOTAL_BYTES" using files by (simp add: files_ok_def)
  have "validate_rows w 0 0 (map (\<lambda>i. JObj (row_members w i (files ! i))) [0..<length files]) = Inr (0 + sum_list (map snd files))"
  proof (rule rows_validate)
    show "0 + sum_list (map snd files) \<le> max_safe" using total by (simp add: MAX_TOTAL_BYTES_def max_safe_def)
    show "0 \<le> snd f" if "f \<in> set files" for f using f(2) [OF that] by simp
  qed (use row(4) len in simp_all)
  then have "validate_rows w 0 0 (row_objects w files) = Inr (sum_list (map snd files))" by (simp add: row_objects_def len)
  moreover have "fits 32 1000 65536 (JObj [(js ''distributions'', JArr (row_objects w files))])"
    "well_formed (JObj [(js ''distributions'', JArr (row_objects w files))])"
    using fits wf by (simp_all add: fits_def fits_simps)
  then obtain bs where "canonical_public_v2_bytes (JObj [(js ''distributions'', JArr (row_objects w files))]) = Inr bs"
    by (rule fits_public)
  moreover have tag: "matches TAG (0x76 # w)" unfolding TAG_VERSION using w(1) by blast
  ultimately show valid: "validate_distribution_rows (JArr (row_objects w files)) (0x76 # w) = Inr (row_objects w files)"
    using total n by (simp add: validate_distribution_rows_def candidate_assert_eq_Inr)
  have rows: "map distribution_row (release_rows w files) = row_objects w files"
    by (simp only: release_rows_members row_objects_def)
  have versions: "list_all (\<lambda>row. strict_equal (json_get row (js ''version'')) (JStr w)) (row_objects w files)"
    by (auto simp: list_all_iff json_get_def row_lookups dest!: objs)
  show "build_distribution_rows (release_rows w files) (0x76 # w) = Inr (row_objects w files)"
    using valid versions tag
    by (simp add: build_distribution_rows_def rows candidate_assert_eq_Inr Let_def) (simp add: release_rows_def)
qed

section \<open>The release\<close>

definition release_ok :: "release_source_input \<Rightarrow> baseline_source_input \<Rightarrow> bool" where
  "release_ok r l \<longleftrightarrow>
     matches SHA1_HEX (rsi_peeled_commit_sha r) \<and> matches SHA1_HEX (rsi_tag_object_sha r) \<and>
     rsi_tag_object_sha r \<noteq> rsi_peeled_commit_sha r \<and> matches TAG (rsi_tag r) \<and> length (rsi_tag r) \<le> 65 \<and>
     rsi_policy_blob_sha r = bli_policy_blob_sha l \<and> rsi_policy_sha256 r = bli_policy_sha256 l \<and>
     rsi_runtime_workflow_blob_sha r = bli_runtime_workflow_blob_sha l \<and>
     rsi_runtime_workflow_sha256 r = bli_runtime_workflow_sha256 l"

lemma release_lookups:
  "map fst (release_object r) = map js RELEASE_KEYS"
  "lookup (release_object r) (js ''peeled_commit_sha'') = JStr (rsi_peeled_commit_sha r)"
  "lookup (release_object r) (js ''policy_blob_sha'') = JStr (rsi_policy_blob_sha r)"
  "lookup (release_object r) (js ''policy_sha256'') = JStr (rsi_policy_sha256 r)"
  "lookup (release_object r) (js ''runtime_workflow_blob_sha'') = JStr (rsi_runtime_workflow_blob_sha r)"
  "lookup (release_object r) (js ''runtime_workflow_sha256'') = JStr (rsi_runtime_workflow_sha256 r)"
  "lookup (release_object r) (js ''tag'') = JStr (rsi_tag r)"
  "lookup (release_object r) (js ''tag_object_sha'') = JStr (rsi_tag_object_sha r)"
  by (simp_all add: release_object_def RELEASE_KEYS_def lookup_def)

lemma release_good:
  assumes "release_ok r l" and "baseline_source_ok l"
  shows "fits 1 8 3600 (JObj (release_object r))" and "well_formed (JObj (release_object r))"
    and "normalise (JObj (release_object r)) = JObj (release_object r)" and "validate_release (release_object r) = Inr (release_object r)"
    and "lookup a (js ''baseline_source'') = JObj (baseline_source_members l) \<Longrightarrow> validate_release_against_baseline (release_object r) a = Inr ()"
proof -
  have t: "matches SHA1_HEX (rsi_peeled_commit_sha r)" "matches SHA1_HEX (rsi_tag_object_sha r)" "matches SHA1_HEX (rsi_policy_blob_sha r)"
    "matches SHA1_HEX (rsi_runtime_workflow_blob_sha r)" "matches DIGEST (rsi_policy_sha256 r)" "matches DIGEST (rsi_runtime_workflow_sha256 r)"
    using assms by (auto simp: release_ok_def baseline_source_ok_def)
  have tag: "ascii (rsi_tag r)" "length (rsi_tag r) \<le> 65" "matches TAG (rsi_tag r)" "rsi_tag_object_sha r \<noteq> rsi_peeled_commit_sha r"
    using assms(1) by (simp_all add: release_ok_def tag_texts)
  show "fits 1 8 3600 (JObj (release_object r))"
    using t(1-4) [THEN sha1_text] t(5,6) [THEN matched_text(1)] tag(1,2) by (simp add: fits_def fits_simps release_object_def)
  show "well_formed (JObj (release_object r))" by (simp add: release_object_def)
  show "normalise (JObj (release_object r)) = JObj (release_object r)"
  proof (rule normalise_sorted)
    have "sorted (map js RELEASE_KEYS)" by code_simp
    then show "sorted (map fst (release_object r))" by (simp only: release_lookups(1))
  qed (auto simp: release_object_def)
  show "validate_release (release_object r) = Inr (release_object r)"
    using t tag(3,4) by (simp add: validate_release_def exact_same release_lookups reader_ok candidate_assert_eq_Inr)
  assume "lookup a (js ''baseline_source'') = JObj (baseline_source_members l)"
  then show "validate_release_against_baseline (release_object r) a = Inr ()"
    using assms(1) by (simp add: validate_release_against_baseline_def reader_ok release_lookups activated_lookups release_ok_def candidate_assert_eq_Inr)
qed

lemma candidate_assert_ok: "b \<Longrightarrow> candidate_assert b c = Inr ()"
  by (simp add: candidate_assert_def)

section \<open>The base of a closure\<close>

definition closure_members ::
  "members \<Rightarrow> members \<Rightarrow> js_string \<Rightarrow> json list \<Rightarrow> js_string \<Rightarrow> js_string \<Rightarrow> js_string \<Rightarrow> members \<Rightarrow> members" where
  "closure_members act action inventory rows authority candidate rid release =
     [(js ''activation'', JObj act), (js ''controller_action'', JObj action), (js ''decision'', JStr (js ''GO'')),
      (js ''distribution_inventory_id'', JStr inventory), (js ''distributions'', JArr rows),
      (js ''public_authority_id'', JStr authority), (js ''public_candidate_id'', JStr candidate),
      (js ''public_release_id'', JStr rid), (js ''release'', JObj release),
      (js ''schema'', JStr RUNTIME_CLOSURE_PUBLIC_SCHEMA), (js ''schema_version'', JI 2),
      (js ''state'', JStr (js ''CLOSED'')), (js ''status'', JStr (js ''PASS''))]"

lemma closure_lookups:
  "map fst (closure_members act action inventory rows authority candidate rid release) = map js CLOSURE_BASE_KEYS"
  "lookup (closure_members act action inventory rows authority candidate rid release) (js ''activation'') = JObj act"
  "lookup (closure_members act action inventory rows authority candidate rid release) (js ''controller_action'') = JObj action"
  "lookup (closure_members act action inventory rows authority candidate rid release) (js ''decision'') = JStr (js ''GO'')"
  "lookup (closure_members act action inventory rows authority candidate rid release) (js ''distribution_inventory_id'') = JStr inventory"
  "lookup (closure_members act action inventory rows authority candidate rid release) (js ''distributions'') = JArr rows"
  "lookup (closure_members act action inventory rows authority candidate rid release) (js ''public_authority_id'') = JStr authority"
  "lookup (closure_members act action inventory rows authority candidate rid release) (js ''public_candidate_id'') = JStr candidate"
  "lookup (closure_members act action inventory rows authority candidate rid release) (js ''public_release_id'') = JStr rid"
  "lookup (closure_members act action inventory rows authority candidate rid release) (js ''release'') = JObj release"
  "lookup (closure_members act action inventory rows authority candidate rid release) (js ''schema'') = JStr RUNTIME_CLOSURE_PUBLIC_SCHEMA"
  "lookup (closure_members act action inventory rows authority candidate rid release) (js ''schema_version'') = JI 2"
  "lookup (closure_members act action inventory rows authority candidate rid release) (js ''state'') = JStr (js ''CLOSED'')"
  "lookup (closure_members act action inventory rows authority candidate rid release) (js ''status'') = JStr (js ''PASS'')"
  by (simp_all add: closure_members_def CLOSURE_BASE_KEYS_def lookup_def)

text \<open>The four identifiers a closure derives.\<close>

definition closure_ids_ok ::
  "hash \<Rightarrow> js_string \<Rightarrow> release_source_input \<Rightarrow> json list \<Rightarrow> js_string \<Rightarrow> js_string \<Rightarrow> js_string \<Rightarrow> js_string \<Rightarrow> bool" where
  "closure_ids_ok sha i r rows rid inventory authority candidate \<longleftrightarrow>
     public_release_id sha (rsi_tag r) = Inr rid \<and> public_v2_id sha INVENTORY_DOMAIN (inventory_payload rows) = Inr inventory \<and>
     public_v2_id sha AUTHORITY_DOMAIN (authority_payload i (JStr (rsi_peeled_commit_sha r)) (JStr (rsi_policy_sha256 r)) rid
       (JStr (rsi_tag_object_sha r))) = Inr authority \<and>
     public_v2_id sha CANDIDATE_DOMAIN (candidate_payload inventory authority) = Inr candidate"

lemma closure_base_valid:
  assumes rows: "validate_distribution_rows (JArr rows) (rsi_tag r) = Inr rows"
    and release: "validate_release (release_object r) = Inr (release_object r)" "validate_release_against_baseline (release_object r) a = Inr ()"
    and binding: "activation_binding sha decimal (JObj p) (JObj a) = Inr binding" "public_activation_id sha decimal (JObj p) (JObj a) = Inr i"
    and act: "json_equal (JObj act) (JObj (binding @ [(js ''activation_id'', JStr i)]))"
    and action: "controller_action decimal p = Inr (JObj action)" "json_equal (JObj action) (JObj action)"
    and ids: "closure_ids_ok sha i r rows rid inventory authority candidate"
    and bytes: "canonical_public_v2_bytes (JObj (closure_members act action inventory rows authority candidate rid (release_object r))) = Inr bs"
  shows "validate_closure_base sha decimal
     (JObj (closure_members act action inventory rows authority candidate rid (release_object r))) p a = Inr ()"
proof -
  have ids': "validate_closure_ids sha (closure_members act action inventory rows authority candidate rid (release_object r)) (release_object r) rows i = Inr ()"
    using ids unfolding validate_closure_ids_def closure_ids_ok_def
    by (simp add: reader_ok release_lookups closure_lookups or_json_null_def candidate_assert_ok)
  show ?thesis unfolding validate_closure_base_def
    by (simp add: exact_same closure_lookups reader_ok release_lookups rows release binding act action bytes ids' candidate_assert_ok)
qed

lemma closure_domains:
  "matches PUBLIC_DOMAIN PUBLIC_RELEASE_ID_DOMAIN" "0 \<notin> set PUBLIC_RELEASE_ID_DOMAIN" "matches PUBLIC_DOMAIN INVENTORY_DOMAIN"
  "0 \<notin> set INVENTORY_DOMAIN" "matches PUBLIC_DOMAIN AUTHORITY_DOMAIN" "0 \<notin> set AUTHORITY_DOMAIN" "matches PUBLIC_DOMAIN CANDIDATE_DOMAIN"
  "0 \<notin> set CANDIDATE_DOMAIN" "matches PUBLIC_DOMAIN CLOSURE_DOMAIN" "0 \<notin> set CLOSURE_DOMAIN"
  by (simp_all add: PUBLIC_DOMAIN_def PUBLIC_RELEASE_ID_DOMAIN_def INVENTORY_DOMAIN_def AUTHORITY_DOMAIN_def CANDIDATE_DOMAIN_def
      CLOSURE_DOMAIN_def matches_Rep_Cls js_def)

lemma closure_ids_exist:
  assumes release: "release_ok r l" "baseline_source_ok l" and i: "matches DIGEST i" and sha: "\<And>x. length (sha x) = 32"
    and rows: "fits 2 49 16010 (JArr rows)" "well_formed (JArr rows)"
  obtains rid inventory authority candidate where "closure_ids_ok sha i r rows rid inventory authority candidate"
    "list_all (matches DIGEST) [rid, inventory, authority, candidate]"
proof -
  have t: "matches SHA1_HEX (rsi_peeled_commit_sha r)" "matches SHA1_HEX (rsi_tag_object_sha r)" "matches DIGEST (rsi_policy_sha256 r)"
    "matches TAG (rsi_tag r)" "length (rsi_tag r) \<le> 65" "ascii (rsi_tag r)"
    using release by (auto simp: release_ok_def baseline_source_ok_def tag_texts)
  have "fits 31 990 60000 (JObj [(js ''projects'', JArr (map JStr PUBLIC_PROJECTS)), (js ''release'', JStr (rsi_tag r))])"
    "well_formed (JObj [(js ''projects'', JArr (map JStr PUBLIC_PROJECTS)), (js ''release'', JStr (rsi_tag r))])"
    using t(5,6) by (simp_all add: fits_def fits_simps PUBLIC_PROJECTS_def MAX_SEQUENCE_ITEMS_def)
  then obtain rid where "public_v2_id sha PUBLIC_RELEASE_ID_DOMAIN
      (JObj [(js ''projects'', JArr (map JStr PUBLIC_PROJECTS)), (js ''release'', JStr (rsi_tag r))]) = Inr rid"
    using public_id_exists [OF _ _ closure_domains(1,2)] by metis
  then have rid: "public_release_id sha (rsi_tag r) = Inr rid" "matches DIGEST rid"
    using t(4) public_id_DIGEST [OF _ sha] by (simp_all add: public_release_id_def candidate_assert_ok)
  have "fits 31 990 60000 (inventory_payload rows)" "well_formed (inventory_payload rows)"
    using rows by (simp_all add: inventory_payload_def fits_def fits_simps)
  then obtain inventory where inventory: "public_v2_id sha INVENTORY_DOMAIN (inventory_payload rows) = Inr inventory"
    using public_id_exists [OF _ _ closure_domains(3,4)] by metis
  note di = public_id_DIGEST [OF inventory sha]
  let ?payload = "authority_payload i (JStr (rsi_peeled_commit_sha r)) (JStr (rsi_policy_sha256 r)) rid (JStr (rsi_tag_object_sha r))"
  have "fits 31 990 60000 ?payload" "well_formed ?payload"
    using sha1_text [OF t(1)] sha1_text [OF t(2)] matched_text(1) [OF t(3)] matched_text(1) [OF i] matched_text(1) [OF rid(2)]
    by (simp_all add: authority_payload_def fits_def fits_simps)
  then obtain authority where authority: "public_v2_id sha AUTHORITY_DOMAIN ?payload = Inr authority"
    using public_id_exists [OF _ _ closure_domains(5,6)] by metis
  note da = public_id_DIGEST [OF authority sha]
  have "fits 31 990 60000 (candidate_payload inventory authority)" "well_formed (candidate_payload inventory authority)"
    using matched_text(1) [OF di] matched_text(1) [OF da] by (simp_all add: candidate_payload_def fits_def fits_simps)
  then obtain candidate where candidate: "public_v2_id sha CANDIDATE_DOMAIN (candidate_payload inventory authority) = Inr candidate"
    using public_id_exists [OF _ _ closure_domains(7,8)] by metis
  show thesis
    by (rule that [of rid inventory authority candidate])
      (use rid inventory authority candidate di da public_id_DIGEST [OF candidate sha] in \<open>simp_all add: closure_ids_ok_def\<close>)
qed

lemma closure_fits:
  assumes "fits 1 6 3200 (JObj act)" and "fits 1 4 1500 (JObj action)" and "fits 2 49 16010 (JArr rows)" and "fits 1 8 3600 (JObj release)"
    and "list_all (matches DIGEST) [rid, inventory, authority, candidate]"
  shows "fits 5 100 30000 (JObj (closure_members act action inventory rows authority candidate rid release))"
proof -
  have "fits 5 100 30000 (JObj [(js ''activation'', v1), (js ''controller_action'', v2), (js ''decision'', JStr (js ''GO'')),
      (js ''distribution_inventory_id'', JStr inventory), (js ''distributions'', v3),
      (js ''public_authority_id'', JStr authority), (js ''public_candidate_id'', JStr candidate),
      (js ''public_release_id'', JStr rid), (js ''release'', v4),
      (js ''schema'', JStr RUNTIME_CLOSURE_PUBLIC_SCHEMA), (js ''schema_version'', JI 2),
      (js ''state'', JStr (js ''CLOSED'')), (js ''status'', JStr (js ''PASS''))])"
    if "fits 1 6 3200 v1" "fits 1 4 1500 v2" "fits 2 49 16010 v3" "fits 1 8 3600 v4" for v1 v2 v3 v4
    using that assms(5) by (auto simp: fits_def fits_simps RUNTIME_CLOSURE_PUBLIC_SCHEMA_def dest!: matched_text(1))
  from this [OF assms(1-4)] show ?thesis unfolding closure_members_def .
qed

lemma closure_well_formed:
  assumes "well_formed (JObj act)" and "well_formed (JObj action)" and "well_formed (JArr rows)" and "well_formed (JObj release)"
  shows "well_formed (JObj (closure_members act action inventory rows authority candidate rid release))"
proof -
  have "distinct CLOSURE_BASE_KEYS" by code_simp
  then have "distinct (map fst (closure_members act action inventory rows authority candidate rid release))"
    unfolding closure_lookups(1) by (simp add: distinct_map inj_on_def)
  moreover have "\<forall>(k, v) \<in> set (closure_members act action inventory rows authority candidate rid release). well_formed v"
    unfolding closure_members_def using assms by (simp add: JI_def del: well_formed.simps(6,7))
  ultimately show ?thesis by (auto simp: list_all_iff)
qed

section \<open>Building a closure succeeds\<close>

lemma binding_good:
  assumes pair: "pair_ok sha decimal p a" and i: "matches DIGEST i" and sha: "\<And>x. length (sha x) = 32"
  defines "act \<equiv> binding_of sha p a @ [(js ''activation_id'', JStr i)]"
  obtains act' where "fits 1 6 3200 (JObj act)" "well_formed (JObj act)" "normalise (JObj act) = JObj act'"
    "fits 1 6 3200 (JObj act')" "json_equal (JObj act) (JObj act)" "json_equal (JObj act') (JObj act)"
proof -
  have dig: "matches DIGEST (sha256_tag sha x)" for x by (rule sha256_tag_DIGEST) (rule sha)
  obtain pi where pi: "lookup p (js ''record_id'') = JStr pi" "matches DIGEST pi"
    using pair by (auto simp: pair_ok_def elim: provisioned_checks_facts)
  obtain ai where ai: "lookup a (js ''record_id'') = JStr ai" "matches DIGEST ai"
    using pair by (auto simp: pair_ok_def elim: activated_checks_id)
  have f: "fits 1 6 3200 (JObj act)" and wf: "well_formed (JObj act)"
    using matched_text(1) [OF dig] matched_text(1) [OF pi(2)] matched_text(1) [OF ai(2)] matched_text(1) [OF i]
    by (simp_all add: fits_def fits_simps act_def binding_of_def pi ai)
  obtain act' where n: "normalise (JObj act) = JObj act'" "well_formed (JObj act')" using normal_members [OF wf] by metis
  have f': "fits 1 6 3200 (JObj act')"
    using f fits_normalise [of "JObj act'" "JObj act"] n(1) normalise_idem [of "JObj act"] by (simp del: normalise.simps)
  have e: "encodable (JObj act)" "encodable (JObj act')"
    using f f' by (simp_all only: fits_def plain_encodable)
  have "json_equal (JObj act) (JObj act)" by (simp add: json_equal_iff [OF e(1,1) wf wf])
  moreover have "json_equal (JObj act') (JObj act)"
    using json_equal_iff [OF e(2,1) n(2) wf] n(1) normalise_idem [of "JObj act"] by simp
  ultimately show thesis using that f wf n(1) f' by blast
qed

lemma action_good:
  assumes sources: "provisioned_sources_ok b c" and p: "lookup p (js ''controller_source'') = JObj (controller_source_members c)"
  defines "action \<equiv> action_bundle_members (csi_action_bundle c)"
  shows "fits 1 4 1500 (JObj action)" and "well_formed (JObj action)" and "controller_action decimal p = Inr (JObj action)"
    and "json_equal (JObj action) (JObj action)"
proof -
  have t: "matches DIGEST (abi_bundle_sha256 (csi_action_bundle c))" "matches SHA1_HEX (abi_commit_sha (csi_action_bundle c))"
    "matches SHA1_HEX (abi_metadata_blob_sha (csi_action_bundle c))"
    using sources by (simp_all add: provisioned_sources_ok_def)
  show f: "fits 1 4 1500 (JObj action)" and wf: "well_formed (JObj action)"
    using matched_text(1) [OF t(1)] sha1_text [OF t(2)] sha1_text [OF t(3)]
    by (simp_all add: fits_def fits_simps action_def action_bundle_members_def)
  have "fits 32 1000 65536 (JObj action)" by (rule fits_mono [OF f]) simp_all
  then obtain bs where "canonical_public_v2_bytes (JObj action) = Inr bs" using fits_public [OF _ wf] by blast
  then have "settled action" using wf provisioned_normal(2) by (simp add: settled_def action_def del: normalise.simps well_formed.simps)
  then have "canonical_public_v2_snapshot decimal (JObj action) = Inr (JObj action)" using settled_snapshot by blast
  then show "controller_action decimal p = Inr (JObj action)"
    by (simp add: controller_action_def reader_ok p provisioned_lookups action_def)
  have e: "encodable (JObj action)" using f by (simp only: fits_def plain_encodable)
  show "json_equal (JObj action) (JObj action)" by (simp add: json_equal_iff [OF e e wf wf])
qed

lemma closure_undef: "JUndef \<notin> set (map snd (closure_members act action inventory rows authority candidate rid release))"
  by (simp add: closure_members_def JI_def)

lemma closure_normalise:
  assumes "normalise (JObj act) = JObj act'" and "normalise (JObj action) = JObj action" and "normalise (JArr rows) = JArr rows"
    and "normalise (JObj release) = JObj release"
  shows "map (map_prod id normalise) (closure_members act action inventory rows authority candidate rid release) =
     closure_members act' action inventory rows authority candidate rid release"
  using assms by (simp add: closure_members_def JI_def del: normalise.simps(6,7))

lemma closure_fresh:
  "js ''private_sidecar_commitment'' \<notin> set (map fst (closure_members act action inventory rows authority candidate rid release))"
  "js (terminal_id RUNTIME_CLOSURE) \<notin> set (map fst (closure_members act action inventory rows authority candidate rid release))"
  unfolding closure_lookups(1) by (simp_all add: CLOSURE_BASE_KEYS_def)

lemma CLOSURE_KEYS_distinct: "distinct CLOSURE_KEYS" by code_simp

lemma parse_closure_settled:
  assumes pair: "parse_canonical_activation_pair sha decimal ab pb = Inr \<lparr>ap_activated = a, ap_provisioned = p\<rparr>"
    and r: "settled r" "canonical_public_v2_bytes (JObj r) = Inr bs" "set (map fst r) = js ` set CLOSURE_KEYS"
    and base: "\<And>code. project_object r CLOSURE_BASE_KEYS code = Inr base" "validate_closure_base sha decimal (JObj base) p a = Inr ()"
    and texts: "lookup r (js ''private_sidecar_commitment'') = JStr x" "matches DIGEST x" "lookup r (js ''closure_id'') = JStr j" "matches DIGEST j"
    and j: "public_v2_id sha CLOSURE_DOMAIN (JObj (without_closure_id r)) = Inr j"
  shows "parse_canonical_runtime_closure sha decimal ab bs pb = Inr r"
proof -
  note ok = parsed_pair_ok [OF pair]
  have ss: "settled p" "settled a" using ok(1) by (simp_all add: pair_ok_def)
  have snap: "canonical_public_v2_snapshot decimal (JObj p) = Inr (JObj p)" "canonical_public_v2_snapshot decimal (JObj a) = Inr (JObj a)"
    "canonical_public_v2_snapshot decimal (JObj r) = Inr (JObj r)"
    using settled_snapshot [OF ss(1)] settled_snapshot [OF ss(2)] settled_snapshot [OF r(1)] by blast+
  have parse: "parse_untrusted_provisioned sha decimal (JObj p) = Inr p"
    "parse_untrusted_activated sha decimal (JObj a) (Some (JObj p)) = Inr a"
    using ok(1,3,5) unfolding parse_provisioned_iff [OF ok(2)] parse_activated_iff [OF ok(4)] pair_ok_def by blast+
  have exact: "exact_members (JObj r) CLOSURE_KEYS code = Inr r" for code by (rule exact_settled [OF r(1) CLOSURE_KEYS_distinct r(3)])
  have untrusted: "parse_untrusted_runtime_closure sha decimal (JObj r) (JObj p) (JObj a) = Inr r"
    by (simp add: parse_untrusted_runtime_closure_def snap exact parse base texts reader_ok j r(2) candidate_assert_ok)
  obtain pc ac where "copy_public_v2_bytes pb ''PUBLIC_V2_RAW_SIZE_INVALID'' = Inr pc" "copy_public_v2_bytes ab ''PUBLIC_V2_RAW_SIZE_INVALID'' = Inr ac"
    using pair by (auto simp: parse_canonical_activation_pair_def bind_r_eq_Inr)
  then have "copy_public_v2_bytes pb ''PUBLIC_V2_RAW_SIZE_INVALID'' = Inr pb" "copy_public_v2_bytes ab ''PUBLIC_V2_RAW_SIZE_INVALID'' = Inr ab"
    by (simp_all add: copy_public_v2_bytes_eq_Inr)
  then show ?thesis
    by (simp add: parse_canonical_runtime_closure_def settled_parses [OF r(1,2)] pair untrusted)
qed

lemma closure_candidate_built:
  assumes pair: "parse_canonical_activation_pair sha decimal abytes pbytes = Inr \<lparr>ap_activated = a, ap_provisioned = p\<rparr>"
    and sources: "provisioned_sources_ok b c" "lookup p (js ''controller_source'') = JObj (controller_source_members c)"
      "baseline_source_ok l" "lookup a (js ''baseline_source'') = JObj (baseline_source_members l)"
    and release: "release_ok r l" "rsi_tag r = 0x76 # w" "files_ok files"
    and nonce: "nonce_ok nonce" and payload: "private_payload_ok RUNTIME_CLOSURE payload" and sha: "\<And>x. length (sha x) = 32"
  obtains d m where "build_runtime_closure_candidate sha decimal (release_rows w files) nonce payload (JObj p) (JObj a) r = Inr d"
    "dc_document d = JObj m" "parse_canonical_runtime_closure sha decimal abytes (dc_document_bytes d) pbytes = Inr m"
    "fits 5 102 31500 (JObj m)"
proof -
  note ok = parsed_pair_ok [OF pair]
  have bytes: "canonical_public_v2_bytes (JObj p) = Inr pbytes" "canonical_public_v2_bytes (JObj a) = Inr abytes"
    using pair by (simp_all add: parse_pair_iff parse_canonical_provisioned_iff)
  obtain i where i: "public_activation_id sha decimal (JObj p) (JObj a) = Inr i" "matches DIGEST i"
    by (rule activation_id_exists [OF ok(1) sha])
  let ?act = "binding_of sha p a @ [(js ''activation_id'', JStr i)]"
  obtain act' where act: "fits 1 6 3200 (JObj ?act)" "well_formed (JObj ?act)" "normalise (JObj ?act) = JObj act'"
    "fits 1 6 3200 (JObj act')" "json_equal (JObj ?act) (JObj ?act)" "json_equal (JObj act') (JObj ?act)"
    by (rule binding_good [OF ok(1) i(2) sha])
  let ?action = "action_bundle_members (csi_action_bundle c)"
  note action = action_good [OF sources(1,2)]
  have w: "matches VERSION w" "length w \<le> 64" using release(1,2) by (auto simp: release_ok_def TAG_VERSION simp del: matches.simps)
  note rows = rows_good [OF release(3) w, folded release(2)] and rel = release_good [OF release(1) sources(3)]
  let ?rows = "row_objects w files"
  obtain rid inventory authority candidate where ids: "closure_ids_ok sha i r ?rows rid inventory authority candidate"
    "list_all (matches DIGEST) [rid, inventory, authority, candidate]"
    by (rule closure_ids_exist [OF release(1) sources(3) i(2) sha rows(1,2)])
  let ?base = "closure_members ?act ?action inventory ?rows authority candidate rid (release_object r)"
  let ?norm = "closure_members act' ?action inventory ?rows authority candidate rid (release_object r)"
  have fits: "fits 5 100 30000 (JObj ?base)" by (rule closure_fits [OF act(1) action(1) rows(1) rel(1) ids(2)])
  have fits': "fits 5 100 30000 (JObj ?norm)" by (rule closure_fits [OF act(4) action(1) rows(1) rel(1) ids(2)])
  have wfn: "well_formed (JObj act')" using act(2,3) normalise_well_formed by metis
  note wf = closure_well_formed [OF act(2) action(2) rows(2) rel(2), of inventory authority candidate rid]
  note wf' = closure_well_formed [OF wfn action(2) rows(2) rel(2), of inventory authority candidate rid]
  have small: "fits 20 800 40000 (JObj ?base)" "fits 32 1000 65536 (JObj ?base)" "fits 32 1000 65536 (JObj ?norm)"
    by (rule fits_mono [OF fits] fits_mono [OF fits']; simp)+
  obtain bb where bb: "canonical_public_v2_bytes (JObj ?base) = Inr bb" by (rule fits_public [OF small(2) wf])
  obtain bn where bn: "canonical_public_v2_bytes (JObj ?norm) = Inr bn" by (rule fits_public [OF small(3) wf'])
  note valid = closure_base_valid [OF rows(4) rel(4,5) ok(6) i(1) _ action(3,4) ids(1), OF sources(4)]
  have same: "map (map_prod id normalise) ?base = ?norm"
    by (rule closure_normalise [OF act(3) provisioned_normal(2) rows(3) rel(3)])
  obtain pb where pb: "canonical_public_v2_bytes payload = Inr pb" using payload by (auto simp: private_payload_ok_def)
  obtain s j bs m where m: "build_sidecar_opening sha decimal RUNTIME_CLOSURE nonce pb (JObj ?base) = Inr s"
    "matches DIGEST (so_commitment s)" "public_v2_id sha CLOSURE_DOMAIN (JObj (committed ?base (so_commitment s))) = Inr j"
    "matches DIGEST j" "canonical_public_v2_bytes (JObj (sealed_members ?base (so_commitment s) RUNTIME_CLOSURE j)) = Inr bs"
    "settled m" "canonical_public_v2_bytes (JObj m) = Inr bs"
    "set (map fst m) = insert (js ''private_sidecar_commitment'') (insert (js (terminal_id RUNTIME_CLOSURE)) (js ` set CLOSURE_BASE_KEYS))"
    "lookup m (js ''private_sidecar_commitment'') = JStr (so_commitment s)" "lookup m (js (terminal_id RUNTIME_CLOSURE)) = JStr j"
    "\<And>code. project_object m CLOSURE_BASE_KEYS code = Inr (map (map_prod id normalise) ?base)"
    "public_v2_id sha CLOSURE_DOMAIN (JObj (filter (\<lambda>(k, _). k \<noteq> js (terminal_id RUNTIME_CLOSURE)) m)) = Inr j"
    "\<And>h n w. fits h n w (JObj ?base) \<Longrightarrow> 1 \<le> h \<Longrightarrow> n \<le> 800 \<Longrightarrow> fits h (n + 2) (w + 1500) (JObj m)"
    by (rule seal_succeeds [where decimal = decimal, OF nonce payload pb small(1) wf closure_lookups(1) closure_undef closure_fresh
          closure_domains(9,10) sha]) (rule that, assumption+)
  have keys: "set (map fst m) = js ` set CLOSURE_KEYS" unfolding m(8) by (auto simp: CLOSURE_KEYS_def)
  have parsed: "parse_canonical_runtime_closure sha decimal abytes bs pbytes = Inr m"
    by (rule parse_closure_settled [OF pair m(6,7) keys m(11) [unfolded same] valid [OF act(6) bn] m(9,2) _ m(4)])
      (use m(10,12) in \<open>simp_all add: without_closure_id_def sealed_fields\<close>)
  have built: "build_closure_base sha decimal p a r ?rows = Inr ?base"
    using ids(1) valid [OF act(5) bb]
    by (simp add: build_closure_base_def ok(6) i(1) action(3) closure_ids_ok_def Let_def closure_members_def)
  have n: "copy_private_nonce nonce = Inr nonce" using nonce by (simp add: nonce_ok_def copy_private_nonce_eq_Inr)
  have len: "length (release_rows w files) = 8" by (simp add: release_rows_def)
  have "build_runtime_closure_candidate sha decimal (release_rows w files) nonce payload (JObj p) (JObj a) r = Inr (with_document s (JObj m) bs)"
    unfolding build_runtime_closure_candidate_def
    using n pb bytes pair rows(5) built m(1,3,5) parsed
    by (simp add: len candidate_assert_ok Let_def sealed_fields)
  moreover have "fits 5 102 31500 (JObj m)" using m(13) [OF fits] by simp
  ultimately show thesis using that parsed by (metis with_document_fields(4,5))
qed

section \<open>Archives\<close>

lemma archive_built:
  assumes pair: "parse_canonical_activation_pair sha decimal ab pb = Inr \<lparr>ap_activated = a, ap_provisioned = p\<rparr>"
    and closure: "parse_canonical_runtime_closure sha decimal ab cb pb = Inr c"
    and fit: "fits 4 62 13500 (JObj p)" "fits 4 62 9500 (JObj a)" "fits 5 102 31500 (JObj c)"
  obtains arc where
    "build_untrusted_public_archive sha decimal \<lparr>pa_activated = ab, pa_closure = cb, pa_provisioned = pb\<rparr> = Inr arc"
    "parse_untrusted_public_archive sha decimal (ua_archive_bytes arc) = Inr arc"
    "ua_provisioned arc = p" "ua_activated arc = a" "ua_closure arc = c" "ua_archive_sha256 arc = sha256_tag sha (ua_archive_bytes arc)"
proof -
  let ?i = "\<lparr>pa_activated = ab, pa_closure = cb, pa_provisioned = pb\<rparr>"
  have bytes: "canonical_public_v2_bytes (JObj p) = Inr pb" "canonical_public_v2_bytes (JObj a) = Inr ab"
    using pair by (simp_all add: parse_pair_iff parse_canonical_provisioned_iff)
  have cbytes: "canonical_public_v2_bytes (JObj c) = Inr cb" by (rule closure_parsed [OF closure])
  have len: "length pb \<le> 13500" "length ab \<le> 9500" "length cb \<le> 31500"
    using public_weight [OF bytes(1)] public_weight [OF bytes(2)] public_weight [OF cbytes] fit unfolding fits_def by linarith+
  have pos: "1 \<le> length pb" "1 \<le> length ab" "1 \<le> length cb"
    using bytes cbytes by (auto dest: canonical_public_nonempty)
  have snap: "snapshot_members ?i = Inr ?i" using len pos by (simp add: snapshot_members_fits)
  have parsed: "parse_archive_members sha decimal ?i = Inr \<lparr>ua_activated = a, ua_activated_bytes = ab, ua_closure = c,
      ua_closure_bytes = cb, ua_provisioned = p, ua_provisioned_bytes = pb\<rparr>"
    by (simp add: parse_archive_members_def snap pair closure)
  have ok: "archive_ok ?i" using len pos by (simp add: archive_ok_def PUBLIC_V2_MAX_BYTES_def)
  let ?zip = "archive_bytes ?i"
  have zip: "build_public_zip ?i = Inr ?zip" "parse_public_zip ?zip = Inr ?i"
    using ok by (simp_all add: build_public_zip_iff parse_public_zip_iff)
  have size: "1 \<le> length ?zip" "length ?zip \<le> PUBLIC_V2_MAX_BYTES" using ok by (simp_all add: part_lengths(3) archive_ok_def)
  let ?arc = "parsed_members.extend \<lparr>ua_activated = a, ua_activated_bytes = ab, ua_closure = c, ua_closure_bytes = cb,
      ua_provisioned = p, ua_provisioned_bytes = pb\<rparr> \<lparr>ua_archive_bytes = ?zip, ua_archive_sha256 = sha256_tag sha ?zip\<rparr>"
  have "with_archive sha \<lparr>ua_activated = a, ua_activated_bytes = ab, ua_closure = c, ua_closure_bytes = cb, ua_provisioned = p,
      ua_provisioned_bytes = pb\<rparr> ?zip = Inr ?arc" using size by (simp add: with_archive_eq_Inr)
  then have "build_untrusted_public_archive sha decimal ?i = Inr ?arc" "parse_untrusted_public_archive sha decimal ?zip = Inr ?arc"
    using size by (simp_all add: build_untrusted_public_archive_def parse_untrusted_public_archive_def snap parsed zip copy_ok)
  then show thesis by (intro that [of ?arc]) (simp_all add: parsed_members.defs)
qed

lemma pair_link:
  assumes "pair_ok sha decimal p a"
  shows "lookup a (js ''previous'') = lookup p (js ''record_id'')"
    and "lookup a (js ''provisioned_record_sha256'') = JStr (sha256_tag sha (public_bytes (JObj p)))"
proof -
  have ss: "settled p" using assms by (simp add: pair_ok_def)
  have chk: "activated_checks sha decimal (JObj a) (Some (JObj p)) = Inr a" using assms by (simp add: pair_ok_def)
  obtain q u where q: "canonical_public_v2_snapshot decimal (JObj p) = Inr q"
    "check_provisioned_link sha decimal a (Some q) = Inr u"
    using chk unfolding activated_checks_def option.case
    by (elim bind_r_InrE) (simp only: exact_members_eq_Inr json.inject sum.inject)
  have "q = JObj p" using q(1) settled_snapshot [OF ss] by blast
  moreover have "parse_untrusted_provisioned sha decimal (JObj p) = Inr p"
    using assms parse_provisioned_iff [of "JObj p"] by (simp add: pair_ok_def settled_def del: normalise.simps well_formed.simps)
  ultimately have c: "strict_equal (lookup a (js ''previous'')) (lookup p (js ''record_id''))"
    "lookup a (js ''provisioned_record_sha256'') = JStr (sha256_tag sha (public_bytes (JObj p)))"
    using q(2) settled_bytes [OF ss] by (auto simp: check_provisioned_link_def bind_r_eq_Inr candidate_assert_eq_Inr raw_digest_iff)
  obtain pi where "lookup p (js ''record_id'') = JStr pi" using assms by (auto simp: pair_ok_def elim: provisioned_checks_facts)
  with c show "lookup a (js ''previous'') = lookup p (js ''record_id'')"
    "lookup a (js ''provisioned_record_sha256'') = JStr (sha256_tag sha (public_bytes (JObj p)))" by simp_all
qed

text \<open>C38: The documents of an archive are linked: A1 names A0 by its identifier and by the digest of its file, the
  closure names the activation by the identifier of the pair and by the digests of both files, and the release of
  the closure has the policy and the runtime workflow of the baseline that A1 was activated on.\<close>

theorem archived_documents_are_linked:
  assumes "parse_untrusted_public_archive sha decimal bs = Inr arc"
  shows "lookup (ua_activated arc) (js ''previous'') = lookup (ua_provisioned arc) (js ''record_id'') \<and>
     lookup (ua_activated arc) (js ''provisioned_record_sha256'') = JStr (sha256_tag sha (ua_provisioned_bytes arc)) \<and>
     (\<exists>i activation. public_activation_id sha decimal (JObj (ua_provisioned arc)) (JObj (ua_activated arc)) = Inr i \<and>
        lookup (ua_closure arc) (js ''activation'') = JObj activation \<and>
        lookup activation (js ''activation_id'') = JStr i \<and>
        lookup activation (js ''provisioned_record_sha256'') = JStr (sha256_tag sha (ua_provisioned_bytes arc)) \<and>
        lookup activation (js ''activated_record_sha256'') = JStr (sha256_tag sha (ua_activated_bytes arc))) \<and>
     (\<exists>release baseline. lookup (ua_closure arc) (js ''release'') = JObj release \<and>
        lookup (ua_activated arc) (js ''baseline_source'') = JObj baseline \<and>
        list_all (\<lambda>k. lookup release (js k) = lookup baseline (js k))
          [''policy_blob_sha'', ''policy_sha256'', ''runtime_workflow_blob_sha'', ''runtime_workflow_sha256''])"
proof -
  obtain m q zs where "parse_archive_members sha decimal m = Inr q"
    "arc = parsed_members.extend q \<lparr>ua_archive_bytes = zs, ua_archive_sha256 = sha256_tag sha zs\<rparr>"
    using assms by (auto simp: parse_untrusted_public_archive_def with_archive_eq_Inr bind_r_eq_Inr)
  then have "parse_canonical_runtime_closure sha decimal (ua_activated_bytes arc) (ua_closure_bytes arc) (ua_provisioned_bytes arc) =
      Inr (ua_closure arc)"
    and pair: "parse_canonical_activation_pair sha decimal (ua_activated_bytes arc) (ua_provisioned_bytes arc) =
      Inr \<lparr>ap_activated = ua_activated arc, ap_provisioned = ua_provisioned arc\<rparr>"
    by (auto simp: parse_archive_members_def bind_r_eq_Inr parsed_members.defs)
  then obtain p a base where c: "parse_canonical_activation_pair sha decimal (ua_activated_bytes arc) (ua_provisioned_bytes arc) =
      Inr \<lparr>ap_activated = a, ap_provisioned = p\<rparr>" "settled (ua_closure arc)" "validate_closure_base sha decimal (JObj base) p a = Inr ()"
    "\<And>k. k \<in> set CLOSURE_BASE_KEYS \<Longrightarrow> lookup base (js k) = lookup (ua_closure arc) (js k)"
    using closure_parsed by metis
  have pa: "p = ua_provisioned arc" "a = ua_activated arc" using c(1) pair by simp_all
  have files: "canonical_public_v2_bytes (JObj p) = Inr (ua_provisioned_bytes arc)" "canonical_public_v2_bytes (JObj a) = Inr (ua_activated_bytes arc)"
    using c(1) by (simp_all add: parse_pair_iff parse_canonical_provisioned_iff)
  then have pb: "public_bytes (JObj p) = ua_provisioned_bytes arc" "public_bytes (JObj a) = ua_activated_bytes arc"
    by (simp_all add: public_bytes_def)
  note ok = parsed_pair_ok [OF c(1)]
  obtain release binding i activation baseline where b: "lookup base (js ''release'') = JObj release"
    "lookup base (js ''activation'') = JObj activation" "activation_binding sha decimal (JObj p) (JObj a) = Inr binding"
    "public_activation_id sha decimal (JObj p) (JObj a) = Inr i"
    "json_equal (JObj activation) (JObj (binding @ [(js ''activation_id'', JStr i)]))" "lookup a (js ''baseline_source'') = JObj baseline"
    "\<And>k. k \<in> {''policy_blob_sha'', ''policy_sha256'', ''runtime_workflow_blob_sha'', ''runtime_workflow_sha256''} \<Longrightarrow>
       lookup release (js k) = lookup baseline (js k)"
    by (rule closure_base_facts [OF c(3)]) (rule that, assumption+)
  have cl: "lookup (ua_closure arc) (js ''release'') = JObj release" "lookup (ua_closure arc) (js ''activation'') = JObj activation"
    using c(4) [of "''release''"] c(4) [of "''activation''"] b(1,2) by (simp_all add: CLOSURE_BASE_KEYS_def)
  let ?want = "binding_of sha p a @ [(js ''activation_id'', JStr i)]"
  have "binding = binding_of sha p a" using b(3) ok(6) by simp
  then have eq: "json_equal (JObj activation) (JObj ?want)" using b(5) by simp
  have wf: "well_formed (JObj activation)"
    using c(2) cl(2) well_formed_lookup [of "ua_closure arc" "js ''activation''"] by (simp only: settled_def)
  then have dd: "distinct (map fst activation)" "distinct (map fst ?want)" by (simp_all add: binding_of_def)
  have "lookup activation (js ''activation_id'') = JStr i"
    "lookup activation (js ''provisioned_record_sha256'') = JStr (sha256_tag sha (ua_provisioned_bytes arc))"
    "lookup activation (js ''activated_record_sha256'') = JStr (sha256_tag sha (ua_activated_bytes arc))"
    by (rule json_equal_members [OF eq dd]; simp add: binding_of_def lookup_def pb)+
  then show ?thesis using pair_link [OF ok(1)] b(4,6,7) cl unfolding pb by (simp add: pa [symmetric])
qed

text \<open>C39: From valid sources, a release whose policy and workflow are those of the baseline (a tag reference of at
  most 256 and a release tag of at most 65 characters, which keeps the documents and the file names surely within the
  public bounds; the code has no such limits of its own), its eight files, private
  bytes and payloads, A0, A1, the closure and the archive of the three are all built, and the bytes of the
  archive read back as it.\<close>

theorem valid_releases_are_archived:
  assumes sources: "provisioned_sources_ok b c" "baseline_source_ok l" "release_ok r l" "files_ok files"
    and nonces: "nonce_ok n0" "nonce_ok n1" "nonce_ok n2"
    and payloads: "private_payload_ok ACTIVATION_A0 p0" "private_payload_ok ACTIVATION_A1 p1" "private_payload_ok RUNTIME_CLOSURE p2"
    and sha: "\<And>x. length (sha x) = 32"
  shows "\<exists>d0 d1 d2 arc. build_provisioned_candidate sha decimal b c n0 p0 = Inr d0 \<and>
     build_activated_candidate sha decimal l n1 p1 (dc_document d0) = Inr d1 \<and>
     build_runtime_closure_candidate sha decimal (release_rows (drop 1 (rsi_tag r)) files) n2 p2 (dc_document d0) (dc_document d1) r = Inr d2 \<and>
     build_untrusted_public_archive sha decimal \<lparr>pa_activated = dc_document_bytes d1, pa_closure = dc_document_bytes d2,
       pa_provisioned = dc_document_bytes d0\<rparr> = Inr arc \<and>
     parse_untrusted_public_archive sha decimal (ua_archive_bytes arc) = Inr arc \<and>
     dc_document d0 = JObj (ua_provisioned arc) \<and> dc_document d1 = JObj (ua_activated arc) \<and> dc_document d2 = JObj (ua_closure arc)"
proof -
  obtain w where w: "rsi_tag r = 0x76 # w" using sources(3) by (auto simp: release_ok_def TAG_VERSION)
  obtain d0 p where p: "build_provisioned_candidate sha decimal b c n0 p0 = Inr d0" "dc_document d0 = JObj p"
    "parse_canonical_provisioned sha decimal (dc_document_bytes d0) = Inr p" "fits 4 62 13500 (JObj p)"
    "lookup p (js ''controller_source'') = JObj (controller_source_members c)"
    by (rule provisioned_candidate_built [where decimal = decimal, OF sources(1) nonces(1) payloads(1) sha]) (rule that, assumption+)
  obtain d1 :: document_candidate and a where a: "build_activated_candidate sha decimal l n1 p1 (JObj p) = Inr d1" "dc_document d1 = JObj a"
    "parse_canonical_activation_pair sha decimal (dc_document_bytes d1) (dc_document_bytes d0) =
      Inr \<lparr>ap_activated = a, ap_provisioned = p\<rparr>" "fits 4 62 9500 (JObj a)"
    "lookup a (js ''baseline_source'') = JObj (baseline_source_members l)"
    by (rule activated_candidate_built [OF sources(2) nonces(2) payloads(2) p(3) sha]) (rule that, assumption+)
  obtain d2 m where m: "build_runtime_closure_candidate sha decimal (release_rows w files) n2 p2 (JObj p) (JObj a) r = Inr d2"
    "dc_document d2 = JObj m"
    "parse_canonical_runtime_closure sha decimal (dc_document_bytes d1) (dc_document_bytes d2) (dc_document_bytes d0) = Inr m"
    "fits 5 102 31500 (JObj m)"
    by (rule closure_candidate_built [OF a(3) sources(1) p(5) sources(2) a(5) sources(3) w sources(4) nonces(3) payloads(3) sha])
      (rule that, assumption+)
  obtain arc where "build_untrusted_public_archive sha decimal \<lparr>pa_activated = dc_document_bytes d1, pa_closure = dc_document_bytes d2,
       pa_provisioned = dc_document_bytes d0\<rparr> = Inr arc" "parse_untrusted_public_archive sha decimal (ua_archive_bytes arc) = Inr arc"
    "ua_provisioned arc = p" "ua_activated arc = a" "ua_closure arc = m"
    by (rule archive_built [OF a(3) m(3) p(4) a(4) m(4)]) (rule that, assumption+)
  then show ?thesis using p(1,2) a(1,2) m(1,2) w by auto
qed

section \<open>A sample release\<close>

definition sample_release :: release_source_input where
  "sample_release = \<lparr>rsi_peeled_commit_sha = zeros, rsi_policy_blob_sha = zeros, rsi_policy_sha256 = zero_digest,
     rsi_runtime_workflow_blob_sha = zeros, rsi_runtime_workflow_sha256 = zero_digest, rsi_tag = js ''v1.0.0'', rsi_tag_object_sha = ones\<rparr>"

lemma sample_release_ok: "release_ok sample_release sample_baseline" "files_ok (replicate 8 (zero_digest, 1))"
proof -
  have "matches TAG (js ''v1.0.0'')" by code_simp
  then show "release_ok sample_release sample_baseline"
    using sample_texts by (simp add: release_ok_def sample_release_def sample_baseline_def)
  show "files_ok (replicate 8 (zero_digest, 1))"
    using zero_digest_props by (simp add: files_ok_def MAX_DISTRIBUTION_BYTES_def MAX_TOTAL_BYTES_def list_all_iff sum_list_replicate)
qed

lemma sample_archive:
  "\<exists>arc. parse_untrusted_public_archive zero_sha (\<lambda>_. JOther) (ua_archive_bytes arc) = Inr arc"
proof -
  have w: "rsi_tag sample_release = 0x76 # js ''1.0.0''" by (simp add: sample_release_def js_def)
  obtain p a pb ab where p: "parse_canonical_activation_pair zero_sha (\<lambda>_. JOther) ab pb = Inr \<lparr>ap_activated = a, ap_provisioned = p\<rparr>"
    "fits 4 62 13500 (JObj p)" "fits 4 62 9500 (JObj a)" "lookup p (js ''controller_source'') = JObj (controller_source_members sample_controller)"
    "lookup a (js ''baseline_source'') = JObj (baseline_source_members sample_baseline)"
    using sample_pair by metis
  obtain d :: document_candidate and m where m: "parse_canonical_runtime_closure zero_sha (\<lambda>_. JOther) ab (dc_document_bytes d) pb = Inr m" "fits 5 102 31500 (JObj m)"
    by (rule closure_candidate_built [OF p(1) sample_sources(1) p(4) sample_sources(2) p(5) sample_release_ok(1) w sample_release_ok(2)
          sample_payload_ok(2,1) zero_sha_length]) (rule that, assumption+)
  show ?thesis by (rule archive_built [OF p(1) m(1) p(2,3) m(2)]) blast
qed

theorem archived_documents_are_linked_witness:
  "\<exists>arc activation. parse_untrusted_public_archive zero_sha (\<lambda>_. JOther) (ua_archive_bytes arc) = Inr arc \<and>
     lookup (ua_closure arc) (js ''activation'') = JObj activation \<and>
     lookup activation (js ''provisioned_record_sha256'') = lookup (ua_activated arc) (js ''provisioned_record_sha256'')"
proof -
  obtain arc where arc: "parse_untrusted_public_archive zero_sha (\<lambda>_. JOther) (ua_archive_bytes arc) = Inr arc"
    using sample_archive by blast
  with archived_documents_are_linked [OF arc] show ?thesis by auto
qed

theorem valid_releases_are_archived_witness:
  "\<exists>d0 d1 d2. build_provisioned_candidate zero_sha (\<lambda>_. JOther) sample_broker sample_controller (replicate 32 1)
       (JObj (sample_payload ACTIVATION_A0)) = Inr d0 \<and>
     build_activated_candidate zero_sha (\<lambda>_. JOther) sample_baseline (replicate 32 1) (JObj (sample_payload ACTIVATION_A1))
       (dc_document d0) = Inr d1 \<and>
     build_runtime_closure_candidate zero_sha (\<lambda>_. JOther)
       (release_rows (drop 1 (rsi_tag sample_release)) (replicate 8 (zero_digest, 1))) (replicate 32 1)
       (JObj (sample_payload RUNTIME_CLOSURE)) (dc_document d0) (dc_document d1) sample_release = Inr d2"
  using valid_releases_are_archived [where sha = zero_sha and decimal = "\<lambda>_. JOther", OF sample_sources sample_release_ok
      sample_payload_ok(2,2,2,1,1,1) zero_sha_length] by blast

end
