(* ===== verification/StrictJson.thy ===== *)
theory StrictJson imports JsonParse Canonical begin

text \<open>
  The strict decoder of provider JSON (\<open>strict-json.ts\<close>): a scanner that refuses repeated member names, deep
  and large values before \<open>JSON.parse\<close> can let the last of two members win. It accepts exactly the texts
  of the JSON grammar without repeated names within its limits, and returns what they denote.
\<close>

section \<open>The scanner\<close>

text \<open>The configuration of one scanner; its position is the text that is left.\<close>

record scanner =
  sc_code :: js_string
  sc_maximum_depth :: int
  sc_maximum_nodes :: int

definition invalid :: "scanner \<Rightarrow> 'a result" where
  "invalid sc = Inl (Broker (sc_code sc) 503 False)"

definition new_scanner :: "js_string \<Rightarrow> int \<Rightarrow> int \<Rightarrow> scanner result" where
  "new_scanner code depth_limit nodes_limit =
     (if \<not> \<bar>depth_limit\<bar> \<le> max_safe \<or> depth_limit < 1 \<or> \<not> \<bar>nodes_limit\<bar> \<le> max_safe \<or> nodes_limit < 1
      then Inl (broker ''STRICT_JSON_BUDGET_INVALID'' 500 False)
      else Inr \<lparr>sc_code = code, sc_maximum_depth = depth_limit, sc_maximum_nodes = nodes_limit\<rparr>)"

text \<open>The loop of \<open>string\<close>: the text up to the closing quote, and what follows it.\<close>

fun string_end :: "js_string \<Rightarrow> (js_string \<times> js_string) option" where
  "string_end [] = None"
| "string_end (c # cs) =
     (if c < 0x20 then None
      else if c = 0x22 then Some ([c], cs)
      else if c = 0x5C then
        (case cs of [] \<Rightarrow> None | d # r \<Rightarrow> map_option (\<lambda>(u, t). (c # d # u, t)) (string_end r))
      else map_option (\<lambda>(u, t). (c # u, t)) (string_end cs))"

declare string_end.simps(2) [simp del]

text \<open>From the opening quote.\<close>

definition scan_string :: "(js_string \<Rightarrow> js_number) \<Rightarrow> scanner \<Rightarrow> js_string \<Rightarrow> (js_string \<times> js_string) result" where
  "scan_string decimal sc s =
     (case string_end (drop 1 s) of
        None \<Rightarrow> invalid sc
      | Some (u, t) \<Rightarrow>
          (case json_parse decimal (take 1 s @ u) of Inr (JStr k) \<Rightarrow> Inr (k, t) | _ \<Rightarrow> invalid sc))"

definition scan_literal :: "scanner \<Rightarrow> string \<Rightarrow> js_string \<Rightarrow> js_string result" where
  "scan_literal sc expected s = (case strip_prefix (js expected) s of Some t \<Rightarrow> Inr t | None \<Rightarrow> invalid sc)"

text \<open>\<open>consume\<close>, where failing is an error.\<close>

definition scan_char :: "scanner \<Rightarrow> code_unit \<Rightarrow> js_string \<Rightarrow> js_string result" where
  "scan_char sc c s = (case s of d # t \<Rightarrow> if d = c then Inr t else invalid sc | [] \<Rightarrow> invalid sc)"

text \<open>
  The recursive descent, returning the count of nodes and the text that is left. The first number bounds
  the nested calls; running out is the error \<open>RangeError\<close>, which enough fuel excludes.
\<close>

fun scan_value :: "(js_string \<Rightarrow> js_number) \<Rightarrow> scanner \<Rightarrow> nat \<Rightarrow> nat \<Rightarrow> nat \<Rightarrow> js_string \<Rightarrow> (nat \<times> js_string) result"
and scan_items :: "(js_string \<Rightarrow> js_number) \<Rightarrow> scanner \<Rightarrow> nat \<Rightarrow> nat \<Rightarrow> nat \<Rightarrow> js_string \<Rightarrow> (nat \<times> js_string) result"
and scan_members :: "(js_string \<Rightarrow> js_number) \<Rightarrow> scanner \<Rightarrow> nat \<Rightarrow> nat \<Rightarrow> js_string list \<Rightarrow> nat \<Rightarrow> js_string \<Rightarrow> (nat \<times> js_string) result"
where
  "scan_value decimal sc 0 depth k s = Inl (Native RangeError)"
| "scan_value decimal sc (Suc n) depth k s =
     (if int depth > sc_maximum_depth sc \<or> int (k + 1) > sc_maximum_nodes sc then invalid sc
      else (case s of
        [] \<Rightarrow> invalid sc
      | c # cs \<Rightarrow>
          if c = 0x7B then
            (case scan_char sc 0x7D (skip_ws cs) of
               Inr t \<Rightarrow> Inr (k + 1, t)
             | Inl _ \<Rightarrow> scan_members decimal sc n (depth + 1) [] (k + 1) (skip_ws cs))
          else if c = 0x5B then
            (case scan_char sc 0x5D (skip_ws cs) of
               Inr t \<Rightarrow> Inr (k + 1, t)
             | Inl _ \<Rightarrow> scan_items decimal sc n (depth + 1) (k + 1) (skip_ws cs))
          else if c = 0x22 then bind_r (scan_string decimal sc s) (\<lambda>(_, t). Inr (k + 1, t))
          else if c = 0x74 then bind_r (scan_literal sc ''true'' s) (\<lambda>t. Inr (k + 1, t))
          else if c = 0x66 then bind_r (scan_literal sc ''false'' s) (\<lambda>t. Inr (k + 1, t))
          else if c = 0x6E then bind_r (scan_literal sc ''null'' s) (\<lambda>t. Inr (k + 1, t))
          else (case scan_number s of Some (_, _, t) \<Rightarrow> Inr (k + 1, t) | None \<Rightarrow> invalid sc)))"
| "scan_items decimal sc 0 depth k s = Inl (Native RangeError)"
| "scan_items decimal sc (Suc n) depth k s =
     bind_r (scan_value decimal sc n depth k s) (\<lambda>(l, t).
       case scan_char sc 0x5D (skip_ws t) of
         Inr r \<Rightarrow> Inr (l, r)
       | Inl _ \<Rightarrow> bind_r (scan_char sc 0x2C (skip_ws t)) (\<lambda>r. scan_items decimal sc n depth l (skip_ws r)))"
| "scan_members decimal sc 0 depth keys k s = Inl (Native RangeError)"
| "scan_members decimal sc (Suc n) depth keys k s =
     (if take 1 s \<noteq> [0x22] then invalid sc
      else bind_r (scan_string decimal sc s) (\<lambda>(key, t1).
        if key \<in> set keys then Inl (Broker (sc_code sc @ js ''_DUPLICATE_FIELD'') 503 False)
        else bind_r (scan_char sc 0x3A (skip_ws t1)) (\<lambda>t2.
          bind_r (scan_value decimal sc n depth k (skip_ws t2)) (\<lambda>(l, t3).
            case scan_char sc 0x7D (skip_ws t3) of
              Inr r \<Rightarrow> Inr (l, r)
            | Inl _ \<Rightarrow> bind_r (scan_char sc 0x2C (skip_ws t3)) (\<lambda>r.
                scan_members decimal sc n depth (key # keys) l (skip_ws r))))))"

definition scan_text :: "(js_string \<Rightarrow> js_number) \<Rightarrow> scanner \<Rightarrow> js_string \<Rightarrow> unit result" where
  "scan_text decimal sc s =
     bind_r (scan_value decimal sc (2 * length s + 2) 0 0 (skip_ws s)) (\<lambda>(_, t).
       if skip_ws t \<noteq> [] then invalid sc else Inr ())"

definition parse_strict_json_object ::
  "(js_string \<Rightarrow> js_number) \<Rightarrow> bytes \<Rightarrow> js_string \<Rightarrow> int \<Rightarrow> int \<Rightarrow> (js_string \<times> json) list result" where
  "parse_strict_json_object decimal bs code depth_limit nodes_limit =
     (case text_decode bs of
        None \<Rightarrow> Inl (Broker (code @ js ''_UTF8_INVALID'') 503 False)
      | Some s \<Rightarrow>
          bind_r (new_scanner code depth_limit nodes_limit) (\<lambda>sc.
          bind_r (scan_text decimal sc s) (\<lambda>_.
            case json_parse decimal s of
              Inr (JObj kvs) \<Rightarrow> Inr kvs
            | _ \<Rightarrow> Inl (Broker code 503 False))))"

section \<open>The grammar\<close>

text \<open>
  What a text denotes: \<open>reads s v t\<close> when a prefix of \<open>s\<close> is a JSON text of \<open>v\<close> and \<open>t\<close> is left. Here an
  object lists the members as they are written, repeated names included.
\<close>

inductive reads :: "(js_string \<Rightarrow> js_number) \<Rightarrow> js_string \<Rightarrow> json \<Rightarrow> js_string \<Rightarrow> bool"
and reads_items :: "(js_string \<Rightarrow> js_number) \<Rightarrow> js_string \<Rightarrow> json list \<Rightarrow> js_string \<Rightarrow> bool"
and reads_members :: "(js_string \<Rightarrow> js_number) \<Rightarrow> js_string \<Rightarrow> (js_string \<times> json) list \<Rightarrow> js_string \<Rightarrow> bool"
for decimal where
  reads_null: "reads decimal (js ''null'' @ t) JNull t"
| reads_true: "reads decimal (js ''true'' @ t) (JBool True) t"
| reads_false: "reads decimal (js ''false'' @ t) (JBool False) t"
| reads_number: "scan_number s = Some (u, integral, t) \<Longrightarrow>
    reads decimal s (JNum (if integral then integer_value u else decimal u)) t"
| reads_string: "parse_string_body cs = Some (u, t) \<Longrightarrow> reads decimal (0x22 # cs) (JStr u) t"
| reads_empty_array: "skip_ws cs = 0x5D # t \<Longrightarrow> reads decimal (0x5B # cs) (JArr []) t"
| reads_array: "reads_items decimal (skip_ws cs) xs t \<Longrightarrow> reads decimal (0x5B # cs) (JArr xs) t"
| reads_empty_object: "skip_ws cs = 0x7D # t \<Longrightarrow> reads decimal (0x7B # cs) (JObj []) t"
| reads_object: "reads_members decimal (skip_ws cs) kvs t \<Longrightarrow> reads decimal (0x7B # cs) (JObj kvs) t"
| reads_last_item: "reads decimal s x t \<Longrightarrow> skip_ws t = 0x5D # r \<Longrightarrow> reads_items decimal s [x] r"
| reads_more_items: "reads decimal s x t \<Longrightarrow> skip_ws t = 0x2C # r \<Longrightarrow> reads_items decimal (skip_ws r) xs w \<Longrightarrow>
    reads_items decimal s (x # xs) w"
| reads_last_member: "parse_string_body cs = Some (k, t1) \<Longrightarrow> skip_ws t1 = 0x3A # t2 \<Longrightarrow> reads decimal (skip_ws t2) v t3 \<Longrightarrow>
    skip_ws t3 = 0x7D # r \<Longrightarrow> reads_members decimal (0x22 # cs) [(k, v)] r"
| reads_more_members: "parse_string_body cs = Some (k, t1) \<Longrightarrow> skip_ws t1 = 0x3A # t2 \<Longrightarrow> reads decimal (skip_ws t2) v t3 \<Longrightarrow>
    skip_ws t3 = 0x2C # r \<Longrightarrow> reads_members decimal (skip_ws r) kvs w \<Longrightarrow>
    reads_members decimal (0x22 # cs) ((k, v) # kvs) w"

section \<open>Strings\<close>

lemma string_end_intros:
  "string_end (0x22 # t) = Some ([0x22], t)"
  "\<not> c < 0x20 \<Longrightarrow> c \<noteq> 0x22 \<Longrightarrow> c \<noteq> 0x5C \<Longrightarrow> string_end cs = Some (u, t) \<Longrightarrow> string_end (c # cs) = Some (c # u, t)"
  "string_end r = Some (u, t) \<Longrightarrow> string_end (0x5C # e # r) = Some (0x5C # e # u, t)"
  by (simp_all add: string_end.simps(2))

lemma string_end_cases:
  assumes "string_end s = Some (u, t)"
  obtains (quote) "s = 0x22 # t" "u = [0x22]"
  | (unit) c cs v where "s = c # cs" "\<not> c < 0x20" "c \<noteq> 0x22" "c \<noteq> 0x5C" "string_end cs = Some (v, t)" "u = c # v"
  | (escape) e r v where "s = 0x5C # e # r" "string_end r = Some (v, t)" "u = 0x5C # e # v"
proof -
  obtain c cs where s: "s = c # cs" using assms by (cases s) auto
  note body = assms [unfolded s string_end.simps(2) [of c cs]]
  consider "c = 0x22" | "c \<noteq> 0x22" "c \<noteq> 0x5C" | "c = 0x5C" by blast
  then show thesis
  proof cases
    case 1
    then show thesis using body s quote by simp
  next
    case 2
    then show thesis using body s unit [of c cs] by (auto split: if_splits)
  next
    case 3
    obtain e r where e: "cs = e # r" using body 3 by (cases cs) simp_all
    then show thesis using body 3 s escape [of e r] by auto
  qed
qed

lemma string_end_split: "string_end s = Some (u, t) \<Longrightarrow> s = u @ t"
proof (induction s arbitrary: u rule: length_induct)
  case (1 s)
  from 1(2) show ?case by (cases rule: string_end_cases) (use 1(1) in auto)
qed

lemma string_end_whole: "string_end s = Some (u, t) \<Longrightarrow> string_end u = Some (u, [])"
proof (induction s arbitrary: u rule: length_induct)
  case (1 s)
  from 1(2) show ?case
  proof (cases rule: string_end_cases)
    case quote
    then show ?thesis using string_end_intros(1) [of "[]"] by simp
  next
    case (unit c cs v)
    then show ?thesis using 1(1) string_end_intros(2) [of c v v "[]"] by auto
  next
    case (escape e r v)
    then have "length r < length s" by simp
    then have "string_end v = Some (v, [])" using 1(1) escape(2) by blast
    then show ?thesis unfolding escape(3) by (rule string_end_intros(3))
  qed
qed

lemma hex_value_plain: "hex_value h = Some a \<Longrightarrow> \<not> h < 0x20 \<and> h \<noteq> 0x22 \<and> h \<noteq> 0x5C"
  by (auto simp: hex_value_def word_less_nat_alt word_le_nat_alt split: if_splits)

text \<open>The four ways a string goes on.\<close>

lemma string_body_cases:
  assumes "parse_string_body s = Some (k, t)"
  obtains (quote) "s = 0x22 # t" "k = []"
  | (unit) c cs k' where "s = c # cs" "\<not> c < 0x20" "c \<noteq> 0x22" "c \<noteq> 0x5C" "parse_string_body cs = Some (k', t)" "k = c # k'"
  | (escape) e r v k' where "s = 0x5C # e # r" "e \<noteq> 0x75" "unescape e = Some v" "parse_string_body r = Some (k', t)" "k = v # k'"
  | (hex) h1 h2 h3 h4 r a b x y k' where "s = 0x5C # 0x75 # h1 # h2 # h3 # h4 # r" "hex_value h1 = Some a" "hex_value h2 = Some b"
      "hex_value h3 = Some x" "hex_value h4 = Some y" "parse_string_body r = Some (k', t)"
      "k = of_nat (4096 * a + 256 * b + 16 * x + y) # k'"
proof -
  obtain c cs where s: "s = c # cs" using assms by (cases s) auto
  note body = assms [unfolded s parse_string_body.simps(2) [of c cs]]
  consider "c = 0x22" | "c \<noteq> 0x22" "c \<noteq> 0x5C" | "c = 0x5C" by blast
  then show thesis
  proof cases
    case 1
    then show thesis using body s quote by simp
  next
    case 2
    then show thesis using body s unit [of c cs] by (auto split: if_splits)
  next
    case 3
    obtain e r where e: "cs = e # r" using body 3 by (cases cs) simp_all
    show thesis
    proof (cases "e = 0x75")
      case True
      obtain h1 h2 h3 h4 r' a b x y where h: "r = h1 # h2 # h3 # h4 # r'" "hex_value h1 = Some a" "hex_value h2 = Some b"
        "hex_value h3 = Some x" "hex_value h4 = Some y"
        using body 3 e True by (auto split: list.splits option.splits)
      then show thesis using body 3 e True s hex [of h1 h2 h3 h4 r' a b x y] by auto
    next
      case False
      then show thesis using body 3 e s escape [of e r] by (auto split: option.splits)
    qed
  qed
qed

lemma string_body_intros:
  "parse_string_body (0x22 # t) = Some ([], t)"
  "\<not> c < 0x20 \<Longrightarrow> c \<noteq> 0x22 \<Longrightarrow> c \<noteq> 0x5C \<Longrightarrow> parse_string_body cs = Some (k, t) \<Longrightarrow> parse_string_body (c # cs) = Some (c # k, t)"
  "e \<noteq> 0x75 \<Longrightarrow> unescape e = Some v \<Longrightarrow> parse_string_body r = Some (k, t) \<Longrightarrow> parse_string_body (0x5C # e # r) = Some (v # k, t)"
  "hex_value h1 = Some a \<Longrightarrow> hex_value h2 = Some b \<Longrightarrow> hex_value h3 = Some x \<Longrightarrow> hex_value h4 = Some y \<Longrightarrow>
     parse_string_body r = Some (k, t) \<Longrightarrow>
     parse_string_body (0x5C # 0x75 # h1 # h2 # h3 # h4 # r) = Some (of_nat (4096 * a + 256 * b + 16 * x + y) # k, t)"
  by (simp_all add: parse_string_body.simps(2))

text \<open>A string that parses ends where the loop says, and its own text parses to it.\<close>

lemma string_body_end:
  "parse_string_body s = Some (k, t) \<Longrightarrow> \<exists>u. string_end s = Some (u, t) \<and> parse_string_body u = Some (k, [])"
proof (induction s arbitrary: k t rule: length_induct)
  case (1 s)
  have IH: "\<exists>u. string_end r = Some (u, t') \<and> parse_string_body u = Some (k', [])"
    if "parse_string_body r = Some (k', t')" "length r < length s" for r k' t' using 1(1) that by blast
  from 1(2) show ?case
  proof (cases rule: string_body_cases)
    case quote
    then show ?thesis using string_end_intros(1) [of t] string_body_intros(1) [of "[]"] by blast
  next
    case (unit c cs k')
    obtain w where w: "string_end cs = Some (w, t)" "parse_string_body w = Some (k', [])" using IH [OF unit(5)] unit(1) by auto
    show ?thesis unfolding unit(1,6)
      using string_end_intros(2) [OF unit(2-4) w(1)] string_body_intros(2) [OF unit(2-4) w(2)] by blast
  next
    case (escape e r v k')
    obtain w where w: "string_end r = Some (w, t)" "parse_string_body w = Some (k', [])" using IH [OF escape(4)] escape(1) by auto
    show ?thesis unfolding escape(1,5)
      using string_end_intros(3) [OF w(1), of e] string_body_intros(3) [OF escape(2,3) w(2)] by blast
  next
    case (hex h1 h2 h3 h4 r a b x y k')
    obtain w where w: "string_end r = Some (w, t)" "parse_string_body w = Some (k', [])" using IH [OF hex(6)] hex(1) by auto
    have "string_end (h1 # h2 # h3 # h4 # r) = Some (h1 # h2 # h3 # h4 # w, t)"
      using hex(2-5) [THEN hex_value_plain] w(1) by (intro string_end_intros(2)) simp_all
    then show ?thesis unfolding hex(1,7)
      using string_end_intros(3) [of "h1 # h2 # h3 # h4 # r" _ t "0x75"] string_body_intros(4) [OF hex(2-5) w(2)] by blast
  qed
qed

text \<open>More text after a string changes nothing.\<close>

lemma string_body_append: "parse_string_body u = Some (k, r) \<Longrightarrow> parse_string_body (u @ t) = Some (k, r @ t)"
proof (induction u arbitrary: k r rule: length_induct)
  case (1 u)
  have IH: "parse_string_body (x @ t) = Some (k', r' @ t)" if "parse_string_body x = Some (k', r')" "length x < length u" for x k' r'
    using 1(1) that by blast
  from 1(2) show ?case
  proof (cases rule: string_body_cases)
    case (unit c cs k')
    then show ?thesis using string_body_intros(2) [OF unit(2-4) IH [OF unit(5)]] by simp
  next
    case (escape e r v k')
    then show ?thesis using string_body_intros(3) [OF escape(2,3) IH [OF escape(4)]] by simp
  next
    case (hex h1 h2 h3 h4 r a b x y k')
    then show ?thesis using string_body_intros(4) [OF hex(2-5) IH [OF hex(6)]] by simp
  qed (simp add: string_body_intros(1))
qed

lemma json_parse_string:
  assumes "string_end u = Some (u, [])"
  shows "json_parse decimal (0x22 # u) = (case parse_string_body u of Some (k, _) \<Rightarrow> Inr (JStr k) | None \<Rightarrow> Inl (Native SyntaxError))"
proof (cases "parse_string_body u")
  case (Some p)
  obtain k r where p: "p = (k, r)" by (cases p)
  have "r = []" using string_body_end [of u k r] Some p assms by auto
  then show ?thesis using Some p
    by (simp add: json_parse_def skip_ws_def is_ws_def parse_value.simps(2))
qed (simp add: json_parse_def skip_ws_def is_ws_def parse_value.simps(2))

lemma scan_string_iff: "scan_string decimal sc (0x22 # cs) = Inr (k, t) \<longleftrightarrow> parse_string_body cs = Some (k, t)"
proof
  assume "scan_string decimal sc (0x22 # cs) = Inr (k, t)"
  then obtain u where u: "string_end cs = Some (u, t)" "json_parse decimal (0x22 # u) = Inr (JStr k)"
    by (auto simp: scan_string_def invalid_def split: option.splits sum.splits json.splits)
  obtain r where "parse_string_body u = Some (k, r)"
    using u(2) unfolding json_parse_string [OF string_end_whole [OF u(1)]] by (auto split: option.splits)
  moreover from this have "r = []" using string_body_end [of u k r] string_end_whole [OF u(1)] by auto
  ultimately show "parse_string_body cs = Some (k, t)"
    using string_body_append [of u k r t] string_end_split [OF u(1)] by simp
next
  assume "parse_string_body cs = Some (k, t)"
  then obtain u where u: "string_end cs = Some (u, t)" "parse_string_body u = Some (k, [])" using string_body_end by blast
  then show "scan_string decimal sc (0x22 # cs) = Inr (k, t)"
    by (simp add: scan_string_def json_parse_string [OF string_end_whole [OF u(1)]])
qed

lemma scan_char_eq_Inr: "scan_char sc c s = Inr t \<longleftrightarrow> s = c # t"
  by (cases s) (auto simp: scan_char_def invalid_def)

lemma strip_prefix_iff: "strip_prefix p s = Some t \<longleftrightarrow> s = p @ t"
  by (induction p s rule: strip_prefix.induct) auto

lemma scan_literal_eq_Inr: "scan_literal sc w s = Inr t \<longleftrightarrow> s = js w @ t"
  unfolding strip_prefix_iff [symmetric] by (simp add: scan_literal_def invalid_def split: option.split)

section \<open>What is read is parsed\<close>

lemma reads_shorter:
  "reads decimal s v t \<Longrightarrow> length t < length s"
  "reads_items decimal s xs t \<Longrightarrow> length t < length s"
  "reads_members decimal s kvs t \<Longrightarrow> length t < length s"
proof (induction rule: reads_reads_items_reads_members.inducts)
  case (reads_number s u plain t)
  then show ?case by (rule scan_number_shorter)
next
  case (reads_string cs u t)
  then show ?case using parse_string_body_shorter by fastforce
next
  case (reads_array cs xs t)
  then show ?case using length_skip_ws [of cs] by simp
next
  case (reads_object cs kvs t)
  then show ?case using length_skip_ws [of cs] by simp
next
  case (reads_more_items s x t r xs w)
  then show ?case using length_skip_ws [of t] length_skip_ws [of r] by simp
next
  case (reads_last_member cs k t1 t2 v t3 r)
  then show ?case using parse_string_body_shorter [OF reads_last_member(1)] length_skip_ws [of t1] length_skip_ws [of t2] length_skip_ws [of t3] by simp
next
  case (reads_more_members cs k t1 t2 v t3 r kvs w)
  then show ?case using parse_string_body_shorter [OF reads_more_members(1)] length_skip_ws [of t1] length_skip_ws [of t2]
      length_skip_ws [of t3] length_skip_ws [of r] by simp
qed (auto dest!: skip_ws_Cons)

lemma scan_number_head:
  assumes "scan_number s = Some (u, plain, t)"
  obtains c cs where "s = c # cs" "c = 0x2D \<or> is_digit c"
  using assms by (cases s) (auto simp: scan_number_def scan_integer_def is_digit_def Let_def split: if_splits list.splits)

lemma digit_is_no_mark: "c = 0x2D \<or> is_digit c \<Longrightarrow> c \<noteq> 0x7B \<and> c \<noteq> 0x5B \<and> c \<noteq> 0x22 \<and> c \<noteq> 0x74 \<and> c \<noteq> 0x66 \<and> c \<noteq> 0x6E"
  by (auto simp: is_digit_def word_le_nat_alt)

lemma put_member_new: "k \<notin> set (map fst kvs) \<Longrightarrow> put_member k v kvs = kvs @ [(k, v)]"
  by (induction kvs) auto

lemma words_head: "js ''null'' = 0x6E # js ''ull''" "js ''true'' = 0x74 # js ''rue''" "js ''false'' = 0x66 # js ''alse''"
  by (simp_all add: js_def)

lemma parse_value_words:
  "parse_value decimal (Suc n) (js ''null'' @ t) = Some (JNull, t)"
  "parse_value decimal (Suc n) (js ''true'' @ t) = Some (JBool True, t)"
  "parse_value decimal (Suc n) (js ''false'' @ t) = Some (JBool False, t)"
  using strip_prefix_append [of "js ''null''" t] strip_prefix_append [of "js ''true''" t] strip_prefix_append [of "js ''false''" t]
  by (simp_all add: parse_value.simps(2) words_head)

lemma reads_head: "reads_items decimal s xs t \<Longrightarrow> \<exists>c r. s = c # r \<and> c \<noteq> 0x5D"
  "reads_members decimal s kvs t \<Longrightarrow> \<exists>r. s = 0x22 # r"
  "reads decimal s v t \<Longrightarrow> \<exists>c r. s = c # r \<and> c \<noteq> 0x5D"
proof -
  have r: "\<exists>c r. s = c # r \<and> c \<noteq> 0x5D" if "reads decimal s v t" for s v t
    using that
  proof (cases rule: reads.cases)
    case (reads_number u plain)
    obtain c cs where c: "s = c # cs" "c = 0x2D \<or> is_digit c" by (rule scan_number_head [OF reads_number(2)])
    then show ?thesis by (auto simp: is_digit_def word_le_nat_alt)
  qed (simp_all add: words_head)
  then show "reads decimal s v t \<Longrightarrow> \<exists>c r. s = c # r \<and> c \<noteq> 0x5D" .
  show "reads_items decimal s xs t \<Longrightarrow> \<exists>c r. s = c # r \<and> c \<noteq> 0x5D" by (cases rule: reads_items.cases) (auto dest: r)
  show "reads_members decimal s kvs t \<Longrightarrow> \<exists>r. s = 0x22 # r" by (cases rule: reads_members.cases) auto
qed

lemma reads_parsed:
  "reads decimal s v t \<Longrightarrow> well_formed v \<Longrightarrow> 2 * length s \<le> n \<Longrightarrow> parse_value decimal n s = Some (v, t)"
  "reads_items decimal s xs t \<Longrightarrow> \<forall>x \<in> set xs. well_formed x \<Longrightarrow> 2 * length s + 1 \<le> n \<Longrightarrow> parse_items decimal n s = Some (xs, t)"
  "reads_members decimal s kvs t \<Longrightarrow> distinct (map fst (acc @ kvs)) \<and> (\<forall>(k, v) \<in> set kvs. well_formed v) \<Longrightarrow> 2 * length s + 1 \<le> n \<Longrightarrow>
     parse_members decimal n acc s = Some (acc @ kvs, t)"
proof (induction arbitrary: n and n and n acc rule: reads_reads_items_reads_members.inducts)
  case (reads_null t)
  then show ?case by (cases n) (simp_all add: parse_value_words)
next
  case (reads_true t)
  then show ?case by (cases n) (simp_all add: parse_value_words)
next
  case (reads_false t)
  then show ?case by (cases n) (simp_all add: parse_value_words)
next
  case (reads_number s u plain t)
  obtain c cs where c: "s = c # cs" "c = 0x2D \<or> is_digit c" by (rule scan_number_head [OF reads_number(1)])
  then show ?case using reads_number digit_is_no_mark [OF c(2)] by (cases n) (simp_all add: parse_value.simps(2))
next
  case (reads_string cs u t)
  then show ?case by (cases n) (simp_all add: parse_value.simps(2))
next
  case (reads_empty_array cs t)
  then show ?case by (cases n) (simp_all add: parse_value.simps(2))
next
  case (reads_array cs xs t)
  obtain c r where c: "skip_ws cs = c # r" "c \<noteq> 0x5D" using reads_head(1) [OF reads_array(1)] by blast
  obtain m where n: "n = Suc m" using reads_array(4) by (cases n) auto
  have "parse_items decimal m (skip_ws cs) = Some (xs, t)"
    using reads_array(3,4) length_skip_ws [of cs] n by (intro reads_array(2)) (auto simp: list_all_iff)
  then show ?case using c n by (simp add: parse_value.simps(2))
next
  case (reads_empty_object cs t)
  then show ?case by (cases n) (simp_all add: parse_value.simps(2))
next
  case (reads_object cs kvs t)
  obtain r where c: "skip_ws cs = 0x22 # r" using reads_head(2) [OF reads_object(1)] by blast
  obtain m where n: "n = Suc m" using reads_object(4) by (cases n) auto
  have "parse_members decimal m [] (skip_ws cs) = Some ([] @ kvs, t)"
    using reads_object(3,4) length_skip_ws [of cs] n by (intro reads_object(2)) (auto simp: list_all_iff)
  then show ?case using c n by (simp add: parse_value.simps(2))
next
  case (reads_last_item s x t r)
  obtain m where n: "n = Suc m" using reads_last_item.prems(2) by (cases n) auto
  have "parse_value decimal m s = Some (x, t)" using reads_last_item.prems(1,2) n by (intro reads_last_item.IH(2)) simp_all
  then show ?case using reads_last_item.hyps(1) n by (simp add: parse_items.simps(2))
next
  case (reads_more_items s x t r xs w)
  obtain m where n: "n = Suc m" using reads_more_items.prems(2) by (cases n) auto
  have "parse_value decimal m s = Some (x, t)" using reads_more_items.prems(1,2) n by (intro reads_more_items.IH(2)) simp_all
  moreover have "parse_items decimal m (skip_ws r) = Some (xs, w)"
    using reads_more_items.prems(1,2) n reads_shorter(1) [OF reads_more_items.IH(1)] skip_ws_Cons [OF reads_more_items.hyps(1)] length_skip_ws [of r]
    by (intro reads_more_items.IH(4)) auto
  ultimately show ?case using reads_more_items.hyps(1) n by (simp add: parse_items.simps(2))
next
  case (reads_last_member cs k t1 t2 v t3 r)
  obtain m where n: "n = Suc m" using reads_last_member.prems(2) by (cases n) auto
  have "length (skip_ws t2) < length cs"
    using parse_string_body_shorter [OF reads_last_member.hyps(1)] skip_ws_Cons [OF reads_last_member.hyps(2)] length_skip_ws [of t2] by simp
  then have "parse_value decimal m (skip_ws t2) = Some (v, t3)"
    using reads_last_member.prems(1,2) n by (intro reads_last_member.IH(2)) auto
  then show ?case using reads_last_member.hyps(1) reads_last_member.hyps(2) reads_last_member.hyps(3) reads_last_member.prems(1) n by (simp add: parse_members.simps(2) put_member_new)
next
  case (reads_more_members cs k t1 t2 v t3 r kvs w)
  obtain m where n: "n = Suc m" using reads_more_members.prems(2) by (cases n) auto
  have l: "length (skip_ws t2) < length cs"
    using parse_string_body_shorter [OF reads_more_members.hyps(1)] skip_ws_Cons [OF reads_more_members.hyps(2)] length_skip_ws [of t2] by simp
  then have v: "parse_value decimal m (skip_ws t2) = Some (v, t3)"
    using reads_more_members.prems(1,2) n by (intro reads_more_members.IH(2)) auto
  have "length (skip_ws r) < length (skip_ws t2)"
    using reads_shorter(1) [OF reads_more_members.IH(1)] skip_ws_Cons [OF reads_more_members.hyps(3)] length_skip_ws [of r] by simp
  then have "parse_members decimal m (acc @ [(k, v)]) (skip_ws r) = Some ((acc @ [(k, v)]) @ kvs, w)"
    using reads_more_members.prems(1,2) n l by (intro reads_more_members.IH(4)) auto
  then show ?case using reads_more_members.hyps(1) reads_more_members.hyps(2) reads_more_members.hyps(3) reads_more_members.prems(1) v n by (simp add: parse_members.simps(2) put_member_new)
qed

section \<open>The scanner accepts what is read\<close>

lemma height_within:
  "int (d + height (JArr xs)) \<le> m \<longleftrightarrow> int d \<le> m \<and> (\<forall>x \<in> set xs. int (Suc d + height x) \<le> m)"
  "int (d + height (JObj kvs)) \<le> m \<longleftrightarrow> int d \<le> m \<and> (\<forall>(k, v) \<in> set kvs. int (Suc d + height v) \<le> m)"
proof -
  have n: "int a \<le> m \<longleftrightarrow> 0 \<le> m \<and> a \<le> nat m" for a by linarith
  show "int (d + height (JArr xs)) \<le> m \<longleftrightarrow> int d \<le> m \<and> (\<forall>x \<in> set xs. int (Suc d + height x) \<le> m)"
    unfolding n using deepest_le [of d "map height xs" "nat m"] by auto
  show "int (d + height (JObj kvs)) \<le> m \<longleftrightarrow> int d \<le> m \<and> (\<forall>(k, v) \<in> set kvs. int (Suc d + height v) \<le> m)"
    unfolding n using deepest_le [of d "map (\<lambda>x. height (snd x)) kvs" "nat m"] by (auto simp: comp_def)
qed

definition value_within :: "scanner \<Rightarrow> nat \<Rightarrow> nat \<Rightarrow> json \<Rightarrow> bool" where
  "value_within sc depth k v \<longleftrightarrow>
     well_formed v \<and> int (depth + height v) \<le> sc_maximum_depth sc \<and> int (k + nodes v) \<le> sc_maximum_nodes sc"

definition items_within :: "scanner \<Rightarrow> nat \<Rightarrow> nat \<Rightarrow> json list \<Rightarrow> bool" where
  "items_within sc depth k xs \<longleftrightarrow>
     (\<forall>x \<in> set xs. well_formed x \<and> int (depth + height x) \<le> sc_maximum_depth sc) \<and>
     int (k + sum_list (map nodes xs)) \<le> sc_maximum_nodes sc"

definition members_within :: "scanner \<Rightarrow> nat \<Rightarrow> js_string list \<Rightarrow> nat \<Rightarrow> (js_string \<times> json) list \<Rightarrow> bool" where
  "members_within sc depth keys k kvs \<longleftrightarrow>
     (\<forall>x \<in> set (map snd kvs). well_formed x \<and> int (depth + height x) \<le> sc_maximum_depth sc) \<and>
     distinct (map fst kvs) \<and> set (map fst kvs) \<inter> set keys = {} \<and>
     int (k + sum_list (map (nodes \<circ> snd) kvs)) \<le> sc_maximum_nodes sc"

lemma nodes_pos: "1 \<le> nodes v"
  by (cases v) simp_all

lemma within_containers:
  "value_within sc depth k (JArr xs) \<longleftrightarrow>
     int depth \<le> sc_maximum_depth sc \<and> int (k + 1) \<le> sc_maximum_nodes sc \<and> items_within sc (depth + 1) (k + 1) xs"
  "value_within sc depth k (JObj kvs) \<longleftrightarrow>
     int depth \<le> sc_maximum_depth sc \<and> int (k + 1) \<le> sc_maximum_nodes sc \<and> members_within sc (depth + 1) [] (k + 1) kvs"
proof -
  show "value_within sc depth k (JArr xs) \<longleftrightarrow>
     int depth \<le> sc_maximum_depth sc \<and> int (k + 1) \<le> sc_maximum_nodes sc \<and> items_within sc (depth + 1) (k + 1) xs"
    unfolding value_within_def items_within_def height_within by (auto simp: list_all_iff)
  show "value_within sc depth k (JObj kvs) \<longleftrightarrow>
     int depth \<le> sc_maximum_depth sc \<and> int (k + 1) \<le> sc_maximum_nodes sc \<and> members_within sc (depth + 1) [] (k + 1) kvs"
    unfolding value_within_def members_within_def height_within by (auto simp: list_all_iff comp_def)
qed

lemma within_leaf:
  "height v = 0 \<Longrightarrow> nodes v = 1 \<Longrightarrow> well_formed v \<Longrightarrow>
     value_within sc depth k v \<longleftrightarrow> int depth \<le> sc_maximum_depth sc \<and> int (k + 1) \<le> sc_maximum_nodes sc"
  by (auto simp: value_within_def)

lemma within_Cons:
  "items_within sc depth k (x # xs) \<longleftrightarrow> value_within sc depth k x \<and> items_within sc depth (k + nodes x) xs"
  "members_within sc depth keys k ((key, v) # kvs) \<longleftrightarrow>
     key \<notin> set keys \<and> value_within sc depth k v \<and> members_within sc depth (key # keys) (k + nodes v) kvs"
  by (auto simp: items_within_def members_within_def value_within_def add.assoc)

lemma within_single:
  "items_within sc depth k [x] \<longleftrightarrow> value_within sc depth k x"
  "members_within sc depth keys k [(key, v)] \<longleftrightarrow> key \<notin> set keys \<and> value_within sc depth k v"
  by (auto simp: items_within_def members_within_def value_within_def)

declare scan_value.simps(2) [simp del] scan_items.simps(2) [simp del] scan_members.simps(2) [simp del]

lemma scan_char_cases:
  obtains t where "s = c # t" "scan_char sc c s = Inr t" | "scan_char sc c s = invalid sc" "\<forall>t. s \<noteq> c # t"
  by (cases s) (auto simp: scan_char_def)

lemma scan_reads:
  "(scan_value decimal sc n depth k s = Inr (l, t) \<longrightarrow> (\<exists>v. reads decimal s v t \<and> value_within sc depth k v \<and> l = k + nodes v)) \<and>
   (scan_items decimal sc n depth k s = Inr (l, t) \<longrightarrow>
      (\<exists>xs. reads_items decimal s xs t \<and> items_within sc depth k xs \<and> l = k + sum_list (map nodes xs))) \<and>
   (scan_members decimal sc n depth keys k s = Inr (l, t) \<longrightarrow>
      (\<exists>kvs. reads_members decimal s kvs t \<and> members_within sc depth keys k kvs \<and> l = k + sum_list (map (nodes \<circ> snd) kvs)))"
proof (induction n arbitrary: depth keys k s l t)
  case (Suc n)
  have V: "\<exists>v. reads decimal s v t \<and> value_within sc depth k v \<and> l = k + nodes v"
    if "scan_value decimal sc n depth k s = Inr (l, t)" for depth k s l t using Suc that by blast
  have I: "\<exists>xs. reads_items decimal s xs t \<and> items_within sc depth k xs \<and> l = k + sum_list (map nodes xs)"
    if "scan_items decimal sc n depth k s = Inr (l, t)" for depth k s l t using Suc that by blast
  have M: "\<exists>kvs. reads_members decimal s kvs t \<and> members_within sc depth keys k kvs \<and> l = k + sum_list (map (nodes \<circ> snd) kvs)"
    if "scan_members decimal sc n depth keys k s = Inr (l, t)" for depth keys k s l t using Suc that by blast
  show ?case
  proof (intro conjI impI)
    assume a: "scan_value decimal sc (Suc n) depth k s = Inr (l, t)"
    have lim: "int depth \<le> sc_maximum_depth sc" "int (k + 1) \<le> sc_maximum_nodes sc"
      using a by (auto simp: scan_value.simps(2) invalid_def split: if_splits)
    obtain c cs where s: "s = c # cs"
      using a lim by (cases s) (simp_all add: scan_value.simps(2) invalid_def)
    have body: "scan_value decimal sc (Suc n) depth k (c # cs) = Inr (l, t)" using a s by simp
    have leaf: "\<exists>v. reads decimal s v t \<and> value_within sc depth k v \<and> l = k + nodes v"
      if "reads decimal s v t" "height v = 0" "nodes v = 1" "well_formed v" "l = k + 1" for v
      using that lim within_leaf [OF that(2-4)] by metis
    consider "c = 0x7B" | "c = 0x5B" | "c = 0x22" | "c = 0x74" | "c = 0x66" | "c = 0x6E"
      | "c \<noteq> 0x7B" "c \<noteq> 0x5B" "c \<noteq> 0x22" "c \<noteq> 0x74" "c \<noteq> 0x66" "c \<noteq> 0x6E" by blast
    then show "\<exists>v. reads decimal s v t \<and> value_within sc depth k v \<and> l = k + nodes v"
    proof cases
      case 1
      show ?thesis
      proof (cases rule: scan_char_cases [of "skip_ws cs" "0x7D" sc])
        case (1 r)
        then have "r = t" "l = k + 1" using body lim \<open>c = 0x7B\<close> by (simp_all add: scan_value.simps(2))
        then show ?thesis using leaf [of "JObj []"] reads_empty_object [of cs t decimal] 1(1) s \<open>c = 0x7B\<close> by (simp add: deepest_def)
      next
        case 2
        then have "scan_members decimal sc n (depth + 1) [] (k + 1) (skip_ws cs) = Inr (l, t)"
          using body lim \<open>c = 0x7B\<close> by (simp add: scan_value.simps(2) invalid_def)
        then obtain kvs where "reads_members decimal (skip_ws cs) kvs t" "members_within sc (depth + 1) [] (k + 1) kvs"
          "l = k + 1 + sum_list (map (nodes \<circ> snd) kvs)" using M by blast
        then have "reads decimal s (JObj kvs) t" "value_within sc depth k (JObj kvs)" "l = k + nodes (JObj kvs)"
          using reads_object s \<open>c = 0x7B\<close> lim within_containers(2) by (simp_all add: comp_def)
        then show ?thesis by blast
      qed
    next
      case 2
      show ?thesis
      proof (cases rule: scan_char_cases [of "skip_ws cs" "0x5D" sc])
        case (1 r)
        then have "r = t" "l = k + 1" using body lim \<open>c = 0x5B\<close> by (simp_all add: scan_value.simps(2))
        then show ?thesis using leaf [of "JArr []"] reads_empty_array [of cs t decimal] 1(1) s \<open>c = 0x5B\<close> by (simp add: deepest_def)
      next
        case 2
        then have "scan_items decimal sc n (depth + 1) (k + 1) (skip_ws cs) = Inr (l, t)"
          using body lim \<open>c = 0x5B\<close> by (simp add: scan_value.simps(2) invalid_def)
        then obtain xs where "reads_items decimal (skip_ws cs) xs t" "items_within sc (depth + 1) (k + 1) xs"
          "l = k + 1 + sum_list (map nodes xs)" using I by blast
        then have "reads decimal s (JArr xs) t" "value_within sc depth k (JArr xs)" "l = k + nodes (JArr xs)"
          using reads_array s \<open>c = 0x5B\<close> lim within_containers(1) by simp_all
        then show ?thesis by blast
      qed
    next
      case 3
      then obtain u where "scan_string decimal sc s = Inr (u, t)" "l = k + 1"
        using body lim s by (auto simp: scan_value.simps(2) bind_r_eq_Inr)
      then show ?thesis using leaf [of "JStr u"] reads_string [of cs u t] s 3 by (simp add: scan_string_iff)
    next
      case 4
      then have "s = js ''true'' @ t" "l = k + 1"
        using body lim s by (auto simp: scan_value.simps(2) bind_r_eq_Inr scan_literal_eq_Inr)
      then show ?thesis using leaf [of "JBool True"] reads_true by simp
    next
      case 5
      then have "s = js ''false'' @ t" "l = k + 1"
        using body lim s by (auto simp: scan_value.simps(2) bind_r_eq_Inr scan_literal_eq_Inr)
      then show ?thesis using leaf [of "JBool False"] reads_false by simp
    next
      case 6
      then have "s = js ''null'' @ t" "l = k + 1"
        using body lim s by (auto simp: scan_value.simps(2) bind_r_eq_Inr scan_literal_eq_Inr)
      then show ?thesis using leaf [of "JNull"] reads_null by simp
    next
      case 7
      then obtain u w where "scan_number s = Some (u, w, t)" "l = k + 1"
        using body lim s by (auto simp: scan_value.simps(2) invalid_def split: option.splits)
      then show ?thesis using leaf [OF reads_number] by auto
    qed
  next
    assume a: "scan_items decimal sc (Suc n) depth k s = Inr (l, t)"
    then obtain m r where m: "scan_value decimal sc n depth k s = Inr (m, r)"
      by (auto simp: scan_items.simps(2) bind_r_eq_Inr)
    then obtain x where x: "reads decimal s x r" "value_within sc depth k x" "m = k + nodes x" using V by blast
    show "\<exists>xs. reads_items decimal s xs t \<and> items_within sc depth k xs \<and> l = k + sum_list (map nodes xs)"
    proof (cases rule: scan_char_cases [of "skip_ws r" "0x5D" sc])
      case (1 q)
      then have "q = t" "l = m" using a m by (simp_all add: scan_items.simps(2))
      then have "reads_items decimal s [x] t" "items_within sc depth k [x]" "l = k + sum_list (map nodes [x])"
        using reads_last_item [OF x(1)] 1(1) x(2,3) by (simp_all add: within_single)
      then show ?thesis by blast
    next
      case 2
      then obtain q where q: "skip_ws r = 0x2C # q" "scan_items decimal sc n depth m (skip_ws q) = Inr (l, t)"
        using a m by (auto simp: scan_items.simps(2) bind_r_eq_Inr invalid_def scan_char_eq_Inr)
      then obtain xs where "reads_items decimal (skip_ws q) xs t" "items_within sc depth m xs" "l = m + sum_list (map nodes xs)"
        using I by blast
      then have "reads_items decimal s (x # xs) t" "items_within sc depth k (x # xs)" "l = k + sum_list (map nodes (x # xs))"
        using reads_more_items [OF x(1) q(1)] x(2,3) by (simp_all add: within_Cons)
      then show ?thesis by blast
    qed
  next
    assume a: "scan_members decimal sc (Suc n) depth keys k s = Inr (l, t)"
    obtain cs where s: "s = 0x22 # cs" using a by (cases s) (auto simp: scan_members.simps(2) invalid_def split: if_splits)
    obtain key t1 t2 m t3 where e: "parse_string_body cs = Some (key, t1)" "key \<notin> set keys" "skip_ws t1 = 0x3A # t2"
      "scan_value decimal sc n depth k (skip_ws t2) = Inr (m, t3)"
      using a unfolding s by (auto simp: scan_members.simps(2) bind_r_eq_Inr scan_string_iff scan_char_eq_Inr split: if_splits)
    have rest: "(case scan_char sc 0x7D (skip_ws t3) of Inr r \<Rightarrow> Inr (m, r)
        | Inl _ \<Rightarrow> bind_r (scan_char sc 0x2C (skip_ws t3)) (\<lambda>r. scan_members decimal sc n depth (key # keys) m (skip_ws r))) = Inr (l, t)"
      using a e scan_string_iff [of decimal sc cs key t1] unfolding s by (simp add: scan_members.simps(2) scan_char_def)
    obtain v where v: "reads decimal (skip_ws t2) v t3" "value_within sc depth k v" "m = k + nodes v" using V e(4) by blast
    show "\<exists>kvs. reads_members decimal s kvs t \<and> members_within sc depth keys k kvs \<and> l = k + sum_list (map (nodes \<circ> snd) kvs)"
    proof (cases rule: scan_char_cases [of "skip_ws t3" "0x7D" sc])
      case (1 q)
      then have "q = t" "l = m" using rest by simp_all
      then have "reads_members decimal s [(key, v)] t" "members_within sc depth keys k [(key, v)]"
        "l = k + sum_list (map (nodes \<circ> snd) [(key, v)])"
        using reads_last_member [OF e(1,3) v(1)] 1(1) e(2) v(2,3) s by (simp_all add: within_single)
      then show ?thesis by blast
    next
      case 2
      then obtain q where q: "skip_ws t3 = 0x2C # q" "scan_members decimal sc n depth (key # keys) m (skip_ws q) = Inr (l, t)"
        using rest by (auto simp: bind_r_eq_Inr invalid_def scan_char_eq_Inr)
      then obtain kvs where "reads_members decimal (skip_ws q) kvs t" "members_within sc depth (key # keys) m kvs"
        "l = m + sum_list (map (nodes \<circ> snd) kvs)" using M by blast
      then have "reads_members decimal s ((key, v) # kvs) t" "members_within sc depth keys k ((key, v) # kvs)"
        "l = k + sum_list (map (nodes \<circ> snd) ((key, v) # kvs))"
        using reads_more_members [OF e(1,3) v(1) q(1)] e(2) v(2,3) s by (simp_all add: within_Cons)
      then show ?thesis by blast
    qed
  qed
qed simp_all

lemma items_not_end: "reads_items decimal (skip_ws cs) xs t \<Longrightarrow> scan_char sc 0x5D (skip_ws cs) = invalid sc"
  using reads_head(1) by (fastforce simp: scan_char_def)

lemma members_not_end: "reads_members decimal (skip_ws cs) kvs t \<Longrightarrow> scan_char sc 0x7D (skip_ws cs) = invalid sc"
  using reads_head(2) by (fastforce simp: scan_char_def)

lemma scan_words:
  "scan_literal sc ''null'' (js ''null'' @ t) = Inr t" "scan_literal sc ''true'' (js ''true'' @ t) = Inr t"
  "scan_literal sc ''false'' (js ''false'' @ t) = Inr t"
  by (simp_all add: scan_literal_eq_Inr)

lemma reads_scanned:
  "reads decimal s v t \<Longrightarrow> value_within sc depth k v \<Longrightarrow> 2 * length s \<le> n \<Longrightarrow>
     scan_value decimal sc n depth k s = Inr (k + nodes v, t)"
  "reads_items decimal s xs t \<Longrightarrow> items_within sc depth k xs \<Longrightarrow> 2 * length s + 1 \<le> n \<Longrightarrow>
     scan_items decimal sc n depth k s = Inr (k + sum_list (map nodes xs), t)"
  "reads_members decimal s kvs t \<Longrightarrow> members_within sc depth keys k kvs \<Longrightarrow> 2 * length s + 1 \<le> n \<Longrightarrow>
     scan_members decimal sc n depth keys k s = Inr (k + sum_list (map (nodes \<circ> snd) kvs), t)"
proof (induction arbitrary: n depth k and n depth k and n depth k keys rule: reads_reads_items_reads_members.inducts)
  case (reads_null t)
  then show ?case using scan_words(1) [of sc t]
    by (cases n) (simp_all add: scan_value.simps(2) within_leaf words_head)
next
  case (reads_true t)
  then show ?case using scan_words(2) [of sc t]
    by (cases n) (simp_all add: scan_value.simps(2) within_leaf words_head)
next
  case (reads_false t)
  then show ?case using scan_words(3) [of sc t]
    by (cases n) (simp_all add: scan_value.simps(2) within_leaf words_head)
next
  case (reads_number s u plain t)
  obtain c cs where c: "s = c # cs" "c = 0x2D \<or> is_digit c" by (rule scan_number_head [OF reads_number(1)])
  then show ?case using reads_number digit_is_no_mark [OF c(2)]
    by (cases n) (simp_all add: scan_value.simps(2) within_leaf)
next
  case (reads_string cs u t)
  then have "scan_string decimal sc (0x22 # cs) = Inr (u, t)" by (simp add: scan_string_iff)
  with reads_string show ?case by (cases n) (simp_all add: scan_value.simps(2) within_leaf)
next
  case (reads_empty_array cs t)
  then have "scan_char sc 0x5D (skip_ws cs) = Inr t" by (simp add: scan_char_eq_Inr)
  with reads_empty_array show ?case by (cases n) (simp_all add: scan_value.simps(2) within_leaf deepest_def)
next
  case (reads_array cs xs t)
  obtain m where n: "n = Suc m" using reads_array(4) by (cases n) auto
  have "scan_items decimal sc m (depth + 1) (k + 1) (skip_ws cs) = Inr (k + 1 + sum_list (map nodes xs), t)"
    using reads_array(3,4) length_skip_ws [of cs] n by (intro reads_array(2)) (simp_all add: within_containers(1))
  then show ?case using items_not_end [OF reads_array(1)] reads_array(3) n
    by (simp add: scan_value.simps(2) invalid_def within_containers(1))
next
  case (reads_empty_object cs t)
  then have "scan_char sc 0x7D (skip_ws cs) = Inr t" by (simp add: scan_char_eq_Inr)
  with reads_empty_object show ?case by (cases n) (simp_all add: scan_value.simps(2) within_leaf deepest_def)
next
  case (reads_object cs kvs t)
  obtain m where n: "n = Suc m" using reads_object(4) by (cases n) auto
  have "scan_members decimal sc m (depth + 1) [] (k + 1) (skip_ws cs) = Inr (k + 1 + sum_list (map (nodes \<circ> snd) kvs), t)"
    using reads_object(3,4) length_skip_ws [of cs] n by (intro reads_object(2)) (simp_all add: within_containers(2))
  then show ?case using members_not_end [OF reads_object(1)] reads_object(3) n
    by (simp add: scan_value.simps(2) invalid_def within_containers(2) comp_def)
next
  case (reads_last_item s x t r)
  obtain m where n: "n = Suc m" using reads_last_item.prems(2) by (cases n) auto
  have "scan_value decimal sc m depth k s = Inr (k + nodes x, t)"
    using reads_last_item.prems n by (intro reads_last_item.IH(2)) (simp_all add: within_single)
  moreover have "scan_char sc 0x5D (skip_ws t) = Inr r" using reads_last_item.hyps(1) by (simp add: scan_char_eq_Inr)
  ultimately show ?case using n by (simp add: scan_items.simps(2))
next
  case (reads_more_items s x t r xs w)
  obtain m where n: "n = Suc m" using reads_more_items.prems(2) by (cases n) auto
  have "scan_value decimal sc m depth k s = Inr (k + nodes x, t)"
    using reads_more_items.prems n by (intro reads_more_items.IH(2)) (simp_all add: within_Cons)
  moreover have "scan_items decimal sc m depth (k + nodes x) (skip_ws r) = Inr (k + nodes x + sum_list (map nodes xs), w)"
    using reads_more_items.prems n reads_shorter(1) [OF reads_more_items.IH(1)] skip_ws_Cons [OF reads_more_items.hyps(1)] length_skip_ws [of r]
    by (intro reads_more_items.IH(4)) (simp_all add: within_Cons)
  moreover have "scan_char sc 0x5D (skip_ws t) = invalid sc" "scan_char sc 0x2C (skip_ws t) = Inr r"
    using reads_more_items.hyps(1) by (simp_all add: scan_char_def)
  ultimately show ?case using n by (simp add: scan_items.simps(2) invalid_def add.assoc)
next
  case (reads_last_member cs key t1 t2 v t3 r)
  obtain m where n: "n = Suc m" using reads_last_member.prems(2) by (cases n) auto
  have "length (skip_ws t2) < length cs"
    using parse_string_body_shorter [OF reads_last_member.hyps(1)] skip_ws_Cons [OF reads_last_member.hyps(2)] length_skip_ws [of t2] by simp
  then have "scan_value decimal sc m depth k (skip_ws t2) = Inr (k + nodes v, t3)"
    using reads_last_member.prems n by (intro reads_last_member.IH(2)) (simp_all add: within_single)
  moreover have "scan_string decimal sc (0x22 # cs) = Inr (key, t1)" "scan_char sc 0x3A (skip_ws t1) = Inr t2"
    "scan_char sc 0x7D (skip_ws t3) = Inr r"
    using reads_last_member.hyps by (simp_all add: scan_string_iff scan_char_eq_Inr)
  ultimately show ?case using n reads_last_member.prems(1) by (simp add: scan_members.simps(2) within_single)
next
  case (reads_more_members cs key t1 t2 v t3 r kvs w)
  obtain m where n: "n = Suc m" using reads_more_members.prems(2) by (cases n) auto
  have l: "length (skip_ws t2) < length cs"
    using parse_string_body_shorter [OF reads_more_members.hyps(1)] skip_ws_Cons [OF reads_more_members.hyps(2)] length_skip_ws [of t2] by simp
  then have "scan_value decimal sc m depth k (skip_ws t2) = Inr (k + nodes v, t3)"
    using reads_more_members.prems n by (intro reads_more_members.IH(2)) (simp_all add: within_Cons)
  moreover have "length (skip_ws r) < length (skip_ws t2)"
    using reads_shorter(1) [OF reads_more_members.IH(1)] skip_ws_Cons [OF reads_more_members.hyps(3)] length_skip_ws [of r] by simp
  then have "scan_members decimal sc m depth (key # keys) (k + nodes v) (skip_ws r) = Inr (k + nodes v + sum_list (map (nodes \<circ> snd) kvs), w)"
    using reads_more_members.prems n l by (intro reads_more_members.IH(4)) (simp_all add: within_Cons)
  moreover have "scan_string decimal sc (0x22 # cs) = Inr (key, t1)" "scan_char sc 0x3A (skip_ws t1) = Inr t2"
    "scan_char sc 0x7D (skip_ws t3) = invalid sc" "scan_char sc 0x2C (skip_ws t3) = Inr r"
    using reads_more_members.hyps by (simp_all add: scan_string_iff scan_char_def)
  ultimately show ?case using n reads_more_members.prems(1) by (simp add: scan_members.simps(2) within_Cons invalid_def add.assoc comp_def)
qed

text \<open>Running out of fuel is never the reason to refuse a text.\<close>

lemma scan_error:
  "(scan_value decimal sc n depth k s = Inl e \<longrightarrow> 2 * length s + 1 \<le> n \<longrightarrow> e \<in> {Broker (sc_code sc) 503 False, Broker (sc_code sc @ js ''_DUPLICATE_FIELD'') 503 False}) \<and>
   (scan_items decimal sc n depth k s = Inl e \<longrightarrow> 2 * length s + 2 \<le> n \<longrightarrow> e \<in> {Broker (sc_code sc) 503 False, Broker (sc_code sc @ js ''_DUPLICATE_FIELD'') 503 False}) \<and>
   (scan_members decimal sc n depth keys k s = Inl e \<longrightarrow> 2 * length s + 2 \<le> n \<longrightarrow> e \<in> {Broker (sc_code sc) 503 False, Broker (sc_code sc @ js ''_DUPLICATE_FIELD'') 503 False})"
proof (induction n arbitrary: depth keys k s)
  case (Suc n)
  define E where "E = {Broker (sc_code sc) 503 False, Broker (sc_code sc @ js ''_DUPLICATE_FIELD'') 503 False}"
  have E: "Broker (sc_code sc) 503 False \<in> E" "Broker (sc_code sc @ js ''_DUPLICATE_FIELD'') 503 False \<in> E" by (simp_all add: E_def)
  have V: "e \<in> E" if "scan_value decimal sc n depth k s = Inl e" "2 * length s + 1 \<le> n" for depth k s using Suc that unfolding E_def by blast
  have I: "e \<in> E" if "scan_items decimal sc n depth k s = Inl e" "2 * length s + 2 \<le> n" for depth k s using Suc that unfolding E_def by blast
  have M: "e \<in> E" if "scan_members decimal sc n depth keys k s = Inl e" "2 * length s + 2 \<le> n" for depth keys k s using Suc that unfolding E_def by blast
  have chars: "scan_char sc c x = Inl e \<Longrightarrow> e \<in> E" "scan_literal sc w x = Inl e \<Longrightarrow> e \<in> E" "scan_string decimal sc x = Inl e \<Longrightarrow> e \<in> E"
    for c w x
    by (auto simp: E scan_char_def scan_literal_def scan_string_def invalid_def split: list.splits if_splits option.splits sum.splits json.splits)
  have shorter: "length t < length s" if "scan_value decimal sc n depth k s = Inr (l, t)" for depth k s l t
    using scan_reads [of decimal sc n depth k s l t] that reads_shorter(1) by blast
  show ?case unfolding E_def [symmetric]
  proof (intro conjI impI)
    assume a: "scan_value decimal sc (Suc n) depth k s = Inl e" and n: "2 * length s + 1 \<le> Suc n"
    show "e \<in> E"
    proof (cases s)
      case (Cons c cs)
      have l: "2 * length (skip_ws cs) + 2 \<le> n" using n length_skip_ws [of cs] by (simp add: Cons)
      show ?thesis using a unfolding Cons scan_value.simps(2) list.case
        by (auto simp: E invalid_def bind_r_eq_Inl split: if_splits sum.splits option.splits dest: chars intro: I [OF _ l] M [OF _ l])
    qed (use a in \<open>auto simp: E scan_value.simps(2) invalid_def split: if_splits\<close>)
  next
    assume a: "scan_items decimal sc (Suc n) depth k s = Inl e" and n: "2 * length s + 2 \<le> Suc n"
    show "e \<in> E"
    proof (cases "scan_value decimal sc n depth k s")
      case (Inl f)
      then show ?thesis using a n V by (simp add: scan_items.simps(2))
    next
      case (Inr p)
      obtain l t where p: "p = (l, t)" by (cases p)
      have "length t < length s" using shorter Inr p by blast
      moreover have "length r < length t" if "scan_char sc 0x2C (skip_ws t) = Inr r" for r
        using that skip_ws_Cons [of t "0x2C" r] by (simp add: scan_char_eq_Inr)
      ultimately have "2 * length (skip_ws r) + 2 \<le> n" if "scan_char sc 0x2C (skip_ws t) = Inr r" for r
        using that n length_skip_ws [of r] by fastforce
      then show ?thesis using a Inr p
        by (auto simp: scan_items.simps(2) bind_r_eq_Inl split: sum.splits dest: chars intro: I)
    qed
  next
    assume a: "scan_members decimal sc (Suc n) depth keys k s = Inl e" and n: "2 * length s + 2 \<le> Suc n"
    show "e \<in> E"
    proof (cases "take 1 s = [0x22]")
      case True
      then obtain cs where s: "s = 0x22 # cs" by (cases s) auto
      show ?thesis
      proof (cases "\<exists>key t1 t2. scan_string decimal sc s = Inr (key, t1) \<and> key \<notin> set keys \<and> scan_char sc 0x3A (skip_ws t1) = Inr t2")
        case False
        then show ?thesis using a True
          by (auto simp: E scan_members.simps(2) bind_r_eq_Inl split: if_splits dest: chars)
      next
        case True
        then obtain key t1 t2 where e: "scan_string decimal sc s = Inr (key, t1)" "key \<notin> set keys" "scan_char sc 0x3A (skip_ws t1) = Inr t2"
          by blast
        have "length t1 < length cs" using e(1) parse_string_body_shorter by (auto simp: s scan_string_iff)
        moreover have "length t2 < length t1" using e(3) skip_ws_Cons [of t1 "0x3A" t2] by (simp add: scan_char_eq_Inr)
        ultimately have l2: "2 * length (skip_ws t2) + 1 \<le> n" "length (skip_ws t2) < length cs"
          using n length_skip_ws [of t2] by (simp_all add: s)
        show ?thesis
        proof (cases "scan_value decimal sc n depth k (skip_ws t2)")
          case (Inl f)
          then show ?thesis using a e \<open>take 1 s = [0x22]\<close> V l2(1) by (simp add: scan_members.simps(2))
        next
          case (Inr p)
          obtain l t3 where p: "p = (l, t3)" by (cases p)
          have "length t3 < length (skip_ws t2)" using shorter Inr p by blast
          moreover have "length r < length t3" if "scan_char sc 0x2C (skip_ws t3) = Inr r" for r
            using that skip_ws_Cons [of t3 "0x2C" r] by (simp add: scan_char_eq_Inr)
          ultimately have "2 * length (skip_ws r) + 2 \<le> n" if "scan_char sc 0x2C (skip_ws t3) = Inr r" for r
            using that n l2(2) length_skip_ws [of r] by (fastforce simp: s)
          then show ?thesis using a e \<open>take 1 s = [0x22]\<close> Inr p
            by (auto simp: E scan_members.simps(2) bind_r_eq_Inl split: sum.splits dest: chars intro: M)
        qed
      qed
    qed (use a in \<open>auto simp: E scan_members.simps(2) invalid_def\<close>)
  qed
qed simp_all

section \<open>Properties\<close>

lemma scan_text_iff:
  "scan_text decimal sc s = Inr () \<longleftrightarrow>
     (\<exists>v t. reads decimal (skip_ws s) v t \<and> skip_ws t = [] \<and> value_within sc 0 0 v)"
proof
  assume "scan_text decimal sc s = Inr ()"
  then obtain l t where "scan_value decimal sc (2 * length s + 2) 0 0 (skip_ws s) = Inr (l, t)" "skip_ws t = []"
    by (auto simp: scan_text_def bind_r_eq_Inr invalid_def split: if_splits)
  then show "\<exists>v t. reads decimal (skip_ws s) v t \<and> skip_ws t = [] \<and> value_within sc 0 0 v"
    using scan_reads [of decimal sc "2 * length s + 2" 0 0 "skip_ws s" l t "[]"] by blast
next
  assume "\<exists>v t. reads decimal (skip_ws s) v t \<and> skip_ws t = [] \<and> value_within sc 0 0 v"
  then obtain v t where v: "reads decimal (skip_ws s) v t" "skip_ws t = []" "value_within sc 0 0 v" by blast
  have "scan_value decimal sc (2 * length s + 2) 0 0 (skip_ws s) = Inr (0 + nodes v, t)"
    using length_skip_ws [of s] by (intro reads_scanned(1) v(1,3)) simp
  then show "scan_text decimal sc s = Inr ()" by (simp add: scan_text_def v(2))
qed

lemma read_text_parses:
  assumes "reads decimal (skip_ws s) v t" and "skip_ws t = []" and "well_formed v"
  shows "json_parse decimal s = Inr v"
proof -
  have "parse_value decimal (2 * length s + 2) (skip_ws s) = Some (v, t)"
    using length_skip_ws [of s] by (intro reads_parsed(1) assms(1,3)) simp
  then show ?thesis using assms(2) by (simp add: json_parse_def)
qed

text \<open>C40: The strict decoder accepts exactly the UTF-8 texts (a byte order mark aside) that the JSON grammar reads
  as an object without repeated member names, within its limits on depth and nodes, and returns that object.\<close>

theorem strict_decoder_is_exact:
  "parse_strict_json_object decimal bs code depth_limit nodes_limit = Inr kvs \<longleftrightarrow>
     1 \<le> depth_limit \<and> depth_limit \<le> max_safe \<and> 1 \<le> nodes_limit \<and> nodes_limit \<le> max_safe \<and>
     (\<exists>s t. text_decode bs = Some s \<and> reads decimal (skip_ws s) (JObj kvs) t \<and> skip_ws t = [] \<and>
        well_formed (JObj kvs) \<and> int (height (JObj kvs)) \<le> depth_limit \<and> int (nodes (JObj kvs)) \<le> nodes_limit)"
proof
  assume a: "parse_strict_json_object decimal bs code depth_limit nodes_limit = Inr kvs"
  then obtain s sc where s: "text_decode bs = Some s" "new_scanner code depth_limit nodes_limit = Inr sc"
    "scan_text decimal sc s = Inr ()" "json_parse decimal s = Inr (JObj kvs)"
    by (auto simp: parse_strict_json_object_def bind_r_eq_Inr split: option.splits sum.splits json.splits)
  obtain v t where v: "reads decimal (skip_ws s) v t" "skip_ws t = []" "value_within sc 0 0 v"
    using s(3) unfolding scan_text_iff by blast
  have "v = JObj kvs" using read_text_parses [OF v(1,2)] v(3) s(4) by (simp add: value_within_def)
  moreover have "sc = \<lparr>sc_code = code, sc_maximum_depth = depth_limit, sc_maximum_nodes = nodes_limit\<rparr>"
    "1 \<le> depth_limit" "depth_limit \<le> max_safe" "1 \<le> nodes_limit" "nodes_limit \<le> max_safe"
    using s(2) by (auto simp: new_scanner_def split: if_splits)
  ultimately show "1 \<le> depth_limit \<and> depth_limit \<le> max_safe \<and> 1 \<le> nodes_limit \<and> nodes_limit \<le> max_safe \<and>
     (\<exists>s t. text_decode bs = Some s \<and> reads decimal (skip_ws s) (JObj kvs) t \<and> skip_ws t = [] \<and>
        well_formed (JObj kvs) \<and> int (height (JObj kvs)) \<le> depth_limit \<and> int (nodes (JObj kvs)) \<le> nodes_limit)"
    using s(1) v by (auto simp: value_within_def simp del: height.simps nodes.simps well_formed.simps)
next
  assume a: "1 \<le> depth_limit \<and> depth_limit \<le> max_safe \<and> 1 \<le> nodes_limit \<and> nodes_limit \<le> max_safe \<and>
     (\<exists>s t. text_decode bs = Some s \<and> reads decimal (skip_ws s) (JObj kvs) t \<and> skip_ws t = [] \<and>
        well_formed (JObj kvs) \<and> int (height (JObj kvs)) \<le> depth_limit \<and> int (nodes (JObj kvs)) \<le> nodes_limit)"
  let ?sc = "\<lparr>sc_code = code, sc_maximum_depth = depth_limit, sc_maximum_nodes = nodes_limit\<rparr>"
  obtain s t where s: "text_decode bs = Some s" "reads decimal (skip_ws s) (JObj kvs) t" "skip_ws t = []" "well_formed (JObj kvs)"
    "int (height (JObj kvs)) \<le> depth_limit" "int (nodes (JObj kvs)) \<le> nodes_limit" using a by blast
  have "new_scanner code depth_limit nodes_limit = Inr ?sc" using a by (simp add: new_scanner_def)
  moreover have "value_within ?sc 0 0 (JObj kvs)"
    using s(4-6) by (simp add: value_within_def del: height.simps nodes.simps well_formed.simps)
  then have "scan_text decimal ?sc s = Inr ()" unfolding scan_text_iff using s(2,3) by blast
  ultimately show "parse_strict_json_object decimal bs code depth_limit nodes_limit = Inr kvs"
    using s(1) read_text_parses [OF s(2-4)] by (simp add: parse_strict_json_object_def)
qed

text \<open>Whatever the bytes, a refusal is one of the decoder's own errors: not UTF-8, limits that are no positive
  integers, a repeated member name, or an invalid text. Running out of stack in the model is excluded.\<close>

theorem strict_decoder_errors:
  assumes "parse_strict_json_object decimal bs code depth_limit nodes_limit = Inl e"
  shows "e \<in> {Broker (code @ js ''_UTF8_INVALID'') 503 False, broker ''STRICT_JSON_BUDGET_INVALID'' 500 False,
     Broker (code @ js ''_DUPLICATE_FIELD'') 503 False, Broker code 503 False}"
proof (cases "text_decode bs")
  case (Some s)
  have scan: "e \<in> {Broker (sc_code sc) 503 False, Broker (sc_code sc @ js ''_DUPLICATE_FIELD'') 503 False}"
    if "scan_text decimal sc s = Inl e" for sc
  proof -
    have l: "2 * length (skip_ws s) + 1 \<le> 2 * length s + 2" using length_skip_ws [of s] by simp
    show ?thesis using that scan_error [of decimal sc "2 * length s + 2" 0 0 "skip_ws s" e] l
      by (auto simp: scan_text_def bind_r_eq_Inl invalid_def split: if_splits)
  qed
  have code: "sc_code sc = code" if "new_scanner code depth_limit nodes_limit = Inr sc" for sc
    using that by (auto simp: new_scanner_def split: if_splits)
  show ?thesis
  proof (cases "new_scanner code depth_limit nodes_limit")
    case (Inl f)
    then show ?thesis using assms Some by (auto simp: parse_strict_json_object_def new_scanner_def split: if_splits)
  next
    case (Inr sc)
    then show ?thesis using assms Some scan [of sc] code [of sc]
      by (auto simp: parse_strict_json_object_def bind_r_eq_Inl split: sum.splits json.splits)
  qed
qed (use assms in \<open>simp add: parse_strict_json_object_def\<close>)

text \<open>A repeated name is refused, where \<open>JSON.parse\<close> alone would let the last one win.\<close>

theorem strict_decoder_errors_witness:
  "\<exists>e. parse_strict_json_object (\<lambda>_. JOther) (utf8_encode (js ''{\"a\":1,\"a\":2}'')) (js ''CODE'') 64 100000 = Inl e \<and>
     e \<in> {Broker (js ''CODE'' @ js ''_UTF8_INVALID'') 503 False, broker ''STRICT_JSON_BUDGET_INVALID'' 500 False,
      Broker (js ''CODE'' @ js ''_DUPLICATE_FIELD'') 503 False, Broker (js ''CODE'') 503 False}"
proof -
  let ?s = "js ''{\"a\":1,\"a\":2}''" and ?sc = "\<lparr>sc_code = js ''CODE'', sc_maximum_depth = 64, sc_maximum_nodes = 100000\<rparr>"
  have "has_only_unicode_scalars ?s" "take 1 ?s \<noteq> [0xFEFF]" by code_simp+
  then have "text_decode (utf8_encode ?s) = Some ?s" by (rule text_decode_encode)
  moreover have "new_scanner (js ''CODE'') 64 100000 = Inr ?sc" by (simp add: new_scanner_def max_safe_def)
  moreover have "scan_text (\<lambda>_. JOther) ?sc ?s = Inl (Broker (js ''CODE'' @ js ''_DUPLICATE_FIELD'') 503 False)" by code_simp
  ultimately have refused: "parse_strict_json_object (\<lambda>_. JOther) (utf8_encode ?s) (js ''CODE'') 64 100000 =
      Inl (Broker (js ''CODE'' @ js ''_DUPLICATE_FIELD'') 503 False)" by (simp add: parse_strict_json_object_def)
  from strict_decoder_errors [OF refused] refused show ?thesis by blast
qed

end
