(* ===== verification/Spec2Isabelle.thy ===== *)
theory Spec2Isabelle
  imports Prelude JsRegex JsTime Unicode Json Validation ReplayLedger ReplayHistory B2Inventory WormStore
    JsonParse Canonical Bindings WormHistory WormSafety WormRunner AuthorityFields HeadDocument HeadProof
    EffectReservation AuthorityStorage HeadStore EffectStore EffectRpc HeadRpc Coordinator GlobalHead AuthorityHistory AuthorityInvariant CoordinatorHistory
    RemoteLedger AuthorityObject AuthorityReadback EffectCompletion
    AuthoritySample AuthoritySafety PublicZip PublicZipExact PublicCanonical PublicFields PublicDistributions PublicSidecar PublicSidecarExact PublicReplay
    PublicActivation PublicActivationExact PublicIssuance PublicProof PublicProofExact PublicClosure PublicArchive PublicClosureExact StrictJson
begin

text \<open>
  The release authority broker of dpone-release-controller: the TypeScript workers under
  \<open>src/broker/src\<close>. The broker decides, once and durably, which release may be published: it admits a
  signed request once, advances an account-wide chain of activation records, mirrors what it decided into
  write-once storage, and publishes documents from which the decision can be checked without it.

  \<^bold>\<open>The parts and how they interact.\<close> A request carries a token. The replay ledger
  (\<open>auth-replay-ledger.ts\<close>, \<open>auth-replay-effect-store.ts\<close>) admits the token once, or prepares it for an
  effect that is then committed or cancelled. The authority object (\<open>global-activated-authority-head.ts\<close>)
  owns two tables: the heads (\<open>activated-authority-head-store.ts\<close>), one generation after the other, each
  mirrored into write-once storage before it counts; and the effects reserved under a head
  (\<open>activated-authority-effect-store.ts\<close>). Its coordinator (\<open>activated-authority-effect-coordinator.ts\<close>)
  carries an effect from reservation to confirmation, and calls the replay ledger, another durable object
  across the network, on the way. Objects reach write-once storage through a journal of their own
  (\<open>worm-exact-object-effect-*.ts\<close>), which dispatches an upload once and accepts exactly one version. What
  the broker publishes are the candidate documents of \<open>candidate-public-v2\<close>: A0 and A1, the records of an
  activation, a proof of an activation that is fresh for a minute, the closure of a release, and the archive
  of the three. All of them are canonical JSON.

  \<^bold>\<open>Theories, in the order of the code's layers.\<close>

  \<^item> Texts and values. \<open>Prelude\<close>: strings as 16-bit words, bytes, thrown errors as values of a sum
    (\<open>errors.ts\<close>), storage operations that return a result and the next state, transactions that roll back.
    \<open>JsRegex\<close>, \<open>JsTime\<close>, \<open>Unicode\<close>: the anchored regular expressions, the time values and
    the UTF-8 codecs of the language, as the source uses them. \<open>Json\<close>, \<open>JsonParse\<close>: canonical
    JSON (\<open>canonical.ts\<close>) and \<open>JSON.parse\<close>. \<open>Validation\<close>: field checks and the release binding
    (\<open>validation.ts\<close>). \<open>Canonical\<close>, \<open>Bindings\<close>: canonical text parses back, determines its
    value, exists exactly on the stated domain, and the digests bind what they hash. \<open>StrictJson\<close>: the decoder
    that refuses repeated member names (\<open>strict-json.ts\<close>).
  \<^item> The replay ledger. \<open>ReplayLedger\<close>: both tables and every operation. \<open>ReplayHistory\<close>: its
    histories of calls under a clock that does not run backwards, with the invariant and the once-only
    properties.
  \<^item> Write-once storage. \<open>B2Inventory\<close>: what an observed inventory of versions proves. \<open>WormStore\<close>:
    the one-row journal; \<open>WormHistory\<close>, \<open>WormSafety\<close>: its state machine and invariant;
    \<open>WormRunner\<close>: the runner (\<open>worm-exact-object-effect-runner.ts\<close>) over any outside world.
  \<^item> The authority object. \<open>AuthorityFields\<close>, \<open>HeadDocument\<close>, \<open>HeadProof\<close>,
    \<open>EffectReservation\<close>: its documents with their builders and parsers. \<open>AuthorityStorage\<close>,
    \<open>HeadStore\<close>, \<open>EffectStore\<close>: the two tables and their stores. \<open>EffectRpc\<close>,
    \<open>HeadRpc\<close>: the texts of its calls. \<open>Coordinator\<close>, \<open>GlobalHead\<close>: coordinator and object.
    \<open>AuthorityHistory\<close>, \<open>AuthorityInvariant\<close>, \<open>CoordinatorHistory\<close>, \<open>RemoteLedger\<close>,
    \<open>AuthorityObject\<close>, \<open>AuthorityReadback\<close>, \<open>EffectCompletion\<close>: histories of calls with
    every schedule of the remote ledger (lost requests, lost replies, calls of others in between), the
    invariant of the tables, and what reads back. \<open>AuthoritySafety\<close>: the properties;
    \<open>AuthoritySample\<close>: a state that satisfies the invariant.
  \<^item> The candidate documents. \<open>PublicCanonical\<close>: the budgeted encoder and the exact parser;
    \<open>PublicFields\<close>, \<open>PublicDistributions\<close>: field readers, distribution rows, release identity;
    \<open>PublicSidecar\<close>: the private sidecar and its commitment; \<open>PublicReplay\<close>: the states of a
    publication; \<open>PublicActivation\<close>, \<open>PublicProof\<close>, \<open>PublicClosure\<close>: A0 and A1, the proof,
    the closure; \<open>PublicZip\<close>, \<open>PublicArchive\<close>: the archive, byte by byte. The theories
    \<open>PublicZipExact\<close>, \<open>PublicSidecarExact\<close>, \<open>PublicActivationExact\<close>, \<open>PublicIssuance\<close>,
    \<open>PublicProofExact\<close>, \<open>PublicClosureExact\<close> hold what is proved of them: parsers accept exactly
    what builders produce, identifiers and commitments bind, valid sources are always issued, and the
    documents of an archive are linked.

  \<^bold>\<open>How code corresponds to definitions.\<close> A definition has the name of its function in snake case, or of its
  constant; a record field has a short prefix and the source's column or property. A thrown error is \<open>Inl\<close>
  with its code and, where the source has one, its status and whether it may be retried; so each early
  return is a branch. A durable object is a function from its storage to a result and the next storage;
  \<open>transactionSync\<close> keeps the storage of a body that throws unchanged. Constraints of the tables (primary
  keys, checks) are part of every write, which fails as SQLite does. A JSON value is plain data: the
  descriptor and prototype checks of the source, which reject everything else, have nothing to reject.

  \<^bold>\<open>Parameters.\<close> SHA-256 and SHA-1 are functions on bytes; where it matters they return 32 or 20 bytes, and
  a binding property names the pairs of byte strings on which the hash is asked not to collide. How
  \<open>JSON.parse\<close> rounds a number that is not an integer is a parameter (\<open>decimal\<close>). Readings of a clock are
  arguments, in histories without assumption other than that a ledger's own clock does not run backwards.
  Remote services (write-once storage, the snapshot verification, the observer of an inventory) answer
  anything.

  \<^bold>\<open>Bounds and fuel.\<close> The limits of the source are in the definitions: 32 levels, 100,000 nodes, 1 MiB of
  a string and 16 MiB of canonical text; 65,536 bytes of a public document and of a request body; 8
  transitions of the runner. The parser of JSON takes twice the length of its text and two as fuel, which is
  enough for every text (\<open>JsonParse\<close>): each call that consumes fuel is followed by one that consumes a
  character. The loop of the runner counts down from the source's own limit; \<open>WormRunner\<close> shows that the
  limit is never reached.

  \<^bold>\<open>Not modelled.\<close> HTTP clients, worker entry points, request signing, the verification of token signatures
  and the streams of bounded reads are input and output around the parts above. The text of SQL statements
  is replaced by what the statements do. The deployment scripts build and ship the workers. The activation
  components and operations, the Cloudflare evidence and the service closure checks are protocols of their
  own on top of the same journal and canonical forms; they are left out.
\<close>

end
